(* ===== verification/Prelude.thy ===== *)
theory Prelude
  imports Main "HOL-Library.Word" "HOL-Library.AList" "HOL-Library.Multiset"
begin

text \<open>
  Shared vocabulary of the development: the C strings and integers of the program, the array
  operations the code writes with \<open>memmove\<close>, the part of the C library it calls
  (\<open>towlower\<close>, \<open>swprintf("%d")\<close>, \<open>wcstol\<close>, \<open>wcsspn\<close>), and the generic lemmas on lists
  that the component theories use.

  A string held in a fixed array (\<open>wchar_t name[64]\<close>) is the list of its cells before the first
  NUL, so \<open>length\<close> is \<open>wcslen\<close> and the zeroed array is the empty list; the characters of such a
  list are not NUL. An array that holds no NUL within its capacity \<open>cap\<close> is a list of \<open>cap\<close> or
  more cells, so \<open>wmemchr(s,0,cap)\<close> is \<open>terminated cap s\<close>. A pointer that may be NULL is an
  \<open>option\<close>.
\<close>

type_synonym wchar = "16 word"
type_synonym wstr = "wchar list"
type_synonym byte = "8 word"

named_theorems c_lib \<open>definitions of the C library functions, for evaluation\<close>
named_theorems arrays \<open>facts about arrays updated in place\<close>

subsection \<open>Integer limits (LLP64: long has 32 bits)\<close>

definition LLONG_MAX :: int where "LLONG_MAX = 9223372036854775807"
definition LLONG_MIN :: int where "LLONG_MIN = - 9223372036854775808"
definition LONG_MAX :: int where "LONG_MAX = 2147483647"
definition LONG_MIN :: int where "LONG_MIN = - 2147483648"

subsection \<open>Strings\<close>

definition W :: "string \<Rightarrow> wstr" where
  \<comment> \<open>the wide literal \<open>L"..."\<close>\<close>
  "W s = map of_char s"

definition terminated :: "nat \<Rightarrow> wstr \<Rightarrow> bool" where
  \<comment> \<open>\<open>wmemchr(s,0,cap)!=NULL\<close>\<close>
  "terminated cap s \<longleftrightarrow> length s < cap"

definition towlower :: "wchar \<Rightarrow> wchar" where
  \<comment> \<open>the \<open>"C"\<close> locale, which the program never leaves\<close>
  "towlower c = (if 65 \<le> c \<and> c \<le> 90 then c + 32 else c)"

definition is_blank :: "wchar \<Rightarrow> bool" where
  \<comment> \<open>a character of the set \<open>L" \t\r\n"\<close>\<close>
  "is_blank c \<longleftrightarrow> c = 32 \<or> c = 9 \<or> c = 13 \<or> c = 10"

definition has_nonblank :: "wstr \<Rightarrow> bool" where
  \<comment> \<open>\<open>s[wcsspn(s,L" \t\r\n")]\<close> is not NUL\<close>
  "has_nonblank s \<longleftrightarrow> dropWhile is_blank s \<noteq> []"

definition starts_with :: "'a list \<Rightarrow> 'a list \<Rightarrow> bool" where
  "starts_with s p \<longleftrightarrow> take (length p) s = p"

lemma of_char_wchar_inj: "(of_char a :: wchar) = of_char b \<longleftrightarrow> a = b"
proof
  assume eq: "(of_char a :: wchar) = of_char b"
  have small: "of_char c < (2::nat) ^ 16" for c
    by (rule less_trans [OF nat_of_char_less_256]) simp
  have val: "unat (of_char c :: wchar) = of_char c" for c
    using small [of c]
    by (simp add: unsigned_of_nat take_bit_nat_eq_self flip: of_nat_of_char [where ?'a = wchar])
  from eq have "(of_char a :: nat) = of_char b"
    by (metis val)
  then show "a = b" by (rule of_char_eqI)
qed simp

lemma W_eq_iff [simp]: "W s = W t \<longleftrightarrow> s = t"
  unfolding W_def
  by (rule inj_map_eq_map) (simp add: inj_def of_char_wchar_inj)

lemma W_Nil [simp]: "W [] = []" and W_Cons: "W (c # s) = of_char c # W s"
  and W_append: "W (s @ t) = W s @ W t"
  by (simp_all add: W_def)

lemma W_eq_Nil [simp]: "W s = [] \<longleftrightarrow> s = []"
  by (simp add: W_def)

lemma length_W [simp]: "length (W s) = length s"
  by (simp add: W_def)

subsection \<open>Decimal numbers: \<open>swprintf("%d")\<close> and \<open>wcstol\<close>\<close>

definition digit_char :: "nat \<Rightarrow> wchar" where
  "digit_char d = 48 + of_nat d"

definition is_digit :: "wchar \<Rightarrow> bool" where
  "is_digit c \<longleftrightarrow> 48 \<le> c \<and> c \<le> 57"

definition digit_val :: "wchar \<Rightarrow> int" where
  "digit_val c = uint c - 48"

fun dec_nat :: "nat \<Rightarrow> wstr" where
  "dec_nat n = (if n < 10 then [digit_char n] else dec_nat (n div 10) @ [digit_char (n mod 10)])"

declare dec_nat.simps [simp del]

definition dec :: "int \<Rightarrow> wstr" where
  \<comment> \<open>what \<open>"%d"\<close> and \<open>"%lld"\<close> print\<close>
  "dec i = (if i < 0 then 45 # dec_nat (nat (- i)) else dec_nat (nat i))"

definition is_space :: "wchar \<Rightarrow> bool" where
  \<comment> \<open>\<open>iswspace\<close> in the \<open>"C"\<close> locale\<close>
  "is_space c \<longleftrightarrow> c = 32 \<or> (9 \<le> c \<and> c \<le> 13)"

definition digits_val :: "wstr \<Rightarrow> int" where
  "digits_val s = foldl (\<lambda>a c. a * 10 + digit_val c) 0 s"

record parsed =
  p_value :: int      \<comment> \<open>the value returned, clamped to the type\<close>
  p_rest :: wstr      \<comment> \<open>what \<open>*end\<close> points to\<close>
  p_range :: bool     \<comment> \<open>\<open>errno == ERANGE\<close>\<close>

definition wcsto :: "int \<Rightarrow> int \<Rightarrow> wstr \<Rightarrow> parsed" where
  \<comment> \<open>\<open>wcstol\<close> and \<open>wcstoll\<close> in base 10, for a type with the given limits\<close>
  "wcsto lo hi s =
     (let t = dropWhile is_space s;
          neg = (case t of c # _ \<Rightarrow> c = 45 | [] \<Rightarrow> False);
          plus = (case t of c # _ \<Rightarrow> c = 43 | [] \<Rightarrow> False);
          u = (if neg \<or> plus then tl t else t);
          ds = takeWhile is_digit u;
          v = (if neg then - digits_val ds else digits_val ds)
      in if ds = [] then \<lparr>p_value = 0, p_rest = s, p_range = False\<rparr>
         else if v < lo then \<lparr>p_value = lo, p_rest = dropWhile is_digit u, p_range = True\<rparr>
         else if hi < v then \<lparr>p_value = hi, p_rest = dropWhile is_digit u, p_range = True\<rparr>
         else \<lparr>p_value = v, p_rest = dropWhile is_digit u, p_range = False\<rparr>)"

definition wcstol :: "wstr \<Rightarrow> parsed" where "wcstol = wcsto LONG_MIN LONG_MAX"
definition wcstoll :: "wstr \<Rightarrow> parsed" where "wcstoll = wcsto LLONG_MIN LLONG_MAX"

lemma uint_digit_char: "d < 10 \<Longrightarrow> uint (digit_char d) = 48 + int d"
  unfolding digit_char_def
  by (simp add: uint_word_ariths(1) unsigned_of_nat take_bit_eq_mod)

lemma digit_char_props [simp]:
  assumes "d < 10"
  shows "is_digit (digit_char d)" "digit_val (digit_char d) = int d"
    "\<not> is_space (digit_char d)" "digit_char d \<noteq> 45" "digit_char d \<noteq> 43"
proof -
  note u = uint_digit_char [OF assms]
  show "is_digit (digit_char d)" "digit_val (digit_char d) = int d"
    using assms u by (simp_all add: is_digit_def digit_val_def word_le_def)
  have "uint (digit_char d) \<noteq> 45" "uint (digit_char d) \<noteq> 43" "uint (digit_char d) \<noteq> 32"
    "\<not> uint (digit_char d) \<le> 13"
    using u by simp_all
  then show "\<not> is_space (digit_char d)" "digit_char d \<noteq> 45" "digit_char d \<noteq> 43"
    by (auto simp: is_space_def word_le_def)
qed

lemma dec_nat_digits: "c \<in> set (dec_nat n) \<Longrightarrow> \<exists>d < 10. c = digit_char d"
proof (induction n rule: dec_nat.induct)
  case (1 n)
  show ?case
  proof (cases "n < 10")
    case True
    with "1.prems" show ?thesis by (auto simp: dec_nat.simps [of n])
  next
    case False
    then have n: "dec_nat n = dec_nat (n div 10) @ [digit_char (n mod 10)]"
      by (simp add: dec_nat.simps [of n])
    have m: "n mod 10 < 10" by simp
    consider "c \<in> set (dec_nat (n div 10))" | "c = digit_char (n mod 10)"
      using "1.prems" n by auto
    then show ?thesis
    proof cases
      case 1
      then show ?thesis by (rule "1.IH" [OF False])
    next
      case 2
      with m show ?thesis by blast
    qed
  qed
qed

lemma dec_nat_Nil [simp]: "dec_nat n \<noteq> []"
  by (simp add: dec_nat.simps [of n])

lemma dec_nat_all_digits [simp]: "list_all is_digit (dec_nat n)"
  by (auto simp: list_all_iff dest: dec_nat_digits)

lemma digits_val_append: "digits_val (s @ [c]) = digits_val s * 10 + digit_val c"
  by (simp add: digits_val_def)

lemma foldl_digits:
  "foldl (\<lambda>a c. a * 10 + g c) a s = a * 10 ^ length s + foldl (\<lambda>a c. a * 10 + g c) (0::int) s"
proof (induction s arbitrary: a)
  case (Cons x xs)
  have 1: "foldl (\<lambda>a c. a * 10 + g c) a (x # xs) = (a * 10 + g x) * 10 ^ length xs + foldl (\<lambda>a c. a * 10 + g c) 0 xs"
    unfolding foldl_Cons by (rule Cons.IH)
  have 2: "foldl (\<lambda>a c. a * 10 + g c) 0 (x # xs) = g x * 10 ^ length xs + foldl (\<lambda>a c. a * 10 + g c) 0 xs"
    using Cons.IH [of "g x"] by simp
  show ?case unfolding 1 2 by (simp add: distrib_right)
qed simp

lemma digits_val_Cons: "digits_val (c # s) = digit_val c * 10 ^ length s + digits_val s"
  using foldl_digits [of digit_val "digit_val c" s] by (simp add: digits_val_def)

lemma digits_val_dec_nat [simp]: "digits_val (dec_nat n) = int n"
proof (induction n rule: dec_nat.induct)
  case (1 n)
  show ?case
  proof (cases "n < 10")
    case True
    then show ?thesis by (simp add: dec_nat.simps [of n] digits_val_def)
  next
    case False
    then have "digits_val (dec_nat n) = int (n div 10) * 10 + int (n mod 10)"
      using "1.IH" by (simp add: dec_nat.simps [of n] digits_val_append)
    also have "\<dots> = int n" by presburger
    finally show ?thesis .
  qed
qed

lemma takeWhile_dec_nat:
  "\<not> (\<exists>c t. rest = c # t \<and> is_digit c) \<Longrightarrow> takeWhile is_digit (dec_nat n @ rest) = dec_nat n"
  "\<not> (\<exists>c t. rest = c # t \<and> is_digit c) \<Longrightarrow> dropWhile is_digit (dec_nat n @ rest) = rest"
proof -
  have all: "\<forall>c \<in> set (dec_nat n). is_digit c"
    using dec_nat_all_digits [of n] by (simp add: list_all_iff)
  assume "\<not> (\<exists>c t. rest = c # t \<and> is_digit c)"
  with all show "takeWhile is_digit (dec_nat n @ rest) = dec_nat n"
    "dropWhile is_digit (dec_nat n @ rest) = rest"
    by (cases rest; simp)+
qed

lemma dec_nat_head: obtains c t where "dec_nat n = c # t" "\<not> is_space c" "c \<noteq> 45" "c \<noteq> 43"
proof -
  obtain c t where ct: "dec_nat n = c # t" by (cases "dec_nat n") auto
  then obtain d where "d < 10" "c = digit_char d" using dec_nat_digits [of c n] by auto
  with ct that show thesis by simp
qed

lemma wcsto_dec:
  assumes "lo \<le> i" "i \<le> hi" and rest: "\<not> (\<exists>c t. rest = c # t \<and> is_digit c)"
  shows "wcsto lo hi (dec i @ rest) = \<lparr>p_value = i, p_rest = rest, p_range = False\<rparr>"
proof (cases "i < 0")
  case True
  then show ?thesis
    using assms takeWhile_dec_nat [OF rest]
    by (simp add: wcsto_def dec_def is_space_def)
next
  case False
  obtain c t where ct: "dec_nat (nat i) = c # t" "\<not> is_space c" "c \<noteq> 45" "c \<noteq> 43"
    by (rule dec_nat_head)
  then have "dropWhile is_space (dec_nat (nat i) @ rest) = dec_nat (nat i) @ rest" by simp
  with False ct assms takeWhile_dec_nat [OF rest, of "nat i"] digits_val_dec_nat [of "nat i"]
  show ?thesis by (simp add: wcsto_def dec_def)
qed

lemma wcstoll_dec [simp]:
  "LLONG_MIN \<le> i \<Longrightarrow> i \<le> LLONG_MAX \<Longrightarrow> wcstoll (dec i) = \<lparr>p_value = i, p_rest = [], p_range = False\<rparr>"
  using wcsto_dec [of LLONG_MIN i LLONG_MAX "[]"] by (simp add: wcstoll_def)

lemma wcstol_dec [simp]:
  "LONG_MIN \<le> i \<Longrightarrow> i \<le> LONG_MAX \<Longrightarrow> wcstol (dec i) = \<lparr>p_value = i, p_rest = [], p_range = False\<rparr>"
  using wcsto_dec [of LONG_MIN i LONG_MAX "[]"] by (simp add: wcstol_def)

lemma dec_inj [simp]: "dec i = dec j \<longleftrightarrow> i = j"
proof
  define m where "m = max \<bar>i\<bar> \<bar>j\<bar>"
  assume "dec i = dec j"
  then have "wcsto (- m) m (dec i @ []) = wcsto (- m) m (dec j @ [])" by simp
  then show "i = j"
    using wcsto_dec [of "- m" i m "[]"] wcsto_dec [of "- m" j m "[]"]
    by (simp add: m_def)
qed simp

lemma dec_not_Nil [simp]: "dec i \<noteq> []"
  by (simp add: dec_def)

lemma length_dec_nat_le: "0 < k \<Longrightarrow> n < 10 ^ k \<Longrightarrow> length (dec_nat n) \<le> k"
proof (induction k arbitrary: n)
  case 0
  then show ?case by simp
next
  case (Suc k)
  show ?case
  proof (cases "n < 10")
    case True
    then show ?thesis by (simp add: dec_nat.simps [of n])
  next
    case False
    with Suc.prems have "n div 10 < 10 ^ k" "0 < k"
      by (auto intro: ccontr simp: less_mult_imp_div_less mult.commute)
    with False Suc.IH [of "n div 10"] show ?thesis by (simp add: dec_nat.simps [of n])
  qed
qed

lemma length_dec_le: "\<bar>i\<bar> < 10 ^ k \<Longrightarrow> 0 < k \<Longrightarrow> length (dec i) \<le> Suc k"
  using length_dec_nat_le [of k "nat \<bar>i\<bar>"]
  by (auto simp: dec_def nat_less_iff le_SucI)

lemma dec_head: "0 < i \<Longrightarrow> \<exists>c t. dec i = c # t \<and> 49 \<le> c \<and> c \<le> 57"
proof -
  have "\<exists>c t. dec_nat n = c # t \<and> 49 \<le> c \<and> c \<le> 57" if "0 < n" for n
    using that
  proof (induction n rule: dec_nat.induct)
    case (1 n)
    show ?case
    proof (cases "n < 10")
      case True
      then have "uint (digit_char n) = 48 + int n" by (rule uint_digit_char)
      with True 1 show ?thesis by (simp add: dec_nat.simps [of n] word_le_def)
    next
      case False
      then have "0 < n div 10" by simp
      from "1.IH" [OF False this] False show ?thesis by (auto simp: dec_nat.simps [of n])
    qed
  qed
  moreover assume "0 < i"
  ultimately show ?thesis by (simp add: dec_def)
qed

subsection \<open>Arrays\<close>

definition move_down :: "nat \<Rightarrow> nat \<Rightarrow> 'a list \<Rightarrow> 'a list" where
  \<comment> \<open>\<open>memmove(&xs[i],&xs[i+1],(n-i-1)*sizeof)\<close>: cell \<open>n-1\<close> keeps its value\<close>
  "move_down i n xs = take i xs @ take (n - i - 1) (drop (Suc i) xs) @ drop (n - 1) xs"

definition move_up :: "nat \<Rightarrow> nat \<Rightarrow> 'a list \<Rightarrow> 'a list" where
  \<comment> \<open>\<open>memmove(&xs[i+1],&xs[i],(n-i)*sizeof)\<close>: cell \<open>i\<close> keeps its value\<close>
  "move_up i n xs = take (Suc i) xs @ take (n - i) (drop i xs) @ drop (Suc n) xs"

definition remove_at :: "nat \<Rightarrow> 'a list \<Rightarrow> 'a list" where
  "remove_at i xs = take i xs @ drop (Suc i) xs"

definition insert_at :: "nat \<Rightarrow> 'a \<Rightarrow> 'a list \<Rightarrow> 'a list" where
  "insert_at i x xs = take i xs @ x # drop i xs"

lemma length_move_down [simp]:
  "i < n \<Longrightarrow> n \<le> length xs \<Longrightarrow> length (move_down i n xs) = length xs"
  by (simp add: move_down_def)

lemma length_move_up [simp]:
  "i \<le> n \<Longrightarrow> n < length xs \<Longrightarrow> length (move_up i n xs) = length xs"
  by (simp add: move_up_def)

lemma take_move_down [arrays]:
  "i < n \<Longrightarrow> n \<le> length xs \<Longrightarrow> take (n - 1) (move_down i n xs) = remove_at i (take n xs)"
proof -
  assume a: "i < n" "n \<le> length xs"
  then have "length (take i xs @ take (n - i - 1) (drop (Suc i) xs)) = n - 1" by simp
  then have "take (n - 1) (move_down i n xs) = take i xs @ take (n - i - 1) (drop (Suc i) xs)"
    unfolding move_down_def append_assoc [symmetric] by (metis append_eq_conv_conj)
  with a show ?thesis by (simp add: remove_at_def drop_take)
qed

lemmas take_move_down_Suc [arrays] = take_move_down [unfolded One_nat_def]

lemma move_down_beyond [arrays]:
  "i < n \<Longrightarrow> n \<le> length xs \<Longrightarrow> n \<le> k \<Longrightarrow> k < length xs \<Longrightarrow> move_down i n xs ! k = xs ! k"
  by (auto simp: move_down_def nth_append min_def)

lemma take_move_up_update [arrays]:
  assumes "i \<le> n" "n < length xs"
  shows "take (Suc n) ((move_up i n xs)[i := x]) = insert_at i x (take n xs)"
proof (rule nth_equalityI)
  show "length (take (Suc n) ((move_up i n xs)[i := x])) = length (insert_at i x (take n xs))"
    using assms by (simp add: insert_at_def)
  fix k assume "k < length (take (Suc n) ((move_up i n xs)[i := x]))"
  with assms have k: "k \<le> n" by simp
  show "take (Suc n) ((move_up i n xs)[i := x]) ! k = insert_at i x (take n xs) ! k"
  proof (cases "k = i")
    case True
    with assms show ?thesis by (simp add: insert_at_def nth_append)
  next
    case False
    with assms k show ?thesis
      by (auto simp: move_up_def insert_at_def nth_append min_def nth_Cons' Suc_diff_Suc)
  qed
qed

lemma length_insert_at [simp]: "i \<le> length xs \<Longrightarrow> length (insert_at i x xs) = Suc (length xs)"
  by (simp add: insert_at_def)

lemma length_remove_at [simp]: "i < length xs \<Longrightarrow> length (remove_at i xs) = length xs - 1"
  by (simp add: remove_at_def)

lemma set_remove_at_subset: "set (remove_at i xs) \<subseteq> set xs"
  by (auto simp: remove_at_def dest: in_set_takeD in_set_dropD)

lemma set_insert_at [simp]: "set (insert_at i x xs) = insert x (set xs)"
proof -
  have "set (take i xs) \<union> set (drop i xs) = set xs"
    by (metis append_take_drop_id set_append)
  then show ?thesis by (auto simp: insert_at_def)
qed

lemma distinct_remove_at: "distinct xs \<Longrightarrow> distinct (remove_at i xs)"
  using set_take_disj_set_drop_if_distinct [of xs i "Suc i"]
  by (simp add: remove_at_def)

lemma map_remove_at: "map f (remove_at i xs) = remove_at i (map f xs)"
  by (simp add: remove_at_def take_map drop_map)

lemma map_insert_at: "map f (insert_at i x xs) = insert_at i (f x) (map f xs)"
  by (simp add: insert_at_def take_map drop_map)

lemma mset_remove_at: "i < length xs \<Longrightarrow> add_mset (xs ! i) (mset (remove_at i xs)) = mset xs"
  by (metis id_take_nth_drop mset.simps(2) mset_append remove_at_def union_mset_add_mset_right)

lemma mset_insert_at: "mset (insert_at i x xs) = add_mset x (mset xs)"
  by (metis append_take_drop_id insert_at_def mset.simps(2) mset_append union_mset_add_mset_right)

subsection \<open>Loops over the live cells of an array\<close>

lemma list_ex_cells:
  "n \<le> length xs \<Longrightarrow> list_ex (\<lambda>i. P (xs ! i)) [0..<n] \<longleftrightarrow> (\<exists>x \<in> set (take n xs). P x)"
proof -
  assume "n \<le> length xs"
  then have "set (take n xs) = (!) xs ` {0..<n}"
    by (simp add: nth_image)
  then show ?thesis by (auto simp: list_ex_iff)
qed

lemma list_all_cells:
  "n \<le> length xs \<Longrightarrow> list_all (\<lambda>i. P (xs ! i)) [0..<n] \<longleftrightarrow> (\<forall>x \<in> set (take n xs). P x)"
proof -
  assume "n \<le> length xs"
  then have "set (take n xs) = (!) xs ` {0..<n}"
    by (simp add: nth_image)
  then show ?thesis by (auto simp: list_all_iff)
qed

lemma list_all_upt: "list_all P [0..<n] \<longleftrightarrow> (\<forall>i < n. P i)"
  by (auto simp: list_all_iff)

lemma list_ex_upt: "list_ex P [0..<n] \<longleftrightarrow> (\<exists>i < n. P i)"
  by (auto simp: list_ex_iff)

lemma pairwise_cells_distinct:
  "n \<le> length xs \<Longrightarrow>
   (\<forall>i < n. \<forall>j < i. f (xs ! i) \<noteq> f (xs ! j)) \<longleftrightarrow> distinct (map f (take n xs))"
proof -
  assume n: "n \<le> length xs"
  then have "distinct (map f (take n xs))
      \<longleftrightarrow> (\<forall>i < n. \<forall>j < n. i \<noteq> j \<longrightarrow> f (xs ! i) \<noteq> f (xs ! j))"
    by (simp add: distinct_conv_nth min_def)
  also have "\<dots> \<longleftrightarrow> (\<forall>i < n. \<forall>j < i. f (xs ! i) \<noteq> f (xs ! j))"
    by (metis nat_neq_iff order.strict_trans)
  finally show ?thesis by simp
qed

lemma take_update_append [arrays]:
  "n < length xs \<Longrightarrow> take (Suc n) (xs[n := x]) = take n xs @ [x]"
  by (simp add: take_Suc_conv_app_nth)

lemma take_list_update_beyond [arrays]: "n \<le> k \<Longrightarrow> take n (xs[k := x]) = take n xs"
  by simp

lemma zip_remove_at:
  "length xs = length ys \<Longrightarrow> zip (remove_at i xs) (remove_at i ys) = remove_at i (zip xs ys)"
  by (simp add: remove_at_def take_zip drop_zip)

lemma pairwise_cells_sorted_wrt:
  "n \<le> length xs \<Longrightarrow>
   (\<forall>i < n. \<forall>j < i. R (xs ! j) (xs ! i)) \<longleftrightarrow> sorted_wrt R (take n xs)"
  by (auto simp: sorted_wrt_iff_nth_less)

lemma sorted_wrt_remove_at: "sorted_wrt R xs \<Longrightarrow> sorted_wrt R (remove_at i xs)"
proof -
  assume "sorted_wrt R xs"
  then have "sorted_wrt R (take i xs @ drop i xs)" by simp
  moreover have "set (drop (Suc i) xs) \<subseteq> set (drop i xs)" by (rule set_drop_subset_set_drop) simp
  moreover have "sorted_wrt R (drop (Suc i) xs)" using \<open>sorted_wrt R xs\<close> by (rule sorted_wrt_drop)
  ultimately show ?thesis
    unfolding remove_at_def sorted_wrt_append by blast
qed

lemma nth_remove_at:
  "i < length xs \<Longrightarrow> k < length xs - 1 \<Longrightarrow> remove_at i xs ! k = (if k < i then xs ! k else xs ! Suc k)"
  by (auto simp: remove_at_def nth_append min_def)

lemma take_update_in: "i < n \<Longrightarrow> take n (xs[i := x]) = (take n xs)[i := x]"
  by (simp add: take_update_swap)

lemma nth_insert_at:
  "i \<le> length xs \<Longrightarrow> k \<le> length xs \<Longrightarrow>
   insert_at i x xs ! k = (if k < i then xs ! k else if k = i then x else xs ! (k - 1))"
proof -
  assume a: "i \<le> length xs" "k \<le> length xs"
  then have "drop i xs ! (k - Suc i) = xs ! (k - 1)" if "i < k" using that by simp
  with a show ?thesis by (simp add: insert_at_def nth_append nth_Cons')
qed

lemma nth_move_down:
  "i < n \<Longrightarrow> n \<le> length xs \<Longrightarrow> k < length xs \<Longrightarrow>
   move_down i n xs ! k = (if i \<le> k \<and> Suc k < n then xs ! Suc k else xs ! k)"
proof -
  assume a: "i < n" "n \<le> length xs" "k < length xs"
  consider "k < i" | "i \<le> k" "Suc k < n" | "n \<le> Suc k" by linarith
  then show ?thesis
  proof cases
    case 3
    have len: "length (take i xs @ take (n - i - 1) (drop (Suc i) xs)) = n - 1" using a by simp
    show ?thesis
      using 3 a unfolding move_down_def append_assoc [symmetric] nth_append len by simp
  qed (use a in \<open>auto simp: move_down_def nth_append min_def\<close>)
qed

lemma nth_move_up:
  "i \<le> n \<Longrightarrow> n < length xs \<Longrightarrow> k < length xs \<Longrightarrow>
   move_up i n xs ! k = (if i < k \<and> k \<le> n then xs ! (k - 1) else xs ! k)"
proof -
  assume a: "i \<le> n" "n < length xs" "k < length xs"
  consider "k \<le> i" | "i < k" "k \<le> n" | "n < k" by linarith
  then show ?thesis
  proof cases
    case 3
    have len: "length (take (Suc i) xs @ take (n - i) (drop i xs)) = Suc n" using a by simp
    show ?thesis
      using 3 a unfolding move_up_def append_assoc [symmetric] nth_append len by simp
  qed (use a in \<open>auto simp: move_up_def nth_append min_def\<close>)
qed

lemma mset_concat_update:
  "k < length ls \<Longrightarrow> mset (concat (ls[k := xs])) + mset (ls ! k) = mset (concat ls) + mset xs"
proof (induction ls arbitrary: k)
  case (Cons l ls)
  then show ?case by (cases k) (simp_all add: ac_simps)
qed simp

lemma distinct_map_insert_at:
  "distinct (map f (insert_at k x ys)) \<longleftrightarrow> f x \<notin> f ` set ys \<and> distinct (map f ys)"
proof -
  have "mset (map f (insert_at k x ys)) = mset (map f (x # ys))"
    by (simp add: mset_insert_at)
  then have "distinct (map f (insert_at k x ys)) \<longleftrightarrow> distinct (map f (x # ys))"
    by (rule mset_eq_imp_distinct_iff)
  then show ?thesis by simp
qed

lemma insert_remove_same: "i < length xs \<Longrightarrow> insert_at i (xs ! i) (remove_at i xs) = xs"
  by (simp add: insert_at_def remove_at_def Cons_nth_drop_Suc)

end
