(* ===== verification/Batch_Task.thy ===== *)
theory Batch_Task
  imports Prelude
begin

text \<open>
  \<open>src/src/core/batch_task.[ch]\<close>: a batch task, its ordered steps (a working directory and an
  optional command override each) and the bounded first-in first-out queue of task snapshots.
  The two arrays of a task and the array of a queue are lists of their declared length; the count
  is a separate field, as in the code, and says how many cells are live.
\<close>

subsection \<open>Data\<close>

definition BATCH_DIRECTORY_LIMIT :: nat where "BATCH_DIRECTORY_LIMIT = 24"
definition BATCH_DIRECTORY_CAP :: nat where "BATCH_DIRECTORY_CAP = 260"
definition BATCH_COMMAND_CAP :: nat where "BATCH_COMMAND_CAP = 2048"
definition BATCH_TASK_LIMIT :: nat where "BATCH_TASK_LIMIT = 16"
definition BATCH_NAME_CAP :: nat where "BATCH_NAME_CAP = 64"
definition BATCH_SEQUENTIAL :: int where "BATCH_SEQUENTIAL = 0"
definition BATCH_PARALLEL :: int where "BATCH_PARALLEL = 1"

lemmas batch_limits = BATCH_DIRECTORY_LIMIT_def BATCH_DIRECTORY_CAP_def BATCH_COMMAND_CAP_def
  BATCH_TASK_LIMIT_def BATCH_NAME_CAP_def BATCH_SEQUENTIAL_def BATCH_PARALLEL_def

record BatchTask =
  bt_id :: int
  bt_name :: wstr
  bt_mode :: int
  bt_command :: wstr
  directory_count :: int
  directories :: "wstr list"
  commands :: "wstr list"

record BatchTaskList =
  btl_count :: int
  btl_tasks :: "BatchTask list"

record BatchTaskQueue =
  q_items :: "BatchTask list"
  q_count :: int
  active_id :: int

definition zero_task :: BatchTask where
  \<comment> \<open>\<open>BatchTask task={0}\<close>\<close>
  "zero_task = \<lparr>bt_id = 0, bt_name = [], bt_mode = 0, bt_command = [], directory_count = 0,
     directories = replicate BATCH_DIRECTORY_LIMIT [], commands = replicate BATCH_DIRECTORY_LIMIT []\<rparr>"

subsection \<open>Launcher targets\<close>

definition BATCH_TARGET_PREFIX :: wstr where "BATCH_TARGET_PREFIX = W ''nova-batch:''"

definition batch_task_target :: "int \<Rightarrow> nat option \<Rightarrow> wstr option" where
  \<comment> \<open>the second argument is the capacity of the target buffer, \<open>None\<close> for a NULL buffer; the
     result is the text written, \<open>None\<close> for the return value 0\<close>
  "batch_task_target ident capacity =
     (case capacity of
        None \<Rightarrow> None
      | Some cap \<Rightarrow>
          if ident \<le> 0 \<or> cap < 30 then None
          else (let text = BATCH_TARGET_PREFIX @ dec ident
                in if length text < cap then Some text else None))"

fun target_digits :: "int \<Rightarrow> wstr \<Rightarrow> int" where
  \<comment> \<open>the loop over the digits, with its overflow test\<close>
  "target_digits ident [] = ident"
| "target_digits ident (c # p) =
     (if c < 48 \<or> 57 < c \<or> ident > (LLONG_MAX - digit_val c) div 10 then 0
      else target_digits (ident * 10 + digit_val c) p)"

definition batch_task_target_id :: "wstr option \<Rightarrow> int" where
  "batch_task_target_id target =
     (case target of
        None \<Rightarrow> 0
      | Some t \<Rightarrow>
          if \<not> starts_with t BATCH_TARGET_PREFIX then 0
          else (let p = drop 11 t in if p = [] then 0 else target_digits 0 p))"

subsection \<open>Directories\<close>

definition is_separator :: "wchar \<Rightarrow> bool" where
  "is_separator c \<longleftrightarrow> c = 92 \<or> c = 47"

fun trim_length :: "wstr \<Rightarrow> nat \<Rightarrow> nat" where
  "trim_length directory 0 = 0"
| "trim_length directory (Suc n) =
     (if Suc n > 3 \<and> is_separator (directory ! n) then trim_length directory n else Suc n)"

definition normalized_length :: "wstr \<Rightarrow> nat" where
  "normalized_length directory = trim_length directory (length directory)"

fun same_directory :: "wstr \<Rightarrow> wstr \<Rightarrow> bool" where
  "same_directory (x # xs) (y # ys) = (if towlower x \<noteq> towlower y then False else same_directory xs ys)"
| "same_directory [] [] = True"
| "same_directory _ _ = False"

definition batch_task_add_directory :: "BatchTask option \<Rightarrow> wstr option \<Rightarrow> int \<times> BatchTask option" where
  "batch_task_add_directory task directory =
     (case (task, directory) of
        (Some t, Some d) \<Rightarrow>
          if directory_count t < 0 \<or> directory_count t > int BATCH_DIRECTORY_LIMIT then (-1, task)
          else (let len = normalized_length d in
            if len = 0 \<or> len \<ge> BATCH_DIRECTORY_CAP \<or> directory_count t = int BATCH_DIRECTORY_LIMIT
            then (-1, task)
            else (let normalized = take len d; n = nat (directory_count t) in
              if list_ex (\<lambda>i. same_directory (directories t ! i) normalized) [0..<n] then (0, task)
              else (1, Some (t\<lparr>directories := (directories t)[n := normalized],
                               directory_count := directory_count t + 1\<rparr>))))
      | _ \<Rightarrow> (-1, task))"

definition batch_task_remove_directory :: "BatchTask option \<Rightarrow> int \<Rightarrow> int \<times> BatchTask option" where
  "batch_task_remove_directory task index =
     (case task of
        None \<Rightarrow> (0, task)
      | Some t \<Rightarrow>
          if directory_count t < 0 \<or> directory_count t > int BATCH_DIRECTORY_LIMIT \<or> index < 0
             \<or> index \<ge> directory_count t then (0, task)
          else (let i = nat index; n = nat (directory_count t) in
            (1, Some (t\<lparr>directories := (move_down i n (directories t))[n - 1 := []],
                        commands := (move_down i n (commands t))[n - 1 := []],
                        directory_count := directory_count t - 1\<rparr>))))"

definition batch_task_command :: "BatchTask option \<Rightarrow> int \<Rightarrow> wstr" where
  "batch_task_command task index =
     (case task of
        None \<Rightarrow> []
      | Some t \<Rightarrow>
          if index < 0 \<or> index \<ge> directory_count t then []
          else if commands t ! nat index \<noteq> [] then commands t ! nat index else bt_command t)"

definition batch_task_edit_step ::
    "BatchTask option \<Rightarrow> int \<Rightarrow> wstr option \<Rightarrow> wstr option \<Rightarrow> int \<times> BatchTask option" where
  "batch_task_edit_step task index directory command =
     (case (task, directory, command) of
        (Some t, Some d, Some c) \<Rightarrow>
          if directory_count t < 0 \<or> directory_count t > int BATCH_DIRECTORY_LIMIT \<or> index < 0
             \<or> index \<ge> directory_count t then (0, task)
          else (let len = normalized_length d; i = nat index; n = nat (directory_count t) in
            if len = 0 \<or> len \<ge> BATCH_DIRECTORY_CAP \<or> length c \<ge> BATCH_COMMAND_CAP \<or> \<not> has_nonblank c
            then (0, task)
            else (let normalized = take len d in
              if list_ex (\<lambda>k. k \<noteq> i \<and> same_directory (directories t ! k) normalized) [0..<n]
              then (0, task)
              else (1, Some (t\<lparr>directories := (directories t)[i := normalized],
                               commands := (commands t)[i := c]\<rparr>))))
      | _ \<Rightarrow> (0, task))"

definition batch_task_is_valid :: "BatchTask option \<Rightarrow> bool" where
  "batch_task_is_valid task =
     (case task of
        None \<Rightarrow> False
      | Some t \<Rightarrow>
          if directory_count t < 0 \<or> directory_count t > int BATCH_DIRECTORY_LIMIT then False
          else if bt_mode t \<noteq> BATCH_SEQUENTIAL \<and> bt_mode t \<noteq> BATCH_PARALLEL then False
          else if \<not> terminated BATCH_NAME_CAP (bt_name t) then False
          else if \<not> terminated BATCH_COMMAND_CAP (bt_command t) then False
          else list_all (\<lambda>i.
              terminated BATCH_COMMAND_CAP (commands t ! i)
              \<and> \<not> (commands t ! i \<noteq> [] \<and> \<not> has_nonblank (commands t ! i))
              \<and> terminated BATCH_DIRECTORY_CAP (directories t ! i)
              \<and> directories t ! i \<noteq> [] \<and> length (directories t ! i) < BATCH_DIRECTORY_CAP
              \<and> list_all (\<lambda>j. \<not> same_directory (directories t ! i) (directories t ! j)) [0..<i])
            [0..<nat (directory_count t)])"

subsection \<open>The queue\<close>

definition batch_task_queue_add :: "BatchTaskQueue option \<Rightarrow> BatchTask option \<Rightarrow> int \<times> BatchTaskQueue option" where
  "batch_task_queue_add queue value =
     (case (queue, value) of
        (Some q, Some v) \<Rightarrow>
          if \<not> batch_task_is_valid value \<or> bt_id v \<le> 0 \<or> directory_count v = 0 \<or> bt_command v = []
             \<or> q_count q < 0 \<or> q_count q > int BATCH_TASK_LIMIT then (-1, queue)
          else if active_id q = bt_id v then (0, queue)
          else if list_ex (\<lambda>i. bt_id (q_items q ! i) = bt_id v) [0..<nat (q_count q)] then (0, queue)
          else if q_count q + (if active_id q \<noteq> 0 then 1 else 0) \<ge> int BATCH_TASK_LIMIT then (-1, queue)
          else (1, Some (q\<lparr>q_items := (q_items q)[nat (q_count q) := v], q_count := q_count q + 1\<rparr>))
      | _ \<Rightarrow> (-1, queue))"

definition batch_task_queue_take ::
    "BatchTaskQueue option \<Rightarrow> bool \<Rightarrow> (BatchTask \<times> BatchTaskQueue) option" where
  \<comment> \<open>the flag says that the caller passed a place for the value; \<open>None\<close> is the return value 0,
     which leaves both untouched\<close>
  "batch_task_queue_take queue value =
     (case queue of
        None \<Rightarrow> None
      | Some q \<Rightarrow>
          if \<not> value \<or> active_id q \<noteq> 0 \<or> q_count q < 1 \<or> q_count q > int BATCH_TASK_LIMIT then None
          else Some (q_items q ! 0,
                 q\<lparr>active_id := bt_id (q_items q ! 0), q_count := q_count q - 1,
                   q_items := move_down 0 (nat (q_count q)) (q_items q)\<rparr>))"

definition batch_task_queue_cancel :: "BatchTaskQueue option \<Rightarrow> BatchTaskQueue option" where
  "batch_task_queue_cancel queue = map_option (\<lambda>q. q\<lparr>q_count := 0\<rparr>) queue"

subsection \<open>Case-insensitive directories\<close>

lemma same_directory_iff: "same_directory s t \<longleftrightarrow> map towlower s = map towlower t"
  by (induction s t rule: same_directory.induct) auto

lemma towlower_idem [simp]: "towlower (towlower c) = towlower c"
proof -
  have "uint (c + 32) = uint c + 32" if "65 \<le> c" "c \<le> 90"
    using that by (simp add: word_le_def uint_word_ariths(1))
  then show ?thesis by (auto simp: towlower_def word_le_def)
qed

lemma trim_length_le: "trim_length s n \<le> n"
  by (induction n) auto

lemma trim_length_0 [simp]: "trim_length s n = 0 \<longleftrightarrow> n = 0"
  by (induction n) auto

lemma trim_length_stop: "3 < trim_length s n \<Longrightarrow> \<not> is_separator (s ! (trim_length s n - 1))"
  by (induction n) (auto split: if_splits)

lemma trim_length_cong: "(\<And>i. i < n \<Longrightarrow> s ! i = t ! i) \<Longrightarrow> trim_length s n = trim_length t n"
  by (induction n) auto

lemma trim_length_fixed: "3 < n \<longrightarrow> \<not> is_separator (s ! (n - 1)) \<Longrightarrow> trim_length s n = n"
  by (cases n) auto

definition normalized :: "wstr \<Rightarrow> wstr" where
  "normalized s = take (normalized_length s) s"

lemma length_normalized [simp]: "length (normalized s) = normalized_length s"
  using trim_length_le [of s "length s"] by (simp add: normalized_def normalized_length_def)

lemma normalized_idem: "normalized (normalized s) = normalized s"
proof -
  let ?n = "normalized_length s"
  have le: "?n \<le> length s" by (simp add: normalized_length_def trim_length_le)
  have "3 < ?n \<longrightarrow> \<not> is_separator (normalized s ! (?n - 1))"
    using trim_length_stop [of s "length s"] le by (auto simp: normalized_def normalized_length_def)
  then have "normalized_length (normalized s) = ?n"
    using trim_length_fixed [of ?n "normalized s"] le
    by (simp add: normalized_length_def [of "normalized s"] del: length_normalized)
      (simp add: normalized_def)
  then show ?thesis using le by (simp add: normalized_def [of "normalized s"])
qed

subsection \<open>Steps: what a task means\<close>

definition task_wf :: "BatchTask \<Rightarrow> bool" where
  \<comment> \<open>the arrays have their declared length, the count is in range and the cells beyond it
     are empty strings, as \<open>calloc\<close> and every operation leave them\<close>
  "task_wf t \<longleftrightarrow> length (directories t) = BATCH_DIRECTORY_LIMIT
     \<and> length (commands t) = BATCH_DIRECTORY_LIMIT
     \<and> 0 \<le> directory_count t \<and> directory_count t \<le> int BATCH_DIRECTORY_LIMIT
     \<and> (\<forall>k < BATCH_DIRECTORY_LIMIT. nat (directory_count t) \<le> k \<longrightarrow>
          directories t ! k = [] \<and> commands t ! k = [])"

abbreviation live_count :: "BatchTask \<Rightarrow> nat" where
  "live_count t \<equiv> nat (directory_count t)"

definition task_dirs :: "BatchTask \<Rightarrow> wstr list" where
  "task_dirs t = take (live_count t) (directories t)"

definition task_overrides :: "BatchTask \<Rightarrow> wstr list" where
  "task_overrides t = take (live_count t) (commands t)"

definition steps :: "BatchTask \<Rightarrow> (wstr \<times> wstr) list" where
  \<comment> \<open>the steps in the order they run: directory and command override\<close>
  "steps t = zip (task_dirs t) (task_overrides t)"

lemma task_wf_lengths:
  assumes "task_wf t"
  shows "live_count t \<le> length (directories t)" "live_count t \<le> length (commands t)"
    "length (task_dirs t) = live_count t" "length (task_overrides t) = live_count t"
    "length (steps t) = live_count t"
  using assms by (auto simp: task_wf_def task_dirs_def task_overrides_def steps_def)

lemma zero_task_wf [simp]: "task_wf zero_task"
  by (simp add: task_wf_def zero_task_def)

lemma steps_zero_task [simp]: "steps zero_task = []"
  by (simp add: steps_def task_dirs_def zero_task_def)

lemma map_fst_steps: "task_wf t \<Longrightarrow> map fst (steps t) = task_dirs t"
  by (simp add: steps_def task_wf_lengths)

lemma steps_nth:
  "task_wf t \<Longrightarrow> k < live_count t \<Longrightarrow> steps t ! k = (directories t ! k, commands t ! k)"
  by (simp add: steps_def task_dirs_def task_overrides_def task_wf_lengths)

subsection \<open>Adding, removing and editing a step\<close>

definition dir_ok :: "wstr \<Rightarrow> bool" where
  "dir_ok d \<longleftrightarrow> d \<noteq> [] \<and> length d < BATCH_DIRECTORY_CAP"

lemma add_directory_result:
  assumes wf: "task_wf t"
  shows "batch_task_add_directory (Some t) (Some d) =
    (if normalized d = [] \<or> BATCH_DIRECTORY_CAP \<le> length (normalized d)
        \<or> live_count t = BATCH_DIRECTORY_LIMIT then (-1, Some t)
     else if \<exists>x \<in> set (task_dirs t). same_directory x (normalized d) then (0, Some t)
     else (1, Some (t\<lparr>directories := (directories t)[live_count t := normalized d],
                       directory_count := directory_count t + 1\<rparr>)))"
proof -
  have count: "0 \<le> directory_count t" "directory_count t \<le> int BATCH_DIRECTORY_LIMIT"
    using wf by (auto simp: task_wf_def)
  have full: "directory_count t = int BATCH_DIRECTORY_LIMIT \<longleftrightarrow> live_count t = BATCH_DIRECTORY_LIMIT"
    using count by linarith
  have empty: "normalized d = [] \<longleftrightarrow> normalized_length d = 0"
    by (metis length_0_conv length_normalized)
  show ?thesis
    using count
    by (simp add: batch_task_add_directory_def Let_def full empty task_dirs_def normalized_def [symmetric]
        list_ex_cells [OF task_wf_lengths(1) [OF wf], of "\<lambda>x. same_directory x (normalized d)"])
qed

lemma add_directory_accepted:
  assumes wf: "task_wf t" and r: "batch_task_add_directory (Some t) (Some d) = (1, Some t')"
  shows "task_wf t' \<and> steps t' = steps t @ [(normalized d, [])] \<and> dir_ok (normalized d)
     \<and> map towlower (normalized d) \<notin> map towlower ` set (task_dirs t)
     \<and> bt_command t' = bt_command t \<and> bt_id t' = bt_id t \<and> bt_mode t' = bt_mode t
     \<and> bt_name t' = bt_name t"
proof -
  let ?n = "live_count t"
  from r have t': "t' = t\<lparr>directories := (directories t)[?n := normalized d],
      directory_count := directory_count t + 1\<rparr>"
    and c: "normalized d \<noteq> []" "length (normalized d) < BATCH_DIRECTORY_CAP" "?n \<noteq> BATCH_DIRECTORY_LIMIT"
      "\<not> (\<exists>x \<in> set (task_dirs t). same_directory x (normalized d))"
    unfolding add_directory_result [OF wf] by (auto split: if_splits)
  have n: "?n < BATCH_DIRECTORY_LIMIT" and n': "live_count t' = Suc ?n"
    using wf c(3) t' by (auto simp: task_wf_def)
  have len: "?n < length (directories t)" "?n < length (commands t)" and empty: "commands t ! ?n = []"
    using wf n by (auto simp: task_wf_def)
  have "steps t' = zip (task_dirs t @ [normalized d]) (task_overrides t @ [commands t ! ?n])"
    using len unfolding steps_def task_dirs_def task_overrides_def n'
    by (simp add: t' take_update_append take_Suc_conv_app_nth)
  also have "\<dots> = steps t @ [(normalized d, [])]"
    using wf by (simp add: steps_def task_wf_lengths empty)
  finally have st: "steps t' = steps t @ [(normalized d, [])]" .
  moreover have "task_wf t'"
    using wf n n' by (auto simp: task_wf_def t' nth_list_update)
  ultimately show ?thesis
    using c by (auto simp: dir_ok_def same_directory_iff t')
qed

lemma remove_directory_accepted:
  assumes wf: "task_wf t" and i: "0 \<le> i" "i < directory_count t"
  shows "\<exists>t'. batch_task_remove_directory (Some t) i = (1, Some t') \<and> task_wf t'
     \<and> steps t' = remove_at (nat i) (steps t) \<and> bt_command t' = bt_command t \<and> bt_id t' = bt_id t"
proof -
  let ?n = "live_count t" and ?i = "nat i"
  define t' where "t' = t\<lparr>directories := (move_down ?i ?n (directories t))[?n - 1 := []],
      commands := (move_down ?i ?n (commands t))[?n - 1 := []],
      directory_count := directory_count t - 1\<rparr>"
  have n: "?i < ?n" "?n \<le> BATCH_DIRECTORY_LIMIT" "live_count t' = ?n - 1"
    using wf i by (auto simp: task_wf_def t'_def)
  have len: "length (directories t) = BATCH_DIRECTORY_LIMIT" "length (commands t) = BATCH_DIRECTORY_LIMIT"
    using wf by (auto simp: task_wf_def)
  have "batch_task_remove_directory (Some t) i = (1, Some t')"
    using wf i by (simp add: batch_task_remove_directory_def task_wf_def t'_def Let_def)
  moreover have "task_wf t'"
    using wf n len by (auto simp: task_wf_def t'_def nth_list_update move_down_beyond)
  moreover have "steps t' = remove_at ?i (steps t)"
    using n(1,2) len unfolding steps_def task_dirs_def task_overrides_def n(3)
    by (simp add: t'_def take_move_down zip_remove_at del: One_nat_def)
  ultimately show ?thesis by (auto simp: t'_def)
qed

lemma edit_step_accepted:
  assumes wf: "task_wf t" and r: "batch_task_edit_step (Some t) i (Some d) (Some c) = (1, Some t')"
  shows "0 \<le> i \<and> i < directory_count t \<and> task_wf t'
     \<and> steps t' = (steps t)[nat i := (normalized d, c)] \<and> dir_ok (normalized d)
     \<and> length c < BATCH_COMMAND_CAP \<and> has_nonblank c
     \<and> (\<forall>k < live_count t. k \<noteq> nat i \<longrightarrow>
          map towlower (directories t ! k) \<noteq> map towlower (normalized d))
     \<and> bt_command t' = bt_command t \<and> bt_id t' = bt_id t \<and> bt_mode t' = bt_mode t
     \<and> bt_name t' = bt_name t \<and> live_count t' = live_count t"
proof -
  let ?n = "live_count t" and ?i = "nat i"
  from r have i: "0 \<le> i" "i < directory_count t"
    and t': "t' = t\<lparr>directories := (directories t)[?i := normalized d], commands := (commands t)[?i := c]\<rparr>"
    and c: "normalized_length d \<noteq> 0" "normalized_length d < BATCH_DIRECTORY_CAP"
      "length c < BATCH_COMMAND_CAP" "has_nonblank c"
      "\<not> list_ex (\<lambda>k. k \<noteq> ?i \<and> same_directory (directories t ! k) (normalized d)) [0..<?n]"
    by (auto simp: batch_task_edit_step_def Let_def normalized_def [symmetric] split: if_splits)
  have n: "?i < ?n" "live_count t' = ?n" using i by (auto simp: t')
  have "steps t' = (steps t)[?i := (normalized d, c)]"
    unfolding steps_def task_dirs_def task_overrides_def n(2)
    by (simp add: t' take_update_swap zip_update)
  moreover have "task_wf t'"
    using wf n by (auto simp: task_wf_def t' nth_list_update)
  ultimately show ?thesis
    using i c n length_normalized [of d]
    by (auto simp: t' dir_ok_def list_ex_upt same_directory_iff simp del: length_normalized)
qed

subsection \<open>Validity\<close>

definition override_ok :: "wstr \<Rightarrow> bool" where
  "override_ok c \<longleftrightarrow> length c < BATCH_COMMAND_CAP \<and> (c = [] \<or> has_nonblank c)"

lemma is_valid_iff:
  assumes wf: "task_wf t"
  shows "batch_task_is_valid (Some t) \<longleftrightarrow>
     (bt_mode t = BATCH_SEQUENTIAL \<or> bt_mode t = BATCH_PARALLEL)
     \<and> length (bt_name t) < BATCH_NAME_CAP \<and> length (bt_command t) < BATCH_COMMAND_CAP
     \<and> (\<forall>(d, c) \<in> set (steps t). dir_ok d \<and> override_ok c)
     \<and> distinct (map (map towlower) (map fst (steps t)))"
proof -
  let ?n = "live_count t"
  have n: "?n \<le> length (directories t)" "?n \<le> length (commands t)"
    using wf by (auto simp: task_wf_def)
  have all: "(\<forall>(d, c) \<in> set (steps t). dir_ok d \<and> override_ok c)
      \<longleftrightarrow> (\<forall>i < ?n. dir_ok (directories t ! i) \<and> override_ok (commands t ! i))"
    unfolding all_set_conv_all_nth task_wf_lengths(5) [OF wf]
    by (simp add: steps_nth [OF wf])
  have dist: "distinct (map (map towlower) (map fst (steps t)))
      \<longleftrightarrow> (\<forall>i < ?n. \<forall>j < i. map towlower (directories t ! i) \<noteq> map towlower (directories t ! j))"
    unfolding map_fst_steps [OF wf] task_dirs_def
    by (rule pairwise_cells_distinct [OF n(1), symmetric])
  have count: "\<not> (directory_count t < 0 \<or> directory_count t > int BATCH_DIRECTORY_LIMIT)"
    using wf by (auto simp: task_wf_def)
  have step: "(terminated BATCH_COMMAND_CAP c \<and> \<not> (c \<noteq> [] \<and> \<not> has_nonblank c)
      \<and> terminated BATCH_DIRECTORY_CAP d \<and> d \<noteq> [] \<and> length d < BATCH_DIRECTORY_CAP \<and> R)
      \<longleftrightarrow> (dir_ok d \<and> override_ok c) \<and> R" for c d R
    by (auto simp: terminated_def dir_ok_def override_ok_def)
  have loop: "list_all (\<lambda>i. (dir_ok (directories t ! i) \<and> override_ok (commands t ! i))
        \<and> list_all (\<lambda>j. \<not> same_directory (directories t ! i) (directories t ! j)) [0..<i]) [0..<?n]
      \<longleftrightarrow> (\<forall>i < ?n. dir_ok (directories t ! i) \<and> override_ok (commands t ! i))
        \<and> (\<forall>i < ?n. \<forall>j < i. map towlower (directories t ! i) \<noteq> map towlower (directories t ! j))"
    unfolding list_all_upt same_directory_iff by blast
  show ?thesis
    unfolding all dist batch_task_is_valid_def option.case if_not_P [OF count] step loop
    by (simp add: terminated_def conj_ac)
qed

lemma add_directory_valid:
  assumes wf: "task_wf t" and v: "batch_task_is_valid (Some t)"
    and r: "batch_task_add_directory (Some t) (Some d) = (1, Some t')"
  shows "batch_task_is_valid (Some t')"
  using add_directory_accepted [OF wf r] v is_valid_iff [OF wf] is_valid_iff [of t'] map_fst_steps [OF wf]
  by (auto simp: override_ok_def batch_limits)

lemma remove_directory_valid:
  assumes wf: "task_wf t" and v: "batch_task_is_valid (Some t)"
    and r: "batch_task_remove_directory (Some t) i = (1, Some t')"
  shows "batch_task_is_valid (Some t')"
proof -
  have i: "0 \<le> i" "i < directory_count t" using r by (auto simp: batch_task_remove_directory_def split: if_splits)
  obtain u where u: "batch_task_remove_directory (Some t) i = (1, Some u)" "task_wf u"
     "steps u = remove_at (nat i) (steps t)"
    using remove_directory_accepted [OF wf i] by blast
  have eq: "u = t'" using u(1) r by simp
  have f: "bt_mode t' = bt_mode t" "bt_name t' = bt_name t" "bt_command t' = bt_command t"
    using r by (auto simp: batch_task_remove_directory_def Let_def split: if_splits)
  from v have val: "\<forall>(d, c) \<in> set (steps t). dir_ok d \<and> override_ok c"
      "distinct (map (map towlower) (map fst (steps t)))"
    unfolding is_valid_iff [OF wf] by auto
  have "\<forall>(d, c) \<in> set (steps t'). dir_ok d \<and> override_ok c"
    using val(1) set_remove_at_subset [of "nat i" "steps t"] unfolding u(3) [unfolded eq] by blast
  moreover have "distinct (map (map towlower) (map fst (steps t')))"
    using distinct_remove_at [OF val(2), of "nat i"] u(3) eq by (simp add: map_remove_at)
  ultimately show ?thesis
    using v f u(2) eq is_valid_iff [OF wf] is_valid_iff [of t'] by simp
qed

lemma edit_step_valid:
  assumes wf: "task_wf t" and v: "batch_task_is_valid (Some t)"
    and r: "batch_task_edit_step (Some t) i (Some d) (Some c) = (1, Some t')"
  shows "batch_task_is_valid (Some t')"
proof -
  note e = edit_step_accepted [OF wf r]
  let ?i = "nat i"
  have n: "?i < length (steps t)" using e task_wf_lengths(5) [OF wf] by linarith
  from v have val: "\<forall>(d, c) \<in> set (steps t). dir_ok d \<and> override_ok c"
      "distinct (map (map towlower) (map fst (steps t)))"
    unfolding is_valid_iff [OF wf] by auto
  have other: "map towlower (fst (steps t ! k)) \<noteq> map towlower (normalized d)"
    if "k < length (steps t)" "k \<noteq> ?i" for k
    using e that steps_nth [OF wf, of k] task_wf_lengths(5) [OF wf] by auto
  have "distinct (map (map towlower) (map fst (steps t')))"
    using val(2) other n e
    by (auto simp: distinct_conv_nth nth_list_update) (metis other)
  moreover have "\<forall>(d, c) \<in> set (steps t'). dir_ok d \<and> override_ok c"
    using val(1) e set_update_subset_insert [of "steps t" ?i "(normalized d, c)"]
    by (auto simp: override_ok_def)
  ultimately show ?thesis
    using v e is_valid_iff [OF wf] is_valid_iff [of t'] by simp
qed

subsection \<open>Targets denote task identifiers\<close>

definition digits_from :: "int \<Rightarrow> wstr \<Rightarrow> int" where
  "digits_from a p = foldl (\<lambda>v c. v * 10 + digit_val c) a p"

lemma digits_from_simps [simp]:
  "digits_from a [] = a" "digits_from a (c # p) = digits_from (a * 10 + digit_val c) p"
  by (simp_all add: digits_from_def)

lemma digit_val_range: "is_digit c \<Longrightarrow> 0 \<le> digit_val c \<and> digit_val c \<le> 9"
  by (auto simp: is_digit_def digit_val_def word_le_def)

lemma digits_from_ge: "list_all is_digit p \<Longrightarrow> 0 \<le> a \<Longrightarrow> a \<le> digits_from a p"
proof (induction p arbitrary: a)
  case (Cons c p)
  then have "0 \<le> digit_val c" "0 \<le> a * 10 + digit_val c"
    using digit_val_range [of c] by auto
  with Cons.IH [of "a * 10 + digit_val c"] Cons.prems show ?case by simp
qed simp

lemma target_digits_exact:
  "0 \<le> a \<Longrightarrow> a \<le> LLONG_MAX \<Longrightarrow>
   target_digits a p = (if list_all is_digit p \<and> digits_from a p \<le> LLONG_MAX then digits_from a p else 0)"
proof (induction a p rule: target_digits.induct)
  case (2 a c p)
  show ?case
  proof (cases "is_digit c")
    case False
    then have "c < 48 \<or> 57 < c" by (auto simp: is_digit_def not_le)
    then show ?thesis using False by auto
  next
    case True
    note r = digit_val_range [OF True]
    have over: "a > (LLONG_MAX - digit_val c) div 10 \<longleftrightarrow> LLONG_MAX < a * 10 + digit_val c"
      using r by linarith
    have in_range: "\<not> (c < 48 \<or> 57 < c)" using True by (auto simp: is_digit_def not_le not_less)
    show ?thesis
    proof (cases "LLONG_MAX < a * 10 + digit_val c")
      case True
      have "a * 10 + digit_val c \<le> digits_from (a * 10 + digit_val c) p" if "list_all is_digit p"
        using that 2 r digits_from_ge [of p "a * 10 + digit_val c"] by simp
      with True in_range over show ?thesis by auto
    next
      case False
      with 2 r in_range over \<open>is_digit c\<close> show ?thesis by simp
    qed
  qed
qed simp

lemma prefix_length [simp]: "length BATCH_TARGET_PREFIX = 11"
  by (simp add: BATCH_TARGET_PREFIX_def)

lemma target_id_iff:
  "batch_task_target_id (Some s) = i \<and> i \<noteq> 0 \<longleftrightarrow>
   (\<exists>ds. s = BATCH_TARGET_PREFIX @ ds \<and> ds \<noteq> [] \<and> list_all is_digit ds
     \<and> digits_from 0 ds = i \<and> 0 < i \<and> i \<le> LLONG_MAX)"
proof -
  have nonneg: "0 \<le> digits_from 0 ds" if "list_all is_digit ds" for ds
    using digits_from_ge [OF that] by simp
  have "0 \<le> LLONG_MAX" by (simp add: LLONG_MAX_def)
  then have t: "target_digits 0 ds =
      (if list_all is_digit ds \<and> digits_from 0 ds \<le> LLONG_MAX then digits_from 0 ds else 0)" for ds
    using target_digits_exact [of 0 ds] by simp
  show ?thesis
  proof (cases "starts_with s BATCH_TARGET_PREFIX")
    case True
    then obtain ds where s: "s = BATCH_TARGET_PREFIX @ ds"
      unfolding starts_with_def by (metis append_take_drop_id)
    have "starts_with s BATCH_TARGET_PREFIX" "drop 11 s = ds" using s by (simp_all add: starts_with_def)
    then have "batch_task_target_id (Some s) = (if ds = [] then 0 else target_digits 0 ds)"
      by (simp add: batch_task_target_id_def Let_def)
    then show ?thesis using nonneg [of ds] by (auto simp: t s order_le_less)
  next
    case False
    then have "\<nexists>ds. s = BATCH_TARGET_PREFIX @ ds" by (auto simp: starts_with_def)
    with False show ?thesis by (auto simp: batch_task_target_id_def)
  qed
qed

lemma target_text:
  "batch_task_target i (Some cap) = Some s \<Longrightarrow> 0 < i \<and> s = BATCH_TARGET_PREFIX @ dec i \<and> length s < cap"
  by (auto simp: batch_task_target_def Let_def split: if_splits)

lemma digits_from_dec: "0 \<le> i \<Longrightarrow> digits_from 0 (dec i) = i"
  using digits_val_dec_nat [of "nat i"] by (simp add: dec_def digits_from_def digits_val_def)

lemma target_id_target:
  assumes "0 < i" "i \<le> LLONG_MAX"
  shows "batch_task_target_id (Some (BATCH_TARGET_PREFIX @ dec i)) = i"
proof -
  have "list_all is_digit (dec i)" "digits_from 0 (dec i) = i"
    using assms digits_from_dec [of i] by (simp_all add: dec_def)
  then show ?thesis
    using target_id_iff [of "BATCH_TARGET_PREFIX @ dec i" i] assms by auto
qed

lemma target_succeeds:
  assumes "0 < i" "i \<le> LLONG_MAX" "31 \<le> cap"
  shows "batch_task_target i (Some cap) = Some (BATCH_TARGET_PREFIX @ dec i)"
proof -
  have "length (dec i) \<le> 19"
    using length_dec_nat_le [of 19 "nat i"] assms
    by (simp add: dec_def LLONG_MAX_def nat_less_iff)
  then show ?thesis using assms by (simp add: batch_task_target_def Let_def)
qed

subsection \<open>The queue is a bounded first-in first-out queue of distinct tasks\<close>

locale bounded_fifo =
  fixes enq :: "'a \<Rightarrow> 'q \<Rightarrow> int \<times> 'q"
    and deq :: "'q \<Rightarrow> ('a \<times> 'q) option"
    and contents :: "'q \<Rightarrow> 'a list"
    and inv :: "'q \<Rightarrow> bool"
    and key :: "'a \<Rightarrow> int"
    and busy :: "'q \<Rightarrow> int"
    and capacity :: nat
  assumes enq_inv: "inv q \<Longrightarrow> inv (snd (enq x q))"
    and enq_accepted: "inv q \<Longrightarrow> fst (enq x q) = 1 \<Longrightarrow>
       contents (snd (enq x q)) = contents q @ [x] \<and> key x \<notin> key ` set (contents q) \<and> key x \<noteq> busy q"
    and enq_refused: "inv q \<Longrightarrow> fst (enq x q) \<noteq> 1 \<Longrightarrow> snd (enq x q) = q"
    and enq_busy: "inv q \<Longrightarrow> busy (snd (enq x q)) = busy q"
    and deq_law: "inv q \<Longrightarrow> deq q = Some (x, q') \<Longrightarrow>
       contents q = x # contents q' \<and> busy q = 0 \<and> busy q' = key x \<and> inv q'"
    and deq_blocked: "inv q \<Longrightarrow> deq q = None \<longleftrightarrow> busy q \<noteq> 0 \<or> contents q = []"
    and within: "inv q \<Longrightarrow> length (contents q) + of_bool (busy q \<noteq> 0) \<le> capacity"
    and keys_distinct: "inv q \<Longrightarrow> distinct (map key (contents q)) \<and> busy q \<notin> key ` set (contents q)"
begin

fun enq_all :: "'a list \<Rightarrow> 'q \<Rightarrow> 'q" where
  "enq_all [] q = q"
| "enq_all (x # xs) q = enq_all xs (snd (enq x q))"

fun accepted :: "'a list \<Rightarrow> 'q \<Rightarrow> 'a list" where
  "accepted [] q = []"
| "accepted (x # xs) q = (if fst (enq x q) = 1 then x # accepted xs (snd (enq x q)) else accepted xs q)"

lemma enq_all_contents:
  "inv q \<Longrightarrow> inv (enq_all xs q) \<and> contents (enq_all xs q) = contents q @ accepted xs q
     \<and> busy (enq_all xs q) = busy q"
proof (induction xs arbitrary: q)
  case (Cons x xs)
  show ?case
  proof (cases "fst (enq x q) = 1")
    case True
    with Cons enq_inv [of q x] enq_accepted [of q x] enq_busy [of q x] show ?thesis by simp
  next
    case False
    with Cons enq_refused [of q x] show ?thesis by simp
  qed
qed simp

lemma enq_all_order:
  "inv q \<Longrightarrow> contents (enq_all xs q) = contents q @ accepted xs q
     \<and> distinct (map key (contents (enq_all xs q)))
     \<and> length (contents (enq_all xs q)) + of_bool (busy q \<noteq> 0) \<le> capacity"
  using enq_all_contents [of q xs] keys_distinct [of "enq_all xs q"] within [of "enq_all xs q"] by auto

lemma next_is_first:
  "inv q \<Longrightarrow> contents q = x # xs \<Longrightarrow> busy q = 0 \<Longrightarrow>
   \<exists>q'. deq q = Some (x, q') \<and> contents q' = xs \<and> busy q' = key x \<and> inv q'"
proof -
  assume a: "inv q" "contents q = x # xs" "busy q = 0"
  then obtain p where p: "deq q = Some p" using deq_blocked [of q] by auto
  obtain y q' where "p = (y, q')" by (cases p)
  with p a deq_law [of q y q'] show ?thesis by auto
qed

end

definition queue_inv :: "BatchTaskQueue \<Rightarrow> bool" where
  "queue_inv q \<longleftrightarrow> length (q_items q) = BATCH_TASK_LIMIT \<and> 0 \<le> q_count q
     \<and> q_count q + (if active_id q \<noteq> 0 then 1 else 0) \<le> int BATCH_TASK_LIMIT
     \<and> (\<forall>t \<in> set (take (nat (q_count q)) (q_items q)). 0 < bt_id t \<and> batch_task_is_valid (Some t))
     \<and> distinct (map bt_id (take (nat (q_count q)) (q_items q)))
     \<and> active_id q \<notin> bt_id ` set (take (nat (q_count q)) (q_items q))"

definition waiting :: "BatchTaskQueue \<Rightarrow> BatchTask list" where
  "waiting q = take (nat (q_count q)) (q_items q)"

definition queue_add :: "BatchTask \<Rightarrow> BatchTaskQueue \<Rightarrow> int \<times> BatchTaskQueue" where
  "queue_add t q = map_prod id (\<lambda>r. case r of Some q' \<Rightarrow> q' | None \<Rightarrow> q) (batch_task_queue_add (Some q) (Some t))"

definition queue_take :: "BatchTaskQueue \<Rightarrow> (BatchTask \<times> BatchTaskQueue) option" where
  "queue_take q = batch_task_queue_take (Some q) True"

lemma queue_add_cases:
  assumes "queue_inv q"
  shows "queue_add t q =
    (if \<not> batch_task_is_valid (Some t) \<or> bt_id t \<le> 0 \<or> directory_count t = 0 \<or> bt_command t = [] then (-1, q)
     else if active_id q = bt_id t \<or> bt_id t \<in> bt_id ` set (waiting q) then (0, q)
     else if length (waiting q) + of_bool (active_id q \<noteq> 0) = BATCH_TASK_LIMIT then (-1, q)
     else (1, q\<lparr>q_items := (q_items q)[nat (q_count q) := t], q_count := q_count q + 1\<rparr>))"
proof -
  let ?n = "nat (q_count q)"
  have n: "?n \<le> length (q_items q)" "\<not> (q_count q < 0 \<or> q_count q > int BATCH_TASK_LIMIT)"
    and len: "length (waiting q) = ?n"
    using assms by (auto simp: queue_inv_def waiting_def split: if_splits)
  have dup: "list_ex (\<lambda>i. bt_id (q_items q ! i) = bt_id t) [0..<?n] \<longleftrightarrow> bt_id t \<in> bt_id ` set (waiting q)"
    using list_ex_cells [OF n(1), of "\<lambda>u. bt_id u = bt_id t"]
    by (auto simp: waiting_def image_iff dest: sym)
  have full: "q_count q + (if active_id q \<noteq> 0 then 1 else 0) \<ge> int BATCH_TASK_LIMIT
      \<longleftrightarrow> length (waiting q) + of_bool (active_id q \<noteq> 0) = BATCH_TASK_LIMIT"
    using assms n(2) by (auto simp: queue_inv_def len)
  show ?thesis
    using n(2) by (simp add: queue_add_def batch_task_queue_add_def dup full)
qed

lemma queue_add_accepted:
  assumes inv: "queue_inv q" and r: "fst (queue_add t q) = 1"
  shows "queue_inv (snd (queue_add t q)) \<and> waiting (snd (queue_add t q)) = waiting q @ [t]
    \<and> bt_id t \<notin> bt_id ` set (waiting q) \<and> bt_id t \<noteq> active_id q \<and> active_id (snd (queue_add t q)) = active_id q"
proof -
  let ?n = "nat (q_count q)" and ?q = "snd (queue_add t q)"
  from r have q: "?q = q\<lparr>q_items := (q_items q)[?n := t], q_count := q_count q + 1\<rparr>"
    and ok: "batch_task_is_valid (Some t)" "0 < bt_id t" "bt_id t \<notin> bt_id ` set (waiting q)" "bt_id t \<noteq> active_id q"
    and room: "length (waiting q) + of_bool (active_id q \<noteq> 0) \<noteq> BATCH_TASK_LIMIT"
    unfolding queue_add_cases [OF inv] by (auto split: if_splits)
  have n: "?n < length (q_items q)" "nat (q_count ?q) = Suc ?n"
    using inv room by (auto simp: queue_inv_def waiting_def q split: if_splits)
  have w: "waiting ?q = waiting q @ [t]"
    unfolding waiting_def n(2) using take_update_append [OF n(1), of t] by (simp add: q)
  have len: "length (waiting q) = ?n" using n by (simp add: waiting_def)
  have "queue_inv ?q"
    using inv ok room w len unfolding queue_inv_def waiting_def [symmetric]
    by (auto simp: q split: if_splits)
  with w ok show ?thesis by (auto simp: q)
qed

lemma queue_take_cases:
  assumes inv: "queue_inv q"
  shows "queue_take q = None \<longleftrightarrow> active_id q \<noteq> 0 \<or> waiting q = []"
    and "queue_take q = Some (t, q') \<Longrightarrow>
      waiting q = t # waiting q' \<and> active_id q = 0 \<and> active_id q' = bt_id t \<and> queue_inv q'"
proof -
  let ?n = "nat (q_count q)"
  have len: "length (q_items q) = BATCH_TASK_LIMIT" "0 \<le> q_count q" "q_count q \<le> int BATCH_TASK_LIMIT"
    using inv by (auto simp: queue_inv_def split: if_splits)
  show "queue_take q = None \<longleftrightarrow> active_id q \<noteq> 0 \<or> waiting q = []"
    using len by (auto simp: queue_take_def batch_task_queue_take_def waiting_def batch_limits)
  assume t: "queue_take q = Some (t, q')"
  then have q': "t = q_items q ! 0" "q' = q\<lparr>active_id := bt_id t, q_count := q_count q - 1, q_items := move_down 0 ?n (q_items q)\<rparr>"
    and act: "active_id q = 0" "1 \<le> q_count q"
    by (auto simp: queue_take_def batch_task_queue_take_def split: if_splits)
  have n: "0 < ?n" "?n \<le> length (q_items q)" "nat (q_count q') = ?n - 1" using act len q' by auto
  have w': "waiting q' = remove_at 0 (waiting q)"
    unfolding waiting_def n(3) using take_move_down [OF n(1,2)] by (simp add: q')
  have w: "waiting q = t # waiting q'"
    using n w' by (cases "q_items q"; cases ?n) (auto simp: waiting_def q' remove_at_def)
  have "queue_inv q'"
    using inv w act n len unfolding queue_inv_def waiting_def [symmetric]
    by (auto simp: q')
  with w act show "waiting q = t # waiting q' \<and> active_id q = 0 \<and> active_id q' = bt_id t \<and> queue_inv q'"
    by (simp add: q')
qed

lemma queue_cancel_inv:
  "queue_inv q \<Longrightarrow> batch_task_queue_cancel (Some q) = Some q' \<Longrightarrow>
   queue_inv q' \<and> waiting q' = [] \<and> active_id q' = active_id q"
  by (auto simp: batch_task_queue_cancel_def queue_inv_def waiting_def batch_limits split: if_splits)

interpretation bq: bounded_fifo queue_add queue_take waiting queue_inv bt_id active_id BATCH_TASK_LIMIT
proof unfold_locales
  fix q x
  assume inv: "queue_inv q"
  show "queue_inv (snd (queue_add x q))"
    using queue_add_accepted [OF inv, of x] inv
    by (cases "fst (queue_add x q) = 1") (auto simp: queue_add_cases [OF inv] split: if_splits)
  show "active_id (snd (queue_add x q)) = active_id q"
    by (auto simp: queue_add_cases [OF inv])
  show "fst (queue_add x q) \<noteq> 1 \<Longrightarrow> snd (queue_add x q) = q"
    by (auto simp: queue_add_cases [OF inv] split: if_splits)
  show "fst (queue_add x q) = 1 \<Longrightarrow> waiting (snd (queue_add x q)) = waiting q @ [x]
      \<and> bt_id x \<notin> bt_id ` set (waiting q) \<and> bt_id x \<noteq> active_id q"
    using queue_add_accepted [OF inv] by blast
  show "queue_take q = None \<longleftrightarrow> active_id q \<noteq> 0 \<or> waiting q = []"
    by (rule queue_take_cases [OF inv])
  show "queue_take q = Some (x, q') \<Longrightarrow>
      waiting q = x # waiting q' \<and> active_id q = 0 \<and> active_id q' = bt_id x \<and> queue_inv q'" for q'
    by (rule queue_take_cases [OF inv])
  show "length (waiting q) + of_bool (active_id q \<noteq> 0) \<le> BATCH_TASK_LIMIT"
    using inv by (auto simp: queue_inv_def waiting_def split: if_splits)
  show "distinct (map bt_id (waiting q)) \<and> active_id q \<notin> bt_id ` set (waiting q)"
    using inv by (simp add: queue_inv_def waiting_def)
qed

subsection \<open>Editing a task refines editing its list of steps\<close>

datatype task_op = AddDir wstr | RemoveDir int | EditStep int wstr wstr

definition apply_op :: "BatchTask \<Rightarrow> task_op \<Rightarrow> BatchTask" where
  "apply_op t op = the (snd (case op of
      AddDir d \<Rightarrow> batch_task_add_directory (Some t) (Some d)
    | RemoveDir i \<Rightarrow> batch_task_remove_directory (Some t) i
    | EditStep i d c \<Rightarrow> batch_task_edit_step (Some t) i (Some d) (Some c)))"

fun spec_op :: "(wstr \<times> wstr) list \<Rightarrow> task_op \<Rightarrow> (wstr \<times> wstr) list" where
  "spec_op ss (AddDir d) =
     (if dir_ok (normalized d) \<and> length ss < BATCH_DIRECTORY_LIMIT
         \<and> map towlower (normalized d) \<notin> set (map (map towlower \<circ> fst) ss)
      then ss @ [(normalized d, [])] else ss)"
| "spec_op ss (RemoveDir i) = (if 0 \<le> i \<and> i < int (length ss) then remove_at (nat i) ss else ss)"
| "spec_op ss (EditStep i d c) =
     (if 0 \<le> i \<and> i < int (length ss) \<and> dir_ok (normalized d) \<and> length c < BATCH_COMMAND_CAP
         \<and> has_nonblank c
         \<and> (\<forall>k < length ss. k \<noteq> nat i \<longrightarrow> map towlower (fst (ss ! k)) \<noteq> map towlower (normalized d))
      then ss[nat i := (normalized d, c)] else ss)"

lemma dir_ok_normalized:
  "dir_ok (normalized d) \<longleftrightarrow> normalized_length d \<noteq> 0 \<and> normalized_length d < BATCH_DIRECTORY_CAP"
  unfolding dir_ok_def by (metis length_0_conv length_normalized)

lemma apply_add_refines:
  assumes wf: "task_wf t"
  shows "task_wf (apply_op t (AddDir d)) \<and> steps (apply_op t (AddDir d)) = spec_op (steps t) (AddDir d)
    \<and> (batch_task_is_valid (Some t) \<longrightarrow> batch_task_is_valid (Some (apply_op t (AddDir d))))"
proof (cases "fst (batch_task_add_directory (Some t) (Some d)) = 1")
  case True
  then have r: "batch_task_add_directory (Some t) (Some d) = (1, Some (apply_op t (AddDir d)))"
    unfolding add_directory_result [OF wf] apply_op_def by (auto split: if_splits)
  have "length (steps t) < BATCH_DIRECTORY_LIMIT"
    using True wf unfolding add_directory_result [OF wf] task_wf_lengths(5) [OF wf]
    by (auto simp: task_wf_def split: if_splits)
  with add_directory_accepted [OF wf r] add_directory_valid [OF wf _ r] show ?thesis
    by (simp add: map_fst_steps [OF wf, symmetric] image_image)
next
  case False
  then have same: "apply_op t (AddDir d) = t"
    unfolding add_directory_result [OF wf] apply_op_def by (auto split: if_splits)
  have "spec_op (steps t) (AddDir d) = steps t"
    using False wf unfolding add_directory_result [OF wf]
    by (auto simp: task_wf_lengths same_directory_iff map_fst_steps [OF wf, symmetric] dir_ok_def
        intro: rev_image_eqI split: if_splits)
  with wf same show ?thesis by simp
qed

lemma apply_remove_refines:
  assumes wf: "task_wf t"
  shows "task_wf (apply_op t (RemoveDir i)) \<and> steps (apply_op t (RemoveDir i)) = spec_op (steps t) (RemoveDir i)
    \<and> (batch_task_is_valid (Some t) \<longrightarrow> batch_task_is_valid (Some (apply_op t (RemoveDir i))))"
proof (cases "0 \<le> i \<and> i < directory_count t")
  case True
  then obtain t' where r: "batch_task_remove_directory (Some t) i = (1, Some t')"
    and t': "task_wf t'" "steps t' = remove_at (nat i) (steps t)"
    using remove_directory_accepted [OF wf, of i] by auto
  then have "apply_op t (RemoveDir i) = t'" by (simp add: apply_op_def)
  with t' True wf remove_directory_valid [OF wf _ r] show ?thesis
    by (auto simp: task_wf_lengths)
next
  case False
  then have "apply_op t (RemoveDir i) = t"
    by (auto simp: apply_op_def batch_task_remove_directory_def)
  with False wf show ?thesis by (auto simp: task_wf_lengths)
qed

lemma apply_edit_refines:
  assumes wf: "task_wf t"
  shows "task_wf (apply_op t (EditStep i d c))
    \<and> steps (apply_op t (EditStep i d c)) = spec_op (steps t) (EditStep i d c)
    \<and> (batch_task_is_valid (Some t) \<longrightarrow> batch_task_is_valid (Some (apply_op t (EditStep i d c))))"
proof (cases "fst (batch_task_edit_step (Some t) i (Some d) (Some c)) = 1")
  case True
  then have r: "batch_task_edit_step (Some t) i (Some d) (Some c) = (1, Some (apply_op t (EditStep i d c)))"
    unfolding apply_op_def by (auto simp: batch_task_edit_step_def Let_def split: if_splits)
  note a = edit_step_accepted [OF wf r]
  then show ?thesis
    using edit_step_valid [OF wf _ r] steps_nth [OF wf] task_wf_lengths(5) [OF wf] by auto
next
  case False
  then have same: "apply_op t (EditStep i d c) = t"
    unfolding apply_op_def by (auto simp: batch_task_edit_step_def Let_def split: if_splits)
  have count: "0 \<le> directory_count t" "\<not> directory_count t > int BATCH_DIRECTORY_LIMIT"
    using wf by (auto simp: task_wf_def)
  have "spec_op (steps t) (EditStep i d c) = steps t"
    using False count steps_nth [OF wf]
    by (auto simp: batch_task_edit_step_def Let_def dir_ok_normalized task_wf_lengths [OF wf] list_ex_upt
        same_directory_iff normalized_def [symmetric] split: if_splits)
  with wf same show ?thesis by simp
qed

lemma apply_op_refines:
  "task_wf t \<Longrightarrow> task_wf (apply_op t op) \<and> steps (apply_op t op) = spec_op (steps t) op
    \<and> (batch_task_is_valid (Some t) \<longrightarrow> batch_task_is_valid (Some (apply_op t op)))"
  using apply_add_refines apply_remove_refines apply_edit_refines by (cases op) auto

lemma apply_ops_refine:
  "task_wf t \<Longrightarrow> task_wf (foldl apply_op t ops) \<and> steps (foldl apply_op t ops) = foldl spec_op (steps t) ops
    \<and> (batch_task_is_valid (Some t) \<longrightarrow> batch_task_is_valid (Some (foldl apply_op t ops)))"
proof (induction ops arbitrary: t)
  case (Cons op ops)
  with apply_op_refines [OF Cons.prems, of op] show ?case by auto
qed simp

subsection \<open>Properties\<close>

text \<open>C1 (refinement): any sequence of additions, removals and edits of a valid task behaves as
  the same edits of the plain list of its steps, refused edits included, and the task stays valid:
  at most 24 steps, no two directories equal up to case, no blank override, every string within
  its buffer.\<close>

theorem task_edits_refine_step_list:
  assumes "task_wf t" and "batch_task_is_valid (Some t)"
  shows "steps (foldl apply_op t ops) = foldl spec_op (steps t) ops
    \<and> batch_task_is_valid (Some (foldl apply_op t ops))
    \<and> distinct (map (map towlower \<circ> fst) (steps (foldl apply_op t ops)))
    \<and> length (steps (foldl apply_op t ops)) \<le> BATCH_DIRECTORY_LIMIT"
proof -
  note r = apply_ops_refine [OF assms(1), of ops]
  then have wf: "task_wf (foldl apply_op t ops)" and v: "batch_task_is_valid (Some (foldl apply_op t ops))"
    using assms(2) by auto
  have "distinct (map (map towlower \<circ> fst) (steps (foldl apply_op t ops)))"
    using v unfolding is_valid_iff [OF wf] by simp
  moreover have "length (steps (foldl apply_op t ops)) \<le> BATCH_DIRECTORY_LIMIT"
    using wf by (auto simp: task_wf_lengths task_wf_def)
  ultimately show ?thesis using r v by blast
qed

lemma zero_task_valid: "batch_task_is_valid (Some zero_task)"
  by (simp add: is_valid_iff) (simp add: zero_task_def batch_limits)

theorem task_edits_refine_step_list_witness:
  "task_wf zero_task \<and> batch_task_is_valid (Some zero_task)
   \<and> steps (foldl apply_op zero_task [AddDir (W ''C:/a/''), RemoveDir 0]) =
     foldl spec_op [] [AddDir (W ''C:/a/''), RemoveDir 0]"
  using task_edits_refine_step_list [OF zero_task_wf zero_task_valid, of "[AddDir (W ''C:/a/''), RemoveDir 0]"]
    zero_task_wf zero_task_valid by simp

text \<open>C2 (refinement): launching a sequence of tasks keeps the queue a bounded FIFO: the accepted
  tasks wait in the order of their requests behind those already waiting, no task waits twice, the
  running task and the waiting ones together never exceed 16, and the next task taken when none is
  running is the oldest waiting one.\<close>

theorem batch_queue_is_fifo:
  assumes "queue_inv q"
  shows "waiting (bq.enq_all ts q) = waiting q @ bq.accepted ts q
    \<and> distinct (map bt_id (waiting (bq.enq_all ts q)))
    \<and> length (waiting (bq.enq_all ts q)) + of_bool (active_id q \<noteq> 0) \<le> BATCH_TASK_LIMIT
    \<and> (\<forall>t rest. waiting (bq.enq_all ts q) = t # rest \<and> active_id q = 0 \<longrightarrow>
         (\<exists>q'. queue_take (bq.enq_all ts q) = Some (t, q') \<and> waiting q' = rest \<and> active_id q' = bt_id t))"
  using bq.enq_all_order [OF assms, of ts] bq.enq_all_contents [OF assms, of ts]
    bq.next_is_first [of "bq.enq_all ts q"] by auto

definition empty_queue :: BatchTaskQueue where
  "empty_queue = \<lparr>q_items = replicate BATCH_TASK_LIMIT zero_task, q_count = 0, active_id = 0\<rparr>"

theorem batch_queue_is_fifo_witness:
  "queue_inv empty_queue
   \<and> waiting (bq.enq_all [zero_task] empty_queue) = waiting empty_queue @ bq.accepted [zero_task] empty_queue"
proof -
  have inv: "queue_inv empty_queue" by (simp add: queue_inv_def empty_queue_def)
  from batch_queue_is_fifo [OF inv, of "[zero_task]"] inv show ?thesis by simp
qed

text \<open>The launcher target written for a task identifier reads back as that
  identifier, and a buffer of 31 characters always suffices.\<close>

theorem target_roundtrip:
  assumes "0 < i" and "i \<le> LLONG_MAX" and "31 \<le> cap"
  shows "\<exists>s. batch_task_target i (Some cap) = Some s \<and> length s < cap
     \<and> batch_task_target_id (Some s) = i"
  using target_succeeds [OF assms] target_id_target [OF assms(1,2)] target_text by blast

theorem target_roundtrip_witness:
  "\<exists>s. batch_task_target 42 (Some 64) = Some s \<and> length s < 64 \<and> batch_task_target_id (Some s) = 42"
  by (rule target_roundtrip) (simp_all add: LLONG_MAX_def)

text \<open>For every string, whatever its length, the parsed identifier is in
  \<open>0..LLONG_MAX\<close> (the accumulation never overflows), and it is not 0 exactly for the prefix
  followed by decimal digits whose value is positive and fits.\<close>

theorem target_id_exact:
  "0 \<le> batch_task_target_id target \<and> batch_task_target_id target \<le> LLONG_MAX
   \<and> (batch_task_target_id (Some s) \<noteq> 0 \<longleftrightarrow>
       (\<exists>ds. s = BATCH_TARGET_PREFIX @ ds \<and> ds \<noteq> [] \<and> list_all is_digit ds
          \<and> 0 < digits_from 0 ds \<and> digits_from 0 ds \<le> LLONG_MAX
          \<and> batch_task_target_id (Some s) = digits_from 0 ds))"
proof -
  have max: "0 \<le> LLONG_MAX" by (simp add: LLONG_MAX_def)
  have "0 \<le> batch_task_target_id target \<and> batch_task_target_id target \<le> LLONG_MAX"
  proof (cases target)
    case None
    with max show ?thesis by (simp add: batch_task_target_id_def)
  next
    case (Some u)
    with max show ?thesis
      using target_id_iff [of u "batch_task_target_id (Some u)"] by fastforce
  qed
  then show ?thesis using target_id_iff [of s] by metis
qed

end
