(* ===== verification/File_Command.thy ===== *)
theory File_Command
  imports Prelude
begin

text \<open>
  \<open>src/src/core/file_command.[ch]\<close>: the commands of the file manager, a bounded list with a default
  entry. The comparison of names, \<open>lstrcmpiW\<close>, is the parameter \<open>ieq\<close> (true when it returns 0).
\<close>

subsection \<open>Data\<close>

definition FILE_COMMAND_LIMIT :: nat where "FILE_COMMAND_LIMIT = 16"
definition FILE_COMMAND_NAME_CAP :: nat where "FILE_COMMAND_NAME_CAP = 64"
definition FILE_COMMAND_TEXT_CAP :: nat where "FILE_COMMAND_TEXT_CAP = 2048"

lemmas file_command_limits =
  FILE_COMMAND_LIMIT_def FILE_COMMAND_NAME_CAP_def FILE_COMMAND_TEXT_CAP_def

record FileCommand =
  fc_name :: wstr
  fc_command :: wstr

record FileCommandList =
  fcl_items :: "FileCommand list"
  fcl_count :: int
  default_index :: int

definition zero_file_command :: FileCommand where
  "zero_file_command = \<lparr>fc_name = [], fc_command = []\<rparr>"

definition zero_file_commands :: FileCommandList where
  "zero_file_commands =
     \<lparr>fcl_items = replicate FILE_COMMAND_LIMIT zero_file_command, fcl_count = 0, default_index = 0\<rparr>"

subsection \<open>Operations\<close>

definition has_text :: "wstr option \<Rightarrow> bool" where
  "has_text value = (case value of None \<Rightarrow> False | Some s \<Rightarrow> has_nonblank s)"

definition file_command_defaults :: "FileCommandList option \<Rightarrow> FileCommandList option" where
  "file_command_defaults commands = map_option (\<lambda>_.
     zero_file_commands\<lparr>fcl_count := 1, default_index := 0,
       fcl_items := (fcl_items zero_file_commands)
         [0 := \<lparr>fc_name = W ''cmd.exe'', fc_command = W ''cd .''\<rparr>]\<rparr>) commands"

definition file_command_list_is_valid ::
    "(wstr \<Rightarrow> wstr \<Rightarrow> bool) \<Rightarrow> FileCommandList option \<Rightarrow> bool" where
  "file_command_list_is_valid ieq commands =
     (case commands of
        None \<Rightarrow> False
      | Some c \<Rightarrow>
          if fcl_count c < 1 \<or> fcl_count c > int FILE_COMMAND_LIMIT \<or> default_index c < 0
             \<or> default_index c \<ge> fcl_count c then False
          else list_all (\<lambda>i. let item = fcl_items c ! i in
              \<not> (\<not> has_text (Some (fc_name item)) \<or> \<not> has_text (Some (fc_command item))
                \<or> length (fc_name item) \<ge> FILE_COMMAND_NAME_CAP
                \<or> length (fc_command item) \<ge> FILE_COMMAND_TEXT_CAP)
              \<and> list_all (\<lambda>j. \<not> ieq (fc_name item) (fc_name (fcl_items c ! j))) [0..<i])
            [0..<nat (fcl_count c)])"

definition file_command_add ::
    "(wstr \<Rightarrow> wstr \<Rightarrow> bool) \<Rightarrow> FileCommandList option \<Rightarrow> wstr option \<Rightarrow> wstr option
     \<Rightarrow> int \<times> FileCommandList option" where
  "file_command_add ieq commands name command =
     (case commands of
        None \<Rightarrow> (-1, commands)
      | Some c \<Rightarrow>
          if fcl_count c < 0 \<or> fcl_count c \<ge> int FILE_COMMAND_LIMIT \<or> \<not> has_text name
             \<or> \<not> has_text command \<or> length (the name) \<ge> FILE_COMMAND_NAME_CAP
             \<or> length (the command) \<ge> FILE_COMMAND_TEXT_CAP then (-1, commands)
          else if list_ex (\<lambda>i. ieq (the name) (fc_name (fcl_items c ! i))) [0..<nat (fcl_count c)]
          then (0, commands)
          else (let n = nat (fcl_count c);
                    c = c\<lparr>fcl_count := fcl_count c + 1,
                          fcl_items := (fcl_items c)[n :=
                            \<lparr>fc_name = take (FILE_COMMAND_NAME_CAP - 1) (the name),
                             fc_command = take (FILE_COMMAND_TEXT_CAP - 1) (the command)\<rparr>]\<rparr>;
                    c = (if fcl_count c = 1 then c\<lparr>default_index := 0\<rparr> else c)
                in (1, Some c)))"

definition file_command_remove :: "FileCommandList option \<Rightarrow> int \<Rightarrow> bool \<times> FileCommandList option" where
  "file_command_remove commands index =
     (case commands of
        None \<Rightarrow> (False, commands)
      | Some c \<Rightarrow>
          if fcl_count c \<le> 1 \<or> index < 0 \<or> index \<ge> fcl_count c then (False, commands)
          else (let c1 = c\<lparr>fcl_items := move_down (nat index) (nat (fcl_count c)) (fcl_items c),
                          fcl_count := fcl_count c - 1\<rparr>;
                    c2 = (if default_index c1 = index then c1\<lparr>default_index := 0\<rparr>
                          else if default_index c1 > index
                          then c1\<lparr>default_index := default_index c1 - 1\<rparr> else c1);
                    c3 = c2\<lparr>fcl_items := (fcl_items c2)[nat (fcl_count c2) := zero_file_command]\<rparr>
                in (True, Some c3)))"

subsection \<open>The list a value stands for\<close>

definition commands_wf :: "FileCommandList \<Rightarrow> bool" where
  "commands_wf c \<longleftrightarrow> length (fcl_items c) = FILE_COMMAND_LIMIT
     \<and> 0 \<le> fcl_count c \<and> fcl_count c \<le> int FILE_COMMAND_LIMIT"

definition command_list :: "FileCommandList \<Rightarrow> FileCommand list" where
  "command_list c = take (nat (fcl_count c)) (fcl_items c)"

definition command_ok :: "FileCommand \<Rightarrow> bool" where
  "command_ok f \<longleftrightarrow> has_nonblank (fc_name f) \<and> has_nonblank (fc_command f)
     \<and> length (fc_name f) < FILE_COMMAND_NAME_CAP \<and> length (fc_command f) < FILE_COMMAND_TEXT_CAP"

definition names_differ :: "(wstr \<Rightarrow> wstr \<Rightarrow> bool) \<Rightarrow> FileCommand list \<Rightarrow> bool" where
  "names_differ ieq fs \<longleftrightarrow> sorted_wrt (\<lambda>f g. \<not> ieq (fc_name g) (fc_name f)) fs"

definition default_command :: "FileCommandList \<Rightarrow> FileCommand" where
  "default_command c = command_list c ! nat (default_index c)"

lemma length_command_list: "commands_wf c \<Longrightarrow> length (command_list c) = nat (fcl_count c)"
  by (auto simp: commands_wf_def command_list_def)

lemma commands_valid_iff:
  assumes "commands_wf c"
  shows "file_command_list_is_valid ieq (Some c) \<longleftrightarrow>
    command_list c \<noteq> [] \<and> 0 \<le> default_index c \<and> nat (default_index c) < length (command_list c)
    \<and> list_all command_ok (command_list c) \<and> names_differ ieq (command_list c)"
proof -
  let ?n = "nat (fcl_count c)"
  have n: "?n \<le> length (fcl_items c)" using assms by (auto simp: commands_wf_def)
  have "list_all command_ok (command_list c) \<longleftrightarrow> (\<forall>i < ?n. command_ok (fcl_items c ! i))"
    using n by (auto simp: list_all_length command_list_def)
  moreover have "names_differ ieq (command_list c) \<longleftrightarrow>
      (\<forall>i < ?n. \<forall>j < i. \<not> ieq (fc_name (fcl_items c ! i)) (fc_name (fcl_items c ! j)))"
    unfolding names_differ_def command_list_def
    by (rule pairwise_cells_sorted_wrt [OF n, symmetric])
  moreover have "command_list c \<noteq> [] \<longleftrightarrow> 1 \<le> fcl_count c"
    using n assms by (auto simp: command_list_def commands_wf_def file_command_limits)
  ultimately show ?thesis
    using assms unfolding length_command_list [OF assms]
    by (auto simp: file_command_list_is_valid_def list_all_upt command_ok_def has_text_def commands_wf_def
        Let_def)
qed

lemma add_command_accepted:
  assumes wf: "commands_wf c" and r: "file_command_add ieq (Some c) (Some name) (Some command) = (1, Some c')"
  shows "commands_wf c'" "command_list c' = command_list c @ [\<lparr>fc_name = name, fc_command = command\<rparr>]"
    "command_ok \<lparr>fc_name = name, fc_command = command\<rparr>"
    "\<forall>f \<in> set (command_list c). \<not> ieq name (fc_name f)"
    "default_index c' = (if command_list c = [] then 0 else default_index c)"
proof -
  let ?n = "nat (fcl_count c)"
  have n: "?n < length (fcl_items c)" "0 \<le> fcl_count c"
    using wf r by (auto simp: file_command_add_def commands_wf_def split: if_splits)
  have ok: "has_nonblank name" "has_nonblank command" "length name < FILE_COMMAND_NAME_CAP"
    "length command < FILE_COMMAND_TEXT_CAP"
    using r by (auto simp: file_command_add_def has_text_def split: if_splits)
  have fresh: "\<not> list_ex (\<lambda>i. ieq name (fc_name (fcl_items c ! i))) [0..<?n]"
    using r by (auto simp: file_command_add_def split: if_splits)
  have c': "fcl_items c' = (fcl_items c)[?n := \<lparr>fc_name = name, fc_command = command\<rparr>]"
    "fcl_count c' = fcl_count c + 1"
    "default_index c' = (if fcl_count c = 0 then 0 else default_index c)"
    using r ok by (auto simp: file_command_add_def Let_def split: if_splits)
  show "commands_wf c'" using wf n(1) c' unfolding commands_wf_def by (simp; linarith)
  have "nat (fcl_count c') = Suc ?n" using c'(2) n(2) by linarith
  then show "command_list c' = command_list c @ [\<lparr>fc_name = name, fc_command = command\<rparr>]"
    using n c'(1) by (simp add: command_list_def arrays)
  show "command_ok \<lparr>fc_name = name, fc_command = command\<rparr>" using ok by (simp add: command_ok_def)
  show "\<forall>f \<in> set (command_list c). \<not> ieq name (fc_name f)"
    using fresh list_ex_cells [of ?n "fcl_items c" "\<lambda>f. ieq name (fc_name f)"] n
    by (auto simp: command_list_def)
  show "default_index c' = (if command_list c = [] then 0 else default_index c)"
    using c'(3) n by (auto simp: command_list_def)
qed

lemma remove_command_accepted:
  assumes wf: "commands_wf c" and r: "file_command_remove (Some c) index = (True, Some c')"
  shows "commands_wf c'" "0 \<le> index" "index < int (length (command_list c))"
    "command_list c' = remove_at (nat index) (command_list c)" "1 < length (command_list c)"
    "default_index c' = (if default_index c = index then 0
       else if default_index c > index then default_index c - 1 else default_index c)"
proof -
  let ?n = "nat (fcl_count c)" and ?i = "nat index"
  have i: "0 \<le> index" "index < fcl_count c" "1 < fcl_count c"
    using r by (auto simp: file_command_remove_def split: if_splits)
  have n: "?n \<le> length (fcl_items c)" "fcl_count c = int ?n" "?i < ?n"
    using wf i by (auto simp: commands_wf_def)
  have c': "fcl_count c' = fcl_count c - 1"
    "fcl_items c' = (move_down ?i ?n (fcl_items c))[?n - 1 := zero_file_command]"
    using r by (auto simp: file_command_remove_def Let_def nat_diff_distrib split: if_splits)
  show "0 \<le> index" "index < int (length (command_list c))" "1 < length (command_list c)"
    using i wf by (auto simp: length_command_list)
  show "commands_wf c'" using wf n c' i by (auto simp: commands_wf_def)
  have "nat (fcl_count c') = ?n - 1" using c' by simp
  then show "command_list c' = remove_at ?i (command_list c)"
    using n by (simp add: command_list_def c'(2) arrays)
  show "default_index c' = (if default_index c = index then 0
       else if default_index c > index then default_index c - 1 else default_index c)"
    using r by (auto simp: file_command_remove_def Let_def split: if_splits)
qed

lemma add_command_refused:
  "fst (file_command_add ieq c name command) \<noteq> 1 \<Longrightarrow> snd (file_command_add ieq c name command) = c"
  by (auto simp: file_command_add_def Let_def split: if_splits option.splits)

lemma add_command_valid:
  assumes wf: "commands_wf c" and v: "file_command_list_is_valid ieq (Some c)"
    and r: "file_command_add ieq (Some c) (Some name) (Some command) = (1, Some c')"
  shows "file_command_list_is_valid ieq (Some c') \<and> default_command c' = default_command c"
proof -
  note a = add_command_accepted [OF wf r]
  from v have ne: "command_list c \<noteq> []" "0 \<le> default_index c" "nat (default_index c) < length (command_list c)"
    by (auto simp: commands_valid_iff [OF wf])
  then have "file_command_list_is_valid ieq (Some c')"
    using v a unfolding commands_valid_iff [OF a(1)] commands_valid_iff [OF wf]
    by (auto simp: names_differ_def sorted_wrt_append)
  moreover have "default_command c' = default_command c"
    using a ne by (simp add: default_command_def nth_append)
  ultimately show ?thesis ..
qed

lemma remove_command_valid:
  assumes wf: "commands_wf c" and v: "file_command_list_is_valid ieq (Some c)"
    and r: "file_command_remove (Some c) index = (True, Some c')"
  shows "file_command_list_is_valid ieq (Some c')
    \<and> default_command c' = (if default_index c = index then hd (command_list c') else default_command c)"
proof -
  note a = remove_command_accepted [OF wf r]
  from v have d: "0 \<le> default_index c" "nat (default_index c) < length (command_list c)"
    by (auto simp: commands_valid_iff [OF wf])
  have i: "nat index < length (command_list c)" using a by simp
  have len: "length (command_list c') = length (command_list c) - 1" using a(4) i by simp
  have ne: "command_list c' \<noteq> []" using len a(5) by auto
  have d': "0 \<le> default_index c' \<and> nat (default_index c') < length (command_list c')"
    using d a(2,3,5,6) len by (auto split: if_splits)
  have "file_command_list_is_valid ieq (Some c')"
    using v ne d' set_remove_at_subset [of "nat index" "command_list c"] sorted_wrt_remove_at
    unfolding commands_valid_iff [OF a(1)] commands_valid_iff [OF wf]
    by (auto simp: a(4) names_differ_def list_all_iff)
  moreover have "default_command c' = (if default_index c = index then hd (command_list c') else default_command c)"
  proof -
    consider "default_index c = index" | "default_index c < index" | "index < default_index c" by linarith
    then show ?thesis
    proof cases
      case 1
      with a(6) ne show ?thesis by (simp add: default_command_def hd_conv_nth)
    next
      case 2
      with a(6) have "default_index c' = default_index c" by simp
      moreover have "nat (default_index c) < nat index" using 2 a(2) d by auto
      ultimately show ?thesis
        using 2 d' len i unfolding default_command_def a(4) by (simp add: nth_remove_at)
    next
      case 3
      with a(6) have "default_index c' = default_index c - 1" by simp
      moreover have "\<not> nat (default_index c - 1) < nat index" using 3 a(2) by auto
      moreover have "Suc (nat (default_index c - 1)) = nat (default_index c)" using 3 a(2) by auto
      ultimately show ?thesis
        using 3 d' len i unfolding default_command_def a(4) by (simp add: nth_remove_at)
    qed
  qed
  ultimately show ?thesis ..
qed

subsection \<open>Sequences of edits\<close>

datatype command_op = AddCommand wstr wstr | RemoveCommand int

definition run_command_op :: "(wstr \<Rightarrow> wstr \<Rightarrow> bool) \<Rightarrow> FileCommandList \<Rightarrow> command_op \<Rightarrow> FileCommandList" where
  "run_command_op ieq c op = the (case op of
      AddCommand n t \<Rightarrow> snd (file_command_add ieq (Some c) (Some n) (Some t))
    | RemoveCommand i \<Rightarrow> snd (file_command_remove (Some c) i))"

lemma run_command_op_valid:
  assumes "commands_wf c" "file_command_list_is_valid ieq (Some c)"
  shows "commands_wf (run_command_op ieq c op) \<and> file_command_list_is_valid ieq (Some (run_command_op ieq c op))"
proof (cases op)
  case (AddCommand n t)
  show ?thesis
  proof (cases "fst (file_command_add ieq (Some c) (Some n) (Some t)) = 1")
    case True
    then have r: "file_command_add ieq (Some c) (Some n) (Some t) = (1, Some (run_command_op ieq c op))"
      using AddCommand by (auto simp: run_command_op_def file_command_add_def Let_def split: if_splits)
    show ?thesis using add_command_accepted(1) [OF assms(1) r] add_command_valid [OF assms r] by simp
  next
    case False
    with AddCommand add_command_refused [of ieq "Some c" "Some n" "Some t"] assms show ?thesis
      by (simp add: run_command_op_def)
  qed
next
  case (RemoveCommand i)
  show ?thesis
  proof (cases "fst (file_command_remove (Some c) i)")
    case True
    then have r: "file_command_remove (Some c) i = (True, Some (run_command_op ieq c op))"
      using RemoveCommand by (auto simp: run_command_op_def file_command_remove_def Let_def split: if_splits)
    show ?thesis using remove_command_accepted(1) [OF assms(1) r] remove_command_valid [OF assms r] by simp
  next
    case False
    then have "snd (file_command_remove (Some c) i) = Some c"
      by (auto simp: file_command_remove_def Let_def split: if_splits)
    with RemoveCommand assms show ?thesis by (simp add: run_command_op_def)
  qed
qed

lemma default_commands_valid:
  assumes "file_command_defaults (Some c) = Some d"
  shows "commands_wf d \<and> file_command_list_is_valid ieq (Some d)"
proof -
  have d: "commands_wf d" "command_list d = [\<lparr>fc_name = W ''cmd.exe'', fc_command = W ''cd .''\<rparr>]"
    "default_index d = 0"
    using assms by (auto simp: file_command_defaults_def commands_wf_def command_list_def
        zero_file_commands_def file_command_limits numeral_eq_Suc)
  then show ?thesis
    by (simp add: commands_valid_iff names_differ_def command_ok_def has_nonblank_def is_blank_def W_Cons
        file_command_limits)
qed

subsection \<open>Properties\<close>

text \<open>Whatever the program adds to or removes from the default command list, accepted
  or refused, the list stays valid: between 1 and 16 entries, a default index that points to one of
  them, names and commands that are not blank and fit their buffers, no two names equal.\<close>

theorem file_commands_stay_valid:
  assumes "file_command_defaults (Some c) = Some d"
  shows "file_command_list_is_valid ieq (Some (foldl (run_command_op ieq) d ops))"
proof -
  have "commands_wf e \<and> file_command_list_is_valid ieq (Some e) \<Longrightarrow>
      file_command_list_is_valid ieq (Some (foldl (run_command_op ieq) e ops))" for e
    by (induction ops arbitrary: e) (use run_command_op_valid in auto)
  then show ?thesis using default_commands_valid [OF assms] by blast
qed

theorem file_commands_stay_valid_witness:
  "file_command_list_is_valid (=)
     (Some (foldl (run_command_op (=)) (the (file_command_defaults (Some zero_file_commands)))
        [AddCommand (W ''git'') (W ''git status''), RemoveCommand 0]))"
  by (rule file_commands_stay_valid [of zero_file_commands]) (simp add: file_command_defaults_def)

text \<open>Removing an entry keeps the others in order and keeps the default: the default
  command is the same command at its new index, unless the removed entry was the default, in which
  case the first remaining command becomes the default.\<close>

theorem file_command_remove_keeps_default:
  assumes "commands_wf c" and "file_command_list_is_valid ieq (Some c)"
    and "file_command_remove (Some c) index = (True, Some c')"
  shows "command_list c' = remove_at (nat index) (command_list c)
    \<and> default_command c' = (if default_index c = index then hd (command_list c') else default_command c)"
  using remove_command_accepted [OF assms(1,3)] remove_command_valid [OF assms] by blast

definition two_commands :: FileCommandList where
  "two_commands = zero_file_commands\<lparr>fcl_count := 2, default_index := 1, fcl_items :=
     \<lparr>fc_name = W ''a'', fc_command = W ''x''\<rparr> # \<lparr>fc_name = W ''b'', fc_command = W ''y''\<rparr>
       # replicate 14 zero_file_command\<rparr>"

theorem file_command_remove_keeps_default_witness:
  "\<exists>c'. file_command_remove (Some two_commands) 0 = (True, Some c')
     \<and> default_command c' = \<lparr>fc_name = W ''b'', fc_command = W ''y''\<rparr>"
proof -
  have wf: "commands_wf two_commands"
    by (simp add: commands_wf_def two_commands_def file_command_limits)
  have v: "file_command_list_is_valid (=) (Some two_commands)"
    unfolding commands_valid_iff [OF wf]
    by (simp add: two_commands_def command_list_def names_differ_def command_ok_def has_nonblank_def
        is_blank_def W_Cons file_command_limits)
  obtain c' where r: "file_command_remove (Some two_commands) 0 = (True, Some c')"
    by (auto simp: file_command_remove_def two_commands_def Let_def)
  have "default_index two_commands = 1"
    "default_command two_commands = \<lparr>fc_name = W ''b'', fc_command = W ''y''\<rparr>"
    by (simp_all add: two_commands_def default_command_def command_list_def)
  with file_command_remove_keeps_default [OF wf v r] r show ?thesis by simp
qed

end
