(* ===== verification/Workspace.thy ===== *)
theory Workspace
  imports Prelude
begin

text \<open>
  \<open>src/src/core/workspace.[ch]\<close>: the workspaces of the launcher, an array of up to 8 records of up to
  20 items, and the move of an item within a workspace or between two. Moving inside one array and
  between two arrays is written with \<open>memmove\<close>; here with \<open>move_down\<close> and \<open>move_up\<close>.
\<close>

subsection \<open>Data\<close>

definition MAX_WORKSPACES :: nat where "MAX_WORKSPACES = 8"
definition MAX_APPS :: nat where "MAX_APPS = 20"
definition NOVA_PATH_CAP :: nat where "NOVA_PATH_CAP = 260"

lemmas workspace_limits = MAX_WORKSPACES_def MAX_APPS_def NOVA_PATH_CAP_def

record AppItem =
  ai_name :: wstr
  ai_target :: wstr
  ai_id :: int

record Workspace =
  ws_name :: wstr
  app_count :: int
  apps :: "AppItem list"
  ws_id :: int
  items_loaded :: int

definition zero_item :: AppItem where
  "zero_item = \<lparr>ai_name = [], ai_target = [], ai_id = 0\<rparr>"

definition zero_workspace :: Workspace where
  "zero_workspace = \<lparr>ws_name = [], app_count = 0, apps = replicate MAX_APPS zero_item, ws_id = 0,
     items_loaded = 0\<rparr>"

subsection \<open>Moving an item\<close>

definition move_within :: "Workspace \<Rightarrow> nat \<Rightarrow> nat \<Rightarrow> Workspace" where
  \<comment> \<open>the branch \<open>source==destination\<close>, for different indices\<close>
  "move_within w index at =
     (let item = apps w ! index;
          moved = (if index < at then move_down index (Suc at) (apps w) else move_up at index (apps w))
      in w\<lparr>apps := moved[at := item]\<rparr>)"

definition move_between :: "Workspace \<Rightarrow> Workspace \<Rightarrow> nat \<Rightarrow> nat \<Rightarrow> Workspace \<times> Workspace" where
  "move_between from to index at =
     (let item = apps from ! index in
      (from\<lparr>apps := move_down index (nat (app_count from)) (apps from), app_count := app_count from - 1\<rparr>,
       to\<lparr>apps := (move_up at (nat (app_count to)) (apps to))[at := item], app_count := app_count to + 1\<rparr>))"

definition workspace_move ::
    "Workspace list option \<Rightarrow> int \<Rightarrow> int \<Rightarrow> int \<Rightarrow> int \<Rightarrow> int \<Rightarrow> int \<times> Workspace list option" where
  "workspace_move spaces n_spaces source index destination at =
     (case spaces of
        None \<Rightarrow> (-1, spaces)
      | Some ws \<Rightarrow>
          if n_spaces < 1 \<or> n_spaces > int MAX_WORKSPACES \<or> source < 0 \<or> source \<ge> n_spaces
             \<or> destination < 0 \<or> destination \<ge> n_spaces then (-1, spaces)
          else (let from = ws ! nat source; to = ws ! nat destination in
            if app_count from < 0 \<or> app_count from > int MAX_APPS \<or> app_count to < 0
               \<or> app_count to > int MAX_APPS \<or> index < 0 \<or> index \<ge> app_count from then (-1, spaces)
            else (let at = (if at < 0 then app_count to else at) in
              if at > app_count to then (-1, spaces)
              else if source = destination then
                (let at = (if at = app_count from then at - 1 else at) in
                 if at = index then (0, spaces)
                 else (1, Some (ws[nat source := move_within from (nat index) (nat at)])))
              else if app_count to = int MAX_APPS then (-1, spaces)
              else if list_ex (\<lambda>i. ai_target (apps to ! i) = ai_target (apps from ! nat index))
                        [0..<nat (app_count to)] then (-1, spaces)
              else (let (from', to') = move_between from to (nat index) (nat at)
                    in (1, Some (ws[nat destination := to', nat source := from']))))))"

subsection \<open>The lists the workspaces stand for\<close>

definition workspace_wf :: "Workspace \<Rightarrow> bool" where
  "workspace_wf w \<longleftrightarrow> length (apps w) = MAX_APPS \<and> 0 \<le> app_count w \<and> app_count w \<le> int MAX_APPS"

definition contents :: "Workspace \<Rightarrow> AppItem list" where
  "contents w = take (nat (app_count w)) (apps w)"

definition targets_distinct :: "Workspace \<Rightarrow> bool" where
  "targets_distinct w \<longleftrightarrow> distinct (map ai_target (contents w))"

lemma length_contents: "workspace_wf w \<Longrightarrow> length (contents w) = nat (app_count w)"
  by (auto simp: workspace_wf_def contents_def)

lemma contents_nth: "i < nat (app_count w) \<Longrightarrow> contents w ! i = apps w ! i"
  by (simp add: contents_def)

lemma move_within_contents:
  assumes wf: "workspace_wf w" and i: "index < length (contents w)" "at < length (contents w)" "index \<noteq> at"
  shows "workspace_wf (move_within w index at)"
    "contents (move_within w index at) = insert_at at (contents w ! index) (remove_at index (contents w))"
proof -
  let ?n = "nat (app_count w)"
  have n: "?n \<le> length (apps w)" "index < ?n" "at < ?n"
    using wf i by (auto simp: workspace_wf_def length_contents)
  define moved where
    "moved = (if index < at then move_down index (Suc at) (apps w) else move_up at index (apps w))"
  have len: "length moved = length (apps w)"
    using n i by (auto simp: moved_def)
  have cell: "apps w ! index = contents w ! index" using n by (simp add: contents_nth)
  show "workspace_wf (move_within w index at)"
    using wf len by (auto simp: move_within_def Let_def workspace_wf_def simp flip: moved_def)
  have "contents (move_within w index at) = take ?n (moved[at := apps w ! index])"
    by (simp add: move_within_def Let_def contents_def moved_def)
  also have "\<dots> = insert_at at (contents w ! index) (remove_at index (contents w))"
  proof (rule nth_equalityI)
    show "length (take ?n (moved[at := apps w ! index]))
        = length (insert_at at (contents w ! index) (remove_at index (contents w)))"
      using n len wf by (simp add: insert_at_def remove_at_def length_contents)
    fix k assume "k < length (take ?n (moved[at := apps w ! index]))"
    then have k: "k < ?n" by simp
    have rem: "remove_at index (contents w) ! j = (if j < index then apps w ! j else apps w ! Suc j)"
      if "Suc j < ?n" for j
      using that n wf by (subst nth_remove_at) (auto simp: length_contents contents_nth)
    have lr: "length (remove_at index (contents w)) = ?n - 1"
      using n wf by (simp add: length_contents)
    have at: "at \<le> length (remove_at index (contents w))" "k \<le> length (remove_at index (contents w))"
      using n k lr by simp_all
    have mv: "moved ! k = (if index < at then (if index \<le> k \<and> k < at then apps w ! Suc k else apps w ! k)
                           else (if at < k \<and> k \<le> index then apps w ! (k - 1) else apps w ! k))"
      using n k i by (simp add: moved_def nth_move_down nth_move_up)
    show "take ?n (moved[at := apps w ! index]) ! k
        = insert_at at (contents w ! index) (remove_at index (contents w)) ! k"
    proof (cases "k = at")
      case True
      with n k len show ?thesis by (simp add: nth_insert_at [OF at(1) at(1)] cell)
    next
      case False
      have "moved ! k = (if k < at then remove_at index (contents w) ! k
          else remove_at index (contents w) ! (k - 1))"
        using False n k i by (auto simp: mv rem)
      with False k show ?thesis by (simp add: nth_insert_at [OF at])
    qed
  qed
  finally show "contents (move_within w index at)
      = insert_at at (contents w ! index) (remove_at index (contents w))" .
qed

lemma move_between_contents:
  assumes wf: "workspace_wf from" "workspace_wf to" and i: "index < length (contents from)"
    and at: "at \<le> length (contents to)" "app_count to < int MAX_APPS"
    and r: "move_between from to index at = (from', to')"
  shows "workspace_wf from'" "workspace_wf to'"
    "contents from' = remove_at index (contents from)"
    "contents to' = insert_at at (contents from ! index) (contents to)"
proof -
  let ?f = "nat (app_count from)" and ?t = "nat (app_count to)"
  have n: "?f \<le> length (apps from)" "index < ?f" "?t < length (apps to)" "at \<le> ?t"
    using wf i at by (auto simp: workspace_wf_def length_contents)
  have f: "apps from' = move_down index ?f (apps from)" "app_count from' = app_count from - 1"
    and t: "apps to' = (move_up at ?t (apps to))[at := apps from ! index]" "app_count to' = app_count to + 1"
    using r by (auto simp: move_between_def Let_def)
  have counts: "nat (app_count from') = ?f - 1" "nat (app_count to') = Suc ?t"
    using f t wf by (auto simp: workspace_wf_def)
  show "workspace_wf from'" "workspace_wf to'"
    using wf n f t at(2) by (auto simp: workspace_wf_def)
  show "contents from' = remove_at index (contents from)"
    using n unfolding contents_def counts f(1) by (simp add: arrays)
  show "contents to' = insert_at at (contents from ! index) (contents to)"
    using n unfolding contents_def counts t(1) by (simp add: take_move_up_update)
qed

subsection \<open>The abstract move\<close>

definition target_place :: "int \<Rightarrow> nat \<Rightarrow> nat" where
  \<comment> \<open>a negative position appends\<close>
  "target_place at n = (if at < 0 then n else nat at)"

definition spec_move :: "AppItem list list \<Rightarrow> nat \<Rightarrow> nat \<Rightarrow> nat \<Rightarrow> int \<Rightarrow> AppItem list list option" where
  \<comment> \<open>\<open>None\<close>: refused\<close>
  "spec_move ls s i d at =
     (if s < length ls \<and> d < length ls \<and> i < length (ls ! s) \<and> at \<le> int (length (ls ! d)) then
        if s = d then
          Some (ls[s := insert_at (min (target_place at (length (ls ! s))) (length (ls ! s) - 1))
                          (ls ! s ! i) (remove_at i (ls ! s))])
        else if length (ls ! d) < MAX_APPS \<and> ai_target (ls ! s ! i) \<notin> ai_target ` set (ls ! d) then
          Some (ls[d := insert_at (target_place at (length (ls ! d))) (ls ! s ! i) (ls ! d),
                   s := remove_at i (ls ! s)])
        else None
      else None)"

lemma spec_move_conserves:
  assumes "spec_move ls s i d at = Some ls'"
  shows "mset (concat ls') = mset (concat ls) \<and> length ls' = length ls
    \<and> (\<forall>k < length ls. distinct (map ai_target (ls ! k)) \<longrightarrow> distinct (map ai_target (ls' ! k)))"
proof -
  have b: "s < length ls" "d < length ls" "i < length (ls ! s)"
    using assms by (auto simp: spec_move_def split: if_splits)
  have rem: "add_mset (ls ! s ! i) (mset (remove_at i (ls ! s))) = mset (ls ! s)"
    using b(3) by (rule mset_remove_at)
  show ?thesis
  proof (cases "s = d")
    case True
    define p where "p = min (target_place at (length (ls ! s))) (length (ls ! s) - 1)"
    let ?new = "insert_at p (ls ! s ! i) (remove_at i (ls ! s))"
    have ls': "ls' = ls[s := ?new]"
      using assms True b by (auto simp: spec_move_def p_def split: if_splits)
    have same: "mset ?new = mset (ls ! s)" by (simp add: mset_insert_at rem)
    then have "distinct (map ai_target ?new) \<longleftrightarrow> distinct (map ai_target (ls ! s))"
      by (metis mset_eq_imp_distinct_iff mset_map)
    with mset_concat_update [of s ls ?new] same b ls' show ?thesis
      by (auto simp: nth_list_update)
  next
    case False
    define p where "p = target_place at (length (ls ! d))"
    define new where "new = insert_at p (ls ! s ! i) (ls ! d)"
    have ls': "ls' = ls[d := new, s := remove_at i (ls ! s)]"
      and fresh: "ai_target (ls ! s ! i) \<notin> ai_target ` set (ls ! d)"
      using assms False b by (auto simp: spec_move_def p_def new_def split: if_splits)
    have e1: "mset (concat ls') + mset (ls ! s) = mset (concat (ls[d := new])) + mset (remove_at i (ls ! s))"
      using mset_concat_update [of s "ls[d := new]"] False b ls' by simp
    have e2: "mset (concat (ls[d := new])) + mset (ls ! d) = mset (concat ls) + mset new"
      using mset_concat_update [of d ls] b by simp
    have e3: "mset new + mset (remove_at i (ls ! s)) = mset (ls ! s) + mset (ls ! d)"
      by (simp add: new_def mset_insert_at rem [symmetric])
    have "mset (concat ls') + mset (ls ! s) + mset (ls ! d)
        = mset (concat (ls[d := new])) + mset (ls ! d) + mset (remove_at i (ls ! s))"
      by (simp only: e1 ac_simps)
    also have "\<dots> = mset (concat ls) + (mset new + mset (remove_at i (ls ! s)))"
      by (simp only: e2 add.assoc)
    also have "\<dots> = mset (concat ls) + mset (ls ! s) + mset (ls ! d)"
      by (simp only: e3 add.assoc)
    finally have "mset (concat ls') = mset (concat ls)" by simp
    moreover have "distinct (map ai_target (ls ! k)) \<longrightarrow> distinct (map ai_target (ls' ! k))"
      if "k < length ls" for k
      using that b ls' False fresh
      by (auto simp: nth_list_update distinct_map_insert_at new_def map_remove_at distinct_remove_at)
    ultimately show ?thesis using ls' by auto
  qed
qed

lemma workspace_move_refines:
  assumes wf: "\<forall>w \<in> set ws. workspace_wf w" and len: "length ws \<le> MAX_WORKSPACES"
    and pos: "0 \<le> s" "0 \<le> i" "0 \<le> d"
    and r: "workspace_move (Some ws) (int (length ws)) s i d at = (code, Some ws')"
  shows "(\<forall>w \<in> set ws'. workspace_wf w)
    \<and> (case spec_move (map contents ws) (nat s) (nat i) (nat d) at of
         None \<Rightarrow> code = -1 \<and> ws' = ws
       | Some ls \<Rightarrow> code \<noteq> -1 \<and> map contents ws' = ls)"
proof (cases "s < int (length ws) \<and> d < int (length ws)")
  case False
  with pos have "spec_move (map contents ws) (nat s) (nat i) (nat d) at = None"
    by (auto simp: spec_move_def)
  with r wf False pos show ?thesis by (auto simp: workspace_move_def split: if_splits)
next
  case True
  let ?s = "nat s" and ?d = "nat d" and ?i = "nat i"
  let ?from = "ws ! ?s" and ?to = "ws ! ?d"
  have b: "?s < length ws" "?d < length ws" using True pos by auto
  have wfs: "workspace_wf ?from" "workspace_wf ?to" using wf b by auto
  have counts: "0 \<le> app_count ?from" "app_count ?from \<le> int MAX_APPS"
    "0 \<le> app_count ?to" "app_count ?to \<le> int MAX_APPS"
    using wfs by (auto simp: workspace_wf_def)
  have lens: "length (contents ?from) = nat (app_count ?from)" "length (contents ?to) = nat (app_count ?to)"
    using wfs by (simp_all add: length_contents)
  define at' where "at' = (if at < 0 then app_count ?to else at)"
  have place: "nat at' = target_place at (length (contents ?to))" "0 \<le> at'"
    using counts by (auto simp: at'_def target_place_def lens)
  show ?thesis
  proof (cases "i < app_count ?from \<and> at' \<le> app_count ?to")
    case False
    then have "spec_move (map contents ws) ?s ?i ?d at = None"
      using b pos counts lens by (auto simp: spec_move_def at'_def split: if_splits)
    moreover have "code = -1 \<and> ws' = ws"
      using r False True pos len counts by (auto simp: workspace_move_def at'_def Let_def split: if_splits)
    ultimately show ?thesis using wf by simp
  next
    case ok: True
    have inside: "?i < length (contents ?from)" "at \<le> int (length (contents ?to))"
      using ok pos lens counts by (auto simp: at'_def split: if_splits)
    show ?thesis
    proof (cases "s = d")
      case same: True
      define q where "q = (if at' = app_count ?from then at' - 1 else at')"
      have n: "1 \<le> app_count ?from" "0 \<le> at'" "at' \<le> app_count ?from"
        using ok same pos place by auto
      have tp: "target_place at (nat (app_count ?from)) = nat at'" using place same lens by simp
      have qi: "q = min at' (app_count ?from - 1)" using n by (auto simp: q_def)
      have q: "nat q = min (target_place at (length (contents ?from))) (length (contents ?from) - 1)"
        "0 \<le> q" "nat q < length (contents ?from)"
        using n unfolding lens(1) tp qi by linarith+
      have spec: "spec_move (map contents ws) ?s ?i ?d at =
          Some ((map contents ws)[?s := insert_at (nat q) (contents ?from ! ?i) (remove_at ?i (contents ?from))])"
        using b inside same q by (simp add: spec_move_def)
      show ?thesis
      proof (cases "q = i")
        case True
        then have "code = 0 \<and> ws' = ws"
          using r ok same pos len counts \<open>s < int (length ws) \<and> d < int (length ws)\<close>
          by (auto simp: workspace_move_def at'_def q_def Let_def split: if_splits)
        moreover have "(map contents ws)[?s := insert_at (nat q) (contents ?from ! ?i)
            (remove_at ?i (contents ?from))] = map contents ws"
          using True inside insert_remove_same [of ?i "contents ?from"] b
          by (simp add: list_update_same_conv)
        ultimately show ?thesis using spec wf by simp
      next
        case ne: False
        have res: "code = 1 \<and> ws' = ws[?s := move_within ?from ?i (nat q)]"
          using r ok same pos len counts ne \<open>s < int (length ws) \<and> d < int (length ws)\<close>
          by (auto simp: workspace_move_def at'_def q_def Let_def split: if_splits)
        have "?i \<noteq> nat q" using ne pos(2) q(2) by linarith
        note mw = move_within_contents [OF wfs(1) inside(1) q(3) this]
        have "\<forall>w \<in> set ws'. workspace_wf w"
          using res wf mw(1) set_update_subset_insert [of ws ?s] by auto
        moreover have "map contents ws' = (map contents ws)[?s := insert_at (nat q) (contents ?from ! ?i)
            (remove_at ?i (contents ?from))]"
          using res mw(2) by (simp add: map_update)
        ultimately show ?thesis using spec res by simp
      qed
    next
      case other: False
      then have ne: "?s \<noteq> ?d" using pos by auto
      have dup: "list_ex (\<lambda>k. ai_target (apps ?to ! k) = ai_target (apps ?from ! ?i)) [0..<nat (app_count ?to)]
          \<longleftrightarrow> ai_target (contents ?from ! ?i) \<in> ai_target ` set (contents ?to)"
      proof -
        have n: "nat (app_count ?to) \<le> length (apps ?to)" using wfs(2) by (auto simp: workspace_wf_def)
        have cell: "contents ?from ! ?i = apps ?from ! ?i" using inside lens by (simp add: contents_nth)
        show ?thesis
          unfolding list_ex_cells [OF n, of "\<lambda>x. ai_target x = ai_target (apps ?from ! ?i)"]
            cell contents_def [of ?to] image_iff by metis
      qed
      show ?thesis
      proof (cases "app_count ?to = int MAX_APPS
          \<or> ai_target (contents ?from ! ?i) \<in> ai_target ` set (contents ?to)")
        case True
        then have "spec_move (map contents ws) ?s ?i ?d at = None"
          using b ne lens by (auto simp: spec_move_def)
        moreover have "code = -1 \<and> ws' = ws"
          using r True dup other ok pos len counts \<open>s < int (length ws) \<and> d < int (length ws)\<close>
          by (auto simp: workspace_move_def at'_def Let_def split: if_splits)
        ultimately show ?thesis using wf by simp
      next
        case False
        then have room: "app_count ?to < int MAX_APPS" using counts by simp
        obtain from' to' where mb: "move_between ?from ?to ?i (nat at') = (from', to')"
          by (cases "move_between ?from ?to ?i (nat at')")
        have "nat at' \<le> length (contents ?to)" using ok lens(2) by (simp add: nat_mono)
        note mv = move_between_contents [OF wfs inside(1) this room mb]
        have res: "code = 1 \<and> ws' = ws[?d := to', ?s := from']"
          using r False dup other ok pos len counts mb \<open>s < int (length ws) \<and> d < int (length ws)\<close>
          by (auto simp: workspace_move_def at'_def Let_def split: if_splits)
        have "\<forall>w \<in> set ws'. workspace_wf w"
          using res wf mv(1,2) by (auto dest!: set_update_subset_insert [THEN subsetD])
        moreover have "spec_move (map contents ws) ?s ?i ?d at = Some (map contents ws')"
        proof -
          have "length (contents ?to) < MAX_APPS" using room counts lens(2) by linarith
          moreover have "ai_target (contents ?from ! ?i) \<notin> ai_target ` set (contents ?to)" using False by simp
          ultimately show ?thesis
            using b ne inside res mv(3) mv(4) [unfolded place(1)]
            unfolding spec_move_def by (simp add: map_update)
        qed
        ultimately show ?thesis using res by simp
      qed
    qed
  qed
qed

subsection \<open>Properties\<close>

text \<open>C3 (refinement): moving an item between the workspaces of the launcher moves it in the lists they
  stand for and nothing else: refused exactly when the abstract move is (an index out of range, a full
  destination, a target the destination already has), a refused move changes nothing, and an accepted
  one neither loses nor duplicates an item nor makes the targets of a workspace collide.\<close>

theorem workspace_move_correct:
  assumes "\<forall>w \<in> set ws. workspace_wf w" and "length ws \<le> MAX_WORKSPACES"
    and "0 \<le> s" and "0 \<le> i" and "0 \<le> d"
    and "workspace_move (Some ws) (int (length ws)) s i d at = (code, Some ws')"
  shows "(code = -1 \<longleftrightarrow> spec_move (map contents ws) (nat s) (nat i) (nat d) at = None)
    \<and> (code = -1 \<longrightarrow> ws' = ws)
    \<and> (code \<noteq> -1 \<longrightarrow> spec_move (map contents ws) (nat s) (nat i) (nat d) at = Some (map contents ws'))
    \<and> mset (concat (map contents ws')) = mset (concat (map contents ws))
    \<and> ((\<forall>w \<in> set ws. targets_distinct w) \<longrightarrow> (\<forall>w \<in> set ws'. targets_distinct w))"
proof -
  note r = workspace_move_refines [OF assms]
  show ?thesis
  proof (cases "spec_move (map contents ws) (nat s) (nat i) (nat d) at")
    case None
    with r show ?thesis by simp
  next
    case (Some ls)
    with r have code: "code \<noteq> -1" and ls: "map contents ws' = ls" by simp_all
    note c = spec_move_conserves [OF Some, folded ls]
    have "\<forall>w \<in> set ws'. targets_distinct w" if td: "\<forall>w \<in> set ws. targets_distinct w"
    proof
      fix w assume "w \<in> set ws'"
      then obtain k where k: "k < length ws'" "ws' ! k = w" by (auto simp: in_set_conv_nth)
      then have kl: "k < length (map contents ws)" using c by simp
      then have "distinct (map ai_target (map contents ws ! k))"
        using td by (simp add: targets_distinct_def)
      with c kl have "distinct (map ai_target (map contents ws' ! k))" by blast
      with k show "targets_distinct w" by (simp add: targets_distinct_def)
    qed
    with Some code ls c show ?thesis by simp
  qed
qed

definition full_example :: "Workspace list" where
  "full_example = [zero_workspace\<lparr>app_count := 1, apps := \<lparr>ai_name = W ''a'', ai_target = W ''t'', ai_id = 1\<rparr> # replicate 19 zero_item\<rparr>,
     zero_workspace]"

theorem workspace_move_correct_witness:
  "\<exists>ws'. workspace_move (Some full_example) 2 0 0 1 (-1) = (1, Some ws')
     \<and> map contents ws' = [[], [\<lparr>ai_name = W ''a'', ai_target = W ''t'', ai_id = 1\<rparr>]]"
proof -
  have wf: "\<forall>w \<in> set full_example. workspace_wf w"
    by (simp add: full_example_def zero_workspace_def workspace_wf_def workspace_limits)
  have len: "length full_example = 2" "length full_example \<le> MAX_WORKSPACES"
    by (simp_all add: full_example_def workspace_limits)
  obtain ws' where r: "workspace_move (Some full_example) 2 0 0 1 (-1) = (1, Some ws')"
    by (auto simp: workspace_move_def full_example_def zero_workspace_def workspace_limits Let_def
        move_between_def)
  have "workspace_move (Some full_example) (int (length full_example)) 0 0 1 (-1) = (1, Some ws')"
    using r len by simp
  from workspace_move_correct [OF wf len(2) _ _ _ this]
  have "spec_move (map contents full_example) 0 0 1 (-1) = Some (map contents ws')" by simp
  moreover have "map contents full_example = [[\<lparr>ai_name = W ''a'', ai_target = W ''t'', ai_id = 1\<rparr>], []]"
    by (simp add: full_example_def zero_workspace_def contents_def)
  ultimately have "map contents ws' = [[], [\<lparr>ai_name = W ''a'', ai_target = W ''t'', ai_id = 1\<rparr>]]"
    by (simp add: spec_move_def target_place_def workspace_limits insert_at_def remove_at_def)
  with r show ?thesis by (intro exI [of _ ws'] conjI)
qed

end
