(* ===== verification/Launch_Queue.thy ===== *)
theory Launch_Queue
  imports Workspace
begin

text \<open>
  \<open>src/src/core/launch_queue.[ch]\<close>: starting the items of a workspace one per timer tick. The callback
  that starts an item and its \<open>void *context\<close> are parameters: a function from an item and a context
  to a return code and the new context.
\<close>

subsection \<open>Data and operations\<close>

record LaunchQueue =
  lq_items :: "AppItem list"
  lq_count :: int
  lq_next :: int
  lq_failed :: int
  lq_running :: int

definition launch_queue_begin ::
    "LaunchQueue option \<Rightarrow> Workspace option \<Rightarrow> int \<times> LaunchQueue option" where
  "launch_queue_begin queue workspace =
     (case (queue, workspace) of
        (Some q, Some w) \<Rightarrow>
          if lq_running q \<noteq> 0 \<or> app_count w < 1 \<or> app_count w > int MAX_APPS then (0, queue)
          else (let q = q\<lparr>lq_count := app_count w, lq_next := 0, lq_failed := 0, lq_running := 1\<rparr>;
                    n = nat (lq_count q)
                in (1, Some (q\<lparr>lq_items := take n (apps w) @ drop n (lq_items q)\<rparr>)))
      | _ \<Rightarrow> (0, queue))"

definition launch_queue_step ::
    "LaunchQueue option \<Rightarrow> (AppItem \<Rightarrow> 'c \<Rightarrow> int \<times> 'c) option \<Rightarrow> 'c \<Rightarrow> int \<times> LaunchQueue option \<times> 'c" where
  "launch_queue_step queue launch context =
     (case (queue, launch) of
        (Some q, Some f) \<Rightarrow>
          if lq_running q = 0 then (0, queue, context)
          else (let (accepted, context) = f (lq_items q ! nat (lq_next q)) context;
                    q = q\<lparr>lq_next := lq_next q + 1\<rparr>;
                    q = (if accepted = 0 then q\<lparr>lq_failed := lq_failed q + 1\<rparr> else q);
                    q = (if lq_next q = lq_count q then q\<lparr>lq_running := 0\<rparr> else q)
                in (lq_running q, Some q, context))
      | _ \<Rightarrow> (0, queue, context))"

definition launch_queue_cancel :: "LaunchQueue option \<Rightarrow> LaunchQueue option" where
  "launch_queue_cancel queue = map_option (\<lambda>q. q\<lparr>lq_running := 0\<rparr>) queue"

fun ticks :: "(AppItem \<Rightarrow> 'c \<Rightarrow> int \<times> 'c) \<Rightarrow> nat \<Rightarrow> LaunchQueue \<times> 'c \<Rightarrow> LaunchQueue \<times> 'c" where
  \<comment> \<open>the timer calls a number of times\<close>
  "ticks f 0 s = s"
| "ticks f (Suc k) (q, c) =
     (let (_, q', c') = launch_queue_step (Some q) (Some f) c in ticks f k (the q', c'))"

subsection \<open>What the queue does\<close>

fun launch_all :: "(AppItem \<Rightarrow> 'c \<Rightarrow> int \<times> 'c) \<Rightarrow> AppItem list \<Rightarrow> 'c \<Rightarrow> int \<times> 'c" where
  \<comment> \<open>one call per item, in order; the number of refused ones and the last context\<close>
  "launch_all f [] c = (0, c)"
| "launch_all f (x # xs) c =
     (let (accepted, c') = f x c; (failed, c'') = launch_all f xs c'
      in ((if accepted = 0 then failed + 1 else failed), c''))"

lemma launch_all_append:
  "launch_all f (xs @ ys) c =
     (let (n, c') = launch_all f xs c; (m, c'') = launch_all f ys c' in (n + m, c''))"
  by (induction xs arbitrary: c) (auto simp: Let_def split: prod.splits)

lemma launch_all_bounds: "0 \<le> fst (launch_all f xs c) \<and> fst (launch_all f xs c) \<le> int (length xs)"
proof (induction xs arbitrary: c)
  case (Cons x xs)
  from Cons [of "snd (f x c)"] show ?case
    by (cases "f x c"; cases "launch_all f xs (snd (f x c))") (simp add: Let_def)
qed simp

definition queue_at :: "(AppItem \<Rightarrow> 'c \<Rightarrow> int \<times> 'c) \<Rightarrow> AppItem list \<Rightarrow> 'c \<Rightarrow> nat \<Rightarrow> LaunchQueue \<Rightarrow> 'c \<Rightarrow> bool" where
  \<comment> \<open>the state after \<open>k\<close> ticks of a queue that started with the items and the context\<close>
  "queue_at f items c0 k q c \<longleftrightarrow>
     take (length items) (lq_items q) = items \<and> lq_count q = int (length items)
     \<and> lq_next q = int (min k (length items))
     \<and> lq_running q = (if k < length items then 1 else 0)
     \<and> (lq_failed q, c) = launch_all f (take k items) c0"

lemma queue_at_step:
  assumes "queue_at f items c0 k q c"
  shows "\<exists>q' c'. launch_queue_step (Some q) (Some f) c = (lq_running q', Some q', c')
    \<and> queue_at f items c0 (Suc k) q' c'"
proof (cases "k < length items")
  case False
  then have "lq_running q = 0" using assms by (simp add: queue_at_def)
  moreover have "queue_at f items c0 (Suc k) q c" using assms False by (simp add: queue_at_def)
  ultimately show ?thesis by (simp add: launch_queue_step_def)
next
  case True
  obtain a c' where f: "f (items ! k) c = (a, c')" by (cases "f (items ! k) c")
  have cell: "lq_items q ! k = items ! k"
    using assms True by (metis nth_take queue_at_def)
  have run: "launch_all f (take k items) c0 = (lq_failed q, c)" "lq_next q = int k"
    using assms True by (simp_all add: queue_at_def)
  have "launch_all f (take (Suc k) items) c0 = (lq_failed q + of_bool (a = 0), c')"
    using True run f by (simp add: take_Suc_conv_app_nth launch_all_append Let_def)
  then show ?thesis
    using assms True f cell run
    by (auto simp: launch_queue_step_def queue_at_def Let_def split: if_splits)
qed

lemma ticks_queue_at:
  "queue_at f items c0 k q c \<Longrightarrow> ticks f n (q, c) = (q', c') \<Longrightarrow> queue_at f items c0 (k + n) q' c'"
proof (induction n arbitrary: k q c)
  case (Suc n)
  from queue_at_step [OF Suc.prems(1)] obtain q1 c1 where
    s: "launch_queue_step (Some q) (Some f) c = (lq_running q1, Some q1, c1)" "queue_at f items c0 (Suc k) q1 c1"
    by blast
  with Suc.prems(2) have "ticks f n (q1, c1) = (q', c')" by simp
  from Suc.IH [OF s(2) this] show ?case by simp
qed simp

lemma begin_queue_at:
  assumes "workspace_wf w" "launch_queue_begin (Some q) (Some w) = (1, Some q')"
  shows "queue_at f (contents w) c 0 q' c \<and> 0 < length (contents w)"
proof -
  have n: "1 \<le> app_count w" "nat (app_count w) \<le> length (apps w)"
    using assms by (auto simp: launch_queue_begin_def workspace_wf_def Let_def split: if_splits)
  with assms show ?thesis
    by (auto simp: launch_queue_begin_def queue_at_def contents_def Let_def split: if_splits)
qed

lemma launch_queue_idle:
  "lq_running q = 0 \<Longrightarrow> ticks f n (q, c) = (q, c)"
  by (induction n) (simp_all add: launch_queue_step_def)

subsection \<open>Properties\<close>

text \<open>C4 (functional): after the launch of a workspace has begun, each tick starts exactly one item: after
  \<open>k\<close> ticks the first \<open>k\<close> items have been started, once each and in order, the failures are
  those the callback refused, and the queue runs until every item was tried; further ticks start
  nothing.\<close>

theorem launch_queue_runs_all:
  assumes "workspace_wf w" and "launch_queue_begin (Some q) (Some w) = (1, Some q0)"
    and "ticks f k (q0, c) = (q', c')"
  shows "(lq_failed q', c') = launch_all f (take k (contents w)) c
    \<and> (lq_running q' \<noteq> 0 \<longleftrightarrow> k < length (contents w))
    \<and> 0 \<le> lq_failed q' \<and> lq_failed q' \<le> lq_next q' \<and> lq_next q' \<le> lq_count q'"
proof -
  from ticks_queue_at [OF conjunct1 [OF begin_queue_at [OF assms(1,2)]] assms(3)]
  have q: "queue_at f (contents w) c k q' c'" by simp
  then show ?thesis
    using launch_all_bounds [of f "take k (contents w)" c]
    by (auto simp: queue_at_def min_def split: if_splits) (metis fst_conv)+
qed

definition one_app :: Workspace where
  "one_app = zero_workspace\<lparr>app_count := 1\<rparr>"

definition idle_launch :: LaunchQueue where
  "idle_launch = \<lparr>lq_items = replicate MAX_APPS zero_item, lq_count = 0, lq_next = 0, lq_failed = 0, lq_running = 0\<rparr>"

theorem launch_queue_runs_all_witness:
  "\<exists>q0 q' c'. launch_queue_begin (Some idle_launch) (Some one_app) = (1, Some q0)
     \<and> ticks (\<lambda>_ n. (0, n + 1)) 1 (q0, 0 :: nat) = (q', c') \<and> lq_failed q' = 1 \<and> c' = 1 \<and> lq_running q' = 0"
proof -
  have wf: "workspace_wf one_app"
    by (simp add: one_app_def zero_workspace_def workspace_wf_def workspace_limits)
  have c: "contents one_app = [zero_item]"
    by (simp add: one_app_def zero_workspace_def contents_def workspace_limits)
  obtain q0 where b: "launch_queue_begin (Some idle_launch) (Some one_app) = (1, Some q0)"
    by (simp add: launch_queue_begin_def idle_launch_def one_app_def workspace_limits Let_def)
  obtain q' c' where t: "ticks (\<lambda>_ n. (0, n + 1)) 1 (q0, 0 :: nat) = (q', c')"
    by (cases "ticks (\<lambda>_ n. (0, n + 1)) 1 (q0, 0 :: nat)")
  from launch_queue_runs_all [OF wf b t] have "lq_failed q' = 1 \<and> c' = 1 \<and> lq_running q' = 0"
    by (simp add: c)
  with b t show ?thesis by blast
qed

text \<open>C5 (safety): after a cancellation no tick starts an item, whatever the state of the queue was.\<close>

theorem launch_queue_cancel_stops:
  assumes "launch_queue_cancel (Some q) = Some q0"
  shows "ticks f n (q0, c) = (q0, c)"
proof -
  have "lq_running q0 = 0" using assms by (auto simp: launch_queue_cancel_def)
  then show ?thesis by (rule launch_queue_idle)
qed

theorem launch_queue_cancel_stops_witness:
  "ticks (\<lambda>_ n. (1, n + 1)) 5 (the (launch_queue_cancel (Some (idle_launch\<lparr>lq_running := 1\<rparr>))), 0 :: nat)
   = (idle_launch, 0)"
proof -
  have r: "launch_queue_cancel (Some (idle_launch\<lparr>lq_running := 1\<rparr>)) = Some idle_launch"
    by (simp add: launch_queue_cancel_def idle_launch_def)
  from launch_queue_cancel_stops [OF r, of "\<lambda>_ n. (1, n + 1)" 5 "0 :: nat"] r show ?thesis by simp
qed

end
