(* ===== verification/Server_Profile.thy ===== *)
theory Server_Profile
  imports Prelude
begin

unbundle bit_operations_syntax

text \<open>
  \<open>src/src/core/server_profile.[ch]\<close>: saved SSH servers, the \<open>nova-ssh:\<close> locations of the launcher, joining of
  remote paths, and the octal line that carries a directory to the remote shell. An output buffer is
  its capacity; the result is the text written, \<open>None\<close> for the return value false.
\<close>

subsection \<open>Data\<close>

definition SSH_SERVER_LIMIT :: nat where "SSH_SERVER_LIMIT = 16"
definition SSH_PATH_CAP :: nat where "SSH_PATH_CAP = 2048"
definition SSH_NAME_CAP :: nat where "SSH_NAME_CAP = 64"

lemmas ssh_limits = SSH_SERVER_LIMIT_def SSH_PATH_CAP_def SSH_NAME_CAP_def

record SshServer =
  ss_id :: int
  ss_name :: wstr
  ss_host :: wstr
  ss_user :: wstr
  ss_directory :: wstr
  ss_port :: int

record SshServers =
  ss_items :: "SshServer list"
  ss_count :: int

definition zero_server :: SshServer where
  "zero_server = \<lparr>ss_id = 0, ss_name = [], ss_host = [], ss_user = [], ss_directory = [], ss_port = 0\<rparr>"

definition zero_servers :: SshServers where
  "zero_servers = \<lparr>ss_items = replicate SSH_SERVER_LIMIT zero_server, ss_count = 0\<rparr>"

abbreviation slash :: wchar where "slash \<equiv> 47"
abbreviation backslash :: wchar where "backslash \<equiv> 92"
abbreviation colon :: wchar where "colon \<equiv> 58"

subsection \<open>Validity\<close>

definition starts_slash :: "wstr \<Rightarrow> bool" where
  \<comment> \<open>\<open>s[0]==L'/'\<close>\<close>
  "starts_slash s = (case s of c # _ \<Rightarrow> c = slash | [] \<Rightarrow> False)"

definition server_fields_valid :: "SshServer \<Rightarrow> bool" where
  "server_fields_valid s \<longleftrightarrow>
     \<not> (ss_id s \<le> 0 \<or> ss_port s < 1 \<or> ss_port s > 65535
        \<or> \<not> terminated SSH_NAME_CAP (ss_name s) \<or> ss_name s = []
        \<or> \<not> terminated 256 (ss_host s) \<or> ss_host s = []
        \<or> \<not> terminated 128 (ss_user s) \<or> ss_user s = []
        \<or> \<not> terminated SSH_PATH_CAP (ss_directory s) \<or> \<not> starts_slash (ss_directory s)
        \<or> length (ss_directory s) \<ge> SSH_PATH_CAP - 40)
     \<and> list_all (\<lambda>c. \<not> (c \<le> 32 \<or> c = slash \<or> c = backslash \<or> c = 64)) (ss_host s)"

definition ssh_servers_valid :: "SshServers option \<Rightarrow> bool" where
  "ssh_servers_valid servers =
     (case servers of
        None \<Rightarrow> False
      | Some v \<Rightarrow>
          if ss_count v < 0 \<or> ss_count v > int SSH_SERVER_LIMIT then False
          else list_all (\<lambda>i. let s = ss_items v ! i in
              server_fields_valid s
              \<and> list_all (\<lambda>j. \<not> (ss_id s = ss_id (ss_items v ! j) \<or> ss_name s = ss_name (ss_items v ! j)))
                  [0..<i])
            [0..<nat (ss_count v)])"

subsection \<open>Locations\<close>

definition SSH_SCHEME :: wstr where "SSH_SCHEME = W ''nova-ssh:''"

definition ssh_location_parse :: "wstr option \<Rightarrow> (int \<times> wstr) option" where
  "ssh_location_parse location =
     (case location of
        None \<Rightarrow> None
      | Some l \<Rightarrow>
          if \<not> starts_with l SSH_SCHEME then None
          else (let p = drop 9 l in
            case p of
              [] \<Rightarrow> None
            | c # _ \<Rightarrow>
                if c < 49 \<or> 57 < c then None
                else (let r = wcstoll p in
                  if p_range r \<or> p_value r \<le> 0 then None
                  else (case p_rest r of
                      a # b # path \<Rightarrow> if a = colon \<and> b = slash then Some (p_value r, b # path) else None
                    | _ \<Rightarrow> None))))"

definition ssh_location_format :: "nat option \<Rightarrow> int \<Rightarrow> wstr option \<Rightarrow> wstr option" where
  "ssh_location_format out ident path =
     (case (out, path) of
        (Some capacity, Some p) \<Rightarrow>
          if \<not> starts_slash p \<or> ident \<le> 0 \<or> length p + 40 \<ge> capacity then None
          else (let text = SSH_SCHEME @ dec ident @ [colon] @ p
                in if length text < capacity then Some text else None)
      | _ \<Rightarrow> None)"

definition ssh_path_join :: "nat option \<Rightarrow> wstr option \<Rightarrow> wstr option \<Rightarrow> wstr option" where
  "ssh_path_join out base name =
     (case (out, base, name) of
        (Some capacity, Some b, Some f) \<Rightarrow>
          if \<not> starts_slash b \<or> f = [] \<or> slash \<in> set f \<or> f = W ''.'' \<or> f = W ''..'' then None
          else (let n = length b;
                    trailing = (n > 1 \<and> b ! (n - 1) = slash);
                    n = (if trailing then n - 1 else n);
                    root = (n = 1)
                in if n + length f + (if root then 1 else 2) > capacity then None
                   else Some (take n b @ (if root then [] else [slash]) @ f))
      | _ \<Rightarrow> None)"

subsection \<open>The octal payload\<close>

definition SIZE_MAX :: nat where "SIZE_MAX = 18446744073709551615"

definition octal_cell :: "byte \<Rightarrow> byte list" where
  "octal_cell c =
     [92, 48, 48 + (drop_bit 6 c AND 7), 48 + (drop_bit 3 c AND 7), 48 + (c AND 7)]"

definition ssh_directory_payload :: "byte list option \<Rightarrow> nat option \<Rightarrow> byte list option" where
  "ssh_directory_payload path out =
     (case (path, out) of
        (Some p, Some capacity) \<Rightarrow>
          if p = [] \<or> hd p \<noteq> 47 \<or> length p > (SIZE_MAX - 2) div 5 \<or> capacity < length p * 5 + 2 then None
          else if list_ex (\<lambda>c. c = 0) p then None
          else Some (concat (map octal_cell p) @ [10])
      | _ \<Rightarrow> None)"

fun octal_decode :: "byte list \<Rightarrow> byte list option" where
  \<comment> \<open>what \<open>printf %b\<close> makes of a line of \<open>\0ooo\<close> groups\<close>
  "octal_decode [] = None"
| "octal_decode (x # xs) =
     (if x = 10 \<and> xs = [] then Some []
      else case xs of
        z # a # b # c # rest \<Rightarrow>
          if x = 92 \<and> z = 48 then
            map_option ((#) (push_bit 6 (a - 48) + push_bit 3 (b - 48) + (c - 48))) (octal_decode rest)
          else None
      | _ \<Rightarrow> None)"

subsection \<open>Lemmas\<close>

definition server_list :: "SshServers \<Rightarrow> SshServer list" where
  "server_list v = take (nat (ss_count v)) (ss_items v)"

definition servers_wf :: "SshServers \<Rightarrow> bool" where
  "servers_wf v \<longleftrightarrow> length (ss_items v) = SSH_SERVER_LIMIT"

lemma servers_valid_iff:
  assumes "servers_wf v"
  shows "ssh_servers_valid (Some v) \<longleftrightarrow> 0 \<le> ss_count v \<and> ss_count v \<le> int SSH_SERVER_LIMIT
    \<and> list_all server_fields_valid (server_list v)
    \<and> distinct (map ss_id (server_list v)) \<and> distinct (map ss_name (server_list v))"
proof (cases "0 \<le> ss_count v \<and> ss_count v \<le> int SSH_SERVER_LIMIT")
  case True
  let ?n = "nat (ss_count v)"
  have n: "?n \<le> length (ss_items v)" using assms True by (auto simp: servers_wf_def)
  have "list_all server_fields_valid (server_list v) \<longleftrightarrow> (\<forall>i < ?n. server_fields_valid (ss_items v ! i))"
    using n by (auto simp: list_all_length server_list_def)
  with True show ?thesis
    unfolding server_list_def pairwise_cells_distinct [OF n, symmetric]
    by (auto simp: ssh_servers_valid_def list_all_upt Let_def server_list_def)
qed (auto simp: ssh_servers_valid_def)

lemma starts_slashE: "starts_slash s \<Longrightarrow> \<exists>t. s = slash # t"
  by (cases s) (auto simp: starts_slash_def)

lemma dec_length_int64: "0 < i \<Longrightarrow> i \<le> LLONG_MAX \<Longrightarrow> length (dec i) \<le> 19"
  using length_dec_nat_le [of 19 "nat i"] by (simp add: dec_def LLONG_MAX_def nat_less_iff)

lemma length_scheme: "length SSH_SCHEME = 9"
  by (simp add: SSH_SCHEME_def)

lemma format_result:
  assumes "ssh_location_format (Some cap) ident (Some path) = Some s"
  shows "s = SSH_SCHEME @ dec ident @ [colon] @ path" "0 < ident" "starts_slash path" "length s < cap"
  using assms by (auto simp: ssh_location_format_def Let_def split: if_splits)

lemma format_succeeds:
  assumes "0 < i" "i \<le> LLONG_MAX" "starts_slash p" "length p + 40 < cap"
  shows "ssh_location_format (Some cap) i (Some p) = Some (SSH_SCHEME @ dec i @ [colon] @ p)"
  using assms dec_length_int64 [of i] by (simp add: ssh_location_format_def length_scheme)

lemma parse_formatted:
  assumes i: "0 < i" "i \<le> LLONG_MAX" and p: "starts_slash p"
  shows "ssh_location_parse (Some (SSH_SCHEME @ dec i @ [colon] @ p)) = Some (i, p)"
proof -
  obtain t where t: "p = slash # t" using starts_slashE [OF p] by blast
  obtain c u where c: "dec i = c # u" "49 \<le> c" "c \<le> 57" using dec_head [OF i(1)] by blast
  have low: "LLONG_MIN \<le> i" using i by (simp add: LLONG_MIN_def)
  have "wcstoll (dec i @ [colon] @ p) = \<lparr>p_value = i, p_rest = [colon] @ p, p_range = False\<rparr>"
    unfolding wcstoll_def by (rule wcsto_dec [OF low i(2)]) (simp add: is_digit_def)
  with c i t show ?thesis
    by (simp add: ssh_location_parse_def starts_with_def length_scheme Let_def not_less)
qed

lemma parse_sound:
  assumes "ssh_location_parse (Some s) = Some (i, p)"
  shows "0 < i" "i \<le> LLONG_MAX" "starts_slash p"
    "\<exists>ds. s = SSH_SCHEME @ ds @ [colon] @ p \<and> ds \<noteq> [] \<and> list_all is_digit ds \<and> i = digits_val ds"
proof -
  define q where "q = drop 9 s"
  have s: "s = SSH_SCHEME @ q"
    using assms by (auto simp: ssh_location_parse_def starts_with_def length_scheme q_def split: if_splits)
      (metis append_take_drop_id)
  obtain c t where q: "q = c # t" "49 \<le> c" "c \<le> 57" and pos: "0 < p_value (wcstoll q)"
    and rng: "\<not> p_range (wcstoll q)" and i: "i = p_value (wcstoll q)"
    and rest: "p_rest (wcstoll q) = colon # p" and sl: "starts_slash p"
    using assms by (auto simp: ssh_location_parse_def Let_def starts_slash_def simp flip: q_def
        split: if_splits list.splits)
  have "\<not> c = 32 \<and> \<not> c \<le> 13 \<and> c \<noteq> 45 \<and> c \<noteq> 43"
    using q by (auto simp: word_le_def)
  then have plain: "dropWhile is_space q = q" "c \<noteq> 45" "c \<noteq> 43"
    using q by (auto simp: is_space_def)
  define ds where "ds = takeWhile is_digit q"
  have "is_digit c" using q by (auto simp: is_digit_def word_le_def)
  then have ds: "ds \<noteq> []" "list_all is_digit ds"
    using q by (auto simp: ds_def list_all_iff dest: set_takeWhileD)
  have "wcstoll q = \<lparr>p_value = digits_val ds, p_rest = dropWhile is_digit q, p_range = False\<rparr>
      \<and> digits_val ds \<le> LLONG_MAX"
    using rng plain ds q by (auto simp: wcstoll_def wcsto_def Let_def ds_def split: if_splits)
  with i rest pos show "0 < i" "i \<le> LLONG_MAX" by auto
  show "starts_slash p" by fact
  show "\<exists>ds. s = SSH_SCHEME @ ds @ [colon] @ p \<and> ds \<noteq> [] \<and> list_all is_digit ds \<and> i = digits_val ds"
    using s ds i rest \<open>wcstoll q = _ \<and> _\<close>
    by (intro exI [of _ ds]) (simp add: ds_def, metis takeWhile_dropWhile_id)
qed

lemma join_result:
  assumes "ssh_path_join (Some cap) (Some b) (Some f) = Some s"
  shows "length s < cap" "f \<noteq> []" "slash \<notin> set f" "f \<noteq> W ''.''" "f \<noteq> W ''..''"
    "s = (if b = [slash] \<or> b = [slash, slash] then [slash] @ f
          else if last b = slash then b @ f else b @ [slash] @ f)"
proof -
  have g: "starts_slash b" and f: "f \<noteq> []" "slash \<notin> set f" "f \<noteq> W ''.''" "f \<noteq> W ''..''"
    using assms by (auto simp: ssh_path_join_def split: if_splits)
  show "f \<noteq> []" "slash \<notin> set f" "f \<noteq> W ''.''" "f \<noteq> W ''..''" by fact+
  obtain t where t: "b = slash # t" using starts_slashE [OF g] by blast
  show "length s < cap"
    using assms by (auto simp: ssh_path_join_def Let_def split: if_splits)
  have lst: "b ! (length b - 1) = last b" using t by (simp add: last_conv_nth)
  show "s = (if b = [slash] \<or> b = [slash, slash] then [slash] @ f
          else if last b = slash then b @ f else b @ [slash] @ f)"
  proof (cases t rule: rev_cases)
    case Nil
    with assms t show ?thesis by (auto simp: ssh_path_join_def Let_def split: if_splits)
  next
    case (snoc u x)
    then show ?thesis
      using assms t by (cases u) (auto simp: ssh_path_join_def Let_def nth_append split: if_splits)
  qed
qed

lemma octal_cell_decode:
  "push_bit 6 (48 + (drop_bit 6 c AND 7) - 48) + push_bit 3 (48 + (drop_bit 3 c AND 7) - 48)
     + (48 + (c AND 7) - 48) = (c :: byte)"
proof -
  have m: "x AND 7 = take_bit 3 x" for x :: byte
  proof -
    have "(7 :: byte) = mask 3" by (simp add: mask_eq_exp_minus_1)
    then show ?thesis by (simp only: take_bit_eq_mask)
  qed
  have "take_bit 3 (drop_bit 6 c) = drop_bit 6 c"
    by (simp add: take_bit_drop_bit take_bit_word_eq_self)
  moreover have "push_bit 3 (drop_bit 6 c) + take_bit 3 (drop_bit 3 c) = drop_bit 3 c"
    using bits_ident [of 3 "drop_bit 3 c"] by simp
  then have "push_bit 3 (drop_bit 3 c) = push_bit 6 (drop_bit 6 c) + push_bit 3 (take_bit 3 (drop_bit 3 c))"
    by (metis (no_types) numeral_plus_numeral push_bit_add push_bit_push_bit semiring_norm(2,5,8))
  ultimately show ?thesis using bits_ident [of 3 c] by (simp add: m)
qed

lemma octal_decode_cell:
  "octal_decode (octal_cell c @ rest) = map_option ((#) c) (octal_decode rest)"
  using octal_cell_decode [of c] by (simp add: octal_cell_def)

lemma octal_decode_payload: "octal_decode (concat (map octal_cell p) @ [10]) = Some p"
  by (induction p) (simp_all add: octal_decode_cell del: octal_decode.simps(2), simp)

lemma word_unat_same: "word_of_nat (unat w) = (w :: byte)"
  by simp

lemma octal_digit: "48 + (x AND 7) \<in> {48, 49, 50, 51, 52, 53, 54, 55 :: byte}"
proof -
  have "x AND 7 \<le> (7 :: byte)" by (rule word_and_le1)
  then have "unat (x AND 7) \<le> 7" by (simp add: word_le_nat_alt)
  then have "unat (x AND 7) \<in> {0, 1, 2, 3, 4, 5, 6, 7}" by auto
  then have "word_of_nat (unat (x AND 7)) \<in> {0, 1, 2, 3, 4, 5, 6, 7 :: byte}"
    unfolding insert_iff empty_iff by (elim disjE) simp_all
  then have "x AND 7 \<in> {0, 1, 2, 3, 4, 5, 6, 7 :: byte}" 
    using word_unat_same by metis
  then show ?thesis by auto
qed

lemma payload_result:
  assumes "ssh_directory_payload (Some p) (Some cap) = Some out"
  shows "out = concat (map octal_cell p) @ [10]" "length out < cap" "0 \<notin> set p" "hd p = 47"
proof -
  have len: "length (concat (map octal_cell p)) = length p * 5"
    by (induction p) (simp_all add: octal_cell_def)
  show "out = concat (map octal_cell p) @ [10]" "0 \<notin> set p" "hd p = 47"
    using assms by (auto simp: ssh_directory_payload_def list_ex_iff split: if_splits)
  show "length out < cap"
    using assms len by (auto simp: ssh_directory_payload_def split: if_splits)
qed

subsection \<open>Properties\<close>

text \<open>Every server of a valid list has a location: its identifier and directory format into
  a path buffer, the location parses back to both, and the identifier names this server alone.\<close>

theorem saved_server_location:
  assumes "servers_wf v" and "ssh_servers_valid (Some v)"
    and "s \<in> set (server_list v)" and "ss_id s \<le> LLONG_MAX"
  shows "\<exists>l. ssh_location_format (Some SSH_PATH_CAP) (ss_id s) (Some (ss_directory s)) = Some l
    \<and> length l < SSH_PATH_CAP
    \<and> ssh_location_parse (Some l) = Some (ss_id s, ss_directory s)
    \<and> (\<forall>u \<in> set (server_list v). ss_id u = ss_id s \<longrightarrow> u = s)"
proof -
  have v: "list_all server_fields_valid (server_list v)" "distinct (map ss_id (server_list v))"
    using assms(2) by (simp_all add: servers_valid_iff [OF assms(1)])
  with assms(3) have "server_fields_valid s" by (simp add: list_all_iff)
  then have f: "0 < ss_id s" "starts_slash (ss_directory s)" "length (ss_directory s) + 40 < SSH_PATH_CAP"
    by (auto simp: server_fields_valid_def ssh_limits)
  have uniq: "u = s" if "u \<in> set (server_list v)" "ss_id u = ss_id s" for u
    using v(2) assms(3) that by (auto simp: distinct_map dest: inj_onD)
  note fmt = format_succeeds [OF f(1) assms(4) f(2,3)]
  from fmt format_result(4) [OF fmt] parse_formatted [OF f(1) assms(4) f(2)] uniq show ?thesis by blast
qed

definition one_server :: SshServers where
  "one_server = zero_servers\<lparr>ss_count := 1, ss_items :=
     \<lparr>ss_id = 7, ss_name = W ''n'', ss_host = W ''h'', ss_user = W ''u'', ss_directory = W ''/d'', ss_port = 22\<rparr>
       # replicate 15 zero_server\<rparr>"

theorem saved_server_location_witness:
  "\<exists>l. ssh_location_format (Some SSH_PATH_CAP) 7 (Some (W ''/d'')) = Some l
     \<and> ssh_location_parse (Some l) = Some (7, W ''/d'')"
proof -
  have wf: "servers_wf one_server"
    by (simp add: servers_wf_def one_server_def zero_servers_def ssh_limits)
  have v: "ssh_servers_valid (Some one_server)"
    unfolding servers_valid_iff [OF wf]
    by (simp add: one_server_def server_list_def server_fields_valid_def terminated_def ssh_limits
        starts_slash_def W_Cons)
  define u where "u = \<lparr>ss_id = 7, ss_name = W ''n'', ss_host = W ''h'', ss_user = W ''u'',
    ss_directory = W ''/d'', ss_port = 22\<rparr>"
  have "u \<in> set (server_list one_server)" "ss_id u \<le> LLONG_MAX"
    by (simp_all add: u_def one_server_def server_list_def LLONG_MAX_def)
  from saved_server_location [OF wf v this] show ?thesis by (auto simp: u_def)
qed

text \<open>A location is accepted only if it is the scheme, decimal digits, a colon and an absolute
  path; the identifier returned is the value of those digits, positive and within 64 bits, and the
  path returned is the rest, unchanged.\<close>

theorem ssh_location_parse_exact:
  assumes "ssh_location_parse (Some s) = Some (i, p)"
  shows "\<exists>ds. s = SSH_SCHEME @ ds @ [colon] @ p \<and> ds \<noteq> [] \<and> list_all is_digit ds \<and> i = digits_val ds
    \<and> 0 < i \<and> i \<le> LLONG_MAX \<and> starts_slash p"
  using parse_sound [OF assms] by blast

theorem ssh_location_parse_exact_witness:
  "ssh_location_parse (Some (SSH_SCHEME @ dec 12 @ [colon] @ W ''/x'')) = Some (12, W ''/x'')
   \<and> (\<exists>ds. SSH_SCHEME @ dec 12 @ [colon] @ W ''/x'' = SSH_SCHEME @ ds @ [colon] @ W ''/x'' \<and> 12 = digits_val ds)"
proof -
  have r: "ssh_location_parse (Some (SSH_SCHEME @ dec 12 @ [colon] @ W ''/x'')) = Some (12, W ''/x'')"
    by (rule parse_formatted) (simp_all add: LLONG_MAX_def starts_slash_def W_Cons)
  from ssh_location_parse_exact [OF r] r show ?thesis by blast
qed

text \<open>Joining a remote directory and a name stays in the buffer and names a direct child: the
  directory without its trailing slash, one slash and the name, which is neither empty, \<open>.\<close> nor
  \<open>..\<close> and holds no slash.\<close>

theorem ssh_path_join_direct_child:
  assumes "ssh_path_join (Some cap) (Some base) (Some name) = Some s"
  shows "length s < cap
    \<and> (\<exists>parent. s = parent @ [slash] @ name \<and> (base = parent \<or> base = parent @ [slash] \<or> base = parent @ [slash, slash]))
    \<and> name \<noteq> [] \<and> slash \<notin> set name \<and> name \<noteq> W ''.'' \<and> name \<noteq> W ''..''"
proof -
  note j = join_result [OF assms]
  have "\<exists>parent. s = parent @ [slash] @ name \<and> (base = parent \<or> base = parent @ [slash] \<or> base = parent @ [slash, slash])"
  proof (cases "base = [slash] \<or> base = [slash, slash]")
    case True
    then show ?thesis using j(6) by (intro exI [of _ "[]"]) auto
  next
    case False
    show ?thesis
    proof (cases "last base = slash")
      case True
      have "base \<noteq> []" using assms by (auto simp: ssh_path_join_def starts_slash_def)
      then have "base = butlast base @ [slash]" using True by (metis append_butlast_last_id)
      with False True show ?thesis
        by (intro exI [of _ "butlast base"]) (metis append.assoc j(6))
    next
      case last: False
      then show ?thesis using False j(6) by (intro exI [of _ base]) simp
    qed
  qed
  with j show ?thesis by blast
qed

theorem ssh_path_join_direct_child_witness:
  "\<exists>s. ssh_path_join (Some 64) (Some (W ''/srv/'')) (Some (W ''a'')) = Some s \<and> length s < 64
     \<and> (\<exists>parent. s = parent @ [slash] @ W ''a'')"
proof -
  obtain s where r: "ssh_path_join (Some 64) (Some (W ''/srv/'')) (Some (W ''a'')) = Some s"
    by (simp add: ssh_path_join_def starts_slash_def W_Cons Let_def)
  from ssh_path_join_direct_child [OF r] r show ?thesis by blast
qed

text \<open>The octal line of a directory decodes to the directory byte for byte, whatever the
  bytes, fits the buffer, and holds nothing the remote shell could interpret: only backslashes and
  octal digits before the one newline that ends it.\<close>

theorem ssh_directory_payload_roundtrip:
  assumes "ssh_directory_payload (Some p) (Some cap) = Some out"
  shows "octal_decode out = Some p \<and> length out < cap
    \<and> (\<exists>cells. out = cells @ [10] \<and> set cells \<subseteq> {92, 48, 49, 50, 51, 52, 53, 54, 55})"
proof -
  note r = payload_result [OF assms]
  have "set (octal_cell c) \<subseteq> {92, 48, 49, 50, 51, 52, 53, 54, 55}" for c
    using octal_digit by (auto simp: octal_cell_def)
  then have "set (concat (map octal_cell p)) \<subseteq> {92, 48, 49, 50, 51, 52, 53, 54, 55}"
    by (induction p) auto
  with r octal_decode_payload [of p] show ?thesis by blast
qed

theorem ssh_directory_payload_roundtrip_witness:
  "\<exists>out. ssh_directory_payload (Some [47, 36, 200]) (Some 17) = Some out \<and> octal_decode out = Some [47, 36, 200]"
proof -
  obtain out where r: "ssh_directory_payload (Some [47, 36, 200]) (Some 17) = Some out"
    by (simp add: ssh_directory_payload_def SIZE_MAX_def)
  from ssh_directory_payload_roundtrip [OF r] r show ?thesis by blast
qed

end
