(* ===== verification/Sync_Model.thy ===== *)
theory Sync_Model
  imports Prelude
begin

unbundle bit_operations_syntax

text \<open>
  \<open>src/src/core/sync_model.[ch]\<close>: what a synchronised folder is in (its relation to the server and its
  phase), the identifiers and relative paths the protocol accepts, the settings with their pairs of
  folders, and the content-defined chunk boundary.
\<close>

subsection \<open>Data\<close>

definition SYNC_PAIR_LIMIT :: nat where "SYNC_PAIR_LIMIT = 16"
definition SYNC_DEVICE_LIMIT :: nat where "SYNC_DEVICE_LIMIT = 16"
definition SYNC_PATH_CAP :: nat where "SYNC_PATH_CAP = 2048"
definition SYNC_ID_CAP :: nat where "SYNC_ID_CAP = 81"
definition SYNC_NAME_CAP :: nat where "SYNC_NAME_CAP = 128"
definition SYNC_FILTER_CAP :: nat where "SYNC_FILTER_CAP = 1024"
definition SYNC_CHUNK_MIN :: "64 word" where "SYNC_CHUNK_MIN = 131072"
definition SYNC_CHUNK_MAX :: "64 word" where "SYNC_CHUNK_MAX = 2097152"
definition SYNC_PACKET_MAX :: nat where "SYNC_PACKET_MAX = 131072"
definition SYNC_JSON_MAX :: nat where "SYNC_JSON_MAX = 16777216"

lemmas sync_limits = SYNC_PAIR_LIMIT_def SYNC_DEVICE_LIMIT_def SYNC_PATH_CAP_def SYNC_ID_CAP_def
  SYNC_NAME_CAP_def SYNC_FILTER_CAP_def

record SyncPair =
  sp_id :: wstr
  sp_dataset :: wstr
  sp_name :: wstr
  sp_group :: wstr
  sp_directory :: wstr
  sp_excludes :: wstr
  sp_paused :: bool
  sp_sync_deletes :: bool

record SyncSettings =
  st_version :: int
  st_count :: int
  st_role :: int
  st_interval :: int
  st_server_id :: int
  st_registered :: bool
  st_server_instance :: wstr
  st_node_id :: wstr
  st_name :: wstr
  st_project :: wstr
  st_broker :: wstr
  st_pairs :: "SyncPair list"

definition zero_pair :: SyncPair where
  "zero_pair = \<lparr>sp_id = [], sp_dataset = [], sp_name = [], sp_group = [], sp_directory = [],
     sp_excludes = [], sp_paused = False, sp_sync_deletes = False\<rparr>"

definition zero_settings :: SyncSettings where
  "zero_settings = \<lparr>st_version = 0, st_count = 0, st_role = 0, st_interval = 0, st_server_id = 0,
     st_registered = False, st_server_instance = [], st_node_id = [], st_name = [], st_project = [],
     st_broker = [], st_pairs = replicate SYNC_PAIR_LIMIT zero_pair\<rparr>"

record SyncChunker =
  ck_hash :: "64 word"
  ck_size :: "64 word"

datatype SyncRelation =
  SYNC_REL_UNKNOWN | SYNC_REL_LOCAL | SYNC_REL_PUBLISHER | SYNC_REL_SUBSCRIBER | SYNC_REL_CONNECTED

datatype SyncFolderPhase =
  SYNC_FOLDER_UNKNOWN | SYNC_FOLDER_BIND | SYNC_FOLDER_CHECK | SYNC_FOLDER_WORKING | SYNC_FOLDER_ERROR
  | SYNC_FOLDER_CONFLICT | SYNC_FOLDER_WAIT | SYNC_FOLDER_CHANGES | SYNC_FOLDER_CURRENT

record SyncFolderFacts =
  metadata_known :: bool
  ff_bound :: bool
  ff_publisher :: bool
  ff_inspected :: bool
  ff_busy :: bool
  ff_failed :: bool
  ff_pushes :: int
  ff_pulls :: int
  ff_conflicts :: int
  ff_waiting :: int
  publisher_known :: bool

record SyncFolderState =
  fs_relation :: SyncRelation
  fs_phase :: SyncFolderPhase

subsection \<open>The state of a folder\<close>

definition sync_folder_state :: "SyncFolderFacts option \<Rightarrow> SyncFolderState" where
  "sync_folder_state facts =
     (let state = \<lparr>fs_relation = SYNC_REL_UNKNOWN, fs_phase = SYNC_FOLDER_UNKNOWN\<rparr> in
      case facts of
        None \<Rightarrow> state
      | Some f \<Rightarrow>
          let state = (if metadata_known f
                then state\<lparr>fs_relation := (if \<not> ff_bound f then SYNC_REL_LOCAL
                       else if \<not> publisher_known f then SYNC_REL_CONNECTED
                       else if ff_publisher f then SYNC_REL_PUBLISHER else SYNC_REL_SUBSCRIBER)\<rparr>
                else state)
          in state\<lparr>fs_phase :=
               (if ff_busy f then SYNC_FOLDER_WORKING
                else if ff_failed f then SYNC_FOLDER_ERROR
                else if metadata_known f \<and> \<not> ff_bound f then SYNC_FOLDER_BIND
                else if \<not> ff_inspected f then SYNC_FOLDER_CHECK
                else if ff_conflicts f \<noteq> 0 then SYNC_FOLDER_CONFLICT
                else if ff_waiting f \<noteq> 0 then SYNC_FOLDER_WAIT
                else if ff_pushes f \<noteq> 0 \<or> ff_pulls f \<noteq> 0 then SYNC_FOLDER_CHANGES
                else SYNC_FOLDER_CURRENT)\<rparr>)"

subsection \<open>Identifiers and paths\<close>

definition fold_separator :: "wchar \<Rightarrow> wchar" where
  "fold_separator c = (if c = 47 then 92 else c)"

fun equal_path :: "wstr \<Rightarrow> wstr \<Rightarrow> bool" where
  "equal_path (x # a) (y # b) =
     (let x = fold_separator x; y = fold_separator y
      in if towlower x \<noteq> towlower y then False else equal_path a b)"
| "equal_path [] [] = True"
| "equal_path _ _ = False"

definition identifier_char :: "wchar \<Rightarrow> bool" where
  "identifier_char c \<longleftrightarrow> (97 \<le> c \<and> c \<le> 122) \<or> (65 \<le> c \<and> c \<le> 90) \<or> (48 \<le> c \<and> c \<le> 57) \<or> c = 95 \<or> c = 45"

fun identifier_from :: "nat \<Rightarrow> wstr \<Rightarrow> bool" where
  "identifier_from n [] = True"
| "identifier_from n (c # s) = (if n \<ge> 80 \<or> \<not> identifier_char c then False else identifier_from (Suc n) s)"

definition sync_identifier :: "wstr option \<Rightarrow> bool" where
  "sync_identifier text =
     (case text of None \<Rightarrow> False | Some s \<Rightarrow> if s = [] then False else identifier_from 0 s)"

definition path_forbidden :: "wchar set" where
  \<comment> \<open>\<open>L"\\:*?\"<>|"\<close>\<close>
  "path_forbidden = {92, 58, 42, 63, 34, 60, 62, 124}"

definition component_ok :: "wstr \<Rightarrow> bool" where
  "component_ok part \<longleftrightarrow>
     (let n = length part in
      \<not> (n = 0 \<or> n > 255 \<or> part ! (n - 1) = 46 \<or> part ! (n - 1) = 32 \<or> (n = 1 \<and> part ! 0 = 46)
         \<or> (n = 2 \<and> take 2 part = W ''..'') \<or> (n = 4 \<and> take 4 part = W ''.git'')))"

fun components_from :: "wstr \<Rightarrow> wstr \<Rightarrow> bool" where
  \<comment> \<open>the loop: the component read so far, and the rest of the text\<close>
  "components_from part [] = component_ok part"
| "components_from part (c # p) =
     (if c < 32 then False
      else if c = 47 then (if component_ok part then components_from [] p else False)
      else components_from (part @ [c]) p)"

definition sync_relative_path :: "wstr option \<Rightarrow> bool" where
  "sync_relative_path text =
     (case text of
        None \<Rightarrow> False
      | Some s \<Rightarrow>
          if s = [] \<or> hd s = 47 \<or> hd s = 92 \<or> list_ex (\<lambda>c. c \<in> path_forbidden) s then False
          else components_from [] s)"

subsection \<open>Settings\<close>

definition sync_settings_default :: "SyncSettings" where
  "sync_settings_default = zero_settings\<lparr>st_version := 1, st_interval := 60,
     st_project := W ''/opt/nova-sync'', st_broker := W ''/opt/nova-sync/runtime/broker''\<rparr>"

definition pair_valid :: "SyncPair \<Rightarrow> bool" where
  "pair_valid p \<longleftrightarrow>
     terminated SYNC_ID_CAP (sp_id p) \<and> sync_identifier (Some (sp_id p))
     \<and> terminated SYNC_ID_CAP (sp_dataset p) \<and> sync_identifier (Some (sp_dataset p))
     \<and> terminated SYNC_NAME_CAP (sp_name p) \<and> sp_name p \<noteq> [] \<and> length (sp_name p) \<le> 120
     \<and> terminated SYNC_NAME_CAP (sp_group p) \<and> sp_group p \<noteq> [] \<and> length (sp_group p) \<le> 120
     \<and> terminated SYNC_PATH_CAP (sp_directory p) \<and> sp_directory p \<noteq> []
     \<and> terminated SYNC_FILTER_CAP (sp_excludes p)"

definition absolute_unix :: "wstr \<Rightarrow> bool" where
  "absolute_unix s = (case s of c # _ \<Rightarrow> c = 47 | [] \<Rightarrow> False)"

definition has_newline :: "wstr \<Rightarrow> bool" where
  "has_newline s = list_ex (\<lambda>c. c = 13 \<or> c = 10) s"

definition settings_fields_valid :: "SyncSettings \<Rightarrow> bool" where
  "settings_fields_valid s \<longleftrightarrow>
     \<not> (st_version s \<noteq> 1 \<or> st_count s < 0 \<or> st_count s > int SYNC_PAIR_LIMIT \<or> st_role s < 0
        \<or> st_role s \<ge> int SYNC_DEVICE_LIMIT \<or> st_interval s < 10 \<or> st_interval s > 86400
        \<or> st_server_id s < 0
        \<or> \<not> terminated SYNC_ID_CAP (st_node_id s)
        \<or> (st_node_id s \<noteq> [] \<and> \<not> sync_identifier (Some (st_node_id s)))
        \<or> \<not> terminated SYNC_NAME_CAP (st_name s) \<or> length (st_name s) > 100
        \<or> \<not> terminated SYNC_PATH_CAP (st_project s) \<or> \<not> absolute_unix (st_project s)
        \<or> \<not> terminated SYNC_PATH_CAP (st_broker s) \<or> \<not> absolute_unix (st_broker s)
        \<or> has_newline (st_project s) \<or> has_newline (st_broker s)
        \<or> (st_registered s \<and> (st_node_id s = [] \<or> st_name s = [])))"

definition pairs_clash :: "SyncPair \<Rightarrow> SyncPair \<Rightarrow> bool" where
  "pairs_clash p q \<longleftrightarrow>
     sp_id p = sp_id q \<or> sp_dataset p = sp_dataset q \<or> equal_path (sp_directory p) (sp_directory q)"

definition sync_settings_valid :: "SyncSettings option \<Rightarrow> bool" where
  "sync_settings_valid value =
     (case value of
        None \<Rightarrow> False
      | Some s \<Rightarrow>
          if \<not> terminated SYNC_ID_CAP (st_server_instance s)
             \<or> (st_server_instance s \<noteq> [] \<and> \<not> sync_identifier (Some (st_server_instance s))) then False
          else if \<not> settings_fields_valid s then False
          else list_all (\<lambda>i. pair_valid (st_pairs s ! i)
                 \<and> list_all (\<lambda>j. \<not> pairs_clash (st_pairs s ! i) (st_pairs s ! j)) [0..<i])
               [0..<nat (st_count s)])"

definition sync_pair_set ::
    "SyncSettings option \<Rightarrow> int \<Rightarrow> SyncPair option \<Rightarrow> int \<times> SyncSettings option" where
  "sync_pair_set value index pair =
     (case (value, pair) of
        (Some s, Some p) \<Rightarrow>
          if index < 0 \<or> index > st_count s \<or> index \<ge> int SYNC_PAIR_LIMIT then (-1, value)
          else (let new = s\<lparr>st_pairs := (st_pairs s)[nat index := p]\<rparr>;
                    new = (if index = st_count new then new\<lparr>st_count := st_count new + 1\<rparr> else new)
                in if \<not> sync_settings_valid (Some new) then (-1, value) else (index, Some new))
      | _ \<Rightarrow> (-1, value))"

definition sync_pair_remove :: "SyncSettings option \<Rightarrow> int \<Rightarrow> bool \<times> SyncSettings option" where
  "sync_pair_remove value index =
     (case value of
        None \<Rightarrow> (False, value)
      | Some s \<Rightarrow>
          if index < 0 \<or> index \<ge> st_count s then (False, value)
          else (let n = nat (st_count s); moved = move_down (nat index) n (st_pairs s)
                in (True, Some (s\<lparr>st_count := st_count s - 1, st_pairs := moved[n - 1 := zero_pair]\<rparr>))))"

subsection \<open>Chunk boundaries\<close>

definition chunk_mask :: "64 word" where
  \<comment> \<open>\<open>(1u<<19)-1u\<close>\<close>
  "chunk_mask = push_bit 19 1 - 1"

definition sync_chunk_boundary :: "SyncChunker \<Rightarrow> byte \<Rightarrow> (byte \<Rightarrow> 64 word) \<Rightarrow> bool \<times> SyncChunker" where
  "sync_chunk_boundary s b gear =
     (let hash = push_bit 1 (ck_hash s) + gear b; size = ck_size s + 1 in
      if size \<ge> SYNC_CHUNK_MAX \<or> (size \<ge> SYNC_CHUNK_MIN \<and> hash AND chunk_mask = 0)
      then (True, \<lparr>ck_hash = 0, ck_size = 0\<rparr>)
      else (False, \<lparr>ck_hash = hash, ck_size = size\<rparr>))"

subsection \<open>Paths: lemmas\<close>

fun split_on :: "'a \<Rightarrow> 'a list \<Rightarrow> 'a list list" where
  "split_on d [] = [[]]"
| "split_on d (c # s) =
     (if c = d then [] # split_on d s
      else (case split_on d s of [] \<Rightarrow> [[c]] | q # qs \<Rightarrow> (c # q) # qs))"

lemma split_on_not_Nil [simp]: "split_on d s \<noteq> []"
  by (induction s) (auto split: list.splits)

lemma components_from_iff:
  "components_from part p \<longleftrightarrow> list_all (\<lambda>c. \<not> c < 32) p
     \<and> component_ok (part @ hd (split_on 47 p)) \<and> list_all component_ok (tl (split_on 47 p))"
proof (induction p arbitrary: part)
  case (Cons c p)
  show ?case
  proof (cases "c = 47")
    case True
    then show ?thesis using Cons.IH [of "[]"]
      by (cases "split_on 47 p") auto
  next
    case False
    obtain q qs where "split_on 47 p = q # qs" by (cases "split_on 47 p") auto
    with False show ?thesis using Cons.IH [of "part @ [c]"] by simp
  qed
qed simp

lemma component_ok_iff:
  "component_ok q \<longleftrightarrow> q \<noteq> [] \<and> length q \<le> 255 \<and> last q \<noteq> 46 \<and> last q \<noteq> 32 \<and> q \<noteq> W ''.git''"
proof (cases "q = []")
  case False
  then have l: "q ! (length q - 1) = last q" by (simp add: last_conv_nth)
  have "last q = 46" if "length q = 1" "q ! 0 = 46" using that l by simp
  moreover have "last q = 46" if "length q = 2" "take 2 q = W ''..''"
    using that by (simp add: W_Cons)
  moreover have "length q = 4 \<and> take 4 q = W ''.git'' \<longleftrightarrow> q = W ''.git''" by auto
  ultimately show ?thesis using False unfolding component_ok_def Let_def l by auto
qed (simp add: component_ok_def)

lemma relative_path_iff:
  "sync_relative_path (Some s) \<longleftrightarrow>
     list_all (\<lambda>c. \<not> c < 32 \<and> c \<notin> path_forbidden) s \<and> list_all component_ok (split_on 47 s)"
proof -
  have "list_all component_ok (split_on 47 s) \<longleftrightarrow>
      component_ok (hd (split_on 47 s)) \<and> list_all component_ok (tl (split_on 47 s))"
    by (cases "split_on 47 s") auto
  moreover have "s \<noteq> [] \<and> hd s \<noteq> 47" if "component_ok (hd (split_on 47 s))"
    using that by (cases s) (auto simp: component_ok_iff)
  moreover have "92 \<in> path_forbidden" by (simp add: path_forbidden_def)
  ultimately show ?thesis
    by (cases s) (auto simp: sync_relative_path_def components_from_iff list_ex_iff list_all_iff)
qed

lemma identifier_from_iff:
  "n + length s \<le> 80 \<or> s \<noteq> [] \<Longrightarrow>
   identifier_from n s \<longleftrightarrow> n + length s \<le> 80 \<and> list_all identifier_char s"
proof (induction s arbitrary: n)
  case (Cons c s)
  show ?case
  proof (cases s)
    case Nil
    then show ?thesis by auto
  next
    case ne: (Cons d t)
    then have "Suc n + length s \<le> 80 \<or> s \<noteq> []" by simp
    from Cons.IH [OF this] show ?thesis by auto
  qed
qed simp

lemma sync_identifier_iff:
  "sync_identifier (Some s) \<longleftrightarrow> s \<noteq> [] \<and> length s \<le> 80 \<and> list_all identifier_char s"
  using identifier_from_iff [of 0 s] by (auto simp: sync_identifier_def)

lemma equal_path_iff:
  "equal_path a b \<longleftrightarrow> map (towlower \<circ> fold_separator) a = map (towlower \<circ> fold_separator) b"
  by (induction a b rule: equal_path.induct) (auto simp: Let_def)

subsection \<open>Settings: lemmas\<close>

definition settings_wf :: "SyncSettings \<Rightarrow> bool" where
  "settings_wf s \<longleftrightarrow> length (st_pairs s) = SYNC_PAIR_LIMIT \<and> 0 \<le> st_count s \<and> st_count s \<le> int SYNC_PAIR_LIMIT"

definition pair_list :: "SyncSettings \<Rightarrow> SyncPair list" where
  "pair_list s = take (nat (st_count s)) (st_pairs s)"

definition pairs_ok :: "SyncPair list \<Rightarrow> bool" where
  "pairs_ok ps \<longleftrightarrow> list_all pair_valid ps \<and> sorted_wrt (\<lambda>p q. \<not> pairs_clash q p) ps"

definition instance_ok :: "SyncSettings \<Rightarrow> bool" where
  "instance_ok s \<longleftrightarrow> terminated SYNC_ID_CAP (st_server_instance s)
     \<and> (st_server_instance s = [] \<or> sync_identifier (Some (st_server_instance s)))"

lemma settings_valid_iff:
  assumes "settings_wf s"
  shows "sync_settings_valid (Some s) \<longleftrightarrow> instance_ok s \<and> settings_fields_valid s \<and> pairs_ok (pair_list s)"
proof -
  let ?n = "nat (st_count s)"
  have n: "?n \<le> length (st_pairs s)" using assms by (auto simp: settings_wf_def)
  have "list_all pair_valid (pair_list s) \<longleftrightarrow> (\<forall>i < ?n. pair_valid (st_pairs s ! i))"
    using n by (auto simp: list_all_length pair_list_def)
  moreover have "sorted_wrt (\<lambda>p q. \<not> pairs_clash q p) (pair_list s)
      \<longleftrightarrow> (\<forall>i < ?n. \<forall>j < i. \<not> pairs_clash (st_pairs s ! i) (st_pairs s ! j))"
    unfolding pair_list_def by (rule pairwise_cells_sorted_wrt [OF n, symmetric])
  ultimately show ?thesis
    by (auto simp: sync_settings_valid_def instance_ok_def pairs_ok_def list_all_upt)
qed

lemma pair_set_result:
  assumes wf: "settings_wf s" and r: "sync_pair_set (Some s) i (Some p) = (k, Some s')"
  shows "(k = -1 \<and> s' = s) \<or>
    (k = i \<and> 0 \<le> i \<and> i \<le> st_count s \<and> settings_wf s' \<and> sync_settings_valid (Some s')
     \<and> pair_list s' = (if i = st_count s then pair_list s @ [p] else (pair_list s)[nat i := p]))"
proof (cases "k = -1")
  case True
  with r show ?thesis by (auto simp: sync_pair_set_def Let_def split: if_splits)
next
  case False
  then have i: "0 \<le> i" "i \<le> st_count s" "i < int SYNC_PAIR_LIMIT" and k: "k = i"
    and v: "sync_settings_valid (Some s')"
    using r by (auto simp: sync_pair_set_def Let_def split: if_splits)
  have s': "st_pairs s' = (st_pairs s)[nat i := p]"
    "st_count s' = (if i = st_count s then st_count s + 1 else st_count s)"
    using r False by (auto simp: sync_pair_set_def Let_def split: if_splits)
  have len: "nat i < length (st_pairs s)" using wf i by (auto simp: settings_wf_def)
  have "settings_wf s'" using wf s' i by (auto simp: settings_wf_def)
  moreover have "pair_list s' = (if i = st_count s then pair_list s @ [p] else (pair_list s)[nat i := p])"
  proof (cases "i = st_count s")
    case True
    then have "nat (st_count s') = Suc (nat i)" using s' i by simp
    with True len show ?thesis by (simp add: pair_list_def s'(1) take_update_append)
  next
    case False
    with s' i have "nat i < nat (st_count s)" "st_count s' = st_count s" by auto
    with False show ?thesis by (simp add: pair_list_def s'(1) take_update_in)
  qed
  ultimately show ?thesis using i k v by blast
qed

lemma pair_remove_result:
  assumes wf: "settings_wf s" and r: "sync_pair_remove (Some s) i = (True, Some s')"
  shows "settings_wf s' \<and> 0 \<le> i \<and> i < st_count s \<and> pair_list s' = remove_at (nat i) (pair_list s)
    \<and> st_count s' = st_count s - 1
    \<and> (instance_ok s' \<longleftrightarrow> instance_ok s) \<and> (settings_fields_valid s \<longrightarrow> settings_fields_valid s')"
proof -
  let ?n = "nat (st_count s)"
  have i: "0 \<le> i" "i < st_count s" using r by (auto simp: sync_pair_remove_def split: if_splits)
  have s': "s' = s\<lparr>st_count := st_count s - 1, st_pairs := (move_down (nat i) ?n (st_pairs s))[?n - 1 := zero_pair]\<rparr>"
    using r by (auto simp: sync_pair_remove_def Let_def split: if_splits)
  have n: "?n \<le> length (st_pairs s)" "nat i < ?n" using wf i by (auto simp: settings_wf_def)
  have "settings_wf s'" using wf s' n i by (auto simp: settings_wf_def)
  moreover have "pair_list s' = remove_at (nat i) (pair_list s)"
    using n by (simp add: pair_list_def s' arrays nat_diff_distrib)
  moreover have "(instance_ok s' \<longleftrightarrow> instance_ok s) \<and> (settings_fields_valid s \<longrightarrow> settings_fields_valid s')"
    using i wf by (simp add: s' instance_ok_def settings_fields_valid_def settings_wf_def)
  ultimately show ?thesis using i s' by simp
qed

lemma pair_remove_valid:
  assumes "settings_wf s" "sync_settings_valid (Some s)" "sync_pair_remove (Some s) i = (True, Some s')"
  shows "sync_settings_valid (Some s')"
proof -
  note r = pair_remove_result [OF assms(1,3)]
  then have "settings_wf s'" by simp
  with assms(2) r show ?thesis
    using set_remove_at_subset [of "nat i" "pair_list s"] sorted_wrt_remove_at
    by (auto simp: settings_valid_iff [OF assms(1)] settings_valid_iff pairs_ok_def list_all_iff)
qed

datatype pair_op = SetPair int SyncPair | RemovePair int

definition run_pair_op :: "SyncSettings \<Rightarrow> pair_op \<Rightarrow> SyncSettings" where
  "run_pair_op s op = the (case op of
      SetPair i p \<Rightarrow> snd (sync_pair_set (Some s) i (Some p))
    | RemovePair i \<Rightarrow> snd (sync_pair_remove (Some s) i))"

lemma run_pair_op_valid:
  assumes "settings_wf s" "sync_settings_valid (Some s)"
  shows "settings_wf (run_pair_op s op) \<and> sync_settings_valid (Some (run_pair_op s op))"
proof (cases op)
  case (SetPair i p)
  have "\<exists>k s'. sync_pair_set (Some s) i (Some p) = (k, Some s')"
    by (simp add: sync_pair_set_def Let_def)
  then obtain k s' where r: "sync_pair_set (Some s) i (Some p) = (k, Some s')" by blast
  with SetPair pair_set_result [OF assms(1) r] assms show ?thesis by (auto simp: run_pair_op_def)
next
  case (RemovePair i)
  have "\<exists>b s'. sync_pair_remove (Some s) i = (b, Some s')"
    by (auto simp: sync_pair_remove_def Let_def)
  then obtain b s' where r: "sync_pair_remove (Some s) i = (b, Some s')" by blast
  show ?thesis
  proof (cases b)
    case True
    then show ?thesis
      using RemovePair r pair_remove_result [OF assms(1)] pair_remove_valid [OF assms]
      by (simp add: run_pair_op_def)
  next
    case False
    with r have "s' = s" by (auto simp: sync_pair_remove_def Let_def split: if_splits)
    with RemovePair r assms show ?thesis by (simp add: run_pair_op_def)
  qed
qed

lemma run_pair_ops_valid:
  "settings_wf s \<Longrightarrow> sync_settings_valid (Some s) \<Longrightarrow>
   settings_wf (foldl run_pair_op s ops) \<and> sync_settings_valid (Some (foldl run_pair_op s ops))"
proof (induction ops arbitrary: s)
  case (Cons op ops)
  with run_pair_op_valid [OF Cons.prems, of op] show ?case by simp
qed simp

lemma default_settings_valid: "settings_wf sync_settings_default \<and> sync_settings_valid (Some sync_settings_default)"
proof -
  have wf: "settings_wf sync_settings_default"
    by (simp add: settings_wf_def sync_settings_default_def zero_settings_def sync_limits)
  then show ?thesis
    unfolding settings_valid_iff [OF wf]
    by (simp add: sync_settings_default_def zero_settings_def instance_ok_def settings_fields_valid_def
        terminated_def sync_limits absolute_unix_def has_newline_def W_Cons pairs_ok_def pair_list_def)
qed

subsection \<open>Chunks: lemmas\<close>

fun split_chunks :: "(byte \<Rightarrow> 64 word) \<Rightarrow> SyncChunker \<Rightarrow> byte list \<Rightarrow> byte list \<Rightarrow> byte list list \<times> byte list" where
  \<comment> \<open>a file cut at the boundaries: the complete chunks and the unfinished last one\<close>
  "split_chunks g st part [] = ([], part)"
| "split_chunks g st part (b # bs) =
     (let (stop, st') = sync_chunk_boundary st b g in
      if stop then (let (cs, r) = split_chunks g st' [] bs in ((part @ [b]) # cs, r))
      else split_chunks g st' (part @ [b]) bs)"

definition fresh_chunker :: SyncChunker where
  "fresh_chunker = \<lparr>ck_hash = 0, ck_size = 0\<rparr>"

lemma chunk_size_step:
  "ck_size st < SYNC_CHUNK_MAX \<Longrightarrow> unat (ck_size st + 1) = Suc (unat (ck_size st))"
  by (simp add: SYNC_CHUNK_MAX_def word_less_nat_alt unat_word_ariths(1))

lemma split_chunks_bounds:
  assumes "unat (ck_size st) = length part" "ck_size st < SYNC_CHUNK_MAX"
    and "split_chunks g st part bs = (cs, r)"
  shows "concat cs @ r = part @ bs
    \<and> list_all (\<lambda>c. unat SYNC_CHUNK_MIN \<le> length c \<and> length c \<le> unat SYNC_CHUNK_MAX) cs
    \<and> length r < unat SYNC_CHUNK_MAX"
  using assms
proof (induction bs arbitrary: st part cs r)
  case Nil
  then show ?case by (auto simp: word_less_nat_alt)
next
  case (Cons b bs)
  obtain stop st' where s: "sync_chunk_boundary st b g = (stop, st')"
    by (cases "sync_chunk_boundary st b g")
  have size: "unat (ck_size st + 1) = Suc (length part)"
    using chunk_size_step [OF Cons.prems(2)] Cons.prems(1) by simp
  have max: "Suc (length part) \<le> unat SYNC_CHUNK_MAX"
    using Cons.prems(1,2) by (simp add: word_less_nat_alt)
  show ?case
  proof (cases stop)
    case True
    obtain cs' r' where rest: "split_chunks g st' [] bs = (cs', r')"
      by (cases "split_chunks g st' [] bs")
    from True s have st': "st' = fresh_chunker" and min: "SYNC_CHUNK_MIN \<le> ck_size st + 1"
      by (auto simp: sync_chunk_boundary_def Let_def fresh_chunker_def SYNC_CHUNK_MAX_def SYNC_CHUNK_MIN_def
          word_le_nat_alt split: if_splits)
    have "concat cs' @ r' = bs
        \<and> list_all (\<lambda>c. unat SYNC_CHUNK_MIN \<le> length c \<and> length c \<le> unat SYNC_CHUNK_MAX) cs'
        \<and> length r' < unat SYNC_CHUNK_MAX"
      using Cons.IH [OF _ _ rest] st' by (simp add: fresh_chunker_def SYNC_CHUNK_MAX_def)
    moreover have "cs = (part @ [b]) # cs'" "r = r'"
      using Cons.prems(3) s True rest by (auto simp: Let_def)
    moreover have "unat SYNC_CHUNK_MIN \<le> Suc (length part)"
      using min size by (simp add: word_le_nat_alt)
    ultimately show ?thesis using max by auto
  next
    case False
    from False s have st': "st' = \<lparr>ck_hash = push_bit 1 (ck_hash st) + g b, ck_size = ck_size st + 1\<rparr>"
      "ck_size st + 1 < SYNC_CHUNK_MAX"
      by (auto simp: sync_chunk_boundary_def Let_def split: if_splits)
    have "split_chunks g st' (part @ [b]) bs = (cs, r)"
      using Cons.prems(3) s False by (simp add: Let_def)
    from Cons.IH [OF _ _ this] size st' show ?thesis by simp
  qed
qed

definition feed :: "(byte \<Rightarrow> 64 word) \<Rightarrow> SyncChunker \<Rightarrow> byte list \<Rightarrow> SyncChunker" where
  "feed g st bs = foldl (\<lambda>s b. snd (sync_chunk_boundary s b g)) st bs"

fun no_boundary :: "(byte \<Rightarrow> 64 word) \<Rightarrow> SyncChunker \<Rightarrow> byte list \<Rightarrow> bool" where
  "no_boundary g st [] = True"
| "no_boundary g st (b # bs) \<longleftrightarrow>
     \<not> fst (sync_chunk_boundary st b g) \<and> no_boundary g (snd (sync_chunk_boundary st b g)) bs"

definition roll :: "(byte \<Rightarrow> 64 word) \<Rightarrow> byte list \<Rightarrow> 64 word" where
  "roll g bs = foldl (\<lambda>h b. push_bit 1 h + g b) 0 bs"

lemma foldl_roll:
  "foldl (\<lambda>h b. push_bit 1 h + g b) h bs = push_bit (length bs) h + roll g bs"
proof (induction bs rule: rev_induct)
  case (snoc b bs)
  then show ?case by (simp add: roll_def push_bit_eq_mult algebra_simps)
qed (simp add: roll_def)

lemma feed_no_boundary:
  "no_boundary g st bs \<Longrightarrow>
   ck_hash (feed g st bs) = push_bit (length bs) (ck_hash st) + roll g bs
   \<and> ck_size (feed g st bs) = ck_size st + of_nat (length bs)"
proof (induction bs arbitrary: st)
  case Nil
  then show ?case by (simp add: feed_def roll_def)
next
  case (Cons b bs)
  let ?st = "snd (sync_chunk_boundary st b g)"
  have st: "?st = \<lparr>ck_hash = push_bit 1 (ck_hash st) + g b, ck_size = ck_size st + 1\<rparr>"
    using Cons.prems by (auto simp: sync_chunk_boundary_def Let_def split: if_splits)
  have "no_boundary g ?st bs" using Cons.prems by simp
  note ih = Cons.IH [OF this]
  have "feed g st (b # bs) = feed g ?st bs" by (simp add: feed_def)
  moreover have "push_bit (length bs) (push_bit 1 (ck_hash st) + g b) + roll g bs
      = push_bit (length (b # bs)) (ck_hash st) + roll g (b # bs)"
    using foldl_roll [of g "push_bit 1 (ck_hash st) + g b" bs] foldl_roll [of g "ck_hash st" "b # bs"] by simp
  ultimately show ?case using ih st by (simp add: algebra_simps)
qed

lemma chunk_mask_take_bit: "h AND chunk_mask = take_bit 19 h"
proof -
  have "chunk_mask = mask 19" by (simp add: chunk_mask_def mask_eq_exp_minus_1)
  then show ?thesis by (simp only: take_bit_eq_mask)
qed

lemma take_bit_word_add:
  "take_bit 19 (take_bit 19 a + take_bit 19 b) = take_bit 19 (a + b :: 64 word)"
proof (rule word_unat_eq_iff [THEN iffD2])
  have m: "m mod 18446744073709551616 mod 524288 = m mod (524288 :: nat)" for m
    by (rule mod_mod_cancel) simp
  show "unat (take_bit 19 (take_bit 19 a + take_bit 19 b)) = unat (take_bit 19 (a + b))"
    unfolding unsigned_take_bit_eq unat_word_ariths(1) unfolding take_bit_eq_mod
    by (simp add: m mod_add_eq)
qed

lemma take_bit_push_bit_add: "take_bit 19 (push_bit 19 h + x) = take_bit 19 (x :: 64 word)"
proof -
  have "take_bit 19 (push_bit 19 h) = (0 :: 64 word)"
    by (simp only: take_bit_push_bit diff_self_eq_0 take_bit_0 push_bit_of_0)
  then have "take_bit 19 (take_bit 19 (push_bit 19 h) + take_bit 19 x) = take_bit 19 x" by simp
  then show ?thesis by (simp only: take_bit_word_add)
qed

subsection \<open>Properties\<close>

text \<open>C6 (bounds): cutting any file at the chunk boundaries loses nothing (the chunks and the unfinished
  rest are the file), every complete chunk has 128 KiB to 2 MiB and the rest is shorter than 2 MiB.\<close>

theorem chunks_reassemble:
  assumes "split_chunks gear fresh_chunker [] file = (cs, r)"
  shows "concat cs @ r = file
    \<and> list_all (\<lambda>c. 131072 \<le> length c \<and> length c \<le> 2097152) cs \<and> length r < 2097152"
  using split_chunks_bounds [OF _ _ assms]
  by (simp add: fresh_chunker_def SYNC_CHUNK_MAX_def SYNC_CHUNK_MIN_def)

theorem chunks_reassemble_witness:
  "split_chunks (\<lambda>_. 1) fresh_chunker [] [1, 2] = ([], [1, 2]) \<and> concat [] @ [1, 2] = ([1, 2] :: byte list)"
proof -
  have r: "split_chunks (\<lambda>_. 1) fresh_chunker [] [1, 2] = ([], [1, 2])"
    by (simp add: fresh_chunker_def sync_chunk_boundary_def Let_def SYNC_CHUNK_MAX_def SYNC_CHUNK_MIN_def
        word_le_nat_alt)
  from chunks_reassemble [OF r] r show ?thesis by simp
qed

text \<open>A boundary depends on the content only through the last 19 bytes: two scans that
  have read as many bytes of their chunk, whatever these were, decide alike after 18 common bytes
  without a boundary and one more common byte. So an edit moves no boundary beyond the chunks it
  touches once the scans are in step.\<close>

theorem chunk_boundary_is_local:
  assumes "ck_size s = ck_size t" and "length bs = 18"
    and "no_boundary gear s bs" and "no_boundary gear t bs"
  shows "fst (sync_chunk_boundary (feed gear s bs) b gear) = fst (sync_chunk_boundary (feed gear t bs) b gear)"
proof -
  define x where "x = push_bit 1 (roll gear bs) + gear b"
  have "take_bit 19 (push_bit 1 (ck_hash (feed gear u bs)) + gear b) = take_bit 19 x"
    if "no_boundary gear u bs" for u
  proof -
    have "push_bit 1 (push_bit 18 (ck_hash u) + roll gear bs) + gear b = push_bit 19 (ck_hash u) + x"
      by (simp add: x_def push_bit_eq_mult algebra_simps)
    then show ?thesis
      using feed_no_boundary [OF that] assms(2) take_bit_push_bit_add [of "ck_hash u" x] by simp
  qed
  from this [OF assms(3)] this [OF assms(4)]
  have "take_bit 19 (push_bit 1 (ck_hash (feed gear s bs)) + gear b)
      = take_bit 19 (push_bit 1 (ck_hash (feed gear t bs)) + gear b)" by (rule trans [OF _ sym])
  moreover have "ck_size (feed gear s bs) = ck_size (feed gear t bs)"
    using feed_no_boundary [OF assms(3)] feed_no_boundary [OF assms(4)] assms(1) by simp
  ultimately show ?thesis
    unfolding sync_chunk_boundary_def Let_def chunk_mask_take_bit by simp
qed

lemma no_boundary_small:
  "unat (ck_size st) + length bs < 131072 \<Longrightarrow> no_boundary g st bs"
proof (induction bs arbitrary: st)
  case (Cons b bs)
  then have "ck_size st < SYNC_CHUNK_MAX" by (simp add: SYNC_CHUNK_MAX_def word_less_nat_alt)
  from chunk_size_step [OF this] Cons.prems
  have size: "unat (ck_size st + 1) < 131072" "unat (ck_size st + 1) = Suc (unat (ck_size st))" by simp_all
  then have n: "sync_chunk_boundary st b g =
      (False, \<lparr>ck_hash = push_bit 1 (ck_hash st) + g b, ck_size = ck_size st + 1\<rparr>)"
    by (simp add: sync_chunk_boundary_def Let_def SYNC_CHUNK_MAX_def SYNC_CHUNK_MIN_def word_le_nat_alt)
  with Cons.IH [of "\<lparr>ck_hash = push_bit 1 (ck_hash st) + g b, ck_size = ck_size st + 1\<rparr>"] Cons.prems size
  show ?case by simp
qed simp

theorem chunk_boundary_is_local_witness:
  "fst (sync_chunk_boundary (feed (\<lambda>_. 3) \<lparr>ck_hash = 5, ck_size = 100\<rparr> (replicate 18 0)) 1 (\<lambda>_. 3))
   = fst (sync_chunk_boundary (feed (\<lambda>_. 3) \<lparr>ck_hash = 77, ck_size = 100\<rparr> (replicate 18 0)) 1 (\<lambda>_. 3))"
  by (rule chunk_boundary_is_local) (simp_all add: no_boundary_small)

text \<open>C7 (safety): a relative path is accepted exactly when it is a list of components separated by single
  slashes, none of them empty, longer than 255 characters, ending in a dot or a space (so never \<open>.\<close> or
  \<open>..\<close>) or equal to \<open>.git\<close>, with no control character, backslash, colon or wildcard anywhere: an
  accepted path cannot leave the folder it is relative to.\<close>

theorem sync_relative_path_exact:
  "sync_relative_path (Some s) \<longleftrightarrow>
     list_all (\<lambda>c. \<not> c < 32 \<and> c \<notin> {92, 58, 42, 63, 34, 60, 62, 124}) s
     \<and> list_all (\<lambda>q. q \<noteq> [] \<and> length q \<le> 255 \<and> last q \<noteq> 46 \<and> last q \<noteq> 32 \<and> q \<noteq> W ''.git'') (split_on 47 s)"
  unfolding relative_path_iff component_ok_iff path_forbidden_def ..

text \<open>Starting from the default settings, any sequence of changes and removals of pairs,
  accepted or refused, leaves valid settings: at most 16 valid pairs, no two with the same identifier,
  dataset or (up to case and the kind of slash) directory.\<close>

theorem sync_settings_stay_valid:
  "sync_settings_valid (Some (foldl run_pair_op sync_settings_default ops))
   \<and> pairs_ok (pair_list (foldl run_pair_op sync_settings_default ops))
   \<and> length (pair_list (foldl run_pair_op sync_settings_default ops)) \<le> SYNC_PAIR_LIMIT"
proof -
  let ?s = "foldl run_pair_op sync_settings_default ops"
  have wf: "settings_wf ?s" and v: "sync_settings_valid (Some ?s)"
    using run_pair_ops_valid default_settings_valid by blast+
  have "length (pair_list ?s) \<le> SYNC_PAIR_LIMIT"
    using wf by (auto simp: settings_wf_def pair_list_def)
  with v show ?thesis by (simp add: settings_valid_iff [OF wf])
qed

text \<open>Setting a pair either is refused, with -1 and the settings unchanged, or returns the
  index and changes the list of pairs there (appends it at the end) and leaves the settings valid;
  removing a pair closes the gap and keeps the rest in order.\<close>

theorem sync_pair_edits_exact:
  assumes "settings_wf s" and "sync_settings_valid (Some s)"
    and "sync_pair_set (Some s) i (Some p) = (k, Some s')"
    and "sync_pair_remove (Some s) j = (ok, Some s'')"
  shows "(k = -1 \<and> s' = s \<or>
      k = i \<and> sync_settings_valid (Some s')
      \<and> pair_list s' = (if i = st_count s then pair_list s @ [p] else (pair_list s)[nat i := p]))
    \<and> (ok \<longleftrightarrow> 0 \<le> j \<and> j < st_count s) \<and> sync_settings_valid (Some s'')
    \<and> pair_list s'' = (if ok then remove_at (nat j) (pair_list s) else pair_list s)"
proof -
  have ok: "ok \<longleftrightarrow> 0 \<le> j \<and> j < st_count s"
    using assms(4) by (auto simp: sync_pair_remove_def Let_def split: if_splits)
  have "sync_settings_valid (Some s'')
      \<and> pair_list s'' = (if ok then remove_at (nat j) (pair_list s) else pair_list s)"
  proof (cases ok)
    case True
    with assms(4) have r: "sync_pair_remove (Some s) j = (True, Some s'')" by simp
    with True pair_remove_result [OF assms(1) r] pair_remove_valid [OF assms(1,2) r] show ?thesis by simp
  next
    case False
    with assms(2,4) show ?thesis by (auto simp: sync_pair_remove_def Let_def split: if_splits)
  qed
  with pair_set_result [OF assms(1,3)] ok show ?thesis by blast
qed

theorem sync_pair_edits_exact_witness:
  "sync_pair_set (Some sync_settings_default) 0 (Some zero_pair) = (-1, Some sync_settings_default)
   \<and> pair_list sync_settings_default = []
   \<and> (\<exists>s''. sync_pair_remove (Some sync_settings_default) 0 = (False, Some s'') \<and> pair_list s'' = [])"
proof -
  have wf: "settings_wf sync_settings_default" and v: "sync_settings_valid (Some sync_settings_default)"
    using default_settings_valid by blast+
  have l: "pair_list sync_settings_default = []"
    by (simp add: pair_list_def sync_settings_default_def zero_settings_def)
  have "sync_pair_remove (Some sync_settings_default) 0 = (False, Some sync_settings_default)"
    by (simp add: sync_pair_remove_def sync_settings_default_def zero_settings_def)
  moreover have "\<exists>k s'. sync_pair_set (Some sync_settings_default) 0 (Some zero_pair) = (k, Some s')"
    by (simp add: sync_pair_set_def Let_def)
  then obtain k s' where r: "sync_pair_set (Some sync_settings_default) 0 (Some zero_pair) = (k, Some s')"
    by blast
  have bad: "\<not> pairs_ok [zero_pair]"
    by (simp add: pairs_ok_def pair_valid_def zero_pair_def sync_identifier_def)
  note e = sync_pair_edits_exact [OF wf v r \<open>sync_pair_remove _ _ = _\<close>]
  have "k = -1 \<and> s' = sync_settings_default"
  proof (rule ccontr)
    assume n: "\<not> (k = -1 \<and> s' = sync_settings_default)"
    with pair_set_result [OF wf r] have "settings_wf s'" by blast
    moreover have "st_count sync_settings_default = 0"
      by (simp add: sync_settings_default_def zero_settings_def)
    with n e l have "sync_settings_valid (Some s')" "pair_list s' = [zero_pair]" by auto
    ultimately show False using bad by (simp add: settings_valid_iff)
  qed
  with r l \<open>sync_pair_remove _ _ = _\<close> show ?thesis
    by (intro conjI exI [of _ sync_settings_default]) simp_all
qed

text \<open>A folder is reported as up to date only when nothing is running or failed, the folder
  was inspected, is not known to be unbound, and no push, pull, conflict or wait is pending; its
  relation says publisher or subscriber only when the server's metadata and the publisher are known.\<close>

theorem folder_current_means_in_sync:
  "(fs_phase (sync_folder_state (Some f)) = SYNC_FOLDER_CURRENT \<longleftrightarrow>
      (\<not> ff_busy f \<and> \<not> ff_failed f \<and> ff_inspected f \<and> \<not> (metadata_known f \<and> \<not> ff_bound f)
       \<and> ff_conflicts f = 0 \<and> ff_waiting f = 0 \<and> ff_pushes f = 0 \<and> ff_pulls f = 0))
   \<and> (fs_relation (sync_folder_state (Some f)) \<in> {SYNC_REL_PUBLISHER, SYNC_REL_SUBSCRIBER} \<longleftrightarrow>
      (metadata_known f \<and> ff_bound f \<and> publisher_known f))
   \<and> fs_phase (sync_folder_state (Some f)) \<noteq> SYNC_FOLDER_UNKNOWN"
  by (auto simp: sync_folder_state_def Let_def)

end
