(* ===== verification/Database.thy ===== *)
theory Database
  imports Prelude "HOL-Library.List_Lexorder" "HOL-Library.Product_Lexorder"
begin

text \<open>
  The in-memory database of the configuration (\<open>src/src/platform/storage.c\<close>, the \<open>CREATE TABLE\<close>
  statements of \<open>store_open_impl\<close>) and the JSON documents it is read from and written to
  (\<open>src/src/platform/config_json.c\<close>): the three tables, each SQL statement of the two files as a function
  on them, the documents \<open>snapshot\<close> builds, the checks \<open>valid_json\<close> makes and the rows
  \<open>import_json\<close> inserts. JSON values are a datatype; the text form is SQLite's.
\<close>

subsection \<open>Text\<close>

definition is_high :: "wchar \<Rightarrow> bool" where "is_high c \<longleftrightarrow> 0xD800 \<le> c \<and> c \<le> 0xDBFF"
definition is_low :: "wchar \<Rightarrow> bool" where "is_low c \<longleftrightarrow> 0xDC00 \<le> c \<and> c \<le> 0xDFFF"

fun code_points :: "wstr \<Rightarrow> nat list" where
  "code_points (c # d # s) =
     (if is_high c \<and> is_low d then ((unat c - 0xD800) * 1024 + (unat d - 0xDC00) + 0x10000) # code_points s
      else unat c # code_points (d # s))"
| "code_points [c] = [unat c]"
| "code_points [] = []"

fun utf16_ok :: "wstr \<Rightarrow> bool" where
  \<comment> \<open>no surrogate without its partner\<close>
  "utf16_ok (c # d # s) =
     (if is_high c then is_low d \<and> utf16_ok s else \<not> is_low c \<and> utf16_ok (d # s))"
| "utf16_ok [c] = (\<not> is_high c \<and> \<not> is_low c)"
| "utf16_ok [] = True"

definition utf8_point :: "nat \<Rightarrow> byte list" where
  "utf8_point n =
     (if n < 128 then [of_nat n]
      else if n < 2048 then [of_nat (192 + n div 64), of_nat (128 + n mod 64)]
      else if n < 65536 then [of_nat (224 + n div 4096), of_nat (128 + n div 64 mod 64), of_nat (128 + n mod 64)]
      else [of_nat (240 + n div 262144), of_nat (128 + n div 4096 mod 64), of_nat (128 + n div 64 mod 64),
            of_nat (128 + n mod 64)])"

definition utf8 :: "wstr \<Rightarrow> byte list" where
  "utf8 s = concat (map utf8_point (code_points s))"

definition sql_length :: "wstr \<Rightarrow> nat" where
  \<comment> \<open>SQL \<open>length(text)\<close>: characters, not UTF-16 units\<close>
  "sql_length s = length (code_points s)"

subsection \<open>JSON values\<close>

datatype json =
  JNull | JBool bool | JInt int | JReal string | JText wstr | JArray "json list" | JObject "(wstr \<times> json) list"

definition member_of :: "string \<Rightarrow> json \<Rightarrow> json option" where
  \<comment> \<open>\<open>json_extract(j,'$.key')\<close>, \<open>None\<close> when there is none\<close>
  "member_of key j = (case j of JObject ms \<Rightarrow> map_of ms (W key) | _ \<Rightarrow> None)"

definition is_object_of :: "nat \<Rightarrow> json \<Rightarrow> bool" where
  "is_object_of n j \<longleftrightarrow> (case j of JObject ms \<Rightarrow> length ms = n | _ \<Rightarrow> False)"

definition text_field :: "string \<Rightarrow> (wstr \<Rightarrow> bool) \<Rightarrow> json \<Rightarrow> bool" where
  "text_field key P j \<longleftrightarrow> (case member_of key j of Some (JText t) \<Rightarrow> P t | _ \<Rightarrow> False)"

definition int_field :: "string \<Rightarrow> (int \<Rightarrow> bool) \<Rightarrow> json \<Rightarrow> bool" where
  "int_field key P j \<longleftrightarrow> (case member_of key j of Some (JInt i) \<Rightarrow> P i | _ \<Rightarrow> False)"

definition array_field :: "string \<Rightarrow> json \<Rightarrow> json list" where
  \<comment> \<open>\<open>json_each(j,'$.key')\<close> of an array\<close>
  "array_field key j = (case member_of key j of Some (JArray xs) \<Rightarrow> xs | _ \<Rightarrow> [])"

definition is_array_field :: "string \<Rightarrow> nat \<Rightarrow> json \<Rightarrow> bool" where
  "is_array_field key n j \<longleftrightarrow> (case member_of key j of Some (JArray xs) \<Rightarrow> length xs \<le> n | _ \<Rightarrow> False)"

fun json_texts :: "json \<Rightarrow> wstr list" where
  \<comment> \<open>\<open>SELECT atom FROM json_tree(j) WHERE type='text'\<close>\<close>
  "json_texts (JText t) = [t]"
| "json_texts (JArray xs) = concat (map json_texts xs)"
| "json_texts (JObject ms) = concat (map (\<lambda>m. json_texts (snd m)) ms)"
| "json_texts _ = []"

fun keys_unique :: "json \<Rightarrow> bool" where
  "keys_unique (JArray xs) = list_all keys_unique xs"
| "keys_unique (JObject ms) \<longleftrightarrow> distinct (map fst ms) \<and> list_all (\<lambda>m. keys_unique (snd m)) ms"
| "keys_unique _ = True"

subsection \<open>Tables\<close>

type_synonym setting_key = "wstr \<times> wstr \<times> wstr"   \<comment> \<open>scope, section, key\<close>

record Db =
  settings :: "(setting_key \<times> wstr) list"
  workspaces :: "(int \<times> int \<times> wstr) list"                   \<comment> \<open>id, position, name\<close>
  items :: "(int \<times> int \<times> int \<times> wstr \<times> wstr) list"             \<comment> \<open>id, workspace_id, position, name, target\<close>

definition empty_db :: Db where
  "empty_db = \<lparr>settings = [], workspaces = [], items = []\<rparr>"

definition select_setting :: "setting_key \<Rightarrow> Db \<Rightarrow> wstr option" where
  "select_setting k d = map_of (settings d) k"

definition upsert_setting :: "setting_key \<Rightarrow> wstr \<Rightarrow> Db \<Rightarrow> Db" where
  "upsert_setting k v d = d\<lparr>settings := AList.update k v (settings d)\<rparr>"

definition insert_setting :: "setting_key \<Rightarrow> wstr \<Rightarrow> Db \<Rightarrow> Db option" where
  "insert_setting k v d =
     (if map_of (settings d) k \<noteq> None then None else Some (d\<lparr>settings := settings d @ [(k, v)]\<rparr>))"

definition delete_scope :: "wstr \<Rightarrow> Db \<Rightarrow> Db" where
  "delete_scope scope d = d\<lparr>settings := filter (\<lambda>r. fst (fst r) \<noteq> scope) (settings d)\<rparr>"

definition count_scope :: "wstr \<Rightarrow> Db \<Rightarrow> nat" where
  "count_scope scope d = length (filter (\<lambda>r. fst (fst r) = scope) (settings d))"

definition insert_workspace :: "int \<Rightarrow> int \<Rightarrow> wstr \<Rightarrow> Db \<Rightarrow> Db option" where
  "insert_workspace i p n d =
     (if i \<in> set (map fst (workspaces d)) then None else Some (d\<lparr>workspaces := workspaces d @ [(i, p, n)]\<rparr>))"

definition upsert_workspace :: "int \<Rightarrow> int \<Rightarrow> wstr \<Rightarrow> Db \<Rightarrow> Db" where
  "upsert_workspace i p n d = d\<lparr>workspaces := AList.update i (p, n) (workspaces d)\<rparr>"

definition delete_workspaces_except :: "int list \<Rightarrow> Db \<Rightarrow> Db" where
  \<comment> \<open>\<open>DELETE FROM workspaces WHERE id NOT IN (...)\<close>; the items go by \<open>ON DELETE CASCADE\<close>\<close>
  "delete_workspaces_except ids d =
     d\<lparr>workspaces := filter (\<lambda>r. fst r \<in> set ids) (workspaces d),
       items := filter (\<lambda>r. fst (snd r) \<in> set ids) (items d)\<rparr>"

definition delete_items_except :: "int \<Rightarrow> int list \<Rightarrow> Db \<Rightarrow> Db" where
  "delete_items_except w ids d =
     d\<lparr>items := filter (\<lambda>r. \<not> (fst (snd r) = w \<and> fst r \<notin> set ids)) (items d)\<rparr>"

definition insert_item :: "int \<Rightarrow> int \<Rightarrow> int \<Rightarrow> wstr \<Rightarrow> wstr \<Rightarrow> Db \<Rightarrow> Db option" where
  "insert_item i w p n t d =
     (if i \<in> set (map fst (items d)) \<or> w \<notin> set (map fst (workspaces d)) then None
      else Some (d\<lparr>items := items d @ [(i, w, p, n, t)]\<rparr>))"

definition upsert_item :: "int \<Rightarrow> int \<Rightarrow> int \<Rightarrow> wstr \<Rightarrow> wstr \<Rightarrow> Db \<Rightarrow> Db option" where
  \<comment> \<open>\<open>None\<close>: the foreign key fails\<close>
  "upsert_item i w p n t d =
     (if w \<notin> set (map fst (workspaces d)) then None
      else Some (d\<lparr>items := AList.update i (w, p, n, t) (items d)\<rparr>))"

definition items_of :: "int \<Rightarrow> Db \<Rightarrow> (int \<times> int \<times> wstr \<times> wstr) list" where
  \<comment> \<open>\<open>SELECT ... FROM items WHERE workspace_id=? ORDER BY position,id\<close>: position, id, name, target\<close>
  "items_of w d = sort_key (\<lambda>(p, i, _). (p, i))
     (map (\<lambda>(i, _, p, n, t). (p, i, n, t)) (filter (\<lambda>r. fst (snd r) = w) (items d)))"

definition workspaces_ordered :: "Db \<Rightarrow> (int \<times> int \<times> wstr) list" where
  \<comment> \<open>\<open>ORDER BY position,id\<close>\<close>
  "workspaces_ordered d = sort_key (\<lambda>(i, p, _). (p, i)) (workspaces d)"

subsection \<open>The split between the two documents\<close>

fun has_underscore_digit :: "wstr \<Rightarrow> bool" where
  "has_underscore_digit (c # d # s) \<longleftrightarrow> (c = 95 \<and> is_digit d) \<or> has_underscore_digit (d # s)"
| "has_underscore_digit _ = False"

definition glob_split :: "wstr \<Rightarrow> bool" where
  \<comment> \<open>\<open>key GLOB 'Split[0-9]*_[0-9]*'\<close>\<close>
  "glob_split k \<longleftrightarrow> starts_with k (W ''Split'')
     \<and> (case drop 5 k of [] \<Rightarrow> False | c # s \<Rightarrow> is_digit c \<and> has_underscore_digit s)"

definition local_state :: "setting_key \<Rightarrow> bool" where
  "local_state k = (case k of (scope, section, key) \<Rightarrow>
     scope = W ''sync''
     \<or> (scope = W ''app'' \<and> section = W ''Nova''
        \<and> key \<in> {W ''Active'', W ''AlwaysOnTop'', W ''DesktopMode'', W ''SidebarCollapsed''})
     \<or> (scope = W ''files''
        \<and> ((section \<in> {W ''Pane0'', W ''Pane1'', W ''Pane2'', W ''Pane3''}
              \<and> key \<in> {W ''Selected'', W ''ServerMode''})
           \<or> (section = W ''Manager'' \<and> (key \<in> {W ''Layout'', W ''NavigationTree''} \<or> glob_split key)))))"

subsection \<open>Documents\<close>

definition setting_json :: "setting_key \<times> wstr \<Rightarrow> json" where
  "setting_json r = (case r of ((scope, section, key), v) \<Rightarrow>
     JObject [(W ''scope'', JText scope), (W ''section'', JText section), (W ''key'', JText key), (W ''value'', JText v)])"

definition workspace_json :: "int \<times> int \<times> wstr \<Rightarrow> json" where
  "workspace_json r = (case r of (i, p, n) \<Rightarrow>
     JObject [(W ''id'', JText (dec i)), (W ''position'', JInt p), (W ''name'', JText n)])"

definition item_json :: "int \<times> int \<times> int \<times> wstr \<times> wstr \<Rightarrow> json" where
  "item_json r = (case r of (i, w, p, n, t) \<Rightarrow>
     JObject [(W ''id'', JText (dec i)), (W ''workspace_id'', JText (dec w)), (W ''position'', JInt p),
       (W ''name'', JText n), (W ''target'', JText t)])"

definition document_json :: "json list \<Rightarrow> json list \<Rightarrow> json list \<Rightarrow> json" where
  "document_json ss ws its =
     JObject [(W ''version'', JInt 1), (W ''application'', JText (W ''NOVA Desktop'')),
       (W ''initialized'', JBool True), (W ''settings'', JArray ss), (W ''workspaces'', JArray ws),
       (W ''items'', JArray its)]"

definition setting_order :: "setting_key \<times> wstr \<Rightarrow> byte list \<times> byte list \<times> byte list" where
  "setting_order r = (case r of ((scope, section, key), _) \<Rightarrow> (utf8 scope, utf8 section, utf8 key))"

definition snapshot_json :: "Db \<Rightarrow> bool \<Rightarrow> json" where
  "snapshot_json d local =
     (if local
      then document_json
             (map setting_json (sort_key setting_order (filter (\<lambda>r. local_state (fst r)) (settings d)))) [] []
      else document_json
             (map setting_json (sort_key setting_order (filter (\<lambda>r. \<not> local_state (fst r)) (settings d))))
             (map workspace_json (workspaces_ordered d))
             (map item_json (sort_key (\<lambda>(i, w, p, _). (w, p, i)) (items d))))"

definition key_length_ok :: "wstr \<Rightarrow> bool" where
  "key_length_ok t \<longleftrightarrow> 1 \<le> sql_length t \<and> sql_length t \<le> 64"

definition id_text_ok :: "wstr \<Rightarrow> bool" where
  "id_text_ok t \<longleftrightarrow> 1 \<le> sql_length t \<and> sql_length t \<le> 19
     \<and> list_all is_digit t
     \<and> (case t of c # _ \<Rightarrow> 49 \<le> c \<and> c \<le> 57 | [] \<Rightarrow> False)
     \<and> (sql_length t < 19 \<or> t \<le> W ''9223372036854775807'')"

definition metadata_valid :: "json \<Rightarrow> bool" where
  "metadata_valid j \<longleftrightarrow>
     is_object_of 6 j
     \<and> int_field ''version'' (\<lambda>i. i = 1) j
     \<and> text_field ''application'' (\<lambda>t. t = W ''NOVA Desktop'') j
     \<and> (case member_of ''initialized'' j of Some (JBool _) \<Rightarrow> True | _ \<Rightarrow> False)
     \<and> is_array_field ''settings'' 4096 j \<and> is_array_field ''workspaces'' 8 j \<and> is_array_field ''items'' 160 j
     \<and> list_all (\<lambda>t. 0 \<notin> set t) (json_texts j)
     \<and> keys_unique j
     \<and> (member_of ''initialized'' j = Some (JBool True)
        \<or> (array_field ''settings'' j = [] \<and> array_field ''workspaces'' j = [] \<and> array_field ''items'' j = []))"

definition setting_valid :: "json \<Rightarrow> bool" where
  "setting_valid e \<longleftrightarrow> is_object_of 4 e
     \<and> text_field ''scope'' key_length_ok e \<and> text_field ''section'' key_length_ok e
     \<and> text_field ''key'' key_length_ok e \<and> text_field ''value'' (\<lambda>t. length (utf8 t) \<le> 16384) e"

definition workspace_valid :: "json \<Rightarrow> bool" where
  "workspace_valid e \<longleftrightarrow> is_object_of 3 e \<and> text_field ''id'' id_text_ok e
     \<and> int_field ''position'' (\<lambda>p. 0 \<le> p \<and> p \<le> 7) e
     \<and> text_field ''name'' (\<lambda>t. 1 \<le> sql_length t \<and> sql_length t \<le> 39) e"

definition item_valid :: "json \<Rightarrow> bool" where
  "item_valid e \<longleftrightarrow> is_object_of 5 e \<and> text_field ''id'' id_text_ok e \<and> text_field ''workspace_id'' id_text_ok e
     \<and> int_field ''position'' (\<lambda>p. 0 \<le> p \<and> p \<le> 19) e
     \<and> text_field ''name'' (\<lambda>t. 1 \<le> sql_length t \<and> sql_length t \<le> 63) e
     \<and> text_field ''target'' (\<lambda>t. 1 \<le> sql_length t \<and> sql_length t \<le> 259) e"

definition document_valid :: "json \<Rightarrow> bool" where
  \<comment> \<open>all the tests of \<open>valid_json\<close> on a text that is JSON\<close>
  "document_valid j \<longleftrightarrow> metadata_valid j
     \<and> list_all setting_valid (array_field ''settings'' j)
     \<and> list_all workspace_valid (array_field ''workspaces'' j)
     \<and> list_all item_valid (array_field ''items'' j)
     \<and> list_all utf16_ok (json_texts j)"

subsection \<open>Rows of a document\<close>

definition text_of :: "string \<Rightarrow> json \<Rightarrow> wstr" where
  "text_of key e = (case member_of key e of Some (JText t) \<Rightarrow> t | _ \<Rightarrow> [])"

definition int_of_field :: "string \<Rightarrow> json \<Rightarrow> int" where
  "int_of_field key e = (case member_of key e of Some (JInt i) \<Rightarrow> i | _ \<Rightarrow> 0)"

definition setting_row :: "json \<Rightarrow> setting_key \<times> wstr" where
  "setting_row e = ((text_of ''scope'' e, text_of ''section'' e, text_of ''key'' e), text_of ''value'' e)"

definition workspace_row :: "json \<Rightarrow> int \<times> int \<times> wstr" where
  \<comment> \<open>\<open>CAST(text AS INTEGER)\<close> of a text of digits\<close>
  "workspace_row e = (digits_val (text_of ''id'' e), int_of_field ''position'' e, text_of ''name'' e)"

definition item_row :: "json \<Rightarrow> int \<times> int \<times> int \<times> wstr \<times> wstr" where
  "item_row e = (digits_val (text_of ''id'' e), digits_val (text_of ''workspace_id'' e), int_of_field ''position'' e,
     text_of ''name'' e, text_of ''target'' e)"

fun insert_all :: "('r \<Rightarrow> Db \<Rightarrow> Db option) \<Rightarrow> 'r list \<Rightarrow> Db \<Rightarrow> Db option" where
  "insert_all f [] d = Some d"
| "insert_all f (r # rs) d = (case f r d of None \<Rightarrow> None | Some d' \<Rightarrow> insert_all f rs d')"

definition insert_settings :: "json \<Rightarrow> Db \<Rightarrow> Db option" where
  "insert_settings j = insert_all (\<lambda>(k, v). insert_setting k v) (map setting_row (array_field ''settings'' j))"

definition insert_workspaces :: "json \<Rightarrow> Db \<Rightarrow> Db option" where
  "insert_workspaces j = insert_all (\<lambda>(i, p, n). insert_workspace i p n) (map workspace_row (array_field ''workspaces'' j))"

definition insert_items :: "json \<Rightarrow> Db \<Rightarrow> Db option" where
  "insert_items j = insert_all (\<lambda>(i, w, p, n, t). insert_item i w p n t) (map item_row (array_field ''items'' j))"

definition replace_settings :: "json \<Rightarrow> Db \<Rightarrow> Db" where
  \<comment> \<open>\<open>INSERT OR REPLACE INTO settings SELECT ...\<close>\<close>
  "replace_settings j d = fold (\<lambda>(k, v). upsert_setting k v) (map setting_row (array_field ''settings'' j)) d"

definition local_document_ok :: "json \<Rightarrow> bool" where
  \<comment> \<open>the statement \<open>allowed\<close> of \<open>config_json_load_local\<close>\<close>
  "local_document_ok j \<longleftrightarrow> array_field ''workspaces'' j = [] \<and> array_field ''items'' j = []
     \<and> list_all (\<lambda>e. local_state (fst (setting_row e))) (array_field ''settings'' j)
     \<and> distinct (map (\<lambda>e. fst (setting_row e)) (array_field ''settings'' j))"

definition small_number :: "wstr \<Rightarrow> bool" where
  \<comment> \<open>one or two digits whose value is at most 11\<close>
  "small_number v \<longleftrightarrow> 1 \<le> sql_length v \<and> sql_length v \<le> 2 \<and> list_all is_digit v \<and> digits_val v \<le> 11"

definition clamp_selections :: "Db \<Rightarrow> Db \<times> nat" where
  \<comment> \<open>\<open>UPDATE settings SET value='0' ...\<close> and \<open>sqlite3_changes\<close>; a count that is not a number casts to
     the value of its leading digits\<close>
  "clamp_selections d =
     (let count_of = (\<lambda>section. case select_setting (W ''files'', section, W ''Count'') d of
            None \<Rightarrow> 1 | Some v \<Rightarrow> p_value (wcstoll v));
          hit = (\<lambda>((scope, section, key), v). scope = W ''files''
            \<and> section \<in> {W ''Pane0'', W ''Pane1'', W ''Pane2'', W ''Pane3''} \<and> key = W ''Selected''
            \<and> small_number v \<and> digits_val v \<ge> count_of section)
      in (d\<lparr>settings := map (\<lambda>r. if hit r then (fst r, W ''0'') else r) (settings d)\<rparr>,
          length (filter hit (settings d))))"

subsection \<open>Documents: lemmas\<close>

named_theorems json_field \<open>evaluation of the fields of a document\<close>

lemma document_fields [json_field]:
  "array_field ''settings'' (document_json ss ws its) = ss"
  "array_field ''workspaces'' (document_json ss ws its) = ws"
  "array_field ''items'' (document_json ss ws its) = its"
  "member_of ''initialized'' (document_json ss ws its) = Some (JBool True)"
  by (simp_all add: array_field_def member_of_def document_json_def)

lemma setting_row_json [simp]: "setting_row (setting_json r) = r"
  by (auto simp: setting_row_def setting_json_def text_of_def member_of_def split: prod.splits)

lemma digits_val_dec [simp]: "0 \<le> i \<Longrightarrow> digits_val (dec i) = i"
  by (simp add: dec_def)

lemma workspace_row_json [simp]: "0 \<le> fst r \<Longrightarrow> workspace_row (workspace_json r) = r"
  by (auto simp: workspace_row_def workspace_json_def text_of_def int_of_field_def member_of_def split: prod.splits)

lemma item_row_json [simp]: "0 \<le> fst r \<Longrightarrow> 0 \<le> fst (snd r) \<Longrightarrow> item_row (item_json r) = r"
  by (auto simp: item_row_def item_json_def text_of_def int_of_field_def member_of_def split: prod.splits)

lemma insert_all_settings:
  "distinct (map fst (settings d @ rs)) \<Longrightarrow>
   insert_all (\<lambda>(k, v). insert_setting k v) rs d = Some (d\<lparr>settings := settings d @ rs\<rparr>)"
proof (induction rs arbitrary: d)
  case (Cons r rs)
  obtain k v where r: "r = (k, v)" by (cases r)
  from Cons.prems r have "map_of (settings d) k = None" by (auto simp: map_of_eq_None_iff)
  with r Cons.IH [of "d\<lparr>settings := settings d @ [(k, v)]\<rparr>"] Cons.prems show ?case
    by (simp add: insert_setting_def)
qed simp

lemma insert_all_workspaces:
  "distinct (map fst (workspaces d @ rs)) \<Longrightarrow>
   insert_all (\<lambda>(i, p, n). insert_workspace i p n) rs d = Some (d\<lparr>workspaces := workspaces d @ rs\<rparr>)"
proof (induction rs arbitrary: d)
  case (Cons r rs)
  obtain i p n where r: "r = (i, p, n)" by (cases r)
  from Cons.prems r have "i \<notin> set (map fst (workspaces d))" by auto
  with r Cons.IH [of "d\<lparr>workspaces := workspaces d @ [(i, p, n)]\<rparr>"] Cons.prems show ?case
    by (simp add: insert_workspace_def)
qed simp

lemma insert_all_items:
  "distinct (map fst (items d @ rs)) \<Longrightarrow> fst ` snd ` set rs \<subseteq> fst ` set (workspaces d) \<Longrightarrow>
   insert_all (\<lambda>(i, w, p, n, t). insert_item i w p n t) rs d = Some (d\<lparr>items := items d @ rs\<rparr>)"
proof (induction rs arbitrary: d)
  case (Cons r rs)
  obtain i w p n t where r: "r = (i, w, p, n, t)" by (cases r)
  from Cons.prems r have "i \<notin> set (map fst (items d))" "w \<in> set (map fst (workspaces d))" by auto
  with r Cons.IH [of "d\<lparr>items := items d @ [(i, w, p, n, t)]\<rparr>"] Cons.prems show ?case
    by (simp add: insert_item_def)
qed simp

definition same_rows :: "Db \<Rightarrow> Db \<Rightarrow> bool" where
  \<comment> \<open>the same tables: the order of the rows of a table does not matter\<close>
  "same_rows d e \<longleftrightarrow> map_of (settings d) = map_of (settings e)
     \<and> mset (workspaces d) = mset (workspaces e) \<and> mset (items d) = mset (items e)"

definition db_keys_ok :: "Db \<Rightarrow> bool" where
  \<comment> \<open>what the primary keys and the foreign key enforce, and positive identifiers\<close>
  "db_keys_ok d \<longleftrightarrow> distinct (map fst (settings d)) \<and> distinct (map fst (workspaces d))
     \<and> distinct (map fst (items d)) \<and> fst ` snd ` set (items d) \<subseteq> fst ` set (workspaces d)
     \<and> (\<forall>i \<in> fst ` set (workspaces d). 0 < i \<and> i \<le> LLONG_MAX)
     \<and> (\<forall>i \<in> fst ` set (items d). 0 < i \<and> i \<le> LLONG_MAX)"

definition text_ok :: "wstr \<Rightarrow> bool" where
  "text_ok t \<longleftrightarrow> 0 \<notin> set t \<and> utf16_ok t"

definition db_within :: "Db \<Rightarrow> bool" where
  \<comment> \<open>the limits of a document\<close>
  "db_within d \<longleftrightarrow> length (settings d) \<le> 4096 \<and> length (workspaces d) \<le> 8 \<and> length (items d) \<le> 160
     \<and> (\<forall>((scope, section, key), v) \<in> set (settings d).
          key_length_ok scope \<and> key_length_ok section \<and> key_length_ok key \<and> length (utf8 v) \<le> 16384
          \<and> text_ok scope \<and> text_ok section \<and> text_ok key \<and> text_ok v)
     \<and> (\<forall>(i, p, n) \<in> set (workspaces d). 0 \<le> p \<and> p \<le> 7 \<and> 1 \<le> sql_length n \<and> sql_length n \<le> 39 \<and> text_ok n)
     \<and> (\<forall>(i, w, p, n, t) \<in> set (items d). 0 \<le> p \<and> p \<le> 19 \<and> 1 \<le> sql_length n \<and> sql_length n \<le> 63
          \<and> 1 \<le> sql_length t \<and> sql_length t \<le> 259 \<and> text_ok n \<and> text_ok t)"

lemma distinct_map_mset: "mset xs = mset ys \<Longrightarrow> distinct (map f xs) \<longleftrightarrow> distinct (map f ys)"
  by (rule mset_eq_imp_distinct_iff) simp

lemma distinct_map_sort_key [simp]: "distinct (map f (sort_key g xs)) \<longleftrightarrow> distinct (map f xs)"
  by (rule mset_eq_imp_distinct_iff) simp

lemma import_snapshot:
  assumes "db_keys_ok d"
  shows "\<exists>ss. mset ss = mset (filter (\<lambda>r. \<not> local_state (fst r)) (settings d))
    \<and> insert_settings (snapshot_json d False) empty_db = Some (empty_db\<lparr>settings := ss\<rparr>)
    \<and> (\<exists>ws. mset ws = mset (workspaces d)
       \<and> insert_workspaces (snapshot_json d False) (empty_db\<lparr>settings := ss\<rparr>)
           = Some (empty_db\<lparr>settings := ss, workspaces := ws\<rparr>)
       \<and> (\<exists>its. mset its = mset (items d)
          \<and> insert_items (snapshot_json d False) (empty_db\<lparr>settings := ss, workspaces := ws\<rparr>)
              = Some (empty_db\<lparr>settings := ss, workspaces := ws, items := its\<rparr>)))"
proof -
  define ss where "ss = sort_key setting_order (filter (\<lambda>r. \<not> local_state (fst r)) (settings d))"
  define ws where "ws = workspaces_ordered d"
  define its where "its = sort_key (\<lambda>(i, w, p, _). (w, p, i)) (items d)"
  have j: "snapshot_json d False = document_json (map setting_json ss) (map workspace_json ws) (map item_json its)"
    by (simp add: snapshot_json_def ss_def ws_def its_def)
  have rows: "map (setting_row \<circ> setting_json) ss = ss"
    "map (workspace_row \<circ> workspace_json) ws = ws"
    "map (item_row \<circ> item_json) its = its"
  proof -
    show "map (setting_row \<circ> setting_json) ss = ss" by (simp add: comp_def)
    have "0 \<le> fst r" if "r \<in> set ws" for r
      using that assms by (force simp: ws_def workspaces_ordered_def db_keys_ok_def)
    then show "map (workspace_row \<circ> workspace_json) ws = ws" by (simp add: map_idI)
    have "0 \<le> fst r \<and> 0 \<le> fst (snd r)" if "r \<in> set its" for r
      using that assms unfolding its_def db_keys_ok_def set_sort
      by (meson image_eqI image_subset_iff less_imp_le)
    then show "map (item_row \<circ> item_json) its = its" by (simp add: map_idI)
  qed
  have m: "mset ss = mset (filter (\<lambda>r. \<not> local_state (fst r)) (settings d))"
    "mset ws = mset (workspaces d)" "mset its = mset (items d)"
    by (simp_all add: ss_def ws_def its_def workspaces_ordered_def)
  have dist: "distinct (map fst ss)" "distinct (map fst ws)" "distinct (map fst its)"
    using assms by (auto simp: ss_def ws_def its_def workspaces_ordered_def db_keys_ok_def
        intro: distinct_map_filter)
  have fk: "fst ` snd ` set its \<subseteq> fst ` set ws"
  proof -
    have "set its = set (items d)" "set ws = set (workspaces d)"
      using m by (auto dest: mset_eq_setD)
    with assms show ?thesis by (simp add: db_keys_ok_def)
  qed
  show ?thesis
  proof (intro exI conjI)
    show "insert_settings (snapshot_json d False) empty_db = Some (empty_db\<lparr>settings := ss\<rparr>)"
      using insert_all_settings [of empty_db ss] dist
      by (simp add: insert_settings_def j json_field rows empty_db_def)
    show "insert_workspaces (snapshot_json d False) (empty_db\<lparr>settings := ss\<rparr>)
        = Some (empty_db\<lparr>settings := ss, workspaces := ws\<rparr>)"
      using insert_all_workspaces [of "empty_db\<lparr>settings := ss\<rparr>" ws] dist
      by (simp add: insert_workspaces_def j json_field rows empty_db_def)
    show "insert_items (snapshot_json d False) (empty_db\<lparr>settings := ss, workspaces := ws\<rparr>)
        = Some (empty_db\<lparr>settings := ss, workspaces := ws, items := its\<rparr>)"
      using insert_all_items [of "empty_db\<lparr>settings := ss, workspaces := ws\<rparr>" its] dist fk
      by (simp add: insert_items_def j json_field rows empty_db_def)
  qed (use m in simp_all)
qed

lemma fold_upsert:
  "settings (fold (\<lambda>(k, v). upsert_setting k v) rs d) = AList.updates (map fst rs) (map snd rs) (settings d)
   \<and> workspaces (fold (\<lambda>(k, v). upsert_setting k v) rs d) = workspaces d
   \<and> items (fold (\<lambda>(k, v). upsert_setting k v) rs d) = items d"
  by (induction rs arbitrary: d) (auto simp: upsert_setting_def split: prod.splits)

lemma map_of_mset: "distinct (map fst xs) \<Longrightarrow> mset xs = mset ys \<Longrightarrow> map_of xs = map_of ys"
proof -
  assume d: "distinct (map fst xs)" and m: "mset xs = mset ys"
  have "distinct (map fst ys)" using d by (simp only: distinct_map_mset [OF m])
  moreover have "set xs = set ys" using m by (rule mset_eq_setD)
  ultimately show ?thesis using d by (simp only: map_of_inject_set)
qed

lemma map_of_filter_key: "map_of (filter (\<lambda>r. P (fst r)) xs) k = (if P k then map_of xs k else None)"
  by (induction xs) auto

lemma local_after_shared:
  assumes d: "distinct (map fst (settings d))"
    and ss: "mset ss = mset (filter (\<lambda>r. \<not> local_state (fst r)) (settings d))"
    and e: "settings e = ss"
  shows "map_of (settings (replace_settings (snapshot_json d True) e)) = map_of (settings d)
    \<and> local_document_ok (snapshot_json d True)"
proof -
  define ls where "ls = sort_key setting_order (filter (\<lambda>r. local_state (fst r)) (settings d))"
  have ls: "mset ls = mset (filter (\<lambda>r. local_state (fst r)) (settings d))" by (simp add: ls_def)
  have dl: "distinct (map fst ls)"
    using d by (simp add: ls_def distinct_map_filter)
  have ds: "distinct (map fst ss)"
  proof -
    have "distinct (map fst (filter (\<lambda>r. \<not> local_state (fst r)) (settings d)))"
      using d by (rule distinct_map_filter)
    then show ?thesis by (simp only: distinct_map_mset [OF ss])
  qed
  have j: "snapshot_json d True = document_json (map setting_json ls) [] []"
    by (simp only: snapshot_json_def ls_def if_True)
  have rows: "map setting_row (array_field ''settings'' (snapshot_json d True)) = ls"
    by (simp add: j json_field comp_def)
  have "map_of (rev ls) = map_of ls"
    by (rule map_of_mset) (use dl distinct_rev [of "map fst ls"] in \<open>auto simp: rev_map\<close>)
  moreover have "settings (replace_settings (snapshot_json d True) e) = AList.updates (map fst ls) (map snd ls) ss"
    using fold_upsert [of ls e] e by (simp add: replace_settings_def rows)
  ultimately have "map_of (settings (replace_settings (snapshot_json d True) e)) = map_of ss ++ map_of ls"
    by (simp only: updates_conv' map_upds_def zip_map_fst_snd)
  also have "\<dots> = map_of (settings d)"
  proof
    fix k
    have "map_of ls k = map_of (filter (\<lambda>r. local_state (fst r)) (settings d)) k"
      using map_of_mset [OF dl ls] by simp
    moreover have "map_of ss k = map_of (filter (\<lambda>r. \<not> local_state (fst r)) (settings d)) k"
      using map_of_mset [OF ds ss] by simp
    ultimately show "(map_of ss ++ map_of ls) k = map_of (settings d) k"
      by (simp add: map_add_def map_of_filter_key [of local_state]
          map_of_filter_key [of "\<lambda>k. \<not> local_state k"] split: option.splits)
  qed
  finally have 1: "map_of (settings (replace_settings (snapshot_json d True) e)) = map_of (settings d)" .
  have "list_all (\<lambda>r. local_state (fst r)) ls"
    by (simp add: ls_def list_all_iff)
  then have "local_document_ok (snapshot_json d True)"
    using dl by (simp add: local_document_ok_def j json_field list.pred_map comp_def)
  with 1 show ?thesis ..
qed

subsection \<open>The snapshot passes the checks of the reader\<close>

lemma code_points_digits: "list_all is_digit s \<Longrightarrow> sql_length s = length s"
proof -
  have "\<not> is_high c" if "is_digit c" for c
    using that by (auto simp: is_digit_def is_high_def word_le_nat_alt)
  then show "list_all is_digit s \<Longrightarrow> sql_length s = length s"
    unfolding sql_length_def by (induction s rule: code_points.induct) auto
qed

lemma digits_text_ok: "list_all is_digit s \<Longrightarrow> text_ok s"
proof -
  have d: "\<not> is_high c \<and> \<not> is_low c \<and> c \<noteq> 0" if "is_digit c" for c
    using that by (auto simp: is_digit_def is_high_def is_low_def word_le_nat_alt)
  have "list_all is_digit s \<Longrightarrow> utf16_ok s"
    by (induction s rule: utf16_ok.induct) (auto dest: d)
  moreover have "list_all is_digit s \<Longrightarrow> 0 \<notin> set s"
    using d by (auto simp: list_all_iff)
  ultimately show "list_all is_digit s \<Longrightarrow> text_ok s" by (simp add: text_ok_def)
qed

lemma digit_val_bounds: "is_digit c \<Longrightarrow> 0 \<le> digit_val c \<and> digit_val c \<le> 9"
  unfolding is_digit_def digit_val_def word_le_def by simp

lemma digits_val_bounds: "list_all is_digit s \<Longrightarrow> 0 \<le> digits_val s \<and> digits_val s < 10 ^ length s"
proof (induction s)
  case (Cons c s)
  then have "digits_val s < 10 ^ length s" "0 \<le> digits_val s" "0 \<le> digit_val c" "digit_val c \<le> 9"
    using digit_val_bounds [of c] by auto
  moreover have "digit_val c * 10 ^ length s \<le> 9 * 10 ^ length s"
    using \<open>digit_val c \<le> 9\<close> by (intro mult_right_mono) auto
  moreover have "0 \<le> digit_val c * 10 ^ length s" using \<open>0 \<le> digit_val c\<close> by simp
  moreover have "(10 :: int) ^ length (c # s) = 10 * 10 ^ length s" by simp
  ultimately show ?case unfolding digits_val_Cons by linarith
qed (simp add: digits_val_def)

lemma digits_val_lex:
  "list_all is_digit s \<Longrightarrow> list_all is_digit t \<Longrightarrow> length s = length t \<Longrightarrow> digits_val s \<le> digits_val t \<Longrightarrow> s \<le> t"
proof (induction s arbitrary: t)
  case (Cons c s)
  then obtain d u where t: "t = d # u" "length s = length u" by (cases t) auto
  have "digit_val c \<le> digit_val d"
  proof (rule ccontr)
    assume "\<not> digit_val c \<le> digit_val d"
    then have "(digit_val d + 1) * 10 ^ length s \<le> digit_val c * 10 ^ length s"
      by (intro mult_right_mono) auto
    with Cons.prems t digits_val_bounds [of s] digits_val_bounds [of u] show False
      by (simp add: digits_val_Cons algebra_simps)
  qed
  then have "uint c \<le> uint d" by (simp add: digit_val_def)
  then consider "c < d" | "c = d" by (metis order_le_less word_le_def)
  then show ?case
  proof cases
    case 2
    with Cons t show ?thesis by (simp add: digits_val_Cons)
  qed (simp add: t)
qed simp

lemma dec_digits: "0 \<le> i \<Longrightarrow> list_all is_digit (dec i)"
  by (simp add: dec_def)

lemma id_text_ok_dec:
  assumes "0 < i" "i \<le> LLONG_MAX"
  shows "id_text_ok (dec i) \<and> text_ok (dec i)"
proof -
  have d: "list_all is_digit (dec i)" using assms by (simp add: dec_digits)
  have l: "length (dec i) \<le> 19"
    using length_dec_nat_le [of 19 "nat i"] assms by (simp add: dec_def LLONG_MAX_def nat_less_iff)
  have max: "list_all is_digit (W ''9223372036854775807'') \<and> digits_val (W ''9223372036854775807'') = LLONG_MAX"
    by (simp add: W_Cons digits_val_Cons digit_val_def is_digit_def LLONG_MAX_def digits_val_def)
  have "dec i \<le> W ''9223372036854775807''" if "length (dec i) = 19"
    by (rule digits_val_lex) (use d max that assms in simp_all)
  moreover obtain c t where "dec i = c # t" "49 \<le> c" "c \<le> 57" using dec_head [OF assms(1)] by blast
  ultimately show ?thesis
    using d l digits_text_ok [OF d] code_points_digits [OF d]
    unfolding id_text_ok_def by (cases "length (dec i) = 19") auto
qed

lemma snapshot_valid:
  assumes keys: "db_keys_ok d" and lim: "db_within d"
  shows "document_valid (snapshot_json d local)"
proof -
  define ss where "ss = sort_key setting_order (filter (\<lambda>r. local_state (fst r) = local) (settings d))"
  define ws where "ws = (if local then [] else workspaces_ordered d)"
  define its where "its = (if local then [] else sort_key (\<lambda>(i, w, p, _). (w, p, i)) (items d))"
  have j: "snapshot_json d local =
      document_json (map setting_json ss) (map workspace_json ws) (map item_json its)"
    by (cases local) (simp_all add: snapshot_json_def ss_def ws_def its_def)
  have s: "setting_valid (setting_json r) \<and> keys_unique (setting_json r)
      \<and> list_all text_ok (json_texts (setting_json r))" if "r \<in> set ss" for r
  proof -
    obtain sc se k v where r: "r = ((sc, se, k), v)" by (metis prod.exhaust)
    have "r \<in> set (settings d)" using that by (simp add: ss_def)
    with lim r show ?thesis
      by (auto simp: db_within_def setting_valid_def setting_json_def is_object_of_def text_field_def member_of_def)
  qed
  have w: "workspace_valid (workspace_json r) \<and> keys_unique (workspace_json r)
      \<and> list_all text_ok (json_texts (workspace_json r))" if "r \<in> set ws" for r
  proof -
    obtain i p n where r: "r = (i, p, n)" by (metis prod.exhaust)
    have m: "r \<in> set (workspaces d)" using that by (auto simp: ws_def workspaces_ordered_def split: if_splits)
    with keys r have "0 < i \<and> i \<le> LLONG_MAX" by (force simp: db_keys_ok_def)
    then have "id_text_ok (dec i)" "text_ok (dec i)" using id_text_ok_dec [of i] by auto
    with lim r m show ?thesis
      by (auto simp: db_within_def workspace_valid_def workspace_json_def is_object_of_def text_field_def
          int_field_def member_of_def)
  qed
  have it: "item_valid (item_json r) \<and> keys_unique (item_json r)
      \<and> list_all text_ok (json_texts (item_json r))" if "r \<in> set its" for r
  proof -
    obtain i v p n t where r: "r = (i, v, p, n, t)" by (metis prod.exhaust)
    have m: "r \<in> set (items d)" using that by (auto simp: its_def split: if_splits)
    with keys r have "0 < i \<and> i \<le> LLONG_MAX" "0 < v \<and> v \<le> LLONG_MAX"
      unfolding db_keys_ok_def by (force, force)
    then have "id_text_ok (dec i)" "text_ok (dec i)" "id_text_ok (dec v)" "text_ok (dec v)"
      using id_text_ok_dec [of i] id_text_ok_dec [of v] by auto
    with lim r m show ?thesis
      by (auto simp: db_within_def item_valid_def item_json_def is_object_of_def text_field_def
          int_field_def member_of_def)
  qed
  have len: "length ss \<le> 4096" "length ws \<le> 8" "length its \<le> 160"
    using lim le_trans [OF length_filter_le [of "\<lambda>r. local_state (fst r) = local" "settings d"], of 4096]
    by (auto simp: ss_def ws_def its_def workspaces_ordered_def db_within_def)
  have app: "text_ok (W ''NOVA Desktop'')"
    by (simp add: text_ok_def W_Cons is_high_def is_low_def)
  have texts: "list_all text_ok (json_texts (snapshot_json d local))"
    using s w it app by (auto simp: j document_json_def list_all_iff)
  then have "list_all (\<lambda>t. 0 \<notin> set t) (json_texts (snapshot_json d local))"
    "list_all utf16_ok (json_texts (snapshot_json d local))"
    by (auto simp: text_ok_def list_all_iff)
  moreover have "keys_unique (snapshot_json d local)"
    using s w it by (auto simp: j document_json_def list_all_iff)
  moreover have "is_object_of 6 (snapshot_json d local)" "int_field ''version'' (\<lambda>i. i = 1) (snapshot_json d local)"
    "text_field ''application'' (\<lambda>t. t = W ''NOVA Desktop'') (snapshot_json d local)"
    "is_array_field ''settings'' 4096 (snapshot_json d local)"
    "is_array_field ''workspaces'' 8 (snapshot_json d local)"
    "is_array_field ''items'' 160 (snapshot_json d local)"
    using len by (simp_all add: j is_object_of_def int_field_def text_field_def is_array_field_def member_of_def
        document_json_def)
  ultimately have "metadata_valid (snapshot_json d local)"
    by (simp add: metadata_valid_def j json_field)
  with s w it show ?thesis
    using \<open>list_all utf16_ok (json_texts (snapshot_json d local))\<close>
    by (simp add: document_valid_def j json_field list_all_iff)
qed

end
