(* ===== verification/Effects.thy ===== *)
theory Effects
  imports Prelude "HOL-Library.State_Monad"
begin

text \<open>
  Commands that return a value and change a state: the state monad of the library, the C shapes the
  code builds conditions from (\<open>a && b\<close>, \<open>ok = f() && ok\<close>, a loop that stops at the first failure)
  and a weakest-precondition calculus for them. Every call of the operating system, of SQLite or of a
  network library changes a \<open>world\<close> of unknown type through a function that is a parameter.
\<close>

abbreviation ret :: "'a \<Rightarrow> ('s, 'a) state" where "ret \<equiv> State_Monad.return"

definition gets :: "('s \<Rightarrow> 'a) \<Rightarrow> ('s, 'a) state" where "gets f = State (\<lambda>s. (f s, s))"
definition modify :: "('s \<Rightarrow> 's) \<Rightarrow> ('s, unit) state" where "modify f = State (\<lambda>s. ((), f s))"

subsection \<open>Conditions\<close>

definition and_then :: "('s, bool) state \<Rightarrow> ('s, bool) state \<Rightarrow> ('s, bool) state" where
  \<comment> \<open>\<open>a && b\<close>: \<open>b\<close> runs only after a success of \<open>a\<close>\<close>
  "and_then a b = do { x \<leftarrow> a; if x then b else ret False }"

fun all_ok :: "('s, bool) state list \<Rightarrow> ('s, bool) state" where
  \<comment> \<open>\<open>c1 && c2 && ...\<close>, and \<open>for(...; ok; ...) ok = ci\<close>\<close>
  "all_ok [] = ret True"
| "all_ok (c # cs) = and_then c (all_ok cs)"

fun each_ok :: "bool \<Rightarrow> ('s, bool) state list \<Rightarrow> ('s, bool) state" where
  \<comment> \<open>\<open>ok = c1 && ok; ok = c2 && ok; ...\<close>: every command runs\<close>
  "each_ok ok [] = ret ok"
| "each_ok ok (c # cs) = do { x \<leftarrow> c; each_ok (x \<and> ok) cs }"

subsection \<open>Weakest preconditions\<close>

named_theorems wp \<open>weakest preconditions\<close>

definition wp :: "('s, 'a) state \<Rightarrow> ('a \<Rightarrow> 's \<Rightarrow> bool) \<Rightarrow> 's \<Rightarrow> bool" where
  "wp c Q s = (case run_state c s of (r, s') \<Rightarrow> Q r s')"

lemma wp_return [wp]: "wp (ret x) Q = Q x"
  by (rule ext) (simp add: wp_def)

lemma wp_bind [wp]: "wp (c \<bind> f) Q = wp c (\<lambda>r. wp (f r) Q)"
  by (rule ext) (simp add: wp_def split: prod.splits)

lemma wp_gets [wp]: "wp (gets f) Q s = Q (f s) s"
  by (simp add: wp_def gets_def)

lemma wp_modify [wp]: "wp (modify f) Q s = Q () (f s)"
  by (simp add: wp_def modify_def)

lemma wp_if [wp]: "wp (if b then c else d) Q s = (if b then wp c Q s else wp d Q s)"
  by simp

lemma wp_and_then [wp]: "wp (and_then a b) Q s = wp a (\<lambda>x. if x then wp b Q else Q False) s"
  by (simp add: and_then_def wp wp_def split: prod.splits)

lemma wp_State [wp]: "wp (State f) Q s = (case f s of (r, s') \<Rightarrow> Q r s')"
  by (simp add: wp_def)

lemma wp_mono: "wp c P s \<Longrightarrow> (\<And>r s'. P r s' \<Longrightarrow> Q r s') \<Longrightarrow> wp c Q s"
  by (auto simp: wp_def split: prod.splits)

lemma wp_run: "run_state c s = (r, s') \<Longrightarrow> wp c Q s = Q r s'"
  by (simp add: wp_def)

lemma wpI: "(\<And>r s'. run_state c s = (r, s') \<Longrightarrow> Q r s') \<Longrightarrow> wp c Q s"
  by (cases "run_state c s") (simp add: wp_def)

lemma wpD: "wp c Q s \<Longrightarrow> run_state c s = (r, s') \<Longrightarrow> Q r s'"
  by (simp add: wp_def)

lemma wp_all_ok_inv:
  assumes "\<And>c s. c \<in> set cs \<Longrightarrow> I s \<Longrightarrow> wp c (\<lambda>r s'. I s') s" and "I s"
  shows "wp (all_ok cs) (\<lambda>r s'. I s') s"
  using assms
proof (induction cs arbitrary: s)
  case (Cons c cs)
  have "wp c (\<lambda>r s'. I s') s" using Cons.prems by simp
  then show ?case
    unfolding all_ok.simps wp_and_then
    by (rule wp_mono) (use Cons in auto)
qed (simp add: wp)

lemma wp_each_ok_inv:
  assumes "\<And>c s. c \<in> set cs \<Longrightarrow> I s \<Longrightarrow> wp c (\<lambda>r s'. I s') s" and "I s"
  shows "wp (each_ok ok cs) (\<lambda>r s'. I s') s"
  using assms
proof (induction cs arbitrary: s ok)
  case (Cons c cs)
  have "wp c (\<lambda>r s'. I s') s" using Cons.prems by simp
  then show ?case
    unfolding each_ok.simps wp_bind
    by (rule wp_mono) (use Cons in auto)
qed (simp add: wp)

lemma wp_each_ok:
  "wp (each_ok ok cs) Q s =
     (case cs of [] \<Rightarrow> Q ok s | c # cs' \<Rightarrow> wp c (\<lambda>x. wp (each_ok (x \<and> ok) cs') Q) s)"
  by (cases cs) (simp_all add: wp)

lemma each_ok_False: "wp (each_ok False cs) Q s \<Longrightarrow> wp (each_ok False cs) (\<lambda>r s'. \<not> r \<and> Q r s') s"
proof (induction cs arbitrary: s)
  case (Cons c cs)
  then show ?case by (auto simp: wp intro: wp_mono)
qed (simp add: wp)

lemma wp_and_bool [wp]: "wp (each_ok ok []) Q s = Q ok s"
  by (simp add: wp)

lemma wp_conj: "wp c P s \<Longrightarrow> wp c Q s \<Longrightarrow> wp c (\<lambda>r s'. P r s' \<and> Q r s') s"
  by (auto simp: wp_def split: prod.splits)

lemma wp_conj_iff: "wp c (\<lambda>r s'. P r s' \<and> Q r s') s \<longleftrightarrow> wp c P s \<and> wp c Q s"
  by (auto simp: wp_def split: prod.splits)

lemma wp_true [simp]: "wp c (\<lambda>r s'. True) s"
  by (simp add: wp_def split: prod.splits)

lemma run_bindE:
  assumes "run_state (c \<bind> f) s = (r, s')"
  obtains x t where "run_state c s = (x, t)" "run_state (f x) t = (r, s')"
  using assms by (auto split: prod.splits)

subsection \<open>What a command leaves alone\<close>

named_theorems keeps \<open>commands that leave a part of the state alone\<close>

definition keeps :: "('s \<Rightarrow> 'b) \<Rightarrow> ('s, 'a) state \<Rightarrow> bool" where
  "keeps f c \<longleftrightarrow> (\<forall>s. wp c (\<lambda>r s'. f s' = f s) s)"

lemma keepsD: "keeps f c \<Longrightarrow> run_state c s = (r, s') \<Longrightarrow> f s' = f s"
  unfolding keeps_def using wpD [of c] by blast

lemma keeps_ret [keeps]: "keeps f (ret x)"
  and keeps_gets [keeps]: "keeps f (gets g)"
  and keeps_modify: "(\<And>s. f (h s) = f s) \<Longrightarrow> keeps f (modify h)"
  by (simp_all add: keeps_def wp)

lemma keeps_bind [keeps]: "keeps f c \<Longrightarrow> (\<And>x. keeps f (g x)) \<Longrightarrow> keeps f (c \<bind> g)"
  by (simp add: keeps_def wp_def split_beta del: split_paired_All)

lemma keeps_if [keeps]: "keeps f c \<Longrightarrow> keeps f d \<Longrightarrow> keeps f (if b then c else d)"
  and keeps_prod [keeps]: "(\<And>x y. keeps f (g x y)) \<Longrightarrow> keeps f (case p of (x, y) \<Rightarrow> g x y)"
  and keeps_option [keeps]: "keeps f c \<Longrightarrow> (\<And>x. keeps f (h x)) \<Longrightarrow> keeps f (case q of None \<Rightarrow> c | Some x \<Rightarrow> h x)"
  and keeps_list [keeps]: "keeps f c \<Longrightarrow> (\<And>x xs. keeps f (k x xs)) \<Longrightarrow> keeps f (case zs of [] \<Rightarrow> c | x # xs \<Rightarrow> k x xs)"
  by (simp_all split: prod.splits option.splits list.splits)

lemma keeps_and_then [keeps]: "keeps f a \<Longrightarrow> keeps f b \<Longrightarrow> keeps f (and_then a b)"
  unfolding and_then_def by (intro keeps)

lemma keeps_all_ok [keeps]: "list_all (keeps f) cs \<Longrightarrow> keeps f (all_ok cs)"
  by (induction cs) (auto intro: keeps)

lemma keeps_each_ok [keeps]: "list_all (keeps f) cs \<Longrightarrow> keeps f (each_ok ok cs)"
  by (induction cs arbitrary: ok) (auto intro: keeps)

subsection \<open>What a command returns\<close>

definition yields :: "('a \<Rightarrow> bool) \<Rightarrow> ('s, 'a) state \<Rightarrow> bool" where
  "yields P c \<longleftrightarrow> (\<forall>s. wp c (\<lambda>r s'. P r) s)"

named_theorems yields \<open>commands whose result has a property\<close>

lemma yieldsD: "yields P c \<Longrightarrow> run_state c s = (r, s') \<Longrightarrow> P r"
  unfolding yields_def using wpD [of c] by blast

lemma yields_ret [yields]: "P x \<Longrightarrow> yields P (ret x)"
  by (simp add: yields_def wp)

lemma yields_bind [yields]: "(\<And>x. yields P (g x)) \<Longrightarrow> yields P (c \<bind> g)"
  by (simp add: yields_def wp_def split_beta)

lemma yields_then: "yields Q c \<Longrightarrow> (\<And>x. Q x \<Longrightarrow> yields P (g x)) \<Longrightarrow> yields P (c \<bind> g)"
  by (simp add: yields_def wp_def split_beta del: split_paired_All)

lemma yields_if [yields]: "(b \<Longrightarrow> yields P c) \<Longrightarrow> (\<not> b \<Longrightarrow> yields P d) \<Longrightarrow> yields P (if b then c else d)"
  and yields_prod [yields]: "(\<And>x y. p = (x, y) \<Longrightarrow> yields P (g x y)) \<Longrightarrow> yields P (case p of (x, y) \<Rightarrow> g x y)"
  and yields_option [yields]:
    "(q = None \<Longrightarrow> yields P c) \<Longrightarrow> (\<And>x. q = Some x \<Longrightarrow> yields P (h x)) \<Longrightarrow> yields P (case q of None \<Rightarrow> c | Some x \<Rightarrow> h x)"
  and yields_bool [yields]: "(b \<Longrightarrow> yields P c) \<Longrightarrow> (\<not> b \<Longrightarrow> yields P d) \<Longrightarrow> yields P (case b of True \<Rightarrow> c | False \<Rightarrow> d)"
  and yields_let [yields]: "(\<And>x. x = a \<Longrightarrow> yields P (f x)) \<Longrightarrow> yields P (let x = a in f x)"
  by (simp_all split: prod.splits option.splits bool.splits)

lemma yields_mono: "yields P c \<Longrightarrow> (\<And>r. P r \<Longrightarrow> Q r) \<Longrightarrow> yields Q c"
  unfolding yields_def by (blast intro: wp_mono)

subsection \<open>Conditions of a part of a command\<close>

lemma wp_any: "(\<And>r s'. Q r s') \<Longrightarrow> wp c Q s"
  by (rule wpI)

lemma wp_keeps: "keeps f c \<Longrightarrow> wp c (\<lambda>r s'. f s' = f s \<longrightarrow> Q r s') s \<Longrightarrow> wp c Q s"
  unfolding keeps_def wp_def by (auto split: prod.splits)

lemma wp_yields: "yields P c \<Longrightarrow> wp c (\<lambda>r s'. P r \<longrightarrow> Q r s') s \<Longrightarrow> wp c Q s"
  unfolding yields_def wp_def by (auto split: prod.splits)

end
