(* ===== verification/Win_Files.thy ===== *)
theory Win_Files
  imports Effects
begin

text \<open>
  The Windows file calls the program makes, as parameters: a record of functions on an unknown world.
  What the program relies on is the predicate \<open>files_ok\<close>: how a call that succeeds changes what the
  paths hold, that a call that fails leaves them alone (a failed write or copy may leave anything at
  the path it was writing), and that the nonces of temporary names do not repeat. It is stated over an
  observation \<open>disk\<close> of the world, which the program itself never uses. \<open>sim_files\<close> is a concrete
  instance, a map from paths to bytes with a schedule of failures, and satisfies it.
\<close>

subsection \<open>The calls\<close>

datatype file_attributes = AttributesPresent | AttributesNotFound | AttributesPathNotFound | AttributesFailed

datatype file_read =
    ReadNotFound                              \<comment> \<open>\<open>CreateFileW\<close> fails with \<open>ERROR_FILE_NOT_FOUND\<close>\<close>
  | ReadFailed                                \<comment> \<open>it fails with another error\<close>
  | ReadOpened "nat option" "byte list option"  \<comment> \<open>\<open>GetFileSizeEx\<close> and, of that size, \<open>ReadFile\<close>\<close>

datatype file_copy = Copied | CopyExists | CopyNotFound | CopyFailed

record 'w win_files =
  f_attributes :: "wstr \<Rightarrow> 'w \<Rightarrow> file_attributes \<times> 'w"
  f_read :: "wstr \<Rightarrow> 'w \<Rightarrow> file_read \<times> 'w"
  f_create_new :: "wstr \<Rightarrow> 'w \<Rightarrow> bool \<times> 'w"
  f_write :: "wstr \<Rightarrow> byte list \<Rightarrow> 'w \<Rightarrow> nat option \<times> 'w"   \<comment> \<open>the bytes written, if it succeeds\<close>
  f_flush :: "wstr \<Rightarrow> 'w \<Rightarrow> bool \<times> 'w"
  f_delete :: "wstr \<Rightarrow> 'w \<Rightarrow> bool \<times> 'w"
  f_copy_new :: "wstr \<Rightarrow> wstr \<Rightarrow> 'w \<Rightarrow> file_copy \<times> 'w"           \<comment> \<open>\<open>CopyFileW(a,b,TRUE)\<close>\<close>
  f_replace :: "wstr \<Rightarrow> wstr \<Rightarrow> wstr \<Rightarrow> 'w \<Rightarrow> bool \<times> 'w"       \<comment> \<open>\<open>ReplaceFileW\<close>\<close>
  f_move :: "wstr \<Rightarrow> wstr \<Rightarrow> bool \<Rightarrow> 'w \<Rightarrow> bool \<times> 'w"          \<comment> \<open>\<open>MoveFileExW\<close>; the flag replaces\<close>
  f_nonce :: "'w \<Rightarrow> nat \<times> 'w"                               \<comment> \<open>\<open>sqlite3_randomness\<close>\<close>
  f_pid :: wstr                                             \<comment> \<open>\<open>GetCurrentProcessId\<close>, printed\<close>

subsection \<open>What the program relies on\<close>

definition touches :: "wstr set \<Rightarrow> (wstr \<Rightarrow> byte list option) \<Rightarrow> (wstr \<Rightarrow> byte list option) \<Rightarrow> bool" where
  "touches ps d d' \<longleftrightarrow> (\<forall>p. p \<notin> ps \<longrightarrow> d' p = d p)"

definition attributes_ok ::
    "('w, 'z) win_files_scheme \<Rightarrow> ('w \<Rightarrow> wstr \<Rightarrow> byte list option) \<Rightarrow> ('w \<Rightarrow> nat set) \<Rightarrow> bool" where
  "attributes_ok F disk used \<longleftrightarrow> (\<forall>w p r w'. f_attributes F p w = (r, w') \<longrightarrow>
     disk w' = disk w \<and> used w' = used w
     \<and> (r = AttributesNotFound \<longrightarrow> disk w p = None))"

definition read_ok ::
    "('w, 'z) win_files_scheme \<Rightarrow> ('w \<Rightarrow> wstr \<Rightarrow> byte list option) \<Rightarrow> ('w \<Rightarrow> nat set) \<Rightarrow> bool" where
  "read_ok F disk used \<longleftrightarrow> (\<forall>w p r w'. f_read F p w = (r, w') \<longrightarrow>
     disk w' = disk w \<and> used w' = used w
     \<and> (case r of ReadNotFound \<Rightarrow> disk w p = None | ReadFailed \<Rightarrow> True
        | ReadOpened sz data \<Rightarrow> (\<exists>c. disk w p = Some c \<and> (sz = None \<or> sz = Some (length c))
             \<and> (data = None \<or> data = Some c))))"

definition create_ok ::
    "('w, 'z) win_files_scheme \<Rightarrow> ('w \<Rightarrow> wstr \<Rightarrow> byte list option) \<Rightarrow> ('w \<Rightarrow> nat set) \<Rightarrow> bool" where
  "create_ok F disk used \<longleftrightarrow> (\<forall>w p r w'. f_create_new F p w = (r, w') \<longrightarrow>
     used w' = used w
     \<and> (if r then disk w p = None \<and> disk w' = (disk w)(p \<mapsto> []) else disk w' = disk w))"

definition write_ok ::
    "('w, 'z) win_files_scheme \<Rightarrow> ('w \<Rightarrow> wstr \<Rightarrow> byte list option) \<Rightarrow> ('w \<Rightarrow> nat set) \<Rightarrow> bool" where
  "write_ok F disk used \<longleftrightarrow> (\<forall>w p bs r w'. f_write F p bs w = (r, w') \<longrightarrow>
     used w' = used w \<and> touches {p} (disk w) (disk w')
     \<and> (r = Some (length bs) \<and> disk w p = Some [] \<longrightarrow> disk w' p = Some bs))"

definition flush_ok ::
    "('w, 'z) win_files_scheme \<Rightarrow> ('w \<Rightarrow> wstr \<Rightarrow> byte list option) \<Rightarrow> ('w \<Rightarrow> nat set) \<Rightarrow> bool" where
  "flush_ok F disk used \<longleftrightarrow> (\<forall>w p r w'. f_flush F p w = (r, w') \<longrightarrow>
     disk w' = disk w \<and> used w' = used w)"

definition delete_ok ::
    "('w, 'z) win_files_scheme \<Rightarrow> ('w \<Rightarrow> wstr \<Rightarrow> byte list option) \<Rightarrow> ('w \<Rightarrow> nat set) \<Rightarrow> bool" where
  "delete_ok F disk used \<longleftrightarrow> (\<forall>w p r w'. f_delete F p w = (r, w') \<longrightarrow>
     used w' = used w
     \<and> disk w' = (if r then (disk w)(p := None) else disk w))"

definition copy_ok ::
    "('w, 'z) win_files_scheme \<Rightarrow> ('w \<Rightarrow> wstr \<Rightarrow> byte list option) \<Rightarrow> ('w \<Rightarrow> nat set) \<Rightarrow> bool" where
  "copy_ok F disk used \<longleftrightarrow> (\<forall>w a b r w'. f_copy_new F a b w = (r, w') \<longrightarrow>
     used w' = used w
     \<and> (case r of Copied \<Rightarrow> disk w b = None \<and> (\<exists>c. disk w a = Some c \<and> disk w' = (disk w)(b \<mapsto> c))
        | CopyExists \<Rightarrow> disk w' = disk w | CopyNotFound \<Rightarrow> disk w' = disk w \<and> disk w a = None
        | CopyFailed \<Rightarrow> touches {b} (disk w) (disk w')))"

definition replace_ok ::
    "('w, 'z) win_files_scheme \<Rightarrow> ('w \<Rightarrow> wstr \<Rightarrow> byte list option) \<Rightarrow> ('w \<Rightarrow> nat set) \<Rightarrow> bool" where
  "replace_ok F disk used \<longleftrightarrow> (\<forall>w p t b r w'. f_replace F p t b w = (r, w') \<longrightarrow>
     used w' = used w
     \<and> (if r then (\<exists>old new. disk w p = Some old \<and> disk w t = Some new
             \<and> disk w' = (disk w)(t := None, b \<mapsto> old, p \<mapsto> new))
        else disk w' = disk w))"

definition move_ok ::
    "('w, 'z) win_files_scheme \<Rightarrow> ('w \<Rightarrow> wstr \<Rightarrow> byte list option) \<Rightarrow> ('w \<Rightarrow> nat set) \<Rightarrow> bool" where
  "move_ok F disk used \<longleftrightarrow> (\<forall>w a b replace r w'. f_move F a b replace w = (r, w') \<longrightarrow>
     used w' = used w
     \<and> (if r then (\<exists>c. disk w a = Some c \<and> (replace \<or> disk w b = None)
             \<and> disk w' = (disk w)(a := None, b \<mapsto> c))
        else disk w' = disk w))"

definition nonce_ok ::
    "('w, 'z) win_files_scheme \<Rightarrow> ('w \<Rightarrow> wstr \<Rightarrow> byte list option) \<Rightarrow> ('w \<Rightarrow> nat set) \<Rightarrow> bool" where
  "nonce_ok F disk used \<longleftrightarrow> (\<forall>w  r w'. f_nonce F w = (r, w') \<longrightarrow>
     disk w' = disk w \<and> r \<notin> used w \<and> used w' = insert r (used w))"

definition files_ok ::
    "('w, 'z) win_files_scheme \<Rightarrow> ('w \<Rightarrow> wstr \<Rightarrow> byte list option) \<Rightarrow> ('w \<Rightarrow> nat set) \<Rightarrow> bool" where
  "files_ok F disk used \<longleftrightarrow> attributes_ok F disk used
     \<and> read_ok F disk used
     \<and> create_ok F disk used
     \<and> write_ok F disk used
     \<and> flush_ok F disk used
     \<and> delete_ok F disk used
     \<and> copy_ok F disk used
     \<and> replace_ok F disk used
     \<and> move_ok F disk used
     \<and> nonce_ok F disk used"

lemma files_attributes:
  assumes "files_ok F disk used" and "f_attributes F p w = (r, w')"
  shows "disk w' = disk w \<and> used w' = used w
     \<and> (r = AttributesNotFound \<longrightarrow> disk w p = None)"
  using assms unfolding files_ok_def attributes_ok_def by blast

lemma files_read:
  assumes "files_ok F disk used" and "f_read F p w = (r, w')"
  shows "disk w' = disk w \<and> used w' = used w
     \<and> (case r of ReadNotFound \<Rightarrow> disk w p = None | ReadFailed \<Rightarrow> True
        | ReadOpened sz data \<Rightarrow> (\<exists>c. disk w p = Some c \<and> (sz = None \<or> sz = Some (length c))
             \<and> (data = None \<or> data = Some c)))"
  using assms unfolding files_ok_def read_ok_def by blast

lemma files_create:
  assumes "files_ok F disk used" and "f_create_new F p w = (r, w')"
  shows "used w' = used w
     \<and> (if r then disk w p = None \<and> disk w' = (disk w)(p \<mapsto> []) else disk w' = disk w)"
  using assms unfolding files_ok_def create_ok_def by blast

lemma files_write:
  assumes "files_ok F disk used" and "f_write F p bs w = (r, w')"
  shows "used w' = used w \<and> touches {p} (disk w) (disk w')
     \<and> (r = Some (length bs) \<and> disk w p = Some [] \<longrightarrow> disk w' p = Some bs)"
  using assms unfolding files_ok_def write_ok_def by blast

lemma files_flush:
  assumes "files_ok F disk used" and "f_flush F p w = (r, w')"
  shows "disk w' = disk w \<and> used w' = used w"
  using assms unfolding files_ok_def flush_ok_def by blast

lemma files_delete:
  assumes "files_ok F disk used" and "f_delete F p w = (r, w')"
  shows "used w' = used w
     \<and> disk w' = (if r then (disk w)(p := None) else disk w)"
  using assms unfolding files_ok_def delete_ok_def by blast

lemma files_copy:
  assumes "files_ok F disk used" and "f_copy_new F a b w = (r, w')"
  shows "used w' = used w
     \<and> (case r of Copied \<Rightarrow> disk w b = None \<and> (\<exists>c. disk w a = Some c \<and> disk w' = (disk w)(b \<mapsto> c))
        | CopyExists \<Rightarrow> disk w' = disk w | CopyNotFound \<Rightarrow> disk w' = disk w \<and> disk w a = None
        | CopyFailed \<Rightarrow> touches {b} (disk w) (disk w'))"
  using assms unfolding files_ok_def copy_ok_def by blast

lemma files_replace:
  assumes "files_ok F disk used" and "f_replace F p t b w = (r, w')"
  shows "used w' = used w
     \<and> (if r then (\<exists>old new. disk w p = Some old \<and> disk w t = Some new
             \<and> disk w' = (disk w)(t := None, b \<mapsto> old, p \<mapsto> new))
        else disk w' = disk w)"
  using assms unfolding files_ok_def replace_ok_def by blast

lemma files_move:
  assumes "files_ok F disk used" and "f_move F a b replace w = (r, w')"
  shows "used w' = used w
     \<and> (if r then (\<exists>c. disk w a = Some c \<and> (replace \<or> disk w b = None)
             \<and> disk w' = (disk w)(a := None, b \<mapsto> c))
        else disk w' = disk w)"
  using assms unfolding files_ok_def move_ok_def by blast

lemma files_nonce:
  assumes "files_ok F disk used" and "f_nonce F w = (r, w')"
  shows "disk w' = disk w \<and> r \<notin> used w \<and> used w' = insert r (used w)"
  using assms unfolding files_ok_def nonce_ok_def by blast

subsection \<open>An instance\<close>

type_synonym sim_world = "(wstr \<rightharpoonup> byte list) \<times> nat \<times> bool list"
  \<comment> \<open>the files, the next nonce, and for the calls to come whether each fails (afterwards none does)\<close>

definition sim_call :: "'r \<Rightarrow> (sim_world \<Rightarrow> 'r \<times> sim_world) \<Rightarrow> sim_world \<Rightarrow> 'r \<times> sim_world" where
  "sim_call failed f w = (case w of (d, n, []) \<Rightarrow> f w
     | (d, n, b # bs) \<Rightarrow> if b then (failed, (d, n, bs)) else f (d, n, bs))"

definition sim_files :: "sim_world win_files" where
  "sim_files = \<lparr>
     f_attributes = (\<lambda>p. sim_call AttributesFailed (\<lambda>(d, w).
        (case d p of None \<Rightarrow> AttributesNotFound | Some _ \<Rightarrow> AttributesPresent, (d, w)))),
     f_read = (\<lambda>p. sim_call ReadFailed (\<lambda>(d, w).
        (case d p of None \<Rightarrow> ReadNotFound | Some c \<Rightarrow> ReadOpened (Some (length c)) (Some c), (d, w)))),
     f_create_new = (\<lambda>p. sim_call False (\<lambda>(d, w). if d p = None then (True, (d(p \<mapsto> []), w)) else (False, (d, w)))),
     f_write = (\<lambda>p bs. sim_call None (\<lambda>(d, w).
        (case d p of None \<Rightarrow> (None, (d, w)) | Some c \<Rightarrow> (Some (length bs), (d(p \<mapsto> c @ bs), w))))),
     f_flush = (\<lambda>p. sim_call False (\<lambda>w. (True, w))),
     f_delete = (\<lambda>p. sim_call False (\<lambda>(d, w). if d p = None then (False, (d, w)) else (True, (d(p := None), w)))),
     f_copy_new = (\<lambda>a b. sim_call CopyFailed (\<lambda>(d, w).
        (case d a of None \<Rightarrow> (CopyNotFound, (d, w))
         | Some c \<Rightarrow> if d b = None then (Copied, (d(b \<mapsto> c), w)) else (CopyExists, (d, w))))),
     f_replace = (\<lambda>p t b. sim_call False (\<lambda>(d, w).
        (case (d p, d t) of (Some old, Some new) \<Rightarrow> (True, (d(t := None, b \<mapsto> old, p \<mapsto> new), w))
         | _ \<Rightarrow> (False, (d, w))))),
     f_move = (\<lambda>a b replace. sim_call False (\<lambda>(d, w).
        (case d a of None \<Rightarrow> (False, (d, w))
         | Some c \<Rightarrow> if replace \<or> d b = None then (True, (d(a := None, b \<mapsto> c), w)) else (False, (d, w))))),
     f_nonce = (\<lambda>(d, n, bs). (n, (d, Suc n, bs))),
     f_pid = W ''1''\<rparr>"

definition sim_used :: "sim_world \<Rightarrow> nat set" where
  "sim_used w = {..<fst (snd w)}"

lemmas sim_defs = sim_files_def sim_call_def sim_used_def touches_def

lemma sim_attributes: "attributes_ok sim_files fst sim_used"
  unfolding attributes_ok_def by (auto simp: sim_defs split: list.splits if_splits option.splits prod.splits)

lemma sim_read: "read_ok sim_files fst sim_used"
  unfolding read_ok_def by (auto simp: sim_defs split: list.splits if_splits option.splits prod.splits)

lemma sim_create: "create_ok sim_files fst sim_used"
  unfolding create_ok_def by (auto simp: sim_defs split: list.splits if_splits option.splits prod.splits)

lemma sim_write: "write_ok sim_files fst sim_used"
  unfolding write_ok_def by (auto simp: sim_defs split: list.splits if_splits option.splits prod.splits)

lemma sim_flush: "flush_ok sim_files fst sim_used"
  unfolding flush_ok_def by (auto simp: sim_defs split: list.splits if_splits option.splits prod.splits)

lemma sim_delete: "delete_ok sim_files fst sim_used"
  unfolding delete_ok_def by (auto simp: sim_defs split: list.splits if_splits option.splits prod.splits)

lemma sim_copy: "copy_ok sim_files fst sim_used"
  unfolding copy_ok_def by (auto simp: sim_defs split: list.splits if_splits option.splits prod.splits)

lemma sim_replace: "replace_ok sim_files fst sim_used"
  unfolding replace_ok_def by (auto simp: sim_defs split: list.splits if_splits option.splits prod.splits)

lemma sim_move: "move_ok sim_files fst sim_used"
  unfolding move_ok_def by (auto simp: sim_defs split: list.splits if_splits option.splits prod.splits)

lemma sim_nonce: "nonce_ok sim_files fst sim_used"
  unfolding nonce_ok_def by (auto simp: sim_defs split: list.splits if_splits option.splits prod.splits)

lemma sim_files_ok: "files_ok sim_files fst sim_used"
  unfolding files_ok_def by (intro conjI sim_attributes sim_read sim_create sim_write sim_flush sim_delete sim_copy sim_replace sim_move sim_nonce)

subsection \<open>Hexadecimal numbers\<close>

fun hex_nat :: "nat \<Rightarrow> wstr" where
  \<comment> \<open>what \<open>"%llx"\<close> prints\<close>
  "hex_nat n = (if n < 16 then [if n < 10 then 48 + of_nat n else 87 + of_nat n]
     else hex_nat (n div 16) @ [if n mod 16 < 10 then 48 + of_nat (n mod 16) else 87 + of_nat (n mod 16)])"

declare hex_nat.simps [simp del]

definition hex_val :: "wchar \<Rightarrow> nat" where
  "hex_val c = (if c < 58 then unat (c - 48) else unat (c - 87))"

lemma hex_val_digit:
  "n < 16 \<Longrightarrow> hex_val (if n < 10 then 48 + of_nat n else 87 + of_nat n) = n"
proof -
  assume n: "n < 16"
  then have "n \<in> set [0..<16]" by simp
  moreover have "list_all (\<lambda>n. hex_val (if n < 10 then 48 + of_nat n else 87 + of_nat n) = n) [0..<16]"
    by (simp add: upt_rec hex_val_def)
  ultimately show ?thesis by (simp add: list_all_iff)
qed

lemma hex_nat_val: "foldl (\<lambda>a c. a * 16 + hex_val c) 0 (hex_nat n) = n"
proof (induction n rule: hex_nat.induct)
  case (1 n)
  show ?case
  proof (cases "n < 16")
    case True
    then show ?thesis using hex_val_digit [of n] by (simp add: hex_nat.simps [of n])
  next
    case False
    have "n mod 16 < 16" by simp
    from hex_val_digit [OF this] 1 [OF False] False
    show ?thesis by (simp add: hex_nat.simps [of n] mult.commute)
  qed
qed

lemma hex_nat_inj [simp]: "hex_nat m = hex_nat n \<longleftrightarrow> m = n"
  by (metis hex_nat_val)

end
