(* ===== verification/Config_Json.thy ===== *)
theory Config_Json
  imports Database Win_Files
begin

text \<open>
  \<open>src/src/platform/config_json.[ch]\<close>: reading the configuration documents into the in-memory database and
  publishing a transaction as documents: \<open>runtime.json\<close> (shared settings, workspaces, items) and
  \<open>local.json\<close> (state of this device), and on the first run two baselines. SQLite's JSON text form, the
  outcome of each SQLite call (memory, I/O) and the file calls are parameters; the statements
  themselves are the functions of \<open>Database\<close>. Log entries are not modelled, except that the number of
  failed restorations the log records is kept, and messages are not modelled. Allocation succeeds.
\<close>

subsection \<open>State and environment\<close>

record 'w Session =
  db :: Db
  begun :: "Db option"      \<comment> \<open>the database when the open transaction began; \<open>None\<close>: autocommit\<close>
  world :: 'w
  restore_errors :: nat

record legacy_database =
  \<comment> \<open>what a database of an old version holds: its two pragmas, its check and its rows\<close>
  legacy_version :: int
  legacy_application :: int
  legacy_check :: bool
  legacy_rows :: Db

record 'w config_env = "'w win_files" +
  json_parse :: "byte list \<Rightarrow> json option"
  json_pretty :: "json \<Rightarrow> byte list"
  utf8_valid :: "byte list \<Rightarrow> bool"
  sql_ok :: "'w \<Rightarrow> bool \<times> 'w"
  legacy_read :: "wstr \<Rightarrow> 'w \<Rightarrow> legacy_database option \<times> 'w"

type_synonym ('w, 'z, 'a) cmd = "(('w, 'z) Session_scheme, 'a) state"

definition lift :: "('w \<Rightarrow> 'a \<times> 'w) \<Rightarrow> ('w, 'z, 'a) cmd" where
  "lift f = State (\<lambda>s. case f (world s) of (r, w) \<Rightarrow> (r, s\<lparr>world := w\<rparr>))"

definition JSON_LIMIT :: nat where "JSON_LIMIT = 16777216"

definition in_directory :: "wstr \<Rightarrow> wstr \<Rightarrow> wstr" where
  "in_directory directory name = directory @ [92] @ name"

subsection \<open>SQL statements\<close>

definition sql_test :: "('w, 'y) config_env_scheme \<Rightarrow> bool \<Rightarrow> ('w, 'z, bool) cmd" where
  \<comment> \<open>\<open>sql_text\<close> with a query whose row is 1 or 0\<close>
  "sql_test E b = do { ok \<leftarrow> lift (sql_ok E); ret (ok \<and> b) }"

definition sql_change :: "('w, 'y) config_env_scheme \<Rightarrow> (Db \<Rightarrow> Db option) \<Rightarrow> ('w, 'z, bool) cmd" where
  \<comment> \<open>a statement that changes the tables; \<open>None\<close> is a constraint failure\<close>
  "sql_change E f = do {
     ok \<leftarrow> lift (sql_ok E);
     if \<not> ok then ret False
     else do {
       d \<leftarrow> gets db;
       case f d of None \<Rightarrow> ret False
       | Some d' \<Rightarrow> do { modify (\<lambda>s. s\<lparr>db := d'\<rparr>); ret True } } }"

definition sql_begin :: "('w, 'y) config_env_scheme \<Rightarrow> ('w, 'z, bool) cmd" where
  \<comment> \<open>\<open>BEGIN IMMEDIATE\<close>: an error inside a transaction\<close>
  "sql_begin E = do {
     ok \<leftarrow> lift (sql_ok E);
     open_tx \<leftarrow> gets begun;
     if \<not> ok \<or> open_tx \<noteq> None then ret False
     else do { modify (\<lambda>s. s\<lparr>begun := Some (db s)\<rparr>); ret True } }"

definition sql_commit :: "('w, 'y) config_env_scheme \<Rightarrow> ('w, 'z, bool) cmd" where
  "sql_commit E = do {
     ok \<leftarrow> lift (sql_ok E);
     open_tx \<leftarrow> gets begun;
     if \<not> ok \<or> open_tx = None then ret False
     else do { modify (\<lambda>s. s\<lparr>begun := None\<rparr>); ret True } }"

definition sql_rollback :: "('w, 'z, unit) cmd" where
  \<comment> \<open>\<open>ROLLBACK\<close> of an open transaction; without one it does nothing\<close>
  "sql_rollback = modify (\<lambda>s. case begun s of None \<Rightarrow> s | Some d \<Rightarrow> s\<lparr>db := d, begun := None\<rparr>)"

subsection \<open>Reading documents\<close>

definition valid_json :: "('w, 'y) config_env_scheme \<Rightarrow> byte list \<Rightarrow> ('w, 'z, bool) cmd" where
  "valid_json E text =
     (let j = the (json_parse E text) in
      and_then (sql_test E (json_parse E text \<noteq> None))
        (and_then (sql_test E (metadata_valid j))
          (and_then (all_ok [sql_test E (list_all setting_valid (array_field ''settings'' j)),
                             sql_test E (list_all workspace_valid (array_field ''workspaces'' j)),
                             sql_test E (list_all item_valid (array_field ''items'' j))])
            (sql_test E (list_all (\<lambda>t. t = [] \<or> utf16_ok t) (json_texts j))))))"

definition import_json :: "('w, 'y) config_env_scheme \<Rightarrow> byte list \<Rightarrow> ('w, 'z, bool) cmd" where
  "import_json E text =
     (let j = the (json_parse E text) in
      do { ok \<leftarrow> all_ok [sql_begin E, sql_change E (insert_settings j), sql_change E (insert_workspaces j),
                         sql_change E (insert_items j), sql_commit E];
           (if \<not> ok then sql_rollback else ret ());
           ret ok })"

datatype document = DocMissing | DocBad | DocText "byte list"
  \<comment> \<open>NULL with \<open>*missing\<close>, NULL without it, the text\<close>

definition skip_bom :: "byte list \<Rightarrow> byte list" where
  "skip_bom data = (if length data \<ge> 3 \<and> take 3 data = [0xEF, 0xBB, 0xBF] then drop 3 data else data)"

definition read_document ::
    "('w, 'y) config_env_scheme \<Rightarrow> wstr \<Rightarrow> wstr \<Rightarrow> ('w, 'z, document) cmd" where
  "read_document E directory name = do {
     r \<leftarrow> lift (f_read E (in_directory directory name));
     case r of
       ReadNotFound \<Rightarrow> ret DocMissing
     | ReadFailed \<Rightarrow> ret DocBad
     | ReadOpened sz data \<Rightarrow>
         (case (sz, data) of
            (Some n, Some bytes) \<Rightarrow>
              if n = 0 \<or> n > JSON_LIMIT then ret DocBad
              else (let text = skip_bom bytes in
                if \<not> utf8_valid E text \<or> 0 \<in> set text then ret DocBad
                else do { ok \<leftarrow> valid_json E text; ret (if ok then DocText text else DocBad) })
          | _ \<Rightarrow> ret DocBad) }"

definition config_json_load ::
    "('w, 'y) config_env_scheme \<Rightarrow> wstr \<Rightarrow> ('w, 'z, bool \<times> bool \<times> bool) cmd" where
  \<comment> \<open>the result, \<open>*initialized\<close> and \<open>*migrate\<close>\<close>
  "config_json_load E directory = do {
     doc \<leftarrow> read_document E directory (W ''runtime.json'');
     let use = (\<lambda>text migrate. do {
           ok \<leftarrow> lift (sql_ok E);
           let initialized = (ok \<and> member_of ''initialized'' (the (json_parse E text)) = Some (JBool True));
           if \<not> ok then ret (False, initialized, migrate)
           else if \<not> initialized \<and> \<not> migrate then ret (False, initialized, migrate)
           else if initialized then do { ok \<leftarrow> import_json E text; ret (ok, initialized, migrate) }
           else ret (True, initialized, migrate) });
     case doc of
       DocBad \<Rightarrow> ret (False, False, False)
     | DocText text \<Rightarrow> use text False
     | DocMissing \<Rightarrow> do {
         a \<leftarrow> lift (f_attributes E (in_directory directory (W ''runtime.base.json'')));
         if a \<noteq> AttributesNotFound then ret (False, False, False)
         else do {
           doc \<leftarrow> read_document E directory (W ''nova.json'');
           case doc of
             DocMissing \<Rightarrow> ret (True, False, True)
           | DocBad \<Rightarrow> ret (False, False, True)
           | DocText text \<Rightarrow> use text True } } }"

definition config_json_load_local ::
    "('w, 'y) config_env_scheme \<Rightarrow> wstr \<Rightarrow> ('w, 'z, bool \<times> bool) cmd" where
  "config_json_load_local E directory = do {
     d \<leftarrow> gets db;
     migrate \<leftarrow> sql_test E (list_ex (\<lambda>r. local_state (fst r)) (settings d));
     doc \<leftarrow> read_document E directory (W ''local.json'');
     case doc of
       DocMissing \<Rightarrow> ret (True, migrate)
     | DocBad \<Rightarrow> ret (False, migrate)
     | DocText text \<Rightarrow>
         (let j = the (json_parse E text) in do {
            ok \<leftarrow> and_then (sql_test E (local_document_ok j)) (sql_change E (\<lambda>d. Some (replace_settings j d)));
            if \<not> ok then ret (False, migrate)
            else do {
              d \<leftarrow> gets db;
              ok \<leftarrow> sql_change E (\<lambda>d. Some (fst (clamp_selections d)));
              ret (ok, migrate \<or> (ok \<and> snd (clamp_selections d) > 0)) } }) }"

definition legacy_json :: "Db \<Rightarrow> json" where
  "legacy_json d = document_json (map setting_json (settings d)) (map workspace_json (workspaces d))
     (map item_json (items d))"

definition config_json_legacy :: "('w, 'y) config_env_scheme \<Rightarrow> wstr \<Rightarrow> ('w, 'z, bool \<times> bool) cmd" where
  \<comment> \<open>the result and \<open>*imported\<close>\<close>
  "config_json_legacy E directory = do {
     a \<leftarrow> lift (f_attributes E (in_directory directory (W ''nova.sqlite'')));
     if a = AttributesNotFound \<or> a = AttributesPathNotFound then ret (True, False)
     else if a = AttributesFailed then ret (False, False)
     else do {
       l \<leftarrow> lift (legacy_read E (in_directory directory (W ''nova.sqlite'')));
       (case l of
          None \<Rightarrow> ret (False, False)
        | Some v \<Rightarrow>
            if legacy_version v \<noteq> 1 \<or> legacy_application v \<noteq> 1313822273 \<or> \<not> legacy_check v then ret (False, False)
            else (let text = json_pretty E (legacy_json (legacy_rows v)) in do {
              ok \<leftarrow> and_then (valid_json E text) (import_json E text);
              ret (ok, ok) })) } }"

subsection \<open>Publishing a transaction\<close>

definition snapshot :: "('w, 'y) config_env_scheme \<Rightarrow> bool \<Rightarrow> ('w, 'z, byte list option) cmd" where
  "snapshot E local = do {
     d \<leftarrow> gets db;
     ok \<leftarrow> lift (sql_ok E);
     let text = json_pretty E (snapshot_json d local);
     ret (if ok \<and> text \<noteq> [] \<and> length text < JSON_LIMIT then Some (text @ [10]) else None) }"

definition write_temp :: "('w, 'y) config_env_scheme \<Rightarrow> wstr \<Rightarrow> byte list \<Rightarrow> ('w, 'z, bool) cmd" where
  "write_temp E path json = do {
     created \<leftarrow> lift (f_create_new E path);
     if \<not> created then ret False
     else do {
       written \<leftarrow> lift (f_write E path json);
       ok \<leftarrow> (if written = Some (length json) then lift (f_flush E path) else ret False);
       if \<not> ok then do { lift (f_delete E path); ret False } else ret True } }"

definition temp_name :: "wstr \<Rightarrow> wstr \<Rightarrow> string \<Rightarrow> nat \<Rightarrow> wstr" where
  "temp_name pid directory tag nonce =
     directory @ [92] @ W ''.nova-'' @ W tag @ W ''-'' @ pid @ W ''-'' @ hex_nat nonce @ W ''.tmp''"

definition temp_path :: "('w, 'y) config_env_scheme \<Rightarrow> wstr \<Rightarrow> string \<Rightarrow> ('w, 'z, wstr) cmd" where
  "temp_path E directory tag = do { nonce \<leftarrow> lift (f_nonce E); ret (temp_name (f_pid E) directory tag nonce) }"

record ConfigPublication =
  pb_path :: wstr
  pb_temporary :: wstr
  pb_previous :: wstr
  pb_changed :: bool
  pb_existed :: bool
  pb_published :: bool

definition zero_publication :: ConfigPublication where
  "zero_publication = \<lparr>pb_path = [], pb_temporary = [], pb_previous = [], pb_changed = False,
     pb_existed = False, pb_published = False\<rparr>"

definition prepare_publication ::
    "('w, 'y) config_env_scheme \<Rightarrow> wstr \<Rightarrow> wstr \<Rightarrow> byte list \<Rightarrow> ('w, 'z, bool \<times> ConfigPublication) cmd" where
  "prepare_publication E directory name json =
     (let p = zero_publication\<lparr>pb_path := in_directory directory name\<rparr>;
          stage = (\<lambda>p. do {
            t \<leftarrow> temp_path E directory ''write'';
            r \<leftarrow> temp_path E directory ''rollback'';
            let p = p\<lparr>pb_changed := True, pb_temporary := t, pb_previous := r\<rparr>;
            ok \<leftarrow> write_temp E t json;
            ret (ok, p) })
      in do {
        r \<leftarrow> lift (f_read E (pb_path p));
        case r of
          ReadOpened sz data \<Rightarrow>
            (if sz = Some (length json) \<and> data = Some json then ret (True, p\<lparr>pb_existed := True\<rparr>)
             else stage (p\<lparr>pb_existed := True\<rparr>))
        | ReadNotFound \<Rightarrow> stage p
        | ReadFailed \<Rightarrow> ret (False, p) })"

fun publish_all :: "('w, 'y) config_env_scheme \<Rightarrow> bool \<Rightarrow> ConfigPublication list
    \<Rightarrow> ('w, 'z, bool \<times> ConfigPublication list) cmd" where
  "publish_all E ok [] = ret (ok, [])"
| "publish_all E ok (p # ps) =
     (if ok \<and> pb_changed p then do {
        r \<leftarrow> (if pb_existed p then lift (f_replace E (pb_path p) (pb_temporary p) (pb_previous p))
              else lift (f_move E (pb_temporary p) (pb_path p) False));
        (ok, qs) \<leftarrow> publish_all E r ps;
        ret (ok, p\<lparr>pb_published := r\<rparr> # qs) }
      else do { (ok, qs) \<leftarrow> publish_all E ok ps; ret (ok, p # qs) })"

fun restore_all :: "('w, 'y) config_env_scheme \<Rightarrow> ConfigPublication list \<Rightarrow> ('w, 'z, unit) cmd" where
  "restore_all E [] = ret ()"
| "restore_all E (p # ps) =
     (if pb_published p then do {
        restored \<leftarrow> (if pb_existed p then lift (f_move E (pb_previous p) (pb_path p) True)
                     else lift (f_delete E (pb_path p)));
        (if restored then ret () else modify (\<lambda>s. s\<lparr>restore_errors := restore_errors s + 1\<rparr>));
        restore_all E ps }
      else restore_all E ps)"

fun clean_all :: "('w, 'y) config_env_scheme \<Rightarrow> bool \<Rightarrow> ConfigPublication list \<Rightarrow> ('w, 'z, unit) cmd" where
  "clean_all E ok [] = ret ()"
| "clean_all E ok (p # ps) = do {
     (if pb_temporary p \<noteq> [] then do { lift (f_delete E (pb_temporary p)); ret () } else ret ());
     (if ok \<and> pb_previous p \<noteq> [] then do { lift (f_delete E (pb_previous p)); ret () } else ret ());
     clean_all E ok ps }"

definition commit_prepare ::
    "('w, 'y) config_env_scheme \<Rightarrow> wstr \<Rightarrow> ('w, 'z, bool \<times> ConfigPublication list) cmd" where
  \<comment> \<open>\<open>config_json_commit\<close> up to the loop that publishes\<close>
  "commit_prepare E directory = do {
     shared_doc \<leftarrow> snapshot E False;
     local_doc \<leftarrow> snapshot E True;
     a \<leftarrow> lift (f_attributes E (in_directory directory (W ''runtime.json'')));
     let first = (a = AttributesNotFound);
     let shared = the shared_doc;
     ok \<leftarrow> (if shared_doc \<noteq> None \<and> local_doc \<noteq> None \<and> first then do {
              c \<leftarrow> lift (f_copy_new E (in_directory directory (W ''nova.json''))
                      (in_directory directory (W ''nova.migration.json'')));
              ret (c \<noteq> CopyFailed) }
            else ret (shared_doc \<noteq> None \<and> local_doc \<noteq> None));
     (ok, p0) \<leftarrow> (if ok then prepare_publication E directory (W ''local.json'') (the local_doc)
                  else ret (False, zero_publication));
     (ok, p1) \<leftarrow> (if ok then prepare_publication E directory (W ''runtime.json'') shared
                  else ret (False, zero_publication));
     (ok, p2) \<leftarrow> (if ok \<and> first then prepare_publication E directory (W ''runtime.base.json'') shared
                  else ret (ok, zero_publication));
     (ok, p3) \<leftarrow> (if ok \<and> first then prepare_publication E directory (W ''runtime.seed.json'') shared
                  else ret (ok, zero_publication));
     ret (ok, [p0, p1, p2, p3]) }"

definition commit_finish ::
    "('w, 'y) config_env_scheme \<Rightarrow> bool \<Rightarrow> ConfigPublication list \<Rightarrow> ('w, 'z, bool) cmd" where
  \<comment> \<open>the rest: publish, commit in memory or undo, remove the temporary files\<close>
  "commit_finish E ok ps = do {
     (ok, ps) \<leftarrow> publish_all E ok ps;
     ok \<leftarrow> (if ok then sql_commit E else ret False);
     (if ok then ret () else do { sql_rollback; restore_all E (rev ps) });
     clean_all E ok ps;
     ret ok }"

definition config_json_commit :: "('w, 'y) config_env_scheme \<Rightarrow> wstr \<Rightarrow> ('w, 'z, bool) cmd" where
  "config_json_commit E directory = do {
     (ok, ps) \<leftarrow> commit_prepare E directory;
     commit_finish E ok ps }"

definition config_json_backup :: "('w, 'y) config_env_scheme \<Rightarrow> wstr \<Rightarrow> ('w, 'z, bool) cmd" where
  "config_json_backup E directory = all_ok (map (\<lambda>name. do {
     temporary \<leftarrow> temp_path E directory ''backup'';
     c \<leftarrow> lift (f_copy_new E (in_directory directory (name @ W ''.json'')) temporary);
     ok \<leftarrow> (if c = Copied then lift (f_move E temporary (in_directory directory (name @ W ''.backup.json'')) True)
           else ret False);
     if \<not> ok then do { lift (f_delete E temporary); ret False } else ret True })
     [W ''runtime'', W ''local''])"

subsection \<open>What the environment promises\<close>

definition config_ok ::
    "('w, 'y) config_env_scheme \<Rightarrow> ('w \<Rightarrow> wstr \<Rightarrow> byte list option) \<Rightarrow> ('w \<Rightarrow> nat set) \<Rightarrow> bool" where
  \<comment> \<open>the file laws, and that SQLite's in-memory database touches no file\<close>
  "config_ok E disk used \<longleftrightarrow> files_ok E disk used
     \<and> (\<forall>w r w'. sql_ok E w = (r, w') \<longrightarrow> disk w' = disk w \<and> used w' = used w)"

definition json_ok :: "('w, 'y) config_env_scheme \<Rightarrow> json \<Rightarrow> bool" where
  \<comment> \<open>SQLite reads back a document it writes, which is UTF-8 text without NUL or byte order mark\<close>
  "json_ok E j \<longleftrightarrow> json_pretty E j \<noteq> [] \<and> json_parse E (json_pretty E j @ [10]) = Some j
     \<and> utf8_valid E (json_pretty E j @ [10]) \<and> 0 \<notin> set (json_pretty E j)
     \<and> skip_bom (json_pretty E j @ [10]) = json_pretty E j @ [10]"

lemma config_files: "config_ok E disk used \<Longrightarrow> files_ok E disk used"
  by (simp add: config_ok_def)

lemma config_sql: "config_ok E disk used \<Longrightarrow> sql_ok E w = (r, w') \<Longrightarrow> disk w' = disk w \<and> used w' = used w"
  unfolding config_ok_def by blast

lemma wp_lift: "wp (lift f) Q s \<longleftrightarrow> (\<forall>r w. f (world s) = (r, w) \<longrightarrow> Q r (s\<lparr>world := w\<rparr>))"
  by (simp add: lift_def wp split: prod.splits)

lemma wp_liftI: "(\<And>r w. f (world s) = (r, w) \<Longrightarrow> Q r (s\<lparr>world := w\<rparr>)) \<Longrightarrow> wp (lift f) Q s"
  by (simp add: wp_lift)

subsection \<open>Names\<close>

lemma temp_name_inj: "temp_name pid d ''write'' m = temp_name pid d ''write'' n \<longleftrightarrow> m = n"
  "temp_name pid d ''rollback'' m = temp_name pid d ''rollback'' n \<longleftrightarrow> m = n"
  "temp_name pid d ''write'' m \<noteq> temp_name pid d ''rollback'' n"
  "temp_name pid d ''rollback'' m \<noteq> temp_name pid d ''write'' n"
  by (simp_all add: temp_name_def W_Cons)

definition is_temp :: "wstr \<Rightarrow> wstr \<Rightarrow> wstr \<Rightarrow> bool" where
  "is_temp pid d p \<longleftrightarrow> (\<exists>tag n. p = temp_name pid d tag n)"

lemma document_not_temp: "name \<noteq> [] \<Longrightarrow> hd name \<noteq> 46 \<Longrightarrow> \<not> is_temp pid d (in_directory d name)"
  by (cases name) (auto simp: is_temp_def temp_name_def in_directory_def W_Cons)

lemma in_directory_inj [simp]: "in_directory d a = in_directory d b \<longleftrightarrow> a = b"
  by (simp add: in_directory_def)

lemma in_directory_not_Nil [simp]: "in_directory d a \<noteq> []"
  by (simp add: in_directory_def)

subsection \<open>Publishing and undoing\<close>

definition pb_names :: "ConfigPublication \<Rightarrow> wstr list" where
  "pb_names p = (if pb_path p = [] then []
     else pb_path p # (if pb_changed p then [pb_temporary p, pb_previous p] else []))"

lemma pb_names_published [simp]: "pb_names (p\<lparr>pb_published := x\<rparr>) = pb_names p"
  by (simp add: pb_names_def)

definition all_names :: "ConfigPublication list \<Rightarrow> wstr list" where
  "all_names ps = concat (map pb_names ps)"

definition ready :: "(wstr \<Rightarrow> byte list option) \<Rightarrow> (wstr \<Rightarrow> byte list option) \<Rightarrow> ConfigPublication \<Rightarrow> byte list \<Rightarrow> bool" where
  \<comment> \<open>nothing published yet; the new text is at the temporary path of a document that changes\<close>
  "ready orig D p b \<longleftrightarrow> \<not> pb_published p
     \<and> (if pb_path p = [] then \<not> pb_changed p
        else D (pb_path p) = orig (pb_path p)
          \<and> (if pb_changed p then D (pb_temporary p) = Some b \<and> (pb_existed p \<longleftrightarrow> orig (pb_path p) \<noteq> None)
             else orig (pb_path p) = Some b))"

definition settled :: "(wstr \<Rightarrow> byte list option) \<Rightarrow> (wstr \<Rightarrow> byte list option) \<Rightarrow> ConfigPublication \<Rightarrow> byte list \<Rightarrow> bool" where
  \<comment> \<open>what was published holds the new text and can be undone; the rest is as before\<close>
  "settled orig D p b \<longleftrightarrow>
     (if pb_path p = [] then \<not> pb_changed p \<and> \<not> pb_published p
      else if pb_published p then pb_changed p \<and> D (pb_path p) = Some b
        \<and> (if pb_existed p then D (pb_previous p) = orig (pb_path p) else True)
        \<and> (pb_existed p \<longleftrightarrow> orig (pb_path p) \<noteq> None)
      else D (pb_path p) = orig (pb_path p) \<and> (pb_changed p \<or> orig (pb_path p) = Some b))"

lemma touches_same: "touches A d d' \<Longrightarrow> p \<notin> A \<Longrightarrow> d' p = d p"
  by (simp add: touches_def)

lemma touches_mono: "touches A d d' \<Longrightarrow> A \<subseteq> B \<Longrightarrow> touches B d d'"
  unfolding touches_def by blast

lemma touches_trans: "touches A d d' \<Longrightarrow> touches B d' d'' \<Longrightarrow> A \<subseteq> C \<Longrightarrow> B \<subseteq> C \<Longrightarrow> touches C d d''"
  unfolding touches_def by (metis subset_eq)

lemma touches_refl [simp]: "touches A d d"
  by (simp add: touches_def)

lemma ready_frame:
  assumes "ready orig D p b" and t: "touches A D D'" and "set (pb_names p) \<inter> A = {}"
  shows "ready orig D' p b"
proof -
  note same = touches_same [OF t]
  show ?thesis
    using assms(1,3) unfolding ready_def pb_names_def
    by (cases "pb_path p = []"; cases "pb_changed p") (simp_all add: same)
qed

lemma settled_frame:
  assumes "settled orig D p b" and t: "touches A D D'" and "set (pb_names p) \<inter> A = {}"
  shows "settled orig D' p b"
proof -
  note same = touches_same [OF t]
  show ?thesis
    using assms(1,3) unfolding settled_def pb_names_def
    by (cases "pb_path p = []"; cases "pb_published p"; cases "pb_changed p") (simp_all add: same)
qed

lemma list_all2_ready_frame:
  "list_all2 (ready orig D) ps bs \<Longrightarrow> touches A D D' \<Longrightarrow> set (all_names ps) \<inter> A = {} \<Longrightarrow>
   list_all2 (ready orig D') ps bs"
  by (induction ps bs rule: list_all2_induct) (auto simp: all_names_def intro: ready_frame)

lemma ready_settled: "ready orig D p b \<Longrightarrow> settled orig D p b"
  by (auto simp: ready_def settled_def split: if_splits)

lemma publish_all_False: "publish_all E False ps = ret (False, ps)"
  by (induction ps) simp_all

definition only_world :: "('w, 'z) Session_scheme \<Rightarrow> ('w, 'z) Session_scheme \<Rightarrow> bool" where
  "only_world s s' \<longleftrightarrow> db s' = db s \<and> begun s' = begun s \<and> restore_errors s' = restore_errors s
     \<and> Session.more s' = Session.more s"

lemma only_world_update [simp]: "only_world s (s\<lparr>world := w\<rparr>)" "only_world s s"
  by (simp_all add: only_world_def)

lemma only_world_trans: "only_world s t \<Longrightarrow> only_world t u \<Longrightarrow> only_world s u"
  by (simp add: only_world_def)

definition publish_post where
  "publish_post disk used orig ok ps bs s = (\<lambda>(ok', qs) s'.
     list_all2 (settled orig (disk (world s'))) qs bs \<and> map pb_names qs = map pb_names ps
     \<and> (ok' \<longrightarrow> ok \<and> list_all (\<lambda>q. pb_changed q \<longrightarrow> pb_published q) qs)
     \<and> only_world s s' \<and> touches (set (all_names ps)) (disk (world s)) (disk (world s'))
     \<and> used (world s') = used (world s))"

lemma publish_one:
  assumes F: "files_ok E disk used" and r: "ready orig (disk (world s)) p b" and c: "pb_changed p"
    and d: "distinct (pb_names p)"
  shows "wp (if pb_existed p then lift (f_replace E (pb_path p) (pb_temporary p) (pb_previous p))
             else lift (f_move E (pb_temporary p) (pb_path p) False))
     (\<lambda>r s'. settled orig (disk (world s')) (p\<lparr>pb_published := r\<rparr>) b \<and> only_world s s'
        \<and> touches (set (pb_names p)) (disk (world s)) (disk (world s')) \<and> used (world s') = used (world s)) s"
proof (cases "pb_existed p")
  case True
  show ?thesis
    unfolding if_P [OF True]
  proof (rule wp_liftI)
    fix x w
    assume "f_replace E (pb_path p) (pb_temporary p) (pb_previous p) (world s) = (x, w)"
    from files_replace [OF F this] r c d True
    show "settled orig (disk (world (s\<lparr>world := w\<rparr>))) (p\<lparr>pb_published := x\<rparr>) b
        \<and> only_world s (s\<lparr>world := w\<rparr>)
        \<and> touches (set (pb_names p)) (disk (world s)) (disk (world (s\<lparr>world := w\<rparr>)))
        \<and> used (world (s\<lparr>world := w\<rparr>)) = used (world s)"
      by (auto simp: settled_def ready_def touches_def pb_names_def split: if_splits)
  qed
next
  case False
  show ?thesis
    unfolding if_not_P [OF False]
  proof (rule wp_liftI)
    fix x w
    assume "f_move E (pb_temporary p) (pb_path p) False (world s) = (x, w)"
    from files_move [OF F this] r c d False
    show "settled orig (disk (world (s\<lparr>world := w\<rparr>))) (p\<lparr>pb_published := x\<rparr>) b
        \<and> only_world s (s\<lparr>world := w\<rparr>)
        \<and> touches (set (pb_names p)) (disk (world s)) (disk (world (s\<lparr>world := w\<rparr>)))
        \<and> used (world (s\<lparr>world := w\<rparr>)) = used (world s)"
      by (auto simp: settled_def ready_def touches_def pb_names_def split: if_splits)
  qed
qed

lemma publish_all_wp:
  fixes s :: "('w, 'z) Session_scheme"
  assumes F: "files_ok E disk used"
  shows "list_all2 (ready orig (disk (world s))) ps bs \<Longrightarrow> distinct (all_names ps) \<Longrightarrow>
    wp (publish_all E ok ps) (publish_post disk used orig ok ps bs s) s"
proof (induction ps arbitrary: bs s ok)
  case Nil
  then show ?case by (simp add: wp publish_post_def)
next
  case (Cons p ps)
  then obtain b bs' where bs: "bs = b # bs'" by (cases bs) auto
  with Cons.prems have r: "ready orig (disk (world s)) p b" "list_all2 (ready orig (disk (world s))) ps bs'"
    and d: "distinct (pb_names p)" "distinct (all_names ps)" "set (pb_names p) \<inter> set (all_names ps) = {}"
    by (auto simp: all_names_def)
  show ?case
  proof (cases "ok \<and> pb_changed p")
    case okc: True
    have step: "wp (publish_all E x ps) (\<lambda>z s'. publish_post disk used orig ok (p # ps) bs s (fst z, p\<lparr>pb_published := x\<rparr> # snd z) s') s1"
      if one: "settled orig (disk (world s1)) (p\<lparr>pb_published := x\<rparr>) b \<and> only_world s s1
        \<and> touches (set (pb_names p)) (disk (world s)) (disk (world s1)) \<and> used (world s1) = used (world s)"
      for x s1
    proof -
      have "list_all2 (ready orig (disk (world s1))) ps bs'"
        using list_all2_ready_frame [OF r(2)] one d(3) by blast
      note ih = Cons.IH [OF this d(2), of x]
      show ?thesis
      proof (cases x)
        case True
        show ?thesis
        proof (rule wp_mono [OF ih])
          fix z s'
          assume post: "publish_post disk used orig x ps bs' s1 z s'"
          obtain ok' qs where z: "z = (ok', qs)" by (cases z)
          have t: "touches (set (all_names ps)) (disk (world s1)) (disk (world s'))"
            using post z by (simp add: publish_post_def)
          have "settled orig (disk (world s')) (p\<lparr>pb_published := x\<rparr>) b"
            using settled_frame [OF conjunct1 [OF one] t] d(3) by simp
          moreover have "touches (set (all_names (p # ps))) (disk (world s)) (disk (world s'))"
            by (rule touches_trans [OF conjunct1 [OF conjunct2 [OF conjunct2 [OF one]]] t])
              (auto simp: all_names_def)
          moreover have "only_world s s'"
            using post z one by (simp add: publish_post_def only_world_def)
          ultimately show "publish_post disk used orig ok (p # ps) bs s (fst z, p\<lparr>pb_published := x\<rparr> # snd z) s'"
            using one post z bs okc by (simp add: publish_post_def True)
        qed
      next
        case False
        have s1: "list_all2 (settled orig (disk (world s1))) ps bs'"
          using list_all2_ready_frame [OF r(2)] one d(3)
          by (auto intro: list_all2_mono ready_settled)
        with False one bs show ?thesis
          by (auto simp: publish_all_False wp publish_post_def pb_names_def all_names_def
              intro: touches_trans [OF _ touches_refl])
      qed
    qed
    show ?thesis
      unfolding publish_all.simps if_P [OF okc] wp_bind
      by (intro wp_mono [OF publish_one [OF F r(1) conjunct2 [OF okc] d(1)]])
        (use step in \<open>simp add: wp split_beta\<close>)
  next
    case False
    have step: "wp (publish_all E ok ps) (\<lambda>z s'. publish_post disk used orig ok (p # ps) bs s (fst z, p # snd z) s') s"
    proof (rule wp_mono [OF Cons.IH [OF r(2) d(2)]])
      fix z s'
      assume post: "publish_post disk used orig ok ps bs' s z s'"
      obtain ok' qs where z: "z = (ok', qs)" by (cases z)
      have "settled orig (disk (world s')) p b"
        by (rule settled_frame [OF ready_settled [OF r(1)], where A = "set (all_names ps)"])
          (use post d(3) z in \<open>auto simp: publish_post_def\<close>)
      moreover have "touches (set (all_names (p # ps))) (disk (world s)) (disk (world s'))"
        using post z by (auto simp: publish_post_def all_names_def touches_def)
      ultimately show "publish_post disk used orig ok (p # ps) bs s (fst z, p # snd z) s'"
        using post z bs False by (auto simp: publish_post_def)
    qed
    show ?thesis
      unfolding publish_all.simps if_not_P [OF False] wp_bind
      by (rule wp_mono [OF step]) (simp add: wp split_beta)
  qed
qed

lemma restore_one:
  assumes F: "files_ok E disk used" and r: "settled orig (disk (world s)) p b" and c: "pb_published p"
    and d: "distinct (pb_names p)"
  shows "wp (if pb_existed p then lift (f_move E (pb_previous p) (pb_path p) True)
             else lift (f_delete E (pb_path p)))
     (\<lambda>r s'. only_world s s' \<and> touches (set (pb_names p)) (disk (world s)) (disk (world s'))
        \<and> used (world s') = used (world s) \<and> (r \<longrightarrow> disk (world s') (pb_path p) = orig (pb_path p))) s"
proof (cases "pb_existed p")
  case True
  show ?thesis
    unfolding if_P [OF True]
  proof (rule wp_liftI)
    fix x w
    assume "f_move E (pb_previous p) (pb_path p) True (world s) = (x, w)"
    from files_move [OF F this] r c d True
    show "only_world s (s\<lparr>world := w\<rparr>)
        \<and> touches (set (pb_names p)) (disk (world s)) (disk (world (s\<lparr>world := w\<rparr>)))
        \<and> used (world (s\<lparr>world := w\<rparr>)) = used (world s)
        \<and> (x \<longrightarrow> disk (world (s\<lparr>world := w\<rparr>)) (pb_path p) = orig (pb_path p))"
      by (auto simp: settled_def touches_def pb_names_def split: if_splits)
  qed
next
  case False
  show ?thesis
    unfolding if_not_P [OF False]
  proof (rule wp_liftI)
    fix x w
    assume "f_delete E (pb_path p) (world s) = (x, w)"
    from files_delete [OF F this] r c d False
    show "only_world s (s\<lparr>world := w\<rparr>)
        \<and> touches (set (pb_names p)) (disk (world s)) (disk (world (s\<lparr>world := w\<rparr>)))
        \<and> used (world (s\<lparr>world := w\<rparr>)) = used (world s)
        \<and> (x \<longrightarrow> disk (world (s\<lparr>world := w\<rparr>)) (pb_path p) = orig (pb_path p))"
      by (auto simp: settled_def touches_def pb_names_def split: if_splits)
  qed
qed

definition restored_post where
  "restored_post disk used orig ps s s' \<longleftrightarrow>
     db s' = db s \<and> begun s' = begun s \<and> Session.more s' = Session.more s \<and> restore_errors s \<le> restore_errors s'
     \<and> touches (set (all_names ps)) (disk (world s)) (disk (world s')) \<and> used (world s') = used (world s)
     \<and> (restore_errors s' = restore_errors s \<longrightarrow>
          list_all (\<lambda>p. pb_path p \<noteq> [] \<longrightarrow> disk (world s') (pb_path p) = orig (pb_path p)) ps)"

lemma restore_all_wp:
  fixes s :: "('w, 'z) Session_scheme"
  assumes F: "files_ok E disk used"
  shows "list_all2 (settled orig (disk (world s))) ps bs \<Longrightarrow> distinct (all_names ps) \<Longrightarrow>
    wp (restore_all E ps) (\<lambda>_ s'. restored_post disk used orig ps s s') s"
proof (induction ps arbitrary: bs s)
  case Nil
  then show ?case by (simp add: wp restored_post_def)
next
  case (Cons p ps)
  then obtain b bs' where bs: "bs = b # bs'" by (cases bs) auto
  with Cons.prems have r: "settled orig (disk (world s)) p b" "list_all2 (settled orig (disk (world s))) ps bs'"
    and d: "distinct (pb_names p)" "distinct (all_names ps)" "set (pb_names p) \<inter> set (all_names ps) = {}"
    by (auto simp: all_names_def)
  have rest: "wp (restore_all E ps) (\<lambda>_ s'. restored_post disk used orig (p # ps) s s') s1"
    if one: "db s1 = db s" "begun s1 = begun s" "Session.more s1 = Session.more s"
      "restore_errors s \<le> restore_errors s1" "touches (set (pb_names p)) (disk (world s)) (disk (world s1))"
      "used (world s1) = used (world s)"
      "restore_errors s1 = restore_errors s \<longrightarrow> pb_path p \<noteq> [] \<longrightarrow> disk (world s1) (pb_path p) = orig (pb_path p)"
    for s1
  proof -
    have "list_all2 (settled orig (disk (world s1))) ps bs'"
    proof (rule list_all2I)
      show "length ps = length bs'" using r(2) by (rule list_all2_lengthD)
      show "\<forall>x \<in> set (zip ps bs'). case x of (q, c) \<Rightarrow> settled orig (disk (world s1)) q c"
      proof clarify
        fix q c assume "(q, c) \<in> set (zip ps bs')"
        then have "settled orig (disk (world s)) q c" "set (pb_names q) \<inter> set (pb_names p) = {}"
          using r(2) d(3) by (auto simp: list_all2_iff all_names_def dest: set_zip_leftD)
        then show "settled orig (disk (world s1)) q c" using settled_frame one(5) by blast
      qed
    qed
    from Cons.IH [OF this d(2)] show ?thesis
    proof (rule wp_mono)
      fix s' assume post: "restored_post disk used orig ps s1 s'"
      have "disk (world s') (pb_path p) = disk (world s1) (pb_path p)" if "pb_path p \<noteq> []"
      proof -
        have "pb_path p \<in> set (pb_names p)" using that by (simp add: pb_names_def)
        with d(3) have "pb_path p \<notin> set (all_names ps)" by blast
        moreover have "touches (set (all_names ps)) (disk (world s1)) (disk (world s'))"
          using post by (simp add: restored_post_def)
        ultimately show ?thesis using touches_same by blast
      qed
      moreover have "touches (set (all_names (p # ps))) (disk (world s)) (disk (world s'))"
      proof (rule touches_trans [OF one(5)])
        show "touches (set (all_names ps)) (disk (world s1)) (disk (world s'))"
          using post by (simp add: restored_post_def)
      qed (auto simp: all_names_def)
      ultimately show "restored_post disk used orig (p # ps) s s'"
        using post one(1-4,6,7) by (simp add: restored_post_def)
    qed
  qed
  show ?case
  proof (cases "pb_published p")
    case True
    show ?thesis
      unfolding restore_all.simps if_P [OF True] wp_bind
    proof (rule wp_mono [OF restore_one [OF F r(1) True d(1)]])
      fix x s1
      assume "only_world s s1 \<and> touches (set (pb_names p)) (disk (world s)) (disk (world s1))
        \<and> used (world s1) = used (world s) \<and> (x \<longrightarrow> disk (world s1) (pb_path p) = orig (pb_path p))"
      then show "wp (if x then ret () else modify (\<lambda>s. s\<lparr>restore_errors := restore_errors s + 1\<rparr>))
          (\<lambda>_. wp (restore_all E ps) (\<lambda>_ s'. restored_post disk used orig (p # ps) s s')) s1"
        by (cases x) (simp_all add: wp only_world_def rest)
    qed
  next
    case False
    then show ?thesis
      unfolding restore_all.simps if_not_P [OF False]
      by (intro rest) (use r(1) in \<open>auto simp: settled_def split: if_splits\<close>)
  qed
qed

lemma wp_delete:
  assumes F: "files_ok E disk used"
  shows "wp (lift (f_delete E p)) (\<lambda>_ s'. only_world s s' \<and> touches {p} (disk (world s)) (disk (world s'))
    \<and> used (world s') = used (world s)) s"
  by (rule wp_liftI) (use files_delete [OF F] in \<open>force simp: touches_def\<close>)

lemma clean_all_wp:
  assumes F: "files_ok E disk used"
  shows "wp (clean_all E ok ps) (\<lambda>_ s'. only_world s s'
    \<and> touches {t. t \<noteq> [] \<and> (\<exists>p \<in> set ps. t = pb_temporary p \<or> t = pb_previous p)} (disk (world s)) (disk (world s'))) s"
proof (induction ps arbitrary: s)
  case (Cons p ps)
  let ?T = "{t. t \<noteq> [] \<and> (\<exists>q \<in> set (p # ps). t = pb_temporary q \<or> t = pb_previous q)}"
  have del: "wp (if c \<and> t \<noteq> [] then do { lift (f_delete E t); ret () } else ret ())
      (\<lambda>_ s'. only_world s s' \<and> touches {t. t \<noteq> [] \<and> (t = pb_temporary p \<or> t = pb_previous p)} (disk (world s)) (disk (world s'))) s"
    if "t = pb_temporary p \<or> t = pb_previous p" for t c s
  proof (cases "c \<and> t \<noteq> []")
    case True
    show ?thesis
      unfolding if_P [OF True] wp_bind wp_return
      by (rule wp_mono [OF wp_delete [OF F]]) (use that True in \<open>auto simp: touches_def\<close>)
  next
    case False
    show ?thesis unfolding if_not_P [OF False] by (simp add: wp)
  qed
  show ?case
    unfolding clean_all.simps wp_bind
  proof (rule wp_mono [OF del [of "pb_temporary p" True, unfolded simp_thms]], simp)
    fix s1
    assume 1: "only_world s s1
      \<and> touches {t. t \<noteq> [] \<and> (t = pb_temporary p \<or> t = pb_previous p)} (disk (world s)) (disk (world s1))"
    show "wp (if ok \<and> pb_previous p \<noteq> [] then do { lift (f_delete E (pb_previous p)); ret () } else ret ())
        (\<lambda>_. wp (clean_all E ok ps) (\<lambda>_ s'. only_world s s' \<and> touches ?T (disk (world s)) (disk (world s')))) s1"
    proof (rule wp_mono [OF del [of "pb_previous p" ok]], simp)
      fix s2
      assume 2: "only_world s1 s2
        \<and> touches {t. t \<noteq> [] \<and> (t = pb_temporary p \<or> t = pb_previous p)} (disk (world s1)) (disk (world s2))"
      show "wp (clean_all E ok ps) (\<lambda>_ s'. only_world s s' \<and> touches ?T (disk (world s)) (disk (world s'))) s2"
      proof (rule wp_mono [OF Cons.IH])
        fix s3
        assume 3: "only_world s2 s3
          \<and> touches {t. t \<noteq> [] \<and> (\<exists>p \<in> set ps. t = pb_temporary p \<or> t = pb_previous p)} (disk (world s2)) (disk (world s3))"
        have "touches ?T (disk (world s)) (disk (world s2))"
          by (rule touches_trans [OF conjunct2 [OF 1] conjunct2 [OF 2]]) auto
        then have "touches ?T (disk (world s)) (disk (world s3))"
          by (rule touches_trans [OF _ conjunct2 [OF 3]]) auto
        with 1 2 3 show "only_world s s3 \<and> touches ?T (disk (world s)) (disk (world s3))"
          by (auto intro: only_world_trans)
      qed
    qed
  qed
qed (simp add: wp)

subsection \<open>Preparing a publication\<close>

definition fresh_writes :: "wstr \<Rightarrow> wstr \<Rightarrow> nat set \<Rightarrow> wstr set" where
  \<comment> \<open>the temporary files a later preparation may write\<close>
  "fresh_writes pid d U = {temp_name pid d ''write'' m | m. m \<notin> U}"

lemma fresh_writes_mono: "U \<subseteq> V \<Longrightarrow> fresh_writes pid d V \<subseteq> fresh_writes pid d U"
  by (auto simp: fresh_writes_def)

lemma wp_sql:
  assumes C: "config_ok E disk used"
  shows "wp (lift (sql_ok E)) (\<lambda>_ s'. only_world s s' \<and> disk (world s') = disk (world s) \<and> used (world s') = used (world s)) s"
  by (rule wp_liftI) (use config_sql [OF C] in auto)

lemma snapshot_wp:
  assumes C: "config_ok E disk used"
  shows "wp (snapshot E local) (\<lambda>r s'. only_world s s' \<and> disk (world s') = disk (world s)
    \<and> used (world s') = used (world s)
    \<and> (r = None \<or> r = Some (json_pretty E (snapshot_json (db s) local) @ [10]))) s"
  unfolding snapshot_def wp_bind wp_gets
  by (rule wp_mono [OF wp_sql [OF C]]) (simp add: wp Let_def)

lemma write_temp_wp:
  fixes s :: "('w, 'z) Session_scheme"
  assumes F: "files_ok E disk used"
  shows "wp (write_temp E p b) (\<lambda>r s'. only_world s s' \<and> used (world s') = used (world s)
    \<and> touches {p} (disk (world s)) (disk (world s')) \<and> (r \<longrightarrow> disk (world s') p = Some b)) s"
  unfolding write_temp_def wp_bind
proof (rule wp_liftI)
  fix c w1
  assume "f_create_new E p (world s) = (c, w1)"
  note create = files_create [OF F this]
  show "wp (if \<not> c then ret False else do {
          written \<leftarrow> lift (f_write E p b);
          ok \<leftarrow> (if written = Some (length b) then lift (f_flush E p) else ret False);
          if \<not> ok then do { lift (f_delete E p); ret False } else ret True })
      (\<lambda>r s'. only_world s s' \<and> used (world s') = used (world s)
        \<and> touches {p} (disk (world s)) (disk (world s')) \<and> (r \<longrightarrow> disk (world s') p = Some b)) (s\<lparr>world := w1\<rparr>)"
  proof (cases c)
    case False
    with create show ?thesis by (simp add: wp)
  next
    case True
    have delete: "wp (lift (f_delete E p) \<bind> (\<lambda>_. ret False))
        (\<lambda>r s'. only_world s s' \<and> used (world s') = used (world s)
          \<and> touches {p} (disk (world s)) (disk (world s')) \<and> (r \<longrightarrow> disk (world s') p = Some b)) t"
      if "only_world s t" "used (world t) = used (world s)" "touches {p} (disk (world s)) (disk (world t))" for t
      unfolding wp_bind wp_return
      by (rule wp_mono [OF wp_delete [OF F]]) (use that in \<open>auto intro: only_world_trans simp: touches_def\<close>)
    have "wp (lift (f_write E p b)) (\<lambda>written t. only_world s t \<and> used (world t) = used (world s)
        \<and> touches {p} (disk (world s)) (disk (world t))
        \<and> (written = Some (length b) \<longrightarrow> disk (world t) p = Some b)) (s\<lparr>world := w1\<rparr>)"
    proof (rule wp_liftI)
      fix n w2
      assume "f_write E p b (world (s\<lparr>world := w1\<rparr>)) = (n, w2)"
      from files_write [OF F this] create True
      show "only_world s (s\<lparr>world := w1, world := w2\<rparr>) \<and> used (world (s\<lparr>world := w1, world := w2\<rparr>)) = used (world s)
        \<and> touches {p} (disk (world s)) (disk (world (s\<lparr>world := w1, world := w2\<rparr>)))
        \<and> (n = Some (length b) \<longrightarrow> disk (world (s\<lparr>world := w1, world := w2\<rparr>)) p = Some b)"
        by (auto simp: touches_def)
    qed
    note wrote = this
    have nc: "\<not> \<not> c" using True by simp
    show ?thesis
      unfolding if_not_P [OF nc] wp_bind
    proof (rule wp_mono [OF wrote])
      fix written and t :: "('w, 'z) Session_scheme"
      let ?Q = "\<lambda>r s'. only_world s s' \<and> used (world s') = used (world s)
        \<and> touches {p} (disk (world s)) (disk (world s')) \<and> (r \<longrightarrow> disk (world s') p = Some b)"
      assume t: "only_world s t \<and> used (world t) = used (world s)
        \<and> touches {p} (disk (world s)) (disk (world t))
        \<and> (written = Some (length b) \<longrightarrow> disk (world t) p = Some b)"
      show "wp (if written = Some (length b) then lift (f_flush E p) else ret False)
          (\<lambda>ok. wp (if \<not> ok then lift (f_delete E p) \<bind> (\<lambda>_. ret False) else ret True) ?Q) t"
      proof (cases "written = Some (length b)")
        case full: True
        show ?thesis
          unfolding if_P [OF full]
        proof (rule wp_liftI)
          fix ok w
          assume "f_flush E p (world t) = (ok, w)"
          from files_flush [OF F this] t full
          show "wp (if \<not> ok then lift (f_delete E p) \<bind> (\<lambda>_. ret False) else ret True) ?Q (t\<lparr>world := w\<rparr>)"
            using delete [of "t\<lparr>world := w\<rparr>"] by (cases ok) (simp_all add: wp_return only_world_def)
        qed
      next
        case False
        with t delete [of t] show ?thesis by (simp add: wp_return)
      qed
    qed
  qed
qed

definition names_staged :: "wstr \<Rightarrow> wstr \<Rightarrow> nat set \<Rightarrow> nat set \<Rightarrow> ConfigPublication \<Rightarrow> bool" where
  \<comment> \<open>the temporary names of a publication, made of nonces drawn between two moments\<close>
  "names_staged pid d U V p \<longleftrightarrow>
     (if pb_changed p then \<exists>m n. pb_temporary p = temp_name pid d ''write'' m \<and> pb_previous p = temp_name pid d ''rollback'' n
         \<and> m \<in> V - U \<and> n \<in> V - U
      else pb_temporary p = [] \<and> pb_previous p = [])"

definition prepare_post where
  "prepare_post E disk used d name json s = (\<lambda>(ok, p) s'.
     only_world s s' \<and> used (world s) \<subseteq> used (world s')
     \<and> touches (fresh_writes (f_pid E) d (used (world s))) (disk (world s)) (disk (world s'))
     \<and> pb_path p = in_directory d name \<and> \<not> pb_published p
     \<and> names_staged (f_pid E) d (used (world s)) (used (world s')) p
     \<and> (ok \<longrightarrow> (if pb_changed p then disk (world s') (pb_temporary p) = Some json
           \<and> (pb_existed p \<longleftrightarrow> disk (world s) (pb_path p) \<noteq> None)
         else disk (world s) (pb_path p) = Some json)))"

lemma prepare_publication_wp:
  fixes s :: "('w, 'z) Session_scheme"
  assumes F: "files_ok E disk used"
  shows "wp (prepare_publication E d name json) (prepare_post E disk used d name json s) s"
proof -
  define p0 where "p0 = zero_publication\<lparr>pb_path := in_directory d name\<rparr>"
  define stage :: "ConfigPublication \<Rightarrow> ('w, 'z, bool \<times> ConfigPublication) cmd" where
    "stage p = do {
            t \<leftarrow> temp_path E d ''write'';
            r \<leftarrow> temp_path E d ''rollback'';
            let p = p\<lparr>pb_changed := True, pb_temporary := t, pb_previous := r\<rparr>;
            ok \<leftarrow> write_temp E t json;
            ret (ok, p) }" for p
  have stage: "wp (stage p) (prepare_post E disk used d name json s) (s\<lparr>world := w\<rparr>)"
    if w: "disk w = disk (world s)" "used w = used (world s)"
      and p: "pb_path p = in_directory d name" "\<not> pb_published p"
        "pb_existed p \<longleftrightarrow> disk (world s) (in_directory d name) \<noteq> None" for p w
    unfolding stage_def temp_path_def wp_bind wp_return Let_def
  proof (intro wp_liftI)
    fix m w1 n w2
    assume "f_nonce E (world (s\<lparr>world := w\<rparr>)) = (m, w1)"
      and "f_nonce E (world (s\<lparr>world := w, world := w1\<rparr>)) = (n, w2)"
    then have n1: "disk w1 = disk (world s)" "m \<notin> used (world s)" "used w1 = insert m (used (world s))"
      and n2: "disk w2 = disk (world s)" "n \<notin> insert m (used (world s))" "used w2 = insert n (insert m (used (world s)))"
      using files_nonce [OF F] w by (metis Session.select_convs(3) Session.surjective Session.update_convs(3))+
    show "wp (write_temp E (temp_name (f_pid E) d ''write'' m) json)
        (\<lambda>ok. prepare_post E disk used d name json s
           (ok, p\<lparr>pb_changed := True, pb_temporary := temp_name (f_pid E) d ''write'' m,
                  pb_previous := temp_name (f_pid E) d ''rollback'' n\<rparr>))
        (s\<lparr>world := w, world := w1, world := w2\<rparr>)"
    proof (rule wp_mono [OF write_temp_wp [OF F]])
      fix ok and s' :: "('w, 'z) Session_scheme"
      let ?t = "temp_name (f_pid E) d ''write'' m"
      assume "only_world (s\<lparr>world := w, world := w1, world := w2\<rparr>) s'
        \<and> used (world s') = used (world (s\<lparr>world := w, world := w1, world := w2\<rparr>))
        \<and> touches {?t} (disk (world (s\<lparr>world := w, world := w1, world := w2\<rparr>))) (disk (world s'))
        \<and> (ok \<longrightarrow> disk (world s') ?t = Some json)"
      then have r: "only_world s s'" "used (world s') = insert n (insert m (used (world s)))"
        "touches {?t} (disk (world s)) (disk (world s'))" "ok \<longrightarrow> disk (world s') ?t = Some json"
        using n2 by (simp_all add: only_world_def)
      have "?t \<in> fresh_writes (f_pid E) d (used (world s))"
        using n1(2) by (auto simp: fresh_writes_def)
      then have "touches (fresh_writes (f_pid E) d (used (world s))) (disk (world s)) (disk (world s'))"
        using touches_mono [OF r(3)] by simp
      moreover have "names_staged (f_pid E) d (used (world s)) (used (world s'))
          (p\<lparr>pb_changed := True, pb_temporary := ?t, pb_previous := temp_name (f_pid E) d ''rollback'' n\<rparr>)"
        using n1(2) n2(2) r(2) by (auto simp: names_staged_def)
      ultimately show "prepare_post E disk used d name json s
          (ok, p\<lparr>pb_changed := True, pb_temporary := ?t, pb_previous := temp_name (f_pid E) d ''rollback'' n\<rparr>) s'"
        using r p by (auto simp: prepare_post_def)
    qed
  qed
  have path: "pb_path p0 = in_directory d name" "\<not> pb_published p0" "pb_existed p0 = False"
    by (simp_all add: p0_def zero_publication_def)
  show ?thesis
    unfolding prepare_publication_def Let_def wp_bind p0_def [symmetric]
  proof (rule wp_liftI)
    fix r w
    assume "f_read E (pb_path p0) (world s) = (r, w)"
    note rd = files_read [OF F this]
    have plain: "prepare_post E disk used d name json s (ok, p0\<lparr>pb_existed := e\<rparr>) (s\<lparr>world := w\<rparr>)"
      if "ok \<longrightarrow> disk (world s) (in_directory d name) = Some json" for ok e
      using that rd by (auto simp: prepare_post_def names_staged_def p0_def zero_publication_def)
    have plain0: "prepare_post E disk used d name json s (False, p0) (s\<lparr>world := w\<rparr>)"
      using plain [of False False] by (simp add: p0_def zero_publication_def)
    have st: "wp (stage p0) (prepare_post E disk used d name json s) (s\<lparr>world := w\<rparr>)" if "r = ReadNotFound"
      by (rule stage) (use rd that path in auto)
    have se: "wp (stage (p0\<lparr>pb_existed := True\<rparr>)) (prepare_post E disk used d name json s) (s\<lparr>world := w\<rparr>)"
      if "r = ReadOpened sz data" for sz data
      by (rule stage) (use rd that path in auto)
    show "wp (case r of
          ReadNotFound \<Rightarrow> do {
            t \<leftarrow> temp_path E d ''write'';
            r \<leftarrow> temp_path E d ''rollback'';
            ok \<leftarrow> write_temp E t json;
            ret (ok, p0\<lparr>pb_changed := True, pb_temporary := t, pb_previous := r\<rparr>) }
        | ReadFailed \<Rightarrow> ret (False, p0)
        | ReadOpened sz data \<Rightarrow>
            if sz = Some (length json) \<and> data = Some json then ret (True, p0\<lparr>pb_existed := True\<rparr>)
            else do {
              t \<leftarrow> temp_path E d ''write'';
              r \<leftarrow> temp_path E d ''rollback'';
              ok \<leftarrow> write_temp E t json;
              ret (ok, p0\<lparr>pb_existed := True, pb_changed := True, pb_temporary := t, pb_previous := r\<rparr>) })
        (prepare_post E disk used d name json s) (s\<lparr>world := w\<rparr>)"
    proof (cases r)
      case ReadNotFound
      from st [OF this] show ?thesis by (simp add: ReadNotFound stage_def Let_def)
    next
      case ReadFailed
      with plain0 show ?thesis by (simp add: wp_return)
    next
      case (ReadOpened sz data)
      show ?thesis
      proof (cases "sz = Some (length json) \<and> data = Some json")
        case True
        with ReadOpened rd path have "disk (world s) (in_directory d name) = Some json" by auto
        with plain [of True True] True ReadOpened show ?thesis by (simp add: wp_return)
      next
        case False
        from se [OF ReadOpened] False show ?thesis by (simp add: ReadOpened stage_def Let_def if_not_P [OF False])
      qed
    qed
  qed
qed

subsection \<open>The prepared transaction\<close>

definition side_files :: "wstr \<Rightarrow> wstr \<Rightarrow> wstr set" where
  \<comment> \<open>what a transaction may write besides the documents\<close>
  "side_files pid d = {t. is_temp pid d t} \<union> {in_directory d (W ''nova.migration.json'')}"

definition side_names :: "wstr \<Rightarrow> wstr \<Rightarrow> ConfigPublication \<Rightarrow> bool" where
  "side_names pid d p \<longleftrightarrow> (pb_temporary p = [] \<or> is_temp pid d (pb_temporary p))
     \<and> (pb_previous p = [] \<or> is_temp pid d (pb_previous p))"

definition doc_name :: "wstr \<Rightarrow> bool" where
  "doc_name name \<longleftrightarrow> name \<noteq> [] \<and> hd name \<noteq> 46 \<and> name \<noteq> W ''nova.migration.json''"

definition staged where
  "staged E disk used d s ok ps bs s' \<longleftrightarrow>
     only_world s s' \<and> touches (side_files (f_pid E) d) (disk (world s)) (disk (world s'))
     \<and> list_all (\<lambda>p. \<not> pb_published p \<and> side_names (f_pid E) d p) ps
     \<and> (ok \<longrightarrow> used (world s) \<subseteq> used (world s') \<and> list_all2 (ready (disk (world s)) (disk (world s'))) ps bs
          \<and> distinct (all_names ps)
          \<and> list_all (names_staged (f_pid E) d (used (world s)) (used (world s'))) ps
          \<and> list_all (\<lambda>p. pb_path p = [] \<or> (\<exists>name. doc_name name \<and> pb_path p = in_directory d name)) ps)"

lemma doc_not_side: "doc_name name \<Longrightarrow> in_directory d name \<notin> side_files pid d"
  using document_not_temp [of name pid d] by (auto simp: side_files_def doc_name_def)

lemma fresh_writes_side: "fresh_writes pid d U \<subseteq> side_files pid d"
  by (auto simp: fresh_writes_def side_files_def is_temp_def)

lemma names_staged_side: "names_staged pid d U V p \<Longrightarrow> side_names pid d p"
  by (auto simp: names_staged_def side_names_def is_temp_def split: if_splits)

lemma staged_zero:
  "staged E disk used d s ok ps bs s' \<Longrightarrow> staged E disk used d s ok (ps @ [zero_publication]) (bs @ [b]) s'"
proof -
  have z: "ready orig D zero_publication b" "pb_names zero_publication = []" "side_names pid d zero_publication"
    "\<not> pb_published zero_publication" "pb_path zero_publication = []" "names_staged pid d U V zero_publication"
    for orig D b pid U V
    by (simp_all add: ready_def pb_names_def side_names_def zero_publication_def names_staged_def)
  show "staged E disk used d s ok ps bs s' \<Longrightarrow> staged E disk used d s ok (ps @ [zero_publication]) (bs @ [b]) s'"
    unfolding staged_def by (simp add: z all_names_def list_all2_appendI)
qed

lemma names_staged_mono: "names_staged pid d U V p \<Longrightarrow> V \<subseteq> V' \<Longrightarrow> names_staged pid d U V' p"
  by (auto simp: names_staged_def split: if_splits)

lemma staged_names:
  assumes "list_all (names_staged pid d U V) ps"
    and "list_all (\<lambda>p. pb_path p = [] \<or> (\<exists>name. doc_name name \<and> pb_path p = in_directory d name)) ps"
    and "q \<in> set (all_names ps)"
  shows "(\<exists>name. doc_name name \<and> q = in_directory d name \<and> q \<in> pb_path ` set ps)
    \<or> (\<exists>m \<in> V. q = temp_name pid d ''write'' m \<or> q = temp_name pid d ''rollback'' m)"
  using assms by (auto simp: all_names_def pb_names_def names_staged_def list_all_iff split: if_splits)

lemma doc_ne_temp: "doc_name name \<Longrightarrow> in_directory d name \<noteq> temp_name pid d tag m"
  using doc_not_side [of name d pid] by (auto simp: side_files_def is_temp_def)

lemma prepare_step:
  fixes s' :: "('w, 'z) Session_scheme"
  assumes F: "files_ok E disk used" and st: "staged E disk used d s True ps bs s'"
    and name: "doc_name name" "in_directory d name \<notin> pb_path ` set ps"
  shows "wp (prepare_publication E d name json)
    (\<lambda>z s''. staged E disk used d s (fst z) (ps @ [snd z]) (bs @ [json]) s'' \<and> pb_path (snd z) = in_directory d name) s'"
proof (rule wp_mono [OF prepare_publication_wp [OF F]])
  fix z and s'' :: "('w, 'z) Session_scheme"
  assume post: "prepare_post E disk used d name json s' z s''"
  obtain ok p where z: "z = (ok, p)" by (cases z)
  let ?pid = "f_pid E" and ?U = "used (world s)" and ?U1 = "used (world s')" and ?U2 = "used (world s'')"
  from st have st1: "only_world s s'" "touches (side_files ?pid d) (disk (world s)) (disk (world s'))"
    "list_all (\<lambda>p. \<not> pb_published p \<and> side_names ?pid d p) ps" "?U \<subseteq> ?U1"
    "list_all2 (ready (disk (world s)) (disk (world s'))) ps bs" "distinct (all_names ps)"
    "list_all (names_staged ?pid d ?U ?U1) ps"
    "list_all (\<lambda>p. pb_path p = [] \<or> (\<exists>name. doc_name name \<and> pb_path p = in_directory d name)) ps"
    by (simp_all add: staged_def)
  from post z have p: "only_world s' s''" "?U1 \<subseteq> ?U2" "touches (fresh_writes ?pid d ?U1) (disk (world s')) (disk (world s''))"
    "pb_path p = in_directory d name" "\<not> pb_published p" "names_staged ?pid d ?U1 ?U2 p"
    by (simp_all add: prepare_post_def)
  have p7: "ok \<Longrightarrow> if pb_changed p then disk (world s'') (pb_temporary p) = Some json
           \<and> (pb_existed p \<longleftrightarrow> disk (world s') (pb_path p) \<noteq> None)
         else disk (world s') (pb_path p) = Some json"
    using post [unfolded z prepare_post_def prod.case] by blast
  have fresh: "q \<notin> fresh_writes ?pid d ?U1" if "q \<in> set (all_names ps)" for q
    using staged_names [OF st1(7,8) that]
    by (auto simp: fresh_writes_def temp_name_inj doc_ne_temp [symmetric] doc_ne_temp)
  have touched: "touches (side_files ?pid d) (disk (world s)) (disk (world s''))"
    by (rule touches_trans [OF st1(2) p(3)]) (simp_all add: fresh_writes_side)
  have path: "disk (world s') (pb_path p) = disk (world s) (pb_path p)"
    "disk (world s'') (pb_path p) = disk (world s) (pb_path p)"
    using touches_same [OF st1(2)] touches_same [OF touched] doc_not_side [OF name(1)] p(4) by simp_all
  have "staged E disk used d s ok (ps @ [p]) (bs @ [json]) s''"
  proof (cases ok)
    case False
    with st1 p touched names_staged_side [OF p(6)] show ?thesis
      by (auto simp: staged_def intro: only_world_trans)
  next
    case True
    have "list_all2 (ready (disk (world s)) (disk (world s''))) ps bs"
      by (rule list_all2_ready_frame [OF st1(5) p(3)]) (use fresh in blast)
    moreover have "ready (disk (world s)) (disk (world s'')) p json"
      using p(4,5) p7 [OF True] path by (auto simp: ready_def split: if_splits)
    moreover have "distinct (all_names (ps @ [p]))"
    proof -
      have "distinct (pb_names p)"
        using p(4,6) doc_ne_temp [OF name(1)] by (auto simp: pb_names_def names_staged_def temp_name_inj split: if_splits)
      moreover have "q \<notin> set (pb_names p)" if "q \<in> set (all_names ps)" for q
      proof
        assume "q \<in> set (pb_names p)"
        then have "q = in_directory d name
            \<or> (\<exists>k \<in> ?U2 - ?U1. q = temp_name ?pid d ''write'' k \<or> q = temp_name ?pid d ''rollback'' k)"
          using p(4,6) by (auto simp: pb_names_def names_staged_def split: if_splits)
        with staged_names [OF st1(7,8) that] name(2) show False
          by (elim disjE exE conjE bexE)
            (auto simp: temp_name_inj doc_ne_temp [OF name(1)] dest: doc_ne_temp [THEN not_sym] doc_ne_temp)
      qed
      ultimately show ?thesis using st1(6) by (auto simp: all_names_def)
    qed
    moreover have "list_all (names_staged ?pid d ?U ?U2) (ps @ [p])"
    proof -
      have "names_staged ?pid d ?U ?U2 p"
        using p(6) st1(4) by (auto simp: names_staged_def split: if_splits)
      then show ?thesis
        using st1(7) p(2) by (auto simp: list_all_iff intro: names_staged_mono)
    qed
    ultimately show ?thesis
      using st1 p touched names_staged_side [OF p(6)] name(1)
      by (auto simp: staged_def list_all2_appendI intro: only_world_trans)
  qed
  with z p(4) show "staged E disk used d s (fst z) (ps @ [snd z]) (bs @ [json]) s'' \<and> pb_path (snd z) = in_directory d name"
    by simp
qed

lemma prepare_if:
  fixes s' :: "('w, 'z) Session_scheme"
  assumes F: "files_ok E disk used" and st: "staged E disk used d s ok ps bs s'"
    and name: "doc_name name" "in_directory d name \<notin> pb_path ` set ps"
  shows "wp (if ok \<and> c then prepare_publication E d name json else ret (ok, zero_publication))
    (\<lambda>z s''. staged E disk used d s (fst z) (ps @ [snd z]) (bs @ [json]) s''
       \<and> (pb_path (snd z) = in_directory d name \<or> pb_path (snd z) = [] \<and> (fst z \<longrightarrow> \<not> c))
       \<and> (fst z \<longrightarrow> ok)) s'"
proof (cases "ok \<and> c")
  case True
  then have st': "staged E disk used d s True ps bs s'" using st by simp
  show ?thesis
    unfolding if_P [OF True]
    by (rule wp_mono [OF prepare_step [OF F st' name]]) (use True in blast)
next
  case False
  with staged_zero [OF st, of json] show ?thesis
    unfolding if_not_P [OF False] by (auto simp: wp_return zero_publication_def)
qed

definition commit_docs :: "('w, 'y) config_env_scheme \<Rightarrow> Db \<Rightarrow> byte list list" where
  "commit_docs E d = (let shared = json_pretty E (snapshot_json d False) @ [10];
       local = json_pretty E (snapshot_json d True) @ [10] in [local, shared, shared, shared])"

definition prepared where
  "prepared E disk used d s = (\<lambda>(ok, ps) s'. \<exists>bs. staged E disk used d s ok ps bs s' \<and> length ps = 4
     \<and> (ok \<longrightarrow> bs = commit_docs E (db s)
          \<and> pb_path (ps ! 0) = in_directory d (W ''local.json'') \<and> pb_path (ps ! 1) = in_directory d (W ''runtime.json''))
     \<and> pb_path ` set ps \<subseteq> {[], in_directory d (W ''local.json''), in_directory d (W ''runtime.json''),
          in_directory d (W ''runtime.base.json''), in_directory d (W ''runtime.seed.json'')})"

lemma doc_names [simp]:
  "doc_name (W ''local.json'')" "doc_name (W ''runtime.json'')" "doc_name (W ''runtime.base.json'')"
  "doc_name (W ''runtime.seed.json'')"
  by (simp_all add: doc_name_def W_Cons)

lemma commit_copy:
  fixes s1 :: "('w, 'z) Session_scheme"
  assumes F: "files_ok E disk used" and s1: "only_world s s1" "disk (world s1) = disk (world s)"
    "used (world s1) = used (world s)"
  shows "wp (if b \<and> first then do {
       c \<leftarrow> lift (f_copy_new E (in_directory d (W ''nova.json'')) (in_directory d (W ''nova.migration.json'')));
       ret (c \<noteq> CopyFailed) } else ret b)
     (\<lambda>ok s'. staged E disk used d s ok [] [] s' \<and> (ok \<longrightarrow> b)) s1"
proof (cases "b \<and> first")
  case True
  show ?thesis
    unfolding if_P [OF True] wp_bind wp_return
  proof (rule wp_liftI)
    fix c w
    assume "f_copy_new E (in_directory d (W ''nova.json'')) (in_directory d (W ''nova.migration.json'')) (world s1) = (c, w)"
    note copy = files_copy [OF F this]
    have "touches {in_directory d (W ''nova.migration.json'')} (disk (world s1)) (disk w)"
      using copy by (cases c) (auto simp: touches_def)
    then have "touches (side_files (f_pid E) d) (disk (world s)) (disk w)"
      using s1 by (auto simp: side_files_def intro: touches_mono)
    with copy s1 True show "staged E disk used d s (c \<noteq> CopyFailed) [] [] (s1\<lparr>world := w\<rparr>) \<and> (c \<noteq> CopyFailed \<longrightarrow> b)"
      by (simp add: staged_def all_names_def only_world_def)
  qed
next
  case False
  with s1 show ?thesis
    unfolding if_not_P [OF False] by (simp add: wp_return staged_def all_names_def)
qed

lemma commit_prepare_wp:
  fixes s :: "('w, 'z) Session_scheme"
  assumes C: "config_ok E disk used"
  shows "wp (commit_prepare E d) (prepared E disk used d s) s"
proof -
  note F = config_files [OF C]
  have names: "in_directory d (W ''local.json'') \<noteq> in_directory d (W ''runtime.json'')"
    "in_directory d (W ''runtime.base.json'') \<notin> {in_directory d (W ''local.json''), in_directory d (W ''runtime.json''), []}"
    "in_directory d (W ''runtime.seed.json'') \<notin> {in_directory d (W ''local.json''), in_directory d (W ''runtime.json''),
       in_directory d (W ''runtime.base.json''), []}"
    by simp_all
  show ?thesis
  proof (rule wpI)
    fix r and s' :: "('w, 'z) Session_scheme"
    assume run: "run_state (commit_prepare E d) s = (r, s')"
    let ?f = "\<lambda>a. a = AttributesNotFound"
    obtain shared s1 local s2 a s3 ok0 s4 z0 s5 z1 s6 z2 s7 z3 s8 where steps:
      "run_state (snapshot E False) s = (shared, s1)"
      "run_state (snapshot E True) s1 = (local, s2)"
      "run_state (lift (f_attributes E (in_directory d (W ''runtime.json'')))) s2 = (a, s3)"
      "run_state (if shared \<noteq> None \<and> local \<noteq> None \<and> ?f a then do {
              c \<leftarrow> lift (f_copy_new E (in_directory d (W ''nova.json'')) (in_directory d (W ''nova.migration.json'')));
              ret (c \<noteq> CopyFailed) } else ret (shared \<noteq> None \<and> local \<noteq> None)) s3 = (ok0, s4)"
      "run_state (if ok0 then prepare_publication E d (W ''local.json'') (the local) else ret (False, zero_publication)) s4 = (z0, s5)"
      "run_state (if fst z0 then prepare_publication E d (W ''runtime.json'') (the shared) else ret (False, zero_publication)) s5 = (z1, s6)"
      "run_state (if fst z1 \<and> ?f a then prepare_publication E d (W ''runtime.base.json'') (the shared) else ret (fst z1, zero_publication)) s6 = (z2, s7)"
      "run_state (if fst z2 \<and> ?f a then prepare_publication E d (W ''runtime.seed.json'') (the shared) else ret (fst z2, zero_publication)) s7 = (z3, s8)"
      "run_state (ret (fst z3, [snd z0, snd z1, snd z2, snd z3])) s8 = (r, s')"
      using run unfolding commit_prepare_def Let_def split_beta
      by (elim run_bindE) (rule that, assumption+)
    let ?S = "staged E disk used d s"
    from wpD [OF snapshot_wp [OF C] steps(1)] wpD [OF snapshot_wp [OF C] steps(2)]
    have s2: "only_world s s2" "disk (world s2) = disk (world s)" "used (world s2) = used (world s)"
      and docs: "shared = None \<or> shared = Some (json_pretty E (snapshot_json (db s) False) @ [10])"
        "local = None \<or> local = Some (json_pretty E (snapshot_json (db s) True) @ [10])"
      by (auto simp: only_world_def)
    have s3: "only_world s s3" "disk (world s3) = disk (world s)" "used (world s3) = used (world s)"
      using steps(3) s2 files_attributes [OF F] unfolding lift_def
      by (auto simp: only_world_def split: prod.splits)
    from wpD [OF commit_copy [OF F s3, of "shared \<noteq> None \<and> local \<noteq> None" "?f a"] steps(4) [unfolded conj_assoc [symmetric]]]
    have s4: "?S ok0 [] [] s4" "ok0 \<Longrightarrow> shared \<noteq> None \<and> local \<noteq> None" by simp_all
    have "run_state (if ok0 \<and> True then prepare_publication E d (W ''local.json'') (the local) else ret (ok0, zero_publication)) s4 = (z0, s5)"
      using steps(5) by (cases ok0) simp_all
    from wpD [OF prepare_if [OF F s4(1)] this]
    have s5: "?S (fst z0) [snd z0] [the local] s5"
      "pb_path (snd z0) = in_directory d (W ''local.json'') \<or> pb_path (snd z0) = [] \<and> \<not> fst z0"
      "fst z0 \<longrightarrow> ok0" by auto
    have "run_state (if fst z0 \<and> True then prepare_publication E d (W ''runtime.json'') (the shared) else ret (fst z0, zero_publication)) s5 = (z1, s6)"
      using steps(6) by (cases "fst z0") simp_all
    from wpD [OF prepare_if [OF F s5(1)] this] s5(2)
    have s6: "?S (fst z1) [snd z0, snd z1] [the local, the shared] s6"
      "pb_path (snd z1) = in_directory d (W ''runtime.json'') \<or> pb_path (snd z1) = [] \<and> \<not> fst z1"
      "fst z1 \<longrightarrow> fst z0" by auto
    from wpD [OF prepare_if [OF F s6(1)] steps(7)] s5(2) s6(2)
    have s7: "?S (fst z2) [snd z0, snd z1, snd z2] [the local, the shared, the shared] s7"
      "pb_path (snd z2) \<in> {in_directory d (W ''runtime.base.json''), []}"
      "fst z2 \<longrightarrow> fst z1" by auto
    from wpD [OF prepare_if [OF F s7(1)] steps(8)] s5(2) s6(2) s7(2)
    have s8: "?S (fst z3) [snd z0, snd z1, snd z2, snd z3] [the local, the shared, the shared, the shared] s8"
      "pb_path (snd z3) \<in> {in_directory d (W ''runtime.seed.json''), []}"
      "fst z3 \<longrightarrow> fst z2" by auto
    have ok: "fst z3 \<longrightarrow> fst z0 \<and> fst z1 \<and> ok0" using s5(3) s6(3) s7(3) s8(3) by blast
    show "prepared E disk used d s r s'"
      using steps(9) s8(1,2) s7(2) s6(2) s5(2) ok docs s4(2)
      unfolding prepared_def commit_docs_def Let_def
      by (auto intro!: exI [of _ "[the local, the shared, the shared, the shared]"])
  qed
qed

subsection \<open>Publishing the transaction\<close>

definition doc_paths :: "wstr \<Rightarrow> wstr set" where
  "doc_paths d = in_directory d ` {W ''local.json'', W ''runtime.json'', W ''runtime.base.json'', W ''runtime.seed.json''}"

lemma settled_done:
  "settled orig D p b \<Longrightarrow> pb_path p \<noteq> [] \<Longrightarrow> pb_changed p \<longrightarrow> pb_published p \<Longrightarrow> D (pb_path p) = Some b"
  by (auto simp: settled_def split: if_splits)

lemma publish_all_keeps:
  fixes s :: "('w, 'z) Session_scheme"
  assumes "\<And>p x. P p \<Longrightarrow> P (p\<lparr>pb_published := x\<rparr>)"
  shows "list_all P ps \<Longrightarrow> wp (publish_all E ok ps) (\<lambda>z s'. list_all P (snd z)) s"
proof (induction ps arbitrary: s ok)
  case (Cons p ps)
  have rest: "wp (publish_all E x ps) (\<lambda>z s'. list_all P (snd z)) t" for x and t :: "('w, 'z) Session_scheme"
    using Cons by simp
  show ?case
  proof (cases "ok \<and> pb_changed p")
    case True
    show ?thesis
      unfolding publish_all.simps if_P [OF True] wp_bind
      by (rule wpI, rule wp_mono [OF rest]) (use Cons.prems assms in \<open>auto simp: wp_return wp_bind split_beta\<close>)
  next
    case False
    show ?thesis
      unfolding publish_all.simps if_not_P [OF False] wp_bind
      by (rule wp_mono [OF rest]) (use Cons.prems in \<open>auto simp: wp_return split_beta\<close>)
  qed
qed (simp add: wp_return)

lemma restore_all_none: "list_all (\<lambda>p. \<not> pb_published p) ps \<Longrightarrow> restore_all E ps = ret ()"
  by (induction ps) simp_all

lemma sql_commit_wp:
  assumes C: "config_ok E disk used"
  shows "wp (sql_commit E) (\<lambda>r s'. db s' = db s \<and> Session.more s' = Session.more s \<and> restore_errors s' = restore_errors s
    \<and> disk (world s') = disk (world s) \<and> used (world s') = used (world s)
    \<and> begun s' = (if r then None else begun s)) s"
  unfolding sql_commit_def wp_bind wp_gets
  by (rule wp_mono [OF wp_sql [OF C]]) (auto simp: wp_return wp_bind wp_modify only_world_def)

lemma all_names_rev: "distinct (all_names (rev ps)) \<longleftrightarrow> distinct (all_names ps)" "set (all_names (rev ps)) = set (all_names ps)"
proof -
  have "mset (all_names (rev ps)) = mset (all_names ps)"
    by (induction ps) (simp_all add: all_names_def)
  then show "distinct (all_names (rev ps)) \<longleftrightarrow> distinct (all_names ps)" "set (all_names (rev ps)) = set (all_names ps)"
    by (rule mset_eq_imp_distinct_iff, rule mset_eq_setD)
qed

lemma pb_names_path: "pb_names p = pb_names q \<Longrightarrow> pb_path p = pb_path q"
  by (auto simp: pb_names_def split: if_splits)

lemma commit_finish_wp:
  fixes s0 :: "('w, 'z) Session_scheme"
  assumes C: "config_ok E disk used" and pre: "prepared E disk used d s (ok, ps) s0" and tx: "begun s = Some d0"
  shows "wp (commit_finish E ok ps) (\<lambda>ok' s'. Session.more s' = Session.more s
    \<and> (\<forall>name. doc_name name \<and> in_directory d name \<notin> doc_paths d \<longrightarrow>
         disk (world s') (in_directory d name) = disk (world s) (in_directory d name))
    \<and> (if ok' then ok \<and> db s' = db s \<and> begun s' = None
         \<and> disk (world s') (in_directory d (W ''local.json'')) = Some (commit_docs E (db s) ! 0)
         \<and> disk (world s') (in_directory d (W ''runtime.json'')) = Some (commit_docs E (db s) ! 1)
       else db s' = d0 \<and> begun s' = None \<and> restore_errors s \<le> restore_errors s'
         \<and> (restore_errors s' = restore_errors s \<longrightarrow>
              (\<forall>p \<in> doc_paths d. disk (world s') p = disk (world s) p)))) s0"
    (is "wp _ ?Q s0")
proof -
  note F = config_files [OF C]
  let ?side = "side_names (f_pid E) d"
  from pre obtain bs where st: "staged E disk used d s ok ps bs s0" and len: "length ps = 4"
    and docs: "ok \<Longrightarrow> bs = commit_docs E (db s) \<and> pb_path (ps ! 0) = in_directory d (W ''local.json'')
        \<and> pb_path (ps ! 1) = in_directory d (W ''runtime.json'')"
    and paths: "pb_path ` set ps \<subseteq> {[], in_directory d (W ''local.json''), in_directory d (W ''runtime.json''),
          in_directory d (W ''runtime.base.json''), in_directory d (W ''runtime.seed.json'')}"
    by (auto simp: prepared_def)
  have clean: "wp (clean_all E ok' qs) (\<lambda>_ s'. ?Q ok' s') s2"
    if "?Q ok' s2" and "list_all ?side qs" for ok' qs s2
  proof (rule wp_mono [OF clean_all_wp [OF F]])
    fix s3 :: "('w, 'z) Session_scheme"
    let ?T = "{t. t \<noteq> [] \<and> (\<exists>p \<in> set qs. t = pb_temporary p \<or> t = pb_previous p)}"
    assume t: "only_world s2 s3 \<and> touches ?T (disk (world s2)) (disk (world s3))"
    have "in_directory d name \<notin> ?T" if "doc_name name" for name
      using \<open>list_all ?side qs\<close> doc_not_side [OF that, of d "f_pid E"]
      by (auto simp: list_all_iff side_names_def side_files_def)
    then have "disk (world s3) (in_directory d name) = disk (world s2) (in_directory d name)" if "doc_name name" for name
      using touches_same [OF conjunct2 [OF t]] that by blast
    moreover from this have "\<forall>p \<in> doc_paths d. disk (world s3) p = disk (world s2) p"
      by (auto simp: doc_paths_def)
    ultimately show "?Q ok' s3"
      using \<open>?Q ok' s2\<close> t by (cases ok') (auto simp: only_world_def)
  qed
  have side: "list_all ?side ps" "list_all (\<lambda>p. \<not> pb_published p) ps"
    using st by (simp_all add: staged_def list_all_iff)
  have s0: "only_world s s0" "touches (side_files (f_pid E) d) (disk (world s)) (disk (world s0))"
    using st by (simp_all add: staged_def)
  have same: "disk (world s0) (in_directory d name) = disk (world s) (in_directory d name)" if "doc_name name" for name
    using touches_same [OF s0(2) doc_not_side [OF that]] .
  have docs_named: "\<exists>name. doc_name name \<and> p = in_directory d name" if "p \<in> doc_paths d" for p
    using that by (auto simp: doc_paths_def)
  have paths': "pb_path p \<in> doc_paths d" if "p \<in> set ps" "pb_path p \<noteq> []" for p
    using paths that by (auto simp: doc_paths_def)
  show ?thesis
  proof (cases ok)
    case False
    have eq: "commit_finish E ok ps = do { sql_rollback; clean_all E False ps; ret False }"
      using side by (simp add: False commit_finish_def publish_all_False restore_all_none)
    have "?Q False (s0\<lparr>db := d0, begun := None\<rparr>)"
      using s0(1) same docs_named by (auto simp: only_world_def)
    from clean [OF this side(1)] show ?thesis
      unfolding eq using tx s0(1) by (simp add: sql_rollback_def wp only_world_def)
  next
    case True
    with st have ready: "list_all2 (ready (disk (world s)) (disk (world s0))) ps bs" "distinct (all_names ps)"
      by (simp_all add: staged_def)
    have keep: "wp (publish_all E ok ps) (\<lambda>z s'. list_all ?side (snd z)) s0"
      by (rule publish_all_keeps) (use side in \<open>simp_all add: side_names_def\<close>)
    show ?thesis
      unfolding commit_finish_def wp_bind
    proof (rule wp_mono [OF wp_conj [OF publish_all_wp [OF F ready] keep]])
      fix z and s1 :: "('w, 'z) Session_scheme"
      assume z: "publish_post disk used (disk (world s)) ok ps bs s0 z s1 \<and> list_all ?side (snd z)"
      obtain ok1 qs where zz: "z = (ok1, qs)" by (cases z)
      from z zz have settled: "list_all2 (settled (disk (world s)) (disk (world s1))) qs bs"
        and names: "map pb_names qs = map pb_names ps"
        and fin: "ok1 \<longrightarrow> list_all (\<lambda>q. pb_changed q \<longrightarrow> pb_published q) qs"
        and s1: "only_world s0 s1" "touches (set (all_names ps)) (disk (world s0)) (disk (world s1))"
        and qside: "list_all ?side qs"
        by (simp_all add: publish_post_def)
      have lenq: "length qs = 4" using names len by (metis length_map)
      have pathq: "pb_path (qs ! i) = pb_path (ps ! i)" if "i < 4" for i
        using names that lenq len by (metis nth_map pb_names_path)
      have "all_names qs = all_names ps" using names by (simp add: all_names_def)
      then have dq: "distinct (all_names qs)" "set (all_names qs) = set (all_names ps)" using ready(2) by simp_all
      have other: "in_directory d name \<notin> set (all_names ps)" if "doc_name name" "in_directory d name \<notin> doc_paths d" for name
      proof
        assume "in_directory d name \<in> set (all_names ps)"
        then have "in_directory d name \<in> pb_path ` set ps"
          using staged_names [of "f_pid E" d "used (world s)" "used (world s0)" ps "in_directory d name"] st True
            doc_ne_temp [OF that(1)] by (auto simp: staged_def)
        then obtain p where "p \<in> set ps" "pb_path p = in_directory d name" by auto
        with paths' [of p] that(2) show False by simp
      qed
      have untouched: "disk (world s1) (in_directory d name) = disk (world s) (in_directory d name)"
        if "doc_name name" "in_directory d name \<notin> doc_paths d" for name
        using touches_same [OF s1(2) other [OF that]] same [OF that(1)] by simp
      show "wp (case z of (ok, ps) \<Rightarrow> do {
               ok \<leftarrow> (if ok then sql_commit E else ret False);
               (if ok then ret () else do { sql_rollback; restore_all E (rev ps) });
               clean_all E ok ps; ret ok }) ?Q s1"
        unfolding zz prod.case wp_bind wp_return
      proof (rule wp_mono [where P = "\<lambda>ok2 s2. db s2 = db s \<and> Session.more s2 = Session.more s
            \<and> restore_errors s2 = restore_errors s \<and> disk (world s2) = disk (world s1)
            \<and> begun s2 = (if ok2 then None else begun s) \<and> (ok2 \<longrightarrow> ok1)"])
        show "wp (if ok1 then sql_commit E else ret False) (\<lambda>ok2 s2. db s2 = db s \<and> Session.more s2 = Session.more s
            \<and> restore_errors s2 = restore_errors s \<and> disk (world s2) = disk (world s1)
            \<and> begun s2 = (if ok2 then None else begun s) \<and> (ok2 \<longrightarrow> ok1)) s1"
        proof (cases ok1)
          case ok1: True
          show ?thesis
            unfolding if_P [OF ok1]
            by (rule wp_mono [OF sql_commit_wp [OF C]]) (use s0(1) s1(1) ok1 in \<open>auto simp: only_world_def\<close>)
        next
          case False
          with s0(1) s1(1) show ?thesis by (simp add: wp_return only_world_def)
        qed
      next
        fix ok2 and s2 :: "('w, 'z) Session_scheme"
        assume s2: "db s2 = db s \<and> Session.more s2 = Session.more s
            \<and> restore_errors s2 = restore_errors s \<and> disk (world s2) = disk (world s1)
            \<and> begun s2 = (if ok2 then None else begun s) \<and> (ok2 \<longrightarrow> ok1)"
        show "wp (if ok2 then ret () else sql_rollback \<bind> (\<lambda>_. restore_all E (rev qs)))
            (\<lambda>_. wp (clean_all E ok2 qs) (\<lambda>_. ?Q ok2)) s2"
        proof (cases ok2)
          case ok2: True
          have all: "pb_changed (qs ! i) \<longrightarrow> pb_published (qs ! i)" if "i < 4" for i
            using fin s2 ok2 that lenq by (simp add: list_all_length)
          have new: "disk (world s2) (pb_path (qs ! i)) = Some (bs ! i)" if "i < 4" "pb_path (qs ! i) \<noteq> []" for i
            using settled_done [OF list_all2_nthD [OF settled, of i] that(2) all [OF that(1)]] that(1) lenq s2 by simp
          have "?Q True s2"
            using True docs [OF True] new [of 0] new [of 1] pathq [of 0] pathq [of 1] s2 ok2 untouched by simp
          from clean [OF this qside] ok2 show ?thesis by (simp add: wp_return)
        next
          case False
          have "begun s2 = Some d0" using s2 False tx by simp
          then have roll: "wp sql_rollback P s2 = P () (s2\<lparr>db := d0, begun := None\<rparr>)" for P
            by (simp add: sql_rollback_def wp_modify)
          let ?s2 = "s2\<lparr>db := d0, begun := None\<rparr>"
          have "list_all2 (settled (disk (world s)) (disk (world ?s2))) (rev qs) (rev bs)" "distinct (all_names (rev qs))"
            using settled dq s2 by (simp_all add: all_names_rev)
          note undo = restore_all_wp [OF F this]
          have "wp (restore_all E (rev qs)) (\<lambda>_. wp (clean_all E ok2 qs) (\<lambda>_. ?Q ok2)) ?s2"
          proof (rule wp_mono [OF undo])
            fix s3 :: "('w, 'z) Session_scheme"
            assume "restored_post disk used (disk (world s)) (rev qs) ?s2 s3"
            then have s3: "db s3 = d0" "begun s3 = None" "Session.more s3 = Session.more s"
              "restore_errors s \<le> restore_errors s3"
              "touches (set (all_names ps)) (disk (world s1)) (disk (world s3))"
              "restore_errors s3 = restore_errors s \<longrightarrow>
                 list_all (\<lambda>p. pb_path p \<noteq> [] \<longrightarrow> disk (world s3) (pb_path p) = disk (world s) (pb_path p)) qs"
              using s2 by (simp_all add: restored_post_def all_names_rev dq)
            have kept: "disk (world s3) p = disk (world s) p"
              if "p \<notin> set (all_names ps)" "doc_name name" "p = in_directory d name" for p name
              using touches_same [OF s3(5) that(1)] touches_same [OF s1(2) that(1)] same [OF that(2)] that(3) by simp
            have "disk (world s3) p = disk (world s) p"
              if none: "restore_errors s3 = restore_errors s" and p: "p \<in> doc_paths d" for p
            proof (cases "p \<in> pb_path ` set qs")
              case True
              obtain name where "p = in_directory d name" using docs_named [OF p] by blast
              then have "p \<noteq> []" by simp
              with True s3(6) none show ?thesis by (auto simp: list_all_iff)
            next
              case False
              obtain name where name: "doc_name name" "p = in_directory d name" using docs_named [OF p] by blast
              have "p \<notin> set (all_names ps)"
              proof
                assume "p \<in> set (all_names ps)"
                then have "p \<in> pb_path ` set ps"
                  using staged_names [of "f_pid E" d "used (world s)" "used (world s0)" ps p] st \<open>ok\<close>
                    doc_ne_temp [OF name(1)] name(2) by (auto simp: staged_def)
                moreover have "pb_path ` set qs = pb_path ` set ps"
                  using pathq lenq len by (auto simp: set_conv_nth image_iff) metis+
                ultimately show False using False by simp
              qed
              with kept name show ?thesis by blast
            qed
            with s3 kept other have "?Q ok2 s3" using False by simp
            then show "wp (clean_all E ok2 qs) (\<lambda>_. ?Q ok2) s3" by (rule clean [OF _ qside])
          qed
          then have "wp (sql_rollback \<bind> (\<lambda>_. restore_all E (rev qs))) (\<lambda>_. wp (clean_all E ok2 qs) (\<lambda>_. ?Q ok2)) s2"
            unfolding wp_bind roll .
          then show ?thesis by (simp only: False if_False)
        qed
      qed
    qed
  qed
qed

lemma config_commit_wp:
  assumes "config_ok E disk used" and "begun s = Some d0"
  shows "wp (config_json_commit E d) (\<lambda>ok s'. (\<forall>name. doc_name name \<and> in_directory d name \<notin> doc_paths d \<longrightarrow>
         disk (world s') (in_directory d name) = disk (world s) (in_directory d name))
    \<and> (if ok then db s' = db s \<and> begun s' = None
         \<and> disk (world s') (in_directory d (W ''local.json'')) = Some (commit_docs E (db s) ! 0)
         \<and> disk (world s') (in_directory d (W ''runtime.json'')) = Some (commit_docs E (db s) ! 1)
       else db s' = d0 \<and> begun s' = None
         \<and> (restore_errors s' = restore_errors s \<longrightarrow>
              (\<forall>p \<in> doc_paths d. disk (world s') p = disk (world s) p)))) s"
    (is "wp _ (?Q s) s")
  unfolding config_json_commit_def wp_bind
proof (rule wp_mono [OF commit_prepare_wp [OF assms(1)]])
  fix z and s0
  assume pre: "prepared E disk used d s z s0"
  obtain ok ps where z: "z = (ok, ps)" by (cases z)
  show "wp (case z of (ok, ps) \<Rightarrow> commit_finish E ok ps) (?Q s) s0"
    unfolding z prod.case
    by (rule wp_mono [OF commit_finish_wp [OF assms(1) pre [unfolded z] assms(2)]]) (auto split: if_splits)
qed


subsection \<open>An instance of the environment\<close>

definition sim_config :: "sim_world config_env" where
  "sim_config = win_files.extend sim_files
     \<lparr>json_parse = (\<lambda>_. None), json_pretty = (\<lambda>_. [123, 125]), utf8_valid = (\<lambda>_. True),
      sql_ok = (\<lambda>w. (True, w)), legacy_read = (\<lambda>_ w. (None, w))\<rparr>"

lemma sim_config_ok: "config_ok sim_config fst sim_used"
proof -
  have sel: "f_attributes sim_config = f_attributes sim_files" "f_read sim_config = f_read sim_files"
    "f_create_new sim_config = f_create_new sim_files" "f_write sim_config = f_write sim_files"
    "f_flush sim_config = f_flush sim_files" "f_delete sim_config = f_delete sim_files"
    "f_copy_new sim_config = f_copy_new sim_files" "f_replace sim_config = f_replace sim_files"
    "f_move sim_config = f_move sim_files" "f_nonce sim_config = f_nonce sim_files"
    by (simp_all add: sim_config_def sim_files_def win_files.defs)
  from sim_files_ok have "files_ok sim_config fst sim_used"
    unfolding files_ok_def attributes_ok_def read_ok_def create_ok_def write_ok_def flush_ok_def delete_ok_def
      copy_ok_def replace_ok_def move_ok_def nonce_ok_def sel .
  moreover have "sql_ok sim_config w = (True, w)" for w
    by (simp add: sim_config_def win_files.defs)
  ultimately show ?thesis by (simp add: config_ok_def)
qed

definition sim_session :: "sim_world Session" where
  "sim_session = \<lparr>db = empty_db, begun = Some empty_db, world = (Map.empty, 0, [False, True]), restore_errors = 0\<rparr>"


subsection \<open>Reading back what was published\<close>

definition calm :: "('w, 'y) config_env_scheme \<Rightarrow> ('w \<Rightarrow> wstr \<Rightarrow> byte list option) \<Rightarrow> bool" where
  \<comment> \<open>no call fails: what SQLite is asked and what the disk holds is read\<close>
  "calm E disk \<longleftrightarrow> (\<forall>w. fst (sql_ok E w))
     \<and> (\<forall>w p c. disk w p = Some c \<longrightarrow> fst (f_read E p w) = ReadOpened (Some (length c)) (Some c))"

definition runs_to where
  \<comment> \<open>the command returns this and leaves this database, with the disk as it was\<close>
  "runs_to disk c s r d t \<longleftrightarrow> wp c (\<lambda>r' s'. r' = r \<and> db s' = d \<and> begun s' = t
     \<and> disk (world s') = disk (world s)) s"

lemma runs_to_bind:
  assumes "runs_to disk c s x d t"
    and "\<And>s'. db s' = d \<Longrightarrow> begun s' = t \<Longrightarrow> disk (world s') = disk (world s) \<Longrightarrow> runs_to disk (f x) s' r d' t'"
  shows "runs_to disk (c \<bind> f) s r d' t'"
  using assms unfolding runs_to_def wp_bind by (auto elim!: wp_mono)

lemma runs_to_ret: "db s = d \<Longrightarrow> begun s = t \<Longrightarrow> runs_to disk (ret r) s r d t"
  by (simp add: runs_to_def wp_return)

lemma runs_to_and_then:
  assumes "runs_to disk a s True d t"
    and "\<And>s'. db s' = d \<Longrightarrow> begun s' = t \<Longrightarrow> disk (world s') = disk (world s) \<Longrightarrow> runs_to disk b s' r d' t'"
  shows "runs_to disk (and_then a b) s r d' t'"
  unfolding and_then_def by (rule runs_to_bind [OF assms(1)]) (use assms(2) in simp)

definition reads_well where
  "reads_well E disk used \<longleftrightarrow> config_ok E disk used \<and> calm E disk"

lemma runs_sql:
  assumes "reads_well E disk used" "db s = d" "begun s = t"
  shows "runs_to disk (lift (sql_ok E)) s True d t"
  unfolding runs_to_def
proof (rule wp_liftI)
  fix r w
  assume q: "sql_ok E (world s) = (r, w)"
  then have "r" using assms(1) by (metis calm_def fst_conv reads_well_def)
  moreover have "disk w = disk (world s)"
    using config_sql [of E disk used, OF _ q] assms(1) by (simp add: reads_well_def)
  ultimately show "r = True \<and> db (s\<lparr>world := w\<rparr>) = d \<and> begun (s\<lparr>world := w\<rparr>) = t
      \<and> disk (world (s\<lparr>world := w\<rparr>)) = disk (world s)"
    using assms by simp
qed

lemma runs_test:
  assumes "reads_well E disk used" "db s = d" "begun s = t"
  shows "runs_to disk (sql_test E b) s b d t"
  unfolding sql_test_def by (rule runs_to_bind [OF runs_sql [OF assms]]) (simp add: runs_to_ret)

lemma runs_change:
  assumes "reads_well E disk used" "f (db s) = Some d" "begun s = t"
  shows "runs_to disk (sql_change E f) s True d t"
  unfolding sql_change_def
proof (rule runs_to_bind [OF runs_sql [OF assms(1) refl assms(3)]])
  fix s' assume "db s' = db s" "begun s' = t" "disk (world s') = disk (world s)"
  with assms(2) show "runs_to disk (if \<not> True then ret False else do {
       d \<leftarrow> gets db;
       case f d of None \<Rightarrow> ret False | Some d' \<Rightarrow> do { modify (\<lambda>s. s\<lparr>db := d'\<rparr>); ret True } }) s' True d t"
    by (simp add: runs_to_def wp)
qed

lemma runs_begin:
  assumes "reads_well E disk used" "begun s = None"
  shows "runs_to disk (sql_begin E) s True (db s) (Some (db s))"
  unfolding sql_begin_def
proof (rule runs_to_bind [OF runs_sql [OF assms(1) refl assms(2)]])
  fix s' assume "db s' = db s" "begun s' = None" "disk (world s') = disk (world s)"
  then show "runs_to disk (gets begun \<bind> (\<lambda>open_tx. if \<not> True \<or> open_tx \<noteq> None then ret False
      else do { modify (\<lambda>s. s\<lparr>begun := Some (db s)\<rparr>); ret True })) s' True (db s) (Some (db s))"
    by (simp add: runs_to_def wp)
qed

lemma runs_commit:
  assumes "reads_well E disk used" "db s = d" "begun s = Some t"
  shows "runs_to disk (sql_commit E) s True d None"
  unfolding sql_commit_def
proof (rule runs_to_bind [OF runs_sql [OF assms]])
  fix s' assume "db s' = d" "begun s' = Some t" "disk (world s') = disk (world s)"
  then show "runs_to disk (gets begun \<bind> (\<lambda>open_tx. if \<not> True \<or> open_tx = None then ret False
      else do { modify (\<lambda>s. s\<lparr>begun := None\<rparr>); ret True })) s' True d None"
    by (simp add: runs_to_def wp)
qed

lemma runs_valid_json:
  assumes E: "reads_well E disk used" and j: "json_parse E text = Some j" "document_valid j"
    and s: "db s = d" "begun s = t"
  shows "runs_to disk (valid_json E text) s True d t"
proof -
  from j(2) have v: "metadata_valid j" "list_all setting_valid (array_field ''settings'' j)"
    "list_all workspace_valid (array_field ''workspaces'' j)" "list_all item_valid (array_field ''items'' j)"
    "list_all (\<lambda>t. t = [] \<or> utf16_ok t) (json_texts j)"
    by (auto simp: document_valid_def list_all_iff)
  have test: "runs_to disk (sql_test E b) s' True d t" if "b" "db s' = d" "begun s' = t" for b s'
    using runs_test [OF E that(2,3), of b] that(1) by simp
  show ?thesis
    unfolding valid_json_def Let_def j(1) option.sel all_ok.simps
    by (rule runs_to_and_then [where d = d and t = t], rule test, simp, rule s, rule s,
        rule runs_to_and_then [where d = d and t = t], rule test, rule v, assumption, assumption,
        rule runs_to_and_then [where d = d and t = t],
        rule runs_to_and_then [where d = d and t = t], rule test, rule v, assumption, assumption,
        rule runs_to_and_then [where d = d and t = t], rule test, rule v, assumption, assumption,
        rule runs_to_and_then [where d = d and t = t], rule test, rule v, assumption, assumption,
        rule runs_to_ret, assumption, assumption, rule test, rule v, assumption, assumption)
qed

lemma runs_import_json:
  assumes E: "reads_well E disk used" and j: "json_parse E text = Some j"
    and rows: "insert_settings j (db s) = Some d1" "insert_workspaces j d1 = Some d2" "insert_items j d2 = Some d3"
    and s: "begun s = None"
  shows "runs_to disk (import_json E text) s True d3 None"
proof -
  have all: "runs_to disk (all_ok [sql_begin E, sql_change E (insert_settings j), sql_change E (insert_workspaces j),
      sql_change E (insert_items j), sql_commit E]) s True d3 None"
    unfolding all_ok.simps
    by (rule runs_to_and_then [OF runs_begin [OF E s]],
        rule runs_to_and_then [OF runs_change [OF E]], simp add: rows, assumption,
        rule runs_to_and_then [OF runs_change [OF E]], simp add: rows, assumption,
        rule runs_to_and_then [OF runs_change [OF E]], simp add: rows, assumption,
        rule runs_to_and_then [OF runs_commit [OF E]], assumption, assumption,
        rule runs_to_ret)
  show ?thesis
    unfolding import_json_def Let_def j option.sel
    by (rule runs_to_bind [OF all]) (simp add: runs_to_def wp)
qed

lemma runs_read_document:
  assumes E: "reads_well E disk used" and c: "disk (world s) (in_directory dir name) = Some (json_pretty E j @ [10])"
    and len: "length (json_pretty E j) < JSON_LIMIT" and ok: "json_ok E j" and j: "document_valid j"
    and s: "db s = d" "begun s = t"
  shows "runs_to disk (read_document E dir name) s (DocText (json_pretty E j @ [10])) d t"
proof -
  let ?text = "json_pretty E j @ [10]"
  have jok: "json_parse E ?text = Some j" "utf8_valid E ?text" "0 \<notin> set ?text" "skip_bom ?text = ?text"
    using ok by (auto simp: json_ok_def)
  have rd: "runs_to disk (lift (f_read E (in_directory dir name))) s (ReadOpened (Some (length ?text)) (Some ?text)) d t"
    unfolding runs_to_def
  proof (rule wp_liftI)
    fix r w
    assume q: "f_read E (in_directory dir name) (world s) = (r, w)"
    then have "r = ReadOpened (Some (length ?text)) (Some ?text)"
      using E c by (metis calm_def fst_conv reads_well_def)
    moreover have "disk w = disk (world s)"
      using files_read [OF config_files q] E by (auto simp: reads_well_def)
    ultimately show "r = ReadOpened (Some (length ?text)) (Some ?text) \<and> db (s\<lparr>world := w\<rparr>) = d
        \<and> begun (s\<lparr>world := w\<rparr>) = t \<and> disk (world (s\<lparr>world := w\<rparr>)) = disk (world s)"
      using s by simp
  qed
  show ?thesis
    unfolding read_document_def
  proof (rule runs_to_bind [OF rd])
    fix s' assume s': "db s' = d" "begun s' = t" "disk (world s') = disk (world s)"
    have "runs_to disk (do { ok \<leftarrow> valid_json E ?text; ret (if ok then DocText ?text else DocBad) }) s' (DocText ?text) d t"
      by (rule runs_to_bind [OF runs_valid_json [OF E jok(1) j s'(1,2)]]) (simp add: runs_to_ret)
    with jok len show "runs_to disk (case ReadOpened (Some (length ?text)) (Some ?text) of
        ReadNotFound \<Rightarrow> ret DocMissing | ReadFailed \<Rightarrow> ret DocBad
      | ReadOpened sz data \<Rightarrow> (case (sz, data) of
            (Some n, Some bytes) \<Rightarrow>
              if n = 0 \<or> n > JSON_LIMIT then ret DocBad
              else (let text = skip_bom bytes in
                if \<not> utf8_valid E text \<or> 0 \<in> set text then ret DocBad
                else do { ok \<leftarrow> valid_json E text; ret (if ok then DocText text else DocBad) })
          | _ \<Rightarrow> ret DocBad)) s' (DocText ?text) d t"
      by (simp add: Let_def)
  qed
qed

lemma runs_load:
  assumes E: "reads_well E disk used" and k: "db_keys_ok d"
    and c: "disk (world s) (in_directory dir (W ''runtime.json'')) = Some (json_pretty E (snapshot_json d False) @ [10])"
    and len: "length (json_pretty E (snapshot_json d False)) < JSON_LIMIT"
    and ok: "json_ok E (snapshot_json d False)" and v: "document_valid (snapshot_json d False)"
    and s: "db s = empty_db" "begun s = None"
  shows "\<exists>e. runs_to disk (config_json_load E dir) s (True, True, False) e None
    \<and> mset (settings e) = mset (filter (\<lambda>r. \<not> local_state (fst r)) (settings d))
    \<and> mset (workspaces e) = mset (workspaces d) \<and> mset (items e) = mset (items d)"
proof -
  let ?j = "snapshot_json d False"
  obtain ss ws its where rows: "mset ss = mset (filter (\<lambda>r. \<not> local_state (fst r)) (settings d))"
    "insert_settings ?j empty_db = Some (empty_db\<lparr>settings := ss\<rparr>)"
    "mset ws = mset (workspaces d)"
    "insert_workspaces ?j (empty_db\<lparr>settings := ss\<rparr>) = Some (empty_db\<lparr>settings := ss, workspaces := ws\<rparr>)"
    "mset its = mset (items d)"
    "insert_items ?j (empty_db\<lparr>settings := ss, workspaces := ws\<rparr>)
       = Some (empty_db\<lparr>settings := ss, workspaces := ws, items := its\<rparr>)"
    using import_snapshot [OF k] by blast
  let ?e = "empty_db\<lparr>settings := ss, workspaces := ws, items := its\<rparr>"
  have parse: "json_parse E (json_pretty E ?j @ [10]) = Some ?j" using ok by (simp add: json_ok_def)
  have init: "member_of ''initialized'' ?j = Some (JBool True)"
    by (simp add: snapshot_json_def json_field)
  have "runs_to disk (config_json_load E dir) s (True, True, False) ?e None"
    unfolding config_json_load_def Let_def
  proof (rule runs_to_bind [OF runs_read_document [OF E c len ok v s]], unfold document.case)
    fix s1 assume s1: "db s1 = empty_db" "begun s1 = None" "disk (world s1) = disk (world s)"
    have imp: "runs_to disk (import_json E (json_pretty E ?j @ [10]) \<bind> (\<lambda>x. ret (x, True, False))) s2
        (True, True, False) ?e None"
      if s2: "db s2 = empty_db" "begun s2 = None" for s2
      by (rule runs_to_bind [OF runs_import_json [OF E parse _ rows(4,6) s2(2)]])
        (use s2 rows(2) in \<open>auto intro: runs_to_ret\<close>)
    show "runs_to disk (lift (sql_ok E) \<bind> (\<lambda>ok.
        if \<not> ok then ret (False, ok \<and> member_of ''initialized'' (the (json_parse E (json_pretty E ?j @ [10]))) = Some (JBool True), False)
        else if \<not> (ok \<and> member_of ''initialized'' (the (json_parse E (json_pretty E ?j @ [10]))) = Some (JBool True)) \<and> \<not> False
          then ret (False, ok \<and> member_of ''initialized'' (the (json_parse E (json_pretty E ?j @ [10]))) = Some (JBool True), False)
        else if ok \<and> member_of ''initialized'' (the (json_parse E (json_pretty E ?j @ [10]))) = Some (JBool True)
          then import_json E (json_pretty E ?j @ [10]) \<bind> (\<lambda>oka.
             ret (oka, ok \<and> member_of ''initialized'' (the (json_parse E (json_pretty E ?j @ [10]))) = Some (JBool True), False))
        else ret (True, ok \<and> member_of ''initialized'' (the (json_parse E (json_pretty E ?j @ [10]))) = Some (JBool True), False)))
       s1 (True, True, False) ?e None"
      by (rule runs_to_bind [OF runs_sql [OF E s1(1,2)]]) (simp add: parse init imp)
  qed
  then show ?thesis
    using rows(1,3,5) by (intro exI [where x = ?e]) simp
qed

lemma runs_load_local:
  assumes E: "reads_well E disk used" and k: "db_keys_ok d"
    and c: "disk (world s) (in_directory dir (W ''local.json'')) = Some (json_pretty E (snapshot_json d True) @ [10])"
    and len: "length (json_pretty E (snapshot_json d True)) < JSON_LIMIT"
    and ok: "json_ok E (snapshot_json d True)" and v: "document_valid (snapshot_json d True)"
    and s: "db s = e" "begun s = None"
    and e: "mset (settings e) = mset (filter (\<lambda>r. \<not> local_state (fst r)) (settings d))"
      "mset (workspaces e) = mset (workspaces d)" "mset (items e) = mset (items d)"
  shows "\<exists>m e'. runs_to disk (config_json_load_local E dir) s (True, m) (fst (clamp_selections e')) None \<and> same_rows e' d"
proof -
  let ?j = "snapshot_json d True"
  let ?e = "replace_settings ?j e"
  let ?m = "list_ex (\<lambda>r. local_state (fst r)) (settings e)"
  have parse: "json_parse E (json_pretty E ?j @ [10]) = Some ?j" using ok by (simp add: json_ok_def)
  have las: "map_of (settings ?e) = map_of (settings d)" "local_document_ok ?j"
    using local_after_shared [of d "settings e" e] k e(1) by (simp_all add: db_keys_ok_def)
  have rows: "workspaces ?e = workspaces e" "items ?e = items e"
    using fold_upsert [of _ e] unfolding replace_settings_def by blast+
  have "same_rows ?e d" using las(1) e rows by (simp add: same_rows_def)
  moreover have "runs_to disk (config_json_load_local E dir) s
      (True, ?m \<or> snd (clamp_selections ?e) > 0) (fst (clamp_selections ?e)) None"
    unfolding config_json_load_local_def
  proof (rule runs_to_bind [where x = e and d = e and t = None])
    show "runs_to disk (gets db) s e e None" using s by (simp add: runs_to_def wp)
    fix s1 assume s1: "db s1 = e" "begun s1 = None" "disk (world s1) = disk (world s)"
    have c1: "disk (world s1) (in_directory dir (W ''local.json'')) = Some (json_pretty E ?j @ [10])"
      using c s1(3) by simp
    show "runs_to disk (sql_test E ?m \<bind> (\<lambda>migrate. read_document E dir (W ''local.json'') \<bind> (\<lambda>doc.
        case doc of DocMissing \<Rightarrow> ret (True, migrate) | DocBad \<Rightarrow> ret (False, migrate)
        | DocText text \<Rightarrow> (let j = the (json_parse E text) in
            and_then (sql_test E (local_document_ok j)) (sql_change E (\<lambda>d. Some (replace_settings j d))) \<bind> (\<lambda>ok.
            if \<not> ok then ret (False, migrate)
            else gets db \<bind> (\<lambda>d. sql_change E (\<lambda>d. Some (fst (clamp_selections d))) \<bind> (\<lambda>ok.
              ret (ok, migrate \<or> ok \<and> 0 < snd (clamp_selections d)))))))))
        s1 (True, ?m \<or> snd (clamp_selections ?e) > 0) (fst (clamp_selections ?e)) None"
    proof (rule runs_to_bind [OF runs_test [OF E s1(1,2)]])
      fix s2 assume s2: "db s2 = e" "begun s2 = None" "disk (world s2) = disk (world s1)"
      have c2: "disk (world s2) (in_directory dir (W ''local.json'')) = Some (json_pretty E ?j @ [10])"
        using c1 s2(3) by simp
      have put: "runs_to disk (and_then (sql_test E (local_document_ok ?j)) (sql_change E (\<lambda>d. Some (replace_settings ?j d))))
          s3 True ?e None" if s3: "db s3 = e" "begun s3 = None" for s3
        by (rule runs_to_and_then [where d = e and t = None])
          (use runs_test [OF E s3, of True] in \<open>simp_all add: las(2) runs_change [OF E]\<close>)
      have clamp: "runs_to disk (gets db \<bind> (\<lambda>d. sql_change E (\<lambda>d. Some (fst (clamp_selections d))) \<bind> (\<lambda>ok.
            ret (ok, ?m \<or> ok \<and> 0 < snd (clamp_selections d))))) s4
          (True, ?m \<or> snd (clamp_selections ?e) > 0) (fst (clamp_selections ?e)) None"
        if s4: "db s4 = ?e" "begun s4 = None" for s4
      proof (rule runs_to_bind [where x = ?e and d = ?e and t = None])
        show "runs_to disk (gets db) s4 ?e ?e None" using s4 by (simp add: runs_to_def wp)
        fix s5 assume s5: "db s5 = ?e" "begun s5 = None" "disk (world s5) = disk (world s4)"
        have ch: "runs_to disk (sql_change E (\<lambda>d. Some (fst (clamp_selections d)))) s5 True (fst (clamp_selections ?e)) None"
          by (rule runs_change [OF E]) (simp_all add: s5)
        show "runs_to disk (sql_change E (\<lambda>d. Some (fst (clamp_selections d))) \<bind> (\<lambda>ok.
              ret (ok, ?m \<or> ok \<and> 0 < snd (clamp_selections ?e)))) s5
            (True, ?m \<or> snd (clamp_selections ?e) > 0) (fst (clamp_selections ?e)) None"
          by (rule runs_to_bind [OF ch]) (simp add: runs_to_ret)
      qed
      show "runs_to disk (read_document E dir (W ''local.json'') \<bind> (\<lambda>doc.
          case doc of DocMissing \<Rightarrow> ret (True, ?m) | DocBad \<Rightarrow> ret (False, ?m)
          | DocText text \<Rightarrow> (let j = the (json_parse E text) in
              and_then (sql_test E (local_document_ok j)) (sql_change E (\<lambda>d. Some (replace_settings j d))) \<bind> (\<lambda>ok.
              if \<not> ok then ret (False, ?m)
              else gets db \<bind> (\<lambda>d. sql_change E (\<lambda>d. Some (fst (clamp_selections d))) \<bind> (\<lambda>ok.
                ret (ok, ?m \<or> ok \<and> 0 < snd (clamp_selections d))))))))
          s2 (True, ?m \<or> snd (clamp_selections ?e) > 0) (fst (clamp_selections ?e)) None"
      proof (rule runs_to_bind [OF runs_read_document [OF E c2 len ok v s2(1,2)]])
        fix s3 assume s3: "db s3 = e" "begun s3 = None" "disk (world s3) = disk (world s2)"
        show "runs_to disk (case DocText (json_pretty E ?j @ [10]) of DocMissing \<Rightarrow> ret (True, ?m) | DocBad \<Rightarrow> ret (False, ?m)
          | DocText text \<Rightarrow> (let j = the (json_parse E text) in
              and_then (sql_test E (local_document_ok j)) (sql_change E (\<lambda>d. Some (replace_settings j d))) \<bind> (\<lambda>ok.
              if \<not> ok then ret (False, ?m)
              else gets db \<bind> (\<lambda>d. sql_change E (\<lambda>d. Some (fst (clamp_selections d))) \<bind> (\<lambda>ok.
                ret (ok, ?m \<or> ok \<and> 0 < snd (clamp_selections d)))))))
          s3 (True, ?m \<or> snd (clamp_selections ?e) > 0) (fst (clamp_selections ?e)) None"
          unfolding document.case Let_def parse option.sel
          by (rule runs_to_bind [OF put [OF s3(1,2)]]) (simp add: clamp)
      qed
    qed
  qed
  ultimately show ?thesis by blast
qed

text \<open>C9 (roundtrip): what a transaction published is what the next start reads: with the two documents
  as \<open>config_commit_atomic\<close> leaves them and an environment that answers, loading \<open>runtime.json\<close> and
  then \<open>local.json\<close> into an empty database succeeds, asks for no migration of the shared part, and
  gives the rows of the database that was committed (settings as a map, workspaces and items as
  multisets), after the one normalisation the reader makes, of a selected tab that no longer exists.\<close>

theorem config_documents_roundtrip:
  assumes "reads_well E disk used" and "db_keys_ok d" and "db_within d"
    and "json_ok E (snapshot_json d False)" and "json_ok E (snapshot_json d True)"
    and "disk (world s) (in_directory dir (W ''runtime.json'')) = Some (json_pretty E (snapshot_json d False) @ [10])"
    and "disk (world s) (in_directory dir (W ''local.json'')) = Some (json_pretty E (snapshot_json d True) @ [10])"
    and "length (json_pretty E (snapshot_json d False)) < JSON_LIMIT"
    and "length (json_pretty E (snapshot_json d True)) < JSON_LIMIT"
    and "db s = empty_db" and "begun s = None"
    and "run_state (do { shared \<leftarrow> config_json_load E dir; local \<leftarrow> config_json_load_local E dir; ret (shared, local) }) s
         = (((ok, initialized, migrate), (ok', m)), s')"
  shows "ok \<and> initialized \<and> \<not> migrate \<and> ok' \<and> (\<exists>e. same_rows e d \<and> db s' = fst (clamp_selections e))"
proof -
  note E = assms(1)
  have v: "document_valid (snapshot_json d b)" for b by (rule snapshot_valid [OF assms(2,3)])
  obtain e where load: "runs_to disk (config_json_load E dir) s (True, True, False) e None"
    and e: "mset (settings e) = mset (filter (\<lambda>r. \<not> local_state (fst r)) (settings d))"
      "mset (workspaces e) = mset (workspaces d)" "mset (items e) = mset (items d)"
    using runs_load [OF E assms(2,6,8,4) v assms(10,11)] by blast
  have "wp (do { shared \<leftarrow> config_json_load E dir; local \<leftarrow> config_json_load_local E dir; ret (shared, local) })
      (\<lambda>r s'. fst r = (True, True, False) \<and> fst (snd r) \<and> (\<exists>e. same_rows e d \<and> db s' = fst (clamp_selections e))) s"
    unfolding wp_bind
  proof (rule wp_mono [OF load [unfolded runs_to_def]], elim conjE, simp only: wp_bind)
    fix s1 :: "('a, 'c) Session_scheme"
    assume s1: "db s1 = e" "begun s1 = None" "disk (world s1) = disk (world s)"
    obtain m e' where l: "runs_to disk (config_json_load_local E dir) s1 (True, m) (fst (clamp_selections e')) None"
      and e': "same_rows e' d"
      using runs_load_local [OF E assms(2) _ assms(9,5) v s1(1,2) e, of dir] assms(7) s1(3) by auto
    show "wp (config_json_load_local E dir) (\<lambda>x. wp (ret ((True, True, False), x)) (\<lambda>r s'. fst r = (True, True, False)
        \<and> fst (snd r) \<and> (\<exists>e. same_rows e d \<and> db s' = fst (clamp_selections e)))) s1"
      by (rule wp_mono [OF l [unfolded runs_to_def]]) (use e' in \<open>auto simp: wp\<close>)
  qed
  from wpD [OF this assms(12)] show ?thesis by simp
qed

definition sample_db :: Db where
  "sample_db = \<lparr>settings = [((W ''app'', W ''Nova'', W ''Active''), W ''1''), ((W ''files'', W ''Manager'', W ''Count''), W ''2'')],
     workspaces = [(7, 0, W ''Home'')], items = [(9, 7, 0, W ''Editor'', W ''e.exe'')]\<rparr>"

definition sample_env :: "sim_world config_env" where
  "sample_env = sim_config
     \<lparr>f_read := (\<lambda>p w. (case fst w p of None \<Rightarrow> ReadNotFound | Some c \<Rightarrow> ReadOpened (Some (length c)) (Some c), w)),
      json_pretty := (\<lambda>j. if j = snapshot_json sample_db False then [123] else [91]),
      json_parse := (\<lambda>t. if t = [123, 10] then Some (snapshot_json sample_db False)
         else if t = [91, 10] then Some (snapshot_json sample_db True) else None)\<rparr>"

definition sample_session :: "sim_world Session" where
  "sample_session = \<lparr>db = empty_db, begun = None,
     world = ([in_directory (W ''d'') (W ''runtime.json'') \<mapsto> [123, 10], in_directory (W ''d'') (W ''local.json'') \<mapsto> [91, 10]], 0, []),
     restore_errors = 0\<rparr>"

lemma sample_reads: "reads_well sample_env fst sim_used"
proof -
  have c: "config_ok sim_config fst sim_used" by (rule sim_config_ok)
  have r: "read_ok sample_env fst sim_used"
    unfolding read_ok_def by (auto simp: sample_env_def split: option.splits)
  have sel: "f_attributes sample_env = f_attributes sim_config"
    "f_create_new sample_env = f_create_new sim_config" "f_write sample_env = f_write sim_config"
    "f_flush sample_env = f_flush sim_config" "f_delete sample_env = f_delete sim_config"
    "f_copy_new sample_env = f_copy_new sim_config" "f_replace sample_env = f_replace sim_config"
    "f_move sample_env = f_move sim_config" "f_nonce sample_env = f_nonce sim_config"
    "sql_ok sample_env = sql_ok sim_config"
    by (simp_all add: sample_env_def)
  have "config_ok sample_env fst sim_used"
    using c r unfolding config_ok_def files_ok_def attributes_ok_def create_ok_def write_ok_def flush_ok_def
      delete_ok_def copy_ok_def replace_ok_def move_ok_def nonce_ok_def sel
    by - (elim conjE, intro conjI; assumption)
  moreover have "calm sample_env fst"
    by (simp add: calm_def sample_env_def sim_config_def win_files.defs)
  ultimately show ?thesis by (simp add: reads_well_def)
qed

lemma sample_json: "snapshot_json sample_db True \<noteq> snapshot_json sample_db False"
  by code_simp

lemma sample_pretty: "json_pretty sample_env (snapshot_json sample_db False) = [123]"
  "json_pretty sample_env (snapshot_json sample_db True) = [91]"
  using sample_json by (simp_all add: sample_env_def)

lemma sample_json_ok: "json_ok sample_env (snapshot_json sample_db b)"
  using sample_json by (cases b) (simp_all add: json_ok_def sample_env_def sim_config_def win_files.defs skip_bom_def)

lemma sample_db_ok: "db_keys_ok sample_db" "db_within sample_db"
  by code_simp+

theorem config_documents_roundtrip_witness:
  "\<exists>x y s'. run_state (do { shared \<leftarrow> config_json_load sample_env (W ''d''); local \<leftarrow> config_json_load_local sample_env (W ''d'');
       ret (shared, local) }) sample_session = ((x, y), s')
     \<and> x = (True, True, False) \<and> (\<exists>e. same_rows e sample_db \<and> db s' = fst (clamp_selections e))"
proof -
  obtain ok initialized migrate ok' m s' where r: "run_state (do { shared \<leftarrow> config_json_load sample_env (W ''d'');
      local \<leftarrow> config_json_load_local sample_env (W ''d''); ret (shared, local) }) sample_session
      = (((ok, initialized, migrate), (ok', m)), s')"
    by (metis prod.exhaust)
  have "ok \<and> initialized \<and> \<not> migrate \<and> ok' \<and> (\<exists>e. same_rows e sample_db \<and> db s' = fst (clamp_selections e))"
    by (rule config_documents_roundtrip [OF sample_reads sample_db_ok sample_json_ok sample_json_ok _ _ _ _ _ _ r])
      (simp_all add: sample_pretty sample_session_def JSON_LIMIT_def)
  with r show ?thesis by auto
qed

end
