(* ===== verification/Storage.thy ===== *)
theory Storage
  imports Config_Json Workspace
begin

text \<open>
  \<open>src/src/platform/storage.c\<close>, first part: the single connection of the user interface, its
  transactions, the settings and the workspaces. The static variables of the file are the fields of
  \<open>Store\<close> beside the database, and the database handle is NULL when \<open>is_open\<close> is false. A statement
  is its calls of SQLite in order (prepare, bind, step), each of which may fail as \<open>sql_ok\<close> decides;
  \<open>check\<close> is where a failure poisons the transaction. Log entries and messages are not modelled.
\<close>

subsection \<open>State and environment\<close>

record 'w Store = "'w Session" +
  is_open :: bool
  transaction_failed :: bool
  is_opening :: bool
  open_changed :: bool
  root :: wstr
  legacy_root :: wstr

record 'w store_env = "'w config_env" +
  random64 :: "'w \<Rightarrow> 64 word \<times> 'w"       \<comment> \<open>\<open>sqlite3_randomness\<close>\<close>
  ieq :: "wstr \<Rightarrow> wstr \<Rightarrow> bool"            \<comment> \<open>\<open>!lstrcmpiW\<close>\<close>
  english :: bool                          \<comment> \<open>\<open>nova_english\<close>\<close>

type_synonym ('w, 'z, 'a) store_cmd = "(('w, 'z) Store_scheme, 'a) state"

definition nova_text :: "('w, 'y) store_env_scheme \<Rightarrow> wstr \<Rightarrow> wstr \<Rightarrow> wstr" where
  "nova_text E zh_cn en = (if english E then en else zh_cn)"

definition c_text :: "wstr \<Rightarrow> wstr" where
  \<comment> \<open>a text of a row as a C string: up to the first NUL\<close>
  "c_text v = takeWhile (\<lambda>c. c \<noteq> 0) v"

definition lstrcpyn :: "wstr \<Rightarrow> nat \<Rightarrow> wstr" where
  "lstrcpyn s capacity = take (capacity - 1) s"

subsection \<open>Statements\<close>

definition check :: "bool \<Rightarrow> ('w, 'z, bool) store_cmd" where
  "check ok = do { (if ok then ret () else modify (\<lambda>s. s\<lparr>transaction_failed := True\<rparr>)); ret ok }"

definition sql_call :: "('w, 'y) store_env_scheme \<Rightarrow> ('w, 'z, bool) store_cmd" where
  "sql_call E = do { ok \<leftarrow> lift (sql_ok E); check ok }"

definition prepare :: "('w, 'y) store_env_scheme \<Rightarrow> ('w, 'z, bool) store_cmd" where
  "prepare E = do { present \<leftarrow> gets is_open; if \<not> present then ret False else sql_call E }"

definition bind_text :: "('w, 'y) store_env_scheme \<Rightarrow> ('w, 'z, bool) store_cmd" where
  "bind_text E = sql_call E"

definition finish :: "('w, 'y) store_env_scheme \<Rightarrow> (Db \<Rightarrow> Db option) \<Rightarrow> ('w, 'z, bool) store_cmd" where
  \<comment> \<open>the step that changes the tables, and \<open>sqlite3_finalize\<close>, which returns the error of the step\<close>
  "finish E f = do { ok \<leftarrow> sql_change E f; check ok }"

subsection \<open>Transactions\<close>

definition store_begin :: "('w, 'y) store_env_scheme \<Rightarrow> ('w, 'z, bool) store_cmd" where
  "store_begin E = do {
     present \<leftarrow> gets is_open;
     if \<not> present then ret False
     else do {
       modify (\<lambda>s. s\<lparr>transaction_failed := False\<rparr>);
       ok \<leftarrow> sql_begin E;
       check ok } }"

definition store_end :: "('w, 'y) store_env_scheme \<Rightarrow> bool \<Rightarrow> ('w, 'z, bool) store_cmd" where
  "store_end E success = do {
     present \<leftarrow> gets is_open;
     failed \<leftarrow> gets transaction_failed;
     if \<not> present then ret False
     else if \<not> success \<or> failed then do { sql_rollback; ret False }
     else do {
       at_open \<leftarrow> gets is_opening;
       directory \<leftarrow> gets root;
       published \<leftarrow> (if at_open then do {
                         ok \<leftarrow> sql_commit E;
                         ok \<leftarrow> check ok;
                         (if ok then modify (\<lambda>s. s\<lparr>open_changed := True\<rparr>) else ret ());
                         ret ok }
                       else config_json_commit E directory);
       if published then ret True else do { sql_rollback; ret False } } }"

definition store_close :: "('w, 'z, unit) store_cmd" where
  "store_close = modify (\<lambda>s. s\<lparr>db := empty_db, begun := None, is_open := False, root := [], legacy_root := [],
     is_opening := False, open_changed := False\<rparr>)"

definition in_transaction ::
    "('w, 'y) store_env_scheme \<Rightarrow> ('w, 'z, bool) store_cmd \<Rightarrow> ('w, 'z, bool) store_cmd" where
  \<comment> \<open>\<open>BOOL own=sqlite3_get_autocommit(db);if(own&&!store_begin())return FALSE; ...
      return own?store_end(ok):ok;\<close>\<close>
  "in_transaction E body = do {
     present \<leftarrow> gets is_open;
     if \<not> present then ret False
     else do {
       own \<leftarrow> gets (\<lambda>s. begun s = None);
       started \<leftarrow> (if own then store_begin E else ret True);
       if \<not> started then ret False
       else do { ok \<leftarrow> body; if own then store_end E ok else ret ok } } }"

definition transaction ::
    "('w, 'y) store_env_scheme \<Rightarrow> ('w, 'z, bool) store_cmd \<Rightarrow> ('w, 'z, bool) store_cmd" where
  \<comment> \<open>\<open>if(!store_begin())return FALSE; ... return store_end(ok);\<close>\<close>
  "transaction E body = do { started \<leftarrow> store_begin E; if \<not> started then ret False else do { ok \<leftarrow> body; store_end E ok } }"

subsection \<open>Settings\<close>

definition select_row ::
    "('w, 'y) store_env_scheme \<Rightarrow> setting_key \<Rightarrow> nat \<Rightarrow> ('w, 'z, (bool \<times> wstr option) option) store_cmd" where
  \<comment> \<open>\<open>SELECT value FROM settings WHERE ...\<close> with \<open>n\<close> bound texts: \<open>None\<close> when it cannot be prepared,
     else whether the step succeeded, and its row; a text that is not bound selects nothing\<close>
  "select_row E k n = do {
     prepared \<leftarrow> prepare E;
     if \<not> prepared then ret None
     else do {
       bound \<leftarrow> each_ok True (replicate n (bind_text E));
       stepped \<leftarrow> lift (sql_ok E);
       d \<leftarrow> gets db;
       ret (Some (stepped, if stepped \<and> bound then select_setting k d else None)) } }"

definition store_get ::
    "('w, 'y) store_env_scheme \<Rightarrow> wstr \<Rightarrow> wstr \<Rightarrow> wstr \<Rightarrow> wstr \<Rightarrow> nat \<Rightarrow> ('w, 'z, bool \<times> wstr) store_cmd" where
  "store_get E scope section key fallback capacity = do {
     row \<leftarrow> select_row E (scope, section, key) 3;
     case row of
       None \<Rightarrow> ret (False, lstrcpyn fallback capacity)
     | Some (stepped, value) \<Rightarrow> do {
         ok \<leftarrow> check stepped;
         ret (ok, case value of None \<Rightarrow> lstrcpyn fallback capacity | Some v \<Rightarrow> lstrcpyn (c_text v) capacity) } }"

definition store_int ::
    "('w, 'y) store_env_scheme \<Rightarrow> wstr \<Rightarrow> wstr \<Rightarrow> wstr \<Rightarrow> int \<Rightarrow> ('w, 'z, int) store_cmd" where
  "store_int E scope section key fallback = do {
     r \<leftarrow> store_get E scope section key [] 48;
     let value = snd r;
     ret (if value = [] then fallback
          else if p_rest (wcstol value) \<noteq> [] then fallback else p_value (wcstol value)) }"

definition store_set ::
    "('w, 'y) store_env_scheme \<Rightarrow> wstr \<Rightarrow> wstr \<Rightarrow> wstr \<Rightarrow> wstr \<Rightarrow> ('w, 'z, bool) store_cmd" where
  "store_set E scope section key value = in_transaction E (do {
     ok \<leftarrow> all_ok [prepare E, bind_text E, bind_text E, bind_text E, bind_text E];
     if ok then finish E (\<lambda>d. Some (upsert_setting (scope, section, key) value d)) else ret False })"

definition store_set_int ::
    "('w, 'y) store_env_scheme \<Rightarrow> wstr \<Rightarrow> wstr \<Rightarrow> wstr \<Rightarrow> int \<Rightarrow> ('w, 'z, bool) store_cmd" where
  "store_set_int E scope section key value = store_set E scope section key (dec value)"

definition store_clear :: "('w, 'y) store_env_scheme \<Rightarrow> wstr \<Rightarrow> ('w, 'z, bool) store_cmd" where
  "store_clear E scope = in_transaction E (do {
     ok \<leftarrow> all_ok [prepare E, bind_text E];
     if ok then finish E (\<lambda>d. Some (delete_scope scope d)) else ret False })"

subsection \<open>Identifiers\<close>

definition masked_id :: "64 word \<Rightarrow> int" where
  "masked_id r = uint (and r 0x7fffffffffffffff)"

partial_function (option) draw_id :: "('w \<Rightarrow> 64 word \<times> 'w) \<Rightarrow> 'w \<Rightarrow> (int \<times> 'w) option" where
  \<comment> \<open>\<open>do{...}while(!id)\<close>; \<open>None\<close>: the loop does not end\<close>
  "draw_id random w = (case random w of (r, w') \<Rightarrow>
     if masked_id r = 0 then draw_id random w' else Some (masked_id r, w'))"

definition store_new_id :: "('w, 'y) store_env_scheme \<Rightarrow> ('w, 'z, int) store_cmd" where
  \<comment> \<open>0 stands for a draw that does not end; a draw that ends is never 0\<close>
  "store_new_id E = lift (\<lambda>w. case draw_id (random64 E) w of Some r \<Rightarrow> r | None \<Rightarrow> (0, w))"

subsection \<open>Workspaces\<close>

fun load_workspace_rows ::
    "('w, 'y) store_env_scheme \<Rightarrow> int \<Rightarrow> (int \<times> int \<times> wstr) list \<Rightarrow> Workspace list
     \<Rightarrow> ('w, 'z, int \<times> Workspace list) store_cmd" where
  \<comment> \<open>the loop over the rows; the array keeps what was read before an error\<close>
  "load_workspace_rows E n rows spaces = do {
     stepped \<leftarrow> lift (sql_ok E);
     if \<not> stepped then do { check False; ret (-1, spaces) }
     else (case rows of
       [] \<Rightarrow> ret (n, spaces)
     | (ident, _, name) # rows' \<Rightarrow> do {
         d \<leftarrow> gets db;
         let count = length (filter (\<lambda>r. fst (snd r) = ident) (items d));
         if n = int MAX_WORKSPACES \<or> count > MAX_APPS then ret (-1, spaces)
         else if ident \<le> 0 \<or> length name * 2 \<ge> 40 * 2 \<or> length name * 2 = 0 then ret (-1, spaces)
         else load_workspace_rows E (n + 1) rows' (spaces[nat n := zero_workspace
           \<lparr>ws_id := ident, ws_name := lstrcpyn (c_text name) 40, app_count := int count\<rparr>]) }) }"

declare load_workspace_rows.simps [simp del]

definition store_load_workspaces ::
    "('w, 'y) store_env_scheme \<Rightarrow> Workspace list \<Rightarrow> ('w, 'z, int \<times> Workspace list) store_cmd" where
  "store_load_workspaces E spaces = do {
     prepared \<leftarrow> prepare E;
     if \<not> prepared then ret (-1, spaces)
     else do { d \<leftarrow> gets db; load_workspace_rows E 0 (workspaces_ordered d) spaces } }"

fun load_item_rows ::
    "('w, 'y) store_env_scheme \<Rightarrow> nat \<Rightarrow> (int \<times> int \<times> wstr \<times> wstr) list \<Rightarrow> Workspace
     \<Rightarrow> ('w, 'z, bool \<times> Workspace) store_cmd" where
  "load_item_rows E n rows w = do {
     stepped \<leftarrow> lift (sql_ok E);
     if \<not> stepped then do { check False; ret (False, w) }
     else (case rows of
       [] \<Rightarrow> ret (True, w\<lparr>app_count := int n, items_loaded := 1\<rparr>)
     | (_, ident, name, target) # rows' \<Rightarrow>
         if n \<ge> MAX_APPS then ret (False, w)
         else if ident \<le> 0 \<or> length name * 2 \<ge> 64 * 2 \<or> length target * 2 \<ge> NOVA_PATH_CAP * 2 then ret (False, w)
         else (let item = \<lparr>ai_name = lstrcpyn (c_text name) 64, ai_target = lstrcpyn (c_text target) NOVA_PATH_CAP,
                           ai_id = ident\<rparr>;
                   w' = w\<lparr>apps := (apps w)[n := item]\<rparr>
               in if list_ex (\<lambda>i. ieq E (ai_target (apps w' ! i)) (ai_target item)) [0..<n] then ret (False, w')
                  else load_item_rows E (n + 1) rows' w')) }"

declare load_item_rows.simps [simp del]

definition store_load_items ::
    "('w, 'y) store_env_scheme \<Rightarrow> Workspace \<Rightarrow> ('w, 'z, bool \<times> Workspace) store_cmd" where
  "store_load_items E w =
     (if items_loaded w \<noteq> 0 then ret (True, w)
      else do {
        prepared \<leftarrow> prepare E;
        if \<not> prepared then ret (False, w)
        else do { d \<leftarrow> gets db; load_item_rows E 0 (items_of (ws_id w) d) w } })"

fun save_workspace_rows ::
    "('w, 'y) store_env_scheme \<Rightarrow> nat \<Rightarrow> Workspace list \<Rightarrow> ('w, 'z, bool \<times> Workspace list) store_cmd" where
  \<comment> \<open>the first loop of \<open>save_workspaces_impl\<close>, from index \<open>i\<close>: new identifiers are stored in the array\<close>
  "save_workspace_rows E i [] = ret (True, [])"
| "save_workspace_rows E i (w # ws) = do {
     ident \<leftarrow> (if ws_id w = 0 then store_new_id E else ret (ws_id w));
     let w = w\<lparr>ws_id := ident\<rparr>;
     prepared \<leftarrow> prepare E;
     if \<not> prepared then ret (False, w # ws)
     else do {
       bound \<leftarrow> bind_text E;
       ok \<leftarrow> finish E (\<lambda>d. if bound then Some (upsert_workspace ident (int i) (ws_name w) d) else None);
       if \<not> ok then ret (False, w # ws)
       else do { r \<leftarrow> save_workspace_rows E (Suc i) ws; ret (fst r, w # snd r) } } }"

definition delete_removed_workspaces ::
    "('w, 'y) store_env_scheme \<Rightarrow> Workspace list \<Rightarrow> ('w, 'z, bool) store_cmd" where
  "delete_removed_workspaces E ws = do {
     prepared \<leftarrow> prepare E;
     if \<not> prepared then ret False
     else finish E (\<lambda>d. Some (delete_workspaces_except (map ws_id ws @ replicate (MAX_WORKSPACES - length ws) 0) d)) }"

definition delete_removed_items ::
    "('w, 'y) store_env_scheme \<Rightarrow> Workspace \<Rightarrow> ('w, 'z, bool) store_cmd" where
  "delete_removed_items E w =
     (if items_loaded w = 0 then ret True
      else if app_count w < 0 \<or> app_count w > int MAX_APPS then ret False
      else do {
        prepared \<leftarrow> prepare E;
        if \<not> prepared then ret False
        else finish E (\<lambda>d. Some (delete_items_except (ws_id w)
          (map ai_id (take (nat (app_count w)) (apps w)) @ replicate (MAX_APPS - nat (app_count w)) 0) d)) })"

fun save_item_rows ::
    "('w, 'y) store_env_scheme \<Rightarrow> int \<Rightarrow> nat \<Rightarrow> AppItem list \<Rightarrow> ('w, 'z, bool \<times> AppItem list) store_cmd" where
  "save_item_rows E w j [] = ret (True, [])"
| "save_item_rows E w j (a # as) = do {
     ident \<leftarrow> (if ai_id a = 0 then store_new_id E else ret (ai_id a));
     let a = a\<lparr>ai_id := ident\<rparr>;
     prepared \<leftarrow> prepare E;
     if \<not> prepared then ret (False, a # as)
     else do {
       bound \<leftarrow> each_ok True [bind_text E, bind_text E];
       ok \<leftarrow> finish E (\<lambda>d. if bound then upsert_item ident w (int j) (ai_name a) (ai_target a) d else None);
       if \<not> ok then ret (False, a # as)
       else do { r \<leftarrow> save_item_rows E w (Suc j) as; ret (fst r, a # snd r) } } }"

fun save_all_items ::
    "('w, 'y) store_env_scheme \<Rightarrow> Workspace list \<Rightarrow> ('w, 'z, bool \<times> Workspace list) store_cmd" where
  "save_all_items E [] = ret (True, [])"
| "save_all_items E (w # ws) =
     (if items_loaded w = 0 then do { r \<leftarrow> save_all_items E ws; ret (fst r, w # snd r) }
      else if app_count w < 0 \<or> app_count w > int MAX_APPS then ret (False, w # ws)
      else do {
        r \<leftarrow> save_item_rows E (ws_id w) 0 (take (nat (app_count w)) (apps w));
        let w = w\<lparr>apps := snd r @ drop (nat (app_count w)) (apps w)\<rparr>;
        if \<not> fst r then ret (False, w # ws)
        else do { r \<leftarrow> save_all_items E ws; ret (fst r, w # snd r) } })"

definition save_workspaces_body ::
    "('w, 'y) store_env_scheme \<Rightarrow> Workspace list \<Rightarrow> int \<Rightarrow> bool \<Rightarrow> ('w, 'z, bool \<times> Workspace list) store_cmd" where
  \<comment> \<open>the statements between \<open>store_begin\<close> and \<open>store_end\<close>, on the first \<open>count\<close> workspaces\<close>
  "save_workspaces_body E spaces active pinned = do {
     r \<leftarrow> save_workspace_rows E 0 spaces;
     let ok = fst r;
     let spaces = snd r;
     removed \<leftarrow> delete_removed_workspaces E spaces;
     let ok = removed \<and> ok;
     ok \<leftarrow> (if ok then all_ok (map (delete_removed_items E) spaces) else ret False);
     r \<leftarrow> (if ok then save_all_items E spaces else ret (False, spaces));
     let ok = fst r;
     let spaces = snd r;
     ok \<leftarrow> each_ok ok [store_set_int E (W ''app'') (W ''Nova'') (W ''Active'') active,
                      store_set_int E (W ''app'') (W ''Nova'') (W ''AlwaysOnTop'') (if pinned then 1 else 0)];
     ret (ok, spaces) }"

definition store_save_workspaces ::
    "('w, 'y) store_env_scheme \<Rightarrow> Workspace list \<Rightarrow> int \<Rightarrow> int \<Rightarrow> bool \<Rightarrow> ('w, 'z, bool \<times> Workspace list) store_cmd" where
  "store_save_workspaces E spaces n active pinned = do {
     present \<leftarrow> gets is_open;
     if n < 1 \<or> n > int MAX_WORKSPACES \<or> \<not> present then ret (False, spaces)
     else do {
       own \<leftarrow> gets (\<lambda>s. begun s = None);
       started \<leftarrow> (if own then store_begin E else ret True);
       if \<not> started then ret (False, spaces)
       else do {
         r \<leftarrow> save_workspaces_body E (take (nat n) spaces) active pinned;
         ok \<leftarrow> (if own then store_end E (fst r) else ret (fst r));
         ret (ok, snd r @ drop (nat n) spaces) } } }"

subsection \<open>What publication leaves alone\<close>

lemma keeps_lift [keeps]: "keeps Session.more (lift f)"
  by (simp add: keeps_def wp_lift)

lemma keeps_write_temp [keeps]: "keeps Session.more (write_temp E path json)"
  unfolding write_temp_def Let_def by (intro keeps)

lemma keeps_prepare_publication [keeps]: "keeps Session.more (prepare_publication E d name json)"
  unfolding prepare_publication_def temp_path_def Let_def
  by (intro keeps) (auto split: file_read.splits intro!: keeps)

lemma keeps_publish_all [keeps]: "keeps Session.more (publish_all E ok ps)"
  by (induction E ok ps rule: publish_all.induct) (auto intro!: keeps)

lemma keeps_restore_all [keeps]: "keeps Session.more (restore_all E ps)"
  by (induction E ps rule: restore_all.induct) (auto intro!: keeps keeps_modify)

lemma keeps_clean_all [keeps]: "keeps Session.more (clean_all E ok ps)"
  by (induction E ok ps rule: clean_all.induct) (auto intro!: keeps)

lemma keeps_sql [keeps]: "keeps Session.more (sql_begin E)" "keeps Session.more (sql_commit E)"
  "keeps Session.more sql_rollback" "keeps Session.more (sql_change E g)"
  unfolding sql_begin_def sql_commit_def sql_rollback_def sql_change_def
  by (auto intro!: keeps keeps_modify split: option.splits)

lemma keeps_commit: "keeps Session.more (config_json_commit E d)"
  unfolding config_json_commit_def commit_prepare_def commit_finish_def snapshot_def Let_def
  by (intro keeps)

subsection \<open>Commands inside a transaction\<close>

definition in_tx :: "('w \<Rightarrow> 'd) \<Rightarrow> ('w, 'z) Store_scheme \<Rightarrow> ('w, 'z) Store_scheme \<Rightarrow> bool" where
  \<comment> \<open>what a statement inside a transaction may change: the tables, and the transaction becomes poisoned\<close>
  "in_tx disk s s' \<longleftrightarrow> begun s' = begun s \<and> is_open s' = is_open s \<and> is_opening s' = is_opening s
     \<and> open_changed s' = open_changed s \<and> root s' = root s \<and> legacy_root s' = legacy_root s
     \<and> restore_errors s' = restore_errors s
     \<and> disk (world s') = disk (world s) \<and> (transaction_failed s \<longrightarrow> transaction_failed s')"

lemma in_tx_refl [simp]: "in_tx disk s s"
  and in_tx_trans: "in_tx disk s t \<Longrightarrow> in_tx disk t u \<Longrightarrow> in_tx disk s u"
  by (simp_all add: in_tx_def)

definition quiet :: "('w \<Rightarrow> 'd) \<Rightarrow> ('w, 'z, 'a) store_cmd \<Rightarrow> bool" where
  "quiet disk c \<longleftrightarrow> (\<forall>s. begun s \<noteq> None \<longrightarrow> wp c (\<lambda>r s'. in_tx disk s s') s)"

named_theorems quiet \<open>commands that stay inside the open transaction\<close>

lemma quietD: "quiet disk c \<Longrightarrow> begun s \<noteq> None \<Longrightarrow> wp c (\<lambda>r s'. in_tx disk s s') s"
  by (simp add: quiet_def)

lemma quiet_ret [quiet]: "quiet disk (ret x)"
  and quiet_gets [quiet]: "quiet disk (gets g)"
  by (simp_all add: quiet_def wp)

lemma quiet_bind [quiet]:
  fixes c :: "('w, 'z, 'a) store_cmd"
  assumes "quiet disk c" and "\<And>x. quiet disk (g x)"
  shows "quiet disk (c \<bind> g)"
  unfolding quiet_def wp_bind
proof (intro allI impI)
  fix s :: "('w, 'z) Store_scheme"
  assume b: "begun s \<noteq> None"
  show "wp c (\<lambda>r. wp (g r) (\<lambda>r s'. in_tx disk s s')) s"
  proof (rule wp_mono [OF quietD [OF assms(1) b]])
    fix r s1 assume t: "in_tx disk s s1"
    then have "begun s1 \<noteq> None" using b by (simp add: in_tx_def)
    from quietD [OF assms(2) this] show "wp (g r) (\<lambda>r s'. in_tx disk s s') s1"
      by (rule wp_mono) (rule in_tx_trans [OF t])
  qed
qed

lemma quiet_if [quiet]: "quiet disk c \<Longrightarrow> quiet disk d \<Longrightarrow> quiet disk (if b then c else d)"
  and quiet_prod [quiet]: "(\<And>x y. quiet disk (g x y)) \<Longrightarrow> quiet disk (case p of (x, y) \<Rightarrow> g x y)"
  and quiet_option [quiet]:
    "quiet disk c \<Longrightarrow> (\<And>x. quiet disk (h x)) \<Longrightarrow> quiet disk (case q of None \<Rightarrow> c | Some x \<Rightarrow> h x)"
  and quiet_list [quiet]:
    "quiet disk c \<Longrightarrow> (\<And>x xs. quiet disk (k x xs)) \<Longrightarrow> quiet disk (case zs of [] \<Rightarrow> c | x # xs \<Rightarrow> k x xs)"
  by (simp_all split: prod.splits option.splits list.splits)

lemma quiet_and_then [quiet]: "quiet disk a \<Longrightarrow> quiet disk b \<Longrightarrow> quiet disk (and_then a b)"
  unfolding and_then_def by (intro quiet)

lemma quiet_all_ok [quiet]: "list_all (quiet disk) cs \<Longrightarrow> quiet disk (all_ok cs)"
  by (induction cs) (auto intro: quiet)

lemma quiet_each_ok [quiet]: "list_all (quiet disk) cs \<Longrightarrow> quiet disk (each_ok ok cs)"
  by (induction cs arbitrary: ok) (auto intro: quiet)

lemma quiet_check [quiet]: "quiet disk (check ok)"
  by (auto simp: quiet_def check_def wp in_tx_def)

lemma quiet_lift:
  assumes "\<And>w r w'. f w = (r, w') \<Longrightarrow> disk w' = disk w"
  shows "quiet disk (lift f)"
  using assms by (auto simp: quiet_def wp_lift in_tx_def)

lemma quiet_sql [quiet]: "config_ok E disk used \<Longrightarrow> quiet disk (lift (sql_ok E))"
  by (rule quiet_lift) (simp add: config_sql)

lemma quiet_change: "(\<And>s. in_tx disk s (h s)) \<Longrightarrow> quiet disk (modify h)"
  by (simp add: quiet_def wp)

lemma quiet_finish [quiet]: "config_ok E disk used \<Longrightarrow> quiet disk (finish E f)"
  unfolding finish_def sql_change_def by (intro quiet quiet_change) (auto simp: in_tx_def)

lemma quiet_call [quiet]: "config_ok E disk used \<Longrightarrow> quiet disk (sql_call E)"
  unfolding sql_call_def by (intro quiet)

lemma quiet_calls [quiet]: "config_ok E disk used \<Longrightarrow> quiet disk (prepare E)"
  "config_ok E disk used \<Longrightarrow> quiet disk (bind_text E)"
  unfolding prepare_def bind_text_def by (intro quiet, assumption)+

lemma quiet_select_row [quiet]: "config_ok E disk used \<Longrightarrow> quiet disk (select_row E k n)"
  unfolding select_row_def by (intro quiet) (auto simp: list_all_iff intro: quiet)

lemma quiet_in_transaction [quiet]:
  assumes "quiet disk body"
  shows "quiet disk (in_transaction E body)"
proof -
  have "wp (in_transaction E body) (\<lambda>r s'. in_tx disk s s') s" if b: "begun s \<noteq> None" for s
    using quietD [OF assms b] b by (auto simp: in_transaction_def wp)
  then show ?thesis by (simp add: quiet_def)
qed

lemma quiet_gets_setting [quiet]:
  assumes E: "config_ok E disk used"
  shows "quiet disk (store_get E scope section key fallback cap)" "quiet disk (store_int E scope section key n)"
  unfolding store_get_def store_int_def Let_def
  by (intro quiet quiet_select_row [OF E])+

lemma quiet_settings [quiet]:
  assumes E: "config_ok E disk used"
  shows "quiet disk (store_set E scope section key v)" "quiet disk (store_set_int E scope section key i)"
    "quiet disk (store_clear E scope)"
  unfolding store_set_def store_set_int_def store_clear_def
  by (intro quiet quiet_finish [OF E]; simp add: quiet_calls [OF E])+

subsection \<open>Transactions are all or nothing\<close>

definition published :: "('w, 'y) config_env_scheme \<Rightarrow> ('w \<Rightarrow> wstr \<Rightarrow> byte list option) \<Rightarrow> ('w, 'z) Store_scheme \<Rightarrow> bool" where
  \<comment> \<open>the two documents of the data folder hold the database\<close>
  "published E disk s \<longleftrightarrow>
     disk (world s) (in_directory (root s) (W ''local.json'')) = Some (json_pretty E (snapshot_json (db s) True) @ [10])
   \<and> disk (world s) (in_directory (root s) (W ''runtime.json'')) = Some (json_pretty E (snapshot_json (db s) False) @ [10])"

definition all_or_nothing ::
    "('w, 'y) config_env_scheme \<Rightarrow> ('w \<Rightarrow> wstr \<Rightarrow> byte list option) \<Rightarrow> ('w, 'z) Store_scheme \<Rightarrow> bool
     \<Rightarrow> ('w, 'z) Store_scheme \<Rightarrow> bool" where
  "all_or_nothing E disk s ok s' \<longleftrightarrow>
     begun s' = None \<and> is_open s' \<and> \<not> is_opening s' \<and> root s' = root s
   \<and> (ok \<longrightarrow> published E disk s')
   \<and> (\<not> ok \<longrightarrow> db s' = db s \<and> (restore_errors s' = restore_errors s \<longrightarrow>
        (\<forall>p \<in> doc_paths (root s). disk (world s') p = disk (world s) p)))"

definition idle :: "('w, 'z) Store_scheme \<Rightarrow> bool" where
  \<comment> \<open>open, after \<open>store_open\<close>, with no transaction\<close>
  "idle s \<longleftrightarrow> is_open s \<and> \<not> is_opening s \<and> begun s = None"

definition entered where
  \<comment> \<open>just after \<open>store_begin\<close>\<close>
  "entered disk s s' \<longleftrightarrow> in_tx disk (s\<lparr>begun := Some (db s), transaction_failed := False\<rparr>) s' \<and> db s' = db s
     \<and> \<not> transaction_failed s'"

lemma store_begin_wp:
  assumes E: "config_ok E disk used" and s: "idle s"
  shows "wp (store_begin E) (\<lambda>ok s'. (ok \<longrightarrow> entered disk s s') \<and> (\<not> ok \<longrightarrow> all_or_nothing E disk s False s')) s"
  using s by (auto simp: store_begin_def sql_begin_def wp wp_lift check_def idle_def entered_def in_tx_def
      all_or_nothing_def dest!: config_sql [OF E])

lemma more_fields:
  assumes "Session.more s' = Session.more s"
  shows "is_open s' = is_open s \<and> is_opening s' = is_opening s \<and> root s' = root s \<and> legacy_root s' = legacy_root s
     \<and> transaction_failed s' = transaction_failed s \<and> open_changed s' = open_changed s"
  using assms by (cases s; cases s') simp

lemma store_end_wp:
  assumes E: "config_ok E disk used" and s: "idle s"
    and t: "in_tx disk (s\<lparr>begun := Some (db s), transaction_failed := False\<rparr>) t"
  shows "wp (store_end E ok) (\<lambda>r s'. all_or_nothing E disk s r s'
    \<and> (r \<longrightarrow> ok \<and> \<not> transaction_failed t \<and> db s' = db t)) t"
proof -
  have t': "begun t = Some (db s)" "is_open t" "\<not> is_opening t" "root t = root s"
    "restore_errors t = restore_errors s" "disk (world t) = disk (world s)"
    using s t by (auto simp: in_tx_def idle_def)
  have undo: "wp sql_rollback (\<lambda>_. wp (ret False) (\<lambda>r s'. all_or_nothing E disk s r s'
    \<and> (r \<longrightarrow> ok \<and> \<not> transaction_failed t \<and> db s' = db t))) t"
    using t' by (simp add: sql_rollback_def wp all_or_nothing_def)
  have commit: "wp (config_json_commit E (root t)) (\<lambda>published. wp (if published then ret True
      else do { sql_rollback; ret False }) (\<lambda>r s'. all_or_nothing E disk s r s'
    \<and> (r \<longrightarrow> db s' = db t))) t"
  proof (rule wp_mono [OF wp_conj [OF config_commit_wp [OF E t'(1)] keeps_commit [unfolded keeps_def, rule_format]]])
    fix r s1
    assume a: "((\<forall>name. doc_name name \<and> in_directory (root t) name \<notin> doc_paths (root t) \<longrightarrow>
         disk (world s1) (in_directory (root t) name) = disk (world t) (in_directory (root t) name))
      \<and> (if r then db s1 = db t \<and> begun s1 = None
         \<and> disk (world s1) (in_directory (root t) (W ''local.json'')) = Some (commit_docs E (db t) ! 0)
         \<and> disk (world s1) (in_directory (root t) (W ''runtime.json'')) = Some (commit_docs E (db t) ! 1)
       else db s1 = db s \<and> begun s1 = None
         \<and> (restore_errors s1 = restore_errors t \<longrightarrow>
              (\<forall>p \<in> doc_paths (root t). disk (world s1) p = disk (world t) p))))
      \<and> Session.more s1 = Session.more t"
    then have m: "is_open s1 \<and> \<not> is_opening s1 \<and> root s1 = root s"
      using more_fields [of s1 t] t' by simp
    show "wp (if r then ret True else do { sql_rollback; ret False })
       (\<lambda>r s'. all_or_nothing E disk s r s' \<and> (r \<longrightarrow> db s' = db t)) s1"
    proof (cases r)
      case True
      then have "published E disk s1" using a m t' by (simp add: published_def commit_docs_def Let_def)
      then show ?thesis using True a m by (simp add: wp all_or_nothing_def)
    next
      case False
      then show ?thesis using a m t' by (simp add: wp all_or_nothing_def sql_rollback_def)
    qed
  qed
  show ?thesis
  proof (cases "ok \<and> \<not> transaction_failed t")
    case True
    then show ?thesis using t' commit by (simp add: store_end_def wp)
  next
    case False
    then show ?thesis using t' undo by (auto simp: store_end_def wp)
  qed
qed

lemma transaction_wp:
  assumes E: "config_ok E disk used" and s: "idle s" and body: "quiet disk body"
    and P: "\<And>s1. entered disk s s1 \<Longrightarrow> wp body (\<lambda>r s2. r \<and> \<not> transaction_failed s2 \<longrightarrow> P (db s2)) s1"
  shows "wp (transaction E body) (\<lambda>ok s'. all_or_nothing E disk s ok s' \<and> (ok \<longrightarrow> P (db s'))) s"
  unfolding transaction_def wp_bind
proof (rule wp_mono [OF store_begin_wp [OF E s]])
  fix started s1
  assume st: "(started \<longrightarrow> entered disk s s1) \<and> (\<not> started \<longrightarrow> all_or_nothing E disk s False s1)"
  show "wp (if \<not> started then ret False else body \<bind> store_end E)
      (\<lambda>ok s'. all_or_nothing E disk s ok s' \<and> (ok \<longrightarrow> P (db s'))) s1"
  proof (cases started)
    case True
    then have e: "entered disk s s1" using st by simp
    then have b: "begun s1 \<noteq> None" by (simp add: entered_def in_tx_def)
    have "wp body (\<lambda>ok. wp (store_end E ok) (\<lambda>ok s'. all_or_nothing E disk s ok s' \<and> (ok \<longrightarrow> P (db s')))) s1"
    proof (rule wp_mono [OF wp_conj [OF quietD [OF body b] P [OF e]]])
      fix r s2
      assume q: "in_tx disk s1 s2 \<and> (r \<and> \<not> transaction_failed s2 \<longrightarrow> P (db s2))"
      then have t: "in_tx disk (s\<lparr>begun := Some (db s), transaction_failed := False\<rparr>) s2"
        using e in_tx_trans by (auto simp: entered_def)
      show "wp (store_end E r) (\<lambda>ok s'. all_or_nothing E disk s ok s' \<and> (ok \<longrightarrow> P (db s'))) s2"
        by (rule wp_mono [OF store_end_wp [OF E s t]]) (use q in auto)
    qed
    then show ?thesis using True by (simp add: wp)
  next
    case False
    then show ?thesis using st by (simp add: wp)
  qed
qed

lemma in_transaction_wp:
  assumes "config_ok E disk used" and "idle s" and "quiet disk body"
    and "\<And>s1. entered disk s s1 \<Longrightarrow> wp body (\<lambda>r s2. r \<and> \<not> transaction_failed s2 \<longrightarrow> P (db s2)) s1"
  shows "wp (in_transaction E body) (\<lambda>ok s'. all_or_nothing E disk s ok s' \<and> (ok \<longrightarrow> P (db s'))) s"
  using transaction_wp [OF assms] assms(2)
  by (simp add: in_transaction_def transaction_def idle_def wp cong: if_cong)

subsection \<open>The settings as a key-value store\<close>

definition writes ::
    "('s \<Rightarrow> bool) \<Rightarrow> ('s \<Rightarrow> 'k \<Rightarrow> 'v option) \<Rightarrow> ('s, bool) state \<Rightarrow> ('k \<times> 'v) list \<Rightarrow> bool" where
  \<comment> \<open>a command whose success means that these rows were written, the later ones last\<close>
  "writes inside look c rows \<longleftrightarrow>
     (\<forall>s. inside s \<longrightarrow> wp c (\<lambda>r s'. inside s' \<and> (r \<longrightarrow> look s' = look s ++ map_of (rev rows))) s)"

locale settings_store =
  fixes inside :: "'s \<Rightarrow> bool"
    and look :: "'s \<Rightarrow> setting_key \<Rightarrow> wstr option"
    and put :: "setting_key \<Rightarrow> wstr \<Rightarrow> ('s, bool) state"
    and clear :: "wstr \<Rightarrow> ('s, bool) state"
  assumes put: "inside s \<Longrightarrow> wp (put k v) (\<lambda>r s'. inside s' \<and> (r \<longrightarrow> look s' = (look s)(k \<mapsto> v))) s"
    and clear: "inside s \<Longrightarrow> wp (clear scope)
      (\<lambda>r s'. inside s' \<and> (r \<longrightarrow> look s' = (\<lambda>k. if fst k = scope then None else look s k))) s"
begin

lemma writes_put: "writes inside look (put k v) [(k, v)]"
  using put by (simp add: writes_def)

lemma writes_ret: "writes inside look (ret b) []"
  by (simp add: writes_def wp)

lemma writes_then:
  assumes "writes inside look a xs" and "writes inside look b ys"
  shows "writes inside look (do { x \<leftarrow> a; if x then b else ret False }) (xs @ ys)"
  unfolding writes_def wp_bind
proof (intro allI impI)
  fix s assume "inside s"
  with assms(1) have "wp a (\<lambda>r s'. inside s' \<and> (r \<longrightarrow> look s' = look s ++ map_of (rev xs))) s"
    by (simp add: writes_def)
  then show "wp a (\<lambda>r. wp (if r then b else ret False)
      (\<lambda>r s'. inside s' \<and> (r \<longrightarrow> look s' = look s ++ map_of (rev (xs @ ys))))) s"
  proof (rule wp_mono)
    fix r s1 assume s1: "inside s1 \<and> (r \<longrightarrow> look s1 = look s ++ map_of (rev xs))"
    then have "wp b (\<lambda>r' s'. inside s' \<and> (r' \<longrightarrow> look s' = look s1 ++ map_of (rev ys))) s1"
      using assms(2) by (simp add: writes_def)
    with s1 show "wp (if r then b else ret False)
        (\<lambda>r s'. inside s' \<and> (r \<longrightarrow> look s' = look s ++ map_of (rev (xs @ ys)))) s1"
      by (cases r) (auto simp: wp elim!: wp_mono)
  qed
qed

lemma writes_all_ok: "list_all2 (writes inside look) cs rows \<Longrightarrow> writes inside look (all_ok cs) (concat rows)"
  by (induction rule: list_all2_induct) (simp_all add: writes_ret and_then_def writes_then)

lemma each_ok_writes:
  assumes "list_all2 (writes inside look) cs rows" and "inside s"
  shows "wp (each_ok ok cs) (\<lambda>r s'. inside s' \<and> (r \<longrightarrow> ok \<and> look s' = look s ++ map_of (rev (concat rows)))) s"
  using assms
proof (induction cs rows arbitrary: s ok rule: list_all2_induct)
  case (Cons c cs r rs)
  have "wp c (\<lambda>x s'. inside s' \<and> (x \<longrightarrow> look s' = look s ++ map_of (rev r))) s"
    using Cons(1,4) by (simp add: writes_def)
  then show ?case
    unfolding each_ok.simps wp_bind
  proof (rule wp_mono)
    fix x s1 assume s1: "inside s1 \<and> (x \<longrightarrow> look s1 = look s ++ map_of (rev r))"
    show "wp (each_ok (x \<and> ok) cs)
       (\<lambda>ra s'. inside s' \<and> (ra \<longrightarrow> ok \<and> look s' = look s ++ map_of (rev (concat (r # rs))))) s1"
      by (rule wp_mono [OF Cons(3)]) (use s1 in auto)
  qed
qed (simp add: wp)

lemma writes_each_ok: "list_all2 (writes inside look) cs rows \<Longrightarrow> writes inside look (each_ok True cs) (concat rows)"
  using each_ok_writes by (fastforce simp: writes_def elim: wp_mono)

lemma clear_then_all:
  assumes c: "list_all2 (writes inside look) cs rows" and s: "inside s"
  shows "wp (all_ok (clear scope # cs)) (\<lambda>r s'. inside s' \<and> (r \<longrightarrow> look s' =
     (\<lambda>k. if fst k = scope then None else look s k) ++ map_of (rev (concat rows)))) s"
  unfolding all_ok.simps wp_and_then
proof (rule wp_mono [OF clear [OF s]])
  fix x s1
  assume s1: "inside s1 \<and> (x \<longrightarrow> look s1 = (\<lambda>k. if fst k = scope then None else look s k))"
  have "wp (all_ok cs) (\<lambda>r s'. inside s' \<and> (r \<longrightarrow> look s' = look s1 ++ map_of (rev (concat rows)))) s1"
    using writes_all_ok [OF c] s1 by (simp add: writes_def)
  then show "(if x then wp (all_ok cs) (\<lambda>r s'. inside s' \<and> (r \<longrightarrow> look s' =
       (\<lambda>k. if fst k = scope then None else look s k) ++ map_of (rev (concat rows))))
     else (\<lambda>r s'. inside s' \<and> (r \<longrightarrow> look s' =
       (\<lambda>k. if fst k = scope then None else look s k) ++ map_of (rev (concat rows)))) False) s1"
    using s1 by (cases x) (auto elim!: wp_mono)
qed

lemma clear_then_each:
  assumes c: "list_all2 (writes inside look) cs rows" and s: "inside s"
  shows "wp (each_ok True (clear scope # cs)) (\<lambda>r s'. inside s' \<and> (r \<longrightarrow> look s' =
     (\<lambda>k. if fst k = scope then None else look s k) ++ map_of (rev (concat rows)))) s"
  unfolding each_ok.simps wp_bind
proof (rule wp_mono [OF clear [OF s]])
  fix x s1
  assume s1: "inside s1 \<and> (x \<longrightarrow> look s1 = (\<lambda>k. if fst k = scope then None else look s k))"
  then have "inside s1" by simp
  from each_ok_writes [OF c this, of "x \<and> True"] show "wp (each_ok (x \<and> True) cs) (\<lambda>r s'. inside s' \<and> (r \<longrightarrow> look s' =
     (\<lambda>k. if fst k = scope then None else look s k) ++ map_of (rev (concat rows)))) s1"
    by (rule wp_mono) (use s1 in auto)
qed

lemma rewrite_scope:
  \<comment> \<open>clearing a scope and writing rows of it leaves exactly those rows in it\<close>
  assumes first: "wp first (\<lambda>r s'. inside s' \<and> (r \<longrightarrow> look s' =
     (\<lambda>k. if fst k = scope then None else look s k) ++ map_of (rev rows))) s"
    and rest: "writes inside look rest late"
    and scope: "\<forall>r \<in> set (rows @ late). fst (fst r) = scope"
  shows "wp (do { ok \<leftarrow> first; if ok then rest else ret False })
    (\<lambda>r s'. inside s' \<and> (r \<longrightarrow> look s' =
       (\<lambda>k. if fst k = scope then map_of (rev (rows @ late)) k else look s k))) s"
proof -
  let ?cleared = "\<lambda>k. if fst k = scope then None else look s k"
  let ?Q = "\<lambda>r s'. inside s' \<and> (r \<longrightarrow> look s' =
       (\<lambda>k. if fst k = scope then map_of (rev (rows @ late)) k else look s k))"
  have same: "?cleared ++ map_of (rev rows) ++ map_of (rev late)
      = (\<lambda>k. if fst k = scope then map_of (rev (rows @ late)) k else look s k)"
  proof
    fix k
    have "map_of (rev (rows @ late)) k = None" if "fst k \<noteq> scope"
      using scope that by (auto simp: map_of_eq_None_iff)
    then show "(?cleared ++ map_of (rev rows) ++ map_of (rev late)) k
      = (if fst k = scope then map_of (rev (rows @ late)) k else look s k)"
      by (auto simp: map_add_def split: option.splits)
  qed
  have "wp first (\<lambda>ok. wp (if ok then rest else ret False) ?Q) s"
  proof (rule wp_mono [OF first])
    fix ok s2
    assume s2: "inside s2 \<and> (ok \<longrightarrow> look s2 = ?cleared ++ map_of (rev rows))"
    have r: "wp rest (\<lambda>r s'. inside s' \<and> (r \<longrightarrow> look s' = look s2 ++ map_of (rev late))) s2"
      using rest s2 by (simp add: writes_def)
    show "wp (if ok then rest else ret False) ?Q s2"
    proof (cases ok)
      case True
      with r same s2 show ?thesis by (auto elim!: wp_mono)
    next
      case False
      then show ?thesis using s2 by (simp add: wp)
    qed
  qed
  then show ?thesis by (simp add: wp)
qed

end

lemma finish_wp: "wp (finish E f) (\<lambda>r s'. begun s' = begun s
    \<and> (if r then f (db s) = Some (db s') else db s' = db s)) s"
  by (auto simp: finish_def sql_change_def check_def wp wp_lift split: option.splits)

lemma keeps_check [keeps]: "keeps (\<lambda>s. (begun s, db s)) (check ok)"
  by (simp add: check_def keeps keeps_modify)

lemma keeps_call [keeps]: "keeps (\<lambda>s. (begun s, db s)) (sql_call E)"
  unfolding sql_call_def by (intro keeps) (simp add: keeps_def wp_lift)

lemma keeps_prepare [keeps]: "keeps (\<lambda>s. (begun s, db s)) (prepare E)" "keeps (\<lambda>s. (begun s, db s)) (bind_text E)"
  unfolding prepare_def bind_text_def by (intro keeps)+

lemma statement_wp:
  fixes cs :: "('w, 'z, bool) store_cmd list" and s :: "('w, 'z) Store_scheme"
  assumes "begun s \<noteq> None" and "list_all (keeps (\<lambda>s. (begun s, db s))) cs"
  shows "wp (in_transaction E (do { ok \<leftarrow> all_ok cs; if ok then finish E f else ret False }))
    (\<lambda>r s'. begun s' \<noteq> None \<and> (if r then f (db s) = Some (db s') else db s' = db s)) s"
proof -
  have "wp (all_ok cs) (\<lambda>ok. wp (if ok then finish E f else ret False)
      (\<lambda>r s'. begun s' \<noteq> None \<and> (if r then f (db s) = Some (db s') else db s' = db s))) s"
  proof (rule wp_mono [OF keeps_all_ok [OF assms(2), unfolded keeps_def, rule_format]])
    fix ok and s1 :: "('w, 'z) Store_scheme"
    assume "(begun s1, db s1) = (begun s, db s)"
    with assms(1) finish_wp [of E f s1]
    show "wp (if ok then finish E f else ret False)
        (\<lambda>r s'. begun s' \<noteq> None \<and> (if r then f (db s) = Some (db s') else db s' = db s)) s1"
      by (cases ok) (auto simp: wp elim!: wp_mono)
  qed
  moreover obtain d where "begun s = Some d" using assms(1) by auto
  ultimately show ?thesis
    by (cases "is_open s") (simp_all add: in_transaction_def wp split del: if_split cong: if_cong)
qed

lemma look_upsert: "(\<lambda>k. select_setting k (upsert_setting j v d)) = (\<lambda>k. select_setting k d)(j \<mapsto> v)"
  by (simp add: upsert_setting_def select_setting_def update_conv fun_eq_iff)

lemma look_delete:
  "(\<lambda>k. select_setting k (delete_scope scope d)) = (\<lambda>k. if fst k = scope then None else select_setting k d)"
  by (simp add: delete_scope_def select_setting_def fun_eq_iff map_of_filter_key [of "\<lambda>k. fst k \<noteq> scope"])

definition in_order :: "('w, 'z) Store_scheme \<Rightarrow> bool" where
  \<comment> \<open>inside a transaction, with the primary key of the settings in force\<close>
  "in_order s \<longleftrightarrow> begun s \<noteq> None \<and> distinct (map fst (settings (db s)))"

interpretation settings: settings_store in_order "\<lambda>s k. select_setting k (db s)"
  "\<lambda>k v. store_set E (fst k) (fst (snd k)) (snd (snd k)) v" "store_clear E" for E :: "('w, 'y) store_env_scheme"
proof
  fix s :: "('w, 'z) Store_scheme" and k v scope
  assume s: "in_order s"
  then have b: "begun s \<noteq> None" and d: "distinct (map fst (settings (db s)))" by (simp_all add: in_order_def)
  have "distinct (map fst (settings (upsert_setting k v (db s))))"
    using d by (simp add: upsert_setting_def distinct_update)
  then show "wp (store_set E (fst k) (fst (snd k)) (snd (snd k)) v)
     (\<lambda>r s'. in_order s' \<and> (r \<longrightarrow> (\<lambda>k. select_setting k (db s')) = (\<lambda>k. select_setting k (db s))(k \<mapsto> v))) s"
    unfolding store_set_def
    by - (rule wp_mono [OF statement_wp [OF b]],
      use d in \<open>auto simp: in_order_def keeps split: if_splits simp flip: look_upsert\<close>)
  have "distinct (map fst (settings (delete_scope scope (db s))))"
    using d by (simp add: delete_scope_def distinct_map_filter)
  then show "wp (store_clear E scope)
     (\<lambda>r s'. in_order s' \<and> (r \<longrightarrow> (\<lambda>k. select_setting k (db s'))
        = (\<lambda>k. if fst k = scope then None else select_setting k (db s)))) s"
    unfolding store_clear_def
    by - (rule wp_mono [OF statement_wp [OF b]],
      use d in \<open>auto simp: in_order_def keeps split: if_splits simp flip: look_delete\<close>)
qed

end
