(* ===== verification/Storage_Collections.thy ===== *)
theory Storage_Collections
  imports Storage Batch_Task File_Command Server_Profile
begin

text \<open>
  \<open>src/src/platform/storage.c\<close>, second part: the collections that are kept as rows of the settings
  table, each in a scope of its own with a version and a count (batch tasks, command presets of the
  file manager, SSH servers), the older form of the single batch task, and their loading with every
  check of the code. Arrays of a collection are lists of their full capacity.
\<close>

subsection \<open>The older single batch task\<close>

definition LEGACY :: wstr where "LEGACY = W ''batch_git_pull_main''"

fun load_legacy_directories ::
    "('w, 'y) store_env_scheme \<Rightarrow> nat \<Rightarrow> nat \<Rightarrow> BatchTask \<Rightarrow> ('w, 'z, bool \<times> BatchTask) store_cmd" where
  \<comment> \<open>the loop from directory \<open>i\<close>, with \<open>n\<close> to go\<close>
  "load_legacy_directories E i 0 task = ret (True, task)"
| "load_legacy_directories E i (Suc n) task = do {
     r \<leftarrow> store_get E LEGACY (W ''Task'') (W ''Directory'' @ dec (int i)) [] BATCH_DIRECTORY_CAP;
     let added = batch_task_add_directory (Some task) (Some (snd r));
     if \<not> fst r \<or> fst added \<noteq> 1 then ret (False, zero_task)
     else load_legacy_directories E (Suc i) n (the (snd added)) }"

definition store_load_batch_task :: "('w, 'y) store_env_scheme \<Rightarrow> ('w, 'z, bool \<times> BatchTask) store_cmd" where
  "store_load_batch_task E = do {
     r \<leftarrow> store_get E LEGACY (W ''Task'') (W ''Command'') (W ''git pull origin main'') (BATCH_COMMAND_CAP + 1);
     let command = snd r;
     if \<not> fst r then ret (False, zero_task)
     else if length command \<ge> BATCH_COMMAND_CAP then ret (False, zero_task)
     else do {
       let task = zero_task\<lparr>bt_command := command\<rparr>;
       n \<leftarrow> store_int E LEGACY (W ''Task'') (W ''DirectoryCount'') 0;
       if n < 0 \<or> n > int BATCH_DIRECTORY_LIMIT then ret (False, task)
       else load_legacy_directories E 0 (nat n) task } }"

definition write_legacy_task :: "('w, 'y) store_env_scheme \<Rightarrow> BatchTask \<Rightarrow> ('w, 'z, bool) store_cmd" where
  "write_legacy_task E task = do {
     ok \<leftarrow> each_ok True [store_clear E LEGACY,
             store_set E LEGACY (W ''Task'') (W ''Command'') (bt_command task),
             store_set_int E LEGACY (W ''Task'') (W ''DirectoryCount'') (directory_count task)];
     if ok then all_ok (map (\<lambda>i. store_set E LEGACY (W ''Task'') (W ''Directory'' @ dec (int i)) (directories task ! i))
                    [0..<nat (directory_count task)])
     else ret False }"

definition store_save_batch_task :: "('w, 'y) store_env_scheme \<Rightarrow> BatchTask \<Rightarrow> ('w, 'z, bool) store_cmd" where
  "store_save_batch_task E task =
     (if \<not> batch_task_is_valid (Some task) then ret False else transaction E (write_legacy_task E task))"

subsection \<open>Reading a collection\<close>

definition read_setting ::
    "('w, 'y) store_env_scheme \<Rightarrow> wstr \<Rightarrow> wstr \<Rightarrow> wstr \<Rightarrow> nat \<Rightarrow> ('w, 'z, wstr option) store_cmd" where
  \<comment> \<open>\<open>batch_read_text\<close>, \<open>command_read_text\<close> and \<open>ssh_read\<close>, which differ in the scope; the text, or
     \<open>None\<close> when the row is missing, holds a NUL or does not fit\<close>
  "read_setting E scope section key capacity = do {
     row \<leftarrow> select_row E (scope, section, key) 2;
     case row of
       None \<Rightarrow> ret None
     | Some (stepped, value) \<Rightarrow> do {
         (if scope = W ''ssh_servers'' then ret True else check stepped);
         ret (case value of
                Some v \<Rightarrow> if 2 * length v < capacity * 2 \<and> length (c_text v) = length v then Some (c_text v) else None
              | None \<Rightarrow> None) } }"

definition read_number ::
    "('w, 'y) store_env_scheme \<Rightarrow> wstr \<Rightarrow> wstr \<Rightarrow> wstr \<Rightarrow> int \<Rightarrow> ('w, 'z, int option) store_cmd" where
  \<comment> \<open>\<open>batch_read_number\<close> and \<open>command_read_number\<close>\<close>
  "read_number E scope section key maximum = do {
     text \<leftarrow> read_setting E scope section key 32;
     ret (case text of
            None \<Rightarrow> None
          | Some t \<Rightarrow>
              let p = wcstol t in
              if t = [] \<or> p_rest p \<noteq> [] \<or> p_value p < 0 \<or> p_value p > maximum then None else Some (p_value p)) }"

definition scope_is_empty :: "('w, 'y) store_env_scheme \<Rightarrow> wstr \<Rightarrow> ('w, 'z, bool option) store_cmd" where
  \<comment> \<open>\<open>SELECT count(*) FROM settings WHERE scope=...\<close> is 0; \<open>None\<close> when the statement fails\<close>
  "scope_is_empty E scope = do {
     prepared \<leftarrow> prepare E;
     if \<not> prepared then ret None
     else do { ok \<leftarrow> sql_call E; d \<leftarrow> gets db; ret (if ok then Some (count_scope scope d = 0) else None) } }"

subsection \<open>Batch tasks\<close>

definition BATCH :: wstr where "BATCH = W ''batch_tasks''"

fun check_tasks ::
    "('w, 'y) store_env_scheme \<Rightarrow> BatchTask list \<Rightarrow> BatchTask list \<Rightarrow> ('w, 'z, bool \<times> BatchTask list) store_cmd" where
  \<comment> \<open>the first loop of \<open>save_batch_tasks_impl\<close>, with the tasks before\<close>
  "check_tasks E before [] = ret (True, before)"
| "check_tasks E before (t # ts) = do {
     ident \<leftarrow> (if bt_id t = 0 then store_new_id E else ret (bt_id t));
     let t = t\<lparr>bt_id := ident\<rparr>;
     if ident < 0 \<or> list_ex (\<lambda>u. bt_id u = ident) before
        \<or> \<not> batch_task_is_valid (Some t) \<or> \<not> has_nonblank (bt_name t) \<or> \<not> has_nonblank (bt_command t)
     then ret (False, before @ t # ts)
     else check_tasks E (before @ [t]) ts }"

definition task_section :: "nat \<Rightarrow> wstr" where "task_section i = W ''Task'' @ dec (int i)"

definition save_task_step ::
    "('w, 'y) store_env_scheme \<Rightarrow> nat \<Rightarrow> BatchTask \<Rightarrow> nat \<Rightarrow> ('w, 'z, bool) store_cmd" where
  \<comment> \<open>the body of the inner loop: the second row is written even when the first fails\<close>
  "save_task_step E i t j = each_ok True
     [store_set E BATCH (task_section i) (W ''Directory'' @ dec (int j)) (directories t ! j),
      store_set E BATCH (task_section i) (W ''StepCommand'' @ dec (int j)) (commands t ! j)]"

definition save_task :: "('w, 'y) store_env_scheme \<Rightarrow> nat \<Rightarrow> BatchTask \<Rightarrow> ('w, 'z, bool) store_cmd" where
  "save_task E i t = do {
     ok \<leftarrow> each_ok True
       [store_set E BATCH (task_section i) (W ''Id'') (dec (bt_id t)),
        store_set E BATCH (task_section i) (W ''Name'') (bt_name t),
        store_set E BATCH (task_section i) (W ''Command'') (bt_command t),
        store_set_int E BATCH (task_section i) (W ''Mode'') (bt_mode t),
        store_set_int E BATCH (task_section i) (W ''DirectoryCount'') (directory_count t)];
     if ok then all_ok (map (save_task_step E i t) [0..<nat (directory_count t)]) else ret False }"

definition write_tasks :: "('w, 'y) store_env_scheme \<Rightarrow> BatchTask list \<Rightarrow> ('w, 'z, bool) store_cmd" where
  "write_tasks E ts = do {
     ok \<leftarrow> each_ok True [store_clear E BATCH,
             store_set_int E BATCH (W ''Collection'') (W ''Version'') 3,
             store_set_int E BATCH (W ''Collection'') (W ''Count'') (int (length ts))];
     if ok then all_ok (map (\<lambda>i. save_task E i (ts ! i)) [0..<length ts]) else ret False }"

definition store_save_batch_tasks ::
    "('w, 'y) store_env_scheme \<Rightarrow> BatchTaskList \<Rightarrow> ('w, 'z, bool \<times> BatchTaskList) store_cmd" where
  "store_save_batch_tasks E tasks =
     (if btl_count tasks < 0 \<or> btl_count tasks > int BATCH_TASK_LIMIT then ret (False, tasks)
      else do {
        let n = nat (btl_count tasks);
        r \<leftarrow> check_tasks E [] (take n (btl_tasks tasks));
        let tasks = tasks\<lparr>btl_tasks := snd r @ drop n (btl_tasks tasks)\<rparr>;
        if \<not> fst r then ret (False, tasks)
        else do { ok \<leftarrow> transaction E (write_tasks E (snd r)); ret (ok, tasks) } })"

fun load_task_steps ::
    "('w, 'y) store_env_scheme \<Rightarrow> int \<Rightarrow> wstr \<Rightarrow> nat \<Rightarrow> nat \<Rightarrow> BatchTask \<Rightarrow> ('w, 'z, BatchTask option) store_cmd" where
  "load_task_steps E version section j 0 t = ret (Some t)"
| "load_task_steps E version section j (Suc n) t = do {
     d \<leftarrow> read_setting E BATCH section (W ''Directory'' @ dec (int j)) BATCH_DIRECTORY_CAP;
     case d of
       None \<Rightarrow> ret None
     | Some directory \<Rightarrow> do {
         let t = t\<lparr>directories := (directories t)[j := directory]\<rparr>;
         if version \<ge> 3 then do {
           c \<leftarrow> read_setting E BATCH section (W ''StepCommand'' @ dec (int j)) BATCH_COMMAND_CAP;
           case c of
             None \<Rightarrow> ret None
           | Some command \<Rightarrow> load_task_steps E version section (Suc j) n (t\<lparr>commands := (commands t)[j := command]\<rparr>) }
         else load_task_steps E version section (Suc j) n t } }"

definition load_task_id ::
    "('w, 'y) store_env_scheme \<Rightarrow> int \<Rightarrow> wstr \<Rightarrow> BatchTask list \<Rightarrow> ('w, 'z, int option) store_cmd" where
  "load_task_id E version section before =
     (if version < 2 then ret (Some 0)
      else do {
        identity \<leftarrow> read_setting E BATCH section (W ''Id'') 40;
        ret (case identity of
               None \<Rightarrow> None
             | Some text \<Rightarrow>
                 let ident = batch_task_target_id (Some (BATCH_TARGET_PREFIX @ text)) in
                 if ident = 0 \<or> list_ex (\<lambda>u. bt_id u = ident) before then None else Some ident) })"

definition load_task ::
    "('w, 'y) store_env_scheme \<Rightarrow> int \<Rightarrow> nat \<Rightarrow> BatchTask list \<Rightarrow> ('w, 'z, BatchTask option) store_cmd" where
  "load_task E version i before = do {
     let section = task_section i;
     ident \<leftarrow> load_task_id E version section before;
     case ident of None \<Rightarrow> ret None | Some ident \<Rightarrow> do {
     name \<leftarrow> read_setting E BATCH section (W ''Name'') BATCH_NAME_CAP;
     case name of None \<Rightarrow> ret None | Some name \<Rightarrow> do {
     command \<leftarrow> read_setting E BATCH section (W ''Command'') BATCH_COMMAND_CAP;
     case command of None \<Rightarrow> ret None | Some command \<Rightarrow> do {
     mode \<leftarrow> read_number E BATCH section (W ''Mode'') BATCH_PARALLEL;
     case mode of None \<Rightarrow> ret None | Some mode \<Rightarrow> do {
     n \<leftarrow> read_number E BATCH section (W ''DirectoryCount'') (int BATCH_DIRECTORY_LIMIT);
     case n of None \<Rightarrow> ret None | Some n \<Rightarrow> do {
     t \<leftarrow> load_task_steps E version section 0 (nat n)
       (zero_task\<lparr>bt_id := ident, bt_name := name, bt_command := command, bt_mode := mode, directory_count := n\<rparr>);
     ret (case t of None \<Rightarrow> None
          | Some t \<Rightarrow> if batch_task_is_valid (Some t) \<and> bt_name t \<noteq> [] \<and> bt_command t \<noteq> [] then Some t else None) } } } } } }"

fun load_tasks ::
    "('w, 'y) store_env_scheme \<Rightarrow> int \<Rightarrow> nat \<Rightarrow> BatchTask list \<Rightarrow> ('w, 'z, BatchTask list option) store_cmd" where
  "load_tasks E version 0 before = ret (Some before)"
| "load_tasks E version (Suc n) before = do {
     t \<leftarrow> load_task E version (length before) before;
     case t of None \<Rightarrow> ret None | Some t \<Rightarrow> load_tasks E version n (before @ [t]) }"

definition task_list :: "BatchTask list \<Rightarrow> BatchTaskList" where
  \<comment> \<open>these tasks in an array that was zeroed\<close>
  "task_list ts = \<lparr>btl_count = int (length ts), btl_tasks = ts @ replicate (BATCH_TASK_LIMIT - length ts) zero_task\<rparr>"

definition first_task_name :: "('w, 'y) store_env_scheme \<Rightarrow> wstr" where
  "first_task_name E = nova_text E ([0x4EFB, 0x52A1] @ W '' 1'') (W ''Task 1'')"

definition fresh_tasks :: "('w, 'y) store_env_scheme \<Rightarrow> ('w, 'z, BatchTaskList option) store_cmd" where
  \<comment> \<open>the branch of a scope without rows: the older single task becomes the first one\<close>
  "fresh_tasks E = do {
     r \<leftarrow> store_load_batch_task E;
     if \<not> fst r then ret None
     else do {
       let t = (snd r)\<lparr>bt_name := first_task_name E\<rparr>;
       let t = (if bt_command t = [] then t\<lparr>bt_command := W ''git pull origin main''\<rparr> else t);
       saved \<leftarrow> store_save_batch_tasks E (task_list [t]);
       ret (if fst saved then Some (snd saved) else None) } }"

definition stored_tasks :: "('w, 'y) store_env_scheme \<Rightarrow> ('w, 'z, BatchTaskList option) store_cmd" where
  "stored_tasks E = do {
     version \<leftarrow> read_number E BATCH (W ''Collection'') (W ''Version'') 3;
     case version of None \<Rightarrow> ret None | Some version \<Rightarrow>
     if version < 1 then ret None
     else do {
       n \<leftarrow> read_number E BATCH (W ''Collection'') (W ''Count'') (int BATCH_TASK_LIMIT);
       case n of None \<Rightarrow> ret None | Some n \<Rightarrow> do {
       ts \<leftarrow> load_tasks E version (nat n) [];
       case ts of None \<Rightarrow> ret None
       | Some ts \<Rightarrow>
           if version < 3 then do {
             saved \<leftarrow> store_save_batch_tasks E (task_list ts);
             ret (if fst saved then Some (snd saved) else None) }
           else ret (Some (task_list ts)) } } }"

definition store_load_batch_tasks ::
    "('w, 'y) store_env_scheme \<Rightarrow> ('w, 'z, BatchTaskList option) store_cmd" where
  \<comment> \<open>the list assigned through the pointer; \<open>None\<close>: failure, nothing is assigned\<close>
  "store_load_batch_tasks E = do {
     fresh \<leftarrow> scope_is_empty E BATCH;
     case fresh of
       None \<Rightarrow> ret None
     | Some True \<Rightarrow> fresh_tasks E
     | Some False \<Rightarrow> stored_tasks E }"

subsection \<open>Command presets\<close>

definition PRESETS :: wstr where "PRESETS = W ''file_commands''"

definition preset_section :: "nat \<Rightarrow> wstr" where "preset_section i = W ''Command'' @ dec (int i)"

definition save_preset :: "('w, 'y) store_env_scheme \<Rightarrow> nat \<Rightarrow> FileCommand \<Rightarrow> ('w, 'z, bool) store_cmd" where
  "save_preset E i c = each_ok True
     [store_set E PRESETS (preset_section i) (W ''Name'') (fc_name c),
      store_set E PRESETS (preset_section i) (W ''Command'') (fc_command c)]"

definition write_presets :: "('w, 'y) store_env_scheme \<Rightarrow> FileCommandList \<Rightarrow> ('w, 'z, bool) store_cmd" where
  "write_presets E c = do {
     ok \<leftarrow> each_ok True [store_clear E PRESETS,
             store_set_int E PRESETS (W ''Commands'') (W ''Version'') 1,
             store_set_int E PRESETS (W ''Commands'') (W ''Count'') (fcl_count c),
             store_set_int E PRESETS (W ''Commands'') (W ''Default'') (default_index c)];
     if ok then all_ok (map (\<lambda>i. save_preset E i (fcl_items c ! i)) [0..<nat (fcl_count c)]) else ret False }"

definition store_save_file_commands ::
    "('w, 'y) store_env_scheme \<Rightarrow> FileCommandList \<Rightarrow> ('w, 'z, bool) store_cmd" where
  "store_save_file_commands E c =
     (if \<not> file_command_list_is_valid (ieq E) (Some c) then ret False else transaction E (write_presets E c))"

fun load_presets ::
    "('w, 'y) store_env_scheme \<Rightarrow> nat \<Rightarrow> FileCommand list \<Rightarrow> ('w, 'z, FileCommand list option) store_cmd" where
  "load_presets E 0 before = ret (Some before)"
| "load_presets E (Suc n) before = do {
     name \<leftarrow> read_setting E PRESETS (preset_section (length before)) (W ''Name'') FILE_COMMAND_NAME_CAP;
     case name of None \<Rightarrow> ret None | Some name \<Rightarrow> do {
     command \<leftarrow> read_setting E PRESETS (preset_section (length before)) (W ''Command'') FILE_COMMAND_TEXT_CAP;
     case command of None \<Rightarrow> ret None
     | Some command \<Rightarrow> load_presets E n (before @ [\<lparr>fc_name = name, fc_command = command\<rparr>]) } }"

definition stored_presets :: "('w, 'y) store_env_scheme \<Rightarrow> ('w, 'z, FileCommandList option) store_cmd" where
  "stored_presets E = do {
     version \<leftarrow> read_number E PRESETS (W ''Commands'') (W ''Version'') 1;
     if version \<noteq> Some 1 then ret None
     else do {
       n \<leftarrow> read_number E PRESETS (W ''Commands'') (W ''Count'') (int FILE_COMMAND_LIMIT);
       case n of None \<Rightarrow> ret None | Some n \<Rightarrow>
       if n < 1 then ret None
       else do {
         chosen \<leftarrow> read_number E PRESETS (W ''Commands'') (W ''Default'') (int FILE_COMMAND_LIMIT - 1);
         case chosen of None \<Rightarrow> ret None | Some chosen \<Rightarrow>
         if chosen \<ge> n then ret None
         else do {
           cs \<leftarrow> load_presets E (nat n) [];
           ret (case cs of None \<Rightarrow> None
                | Some cs \<Rightarrow>
                    let c = \<lparr>fcl_items = cs @ replicate (FILE_COMMAND_LIMIT - length cs) zero_file_command,
                             fcl_count = n, default_index = chosen\<rparr> in
                    if file_command_list_is_valid (ieq E) (Some c) then Some c else None) } } } }"

definition store_load_file_commands ::
    "('w, 'y) store_env_scheme \<Rightarrow> ('w, 'z, bool \<times> FileCommandList option) store_cmd" where
  \<comment> \<open>the result and what is assigned through the pointer: the defaults are assigned even when they
     cannot be saved\<close>
  "store_load_file_commands E = do {
     fresh \<leftarrow> scope_is_empty E PRESETS;
     case fresh of
       None \<Rightarrow> ret (False, None)
     | Some True \<Rightarrow> do {
         let c = the (file_command_defaults (Some zero_file_commands));
         ok \<leftarrow> store_save_file_commands E c;
         ret (ok, Some c) }
     | Some False \<Rightarrow> do { c \<leftarrow> stored_presets E; ret (c \<noteq> None, c) } }"

subsection \<open>SSH servers\<close>

definition SERVERS :: wstr where "SERVERS = W ''ssh_servers''"

definition server_section :: "nat \<Rightarrow> wstr" where "server_section i = W ''Server'' @ dec (int i)"

definition save_server :: "('w, 'y) store_env_scheme \<Rightarrow> nat \<Rightarrow> SshServer \<Rightarrow> ('w, 'z, bool) store_cmd" where
  "save_server E i s = all_ok
     [store_set E SERVERS (server_section i) (W ''Id'') (dec (ss_id s)),
      store_set_int E SERVERS (server_section i) (W ''Port'') (ss_port s),
      store_set E SERVERS (server_section i) (W ''Name'') (ss_name s),
      store_set E SERVERS (server_section i) (W ''Host'') (ss_host s),
      store_set E SERVERS (server_section i) (W ''User'') (ss_user s),
      store_set E SERVERS (server_section i) (W ''Directory'') (ss_directory s)]"

definition write_servers :: "('w, 'y) store_env_scheme \<Rightarrow> SshServers \<Rightarrow> ('w, 'z, bool) store_cmd" where
  "write_servers E v = do {
     ok \<leftarrow> all_ok [store_clear E SERVERS,
                   store_set_int E SERVERS (W ''Servers'') (W ''Version'') 1,
                   store_set_int E SERVERS (W ''Servers'') (W ''Count'') (ss_count v)];
     if ok then all_ok (map (\<lambda>i. save_server E i (ss_items v ! i)) [0..<nat (ss_count v)]) else ret False }"

definition store_save_ssh_servers :: "('w, 'y) store_env_scheme \<Rightarrow> SshServers \<Rightarrow> ('w, 'z, bool) store_cmd" where
  "store_save_ssh_servers E v =
     (if \<not> ssh_servers_valid (Some v) then ret False else transaction E (write_servers E v))"

definition load_server :: "('w, 'y) store_env_scheme \<Rightarrow> nat \<Rightarrow> ('w, 'z, SshServer option) store_cmd" where
  "load_server E i = do {
     ident \<leftarrow> read_setting E SERVERS (server_section i) (W ''Id'') 64;
     case ident of None \<Rightarrow> ret None | Some ident \<Rightarrow>
     let p = wcstoll ident in
     if ident = [] \<or> p_rest p \<noteq> [] \<or> p_range p \<or> p_value p \<le> 0 then ret None
     else do {
       port \<leftarrow> read_setting E SERVERS (server_section i) (W ''Port'') 64;
       case port of None \<Rightarrow> ret None | Some port \<Rightarrow>
       let q = wcstol port in
       if port = [] \<or> p_rest q \<noteq> [] \<or> p_value q < 1 \<or> p_value q > 65535 then ret None
       else do {
         name \<leftarrow> read_setting E SERVERS (server_section i) (W ''Name'') SSH_NAME_CAP;
         case name of None \<Rightarrow> ret None | Some name \<Rightarrow> do {
         host \<leftarrow> read_setting E SERVERS (server_section i) (W ''Host'') 256;
         case host of None \<Rightarrow> ret None | Some host \<Rightarrow> do {
         user \<leftarrow> read_setting E SERVERS (server_section i) (W ''User'') 128;
         case user of None \<Rightarrow> ret None | Some user \<Rightarrow> do {
         directory \<leftarrow> read_setting E SERVERS (server_section i) (W ''Directory'') SSH_PATH_CAP;
         ret (case directory of None \<Rightarrow> None
              | Some directory \<Rightarrow> Some \<lparr>ss_id = p_value p, ss_name = name, ss_host = host, ss_user = user,
                  ss_directory = directory, ss_port = p_value q\<rparr>) } } } } } }"

fun load_servers ::
    "('w, 'y) store_env_scheme \<Rightarrow> nat \<Rightarrow> SshServer list \<Rightarrow> ('w, 'z, SshServer list option) store_cmd" where
  "load_servers E 0 before = ret (Some before)"
| "load_servers E (Suc n) before = do {
     s \<leftarrow> load_server E (length before);
     case s of None \<Rightarrow> ret None | Some s \<Rightarrow> load_servers E n (before @ [s]) }"

definition server_array :: "SshServer list \<Rightarrow> SshServers" where
  "server_array ss = \<lparr>ss_items = ss @ replicate (SSH_SERVER_LIMIT - length ss) zero_server, ss_count = int (length ss)\<rparr>"

definition count_rows :: "('w, 'y) store_env_scheme \<Rightarrow> wstr \<Rightarrow> ('w, 'z, int option) store_cmd" where
  \<comment> \<open>\<open>None\<close>: not prepared; -1: the step fails\<close>
  "count_rows E scope = do {
     prepared \<leftarrow> prepare E;
     if \<not> prepared then ret None
     else do { ok \<leftarrow> lift (sql_ok E); d \<leftarrow> gets db; ret (Some (if ok then int (count_scope scope d) else -1)) } }"

definition store_load_ssh_servers :: "('w, 'y) store_env_scheme \<Rightarrow> ('w, 'z, SshServers option) store_cmd" where
  "store_load_ssh_servers E = do {
     rows \<leftarrow> count_rows E SERVERS;
     case rows of None \<Rightarrow> ret None | Some rows \<Rightarrow>
     if rows = 0 then ret (Some zero_servers)
     else do {
       version \<leftarrow> read_setting E SERVERS (W ''Servers'') (W ''Version'') 64;
       if version \<noteq> Some (W ''1'') then ret None
       else do {
         text \<leftarrow> read_setting E SERVERS (W ''Servers'') (W ''Count'') 64;
         case text of None \<Rightarrow> ret None | Some text \<Rightarrow>
         let p = wcstol text; n = p_value p in
         if text = [] \<or> p_rest p \<noteq> [] \<or> n < 0 \<or> n > int SSH_SERVER_LIMIT then ret None
         else do {
           ss \<leftarrow> load_servers E (nat n) [];
           ret (case ss of None \<Rightarrow> None
                | Some ss \<Rightarrow> if rows = 2 + n * 6 \<and> ssh_servers_valid (Some (server_array ss))
                             then Some (server_array ss) else None) } } } }"

end
