(* ===== verification/Storage_Open.thy ===== *)
theory Storage_Open
  imports Storage_Collections
begin

text \<open>
  \<open>src/src/platform/storage.c\<close>, third part: opening the store. The documents are read into an empty
  database (or an old database is imported), every preference and collection is checked, the parts
  that need migration are published, and any failure closes the store again.
\<close>

subsection \<open>Checks of the preferences\<close>

definition validate_number ::
    "('w, 'y) store_env_scheme \<Rightarrow> wstr \<Rightarrow> wstr \<Rightarrow> wstr \<Rightarrow> int \<Rightarrow> int \<Rightarrow> ('w, 'z, bool) store_cmd" where
  "validate_number E scope section key minimum maximum = do {
     row \<leftarrow> select_row E (scope, section, key) 3;
     ret (case row of
            None \<Rightarrow> False
          | Some (stepped, None) \<Rightarrow> stepped
          | Some (_, Some v) \<Rightarrow>
              let text = c_text v; p = wcstol text in
              text \<noteq> [] \<and> p_rest p \<noteq> text \<and> p_rest p = [] \<and> \<not> p_range p \<and> length v * 2 < 64 * 2
              \<and> minimum \<le> p_value p \<and> p_value p \<le> maximum) }"

definition validate_pane :: "('w, 'y) store_env_scheme \<Rightarrow> nat \<Rightarrow> ('w, 'z, bool) store_cmd" where
  "validate_pane E i = (let section = W ''Pane'' @ dec (int i) in all_ok
     [validate_number E (W ''files'') section (W ''Count'') 1 12,
      validate_number E (W ''files'') section (W ''Selected'') 0 11,
      validate_number E (W ''files'') section (W ''ServerMode'') 0 1,
      do { selected \<leftarrow> store_int E (W ''files'') section (W ''Selected'') 0;
           tabs \<leftarrow> store_int E (W ''files'') section (W ''Count'') 1;
           ret (selected < tabs) }])"

fun step_rows :: "('w, 'y) store_env_scheme \<Rightarrow> bool \<Rightarrow> bool list \<Rightarrow> ('w, 'z, bool) store_cmd" where
  \<comment> \<open>\<open>while((rc=sqlite3_step(s))==SQLITE_ROW)if(...)ok=FALSE;\<close> and \<open>ok&&rc==SQLITE_DONE\<close>, for the
     condition of each row\<close>
  "step_rows E ok [] = do { stepped \<leftarrow> lift (sql_ok E); ret (ok \<and> stepped) }"
| "step_rows E ok (b # bs) = do { stepped \<leftarrow> lift (sql_ok E); if \<not> stepped then ret False else step_rows E (ok \<and> b) bs }"

definition validate_preferences :: "('w, 'y) store_env_scheme \<Rightarrow> ('w, 'z, bool) store_cmd" where
  "validate_preferences E = all_ok
     (map (\<lambda>key. validate_number E (W ''app'') (W ''Nova'') key 0 1)
        [W ''AlwaysOnTop'', W ''DesktopMode'', W ''Language'', W ''SidebarCollapsed'']
      @ [validate_number E (W ''app'') (W ''Nova'') (W ''Active'') 0 (int MAX_WORKSPACES - 1),
         validate_number E (W ''files'') (W ''Manager'') (W ''Layout'') 0 11,
         validate_number E (W ''files'') (W ''Manager'') (W ''NavigationTree'') 0 1,
         validate_number E (W ''files'') (W ''Manager'') (W ''Migrated'') 0 1,
         validate_number E (W ''files'') (W ''Manager'') (W ''FavoriteCount'') 0 32]
      @ map (validate_pane E) [0..<4]
      @ [do { prepared \<leftarrow> prepare E;
              if \<not> prepared then ret False
              else do { d \<leftarrow> gets db;
                step_rows E True (map (\<lambda>r. length (snd r) * 2 < 2048 * 2) (filter (\<lambda>r. fst (fst r) = W ''files'') (settings d))) } }])"

subsection \<open>Checks of the tables\<close>

definition tables_consistent :: "Db \<Rightarrow> bool" where
  \<comment> \<open>no dangling item, no two workspaces at a position, no two items of a workspace at a position
     (and so never more than 20 at one)\<close>
  "tables_consistent d \<longleftrightarrow> fst ` snd ` set (items d) \<subseteq> fst ` set (workspaces d)
     \<and> distinct (map (\<lambda>(i, p, n). p) (workspaces d))
     \<and> distinct (map (\<lambda>(i, w, p, n, t). (w, p)) (items d))"

definition check_tables :: "('w, 'y) store_env_scheme \<Rightarrow> ('w, 'z, bool) store_cmd" where
  "check_tables E = do {
     prepared \<leftarrow> prepare E;
     if \<not> prepared then ret False
     else do { ok \<leftarrow> lift (sql_ok E); d \<leftarrow> gets db; ret (ok \<and> tables_consistent d) } }"

fun load_all_items :: "('w, 'y) store_env_scheme \<Rightarrow> Workspace list \<Rightarrow> ('w, 'z, bool) store_cmd" where
  "load_all_items E [] = ret True"
| "load_all_items E (w # ws) = do { r \<leftarrow> store_load_items E w; if fst r then load_all_items E ws else ret False }"

definition check_workspaces :: "('w, 'y) store_env_scheme \<Rightarrow> ('w, 'z, bool) store_cmd" where
  "check_workspaces E = do {
     r \<leftarrow> store_load_workspaces E (replicate MAX_WORKSPACES zero_workspace);
     if fst r < 0 then ret False else load_all_items E (take (nat (fst r)) (snd r)) }"

definition check_collections :: "('w, 'y) store_env_scheme \<Rightarrow> ('w, 'z, bool) store_cmd" where
  "check_collections E = do {
     prepared \<leftarrow> prepare E;
     if \<not> prepared then ret False
     else do {
       ok \<leftarrow> lift (sql_ok E);
       d \<leftarrow> gets db;
       let batch = (count_scope BATCH d + count_scope LEGACY d > 0);
       let presets = (count_scope PRESETS d > 0);
       if \<not> ok then ret False
       else do {
         ok \<leftarrow> (if batch then do { ts \<leftarrow> store_load_batch_tasks E; ret (ts \<noteq> None) } else ret True);
         if ok \<and> presets then do { r \<leftarrow> store_load_file_commands E; ret (fst r) } else ret ok } } }"

definition check_servers :: "('w, 'y) store_env_scheme \<Rightarrow> ('w, 'z, bool) store_cmd" where
  "check_servers E = do { v \<leftarrow> store_load_ssh_servers E; ret (v \<noteq> None) }"

subsection \<open>Opening\<close>

definition begin_open :: "('w, 'y) store_env_scheme \<Rightarrow> wstr \<Rightarrow> wstr \<Rightarrow> ('w, 'z, bool) store_cmd" where
  \<comment> \<open>\<open>sqlite3_open(":memory:")\<close>, the statics, the pragmas and the tables\<close>
  "begin_open E directory legacy = do {
     modify (\<lambda>s. s\<lparr>open_changed := False\<rparr>);
     opened \<leftarrow> sql_call E;
     if \<not> opened then do { store_close; ret False }
     else do {
       modify (\<lambda>s. s\<lparr>db := empty_db, begun := None, is_open := True, root := directory, legacy_root := legacy,
         is_opening := True\<rparr>);
       sql_call E } }"

definition load_documents :: "('w, 'y) store_env_scheme \<Rightarrow> wstr \<Rightarrow> wstr \<Rightarrow> ('w, 'z, bool \<times> bool) store_cmd" where
  \<comment> \<open>the result, and whether something read has to be published in the current form\<close>
  "load_documents E directory legacy = do {
     r \<leftarrow> config_json_load E directory;
     case r of (ok, initialized, runtime_migration) \<Rightarrow> do {
     i \<leftarrow> (if ok \<and> \<not> initialized then config_json_legacy E legacy else ret (ok, False));
     case i of (ok, imported) \<Rightarrow> do {
     l \<leftarrow> (if ok then config_json_load_local E directory else ret (False, False));
     case l of (ok, split_needed) \<Rightarrow> ret (ok, runtime_migration \<or> imported \<or> split_needed) } } }"

definition check_store :: "('w, 'y) store_env_scheme \<Rightarrow> ('w, 'z, bool) store_cmd" where
  "check_store E = all_ok [sql_call E, validate_preferences E, check_tables E, check_workspaces E,
     check_collections E, check_servers E]"

definition store_open_impl :: "('w, 'y) store_env_scheme \<Rightarrow> wstr \<Rightarrow> wstr \<Rightarrow> ('w, 'z, bool) store_cmd" where
  "store_open_impl E directory legacy = do {
     present \<leftarrow> gets is_open;
     current \<leftarrow> gets root;
     if length directory > 260 - 80 \<or> length legacy > 260 - 32 then ret False
     else if present then ret (ieq E directory current)
     else do {
       ok \<leftarrow> begin_open E directory legacy;
       now_open \<leftarrow> gets is_open;
       if \<not> now_open then ret False
       else do {
         r \<leftarrow> (if ok then load_documents E directory legacy else ret (False, False));
         ok \<leftarrow> (if fst r then check_store E else ret False);
         modify (\<lambda>s. s\<lparr>is_opening := False\<rparr>);
         changed \<leftarrow> gets open_changed;
         ok \<leftarrow> (if ok \<and> (snd r \<or> changed) then and_then (store_begin E) (store_end E True) else ret ok);
         if \<not> ok then do { store_close; ret False } else ret True } } }"

definition store_open :: "('w, 'y) store_env_scheme \<Rightarrow> wstr \<Rightarrow> ('w, 'z, bool) store_cmd" where
  "store_open E directory = store_open_impl E directory directory"

definition store_backup :: "('w, 'y) store_env_scheme \<Rightarrow> ('w, 'z, bool) store_cmd" where
  "store_backup E = do {
     present \<leftarrow> gets is_open;
     directory \<leftarrow> gets root;
     if present then config_json_backup E directory else ret False }"

end
