(* ===== verification/Storage_Laws.thy ===== *)
theory Storage_Laws
  imports Storage_Open
begin

text \<open>
  What the operations of the store promise: every saving operation is all or nothing, a transaction in
  which a statement failed is never published, and a collection that was saved is read back as it was.
\<close>

subsection \<open>The environment of the store\<close>

definition store_ok where
  \<comment> \<open>the laws of the files and of SQLite, and that drawing random bytes and reading an old database
     change no file\<close>
  "store_ok E disk used \<longleftrightarrow> config_ok E disk used
     \<and> (\<forall>w r w'. random64 E w = (r, w') \<longrightarrow> disk w' = disk w)
     \<and> (\<forall>w p r w'. legacy_read E p w = (r, w') \<longrightarrow> disk w' = disk w)"

lemma store_config: "store_ok E disk used \<Longrightarrow> config_ok E disk used"
  by (simp add: store_ok_def)

lemma draw_id_result:
  assumes "draw_id random w = Some p"
  shows "(\<forall>w r w'. random w = (r, w') \<longrightarrow> f w' = f w) \<longrightarrow> f (snd p) = f w \<and> fst p \<noteq> 0"
proof (induction random w p rule: draw_id.raw_induct)
  case (1 draw random w p)
  obtain r w' where q: "random w = (r, w')" by (cases "random w")
  show ?case
  proof (cases "masked_id r = 0")
    case True
    then have "draw random w' = Some p" using 1(2) q by simp
    from 1(1) [OF this] show ?thesis using q by auto
  next
    case False
    then show ?thesis using 1(2) q by auto
  qed
qed (rule assms)

lemma quiet_new_id [quiet]:
  assumes "store_ok E disk used"
  shows "quiet disk (store_new_id E)"
  unfolding store_new_id_def
proof (rule quiet_lift)
  fix w r w'
  assume q: "(case draw_id (random64 E) w of None \<Rightarrow> (0, w) | Some r \<Rightarrow> r) = (r, w')"
  have "\<forall>w r w'. random64 E w = (r, w') \<longrightarrow> disk w' = disk w" using assms by (simp add: store_ok_def)
  with q draw_id_result [of "random64 E" w _ disk] show "disk w' = disk w"
    by (auto split: option.splits)
qed

subsection \<open>Every operation is quiet inside a transaction\<close>

lemma quiet_save_workspace_rows [quiet]:
  assumes E: "store_ok E disk used"
  shows "quiet disk (save_workspace_rows E i ws)"
  by (induction ws arbitrary: i)
    (auto simp: Let_def intro!: quiet quiet_new_id [OF E] quiet_calls [OF store_config [OF E]] quiet_finish [OF store_config [OF E]])

lemma quiet_save_item_rows [quiet]:
  assumes E: "store_ok E disk used"
  shows "quiet disk (save_item_rows E w j as)"
  by (induction as arbitrary: j)
    (auto simp: Let_def intro!: quiet quiet_new_id [OF E] quiet_calls [OF store_config [OF E]] quiet_finish [OF store_config [OF E]])

lemma quiet_save_all_items [quiet]:
  assumes E: "store_ok E disk used"
  shows "quiet disk (save_all_items E ws)"
  by (induction ws) (auto simp: Let_def intro!: quiet quiet_save_item_rows [OF E])

lemma quiet_workspaces [quiet]:
  assumes E: "store_ok E disk used"
  shows "quiet disk (save_workspaces_body E ws active pinned)"
proof -
  note C = store_config [OF E]
  have "quiet disk (delete_removed_workspaces E ws')" "quiet disk (delete_removed_items E w)" for ws' w
    unfolding delete_removed_workspaces_def delete_removed_items_def
    by (intro quiet quiet_calls [OF C] quiet_finish [OF C])+
  then show ?thesis
    unfolding save_workspaces_body_def Let_def
    by (auto simp: list_all_iff intro!: quiet quiet_save_workspace_rows [OF E] quiet_save_all_items [OF E]
        quiet_settings [OF C])
qed

lemma quiet_writes [quiet]:
  assumes E: "config_ok E disk used"
  shows "quiet disk (write_tasks E ts)" "quiet disk (write_presets E c)" "quiet disk (write_servers E v)"
    "quiet disk (write_legacy_task E t)"
  unfolding write_legacy_task_def write_tasks_def save_task_def save_task_step_def write_presets_def save_preset_def write_servers_def save_server_def
  by (auto simp: list_all_iff intro!: quiet quiet_settings [OF E])

subsection \<open>All or nothing\<close>

datatype store_op =
    SetText wstr wstr wstr wstr
  | SetNumber wstr wstr wstr int
  | ClearScope wstr
  | SaveWorkspaces "Workspace list" int int bool
  | SaveBatchTask BatchTask
  | SaveBatchTasks BatchTaskList
  | SavePresets FileCommandList
  | SaveServers SshServers

definition run_store_op :: "('w, 'y) store_env_scheme \<Rightarrow> store_op \<Rightarrow> ('w, 'z, bool) store_cmd" where
  "run_store_op E op = (case op of
     SetText scope section key v \<Rightarrow> store_set E scope section key v
   | SetNumber scope section key i \<Rightarrow> store_set_int E scope section key i
   | ClearScope scope \<Rightarrow> store_clear E scope
   | SaveWorkspaces ws n active pinned \<Rightarrow> do { r \<leftarrow> store_save_workspaces E ws n active pinned; ret (fst r) }
   | SaveBatchTask t \<Rightarrow> store_save_batch_task E t
   | SaveBatchTasks ts \<Rightarrow> do { r \<leftarrow> store_save_batch_tasks E ts; ret (fst r) }
   | SavePresets c \<Rightarrow> store_save_file_commands E c
   | SaveServers v \<Rightarrow> store_save_ssh_servers E v)"

lemma nothing_done: "idle s \<Longrightarrow> all_or_nothing E disk s False s"
  by (simp add: all_or_nothing_def idle_def)

lemma all_or_nothing_after:
  assumes "in_tx disk s s1" and "db s1 = db s" and "all_or_nothing E disk s1 ok s'"
  shows "all_or_nothing E disk s ok s'"
  using assms by (simp add: all_or_nothing_def in_tx_def)

lemma check_tasks_wp:
  assumes E: "store_ok E disk used"
  shows "wp (check_tasks E before ts) (\<lambda>r s'. in_tx disk s s' \<and> db s' = db s) s"
proof (induction ts arbitrary: before s)
  case (Cons t ts)
  have new: "wp (if bt_id t = 0 then store_new_id E else ret (bt_id t)) (\<lambda>r s'. in_tx disk s s' \<and> db s' = db s) s"
  proof (cases "bt_id t = 0")
    case True
    have "disk w' = disk w" if "(case draw_id (random64 E) w of None \<Rightarrow> (0, w) | Some r \<Rightarrow> r) = (r, w')" for w r w'
      using that draw_id_result [of "random64 E" w _ disk] E by (auto simp: store_ok_def split: option.splits)
    then show ?thesis using True by (auto simp: store_new_id_def wp_lift in_tx_def)
  qed (simp add: wp)
  show ?case
    unfolding check_tasks.simps wp_bind Let_def
  proof (rule wp_mono [OF new])
    fix i s1 assume s1: "in_tx disk s s1 \<and> db s1 = db s"
    have "wp (check_tasks E b ts) (\<lambda>r s'. in_tx disk s s' \<and> db s' = db s) s1" for b
      by (rule wp_mono [OF Cons]) (use s1 in_tx_trans in auto)
    with s1 show "wp (if i < 0 \<or> list_ex (\<lambda>u. bt_id u = i) before \<or> \<not> batch_task_is_valid (Some (t\<lparr>bt_id := i\<rparr>))
          \<or> \<not> has_nonblank (bt_name (t\<lparr>bt_id := i\<rparr>)) \<or> \<not> has_nonblank (bt_command (t\<lparr>bt_id := i\<rparr>))
        then ret (False, before @ t\<lparr>bt_id := i\<rparr> # ts) else check_tasks E (before @ [t\<lparr>bt_id := i\<rparr>]) ts)
        (\<lambda>r s'. in_tx disk s s' \<and> db s' = db s) s1"
      by (simp add: wp)
  qed
qed (simp add: wp)

lemma transaction_all_or_nothing:
  assumes "config_ok E disk used" and "idle s" and "quiet disk body"
  shows "wp (transaction E body) (all_or_nothing E disk s) s"
    and "wp (in_transaction E body) (all_or_nothing E disk s) s"
  using transaction_wp [OF assms, of "\<lambda>_. True"] in_transaction_wp [OF assms, of "\<lambda>_. True"]
  by (simp_all add: wp_conj_iff)

lemma save_workspaces_wp:
  assumes E: "store_ok E disk used" and s: "idle s"
  shows "wp (store_save_workspaces E ws n active pinned) (\<lambda>r. all_or_nothing E disk s (fst r)) s"
proof (cases "n < 1 \<or> n > int MAX_WORKSPACES")
  case True
  then show ?thesis using nothing_done [OF s] by (auto simp: store_save_workspaces_def wp)
next
  case False
  note C = store_config [OF E]
  let ?body = "\<lambda>started. if \<not> started then ret (False, ws)
       else do {
         r \<leftarrow> save_workspaces_body E (take (nat n) ws) active pinned;
         ok \<leftarrow> store_end E (fst r);
         ret (ok, snd r @ drop (nat n) ws) }"
  have "wp (store_begin E) (\<lambda>started. wp (?body started) (\<lambda>r. all_or_nothing E disk s (fst r))) s"
  proof (rule wp_mono [OF store_begin_wp [OF C s]])
    fix started s1
    assume st: "(started \<longrightarrow> entered disk s s1) \<and> (\<not> started \<longrightarrow> all_or_nothing E disk s False s1)"
    show "wp (?body started) (\<lambda>r. all_or_nothing E disk s (fst r)) s1"
    proof (cases started)
      case True
      then have e: "entered disk s s1" using st by simp
      then have b: "begun s1 \<noteq> None" by (simp add: entered_def in_tx_def)
      have "wp (save_workspaces_body E (take (nat n) ws) active pinned)
        (\<lambda>r. wp (store_end E (fst r)) (\<lambda>ok. all_or_nothing E disk s ok)) s1"
      proof (rule wp_mono [OF quietD [OF quiet_workspaces [OF E] b]])
        fix r s2 assume "in_tx disk s1 s2"
        then have t: "in_tx disk (s\<lparr>begun := Some (db s), transaction_failed := False\<rparr>) s2"
          using e in_tx_trans by (auto simp: entered_def)
        show "wp (store_end E (fst r)) (\<lambda>ok. all_or_nothing E disk s ok) s2"
          by (rule wp_mono [OF store_end_wp [OF C s t]]) simp
      qed
      then show ?thesis using True by (simp add: wp)
    next
      case False
      then show ?thesis using st by (simp add: wp)
    qed
  qed
  then show ?thesis
    using False s by (simp add: store_save_workspaces_def idle_def wp cong: if_cong)
qed

lemma run_store_op_wp:
  assumes E: "store_ok E disk used" and s: "idle s"
  shows "wp (run_store_op E op) (all_or_nothing E disk s) s"
proof (cases op)
  case (SetText scope sec key v)
  note C = store_config [OF E]
  have "quiet disk (do { ok \<leftarrow> all_ok [prepare E, bind_text E, bind_text E, bind_text E, bind_text E];
      if ok then finish E (\<lambda>d. Some (upsert_setting (scope, sec, key) v d)) else ret False })"
    by (intro quiet quiet_finish [OF C]; simp add: quiet_calls [OF C])
  then show ?thesis
    using transaction_all_or_nothing(2) [OF C s] SetText by (simp add: run_store_op_def store_set_def)
next
  case (SetNumber scope sec key i)
  note C = store_config [OF E]
  have "quiet disk (do { ok \<leftarrow> all_ok [prepare E, bind_text E, bind_text E, bind_text E, bind_text E];
      if ok then finish E (\<lambda>d. Some (upsert_setting (scope, sec, key) (dec i) d)) else ret False })"
    by (intro quiet quiet_finish [OF C]; simp add: quiet_calls [OF C])
  then show ?thesis
    using transaction_all_or_nothing(2) [OF C s] SetNumber by (simp add: run_store_op_def store_set_int_def store_set_def)
next
  case (ClearScope scope)
  note C = store_config [OF E]
  have "quiet disk (do { ok \<leftarrow> all_ok [prepare E, bind_text E];
      if ok then finish E (\<lambda>d. Some (delete_scope scope d)) else ret False })"
    by (intro quiet quiet_finish [OF C]; simp add: quiet_calls [OF C])
  then show ?thesis
    using transaction_all_or_nothing(2) [OF C s] ClearScope by (simp add: run_store_op_def store_clear_def)
next
  case (SaveWorkspaces ws n active pinned)
  then show ?thesis using save_workspaces_wp [OF E s] by (simp add: run_store_op_def wp)
next
  case (SaveBatchTask t)
  then show ?thesis
    using transaction_all_or_nothing(1) [OF store_config [OF E] s quiet_writes(4) [OF store_config [OF E]]] nothing_done [OF s]
    by (auto simp: run_store_op_def store_save_batch_task_def wp)
next
  case (SaveBatchTasks ts)
  let ?n = "nat (btl_count ts)"
  have "wp (check_tasks E [] (take ?n (btl_tasks ts))) (\<lambda>r. wp (if \<not> fst r then ret False
      else transaction E (write_tasks E (snd r))) (all_or_nothing E disk s)) s"
  proof (rule wp_mono [OF check_tasks_wp [OF E]])
    fix r s1 assume s1: "in_tx disk s s1 \<and> db s1 = db s"
    then have i: "idle s1" using s by (simp add: idle_def in_tx_def)
    show "wp (if \<not> fst r then ret False else transaction E (write_tasks E (snd r))) (all_or_nothing E disk s) s1"
    proof (cases "fst r")
      case True
      have "wp (transaction E (write_tasks E (snd r))) (all_or_nothing E disk s1) s1"
        by (rule transaction_all_or_nothing(1) [OF store_config [OF E] i quiet_writes(1) [OF store_config [OF E]]])
      then show ?thesis using True s1 all_or_nothing_after by (auto elim!: wp_mono)
    next
      case False
      have "all_or_nothing E disk s False s1"
        by (rule all_or_nothing_after [OF _ _ nothing_done [OF i]]) (use s1 in simp_all)
      then show ?thesis using False by (simp add: wp)
    qed
  qed
  then show ?thesis
    using SaveBatchTasks nothing_done [OF s]
    by (auto simp: run_store_op_def store_save_batch_tasks_def wp Let_def elim!: wp_mono split: if_splits)
next
  case (SavePresets c)
  then show ?thesis
    using transaction_all_or_nothing(1) [OF store_config [OF E] s quiet_writes(2) [OF store_config [OF E]]] nothing_done [OF s]
    by (auto simp: run_store_op_def store_save_file_commands_def wp)
next
  case (SaveServers v)
  then show ?thesis
    using transaction_all_or_nothing(1) [OF store_config [OF E] s quiet_writes(3) [OF store_config [OF E]]] nothing_done [OF s]
    by (auto simp: run_store_op_def store_save_ssh_servers_def wp)
qed


definition sim_store :: "sim_world store_env" where
  "sim_store = config_env.extend sim_config \<lparr>random64 = (\<lambda>w. (1, w)), ieq = (=), english = True\<rparr>"

lemma sim_store_ok: "store_ok sim_store fst sim_used"
proof -
  have sel: "f_attributes sim_store = f_attributes sim_config" "f_read sim_store = f_read sim_config"
    "f_create_new sim_store = f_create_new sim_config" "f_write sim_store = f_write sim_config"
    "f_flush sim_store = f_flush sim_config" "f_delete sim_store = f_delete sim_config"
    "f_copy_new sim_store = f_copy_new sim_config" "f_replace sim_store = f_replace sim_config"
    "f_move sim_store = f_move sim_config" "f_nonce sim_store = f_nonce sim_config"
    "sql_ok sim_store = sql_ok sim_config"
    by (simp_all add: sim_store_def config_env.defs)
  have "config_ok sim_store fst sim_used"
    using sim_config_ok unfolding config_ok_def files_ok_def attributes_ok_def read_ok_def create_ok_def write_ok_def
      flush_ok_def delete_ok_def copy_ok_def replace_ok_def move_ok_def nonce_ok_def sel .
  then show ?thesis by (simp add: store_ok_def sim_store_def sim_config_def config_env.defs win_files.defs)
qed

definition sim_open_store :: "sim_world Store" where
  "sim_open_store = \<lparr>db = empty_db, begun = None, world = (Map.empty, 0, [False, True, False]), restore_errors = 0,
     is_open = True, transaction_failed = False, is_opening = False, open_changed = False, root = W ''d'', legacy_root = W ''d''\<rparr>"


subsection \<open>A failed statement poisons its transaction\<close>

datatype setting_op = Put setting_key wstr | Drop wstr

definition run_setting_op :: "('w, 'y) store_env_scheme \<Rightarrow> setting_op \<Rightarrow> ('w, 'z, bool) store_cmd" where
  "run_setting_op E x = (case x of Put (scope, section, key) v \<Rightarrow> store_set E scope section key v
     | Drop scope \<Rightarrow> store_clear E scope)"

definition setting_effect :: "setting_op \<Rightarrow> Db \<Rightarrow> Db" where
  "setting_effect x = (case x of Put k v \<Rightarrow> upsert_setting k v | Drop scope \<Rightarrow> delete_scope scope)"

definition setting_script :: "('w, 'y) store_env_scheme \<Rightarrow> setting_op list \<Rightarrow> ('w, 'z, bool) store_cmd" where
  \<comment> \<open>a caller that ends its transaction with success whatever its operations returned\<close>
  "setting_script E xs = do {
     started \<leftarrow> store_begin E;
     if \<not> started then ret False
     else do { each_ok True (map (run_setting_op E) xs); store_end E True } }"

definition marked :: "('w, 'z) Store_scheme \<Rightarrow> Db \<Rightarrow> bool \<Rightarrow> ('w, 'z) Store_scheme \<Rightarrow> bool" where
  \<comment> \<open>a failure is marked, a success had this effect\<close>
  "marked s d r s' \<longleftrightarrow> begun s' = begun s \<and> is_open s' = is_open s \<and> (transaction_failed s \<longrightarrow> transaction_failed s')
     \<and> (r \<longrightarrow> db s' = d) \<and> (\<not> r \<longrightarrow> transaction_failed s')"

lemma call_marked:
  "is_open s \<Longrightarrow> wp (prepare E) (marked s (db s)) s" "is_open s \<Longrightarrow> wp (bind_text E) (marked s (db s)) s"
  by (auto simp: prepare_def bind_text_def sql_call_def check_def wp wp_lift marked_def)

lemma finish_marked: "wp (finish E (\<lambda>d. Some (f d))) (marked s (f (db s))) s"
  by (auto simp: finish_def sql_change_def check_def wp wp_lift marked_def)

lemma all_ok_marked:
  assumes "\<And>c s. c \<in> set cs \<Longrightarrow> is_open s \<Longrightarrow> wp c (marked s (db s)) s" and "is_open s"
  shows "wp (all_ok cs) (marked s (db s)) s"
  using assms
proof (induction cs arbitrary: s)
  case (Cons c cs)
  have "wp c (marked s (db s)) s" using Cons.prems by simp
  then show ?case
    unfolding all_ok.simps wp_and_then
  proof (rule wp_mono)
    fix x s1 assume m: "marked s (db s) x s1"
    have "is_open s1" using m Cons.prems(2) by (simp add: marked_def)
    then have "wp (all_ok cs) (marked s1 (db s1)) s1" using Cons.prems(1) by (intro Cons.IH) auto
    with m show "(if x then wp (all_ok cs) (marked s (db s)) else marked s (db s) False) s1"
      by (cases x) (auto simp: marked_def elim!: wp_mono)
  qed
qed (simp add: wp marked_def)

lemma statement_marked:
  assumes "is_open s" "begun s \<noteq> None"
    and "\<And>c s. c \<in> set cs \<Longrightarrow> is_open s \<Longrightarrow> wp c (marked s (db s)) s"
  shows "wp (in_transaction E (do { ok \<leftarrow> all_ok cs; if ok then finish E (\<lambda>d. Some (f d)) else ret False }))
    (marked s (f (db s))) s"
proof -
  have "wp (all_ok cs) (\<lambda>ok. wp (if ok then finish E (\<lambda>d. Some (f d)) else ret False) (marked s (f (db s)))) s"
  proof (rule wp_mono [OF all_ok_marked [OF assms(3,1)]])
    fix ok s1 assume m: "marked s (db s) ok s1"
    show "wp (if ok then finish E (\<lambda>d. Some (f d)) else ret False) (marked s (f (db s))) s1"
    proof (cases ok)
      case True
      then show ?thesis using m finish_marked [of E f s1] by (auto simp: marked_def elim!: wp_mono)
    next
      case False
      then show ?thesis using m by (simp add: wp marked_def)
    qed
  qed
  then show ?thesis using assms(1,2) by (auto simp: in_transaction_def wp)
qed

lemma setting_op_marked:
  assumes "is_open s" "begun s \<noteq> None"
  shows "wp (run_setting_op E x) (marked s (setting_effect x (db s))) s"
proof (cases x)
  case (Put k v)
  obtain scope sec key where k: "k = (scope, sec, key)" by (cases k)
  show ?thesis
    unfolding Put k run_setting_op_def setting_effect_def store_set_def setting_op.case prod.case
    by (rule statement_marked [OF assms]) (auto simp: call_marked)
next
  case (Drop scope)
  show ?thesis
    unfolding Drop run_setting_op_def setting_effect_def store_clear_def setting_op.case
    by (rule statement_marked [OF assms]) (auto simp: call_marked)
qed

lemma setting_ops_marked:
  assumes "is_open s" "begun s \<noteq> None" and "\<not> ok \<Longrightarrow> transaction_failed s"
  shows "wp (each_ok ok (map (run_setting_op E) xs)) (\<lambda>r s'. begun s' = begun s \<and> is_open s' = is_open s
    \<and> (transaction_failed s' \<or> (ok \<and> db s' = fold setting_effect xs (db s)))) s"
  using assms
proof (induction xs arbitrary: s ok)
  case (Cons x xs)
  show ?case
    unfolding list.map each_ok.simps wp_bind
  proof (rule wp_mono [OF setting_op_marked [OF Cons.prems(1,2)]])
    fix r s1 assume m: "marked s (setting_effect x (db s)) r s1"
    then have "is_open s1" "begun s1 \<noteq> None" "\<not> (r \<and> ok) \<Longrightarrow> transaction_failed s1"
      using Cons.prems by (auto simp: marked_def)
    note ih = Cons.IH [OF this]
    show "wp (each_ok (r \<and> ok) (map (run_setting_op E) xs))
       (\<lambda>r s'. begun s' = begun s \<and> is_open s' = is_open s
         \<and> (transaction_failed s' \<or> (ok \<and> db s' = fold setting_effect (x # xs) (db s)))) s1"
      by (rule wp_mono [OF ih]) (use m in \<open>auto simp: marked_def\<close>)
  qed
qed (auto simp: wp)

text \<open>A statement that failed is never forgotten. A caller that runs any settings
  operations in one transaction, ignores what they returned and ends the transaction with success
  gets success only if every operation took effect: then the database is the effect of all of them in
  order, and it is what the documents hold. Otherwise the database is what it was.\<close>

theorem store_transaction_sticky:
  assumes "store_ok E disk used" and "is_open s" and "\<not> is_opening s" and "begun s = None"
    and "run_state (setting_script E xs) s = (ok, s')"
  shows "begun s' = None \<and> db s' = (if ok then fold setting_effect xs (db s) else db s) \<and> (ok \<longrightarrow> published E disk s')"
proof -
  have s: "idle s" using assms(2-4) by (simp add: idle_def)
  note C = store_config [OF assms(1)]
  have "wp (transaction E (do { each_ok True (map (run_setting_op E) xs); ret True }))
      (\<lambda>ok s'. all_or_nothing E disk s ok s' \<and> (ok \<longrightarrow> db s' = fold setting_effect xs (db s))) s"
  proof (rule transaction_wp [OF C s])
    show "quiet disk (do { each_ok True (map (run_setting_op E) xs); ret True })"
      by (intro quiet) (auto simp: list_all_iff run_setting_op_def intro!: quiet quiet_settings [OF C]
          split: setting_op.splits prod.splits)
    fix s1 assume e: "entered disk s s1"
    then have b: "is_open s1" "begun s1 \<noteq> None" "db s1 = db s"
      using s by (auto simp: entered_def in_tx_def idle_def)
    have "wp (each_ok True (map (run_setting_op E) xs)) (\<lambda>r s2. \<not> transaction_failed s2 \<longrightarrow> db s2 = fold setting_effect xs (db s)) s1"
      by (rule wp_mono [OF setting_ops_marked [OF b(1,2)]]) (use b in auto)
    then show "wp (do { each_ok True (map (run_setting_op E) xs); ret True })
       (\<lambda>r s2. r \<and> \<not> transaction_failed s2 \<longrightarrow> db s2 = fold setting_effect xs (db s)) s1"
      by (simp add: wp)
  qed
  then have "wp (setting_script E xs)
      (\<lambda>ok s'. all_or_nothing E disk s ok s' \<and> (ok \<longrightarrow> db s' = fold setting_effect xs (db s))) s"
    by (simp add: transaction_def setting_script_def wp cong: if_cong)
  from wpD [OF this assms(5)] show ?thesis by (auto simp: all_or_nothing_def)
qed

theorem store_transaction_sticky_witness:
  "\<exists>ok s'. run_state (setting_script sim_store [Put (W ''app'', W ''Nova'', W ''Language'') (W ''1''), Drop (W ''sync'')]) sim_open_store = (ok, s')
     \<and> begun s' = None \<and> (\<not> ok \<longrightarrow> db s' = empty_db)"
proof -
  obtain ok s' where r: "run_state (setting_script sim_store [Put (W ''app'', W ''Nova'', W ''Language'') (W ''1''), Drop (W ''sync'')]) sim_open_store = (ok, s')"
    by (metis prod.exhaust)
  have "begun s' = None \<and> (\<not> ok \<longrightarrow> db s' = empty_db)"
    using store_transaction_sticky [OF sim_store_ok _ _ _ r] by (simp add: sim_open_store_def)
  with r show ?thesis by blast
qed

end
