(* ===== verification/Storage_Roundtrip.thy ===== *)
theory Storage_Roundtrip
  imports Storage_Laws
begin

text \<open>
  A collection that was saved is read back as it was: the rows each save leaves in its scope, and the
  reading of those rows by the loaders, for the command presets, the SSH servers and the batch tasks.
\<close>

subsection \<open>Numbered keys\<close>

lemma numbered_ne:
  assumes "\<not> (take (length p) q = p \<and> list_all is_digit (drop (length p) q))"
  shows "p @ dec (int i) \<noteq> q" "q \<noteq> p @ dec (int i)"
  using assms dec_digits [of "int i"] by auto

lemma section_ne:
  "preset_section i \<noteq> W ''Commands''" "server_section i \<noteq> W ''Servers''" "task_section i \<noteq> W ''Collection''"
  "W ''Directory'' @ dec (int i) \<noteq> W ''Id''" "W ''Directory'' @ dec (int i) \<noteq> W ''Name''"
  "W ''Directory'' @ dec (int i) \<noteq> W ''Command''" "W ''Directory'' @ dec (int i) \<noteq> W ''Mode''"
  "W ''Directory'' @ dec (int i) \<noteq> W ''DirectoryCount''"
  "W ''StepCommand'' @ dec (int i) \<noteq> W ''Id''" "W ''StepCommand'' @ dec (int i) \<noteq> W ''Name''"
  "W ''StepCommand'' @ dec (int i) \<noteq> W ''Command''" "W ''StepCommand'' @ dec (int i) \<noteq> W ''Mode''"
  "W ''StepCommand'' @ dec (int i) \<noteq> W ''DirectoryCount''"
  unfolding preset_section_def server_section_def task_section_def
  by (rule numbered_ne(1), simp add: W_Cons is_digit_def)+

lemma section_inj [simp]:
  "preset_section i = preset_section j \<longleftrightarrow> i = j" "server_section i = server_section j \<longleftrightarrow> i = j"
  "task_section i = task_section j \<longleftrightarrow> i = j"
  by (simp_all add: preset_section_def server_section_def task_section_def)

lemma directory_step_ne: "W ''Directory'' @ dec (int i) \<noteq> W ''StepCommand'' @ dec (int j)"
  by (simp add: W_Cons)

lemmas keys_ne = section_ne section_ne [symmetric] directory_step_ne directory_step_ne [symmetric]

subsection \<open>Rows of a scope\<close>

definition holds_rows :: "wstr \<Rightarrow> (setting_key \<times> wstr) list \<Rightarrow> Db \<Rightarrow> bool" where
  \<comment> \<open>these are exactly the rows of the scope\<close>
  "holds_rows scope rows d \<longleftrightarrow> distinct (map fst (settings d)) \<and> distinct (map fst rows)
     \<and> (\<forall>k. fst k = scope \<longrightarrow> select_setting k d = map_of rows k) \<and> (\<forall>r \<in> set rows. fst (fst r) = scope)"

lemma holds_rows_select: "holds_rows scope rows d \<Longrightarrow> (k, v) \<in> set rows \<Longrightarrow> select_setting k d = Some v"
  unfolding holds_rows_def by (metis (no_types, lifting) fst_conv map_of_is_SomeI)

lemma holds_rows_count:
  assumes "holds_rows scope rows d"
  shows "count_scope scope d = length rows"
proof -
  let ?F = "filter (\<lambda>r. fst (fst r) = scope) (settings d)"
  have d: "distinct (map fst ?F)" using assms by (simp add: holds_rows_def distinct_map_filter)
  have "map_of ?F = map_of rows"
  proof
    fix k
    have f: "map_of ?F k = (if fst k = scope then map_of (settings d) k else None)"
      by (rule map_of_filter_key [of "\<lambda>k. fst k = scope"])
    have "map_of rows k = None" if "fst k \<noteq> scope"
      using assms that by (auto simp: holds_rows_def map_of_eq_None_iff)
    moreover have "map_of (settings d) k = map_of rows k" if "fst k = scope"
      using assms that unfolding holds_rows_def select_setting_def by blast
    ultimately show "map_of ?F k = map_of rows k" by (simp only: f split: if_split) simp
  qed
  then have "set ?F = set rows" using d assms by (simp add: map_of_inject_set holds_rows_def)
  then show ?thesis
    using d assms distinct_card [of ?F] distinct_card [of rows]
    by (simp add: count_scope_def holds_rows_def distinct_map)
qed

lemma distinct_blocks:
  assumes "\<And>i. i < n \<Longrightarrow> distinct (map fst (f i))"
    and "\<And>i j. i < j \<Longrightarrow> j < n \<Longrightarrow> fst ` set (f i) \<inter> fst ` set (f j) = {}"
  shows "distinct (map fst (concat (map f [0..<n])))"
  using assms
proof (induction n)
  case (Suc n)
  have "distinct (map fst (concat (map f [0..<n])))" by (rule Suc.IH) (use Suc.prems in auto)
  moreover have "fst ` set (concat (map f [0..<n])) \<inter> fst ` set (f n) = {}"
  proof -
    have "fst ` set (f i) \<inter> fst ` set (f n) = {}" if "i < n" for i using Suc.prems(2) [OF that] by simp
    then have "\<forall>i \<in> {0..<n}. fst ` set (f i) \<inter> fst ` set (f n) = {}" by simp
    then show ?thesis unfolding set_concat set_map image_UN set_upt by blast
  qed
  ultimately show ?case using Suc.prems(1) [of n] by simp
qed simp

subsection \<open>Saving\<close>

lemma transaction_rows:
  assumes E: "config_ok E disk used" and s: "idle s" and keys: "distinct (map fst (settings (db s)))"
    and quiet: "quiet disk first" "quiet disk rest"
    and first: "\<And>s1. in_order s1 \<Longrightarrow> wp first (\<lambda>r s'. in_order s' \<and> (r \<longrightarrow> (\<lambda>k. select_setting k (db s')) =
       (\<lambda>k. if fst k = scope then None else select_setting k (db s1)) ++ map_of (rev rows))) s1"
    and rest: "writes in_order (\<lambda>s k. select_setting k (db s)) rest late"
    and scope: "\<forall>r \<in> set (rows @ late). fst (fst r) = scope" and dist: "distinct (map fst (rows @ late))"
  shows "wp (transaction E (do { ok \<leftarrow> first; if ok then rest else ret False }))
    (\<lambda>ok s'. all_or_nothing E disk s ok s' \<and> (ok \<longrightarrow> holds_rows scope (rows @ late) (db s')
       \<and> (\<forall>k. fst k \<noteq> scope \<longrightarrow> select_setting k (db s') = select_setting k (db s)))) s"
proof (rule transaction_wp [OF E s])
  show "quiet disk (do { ok \<leftarrow> first; if ok then rest else ret False })" using quiet by (intro Storage.quiet)
  fix s1 assume e: "entered disk s s1"
  then have o: "in_order s1" and same: "db s1 = db s"
    using keys by (simp_all add: entered_def in_tx_def in_order_def)
  define all where "all = rows @ late"
  have "map_of (rev all) = map_of all"
    by (rule map_of_mset) (use dist distinct_rev [of "map fst all"] in \<open>simp_all add: all_def rev_map\<close>)
  with dist scope have "holds_rows scope all d' \<and> (\<forall>k. fst k \<noteq> scope \<longrightarrow> select_setting k d' = select_setting k (db s))"
    if "distinct (map fst (settings d'))"
      and "(\<lambda>k. select_setting k d') = (\<lambda>k. if fst k = scope then map_of (rev all) k else select_setting k (db s1))" for d'
    using that same unfolding holds_rows_def all_def by (simp add: fun_eq_iff)
  note final = this
  note post = settings.rewrite_scope [OF first [OF o] rest scope, folded all_def]
  show "wp (do { ok \<leftarrow> first; if ok then rest else ret False }) (\<lambda>r s2. r \<and> \<not> transaction_failed s2 \<longrightarrow>
      holds_rows scope (rows @ late) (db s2) \<and> (\<forall>k. fst k \<noteq> scope \<longrightarrow> select_setting k (db s2) = select_setting k (db s))) s1"
    unfolding all_def [symmetric]
    by (rule wp_mono [OF post]) (use final in_order_def in blast)
qed

subsection \<open>Reading\<close>

definition answers :: "('w, 'y) store_env_scheme \<Rightarrow> bool" where
  \<comment> \<open>no call of SQLite fails\<close>
  "answers E \<longleftrightarrow> (\<forall>w. fst (sql_ok E w))"

definition reads :: "('w, 'z, 'a) store_cmd \<Rightarrow> Db \<Rightarrow> 'a \<Rightarrow> bool" where
  "reads c d r \<longleftrightarrow> (\<forall>s. is_open s \<and> db s = d \<longrightarrow> wp c (\<lambda>r' s'. r' = r \<and> is_open s' \<and> db s' = d) s)"

named_theorems reads \<open>values of the reading commands\<close>

lemma reads_ret: "r = x \<Longrightarrow> reads (ret x) d r"
  by (simp add: reads_def wp)

lemma reads_bind: "reads c d x \<Longrightarrow> reads (f x) d r \<Longrightarrow> reads (c \<bind> f) d r"
  by (fastforce simp: reads_def wp elim: wp_mono)

lemma reads_call:
  assumes "answers E"
  shows "reads (lift (sql_ok E)) d True" "reads (sql_call E) d True" "reads (prepare E) d True" "reads (bind_text E) d True"
  using assms by (auto simp: answers_def reads_def prepare_def bind_text_def sql_call_def check_def wp wp_lift)
    (metis fst_conv)+

lemma reads_calls: "answers E \<Longrightarrow> reads (each_ok True (replicate n (bind_text E))) d True"
  by (induction n) (auto intro!: reads_ret reads_bind reads_call)

lemma reads_db: "reads (gets db) d d"
  by (simp add: reads_def wp)

lemma reads_select_row:
  assumes "answers E"
  shows "reads (select_row E k n) d (Some (True, select_setting k d))"
  unfolding select_row_def
  by (rule reads_bind [OF reads_call(3) [OF assms]], simp, rule reads_bind [OF reads_calls [OF assms]],
      rule reads_bind [OF reads_call(1) [OF assms]], rule reads_bind [OF reads_db], rule reads_ret, simp)

definition setting_text :: "Db \<Rightarrow> setting_key \<Rightarrow> nat \<Rightarrow> wstr option" where
  "setting_text d k capacity = (case select_setting k d of None \<Rightarrow> None
     | Some v \<Rightarrow> if length v < capacity \<and> 0 \<notin> set v then Some v else None)"

lemma c_text_length: "length (c_text v) = length v \<longleftrightarrow> 0 \<notin> set v" "0 \<notin> set v \<Longrightarrow> c_text v = v"
proof -
  show same: "c_text v = v" if "0 \<notin> set v" for v using that by (auto simp: c_text_def takeWhile_eq_all_conv)
  show "length (c_text v) = length v \<longleftrightarrow> 0 \<notin> set v"
    using same by (induction v) (auto simp: c_text_def)
qed

lemma reads_setting:
  assumes "answers E"
  shows "reads (read_setting E scope sec key cap) d (setting_text d (scope, sec, key) cap)"
  unfolding read_setting_def
proof (rule reads_bind [OF reads_select_row [OF assms]], unfold option.case prod.case, rule reads_bind [where x = True])
  show "reads (if scope = W ''ssh_servers'' then ret True else check True) d True"
    by (simp add: reads_ret check_def reads_def wp)
  show "reads (ret (case select_setting (scope, sec, key) d of None \<Rightarrow> None
      | Some v \<Rightarrow> if 2 * length v < cap * 2 \<and> length (c_text v) = length v then Some (c_text v) else None)) d
      (setting_text d (scope, sec, key) cap)"
    by (rule reads_ret) (auto simp: setting_text_def c_text_length split: option.splits)
qed

definition setting_number :: "Db \<Rightarrow> setting_key \<Rightarrow> int \<Rightarrow> int option" where
  "setting_number d k maximum = (case setting_text d k 32 of None \<Rightarrow> None
     | Some t \<Rightarrow> let p = wcstol t in
         if t = [] \<or> p_rest p \<noteq> [] \<or> p_value p < 0 \<or> p_value p > maximum then None else Some (p_value p))"

lemma reads_number:
  assumes "answers E"
  shows "reads (read_number E scope sec key maximum) d (setting_number d (scope, sec, key) maximum)"
  unfolding read_number_def
  by (rule reads_bind [OF reads_setting [OF assms]]) (simp add: reads_ret setting_number_def)

lemma number_row:
  assumes "select_setting k d = Some (dec i)" "0 \<le> i" "i \<le> maximum" "maximum \<le> LONG_MAX"
  shows "setting_number d k maximum = Some i"
proof -
  have l: "LONG_MIN \<le> i" "i \<le> LONG_MAX" using assms by (simp_all add: LONG_MIN_def)
  have "length (dec i) \<le> 19" using length_dec_nat_le [of 19 "nat i"] assms by (simp add: dec_def LONG_MAX_def)
  moreover have "0 \<notin> set (dec i)" using dec_digits [OF assms(2)] by (auto simp: list_all_iff is_digit_def)
  ultimately have "setting_text d k 32 = Some (dec i)" using assms(1) by (simp add: setting_text_def)
  then show ?thesis using wcstol_dec [OF l] assms by (simp add: setting_number_def)
qed

lemma reads_fresh:
  assumes "answers E"
  shows "reads (scope_is_empty E scope) d (Some (count_scope scope d = 0))"
  unfolding scope_is_empty_def
  by (rule reads_bind [OF reads_call(3) [OF assms]], simp, rule reads_bind [OF reads_call(2) [OF assms]],
      rule reads_bind [OF reads_db], rule reads_ret, simp)

subsection \<open>A store at rest\<close>

definition rest_disk :: "nat \<Rightarrow> wstr \<Rightarrow> byte list option" where
  "rest_disk w p = Some [123, 125, 10]"

definition rest_store :: "nat store_env" where
  \<comment> \<open>every file exists and holds the same three bytes, and every document is printed as them\<close>
  "rest_store = \<lparr>f_attributes = (\<lambda>p w. (AttributesPresent, w)),
     f_read = (\<lambda>p w. (ReadOpened (Some 3) (Some [123, 125, 10]), w)),
     f_create_new = (\<lambda>p w. (False, w)), f_write = (\<lambda>p bs w. (None, w)), f_flush = (\<lambda>p w. (True, w)),
     f_delete = (\<lambda>p w. (False, w)), f_copy_new = (\<lambda>a b w. (CopyExists, w)), f_replace = (\<lambda>a b c w. (False, w)),
     f_move = (\<lambda>a b c w. (False, w)), f_nonce = (\<lambda>w. (w, Suc w)), f_pid = W ''1'',
     json_parse = (\<lambda>t. None), json_pretty = (\<lambda>j. [123, 125]), utf8_valid = (\<lambda>t. True),
     sql_ok = (\<lambda>w. (True, w)), legacy_read = (\<lambda>p w. (None, w)),
     random64 = (\<lambda>w. (of_nat w + 1, Suc w)), ieq = (=), english = True\<rparr>"

lemma rest_store_ok: "store_ok rest_store rest_disk (\<lambda>w. {..<w})"
  by (auto simp: store_ok_def config_ok_def files_ok_def attributes_ok_def read_ok_def create_ok_def write_ok_def
      flush_ok_def delete_ok_def copy_ok_def replace_ok_def move_ok_def nonce_ok_def rest_store_def rest_disk_def touches_def)

lemma rest_answers: "answers rest_store"
  by (simp add: answers_def rest_store_def)

lemma run_sql: "run_state (lift (sql_ok rest_store)) s = (True, s)"
  by (simp add: lift_def rest_store_def)

lemma run_gets [simp]: "run_state (gets f) s = (f s, s)" "run_state (modify h) s = ((), h s)"
  by (simp_all add: gets_def modify_def)

lemma run_check [simp]: "run_state (check True) s = (True, s)"
  "run_state (check False) s = (False, s\<lparr>transaction_failed := True\<rparr>)"
  by (simp_all add: check_def)

lemma run_statement [simp]:
  "run_state (sql_call rest_store) s = (True, s)"
  "is_open s \<Longrightarrow> run_state (prepare rest_store) s = (True, s)"
  "run_state (bind_text rest_store) s = (True, s)"
  "run_state (finish rest_store (\<lambda>d. Some (f d))) s = (True, s\<lparr>db := f (db s)\<rparr>)"
  by (simp_all add: sql_call_def run_sql prepare_def bind_text_def finish_def sql_change_def)

lemma run_setting [simp]:
  "is_open s \<Longrightarrow> begun s = Some d \<Longrightarrow> run_state (store_set rest_store a b c v) s
     = (True, s\<lparr>db := upsert_setting (a, b, c) v (db s)\<rparr>)"
  "is_open s \<Longrightarrow> begun s = Some d \<Longrightarrow> run_state (store_set_int rest_store a b c i) s
     = (True, s\<lparr>db := upsert_setting (a, b, c) (dec i) (db s)\<rparr>)"
  "is_open s \<Longrightarrow> begun s = Some d \<Longrightarrow> run_state (store_clear rest_store a) s
     = (True, s\<lparr>db := delete_scope a (db s)\<rparr>)"
  by (simp_all add: store_set_def store_set_int_def store_clear_def in_transaction_def and_then_def)

lemma run_begin [simp]:
  "is_open s \<Longrightarrow> begun s = None \<Longrightarrow> run_state (store_begin rest_store) s
     = (True, s\<lparr>transaction_failed := False, begun := Some (db s)\<rparr>)"
  by (simp add: store_begin_def sql_begin_def run_sql)

lemma rest_json: "json_pretty rest_store j = [123, 125]"
  by (simp add: rest_store_def)

lemma run_commit [simp]:
  "begun s = Some d \<Longrightarrow> run_state (config_json_commit rest_store dir) s = (True, s\<lparr>begun := None\<rparr>)"
proof -
  have f: "run_state (lift (f_attributes rest_store p)) s = (AttributesPresent, s)"
    "run_state (lift (f_read rest_store p)) s = (ReadOpened (Some 3) (Some [123, 125, 10]), s)" for p and s :: "(nat, 'b) Session_scheme"
    by (simp_all add: lift_def rest_store_def)
  have p: "run_state (snapshot rest_store b) s = (Some [123, 125, 10], s)" for b and s :: "(nat, 'b) Session_scheme"
    by (simp add: snapshot_def run_sql Let_def JSON_LIMIT_def rest_json)
  have q: "run_state (prepare_publication rest_store dir name [123, 125, 10]) s
      = ((True, zero_publication\<lparr>pb_path := in_directory dir name, pb_existed := True\<rparr>), s)" for name and s :: "(nat, 'b) Session_scheme"
    by (simp add: prepare_publication_def f Let_def)
  assume "begun s = Some d"
  then show ?thesis
    by (simp add: config_json_commit_def commit_prepare_def commit_finish_def p q f run_sql Let_def sql_commit_def
        zero_publication_def)
qed

lemma run_end [simp]:
  "is_open s \<Longrightarrow> \<not> is_opening s \<Longrightarrow> \<not> transaction_failed s \<Longrightarrow> begun s = Some d \<Longrightarrow>
     run_state (store_end rest_store True) s = (True, s\<lparr>begun := None\<rparr>)"
  by (simp add: store_end_def)

definition rest_session :: "nat Store" where
  "rest_session = \<lparr>db = empty_db, begun = None, world = 0, restore_errors = 0, is_open = True, transaction_failed = False,
     is_opening = False, open_changed = False, root = W ''d'', legacy_root = W ''d''\<rparr>"

lemma rest_fields [simp]: "is_open rest_session" "begun rest_session = None" "\<not> is_opening rest_session" "db rest_session = empty_db" "idle rest_session"
  by (simp_all add: rest_session_def idle_def)

subsection \<open>Command presets\<close>

abbreviation puts :: "('w, 'z, bool) store_cmd \<Rightarrow> (setting_key \<times> wstr) list \<Rightarrow> bool" where
  "puts c rows \<equiv> writes in_order (\<lambda>s k. select_setting k (db s)) c rows"

lemma puts_set: "puts (store_set E scope sec key v) [((scope, sec, key), v)]"
  using settings.writes_put [of E "(scope, sec, key)" v] by simp

lemma puts_set_int: "puts (store_set_int E scope sec key i) [((scope, sec, key), dec i)]"
  unfolding store_set_int_def by (rule puts_set)

lemma puts_map:
  assumes "\<And>i. puts (f i) (g i)"
  shows "puts (all_ok (map f xs)) (concat (map g xs))"
  by (rule settings.writes_all_ok) (simp add: list_all2_conv_all_nth assms)

lemma clear_each:
  assumes "list_all2 puts cs (map (\<lambda>r. [r]) rows)" and "in_order s1"
  shows "wp (each_ok True (store_clear E scope # cs)) (\<lambda>r s'. in_order s' \<and> (r \<longrightarrow> (\<lambda>k. select_setting k (db s')) =
     (\<lambda>k. if fst k = scope then None else select_setting k (db s1)) ++ map_of (rev rows))) s1"
proof -
  have "concat (map (\<lambda>r. [r]) rows) = rows" by (induction rows) simp_all
  with settings.clear_then_each [OF assms, of E scope] show ?thesis by (simp only:)
qed

lemma clear_all:
  assumes "list_all2 puts cs (map (\<lambda>r. [r]) rows)" and "in_order s1"
  shows "wp (all_ok (store_clear E scope # cs)) (\<lambda>r s'. in_order s' \<and> (r \<longrightarrow> (\<lambda>k. select_setting k (db s')) =
     (\<lambda>k. if fst k = scope then None else select_setting k (db s1)) ++ map_of (rev rows))) s1"
proof -
  have "concat (map (\<lambda>r. [r]) rows) = rows" by (induction rows) simp_all
  with settings.clear_then_all [OF assms, of E scope] show ?thesis by (simp only:)
qed

lemma puts_each:
  assumes "list_all2 puts cs (map (\<lambda>r. [r]) rows)"
  shows "puts (each_ok True cs) rows"
proof -
  have "concat (map (\<lambda>r. [r]) rows) = rows" by (induction rows) simp_all
  with settings.writes_each_ok [OF assms] show ?thesis by (simp only:)
qed

lemma puts_all:
  assumes "list_all2 puts cs (map (\<lambda>r. [r]) rows)"
  shows "puts (all_ok cs) rows"
proof -
  have "concat (map (\<lambda>r. [r]) rows) = rows" by (induction rows) simp_all
  with settings.writes_all_ok [OF assms] show ?thesis by (simp only:)
qed

definition preset_head :: "FileCommandList \<Rightarrow> (setting_key \<times> wstr) list" where
  "preset_head c = [((PRESETS, W ''Commands'', W ''Version''), dec 1), ((PRESETS, W ''Commands'', W ''Count''), dec (fcl_count c)),
     ((PRESETS, W ''Commands'', W ''Default''), dec (default_index c))]"

definition preset_rows :: "FileCommandList \<Rightarrow> nat \<Rightarrow> (setting_key \<times> wstr) list" where
  "preset_rows c i = [((PRESETS, preset_section i, W ''Name''), fc_name (fcl_items c ! i)),
     ((PRESETS, preset_section i, W ''Command''), fc_command (fcl_items c ! i))]"

lemma save_presets_rows:
  assumes E: "config_ok E disk used" and s: "idle s" and keys: "distinct (map fst (settings (db s)))"
  shows "wp (transaction E (write_presets E c)) (\<lambda>ok s'. all_or_nothing E disk s ok s' \<and>
    (ok \<longrightarrow> holds_rows PRESETS (preset_head c @ concat (map (preset_rows c) [0..<nat (fcl_count c)])) (db s')
       \<and> (\<forall>k. fst k \<noteq> PRESETS \<longrightarrow> select_setting k (db s') = select_setting k (db s)))) s"
  unfolding write_presets_def
proof (rule transaction_rows [OF E s keys])
  let ?first = "each_ok True [store_clear E PRESETS,
             store_set_int E PRESETS (W ''Commands'') (W ''Version'') 1,
             store_set_int E PRESETS (W ''Commands'') (W ''Count'') (fcl_count c),
             store_set_int E PRESETS (W ''Commands'') (W ''Default'') (default_index c)]"
  show "quiet disk ?first" by (intro quiet) (simp add: quiet_settings [OF E])
  show "quiet disk (all_ok (map (\<lambda>i. save_preset E i (fcl_items c ! i)) [0..<nat (fcl_count c)]))"
    unfolding save_preset_def by (auto simp: list_all_iff intro!: quiet quiet_settings [OF E])
  show "wp ?first (\<lambda>r s'. in_order s' \<and> (r \<longrightarrow> (\<lambda>k. select_setting k (db s')) =
       (\<lambda>k. if fst k = PRESETS then None else select_setting k (db s1)) ++ map_of (rev (preset_head c)))) s1"
    if "in_order s1" for s1
    by (rule clear_each [OF _ that]) (simp add: preset_head_def puts_set_int)
  show "puts (all_ok (map (\<lambda>i. save_preset E i (fcl_items c ! i)) [0..<nat (fcl_count c)]))
      (concat (map (preset_rows c) [0..<nat (fcl_count c)]))"
  proof (rule puts_map)
    fix i
    show "puts (save_preset E i (fcl_items c ! i)) (preset_rows c i)"
      unfolding save_preset_def preset_rows_def by (rule puts_each) (simp add: puts_set)
  qed
  show "\<forall>r \<in> set (preset_head c @ concat (map (preset_rows c) [0..<nat (fcl_count c)])). fst (fst r) = PRESETS"
    by (auto simp: preset_head_def preset_rows_def)
  have "distinct (map fst (concat (map (preset_rows c) [0..<nat (fcl_count c)])))"
    by (rule distinct_blocks) (auto simp: preset_rows_def)
  then show "distinct (map fst (preset_head c @ concat (map (preset_rows c) [0..<nat (fcl_count c)])))"
    by (auto simp: preset_head_def preset_rows_def keys_ne)
qed

lemma loaded_presets:
  assumes E: "answers E"
    and rows: "\<And>i. length before \<le> i \<Longrightarrow> i < length before + n \<Longrightarrow>
      setting_text d (PRESETS, preset_section i, W ''Name'') FILE_COMMAND_NAME_CAP = Some (fc_name (cs ! i))
      \<and> setting_text d (PRESETS, preset_section i, W ''Command'') FILE_COMMAND_TEXT_CAP = Some (fc_command (cs ! i))"
    and "before = take (length before) cs" "length before + n \<le> length cs"
  shows "reads (load_presets E n before) d (Some (take (length before + n) cs))"
  using assms(2-)
proof (induction n arbitrary: before)
  case 0
  then show ?case by (simp add: reads_ret)
next
  case (Suc n)
  let ?i = "length before"
  have r: "setting_text d (PRESETS, preset_section ?i, W ''Name'') FILE_COMMAND_NAME_CAP = Some (fc_name (cs ! ?i))"
    "setting_text d (PRESETS, preset_section ?i, W ''Command'') FILE_COMMAND_TEXT_CAP = Some (fc_command (cs ! ?i))"
    using Suc.prems(1) [of ?i] by simp_all
  have b: "before @ [cs ! ?i] = take (length (before @ [cs ! ?i])) cs"
    using Suc.prems(2,3) by (simp add: take_Suc_conv_app_nth)
  note ih = Suc.IH [of "before @ [cs ! ?i]", OF _ b]
  have c: "\<lparr>fc_name = fc_name (cs ! ?i), fc_command = fc_command (cs ! ?i)\<rparr> = cs ! ?i" by simp
  show ?case
    unfolding load_presets.simps
    by (rule reads_bind [OF reads_setting [OF E]], unfold r option.case,
        rule reads_bind [OF reads_setting [OF E]], unfold r option.case c)
      (use ih Suc.prems in \<open>simp add: less_Suc_eq_le\<close>)
qed

definition saved_presets :: "FileCommandList \<Rightarrow> FileCommandList" where
  \<comment> \<open>the presets of a list, in an array that was zeroed\<close>
  "saved_presets c = c\<lparr>fcl_items := take (nat (fcl_count c)) (fcl_items c)
     @ replicate (FILE_COMMAND_LIMIT - nat (fcl_count c)) zero_file_command\<rparr>"

lemma valid_saved_presets:
  assumes "file_command_list_is_valid q (Some c)" and "length (fcl_items c) = FILE_COMMAND_LIMIT"
  shows "file_command_list_is_valid q (Some (saved_presets c))"
proof -
  have "nat (fcl_count c) \<le> FILE_COMMAND_LIMIT"
    using assms(1) by (auto simp: file_command_list_is_valid_def split: if_splits)
  then have "fcl_items (saved_presets c) ! i = fcl_items c ! i" if "i < nat (fcl_count c)" for i
    using that assms(2) by (simp add: saved_presets_def nth_append)
  then show ?thesis using assms(1)
    by (auto simp: file_command_list_is_valid_def saved_presets_def list_all_iff split: if_splits)
qed

lemma reads_presets:
  assumes E: "answers E" and rows: "holds_rows PRESETS (preset_head c @ concat (map (preset_rows c) [0..<nat (fcl_count c)])) d"
    and v: "file_command_list_is_valid (ieq E) (Some c)" and l: "length (fcl_items c) = FILE_COMMAND_LIMIT"
    and plain: "\<forall>x \<in> set (fcl_items c). 0 \<notin> set (fc_name x) \<and> 0 \<notin> set (fc_command x)"
  shows "reads (store_load_file_commands E) d (True, Some (saved_presets c))"
proof -
  let ?n = "nat (fcl_count c)"
  note limit = FILE_COMMAND_LIMIT_def LONG_MAX_def
  from v have b: "1 \<le> fcl_count c" "fcl_count c \<le> int FILE_COMMAND_LIMIT" "0 \<le> default_index c"
    "default_index c < fcl_count c"
    and caps: "\<And>i. i < ?n \<Longrightarrow> length (fc_name (fcl_items c ! i)) < FILE_COMMAND_NAME_CAP
       \<and> length (fc_command (fcl_items c ! i)) < FILE_COMMAND_TEXT_CAP"
    by (auto simp: file_command_list_is_valid_def list_all_iff Let_def not_le split: if_splits)
  have nl: "?n \<le> FILE_COMMAND_LIMIT" using b by simp
  note sel = holds_rows_select [OF rows]
  have head: "setting_number d (PRESETS, W ''Commands'', W ''Version'') 1 = Some 1"
    "setting_number d (PRESETS, W ''Commands'', W ''Count'') (int FILE_COMMAND_LIMIT) = Some (fcl_count c)"
    "setting_number d (PRESETS, W ''Commands'', W ''Default'') (int FILE_COMMAND_LIMIT - 1) = Some (default_index c)"
    by (rule number_row [OF sel]; use b in \<open>simp add: preset_head_def limit\<close>)+
  have "setting_text d (PRESETS, preset_section i, W ''Name'') FILE_COMMAND_NAME_CAP = Some (fc_name (fcl_items c ! i))
      \<and> setting_text d (PRESETS, preset_section i, W ''Command'') FILE_COMMAND_TEXT_CAP = Some (fc_command (fcl_items c ! i))"
    if i: "i < ?n" for i
  proof -
    have "select_setting (PRESETS, preset_section i, W ''Name'') d = Some (fc_name (fcl_items c ! i))"
      "select_setting (PRESETS, preset_section i, W ''Command'') d = Some (fc_command (fcl_items c ! i))"
      by (rule sel; use i in \<open>auto simp: preset_rows_def\<close>)+
    moreover have "fcl_items c ! i \<in> set (fcl_items c)" using i b l by (simp add: limit)
    ultimately show ?thesis using caps [OF i] plain by (simp add: setting_text_def)
  qed
  then have load: "reads (load_presets E ?n []) d (Some (take ?n (fcl_items c)))"
    using loaded_presets [OF E, of "[]" ?n d "fcl_items c"] nl l by simp
  have c: "\<lparr>fcl_items = take ?n (fcl_items c) @ replicate (FILE_COMMAND_LIMIT - length (take ?n (fcl_items c))) zero_file_command,
      fcl_count = fcl_count c, default_index = default_index c\<rparr> = saved_presets c"
    using b l by (simp add: saved_presets_def min_def)
  have stored: "reads (stored_presets E) d (Some (saved_presets c))"
    unfolding stored_presets_def
    by (rule reads_bind [OF reads_number [OF E]], unfold head, simp only: simp_thms if_False,
        rule reads_bind [OF reads_number [OF E]], unfold head option.case, subst if_not_P, use b in simp,
        rule reads_bind [OF reads_number [OF E]], unfold head option.case, subst if_not_P, use b in simp,
        rule reads_bind [OF load], rule reads_ret)
      (use c valid_saved_presets [OF v l] in \<open>simp add: Let_def\<close>)
  have "count_scope PRESETS d \<noteq> 0"
    using holds_rows_count [OF rows] by (simp add: preset_head_def)
  then show ?thesis
    unfolding store_load_file_commands_def
    by - (rule reads_bind [OF reads_fresh [OF E]], simp, rule reads_bind [OF stored], simp add: reads_ret)
qed

text \<open>Command presets that were saved are loaded as they were: when saving a valid list
  reports success, loading from the store it leaves, in an environment where SQLite answers, reports
  success, gives the same presets and the same default, and changes nothing.\<close>

theorem file_commands_roundtrip:
  assumes "store_ok E disk used" and "idle s" and "distinct (map fst (settings (db s)))"
    and "length (fcl_items c) = FILE_COMMAND_LIMIT"
    and "\<forall>x \<in> set (fcl_items c). 0 \<notin> set (fc_name x) \<and> 0 \<notin> set (fc_command x)"
    and "run_state (store_save_file_commands E c) s = (True, s')"
    and "answers F" and "ieq F = ieq E"
    and "run_state (store_load_file_commands F) s' = (r, s'')"
  shows "r = (True, Some (saved_presets c)) \<and> db s'' = db s'"
proof -
  note C = store_config [OF assms(1)]
  have v: "file_command_list_is_valid (ieq E) (Some c)"
    using assms(6) by (auto simp: store_save_file_commands_def split: if_splits)
  then have "run_state (transaction E (write_presets E c)) s = (True, s')"
    using assms(6) by (simp add: store_save_file_commands_def)
  from wpD [OF save_presets_rows [OF C assms(2,3)] this]
  have o: "is_open s'" and rows: "holds_rows PRESETS (preset_head c @ concat (map (preset_rows c) [0..<nat (fcl_count c)])) (db s')"
    by (simp_all add: all_or_nothing_def)
  have "reads (store_load_file_commands F) (db s') (True, Some (saved_presets c))"
    by (rule reads_presets [OF assms(7) rows]) (use v assms(4,5,8) in simp_all)
  with o have "wp (store_load_file_commands F) (\<lambda>r' t. r' = (True, Some (saved_presets c)) \<and> is_open t \<and> db t = db s') s'"
    unfolding reads_def by blast
  from wpD [OF this assms(9)] show ?thesis by simp
qed

lemma rest_saves: "run_state (store_save_file_commands rest_store (the (file_command_defaults (Some zero_file_commands)))) rest_session
   = (True, snd (run_state (store_save_file_commands rest_store (the (file_command_defaults (Some zero_file_commands)))) rest_session))"
proof -
  have v: "file_command_list_is_valid (ieq rest_store) (file_command_defaults (Some zero_file_commands))"
    by code_simp
  then show ?thesis
    by (simp add: store_save_file_commands_def transaction_def write_presets_def save_preset_def and_then_def
      file_command_defaults_def)
qed


theorem file_commands_roundtrip_witness:
  "\<exists>s' r s''. run_state (store_save_file_commands rest_store (the (file_command_defaults (Some zero_file_commands)))) rest_session = (True, s')
     \<and> run_state (store_load_file_commands rest_store) s' = (r, s'')
     \<and> r = (True, Some (saved_presets (the (file_command_defaults (Some zero_file_commands)))))"
proof -
  let ?c = "the (file_command_defaults (Some zero_file_commands))"
  define s' where "s' = snd (run_state (store_save_file_commands rest_store ?c) rest_session)"
  have saved: "run_state (store_save_file_commands rest_store ?c) rest_session = (True, s')"
    unfolding s'_def by (rule rest_saves)
  obtain r s'' where r: "run_state (store_load_file_commands rest_store) s' = (r, s'')"
    by (cases "run_state (store_load_file_commands rest_store) s'")
  have plain: "\<forall>x \<in> set (fcl_items ?c). 0 \<notin> set (fc_name x) \<and> 0 \<notin> set (fc_command x)"
    by (auto simp: file_command_defaults_def zero_file_commands_def zero_file_command_def W_Cons FILE_COMMAND_LIMIT_def
        dest!: set_update_subset_insert [THEN subsetD])
  have "r = (True, Some (saved_presets ?c)) \<and> db s'' = db s'"
    by (rule file_commands_roundtrip [OF rest_store_ok _ _ _ plain saved rest_answers refl r])
      (simp_all add: empty_db_def file_command_defaults_def zero_file_commands_def)
  with saved r show ?thesis by blast
qed

subsection \<open>SSH servers\<close>

definition server_head :: "SshServers \<Rightarrow> (setting_key \<times> wstr) list" where
  "server_head v = [((SERVERS, W ''Servers'', W ''Version''), dec 1), ((SERVERS, W ''Servers'', W ''Count''), dec (ss_count v))]"

definition server_rows :: "SshServers \<Rightarrow> nat \<Rightarrow> (setting_key \<times> wstr) list" where
  "server_rows v i = (let s = ss_items v ! i in
     [((SERVERS, server_section i, W ''Id''), dec (ss_id s)), ((SERVERS, server_section i, W ''Port''), dec (ss_port s)),
      ((SERVERS, server_section i, W ''Name''), ss_name s), ((SERVERS, server_section i, W ''Host''), ss_host s),
      ((SERVERS, server_section i, W ''User''), ss_user s), ((SERVERS, server_section i, W ''Directory''), ss_directory s)])"

abbreviation all_server_rows :: "SshServers \<Rightarrow> (setting_key \<times> wstr) list" where
  "all_server_rows v \<equiv> server_head v @ concat (map (server_rows v) [0..<nat (ss_count v)])"

lemma save_servers_rows:
  assumes E: "config_ok E disk used" and s: "idle s" and keys: "distinct (map fst (settings (db s)))"
  shows "wp (transaction E (write_servers E v)) (\<lambda>ok s'. all_or_nothing E disk s ok s' \<and>
    (ok \<longrightarrow> holds_rows SERVERS (all_server_rows v) (db s')
       \<and> (\<forall>k. fst k \<noteq> SERVERS \<longrightarrow> select_setting k (db s') = select_setting k (db s)))) s"
  unfolding write_servers_def
proof (rule transaction_rows [OF E s keys])
  let ?first = "all_ok [store_clear E SERVERS, store_set_int E SERVERS (W ''Servers'') (W ''Version'') 1,
             store_set_int E SERVERS (W ''Servers'') (W ''Count'') (ss_count v)]"
  show "quiet disk ?first" by (intro quiet) (simp add: quiet_settings [OF E])
  show "quiet disk (all_ok (map (\<lambda>i. save_server E i (ss_items v ! i)) [0..<nat (ss_count v)]))"
    unfolding save_server_def by (auto simp: list_all_iff intro!: quiet quiet_settings [OF E])
  show "wp ?first (\<lambda>r s'. in_order s' \<and> (r \<longrightarrow> (\<lambda>k. select_setting k (db s')) =
       (\<lambda>k. if fst k = SERVERS then None else select_setting k (db s1)) ++ map_of (rev (server_head v)))) s1"
    if "in_order s1" for s1
    by (rule clear_all [OF _ that]) (simp add: server_head_def puts_set_int)
  show "puts (all_ok (map (\<lambda>i. save_server E i (ss_items v ! i)) [0..<nat (ss_count v)]))
      (concat (map (server_rows v) [0..<nat (ss_count v)]))"
    by (rule puts_map) (unfold save_server_def server_rows_def Let_def, rule puts_all, simp add: puts_set puts_set_int)
  show "\<forall>r \<in> set (all_server_rows v). fst (fst r) = SERVERS"
    by (auto simp: server_head_def server_rows_def Let_def)
  have "distinct (map fst (concat (map (server_rows v) [0..<nat (ss_count v)])))"
    by (rule distinct_blocks) (auto simp: server_rows_def Let_def)
  then show "distinct (map fst (all_server_rows v))"
    by (auto simp: server_head_def server_rows_def Let_def keys_ne)
qed

definition server_plain :: "SshServer \<Rightarrow> bool" where
  \<comment> \<open>strings have no NUL, numbers are in their range\<close>
  "server_plain s \<longleftrightarrow> 0 \<notin> set (ss_name s) \<and> 0 \<notin> set (ss_host s) \<and> 0 \<notin> set (ss_user s) \<and> 0 \<notin> set (ss_directory s)
     \<and> ss_id s \<le> LLONG_MAX"

lemma dec_plain: "0 \<le> i \<Longrightarrow> 0 \<notin> set (dec i)"
  using dec_digits [of i] by (auto simp: list_all_iff is_digit_def)

lemma dec_length_19: "0 \<le> i \<Longrightarrow> i \<le> LLONG_MAX \<Longrightarrow> length (dec i) \<le> 19"
  using length_dec_nat_le [of 19 "nat i"] by (simp add: dec_def LLONG_MAX_def)

lemma reads_server:
  assumes E: "answers E"
    and rows: "\<And>k x. (k, x) \<in> set (server_rows v i) \<Longrightarrow> select_setting k d = Some x"
    and ok: "server_fields_valid (ss_items v ! i)" and plain: "server_plain (ss_items v ! i)"
  shows "reads (load_server E i) d (Some (ss_items v ! i))"
proof -
  let ?s = "ss_items v ! i"
  have b: "0 < ss_id ?s" "ss_id ?s \<le> LLONG_MAX" "1 \<le> ss_port ?s" "ss_port ?s \<le> 65535"
    and l: "length (ss_name ?s) < SSH_NAME_CAP" "length (ss_host ?s) < 256" "length (ss_user ?s) < 128"
      "length (ss_directory ?s) < SSH_PATH_CAP"
    using ok plain by (auto simp: server_fields_valid_def server_plain_def terminated_def)
  have sel: "select_setting (SERVERS, server_section i, W ''Id'') d = Some (dec (ss_id ?s))"
    "select_setting (SERVERS, server_section i, W ''Port'') d = Some (dec (ss_port ?s))"
    "select_setting (SERVERS, server_section i, W ''Name'') d = Some (ss_name ?s)"
    "select_setting (SERVERS, server_section i, W ''Host'') d = Some (ss_host ?s)"
    "select_setting (SERVERS, server_section i, W ''User'') d = Some (ss_user ?s)"
    "select_setting (SERVERS, server_section i, W ''Directory'') d = Some (ss_directory ?s)"
    by (rule rows; simp add: server_rows_def Let_def)+
  have port: "ss_port ?s \<le> LLONG_MAX" "LONG_MIN \<le> ss_port ?s" "ss_port ?s \<le> LONG_MAX" "LLONG_MIN \<le> ss_id ?s"
    using b by (simp_all add: LLONG_MAX_def LONG_MIN_def LONG_MAX_def LLONG_MIN_def)
  have tx: "setting_text d (SERVERS, server_section i, W ''Id'') 64 = Some (dec (ss_id ?s))"
    "setting_text d (SERVERS, server_section i, W ''Port'') 64 = Some (dec (ss_port ?s))"
    "setting_text d (SERVERS, server_section i, W ''Name'') SSH_NAME_CAP = Some (ss_name ?s)"
    "setting_text d (SERVERS, server_section i, W ''Host'') 256 = Some (ss_host ?s)"
    "setting_text d (SERVERS, server_section i, W ''User'') 128 = Some (ss_user ?s)"
    "setting_text d (SERVERS, server_section i, W ''Directory'') SSH_PATH_CAP = Some (ss_directory ?s)"
    using sel l plain dec_plain [of "ss_id ?s"] dec_plain [of "ss_port ?s"] b port
      dec_length_19 [of "ss_id ?s"] dec_length_19 [of "ss_port ?s"]
    by (simp_all add: setting_text_def server_plain_def)
  have same: "\<lparr>ss_id = ss_id ?s, ss_name = ss_name ?s, ss_host = ss_host ?s, ss_user = ss_user ?s,
      ss_directory = ss_directory ?s, ss_port = ss_port ?s\<rparr> = ?s" by simp
  note num = wcstoll_dec [OF port(4) b(2)] wcstol_dec [OF port(2,3)]
  show ?thesis
    unfolding load_server_def
    by (rule reads_bind [OF reads_setting [OF E]], unfold tx option.case Let_def num parsed.simps, subst if_not_P, use b in simp,
        rule reads_bind [OF reads_setting [OF E]], unfold tx option.case Let_def num parsed.simps, subst if_not_P, use b in simp,
        (rule reads_bind [OF reads_setting [OF E]], unfold tx option.case)+, rule reads_ret, simp add: num)
qed

lemma reads_servers:
  assumes E: "answers E"
    and rows: "\<And>i k x. i < length before + n \<Longrightarrow> (k, x) \<in> set (server_rows v i) \<Longrightarrow> select_setting k d = Some x"
    and ok: "\<And>i. i < length before + n \<Longrightarrow> server_fields_valid (ss_items v ! i) \<and> server_plain (ss_items v ! i)"
    and "before = take (length before) (ss_items v)" "length before + n \<le> length (ss_items v)"
  shows "reads (load_servers E n before) d (Some (take (length before + n) (ss_items v)))"
  using assms(2-)
proof (induction n arbitrary: before)
  case 0
  then show ?case by (simp add: reads_ret)
next
  case (Suc n)
  let ?i = "length before"
  have b: "before @ [ss_items v ! ?i] = take (length (before @ [ss_items v ! ?i])) (ss_items v)"
    using Suc.prems(3,4) by (simp add: take_Suc_conv_app_nth)
  have r: "select_setting k d = Some x" if "(k, x) \<in> set (server_rows v ?i)" for k x
    using Suc.prems(1) [OF _ that] by simp
  note ih = Suc.IH [of "before @ [ss_items v ! ?i]", OF _ _ b]
  show ?case
    unfolding load_servers.simps
    by (rule reads_bind [OF reads_server [OF E r]]; (unfold option.case)?; use ih Suc.prems in simp)
qed

lemma reads_count_rows:
  assumes "answers E"
  shows "reads (count_rows E scope) d (Some (int (count_scope scope d)))"
  unfolding count_rows_def
  by (rule reads_bind [OF reads_call(3) [OF assms]], simp, rule reads_bind [OF reads_call(1) [OF assms]],
      rule reads_bind [OF reads_db], rule reads_ret, simp)

lemma valid_servers_facts:
  assumes "ssh_servers_valid (Some v)"
  shows "0 \<le> ss_count v" "ss_count v \<le> int SSH_SERVER_LIMIT"
    "\<And>i. i < nat (ss_count v) \<Longrightarrow> server_fields_valid (ss_items v ! i)"
  using assms by (auto simp: ssh_servers_valid_def list_all_iff Let_def split: if_splits)

lemma valid_server_array:
  assumes v: "ssh_servers_valid (Some v)" and l: "length (ss_items v) = SSH_SERVER_LIMIT"
  shows "ssh_servers_valid (Some (server_array (take (nat (ss_count v)) (ss_items v))))"
    and "ss_count (server_array (take (nat (ss_count v)) (ss_items v))) = ss_count v"
proof -
  let ?n = "nat (ss_count v)"
  have n: "?n \<le> length (ss_items v)" using valid_servers_facts [OF v] l by simp
  show c: "ss_count (server_array (take ?n (ss_items v))) = ss_count v"
    using n valid_servers_facts(1) [OF v] by (simp add: server_array_def)
  have "ss_items (server_array (take ?n (ss_items v))) ! i = ss_items v ! i" if "i < ?n" for i
    using that n by (simp add: server_array_def nth_append)
  then show "ssh_servers_valid (Some (server_array (take ?n (ss_items v))))"
    using v c by (auto simp: ssh_servers_valid_def list_all_iff Let_def split: if_splits)
qed

lemma length_server_rows: "length (all_server_rows v) = 2 + nat (ss_count v) * 6"
proof -
  have "length (concat (map (server_rows v) [0..<n])) = n * 6" for n
    by (induction n) (simp_all add: server_rows_def Let_def)
  then show ?thesis by (simp add: server_head_def)
qed

lemma reads_ssh_servers:
  assumes E: "answers E" and rows: "holds_rows SERVERS (all_server_rows v) d"
    and v: "ssh_servers_valid (Some v)" and l: "length (ss_items v) = SSH_SERVER_LIMIT"
    and plain: "\<forall>x \<in> set (ss_items v). server_plain x"
  shows "reads (store_load_ssh_servers E) d (Some (server_array (take (nat (ss_count v)) (ss_items v))))"
proof -
  let ?n = "nat (ss_count v)"
  note b = valid_servers_facts [OF v]
  have n: "?n \<le> length (ss_items v)" using b l by simp
  note sel = holds_rows_select [OF rows]
  have num: "wcstol (dec (ss_count v)) = \<lparr>p_value = ss_count v, p_rest = [], p_range = False\<rparr>"
    using b by (simp add: LONG_MIN_def LONG_MAX_def SSH_SERVER_LIMIT_def)
  have s1: "select_setting (SERVERS, W ''Servers'', W ''Version'') d = Some (dec 1)"
    "select_setting (SERVERS, W ''Servers'', W ''Count'') d = Some (dec (ss_count v))"
    by (rule sel; simp add: server_head_def)+
  have one: "dec 1 = W ''1''" by code_simp
  have tx: "setting_text d (SERVERS, W ''Servers'', W ''Version'') 64 = Some (W ''1'')"
    "setting_text d (SERVERS, W ''Servers'', W ''Count'') 64 = Some (dec (ss_count v))"
    using s1 b dec_plain [OF b(1)] dec_length_19 [OF b(1)] one dec_plain [of 1]
    by (simp_all add: setting_text_def LLONG_MAX_def SSH_SERVER_LIMIT_def)
  have load: "reads (load_servers E ?n []) d (Some (take ?n (ss_items v)))"
  proof -
    have "select_setting k d = Some x" if "i < ?n" "(k, x) \<in> set (server_rows v i)" for i k x
      by (rule sel) (use that in auto)
    moreover have "ss_items v ! i \<in> set (ss_items v)" if "i < ?n" for i using that n by simp
    ultimately show ?thesis
      using reads_servers [OF E, of "[]" ?n v d] b(3) plain n by simp
  qed
  have count: "int (count_scope SERVERS d) = 2 + ss_count v * 6"
    using holds_rows_count [OF rows] length_server_rows [of v] b(1) by simp
  have nz: "2 + ss_count v * 6 \<noteq> 0" using b(1) by presburger
  show ?thesis
    unfolding store_load_ssh_servers_def
    by (rule reads_bind [OF reads_count_rows [OF E]], unfold count option.case if_not_P [OF nz],
        rule reads_bind [OF reads_setting [OF E]], unfold tx option.inject, simp only: simp_thms if_False,
        rule reads_bind [OF reads_setting [OF E]], unfold tx option.case Let_def num parsed.simps, subst if_not_P, use b in simp,
        rule reads_bind [OF load], rule reads_ret, unfold option.case,
        simp add: valid_server_array [OF v l] valid_server_array(2) [OF v l, unfolded server_array_def, simplified])
qed

text \<open>SSH servers that were saved are loaded as they were: when saving a valid list
  reports success, loading from the store it leaves, in an environment where SQLite answers, succeeds,
  the count of the rows included, gives the same servers in the same order, and changes nothing.\<close>

theorem ssh_servers_roundtrip:
  assumes "store_ok E disk used" and "idle s" and "distinct (map fst (settings (db s)))"
    and "length (ss_items v) = SSH_SERVER_LIMIT" and "\<forall>x \<in> set (ss_items v). server_plain x"
    and "run_state (store_save_ssh_servers E v) s = (True, s')"
    and "answers F" and "run_state (store_load_ssh_servers F) s' = (r, s'')"
  shows "r = Some (server_array (take (nat (ss_count v)) (ss_items v))) \<and> db s'' = db s'"
proof -
  note C = store_config [OF assms(1)]
  have v: "ssh_servers_valid (Some v)"
    using assms(6) by (auto simp: store_save_ssh_servers_def split: if_splits)
  then have "run_state (transaction E (write_servers E v)) s = (True, s')"
    using assms(6) by (simp add: store_save_ssh_servers_def)
  from wpD [OF save_servers_rows [OF C assms(2,3)] this]
  have o: "is_open s'" and rows: "holds_rows SERVERS (all_server_rows v) (db s')"
    by (simp_all add: all_or_nothing_def)
  have "wp (store_load_ssh_servers F) (\<lambda>r' t. r' = Some (server_array (take (nat (ss_count v)) (ss_items v)))
      \<and> is_open t \<and> db t = db s') s'"
    using reads_ssh_servers [OF assms(7) rows v assms(4,5)] o unfolding reads_def by blast
  from wpD [OF this assms(8)] show ?thesis by simp
qed

definition one_saved_server :: SshServers where
  "one_saved_server = server_array [\<lparr>ss_id = 7, ss_name = W ''n'', ss_host = W ''h'', ss_user = W ''u'', ss_directory = W ''/'', ss_port = 22\<rparr>]"

theorem ssh_servers_roundtrip_witness:
  "\<exists>s' r s''. run_state (store_save_ssh_servers rest_store one_saved_server) rest_session = (True, s')
     \<and> run_state (store_load_ssh_servers rest_store) s' = (r, s'') \<and> r = Some one_saved_server"
proof -
  define s' where "s' = snd (run_state (store_save_ssh_servers rest_store one_saved_server) rest_session)"
  have "ssh_servers_valid (Some one_saved_server)" by code_simp
  then have saved: "run_state (store_save_ssh_servers rest_store one_saved_server) rest_session = (True, s')"
    unfolding s'_def by (simp add: store_save_ssh_servers_def transaction_def write_servers_def save_server_def and_then_def
      one_saved_server_def server_array_def)
  obtain r s'' where r: "run_state (store_load_ssh_servers rest_store) s' = (r, s'')"
    by (cases "run_state (store_load_ssh_servers rest_store) s'")
  have plain: "\<forall>x \<in> set (ss_items one_saved_server). server_plain x"
    by (auto simp: one_saved_server_def server_array_def server_plain_def W_Cons LLONG_MAX_def zero_server_def SSH_SERVER_LIMIT_def)
  have "r = Some (server_array (take (nat (ss_count one_saved_server)) (ss_items one_saved_server))) \<and> db s'' = db s'"
    by (rule ssh_servers_roundtrip [OF rest_store_ok _ _ _ plain saved rest_answers r])
      (simp_all add: empty_db_def one_saved_server_def server_array_def SSH_SERVER_LIMIT_def)
  moreover have "server_array (take (nat (ss_count one_saved_server)) (ss_items one_saved_server)) = one_saved_server"
    by (simp add: one_saved_server_def server_array_def)
  ultimately show ?thesis using saved r by auto
qed

end
