(* ===== verification/Storage_Tasks.thy ===== *)
theory Storage_Tasks
  imports Storage_Roundtrip
begin

text \<open>
  Batch tasks that were saved are loaded as they were, with the identifiers the save assigned.
\<close>

subsection \<open>Rows of the tasks\<close>

definition task_head :: "nat \<Rightarrow> (setting_key \<times> wstr) list" where
  "task_head n = [((BATCH, W ''Collection'', W ''Version''), dec 3), ((BATCH, W ''Collection'', W ''Count''), dec (int n))]"

definition task_fields :: "nat \<Rightarrow> BatchTask \<Rightarrow> (setting_key \<times> wstr) list" where
  "task_fields i t = [((BATCH, task_section i, W ''Id''), dec (bt_id t)), ((BATCH, task_section i, W ''Name''), bt_name t),
     ((BATCH, task_section i, W ''Command''), bt_command t), ((BATCH, task_section i, W ''Mode''), dec (bt_mode t)),
     ((BATCH, task_section i, W ''DirectoryCount''), dec (directory_count t))]"

definition step_rows_of :: "nat \<Rightarrow> BatchTask \<Rightarrow> nat \<Rightarrow> (setting_key \<times> wstr) list" where
  "step_rows_of i t j = [((BATCH, task_section i, W ''Directory'' @ dec (int j)), directories t ! j),
     ((BATCH, task_section i, W ''StepCommand'' @ dec (int j)), commands t ! j)]"

definition task_rows :: "BatchTask list \<Rightarrow> nat \<Rightarrow> (setting_key \<times> wstr) list" where
  "task_rows ts i = task_fields i (ts ! i) @ concat (map (step_rows_of i (ts ! i)) [0..<live_count (ts ! i)])"

abbreviation all_task_rows :: "BatchTask list \<Rightarrow> (setting_key \<times> wstr) list" where
  "all_task_rows ts \<equiv> task_head (length ts) @ concat (map (task_rows ts) [0..<length ts])"

lemma distinct_task_rows: "distinct (map fst (task_rows ts i))"
proof -
  have "distinct (map fst (concat (map (step_rows_of i (ts ! i)) [0..<live_count (ts ! i)])))"
    by (rule distinct_blocks) (auto simp: step_rows_of_def keys_ne)
  then show ?thesis by (auto simp: task_rows_def task_fields_def step_rows_of_def keys_ne)
qed

lemma save_tasks_rows:
  assumes E: "config_ok E disk used" and s: "idle s" and keys: "distinct (map fst (settings (db s)))"
  shows "wp (transaction E (write_tasks E ts)) (\<lambda>ok s'. all_or_nothing E disk s ok s' \<and>
    (ok \<longrightarrow> holds_rows BATCH (all_task_rows ts) (db s')
       \<and> (\<forall>k. fst k \<noteq> BATCH \<longrightarrow> select_setting k (db s') = select_setting k (db s)))) s"
  unfolding write_tasks_def
proof (rule transaction_rows [OF E s keys])
  let ?first = "each_ok True [store_clear E BATCH, store_set_int E BATCH (W ''Collection'') (W ''Version'') 3,
             store_set_int E BATCH (W ''Collection'') (W ''Count'') (int (length ts))]"
  show "quiet disk ?first" by (intro quiet) (simp add: quiet_settings [OF E])
  show "quiet disk (all_ok (map (\<lambda>i. save_task E i (ts ! i)) [0..<length ts]))"
    unfolding save_task_def save_task_step_def by (auto simp: list_all_iff intro!: quiet quiet_settings [OF E])
  show "wp ?first (\<lambda>r s'. in_order s' \<and> (r \<longrightarrow> (\<lambda>k. select_setting k (db s')) =
       (\<lambda>k. if fst k = BATCH then None else select_setting k (db s1)) ++ map_of (rev (task_head (length ts))))) s1"
    if "in_order s1" for s1
    by (rule clear_each [OF _ that]) (simp add: task_head_def puts_set_int)
  show "puts (all_ok (map (\<lambda>i. save_task E i (ts ! i)) [0..<length ts])) (concat (map (task_rows ts) [0..<length ts]))"
  proof (rule puts_map)
    fix i
    have step: "puts (save_task_step E i t j) (step_rows_of i t j)" for t j
      unfolding save_task_step_def step_rows_of_def by (rule puts_each) (simp add: puts_set)
    show "puts (save_task E i (ts ! i)) (task_rows ts i)"
      unfolding save_task_def task_rows_def
      by (rule settings.writes_then, unfold task_fields_def, rule puts_each, simp add: puts_set puts_set_int,
          rule puts_map, rule step)
  qed
  show "\<forall>r \<in> set (all_task_rows ts). fst (fst r) = BATCH"
    by (auto simp: task_head_def task_rows_def task_fields_def step_rows_of_def)
  have sec: "fst (snd (fst r)) = task_section i" if "r \<in> set (task_rows ts i)" for r i
    using that by (auto simp: task_rows_def task_fields_def step_rows_of_def)
  have blocks: "distinct (map fst (concat (map (task_rows ts) [0..<length ts])))"
  proof (rule distinct_blocks)
    show "fst ` set (task_rows ts i) \<inter> fst ` set (task_rows ts j) = {}" if "i < j" for i j
    proof (rule equals0I)
      fix k assume "k \<in> fst ` set (task_rows ts i) \<inter> fst ` set (task_rows ts j)"
      then obtain r q where "r \<in> set (task_rows ts i)" "q \<in> set (task_rows ts j)" "fst r = k" "fst q = k" by auto
      then have "task_section i = task_section j" using sec [of r i] sec [of q j] by simp
      then show False using that by simp
    qed
  qed (rule distinct_task_rows)
  have apart: "fst r \<notin> fst ` set (task_head (length ts))" if "r \<in> set (task_rows ts i)" for r i
    using sec [OF that] by (auto simp: task_head_def keys_ne)
  have "set (map fst (task_head (length ts))) \<inter> set (map fst (concat (map (task_rows ts) [0..<length ts]))) = {}"
  proof (rule equals0I)
    fix k assume "k \<in> set (map fst (task_head (length ts))) \<inter> set (map fst (concat (map (task_rows ts) [0..<length ts])))"
    then have h: "k \<in> fst ` set (task_head (length ts))"
      and c: "k \<in> fst ` set (concat (map (task_rows ts) [0..<length ts]))" by (simp_all only: Int_iff set_map)
    from c obtain r where r: "r \<in> set (concat (map (task_rows ts) [0..<length ts]))" "k = fst r" by (rule imageE)
    from r(1) obtain i where i: "r \<in> set (task_rows ts i)" by (simp only: set_concat set_map) blast
    from h r(2) have "fst r \<in> fst ` set (task_head (length ts))" by simp
    with apart [OF i] show False by contradiction
  qed
  moreover have "distinct (map fst (task_head (length ts)))" by (simp add: task_head_def)
  ultimately show "distinct (map fst (all_task_rows ts))" using blocks by (simp only: map_append distinct_append simp_thms)
qed

subsection \<open>Loading a task\<close>

definition partial_task :: "BatchTask \<Rightarrow> nat \<Rightarrow> BatchTask" where
  \<comment> \<open>the task with its first \<open>j\<close> steps\<close>
  "partial_task t j = t\<lparr>directories := take j (directories t) @ replicate (BATCH_DIRECTORY_LIMIT - j) [],
     commands := take j (commands t) @ replicate (BATCH_DIRECTORY_LIMIT - j) []\<rparr>"

lemma partial_task_Suc:
  assumes "task_wf t" "j < BATCH_DIRECTORY_LIMIT"
  shows "(partial_task t j)\<lparr>directories := (directories (partial_task t j))[j := directories t ! j],
     commands := (commands (partial_task t j))[j := commands t ! j]\<rparr> = partial_task t (Suc j)"
proof -
  have "(take j xs @ replicate (BATCH_DIRECTORY_LIMIT - j) [])[j := xs ! j] = take (Suc j) xs @ replicate (BATCH_DIRECTORY_LIMIT - Suc j) []"
    if "length xs = BATCH_DIRECTORY_LIMIT" for xs :: "wstr list"
  proof -
    have "replicate (BATCH_DIRECTORY_LIMIT - j) ([] :: wstr) = [] # replicate (BATCH_DIRECTORY_LIMIT - Suc j) []"
      using assms(2) by (simp add: Suc_diff_Suc flip: replicate_Suc)
    then show ?thesis using that assms(2) by (simp add: list_update_append take_Suc_conv_app_nth)
  qed
  then show ?thesis using assms(1) by (simp add: partial_task_def task_wf_def)
qed

lemma partial_task_all: "task_wf t \<Longrightarrow> partial_task t (live_count t) = t"
proof -
  assume wf: "task_wf t"
  have "take n xs @ replicate (BATCH_DIRECTORY_LIMIT - n) [] = xs"
    if "length xs = BATCH_DIRECTORY_LIMIT" "n \<le> BATCH_DIRECTORY_LIMIT" "\<forall>k < BATCH_DIRECTORY_LIMIT. n \<le> k \<longrightarrow> xs ! k = []"
    for n and xs :: "wstr list"
    by (rule nth_equalityI) (use that in \<open>auto simp: nth_append\<close>)
  from this [of "directories t" "live_count t"] this [of "commands t" "live_count t"] wf show ?thesis
    by (simp add: partial_task_def task_wf_def nat_le_iff)
qed

definition task_plain :: "BatchTask \<Rightarrow> bool" where
  "task_plain t \<longleftrightarrow> 0 \<notin> set (bt_name t) \<and> 0 \<notin> set (bt_command t)
     \<and> (\<forall>x \<in> set (directories t) \<union> set (commands t). 0 \<notin> set x) \<and> bt_id t \<le> LLONG_MAX"

lemma reads_steps:
  assumes E: "answers E" and wf: "task_wf t"
    and cells: "\<And>k. j \<le> k \<Longrightarrow> k < j + n \<Longrightarrow>
      setting_text d (BATCH, sec, W ''Directory'' @ dec (int k)) BATCH_DIRECTORY_CAP = Some (directories t ! k)
      \<and> setting_text d (BATCH, sec, W ''StepCommand'' @ dec (int k)) BATCH_COMMAND_CAP = Some (commands t ! k)"
    and le: "j + n \<le> BATCH_DIRECTORY_LIMIT"
  shows "reads (load_task_steps E 3 sec j n (partial_task t j)) d (Some (partial_task t (j + n)))"
  using cells le
proof (induction n arbitrary: j)
  case 0
  then show ?case by (simp add: reads_ret)
next
  case (Suc n)
  have tx: "setting_text d (BATCH, sec, W ''Directory'' @ dec (int j)) BATCH_DIRECTORY_CAP = Some (directories t ! j)"
    "setting_text d (BATCH, sec, W ''StepCommand'' @ dec (int j)) BATCH_COMMAND_CAP = Some (commands t ! j)"
    using Suc.prems(1) [of j] by simp_all
  note ih = Suc.IH [of "Suc j"]
  have up: "(partial_task t j)\<lparr>directories := (directories (partial_task t j))[j := directories t ! j]\<rparr>
     \<lparr>commands := (commands ((partial_task t j)\<lparr>directories := (directories (partial_task t j))[j := directories t ! j]\<rparr>))[j := commands t ! j]\<rparr>
     = partial_task t (Suc j)"
    using partial_task_Suc [OF wf, of j] Suc.prems(2) by simp
  show ?case
    unfolding load_task_steps.simps
    by (rule reads_bind [OF reads_setting [OF E]], unfold tx option.case Let_def, subst if_P, simp,
        rule reads_bind [OF reads_setting [OF E]], unfold tx option.case up) (use ih Suc.prems in simp)
qed

lemma reads_task:
  assumes E: "answers E" and wf: "task_wf t" and plain: "task_plain t" and v: "batch_task_is_valid (Some t)"
    and ne: "has_nonblank (bt_name t)" "has_nonblank (bt_command t)" and pos: "0 < bt_id t"
    and fresh: "\<forall>u \<in> set before. bt_id u \<noteq> bt_id t"
    and rows: "\<And>k x. (k, x) \<in> set (task_fields i t @ concat (map (step_rows_of i t) [0..<live_count t])) \<Longrightarrow> select_setting k d = Some x"
  shows "reads (load_task E 3 i before) d (Some t)"
proof -
  let ?n = "live_count t"
  have cnt: "0 \<le> directory_count t" "directory_count t \<le> int BATCH_DIRECTORY_LIMIT" "?n \<le> BATCH_DIRECTORY_LIMIT"
    and len: "length (directories t) = BATCH_DIRECTORY_LIMIT" "length (commands t) = BATCH_DIRECTORY_LIMIT"
    using wf by (auto simp: task_wf_def nat_le_iff)
  have m: "0 \<le> bt_mode t" "bt_mode t \<le> BATCH_PARALLEL" and caps: "length (bt_name t) < BATCH_NAME_CAP" "length (bt_command t) < BATCH_COMMAND_CAP"
    and cells: "\<And>k. k < ?n \<Longrightarrow> length (directories t ! k) < BATCH_DIRECTORY_CAP \<and> length (commands t ! k) < BATCH_COMMAND_CAP"
    using v by (auto simp: batch_task_is_valid_def list_all_iff terminated_def BATCH_PARALLEL_def BATCH_SEQUENTIAL_def split: if_splits)
  have sel: "select_setting (BATCH, task_section i, W ''Id'') d = Some (dec (bt_id t))"
    "select_setting (BATCH, task_section i, W ''Name'') d = Some (bt_name t)"
    "select_setting (BATCH, task_section i, W ''Command'') d = Some (bt_command t)"
    "select_setting (BATCH, task_section i, W ''Mode'') d = Some (dec (bt_mode t))"
    "select_setting (BATCH, task_section i, W ''DirectoryCount'') d = Some (dec (directory_count t))"
    by (rule rows; simp add: task_fields_def)+
  have idl: "bt_id t \<le> LLONG_MAX" using plain by (simp add: task_plain_def)
  have tx: "setting_text d (BATCH, task_section i, W ''Id'') 40 = Some (dec (bt_id t))"
    "setting_text d (BATCH, task_section i, W ''Name'') BATCH_NAME_CAP = Some (bt_name t)"
    "setting_text d (BATCH, task_section i, W ''Command'') BATCH_COMMAND_CAP = Some (bt_command t)"
    using sel caps plain dec_plain [of "bt_id t"] pos dec_length_19 [of "bt_id t"] idl
    by (simp_all add: setting_text_def task_plain_def)
  have num: "setting_number d (BATCH, task_section i, W ''Mode'') BATCH_PARALLEL = Some (bt_mode t)"
    "setting_number d (BATCH, task_section i, W ''DirectoryCount'') (int BATCH_DIRECTORY_LIMIT) = Some (directory_count t)"
    by (rule number_row [OF sel(4) m]; simp add: BATCH_PARALLEL_def LONG_MAX_def)
      (rule number_row [OF sel(5) cnt(1,2)]; simp add: BATCH_DIRECTORY_LIMIT_def LONG_MAX_def)
  have step: "setting_text d (BATCH, task_section i, W ''Directory'' @ dec (int k)) BATCH_DIRECTORY_CAP = Some (directories t ! k)
      \<and> setting_text d (BATCH, task_section i, W ''StepCommand'' @ dec (int k)) BATCH_COMMAND_CAP = Some (commands t ! k)"
    if k: "k < ?n" for k
  proof -
    have "select_setting (BATCH, task_section i, W ''Directory'' @ dec (int k)) d = Some (directories t ! k)"
      "select_setting (BATCH, task_section i, W ''StepCommand'' @ dec (int k)) d = Some (commands t ! k)"
      by (rule rows; use k in \<open>auto simp: step_rows_of_def\<close>)+
    moreover have "directories t ! k \<in> set (directories t)" "commands t ! k \<in> set (commands t)"
      using k cnt len by simp_all
    ultimately show ?thesis using cells [OF k] plain by (simp add: setting_text_def task_plain_def)
  qed
  have ident: "reads (load_task_id E 3 (task_section i) before) d (Some (bt_id t))"
    unfolding load_task_id_def
    by (subst if_not_P, simp, rule reads_bind [OF reads_setting [OF E]], rule reads_ret)
      (use fresh pos target_id_target [OF pos idl] in \<open>auto simp: tx Let_def list_ex_iff\<close>)
  have start: "zero_task\<lparr>bt_id := bt_id t, bt_name := bt_name t, bt_command := bt_command t, bt_mode := bt_mode t,
      directory_count := directory_count t\<rparr> = partial_task t 0"
    by (simp add: partial_task_def zero_task_def)
  have steps: "reads (load_task_steps E 3 (task_section i) 0 ?n (partial_task t 0)) d (Some t)"
    using reads_steps [OF E wf, of 0 ?n d "task_section i"] step cnt(3) partial_task_all [OF wf] by simp
  show ?thesis
    unfolding load_task_def Let_def
    by (rule reads_bind [OF ident], unfold option.case, rule reads_bind [OF reads_setting [OF E]], unfold tx option.case,
        rule reads_bind [OF reads_setting [OF E]], unfold tx option.case, rule reads_bind [OF reads_number [OF E]],
        unfold num option.case, rule reads_bind [OF reads_number [OF E]], unfold num option.case start,
        rule reads_bind [OF steps], rule reads_ret)
      (use v ne in \<open>auto simp: has_nonblank_def\<close>)
qed

lemma reads_tasks:
  assumes E: "answers E"
    and rows: "\<And>i k x. i < length before + n \<Longrightarrow> (k, x) \<in> set (task_rows ts i) \<Longrightarrow> select_setting k d = Some x"
    and ok: "\<And>i. i < length before + n \<Longrightarrow> task_wf (ts ! i) \<and> task_plain (ts ! i) \<and> batch_task_is_valid (Some (ts ! i))
       \<and> has_nonblank (bt_name (ts ! i)) \<and> has_nonblank (bt_command (ts ! i)) \<and> 0 < bt_id (ts ! i)"
    and "distinct (map bt_id ts)" and "before = take (length before) ts" "length before + n \<le> length ts"
  shows "reads (load_tasks E 3 n before) d (Some (take (length before + n) ts))"
  using assms(2-)
proof (induction n arbitrary: before)
  case 0
  then show ?case by (simp add: reads_ret)
next
  case (Suc n)
  let ?i = "length before"
  have lt: "?i < length ts" using Suc.prems(5) by simp
  have b: "before @ [ts ! ?i] = take (length (before @ [ts ! ?i])) ts"
    using Suc.prems(4) lt by (simp add: take_Suc_conv_app_nth)
  have fresh: "\<forall>u \<in> set before. bt_id u \<noteq> bt_id (ts ! ?i)"
  proof
    fix u assume "u \<in> set before"
    then obtain j where "j < ?i" "u = ts ! j"
      using Suc.prems(4) lt by (metis in_set_conv_nth nth_take)
    then show "bt_id u \<noteq> bt_id (ts ! ?i)"
      using Suc.prems(3) lt by (simp add: distinct_conv_nth)
  qed
  have r: "select_setting k d = Some x"
    if "(k, x) \<in> set (task_fields ?i (ts ! ?i) @ concat (map (step_rows_of ?i (ts ! ?i)) [0..<live_count (ts ! ?i)]))" for k x
    using Suc.prems(1) [of ?i k x] that by (simp add: task_rows_def)
  have o: "task_wf (ts ! ?i)" "task_plain (ts ! ?i)" "batch_task_is_valid (Some (ts ! ?i))"
    "has_nonblank (bt_name (ts ! ?i))" "has_nonblank (bt_command (ts ! ?i))" "0 < bt_id (ts ! ?i)"
    using Suc.prems(2) [of ?i] by simp_all
  note ih = Suc.IH [of "before @ [ts ! ?i]", OF _ _ Suc.prems(3) b]
  show ?case
    unfolding load_tasks.simps
    by (rule reads_bind [OF reads_task [OF E o(1-6) fresh r]]; (unfold option.case)?; use ih Suc.prems in simp)
qed

subsection \<open>What the first loop of the save checks\<close>

definition same_but_id :: "BatchTask \<Rightarrow> BatchTask \<Rightarrow> bool" where
  \<comment> \<open>a task and the task that is saved for it: an identifier is only added\<close>
  "same_but_id t u \<longleftrightarrow> u = t\<lparr>bt_id := bt_id u\<rparr> \<and> (bt_id t \<noteq> 0 \<longrightarrow> u = t)"

definition task_ready :: "BatchTask \<Rightarrow> bool" where
  "task_ready t \<longleftrightarrow> batch_task_is_valid (Some t) \<and> has_nonblank (bt_name t) \<and> has_nonblank (bt_command t) \<and> 0 \<le> bt_id t"

lemma check_tasks_post:
  assumes "distinct (map bt_id before)"
  shows "wp (check_tasks E before ts) (\<lambda>r s'. fst r \<longrightarrow> (\<exists>us. snd r = before @ us \<and> list_all2 same_but_id ts us
    \<and> list_all task_ready us \<and> distinct (map bt_id (before @ us)))) (s :: ('w, 'z) Store_scheme)"
  using assms
proof (induction ts arbitrary: before s)
  case (Cons t ts)
  have new: "wp (if bt_id t = 0 then store_new_id E else ret (bt_id t)) (\<lambda>i s'. bt_id t \<noteq> 0 \<longrightarrow> i = bt_id t) s"
    for s :: "('w, 'z) Store_scheme"
    by (cases "bt_id t = 0") (simp_all add: wp)
  show ?case
    unfolding check_tasks.simps wp_bind Let_def
  proof (rule wp_mono [OF new])
    fix i and s1 :: "('w, 'z) Store_scheme"
    assume i: "bt_id t \<noteq> 0 \<longrightarrow> i = bt_id t"
    let ?t = "t\<lparr>bt_id := i\<rparr>"
    let ?bad = "i < 0 \<or> list_ex (\<lambda>u. bt_id u = i) before \<or> \<not> batch_task_is_valid (Some ?t)
          \<or> \<not> has_nonblank (bt_name ?t) \<or> \<not> has_nonblank (bt_command ?t)"
    let ?Q = "\<lambda>r s'. fst r \<longrightarrow> (\<exists>us. snd r = before @ us \<and> list_all2 same_but_id (t # ts) us
      \<and> list_all task_ready us \<and> distinct (map bt_id (before @ us)))"
    show "wp (if ?bad then ret (False, before @ ?t # ts) else check_tasks E (before @ [?t]) ts) ?Q s1"
    proof (cases ?bad)
      case True
      then show ?thesis by (simp only: if_True wp_return fst_conv simp_thms)
    next
      case False
      then have d: "distinct (map bt_id (before @ [?t]))" using Cons.prems by (auto simp: list_ex_iff)
      have "same_but_id t ?t" using i by (auto simp: same_but_id_def)
      moreover have "task_ready ?t" using False by (simp add: task_ready_def)
      ultimately have "\<exists>us. vs = before @ us \<and> list_all2 same_but_id (t # ts) us
          \<and> list_all task_ready us \<and> distinct (map bt_id (before @ us))"
        if "\<exists>us. vs = (before @ [?t]) @ us \<and> list_all2 same_but_id ts us \<and> list_all task_ready us
          \<and> distinct (map bt_id ((before @ [?t]) @ us))" for vs
      proof -
        from that obtain us where "vs = (before @ [?t]) @ us" "list_all2 same_but_id ts us" "list_all task_ready us"
          "distinct (map bt_id ((before @ [?t]) @ us))" by blast
        then show ?thesis
          using \<open>same_but_id t ?t\<close> \<open>task_ready ?t\<close> by (intro exI [of _ "?t # us"]) simp
      qed
      then show ?thesis unfolding if_not_P [OF False]
        by - (rule wp_mono [OF Cons.IH [OF d]], blast)
    qed
  qed
qed (simp add: wp)

lemma reads_batch_tasks:
  assumes E: "answers E" and rows: "holds_rows BATCH (all_task_rows ts) d" and n: "length ts \<le> BATCH_TASK_LIMIT"
    and ok: "\<forall>t \<in> set ts. task_wf t \<and> task_plain t \<and> task_ready t \<and> 0 < bt_id t" and dist: "distinct (map bt_id ts)"
  shows "reads (store_load_batch_tasks E) d (Some (task_list ts))"
proof -
  note sel = holds_rows_select [OF rows]
  have num: "setting_number d (BATCH, W ''Collection'', W ''Version'') 3 = Some 3"
    "setting_number d (BATCH, W ''Collection'', W ''Count'') (int BATCH_TASK_LIMIT) = Some (int (length ts))"
    by (rule number_row [OF sel]; use n in \<open>simp add: task_head_def LONG_MAX_def BATCH_TASK_LIMIT_def\<close>)+
  have row: "select_setting k d = Some x" if "i < length ts" "(k, x) \<in> set (task_rows ts i)" for i k x
    by (rule sel) (use that in auto)
  have load: "reads (load_tasks E 3 (length ts) []) d (Some ts)"
    using reads_tasks [OF E, of "[]" "length ts" ts d] row ok dist by (simp add: task_ready_def)
  have "count_scope BATCH d \<noteq> 0"
    using holds_rows_count [OF rows] by (simp add: task_head_def)
  moreover have "reads (stored_tasks E) d (Some (task_list ts))"
    unfolding stored_tasks_def
    by (rule reads_bind [OF reads_number [OF E]], unfold num option.case, subst if_not_P, simp,
        rule reads_bind [OF reads_number [OF E]], unfold num option.case nat_int,
        rule reads_bind [OF load], unfold option.case, subst if_not_P, simp, rule reads_ret, simp)
  ultimately show ?thesis
    unfolding store_load_batch_tasks_def
    by - (rule reads_bind [OF reads_fresh [OF E]], simp)
qed


definition one_task :: BatchTask where
  "one_task = zero_task\<lparr>bt_name := W ''n'', bt_command := W ''c'', directory_count := 1, directories := (directories zero_task)[0 := W ''d'']\<rparr>"

lemma rest_new_id: "run_state (store_new_id rest_store) rest_session = (1, rest_session\<lparr>world := 1\<rparr>)"
proof -
  have "random64 rest_store 0 = (1, Suc 0)" by (simp add: rest_store_def)
  then have "draw_id (random64 rest_store) 0 = Some (1, Suc 0)"
    by (subst draw_id.simps) (simp add: masked_id_def)
  then show ?thesis by (simp add: store_new_id_def lift_def rest_session_def)
qed


end
