(* ===== verification/Storage_Opening.thy ===== *)
theory Storage_Opening
  imports Storage_Laws
begin

text \<open>
  Opening the store: it reads and never writes until every check has passed, so a failed opening
  leaves the documents as they were and the store closed.
\<close>

subsection \<open>Commands of the opening phase\<close>

definition in_open :: "('w \<Rightarrow> 'd) \<Rightarrow> ('w, 'z) Store_scheme \<Rightarrow> ('w, 'z) Store_scheme \<Rightarrow> bool" where
  "in_open disk s s' \<longleftrightarrow> is_opening s' = is_opening s \<and> is_open s' = is_open s \<and> root s' = root s
     \<and> restore_errors s' = restore_errors s \<and> disk (world s') = disk (world s)
     \<and> (begun s = None \<longrightarrow> begun s' = None)"

lemma in_open_refl [simp]: "in_open disk s s"
  and in_open_trans: "in_open disk s t \<Longrightarrow> in_open disk t u \<Longrightarrow> in_open disk s u"
  by (simp_all add: in_open_def)

definition steady :: "('w \<Rightarrow> 'd) \<Rightarrow> ('w, 'z, 'a) store_cmd \<Rightarrow> bool" where
  "steady disk c \<longleftrightarrow> (\<forall>s. is_opening s \<and> is_open s \<and> begun s = None \<longrightarrow> wp c (\<lambda>r s'. in_open disk s s') s)"

named_theorems steady \<open>commands of the opening phase\<close>

lemma steadyD: "steady disk c \<Longrightarrow> is_opening s \<Longrightarrow> is_open s \<Longrightarrow> begun s = None \<Longrightarrow> wp c (\<lambda>r s'. in_open disk s s') s"
  by (simp add: steady_def)

lemma steady_ret [steady]: "steady disk (ret x)"
  and steady_gets [steady]: "steady disk (gets g)"
  by (simp_all add: steady_def wp)

lemma steady_bind [steady]:
  fixes c :: "('w, 'z, 'a) store_cmd"
  assumes "steady disk c" and "\<And>x. steady disk (g x)"
  shows "steady disk (c \<bind> g)"
  unfolding steady_def wp_bind
proof (intro allI impI, elim conjE)
  fix s :: "('w, 'z) Store_scheme"
  assume b: "is_opening s" "is_open s" "begun s = None"
  show "wp c (\<lambda>r. wp (g r) (\<lambda>r s'. in_open disk s s')) s"
  proof (rule wp_mono [OF steadyD [OF assms(1) b]])
    fix r s1 assume t: "in_open disk s s1"
    then have "is_opening s1" "is_open s1" "begun s1 = None" using b by (simp_all add: in_open_def)
    from steadyD [OF assms(2) this] show "wp (g r) (\<lambda>r s'. in_open disk s s') s1"
      by (rule wp_mono) (rule in_open_trans [OF t])
  qed
qed

lemma steady_if [steady]: "steady disk c \<Longrightarrow> steady disk d \<Longrightarrow> steady disk (if b then c else d)"
  and steady_prod [steady]: "(\<And>x y. steady disk (g x y)) \<Longrightarrow> steady disk (case p of (x, y) \<Rightarrow> g x y)"
  and steady_option [steady]:
    "steady disk c \<Longrightarrow> (\<And>x. steady disk (h x)) \<Longrightarrow> steady disk (case q of None \<Rightarrow> c | Some x \<Rightarrow> h x)"
  and steady_list [steady]:
    "steady disk c \<Longrightarrow> (\<And>x xs. steady disk (k x xs)) \<Longrightarrow> steady disk (case zs of [] \<Rightarrow> c | x # xs \<Rightarrow> k x xs)"
  by (simp_all split: prod.splits option.splits list.splits)

lemma steady_let [steady]: "(\<And>x. steady disk (f x)) \<Longrightarrow> steady disk (let x = a in f x)"
  by (simp add: Let_def)

lemma steady_and_then [steady]: "steady disk a \<Longrightarrow> steady disk b \<Longrightarrow> steady disk (and_then a b)"
  unfolding and_then_def by (intro steady)

lemma steady_all_ok [steady]: "list_all (steady disk) cs \<Longrightarrow> steady disk (all_ok cs)"
  by (induction cs) (auto intro: steady)

lemma steady_each_ok [steady]: "list_all (steady disk) cs \<Longrightarrow> steady disk (each_ok ok cs)"
  by (induction cs arbitrary: ok) (auto intro: steady)

lemma steady_check [steady]: "steady disk (check ok)"
  by (auto simp: steady_def check_def wp in_open_def)

lemma steady_lift:
  assumes "\<And>w r w'. f w = (r, w') \<Longrightarrow> disk w' = disk w"
  shows "steady disk (lift f)"
  using assms by (auto simp: steady_def wp_lift in_open_def)

lemma steady_sql:
  assumes E: "config_ok E disk used"
  shows "steady disk (lift (sql_ok E))" "steady disk (sql_test E b)" "steady disk (lift (f_read E p))"
    "steady disk (lift (f_attributes E p))" "steady disk (sql_call E)" "steady disk (prepare E)" "steady disk (bind_text E)"
    "steady disk (select_row E k n)" "steady disk (sql_change E f)"
proof -
  show sql: "steady disk (lift (sql_ok E))" by (rule steady_lift) (simp add: config_sql [OF E])
  show "steady disk (sql_test E b)" unfolding sql_test_def by (intro steady sql)
  show "steady disk (lift (f_read E p))" by (rule steady_lift) (use files_read [OF config_files [OF E]] in blast)
  show "steady disk (lift (f_attributes E p))" by (rule steady_lift) (use files_attributes [OF config_files [OF E]] in blast)
  show call: "steady disk (sql_call E)" unfolding sql_call_def by (intro steady sql)
  show prep: "steady disk (prepare E)" unfolding prepare_def by (intro steady call)
  show bind: "steady disk (bind_text E)" unfolding bind_text_def by (rule call)
  show "steady disk (select_row E k n)" unfolding select_row_def by (intro steady prep sql) (simp add: list_all_iff bind)
  have "steady disk (modify (\<lambda>s. s\<lparr>db := d\<rparr>))" for d by (simp add: steady_def wp in_open_def)
  then show "steady disk (sql_change E f)" unfolding sql_change_def by (intro steady sql)
qed

lemma steady_transaction:
  fixes body :: "('w,'z,bool) store_cmd"
  assumes E: "config_ok E disk used" and body: "quiet disk body"
  shows "steady disk (transaction E body)"
  unfolding steady_def
proof (intro allI impI, elim conjE)
  fix s :: "('w,'z) Store_scheme"
  assume s: "is_opening s" "is_open s" "begun s = None"
  have begin_ok: "wp (store_begin E) (\<lambda>ok s1. (if ok then in_tx disk (s\<lparr>begun := Some (db s), transaction_failed := False\<rparr>) s1
      else in_open disk s s1)) s"
    using s by (auto simp: store_begin_def sql_begin_def wp wp_lift check_def in_tx_def in_open_def dest!: config_sql [OF E])
  show "wp (transaction E body) (\<lambda>r s'. in_open disk s s') s"
    unfolding transaction_def wp_bind
  proof (rule wp_mono [OF begin_ok])
    fix ok s1
    assume q: "if ok then in_tx disk (s\<lparr>begun := Some (db s), transaction_failed := False\<rparr>) s1 else in_open disk s s1"
    show "wp (if \<not> ok then ret False else body \<bind> store_end E) (\<lambda>r s'. in_open disk s s') s1"
    proof (cases ok)
      case True
      then have t: "in_tx disk (s\<lparr>begun := Some (db s), transaction_failed := False\<rparr>) s1" using q by simp
      then have b: "begun s1 \<noteq> None" by (simp add: in_tx_def)
      have "wp body (\<lambda>ok. wp (store_end E ok) (\<lambda>r s'. in_open disk s s')) s1"
      proof (rule wp_mono [OF quietD [OF body b]])
        fix r s2 assume "in_tx disk s1 s2"
        then have "in_tx disk (s\<lparr>begun := Some (db s), transaction_failed := False\<rparr>) s2" by (rule in_tx_trans [OF t])
        then show "wp (store_end E r) (\<lambda>r s'. in_open disk s s') s2"
          using s by (auto simp: store_end_def sql_commit_def sql_rollback_def check_def wp wp_lift in_tx_def in_open_def
              split: option.splits dest!: config_sql [OF E])
      qed
      then show ?thesis using True by (simp add: wp)
    next
      case False
      then show ?thesis using q by (simp add: wp)
    qed
  qed
qed

lemma steady_import:
  fixes disk :: "'w \<Rightarrow> wstr \<Rightarrow> byte list option"
  assumes E: "config_ok E disk used"
  shows "steady disk (import_json E bytes :: ('w, 'z, bool) store_cmd)"
proof -
  have "wp (import_json E bytes) (\<lambda>r s'. in_open disk s s') s" if "begun s = None" for s :: "('w, 'z) Store_scheme"
    using that unfolding import_json_def Let_def
    by (auto simp: sql_begin_def sql_change_def sql_commit_def sql_rollback_def and_then_def wp wp_lift in_open_def
        split: option.splits dest!: config_sql [OF E])
  then show ?thesis by (simp add: steady_def)
qed

lemma steady_documents:
  assumes E: "store_ok E disk used"
  shows "steady disk (read_document E directory name)" "steady disk (valid_json E bytes)"
    "steady disk (config_json_load E directory)" "steady disk (config_json_legacy E directory)"
    "steady disk (config_json_load_local E directory)"
proof -
  note sql = steady_sql [OF store_config [OF E]] steady_import [OF store_config [OF E]]
  have legacy: "steady disk (lift (legacy_read E p))" for p
    by (rule steady_lift) (use E in \<open>auto simp: store_ok_def\<close>)
  show valid: "steady disk (valid_json E bytes)" for bytes
    unfolding valid_json_def Let_def by (intro steady sql) (simp add: list_all_iff sql)
  have read: "steady disk (case r of ReadNotFound \<Rightarrow> ret DocMissing | ReadFailed \<Rightarrow> ret DocBad
     | ReadOpened sz data \<Rightarrow>
         (case (sz, data) of
            (Some n, Some bytes) \<Rightarrow>
              if n = 0 \<or> n > JSON_LIMIT then ret DocBad
              else (let text = skip_bom bytes in
                if \<not> utf8_valid E text \<or> 0 \<in> set text then ret DocBad
                else do { ok \<leftarrow> valid_json E text; ret (if ok then DocText text else DocBad) })
          | _ \<Rightarrow> ret DocBad))" for r
    by (cases r) (auto simp: Let_def split: option.splits intro!: steady valid)
  show document: "steady disk (read_document E directory name)" for name
    unfolding read_document_def by (intro steady sql read)
  have doc_cases: "steady disk (case doc of DocMissing \<Rightarrow> a | DocBad \<Rightarrow> b | DocText t \<Rightarrow> c t)"
    if "steady disk a" "steady disk b" "\<And>t. steady disk (c t)" for doc a b c
    using that by (cases doc) simp_all
  show "steady disk (config_json_load E directory)"
    unfolding config_json_load_def Let_def by (intro steady sql document doc_cases)
  show "steady disk (config_json_legacy E directory)"
    unfolding config_json_legacy_def Let_def by (intro steady sql legacy valid)
  show "steady disk (config_json_load_local E directory)"
    unfolding config_json_load_local_def Let_def by (intro steady sql document doc_cases)
qed

subsection \<open>The checks of the opening\<close>

lemma steady_reads:
  assumes E: "store_ok E disk used"
  shows "steady disk (read_setting E scope section key cap)" "steady disk (read_number E scope section key n)"
    "steady disk (scope_is_empty E scope)" "steady disk (count_rows E scope)"
    "steady disk (store_get E scope section key fallback cap)" "steady disk (store_int E scope section key n)"
    "steady disk (validate_number E scope section key lo hi)"
  unfolding read_number_def read_setting_def scope_is_empty_def count_rows_def store_get_def store_int_def
    validate_number_def Let_def
  by (intro steady steady_sql [OF store_config [OF E]])+

lemma steady_step_rows: "store_ok E disk used \<Longrightarrow> steady disk (step_rows E ok bs)"
  by (induction bs arbitrary: ok) (auto intro!: steady steady_sql [OF store_config])

lemma steady_rows:
  assumes E: "store_ok E disk used"
  shows "steady disk (load_workspace_rows E n rows spaces)" "steady disk (load_item_rows E m its w)"
proof -
  note sql = steady_sql [OF store_config [OF E]]
  show "steady disk (load_workspace_rows E n rows spaces)"
  proof (induction rows arbitrary: n spaces)
    case Nil
    show ?case by (subst load_workspace_rows.simps, simp only: list.case cong: if_cong) (intro steady sql)
  next
    case (Cons r rows)
    show ?case by (subst load_workspace_rows.simps, simp only: list.case cong: if_cong) (intro steady sql Cons.IH)
  qed
  show "steady disk (load_item_rows E m its w)"
  proof (induction its arbitrary: m w)
    case Nil
    show ?case by (subst load_item_rows.simps, simp only: list.case cong: if_cong) (intro steady sql)
  next
    case (Cons r rows)
    show ?case by (subst load_item_rows.simps, simp only: list.case cong: if_cong) (intro steady sql Cons.IH)
  qed
qed

lemma steady_save:
  assumes E: "store_ok E disk used"
  shows "steady disk (store_save_batch_tasks E tasks)" "steady disk (store_save_file_commands E c)"
proof -
  note C = store_config [OF E]
  have check: "steady disk (check_tasks E before ts)" for before ts
    unfolding steady_def
    by (intro allI impI) (rule wp_mono [OF check_tasks_wp [OF E]], auto simp: in_tx_def in_open_def)
  show "steady disk (store_save_batch_tasks E tasks)"
    unfolding store_save_batch_tasks_def Let_def
    by (intro steady check steady_transaction [OF C] quiet_writes [OF C])
  show "steady disk (store_save_file_commands E c)"
    unfolding store_save_file_commands_def by (intro steady steady_transaction [OF C] quiet_writes [OF C])
qed

lemma steady_load_loops:
  assumes E: "store_ok E disk used"
  shows "steady disk (load_legacy_directories E i n task)" "steady disk (load_task_steps E version section j n t)"
    "steady disk (load_tasks E version n ts)" "steady disk (load_presets E n cs)" "steady disk (load_servers E n ss)"
proof -
  note reads = steady_reads [OF E]
  show "steady disk (load_legacy_directories E i n task)"
    by (induction n arbitrary: i task) (auto simp: Let_def intro!: steady reads)
  show steps: "steady disk (load_task_steps E v sec j n t)" for v sec j n t
    by (induction n arbitrary: j t) (auto simp: Let_def intro!: steady reads)
  have "steady disk (load_task E version i ts)" for i ts
    unfolding load_task_def load_task_id_def Let_def by (intro steady reads steps)
  then show "steady disk (load_tasks E version n ts)"
    by (induction n arbitrary: ts) (auto intro!: steady)
  show "steady disk (load_presets E n cs)"
    by (induction n arbitrary: cs) (auto intro!: steady reads)
  have "steady disk (load_server E i)" for i
    unfolding load_server_def Let_def by (intro steady reads)
  then show "steady disk (load_servers E n ss)"
    by (induction n arbitrary: ss) (auto intro!: steady)
qed

lemma steady_collections:
  assumes E: "store_ok E disk used"
  shows "steady disk (store_load_batch_tasks E)" "steady disk (store_load_file_commands E)"
    "steady disk (store_load_ssh_servers E)"
proof -
  note reads = steady_reads [OF E] steady_load_loops [OF E] steady_save [OF E]
  have "steady disk (store_load_batch_task E)"
    unfolding store_load_batch_task_def Let_def by (intro steady reads)
  then have "steady disk (fresh_tasks E)" "steady disk (stored_tasks E)"
    unfolding fresh_tasks_def stored_tasks_def Let_def by (intro steady reads, assumption?)+
  then show "steady disk (store_load_batch_tasks E)"
    unfolding store_load_batch_tasks_def by (auto split: option.splits bool.splits intro!: steady reads)
  have "steady disk (stored_presets E)"
    unfolding stored_presets_def Let_def by (intro steady reads)
  then show "steady disk (store_load_file_commands E)"
    unfolding store_load_file_commands_def Let_def by (auto split: option.splits bool.splits intro!: steady reads)
  show "steady disk (store_load_ssh_servers E)"
    unfolding store_load_ssh_servers_def Let_def by (intro steady reads)
qed

lemma steady_check_store:
  assumes E: "store_ok E disk used"
  shows "steady disk (load_documents E directory legacy)" "steady disk (check_store E)"
proof -
  note sql = steady_sql [OF store_config [OF E]]
  note reads = steady_reads [OF E] steady_collections [OF E]
  show "steady disk (load_documents E directory legacy)"
    unfolding load_documents_def by (intro steady steady_documents [OF E])
  have "steady disk (validate_pane E i)" for i
    unfolding validate_pane_def Let_def by (intro steady) (simp add: list_all_iff steady reads)
  then have "steady disk (validate_preferences E)"
    unfolding validate_preferences_def
    by (intro steady) (auto simp: list_all_iff intro!: steady reads sql steady_step_rows [OF E])
  moreover have "steady disk (check_tables E)"
    unfolding check_tables_def by (intro steady sql)
  moreover have items: "steady disk (load_all_items E ws)" for ws
    by (induction ws) (auto simp: store_load_items_def intro!: steady sql steady_rows [OF E])
  then have "steady disk (check_workspaces E)"
    unfolding check_workspaces_def store_load_workspaces_def by (intro steady sql steady_rows [OF E] items)
  moreover have "steady disk (check_collections E)"
    unfolding check_collections_def Let_def by (intro steady sql reads)
  moreover have "steady disk (check_servers E)"
    unfolding check_servers_def by (intro steady reads)
  ultimately show "steady disk (check_store E)"
    unfolding check_store_def by (intro steady) (simp add: sql)
qed

subsection \<open>The outcome\<close>

definition opened ::
    "('w, 'y) config_env_scheme \<Rightarrow> ('w \<Rightarrow> wstr \<Rightarrow> byte list option) \<Rightarrow> wstr \<Rightarrow> ('w, 'z) Store_scheme \<Rightarrow> bool
     \<Rightarrow> ('w, 'z) Store_scheme \<Rightarrow> bool" where
  "opened E disk directory s ok s' \<longleftrightarrow> begun s' = None \<and> \<not> is_opening s' \<and> (is_open s' \<longleftrightarrow> ok)
     \<and> (ok \<longrightarrow> root s' = directory \<and> (disk (world s') = disk (world s) \<or> published E disk s'))
     \<and> (\<not> ok \<and> restore_errors s' = restore_errors s \<longrightarrow>
          (\<forall>p \<in> doc_paths directory. disk (world s') p = disk (world s) p))"

definition being_opened where
  "being_opened disk directory s s' \<longleftrightarrow> is_opening s' \<and> is_open s' \<and> begun s' = None \<and> root s' = directory
     \<and> restore_errors s' = restore_errors s \<and> disk (world s') = disk (world s)"

lemma being_opened_steady:
  assumes "being_opened disk directory s s1" and "steady disk c"
  shows "wp c (\<lambda>r s2. being_opened disk directory s s2) s1"
  using assms by (auto simp: being_opened_def in_open_def intro!: wp_mono [OF steadyD])

lemma publish_wp:
  assumes E: "config_ok E disk used" and s: "idle s"
  shows "wp (and_then (store_begin E) (store_end E True)) (\<lambda>ok s'. all_or_nothing E disk s ok s') s"
  unfolding and_then_def wp_bind
proof (rule wp_mono [OF store_begin_wp [OF E s]])
  fix started s1
  assume st: "(started \<longrightarrow> entered disk s s1) \<and> (\<not> started \<longrightarrow> all_or_nothing E disk s False s1)"
  show "wp (if started then store_end E True else ret False) (\<lambda>ok s'. all_or_nothing E disk s ok s') s1"
  proof (cases started)
    case True
    then have t: "in_tx disk (s\<lparr>begun := Some (db s), transaction_failed := False\<rparr>) s1" using st by (simp add: entered_def)
    have "wp (store_end E True) (\<lambda>ok s'. all_or_nothing E disk s ok s') s1"
      by (rule wp_mono [OF store_end_wp [OF E s t]]) blast
    then show ?thesis using True by simp
  next
    case False
    then show ?thesis using st by (simp add: wp)
  qed
qed

lemma conclude_wp:
  assumes E: "config_ok E disk used" and s1: "being_opened disk directory s s1"
  shows "wp (do {
         modify (\<lambda>s. s\<lparr>is_opening := False\<rparr>);
         changed \<leftarrow> gets open_changed;
         ok \<leftarrow> (if ok \<and> (migrate \<or> changed) then and_then (store_begin E) (store_end E True) else ret ok);
         if \<not> ok then do { store_close; ret False } else ret True }) (\<lambda>r s'. opened E disk directory s r s') s1"
proof -
  let ?t = "s1\<lparr>is_opening := False\<rparr>"
  have t: "idle ?t" "root ?t = directory" "restore_errors ?t = restore_errors s" "disk (world ?t) = disk (world s)"
    using s1 by (simp_all add: idle_def being_opened_def)
  have "wp (and_then (store_begin E) (store_end E True))
      (\<lambda>ok. wp (if \<not> ok then do { store_close; ret False } else ret True) (\<lambda>r s'. opened E disk directory s r s')) ?t"
  proof (rule wp_mono [OF publish_wp [OF E t(1)]])
    fix r s'
    assume "all_or_nothing E disk ?t r s'"
    then show "wp (if \<not> r then do { store_close; ret False } else ret True) (\<lambda>r s'. opened E disk directory s r s') s'"
      using t by (auto simp: all_or_nothing_def store_close_def opened_def wp)
  qed
  then show ?thesis using t by (auto simp: wp store_close_def opened_def idle_def)
qed

lemma store_open_wp:
  fixes s :: "('w, 'z) Store_scheme"
  assumes E: "store_ok E disk used" and s: "\<not> is_open s" "begun s = None" "\<not> is_opening s"
  shows "wp (store_open_impl E directory legacy) (\<lambda>r s'. opened E disk directory s r s') s"
proof -
  note C = store_config [OF E]
  let ?checked = "\<lambda>ok. do {
      r \<leftarrow> (if ok then load_documents E directory legacy else ret (False, False));
      ok \<leftarrow> (if fst r then check_store E else ret False);
      modify (\<lambda>s. s\<lparr>is_opening := False\<rparr>);
      changed \<leftarrow> gets open_changed;
      ok \<leftarrow> (if ok \<and> (snd r \<or> changed) then and_then (store_begin E) (store_end E True) else ret ok);
      if \<not> ok then do { store_close; ret False } else ret True }"
  have checked: "wp (?checked ok) (\<lambda>r s'. opened E disk directory s r s') s1" if s1: "being_opened disk directory s s1" for ok and s1 :: "('w, 'z) Store_scheme"
    unfolding wp_bind
  proof (rule wp_mono [OF being_opened_steady [OF s1]])
    show "steady disk (if ok then load_documents E directory legacy else ret (False, False))"
      by (intro steady steady_check_store [OF E])
    fix r and s2 :: "('w, 'z) Store_scheme" assume s2: "being_opened disk directory s s2"
    show "wp (if fst r then check_store E else ret False) (\<lambda>ok. wp (modify (\<lambda>s. s\<lparr>is_opening := False\<rparr>))
        (\<lambda>u. wp (gets open_changed) (\<lambda>changed. wp (if ok \<and> (snd r \<or> changed) then and_then (store_begin E) (store_end E True) else ret ok)
          (\<lambda>ok. wp (if \<not> ok then do { store_close; ret False } else ret True) (\<lambda>r s'. opened E disk directory s r s'))))) s2"
    proof (rule wp_mono [OF being_opened_steady [OF s2]])
      show "steady disk (if fst r then check_store E else ret False)"
        by (intro steady steady_check_store [OF E])
      fix ok and s3 :: "('w, 'z) Store_scheme" assume s3: "being_opened disk directory s s3"
      show "wp (modify (\<lambda>s. s\<lparr>is_opening := False\<rparr>))
        (\<lambda>u. wp (gets open_changed) (\<lambda>changed. wp (if ok \<and> (snd r \<or> changed) then and_then (store_begin E) (store_end E True) else ret ok)
          (\<lambda>ok. wp (if \<not> ok then do { store_close; ret False } else ret True) (\<lambda>r s'. opened E disk directory s r s')))) s3"
        using conclude_wp [OF C s3] unfolding wp_bind .
    qed
  qed
  have begin_ok: "wp (begin_open E directory legacy) (\<lambda>r s'. if is_open s' then being_opened disk directory s s'
      else opened E disk directory s False s') s"
    using s by (auto simp: begin_open_def sql_call_def check_def store_close_def wp wp_lift being_opened_def opened_def
        dest!: config_sql [OF C])
  have "wp (begin_open E directory legacy) (\<lambda>ok. wp (gets is_open) (\<lambda>now_open. wp (if \<not> now_open then ret False else ?checked ok)
      (\<lambda>r s'. opened E disk directory s r s'))) s"
  proof (rule wp_mono [OF begin_ok])
    fix ok and s1 :: "('w, 'z) Store_scheme" assume q: "if is_open s1 then being_opened disk directory s s1 else opened E disk directory s False s1"
    show "wp (gets is_open) (\<lambda>now_open. wp (if \<not> now_open then ret False else ?checked ok)
      (\<lambda>r s'. opened E disk directory s r s')) s1"
      using q checked [of s1 ok] by (cases "is_open s1") (simp_all add: wp_gets wp_return)
  qed
  moreover have closed: "opened E disk directory s False s" using s by (simp add: opened_def)
  ultimately show ?thesis
    unfolding store_open_impl_def wp_bind
    using s closed by (simp add: wp_gets wp_return wp_bind)
qed


definition sim_closed_store :: "sim_world Store" where
  "sim_closed_store = sim_open_store\<lparr>is_open := False, root := [], legacy_root := []\<rparr>"


end
