(* ===== verification/Sync_Settings.thy ===== *)
theory Sync_Settings
  imports Storage_Roundtrip Sync_Model
begin

text \<open>
  \<open>src/src/platform/sync_settings.c\<close>: the synchronisation settings as rows of the scope \<open>sync\<close>, their
  loading with every check, and the import of the older JSON document. A pointer that is written before
  a failure is returned as it was left.
\<close>

subsection \<open>Loading\<close>

definition SYNC :: wstr where "SYNC = W ''sync''"
definition MANAGER :: wstr where "MANAGER = W ''Manager''"

fun read_fields ::
    "('w, 'y) store_env_scheme \<Rightarrow> wstr \<Rightarrow> (bool \<times> wstr \<times> nat \<times> (wstr \<Rightarrow> 'p \<Rightarrow> 'p)) list \<Rightarrow> 'p
     \<Rightarrow> ('w, 'z, bool \<times> 'p) store_cmd" where
  \<comment> \<open>a chain of \<open>read_value\<close> (which wants a text, the flag) and \<open>store_get\<close> into fields of a struct\<close>
  "read_fields E section [] p = ret (True, p)"
| "read_fields E section ((wanted, key, cap, put) # fs) p = do {
     r \<leftarrow> store_get E SYNC section key [] cap;
     let p = put (snd r) p;
     if fst r \<and> (wanted \<longrightarrow> snd r \<noteq> []) then read_fields E section fs p else ret (False, p) }"

definition pair_fields :: "(bool \<times> wstr \<times> nat \<times> (wstr \<Rightarrow> SyncPair \<Rightarrow> SyncPair)) list" where
  "pair_fields =
     [(True, W ''Id'', SYNC_ID_CAP, \<lambda>v p. p\<lparr>sp_id := v\<rparr>),
      (True, W ''Dataset'', SYNC_ID_CAP, \<lambda>v p. p\<lparr>sp_dataset := v\<rparr>),
      (True, W ''Name'', SYNC_NAME_CAP, \<lambda>v p. p\<lparr>sp_name := v\<rparr>),
      (True, W ''Group'', SYNC_NAME_CAP, \<lambda>v p. p\<lparr>sp_group := v\<rparr>),
      (True, W ''Path'', SYNC_PATH_CAP, \<lambda>v p. p\<lparr>sp_directory := v\<rparr>),
      (False, W ''Excludes'', SYNC_FILTER_CAP, \<lambda>v p. p\<lparr>sp_excludes := v\<rparr>)]"

definition pair_section :: "nat \<Rightarrow> wstr" where "pair_section i = W ''Pair'' @ dec (int i)"

fun load_pairs ::
    "('w, 'y) store_env_scheme \<Rightarrow> nat \<Rightarrow> nat \<Rightarrow> SyncSettings \<Rightarrow> ('w, 'z, bool \<times> SyncSettings) store_cmd" where
  \<comment> \<open>the loop from pair \<open>i\<close>, with \<open>n\<close> to go\<close>
  "load_pairs E i 0 s = ret (True, s)"
| "load_pairs E i (Suc n) s = do {
     r \<leftarrow> read_fields E (pair_section i) pair_fields (st_pairs s ! i);
     let s = s\<lparr>st_pairs := (st_pairs s)[i := snd r]\<rparr>;
     if \<not> fst r then ret (False, s)
     else do {
       paused \<leftarrow> store_int E SYNC (pair_section i) (W ''Paused'') (-1);
       deletes \<leftarrow> store_int E SYNC (pair_section i) (W ''Deletes'') (-1);
       if paused < 0 \<or> paused > 1 \<or> deletes < 0 \<or> deletes > 1 then ret (False, s)
       else load_pairs E (Suc i) n (s\<lparr>st_pairs := (st_pairs s)[i :=
         (snd r)\<lparr>sp_paused := (paused \<noteq> 0), sp_sync_deletes := (deletes \<noteq> 0)\<rparr>]\<rparr>) } }"

definition instance_field :: "(bool \<times> wstr \<times> nat \<times> (wstr \<Rightarrow> SyncSettings \<Rightarrow> SyncSettings)) list" where
  "instance_field = [(False, W ''Instance'', SYNC_ID_CAP, \<lambda>v s. s\<lparr>st_server_instance := v\<rparr>)]"

definition manager_fields :: "(bool \<times> wstr \<times> nat \<times> (wstr \<Rightarrow> SyncSettings \<Rightarrow> SyncSettings)) list" where
  "manager_fields =
     [(False, W ''Node'', SYNC_ID_CAP, \<lambda>v s. s\<lparr>st_node_id := v\<rparr>),
      (False, W ''Name'', SYNC_NAME_CAP, \<lambda>v s. s\<lparr>st_name := v\<rparr>),
      (True, W ''Project'', SYNC_PATH_CAP, \<lambda>v s. s\<lparr>st_project := v\<rparr>),
      (True, W ''Broker'', SYNC_PATH_CAP, \<lambda>v s. s\<lparr>st_broker := v\<rparr>)]"

definition load_manager :: "('w, 'y) store_env_scheme \<Rightarrow> SyncSettings \<Rightarrow> ('w, 'z, bool \<times> SyncSettings) store_cmd" where
  \<comment> \<open>everything after the version and the instance\<close>
  "load_manager E s = do {
     n \<leftarrow> store_int E SYNC MANAGER (W ''Count'') (-1);
     role \<leftarrow> store_int E SYNC MANAGER (W ''Role'') (-1);
     interval \<leftarrow> store_int E SYNC MANAGER (W ''Interval'') (-1);
     let s = s\<lparr>st_count := n, st_role := role, st_interval := interval\<rparr>;
     registered \<leftarrow> store_int E SYNC MANAGER (W ''Registered'') (-1);
     if registered < 0 \<or> registered > 1 then ret (False, s)
     else do {
       let s = s\<lparr>st_registered := (registered = 1)\<rparr>;
       ident \<leftarrow> store_get E SYNC MANAGER (W ''Server'') [] 32;
       if \<not> fst ident \<or> snd ident = [] then ret (False, s)
       else do {
         let p = wcstoll (snd ident);
         let s = s\<lparr>st_server_id := p_value p\<rparr>;
         if p_rest p \<noteq> [] \<or> p_range p then ret (False, s)
         else do {
           r \<leftarrow> read_fields E MANAGER manager_fields s;
           let s = snd r;
           if \<not> fst r \<or> st_count s < 0 \<or> st_count s > int SYNC_PAIR_LIMIT then ret (False, s)
           else do {
             r \<leftarrow> load_pairs E 0 (nat (st_count s)) s;
             ret (fst r \<and> sync_settings_valid (Some (snd r)), snd r) } } } } }"

definition sync_settings_load :: "('w, 'y) store_env_scheme \<Rightarrow> ('w, 'z, bool \<times> SyncSettings) store_cmd" where
  "sync_settings_load E = do {
     let s = sync_settings_default;
     version \<leftarrow> store_get E SYNC MANAGER (W ''Version'') [] 32;
     if \<not> fst version then ret (False, s)
     else if snd version = [] then ret (True, s)
     else if snd version \<noteq> W ''1'' then ret (False, s)
     else do {
       r \<leftarrow> read_fields E MANAGER instance_field s;
       if \<not> fst r then ret (False, snd r) else load_manager E (snd r) } }"

subsection \<open>Saving\<close>

definition flag :: "bool \<Rightarrow> int" where "flag b = (if b then 1 else 0)"

definition save_pair :: "('w, 'y) store_env_scheme \<Rightarrow> nat \<Rightarrow> SyncPair \<Rightarrow> ('w, 'z, bool) store_cmd" where
  "save_pair E i p = all_ok
     [store_set E SYNC (pair_section i) (W ''Id'') (sp_id p), store_set E SYNC (pair_section i) (W ''Dataset'') (sp_dataset p),
      store_set E SYNC (pair_section i) (W ''Name'') (sp_name p), store_set E SYNC (pair_section i) (W ''Group'') (sp_group p),
      store_set E SYNC (pair_section i) (W ''Path'') (sp_directory p), store_set E SYNC (pair_section i) (W ''Excludes'') (sp_excludes p),
      store_set_int E SYNC (pair_section i) (W ''Paused'') (flag (sp_paused p)),
      store_set_int E SYNC (pair_section i) (W ''Deletes'') (flag (sp_sync_deletes p))]"

definition save_manager :: "('w, 'y) store_env_scheme \<Rightarrow> SyncSettings \<Rightarrow> ('w, 'z, bool) store_cmd" where
  "save_manager E s = all_ok
     [store_clear E SYNC, store_set_int E SYNC MANAGER (W ''Version'') 1, store_set_int E SYNC MANAGER (W ''Count'') (st_count s),
      store_set_int E SYNC MANAGER (W ''Role'') (st_role s), store_set_int E SYNC MANAGER (W ''Interval'') (st_interval s),
      store_set_int E SYNC MANAGER (W ''Registered'') (flag (st_registered s)),
      store_set E SYNC MANAGER (W ''Instance'') (st_server_instance s),
      store_set E SYNC MANAGER (W ''Server'') (dec (st_server_id s)), store_set E SYNC MANAGER (W ''Node'') (st_node_id s),
      store_set E SYNC MANAGER (W ''Name'') (st_name s), store_set E SYNC MANAGER (W ''Project'') (st_project s),
      store_set E SYNC MANAGER (W ''Broker'') (st_broker s)]"

definition write_sync_settings :: "('w, 'y) store_env_scheme \<Rightarrow> SyncSettings \<Rightarrow> ('w, 'z, bool) store_cmd" where
  "write_sync_settings E s = do {
     ok \<leftarrow> save_manager E s;
     if ok then all_ok (map (\<lambda>i. save_pair E i (st_pairs s ! i)) [0..<nat (st_count s)]) else ret False }"

definition sync_settings_save :: "('w, 'y) store_env_scheme \<Rightarrow> SyncSettings \<Rightarrow> ('w, 'z, bool) store_cmd" where
  "sync_settings_save E s =
     (if \<not> sync_settings_valid (Some s) then ret False else transaction E (write_sync_settings E s))"

subsection \<open>What was saved is loaded\<close>

definition manager_rows :: "SyncSettings \<Rightarrow> (setting_key \<times> wstr) list" where
  "manager_rows s =
     [((SYNC, MANAGER, W ''Version''), dec 1), ((SYNC, MANAGER, W ''Count''), dec (st_count s)),
      ((SYNC, MANAGER, W ''Role''), dec (st_role s)), ((SYNC, MANAGER, W ''Interval''), dec (st_interval s)),
      ((SYNC, MANAGER, W ''Registered''), dec (flag (st_registered s))),
      ((SYNC, MANAGER, W ''Instance''), st_server_instance s), ((SYNC, MANAGER, W ''Server''), dec (st_server_id s)),
      ((SYNC, MANAGER, W ''Node''), st_node_id s), ((SYNC, MANAGER, W ''Name''), st_name s),
      ((SYNC, MANAGER, W ''Project''), st_project s), ((SYNC, MANAGER, W ''Broker''), st_broker s)]"

definition pair_rows :: "SyncSettings \<Rightarrow> nat \<Rightarrow> (setting_key \<times> wstr) list" where
  "pair_rows s i = (let p = st_pairs s ! i; sec = pair_section i in
     [((SYNC, sec, W ''Id''), sp_id p), ((SYNC, sec, W ''Dataset''), sp_dataset p), ((SYNC, sec, W ''Name''), sp_name p),
      ((SYNC, sec, W ''Group''), sp_group p), ((SYNC, sec, W ''Path''), sp_directory p),
      ((SYNC, sec, W ''Excludes''), sp_excludes p), ((SYNC, sec, W ''Paused''), dec (flag (sp_paused p))),
      ((SYNC, sec, W ''Deletes''), dec (flag (sp_sync_deletes p)))])"

abbreviation sync_rows :: "SyncSettings \<Rightarrow> (setting_key \<times> wstr) list" where
  "sync_rows s \<equiv> manager_rows s @ concat (map (pair_rows s) [0..<nat (st_count s)])"

lemma pair_section_ne: "pair_section i \<noteq> MANAGER" "MANAGER \<noteq> pair_section i"
  unfolding pair_section_def MANAGER_def by (rule numbered_ne, simp add: W_Cons is_digit_def)+

lemma pair_section_inj [simp]: "pair_section i = pair_section j \<longleftrightarrow> i = j"
  by (simp add: pair_section_def)

lemma save_sync_rows:
  assumes E: "config_ok E disk used" and s: "idle t" and keys: "distinct (map fst (settings (db t)))"
  shows "wp (transaction E (write_sync_settings E s)) (\<lambda>ok s'. all_or_nothing E disk t ok s' \<and>
    (ok \<longrightarrow> holds_rows SYNC (sync_rows s) (db s')
       \<and> (\<forall>k. fst k \<noteq> SYNC \<longrightarrow> select_setting k (db s') = select_setting k (db t)))) t"
  unfolding write_sync_settings_def
proof (rule transaction_rows [OF E s keys])
  show "quiet disk (save_manager E s)"
    unfolding save_manager_def by (intro quiet) (simp add: quiet_settings [OF E])
  show "quiet disk (all_ok (map (\<lambda>i. save_pair E i (st_pairs s ! i)) [0..<nat (st_count s)]))"
    unfolding save_pair_def by (auto simp: list_all_iff intro!: quiet quiet_settings [OF E])
  show "wp (save_manager E s) (\<lambda>r s'. in_order s' \<and> (r \<longrightarrow> (\<lambda>k. select_setting k (db s')) =
       (\<lambda>k. if fst k = SYNC then None else select_setting k (db s1)) ++ map_of (rev (manager_rows s)))) s1"
    if "in_order s1" for s1
    unfolding save_manager_def by (rule clear_all [OF _ that]) (simp add: manager_rows_def puts_set puts_set_int)
  show "puts (all_ok (map (\<lambda>i. save_pair E i (st_pairs s ! i)) [0..<nat (st_count s)]))
      (concat (map (pair_rows s) [0..<nat (st_count s)]))"
    by (rule puts_map) (unfold save_pair_def pair_rows_def Let_def, rule puts_all, simp add: puts_set puts_set_int)
  show "\<forall>r \<in> set (sync_rows s). fst (fst r) = SYNC"
    by (auto simp: manager_rows_def pair_rows_def Let_def)
  have "distinct (map fst (concat (map (pair_rows s) [0..<nat (st_count s)])))"
    by (rule distinct_blocks) (auto simp: pair_rows_def Let_def)
  then show "distinct (map fst (sync_rows s))"
    by (auto simp: manager_rows_def pair_rows_def Let_def pair_section_ne)
qed

lemma reads_get:
  assumes "answers E"
  shows "reads (store_get E scope sec key [] cap) d
    (True, lstrcpyn (case select_setting (scope, sec, key) d of None \<Rightarrow> [] | Some v \<Rightarrow> c_text v) cap)"
proof -
  have c: "reads (check True) d True" by (simp add: check_def reads_def wp)
  show ?thesis
    unfolding store_get_def
    by (rule reads_bind [OF reads_select_row [OF assms]], unfold option.case prod.case, rule reads_bind [OF c], rule reads_ret)
      (simp add: lstrcpyn_def split: option.splits)
qed

lemma reads_get_row:
  assumes "answers E" "select_setting (scope, sec, key) d = Some v" "length v < cap" "0 \<notin> set v"
  shows "reads (store_get E scope sec key [] cap) d (True, v)"
  using reads_get [OF assms(1), of scope sec key cap d] assms(2-4) by (simp add: c_text_length lstrcpyn_def)

lemma reads_int:
  assumes "answers E" and "select_setting (scope, sec, key) d = Some (dec i)" "0 \<le> i" "i \<le> LONG_MAX"
  shows "reads (store_int E scope sec key n) d i"
proof -
  have l: "LONG_MIN \<le> i" "i \<le> LLONG_MAX" using assms by (simp_all add: LONG_MIN_def LONG_MAX_def LLONG_MAX_def)
  have g: "reads (store_get E scope sec key [] 48) d (True, dec i)"
    by (rule reads_get_row [OF assms(1,2)]) (use dec_plain [OF assms(3)] dec_length_19 [OF assms(3) l(2)] in auto)
  show ?thesis
    unfolding store_int_def by (rule reads_bind [OF g]) (simp add: reads_ret wcstol_dec [OF l(1) assms(4)])
qed

lemma reads_fields:
  assumes E: "answers E"
    and "list_all2 (\<lambda>(wanted, key, cap, put) v. select_setting (SYNC, sec, key) d = Some v \<and> length v < cap
       \<and> 0 \<notin> set v \<and> (wanted \<longrightarrow> v \<noteq> [])) fs vs"
  shows "reads (read_fields E sec fs p) d (True, fold (\<lambda>((wanted, key, cap, put), v). put v) (zip fs vs) p)"
  using assms(2)
proof (induction fs vs arbitrary: p rule: list_all2_induct)
  case Nil
  then show ?case by (simp add: reads_ret)
next
  case (Cons f fs v vs)
  obtain wanted key cap put where f: "f = (wanted, key, cap, put)" by (cases f)
  have g: "reads (store_get E SYNC sec key [] cap) d (True, v)"
    by (rule reads_get_row [OF E]) (use Cons.hyps(1) f in simp_all)
  have "wanted \<longrightarrow> v \<noteq> []" using Cons.hyps(1) f by simp
  then show ?case
    unfolding f read_fields.simps
    by (intro reads_bind [OF g]) (use Cons.IH [of "put v p"] in simp)
qed

definition pair_plain :: "SyncPair \<Rightarrow> bool" where
  \<comment> \<open>its strings are C strings\<close>
  "pair_plain p \<longleftrightarrow> 0 \<notin> set (sp_id p) \<and> 0 \<notin> set (sp_dataset p) \<and> 0 \<notin> set (sp_name p) \<and> 0 \<notin> set (sp_group p)
     \<and> 0 \<notin> set (sp_directory p) \<and> 0 \<notin> set (sp_excludes p)"

definition settings_plain :: "SyncSettings \<Rightarrow> bool" where
  "settings_plain s \<longleftrightarrow> 0 \<notin> set (st_server_instance s) \<and> 0 \<notin> set (st_node_id s) \<and> 0 \<notin> set (st_name s)
     \<and> 0 \<notin> set (st_project s) \<and> 0 \<notin> set (st_broker s) \<and> st_server_id s \<le> LLONG_MAX
     \<and> (\<forall>p \<in> set (st_pairs s). pair_plain p)"

lemma flag_nz: "flag b \<noteq> 0 \<longleftrightarrow> b"
  by (simp add: flag_def)

lemma reads_pair:
  assumes E: "answers E"
    and rows: "\<forall>r \<in> set (pair_rows s i). select_setting (fst r) d = Some (snd r)"
    and ok: "pair_valid (st_pairs s ! i)" and plain: "pair_plain (st_pairs s ! i)"
  shows "reads (read_fields E (pair_section i) pair_fields p) d
      (True, (st_pairs s ! i)\<lparr>sp_paused := sp_paused p, sp_sync_deletes := sp_sync_deletes p\<rparr>)"
    "reads (store_int E SYNC (pair_section i) (W ''Paused'') (-1)) d (flag (sp_paused (st_pairs s ! i)))"
    "reads (store_int E SYNC (pair_section i) (W ''Deletes'') (-1)) d (flag (sp_sync_deletes (st_pairs s ! i)))"
proof -
  let ?p = "st_pairs s ! i"
  let ?vs = "[sp_id ?p, sp_dataset ?p, sp_name ?p, sp_group ?p, sp_directory ?p, sp_excludes ?p]"
  have "sp_id ?p \<noteq> []" "sp_dataset ?p \<noteq> []" using ok by (auto simp: pair_valid_def sync_identifier_def)
  then have l: "list_all2 (\<lambda>(wanted, key, cap, put) v. select_setting (SYNC, pair_section i, key) d = Some v \<and> length v < cap
       \<and> 0 \<notin> set v \<and> (wanted \<longrightarrow> v \<noteq> [])) pair_fields ?vs"
    using ok plain rows by (simp add: pair_fields_def pair_valid_def pair_plain_def terminated_def pair_rows_def Let_def)
  have "fold (\<lambda>((wanted, key, cap, put), v). put v) (zip pair_fields ?vs) p
      = ?p\<lparr>sp_paused := sp_paused p, sp_sync_deletes := sp_sync_deletes p\<rparr>"
    by (simp add: pair_fields_def)
  with reads_fields [OF E l, of p]
  show "reads (read_fields E (pair_section i) pair_fields p) d (True, ?p\<lparr>sp_paused := sp_paused p, sp_sync_deletes := sp_sync_deletes p\<rparr>)"
    by simp
  show "reads (store_int E SYNC (pair_section i) (W ''Paused'') (-1)) d (flag (sp_paused ?p))"
    "reads (store_int E SYNC (pair_section i) (W ''Deletes'') (-1)) d (flag (sp_sync_deletes ?p))"
    by (rule reads_int [OF E]; use rows in \<open>simp add: pair_rows_def Let_def flag_def LONG_MAX_def\<close>)+
qed

lemma reads_pairs:
  assumes E: "answers E"
    and rows: "\<forall>j < i + n. \<forall>r \<in> set (pair_rows s j). select_setting (fst r) d = Some (snd r)"
    and ok: "\<forall>j < i + n. pair_valid (st_pairs s ! j) \<and> pair_plain (st_pairs s ! j)"
    and "i + n \<le> length (st_pairs t)"
  shows "reads (load_pairs E i n t) d (True, t\<lparr>st_pairs := take i (st_pairs t) @ map (\<lambda>j. st_pairs s ! j) [i..<i + n]
      @ drop (i + n) (st_pairs t)\<rparr>)"
  using assms(2-)
proof (induction n arbitrary: i t)
  case 0
  then show ?case by (simp add: reads_ret)
next
  case (Suc n)
  let ?p = "st_pairs s ! i" and ?q = "st_pairs t ! i"
  have r: "\<forall>r \<in> set (pair_rows s i). select_setting (fst r) d = Some (snd r)"
    using Suc.prems(1) [rule_format, of i] by simp
  have ok: "pair_valid ?p" "pair_plain ?p" using Suc.prems(2) by simp_all
  note pair = reads_pair [OF E r ok]
  have i: "i < length (st_pairs t)" using Suc.prems(3) by simp
  let ?t = "t\<lparr>st_pairs := (st_pairs t)[i := ?p]\<rparr>"
  have "take (Suc i) (st_pairs ?t) @ map (\<lambda>j. st_pairs s ! j) [Suc i..<Suc i + n] @ drop (Suc i + n) (st_pairs ?t)
      = take i (st_pairs t) @ map (\<lambda>j. st_pairs s ! j) [i..<i + Suc n] @ drop (i + Suc n) (st_pairs t)"
    using i by (simp add: take_Suc_conv_app_nth upt_conv_Cons del: upt_Suc)
  then have eq: "?t\<lparr>st_pairs := take (Suc i) (st_pairs ?t) @ map (\<lambda>j. st_pairs s ! j) [Suc i..<Suc i + n]
      @ drop (Suc i + n) (st_pairs ?t)\<rparr> = t\<lparr>st_pairs := take i (st_pairs t)
      @ map (\<lambda>j. st_pairs s ! j) [i..<i + Suc n] @ drop (i + Suc n) (st_pairs t)\<rparr>"
    by simp
  have p: "\<forall>j < Suc i + n. \<forall>r \<in> set (pair_rows s j). select_setting (fst r) d = Some (snd r)"
    and q: "\<forall>j < Suc i + n. pair_valid (st_pairs s ! j) \<and> pair_plain (st_pairs s ! j)"
    and bound: "Suc i + n \<le> length (st_pairs ?t)"
    using Suc.prems by simp_all
  note ih = Suc.IH [of "Suc i" ?t, OF p q bound, unfolded eq]
  have f: "\<not> (flag a < 0 \<or> flag a > 1 \<or> flag b < 0 \<or> flag b > 1)" for a b by (simp add: flag_def)
  show ?case
    unfolding load_pairs.simps
    by (rule reads_bind [OF pair(1)], unfold Let_def fst_conv snd_conv simp_thms if_False,
        rule reads_bind [OF pair(2)], rule reads_bind [OF pair(3)],
        subst if_not_P [OF f], use ih in \<open>simp add: flag_nz del: upt_Suc\<close>)
qed

definition saved_settings :: "SyncSettings \<Rightarrow> SyncSettings" where
  \<comment> \<open>the pairs in use, in an array that was zeroed\<close>
  "saved_settings s = s\<lparr>st_pairs := pair_list s @ replicate (SYNC_PAIR_LIMIT - nat (st_count s)) zero_pair\<rparr>"

lemma valid_saved_settings:
  assumes v: "sync_settings_valid (Some s)" and wf: "settings_wf s"
  shows "sync_settings_valid (Some (saved_settings s))"
proof -
  have wf': "settings_wf (saved_settings s)" using wf by (auto simp: settings_wf_def saved_settings_def pair_list_def)
  have "pair_list (saved_settings s) = pair_list s"
    using wf nat_le_iff [of "st_count s" SYNC_PAIR_LIMIT] by (simp add: pair_list_def saved_settings_def settings_wf_def)
  moreover have "instance_ok (saved_settings s) = instance_ok s" "settings_fields_valid (saved_settings s) = settings_fields_valid s"
    by (simp_all add: instance_ok_def settings_fields_valid_def saved_settings_def)
  ultimately show ?thesis using v unfolding settings_valid_iff [OF wf] settings_valid_iff [OF wf'] by simp
qed

lemma reads_manager:
  assumes E: "answers E" and rows: "holds_rows SYNC (sync_rows s) d"
    and v: "sync_settings_valid (Some s)" and wf: "settings_wf s" and plain: "settings_plain s"
    and t: "t = sync_settings_default\<lparr>st_server_instance := st_server_instance s\<rparr>"
  shows "reads (load_manager E t) d (True, saved_settings s)"
proof -
  note iff = v [unfolded settings_valid_iff [OF wf] settings_fields_valid_def instance_ok_def]
  let ?n = "nat (st_count s)"
  note sel = holds_rows_select [OF rows]
  have m: "select_setting (SYNC, MANAGER, W ''Count'') d = Some (dec (st_count s))"
    "select_setting (SYNC, MANAGER, W ''Role'') d = Some (dec (st_role s))"
    "select_setting (SYNC, MANAGER, W ''Interval'') d = Some (dec (st_interval s))"
    "select_setting (SYNC, MANAGER, W ''Registered'') d = Some (dec (flag (st_registered s)))"
    "select_setting (SYNC, MANAGER, W ''Server'') d = Some (dec (st_server_id s))"
    "select_setting (SYNC, MANAGER, W ''Node'') d = Some (st_node_id s)"
    "select_setting (SYNC, MANAGER, W ''Name'') d = Some (st_name s)"
    "select_setting (SYNC, MANAGER, W ''Project'') d = Some (st_project s)"
    "select_setting (SYNC, MANAGER, W ''Broker'') d = Some (st_broker s)"
    by (rule sel; simp add: manager_rows_def)+
  have b: "0 \<le> st_count s" "st_count s \<le> 16" "0 \<le> st_role s" "st_role s < 16" "10 \<le> st_interval s" "st_interval s \<le> 86400"
    "0 \<le> st_server_id s" "st_server_id s \<le> LLONG_MAX" "st_version s = 1" "st_project s \<noteq> []" "st_broker s \<noteq> []"
    using iff plain by (auto simp: sync_limits settings_plain_def absolute_unix_def not_le not_less split: list.splits)
  have int: "reads (store_int E SYNC MANAGER (W ''Count'') (-1)) d (st_count s)"
    "reads (store_int E SYNC MANAGER (W ''Role'') (-1)) d (st_role s)"
    "reads (store_int E SYNC MANAGER (W ''Interval'') (-1)) d (st_interval s)"
    "reads (store_int E SYNC MANAGER (W ''Registered'') (-1)) d (flag (st_registered s))"
    by (rule reads_int [OF E]; use m b in \<open>simp add: LONG_MAX_def flag_def\<close>)+
  have server: "reads (store_get E SYNC MANAGER (W ''Server'') [] 32) d (True, dec (st_server_id s))"
    by (rule reads_get_row [OF E m(5)]) (use dec_plain [OF b(7)] dec_length_19 [OF b(7,8)] in auto)
  have num: "wcstoll (dec (st_server_id s)) = \<lparr>p_value = st_server_id s, p_rest = [], p_range = False\<rparr>"
    using b(7,8) by (intro wcstoll_dec) (simp_all add: LLONG_MIN_def)
  let ?vs = "[st_node_id s, st_name s, st_project s, st_broker s]"
  have l: "list_all2 (\<lambda>(wanted, key, cap, put) v. select_setting (SYNC, MANAGER, key) d = Some v \<and> length v < cap
       \<and> 0 \<notin> set v \<and> (wanted \<longrightarrow> v \<noteq> [])) manager_fields ?vs"
    using m(6-9) iff plain b(10,11) by (simp add: manager_fields_def settings_plain_def terminated_def)
  let ?t = "t\<lparr>st_count := st_count s, st_role := st_role s, st_interval := st_interval s, st_registered := st_registered s,
      st_server_id := st_server_id s\<rparr>"
  let ?u = "?t\<lparr>st_node_id := st_node_id s, st_name := st_name s, st_project := st_project s, st_broker := st_broker s\<rparr>"
  have fields: "reads (read_fields E MANAGER manager_fields ?t) d (True, ?u)"
    using reads_fields [OF E l, of ?t] by (simp add: manager_fields_def)
  have len: "0 + ?n \<le> length (st_pairs ?u)" using b(1,2) t
    by (simp add: sync_settings_default_def zero_settings_def sync_limits)
  have prs: "\<forall>j < 0 + ?n. \<forall>r \<in> set (pair_rows s j). select_setting (fst r) d = Some (snd r)"
    using sel by (fastforce intro!: sel)
  have n: "?n \<le> length (st_pairs s)" using wf by (auto simp: settings_wf_def)
  have ok: "\<forall>j < 0 + ?n. pair_valid (st_pairs s ! j) \<and> pair_plain (st_pairs s ! j)"
    using iff plain n by (auto simp: settings_plain_def pairs_ok_def pair_list_def list_all_length)
  have cells: "map (\<lambda>j. st_pairs s ! j) [0..<?n] = take ?n (st_pairs s)"
    using n by (intro nth_equalityI) simp_all
  have same: "?u\<lparr>st_pairs := take 0 (st_pairs ?u) @ map (\<lambda>j. st_pairs s ! j) [0..<0 + ?n] @ drop (0 + ?n) (st_pairs ?u)\<rparr>
      = saved_settings s"
    using b(9) t n cells by (simp add: saved_settings_def pair_list_def sync_settings_default_def zero_settings_def)
  note pairs = reads_pairs [OF E prs ok len, unfolded same]
  have cnt: "st_count ?u = st_count s" by simp
  have flags: "\<not> (flag a < 0 \<or> flag a > 1)" "(flag a = 1) = a" for a by (simp_all add: flag_def)
  have nofail: "\<not> (dec (st_server_id s) = [])" "\<not> (st_count s < 0 \<or> st_count s > int SYNC_PAIR_LIMIT)"
    using b(1,2) by (simp_all add: sync_limits)
  show ?thesis
    unfolding load_manager_def
    by (rule reads_bind [OF int(1)], rule reads_bind [OF int(2)], rule reads_bind [OF int(3)], unfold Let_def,
        rule reads_bind [OF int(4)], subst if_not_P [OF flags(1)], rule reads_bind [OF server],
        simp only: fst_conv snd_conv nofail(1) num parsed.simps simp_thms if_False flags(2),
        rule reads_bind [OF fields], simp only: fst_conv snd_conv simp_thms if_False cnt nofail(2),
        rule reads_bind [OF pairs], rule reads_ret, simp add: valid_saved_settings [OF v wf])
qed

lemma reads_sync_settings:
  assumes E: "answers E" and rows: "holds_rows SYNC (sync_rows s) d"
    and v: "sync_settings_valid (Some s)" and wf: "settings_wf s" and plain: "settings_plain s"
  shows "reads (sync_settings_load E) d (True, saved_settings s)"
proof -
  note sel = holds_rows_select [OF rows]
  have one: "dec 1 = W ''1''" by code_simp
  have m: "select_setting (SYNC, MANAGER, W ''Version'') d = Some (W ''1'')"
    "select_setting (SYNC, MANAGER, W ''Instance'') d = Some (st_server_instance s)"
    by (rule sel; simp add: manager_rows_def one)+
  have version: "reads (store_get E SYNC MANAGER (W ''Version'') [] 32) d (True, W ''1'')"
    by (rule reads_get_row [OF E m(1)]) (simp_all add: W_Cons)
  have l: "list_all2 (\<lambda>(wanted, key, cap, put) v. select_setting (SYNC, MANAGER, key) d = Some v \<and> length v < cap
       \<and> 0 \<notin> set v \<and> (wanted \<longrightarrow> v \<noteq> [])) instance_field [st_server_instance s]"
    using m(2) v [unfolded settings_valid_iff [OF wf] instance_ok_def] plain
    by (simp add: instance_field_def settings_plain_def terminated_def)
  let ?t = "sync_settings_default\<lparr>st_server_instance := st_server_instance s\<rparr>"
  have field: "reads (read_fields E MANAGER instance_field sync_settings_default) d (True, ?t)"
    using reads_fields [OF E l, of sync_settings_default] by (simp add: instance_field_def)
  have ne: "W ''1'' \<noteq> []" by (simp add: W_Cons)
  show ?thesis
    unfolding sync_settings_load_def Let_def
    by (rule reads_bind [OF version], simp only: fst_conv snd_conv ne simp_thms if_False, rule reads_bind [OF field],
        simp only: fst_conv snd_conv simp_thms if_False, rule reads_manager [OF E rows v wf plain refl])
qed


definition one_pair_settings :: SyncSettings where
  "one_pair_settings = sync_settings_default\<lparr>st_count := 1, st_server_id := 7,
     st_pairs := \<lparr>sp_id = W ''p'', sp_dataset = W ''d'', sp_name = W ''n'', sp_group = W ''g'', sp_directory = W ''C:'',
       sp_excludes = W ''*.tmp'', sp_paused = True, sp_sync_deletes = False\<rparr> # replicate 15 zero_pair\<rparr>"


subsection \<open>Importing the older document\<close>

definition json_at :: "string list \<Rightarrow> json \<Rightarrow> json option" where
  \<comment> \<open>the value at \<open>$.a.b\<close>\<close>
  "json_at keys j = foldl (\<lambda>v key. Option.bind v (member_of key)) (Some j) keys"

definition json_element :: "string \<Rightarrow> nat \<Rightarrow> json \<Rightarrow> json option" where
  \<comment> \<open>the value at \<open>$.folders[i].key\<close>\<close>
  "json_element key i j = (case member_of ''folders'' j of
     Some (JArray xs) \<Rightarrow> if i < length xs then member_of key (xs ! i) else None | _ \<Rightarrow> None)"

definition json_wide :: "('w, 'y) store_env_scheme \<Rightarrow> json option \<Rightarrow> nat \<Rightarrow> ('w, 'z, wstr option) store_cmd" where
  \<comment> \<open>the text at a path, if there is one, it fits and holds no NUL\<close>
  "json_wide E v cap = do {
     prepared \<leftarrow> lift (sql_ok E);
     if \<not> prepared then ret None
     else do {
       stepped \<leftarrow> lift (sql_ok E);
       ret (case v of Some (JText t) \<Rightarrow> if stepped \<and> length t * 2 < cap * 2 \<and> 0 \<notin> set t then Some t else None | _ \<Rightarrow> None) } }"

fun read_texts ::
    "('w, 'y) store_env_scheme \<Rightarrow> (json option \<times> nat \<times> (wstr \<Rightarrow> 'p \<Rightarrow> 'p)) list \<Rightarrow> 'p \<Rightarrow> ('w, 'z, 'p option) store_cmd" where
  "read_texts E [] p = ret (Some p)"
| "read_texts E ((v, cap, put) # fs) p = do {
     t \<leftarrow> json_wide E v cap;
     case t of None \<Rightarrow> ret None | Some t \<Rightarrow> read_texts E fs (put t p) }"

definition folder_texts :: "json \<Rightarrow> nat \<Rightarrow> (json option \<times> nat \<times> (wstr \<Rightarrow> SyncPair \<Rightarrow> SyncPair)) list" where
  "folder_texts j i =
     [(json_element ''id'' i j, SYNC_ID_CAP, \<lambda>v p. p\<lparr>sp_id := v\<rparr>),
      (json_element ''dataset'' i j, SYNC_ID_CAP, \<lambda>v p. p\<lparr>sp_dataset := v\<rparr>),
      (json_element ''name'' i j, SYNC_NAME_CAP, \<lambda>v p. p\<lparr>sp_name := v\<rparr>),
      (json_element ''group_name'' i j, SYNC_NAME_CAP, \<lambda>v p. p\<lparr>sp_group := v\<rparr>),
      (json_element ''path'' i j, SYNC_PATH_CAP, \<lambda>v p. p\<lparr>sp_directory := v\<rparr>)]"

definition json_rows :: "json option \<Rightarrow> json list" where
  \<comment> \<open>\<open>json_each\<close>: the elements of an array, the values of an object, or the value itself\<close>
  "json_rows v = (case v of None \<Rightarrow> [] | Some (JArray xs) \<Rightarrow> xs | Some (JObject ms) \<Rightarrow> map snd ms | Some x \<Rightarrow> [x])"

fun join_excludes :: "('w, 'y) store_env_scheme \<Rightarrow> json list \<Rightarrow> wstr \<Rightarrow> ('w, 'z, wstr option) store_cmd" where
  \<comment> \<open>a step that fails ends the loop as the last row does\<close>
  "join_excludes E [] text = do { lift (sql_ok E); ret (Some text) }"
| "join_excludes E (v # vs) text = do {
     stepped \<leftarrow> lift (sql_ok E);
     if \<not> stepped then ret (Some text)
     else (case v of
       JText t \<Rightarrow>
         if 0 \<notin> set t \<and> 59 \<notin> set t \<and> length text + length t + 2 < SYNC_FILTER_CAP
         then join_excludes E vs (text @ (if text = [] then [] else [59]) @ t) else ret None
     | _ \<Rightarrow> ret None) }"

definition import_pair :: "('w, 'y) store_env_scheme \<Rightarrow> json \<Rightarrow> nat \<Rightarrow> SyncPair \<Rightarrow> ('w, 'z, SyncPair option) store_cmd" where
  "import_pair E j i p = do {
     r \<leftarrow> read_texts E (folder_texts j i) p;
     case r of None \<Rightarrow> ret None | Some p \<Rightarrow> do {
     prepared \<leftarrow> lift (sql_ok E);
     if \<not> prepared then ret None else do {
     stepped \<leftarrow> lift (sql_ok E);
     case (stepped, json_element ''sync_deletes'' i j) of
       (True, Some (JBool deletes)) \<Rightarrow> do {
         let p = p\<lparr>sp_paused := True, sp_sync_deletes := deletes\<rparr>;
         prepared \<leftarrow> lift (sql_ok E);
         if \<not> prepared then ret None
         else do {
           x \<leftarrow> join_excludes E (json_rows (json_element ''excludes'' i j)) (sp_excludes p);
           ret (case x of None \<Rightarrow> None | Some x \<Rightarrow> Some (p\<lparr>sp_excludes := x\<rparr>)) } }
     | _ \<Rightarrow> ret None } } }"

fun import_pairs :: "('w, 'y) store_env_scheme \<Rightarrow> json \<Rightarrow> nat \<Rightarrow> nat \<Rightarrow> SyncSettings \<Rightarrow> ('w, 'z, SyncSettings option) store_cmd" where
  "import_pairs E j i 0 s = ret (Some s)"
| "import_pairs E j i (Suc n) s = do {
     p \<leftarrow> import_pair E j i (st_pairs s ! i);
     case p of None \<Rightarrow> ret None
     | Some p \<Rightarrow> import_pairs E j (Suc i) n (s\<lparr>st_pairs := (st_pairs s)[i := p]\<rparr>) }"

definition version_one :: "(string \<Rightarrow> bool) \<Rightarrow> json option \<Rightarrow> bool" where
  \<comment> \<open>\<open>json_type IS NULL OR json_extract=1\<close>; \<open>real_one\<close>: the text of a real number is 1\<close>
  "version_one real_one v = (case v of None \<Rightarrow> True | Some (JInt i) \<Rightarrow> i = 1 | Some (JBool b) \<Rightarrow> b
     | Some (JReal t) \<Rightarrow> real_one t | _ \<Rightarrow> False)"

definition import_head :: "(string \<Rightarrow> bool) \<Rightarrow> json \<Rightarrow> (nat \<times> bool) option" where
  \<comment> \<open>the folders and whether the device is registered, if the document has the form of the first query\<close>
  "import_head real_one j = (case (member_of ''folders'' j, json_at [''identity'', ''registered''] j) of
     (Some (JArray xs), Some (JBool b)) \<Rightarrow> if version_one real_one (member_of ''version'' j) then Some (length xs, b) else None
   | _ \<Rightarrow> None)"

definition import_text :: "('w, 'y) store_env_scheme \<Rightarrow> wstr \<Rightarrow> ('w, 'z, byte list option) store_cmd" where
  "import_text E file = do {
     r \<leftarrow> lift (f_read E file);
     ret (case r of
            ReadOpened (Some n) (Some bytes) \<Rightarrow>
              if n > 0 \<and> n < 1024 * 1024 \<and> 0 \<notin> set (skip_bom bytes) \<and> skip_bom bytes \<noteq> [] \<and> utf8_valid E (skip_bom bytes)
              then Some (skip_bom bytes) else None
          | _ \<Rightarrow> None) }"

definition import_manager ::
    "('w, 'y) store_env_scheme \<Rightarrow> json \<Rightarrow> nat \<Rightarrow> SyncSettings \<Rightarrow> ('w, 'z, SyncSettings option) store_cmd" where
  "import_manager E j n s =
     (if n > SYNC_PAIR_LIMIT then ret None
      else do {
        r \<leftarrow> read_texts E [(json_at [''identity'', ''node_id''] j, SYNC_ID_CAP, \<lambda>v s. s\<lparr>st_node_id := v\<rparr>),
               (json_at [''identity'', ''name''] j, SYNC_NAME_CAP, \<lambda>v s. s\<lparr>st_name := v\<rparr>)] s;
        case r of None \<Rightarrow> ret None | Some s \<Rightarrow> do {
        role \<leftarrow> json_wide E (json_at [''identity'', ''role''] j) 8;
        if role \<noteq> Some (W ''A'') \<and> role \<noteq> Some (W ''B'') then ret None
        else do {
          r \<leftarrow> read_texts E [(json_at [''connection'', ''remote_project''] j, SYNC_PATH_CAP, \<lambda>v s. s\<lparr>st_project := v\<rparr>),
                 (json_at [''connection'', ''remote_root''] j, SYNC_PATH_CAP, \<lambda>v s. s\<lparr>st_broker := v\<rparr>)] s;
          case r of None \<Rightarrow> ret None | Some s \<Rightarrow> do {
          let s = s\<lparr>st_role := (if role = Some (W ''B'') then 1 else 0)\<rparr>;
          hint \<leftarrow> json_wide E (member_of ''nova_server_id'' j) 32;
          ret (case hint of None \<Rightarrow> Some s
               | Some t \<Rightarrow> let p = wcstoll t in
                   if t \<noteq> [] \<and> p_rest p = [] \<and> \<not> p_range p \<and> p_value p > 0 then Some (s\<lparr>st_server_id := p_value p\<rparr>) else None) } } } })"

definition sync_settings_import ::
    "('w, 'y) store_env_scheme \<Rightarrow> (string \<Rightarrow> bool) \<Rightarrow> wstr \<Rightarrow> ('w, 'z, SyncSettings option) store_cmd" where
  \<comment> \<open>what is assigned through the pointer, \<open>None\<close> on failure\<close>
  "sync_settings_import E real_one file = do {
     t \<leftarrow> import_text E file;
     case t of None \<Rightarrow> ret None | Some t \<Rightarrow> do {
     opened \<leftarrow> lift (sql_ok E);
     if \<not> opened then ret None else do {
     prepared \<leftarrow> lift (sql_ok E);
     if \<not> prepared then ret None else do {
     stepped \<leftarrow> lift (sql_ok E);
     case (stepped, Option.bind (json_parse E t) (import_head real_one)) of
       (True, Some (n, registered)) \<Rightarrow> do {
         let j = the (json_parse E t);
         let s = sync_settings_default\<lparr>st_count := int n, st_registered := registered\<rparr>;
         m \<leftarrow> import_manager E j n s;
         case m of None \<Rightarrow> ret None | Some s \<Rightarrow> do {
         r \<leftarrow> import_pairs E j 0 n s;
         ret (case r of None \<Rightarrow> None | Some s \<Rightarrow> if sync_settings_valid (Some s) then Some s else None) } }
     | _ \<Rightarrow> ret None } } } }"

lemma import_keeps_world:
  fixes disk :: "'w \<Rightarrow> wstr \<Rightarrow> byte list option"
  assumes E: "store_ok E disk used"
  defines "unchanged \<equiv> (\<lambda>s :: ('w, 'z) Store_scheme. (db s, disk (world s)))"
  shows "keeps unchanged (sync_settings_import E real_one file)"
proof -
  note C = store_config [OF E]
  have lift: "keeps unchanged (lift f)" if "\<And>w r w'. f w = (r, w') \<Longrightarrow> disk w' = disk w" for f :: "'w \<Rightarrow> 'x \<times> 'w"
    using that by (auto simp: keeps_def wp_lift unchanged_def)
  have sql: "keeps unchanged (lift (sql_ok E))" by (rule lift) (simp add: config_sql [OF C])
  have read: "keeps unchanged (lift (f_read E p))" for p
    by (rule lift) (use files_read [OF config_files [OF C]] in blast)
  have wide: "keeps unchanged (json_wide E v cap)" for v cap
    unfolding json_wide_def by (intro keeps sql)
  have texts: "keeps unchanged (read_texts E fs p)" for fs and p :: 'p
    by (induction fs arbitrary: p) (auto intro!: keeps wide)
  have join: "keeps unchanged (join_excludes E vs x)" for vs x
    by (induction vs arbitrary: x) (auto split: json.splits intro!: keeps sql)
  have pair: "keeps unchanged (import_pair E j i p)" for j i p
    unfolding import_pair_def Let_def
    by (intro keeps sql texts; auto split: json.splits bool.splits option.splits intro!: keeps sql join)
  have pairs: "keeps unchanged (import_pairs E j i n v)" for j i n v
    by (induction n arbitrary: i v) (auto intro!: keeps pair)
  show ?thesis
    unfolding sync_settings_import_def import_text_def import_manager_def Let_def
    by (intro keeps sql read texts pairs wide; auto split: bool.splits option.splits intro!: keeps sql texts wide pairs)
qed

lemma import_pair_paused: "yields (\<lambda>r. \<forall>v. r = Some v \<longrightarrow> sp_paused v) (import_pair E j i p)"
  unfolding import_pair_def Let_def
  by (intro yields; auto split: json.splits option.splits intro!: yields)

lemma import_pairs_paused:
  assumes "i + n \<le> length (st_pairs v)" and "\<forall>k < i. sp_paused (st_pairs v ! k)"
  shows "yields (\<lambda>r. \<forall>u. r = Some u \<longrightarrow> length (st_pairs u) = length (st_pairs v) \<and> st_count u = st_count v
     \<and> (\<forall>k < i + n. sp_paused (st_pairs u ! k))) (import_pairs E j i n v)"
  using assms
proof (induction n arbitrary: i v)
  case 0
  then show ?case by (auto intro: yields)
next
  case (Suc n)
  show ?case
    unfolding import_pairs.simps
    by (rule yields_then [OF import_pair_paused], rule yields_option, (rule yields, simp), rule yields_mono [OF Suc.IH])
      (use Suc.prems in \<open>auto simp: nth_list_update less_Suc_eq\<close>)
qed

lemma import_manager_frame:
  "yields (\<lambda>r. \<forall>u. r = Some u \<longrightarrow> st_pairs u = st_pairs v \<and> st_count u = st_count v \<and> n \<le> SYNC_PAIR_LIMIT) (import_manager E j n v)"
proof -
  have texts: "yields (\<lambda>r. \<forall>u. r = Some u \<longrightarrow> st_pairs u = st_pairs w \<and> st_count u = st_count w) (read_texts E fs w)"
    if "\<forall>(x, cap, put) \<in> set fs. \<forall>t w. st_pairs (put t w) = st_pairs w \<and> st_count (put t w) = st_count w" for fs w
    using that
  proof (induction fs arbitrary: w)
    case (Cons f fs)
    obtain x cap put where f: "f = (x, cap, put)" by (cases f)
    then show ?case
      using Cons.prems unfolding f read_texts.simps
      by (intro yields) (auto intro!: yields_mono [OF Cons.IH])
  qed (simp add: yields)
  show ?thesis
    unfolding import_manager_def
    apply (rule yields_if, rule yields, simp)
    apply (rule yields_then [OF texts], simp)
    apply (rule yields_option, rule yields, simp, rule yields_bind, rule yields_if, rule yields, simp)
    apply (rule yields_then [OF texts], simp)
    apply (rule yields_option, rule yields, simp, rule yields_let, rule yields_bind, rule yields)
    apply (auto simp: Let_def split: option.splits if_splits)
    done
qed

text \<open>Importing the older synchronisation document changes nothing, neither the database
  nor any file, and what it returns can be stored as it is: it satisfies every check of the settings,
  and each of its pairs is paused, so that nothing is synchronised before the user resumes it.\<close>

theorem sync_import_is_harmless:
  assumes "store_ok E disk used" and "run_state (sync_settings_import E real_one file) s = (r, s')"
  shows "db s' = db s \<and> disk (world s') = disk (world s)
    \<and> (case r of None \<Rightarrow> True | Some v \<Rightarrow> settings_wf v \<and> sync_settings_valid (Some v)
         \<and> (\<forall>i < nat (st_count v). sp_paused (st_pairs v ! i)))"
proof -
  have "yields (\<lambda>r. \<forall>v. r = Some v \<longrightarrow> settings_wf v \<and> sync_settings_valid (Some v)
      \<and> (\<forall>i < nat (st_count v). sp_paused (st_pairs v ! i))) (sync_settings_import E real_one file)"
    unfolding sync_settings_import_def Let_def
    apply (rule yields_bind, rule yields_option, rule yields, simp, rule yields_bind, rule yields_if, rule yields, simp)
    apply (rule yields_bind, rule yields_if, rule yields, simp, rule yields_bind)
    apply (rule yields_prod, rule yields_bool, rule yields_option, rule yields, simp, rule yields_prod)
    apply (rule yields_then [OF import_manager_frame], rule yields_option, rule yields, simp)
    apply (rule yields_then [OF import_pairs_paused])
    apply (auto intro!: yields simp: settings_wf_def sync_settings_default_def zero_settings_def split: option.splits if_splits)
    done
  from yieldsD [OF this assms(2)] keepsD [OF import_keeps_world [OF assms(1)] assms(2)]
  show ?thesis by (auto split: option.splits)
qed

definition old_document :: json where
  "old_document = JObject
     [(W ''identity'', JObject [(W ''registered'', JBool False), (W ''node_id'', JText (W ''n'')), (W ''name'', JText (W ''pc'')),
        (W ''role'', JText (W ''B''))]),
      (W ''connection'', JObject [(W ''remote_project'', JText (W ''/p'')), (W ''remote_root'', JText (W ''/p/r''))]),
      (W ''folders'', JArray [JObject [(W ''id'', JText (W ''i'')), (W ''dataset'', JText (W ''d'')), (W ''name'', JText (W ''x'')),
        (W ''group_name'', JText (W ''g'')), (W ''path'', JText (W ''C:'')), (W ''sync_deletes'', JBool True),
        (W ''excludes'', JArray [JText (W ''a''), JText (W ''b'')])]])]"

definition old_store :: "nat store_env" where
  "old_store = rest_store\<lparr>json_parse := (\<lambda>t. Some old_document)\<rparr>"

lemma old_store_ok: "store_ok old_store rest_disk (\<lambda>w. {..<w})"
  by (auto simp: store_ok_def config_ok_def files_ok_def attributes_ok_def read_ok_def create_ok_def write_ok_def
      flush_ok_def delete_ok_def copy_ok_def replace_ok_def move_ok_def nonce_ok_def old_store_def rest_store_def rest_disk_def touches_def)

lemma run_lift_old [simp]: "run_state (lift (sql_ok old_store)) s = (True, s)"
  "run_state (lift (f_read old_store p)) s = (ReadOpened (Some 3) (Some [123, 125, 10]), s)"
  by (simp_all add: lift_def old_store_def rest_store_def)

lemma run_wide_old [simp]: "run_state (json_wide old_store v cap) s =
    (case v of Some (JText t) \<Rightarrow> if length t * 2 < cap * 2 \<and> 0 \<notin> set t then Some t else None | _ \<Rightarrow> None, s)"
  by (cases v) (simp_all add: json_wide_def split: json.splits)

lemma old_head: "import_head (\<lambda>t. False) old_document = Some (1, False)"
  by code_simp

lemma old_manager: "run_state (import_manager old_store old_document 1 s) t
   = (Some (s\<lparr>st_node_id := W ''n'', st_name := W ''pc'', st_project := W ''/p'', st_broker := W ''/p/r'', st_role := 1\<rparr>), t)"
  by (simp add: import_manager_def old_document_def json_at_def member_of_def SYNC_PAIR_LIMIT_def sync_limits W_Cons Let_def)

lemma old_pair: "run_state (import_pair old_store old_document 0 zero_pair) t
   = (Some \<lparr>sp_id = W ''i'', sp_dataset = W ''d'', sp_name = W ''x'', sp_group = W ''g'', sp_directory = W ''C:'',
        sp_excludes = W ''a;b'', sp_paused = True, sp_sync_deletes = True\<rparr>, t)"
  by (simp add: import_pair_def old_document_def json_element_def folder_texts_def json_rows_def member_of_def sync_limits
      W_Cons Let_def zero_pair_def)

definition old_settings :: SyncSettings where
  "old_settings = sync_settings_default\<lparr>st_count := 1, st_node_id := W ''n'', st_name := W ''pc'', st_project := W ''/p'',
     st_broker := W ''/p/r'', st_role := 1,
     st_pairs := \<lparr>sp_id = W ''i'', sp_dataset = W ''d'', sp_name = W ''x'', sp_group = W ''g'', sp_directory = W ''C:'',
        sp_excludes = W ''a;b'', sp_paused = True, sp_sync_deletes = True\<rparr> # replicate 15 zero_pair\<rparr>"

lemma old_import: "run_state (sync_settings_import old_store (\<lambda>t. False) (W ''f'')) t = (Some old_settings, t)"
proof -
  have valid: "sync_settings_valid (Some old_settings)" by code_simp
  have pairs: "replicate SYNC_PAIR_LIMIT zero_pair = zero_pair # replicate 15 zero_pair"
    by (simp add: SYNC_PAIR_LIMIT_def numeral_eq_Suc)
  have parse: "json_parse old_store x = Some old_document" "utf8_valid old_store x" for x
    by (simp_all add: old_store_def rest_store_def)
  show ?thesis
    using valid
    by (simp add: sync_settings_import_def import_text_def skip_bom_def parse old_head old_manager [unfolded One_nat_def] old_pair
        pairs Let_def old_settings_def sync_settings_default_def zero_settings_def)
qed

theorem sync_import_is_harmless_witness:
  "\<exists>v s'. run_state (sync_settings_import old_store (\<lambda>t. False) (W ''f'')) rest_session = (Some v, s')
     \<and> db s' = empty_db \<and> sync_settings_valid (Some v) \<and> sp_paused (st_pairs v ! 0) \<and> sp_excludes (st_pairs v ! 0) = W ''a;b''"
proof -
  note r = old_import [of rest_session]
  have "db rest_session = db rest_session \<and> sync_settings_valid (Some old_settings)
      \<and> (\<forall>i < nat (st_count old_settings). sp_paused (st_pairs old_settings ! i))"
    using sync_import_is_harmless [OF old_store_ok r] by simp
  then have "sync_settings_valid (Some old_settings)" "sp_paused (st_pairs old_settings ! 0)"
    by (simp_all add: old_settings_def)
  with r show ?thesis by (simp add: old_settings_def)
qed

end
