(* ===== verification/Bytes.thy ===== *)
theory Bytes
  imports Prelude
begin

text \<open>
  Numbers and texts as bytes: the little-endian fields of the credential record and the big- and
  little-endian counts of the synchronisation packets, each with its round trip.
\<close>

lemma unat_byte: "unat (b :: byte) < 256"
  using unsigned_less [of b] by simp

lemma unat_wchar: "unat (c :: wchar) < 65536"
  using unsigned_less [of c] by simp

fun le_bytes :: "nat \<Rightarrow> nat \<Rightarrow> byte list" where
  "le_bytes 0 v = []"
| "le_bytes (Suc n) v = of_nat v # le_bytes n (v div 256)"

fun le_value :: "byte list \<Rightarrow> nat" where
  "le_value [] = 0"
| "le_value (b # bs) = unat b + 256 * le_value bs"

lemma length_le_bytes [simp]: "length (le_bytes n v) = n"
  by (induction n arbitrary: v) simp_all

lemma le_value_le_bytes: "le_value (le_bytes n v) = v mod 256 ^ n"
proof (induction n arbitrary: v)
  case (Suc n)
  have "unat (of_nat v :: byte) = v mod 256" by (simp add: unat_of_nat)
  then show ?case using Suc by (simp add: mod_mult2_eq)
qed simp

lemma le_bytes_le_value: "le_bytes (length bs) (le_value bs) = bs"
proof (induction bs)
  case (Cons b bs)
  have "(unat b + 256 * le_value bs) div 256 = le_value bs" using unat_byte [of b] by simp
  moreover have "(of_nat (unat b + 256 * le_value bs) :: byte) = b"
  proof -
    have z: "(256 :: byte) = 0" by simp
    have "(256 :: byte) * x = 0" for x by (subst z) simp
    then show ?thesis by simp
  qed
  ultimately show ?case using Cons by simp
qed simp

lemma le_value_less: "le_value bs < 256 ^ length bs"
proof (induction bs)
  case (Cons b bs)
  have "unat b < 256" using unat_byte [of b] by simp
  then show ?case using Cons by simp
qed simp

definition be_bytes :: "nat \<Rightarrow> nat \<Rightarrow> byte list" where "be_bytes n v = rev (le_bytes n v)"
definition be_value :: "byte list \<Rightarrow> nat" where "be_value bs = le_value (rev bs)"

lemma length_be_bytes [simp]: "length (be_bytes n v) = n"
  by (simp add: be_bytes_def)

lemma be_value_be_bytes: "v < 256 ^ n \<Longrightarrow> be_value (be_bytes n v) = v"
  by (simp add: be_bytes_def be_value_def le_value_le_bytes)

lemma be_bytes_be_value: "be_bytes (length bs) (be_value bs) = bs"
  using le_bytes_le_value [of "rev bs"] by (simp add: be_bytes_def be_value_def)

subsection \<open>Arrays of wide characters\<close>

definition wide_bytes :: "wchar list \<Rightarrow> byte list" where
  "wide_bytes cs = concat (map (\<lambda>c. le_bytes 2 (unat c)) cs)"

fun wide_of :: "byte list \<Rightarrow> wchar list" where
  "wide_of (a # b # bs) = of_nat (le_value [a, b]) # wide_of bs"
| "wide_of _ = []"

lemma length_wide_bytes [simp]: "length (wide_bytes cs) = 2 * length cs"
  by (induction cs) (simp_all add: wide_bytes_def)

lemma length_wide_of [simp]: "length (wide_of bs) = length bs div 2"
  by (induction bs rule: wide_of.induct) simp_all

lemma wide_of_wide_bytes [simp]: "wide_of (wide_bytes cs) = cs"
proof (induction cs)
  case (Cons c cs)
  have "le_value (le_bytes 2 (unat c)) = unat c"
    using unat_wchar [of c] by (simp add: le_value_le_bytes)
  then show ?case using Cons by (simp add: wide_bytes_def numeral_2_eq_2 del: le_value.simps)
qed (simp add: wide_bytes_def)

definition wide_array :: "nat \<Rightarrow> wstr \<Rightarrow> wchar list" where
  \<comment> \<open>a zeroed array of \<open>cap\<close> cells after a copy of the text\<close>
  "wide_array cap s = s @ replicate (cap - length s) 0"

definition array_text :: "wchar list \<Rightarrow> wstr" where
  \<comment> \<open>the C string an array holds\<close>
  "array_text cells = takeWhile (\<lambda>c. c \<noteq> 0) cells"

lemma array_text_wide_array [simp]: "0 \<notin> set s \<Longrightarrow> array_text (wide_array cap s) = s"
  by (auto simp: array_text_def wide_array_def takeWhile_append takeWhile_replicate)

lemma length_wide_array [simp]: "length s \<le> cap \<Longrightarrow> length (wide_array cap s) = cap"
  by (simp add: wide_array_def)

end
