(* ===== verification/Ssh_Credentials.thy ===== *)
theory Ssh_Credentials
  imports Effects Bytes Server_Profile
begin

text \<open>
  \<open>src/src/platform/ssh_credentials.[ch]\<close>: the secret of an SSH login, kept as a binary record in
  Windows Credential Manager or in any store with the same three operations; and the snapshots that
  undo a change. A store call returns its result or an error code and the new world.
\<close>

subsection \<open>Data\<close>

record SshLogin =
  lg_server :: SshServer
  lg_secret :: wstr
  lg_key_file :: wstr
  lg_fingerprint :: string

definition SSH_CREDENTIAL_BYTES :: nat where "SSH_CREDENTIAL_BYTES = 5 * 512"
definition SSH_CREDENTIAL_MAGIC :: nat where "SSH_CREDENTIAL_MAGIC = 0x4e534331"

definition ERROR_INVALID_DATA :: int where "ERROR_INVALID_DATA = 13"
definition ERROR_INVALID_PARAMETER :: int where "ERROR_INVALID_PARAMETER = 87"
definition ERROR_NOT_FOUND :: int where "ERROR_NOT_FOUND = 1168"
definition ERROR_REVISION_MISMATCH :: int where "ERROR_REVISION_MISMATCH = 1306"

record CredentialRecord =
  cr_magic :: nat
  cr_version :: nat
  cr_server_id :: int
  cr_port :: nat
  cr_host :: "wchar list"       \<comment> \<open>arrays are lists of all their cells\<close>
  cr_user :: "wchar list"
  cr_key_file :: "wchar list"
  cr_secret :: "wchar list"

definition RECORD_SIZE :: nat where
  \<comment> \<open>\<open>sizeof(CredentialRecord)\<close>, aligned to 8\<close>
  "RECORD_SIZE = 2336"

definition signed64 :: "nat \<Rightarrow> int" where
  "signed64 v = (if v < 2 ^ 63 then int v else int v - 2 ^ 64)"

definition record_bytes :: "CredentialRecord \<Rightarrow> byte list" where
  \<comment> \<open>the bytes of a record in memory; the padding was zeroed\<close>
  "record_bytes r = le_bytes 4 (cr_magic r) @ le_bytes 4 (cr_version r) @ le_bytes 8 (nat (cr_server_id r mod 2 ^ 64))
     @ le_bytes 4 (cr_port r) @ wide_bytes (cr_host r) @ wide_bytes (cr_user r) @ wide_bytes (cr_key_file r)
     @ wide_bytes (cr_secret r) @ replicate 4 0"

definition bytes_at :: "nat \<Rightarrow> nat \<Rightarrow> byte list \<Rightarrow> byte list" where
  "bytes_at offset n bs = take n (drop offset bs)"

definition record_of_bytes :: "byte list \<Rightarrow> CredentialRecord" where
  \<comment> \<open>\<open>memcpy(&record,snapshot->bytes,sizeof(record))\<close>\<close>
  "record_of_bytes bs = \<lparr>cr_magic = le_value (bytes_at 0 4 bs), cr_version = le_value (bytes_at 4 4 bs),
     cr_server_id = signed64 (le_value (bytes_at 8 8 bs)), cr_port = le_value (bytes_at 16 4 bs),
     cr_host = wide_of (bytes_at 20 512 bs), cr_user = wide_of (bytes_at 532 256 bs),
     cr_key_file = wide_of (bytes_at 788 520 bs), cr_secret = wide_of (bytes_at 1308 1024 bs)\<rparr>"

record SshCredentialSnapshot =
  sn_bytes :: "byte list"     \<comment> \<open>the first \<open>length\<close> bytes\<close>
  sn_exists :: bool

definition zero_snapshot :: SshCredentialSnapshot where "zero_snapshot = \<lparr>sn_bytes = [], sn_exists = False\<rparr>"

subsection \<open>The store\<close>

record 'w SshCredentialStore =
  cs_read :: "wstr \<Rightarrow> nat \<Rightarrow> 'w \<Rightarrow> (int + byte list) \<times> 'w"    \<comment> \<open>target and capacity\<close>
  cs_write :: "wstr \<Rightarrow> byte list \<Rightarrow> 'w \<Rightarrow> int option \<times> 'w"    \<comment> \<open>\<open>None\<close>: TRUE, else the error\<close>
  cs_remove :: "wstr \<Rightarrow> 'w \<Rightarrow> int option \<times> 'w"

record 'w credential_manager =
  \<comment> \<open>\<open>CredReadW\<close> (the size and the blob), \<open>CredWriteW\<close> and \<open>CredDeleteW\<close>\<close>
  cred_read :: "wstr \<Rightarrow> 'w \<Rightarrow> (int + nat \<times> byte list option) \<times> 'w"
  cred_write :: "wstr \<Rightarrow> byte list \<Rightarrow> 'w \<Rightarrow> int option \<times> 'w"
  cred_delete :: "wstr \<Rightarrow> 'w \<Rightarrow> int option \<times> 'w"

definition native_read ::
    "'w credential_manager \<Rightarrow> wstr \<Rightarrow> nat \<Rightarrow> 'w \<Rightarrow> (int + byte list) \<times> 'w" where
  "native_read C target capacity w = (case cred_read C target w of
     (Inl e, w') \<Rightarrow> (Inl e, w')
   | (Inr (n, blob), w') \<Rightarrow>
       if n \<le> capacity \<and> (n = 0 \<or> blob \<noteq> None)
       then (Inr (if n = 0 then [] else take n (the blob)), w') else (Inl ERROR_INVALID_DATA, w'))"

definition native_write :: "'w credential_manager \<Rightarrow> wstr \<Rightarrow> byte list \<Rightarrow> 'w \<Rightarrow> int option \<times> 'w" where
  "native_write C target bytes w = cred_write C target bytes w"

definition native_delete :: "'w credential_manager \<Rightarrow> wstr \<Rightarrow> 'w \<Rightarrow> int option \<times> 'w" where
  "native_delete C target w = cred_delete C target w"

definition native_store :: "'w credential_manager \<Rightarrow> 'w SshCredentialStore" where
  "native_store C = \<lparr>cs_read = native_read C, cs_write = native_write C, cs_remove = native_delete C\<rparr>"

subsection \<open>Operations\<close>

definition target_name :: "int \<Rightarrow> wstr option" where
  \<comment> \<open>\<open>None\<close>: \<open>ERROR_INVALID_PARAMETER\<close>\<close>
  "target_name server_id = (if server_id \<le> 0 then None else Some (W ''NOVA Desktop SSH login:'' @ dec server_id))"

definition array_ended :: "wchar list \<Rightarrow> bool" where
  \<comment> \<open>\<open>terminated\<close>: the array holds a NUL\<close>
  "array_ended cells \<longleftrightarrow> 0 \<in> set cells"

definition valid_record :: "byte list \<Rightarrow> int \<Rightarrow> int option" where
  \<comment> \<open>\<open>None\<close>: valid, else the error\<close>
  "valid_record bytes server_id =
     (if length bytes \<noteq> RECORD_SIZE then Some ERROR_INVALID_DATA
      else (let r = record_of_bytes bytes in
        if \<not> (cr_magic r = SSH_CREDENTIAL_MAGIC \<and> cr_server_id r = server_id \<and> cr_port r > 0 \<and> cr_port r \<le> 65535
              \<and> array_ended (cr_host r) \<and> hd (cr_host r) \<noteq> 0 \<and> array_ended (cr_user r) \<and> hd (cr_user r) \<noteq> 0
              \<and> array_ended (cr_key_file r) \<and> array_ended (cr_secret r))
        then Some ERROR_INVALID_DATA
        else if cr_version r \<noteq> 1 then Some ERROR_REVISION_MISMATCH
        else None))"

definition ssh_credentials_snapshot ::
    "'w SshCredentialStore \<Rightarrow> int \<Rightarrow> 'w \<Rightarrow> (int + SshCredentialSnapshot) \<times> 'w" where
  \<comment> \<open>\<open>Inl\<close>: FALSE with the error and a zeroed snapshot\<close>
  "ssh_credentials_snapshot S server_id w = (case target_name server_id of
     None \<Rightarrow> (Inl ERROR_INVALID_PARAMETER, w)
   | Some target \<Rightarrow> (case cs_read S target SSH_CREDENTIAL_BYTES w of
       (Inl e, w') \<Rightarrow> (if e = ERROR_NOT_FOUND then Inr zero_snapshot else Inl e, w')
     | (Inr bytes, w') \<Rightarrow> (case valid_record bytes server_id of
         None \<Rightarrow> (Inr \<lparr>sn_bytes = bytes, sn_exists = True\<rparr>, w')
       | Some e \<Rightarrow> (Inl e, w'))))"

definition ssh_credentials_delete :: "'w SshCredentialStore \<Rightarrow> int \<Rightarrow> 'w \<Rightarrow> int option \<times> 'w" where
  "ssh_credentials_delete S server_id w = (case target_name server_id of
     None \<Rightarrow> (Some ERROR_INVALID_PARAMETER, w)
   | Some target \<Rightarrow> (case cs_remove S target w of
       (Some e, w') \<Rightarrow> (if e = ERROR_NOT_FOUND then None else Some e, w')
     | (None, w') \<Rightarrow> (None, w')))"

definition ssh_credentials_restore ::
    "'w SshCredentialStore \<Rightarrow> int \<Rightarrow> SshCredentialSnapshot \<Rightarrow> 'w \<Rightarrow> int option \<times> 'w" where
  "ssh_credentials_restore S server_id snapshot w = (case target_name server_id of
     None \<Rightarrow> (Some ERROR_INVALID_PARAMETER, w)
   | Some target \<Rightarrow>
       if sn_exists snapshot then (case valid_record (sn_bytes snapshot) server_id of
           Some e \<Rightarrow> (Some e, w)
         | None \<Rightarrow> cs_write S target (sn_bytes snapshot) w)
       else ssh_credentials_delete S server_id w)"

definition endpoint_ok :: "SshServer \<Rightarrow> bool" where
  "endpoint_ok s \<longleftrightarrow> 1 \<le> ss_port s \<and> ss_port s \<le> 65535 \<and> terminated 256 (ss_host s) \<and> ss_host s \<noteq> []
     \<and> terminated 128 (ss_user s) \<and> ss_user s \<noteq> []"

definition ssh_credentials_load ::
    "(wstr \<Rightarrow> wstr \<Rightarrow> bool) \<Rightarrow> (wstr \<Rightarrow> wstr \<Rightarrow> bool) \<Rightarrow> 'w SshCredentialStore \<Rightarrow> SshLogin \<Rightarrow> 'w
     \<Rightarrow> ((int + bool) \<times> SshLogin) \<times> 'w" where
  \<comment> \<open>the error or \<open>*found\<close>, and the login; \<open>ieq\<close> and \<open>eq\<close> are \<open>!lstrcmpiW\<close> and \<open>!lstrcmpW\<close>\<close>
  "ssh_credentials_load ieq eq S login w =
     (let login = login\<lparr>lg_secret := [], lg_key_file := []\<rparr>; server = lg_server login in
      if \<not> endpoint_ok server then ((Inl ERROR_INVALID_PARAMETER, login), w)
      else (case ssh_credentials_snapshot S (ss_id server) w of
          (Inl e, w') \<Rightarrow> ((Inl e, login), w')
        | (Inr snapshot, w') \<Rightarrow>
            if \<not> sn_exists snapshot then ((Inr False, login), w')
            else (let r = record_of_bytes (sn_bytes snapshot) in
              if int (cr_port r) = ss_port server \<and> ieq (array_text (cr_host r)) (ss_host server)
                 \<and> eq (array_text (cr_user r)) (ss_user server)
              then ((Inr (array_text (cr_secret r) \<noteq> [] \<or> array_text (cr_key_file r) \<noteq> []),
                     login\<lparr>lg_secret := array_text (cr_secret r), lg_key_file := array_text (cr_key_file r)\<rparr>), w')
              else ((Inr False, login), w'))))"

definition login_record :: "SshLogin \<Rightarrow> CredentialRecord" where
  "login_record login = \<lparr>cr_magic = SSH_CREDENTIAL_MAGIC, cr_version = 1, cr_server_id = ss_id (lg_server login),
     cr_port = nat (ss_port (lg_server login)), cr_host = wide_array 256 (ss_host (lg_server login)),
     cr_user = wide_array 128 (ss_user (lg_server login)), cr_key_file = wide_array 260 (lg_key_file login),
     cr_secret = wide_array 512 (lg_secret login)\<rparr>"

definition ssh_credentials_save :: "'w SshCredentialStore \<Rightarrow> SshLogin \<Rightarrow> 'w \<Rightarrow> int option \<times> 'w" where
  "ssh_credentials_save S login w = (case target_name (ss_id (lg_server login)) of
     None \<Rightarrow> (Some ERROR_INVALID_PARAMETER, w)
   | Some target \<Rightarrow>
       if \<not> endpoint_ok (lg_server login) \<or> \<not> terminated 512 (lg_secret login) \<or> \<not> terminated 260 (lg_key_file login)
       then (Some ERROR_INVALID_PARAMETER, w)
       else if lg_secret login = [] \<and> lg_key_file login = [] then ssh_credentials_delete S (ss_id (lg_server login)) w
       else cs_write S target (record_bytes (login_record login)) w)"

subsection \<open>The contract of a store\<close>

locale credential_store =
  fixes lawful :: "'c \<Rightarrow> bool"
    and store :: "'c \<Rightarrow> 'w SshCredentialStore"
    and vault :: "'c \<Rightarrow> 'w \<Rightarrow> wstr \<Rightarrow> byte list option"
  assumes read: "lawful c \<Longrightarrow> cs_read (store c) t cap w = (r, w') \<Longrightarrow> vault c w' = vault c w \<and>
      (case r of Inl e \<Rightarrow> e = ERROR_NOT_FOUND \<longrightarrow> vault c w t = None | Inr b \<Rightarrow> vault c w t = Some b)"
    and write_laws: "lawful c \<Longrightarrow> cs_write (store c) t b w = (q, w') \<Longrightarrow>
      vault c w' = (if q = None then (vault c w)(t \<mapsto> b) else vault c w)"
    and remove: "lawful c \<Longrightarrow> cs_remove (store c) t w = (q, w') \<Longrightarrow>
      vault c w' = (if q = None then (vault c w)(t := None) else vault c w) \<and> (q = Some ERROR_NOT_FOUND \<longrightarrow> vault c w t = None)"
begin

lemma snapshot_spec:
  assumes "lawful c" and "ssh_credentials_snapshot (store c) i w = (r, w')"
  shows "vault c w' = vault c w"
    and "r = Inr sn \<Longrightarrow> target_name i = Some t \<Longrightarrow> vault c w t = (if sn_exists sn then Some (sn_bytes sn) else None)"
    and "r = Inr sn \<Longrightarrow> sn_exists sn \<Longrightarrow> valid_record (sn_bytes sn) i = None"
  using assms
  by (auto simp: ssh_credentials_snapshot_def zero_snapshot_def split: option.splits sum.splits prod.splits if_splits dest!: read)

lemma delete_spec:
  assumes "lawful c" and "ssh_credentials_delete (store c) i w = (None, w')" and "target_name i = Some t"
  shows "vault c w' = (vault c w)(t := None)"
  using assms
  by (auto simp: ssh_credentials_delete_def split: option.splits prod.splits if_splits dest!: remove)

lemma restore_spec:
  assumes c: "lawful c" and snap: "ssh_credentials_snapshot (store c) i w = (Inr sn, w1)"
    and rest: "ssh_credentials_restore (store c) i sn u = (None, u')" and t: "target_name i = Some t"
  shows "vault c u' = (vault c u)(t := vault c w t)"
proof (cases "sn_exists sn")
  case True
  then have "valid_record (sn_bytes sn) i = None" by (rule snapshot_spec(3) [OF c snap refl])
  then have "cs_write (store c) t (sn_bytes sn) u = (None, u')"
    using rest True t by (simp add: ssh_credentials_restore_def)
  from write_laws [OF c this] show ?thesis
    using snapshot_spec(2) [OF c snap refl t] True by simp
next
  case False
  then have "ssh_credentials_delete (store c) i u = (None, u')"
    using rest t by (simp add: ssh_credentials_restore_def)
  from delete_spec [OF c this t] show ?thesis
    using snapshot_spec(2) [OF c snap refl t] False by simp
qed

end

subsection \<open>Windows Credential Manager\<close>

definition manager_ok ::
    "'w credential_manager \<times> ('w \<Rightarrow> wstr \<Rightarrow> byte list option) \<Rightarrow> bool" where
  \<comment> \<open>what the calls do to the credentials, observed by the second component\<close>
  "manager_ok m = (case m of (C, held) \<Rightarrow>
     (\<forall>t w r w'. cred_read C t w = (r, w') \<longrightarrow> held w' = held w \<and>
        (case r of Inl e \<Rightarrow> e = ERROR_NOT_FOUND \<longrightarrow> held w t = None
         | Inr (n, blob) \<Rightarrow> \<exists>b. held w t = Some b \<and> n = length b \<and> (blob = Some b \<or> blob = None)))
     \<and> (\<forall>t b w r w'. cred_write C t b w = (r, w') \<longrightarrow> held w' = (if r = None then (held w)(t \<mapsto> b) else held w))
     \<and> (\<forall>t w r w'. cred_delete C t w = (r, w') \<longrightarrow> held w' = (if r = None then (held w)(t := None) else held w)
        \<and> (r = Some ERROR_NOT_FOUND \<longrightarrow> held w t = None)))"

lemma native_reads:
  assumes "manager_ok (C, held)" and "native_read C t cap w = (r, w')"
  shows "held w' = held w \<and> (case r of Inl e \<Rightarrow> e = ERROR_NOT_FOUND \<longrightarrow> held w t = None | Inr b \<Rightarrow> held w t = Some b)"
proof -
  obtain q u where q: "cred_read C t w = (q, u)" by (cases "cred_read C t w")
  with assms(1) have "held u = held w \<and> (case q of Inl e \<Rightarrow> e = ERROR_NOT_FOUND \<longrightarrow> held w t = None
      | Inr (n, blob) \<Rightarrow> \<exists>b. held w t = Some b \<and> n = length b \<and> (blob = Some b \<or> blob = None))"
    unfolding manager_ok_def by blast
  then show ?thesis
    using assms(2) q
    by (auto simp: native_read_def ERROR_INVALID_DATA_def ERROR_NOT_FOUND_def split: sum.splits prod.splits if_splits)
qed

interpretation native: credential_store manager_ok "\<lambda>m. native_store (fst m)" "\<lambda>m. snd m"
proof
  fix m :: "'w credential_manager \<times> ('w \<Rightarrow> wstr \<Rightarrow> byte list option)" and t cap w r w'
  assume "manager_ok m" "cs_read (native_store (fst m)) t cap w = (r, w')"
  then show "snd m w' = snd m w \<and> (case r of Inl e \<Rightarrow> e = ERROR_NOT_FOUND \<longrightarrow> snd m w t = None | Inr b \<Rightarrow> snd m w t = Some b)"
    using native_reads [of "fst m" "snd m"] by (simp add: native_store_def)
next
  fix m :: "'w credential_manager \<times> ('w \<Rightarrow> wstr \<Rightarrow> byte list option)" and t b w r w'
  assume "manager_ok m" "cs_write (native_store (fst m)) t b w = (r, w')"
  then show "snd m w' = (if r = None then (snd m w)(t \<mapsto> b) else snd m w)"
    unfolding native_store_def native_write_def manager_ok_def by (auto split: prod.splits)
next
  fix m :: "'w credential_manager \<times> ('w \<Rightarrow> wstr \<Rightarrow> byte list option)" and t w r w'
  assume "manager_ok m" "cs_remove (native_store (fst m)) t w = (r, w')"
  then show "snd m w' = (if r = None then (snd m w)(t := None) else snd m w) \<and> (r = Some ERROR_NOT_FOUND \<longrightarrow> snd m w t = None)"
    unfolding native_store_def native_delete_def manager_ok_def by (auto split: prod.splits)
qed

subsection \<open>Records\<close>

definition record_fits :: "CredentialRecord \<Rightarrow> bool" where
  "record_fits r \<longleftrightarrow> cr_magic r < 2 ^ 32 \<and> cr_version r < 2 ^ 32 \<and> cr_port r < 2 ^ 32
     \<and> - (2 ^ 63) \<le> cr_server_id r \<and> cr_server_id r < 2 ^ 63
     \<and> length (cr_host r) = 256 \<and> length (cr_user r) = 128 \<and> length (cr_key_file r) = 260 \<and> length (cr_secret r) = 512"

lemma signed64_mod:
  assumes "- (2 ^ 63) \<le> i" "i < 2 ^ 63"
  shows "signed64 (nat (i mod 2 ^ 64)) = i"
proof (cases "0 \<le> i")
  case True
  then show ?thesis using assms by (simp add: signed64_def)
next
  case False
  have "i mod 2 ^ 64 = (i + 2 ^ 64) mod 2 ^ 64" by simp
  also have "\<dots> = i + 2 ^ 64" using assms(1) False by (intro mod_pos_pos_trivial) simp_all
  finally show ?thesis using assms(1) False by (simp add: signed64_def nat_less_iff)
qed

lemma record_roundtrip:
  assumes "record_fits r"
  shows "record_of_bytes (record_bytes r) = r" and "length (record_bytes r) = RECORD_SIZE"
proof -
  show "length (record_bytes r) = RECORD_SIZE"
    using assms by (simp add: record_bytes_def record_fits_def RECORD_SIZE_def)
  have l: "nat (cr_server_id r mod 2 ^ 64) < 256 ^ 8" by (simp add: nat_less_iff)
  show "record_of_bytes (record_bytes r) = r"
    using assms l by (simp add: record_of_bytes_def record_bytes_def record_fits_def bytes_at_def le_value_le_bytes
        signed64_mod [simplified])
qed


definition login_plain :: "SshLogin \<Rightarrow> bool" where
  \<comment> \<open>its strings are C strings and its identifier an \<open>int64_t\<close>\<close>
  "login_plain login \<longleftrightarrow> 0 \<notin> set (ss_host (lg_server login)) \<and> 0 \<notin> set (ss_user (lg_server login))
     \<and> 0 \<notin> set (lg_secret login) \<and> 0 \<notin> set (lg_key_file login) \<and> ss_id (lg_server login) < 2 ^ 63"

lemma login_record_ok:
  assumes "login_plain login" "endpoint_ok (lg_server login)" "0 < ss_id (lg_server login)"
    "terminated 512 (lg_secret login)" "terminated 260 (lg_key_file login)"
  shows "record_fits (login_record login)"
    and "valid_record (record_bytes (login_record login)) (ss_id (lg_server login)) = None"
proof -
  have hd: "hd (wide_array n s) \<noteq> 0" if "s \<noteq> []" "0 \<notin> set s" for n s
    using that by (cases s) (auto simp: wide_array_def)
  have end0: "0 \<in> set (wide_array n s)" if "length s < n" for n s
    using that by (auto simp: wide_array_def)
  show fits: "record_fits (login_record login)"
    using assms by (simp add: record_fits_def login_record_def login_plain_def endpoint_ok_def terminated_def
        SSH_CREDENTIAL_MAGIC_def nat_less_iff)
  show "valid_record (record_bytes (login_record login)) (ss_id (lg_server login)) = None"
    unfolding valid_record_def Let_def record_roundtrip [OF fits]
    using assms by (simp add: login_record_def array_ended_def end0 hd login_plain_def endpoint_ok_def terminated_def nat_le_iff)
qed

text \<open>C15 (roundtrip): a saved login is found again. When the secret or the key file of a valid login was
  saved, loading the login of the same server, with a name or a folder that may have changed, reports
  that it was found and gives back the secret and the key file.\<close>

theorem credentials_roundtrip:
  assumes "manager_ok (C, held)" and "login_plain login" and "lg_secret login \<noteq> [] \<or> lg_key_file login \<noteq> []"
    and "ssh_credentials_save (native_store C) login w = (None, w')"
    and "ss_id (lg_server again) = ss_id (lg_server login)" and "ss_port (lg_server again) = ss_port (lg_server login)"
    and "ss_host (lg_server again) = ss_host (lg_server login)" and "ss_user (lg_server again) = ss_user (lg_server login)"
    and "\<forall>x. ieq x x" and "\<forall>x. eq x x"
    and "ssh_credentials_load ieq eq (native_store C) again w' = ((Inr found, got), w'')"
  shows "found \<and> lg_secret got = lg_secret login \<and> lg_key_file got = lg_key_file login \<and> held w'' = held w'"
proof -
  let ?S = "native_store C" and ?b = "record_bytes (login_record login)"
  obtain t where t: "target_name (ss_id (lg_server login)) = Some t" and pos: "0 < ss_id (lg_server login)"
    using assms(4) by (auto simp: ssh_credentials_save_def target_name_def split: if_splits option.splits)
  have ok: "endpoint_ok (lg_server login)" "terminated 512 (lg_secret login)" "terminated 260 (lg_key_file login)"
    and wr: "cs_write ?S t ?b w = (None, w')"
    using assms(3,4) t by (auto simp: ssh_credentials_save_def split: if_splits)
  have held: "held w' = (held w)(t \<mapsto> ?b)"
    using native.write_laws [OF assms(1), of t ?b w None w'] wr by simp
  have again_ok: "endpoint_ok (lg_server again)" using ok(1) assms(6-8) by (simp add: endpoint_ok_def)
  obtain sn where sn: "ssh_credentials_snapshot ?S (ss_id (lg_server login)) w' = (Inr sn, w'')"
    using assms(11) again_ok assms(5)
    by (auto simp: ssh_credentials_load_def Let_def split: prod.splits sum.splits if_splits)
  note spec = native.snapshot_spec [OF assms(1), simplified, OF sn]
  have same: "held w'' = held w'" by (rule spec(1))
  have "held w' t = (if sn_exists sn then Some (sn_bytes sn) else None)" by (rule spec(2) [OF refl t])
  then have ex: "sn_exists sn" "sn_bytes sn = ?b" using held by (auto split: if_splits)
  have r: "record_of_bytes (sn_bytes sn) = login_record login"
    using record_roundtrip(1) [OF login_record_ok(1) [OF assms(2) ok(1) pos ok(2,3)]] ex(2) by simp
  have plain: "array_text (wide_array n x) = x" if "0 \<notin> set x" for n x using that by simp
  have port: "int (cr_port (login_record login)) = ss_port (lg_server login)"
    using ok(1) by (simp add: login_record_def endpoint_ok_def)
  show ?thesis
    using assms(2,3,9,10,11) again_ok sn ex r assms(5-8) port same
    by (auto simp: ssh_credentials_load_def Let_def login_record_def login_plain_def split: if_splits)
qed

lemma load_found:
  assumes "manager_ok (C, held)"
    and "ssh_credentials_load ieq eq (native_store C) login w = ((r, got), w')"
    and "r = Inr True \<or> lg_secret got \<noteq> [] \<or> lg_key_file got \<noteq> []"
  shows "\<exists>t b. target_name (ss_id (lg_server login)) = Some t \<and> held w t = Some b
    \<and> valid_record b (ss_id (lg_server login)) = None
    \<and> int (cr_port (record_of_bytes b)) = ss_port (lg_server login)
    \<and> ieq (array_text (cr_host (record_of_bytes b))) (ss_host (lg_server login))
    \<and> eq (array_text (cr_user (record_of_bytes b))) (ss_user (lg_server login))
    \<and> lg_secret got = array_text (cr_secret (record_of_bytes b))
    \<and> lg_key_file got = array_text (cr_key_file (record_of_bytes b))"
proof -
  obtain sn where ok: "endpoint_ok (lg_server login)" and ex: "sn_exists sn"
    and sn: "ssh_credentials_snapshot (native_store C) (ss_id (lg_server login)) w = (Inr sn, w')"
    and m: "int (cr_port (record_of_bytes (sn_bytes sn))) = ss_port (lg_server login)"
      "ieq (array_text (cr_host (record_of_bytes (sn_bytes sn)))) (ss_host (lg_server login))"
      "eq (array_text (cr_user (record_of_bytes (sn_bytes sn)))) (ss_user (lg_server login))"
      "lg_secret got = array_text (cr_secret (record_of_bytes (sn_bytes sn)))"
      "lg_key_file got = array_text (cr_key_file (record_of_bytes (sn_bytes sn)))"
    using assms(2,3) by (auto simp: ssh_credentials_load_def Let_def split: if_splits prod.splits sum.splits)
  note spec = native.snapshot_spec [OF assms(1), simplified, OF sn]
  obtain t where t: "target_name (ss_id (lg_server login)) = Some t"
    using sn by (auto simp: ssh_credentials_snapshot_def split: option.splits)
  have "held w t = Some (sn_bytes sn)" "valid_record (sn_bytes sn) (ss_id (lg_server login)) = None"
    using spec(1) spec(2) [OF refl t] spec(3) [OF refl ex] ex by simp_all
  with t m show ?thesis by blast
qed

text \<open>C14 (safety): a secret never follows a changed endpoint. Whatever the store holds, loading fills in
  a secret or a key file, or reports one found, only from a valid record of this server whose port,
  host and user are the ones of the login; in every other case both are cleared.\<close>

theorem credentials_never_follow:
  assumes "manager_ok (C, held)"
    and "ssh_credentials_load ieq eq (native_store C) login w = ((r, got), w')"
    and "r = Inr True \<or> lg_secret got \<noteq> [] \<or> lg_key_file got \<noteq> []"
  shows "\<exists>t b. target_name (ss_id (lg_server login)) = Some t \<and> held w t = Some b
    \<and> valid_record b (ss_id (lg_server login)) = None
    \<and> int (cr_port (record_of_bytes b)) = ss_port (lg_server login)
    \<and> ieq (array_text (cr_host (record_of_bytes b))) (ss_host (lg_server login))
    \<and> eq (array_text (cr_user (record_of_bytes b))) (ss_user (lg_server login))
    \<and> lg_secret got = array_text (cr_secret (record_of_bytes b))
    \<and> lg_key_file got = array_text (cr_key_file (record_of_bytes b))"
  by (rule load_found [OF assms])

text \<open>A snapshot undoes a change. When a snapshot of a server's credential was taken,
  restoring it later succeeds only by leaving that credential as it was when the snapshot was taken,
  absent if it was absent, whatever happened to the store since, and every other credential alone.\<close>

theorem credentials_snapshot_restores:
  assumes "manager_ok (C, held)" and "ssh_credentials_snapshot (native_store C) i w = (Inr sn, w1)"
    and "ssh_credentials_restore (native_store C) i sn u = (None, u')" and "target_name i = Some t"
  shows "held u' = (held u)(t := held w t)"
  using native.restore_spec [OF assms(1)] assms(2-4) by simp

subsection \<open>An instance\<close>

definition vault_manager :: "(wstr \<Rightarrow> byte list option) credential_manager" where
  \<comment> \<open>a map that never fails\<close>
  "vault_manager = \<lparr>cred_read = (\<lambda>t w. (case w t of None \<Rightarrow> Inl ERROR_NOT_FOUND | Some b \<Rightarrow> Inr (length b, Some b), w)),
     cred_write = (\<lambda>t b w. (None, w(t \<mapsto> b))),
     cred_delete = (\<lambda>t w. (if w t = None then Some ERROR_NOT_FOUND else None, w(t := None)))\<rparr>"

lemma vault_manager_ok: "manager_ok (vault_manager, \<lambda>w. w)"
  by (auto simp: manager_ok_def vault_manager_def split: option.splits)

definition sample_login :: SshLogin where
  "sample_login = \<lparr>lg_server = \<lparr>ss_id = 7, ss_name = W ''n'', ss_host = W ''h'', ss_user = W ''u'', ss_directory = W ''/'',
     ss_port = 22\<rparr>, lg_secret = W ''pw'', lg_key_file = [], lg_fingerprint = []\<rparr>"

definition sample_target :: wstr where "sample_target = W ''NOVA Desktop SSH login:'' @ dec 7"

lemma sample_facts: "login_plain sample_login" "endpoint_ok (lg_server sample_login)" "target_name 7 = Some sample_target"
  "terminated 512 (lg_secret sample_login)" "terminated 260 (lg_key_file sample_login)" "0 < ss_id (lg_server sample_login)"
  "lg_secret sample_login \<noteq> []"
  by (simp_all add: sample_login_def login_plain_def endpoint_ok_def target_name_def sample_target_def terminated_def W_Cons)

definition sample_vault :: "wstr \<Rightarrow> byte list option" where
  "sample_vault = [sample_target \<mapsto> record_bytes (login_record sample_login)]"

lemma sample_save: "ssh_credentials_save (native_store vault_manager) sample_login Map.empty = (None, sample_vault)"
  using sample_facts
  by (simp add: ssh_credentials_save_def sample_login_def native_store_def native_write_def vault_manager_def sample_vault_def)

lemma sample_snapshot: "ssh_credentials_snapshot (native_store vault_manager) 7 sample_vault
    = (Inr \<lparr>sn_bytes = record_bytes (login_record sample_login), sn_exists = True\<rparr>, sample_vault)"
proof -
  note ok = login_record_ok [OF sample_facts(1,2,6,4,5)]
  have "valid_record (record_bytes (login_record sample_login)) 7 = None" using ok(2) by (simp add: sample_login_def)
  then show ?thesis
    using sample_facts(3) record_roundtrip(2) [OF ok(1)]
    by (simp add: ssh_credentials_snapshot_def native_store_def native_read_def vault_manager_def sample_vault_def
        RECORD_SIZE_def SSH_CREDENTIAL_BYTES_def)
qed

lemma sample_load: "ssh_credentials_load (=) (=) (native_store vault_manager) (sample_login\<lparr>lg_secret := []\<rparr>) sample_vault
    = ((Inr True, sample_login), sample_vault)"
proof -
  have r: "record_of_bytes (record_bytes (login_record sample_login)) = login_record sample_login"
    by (rule record_roundtrip(1) [OF login_record_ok(1) [OF sample_facts(1,2,6,4,5)]])
  have i: "ss_id (lg_server sample_login) = 7" "ss_port (lg_server sample_login) = 22" "lg_key_file sample_login = []"
    by (simp_all add: sample_login_def)
  have "cr_port (login_record sample_login) = 22" "array_text (cr_host (login_record sample_login)) = ss_host (lg_server sample_login)"
    "array_text (cr_user (login_record sample_login)) = ss_user (lg_server sample_login)"
    "array_text (cr_secret (login_record sample_login)) = lg_secret sample_login"
    "array_text (cr_key_file (login_record sample_login)) = []"
    using sample_facts(1) i by (simp_all add: login_record_def login_plain_def)
  then show ?thesis
    using sample_facts i r sample_snapshot by (simp add: ssh_credentials_load_def Let_def)
qed

theorem credentials_roundtrip_witness:
  "lg_secret sample_login = W ''pw'' \<and>
   (\<exists>got w'. ssh_credentials_load (=) (=) (native_store vault_manager) (sample_login\<lparr>lg_secret := []\<rparr>) sample_vault
      = ((Inr True, got), w') \<and> lg_secret got = W ''pw'')"
  using credentials_roundtrip [OF vault_manager_ok sample_facts(1) _ sample_save _ _ _ _ _ _ sample_load] sample_load sample_facts(7)
  by (simp add: sample_login_def)

theorem credentials_never_follow_witness:
  "\<exists>t b. sample_vault t = Some b \<and> cr_port (record_of_bytes b) = 22"
  using credentials_never_follow [OF vault_manager_ok sample_load] by (auto simp: sample_login_def)

theorem credentials_snapshot_restores_witness:
  "\<exists>u'. ssh_credentials_restore (native_store vault_manager) 7
       \<lparr>sn_bytes = record_bytes (login_record sample_login), sn_exists = True\<rparr> Map.empty = (None, u')
     \<and> u' sample_target = sample_vault sample_target"
proof -
  have v: "valid_record (record_bytes (login_record sample_login)) 7 = None"
    using login_record_ok(2) [OF sample_facts(1,2,6,4,5)] by (simp add: sample_login_def)
  have r: "ssh_credentials_restore (native_store vault_manager) 7
      \<lparr>sn_bytes = record_bytes (login_record sample_login), sn_exists = True\<rparr> Map.empty = (None, sample_vault)"
    using sample_facts(3) v
    by (simp add: ssh_credentials_restore_def native_store_def native_write_def vault_manager_def sample_vault_def)
  have "sample_vault = Map.empty(sample_target := sample_vault sample_target)"
    by (rule credentials_snapshot_restores [OF vault_manager_ok sample_snapshot r sample_facts(3)])
  then show ?thesis using r by blast
qed

end
