(* ===== verification/Sync_Json.thy ===== *)
theory Sync_Json
  imports Effects Bytes Database Sync_Model
begin

text \<open>
  \<open>src/src/platform/sync_json.[ch]\<close>: the growing buffer in which requests and manifests are written, the
  quoting of JSON strings, and the reading of members of a JSON text. A \<open>char *\<close> is the list of its
  bytes before the NUL; NULL is \<open>None\<close>.
\<close>

subsection \<open>C strings of bytes\<close>

definition C :: "string \<Rightarrow> byte list" where
  \<comment> \<open>a \<open>"..."\<close> literal of ASCII characters\<close>
  "C s = map (\<lambda>c. of_nat (of_char c)) s"

lemma C_Nil [simp]: "C [] = []"
  and C_Cons: "C (c # s) = of_nat (of_char c) # C s"
  by (simp_all add: C_def)

definition hex_digit :: "nat \<Rightarrow> byte" where
  "hex_digit d = (if d < 10 then of_nat (48 + d) else of_nat (87 + d))"

definition hex_of :: "byte list \<Rightarrow> byte list" where
  \<comment> \<open>\<open>snprintf(out+i*2,3,"%02x",digest[i])\<close>\<close>
  "hex_of bs = concat (map (\<lambda>b. [hex_digit (unat b div 16), hex_digit (unat b mod 16)]) bs)"

definition digits_of :: "nat \<Rightarrow> byte list" where
  \<comment> \<open>\<open>"%llu"\<close>\<close>
  "digits_of n = map (\<lambda>c. of_nat (unat c)) (dec (int n))"

subsection \<open>The buffer\<close>

record SyncBuffer =
  sb_data :: "byte list"      \<comment> \<open>the \<open>size\<close> bytes before the NUL\<close>
  sb_capacity :: nat

definition empty_buffer :: SyncBuffer where "empty_buffer = \<lparr>sb_data = [], sb_capacity = 0\<rparr>"

definition sync_buffer_add :: "SyncBuffer \<Rightarrow> byte list \<Rightarrow> SyncBuffer option" where
  "sync_buffer_add b value =
     (let n = length value; size = length (sb_data b) in
      if n > SYNC_JSON_MAX \<or> size > SYNC_JSON_MAX - n then None
      else (let need = size + n + 1;
                cap = (if sb_capacity b \<noteq> 0 then sb_capacity b * 2 else 1024);
                cap = (if cap < need then need else cap);
                cap = (if cap > SYNC_JSON_MAX + 1 then SYNC_JSON_MAX + 1 else cap);
                capacity = (if need > sb_capacity b then cap else sb_capacity b)
            in Some \<lparr>sb_data = sb_data b @ value, sb_capacity = capacity\<rparr>))"

definition escaped_byte :: "byte \<Rightarrow> byte list" where
  "escaped_byte b =
     (if b = 34 \<or> b = 92 then [92, b]
      else if b < 32 then [92, 117, 48, 48] @ [hex_digit (unat b div 16), hex_digit (unat b mod 16)]
      else [b])"

fun add_all :: "SyncBuffer \<Rightarrow> byte list list \<Rightarrow> SyncBuffer option" where
  \<comment> \<open>a chain of \<open>sync_buffer_add\<close> with \<open>&&\<close>\<close>
  "add_all b [] = Some b"
| "add_all b (v # vs) = (case sync_buffer_add b v of None \<Rightarrow> None | Some b' \<Rightarrow> add_all b' vs)"

definition string_parts :: "byte list \<Rightarrow> byte list list" where
  "string_parts s = [[34]] @ map escaped_byte s @ [[34]]"

definition sync_buffer_string :: "SyncBuffer \<Rightarrow> byte list \<Rightarrow> SyncBuffer option" where
  "sync_buffer_string b s = add_all b (string_parts s)"

subsection \<open>Members of a JSON text\<close>

definition json_path :: "string list \<Rightarrow> json \<Rightarrow> json option" where
  \<comment> \<open>the value at \<open>$.a.b\<close>\<close>
  "json_path keys j = foldl (\<lambda>v key. Option.bind v (member_of key)) (Some j) keys"

definition text_value :: "json option \<Rightarrow> byte list option" where
  \<comment> \<open>a text without NUL, as UTF-8\<close>
  "text_value v = (case v of Some (JText t) \<Rightarrow> if 0 \<notin> set t then Some (utf8 t) else None | _ \<Rightarrow> None)"

definition int_value :: "int \<Rightarrow> json option \<Rightarrow> int" where
  "int_value fallback v = (case v of Some (JInt i) \<Rightarrow> i | _ \<Rightarrow> fallback)"

definition set_member :: "string \<Rightarrow> json \<Rightarrow> json \<Rightarrow> json" where
  \<comment> \<open>\<open>json_set(j,'$.key',v)\<close>: replaced where it is, or added at the end\<close>
  "set_member key v j = (case j of JObject ms \<Rightarrow> JObject (AList.update (W key) v ms) | _ \<Rightarrow> j)"

subsection \<open>What the buffer holds\<close>

definition buffer_ok :: "SyncBuffer \<Rightarrow> bool" where
  \<comment> \<open>the bytes and their NUL fit in what was allocated\<close>
  "buffer_ok b \<longleftrightarrow> length (sb_data b) \<le> SYNC_JSON_MAX \<and> sb_capacity b \<le> SYNC_JSON_MAX + 1
     \<and> (if sb_capacity b = 0 then sb_data b = [] else length (sb_data b) < sb_capacity b)"

lemma buffer_add:
  assumes "buffer_ok b"
  shows "sync_buffer_add b v = None \<longleftrightarrow> length (sb_data b) + length v > SYNC_JSON_MAX"
    and "sync_buffer_add b v = Some b' \<Longrightarrow> buffer_ok b' \<and> sb_data b' = sb_data b @ v \<and> sb_capacity b \<le> sb_capacity b'"
  using assms by (auto simp: sync_buffer_add_def buffer_ok_def Let_def split: if_splits)

lemma buffer_add_all:
  assumes "buffer_ok b"
  shows "add_all b vs = None \<longleftrightarrow> length (sb_data b) + length (concat vs) > SYNC_JSON_MAX"
    and "add_all b vs = Some b' \<Longrightarrow> buffer_ok b' \<and> sb_data b' = sb_data b @ concat vs"
  using assms
proof (induction vs arbitrary: b)
  case Nil
  { case 1 then show ?case by (simp add: buffer_ok_def)
  next case 2 then show ?case by simp }
next
  case (Cons v vs)
  { case 1
    show ?case
    proof (cases "sync_buffer_add b v")
      case None
      then show ?thesis using buffer_add(1) [OF 1, of v] by simp
    next
      case (Some c)
      then have "buffer_ok c" "sb_data c = sb_data b @ v" using buffer_add(2) [OF 1] by blast+
      then show ?thesis using Cons.IH(1) [of c] Some by (simp add: add.assoc)
    qed
  next case 2
    then obtain c where c: "sync_buffer_add b v = Some c" "add_all c vs = Some b'"
      by (auto split: option.splits)
    then have "buffer_ok c" "sb_data c = sb_data b @ v" using buffer_add(2) [OF 2(2)] by blast+
    then show ?case using Cons.IH(2) [of c] c(2) by simp }
qed

subsection \<open>Quoting\<close>

definition hex_value :: "byte \<Rightarrow> nat" where
  "hex_value c = (if 48 \<le> c \<and> c \<le> 57 then unat c - 48 else unat c - 87)"

fun unescape :: "byte list \<Rightarrow> byte list option" where
  \<comment> \<open>the reader of a quoted string: its bytes up to the closing quote, which must be the last byte\<close>
  "unescape (c # s) =
     (if c = 34 then (if s = [] then Some [] else None)
      else if c < 32 then None
      else if c = 92 then (case s of
          x # s' \<Rightarrow>
            if x = 34 \<or> x = 92 then map_option ((#) x) (unescape s')
            else if x = 117 then (case s' of
                a # b # d # e # s'' \<Rightarrow>
                  if a = 48 \<and> b = 48 then map_option ((#) (of_nat (hex_value d * 16 + hex_value e))) (unescape s'') else None
              | _ \<Rightarrow> None)
            else None
        | [] \<Rightarrow> None)
      else map_option ((#) c) (unescape s))"
| "unescape [] = None"

lemma hex_value_digit: "d < 16 \<Longrightarrow> hex_value (hex_digit d) = d"
proof -
  assume "d < 16"
  have "list_all (\<lambda>d. hex_value (hex_digit d) = d) [0..<16]" by code_simp
  then show ?thesis using \<open>d < 16\<close> by (simp add: list_all_iff)
qed

lemma unescape_escaped: "unescape (escaped_byte b @ s) = map_option ((#) b) (unescape s)"
proof -
  consider "b = 34 \<or> b = 92" | "\<not> (b = 34 \<or> b = 92)" "b < 32" | "\<not> (b = 34 \<or> b = 92)" "\<not> b < 32" by blast
  then show ?thesis
  proof cases
    case 2
    have "unat b div 16 < 16" "unat b mod 16 < 16" using unat_byte [of b] by simp_all
    then have "of_nat (hex_value (hex_digit (unat b div 16)) * 16 + hex_value (hex_digit (unat b mod 16))) = b"
      by (simp add: hex_value_digit)
    then show ?thesis using 2 by (simp add: escaped_byte_def)
  qed (auto simp: escaped_byte_def)
qed

text \<open>C16 (equivalence): \<open>sync_buffer_string\<close> writes what a reader of JSON strings reads back: it fails
  exactly when the quoted string does not fit, and otherwise appends one quoted string, without a
  control character, that the reader maps to the original bytes; the buffer stays within what was
  allocated and within the limit.\<close>

theorem buffer_string_readable:
  assumes "buffer_ok b"
  shows "case sync_buffer_string b s of
      None \<Rightarrow> length (sb_data b) + length (concat (map escaped_byte s)) + 2 > SYNC_JSON_MAX
    | Some b' \<Rightarrow> buffer_ok b' \<and> (\<exists>q. sb_data b' = sb_data b @ [34] @ q \<and> unescape q = Some s \<and> (\<forall>c \<in> set q. 32 \<le> c))"
proof (cases "sync_buffer_string b s")
  case None
  then show ?thesis using buffer_add_all(1) [OF assms, of "string_parts s"]
    by (simp add: sync_buffer_string_def string_parts_def)
next
  case (Some b')
  have "unescape (concat (map escaped_byte s) @ [34]) = Some s"
    by (induction s) (simp_all add: unescape_escaped)
  moreover have "32 \<le> c" if "c \<in> set (escaped_byte x)" for c x
  proof -
    have hex: "32 \<le> hex_digit d" if "d < 16" for d
    proof -
      have "list_all (\<lambda>d. 32 \<le> hex_digit d) [0..<16]" by code_simp
      then show ?thesis using that by (simp add: list_all_iff)
    qed
    have "unat x div 16 < 16" "unat x mod 16 < 16" using unat_byte [of x] by simp_all
    moreover have "\<forall>c \<in> set [92, 117, 48, 48]. 32 \<le> (c :: byte)" by simp
    ultimately show ?thesis using that hex by (auto simp: escaped_byte_def split: if_splits)
  qed
  then have "\<forall>c \<in> set (concat (map escaped_byte s) @ [34]). 32 \<le> c" by auto
  ultimately show ?thesis
    using buffer_add_all(2) [OF assms, of "string_parts s" b'] Some
    by (auto simp: sync_buffer_string_def string_parts_def)
qed

theorem buffer_string_readable_witness:
  "case sync_buffer_string empty_buffer [65, 34, 10] of None \<Rightarrow> False | Some b' \<Rightarrow> buffer_ok b' \<and> sb_data b' = [34, 65, 92, 34, 92, 117, 48, 48, 48, 97, 34]"
proof -
  have "buffer_ok empty_buffer" by (simp add: buffer_ok_def empty_buffer_def)
  note t = buffer_string_readable [OF this, of "[65, 34, 10]"]
  have "map_option sb_data (sync_buffer_string empty_buffer [65, 34, 10]) = Some [34, 65, 92, 34, 92, 117, 48, 48, 48, 97, 34]"
    by (simp add: sync_buffer_string_def string_parts_def sync_buffer_add_def empty_buffer_def escaped_byte_def hex_digit_def
        SYNC_JSON_MAX_def Let_def)
  then show ?thesis using t by (auto split: option.splits)
qed

end
