(* ===== verification/Sync_Run.thy ===== *)
theory Sync_Run
  imports Sync_Json Win_Files Ssh_Credentials
begin

text \<open>
  The run of a synchronisation job: the record \<open>SyncRun\<close> of \<open>src/src/platform/sync_internal.h\<close> with the
  request, the result and the local index, the failure and progress of \<open>src/src/platform/sync_wire.c\<close>,
  and the files, the chunk cache and the statements of \<open>src/src/platform/sync_files.c\<close>. The file system,
  the connection, OpenSSL, zlib, SQLite and the shell functions are parameters on an unknown world;
  a sequence of \<open>ReadFile\<close> calls on one handle is the list of their results up to the first failure or
  the end of the file.
\<close>

subsection \<open>Data\<close>

datatype SyncFailure = SYNC_OK | SYNC_CANCELLED | SYNC_STORAGE | SYNC_PATH | SYNC_CACHE | SYNC_PROTOCOL
  | SYNC_CONFLICT | SYNC_REMOTE | SYNC_NETWORK | SYNC_DELETE | SYNC_MOVED | SYNC_FROZEN | SYNC_UPGRADE

datatype SyncPhase = SYNC_CONNECT | SYNC_SCAN | SYNC_UPLOAD | SYNC_DOWNLOAD | SYNC_APPLY | SYNC_CONFIRM
  | SYNC_FINISH | SYNC_DEPLOY | SYNC_FREEZE | SYNC_COPY_SERVER | SYNC_VERIFY_SERVER | SYNC_CUTOVER

record SyncStats =
  sx_sent :: int
  sx_received :: int
  sx_reused :: int
  sx_resumed :: int
  sx_reclaimed :: int
  sx_published :: int
  sx_downloaded :: int
  sx_unchanged :: int

definition zero_stats :: SyncStats where
  "zero_stats = \<lparr>sx_sent = 0, sx_received = 0, sx_reused = 0, sx_resumed = 0, sx_reclaimed = 0,
     sx_published = 0, sx_downloaded = 0, sx_unchanged = 0\<rparr>"

record SyncProgress =
  pg_phase :: SyncPhase
  pg_done :: int
  pg_total :: int
  pg_path :: wstr
  pg_stats :: SyncStats

record SyncRequest =
  rq_settings :: SyncSettings
  rq_pair :: SyncPair
  rq_state_directory :: wstr
  rq_direction :: int
  rq_resolution :: int
  rq_resolve_path :: wstr
  rq_expected_local :: "byte list"
  rq_expected_remote :: "byte list"
  rq_login :: SshLogin
  rq_target_login :: SshLogin
  rq_target_project :: wstr
  rq_target_broker :: wstr
  rq_quota_gib :: int
  rq_reserve_gib :: int

record SyncResult =
  sr_failure :: SyncFailure
  sr_stats :: SyncStats
  sr_cloud :: "byte list option"
  sr_route :: "byte list option"
  sr_detail :: wstr
  sr_registered_role :: int
  sr_pushes :: int
  sr_pulls :: int
  sr_conflicts :: int
  sr_waiting :: int
  sr_changes :: "byte list option"
  sr_target_error :: bool
  sr_installed :: bool
  sr_switched :: bool
  sr_pending_migration :: bool
  sr_server_instance :: wstr
  sr_server_phase :: wstr

definition zero_result :: SyncResult where
  "zero_result = \<lparr>sr_failure = SYNC_OK, sr_stats = zero_stats, sr_cloud = None, sr_route = None, sr_detail = [],
     sr_registered_role = 0, sr_pushes = 0, sr_pulls = 0, sr_conflicts = 0, sr_waiting = 0, sr_changes = None, sr_target_error = False,
     sr_installed = False, sr_switched = False, sr_pending_migration = False, sr_server_instance = [], sr_server_phase = []\<rparr>"

record FileRow =
  fr_dataset :: "byte list"
  fr_path_key :: "byte list"
  fr_path :: "byte list"
  fr_job :: "byte list"
  fr_manifest :: "byte list"
  fr_stat_size :: int
  fr_stat_mtime :: int

record OutboxRow =
  ob_id :: "byte list"
  ob_dataset :: "byte list"
  ob_manifest :: "byte list"
  ob_size :: int
  ob_mtime :: int

record InboxRow =
  ib_id :: "byte list"
  ib_dataset :: "byte list"
  ib_manifest :: "byte list"
  ib_mhash :: "byte list"
  ib_phase :: "byte list"

record InspectionRow =
  in_path :: "byte list option"
  in_local_hash :: "byte list option"
  in_local_size :: "int option"
  in_local_time :: "int option"
  in_base :: "byte list option"
  in_remote :: "byte list option"
  in_available :: bool

record Index =
  ix_files :: "FileRow list"
  ix_outbox :: "OutboxRow list"
  ix_inbox :: "InboxRow list"
  ix_versions :: "(byte list \<times> byte list \<times> byte list \<times> byte list) list"   \<comment> \<open>id, dataset, path, manifest\<close>
  ix_inspection :: "InspectionRow list"                                \<comment> \<open>temporary\<close>

record 'w Run =
  rn_world :: 'w
  rn_index :: Index
  rn_begun :: "Index option"
  rn_request :: SyncRequest
  rn_result :: SyncResult
  rn_cache :: wstr
  rn_partial :: wstr
  rn_gear :: "byte \<Rightarrow> 64 word"
  rn_accepted_local :: "byte list"
  rn_phase :: SyncPhase
  rn_progress_tick :: int
  rn_endless :: bool

subsection \<open>Calls outside the program\<close>

datatype file_kind =
    Absent                     \<comment> \<open>\<open>ERROR_FILE_NOT_FOUND\<close> or \<open>ERROR_PATH_NOT_FOUND\<close>\<close>
  | Unknown                    \<comment> \<open>another error\<close>
  | Kind bool bool             \<comment> \<open>\<open>FILE_ATTRIBUTE_DIRECTORY\<close>, \<open>FILE_ATTRIBUTE_REPARSE_POINT\<close>\<close>

record dir_entry =
  de_name :: wstr
  de_directory :: bool
  de_reparse :: bool

datatype find_files = FindNone | FindFailed | Found "dir_entry list" bool  \<comment> \<open>ended by \<open>ERROR_NO_MORE_FILES\<close>\<close>

record opened_index =
  oi_version :: int
  oi_columns :: "byte list option list"     \<comment> \<open>of files, outbox and inbox, where they exist\<close>
  oi_rows :: Index

record 'w sync_env = "'w win_files" +
  g_attributes :: "wstr \<Rightarrow> 'w \<Rightarrow> file_kind \<times> 'w"
  g_create_directory :: "wstr \<Rightarrow> 'w \<Rightarrow> bool \<times> 'w"         \<comment> \<open>created, or \<open>ERROR_ALREADY_EXISTS\<close>\<close>
  g_stat :: "wstr \<Rightarrow> 'w \<Rightarrow> (bool \<times> bool \<times> nat \<times> nat) option \<times> 'w"  \<comment> \<open>directory, reparse, size, ticks\<close>
  g_reads :: "wstr \<Rightarrow> 'w \<Rightarrow> byte list option list option \<times> 'w"
  g_open_read :: "wstr \<Rightarrow> 'w \<Rightarrow> bool \<times> 'w"
  g_read_at :: "wstr \<Rightarrow> int \<Rightarrow> int \<Rightarrow> 'w \<Rightarrow> byte list option \<times> 'w"  \<comment> \<open>position, size\<close>
  g_open_always :: "wstr \<Rightarrow> 'w \<Rightarrow> nat option option \<times> 'w"   \<comment> \<open>and \<open>GetFileSizeEx\<close>\<close>
  g_append :: "wstr \<Rightarrow> byte list \<Rightarrow> 'w \<Rightarrow> bool \<times> 'w"          \<comment> \<open>\<open>WriteFile\<close> at the end\<close>
  g_create_always :: "wstr \<Rightarrow> 'w \<Rightarrow> bool \<times> 'w"
  g_find :: "wstr \<Rightarrow> 'w \<Rightarrow> find_files \<times> 'w"
  g_cancelled :: "'w \<Rightarrow> bool \<times> 'w"
  g_digest_ok :: "'w \<Rightarrow> bool \<times> 'w"
  g_sha256 :: "byte list \<Rightarrow> byte list"
  g_parse :: "byte list \<Rightarrow> json option"
  g_column_int :: "json \<Rightarrow> int"                            \<comment> \<open>\<open>sqlite3_column_int64\<close> of a text or a real\<close>
  g_affinity_int :: "json \<Rightarrow> int option"                   \<comment> \<open>of a text or a real in an \<open>INTEGER\<close> column\<close>
  g_print :: "json \<Rightarrow> byte list"
  g_sql :: "'w \<Rightarrow> bool \<times> 'w"
  g_open_index :: "byte list \<Rightarrow> 'w \<Rightarrow> opened_index option \<times> 'w"
  g_wide :: "byte list \<Rightarrow> wstr option"                     \<comment> \<open>\<open>MultiByteToWideChar\<close>\<close>
  g_narrow :: "wstr \<Rightarrow> byte list option"
  g_random :: "nat \<Rightarrow> 'w \<Rightarrow> byte list \<times> 'w"
  g_send :: "byte list \<Rightarrow> 'w \<Rightarrow> bool \<times> 'w"                 \<comment> \<open>\<open>ssh_client_protocol_write\<close>\<close>
  g_receive :: "int \<Rightarrow> 'w \<Rightarrow> byte list option \<times> 'w"
  g_ssh_cancelled :: "'w \<Rightarrow> bool"                           \<comment> \<open>\<open>error->cancelled\<close>\<close>
  g_connect :: "'w \<Rightarrow> bool \<times> 'w"
  g_protocol_open :: "wstr \<Rightarrow> wstr \<Rightarrow> 'w \<Rightarrow> bool \<times> 'w"
  g_compress :: "byte list \<Rightarrow> byte list option"
  g_inflate :: "byte list \<Rightarrow> int \<Rightarrow> (byte list \<times> nat) option"   \<comment> \<open>at \<open>Z_STREAM_END\<close>: the output, the input used\<close>
  g_recycle :: "(wstr \<Rightarrow> int \<Rightarrow> int \<Rightarrow> 'w \<Rightarrow> bool \<times> 'w) option"
  g_path_match :: "wstr \<Rightarrow> wstr \<Rightarrow> bool"
  g_path_prefix :: "wstr \<Rightarrow> wstr \<Rightarrow> bool"
  g_tick :: "'w \<Rightarrow> int \<times> 'w"
  g_progress :: "(SyncProgress \<Rightarrow> 'w \<Rightarrow> 'w) option"

type_synonym ('w, 'a) sync_cmd = "('w Run, 'a) state"

definition call :: "('w \<Rightarrow> 'a \<times> 'w) \<Rightarrow> ('w, 'a) sync_cmd" where
  "call f = State (\<lambda>s. case f (rn_world s) of (r, w) \<Rightarrow> (r, s\<lparr>rn_world := w\<rparr>))"

lemma wp_call: "wp (call f) Q s = (case f (rn_world s) of (r, w) \<Rightarrow> Q r (s\<lparr>rn_world := w\<rparr>))"
  by (simp add: call_def wp_def split: prod.splits)

definition u64 :: "int \<Rightarrow> int" where
  \<comment> \<open>\<open>(uint64_t)\<close>\<close>
  "u64 i = i mod 2 ^ 64"

subsection \<open>Failure, cancellation and progress\<close>

definition put_result :: "(SyncResult \<Rightarrow> SyncResult) \<Rightarrow> ('w, unit) sync_cmd" where
  "put_result f = modify (\<lambda>s. s\<lparr>rn_result := f (rn_result s)\<rparr>)"

definition put_stats :: "(SyncStats \<Rightarrow> SyncStats) \<Rightarrow> ('w, unit) sync_cmd" where
  "put_stats f = put_result (\<lambda>r. r\<lparr>sr_stats := f (sr_stats r)\<rparr>)"

definition sy_fail :: "SyncFailure \<Rightarrow> ('w, bool) sync_cmd" where
  "sy_fail code = do {
     put_result (\<lambda>r. if sr_failure r = SYNC_OK \<or> code = SYNC_CANCELLED then r\<lparr>sr_failure := code\<rparr> else r);
     ret False }"

definition or_fail :: "SyncFailure \<Rightarrow> ('w, bool) sync_cmd \<Rightarrow> ('w, bool) sync_cmd" where
  \<comment> \<open>\<open>...||sy_fail(r,code)\<close>\<close>
  "or_fail code c = do { ok \<leftarrow> c; if ok then ret True else sy_fail code }"

definition failed :: "SyncFailure \<Rightarrow> ('w, 'a option) sync_cmd" where
  \<comment> \<open>\<open>sy_fail(r,code);return NULL;\<close>\<close>
  "failed code = do { sy_fail code; ret None }"

definition sy_cancel :: "'w sync_env \<Rightarrow> ('w, bool) sync_cmd" where
  "sy_cancel E = do {
     cancelled \<leftarrow> call (g_cancelled E);
     if cancelled then do { sy_fail SYNC_CANCELLED; ret True } else ret False }"

definition sy_progress :: "'w sync_env \<Rightarrow> SyncPhase \<Rightarrow> wstr option \<Rightarrow> int \<Rightarrow> int \<Rightarrow> ('w, unit) sync_cmd" where
  "sy_progress E phase path current whole = do {
     modify (\<lambda>s. s\<lparr>rn_phase := phase\<rparr>);
     now \<leftarrow> call (g_tick E);
     last \<leftarrow> gets rn_progress_tick;
     result \<leftarrow> gets rn_result;
     case g_progress E of
       None \<Rightarrow> ret ()
     | Some report \<Rightarrow>
         if u64 (now - last) < 150 \<and> current \<noteq> whole then ret ()
         else modify (\<lambda>s. s\<lparr>rn_progress_tick := now, rn_world := report
           \<lparr>pg_phase = phase, pg_done = current, pg_total = whole, pg_path = (case path of None \<Rightarrow> [] | Some p \<Rightarrow> take (SYNC_PATH_CAP - 1) p),
            pg_stats = sr_stats result\<rparr> (rn_world s)\<rparr>) }"

subsection \<open>Texts\<close>

definition sync_wide :: "'w sync_env \<Rightarrow> byte list \<Rightarrow> nat \<Rightarrow> wstr option" where
  "sync_wide E s cap = (case g_wide E s of Some t \<Rightarrow> if length t + 1 \<le> cap then Some t else None | None \<Rightarrow> None)"

definition sync_utf8 :: "'w sync_env \<Rightarrow> wstr \<Rightarrow> byte list option" where
  "sync_utf8 E s = g_narrow E s"

definition sync_json_valid :: "'w sync_env \<Rightarrow> byte list \<Rightarrow> ('w, bool) sync_cmd" where
  "sync_json_valid E json =
     (if length json > SYNC_JSON_MAX then ret False
      else do {
        prepared \<leftarrow> call (g_sql E);
        if \<not> prepared then ret False
        else do { stepped \<leftarrow> call (g_sql E); ret (stepped \<and> g_parse E json \<noteq> None) } })"

definition json_select :: "'w sync_env \<Rightarrow> byte list \<Rightarrow> string list \<Rightarrow> ('w, json option) sync_cmd" where
  \<comment> \<open>the value of \<open>SELECT json_extract(?1,?2)\<close>, if there is a row; a malformed text is an error\<close>
  "json_select E json path = do {
     prepared \<leftarrow> call (g_sql E);
     if \<not> prepared then ret None
     else do { stepped \<leftarrow> call (g_sql E); ret (if stepped then Option.bind (g_parse E json) (json_path path) else None) } }"

definition json_column :: "'w sync_env \<Rightarrow> json option \<Rightarrow> byte list option" where
  \<comment> \<open>a \<open>TEXT\<close> column without NUL: a text, or the text of an array or object\<close>
  "json_column E v = (case v of
     Some (JText t) \<Rightarrow> if 0 \<notin> set t then Some (utf8 t) else None
   | Some (JArray xs) \<Rightarrow> Some (g_print E (JArray xs))
   | Some (JObject ms) \<Rightarrow> Some (g_print E (JObject ms))
   | _ \<Rightarrow> None)"

definition sync_json_string :: "'w sync_env \<Rightarrow> byte list \<Rightarrow> string list \<Rightarrow> ('w, byte list option) sync_cmd" where
  "sync_json_string E json path = do { v \<leftarrow> json_select E json path; ret (json_column E v) }"

definition bool_int :: "json option \<Rightarrow> json option" where
  \<comment> \<open>\<open>json_extract\<close> of true and false is 1 and 0\<close>
  "bool_int v = (case v of Some (JBool b) \<Rightarrow> Some (JInt (if b then 1 else 0)) | _ \<Rightarrow> v)"

definition sync_json_int :: "'w sync_env \<Rightarrow> byte list \<Rightarrow> string list \<Rightarrow> int \<Rightarrow> ('w, int) sync_cmd" where
  "sync_json_int E json path fallback = do { v \<leftarrow> json_select E json path; ret (int_value fallback (bool_int v)) }"

definition sync_json_patch ::
    "'w sync_env \<Rightarrow> byte list \<Rightarrow> string \<Rightarrow> byte list \<Rightarrow> bool \<Rightarrow> ('w, byte list option) sync_cmd" where
  \<comment> \<open>\<open>object\<close>: the value is JSON, else it becomes a text\<close>
  "sync_json_patch E json key value object = do {
     prepared \<leftarrow> call (g_sql E);
     if \<not> prepared then ret None
     else do {
       stepped \<leftarrow> call (g_sql E);
       ret (case (stepped, g_parse E json, if object then g_parse E value else map_option JText (g_wide E value)) of
              (True, Some j, Some v) \<Rightarrow> Some (g_print E (set_member key v j))
            | _ \<Rightarrow> None) } }"

definition sync_sha :: "'w sync_env \<Rightarrow> byte list \<Rightarrow> ('w, byte list option) sync_cmd" where
  "sync_sha E data = do { ok \<leftarrow> call (g_digest_ok E); ret (if ok then Some (hex_of (g_sha256 E data)) else None) }"

end
