(* ===== verification/Sync_Files.thy ===== *)
theory Sync_Files
  imports Sync_Run
begin

text \<open>
  \<open>src/src/platform/sync_files.c\<close>: paths and directories, the SHA-256 of a file, the chunk cache, in which
  a file is named by the hash of what it holds, and the statements on the local index.
\<close>

subsection \<open>Paths\<close>

definition sy_join :: "wstr \<Rightarrow> wstr \<Rightarrow> wstr option" where
  "sy_join root name = (if length root + length name + 2 \<ge> SYNC_PATH_CAP then None else Some (root @ [92] @ name))"

definition is_directory :: "file_kind \<Rightarrow> bool" where
  \<comment> \<open>there, a directory and not a reparse point\<close>
  "is_directory a = (case a of Kind d reparse \<Rightarrow> d \<and> \<not> reparse | _ \<Rightarrow> False)"

definition is_there :: "file_kind \<Rightarrow> bool" where
  "is_there a = (case a of Kind _ _ \<Rightarrow> True | _ \<Rightarrow> False)"

definition is_link :: "file_kind \<Rightarrow> bool" where
  \<comment> \<open>there, and a reparse point\<close>
  "is_link a = (case a of Kind _ reparse \<Rightarrow> reparse | _ \<Rightarrow> False)"

fun make_all :: "'w sync_env \<Rightarrow> wstr list \<Rightarrow> ('w, bool) sync_cmd" where
  "make_all E [] = ret True"
| "make_all E (p # ps) = do {
     a \<leftarrow> call (g_attributes E p);
     created \<leftarrow> (if is_there a then ret True else call (g_create_directory E p));
     if \<not> created then ret False
     else do {
       a \<leftarrow> (if is_there a then ret a else call (g_attributes E p));
       if \<not> is_directory a then ret False else make_all E ps } }"

definition path_prefixes :: "wstr \<Rightarrow> wstr list" where
  \<comment> \<open>the path cut at each backslash after the drive (\<open>copy+3\<close>), and the path itself\<close>
  "path_prefixes path = map (\<lambda>i. take i path) (filter (\<lambda>i. i = length path \<or> path ! i = 92) [3..<length path + 1])"

definition sy_mkdirs :: "'w sync_env \<Rightarrow> wstr \<Rightarrow> ('w, bool) sync_cmd" where
  "sy_mkdirs E path =
     (if length path \<ge> SYNC_PATH_CAP \<or> path = [] then ret False else make_all E (path_prefixes path))"

definition sy_regular :: "'w sync_env \<Rightarrow> wstr \<Rightarrow> ('w, bool) sync_cmd" where
  "sy_regular E path = do { a \<leftarrow> call (g_attributes E path); ret (case a of Kind d reparse \<Rightarrow> \<not> d \<and> \<not> reparse | _ \<Rightarrow> False) }"

definition UNIX_TICKS :: int where "UNIX_TICKS = 116444736000000000"
definition INT64_MAX :: int where "INT64_MAX = 2 ^ 63 - 1"

definition sy_meta :: "'w sync_env \<Rightarrow> wstr \<Rightarrow> ('w, (int \<times> int) option) sync_cmd" where
  \<comment> \<open>size and modification time in nanoseconds\<close>
  "sy_meta E path = do {
     data \<leftarrow> call (g_stat E path);
     ret (case data of
            None \<Rightarrow> None
          | Some (d, reparse, n, t) \<Rightarrow>
              if d \<or> reparse then None
              else if int t < UNIX_TICKS \<or> int t - UNIX_TICKS > INT64_MAX div 100 then None
              else Some (int n, (int t - UNIX_TICKS) * 100)) }"

subsection \<open>The hash of a file\<close>

fun hash_reads :: "'w sync_env \<Rightarrow> byte list \<Rightarrow> byte list option list \<Rightarrow> ('w, byte list option) sync_cmd" where
  \<comment> \<open>the loop, with the bytes hashed so far\<close>
  "hash_reads E acc [] = do { cancelled \<leftarrow> call (g_cancelled E); ret (if cancelled then None else Some acc) }"
| "hash_reads E acc (r # rs) = do {
     cancelled \<leftarrow> call (g_cancelled E);
     if cancelled then ret None
     else (case r of
       None \<Rightarrow> ret None
     | Some data \<Rightarrow> do {
         ok \<leftarrow> call (g_digest_ok E);
         if ok then hash_reads E (acc @ data) rs else ret None }) }"

definition hash_opened :: "'w sync_env \<Rightarrow> byte list option list \<Rightarrow> int \<Rightarrow> int \<Rightarrow> ('w, (byte list \<times> int \<times> int) option) sync_cmd" where
  \<comment> \<open>with the file open; the bytes read must be as many as its size was\<close>
  "hash_opened E rs initial nanos = do {
     ok \<leftarrow> call (g_digest_ok E);
     if \<not> ok then ret None
     else do {
       bytes \<leftarrow> hash_reads E [] rs;
       case bytes of None \<Rightarrow> ret None | Some bytes \<Rightarrow>
       if int (length bytes) \<noteq> initial then ret None
       else do {
         final \<leftarrow> call (g_digest_ok E);
         ret (if final then Some (hex_of (g_sha256 E bytes), int (length bytes), nanos) else None) } } }"

definition sync_hash_file :: "'w sync_env \<Rightarrow> wstr \<Rightarrow> ('w, (byte list \<times> int \<times> int) option) sync_cmd" where
  \<comment> \<open>hash, size and time\<close>
  "sync_hash_file E path = do {
     meta \<leftarrow> sy_meta E path;
     case meta of None \<Rightarrow> ret None | Some (initial, nanos) \<Rightarrow> do {
     file \<leftarrow> call (g_reads E path);
     case file of None \<Rightarrow> ret None | Some rs \<Rightarrow> hash_opened E rs initial nanos } }"

subsection \<open>The chunk cache\<close>

definition cache_name :: "'w sync_env \<Rightarrow> wstr \<Rightarrow> byte list \<Rightarrow> wstr option" where
  "cache_name E cache hash = (case sync_wide E hash 80 of None \<Rightarrow> None | Some name \<Rightarrow> sy_join cache name)"

definition cache_temporary :: "wstr \<Rightarrow> byte list \<Rightarrow> wstr option" where
  \<comment> \<open>\<open>"%ls.%08x.tmp"\<close> with four random bytes, if it fits\<close>
  "cache_temporary target nonce =
     (let t = target @ W ''.'' @ map (\<lambda>b. of_nat (unat b)) (hex_of nonce) @ W ''.tmp''
      in if length t < SYNC_PATH_CAP then Some t else None)"

definition cache_write :: "'w sync_env \<Rightarrow> wstr \<Rightarrow> wstr \<Rightarrow> byte list \<Rightarrow> ('w, bool) sync_cmd" where
  \<comment> \<open>from \<open>CreateFileW(temporary,...)\<close> on\<close>
  "cache_write E temporary target data = do {
     created \<leftarrow> call (f_create_new E temporary);
     if \<not> created then sy_fail SYNC_CACHE
     else do {
       written \<leftarrow> call (f_write E temporary data);
       flushed \<leftarrow> (if written = Some (length data) then call (f_flush E temporary) else ret False);
       moved \<leftarrow> (if flushed then call (f_move E temporary target True) else ret False);
       (if moved then ret False else call (f_delete E temporary));
       or_fail SYNC_CACHE (ret moved) } }"

definition sy_cache :: "'w sync_env \<Rightarrow> byte list \<Rightarrow> ('w, bool \<times> byte list) sync_cmd" where
  \<comment> \<open>the result and the hash\<close>
  "sy_cache E data = do {
     h \<leftarrow> sync_sha E data;
     case h of
       None \<Rightarrow> do { ok \<leftarrow> sy_fail SYNC_CACHE; ret (ok, []) }
     | Some hash \<Rightarrow> do {
         cache \<leftarrow> gets rn_cache;
         ok \<leftarrow> (case cache_name E cache hash of
             None \<Rightarrow> sy_fail SYNC_PATH
           | Some target \<Rightarrow> do {
               a \<leftarrow> call (g_attributes E target);
               if is_there a then do {
                 v \<leftarrow> sync_hash_file E target;
                 or_fail SYNC_CACHE (ret (case v of None \<Rightarrow> False | Some (actual, n, _) \<Rightarrow> n = int (length data) \<and> actual = hash)) }
               else do {
                 nonce \<leftarrow> call (g_random E 4);
                 case cache_temporary target nonce of
                   None \<Rightarrow> sy_fail SYNC_PATH
                 | Some temporary \<Rightarrow> cache_write E temporary target data } });
         ret (ok, hash) } }"

subsection \<open>Statements\<close>

fun sql_steps :: "'w sync_env \<Rightarrow> nat \<Rightarrow> ('w, bool) sync_cmd" where
  \<comment> \<open>calls of SQLite chained with \<open>&&\<close>\<close>
  "sql_steps E 0 = ret True"
| "sql_steps E (Suc n) = do { ok \<leftarrow> call (g_sql E); if ok then sql_steps E n else ret False }"

definition apply_index :: "(Index \<Rightarrow> Index option) \<Rightarrow> ('w, bool) sync_cmd" where
  \<comment> \<open>the step of a statement; \<open>None\<close>: a constraint fails\<close>
  "apply_index f = do {
     d \<leftarrow> gets rn_index;
     case f d of None \<Rightarrow> ret False | Some d' \<Rightarrow> do { modify (\<lambda>s. s\<lparr>rn_index := d'\<rparr>); ret True } }"

definition sy_begin :: "'w sync_env \<Rightarrow> ('w, bool) sync_cmd" where
  \<comment> \<open>\<open>sy_exec(r,"BEGIN IMMEDIATE")\<close>\<close>
  "sy_begin E = do {
     ok \<leftarrow> call (g_sql E);
     begun \<leftarrow> gets rn_begun;
     if ok \<and> begun = None then do { modify (\<lambda>s. s\<lparr>rn_begun := Some (rn_index s)\<rparr>); ret True } else sy_fail SYNC_STORAGE }"

definition sy_commit :: "'w sync_env \<Rightarrow> ('w, bool) sync_cmd" where
  "sy_commit E = do {
     ok \<leftarrow> call (g_sql E);
     begun \<leftarrow> gets rn_begun;
     if ok \<and> begun \<noteq> None then do { modify (\<lambda>s. s\<lparr>rn_begun := None\<rparr>); ret True } else sy_fail SYNC_STORAGE }"

definition sy_rollback :: "('w, unit) sync_cmd" where
  "sy_rollback = modify (\<lambda>s. case rn_begun s of None \<Rightarrow> s | Some d \<Rightarrow> s\<lparr>rn_index := d, rn_begun := None\<rparr>)"

definition sy_exec :: "'w sync_env \<Rightarrow> (Index \<Rightarrow> Index option) \<Rightarrow> ('w, bool) sync_cmd" where
  "sy_exec E f = do {
     ok \<leftarrow> call (g_sql E);
     or_fail SYNC_STORAGE (if ok then apply_index f else ret False) }"

definition sy_statement :: "'w sync_env \<Rightarrow> nat \<Rightarrow> (Index \<Rightarrow> Index option) \<Rightarrow> ('w, bool) sync_cmd" where
  \<comment> \<open>prepared, \<open>n\<close> texts bound, and its step\<close>
  "sy_statement E n f = do {
     ok \<leftarrow> sql_steps E (n + 2);
     or_fail SYNC_STORAGE (if ok then apply_index f else ret False) }"

definition sy_query :: "'w sync_env \<Rightarrow> (Index \<Rightarrow> byte list option) \<Rightarrow> ('w, byte list option) sync_cmd" where
  \<comment> \<open>the text of the first row; \<open>None\<close> without a failure when there is none\<close>
  "sy_query E f = do {
     prepared \<leftarrow> call (g_sql E);
     if \<not> prepared then failed SYNC_STORAGE
     else do {
       stepped \<leftarrow> call (g_sql E);
       d \<leftarrow> gets rn_index;
       if stepped then ret (f d) else failed SYNC_STORAGE } }"

subsection \<open>Opening the index\<close>

definition FILES_COLUMNS :: "byte list" where "FILES_COLUMNS = C ''dataset,path_key,path,job,manifest,stat_size,stat_mtime''"
definition OUTBOX_COLUMNS :: "byte list" where "OUTBOX_COLUMNS = C ''id,dataset,manifest,source_size,source_mtime''"
definition INBOX_COLUMNS :: "byte list" where "INBOX_COLUMNS = C ''id,dataset,manifest,mhash,phase''"

fun check_columns :: "'w sync_env \<Rightarrow> (byte list option \<times> byte list) list \<Rightarrow> ('w, bool) sync_cmd" where
  \<comment> \<open>\<open>pragma_table_info\<close> of each table: one that is missing was just created, one that exists keeps its columns\<close>
  "check_columns E [] = ret True"
| "check_columns E ((c, expected) # cs) = do {
     actual \<leftarrow> sy_query E (\<lambda>d. Some (case c of None \<Rightarrow> expected | Some x \<Rightarrow> x));
     if actual = Some expected then check_columns E cs else ret False }"

definition index_tables :: "'w sync_env \<Rightarrow> opened_index \<Rightarrow> ('w, bool) sync_cmd" where
  \<comment> \<open>the tables are made and checked in one transaction, then \<open>user_version\<close> is 1\<close>
  "index_tables E v = do {
     ok \<leftarrow> sy_begin E;
     ok \<leftarrow> (if ok then sy_exec E Some else ret False);
     ok \<leftarrow> (if ok then sy_exec E Some else ret False);
     ok \<leftarrow> (if ok then check_columns E (zip (oi_columns v) [FILES_COLUMNS, OUTBOX_COLUMNS, INBOX_COLUMNS]) else ret False);
     ok \<leftarrow> (if ok then sy_commit E else ret False);
     if ok then ret True else do { sy_rollback; sy_fail SYNC_STORAGE } }"

definition index_directories :: "'w sync_env \<Rightarrow> ('w, wstr option) sync_cmd" where
  "index_directories E = do {
     state \<leftarrow> gets (rq_state_directory \<circ> rn_request);
     made \<leftarrow> sy_mkdirs E state;
     case (made, sy_join state (W ''chunks''), sy_join state (W ''downloads'')) of
       (True, Some cache, Some partial) \<Rightarrow> do {
         modify (\<lambda>s. s\<lparr>rn_cache := cache, rn_partial := partial\<rparr>);
         made_cache \<leftarrow> sy_mkdirs E cache;
         made_partial \<leftarrow> (if made_cache then sy_mkdirs E partial else ret False);
         ret (if made_partial then sy_join state (W ''client.sqlite3'') else None) }
     | _ \<Rightarrow> ret None }"

definition sy_index_open :: "'w sync_env \<Rightarrow> ('w, bool) sync_cmd" where
  "sy_index_open E = do {
     p \<leftarrow> index_directories E;
     case p of None \<Rightarrow> sy_fail SYNC_PATH | Some path \<Rightarrow> do {
     a \<leftarrow> call (g_attributes E path);
     if is_link a then sy_fail SYNC_PATH
     else (case sync_utf8 E path of None \<Rightarrow> sy_fail SYNC_STORAGE | Some utf \<Rightarrow> do {
       opened \<leftarrow> call (g_open_index E utf);
       case opened of None \<Rightarrow> sy_fail SYNC_STORAGE | Some v \<Rightarrow> do {
       modify (\<lambda>s. s\<lparr>rn_index := oi_rows v, rn_begun := None\<rparr>);
       ok \<leftarrow> sql_steps E 2;
       if \<not> ok \<or> oi_version v < 0 \<or> oi_version v > 1 then sy_fail SYNC_STORAGE
       else index_tables E v } }) } }"

end
