(* ===== verification/Sync_Wire.thy ===== *)
theory Sync_Wire
  imports Sync_Files
begin

text \<open>
  \<open>src/src/platform/sync_wire.c\<close>: a request is a JSON text and bytes; on the connection each is a frame of
  eight bytes (both sizes, big-endian), the JSON and the bytes, packed when that saves space. The
  answer is checked before anything of it is used. Log lines are not modelled.
\<close>

definition json_field :: "byte list \<Rightarrow> byte list \<Rightarrow> byte list list" where
  \<comment> \<open>\<open>,"a":"av"\<close>\<close>
  "json_field a av = [C '',''] @ string_parts a @ [C '':''] @ string_parts av"

definition sy_fields ::
    "byte list \<Rightarrow> (byte list \<times> byte list) option \<Rightarrow> (byte list \<times> byte list) option \<Rightarrow> byte list option" where
  "sy_fields action a b = map_option sb_data (add_all empty_buffer
     ([C ''{\"action\":''] @ string_parts action
       @ (case a of None \<Rightarrow> [] | Some (k, v) \<Rightarrow> json_field k v)
       @ (case b of None \<Rightarrow> [] | Some (k, v) \<Rightarrow> json_field k v) @ [C ''}'']))"

record SyncReply =
  rp_json :: "byte list"
  rp_data :: "byte list"

definition device_letter :: "int \<Rightarrow> byte list" where
  \<comment> \<open>\<open>(char)('A'+role)\<close>\<close>
  "device_letter role = [of_int (65 + role)]"

definition rpc_header :: "'w sync_env \<Rightarrow> byte list \<Rightarrow> ('w, byte list option) sync_cmd" where
  \<comment> \<open>the request with the device and the node\<close>
  "rpc_header E request = do {
     settings \<leftarrow> gets (rq_settings \<circ> rn_request);
     case sync_utf8 E (st_node_id settings) of
       None \<Rightarrow> ret None
     | Some node \<Rightarrow> do {
         header \<leftarrow> sync_json_patch E request ''device'' (device_letter (st_role settings)) False;
         case header of None \<Rightarrow> ret None
         | Some h \<Rightarrow> sync_json_patch E h ''node_id'' node False } }"

definition rpc_pack :: "'w sync_env \<Rightarrow> byte list \<Rightarrow> byte list \<Rightarrow> ('w, (byte list \<times> byte list) option) sync_cmd" where
  \<comment> \<open>the header and the bytes of the frame\<close>
  "rpc_pack E header data =
     (if data = [] then ret (Some (header, []))
      else do {
        let packed = (case g_compress E data of Some p \<Rightarrow> if length p < length data * 95 div 100 then Some p else None | None \<Rightarrow> None);
        h \<leftarrow> (if packed = None then ret (Some header) else sync_json_patch E header ''_encoding'' (C ''zlib'') False);
        h \<leftarrow> (case h of None \<Rightarrow> ret None | Some h \<Rightarrow> sync_json_patch E h ''_raw_size'' (digits_of (length data)) True);
        ret (map_option (\<lambda>h. (h, case packed of None \<Rightarrow> data | Some p \<Rightarrow> p)) h) })"

definition frame_prefix :: "nat \<Rightarrow> nat \<Rightarrow> byte list" where
  "frame_prefix json_size binary_size = be_bytes 4 json_size @ be_bytes 4 binary_size"

definition network_failure :: "'w sync_env \<Rightarrow> ('w, 'a option) sync_cmd" where
  "network_failure E = do { w \<leftarrow> gets rn_world; failed (if g_ssh_cancelled E w then SYNC_CANCELLED else SYNC_NETWORK) }"

definition rpc_send :: "'w sync_env \<Rightarrow> byte list \<Rightarrow> byte list \<Rightarrow> ('w, bool) sync_cmd" where
  "rpc_send E header wire = do {
     ok \<leftarrow> call (g_send E (frame_prefix (length header) (length wire)));
     ok \<leftarrow> (if ok then call (g_send E header) else ret False);
     (if ok \<and> wire \<noteq> [] then call (g_send E wire) else ret ok) }"

definition rpc_receive :: "'w sync_env \<Rightarrow> ('w, (byte list \<times> byte list) option) sync_cmd" where
  \<comment> \<open>the JSON and the bytes of one frame\<close>
  "rpc_receive E = do {
     prefix \<leftarrow> call (g_receive E 8);
     case prefix of None \<Rightarrow> network_failure E | Some prefix \<Rightarrow> do {
     let json_size = be_value (take 4 prefix);
     let binary_size = be_value (take 4 (drop 4 prefix));
     if json_size = 0 \<or> json_size > SYNC_JSON_MAX \<or> binary_size > SYNC_PACKET_MAX then failed SYNC_PROTOCOL
     else do {
       header \<leftarrow> call (g_receive E (int json_size));
       binary \<leftarrow> (if header = None then ret None else if binary_size = 0 then ret (Some []) else call (g_receive E (int binary_size)));
       case (header, binary) of
         (Some h, Some b) \<Rightarrow> do {
           valid \<leftarrow> (if 0 \<in> set h then ret False else sync_json_valid E h);
           if valid then ret (Some (h, b)) else failed SYNC_PROTOCOL }
       | _ \<Rightarrow> network_failure E } } }"

definition rpc_unpack :: "'w sync_env \<Rightarrow> byte list \<Rightarrow> byte list \<Rightarrow> ('w, byte list option) sync_cmd" where
  \<comment> \<open>the bytes the header announces; \<open>None\<close>: not \<open>ok\<close>\<close>
  "rpc_unpack E header binary = do {
     encoding \<leftarrow> sync_json_string E header [''_encoding''];
     raw_size \<leftarrow> sync_json_int E header [''_raw_size''] 0;
     ret (if raw_size < 0 \<or> raw_size > int SYNC_PACKET_MAX then None
          else (case encoding of
            Some e \<Rightarrow>
              if e \<noteq> C ''zlib'' then None
              else (case g_inflate E binary (raw_size + 1) of
                Some (out, used) \<Rightarrow> if int (length out) = raw_size \<and> used = length binary then Some out else None
              | None \<Rightarrow> None)
          | None \<Rightarrow> if raw_size = int (length binary) then Some binary else None)) }"

definition NO_SUCH_REQUEST :: "byte list" where
  "NO_SUCH_REQUEST = utf8 [0x4E0D, 0x652F, 0x6301, 0x7684, 0x8BF7, 0x6C42]"

definition rejection_code :: "byte list option \<Rightarrow> SyncFailure" where
  "rejection_code code =
     (if code = Some (C ''moved'') then SYNC_MOVED else if code = Some (C ''frozen'') then SYNC_FROZEN
      else if code = Some (C ''conflict'') then SYNC_CONFLICT else SYNC_REMOTE)"

definition rpc_rejected :: "'w sync_env \<Rightarrow> byte list \<Rightarrow> byte list \<Rightarrow> ('w, SyncReply option) sync_cmd" where
  \<comment> \<open>the answer is not \<open>ok\<close>\<close>
  "rpc_rejected E request header = do {
     message \<leftarrow> sync_json_string E header [''error''];
     code \<leftarrow> sync_json_string E header [''code''];
     reason \<leftarrow> (if code = Some (C ''unsupported'') \<or> message = Some NO_SUCH_REQUEST
        then do {
          action \<leftarrow> sync_json_string E request [''action''];
          ret (if action \<in> Some ` set [C ''overview'', C ''repairs'', C ''repair_prepare''] then SYNC_UPGRADE else rejection_code code) }
        else ret (rejection_code code));
     route \<leftarrow> sync_json_string E header [''state''];
     put_result (\<lambda>r. r\<lparr>sr_route := route\<rparr>);
     (case Option.bind message (\<lambda>m. sync_wide E m 1024) of
        None \<Rightarrow> ret () | Some t \<Rightarrow> put_result (\<lambda>r. r\<lparr>sr_detail := t\<rparr>));
     failed reason }"

definition sy_rpc :: "'w sync_env \<Rightarrow> byte list \<Rightarrow> byte list \<Rightarrow> ('w, SyncReply option) sync_cmd" where
  "sy_rpc E request data = do {
     cancelled \<leftarrow> sy_cancel E;
     if cancelled \<or> length data > SYNC_PACKET_MAX then ret None
     else do {
     header \<leftarrow> rpc_header E request;
     frame \<leftarrow> (case header of None \<Rightarrow> ret None | Some h \<Rightarrow> rpc_pack E h data);
     case frame of None \<Rightarrow> failed SYNC_STORAGE | Some (header, wire) \<Rightarrow> do {
     sent \<leftarrow> rpc_send E header wire;
     if \<not> sent then network_failure E
     else do {
     put_stats (\<lambda>t. t\<lparr>sx_sent := u64 (sx_sent t + int (length wire))\<rparr>);
     answer \<leftarrow> rpc_receive E;
     case answer of None \<Rightarrow> ret None | Some (h, binary) \<Rightarrow> do {
     put_stats (\<lambda>t. t\<lparr>sx_received := u64 (sx_received t + int (length binary))\<rparr>);
     bytes \<leftarrow> rpc_unpack E h binary;
     case bytes of None \<Rightarrow> failed SYNC_PROTOCOL | Some bytes \<Rightarrow> do {
     accepted \<leftarrow> sync_json_int E h [''ok''] 0;
     if accepted \<noteq> 1 then rpc_rejected E request h
     else do {
       result \<leftarrow> sync_json_string E h [''result''];
       case result of None \<Rightarrow> failed SYNC_PROTOCOL
       | Some j \<Rightarrow> ret (Some \<lparr>rp_json = j, rp_data = bytes\<rparr>) } } } } } } }"

end
