(* ===== verification/Sync_Transfer.thy ===== *)
theory Sync_Transfer
  imports Sync_Wire
begin

text \<open>
  \<open>src/src/platform/sync_client.c\<close>, first part: publishing a version of a file (its chunks, its manifest, the
  outbox) and receiving one (its chunks, the check of the local file, the replacement, the receipt).
\<close>

subsection \<open>Requests, paths and files\<close>

definition request :: "'w sync_env \<Rightarrow> byte list option \<Rightarrow> byte list \<Rightarrow> ('w, SyncReply option) sync_cmd" where
  \<comment> \<open>\<open>text&&sy_rpc(r,text,...)\<close>\<close>
  "request E text data = (case text of None \<Rightarrow> ret None | Some t \<Rightarrow> sy_rpc E t data)"

definition command :: "'w sync_env \<Rightarrow> byte list \<Rightarrow> (byte list \<times> byte list) option \<Rightarrow> ('w, SyncReply option) sync_cmd" where
  "command E action field = request E (sy_fields action field None) []"

definition is_hex :: "byte \<Rightarrow> bool" where "is_hex c \<longleftrightarrow> (48 \<le> c \<and> c \<le> 57) \<or> (97 \<le> c \<and> c \<le> 102)"

definition cache_path :: "'w sync_env \<Rightarrow> byte list option \<Rightarrow> ('w, wstr option) sync_cmd" where
  "cache_path E hash = (case hash of
     None \<Rightarrow> failed SYNC_PROTOCOL
   | Some h \<Rightarrow>
       if length h \<noteq> 64 \<or> \<not> list_all is_hex h then failed SYNC_PROTOCOL
       else do {
         cache \<leftarrow> gets rn_cache;
         case cache_name E cache h of None \<Rightarrow> failed SYNC_PATH | Some p \<Rightarrow> ret (Some p) })"

fun no_links :: "'w sync_env \<Rightarrow> wstr list \<Rightarrow> ('w, bool) sync_cmd" where
  "no_links E [] = ret True"
| "no_links E (p # ps) = do { a \<leftarrow> call (g_attributes E p); if is_link a then ret False else no_links E ps }"

definition target_path :: "'w sync_env \<Rightarrow> byte list \<Rightarrow> ('w, wstr option) sync_cmd" where
  "target_path E relative = do {
     directory \<leftarrow> gets (sp_directory \<circ> rq_pair \<circ> rn_request);
     case Option.bind (sync_wide E relative SYNC_PATH_CAP)
            (\<lambda>name. if sync_relative_path (Some name) then sy_join directory name else None) of
       None \<Rightarrow> failed SYNC_PATH
     | Some joined \<Rightarrow> do {
         let path = map fold_separator joined;
         ok \<leftarrow> no_links E (map (\<lambda>i. take i path) (filter (\<lambda>i. path ! i = 92) [3..<length path]) @ [path]);
         if ok then ret (Some path) else failed SYNC_PATH } }"

record Probe =
  pr_exists :: bool
  pr_hash :: "byte list"
  pr_size :: int
  pr_mtime :: int

definition absent_probe :: Probe where "absent_probe = \<lparr>pr_exists = False, pr_hash = [], pr_size = 0, pr_mtime = 0\<rparr>"

definition probe :: "'w sync_env \<Rightarrow> wstr \<Rightarrow> ('w, Probe option) sync_cmd" where
  "probe E path = do {
     a \<leftarrow> call (g_attributes E path);
     case a of
       Absent \<Rightarrow> ret (Some absent_probe)
     | Unknown \<Rightarrow> failed SYNC_PATH
     | Kind _ _ \<Rightarrow> do {
         v \<leftarrow> sync_hash_file E path;
         case v of
           Some (h, n, t) \<Rightarrow> ret (Some \<lparr>pr_exists = True, pr_hash = h, pr_size = n, pr_mtime = t\<rparr>)
         | None \<Rightarrow> do { cancelled \<leftarrow> sy_cancel E; failed (if cancelled then SYNC_CANCELLED else SYNC_PATH) } } }"

subsection \<open>Rows\<close>

fun each_value :: "'w sync_env \<Rightarrow> json list \<Rightarrow> json list" where
  \<comment> \<open>the rows on which \<open>json_extract(value,...)\<close> is defined: a text is read as JSON, and one that is not ends the rows\<close>
  "each_value E [] = []"
| "each_value E (v # vs) = (case v of
     JText t \<Rightarrow> (case g_parse E (utf8 t) of None \<Rightarrow> [] | Some j \<Rightarrow> j # each_value E vs)
   | _ \<Rightarrow> v # each_value E vs)"

definition elements :: "json option \<Rightarrow> json list" where
  \<comment> \<open>the \<open>value\<close> column of \<open>json_each\<close>\<close>
  "elements v = (case v of None \<Rightarrow> [] | Some (JArray xs) \<Rightarrow> xs | Some (JObject ms) \<Rightarrow> map snd ms | Some x \<Rightarrow> [x])"

definition column_text :: "'w sync_env \<Rightarrow> json option \<Rightarrow> byte list option" where
  \<comment> \<open>\<open>sqlite3_column_text\<close>, as a C string\<close>
  "column_text E v = (case bool_int v of
     None \<Rightarrow> None
   | Some JNull \<Rightarrow> None
   | Some (JText t) \<Rightarrow> Some (utf8 (takeWhile (\<lambda>c. c \<noteq> 0) t))
   | Some x \<Rightarrow> Some (g_print E x))"

definition column_int :: "'w sync_env \<Rightarrow> json option \<Rightarrow> int" where
  "column_int E v = (case bool_int v of None \<Rightarrow> 0 | Some (JInt i) \<Rightarrow> i | Some JNull \<Rightarrow> 0 | Some x \<Rightarrow> g_column_int E x)"

fun each_row :: "'w sync_env \<Rightarrow> ('r \<Rightarrow> ('w, bool) sync_cmd) \<Rightarrow> 'r list \<Rightarrow> ('w, bool) sync_cmd" where
  \<comment> \<open>\<open>while(ok&&sqlite3_step(s)==SQLITE_ROW)ok=f(row);\<close>\<close>
  "each_row E f [] = do { call (g_sql E); ret True }"
| "each_row E f (x # xs) = do {
     stepped \<leftarrow> call (g_sql E);
     if \<not> stepped then ret True
     else do { ok \<leftarrow> f x; if ok then each_row E f xs else ret False } }"

definition chunk_rows :: "'w sync_env \<Rightarrow> string \<Rightarrow> byte list \<Rightarrow> (byte list option \<times> int) list" where
  \<comment> \<open>hash and size of each element of the array at \<open>$.key\<close>\<close>
  "chunk_rows E key text = map (\<lambda>v. (column_text E (member_of ''hash'' v), u64 (column_int E (member_of ''size'' v))))
     (each_value E (elements (Option.bind (g_parse E text) (member_of key))))"

definition pairs_array :: "'w sync_env \<Rightarrow> ((byte list option \<times> int) \<Rightarrow> ('w, bool) sync_cmd) \<Rightarrow> byte list \<Rightarrow> ('w, bool) sync_cmd" where
  \<comment> \<open>\<open>pairs_array\<close> and the loop over its rows\<close>
  "pairs_array E f manifest = do {
     prepared \<leftarrow> call (g_sql E);
     if \<not> prepared then sy_fail SYNC_PROTOCOL else each_row E f (chunk_rows E ''chunks'' manifest) }"

subsection \<open>Manifests\<close>

definition number_part :: "byte list \<Rightarrow> int \<Rightarrow> byte list \<Rightarrow> byte list" where
  "number_part before n after = before @ digits_of (nat n) @ after"

definition metadata ::
    "'w sync_env \<Rightarrow> byte list \<Rightarrow> byte list option \<Rightarrow> byte list option \<Rightarrow> int \<Rightarrow> int \<Rightarrow> byte list \<Rightarrow> bool
     \<Rightarrow> ('w, byte list option) sync_cmd" where
  "metadata E relative parent sha n mtime chunks deleting = do {
     random \<leftarrow> call (g_random E 16);
     rq \<leftarrow> gets rn_request;
     case Option.bind (sync_utf8 E (sp_dataset (rq_pair rq))) (\<lambda>dataset. add_all empty_buffer
         ([C ''{\"chunker\":\"gear-v1-128k-512k-2m\",\"chunks\":'', chunks, C '',\"dataset\":''] @ string_parts dataset
          @ [C '',\"format\":\"chunksync-v2\",\"id\":''] @ string_parts (hex_of random)
          @ [C '',\"kind\":''] @ string_parts (if deleting then C ''DELETE'' else C ''PUT'')
          @ [number_part (C '',\"mtime_ns\":'') mtime (C '',\"origin\":'')] @ string_parts (device_letter (st_role (rq_settings rq)))
          @ [C '',\"parent\":''] @ (case parent of Some p \<Rightarrow> string_parts p | None \<Rightarrow> [C ''null''])
          @ [C '',\"path\":''] @ string_parts relative
          @ [C '',\"sha256\":''] @ (case sha of Some h \<Rightarrow> string_parts h | None \<Rightarrow> [C ''null''])
          @ [number_part (C '',\"size\":'') n (C ''}'')])) of
       None \<Rightarrow> failed SYNC_STORAGE
     | Some b \<Rightarrow> ret (Some (sb_data b)) }"

definition insert_outbox :: "OutboxRow \<Rightarrow> Index \<Rightarrow> Index option" where
  "insert_outbox row d = (if ob_id row \<in> ob_id ` set (ix_outbox d) then None else Some (d\<lparr>ix_outbox := ix_outbox d @ [row]\<rparr>))"

definition outbox_store :: "'w sync_env \<Rightarrow> byte list \<Rightarrow> int \<Rightarrow> int \<Rightarrow> ('w, bool) sync_cmd" where
  "outbox_store E manifest n mtime = do {
     ident \<leftarrow> sync_json_string E manifest [''id''];
     rq \<leftarrow> gets rn_request;
     or_fail SYNC_STORAGE (case (ident, sync_utf8 E (sp_dataset (rq_pair rq))) of
         (Some i, Some dataset) \<Rightarrow> do {
           ok \<leftarrow> sql_steps E 2;
           if ok then apply_index (insert_outbox \<lparr>ob_id = i, ob_dataset = dataset, ob_manifest = manifest, ob_size = n, ob_mtime = mtime\<rparr>)
           else ret False }
       | _ \<Rightarrow> ret False) }"

record Snapshot =
  bk_chunker :: SyncChunker
  bk_bytes :: "byte list"
  bk_chunks :: SyncBuffer
  bk_first :: bool

definition chunk_item :: "bool \<Rightarrow> byte list \<Rightarrow> nat \<Rightarrow> byte list" where
  "chunk_item first hash k = (if first then [] else C '','') @ C ''{\"hash\":\"'' @ hash @ C ''\",\"size\":'' @ digits_of k @ C ''}''"

definition flush_block :: "'w sync_env \<Rightarrow> Snapshot \<Rightarrow> ('w, bool \<times> Snapshot) sync_cmd" where
  \<comment> \<open>the block goes to the cache and its item to the array\<close>
  "flush_block E st = do {
     r \<leftarrow> sy_cache E (bk_bytes st);
     ret (case if fst r then sync_buffer_add (bk_chunks st) (chunk_item (bk_first st) (snd r) (length (bk_bytes st))) else None of
            None \<Rightarrow> (False, st\<lparr>bk_first := False, bk_bytes := []\<rparr>)
          | Some b \<Rightarrow> (True, st\<lparr>bk_chunks := b, bk_first := False, bk_bytes := []\<rparr>)) }"

fun snapshot_bytes :: "'w sync_env \<Rightarrow> byte list \<Rightarrow> Snapshot \<Rightarrow> ('w, bool \<times> Snapshot) sync_cmd" where
  "snapshot_bytes E [] st = ret (True, st)"
| "snapshot_bytes E (b # bs) st = do {
     gear \<leftarrow> gets rn_gear;
     let cut = sync_chunk_boundary (bk_chunker st) b gear;
     let st = st\<lparr>bk_chunker := snd cut, bk_bytes := bk_bytes st @ [b]\<rparr>;
     r \<leftarrow> (if fst cut then flush_block E st else ret (True, st));
     if fst r then snapshot_bytes E bs (snd r) else ret r }"

fun snapshot_reads ::
    "'w sync_env \<Rightarrow> wstr \<Rightarrow> int \<Rightarrow> byte list \<Rightarrow> byte list option list \<Rightarrow> Snapshot
     \<Rightarrow> ('w, bool \<times> byte list \<times> Snapshot) sync_cmd" where
  \<comment> \<open>the loop, with the bytes read so far; a cancelled run leaves it as the end of the file does\<close>
  "snapshot_reads E path n acc [] st = do { sy_cancel E; ret (True, acc, st) }"
| "snapshot_reads E path n acc (r # rs) st = do {
     cancelled \<leftarrow> sy_cancel E;
     if cancelled then ret (True, acc, st)
     else (case r of
       None \<Rightarrow> ret (False, acc, st)
     | Some data \<Rightarrow> do {
         ok \<leftarrow> call (g_digest_ok E);
         r \<leftarrow> (if ok then snapshot_bytes E data st else ret (False, st));
         sy_progress E SYNC_SCAN (Some path) (int (length (acc @ data))) n;
         if fst r then snapshot_reads E path n (acc @ data) rs (snd r) else ret (False, acc @ data, snd r) }) }"

definition snapshot_manifest ::
    "'w sync_env \<Rightarrow> byte list \<Rightarrow> byte list option \<Rightarrow> int \<Rightarrow> int \<Rightarrow> byte list \<Rightarrow> Snapshot \<Rightarrow> ('w, byte list option) sync_cmd" where
  \<comment> \<open>after the last block: the hash of the whole, the manifest and its row in the outbox\<close>
  "snapshot_manifest E relative parent n mtime bytes st = do {
     final \<leftarrow> (if int (length bytes) = n then call (g_digest_ok E) else ret False);
     case if final then sync_buffer_add (bk_chunks st) (C '']'') else None of
       None \<Rightarrow> ret None
     | Some chunks \<Rightarrow> do {
         cancelled \<leftarrow> sy_cancel E;
         if cancelled then ret None
         else do {
           manifest \<leftarrow> metadata E relative parent (Some (hex_of (g_sha256 E bytes))) n mtime (sb_data chunks) False;
           case manifest of None \<Rightarrow> ret None
           | Some m \<Rightarrow> do { ok \<leftarrow> outbox_store E m n mtime; ret (if ok then Some m else None) } } } }"

definition snapshot_file ::
    "'w sync_env \<Rightarrow> wstr \<Rightarrow> byte list \<Rightarrow> byte list option \<Rightarrow> ('w, byte list option) sync_cmd" where
  "snapshot_file E path relative parent = do {
     meta \<leftarrow> sy_meta E path;
     case meta of None \<Rightarrow> failed SYNC_PATH | Some (n, mtime) \<Rightarrow> do {
     file \<leftarrow> call (g_reads E path);
     case file of None \<Rightarrow> failed SYNC_PATH | Some rs \<Rightarrow> do {
     started \<leftarrow> call (g_digest_ok E);
     manifest \<leftarrow> (case if started then sync_buffer_add empty_buffer (C ''['') else None of
         None \<Rightarrow> ret None
       | Some chunks \<Rightarrow> do {
           r \<leftarrow> snapshot_reads E path n [] rs
             \<lparr>bk_chunker = \<lparr>ck_hash = 0, ck_size = 0\<rparr>, bk_bytes = [], bk_chunks = chunks, bk_first = True\<rparr>;
           case r of (ok, bytes, st) \<Rightarrow> do {
             last \<leftarrow> (if ok \<and> bk_bytes st \<noteq> [] then flush_block E st else ret (ok, st));
             if fst last then snapshot_manifest E relative parent n mtime bytes (snd last) else ret None } });
     code \<leftarrow> gets (sr_failure \<circ> rn_result);
     (if manifest = None \<and> code = SYNC_OK then sy_fail SYNC_CACHE else ret True);
     ret manifest } } }"

subsection \<open>Publishing a version\<close>

definition s64 :: "int \<Rightarrow> int" where
  \<comment> \<open>\<open>(sqlite3_int64)\<close>\<close>
  "s64 i = (i + 2 ^ 63) mod 2 ^ 64 - 2 ^ 63"

fun json_strings :: "'w sync_env \<Rightarrow> byte list \<Rightarrow> string list \<Rightarrow> ('w, byte list option list) sync_cmd" where
  \<comment> \<open>\<open>for(...)v[i]=sync_json_string(r->db,manifest,fields[i]);\<close>\<close>
  "json_strings E json [] = ret []"
| "json_strings E json (k # ks) = do { v \<leftarrow> sync_json_string E json [k]; vs \<leftarrow> json_strings E json ks; ret (v # vs) }"

definition replace_file :: "FileRow \<Rightarrow> Index \<Rightarrow> Index option" where
  "replace_file row d = Some (d\<lparr>ix_files :=
     filter (\<lambda>r. \<not> (fr_dataset r = fr_dataset row \<and> fr_path_key r = fr_path_key row)) (ix_files d) @ [row]\<rparr>)"

definition keep_version :: "byte list \<times> byte list \<times> byte list \<times> byte list \<Rightarrow> Index \<Rightarrow> Index option" where
  \<comment> \<open>\<open>INSERT OR IGNORE INTO versions\<close>\<close>
  "keep_version v d = Some (if fst v \<in> fst ` set (ix_versions d) then d else d\<lparr>ix_versions := ix_versions d @ [v]\<rparr>)"

definition head_save :: "'w sync_env \<Rightarrow> byte list \<Rightarrow> int \<Rightarrow> int \<Rightarrow> ('w, bool) sync_cmd" where
  "head_save E manifest n mtime = do {
     vs \<leftarrow> json_strings E manifest [''dataset'', ''path_key'', ''path'', ''id''];
     or_fail SYNC_STORAGE (case vs of
         [Some dataset, Some key, Some path, Some ident] \<Rightarrow> do {
           ok \<leftarrow> sql_steps E 2;
           ok \<leftarrow> (if ok then apply_index (replace_file \<lparr>fr_dataset = dataset, fr_path_key = key, fr_path = path, fr_job = ident,
                    fr_manifest = manifest, fr_stat_size = s64 n, fr_stat_mtime = mtime\<rparr>) else ret False);
           (if ok then sy_statement E 1 (keep_version (ident, dataset, path, manifest)) else ret False) }
       | _ \<Rightarrow> ret False) }"

definition upload_step ::
    "'w sync_env \<Rightarrow> byte list \<Rightarrow> wstr \<Rightarrow> int \<Rightarrow> int \<Rightarrow> nat \<Rightarrow> ('w, bool \<times> int \<times> nat) sync_cmd" where
  \<comment> \<open>one packet from \<open>offset\<close>: the result, the offset the server names and the resets so far\<close>
  "upload_step E put path whole offset resets = do {
     sy_progress E SYNC_UPLOAD (Some path) offset whole;
     read \<leftarrow> call (g_read_at E path offset (min (int SYNC_PACKET_MAX) (whole - offset)));
     packet \<leftarrow> sync_json_patch E put ''offset'' (digits_of (nat offset)) True;
     reply \<leftarrow> (case read of
         None \<Rightarrow> ret None
       | Some data \<Rightarrow> if data = [] then ret None else request E packet data);
     case reply of None \<Rightarrow> ret (False, offset, resets)
     | Some r \<Rightarrow> do {
         next_offset \<leftarrow> sync_json_int E (rp_json r) [''offset''] (-1);
         let offset = u64 next_offset;
         mismatch \<leftarrow> sync_json_int E (rp_json r) [''hash_mismatch''] 0;
         let resets = (if mismatch \<noteq> 0 then Suc resets else resets);
         ok \<leftarrow> (if mismatch \<noteq> 0 \<and> resets > 1 then sy_fail SYNC_CACHE else ret True);
         ok \<leftarrow> (if offset > whole then sy_fail SYNC_PROTOCOL else ret ok);
         ret (ok, offset, resets) } }"

partial_function (option) upload_loop ::
    "'w sync_env \<Rightarrow> byte list \<Rightarrow> wstr \<Rightarrow> int \<Rightarrow> bool \<Rightarrow> int \<Rightarrow> nat \<Rightarrow> 'w Run \<Rightarrow> (bool \<times> 'w Run) option" where
  \<comment> \<open>\<open>while(ok&&offset<total&&!sy_cancel(r))\<close>; \<open>None\<close>: it does not end\<close>
  "upload_loop E put path whole ok offset resets s =
     (if \<not> ok \<or> offset \<ge> whole then Some (ok, s)
      else (case run_state (sy_cancel E) s of (cancelled, s) \<Rightarrow>
        if cancelled then Some (ok, s)
        else (case run_state (upload_step E put path whole offset resets) s of ((ok, offset, resets), s) \<Rightarrow>
          upload_loop E put path whole ok offset resets s)))"

definition upload :: "'w sync_env \<Rightarrow> byte list \<Rightarrow> wstr \<Rightarrow> int \<Rightarrow> bool \<Rightarrow> int \<Rightarrow> ('w, bool) sync_cmd" where
  \<comment> \<open>a loop that does not end is the mark \<open>rn_endless\<close>: what follows it says nothing of the code\<close>
  "upload E put path whole ok offset = State (\<lambda>s.
     case upload_loop E put path whole ok offset 0 s of Some r \<Rightarrow> r | None \<Rightarrow> (False, s\<lparr>rn_endless := True\<rparr>))"

definition put_chunk :: "'w sync_env \<Rightarrow> byte list \<Rightarrow> byte list option \<times> int \<Rightarrow> ('w, bool) sync_cmd" where
  \<comment> \<open>a chunk the server needs, from the cache\<close>
  "put_chunk E ident row = do {
     p \<leftarrow> cache_path E (fst row);
     v \<leftarrow> (case p of None \<Rightarrow> ret None | Some path \<Rightarrow> sync_hash_file E path);
     case (p, fst row, v) of
       (Some path, Some hash, Some (actual, n, _)) \<Rightarrow>
         if n \<noteq> snd row \<or> actual \<noteq> hash then sy_fail SYNC_CACHE
         else (case sy_fields (C ''put'') (Some (C ''job'', ident)) (Some (C ''hash'', hash)) of
           None \<Rightarrow> ret False
         | Some put \<Rightarrow> do {
             response \<leftarrow> sy_rpc E put [];
             case response of None \<Rightarrow> ret False | Some r \<Rightarrow> do {
             offset \<leftarrow> sync_json_int E (rp_json r) [''offset''] (-1);
             put_stats (\<lambda>t. t\<lparr>sx_resumed := u64 (sx_resumed t + u64 offset)\<rparr>);
             opened \<leftarrow> call (g_open_read E path);
             ok \<leftarrow> upload E put path (snd row) opened (u64 offset);
             cancelled \<leftarrow> sy_cancel E;
             ret (ok \<and> \<not> cancelled) } })
     | _ \<Rightarrow> sy_fail SYNC_CACHE }"

definition set_manifest :: "byte list \<Rightarrow> byte list \<Rightarrow> Index \<Rightarrow> Index option" where
  "set_manifest manifest ident d =
     Some (d\<lparr>ix_outbox := map (\<lambda>r. if ob_id r = ident then r\<lparr>ob_manifest := manifest\<rparr> else r) (ix_outbox d)\<rparr>)"

definition drop_outbox :: "byte list \<Rightarrow> Index \<Rightarrow> Index option" where
  "drop_outbox ident d = Some (d\<lparr>ix_outbox := filter (\<lambda>r. ob_id r \<noteq> ident) (ix_outbox d)\<rparr>)"

definition publish_done :: "'w sync_env \<Rightarrow> byte list \<Rightarrow> byte list \<Rightarrow> ('w, bool) sync_cmd" where
  \<comment> \<open>after the commit: the version is the head and leaves the outbox\<close>
  "publish_done E manifest ident = do {
     n \<leftarrow> sync_json_int E manifest [''size''] 0;
     mtime \<leftarrow> sync_json_int E manifest [''mtime_ns''] 0;
     ok \<leftarrow> sy_begin E;
     ok \<leftarrow> (if ok then head_save E manifest (u64 n) mtime else ret False);
     ok \<leftarrow> (if ok then sy_statement E 1 (drop_outbox ident) else ret False);
     ok \<leftarrow> (if ok then sy_commit E else ret False);
     (if ok then put_stats (\<lambda>t. t\<lparr>sx_published := sx_published t + 1\<rparr>) else sy_rollback);
     ret ok }"

definition publish_request :: "'w sync_env \<Rightarrow> byte list \<Rightarrow> bool \<Rightarrow> ('w, byte list option) sync_cmd" where
  "publish_request E original repair = do {
     prepare \<leftarrow> sync_json_patch E (C ''{\"action\":\"prepare\",\"native\":true}'') ''manifest'' original True;
     if \<not> repair then ret prepare
     else do {
       ident \<leftarrow> sync_json_string E original [''id''];
       ret (Option.bind ident (\<lambda>i. sy_fields (C ''repair_prepare'') (Some (C ''job'', i)) None)) } }"

definition publish_chunks :: "'w sync_env \<Rightarrow> byte list \<Rightarrow> byte list \<Rightarrow> ('w, bool) sync_cmd" where
  "publish_chunks E plan ident = do {
     prepared \<leftarrow> call (g_sql E);
     if prepared then each_row E (put_chunk E ident) (chunk_rows E ''needed'' plan) else ret False }"

definition publish_mode :: "'w sync_env \<Rightarrow> byte list \<Rightarrow> bool \<Rightarrow> ('w, bool) sync_cmd" where
  "publish_mode E original repair = do {
     prepare \<leftarrow> publish_request E original repair;
     reply \<leftarrow> request E prepare [];
     case reply of None \<Rightarrow> ret False | Some plan \<Rightarrow> do {
     planned \<leftarrow> sync_json_string E (rp_json plan) [''manifest''];
     ident \<leftarrow> sync_json_string E original [''id''];
     state \<leftarrow> sync_json_string E (rp_json plan) [''state''];
     let manifest = (case planned of Some m \<Rightarrow> m | None \<Rightarrow> original);
     key \<leftarrow> sync_json_string E manifest [''path_key''];
     case (key, ident, state) of
       (Some _, Some ident, Some state) \<Rightarrow> do {
         ok \<leftarrow> (if repair then ret True else sy_statement E 2 (set_manifest manifest ident));
         reused \<leftarrow> sync_json_int E (rp_json plan) [''receiver_reused_bytes''] 0;
         put_stats (\<lambda>t. t\<lparr>sx_reused := u64 (sx_reused t + reused)\<rparr>);
         ok \<leftarrow> (if ok \<and> state = C ''STAGING'' then publish_chunks E (rp_json plan) ident else ret ok);
         committed \<leftarrow> (if ok then command E (C ''commit'') (Some (C ''job'', ident)) else ret None);
         ok \<leftarrow> (if committed \<noteq> None \<and> \<not> repair then publish_done E manifest ident else ret (committed \<noteq> None));
         cancelled \<leftarrow> (if ok then sy_cancel E else ret False);
         ret (ok \<and> \<not> cancelled) }
     | _ \<Rightarrow> sy_fail SYNC_PROTOCOL } }"

definition publish :: "'w sync_env \<Rightarrow> byte list \<Rightarrow> ('w, bool) sync_cmd" where
  "publish E manifest = publish_mode E manifest False"

end
