(* ===== verification/Sync_Receive.thy ===== *)
theory Sync_Receive
  imports Sync_Transfer
begin

text \<open>
  \<open>src/src/platform/sync_client.c\<close>, second part: receiving a version. Its chunks come from the file that is
  already here, from the cache, or from the server; the file is replaced only when what is here is what the
  receiver last knew, and the receipt is sent once every chunk is in the cache.
\<close>

subsection \<open>Chunks\<close>

definition cached :: "'w sync_env \<Rightarrow> byte list option \<times> int \<Rightarrow> ('w, bool) sync_cmd" where
  "cached E row = do {
     p \<leftarrow> cache_path E (fst row);
     case p of None \<Rightarrow> ret False | Some path \<Rightarrow> do {
     v \<leftarrow> sync_hash_file E path;
     ret (case v of None \<Rightarrow> False | Some (h, n, _) \<Rightarrow> n = snd row \<and> Some h = fst row) } }"

fun seed_rows :: "'w sync_env \<Rightarrow> wstr \<Rightarrow> int \<Rightarrow> (byte list option \<times> int) list \<Rightarrow> ('w, bool) sync_cmd" where
  \<comment> \<open>the loop, with the position in the file\<close>
  "seed_rows E path pos [] = do { call (g_sql E); ret True }"
| "seed_rows E path pos ((expected, n) # rows) = do {
     stepped \<leftarrow> call (g_sql E);
     if \<not> stepped then ret True
     else if n \<le> 0 \<or> n > uint SYNC_CHUNK_MAX then ret False
     else do {
       read \<leftarrow> call (g_read_at E path pos n);
       case read of None \<Rightarrow> ret False
       | Some data \<Rightarrow>
           if int (length data) \<noteq> n then ret False
           else do {
             r \<leftarrow> sy_cache E data;
             if \<not> fst r \<or> Some (snd r) \<noteq> expected then ret False
             else do {
               cancelled \<leftarrow> sy_cancel E;
               if cancelled then ret False else seed_rows E path (pos + n) rows } } } }"

definition seed :: "'w sync_env \<Rightarrow> wstr \<Rightarrow> byte list \<Rightarrow> ('w, bool) sync_cmd" where
  "seed E path manifest = do {
     opened \<leftarrow> call (g_open_read E path);
     if \<not> opened then sy_fail SYNC_PATH
     else do {
       prepared \<leftarrow> call (g_sql E);
       or_fail SYNC_CACHE (if prepared then seed_rows E path 0 (chunk_rows E ''chunks'' manifest) else sy_fail SYNC_PROTOCOL) } }"

definition download_step ::
    "'w sync_env \<Rightarrow> byte list option \<Rightarrow> wstr \<Rightarrow> wstr \<Rightarrow> int \<Rightarrow> int \<Rightarrow> ('w, nat option) sync_cmd" where
  \<comment> \<open>one packet: how many bytes of it were written\<close>
  "download_step E get part work whole offset = do {
     sy_progress E SYNC_DOWNLOAD (Some work) offset whole;
     packet \<leftarrow> (case get of None \<Rightarrow> ret None | Some g \<Rightarrow> sync_json_patch E g ''offset'' (digits_of (nat offset)) True);
     reply \<leftarrow> request E packet [];
     case reply of None \<Rightarrow> ret None | Some r \<Rightarrow> do {
     start \<leftarrow> sync_json_int E (rp_json r) [''offset''] (-1);
     if start \<noteq> offset \<or> rp_data r = [] \<or> offset + int (length (rp_data r)) > whole then ret None
     else do {
       written \<leftarrow> call (g_append E part (rp_data r));
       flushed \<leftarrow> (if written then call (f_flush E part) else ret False);
       ret (if flushed then Some (length (rp_data r)) else None) } } }"

function download_loop ::
    "'w sync_env \<Rightarrow> byte list option \<Rightarrow> wstr \<Rightarrow> wstr \<Rightarrow> int \<Rightarrow> int \<Rightarrow> ('w, bool) sync_cmd" where
  \<comment> \<open>\<open>while(ok&&offset<total&&!sy_cancel(r))\<close>; a step without bytes would end it\<close>
  "download_loop E get part work whole offset =
     (if offset \<ge> whole then ret True
      else do {
        cancelled \<leftarrow> sy_cancel E;
        if cancelled then ret True
        else do {
          n \<leftarrow> download_step E get part work whole offset;
          case n of None \<Rightarrow> ret False
          | Some k \<Rightarrow> if k = 0 then ret False else download_loop E get part work whole (offset + int k) } })"
  by pat_completeness auto
termination
  by (relation "measure (\<lambda>(E, get, part, work, whole, offset). nat (whole - offset))") auto

definition download_verify :: "'w sync_env \<Rightarrow> bool \<Rightarrow> wstr \<Rightarrow> wstr \<Rightarrow> byte list \<Rightarrow> int \<Rightarrow> ('w, bool) sync_cmd" where
  \<comment> \<open>only bytes of that size and that hash get the name of the hash\<close>
  "download_verify E ok part target hash whole = do {
     v \<leftarrow> (if ok then sync_hash_file E part else ret None);
     or_fail SYNC_CACHE (case v of
         Some (actual, n, _) \<Rightarrow> if n = whole \<and> actual = hash then call (f_move E part target True) else ret False
       | None \<Rightarrow> ret False) }"

definition ascii_wide :: "byte list \<Rightarrow> wstr" where
  \<comment> \<open>\<open>%hs\<close>\<close>
  "ascii_wide b = map (\<lambda>c. of_nat (unat c)) b"

definition download_part :: "'w sync_env \<Rightarrow> byte list \<Rightarrow> byte list \<Rightarrow> int \<Rightarrow> wstr \<Rightarrow> wstr \<Rightarrow> ('w, bool) sync_cmd" where
  \<comment> \<open>the partial file goes on from where an earlier run left it\<close>
  "download_part E job hash whole target work = do {
     partial \<leftarrow> gets rn_partial;
     case sy_join partial (ascii_wide hash @ W ''.part'') of None \<Rightarrow> sy_fail SYNC_PATH | Some part \<Rightarrow> do {
     a \<leftarrow> call (g_attributes E part);
     if is_link a then sy_fail SYNC_PATH
     else do {
       file \<leftarrow> call (g_open_always E part);
       case file of None \<Rightarrow> sy_fail SYNC_CACHE | Some len \<Rightarrow> do {
       let ok = (case len of Some n \<Rightarrow> int n \<le> whole | None \<Rightarrow> False);
       let offset = (if ok then int (the len) else 0);
       put_stats (\<lambda>t. t\<lparr>sx_resumed := u64 (sx_resumed t + offset)\<rparr>);
       ok \<leftarrow> (if ok then download_loop E (sy_fields (C ''get'') (Some (C ''job'', job)) (Some (C ''hash'', hash))) part work whole offset
             else ret False);
       cancelled \<leftarrow> sy_cancel E;
       if cancelled then ret False else download_verify E ok part target hash whole } } } }"

definition download :: "'w sync_env \<Rightarrow> byte list \<Rightarrow> wstr \<Rightarrow> byte list option \<times> int \<Rightarrow> ('w, bool) sync_cmd" where
  "download E job work row = (case row of (hash, whole) \<Rightarrow>
     if whole > uint SYNC_CHUNK_MAX then sy_fail SYNC_PROTOCOL
     else do {
       p \<leftarrow> cache_path E hash;
       case (p, hash) of
         (Some target, Some h) \<Rightarrow> do {
           a \<leftarrow> call (g_attributes E target);
           if is_there a then do {
             ok \<leftarrow> cached E row;
             if \<not> ok then sy_fail SYNC_CACHE
             else do { put_stats (\<lambda>t. t\<lparr>sx_reused := u64 (sx_reused t + whole)\<rparr>); ret True } }
           else download_part E job h whole target work }
       | _ \<Rightarrow> ret False })"

subsection \<open>The receipt\<close>

definition drop_inbox :: "byte list \<Rightarrow> Index \<Rightarrow> Index option" where
  "drop_inbox ident d = Some (d\<lparr>ix_inbox := filter (\<lambda>r. ib_id r \<noteq> ident) (ix_inbox d)\<rparr>)"

definition acknowledge :: "'w sync_env \<Rightarrow> byte list \<Rightarrow> byte list \<Rightarrow> ('w, bool) sync_cmd" where
  "acknowledge E manifest mhash = do {
     ok \<leftarrow> pairs_array E (cached E) manifest;
     if \<not> ok then sy_fail SYNC_CACHE
     else do {
       ident \<leftarrow> sync_json_string E manifest [''id''];
       reply \<leftarrow> request E (Option.bind ident (\<lambda>i. sy_fields (C ''ack'') (Some (C ''job'', i)) (Some (C ''mhash'', mhash)))) [];
       case (ident, reply) of
         (Some i, Some r) \<Rightarrow> do {
           removed \<leftarrow> sync_json_int E (rp_json r) [''gc'', ''removed_bytes''] 0;
           put_stats (\<lambda>t. t\<lparr>sx_reclaimed := u64 (sx_reclaimed t + removed)\<rparr>);
           sy_statement E 1 (drop_inbox i) }
       | _ \<Rightarrow> ret False } }"

subsection \<open>What arrives\<close>

record Incoming =
  ic_manifest :: "byte list"
  ic_mhash :: "byte list"
  ic_id :: "byte list"
  ic_dataset :: "byte list"
  ic_relative :: "byte list"
  ic_key :: "byte list"
  ic_kind :: "byte list"
  ic_expected :: "byte list option"
  ic_parent :: "byte list option"
  ic_path :: wstr
  ic_phase :: "byte list option"
  ic_resolving :: bool

definition receive_verified :: "'w sync_env \<Rightarrow> byte list option \<Rightarrow> byte list option \<Rightarrow> ('w, (byte list \<times> byte list) option) sync_cmd" where
  \<comment> \<open>the manifest is JSON and has the hash the server names\<close>
  "receive_verified E manifest mhash = (case (manifest, mhash) of
     (Some m, Some h) \<Rightarrow>
       if length h \<noteq> 64 then failed SYNC_PROTOCOL
       else do {
         valid \<leftarrow> sync_json_valid E m;
         actual \<leftarrow> (if valid then sync_sha E m else ret None);
         if actual = Some h then ret (Some (m, h)) else failed SYNC_PROTOCOL }
   | _ \<Rightarrow> failed SYNC_PROTOCOL)"

definition inbox_phase :: "byte list \<Rightarrow> Index \<Rightarrow> byte list option" where
  "inbox_phase ident d = map_option ib_phase (find (\<lambda>r. ib_id r = ident) (ix_inbox d))"

definition is_resolving :: "'w sync_env \<Rightarrow> SyncRequest \<Rightarrow> byte list \<Rightarrow> bool" where
  "is_resolving E rq relative \<longleftrightarrow>
     rq_resolution rq \<noteq> 0 \<and> rq_resolve_path rq \<noteq> [] \<and> sync_wide E relative SYNC_PATH_CAP = Some (rq_resolve_path rq)"

definition receive_incoming ::
    "'w sync_env \<Rightarrow> byte list \<times> byte list \<Rightarrow> byte list \<Rightarrow> byte list \<Rightarrow> byte list \<Rightarrow> byte list \<Rightarrow> byte list
     \<Rightarrow> byte list option \<Rightarrow> byte list option \<Rightarrow> ('w, Incoming option) sync_cmd" where
  \<comment> \<open>the path, the phase of an earlier receipt, and whether the user's choice is about it\<close>
  "receive_incoming E v ident dataset relative key kind expected parent = do {
     rq \<leftarrow> gets rn_request;
     p \<leftarrow> target_path E relative;
     case p of None \<Rightarrow> ret None | Some path \<Rightarrow> do {
     phase \<leftarrow> sy_query E (inbox_phase ident);
     ret (Some \<lparr>ic_manifest = fst v, ic_mhash = snd v, ic_id = ident, ic_dataset = dataset, ic_relative = relative, ic_key = key,
       ic_kind = kind, ic_expected = expected, ic_parent = parent, ic_path = path, ic_phase = phase,
       ic_resolving = is_resolving E rq relative\<rparr>) } }"

definition receive_fields :: "'w sync_env \<Rightarrow> byte list \<Rightarrow> byte list \<Rightarrow> ('w, Incoming option) sync_cmd" where
  \<comment> \<open>its fields; \<open>None\<close>: not for this directory, or the path is refused\<close>
  "receive_fields E m h = do {
     vs \<leftarrow> json_strings E m [''id'', ''dataset'', ''path'', ''path_key'', ''kind'', ''sha256'', ''parent''];
     rq \<leftarrow> gets rn_request;
     case vs of
       [Some ident, Some dataset, Some relative, Some key, Some kind, expected, parent] \<Rightarrow>
         if sync_utf8 E (sp_dataset (rq_pair rq)) \<noteq> Some dataset then ret None
         else receive_incoming E (m, h) ident dataset relative key kind expected parent
     | _ \<Rightarrow> ret None }"

definition file_manifest :: "byte list \<Rightarrow> byte list \<Rightarrow> Index \<Rightarrow> byte list option" where
  "file_manifest dataset key d =
     map_option fr_manifest (find (\<lambda>r. fr_dataset r = dataset \<and> fr_path_key r = key) (ix_files d))"

record Known =
  kn_manifest :: "byte list option"
  kn_id :: "byte list option"
  kn_hash :: "byte list option"

definition receive_known :: "'w sync_env \<Rightarrow> Incoming \<Rightarrow> ('w, Known) sync_cmd" where
  \<comment> \<open>the version this receiver has\<close>
  "receive_known E i = do {
     previous \<leftarrow> sy_query E (file_manifest (ic_dataset i) (ic_key i));
     case previous of
       None \<Rightarrow> ret \<lparr>kn_manifest = None, kn_id = None, kn_hash = None\<rparr>
     | Some m \<Rightarrow> do {
         ident \<leftarrow> sync_json_string E m [''id''];
         hash \<leftarrow> sync_json_string E m [''sha256''];
         ret \<lparr>kn_manifest = Some m, kn_id = ident, kn_hash = hash\<rparr> } }"

definition is_version :: "Probe \<Rightarrow> byte list \<Rightarrow> bool" where
  \<comment> \<open>what is here is the accepted hash; the empty text stands for no file\<close>
  "is_version p accepted \<longleftrightarrow> (if pr_exists p then accepted \<noteq> [] \<and> pr_hash p = accepted else accepted = [])"

definition is_adopted :: "Incoming \<Rightarrow> int \<Rightarrow> Probe \<Rightarrow> bool" where
  \<comment> \<open>what is here is what arrives\<close>
  "is_adopted i whole p \<longleftrightarrow> pr_exists p \<and> ic_expected i = Some (pr_hash p) \<and> pr_size p = whole"

definition is_already :: "Incoming \<Rightarrow> int \<Rightarrow> Probe \<Rightarrow> bool" where
  "is_already i whole p \<longleftrightarrow>
     ic_phase i = Some (C ''READY'') \<and> (is_adopted i whole p \<or> (ic_expected i = None \<and> \<not> pr_exists p))"

definition is_known :: "Known \<Rightarrow> Probe \<Rightarrow> bool" where
  \<comment> \<open>what is here is the version this receiver has\<close>
  "is_known k p \<longleftrightarrow> (case kn_hash k of Some h \<Rightarrow> pr_exists p \<and> pr_hash p = h | None \<Rightarrow> \<not> pr_exists p)"

definition known_file :: "Known \<Rightarrow> Probe \<Rightarrow> bool" where
  \<comment> \<open>\<open>old_hash&&exists&&!strcmp(actual,old_hash)\<close>\<close>
  "known_file k p \<longleftrightarrow> pr_exists p \<and> kn_hash k = Some (pr_hash p)"

definition receive_seed :: "'w sync_env \<Rightarrow> Incoming \<Rightarrow> int \<Rightarrow> Known \<Rightarrow> Probe \<Rightarrow> ('w, bool option) sync_cmd" where
  \<comment> \<open>the local file is not one of the user's edits; its chunks go to the cache. \<open>already\<close>, or a failure\<close>
  "receive_seed E i whole k p = do {
     let already = is_already i whole p;
     if \<not> ic_resolving i \<and> \<not> already \<and> \<not> is_adopted i whole p \<and> \<not> is_known k p then failed SYNC_CONFLICT
     else do {
       ok \<leftarrow> (if is_adopted i whole p then seed E (ic_path i) (ic_manifest i) else ret True);
       ok \<leftarrow> (if ok \<and> known_file k p
              then (case kn_manifest k of Some m \<Rightarrow> seed E (ic_path i) m | None \<Rightarrow> ret True) else ret ok);
       ret (if ok then Some (already \<or> is_adopted i whole p) else None) } }"

definition insert_inbox :: "Incoming \<Rightarrow> Index \<Rightarrow> Index option" where
  \<comment> \<open>\<open>INSERT OR IGNORE\<close>\<close>
  "insert_inbox i d = Some (if ic_id i \<in> ib_id ` set (ix_inbox d) then d
     else d\<lparr>ix_inbox := ix_inbox d @ [\<lparr>ib_id = ic_id i, ib_dataset = ic_dataset i, ib_manifest = ic_manifest i,
              ib_mhash = ic_mhash i, ib_phase = C ''DOWNLOADING''\<rparr>]\<rparr>)"

definition set_phase :: "byte list \<Rightarrow> byte list \<Rightarrow> Index \<Rightarrow> Index option" where
  "set_phase phase ident d =
     Some (d\<lparr>ix_inbox := map (\<lambda>r. if ib_id r = ident then r\<lparr>ib_phase := phase\<rparr> else r) (ix_inbox d)\<rparr>)"

definition receive_download :: "'w sync_env \<Rightarrow> Incoming \<Rightarrow> ('w, bool) sync_cmd" where
  "receive_download E i = do {
     pair \<leftarrow> gets (rq_pair \<circ> rn_request);
     resolution \<leftarrow> gets (rq_resolution \<circ> rn_request);
     if ic_kind i = C ''DELETE'' \<and> \<not> sp_sync_deletes pair \<and> \<not> (ic_resolving i \<and> resolution = 1) then sy_fail SYNC_DELETE
     else do {
       ok \<leftarrow> sy_statement E 4 (insert_inbox i);
       ok \<leftarrow> (if ok then pairs_array E (download E (ic_id i) (ic_path i)) (ic_manifest i) else ret False);
       (if ok then sy_statement E 1 (set_phase (C ''READY'') (ic_id i)) else ret False) } }"

subsection \<open>Replacing the file\<close>

definition parent_directory :: "wstr \<Rightarrow> wstr option" where
  \<comment> \<open>before the last backslash\<close>
  "parent_directory path =
     (if 92 \<in> set path then Some (rev (tl (dropWhile (\<lambda>c. c \<noteq> 92) (rev path)))) else None)"

definition apply_name :: "byte list \<Rightarrow> wstr" where
  \<comment> \<open>\<open>swprintf(name,112,L".nova-sync-%hs.tmp",id)\<close>\<close>
  "apply_name ident = take 111 (W ''.nova-sync-'' @ ascii_wide ident @ W ''.tmp'')"

fun copy_reads :: "'w sync_env \<Rightarrow> wstr \<Rightarrow> byte list option list \<Rightarrow> ('w, bool) sync_cmd" where
  \<comment> \<open>from the chunk in the cache to the temporary file\<close>
  "copy_reads E temporary [] = do { sy_cancel E; ret True }"
| "copy_reads E temporary (r # rs) = do {
     cancelled \<leftarrow> sy_cancel E;
     if cancelled then ret True
     else (case r of None \<Rightarrow> ret False | Some data \<Rightarrow> do {
       ok \<leftarrow> call (g_append E temporary data);
       if ok then copy_reads E temporary rs else ret False }) }"

definition copy_chunk :: "'w sync_env \<Rightarrow> wstr \<Rightarrow> byte list option \<times> int \<Rightarrow> ('w, bool) sync_cmd" where
  "copy_chunk E temporary row = do {
     p \<leftarrow> cache_path E (fst row);
     input \<leftarrow> (case p of None \<Rightarrow> ret None | Some path \<Rightarrow> call (g_reads E path));
     ok \<leftarrow> (case input of None \<Rightarrow> ret False | Some rs \<Rightarrow> copy_reads E temporary rs);
     cancelled \<leftarrow> sy_cancel E;
     ret (ok \<and> \<not> cancelled) }"

definition apply_temporary :: "'w sync_env \<Rightarrow> Incoming \<Rightarrow> ('w, wstr option) sync_cmd" where
  \<comment> \<open>a new temporary file beside the target\<close>
  "apply_temporary E i = (case parent_directory (ic_path i) of
     None \<Rightarrow> ret None
   | Some directory \<Rightarrow> do {
       made \<leftarrow> sy_mkdirs E directory;
       case if made then sy_join directory (apply_name (ic_id i)) else None of
         None \<Rightarrow> ret None
       | Some temporary \<Rightarrow> do {
           a \<leftarrow> call (g_attributes E temporary);
           created \<leftarrow> (if is_link a then ret False else call (g_create_always E temporary));
           ret (if created then Some temporary else None) } })"

definition apply_written :: "'w sync_env \<Rightarrow> Incoming \<Rightarrow> wstr \<Rightarrow> ('w, bool) sync_cmd" where
  "apply_written E i temporary = do {
     ok \<leftarrow> pairs_array E (copy_chunk E temporary) (ic_manifest i);
     (if ok then call (f_flush E temporary) else ret False) }"

definition apply_checked :: "'w sync_env \<Rightarrow> Incoming \<Rightarrow> int \<Rightarrow> Probe \<Rightarrow> wstr \<Rightarrow> ('w, bool) sync_cmd" where
  \<comment> \<open>the temporary file is the version, and the target is still what was there before\<close>
  "apply_checked E i whole p temporary = do {
     v \<leftarrow> sync_hash_file E temporary;
     if case v of Some (final, n, _) \<Rightarrow> n = whole \<and> ic_expected i = Some final | None \<Rightarrow> False
     then do {
       again \<leftarrow> probe E (ic_path i);
       ret (case again of Some q \<Rightarrow> pr_exists q = pr_exists p \<and> (pr_exists p \<longrightarrow> pr_hash q = pr_hash p) | None \<Rightarrow> False) }
     else ret False }"

definition apply_put :: "'w sync_env \<Rightarrow> Incoming \<Rightarrow> int \<Rightarrow> Probe \<Rightarrow> ('w, bool) sync_cmd" where
  "apply_put E i whole p = do {
     sy_progress E SYNC_APPLY (Some (ic_path i)) 0 whole;
     t \<leftarrow> apply_temporary E i;
     ok \<leftarrow> (case t of None \<Rightarrow> ret False | Some temporary \<Rightarrow> do {
       ok \<leftarrow> apply_written E i temporary;
       ok \<leftarrow> (if ok then apply_checked E i whole p temporary else ret False);
       (if ok then call (f_move E temporary (ic_path i) True) else ret False) });
     code \<leftarrow> gets (sr_failure \<circ> rn_result);
     (if \<not> ok \<and> code = SYNC_OK then sy_fail SYNC_PATH else ret ok) }"

definition apply_delete :: "'w sync_env \<Rightarrow> Incoming \<Rightarrow> Probe \<Rightarrow> ('w, bool) sync_cmd" where
  "apply_delete E i p = (case g_recycle E of
     None \<Rightarrow> sy_fail SYNC_DELETE
   | Some recycle \<Rightarrow> or_fail SYNC_DELETE (call (recycle (ic_path i) (pr_size p) (pr_mtime p))))"

definition receive_apply :: "'w sync_env \<Rightarrow> Incoming \<Rightarrow> int \<Rightarrow> Probe \<Rightarrow> bool \<Rightarrow> ('w, bool) sync_cmd" where
  "receive_apply E i whole p already = do {
     resolution \<leftarrow> gets (rq_resolution \<circ> rn_request);
     let already = already \<or> (ic_resolving i \<and> resolution = 1);
     if \<not> already \<and> ic_kind i = C ''PUT'' then apply_put E i whole p
     else if \<not> already \<and> ic_kind i = C ''DELETE'' \<and> pr_exists p then apply_delete E i p
     else ret True }"

subsection \<open>The end of a receipt\<close>

definition receive_commit :: "'w sync_env \<Rightarrow> Incoming \<Rightarrow> int \<Rightarrow> Probe \<Rightarrow> ('w, bool) sync_cmd" where
  \<comment> \<open>the version is the head, with the size and time of the file when it is what arrived\<close>
  "receive_commit E i whole p = do {
     let stable = is_adopted i whole p;
     ok \<leftarrow> sy_begin E;
     ok \<leftarrow> (if ok then head_save E (ic_manifest i) (if stable then pr_size p else 0) (if stable then pr_mtime p else -1) else ret False);
     ok \<leftarrow> (if ok then sy_statement E 1 (set_phase (C ''APPLIED'') (ic_id i)) else ret False);
     (if ok then sy_commit E else ret False) }"

definition receive_accept :: "'w sync_env \<Rightarrow> Incoming \<Rightarrow> ('w, unit) sync_cmd" where
  \<comment> \<open>with the server's version chosen, it is the accepted one from here on\<close>
  "receive_accept E i = do {
     resolution \<leftarrow> gets (rq_resolution \<circ> rn_request);
     (if ic_resolving i \<and> resolution = 2
      then modify (\<lambda>s. s\<lparr>rn_accepted_local := (case ic_expected i of Some h \<Rightarrow> take 64 h | None \<Rightarrow> [])\<rparr>) else ret ()) }"

definition receive_finish :: "'w sync_env \<Rightarrow> Incoming \<Rightarrow> int \<Rightarrow> ('w, bool) sync_cmd" where
  "receive_finish E i whole = do {
     q \<leftarrow> probe E (ic_path i);
     resolution \<leftarrow> gets (rq_resolution \<circ> rn_request);
     accepted \<leftarrow> gets rn_accepted_local;
     ok \<leftarrow> (case q of
         None \<Rightarrow> ret False
       | Some p \<Rightarrow> if ic_resolving i \<and> resolution = 1 \<and> \<not> is_version p accepted then sy_fail SYNC_CONFLICT
                   else receive_commit E i whole p);
     if \<not> ok then do { sy_rollback; ret False }
     else do {
       sy_progress E SYNC_CONFIRM (Some (ic_path i)) whole whole;
       ok \<leftarrow> acknowledge E (ic_manifest i) (ic_mhash i);
       (if ok then do { put_stats (\<lambda>t. t\<lparr>sx_downloaded := sx_downloaded t + 1\<rparr>); receive_accept E i } else ret ());
       ret ok } }"

definition receive_checked :: "'w sync_env \<Rightarrow> Incoming \<Rightarrow> ('w, (int \<times> Probe \<times> bool) option) sync_cmd" where
  \<comment> \<open>the version follows the one here, and the local file may be replaced; its size, what is here, \<open>already\<close>\<close>
  "receive_checked E i = do {
     k \<leftarrow> receive_known E i;
     if \<not> (ic_resolving i \<or> ic_parent i = kn_id k) then failed SYNC_CONFLICT
     else do {
       n \<leftarrow> sync_json_int E (ic_manifest i) [''size''] (-1);
       let whole = u64 n;
       q \<leftarrow> probe E (ic_path i);
       accepted \<leftarrow> gets rn_accepted_local;
       case q of None \<Rightarrow> ret None | Some p \<Rightarrow>
         if ic_resolving i \<and> \<not> is_version p accepted then failed SYNC_CONFLICT
         else do {
           already \<leftarrow> receive_seed E i whole k p;
           ret (map_option (\<lambda>a. (whole, p, a)) already) } } }"

definition receive_version :: "'w sync_env \<Rightarrow> Incoming \<Rightarrow> ('w, bool) sync_cmd" where
  \<comment> \<open>only the receipt is missing, or all of it\<close>
  "receive_version E i =
    (if ic_phase i = Some (C ''APPLIED'') then acknowledge E (ic_manifest i) (ic_mhash i)
     else do {
       c \<leftarrow> receive_checked E i;
       case c of None \<Rightarrow> ret False | Some (whole, p, already) \<Rightarrow> do {
         ok \<leftarrow> receive_download E i;
         ok \<leftarrow> (if ok then receive_apply E i whole p already else ret False);
         (if ok then receive_finish E i whole else ret False) } })"

definition receive_one :: "'w sync_env \<Rightarrow> byte list option \<Rightarrow> byte list option \<Rightarrow> ('w, bool) sync_cmd" where
  "receive_one E manifest mhash = do {
     v \<leftarrow> receive_verified E manifest mhash;
     inc \<leftarrow> (case v of None \<Rightarrow> ret None | Some (m, h) \<Rightarrow> receive_fields E m h);
     case inc of None \<Rightarrow> ret False | Some i \<Rightarrow> receive_version E i }"

subsection \<open>Everything that waits\<close>

definition job_rows :: "'w sync_env \<Rightarrow> json list \<Rightarrow> (byte list option \<times> byte list option) list" where
  "job_rows E vs = map (\<lambda>v. (column_text E (member_of ''manifest'' v), column_text E (member_of ''mhash'' v))) (each_value E vs)"

definition receive_rows :: "'w sync_env \<Rightarrow> json list \<Rightarrow> ('w, bool) sync_cmd" where
  "receive_rows E vs = do {
     prepared \<leftarrow> call (g_sql E);
     if prepared then each_row E (\<lambda>(m, h). receive_one E m h) (job_rows E vs) else ret False }"

definition inbox_jobs :: "'w sync_env \<Rightarrow> byte list \<Rightarrow> Index \<Rightarrow> json list option" where
  \<comment> \<open>\<open>json_group_array(json_object('manifest',json(manifest),'mhash',mhash))\<close>; \<open>None\<close>: a manifest is not JSON\<close>
  "inbox_jobs E dataset d = those (map (\<lambda>r. case (g_parse E (ib_manifest r), g_wide E (ib_mhash r)) of
       (Some m, Some h) \<Rightarrow> Some (JObject [(W ''manifest'', m), (W ''mhash'', JText h)]) | _ \<Rightarrow> None)
     (filter (\<lambda>r. ib_dataset r = dataset) (ix_inbox d)))"

definition sy_query_json :: "'w sync_env \<Rightarrow> (Index \<Rightarrow> json list option) \<Rightarrow> ('w, json list option) sync_cmd" where
  \<comment> \<open>\<open>sy_query\<close> of an array that the next statement reads again\<close>
  "sy_query_json E f = do {
     prepared \<leftarrow> call (g_sql E);
     stepped \<leftarrow> (if prepared then call (g_sql E) else ret False);
     d \<leftarrow> gets rn_index;
     case if stepped then f d else None of Some vs \<Rightarrow> ret (Some vs) | None \<Rightarrow> failed SYNC_STORAGE }"

definition reply_jobs :: "'w sync_env \<Rightarrow> SyncReply \<Rightarrow> json list" where
  "reply_jobs E reply = elements (Option.bind (g_parse E (rp_json reply)) (member_of ''jobs''))"

definition receive_all :: "'w sync_env \<Rightarrow> ('w, bool) sync_cmd" where
  "receive_all E = do {
     rq \<leftarrow> gets rn_request;
     case sync_utf8 E (sp_dataset (rq_pair rq)) of None \<Rightarrow> ret False | Some dataset \<Rightarrow> do {
     pending \<leftarrow> sy_query_json E (inbox_jobs E dataset);
     ok \<leftarrow> (case pending of None \<Rightarrow> ret False | Some vs \<Rightarrow> receive_rows E vs);
     reply \<leftarrow> (if ok then command E (C ''pending'') (Some (C ''dataset'', dataset)) else ret None);
     case reply of None \<Rightarrow> ret False | Some r \<Rightarrow> receive_rows E (reply_jobs E r) } }"

end
