(* ===== verification/Sync_Client.thy ===== *)
theory Sync_Client
  imports Sync_Receive
begin

text \<open>
  \<open>src/src/platform/sync_client.c\<close>, third part: walking the directory, comparing it with the server,
  resolving a conflict by the user's choice, and the jobs of the client.
\<close>

subsection \<open>One local file\<close>

definition path_manifest :: "byte list \<Rightarrow> byte list \<Rightarrow> Index \<Rightarrow> byte list option" where
  "path_manifest dataset name d =
     map_option fr_manifest (find (\<lambda>r. fr_dataset r = dataset \<and> fr_path r = name) (ix_files d))"

definition set_stat :: "int \<Rightarrow> int \<Rightarrow> byte list \<Rightarrow> byte list \<Rightarrow> Index \<Rightarrow> Index option" where
  "set_stat n mtime dataset name d = Some (d\<lparr>ix_files :=
     map (\<lambda>r. if fr_dataset r = dataset \<and> fr_path r = name then r\<lparr>fr_stat_size := n, fr_stat_mtime := mtime\<rparr> else r) (ix_files d)\<rparr>)"

definition push_deleted ::
    "'w sync_env \<Rightarrow> byte list \<Rightarrow> byte list option \<Rightarrow> byte list option \<Rightarrow> ('w, byte list option) sync_cmd" where
  \<comment> \<open>a failed \<open>outbox_store\<close> leaves the manifest, which is published\<close>
  "push_deleted E name head parent = do {
     old \<leftarrow> (case head of None \<Rightarrow> ret None | Some h \<Rightarrow> sync_json_string E h [''kind'']);
     if old \<noteq> Some (C ''PUT'') then ret None
     else do {
       manifest \<leftarrow> metadata E name parent None 0 0 (C ''[]'') True;
       (case manifest of None \<Rightarrow> ret False | Some m \<Rightarrow> outbox_store E m 0 0);
       ret manifest } }"

definition push_same :: "'w sync_env \<Rightarrow> wstr \<Rightarrow> byte list option \<Rightarrow> int \<Rightarrow> int \<Rightarrow> ('w, (bool \<times> int \<times> int) option) sync_cmd" where
  \<comment> \<open>whether the content is that of the head, with size and time; \<open>None\<close>: the file cannot be read\<close>
  "push_same E path head n mtime = do {
     old \<leftarrow> (case head of None \<Rightarrow> ret None | Some h \<Rightarrow> sync_json_string E h [''sha256'']);
     known \<leftarrow> (case (old, head) of (Some _, Some h) \<Rightarrow> sync_json_int E h [''size''] (-1) | _ \<Rightarrow> ret 0);
     if old = None \<or> known \<noteq> n then ret (Some (False, n, mtime))
     else do {
       sy_progress E SYNC_SCAN (Some path) 0 0;
       v \<leftarrow> sync_hash_file E path;
       ret (map_option (\<lambda>(actual, n, t). (Some actual = old, n, t)) v) } }"

definition push_put ::
    "'w sync_env \<Rightarrow> wstr \<Rightarrow> byte list \<Rightarrow> byte list \<Rightarrow> byte list option \<Rightarrow> byte list option \<Rightarrow> ('w, byte list option) sync_cmd" where
  \<comment> \<open>the manifest of a new or changed file\<close>
  "push_put E path name dataset head parent = do {
     meta \<leftarrow> sy_meta E path;
     same \<leftarrow> (case meta of None \<Rightarrow> ret None | Some (n, mtime) \<Rightarrow> push_same E path head n mtime);
     case same of
       None \<Rightarrow> do { cancelled \<leftarrow> sy_cancel E; failed (if cancelled then SYNC_CANCELLED else SYNC_PATH) }
     | Some (True, n, mtime) \<Rightarrow> do {
         ok \<leftarrow> sy_statement E 4 (set_stat n mtime dataset name);
         if ok then do { put_stats (\<lambda>t. t\<lparr>sx_unchanged := sx_unchanged t + 1\<rparr>); ret None }
         else do { cancelled \<leftarrow> sy_cancel E; failed (if cancelled then SYNC_CANCELLED else SYNC_PATH) } }
     | Some (False, _) \<Rightarrow> snapshot_file E path name parent }"

definition push_file :: "'w sync_env \<Rightarrow> wstr \<Rightarrow> wstr \<Rightarrow> bool \<Rightarrow> ('w, bool) sync_cmd" where
  "push_file E path relative deleting = do {
     rq \<leftarrow> gets rn_request;
     case (sync_utf8 E relative, sync_utf8 E (sp_dataset (rq_pair rq))) of
       (Some name, Some dataset) \<Rightarrow> do {
         head \<leftarrow> sy_query E (path_manifest dataset name);
         parent \<leftarrow> (case head of None \<Rightarrow> ret None | Some h \<Rightarrow> sync_json_string E h [''id'']);
         manifest \<leftarrow> (if deleting then push_deleted E name head parent else push_put E path name dataset head parent);
         case manifest of
           Some m \<Rightarrow> publish E m
         | None \<Rightarrow> do { code \<leftarrow> gets (sr_failure \<circ> rn_result); ret (code = SYNC_OK) } }
     | _ \<Rightarrow> sy_fail SYNC_PATH }"

subsection \<open>Walking a directory\<close>

definition is_excluded :: "'w sync_env \<Rightarrow> wstr \<Rightarrow> wstr \<Rightarrow> wstr \<Rightarrow> bool" where
  \<comment> \<open>\<open>excluded\<close>, with the pair's patterns\<close>
  "is_excluded E excludes relative name \<longleftrightarrow>
     name = W ''.git'' \<or> g_path_match E relative excludes \<or> g_path_match E name excludes
     \<or> take 11 name = W ''.nova-sync-''"

definition SCAN_DEPTH :: nat where "SCAN_DEPTH = 32"
definition SCAN_LIMIT :: nat where "SCAN_LIMIT = 100000"

definition skipped_entry :: "dir_entry \<Rightarrow> bool" where
  "skipped_entry e \<longleftrightarrow> de_name e = W ''.'' \<or> de_name e = W ''..'' \<or> de_reparse e"

definition entry_name :: "wstr \<Rightarrow> wstr \<Rightarrow> wstr option" where
  \<comment> \<open>\<open>relative/name\<close>, where it fits\<close>
  "entry_name relative name =
     (if relative = [] then Some name
      else if length (relative @ [47] @ name) < SYNC_PATH_CAP then Some (relative @ [47] @ name) else None)"

datatype walk_step = Skip | Stop | Take wstr wstr    \<comment> \<open>\<open>continue\<close>, the end with an error, path and name\<close>

definition scan_entry :: "'w sync_env \<Rightarrow> wstr \<Rightarrow> wstr \<Rightarrow> SyncRequest \<Rightarrow> dir_entry \<Rightarrow> walk_step" where
  "scan_entry E directory relative rq e =
     (if skipped_entry e then Skip
      else (case entry_name relative (de_name e) of None \<Rightarrow> Stop | Some name \<Rightarrow>
        if is_excluded E (sp_excludes (rq_pair rq)) name (de_name e) then Skip
        else (case sy_join directory (de_name e) of None \<Rightarrow> Stop | Some path \<Rightarrow>
          if \<not> sync_relative_path (Some name) then Stop
          else if g_path_prefix E (rq_state_directory rq) path then Skip
          else Take path name)))"

definition inspect_entry :: "'w sync_env \<Rightarrow> wstr \<Rightarrow> wstr \<Rightarrow> SyncRequest \<Rightarrow> dir_entry \<Rightarrow> walk_step" where
  "inspect_entry E directory relative rq e =
     (if skipped_entry e then Skip
      else (case (entry_name relative (de_name e), sy_join directory (de_name e)) of
        (Some name, Some path) \<Rightarrow>
          if is_excluded E (sp_excludes (rq_pair rq)) name (de_name e) \<or> g_path_prefix E (rq_state_directory rq) path then Skip
          else Take path name
      | _ \<Rightarrow> Stop))"

fun walk ::
    "'w sync_env \<Rightarrow> (SyncRequest \<Rightarrow> dir_entry \<Rightarrow> walk_step) \<Rightarrow> (wstr \<Rightarrow> wstr \<Rightarrow> nat \<Rightarrow> ('w, bool \<times> nat) sync_cmd)
     \<Rightarrow> (wstr \<Rightarrow> wstr \<Rightarrow> ('w, bool) sync_cmd) \<Rightarrow> dir_entry list \<Rightarrow> nat \<Rightarrow> ('w, bool \<times> nat) sync_cmd" where
  \<comment> \<open>the loop over the entries of a directory, with the entries counted so far\<close>
  "walk E step sub file [] k = ret (True, k)"
| "walk E step sub file (e # es) k = do {
     rq \<leftarrow> gets rn_request;
     case step rq e of
       Skip \<Rightarrow> walk E step sub file es k
     | Stop \<Rightarrow> ret (False, k)
     | Take path name \<Rightarrow> do {
         cancelled \<leftarrow> (if Suc k > SCAN_LIMIT then ret True else sy_cancel E);
         if cancelled then ret (False, Suc k)
         else do {
           r \<leftarrow> (if de_directory e then sub path name (Suc k)
                else do { ok \<leftarrow> file path name; ret (ok, Suc k) });
           if fst r then walk E step sub file es (snd r) else ret r } } }"

definition or_path :: "('w, bool \<times> nat) sync_cmd \<Rightarrow> ('w, bool \<times> nat) sync_cmd" where
  \<comment> \<open>\<open>ok||(r->result->failure!=SYNC_OK?FALSE:sy_fail(r,SYNC_PATH))\<close>\<close>
  "or_path c = do {
     r \<leftarrow> c;
     code \<leftarrow> gets (sr_failure \<circ> rn_result);
     (if \<not> fst r \<and> code = SYNC_OK then sy_fail SYNC_PATH else ret True);
     ret r }"

fun scan :: "'w sync_env \<Rightarrow> nat \<Rightarrow> wstr \<Rightarrow> wstr \<Rightarrow> nat \<Rightarrow> ('w, bool \<times> nat) sync_cmd" where
  \<comment> \<open>the first argument counts down from \<open>SCAN_DEPTH + 1\<close>: at 0 the depth is over the limit\<close>
  "scan E 0 directory relative k = do { ok \<leftarrow> sy_fail SYNC_PATH; ret (ok, k) }"
| "scan E (Suc left) directory relative k = (case sy_join directory (W ''*'') of
     None \<Rightarrow> do { ok \<leftarrow> sy_fail SYNC_PATH; ret (ok, k) }
   | Some pattern \<Rightarrow> do {
       found \<leftarrow> call (g_find E pattern);
       case found of
         FindNone \<Rightarrow> ret (True, k)
       | FindFailed \<Rightarrow> do { ok \<leftarrow> sy_fail SYNC_PATH; ret (ok, k) }
       | Found es _ \<Rightarrow>
           or_path (walk E (scan_entry E directory relative) (scan E left) (\<lambda>path name. push_file E path name False) es k) })"

subsection \<open>Comparing with the server\<close>

definition nocase :: "byte list \<Rightarrow> byte list" where
  \<comment> \<open>\<open>COLLATE NOCASE\<close>: the letters of ASCII\<close>
  "nocase p = map (\<lambda>c. if 65 \<le> c \<and> c \<le> 90 then c + 32 else c) p"

definition same_path :: "byte list \<Rightarrow> InspectionRow \<Rightarrow> bool" where
  "same_path p r \<longleftrightarrow> (case in_path r of None \<Rightarrow> False | Some q \<Rightarrow> nocase q = nocase p)"

definition new_inspection :: "byte list option \<Rightarrow> InspectionRow" where
  "new_inspection p = \<lparr>in_path = p, in_local_hash = None, in_local_size = None, in_local_time = None,
     in_base = None, in_remote = None, in_available = True\<rparr>"

definition upsert :: "byte list \<Rightarrow> (InspectionRow \<Rightarrow> InspectionRow) \<Rightarrow> InspectionRow list \<Rightarrow> InspectionRow list" where
  \<comment> \<open>\<open>INSERT ... ON CONFLICT(path) DO UPDATE\<close>\<close>
  "upsert p f rows =
     (if \<exists>r\<in>set rows. same_path p r then map (\<lambda>r. if same_path p r then f r else r) rows
      else rows @ [f (new_inspection (Some p))])"

definition put_inspection :: "(InspectionRow list \<Rightarrow> InspectionRow list) \<Rightarrow> Index \<Rightarrow> Index option" where
  "put_inspection f d = Some (d\<lparr>ix_inspection := f (ix_inspection d)\<rparr>)"

definition upsert_local :: "byte list \<Rightarrow> byte list \<Rightarrow> int \<Rightarrow> int \<Rightarrow> Index \<Rightarrow> Index option" where
  "upsert_local p h n t =
     put_inspection (upsert p (\<lambda>r. r\<lparr>in_local_hash := Some h, in_local_size := Some n, in_local_time := Some t\<rparr>))"

definition inspect_file :: "'w sync_env \<Rightarrow> wstr \<Rightarrow> wstr \<Rightarrow> ('w, bool) sync_cmd" where
  "inspect_file E path name = do {
     sy_progress E SYNC_SCAN (Some path) 0 0;
     v \<leftarrow> sync_hash_file E path;
     case (v, sync_utf8 E name) of
       (Some (h, n, t), Some p) \<Rightarrow> sy_statement E 4 (upsert_local p h n t)
     | _ \<Rightarrow> ret False }"

fun inspect_tree :: "'w sync_env \<Rightarrow> nat \<Rightarrow> wstr \<Rightarrow> wstr \<Rightarrow> nat \<Rightarrow> ('w, bool \<times> nat) sync_cmd" where
  \<comment> \<open>with a reading that must reach its end\<close>
  "inspect_tree E 0 directory relative k = do { ok \<leftarrow> sy_fail SYNC_PATH; ret (ok, k) }"
| "inspect_tree E (Suc left) directory relative k = (case sy_join directory (W ''*'') of
     None \<Rightarrow> do { ok \<leftarrow> sy_fail SYNC_PATH; ret (ok, k) }
   | Some pattern \<Rightarrow> do {
       found \<leftarrow> call (g_find E pattern);
       case found of
         FindNone \<Rightarrow> ret (True, k)
       | FindFailed \<Rightarrow> do { ok \<leftarrow> sy_fail SYNC_PATH; ret (ok, k) }
       | Found es ended \<Rightarrow> or_path (do {
           r \<leftarrow> walk E (inspect_entry E directory relative) (inspect_tree E left) (inspect_file E) es k;
           ret (fst r \<and> ended, snd r) }) })"

datatype sql_value = SNull | SText "byte list" | SOther json

definition sql_of :: "json option \<Rightarrow> sql_value" where
  "sql_of v = (case bool_int v of None \<Rightarrow> SNull | Some JNull \<Rightarrow> SNull | Some (JText t) \<Rightarrow> SText (utf8 t) | Some x \<Rightarrow> SOther x)"

definition extract_value :: "'w sync_env \<Rightarrow> string \<Rightarrow> byte list option \<Rightarrow> sql_value option" where
  \<comment> \<open>\<open>json_extract(text,'$.key')\<close>; \<open>None\<close>: the text is not JSON\<close>
  "extract_value E key document = (case document of
     None \<Rightarrow> Some SNull
   | Some t \<Rightarrow> map_option (\<lambda>j. sql_of (member_of key j)) (g_parse E t))"

datatype InspectionState = Conflict | Waiting | Pull | Push | Synced

definition classify :: "bool \<Rightarrow> bool \<Rightarrow> sql_value \<Rightarrow> sql_value \<Rightarrow> sql_value \<Rightarrow> sql_value \<Rightarrow> sql_value \<Rightarrow> InspectionState" where
  \<comment> \<open>the \<open>CASE\<close>; \<open>IS NOT\<close> compares NULL as a value\<close>
  "classify remote available here remote_id remote_sha base_id base_sha =
     (if remote \<and> remote_id \<noteq> base_id \<and> here \<noteq> base_sha \<and> here \<noteq> remote_sha then Conflict
      else if remote \<and> remote_id \<noteq> base_id then (if \<not> available then Waiting else Pull)
      else if here \<noteq> base_sha then Push else Synced)"

definition local_value :: "InspectionRow \<Rightarrow> sql_value" where
  "local_value r = (case in_local_hash r of None \<Rightarrow> SNull | Some h \<Rightarrow> SText h)"

definition state_of :: "'w sync_env \<Rightarrow> InspectionRow \<Rightarrow> InspectionState option" where
  \<comment> \<open>\<open>inspection_states\<close>\<close>
  "state_of E r = (case (extract_value E ''id'' (in_remote r), extract_value E ''sha256'' (in_remote r),
       extract_value E ''id'' (in_base r), extract_value E ''sha256'' (in_base r)) of
     (Some rid, Some rsha, Some bid, Some bsha) \<Rightarrow>
       Some (classify (in_remote r \<noteq> None) (in_available r) (local_value r) rid rsha bid bsha)
   | _ \<Rightarrow> None)"

definition state_name :: "InspectionState \<Rightarrow> byte list" where
  "state_name s = (case s of Conflict \<Rightarrow> C ''conflict'' | Waiting \<Rightarrow> C ''waiting'' | Pull \<Rightarrow> C ''pull''
     | Push \<Rightarrow> C ''push'' | Synced \<Rightarrow> C ''synced'')"

definition head_row :: "'w sync_env \<Rightarrow> json \<Rightarrow> InspectionRow" where
  \<comment> \<open>an element of the overview's \<open>heads\<close>\<close>
  "head_row E v = (new_inspection (column_text E (Option.bind (member_of ''manifest'' v) (member_of ''path''))))
     \<lparr>in_remote := column_text E (member_of ''manifest'' v),
      in_available := (case bool_int (member_of ''available'' v) of
          None \<Rightarrow> True | Some JNull \<Rightarrow> True | Some (JInt n) \<Rightarrow> n \<noteq> 0 | Some x \<Rightarrow> g_affinity_int E x \<noteq> Some 0)\<rparr>"

fun insert_heads :: "InspectionRow list \<Rightarrow> InspectionRow list \<Rightarrow> InspectionRow list option" where
  \<comment> \<open>two rows of one path break the key\<close>
  "insert_heads [] rows = Some rows"
| "insert_heads (h # hs) rows =
     (if \<exists>r\<in>set rows. case in_path h of None \<Rightarrow> False | Some p \<Rightarrow> same_path p r then None
      else insert_heads hs (rows @ [h]))"

definition inspect_heads :: "'w sync_env \<Rightarrow> SyncReply \<Rightarrow> Index \<Rightarrow> Index option" where
  "inspect_heads E reply d = map_option (\<lambda>rows. d\<lparr>ix_inspection := rows\<rparr>)
     (insert_heads (map (head_row E) (each_value E (elements (Option.bind (g_parse E (rp_json reply)) (member_of ''heads''))))) (ix_inspection d))"

definition inspect_bases :: "byte list \<Rightarrow> Index \<Rightarrow> Index option" where
  "inspect_bases dataset d = Some (d\<lparr>ix_inspection :=
     fold (\<lambda>f. upsert (fr_path f) (\<lambda>r. r\<lparr>in_base := Some (fr_manifest f)\<rparr>)) (filter (\<lambda>f. fr_dataset f = dataset) (ix_files d))
       (ix_inspection d)\<rparr>)"

definition last_part :: "wstr \<Rightarrow> wstr" where
  \<comment> \<open>after the last \<open>/\<close>\<close>
  "last_part path = rev (takeWhile (\<lambda>c. c \<noteq> 47) (rev path))"

fun excluded_rows ::
    "'w sync_env \<Rightarrow> wstr \<Rightarrow> byte list option list \<Rightarrow> SyncBuffer \<Rightarrow> bool \<Rightarrow> byte list list
     \<Rightarrow> ('w, (SyncBuffer \<times> byte list list) option) sync_cmd" where
  \<comment> \<open>the paths the pair leaves out, as JSON and as a list\<close>
  "excluded_rows E excludes [] b first paths = do { call (g_sql E); ret (Some (b, paths)) }"
| "excluded_rows E excludes (p # ps) b first paths = do {
     stepped \<leftarrow> call (g_sql E);
     if \<not> stepped then ret (Some (b, paths))
     else (case p of None \<Rightarrow> failed SYNC_PROTOCOL | Some p \<Rightarrow>
       (case sync_wide E p SYNC_PATH_CAP of None \<Rightarrow> failed SYNC_PROTOCOL | Some path \<Rightarrow>
         if \<not> sync_relative_path (Some path) then failed SYNC_PROTOCOL
         else if is_excluded E excludes path (last_part path)
         then (case add_all b ((if first then [] else [C '','']) @ string_parts p) of
             None \<Rightarrow> ret None
           | Some b \<Rightarrow> excluded_rows E excludes ps b False (paths @ [p]))
         else excluded_rows E excludes ps b first paths)) }"

definition remove_paths :: "byte list list \<Rightarrow> Index \<Rightarrow> Index option" where
  "remove_paths ps = put_inspection (filter (\<lambda>r. \<not> (\<exists>p\<in>set ps. same_path p r)))"

definition inspect_filter :: "'w sync_env \<Rightarrow> ('w, bool) sync_cmd" where
  "inspect_filter E = do {
     excludes \<leftarrow> gets (sp_excludes \<circ> rq_pair \<circ> rn_request);
     prepared \<leftarrow> call (g_sql E);
     rows \<leftarrow> gets (map in_path \<circ> ix_inspection \<circ> rn_index);
     found \<leftarrow> (case if prepared then sync_buffer_add empty_buffer (C ''['') else None of
         None \<Rightarrow> ret None | Some b \<Rightarrow> excluded_rows E excludes rows b True []);
     case Option.bind found (\<lambda>(b, ps). map_option (\<lambda>_. ps) (sync_buffer_add b (C '']''))) of
       None \<Rightarrow> ret False
     | Some ps \<Rightarrow> sy_statement E 1 (remove_paths ps) }"

definition unchanged_missing :: "'w sync_env \<Rightarrow> InspectionRow \<Rightarrow> bool option" where
  \<comment> \<open>missing here, and the server has nothing newer\<close>
  "unchanged_missing E r =
     (if in_local_hash r \<noteq> None then Some False
      else if in_remote r = None then Some True
      else (case (extract_value E ''id'' (in_remote r), extract_value E ''id'' (in_base r)) of
        (Some a, Some b) \<Rightarrow> Some (a = b) | _ \<Rightarrow> None))"

definition drop_missing :: "'w sync_env \<Rightarrow> Index \<Rightarrow> Index option" where
  "drop_missing E d =
     (if list_all (\<lambda>r. unchanged_missing E r \<noteq> None) (ix_inspection d)
      then put_inspection (filter (\<lambda>r. unchanged_missing E r \<noteq> Some True)) d else None)"

definition state_counts :: "'w sync_env \<Rightarrow> InspectionRow list \<Rightarrow> (InspectionState \<times> nat) list" where
  \<comment> \<open>\<open>GROUP BY state\<close>; a text that is not JSON ends the statement before its first row\<close>
  "state_counts E rows =
     (if list_all (\<lambda>r. state_of E r \<noteq> None) rows
      then map (\<lambda>s. (s, length (filter (\<lambda>r. state_of E r = Some s) rows)))
             (filter (\<lambda>s. \<exists>r\<in>set rows. state_of E r = Some s) [Conflict, Pull, Push, Synced, Waiting])
      else [])"

definition put_count :: "InspectionState \<times> nat \<Rightarrow> ('w, bool) sync_cmd" where
  "put_count c = do {
     put_result (\<lambda>r. case fst c of
         Push \<Rightarrow> r\<lparr>sr_pushes := int (snd c)\<rparr> | Pull \<Rightarrow> r\<lparr>sr_pulls := int (snd c)\<rparr>
       | Conflict \<Rightarrow> r\<lparr>sr_conflicts := int (snd c)\<rparr> | Waiting \<Rightarrow> r\<lparr>sr_waiting := int (snd c)\<rparr> | Synced \<Rightarrow> r);
     ret True }"

definition text_json :: "'w sync_env \<Rightarrow> byte list \<Rightarrow> json" where
  "text_json E b = JText (case g_wide E b of Some t \<Rightarrow> t | None \<Rightarrow> [])"

definition extract_json :: "'w sync_env \<Rightarrow> string \<Rightarrow> byte list option \<Rightarrow> json" where
  \<comment> \<open>\<open>json_extract\<close> inside \<open>json_object\<close>\<close>
  "extract_json E key document =
     (case bool_int (Option.bind (Option.bind document (g_parse E)) (member_of key)) of None \<Rightarrow> JNull | Some j \<Rightarrow> j)"

definition or_empty :: "json \<Rightarrow> json" where
  \<comment> \<open>\<open>coalesce(...,'')\<close>\<close>
  "or_empty j = (if j = JNull then JText [] else j)"

definition int_json :: "int option \<Rightarrow> json" where "int_json v = (case v of None \<Rightarrow> JNull | Some n \<Rightarrow> JInt n)"

definition change_json :: "'w sync_env \<Rightarrow> InspectionRow \<Rightarrow> json option" where
  "change_json E r = map_option (\<lambda>s. JObject [
     (W ''path'', case in_path r of None \<Rightarrow> JNull | Some p \<Rightarrow> text_json E p),
     (W ''state'', text_json E (state_name s)),
     (W ''local'', case in_local_hash r of None \<Rightarrow> JText [] | Some h \<Rightarrow> text_json E h),
     (W ''local_version'', or_empty (extract_json E ''id'' (in_base r))),
     (W ''remote_version'', or_empty (extract_json E ''id'' (in_remote r))),
     (W ''size'', int_json (in_local_size r)), (W ''mtime'', int_json (in_local_time r)),
     (W ''remote_size'', extract_json E ''size'' (in_remote r)),
     (W ''remote_mtime'', extract_json E ''mtime_ns'' (in_remote r)),
     (W ''remote_deleted'', case extract_json E ''kind'' (in_remote r) of
        JNull \<Rightarrow> JNull | j \<Rightarrow> JInt (if j = JText (W ''DELETE'') then 1 else 0)),
     (W ''origin'', extract_json E ''origin'' (in_remote r))]) (state_of E r)"

definition inspect_changes :: "'w sync_env \<Rightarrow> ('w, bool) sync_cmd" where
  "inspect_changes E = do {
     vs \<leftarrow> sy_query_json E (\<lambda>d. those (map (change_json E) (ix_inspection d)));
     put_result (\<lambda>r. r\<lparr>sr_changes := map_option (\<lambda>xs. g_print E (JArray xs)) vs\<rparr>);
     ret (vs \<noteq> None) }"

definition inspect_states :: "'w sync_env \<Rightarrow> ('w, bool) sync_cmd" where
  \<comment> \<open>the view, the counts and the list of changes\<close>
  "inspect_states E = do {
     deletes \<leftarrow> gets (sp_sync_deletes \<circ> rq_pair \<circ> rn_request);
     ok \<leftarrow> sy_exec E Some;
     ok \<leftarrow> (if ok then sy_exec E Some else ret False);
     ok \<leftarrow> (if ok \<and> \<not> deletes then sy_exec E (drop_missing E) else ret ok);
     prepared \<leftarrow> (if ok then call (g_sql E) else ret False);
     rows \<leftarrow> gets (ix_inspection \<circ> rn_index);
     ok \<leftarrow> (if prepared then each_row E put_count (state_counts E rows) else ret False);
     (if ok then inspect_changes E else ret False) }"

definition inspect_tables :: "'w sync_env \<Rightarrow> byte list \<Rightarrow> ('w, bool) sync_cmd" where
  \<comment> \<open>a fresh table with the server's heads and this receiver's versions\<close>
  "inspect_tables E dataset = do {
     reply \<leftarrow> command E (C ''overview'') (Some (C ''dataset'', dataset));
     case reply of None \<Rightarrow> ret False | Some r \<Rightarrow> do {
     ok \<leftarrow> sy_exec E (put_inspection (\<lambda>_. []));
     ok \<leftarrow> (if ok then sy_statement E 1 (inspect_heads E r) else ret False);
     (if ok then sy_statement E 1 (inspect_bases dataset) else ret False) } }"

definition inspect :: "'w sync_env \<Rightarrow> ('w, bool) sync_cmd" where
  "inspect E = do {
     put_result (\<lambda>r. r\<lparr>sr_pushes := 0, sr_pulls := 0, sr_conflicts := 0, sr_waiting := 0, sr_changes := None\<rparr>);
     rq \<leftarrow> gets rn_request;
     a \<leftarrow> call (g_attributes E (sp_directory (rq_pair rq)));
     if \<not> is_directory a then sy_fail SYNC_PATH
     else or_fail SYNC_STORAGE (do {
       ok \<leftarrow> (case sync_utf8 E (sp_dataset (rq_pair rq)) of None \<Rightarrow> ret False | Some dataset \<Rightarrow> inspect_tables E dataset);
       r \<leftarrow> (if ok then inspect_tree E (Suc SCAN_DEPTH) (sp_directory (rq_pair rq)) [] 0 else ret (False, 0));
       ok \<leftarrow> (if fst r then inspect_filter E else ret False);
       (if ok then inspect_states E else ret False) }) }"

subsection \<open>Repairs and choices\<close>

definition publish_rows :: "'w sync_env \<Rightarrow> bool \<Rightarrow> json list \<Rightarrow> ('w, bool) sync_cmd" where
  \<comment> \<open>\<open>SELECT value FROM json_each(...)\<close>, each published\<close>
  "publish_rows E repair vs = do {
     prepared \<leftarrow> call (g_sql E);
     if prepared
     then each_row E (\<lambda>v. case column_text E (Some v) of None \<Rightarrow> ret False | Some m \<Rightarrow> publish_mode E m repair) vs
     else ret False }"

definition repair_subscribers :: "'w sync_env \<Rightarrow> ('w, bool) sync_cmd" where
  "repair_subscribers E = do {
     rq \<leftarrow> gets rn_request;
     case sync_utf8 E (sp_dataset (rq_pair rq)) of None \<Rightarrow> ret False | Some dataset \<Rightarrow> do {
     reply \<leftarrow> command E (C ''repairs'') (Some (C ''dataset'', dataset));
     case reply of None \<Rightarrow> ret False | Some r \<Rightarrow> publish_rows E True (reply_jobs E r) } }"

definition resolve_record :: "'w sync_env \<Rightarrow> byte list \<Rightarrow> Index \<Rightarrow> (byte list \<times> byte list option) option option" where
  \<comment> \<open>the local hash and the server's version of the path; \<open>None\<close>: its text is not JSON, \<open>Some None\<close>: no row\<close>
  "resolve_record E p d = (case find (same_path p) (ix_inspection d) of
     None \<Rightarrow> Some None
   | Some r \<Rightarrow> map_option (\<lambda>v. Some (case in_local_hash r of None \<Rightarrow> [] | Some h \<Rightarrow> h, case v of SNull \<Rightarrow> None
         | SText t \<Rightarrow> if 0 \<in> set t then None else Some t | SOther x \<Rightarrow> json_column E (Some x)))
       (extract_value E ''id'' (in_remote r)))"

definition resolve_query :: "'w sync_env \<Rightarrow> byte list \<Rightarrow> ('w, (byte list \<times> byte list option) option) sync_cmd" where
  "resolve_query E p = do {
     prepared \<leftarrow> call (g_sql E);
     stepped \<leftarrow> (if prepared then call (g_sql E) else ret False);
     d \<leftarrow> gets rn_index;
     case if stepped then resolve_record E p d else None of None \<Rightarrow> failed SYNC_STORAGE | Some v \<Rightarrow> ret v }"

definition recovery_directory :: "wstr \<Rightarrow> wstr \<Rightarrow> wstr option" where
  \<comment> \<open>\<open>state\\recovery\\hash\<close>\<close>
  "recovery_directory state hash = Option.bind (sy_join state (W ''recovery'')) (\<lambda>root. sy_join root hash)"

definition keep_recovery :: "'w sync_env \<Rightarrow> wstr \<Rightarrow> byte list \<Rightarrow> ('w, bool) sync_cmd" where
  \<comment> \<open>a copy of the local file whose hash was compared\<close>
  "keep_recovery E path hash = do {
     rq \<leftarrow> gets rn_request;
     case recovery_directory (rq_state_directory rq) (take 79 (ascii_wide hash)) of
       None \<Rightarrow> ret False
     | Some directory \<Rightarrow> do {
         made \<leftarrow> sy_mkdirs E directory;
         case if made then map_option (map fold_separator) (sy_join directory (rq_resolve_path rq)) else None of
           None \<Rightarrow> ret False
         | Some backup \<Rightarrow> do {
             made \<leftarrow> (case parent_directory backup of None \<Rightarrow> ret False | Some d \<Rightarrow> sy_mkdirs E d);
             there \<leftarrow> (if made then sy_regular E backup else ret False);
             copied \<leftarrow> (if made \<and> \<not> there then call (f_copy_new E path backup) else ret (if made then Copied else CopyFailed));
             v \<leftarrow> (if copied = Copied then sync_hash_file E backup else ret None);
             ret (case v of None \<Rightarrow> False | Some (h, _, _) \<Rightarrow> h = hash) } } }"

definition jobs_at :: "'w sync_env \<Rightarrow> byte list \<Rightarrow> SyncReply \<Rightarrow> json list" where
  \<comment> \<open>\<open>WHERE json_extract(value,'$.manifest.path')=?2\<close>\<close>
  "jobs_at E p reply = filter (\<lambda>v. sql_of (Option.bind (member_of ''manifest'' v) (member_of ''path'')) = SText p)
     (each_value E (reply_jobs E reply))"

definition latest_agrees :: "'w sync_env \<Rightarrow> byte list \<Rightarrow> byte list \<Rightarrow> SyncReply \<Rightarrow> bool" where
  \<comment> \<open>the newest waiting version of the path, if there is one, is the chosen one\<close>
  "latest_agrees E p remote reply \<longleftrightarrow>
     length (each_value E (reply_jobs E reply)) = length (reply_jobs E reply)
     \<and> (jobs_at E p reply = []
        \<or> column_text E (Option.bind (member_of ''manifest'' (last (jobs_at E p reply))) (member_of ''id'')) = Some remote)"

definition outbox_path :: "'w sync_env \<Rightarrow> OutboxRow \<Rightarrow> sql_value option" where
  "outbox_path E r = extract_value E ''path'' (Some (ob_manifest r))"

definition keep_outbox :: "'w sync_env \<Rightarrow> byte list \<Rightarrow> byte list \<Rightarrow> Index \<Rightarrow> Index option" where
  \<comment> \<open>unsent versions of the path stay in the history\<close>
  "keep_outbox E dataset p d =
     (if list_all (\<lambda>r. ob_dataset r = dataset \<longrightarrow> outbox_path E r \<noteq> None) (ix_outbox d)
      then Some (fold (\<lambda>r d. the (keep_version (ob_id r, dataset, p, ob_manifest r) d))
             (filter (\<lambda>r. ob_dataset r = dataset \<and> outbox_path E r = Some (SText p)) (ix_outbox d)) d)
      else None)"

definition drop_outbox_path :: "'w sync_env \<Rightarrow> byte list \<Rightarrow> byte list \<Rightarrow> Index \<Rightarrow> Index option" where
  "drop_outbox_path E dataset p d =
     (if list_all (\<lambda>r. ob_dataset r = dataset \<longrightarrow> outbox_path E r \<noteq> None) (ix_outbox d)
      then Some (d\<lparr>ix_outbox := filter (\<lambda>r. \<not> (ob_dataset r = dataset \<and> outbox_path E r = Some (SText p))) (ix_outbox d)\<rparr>)
      else None)"

definition resolve_checked ::
    "'w sync_env \<Rightarrow> ('w, (byte list \<times> byte list \<times> byte list \<times> wstr) option) sync_cmd" where
  \<comment> \<open>both versions are still the ones the user saw: relative path, local hash, server's version, path\<close>
  "resolve_checked E = do {
     rq \<leftarrow> gets rn_request;
     case sync_utf8 E (rq_resolve_path rq) of None \<Rightarrow> ret None | Some relative \<Rightarrow> do {
     v \<leftarrow> resolve_query E relative;
     case v of
       Some (here, Some remote) \<Rightarrow>
         if here = rq_expected_local rq \<and> remote = rq_expected_remote rq
         then do {
           p \<leftarrow> target_path E relative;
           ret (map_option (\<lambda>path. (relative, here, remote, path)) p) }
         else ret None
     | _ \<Rightarrow> ret None } }"

definition resolve_receive :: "'w sync_env \<Rightarrow> byte list \<Rightarrow> byte list \<Rightarrow> byte list \<Rightarrow> ('w, bool) sync_cmd" where
  \<comment> \<open>what waits for the path, then the version of the comparison\<close>
  "resolve_receive E dataset relative remote = do {
     reply \<leftarrow> command E (C ''pending'') (Some (C ''dataset'', dataset));
     case reply of None \<Rightarrow> ret False | Some r \<Rightarrow> do {
     ok \<leftarrow> sql_steps E 2;
     ok \<leftarrow> (if ok \<and> latest_agrees E relative remote r then receive_rows E (jobs_at E relative r) else ret False);
     if \<not> ok then ret False
     else do {
       manifest \<leftarrow> sy_query E (\<lambda>d. Option.bind (find (same_path relative) (ix_inspection d)) in_remote);
       case manifest of None \<Rightarrow> ret False | Some m \<Rightarrow> do {
       digest \<leftarrow> sync_sha E m;
       if digest = None then ret False else receive_one E (Some m) digest } } } }"

definition resolve :: "'w sync_env \<Rightarrow> ('w, bool) sync_cmd" where
  "resolve E = do {
     rq \<leftarrow> gets rn_request;
     if \<not> sync_relative_path (Some (rq_resolve_path rq)) \<or> rq_resolution rq \<notin> {1, 2} then sy_fail SYNC_PROTOCOL
     else do {
       modify (\<lambda>s. s\<lparr>rn_accepted_local := take 64 (rq_expected_local rq)\<rparr>);
       inspected \<leftarrow> inspect E;
       if \<not> inspected then ret False
       else do {
         c \<leftarrow> resolve_checked E;
         ok \<leftarrow> (case c of None \<Rightarrow> ret False | Some (relative, here, remote, path) \<Rightarrow> do {
           ok \<leftarrow> (if here \<noteq> [] then keep_recovery E path here else ret True);
           case if ok then sync_utf8 E (sp_dataset (rq_pair rq)) else None of None \<Rightarrow> ret False | Some dataset \<Rightarrow> do {
           ok \<leftarrow> resolve_receive E dataset relative remote;
           ok \<leftarrow> (if ok then sy_statement E 2 (keep_outbox E dataset relative) else ret False);
           ok \<leftarrow> (if ok then sy_statement E 2 (drop_outbox_path E dataset relative) else ret False);
           (if ok \<and> rq_resolution rq = 1 then push_file E path (rq_resolve_path rq) (here = []) else ret ok) } });
         code \<leftarrow> gets (sr_failure \<circ> rn_result);
         (if \<not> ok \<and> code = SYNC_OK then sy_fail SYNC_CONFLICT else ret ok) } } }"

subsection \<open>A run over the directory\<close>

definition bind_pair :: "'w sync_env \<Rightarrow> ('w, bool) sync_cmd" where
  "bind_pair E = do {
     pair \<leftarrow> gets (rq_pair \<circ> rn_request);
     case (sync_utf8 E (sp_dataset pair), sync_utf8 E (sp_group pair)) of
       (Some dataset, Some name) \<Rightarrow> do {
         created \<leftarrow> request E (sy_fields (C ''dataset_create'') (Some (C ''dataset'', dataset)) (Some (C ''name'', name))) [];
         with_path \<leftarrow> (case (sy_fields (C ''bind'') (Some (C ''dataset'', dataset)) (Some (C ''name'', name)), sync_utf8 E (sp_directory pair)) of
             (Some t, Some path) \<Rightarrow> sync_json_patch E t ''path'' path False | _ \<Rightarrow> ret None);
         bound \<leftarrow> (if created = None then ret None else request E with_path []);
         ret (bound \<noteq> None) }
     | _ \<Rightarrow> ret False }"

definition outbox_jobs :: "'w sync_env \<Rightarrow> byte list \<Rightarrow> Index \<Rightarrow> json list option" where
  "outbox_jobs E dataset d = those (map (\<lambda>r. g_parse E (ob_manifest r)) (filter (\<lambda>r. ob_dataset r = dataset) (ix_outbox d)))"

definition push_missing :: "'w sync_env \<Rightarrow> byte list \<Rightarrow> ('w, bool) sync_cmd" where
  \<comment> \<open>a known path without a file is a deletion\<close>
  "push_missing E p = do {
     target \<leftarrow> target_path E p;
     case (target, sync_wide E p SYNC_PATH_CAP) of
       (Some path, Some relative) \<Rightarrow> do {
         excludes \<leftarrow> gets (sp_excludes \<circ> rq_pair \<circ> rn_request);
         a \<leftarrow> call (g_attributes E path);
         (if a = Absent \<and> \<not> is_excluded E excludes relative relative then push_file E path relative True else ret True) }
     | _ \<Rightarrow> ret False }"

definition push_all_missing :: "'w sync_env \<Rightarrow> byte list \<Rightarrow> ('w, bool) sync_cmd" where
  "push_all_missing E dataset = do {
     known \<leftarrow> sy_query_json E (\<lambda>d. Some (map (\<lambda>f. text_json E (fr_path f)) (filter (\<lambda>f. fr_dataset f = dataset) (ix_files d))));
     prepared \<leftarrow> (if known = None then ret False else call (g_sql E));
     (if prepared
      then each_row E (\<lambda>v. case column_text E (Some v) of None \<Rightarrow> ret False | Some p \<Rightarrow> push_missing E p) (the known)
      else ret False) }"

definition sync_outbox :: "'w sync_env \<Rightarrow> byte list \<Rightarrow> ('w, bool) sync_cmd" where
  \<comment> \<open>what an earlier run left to publish\<close>
  "sync_outbox E dataset = do {
     jobs \<leftarrow> sy_query_json E (outbox_jobs E dataset);
     case jobs of None \<Rightarrow> ret False | Some vs \<Rightarrow> publish_rows E False vs }"

definition sync_both :: "'w sync_env \<Rightarrow> ('w, bool) sync_cmd" where
  \<comment> \<open>from the outbox on\<close>
  "sync_both E = do {
     rq \<leftarrow> gets rn_request;
     case sync_utf8 E (sp_dataset (rq_pair rq)) of None \<Rightarrow> ret False | Some dataset \<Rightarrow> do {
     ok \<leftarrow> sync_outbox E dataset;
     ok \<leftarrow> (if ok \<and> rq_direction rq \<noteq> 1 then receive_all E else ret ok);
     r \<leftarrow> (if ok then scan E (Suc SCAN_DEPTH) (sp_directory (rq_pair rq)) [] 0 else ret (False, 0));
     ok \<leftarrow> (if fst r \<and> sp_sync_deletes (rq_pair rq) then push_all_missing E dataset else ret (fst r));
     cancelled \<leftarrow> (if ok then sy_cancel E else ret False);
     ret (ok \<and> \<not> cancelled) } }"

definition sy_sync :: "'w sync_env \<Rightarrow> ('w, bool) sync_cmd" where
  "sy_sync E = do {
     rq \<leftarrow> gets rn_request;
     a \<leftarrow> call (g_attributes E (sp_directory (rq_pair rq)));
     if \<not> is_directory a then sy_fail SYNC_PATH
     else do {
       bound \<leftarrow> bind_pair E;
       repaired \<leftarrow> (if bound \<and> rq_direction rq \<noteq> 2 then repair_subscribers E else ret bound);
       if \<not> repaired then ret False
       else if rq_direction rq = 2 then receive_all E
       else if rq_direction rq = 1 then do {
         inspected \<leftarrow> inspect E;
         r \<leftarrow> gets rn_result;
         (if \<not> inspected then ret False
          else if sr_conflicts r \<noteq> 0 \<or> sr_pulls r \<noteq> 0 \<or> sr_waiting r \<noteq> 0 then sy_fail SYNC_CONFLICT
          else sync_both E) }
       else sync_both E } }"

subsection \<open>The jobs of the client\<close>

datatype SyncJob = SYNC_JOB_REFRESH | SYNC_JOB_REGISTER | SYNC_JOB_RUN | SYNC_JOB_BIND | SYNC_JOB_UNBIND
  | SYNC_JOB_CHECK | SYNC_JOB_PUSH | SYNC_JOB_PULL | SYNC_JOB_RESOLVE
  | SYNC_JOB_SERVER_PROBE | SYNC_JOB_SERVER_DEPLOY | SYNC_JOB_SERVER_ATTACH | SYNC_JOB_SERVER_MIGRATE | SYNC_JOB_SERVER_RESTORE

definition transfers :: "SyncJob \<Rightarrow> bool" where
  "transfers action \<longleftrightarrow> action \<in> {SYNC_JOB_RUN, SYNC_JOB_PUSH, SYNC_JOB_PULL}"

definition job_request :: "SyncJob \<Rightarrow> SyncRequest \<Rightarrow> SyncRequest" where
  \<comment> \<open>a choice belongs to the resolving job alone, a direction to the job that names it\<close>
  "job_request action rq =
     (let rq = (if action \<noteq> SYNC_JOB_RESOLVE then rq\<lparr>rq_resolution := 0\<rparr> else rq)
      in if transfers action
         then rq\<lparr>rq_direction := if action = SYNC_JOB_PUSH then 1 else if action = SYNC_JOB_PULL then 2 else 0\<rparr> else rq)"

definition empty_index :: Index where
  "empty_index = \<lparr>ix_files = [], ix_outbox = [], ix_inbox = [], ix_versions = [], ix_inspection = []\<rparr>"

definition start_run :: "SyncRequest \<Rightarrow> 'w \<Rightarrow> 'w Run" where
  \<comment> \<open>\<open>SyncRun r={0}\<close> and the cleared result\<close>
  "start_run rq w = \<lparr>rn_world = w, rn_index = empty_index, rn_begun = None, rn_request = rq, rn_result = zero_result,
     rn_cache = [], rn_partial = [], rn_gear = (\<lambda>_. 0), rn_accepted_local = [], rn_phase = SYNC_CONNECT,
     rn_progress_tick = 0, rn_endless = False\<rparr>"

fun gear_digests :: "'w sync_env \<Rightarrow> nat \<Rightarrow> ('w, bool) sync_cmd" where
  "gear_digests E 0 = ret True"
| "gear_digests E (Suc n) = do { ok \<leftarrow> call (g_digest_ok E); if ok then gear_digests E n else ret False }"

definition run_gear :: "'w sync_env \<Rightarrow> ('w, bool) sync_cmd" where
  \<comment> \<open>the rolling hash's table: eight bytes of the digest of each byte\<close>
  "run_gear E = do {
     ok \<leftarrow> gear_digests E 256;
     (if ok then modify (\<lambda>s. s\<lparr>rn_gear := (\<lambda>b. of_nat (le_value (take 8 (g_sha256 E [b]))))\<rparr>) else ret ());
     ret ok }"

definition run_connect :: "'w sync_env \<Rightarrow> ('w, bool) sync_cmd" where
  "run_connect E = do {
     sy_progress E SYNC_CONNECT None 0 0;
     connected \<leftarrow> call (g_connect E);
     if \<not> connected
     then do { w \<leftarrow> gets rn_world; sy_fail (if g_ssh_cancelled E w then SYNC_CANCELLED else SYNC_NETWORK) }
     else do {
       settings \<leftarrow> gets (rq_settings \<circ> rn_request);
       call (g_protocol_open E (st_project settings) (st_broker settings)) } }"

definition device_role :: "byte list option \<Rightarrow> int option" where
  "device_role role = (case role of
     Some [c] \<Rightarrow> if 65 \<le> uint c \<and> uint c < 65 + int SYNC_DEVICE_LIMIT then Some (uint c - 65) else None | _ \<Rightarrow> None)"

definition run_register :: "'w sync_env \<Rightarrow> ('w, bool) sync_cmd" where
  "run_register E = do {
     settings \<leftarrow> gets (rq_settings \<circ> rn_request);
     case Option.bind (sync_utf8 E (st_name settings)) (\<lambda>n. sy_fields (C ''register'') (Some (C ''name'', n)) None) of
       None \<Rightarrow> ret False
     | Some base \<Rightarrow> do {
         registration \<leftarrow> sync_json_patch E base ''automatic'' (C ''true'') True;
         reply \<leftarrow> request E registration [];
         case reply of None \<Rightarrow> ret False | Some r \<Rightarrow> do {
         role \<leftarrow> sync_json_string E (rp_json r) [''device''];
         case device_role role of
           None \<Rightarrow> ret False
         | Some n \<Rightarrow> do {
             put_result (\<lambda>r. r\<lparr>sr_registered_role := n\<rparr>);
             modify (\<lambda>s. s\<lparr>rn_request := (rn_request s)\<lparr>rq_settings := (rq_settings (rn_request s))\<lparr>st_role := n\<rparr>\<rparr>\<rparr>);
             ret True } } } }"

definition run_unbind :: "'w sync_env \<Rightarrow> ('w, bool) sync_cmd" where
  "run_unbind E = do {
     pair \<leftarrow> gets (rq_pair \<circ> rn_request);
     case sync_utf8 E (sp_dataset pair) of None \<Rightarrow> ret False | Some dataset \<Rightarrow> do {
     reply \<leftarrow> command E (C ''unbind'') (Some (C ''dataset'', dataset));
     ret (reply \<noteq> None) } }"

definition run_action :: "'w sync_env \<Rightarrow> SyncJob \<Rightarrow> ('w, bool) sync_cmd" where
  \<comment> \<open>after work on the files, a fresh comparison\<close>
  "run_action E action =
     (if action = SYNC_JOB_REGISTER then run_register E
      else if action = SYNC_JOB_CHECK then inspect E
      else if action = SYNC_JOB_RESOLVE then do { ok \<leftarrow> resolve E; if ok then inspect E else ret False }
      else if transfers action then do { ok \<leftarrow> sy_sync E; if ok then inspect E else ret False }
      else if action = SYNC_JOB_BIND then bind_pair E
      else if action = SYNC_JOB_UNBIND then run_unbind E
      else ret True)"

definition run_status :: "'w sync_env \<Rightarrow> SyncJob \<Rightarrow> ('w, bool) sync_cmd" where
  "run_status E action = do {
     settings \<leftarrow> gets (rq_settings \<circ> rn_request);
     reply \<leftarrow> command E (if action = SYNC_JOB_REFRESH \<and> \<not> st_registered settings then C ''ping'' else C ''status'') None;
     case reply of None \<Rightarrow> ret False
     | Some r \<Rightarrow> do {
         put_result (\<lambda>x. x\<lparr>sr_cloud := Some (rp_json r)\<rparr>);
         sy_progress E SYNC_FINISH None 0 0;
         ret True } }"

definition client_steps :: "'w sync_env \<Rightarrow> SyncJob \<Rightarrow> ('w, bool) sync_cmd" where
  "client_steps E action = do {
     ok \<leftarrow> sy_index_open E;
     ok \<leftarrow> (if ok then run_gear E else ret False);
     ok \<leftarrow> (if ok then run_connect E else ret False);
     ok \<leftarrow> (if ok then run_action E action else ret False);
     ok \<leftarrow> (if ok then run_status E action else ret False);
     code \<leftarrow> gets (sr_failure \<circ> rn_result);
     (if \<not> ok \<and> code = SYNC_OK then put_result (\<lambda>r. r\<lparr>sr_failure := SYNC_NETWORK\<rparr>) else ret ());
     ret ok }"

definition sync_client_run :: "'w sync_env \<Rightarrow> SyncJob \<Rightarrow> SyncRequest \<Rightarrow> 'w \<Rightarrow> bool \<times> SyncResult \<times> SyncRequest \<times> 'w Run" where
  \<comment> \<open>a job of the client (not of the server): success, result, the request as it leaves it
    (the choice as it was, the secret cleared), and the run\<close>
  "sync_client_run E action rq w = (case run_state (client_steps E action) (start_run (job_request action rq) w) of
     (ok, s) \<Rightarrow> (ok, rn_result s, (rn_request s)\<lparr>rq_resolution := rq_resolution rq, rq_login := (rq_login (rn_request s))\<lparr>lg_secret := []\<rparr>\<rparr>, s))"

end
