(* ===== verification/Batch_Output.thy ===== *)
theory Batch_Output
  imports Effects
begin

text \<open>
  \<open>src/src/platform/batch_runner.c\<close>, the pure parts: the last bytes a command printed and how they become a
  line for the user, and the folders of \<open>PATH\<close> in which \<open>git.exe\<close> is looked for. The conversions of
  bytes to text, the environment and \<open>SearchPathW\<close> are parameters.
\<close>

subsection \<open>The tail of what a command prints\<close>

definition TAIL_CAP :: nat where "TAIL_CAP = 8192"
definition CHUNK_CAP :: nat where "CHUNK_CAP = 1024"
definition BATCH_OUTPUT_CAP :: nat where "BATCH_OUTPUT_CAP = 1024"

definition keep_chunk :: "byte list \<Rightarrow> byte list \<Rightarrow> byte list" where
  \<comment> \<open>the body of the loop: the oldest bytes make room for the new ones\<close>
  "keep_chunk tail chunk =
     (let discard = (if length tail + length chunk > TAIL_CAP then length tail + length chunk - TAIL_CAP else 0)
      in drop discard tail @ chunk)"

fun read_output :: "byte list \<Rightarrow> byte list list \<Rightarrow> byte list" where
  \<comment> \<open>\<open>while(ReadFile(...)&&count)\<close>, over what the reads give\<close>
  "read_output tail [] = tail"
| "read_output tail (c # cs) = (if c = [] then tail else read_output (keep_chunk tail c) cs)"

lemma keep_chunk_suffix:
  assumes "length chunk \<le> TAIL_CAP" and "tail = drop (length all - TAIL_CAP) all"
  shows "keep_chunk tail chunk = drop (length (all @ chunk) - TAIL_CAP) (all @ chunk)"
proof (cases "length all \<le> TAIL_CAP")
  case True
  with assms show ?thesis by (auto simp: keep_chunk_def Let_def)
next
  case False
  then have "length tail = TAIL_CAP" using assms(2) by simp
  with assms False show ?thesis by (auto simp: keep_chunk_def Let_def drop_drop algebra_simps)
qed

lemma read_output_suffix:
  assumes "\<forall>c\<in>set cs. length c \<le> TAIL_CAP" and "tail = drop (length all - TAIL_CAP) all"
  shows "read_output tail cs = (let s = all @ concat (takeWhile (\<lambda>c. c \<noteq> []) cs) in drop (length s - TAIL_CAP) s)"
  using assms
proof (induction cs arbitrary: tail all)
  case Nil
  then show ?case by simp
next
  case (Cons c cs)
  then have "keep_chunk tail c = drop (length (all @ c) - TAIL_CAP) (all @ c)"
    by (intro keep_chunk_suffix) auto
  from Cons.IH [OF _ this] Cons.prems show ?case by (auto simp: Let_def)
qed

text \<open>C17 (equivalence): whatever sizes the reads have, the reader holds the last 8192 bytes of everything the
  command printed up to the first empty read, and all of it when it printed less.\<close>

theorem read_output_is_tail:
  assumes "\<forall>c\<in>set chunks. length c \<le> CHUNK_CAP"
  shows "read_output [] chunks = (let all = concat (takeWhile (\<lambda>c. c \<noteq> []) chunks) in drop (length all - TAIL_CAP) all)"
proof -
  have "\<forall>c\<in>set chunks. length c \<le> TAIL_CAP" using assms by (auto simp: TAIL_CAP_def CHUNK_CAP_def)
  from read_output_suffix [OF this, of "[]" "[]"] show ?thesis by simp
qed

theorem read_output_is_tail_witness:
  "read_output [] [[1, 2], [3], [], [4]] = [1, 2, 3]"
  using read_output_is_tail [of "[[1, 2], [3], [], [4]]"] by (simp add: CHUNK_CAP_def TAIL_CAP_def)

subsection \<open>A line for the user\<close>

fun clean_chars :: "bool \<Rightarrow> wstr \<Rightarrow> wstr" where
  \<comment> \<open>the loop, with \<open>spaced\<close>\<close>
  "clean_chars spaced [] = []"
| "clean_chars spaced (c # cs) =
     (if c < 32 then (if spaced then clean_chars True cs else 32 # clean_chars True cs) else c # clean_chars False cs)"

definition strip_spaces :: "wstr \<Rightarrow> wstr" where
  "strip_spaces s = rev (dropWhile (\<lambda>c. c = 32) (rev s))"

definition clean_output :: "wstr \<Rightarrow> wstr" where
  "clean_output s = strip_spaces (clean_chars True s)"

record decoder =
  dc_utf8 :: "byte list \<Rightarrow> wstr option"   \<comment> \<open>\<open>MB_ERR_INVALID_CHARS\<close>\<close>
  dc_oem :: "byte list \<Rightarrow> wstr option"

definition decode_tail :: "decoder \<Rightarrow> byte list \<Rightarrow> wstr option" where
  \<comment> \<open>UTF-8, from one of the first four bytes when the tail was cut; else the OEM code page\<close>
  "decode_tail D bytes =
     (let attempts = (if length bytes = TAIL_CAP then 4 else 1);
          tries = filter (\<lambda>k. dc_utf8 D (drop k bytes) \<noteq> None \<and> dc_utf8 D (drop k bytes) \<noteq> Some [])
                    [0..<min attempts (length bytes)]
      in case tries of k # _ \<Rightarrow> dc_utf8 D (drop k bytes) | [] \<Rightarrow> dc_oem D bytes)"

definition decode_output :: "decoder \<Rightarrow> byte list \<Rightarrow> nat \<Rightarrow> wstr" where
  "decode_output D bytes capacity =
     (if capacity = 0 \<or> bytes = [] then []
      else (case decode_tail D bytes of
        None \<Rightarrow> []
      | Some decoded \<Rightarrow>
          if decoded = [] then []
          else clean_output (takeWhile (\<lambda>c. c \<noteq> 0)
            (if length decoded \<ge> capacity then drop (length decoded - (capacity - 1)) decoded else decoded))))"

lemma length_clean_chars: "length (clean_chars b s) \<le> length s"
  by (induction b s rule: clean_chars.induct) auto

lemma set_clean_chars: "c \<in> set (clean_chars b s) \<Longrightarrow> 32 \<le> c"
  by (induction b s rule: clean_chars.induct) (auto split: if_splits)

lemma length_strip_spaces: "length (strip_spaces s) \<le> length s"
  using length_dropWhile_le [of "\<lambda>c. c = 32" "rev s"] by (simp add: strip_spaces_def)

lemma set_strip_spaces: "c \<in> set (strip_spaces s) \<Longrightarrow> c \<in> set s"
  by (auto simp: strip_spaces_def dest: set_dropWhileD)

lemma strip_spaces_last: "strip_spaces s \<noteq> [] \<Longrightarrow> last (strip_spaces s) \<noteq> 32"
  using hd_dropWhile [of "\<lambda>c. c = 32" "rev s"] by (auto simp: strip_spaces_def last_rev)

lemma clean_output_props:
  "length (clean_output s) \<le> length s" "\<forall>c\<in>set (clean_output s). 32 \<le> c" "clean_output s \<noteq> [] \<longrightarrow> last (clean_output s) \<noteq> 32"
  using length_strip_spaces [of "clean_chars True s"] length_clean_chars [of True s]
  by (auto simp: clean_output_def dest: set_strip_spaces set_clean_chars strip_spaces_last)

text \<open>The text of a command's output fits the buffer of the result with its NUL, holds no
  control character and does not end in a space, whatever bytes the command printed.\<close>

theorem decode_output_bounds:
  "length (decode_output D bytes BATCH_OUTPUT_CAP) < BATCH_OUTPUT_CAP
   \<and> list_all (\<lambda>c. 32 \<le> c) (decode_output D bytes BATCH_OUTPUT_CAP)
   \<and> (case rev (decode_output D bytes BATCH_OUTPUT_CAP) of [] \<Rightarrow> True | c # _ \<Rightarrow> c \<noteq> 32)"
proof -
  have cut: "length (takeWhile P (if length d \<ge> BATCH_OUTPUT_CAP then drop (length d - (BATCH_OUTPUT_CAP - 1)) d else d))
      < BATCH_OUTPUT_CAP" for d :: wstr and P
    by (rule le_less_trans [OF length_takeWhile_le]) (simp add: BATCH_OUTPUT_CAP_def)
  have clean: "length (clean_output s) < BATCH_OUTPUT_CAP \<and> list_all (\<lambda>c. 32 \<le> c) (clean_output s)
      \<and> (case rev (clean_output s) of [] \<Rightarrow> True | c # _ \<Rightarrow> c \<noteq> 32)" if "length s < BATCH_OUTPUT_CAP" for s
    using clean_output_props [of s] that
    by (cases "clean_output s" rule: rev_cases) (auto simp: list_all_iff)
  have none: "length ([] :: wstr) < BATCH_OUTPUT_CAP" by (simp add: BATCH_OUTPUT_CAP_def)
  show ?thesis
    using clean [OF cut] none by (auto simp: decode_output_def split: option.splits)
qed

subsection \<open>Looking for git\<close>

fun path_segments :: "bool \<Rightarrow> wstr \<Rightarrow> wstr \<Rightarrow> wstr list" where
  \<comment> \<open>the loop over \<open>cursor\<close>, with \<open>quoted\<close> and the segment so far\<close>
  "path_segments quoted acc [] = [acc]"
| "path_segments quoted acc (c # cs) =
     (let quoted = (if c = 34 then \<not> quoted else quoted)
      in if c = 59 \<and> \<not> quoted then acc # path_segments quoted [] cs else path_segments quoted (acc @ [c]) cs)"

definition trimmed :: "wchar \<Rightarrow> bool" where "trimmed c \<longleftrightarrow> c = 32 \<or> c = 9 \<or> c = 34"

definition trim_segment :: "wstr \<Rightarrow> wstr" where
  "trim_segment s = rev (dropWhile trimmed (rev (dropWhile trimmed s)))"

fun absolute_folder :: "wstr \<Rightarrow> bool" where
  "absolute_folder (a # b # rest) \<longleftrightarrow>
     (((65 \<le> a \<and> a \<le> 90) \<or> (97 \<le> a \<and> a \<le> 122)) \<and> b = 58 \<and> (case rest of c # _ \<Rightarrow> c = 92 \<or> c = 47 | [] \<Rightarrow> False))
     \<or> (a = 92 \<and> b = 92)"
| "absolute_folder _ \<longleftrightarrow> False"

fun join_folders :: "wstr list \<Rightarrow> wstr" where
  \<comment> \<open>\<open>if(*safe)wcscat(safe,L";");wcscat(safe,segment);\<close>\<close>
  "join_folders [] = []"
| "join_folders [f] = f"
| "join_folders (f # fs) = f @ [59] @ join_folders fs"

definition path_folders :: "wstr \<Rightarrow> wstr list" where
  "path_folders search = filter absolute_folder (map trim_segment (path_segments False [] search))"

definition safe_path :: "wstr \<Rightarrow> wstr" where "safe_path search = join_folders (path_folders search)"

record 'w git_env =
  gv_path_size :: "'w \<Rightarrow> (nat + nat) \<times> 'w"          \<comment> \<open>\<open>GetEnvironmentVariableW(L"PATH",NULL,0)\<close>, or an error\<close>
  gv_path :: "nat \<Rightarrow> 'w \<Rightarrow> (nat + wstr) \<times> 'w"       \<comment> \<open>the second call; a text that does not fit is 0 characters\<close>
  gv_search :: "wstr \<Rightarrow> nat \<Rightarrow> 'w \<Rightarrow> (nat \<times> wstr) \<times> 'w"  \<comment> \<open>\<open>SearchPathW(safe,L"git.exe",...)\<close>\<close>

definition ERROR_INVALID_PARAMETER :: nat where "ERROR_INVALID_PARAMETER = 87"
definition ERROR_BAD_ENVIRONMENT :: nat where "ERROR_BAD_ENVIRONMENT = 10"
definition ERROR_INSUFFICIENT_BUFFER :: nat where "ERROR_INSUFFICIENT_BUFFER = 122"
definition ERROR_FILE_NOT_FOUND :: nat where "ERROR_FILE_NOT_FOUND = 2"

definition batch_runner_find_git :: "'w git_env \<Rightarrow> nat option \<Rightarrow> 'w \<Rightarrow> (nat + wstr) \<times> 'w" where
  \<comment> \<open>the capacity of the caller's buffer, \<open>None\<close> for NULL; \<open>Inl\<close> is the error\<close>
  "batch_runner_find_git E capacity w = (case capacity of
     None \<Rightarrow> (Inl ERROR_INVALID_PARAMETER, w)
   | Some cap \<Rightarrow>
       if cap < 2 then (Inl ERROR_INVALID_PARAMETER, w)
       else (case gv_path_size E w of
         (Inl e, w) \<Rightarrow> (Inl e, w)
       | (Inr needed, w) \<Rightarrow> (case gv_path E needed w of
           (Inl e, w) \<Rightarrow> (Inl (if e \<noteq> 0 then e else ERROR_BAD_ENVIRONMENT), w)
         | (Inr search, w) \<Rightarrow>
             if safe_path search = [] then (Inl ERROR_FILE_NOT_FOUND, w)
             else (case gv_search E (safe_path search) cap w of ((n, found), w) \<Rightarrow>
               if n = 0 then (Inl ERROR_FILE_NOT_FOUND, w)
               else if n \<ge> cap then (Inl ERROR_INSUFFICIENT_BUFFER, w)
               else (Inr found, w)))))"

lemma quoted_separator_splits:
  \<comment> \<open>a quoted folder with a semicolon is one absolute folder here, and two to \<open>SearchPathW\<close>, the second relative\<close>
  "path_folders [34, 67, 58, 92, 97, 59, 98, 34] = [[67, 58, 92, 97, 59, 98]]
   \<and> path_segments False [] (safe_path [34, 67, 58, 92, 97, 59, 98, 34]) = [[67, 58, 92, 97], [98]]
   \<and> \<not> absolute_folder [98]"
  by code_simp

end
