(* ===== verification/Batch_Runner.thy ===== *)
theory Batch_Runner
  imports Batch_Output Batch_Task
begin

text \<open>
  \<open>src/src/platform/batch_runner.c\<close>: running one command, and running a task, one after the other or one
  thread per directory. A command is a sequence of Windows calls on an unknown world. A task is a step
  relation: the calling thread and the threads of the directories take steps in any order, the cancel
  event can be set at any time, and what a command returns is arbitrary.
\<close>

subsection \<open>One command\<close>

datatype wait_outcome = WaitProcess | WaitCancel | WaitFailed nat | WaitOther

record 'w command_env =
  cm_decoder :: decoder
  cm_system :: "'w \<Rightarrow> wstr option \<times> 'w"                     \<comment> \<open>\<open>GetSystemDirectoryW\<close>, where it fits\<close>
  cm_folder :: "wstr \<Rightarrow> 'w \<Rightarrow> (nat + bool) \<times> 'w"             \<comment> \<open>an error, or whether it is a directory\<close>
  cm_pipe :: "'w \<Rightarrow> nat option \<times> 'w"                        \<comment> \<open>\<open>NUL\<close> and the pipe; an error\<close>
  cm_job :: "'w \<Rightarrow> nat option \<times> 'w"                         \<comment> \<open>\<open>CreateJobObjectW\<close>\<close>
  cm_limit :: "'w \<Rightarrow> nat option \<times> 'w"                       \<comment> \<open>\<open>KILL_ON_JOB_CLOSE\<close>\<close>
  cm_create :: "wstr \<Rightarrow> wstr \<Rightarrow> wstr \<Rightarrow> 'w \<Rightarrow> nat option \<times> 'w"  \<comment> \<open>suspended: program, command line, directory\<close>
  cm_reader :: "'w \<Rightarrow> nat option \<times> 'w"                      \<comment> \<open>the thread of the reader\<close>
  cm_assign :: "'w \<Rightarrow> nat option \<times> 'w"
  cm_resume :: "'w \<Rightarrow> nat option \<times> 'w"
  cm_terminate :: "'w \<Rightarrow> 'w"                               \<comment> \<open>\<open>TerminateProcess\<close>\<close>
  cm_kill_job :: "'w \<Rightarrow> 'w"                                \<comment> \<open>\<open>TerminateJobObject\<close> and the wait after it\<close>
  cm_wait :: "bool \<Rightarrow> 'w \<Rightarrow> wait_outcome \<times> 'w"               \<comment> \<open>with the cancel event, when there is one\<close>
  cm_exit :: "'w \<Rightarrow> nat option \<times> 'w"                        \<comment> \<open>\<open>GetExitCodeProcess\<close>\<close>
  cm_chunks :: "'w \<Rightarrow> byte list list \<times> 'w"                 \<comment> \<open>what the reader's thread reads until it ends\<close>

definition MAX_PATH :: nat where "MAX_PATH = 260"
definition NO_EXIT_CODE :: nat where "NO_EXIT_CODE = 4294967295"    \<comment> \<open>\<open>(DWORD)-1\<close>\<close>
definition ERROR_CANCELLED :: nat where "ERROR_CANCELLED = 1223"
definition ERROR_GEN_FAILURE :: nat where "ERROR_GEN_FAILURE = 31"
definition ERROR_DIRECTORY :: nat where "ERROR_DIRECTORY = 267"

record CommandResult =
  cr_ok :: bool
  cr_code :: nat
  cr_error :: nat
  cr_output :: wstr

definition refused :: "nat \<Rightarrow> CommandResult" where
  "refused e = \<lparr>cr_ok = False, cr_code = NO_EXIT_CODE, cr_error = e, cr_output = []\<rparr>"

definition command_line :: "wstr \<Rightarrow> wstr \<Rightarrow> wstr" where
  "command_line program line = [34] @ program @ [34] @ W '' /d /s /c '' @ [34] @ line @ [34]"

fun command_setup :: "('w \<Rightarrow> nat option \<times> 'w) list \<Rightarrow> 'w \<Rightarrow> nat option \<times> 'w" where
  \<comment> \<open>calls that must all succeed; the first error ends them\<close>
  "command_setup [] w = (None, w)"
| "command_setup (c # cs) w = (case c w of (Some e, w) \<Rightarrow> (Some e, w) | (None, w) \<Rightarrow> command_setup cs w)"

definition command_wait :: "'w command_env \<Rightarrow> bool \<Rightarrow> 'w \<Rightarrow> CommandResult \<times> 'w" where
  \<comment> \<open>from the wait on\<close>
  "command_wait E cancel w =
     (case cm_wait E cancel w of (waited, w) \<Rightarrow>
       let cancelled = cancel \<and> waited = WaitCancel;
           w = (if cancelled then cm_kill_job E w else w);
           (code, w) = (if \<not> cancelled \<and> waited = WaitProcess then cm_exit E w else (None, w));
           failure = (if cancelled then ERROR_CANCELLED
             else if code \<noteq> None then 0
             else (case waited of WaitFailed e \<Rightarrow> e | _ \<Rightarrow> ERROR_GEN_FAILURE));
           (chunks, w) = cm_chunks E w
       in (\<lparr>cr_ok = code \<noteq> None, cr_code = (case code of Some c \<Rightarrow> c | None \<Rightarrow> NO_EXIT_CODE), cr_error = failure,
            cr_output = decode_output (cm_decoder E) (read_output [] chunks) BATCH_OUTPUT_CAP\<rparr>, w))"

definition command_start :: "'w command_env \<Rightarrow> wstr \<Rightarrow> wstr \<Rightarrow> wstr \<Rightarrow> bool \<Rightarrow> 'w \<Rightarrow> CommandResult \<times> 'w" where
  \<comment> \<open>from the pipe on; a process that cannot be watched is ended before it runs\<close>
  "command_start E program line directory cancel w =
     (case command_setup [cm_pipe E, cm_job E, cm_limit E, cm_create E program line directory] w of
       (Some e, w) \<Rightarrow> (refused e, w)
     | (None, w) \<Rightarrow> (case command_setup [cm_reader E, cm_assign E, cm_resume E] w of
         (Some e, w) \<Rightarrow> (refused e, cm_terminate E w)
       | (None, w) \<Rightarrow> command_wait E cancel w))"

definition command_impl :: "'w command_env \<Rightarrow> wstr option \<Rightarrow> wstr option \<Rightarrow> bool \<Rightarrow> 'w \<Rightarrow> CommandResult \<times> 'w" where
  \<comment> \<open>text, directory and whether there is a cancel event\<close>
  "command_impl E line directory cancel w = (case (line, directory) of
     (Some line, Some directory) \<Rightarrow>
       if line = [] \<or> length line \<ge> BATCH_COMMAND_CAP \<or> directory = [] then (refused ERROR_INVALID_PARAMETER, w)
       else (case cm_system E w of
         (None, w) \<Rightarrow> (refused ERROR_INSUFFICIENT_BUFFER, w)
       | (Some root, w) \<Rightarrow>
           if root = [] \<or> length root > MAX_PATH - 9 then (refused ERROR_INSUFFICIENT_BUFFER, w)
           else (case cm_folder E directory w of
             (Inl e, w) \<Rightarrow> (refused e, w)
           | (Inr False, w) \<Rightarrow> (refused ERROR_DIRECTORY, w)
           | (Inr True, w) \<Rightarrow>
               let program = root @ [92] @ W ''cmd.exe''; full = command_line program line
               in if length full \<ge> BATCH_COMMAND_CAP + MAX_PATH + 32 then (refused ERROR_INSUFFICIENT_BUFFER, w)
                  else command_start E program full directory cancel w))
   | _ \<Rightarrow> (refused ERROR_INVALID_PARAMETER, w))"

definition batch_runner_command :: "'w command_env \<Rightarrow> wstr option \<Rightarrow> wstr option \<Rightarrow> bool \<Rightarrow> 'w \<Rightarrow> CommandResult \<times> 'w" where
  "batch_runner_command E line directory cancel w = command_impl E line directory cancel w"

subsection \<open>A task\<close>

datatype RunState = RUN_NONE | RUN_SUCCEEDED | RUN_FAILED | RUN_SKIPPED | RUN_CANCELLED

datatype BatchEvent = BATCH_EVENT_STARTED | BATCH_EVENT_RESULT | BATCH_EVENT_SKIPPED | BATCH_EVENT_CANCELLED

datatype place =                       \<comment> \<open>where \<open>run_directory\<close> is\<close>
    Unstarted | Entered | Skipping | Starting | Executing | Ended

record BatchResult =
  br_success :: nat
  br_failed :: nat
  br_skipped :: nat
  br_cancelled :: nat

definition zero_batch :: BatchResult where
  "zero_batch = \<lparr>br_success = 0, br_failed = 0, br_skipped = 0, br_cancelled = 0\<rparr>"

record Runner =
  ru_steps :: nat                      \<comment> \<open>\<open>directory_count\<close>\<close>
  ru_parallel :: bool
  ru_cancel :: bool                    \<comment> \<open>the event is set\<close>
  ru_place :: "nat \<Rightarrow> place"
  ru_state :: "nat \<Rightarrow> RunState"
  ru_thread :: "nat \<Rightarrow> bool"
  ru_begun :: nat                      \<comment> \<open>\<open>i\<close> of the first loop\<close>
  ru_waited :: nat                     \<comment> \<open>\<open>i\<close> of the second loop\<close>
  ru_events :: "(BatchEvent \<times> nat \<times> nat \<times> nat) list"    \<comment> \<open>the calls of \<open>progress\<close>: event, index, exit code, error\<close>
  ru_result :: BatchResult

definition run_state_of :: "bool \<Rightarrow> nat \<Rightarrow> nat \<Rightarrow> RunState" where
  \<comment> \<open>the result of a command, with its exit code and error\<close>
  "run_state_of ok code failure =
     (if failure = ERROR_CANCELLED then RUN_CANCELLED else if ok \<and> code = 0 then RUN_SUCCEEDED else RUN_FAILED)"

definition run_error :: "bool \<Rightarrow> nat \<Rightarrow> nat" where
  "run_error ok failure = (if \<not> ok \<and> failure = 0 then ERROR_GEN_FAILURE else failure)"

definition run_event :: "nat \<Rightarrow> BatchEvent" where
  "run_event failure = (if failure = ERROR_CANCELLED then BATCH_EVENT_CANCELLED else BATCH_EVENT_RESULT)"

definition count_state :: "RunState \<Rightarrow> BatchResult \<Rightarrow> BatchResult" where
  "count_state s r = (case s of
     RUN_SKIPPED \<Rightarrow> r\<lparr>br_skipped := br_skipped r + 1\<rparr>
   | RUN_CANCELLED \<Rightarrow> r\<lparr>br_cancelled := br_cancelled r + 1\<rparr>
   | RUN_SUCCEEDED \<Rightarrow> r\<lparr>br_success := br_success r + 1\<rparr>
   | _ \<Rightarrow> r\<lparr>br_failed := br_failed r + 1\<rparr>)"

definition goes :: "nat \<Rightarrow> place \<Rightarrow> Runner \<Rightarrow> Runner" where
  "goes i p s = s\<lparr>ru_place := (ru_place s)(i := p)\<rparr>"

definition tells :: "BatchEvent \<Rightarrow> nat \<Rightarrow> nat \<Rightarrow> nat \<Rightarrow> Runner \<Rightarrow> Runner" where
  "tells e i code failure s = s\<lparr>ru_events := ru_events s @ [(e, i, code, failure)]\<rparr>"

definition sets :: "nat \<Rightarrow> RunState \<Rightarrow> Runner \<Rightarrow> Runner" where
  "sets i st s = s\<lparr>ru_state := (ru_state s)(i := st)\<rparr>"

inductive runs :: "Runner \<Rightarrow> Runner \<Rightarrow> bool" where
  call_next: "\<not> ru_parallel s \<Longrightarrow> ru_begun s < ru_steps s \<Longrightarrow> ru_place s (ru_begun s) = Unstarted
    \<Longrightarrow> runs s (goes (ru_begun s) Entered s)"
| return_next: "\<not> ru_parallel s \<Longrightarrow> ru_begun s < ru_steps s \<Longrightarrow> ru_place s (ru_begun s) = Ended
    \<Longrightarrow> runs s (s\<lparr>ru_begun := Suc (ru_begun s)\<rparr>)"
| create_thread: "ru_parallel s \<Longrightarrow> ru_begun s < ru_steps s
    \<Longrightarrow> runs s ((goes (ru_begun s) Entered s)\<lparr>ru_thread := (ru_thread s)(ru_begun s := True), ru_begun := Suc (ru_begun s)\<rparr>)"
| create_fails: "ru_parallel s \<Longrightarrow> ru_begun s < ru_steps s
    \<Longrightarrow> runs s ((tells BATCH_EVENT_RESULT (ru_begun s) NO_EXIT_CODE failure (sets (ru_begun s) RUN_FAILED (goes (ru_begun s) Ended s)))
          \<lparr>ru_begun := Suc (ru_begun s)\<rparr>)"
| sees_cancel: "ru_place s i = Entered \<Longrightarrow> ru_cancel s \<Longrightarrow> runs s (sets i RUN_SKIPPED (goes i Skipping s))"
| sees_none: "ru_place s i = Entered \<Longrightarrow> \<not> ru_cancel s \<Longrightarrow> runs s (goes i Starting s)"
| skips: "ru_place s i = Skipping \<Longrightarrow> runs s (tells BATCH_EVENT_SKIPPED i 0 0 (goes i Ended s))"
| starts: "ru_place s i = Starting \<Longrightarrow> runs s (tells BATCH_EVENT_STARTED i 0 0 (goes i Executing s))"
| executes: "ru_place s i = Executing
    \<Longrightarrow> runs s (tells (run_event (run_error ok failure)) i code (run_error ok failure)
          (sets i (run_state_of ok code (run_error ok failure)) (goes i Ended s)))"
| waits: "ru_begun s = ru_steps s \<Longrightarrow> ru_waited s < ru_steps s
    \<Longrightarrow> \<not> ru_thread s (ru_waited s) \<or> ru_place s (ru_waited s) = Ended
    \<Longrightarrow> runs s (s\<lparr>ru_result := count_state (ru_state s (ru_waited s)) (ru_result s), ru_waited := Suc (ru_waited s)\<rparr>)"

inductive moves :: "Runner \<Rightarrow> Runner \<Rightarrow> bool" where
  \<comment> \<open>the program, or whoever sets the event\<close>
  own: "runs s t \<Longrightarrow> moves s t"
| cancel: "moves s (s\<lparr>ru_cancel := True\<rparr>)"

definition start_runner :: "BatchTask option \<Rightarrow> bool \<Rightarrow> Runner" where
  \<comment> \<open>an invalid task has no steps to run\<close>
  "start_runner task cancelled = \<lparr>ru_steps = (case task of Some t \<Rightarrow> if batch_task_is_valid task then nat (directory_count t) else 0 | None \<Rightarrow> 0),
     ru_parallel = (case task of Some t \<Rightarrow> bt_mode t = BATCH_PARALLEL | None \<Rightarrow> False), ru_cancel = cancelled,
     ru_place = (\<lambda>_. Unstarted), ru_state = (\<lambda>_. RUN_NONE), ru_thread = (\<lambda>_. False), ru_begun = 0, ru_waited = 0,
     ru_events = [], ru_result = zero_batch\<rparr>"

inductive reaches :: "BatchTask option \<Rightarrow> Runner \<Rightarrow> bool" for task where
  at_start: "reaches task (start_runner task cancelled)"
| by_move: "reaches task s \<Longrightarrow> moves s t \<Longrightarrow> reaches task t"

definition returned :: "Runner \<Rightarrow> bool" where
  "returned s \<longleftrightarrow> ru_begun s = ru_steps s \<and> ru_waited s = ru_steps s"

subsection \<open>Places and states agree\<close>

definition pending :: "place \<Rightarrow> bool" where
  "pending p \<longleftrightarrow> p \<in> {Unstarted, Entered, Starting, Executing}"

definition state_agrees :: "bool \<Rightarrow> place \<Rightarrow> RunState \<Rightarrow> bool" where
  \<comment> \<open>no result before the end, a skip only after a cancellation\<close>
  "state_agrees cancelled p st \<longleftrightarrow>
     (st = RUN_NONE \<longleftrightarrow> pending p) \<and> (p = Skipping \<longrightarrow> st = RUN_SKIPPED) \<and> (st = RUN_SKIPPED \<longrightarrow> cancelled)"

definition place_agrees :: "Runner \<Rightarrow> nat \<Rightarrow> bool" where
  \<comment> \<open>one after the other, only the current directory is under way\<close>
  "place_agrees s i \<longleftrightarrow>
     (ru_begun s < i \<longrightarrow> ru_place s i = Unstarted)
     \<and> (i = ru_begun s \<longrightarrow> (ru_parallel s \<or> i = ru_steps s) \<longrightarrow> ru_place s i = Unstarted)
     \<and> (i < ru_begun s \<longrightarrow> \<not> ru_thread s i \<longrightarrow> ru_place s i = Ended)
     \<and> (i < ru_begun s \<longrightarrow> ru_place s i \<noteq> Unstarted)
     \<and> (ru_thread s i \<longrightarrow> ru_parallel s)"

definition tally :: "RunState \<Rightarrow> Runner \<Rightarrow> nat" where
  "tally st s = length (filter (\<lambda>i. ru_state s i = st) [0..<ru_waited s])"

definition tally_agrees :: "Runner \<Rightarrow> bool" where
  "tally_agrees s \<longleftrightarrow> ru_result s = \<lparr>br_success = tally RUN_SUCCEEDED s, br_failed = tally RUN_FAILED s,
     br_skipped = tally RUN_SKIPPED s, br_cancelled = tally RUN_CANCELLED s\<rparr>"

definition runner_wf :: "Runner \<Rightarrow> bool" where
  "runner_wf s \<longleftrightarrow> ru_begun s \<le> ru_steps s \<and> ru_waited s \<le> ru_steps s \<and> (0 < ru_waited s \<longrightarrow> ru_begun s = ru_steps s)
     \<and> (\<forall>i. state_agrees (ru_cancel s) (ru_place s i) (ru_state s i)) \<and> (\<forall>i. place_agrees s i)
     \<and> (\<forall>i<ru_waited s. ru_place s i = Ended) \<and> tally_agrees s"

named_theorems agrees

declare state_agrees_def [agrees] place_agrees_def [agrees] pending_def [agrees] goes_def [agrees] tells_def [agrees] sets_def [agrees]

lemma place_in_range:
  assumes "runner_wf s" and "ru_place s i \<noteq> Unstarted"
  shows "i < ru_steps s"
proof (rule ccontr)
  assume out: "\<not> i < ru_steps s"
  have "ru_begun s \<le> ru_steps s" "place_agrees s i" using assms(1) by (simp_all add: runner_wf_def)
  with out assms(2) show False by (cases "i = ru_begun s") (auto simp: place_agrees_def)
qed

lemma not_yet_waited:
  assumes "runner_wf s" and "ru_place s i \<noteq> Ended"
  shows "\<not> i < ru_waited s"
  using assms by (auto simp: runner_wf_def)

lemma start_wf: "runner_wf (start_runner task cancelled)"
  by (simp add: runner_wf_def start_runner_def agrees tally_agrees_def tally_def zero_batch_def)

lemma tally_moves:
  assumes "\<forall>i<ru_waited s. ru_state t i = ru_state s i" and "ru_waited t = ru_waited s" and "ru_result t = ru_result s"
    and "tally_agrees s"
  shows "tally_agrees t"
proof -
  have "tally st t = tally st s" for st
    using assms(1,2) by (auto simp: tally_def intro!: arg_cong [of _ _ length] filter_cong)
  with assms(3,4) show ?thesis by (simp add: tally_agrees_def)
qed

lemma tally_waits:
  assumes "tally_agrees s" and "ru_state s (ru_waited s) \<noteq> RUN_NONE"
  shows "tally_agrees (s\<lparr>ru_result := count_state (ru_state s (ru_waited s)) (ru_result s), ru_waited := Suc (ru_waited s)\<rparr>)"
  using assms by (cases "ru_state s (ru_waited s)") (auto simp: tally_agrees_def tally_def count_state_def)

lemma run_state_of_final: "run_state_of ok code failure \<notin> {RUN_NONE, RUN_SKIPPED}"
  by (simp add: run_state_of_def)

lemma runs_frame:
  assumes "runs s t"
  shows "ru_steps t = ru_steps s" "ru_parallel t = ru_parallel s" "ru_cancel t = ru_cancel s"
  using assms by (cases; simp add: agrees)+

lemma runs_state_agrees:
  assumes "runs s t" and "runner_wf s"
  shows "state_agrees (ru_cancel t) (ru_place t i) (ru_state t i)"
proof -
  have now: "\<forall>j. state_agrees (ru_cancel s) (ru_place s j) (ru_state s j)"
    using assms(2) by (simp add: runner_wf_def)
  show ?thesis
    using assms(1)
  proof cases
    case create_thread
    then have "ru_place s (ru_begun s) = Unstarted"
      using assms(2) by (simp add: runner_wf_def place_agrees_def)
    with now create_thread show ?thesis by (auto simp: agrees)
  next
    case (executes j ok failure code)
    with now show ?thesis using run_state_of_final [of ok code "run_error ok failure"] by (auto simp: agrees)
  qed (use now in \<open>auto simp: agrees\<close>)
qed

lemma runs_place_agrees:
  assumes "runs s t" and "runner_wf s"
  shows "place_agrees t i"
proof -
  have now: "\<forall>j. place_agrees s j" using assms(2) by (simp add: runner_wf_def)
  have range: "\<forall>j. ru_place s j \<noteq> Unstarted \<longrightarrow> j < ru_steps s" using place_in_range [OF assms(2)] by blast
  show ?thesis
    using assms(1)
  proof cases
    case call_next
    with now [rule_format, of i] show ?thesis by (auto simp: agrees less_Suc_eq)
  next
    case return_next
    with now [rule_format, of i] show ?thesis by (auto simp: agrees less_Suc_eq)
  next
    case create_thread
    with now [rule_format, of i] show ?thesis by (auto simp: agrees less_Suc_eq)
  next
    case (create_fails failure)
    with now [rule_format, of i] show ?thesis by (auto simp: agrees less_Suc_eq)
  next
    case waits
    with now [rule_format, of i] show ?thesis by (auto simp: agrees less_Suc_eq)
  next
    case (sees_cancel j)
    with now [rule_format, of i] range [rule_format, of j] show ?thesis by (auto simp: agrees less_Suc_eq)
  next
    case (sees_none j)
    with now [rule_format, of i] range [rule_format, of j] show ?thesis by (auto simp: agrees less_Suc_eq)
  next
    case (skips j)
    with now [rule_format, of i] range [rule_format, of j] show ?thesis by (auto simp: agrees less_Suc_eq)
  next
    case (starts j)
    with now [rule_format, of i] range [rule_format, of j] show ?thesis by (auto simp: agrees less_Suc_eq)
  next
    case (executes j ok failure code)
    with now [rule_format, of i] range [rule_format, of j] show ?thesis by (auto simp: agrees less_Suc_eq)
  qed
qed

lemma runs_keeps_waited:
  assumes "runs s t" and "runner_wf s" and "\<not> ru_waited s < ru_waited t"
  shows "ru_waited t = ru_waited s \<and> ru_result t = ru_result s
    \<and> (\<forall>i<ru_waited s. ru_place t i = ru_place s i \<and> ru_state t i = ru_state s i)"
proof -
  have ended: "\<forall>i<ru_waited s. ru_place s i = Ended" and late: "0 < ru_waited s \<longrightarrow> ru_begun s = ru_steps s"
    using assms(2) by (simp_all add: runner_wf_def)
  from assms(1) show ?thesis
  proof cases
    case waits
    with assms(3) show ?thesis by simp
  qed (use ended late in \<open>force simp: agrees\<close>)+
qed

lemma runs_wf:
  assumes "runs s t" and "runner_wf s"
  shows "runner_wf t"
proof (cases "ru_waited s < ru_waited t")
  case True
  from assms(1) True show ?thesis
  proof cases
    case waits
    have ended: "ru_place s (ru_waited s) = Ended"
      using waits assms(2) by (auto simp: runner_wf_def place_agrees_def)
    then have "ru_state s (ru_waited s) \<noteq> RUN_NONE"
      using assms(2) by (auto simp: runner_wf_def state_agrees_def pending_def)
    then have "tally_agrees t" using tally_waits assms(2) waits(1) by (auto simp: runner_wf_def)
    moreover have "\<forall>i<ru_waited t. ru_place t i = Ended"
      using waits ended assms(2) by (auto simp: runner_wf_def less_Suc_eq)
    ultimately show ?thesis
      using runs_state_agrees [OF assms] runs_place_agrees [OF assms] waits by (auto simp: runner_wf_def)
  qed (simp_all add: agrees)
next
  case False
  note kept = runs_keeps_waited [OF assms False]
  have "tally_agrees t" using kept tally_moves [of s t] assms(2) by (simp add: runner_wf_def)
  moreover have "\<forall>i<ru_waited t. ru_place t i = Ended" using kept assms(2) by (simp add: runner_wf_def)
  moreover have "ru_begun t \<le> ru_steps t \<and> (0 < ru_waited t \<longrightarrow> ru_begun t = ru_steps t)"
    using assms(1) assms(2) kept by cases (auto simp: agrees runner_wf_def)
  ultimately show ?thesis
    using runs_state_agrees [OF assms] runs_place_agrees [OF assms] kept assms(2) runs_frame [OF assms(1)]
    by (simp add: runner_wf_def)
qed

lemma cancel_wf: "runner_wf s \<Longrightarrow> runner_wf (s\<lparr>ru_cancel := True\<rparr>)"
  by (auto simp: runner_wf_def state_agrees_def place_agrees_def tally_agrees_def tally_def)

lemma moves_wf: "moves s t \<Longrightarrow> runner_wf s \<Longrightarrow> runner_wf t"
  by (auto elim!: moves.cases intro: runs_wf cancel_wf)

lemma reaches_wf: "reaches task s \<Longrightarrow> runner_wf s"
  by (induction rule: reaches.induct) (auto intro: start_wf moves_wf)

subsection \<open>The result\<close>

lemma tally_total:
  assumes "\<forall>i<n. st i \<noteq> RUN_NONE"
  shows "length (filter (\<lambda>i. st i = RUN_SUCCEEDED) [0..<n]) + length (filter (\<lambda>i. st i = RUN_FAILED) [0..<n])
    + length (filter (\<lambda>i. st i = RUN_SKIPPED) [0..<n]) + length (filter (\<lambda>i. st i = RUN_CANCELLED) [0..<n]) = n"
  using assms
proof (induction n)
  case 0
  then show ?case by simp
next
  case (Suc n)
  then show ?case by (cases "st n") auto
qed

text \<open>C18 (type): in every state that a run of a task can reach, whatever the order of its threads, the results agree
  with where the directories are: a directory has a result exactly when it has ended or is being skipped, it is
  skipped only after a cancellation, one after the other means that none but the current one is under way, and
  the four counts are those of the directories waited for.\<close>

theorem runner_states_agree:
  assumes "reaches task s"
  shows "(ru_state s i = RUN_NONE \<longleftrightarrow> pending (ru_place s i)) \<and> (ru_state s i = RUN_SKIPPED \<longrightarrow> ru_cancel s)
    \<and> (\<not> ru_parallel s \<longrightarrow> ru_place s i \<notin> {Unstarted, Ended} \<longrightarrow> i = ru_begun s)
    \<and> tally_agrees s"
proof -
  have wf: "runner_wf s" using assms by (rule reaches_wf)
  then have p: "place_agrees s i" and st: "state_agrees (ru_cancel s) (ru_place s i) (ru_state s i)" and "tally_agrees s"
    by (auto simp: runner_wf_def)
  moreover have "i = ru_begun s" if "\<not> ru_parallel s" "ru_place s i \<notin> {Unstarted, Ended}"
    using that p by (cases "ru_begun s" i rule: linorder_cases) (auto simp: place_agrees_def)
  ultimately show ?thesis by (auto simp: state_agrees_def)
qed

subsection \<open>Every run ends\<close>

fun weight :: "place \<Rightarrow> nat" where
  "weight Unstarted = 4" | "weight Entered = 3" | "weight Skipping = 2" | "weight Starting = 2" | "weight Executing = 1" | "weight Ended = 0"

definition rank :: "Runner \<Rightarrow> nat" where
  \<comment> \<open>an upper bound of the program's steps that are left\<close>
  "rank s = sum (\<lambda>i. weight (ru_place s i)) {..<ru_steps s} + (ru_steps s - ru_begun s) + (ru_steps s - ru_waited s)"

lemma weight_update:
  fixes n :: nat
  assumes "i < n" and "weight p < weight (f i)"
  shows "sum (\<lambda>j. weight ((f(i := p)) j)) {..<n} < sum (\<lambda>j. weight (f j)) {..<n}"
  using assms by (intro sum_strict_mono_ex1) auto

lemma runs_rank:
  assumes "runs s t" and "runner_wf s"
  shows "rank t < rank s"
proof -
  have range: "\<And>j. ru_place s j \<noteq> Unstarted \<Longrightarrow> j < ru_steps s" by (rule place_in_range [OF assms(2)])
  have upd: "\<And>i p. i < ru_steps s \<Longrightarrow> weight p < weight (ru_place s i)
      \<Longrightarrow> sum (\<lambda>j. weight (((ru_place s)(i := p)) j)) {..<ru_steps s} < sum (\<lambda>j. weight (ru_place s j)) {..<ru_steps s}"
    by (rule weight_update)
  from assms(1) show ?thesis
  proof cases
    case call_next
    with upd [of "ru_begun s" Entered] show ?thesis by (simp add: rank_def agrees)
  next
    case return_next
    then show ?thesis by (simp add: rank_def)
  next
    case create_thread
    then have "ru_place s (ru_begun s) = Unstarted" using assms(2) by (simp add: runner_wf_def place_agrees_def)
    with create_thread upd [of "ru_begun s" Entered] show ?thesis by (simp add: rank_def agrees)
  next
    case (create_fails failure)
    then have "ru_place s (ru_begun s) = Unstarted" using assms(2) by (simp add: runner_wf_def place_agrees_def)
    with create_fails upd [of "ru_begun s" Ended] show ?thesis by (simp add: rank_def agrees)
  next
    case (sees_cancel i)
    with upd [of i Skipping] range [of i] show ?thesis by (simp add: rank_def agrees)
  next
    case (sees_none i)
    with upd [of i Starting] range [of i] show ?thesis by (simp add: rank_def agrees)
  next
    case (skips i)
    with upd [of i Ended] range [of i] show ?thesis by (simp add: rank_def agrees)
  next
    case (starts i)
    with upd [of i Executing] range [of i] show ?thesis by (simp add: rank_def agrees)
  next
    case (executes i ok failure code)
    with upd [of i Ended] range [of i] show ?thesis by (simp add: rank_def agrees)
  next
    case waits
    then show ?thesis by (simp add: rank_def)
  qed
qed

lemma place_progress:
  assumes "ru_place s i \<notin> {Unstarted, Ended}"
  shows "\<exists>t. runs s t"
  using assms by (cases "ru_place s i"; cases "ru_cancel s") (auto intro: runs.intros)

lemma runs_progress:
  assumes wf: "runner_wf s" and running: "\<not> returned s"
  shows "\<exists>t. runs s t"
proof (cases "ru_begun s < ru_steps s")
  case True
  show ?thesis
  proof (cases "ru_parallel s")
    case True
    with \<open>ru_begun s < ru_steps s\<close> show ?thesis by (blast intro: create_thread)
  next
    case False
    with True show ?thesis using place_progress [of s "ru_begun s"]
      by (cases "ru_place s (ru_begun s)") (auto intro: call_next return_next)
  qed
next
  case False
  with wf running have begun: "ru_begun s = ru_steps s" and left: "ru_waited s < ru_steps s"
    by (auto simp: runner_wf_def returned_def)
  show ?thesis
  proof (cases "\<not> ru_thread s (ru_waited s) \<or> ru_place s (ru_waited s) = Ended")
    case True
    with begun left show ?thesis by (blast intro: waits)
  next
    case False
    moreover have "ru_place s (ru_waited s) \<noteq> Unstarted"
      using wf begun left by (auto simp: runner_wf_def place_agrees_def)
    ultimately show ?thesis using place_progress [of s "ru_waited s"] by simp
  qed
qed

lemma moves_rank: "moves s t \<Longrightarrow> runner_wf s \<Longrightarrow> rank t \<le> rank s"
  by (auto elim!: moves.cases dest: runs_rank simp: rank_def)

lemma path_wf: "runner_wf (f 0) \<Longrightarrow> (\<And>n. moves (f n) (f (Suc n))) \<Longrightarrow> runner_wf (f n)"
  by (induction n) (auto intro: moves_wf)

lemma returned_result:
  assumes "runner_wf s" and "returned s"
  shows "(\<forall>i<ru_steps s. ru_place s i = Ended) \<and> br_success (ru_result s) + br_failed (ru_result s)
    + br_skipped (ru_result s) + br_cancelled (ru_result s) = ru_steps s"
proof -
  have waited: "ru_waited s = ru_steps s" and ended: "\<forall>i<ru_steps s. ru_place s i = Ended"
    using assms by (auto simp: runner_wf_def returned_def)
  then have "\<forall>i<ru_steps s. ru_state s i \<noteq> RUN_NONE"
    using assms(1) by (auto simp: runner_wf_def state_agrees_def pending_def)
  from tally_total [OF this] show ?thesis
    using assms(1) waited ended by (simp add: runner_wf_def tally_agrees_def tally_def)
qed

lemma returned_final:
  assumes "runner_wf s" and "returned s"
  shows "\<not> runs s t"
proof
  assume "runs s t"
  from runs_rank [OF this assms(1)] returned_result [OF assms] assms(2) show False
    by (simp add: rank_def returned_def)
qed


definition one_step :: BatchTask where
  "one_step = zero_task\<lparr>directory_count := 1, directories := (directories zero_task)[0 := W ''C:/a'']\<rparr>"

definition one_ops :: "(Runner \<Rightarrow> Runner) list" where
  "one_ops = [goes 0 Entered, goes 0 Starting, \<lambda>s. tells BATCH_EVENT_STARTED 0 0 0 (goes 0 Executing s),
     \<lambda>s. tells (run_event (run_error True 0)) 0 0 (run_error True 0) (sets 0 (run_state_of True 0 (run_error True 0)) (goes 0 Ended s)),
     \<lambda>s. s\<lparr>ru_begun := Suc (ru_begun s)\<rparr>,
     \<lambda>s. s\<lparr>ru_result := count_state (ru_state s (ru_waited s)) (ru_result s), ru_waited := Suc (ru_waited s)\<rparr>]"

definition one_path :: "nat \<Rightarrow> Runner" where
  \<comment> \<open>a sequential task of one directory, run to its end; the event is set after it\<close>
  "one_path n = (let s = foldl (\<lambda>s f. f s) (start_runner (Some one_step) False) (take n one_ops)
     in if 6 < n then s\<lparr>ru_cancel := True\<rparr> else s)"

lemma one_step_valid: "batch_task_is_valid (Some one_step)"
  by (simp add: batch_task_is_valid_def one_step_def zero_task_def batch_limits terminated_def W_def)

lemma one_start: "start_runner (Some one_step) False = \<lparr>ru_steps = 1, ru_parallel = False, ru_cancel = False,
     ru_place = (\<lambda>_. Unstarted), ru_state = (\<lambda>_. RUN_NONE), ru_thread = (\<lambda>_. False), ru_begun = 0, ru_waited = 0,
     ru_events = [], ru_result = zero_batch\<rparr>"
  using one_step_valid by (simp add: start_runner_def) (simp add: one_step_def zero_task_def batch_limits)

lemmas one_simps = one_path_def one_ops_def one_start Let_def take_Cons'

lemma one_runs: "n < 6 \<Longrightarrow> runs (one_path n) (one_path (Suc n))"
proof -
  assume "n < 6"
  then consider "n = 0" | "n = 1" | "n = 2" | "n = 3" | "n = 4" | "n = 5" by linarith
  then show ?thesis
  proof cases
    case 1
    show ?thesis using call_next [of "one_path 0"] by (simp add: 1 one_simps)
  next
    case 2
    show ?thesis using sees_none [of "one_path 1" 0] by (simp add: 2 one_simps agrees)
  next
    case 3
    show ?thesis using starts [of "one_path 2" 0] by (simp add: 3 one_simps agrees)
  next
    case 4
    show ?thesis using executes [of "one_path 3" 0 True 0 0] by (simp add: 4 one_simps agrees)
  next
    case 5
    show ?thesis using return_next [of "one_path 4"] by (simp add: 5 one_simps agrees)
  next
    case 6
    show ?thesis using waits [of "one_path 5"] by (simp add: 6 one_simps agrees)
  qed
qed

lemma one_reaches: "n \<le> 6 \<Longrightarrow> reaches (Some one_step) (one_path n)"
proof (induction n)
  case 0
  show ?case using at_start [of "Some one_step" False] by (simp add: one_path_def)
next
  case (Suc n)
  then show ?case using one_runs [of n] by (auto intro: by_move own)
qed

lemma one_end: "6 \<le> n \<Longrightarrow> one_path n = (if n = 6 then one_path 6 else (one_path 6)\<lparr>ru_cancel := True\<rparr>)"
  by (simp add: one_path_def one_ops_def Let_def)

lemma one_returned: "returned (one_path 6)"
  by (simp add: one_simps agrees returned_def)

lemma one_after:
  assumes "6 \<le> n"
  shows "moves (one_path n) (one_path (Suc n)) \<and> \<not> runs (one_path n) t"
proof
  have "one_path (Suc n) = (one_path n)\<lparr>ru_cancel := True\<rparr>"
    using assms one_end [of n] one_end [of "Suc n"] by (simp split: if_splits)
  then show "moves (one_path n) (one_path (Suc n))" by (metis cancel)
  have "runner_wf (one_path 6)" using reaches_wf one_reaches by blast
  then have "runner_wf (one_path n)" using one_end [OF assms] by (metis cancel_wf)
  moreover have "returned (one_path n)" using one_end [OF assms] one_returned by (simp add: returned_def)
  ultimately show "\<not> runs (one_path n) t" by (rule returned_final)
qed


theorem runner_states_agree_witness:
  "(ru_state (one_path 3) 0 = RUN_NONE \<longleftrightarrow> pending (ru_place (one_path 3) 0)) \<and> tally_agrees (one_path 3)"
  using runner_states_agree [OF one_reaches, of 3 0] by simp

end
