(* ===== verification/Sync_Server.thy ===== *)
theory Sync_Server
  imports Sync_Client
begin

text \<open>
  \<open>src/src/platform/sync_server.c\<close>: deploying the server program over SSH, attaching to a server, and moving
  one server's queue to another with a journal that lets an interrupted move go on. An \<open>Admin\<close> is one of
  the two connections with what it calls; both share the request, the result and the world, and each has
  its own phase and progress clock. The messages are the English text given to \<open>nova_text\<close>.
\<close>

subsection \<open>One connection\<close>

record 'w Admin =
  ad_env :: "'w sync_env"
  ad_project :: wstr
  ad_root :: wstr
  ad_target :: bool
  ad_provision :: bool
  ad_resource :: "nat \<Rightarrow> byte list option"
  ad_encode :: "byte list \<Rightarrow> byte list"                          \<comment> \<open>\<open>EVP_EncodeBlock\<close>\<close>
  ad_bootstrap :: "byte list \<Rightarrow> bool \<Rightarrow> 'w \<Rightarrow> bool \<times> 'w"          \<comment> \<open>\<open>ssh_client_bootstrap_open\<close>\<close>
  ad_merge :: "json \<Rightarrow> json \<Rightarrow> json"                              \<comment> \<open>\<open>json_patch\<close>\<close>
  ad_text :: "wstr \<Rightarrow> wstr"                                       \<comment> \<open>\<open>nova_text\<close>, from the English text\<close>

definition SOURCE_NAMES :: "byte list list" where
  "SOURCE_NAMES = [C ''sync_server.py'', C ''chunksync/__init__.py'', C ''chunksync/common.py'', C ''chunksync/wire.py'',
     C ''chunksync/broker.py'', C ''chunksync/control.py'']"

definition target_error :: "'w Admin \<Rightarrow> ('w, unit) sync_cmd" where
  "target_error A = put_result (\<lambda>r. r\<lparr>sr_target_error := ad_target A\<rparr>)"

definition admin_error :: "'w Admin \<Rightarrow> SyncFailure \<Rightarrow> string \<Rightarrow> ('w, bool) sync_cmd" where
  "admin_error A code en = do {
     target_error A;
     put_result (\<lambda>r. r\<lparr>sr_detail := take 1023 (ad_text A (W en))\<rparr>);
     sy_fail code }"

definition patch ::
    "'w Admin \<Rightarrow> byte list option \<Rightarrow> string \<Rightarrow> byte list option \<Rightarrow> bool \<Rightarrow> ('w, byte list option) sync_cmd" where
  "patch A original key value object = (case (original, value) of
     (Some j, Some v) \<Rightarrow> sync_json_patch (ad_env A) j key v object | _ \<Rightarrow> ret None)"

definition merge :: "'w Admin \<Rightarrow> byte list \<Rightarrow> byte list option \<Rightarrow> ('w, byte list option) sync_cmd" where
  "merge A first second = do {
     prepared \<leftarrow> call (g_sql (ad_env A));
     stepped \<leftarrow> (if prepared then call (g_sql (ad_env A)) else ret False);
     ret (case (stepped, g_parse (ad_env A) first, g_parse (ad_env A) (case second of None \<Rightarrow> C ''{}'' | Some s \<Rightarrow> s)) of
            (True, Some x, Some y) \<Rightarrow> Some (g_print (ad_env A) (ad_merge A x y)) | _ \<Rightarrow> None) }"

definition admin_rpc :: "'w Admin \<Rightarrow> byte list \<Rightarrow> byte list option \<Rightarrow> byte list \<Rightarrow> ('w, SyncReply option) sync_cmd" where
  \<comment> \<open>\<open>rpc\<close>: the action with the project, the root and the fields\<close>
  "admin_rpc A action body data = do {
     let request_of = (case (sync_utf8 (ad_env A) (ad_project A), sync_utf8 (ad_env A) (ad_root A)) of
         (Some project, Some root) \<Rightarrow> sy_fields action (Some (C ''project'', project)) (Some (C ''root'', root)) | _ \<Rightarrow> None);
     with_fields \<leftarrow> (case request_of of None \<Rightarrow> ret None | Some q \<Rightarrow> merge A q body);
     with_action \<leftarrow> patch A with_fields ''action'' (Some action) False;
     reply \<leftarrow> request (ad_env A) with_action data;
     (if reply = None then target_error A else ret ());
     ret reply }"

definition rpc_with :: "'w Admin \<Rightarrow> byte list \<Rightarrow> byte list option \<Rightarrow> byte list \<Rightarrow> ('w, SyncReply option) sync_cmd" where
  \<comment> \<open>\<open>body&&rpc(a,...)\<close>\<close>
  "rpc_with A action body data = (if body = None then ret None else admin_rpc A action body data)"

definition opened :: "'w Admin \<Rightarrow> ('w, bool) sync_cmd" where
  \<comment> \<open>connected, and the server program runs\<close>
  "opened A = do {
     sy_progress (ad_env A) SYNC_CONNECT (Some (ad_project A)) 0 0;
     connected \<leftarrow> call (g_connect (ad_env A));
     if \<not> connected then do { target_error A; sy_fail SYNC_NETWORK }
     else (case ad_resource A 305 of
       None \<Rightarrow> admin_error A SYNC_STORAGE ''Embedded server source is missing; use a complete current EXE.''
     | Some source \<Rightarrow>
         if length source > 1024 * 1024
         then admin_error A SYNC_STORAGE ''Embedded server source is missing; use a complete current EXE.''
         else do {
           ok \<leftarrow> (if ad_encode A source = [] then ret False else call (ad_bootstrap A (ad_encode A source) (ad_provision A)));
           if ok then ret True else do { target_error A; sy_fail SYNC_NETWORK } }) }"

definition wide_field :: "'w sync_env \<Rightarrow> byte list \<Rightarrow> string list \<Rightarrow> nat \<Rightarrow> ('w, wstr option) sync_cmd" where
  \<comment> \<open>\<open>text_field\<close>\<close>
  "wide_field E json path cap = do { v \<leftarrow> sync_json_string E json path; ret (Option.bind v (\<lambda>t. sync_wide E t cap)) }"

definition admin_probe :: "'w Admin \<Rightarrow> ('w, byte list option) sync_cmd" where
  "admin_probe A = do { reply \<leftarrow> admin_rpc A (C ''probe'') None []; ret (map_option rp_json reply) }"

subsection \<open>Deploying\<close>

definition source_item :: "nat \<Rightarrow> byte list \<Rightarrow> nat \<Rightarrow> byte list \<Rightarrow> byte list list" where
  "source_item i name n hash = [(if i = 0 then [] else C '','') @ C ''{\"name\":''] @ string_parts name
     @ [C '',\"size\":'' @ digits_of n @ C '',\"sha256\":\"'' @ hash @ C ''\"}'']"

fun source_list :: "'w Admin \<Rightarrow> nat list \<Rightarrow> SyncBuffer \<Rightarrow> ('w, SyncBuffer option) sync_cmd" where
  "source_list A [] b = ret (Some b)"
| "source_list A (i # is) b = (case ad_resource A (300 + i) of
     None \<Rightarrow> ret None
   | Some bytes \<Rightarrow> do {
       h \<leftarrow> sync_sha (ad_env A) bytes;
       case Option.bind h (\<lambda>hash. add_all b (source_item i (SOURCE_NAMES ! i) (length bytes) hash)) of
         None \<Rightarrow> ret None | Some b \<Rightarrow> source_list A is b })"

definition install_step ::
    "'w Admin \<Rightarrow> byte list \<Rightarrow> byte list \<Rightarrow> nat \<Rightarrow> int \<Rightarrow> ('w, int option) sync_cmd" where
  \<comment> \<open>one packet; the server must have taken all of it\<close>
  "install_step A body bytes i offset = do {
     sy_progress (ad_env A) SYNC_DEPLOY (Some (ad_project A)) (u64 (int i * int (length bytes) + offset)) (u64 (6 * int (length bytes)));
     packet \<leftarrow> sync_json_patch (ad_env A) body ''offset'' (digits_of (nat offset)) True;
     let k = min (int SYNC_PACKET_MAX) (int (length bytes) - offset);
     reply \<leftarrow> rpc_with A (C ''install_put'') packet (take (nat k) (drop (nat offset) bytes));
     case reply of None \<Rightarrow> ret None | Some r \<Rightarrow> do {
     next_offset \<leftarrow> sync_json_int (ad_env A) (rp_json r) [''offset''] (-1);
     if u64 next_offset \<noteq> offset + k \<or> u64 next_offset > int (length bytes) then failed SYNC_PROTOCOL
     else ret (Some (u64 next_offset)) } }"

function install_loop :: "'w Admin \<Rightarrow> byte list \<Rightarrow> byte list \<Rightarrow> nat \<Rightarrow> int \<Rightarrow> ('w, bool) sync_cmd" where
  \<comment> \<open>an offset that does not grow would end it\<close>
  "install_loop A body bytes i offset =
     (if offset \<ge> int (length bytes) then ret True
      else do {
        cancelled \<leftarrow> sy_cancel (ad_env A);
        if cancelled then ret True
        else do {
          n \<leftarrow> install_step A body bytes i offset;
          case n of None \<Rightarrow> ret False
          | Some offset' \<Rightarrow> if offset' \<le> offset then ret False else install_loop A body bytes i offset' } })"
  by pat_completeness auto
termination
  by (relation "measure (\<lambda>(A, body, bytes, i, offset). nat (int (length bytes) - offset))") auto

definition install_file :: "'w Admin \<Rightarrow> byte list \<Rightarrow> nat \<Rightarrow> ('w, bool) sync_cmd" where
  "install_file A token i = do {
     let body = sy_fields (C ''unused'') (Some (C ''token'', token)) (Some (C ''name'', SOURCE_NAMES ! i));
     reply \<leftarrow> rpc_with A (C ''install_put'') body [];
     case (reply, body, ad_resource A (300 + i)) of
       (Some r, Some f, Some bytes) \<Rightarrow> do {
         offset \<leftarrow> sync_json_int (ad_env A) (rp_json r) [''offset''] (-1);
         (if u64 offset > int (length bytes) then sy_fail SYNC_PROTOCOL else install_loop A f bytes i (u64 offset)) }
     | _ \<Rightarrow> ret False }"

fun install_files :: "'w Admin \<Rightarrow> byte list \<Rightarrow> nat list \<Rightarrow> ('w, bool) sync_cmd" where
  "install_files A token [] = ret True"
| "install_files A token (i # is) = do {
     cancelled \<leftarrow> sy_cancel (ad_env A);
     if cancelled then ret True
     else do { ok \<leftarrow> install_file A token i; if ok then install_files A token is else ret False } }"

definition signed_digits :: "int \<Rightarrow> byte list" where
  \<comment> \<open>\<open>%d\<close>, \<open>%lld\<close>\<close>
  "signed_digits n = (if n < 0 then 45 # digits_of (nat (- n)) else digits_of (nat n))"

definition deploy_commit :: "'w Admin \<Rightarrow> bool \<Rightarrow> byte list \<Rightarrow> ('w, bool) sync_cmd" where
  "deploy_commit A ok token = do {
     rq \<leftarrow> gets rn_request;
     body \<leftarrow> patch A (sy_fields (C ''unused'') (Some (C ''token'', token)) None) ''quota_gib''
       (Some (signed_digits (if rq_quota_gib rq \<noteq> 0 then rq_quota_gib rq else 15))) True;
     body \<leftarrow> patch A body ''reserve_gib'' (Some (signed_digits (rq_reserve_gib rq))) True;
     reply \<leftarrow> (if ok then rpc_with A (C ''install_commit'') body [] else ret None);
     ret (reply \<noteq> None) }"

definition deploy_begin :: "'w Admin \<Rightarrow> ('w, bool \<times> byte list) sync_cmd" where
  \<comment> \<open>the list of files and its hash, the token of the installation\<close>
  "deploy_begin A = do {
     list \<leftarrow> (case sync_buffer_add empty_buffer (C ''['') of None \<Rightarrow> ret None | Some b \<Rightarrow> source_list A [0..<6] b);
     case Option.bind list (\<lambda>b. sync_buffer_add b (C '']'')) of
       None \<Rightarrow> ret (False, [])
     | Some b \<Rightarrow> do {
         h \<leftarrow> sync_sha (ad_env A) (sb_data b);
         case h of None \<Rightarrow> ret (False, []) | Some token \<Rightarrow> do {
         body \<leftarrow> patch A (sy_fields (C ''unused'') (Some (C ''token'', token)) None) ''files'' (Some (sb_data b)) True;
         reply \<leftarrow> rpc_with A (C ''install_begin'') body [];
         ret (reply \<noteq> None, token) } } }"

definition deploy :: "'w Admin \<Rightarrow> ('w, bool) sync_cmd" where
  "deploy A = do {
     b \<leftarrow> deploy_begin A;
     ok \<leftarrow> (if fst b then install_files A (snd b) [0..<6] else ret False);
     cancelled \<leftarrow> sy_cancel (ad_env A);
     deploy_commit A (ok \<and> \<not> cancelled) (snd b) }"

subsection \<open>Whose server it is\<close>

definition count_elements :: "'w Admin \<Rightarrow> byte list \<Rightarrow> string list \<Rightarrow> (json \<Rightarrow> bool) \<Rightarrow> bool \<Rightarrow> ('w, nat option) sync_cmd" where
  \<comment> \<open>\<open>SELECT count(*) FROM json_each(...) WHERE ...\<close>; the flag: the condition reads inside the elements\<close>
  "count_elements A status path P inside = do {
     prepared \<leftarrow> call (g_sql (ad_env A));
     stepped \<leftarrow> (if prepared then call (g_sql (ad_env A)) else ret False);
     let vs = elements (Option.bind (g_parse (ad_env A) status) (json_path path));
     ret (if \<not> stepped \<or> (inside \<and> length (each_value (ad_env A) vs) \<noteq> length vs) then None
          else Some (length (filter P (if inside then each_value (ad_env A) vs else vs)))) }"

definition own_device :: "'w Admin \<Rightarrow> byte list \<Rightarrow> SyncSettings \<Rightarrow> ('w, bool) sync_cmd" where
  \<comment> \<open>the server knows this role under this node, once\<close>
  "own_device A status st = (case sync_utf8 (ad_env A) (st_node_id st) of
     None \<Rightarrow> ret False
   | Some node \<Rightarrow> do {
       n \<leftarrow> count_elements A status [''devices''] (\<lambda>v. sql_of (member_of ''role'' v) = SText (device_letter (st_role st))
         \<and> sql_of (member_of ''node_id'' v) = SText node) True;
       ret (n = Some 1) })"

definition own_lineage :: "'w Admin \<Rightarrow> byte list \<Rightarrow> SyncSettings \<Rightarrow> ('w, bool) sync_cmd" where
  \<comment> \<open>it is the server of before, or has it among its ancestors\<close>
  "own_lineage A status st = (case sync_utf8 (ad_env A) (st_server_instance st) of
     None \<Rightarrow> do { sync_json_string (ad_env A) status [''control'', ''instance'']; ret False }
   | Some expected \<Rightarrow> do {
       actual \<leftarrow> sync_json_string (ad_env A) status [''control'', ''instance''];
       if actual = Some expected then ret True
       else do {
         n \<leftarrow> count_elements A status [''control'', ''ancestors''] (\<lambda>v. sql_of (Some v) = SText expected) False;
         ret (n = Some 1) } })"

definition identity :: "'w Admin \<Rightarrow> byte list \<Rightarrow> bool \<Rightarrow> ('w, bool) sync_cmd" where
  "identity A status attaching = do {
     st \<leftarrow> gets (rq_settings \<circ> rn_request);
     phase \<leftarrow> sync_json_string (ad_env A) status [''control'', ''phase''];
     if phase \<noteq> Some (C ''ACTIVE'')
     then (if attaching then admin_error A SYNC_FROZEN ''Destination is not active; resume its pending migration.'' else ret False)
     else if \<not> st_registered st then ret True
     else do {
       ok \<leftarrow> own_device A status st;
       ok \<leftarrow> (if ok \<and> st_server_instance st \<noteq> [] then own_lineage A status st else ret ok);
       (if \<not> ok \<and> attaching
        then admin_error A SYNC_CONFLICT
          ''Destination lacks this device's identity or lineage. Use Migrate and switch; current settings are preserved.''
        else ret ok) } }"

subsection \<open>The journal of a move\<close>

definition JOURNAL_LIMIT :: nat where "JOURNAL_LIMIT = 32768"

definition journal_path :: "SyncRequest \<Rightarrow> wstr option" where
  "journal_path rq = sy_join (rq_state_directory rq) (W ''server-migration.json'')"

definition read_journal :: "'w sync_env \<Rightarrow> ('w, byte list option) sync_cmd" where
  "read_journal E = do {
     rq \<leftarrow> gets rn_request;
     case journal_path rq of None \<Rightarrow> ret None | Some path \<Rightarrow> do {
     v \<leftarrow> call (f_read E path);
     ret (case v of
            ReadOpened (Some n) (Some d) \<Rightarrow> if 0 < n \<and> n < JOURNAL_LIMIT then Some (takeWhile (\<lambda>b. b \<noteq> 0) d) else None
          | _ \<Rightarrow> None) } }"

definition save_journal :: "'w Admin \<Rightarrow> byte list \<Rightarrow> ('w, bool) sync_cmd" where
  "save_journal A json = do {
     rq \<leftarrow> gets rn_request;
     made \<leftarrow> sy_mkdirs (ad_env A) (rq_state_directory rq);
     case (made, journal_path rq, sy_join (rq_state_directory rq) (W ''.server-migration.tmp'')) of
       (True, Some path, Some temporary) \<Rightarrow> do {
         a \<leftarrow> call (g_attributes (ad_env A) temporary);
         if is_link a then sy_fail SYNC_PATH
         else do {
           created \<leftarrow> call (g_create_always (ad_env A) temporary);
           written \<leftarrow> (if created then call (f_write (ad_env A) temporary json) else ret None);
           flushed \<leftarrow> (if written = Some (length json) then call (f_flush (ad_env A) temporary) else ret False);
           or_fail SYNC_STORAGE (if flushed then call (f_move (ad_env A) temporary path True) else ret False) } }
     | _ \<Rightarrow> sy_fail SYNC_PATH }"

definition sync_server_commit_local :: "'w sync_env \<Rightarrow> wstr \<Rightarrow> ('w, bool) sync_cmd" where
  "sync_server_commit_local E directory =
     (case (sy_join directory (W ''server-migration.json''), sy_join directory (W ''server-migration.completed.json'')) of
       (Some source, Some target) \<Rightarrow> do {
         a \<leftarrow> call (f_attributes E source);
         case a of
           AttributesPresent \<Rightarrow> call (f_move E source target True)
         | AttributesNotFound \<Rightarrow> ret True
         | _ \<Rightarrow> ret False }
     | _ \<Rightarrow> ret False)"

definition put_request :: "(SyncRequest \<Rightarrow> SyncRequest) \<Rightarrow> ('w, unit) sync_cmd" where
  "put_request f = modify (\<lambda>s. s\<lparr>rn_request := f (rn_request s)\<rparr>)"

definition put_target_id :: "int \<Rightarrow> SyncRequest \<Rightarrow> SyncRequest" where
  "put_target_id i rq = rq\<lparr>rq_target_login := (rq_target_login rq)\<lparr>lg_server := (lg_server (rq_target_login rq))\<lparr>ss_id := i\<rparr>\<rparr>\<rparr>"

definition pending_target :: "'w sync_env \<Rightarrow> byte list \<Rightarrow> ('w, bool) sync_cmd" where
  \<comment> \<open>the target of the journal goes to the request\<close>
  "pending_target E json = do {
     i \<leftarrow> sync_json_int E json [''target_id''] 0;
     put_request (put_target_id i);
     project \<leftarrow> (if i > 0 then wide_field E json [''project''] SYNC_PATH_CAP else ret None);
     case project of None \<Rightarrow> ret False | Some p \<Rightarrow> do {
     put_request (\<lambda>rq. rq\<lparr>rq_target_project := p\<rparr>);
     root \<leftarrow> wide_field E json [''root''] SYNC_PATH_CAP;
     case root of None \<Rightarrow> ret False | Some q \<Rightarrow> do {
     put_request (\<lambda>rq. rq\<lparr>rq_target_broker := q\<rparr>);
     ret True } } }"

definition already_switched :: "'w sync_env \<Rightarrow> byte list \<Rightarrow> ('w, bool) sync_cmd" where
  \<comment> \<open>the settings are those of the target: the move was finished\<close>
  "already_switched E json = do {
     rq \<leftarrow> gets rn_request;
     let st = rq_settings rq;
     if st_server_id st = ss_id (lg_server (rq_target_login rq)) \<and> st_project st = rq_target_project rq
        \<and> st_broker st = rq_target_broker rq
     then do { instance_of \<leftarrow> wide_field E json [''instance''] SYNC_ID_CAP; ret (instance_of = Some (st_server_instance st)) }
     else ret False }"

definition sync_server_pending :: "'w sync_env \<Rightarrow> ('w, bool) sync_cmd" where
  "sync_server_pending E = do {
     journal \<leftarrow> read_journal E;
     case journal of None \<Rightarrow> ret False | Some json \<Rightarrow> do {
     opened \<leftarrow> call (g_sql E);
     valid \<leftarrow> (if opened then sync_json_valid E json else ret False);
     version \<leftarrow> (if valid then sync_json_int E json [''version''] 0 else ret 0);
     ok \<leftarrow> (if version = 1 then pending_target E json else ret False);
     switched \<leftarrow> (if ok then already_switched E json else ret False);
     if switched then do {
       directory \<leftarrow> gets (rq_state_directory \<circ> rn_request);
       sync_server_commit_local E directory;
       ret False }
     else ret ok } }"

subsection \<open>Two connections\<close>

type_synonym ('w, 'a) server_cmd = "('w Run \<times> SyncPhase \<times> int, 'a) state"   \<comment> \<open>and the target's phase and clock\<close>

definition src :: "('w, 'a) sync_cmd \<Rightarrow> ('w, 'a) server_cmd" where
  \<comment> \<open>on the first connection\<close>
  "src c = State (\<lambda>(s, other). case run_state c s of (x, s) \<Rightarrow> (x, s, other))"

definition tgt :: "('w, 'a) sync_cmd \<Rightarrow> ('w, 'a) server_cmd" where
  \<comment> \<open>on the target's\<close>
  "tgt c = State (\<lambda>(s, phase, tick).
     case run_state c (s\<lparr>rn_phase := phase, rn_progress_tick := tick\<rparr>) of (x, t) \<Rightarrow>
       (x, t\<lparr>rn_phase := rn_phase s, rn_progress_tick := rn_progress_tick s\<rparr>, rn_phase t, rn_progress_tick t))"

definition copy_step ::
    "'w Admin \<Rightarrow> 'w Admin \<Rightarrow> byte list \<Rightarrow> byte list \<Rightarrow> int \<Rightarrow> int \<Rightarrow> int \<Rightarrow> int \<Rightarrow> ('w, nat option) server_cmd" where
  \<comment> \<open>one packet from the source to the target: how many bytes both count\<close>
  "copy_step A B get put whole so_far all offset = do {
     src (sy_progress (ad_env A) SYNC_COPY_SERVER (Some (ad_project A)) (u64 (so_far + offset)) all);
     ask \<leftarrow> src (sync_json_patch (ad_env A) get ''offset'' (digits_of (nat offset)) True);
     reply \<leftarrow> src (rpc_with A (C ''export_get'') ask []);
     start \<leftarrow> (case reply of None \<Rightarrow> ret (-1) | Some r \<Rightarrow> src (sync_json_int (ad_env A) (rp_json r) [''offset''] (-1)));
     packet \<leftarrow> src (sync_json_patch (ad_env A) put ''offset'' (digits_of (nat offset)) True);
     case reply of None \<Rightarrow> ret None | Some r \<Rightarrow>
       if start \<noteq> offset \<or> rp_data r = [] \<or> offset + int (length (rp_data r)) > whole then ret None
       else do {
         received \<leftarrow> tgt (rpc_with B (C ''import_put'') packet (rp_data r));
         case received of None \<Rightarrow> ret None | Some q \<Rightarrow> do {
         reached \<leftarrow> src (sync_json_int (ad_env A) (rp_json q) [''offset''] (-1));
         ret (if reached = offset + int (length (rp_data r)) then Some (length (rp_data r)) else None) } } }"

function copy_loop ::
    "'w Admin \<Rightarrow> 'w Admin \<Rightarrow> byte list \<Rightarrow> byte list \<Rightarrow> int \<Rightarrow> int \<Rightarrow> int \<Rightarrow> int \<Rightarrow> ('w, bool) server_cmd" where
  \<comment> \<open>a step without bytes would end it\<close>
  "copy_loop A B get put whole so_far all offset =
     (if offset \<ge> whole then ret True
      else do {
        cancelled \<leftarrow> src (sy_cancel (ad_env A));
        if cancelled then ret True
        else do {
          n \<leftarrow> copy_step A B get put whole so_far all offset;
          case n of None \<Rightarrow> ret False
          | Some k \<Rightarrow> if k = 0 then ret False else copy_loop A B get put whole so_far all (offset + int k) } })"
  by pat_completeness auto
termination
  by (relation "measure (\<lambda>(A, B, get, put, whole, so_far, all, offset). nat (whole - offset))") auto

definition copy_begin ::
    "'w Admin \<Rightarrow> 'w Admin \<Rightarrow> byte list option \<Rightarrow> int \<Rightarrow> ('w, (byte list \<times> int) option) server_cmd" where
  \<comment> \<open>the target's request for the file, and the offset it goes on from\<close>
  "copy_begin A B get whole = do {
     info \<leftarrow> src (rpc_with A (C ''export_info'') get []);
     hash \<leftarrow> (case info of None \<Rightarrow> ret None | Some r \<Rightarrow> src (sync_json_string (ad_env A) (rp_json r) [''sha256'']));
     n \<leftarrow> (case info of None \<Rightarrow> ret (-1) | Some r \<Rightarrow> src (sync_json_int (ad_env A) (rp_json r) [''size''] (-1)));
     put \<leftarrow> src (patch A get ''size'' (Some (digits_of (nat whole))) True);
     put \<leftarrow> src (patch A put ''sha256'' hash False);
     reply \<leftarrow> (case hash of
         Some h \<Rightarrow> if length h = 64 \<and> n = whole then tgt (rpc_with B (C ''import_put'') put []) else ret None
       | None \<Rightarrow> ret None);
     case (reply, put) of
       (Some r, Some p) \<Rightarrow> do {
         offset \<leftarrow> src (sync_json_int (ad_env A) (rp_json r) [''offset''] (-1));
         (if u64 offset > whole then tgt (sy_fail SYNC_PROTOCOL) else ret True);
         src (put_stats (\<lambda>t. t\<lparr>sx_resumed := u64 (sx_resumed t + u64 offset)\<rparr>));
         ret (if u64 offset > whole then None else Some (p, u64 offset)) }
     | _ \<Rightarrow> ret None }"

definition copy_file ::
    "'w Admin \<Rightarrow> 'w Admin \<Rightarrow> byte list \<Rightarrow> byte list \<Rightarrow> int \<Rightarrow> int \<Rightarrow> int \<Rightarrow> ('w, bool) server_cmd" where
  "copy_file A B token name whole so_far all = do {
     let get = sy_fields (C ''unused'') (Some (C ''token'', token)) (Some (C ''name'', name));
     b \<leftarrow> copy_begin A B get whole;
     ok \<leftarrow> (case (b, get) of
         (Some (put, offset), Some g) \<Rightarrow> copy_loop A B g put whole so_far all offset | _ \<Rightarrow> ret False);
     cancelled \<leftarrow> (if ok then src (sy_cancel (ad_env A)) else ret False);
     ret (ok \<and> \<not> cancelled) }"

fun copy_files ::
    "'w Admin \<Rightarrow> 'w Admin \<Rightarrow> byte list \<Rightarrow> int \<Rightarrow> (byte list option \<times> int) list \<Rightarrow> bool \<Rightarrow> int \<Rightarrow> ('w, bool \<times> int) server_cmd" where
  \<comment> \<open>the rows of the snapshot, with the bytes counted; the rows must come to their end\<close>
  "copy_files A B token all [] complete so_far = do {
     stepped \<leftarrow> src (call (g_sql (ad_env A)));
     ok \<leftarrow> (if stepped \<and> complete then ret True else src (sy_fail SYNC_STORAGE));
     ret (ok, so_far) }"
| "copy_files A B token all ((name, n) # rows) complete so_far = do {
     stepped \<leftarrow> src (call (g_sql (ad_env A)));
     if \<not> stepped then do { ok \<leftarrow> src (sy_fail SYNC_STORAGE); ret (ok, so_far) }
     else (case name of
       None \<Rightarrow> ret (False, so_far)
     | Some nm \<Rightarrow>
         if n < 0 then ret (False, so_far)
         else do {
           ok \<leftarrow> copy_file A B token nm n so_far all;
           (if ok then copy_files A B token all rows complete (so_far + n) else ret (False, so_far + n)) }) }"

definition destination :: "'w Admin \<Rightarrow> byte list \<Rightarrow> ('w, byte list option) sync_cmd" where
  "destination B status = do {
     login \<leftarrow> gets (lg_server \<circ> rq_target_login \<circ> rn_request);
     instance_of \<leftarrow> sync_json_string (ad_env B) status [''control'', ''instance''];
     let narrow = sync_utf8 (ad_env B);
     let v = (case (narrow (ss_host login), narrow (ss_user login)) of
       (Some host, Some user) \<Rightarrow> sy_fields (C ''destination'') (Some (C ''host'', host)) (Some (C ''user'', user)) | _ \<Rightarrow> None);
     v \<leftarrow> patch B v ''port'' (Some (signed_digits (ss_port login))) True;
     v \<leftarrow> patch B v ''instance'' instance_of False;
     v \<leftarrow> patch B v ''name'' (narrow (ss_name login)) False;
     v \<leftarrow> patch B v ''project'' (narrow (ad_project B)) False;
     patch B v ''root'' (narrow (ad_root B)) False }"

definition same_destination :: "'w sync_env \<Rightarrow> byte list \<Rightarrow> byte list \<Rightarrow> ('w, bool) sync_cmd" where
  \<comment> \<open>equal but for the name\<close>
  "same_destination E journal dest = do {
     old \<leftarrow> sync_json_string E journal [''destination''];
     left \<leftarrow> (case old of None \<Rightarrow> ret None | Some d \<Rightarrow> sync_json_patch E d ''name'' [] False);
     right \<leftarrow> sync_json_patch E dest ''name'' [] False;
     ret (left \<noteq> None \<and> left = right) }"

definition same_journal :: "'w Admin \<Rightarrow> 'w Admin \<Rightarrow> byte list \<Rightarrow> ('w, bool) sync_cmd" where
  \<comment> \<open>the journal is of this move\<close>
  "same_journal A B json = do {
     rq \<leftarrow> gets rn_request;
     valid \<leftarrow> sync_json_valid (ad_env A) json;
     version \<leftarrow> (if valid then sync_json_int (ad_env A) json [''version''] 0 else ret 0);
     source \<leftarrow> (if version = 1 then sync_json_int (ad_env A) json [''source_id''] (-1) else ret (-1));
     target \<leftarrow> (if version = 1 then sync_json_int (ad_env A) json [''target_id''] (-1) else ret (-1));
     if version \<noteq> 1 \<or> source \<noteq> ss_id (lg_server (rq_login rq)) \<or> target \<noteq> ss_id (lg_server (rq_target_login rq)) then ret False
     else do {
       project \<leftarrow> wide_field (ad_env A) json [''project''] SYNC_PATH_CAP;
       root \<leftarrow> wide_field (ad_env A) json [''root''] SYNC_PATH_CAP;
       ret (project = Some (ad_project B) \<and> root = Some (ad_root B)) } }"

definition journal_text :: "'w Admin \<Rightarrow> 'w Admin \<Rightarrow> byte list \<Rightarrow> byte list \<Rightarrow> ('w, byte list option) sync_cmd" where
  "journal_text A B token dest = do {
     rq \<leftarrow> gets rn_request;
     v \<leftarrow> patch A (sy_fields (C ''migration'') (Some (C ''token'', token)) None) ''version'' (Some (C ''1'')) True;
     v \<leftarrow> patch A v ''source_id'' (Some (signed_digits (ss_id (lg_server (rq_login rq))))) True;
     v \<leftarrow> patch A v ''target_id'' (Some (signed_digits (ss_id (lg_server (rq_target_login rq))))) True;
     instance_of \<leftarrow> sync_json_string (ad_env A) dest [''instance''];
     v \<leftarrow> patch A v ''project'' (sync_utf8 (ad_env A) (ad_project B)) False;
     v \<leftarrow> patch A v ''root'' (sync_utf8 (ad_env A) (ad_root B)) False;
     v \<leftarrow> patch A v ''instance'' instance_of False;
     patch A v ''destination'' (Some dest) True }"

definition new_journal :: "'w Admin \<Rightarrow> 'w Admin \<Rightarrow> byte list \<Rightarrow> ('w, byte list option) sync_cmd" where
  "new_journal A B dest = do {
     rq \<leftarrow> gets rn_request;
     case journal_path rq of None \<Rightarrow> ret None | Some path \<Rightarrow> do {
     a \<leftarrow> call (g_attributes (ad_env A) path);
     if a \<noteq> Absent
     then do { admin_error A SYNC_STORAGE ''Migration checkpoint cannot be read; original data preserved.''; ret None }
     else do {
       random \<leftarrow> call (g_random (ad_env A) 16);
       v \<leftarrow> journal_text A B (hex_of random) dest;
       saved \<leftarrow> (case v of None \<Rightarrow> ret False | Some j \<Rightarrow> save_journal A j);
       ret (if saved then v else None) } } }"

definition migration_journal :: "'w Admin \<Rightarrow> 'w Admin \<Rightarrow> byte list \<Rightarrow> ('w, byte list option) sync_cmd" where
  \<comment> \<open>the journal to go on with, or a new one\<close>
  "migration_journal A B dest = do {
     old \<leftarrow> read_journal (ad_env A);
     case old of
       None \<Rightarrow> new_journal A B dest
     | Some json \<Rightarrow> do {
         same \<leftarrow> same_journal A B json;
         there \<leftarrow> same_destination (ad_env A) json dest;
         if same \<and> there then ret (Some json)
         else do {
           admin_error A SYNC_CONFLICT
             ''Another migration checkpoint exists. Resume it or restore the old server before choosing a new destination.'';
           ret None } } }"

definition first_text :: "'w sync_env \<Rightarrow> byte list \<Rightarrow> string \<Rightarrow> ('w, byte list option) sync_cmd" where
  \<comment> \<open>\<open>$.key[0]\<close>\<close>
  "first_text E json key = do {
     v \<leftarrow> json_select E json [key];
     ret (case v of Some (JArray (x # _)) \<Rightarrow> json_column E (Some x) | _ \<Rightarrow> None) }"

definition empty_target :: "'w Admin \<Rightarrow> byte list \<Rightarrow> ('w, bool) sync_cmd" where
  \<comment> \<open>a queue with records is a target only of a move that goes on\<close>
  "empty_target B status = do {
     device \<leftarrow> first_text (ad_env B) status ''devices'';
     dataset \<leftarrow> first_text (ad_env B) status ''datasets'';
     checkpoint \<leftarrow> read_journal (ad_env B);
     (if (device \<noteq> None \<or> dataset \<noteq> None) \<and> checkpoint = None
      then admin_error B SYNC_CONFLICT ''Destination contains synchronization records. Choose an empty destination queue.''
      else ret True) }"

definition ready_target :: "'w Admin \<Rightarrow> ('w, byte list option) sync_cmd" where
  \<comment> \<open>empty, and deployed when it was not\<close>
  "ready_target B = do {
     status \<leftarrow> admin_probe B;
     case status of None \<Rightarrow> ret None | Some st \<Rightarrow> do {
     ok \<leftarrow> empty_target B st;
     if \<not> ok then ret None
     else do {
       installed \<leftarrow> sync_json_int (ad_env B) st [''installed''] 0;
       if installed \<noteq> 0 then ret status
       else do { ok \<leftarrow> deploy B; if ok then admin_probe B else ret None } } } }"

definition ready_source :: "'w Admin \<Rightarrow> byte list \<Rightarrow> ('w, bool) sync_cmd" where
  \<comment> \<open>upgraded before it is frozen, and not the target itself\<close>
  "ready_source A target = do {
     ok \<leftarrow> deploy A;
     status \<leftarrow> (if ok then admin_probe A else ret None);
     case status of None \<Rightarrow> ret False | Some source \<Rightarrow> do {
     origin \<leftarrow> sync_json_string (ad_env A) source [''control'', ''instance''];
     other \<leftarrow> sync_json_string (ad_env A) target [''control'', ''instance''];
     (if origin \<noteq> None \<and> origin = other
      then admin_error A SYNC_CONFLICT
        ''Source and destination have the same server identity; refusing self/clone migration.''
      else ret True) } }"

definition migrate_copy ::
    "'w Admin \<Rightarrow> 'w Admin \<Rightarrow> byte list \<Rightarrow> byte list option \<Rightarrow> byte list \<Rightarrow> byte list option \<Rightarrow> byte list option
     \<Rightarrow> ('w, bool) server_cmd" where
  \<comment> \<open>phase EXPORTING: the files, the target's check of them, and the end of the source\<close>
  "migrate_copy A B token dest snapshot entries import_fields = do {
     prepared \<leftarrow> src (call (g_sql (ad_env A)));
     bytes \<leftarrow> src (sync_json_int (ad_env A) snapshot [''bytes''] 0);
     let all = u64 bytes;
     let vs = elements (Option.bind entries (g_parse (ad_env A)));
     let rows = map (\<lambda>v. (column_text (ad_env A) (member_of ''name'' v), column_int (ad_env A) (member_of ''size'' v)))
         (each_value (ad_env A) vs);
     r \<leftarrow> (if prepared then copy_files A B token all rows (length rows = length vs) 0 else ret (False, 0));
     src (sy_progress (ad_env A) SYNC_VERIFY_SERVER (Some (ad_project B)) (u64 (snd r)) all);
     verified \<leftarrow> (if fst r then tgt (rpc_with B (C ''import_prepare'') import_fields []) else ret None);
     instance_of \<leftarrow> (case dest of None \<Rightarrow> ret None | Some d \<Rightarrow> src (sync_json_string (ad_env A) d [''instance'']));
     if verified = None then ret False
     else do {
       src (sy_progress (ad_env A) SYNC_CUTOVER (Some (ad_project B)) 0 0);
       reply \<leftarrow> src (rpc_with A (C ''export_commit'') (sy_fields (C ''unused'') (Some (C ''token'', token))
         (Some (C ''instance'', case instance_of of None \<Rightarrow> [] | Some i \<Rightarrow> i))) []);
       ret (reply \<noteq> None) } }"

definition migrate_activate :: "'w Admin \<Rightarrow> 'w Admin \<Rightarrow> byte list \<Rightarrow> byte list option \<Rightarrow> ('w, bool) server_cmd" where
  \<comment> \<open>the target takes over, and this device finds itself there\<close>
  "migrate_activate A B token control = do {
     previous \<leftarrow> (case control of None \<Rightarrow> ret None | Some c \<Rightarrow> src (sync_json_string (ad_env A) c [''instance'']));
     reply \<leftarrow> tgt (rpc_with B (C ''import_activate'') (sy_fields (C ''unused'') (Some (C ''token'', token))
       (Some (C ''previous'', case previous of None \<Rightarrow> [] | Some p \<Rightarrow> p))) []);
     case reply of None \<Rightarrow> ret False | Some r \<Rightarrow> do {
     src (put_result (\<lambda>x. x\<lparr>sr_cloud := Some (rp_json r)\<rparr>));
     ok \<leftarrow> tgt (identity B (rp_json r) True);
     src (put_result (\<lambda>x. x\<lparr>sr_switched := ok, sr_installed := True\<rparr>));
     if \<not> ok then ret False
     else do {
       name \<leftarrow> tgt (wide_field (ad_env B) (rp_json r) [''control'', ''instance''] SYNC_ID_CAP);
       (case name of None \<Rightarrow> ret () | Some i \<Rightarrow> src (put_result (\<lambda>x. x\<lparr>sr_server_instance := i\<rparr>)));
       ret (name \<noteq> None) } } }"

definition migrate_transfer :: "'w Admin \<Rightarrow> 'w Admin \<Rightarrow> byte list \<Rightarrow> byte list option \<Rightarrow> byte list \<Rightarrow> ('w, bool) server_cmd" where
  \<comment> \<open>from the frozen source on\<close>
  "migrate_transfer A B token dest fields_of = do {
     src (put_result (\<lambda>x. x\<lparr>sr_pending_migration := True\<rparr>));
     src (sy_progress (ad_env A) SYNC_FREEZE (Some (ad_project A)) 0 0);
     snapshot \<leftarrow> src (admin_rpc A (C ''export_begin'') (Some fields_of) []);
     case snapshot of None \<Rightarrow> ret False | Some r \<Rightarrow> do {
     control \<leftarrow> src (sync_json_string (ad_env A) (rp_json r) [''control'']);
     entries \<leftarrow> src (sync_json_string (ad_env A) (rp_json r) [''files'']);
     phase \<leftarrow> src (sync_json_string (ad_env A) (rp_json r) [''control'', ''phase'']);
     import_fields \<leftarrow> src (patch A (sy_fields (C ''unused'') (Some (C ''token'', token)) None) ''source'' control True);
     import_fields \<leftarrow> src (patch A import_fields ''files'' entries True);
     begun \<leftarrow> tgt (rpc_with B (C ''import_begin'') import_fields []);
     ok \<leftarrow> (if begun \<noteq> None \<and> phase = Some (C ''EXPORTING'')
            then migrate_copy A B token dest (rp_json r) entries import_fields else ret (begun \<noteq> None));
     (if ok then migrate_activate A B token control else ret False) } }"

definition same_queue :: "'w Admin \<Rightarrow> 'w Admin \<Rightarrow> SyncRequest \<Rightarrow> bool" where
  "same_queue A B rq \<longleftrightarrow>
     (let x = lg_server (rq_login rq); y = lg_server (rq_target_login rq)
      in ss_host x = ss_host y \<and> ss_port x = ss_port y \<and> ss_user x = ss_user y \<and> ad_root A = ad_root B)"

definition migrate :: "'w Admin \<Rightarrow> 'w Admin \<Rightarrow> ('w, bool) server_cmd" where
  "migrate A B = do {
     rq \<leftarrow> src (gets rn_request);
     if same_queue A B rq
     then src (admin_error A SYNC_CONFLICT ''Source and destination are the same queue.'')
     else do {
       target \<leftarrow> tgt (ready_target B);
       ready \<leftarrow> (case target of None \<Rightarrow> ret False | Some t \<Rightarrow> src (ready_source A t));
       dest \<leftarrow> (case target of Some t \<Rightarrow> if ready then tgt (destination B t) else ret None | None \<Rightarrow> ret None);
       journal \<leftarrow> (case dest of None \<Rightarrow> ret None | Some d \<Rightarrow> src (migration_journal A B d));
       case journal of None \<Rightarrow> ret False | Some j \<Rightarrow> do {
       dest \<leftarrow> src (sync_json_string (ad_env A) j [''destination'']);
       token \<leftarrow> src (sync_json_string (ad_env A) j [''token'']);
       fields_of \<leftarrow> src (patch A (Option.bind token (\<lambda>t. sy_fields (C ''unused'') (Some (C ''token'', t)) None)) ''destination'' dest True);
       case (token, fields_of) of
         (Some t, Some f) \<Rightarrow> migrate_transfer A B t dest f
       | _ \<Rightarrow> ret False } } }"

subsection \<open>The jobs of the server\<close>

definition server_restore :: "'w Admin \<Rightarrow> ('w, bool) sync_cmd" where
  \<comment> \<open>the move is given up and the source released\<close>
  "server_restore A = do {
     rq \<leftarrow> gets rn_request;
     journal \<leftarrow> read_journal (ad_env A);
     token \<leftarrow> (case journal of None \<Rightarrow> ret None | Some json \<Rightarrow> do {
       valid \<leftarrow> sync_json_valid (ad_env A) json;
       version \<leftarrow> (if valid then sync_json_int (ad_env A) json [''version''] 0 else ret 0);
       source \<leftarrow> (if version = 1 then sync_json_int (ad_env A) json [''source_id''] (-1) else ret (-1));
       (if version = 1 \<and> source = ss_id (lg_server (rq_login rq)) then sync_json_string (ad_env A) json [''token''] else ret None) });
     case token of None \<Rightarrow> ret False | Some t \<Rightarrow> do {
     ok \<leftarrow> opened A;
     reply \<leftarrow> (if ok then admin_rpc A (C ''export_abort'') (sy_fields (C ''unused'') (Some (C ''token'', t)) None) [] else ret None);
     if reply = None then ret False
     else do {
       committed \<leftarrow> sync_server_commit_local (ad_env A) (rq_state_directory rq);
       (if committed then ret True else sy_fail SYNC_STORAGE) } } }"

definition server_texts :: "'w Admin \<Rightarrow> byte list \<Rightarrow> ('w, unit) sync_cmd" where
  "server_texts B status = do {
     n \<leftarrow> sync_json_int (ad_env B) status [''installed''] 0;
     put_result (\<lambda>r. r\<lparr>sr_installed := n \<noteq> 0\<rparr>);
     phase \<leftarrow> wide_field (ad_env B) status [''control'', ''phase''] 32;
     (case phase of None \<Rightarrow> ret () | Some p \<Rightarrow> put_result (\<lambda>r. r\<lparr>sr_server_phase := p\<rparr>));
     instance_of \<leftarrow> wide_field (ad_env B) status [''control'', ''instance''] SYNC_ID_CAP;
     (case instance_of of None \<Rightarrow> ret () | Some i \<Rightarrow> put_result (\<lambda>r. r\<lparr>sr_server_instance := i\<rparr>)) }"

definition server_single :: "'w Admin \<Rightarrow> SyncJob \<Rightarrow> ('w, bool) sync_cmd" where
  \<comment> \<open>the jobs on one server\<close>
  "server_single B action = do {
     ok \<leftarrow> opened B;
     ok \<leftarrow> (if ok \<and> action = SYNC_JOB_SERVER_DEPLOY then deploy B else ret ok);
     status \<leftarrow> (if ok then admin_probe B else ret None);
     put_result (\<lambda>r. r\<lparr>sr_cloud := status\<rparr>);
     case status of None \<Rightarrow> ret False | Some st \<Rightarrow> do {
     server_texts B st;
     installed \<leftarrow> gets (sr_installed \<circ> rn_result);
     ok \<leftarrow> (if \<not> installed \<and> action = SYNC_JOB_SERVER_ATTACH
            then admin_error B SYNC_REMOTE ''Server is not deployed; choose One-click deploy.'' else ret True);
     ok \<leftarrow> (if ok \<and> action = SYNC_JOB_SERVER_ATTACH
            then do { mine \<leftarrow> identity B st True; put_result (\<lambda>r. r\<lparr>sr_switched := mine\<rparr>); ret mine } else ret ok);
     mine \<leftarrow> (if ok \<and> action = SYNC_JOB_SERVER_DEPLOY \<and> installed then identity B st False else ret False);
     (if mine then put_result (\<lambda>r. r\<lparr>sr_switched := True\<rparr>) else ret ());
     ret ok } }"

definition server_migrate :: "'w Admin \<Rightarrow> 'w Admin \<Rightarrow> ('w, bool) server_cmd" where
  "server_migrate A B = do {
     target \<leftarrow> tgt (opened B);
     source \<leftarrow> (if target then src (opened A) else ret False);
     (if source then migrate A B else ret False) }"

definition clear_secrets :: "SyncRequest \<Rightarrow> SyncRequest" where
  "clear_secrets rq = rq\<lparr>rq_login := (rq_login rq)\<lparr>lg_secret := []\<rparr>, rq_target_login := (rq_target_login rq)\<lparr>lg_secret := []\<rparr>\<rparr>"

definition server_steps :: "'w Admin \<Rightarrow> 'w Admin \<Rightarrow> SyncJob \<Rightarrow> ('w, bool) server_cmd" where
  "server_steps A B action = do {
     memory \<leftarrow> src (call (g_sql (ad_env A)));
     ok \<leftarrow> (if \<not> memory then ret False
            else if action = SYNC_JOB_SERVER_RESTORE then src (server_restore A)
            else if action = SYNC_JOB_SERVER_MIGRATE then server_migrate A B
            else tgt (server_single B action));
     code \<leftarrow> src (gets (sr_failure \<circ> rn_result));
     if \<not> ok \<and> code = SYNC_OK then do {
       cancelled \<leftarrow> src (sy_cancel (ad_env A));
       src (put_result (\<lambda>r. r\<lparr>sr_failure := (if cancelled then SYNC_CANCELLED else SYNC_PROTOCOL)\<rparr>));
       ret False }
     else ret ok }"

definition sync_server_run ::
    "'w Admin \<Rightarrow> 'w Admin \<Rightarrow> SyncJob \<Rightarrow> SyncRequest \<Rightarrow> 'w \<Rightarrow> bool \<times> SyncResult \<times> SyncRequest \<times> 'w Run" where
  \<comment> \<open>the two connections get their projects and roots from the request\<close>
  "sync_server_run A B action rq w =
     (let A = A\<lparr>ad_project := st_project (rq_settings rq), ad_root := st_broker (rq_settings rq), ad_target := False, ad_provision := False\<rparr>;
          B = B\<lparr>ad_project := rq_target_project rq, ad_root := rq_target_broker rq, ad_target := True,
                ad_provision := action \<in> {SYNC_JOB_SERVER_DEPLOY, SYNC_JOB_SERVER_MIGRATE}\<rparr>
      in case run_state (server_steps A B action) (start_run rq w, SYNC_CONNECT, 0) of
        (ok, s, _) \<Rightarrow> (ok, rn_result s, clear_secrets (rn_request s), s))"

definition is_server_job :: "SyncJob \<Rightarrow> bool" where
  \<comment> \<open>\<open>action>=SYNC_JOB_SERVER_PROBE\<close>\<close>
  "is_server_job action \<longleftrightarrow> action \<in> {SYNC_JOB_SERVER_PROBE, SYNC_JOB_SERVER_DEPLOY, SYNC_JOB_SERVER_ATTACH,
     SYNC_JOB_SERVER_MIGRATE, SYNC_JOB_SERVER_RESTORE}"

definition sync_job_run ::
    "'w Admin \<Rightarrow> 'w Admin \<Rightarrow> SyncJob \<Rightarrow> SyncRequest \<Rightarrow> 'w \<Rightarrow> bool \<times> SyncResult \<times> SyncRequest \<times> 'w Run" where
  \<comment> \<open>\<open>sync_client_run\<close> with its first line\<close>
  "sync_job_run A B action rq w =
     (if is_server_job action then sync_server_run A B action rq w else sync_client_run (ad_env A) action rq w)"

end
