(* ===== verification/Sync_Demo.thy ===== *)
theory Sync_Demo
  imports Sync_Server
begin

text \<open>
  A concrete instance of the calls of the synchronisation client, for the examples: the world is the map of
  the files, calls that write fail, the texts the JSON reader knows are given, and the server answers every
  request with the same object. The hash is the text itself, filled up to 32 bytes.
\<close>

type_synonym disk = "wstr \<Rightarrow> byte list option"

definition demo_answer :: json where
  "demo_answer = JObject [(W ''ok'', JInt 1), (W ''result'', JObject []), (W ''offset'', JInt 8)]"

definition demo_parse :: "(byte list \<times> json) list \<Rightarrow> byte list \<Rightarrow> json option" where
  "demo_parse table b = (case map_of table b of Some j \<Rightarrow> Some j | None \<Rightarrow> Some demo_answer)"

definition demo_env :: "(byte list \<times> json) list \<Rightarrow> disk sync_env" where
  "demo_env table = \<lparr>f_attributes = (\<lambda>p d. (if d p = None then AttributesNotFound else AttributesPresent, d)),
     f_read = (\<lambda>p d. (ReadNotFound, d)), f_create_new = (\<lambda>p d. (False, d)), f_write = (\<lambda>p b d. (None, d)),
     f_flush = (\<lambda>p d. (False, d)), f_delete = (\<lambda>p d. (False, d)), f_copy_new = (\<lambda>a b d. (CopyFailed, d)),
     f_replace = (\<lambda>a b c d. (False, d)), f_move = (\<lambda>a b r d. (False, d)), f_nonce = (\<lambda>d. (0, d)), f_pid = [],
     g_attributes = (\<lambda>p d. (if d p = None then Absent else Kind False False, d)),
     g_create_directory = (\<lambda>p d. (False, d)),
     g_stat = (\<lambda>p d. (map_option (\<lambda>c. (False, False, length c, 116444736000000000)) (d p), d)),
     g_reads = (\<lambda>p d. (map_option (\<lambda>c. if c = [] then [] else [Some c]) (d p), d)),
     g_open_read = (\<lambda>p d. (d p \<noteq> None, d)),
     g_read_at = (\<lambda>p pos n d. (map_option (\<lambda>c. take (nat n) (drop (nat pos) c)) (d p), d)),
     g_open_always = (\<lambda>p d. (None, d)), g_append = (\<lambda>p b d. (False, d)), g_create_always = (\<lambda>p d. (False, d)),
     g_find = (\<lambda>p d. (FindNone, d)), g_cancelled = (\<lambda>d. (False, d)), g_digest_ok = (\<lambda>d. (True, d)),
     g_sha256 = (\<lambda>b. take 32 (b @ replicate 32 0)), g_parse = demo_parse table, g_column_int = (\<lambda>_. 0), g_affinity_int = (\<lambda>_. None),
     g_print = (\<lambda>_. C ''{}''), g_sql = (\<lambda>d. (True, d)), g_open_index = (\<lambda>p d. (None, d)),
     g_wide = (\<lambda>b. Some (ascii_wide b)), g_narrow = (\<lambda>t. Some (map (\<lambda>c. of_nat (unat c)) t)),
     g_random = (\<lambda>n d. (replicate n 0, d)), g_send = (\<lambda>b d. (True, d)),
     g_receive = (\<lambda>n d. (Some (if n = 8 then [0, 0, 0, 1, 0, 0, 0, 0] else [123]), d)), g_ssh_cancelled = (\<lambda>_. False),
     g_connect = (\<lambda>d. (True, d)), g_protocol_open = (\<lambda>a b d. (True, d)), g_compress = (\<lambda>_. None), g_inflate = (\<lambda>_ _. None),
     g_recycle = None, g_path_match = (\<lambda>_ _. False), g_path_prefix = (\<lambda>_ _. False), g_tick = (\<lambda>d. (0, d)), g_progress = None\<rparr>"

lemma demo_simps [simp]:
  "g_attributes (demo_env t) p d = (if d p = None then Absent else Kind False False, d)"
  "g_stat (demo_env t) p d = (map_option (\<lambda>c. (False, False, length c, 116444736000000000)) (d p), d)"
  "g_reads (demo_env t) p d = (map_option (\<lambda>c. if c = [] then [] else [Some c]) (d p), d)"
  "g_cancelled (demo_env t) d = (False, d)" "g_digest_ok (demo_env t) d = (True, d)" "g_sql (demo_env t) d = (True, d)"
  "g_sha256 (demo_env t) b = take 32 (b @ replicate 32 0)" "g_parse (demo_env t) = demo_parse t"
  "g_print (demo_env t) j = C ''{}''" "g_wide (demo_env t) b = Some (ascii_wide b)"
  "g_narrow (demo_env t) s = Some (map (\<lambda>c. of_nat (unat c)) s)" "g_send (demo_env t) b d = (True, d)"
  "g_receive (demo_env t) n d = (Some (if n = 8 then [0, 0, 0, 1, 0, 0, 0, 0] else [123]), d)"
  "g_compress (demo_env t) b = None" "g_tick (demo_env t) d = (0, d)" "g_progress (demo_env t) = None"
  "g_open_read (demo_env t) p d = (d p \<noteq> None, d)"
  "g_read_at (demo_env t) p pos n d = (map_option (\<lambda>c. take (nat n) (drop (nat pos) c)) (d p), d)"
  "g_inflate (demo_env t) b n = None" "g_ssh_cancelled (demo_env t) d = False"
  by (simp_all add: demo_env_def)

definition demo_login :: SshLogin where
  "demo_login = \<lparr>lg_server = zero_server, lg_secret = W ''secret'', lg_key_file = [], lg_fingerprint = []\<rparr>"

definition demo_request :: SyncRequest where
  "demo_request = \<lparr>rq_settings = zero_settings, rq_pair = zero_pair\<lparr>sp_directory := W ''C:/d'', sp_dataset := W ''ds''\<rparr>,
     rq_state_directory = W ''C:/s'', rq_direction = 0, rq_resolution = 0, rq_resolve_path = [], rq_expected_local = [],
     rq_expected_remote = [], rq_login = demo_login, rq_target_login = demo_login, rq_target_project = [],
     rq_target_broker = [], rq_quota_gib = 0, rq_reserve_gib = 0\<rparr>"

lemma demo_int: "wp (sync_json_int (demo_env []) t [''offset''] d) (\<lambda>n _. n = 8) s"
  by (simp add: sync_json_int_def json_select_def wp wp_call demo_parse_def demo_answer_def json_path_def member_of_def
    bool_int_def int_value_def W_def)

end
