(* ===== verification/Sync_Frames.thy ===== *)
theory Sync_Frames
  imports Sync_Demo
begin

text \<open>
  What the operations of the synchronisation client leave alone. \<open>observes\<close> is what the program relies on of the
  calls that look: asking for attributes, size and content, hashing, reading JSON, the clock and the
  network do not change what the files hold, and what they say of a file is true of it.
\<close>

definition observes :: "'w sync_env \<Rightarrow> ('w \<Rightarrow> wstr \<Rightarrow> byte list option) \<Rightarrow> bool" where
  "observes E disk \<longleftrightarrow>
     (\<forall>w p r w'. g_attributes E p w = (r, w') \<longrightarrow> disk w' = disk w \<and> (r = Absent \<longrightarrow> disk w p = None))
     \<and> (\<forall>w p r w'. g_stat E p w = (r, w') \<longrightarrow> disk w' = disk w)
     \<and> (\<forall>w p r w'. g_reads E p w = (r, w') \<longrightarrow> disk w' = disk w
          \<and> (case r of None \<Rightarrow> True | Some rs \<Rightarrow> None \<notin> set rs \<longrightarrow> disk w p = Some (concat (map the rs))))
     \<and> (\<forall>w r w'. g_digest_ok E w = (r, w') \<longrightarrow> disk w' = disk w)
     \<and> (\<forall>w r w'. g_sql E w = (r, w') \<longrightarrow> disk w' = disk w)
     \<and> (\<forall>w r w'. g_cancelled E w = (r, w') \<longrightarrow> disk w' = disk w)
     \<and> (\<forall>w b r w'. g_send E b w = (r, w') \<longrightarrow> disk w' = disk w)
     \<and> (\<forall>w n r w'. g_receive E n w = (r, w') \<longrightarrow> disk w' = disk w)"

definition view :: "('w \<Rightarrow> 'd) \<Rightarrow> 'w Run \<Rightarrow> 'd \<times> Index \<times> SyncRequest" where
  \<comment> \<open>the files, the index and the request\<close>
  "view disk s = (disk (rn_world s), rn_index s, rn_request s)"

lemma view_call: "(\<And>w r w'. g w = (r, w') \<Longrightarrow> disk w' = disk w) \<Longrightarrow> keeps (view disk) (call g)"
  by (auto simp: keeps_def wp_call view_def split: prod.splits)

lemma view_modify [keeps]:
  "keeps (view disk) (put_result f)" "keeps (view disk) (put_stats g)"
  by (simp_all add: put_stats_def put_result_def keeps_modify view_def)

lemma view_fail [keeps]:
  "keeps (view disk) (sy_fail code)" "keeps (view disk) (failed code)"
  by (simp_all add: sy_fail_def failed_def) (intro keeps)+

lemma view_or_fail [keeps]: "keeps (view disk) c \<Longrightarrow> keeps (view disk) (or_fail code c)"
  unfolding or_fail_def by (intro keeps)

lemma view_calls [keeps]:
  assumes looks: "observes E disk"
  shows "keeps (view disk) (call (g_attributes E p))" "keeps (view disk) (call (g_stat E p))"
    "keeps (view disk) (call (g_reads E p))" "keeps (view disk) (call (g_digest_ok E))"
    "keeps (view disk) (call (g_sql E))" "keeps (view disk) (call (g_cancelled E))"
    "keeps (view disk) (call (g_send E b))" "keeps (view disk) (call (g_receive E n))"
  using looks by (auto intro!: view_call simp: observes_def)

lemma view_cancel [keeps]: "observes E disk \<Longrightarrow> keeps (view disk) (sy_cancel E)"
  unfolding sy_cancel_def by (intro keeps)

lemma view_select [keeps]: "observes E disk \<Longrightarrow> keeps (view disk) (json_select E json path)"
  unfolding json_select_def by (intro keeps)

lemma view_json [keeps]:
  assumes looks: "observes E disk"
  shows "keeps (view disk) (sync_json_valid E json)" "keeps (view disk) (sync_json_string E json path)"
    "keeps (view disk) (sync_json_int E json path d)" "keeps (view disk) (sync_json_patch E json key value obj)"
    "keeps (view disk) (sync_sha E data)"
  unfolding sync_json_valid_def sync_json_string_def sync_json_int_def sync_json_patch_def sync_sha_def
  by (intro keeps looks)+

lemma view_strings [keeps]: "observes E disk \<Longrightarrow> keeps (view disk) (json_strings E json ks)"
  by (induction ks) (auto intro!: keeps)

lemma view_query [keeps]: "observes E disk \<Longrightarrow> keeps (view disk) (sy_query E f)"
  unfolding sy_query_def by (intro keeps)

lemma view_meta [keeps]: "observes E disk \<Longrightarrow> keeps (view disk) (sy_meta E p)"
  unfolding sy_meta_def by (intro keeps)

lemma view_hash_reads [keeps]: "observes E disk \<Longrightarrow> keeps (view disk) (hash_reads E acc rs)"
  by (induction rs arbitrary: acc) (auto intro!: keeps)

lemma view_hash_file [keeps]: "observes E disk \<Longrightarrow> keeps (view disk) (sync_hash_file E p)"
  unfolding sync_hash_file_def hash_opened_def by (intro keeps)

lemma view_cache_path [keeps]: "keeps (view disk) (cache_path E h)"
  unfolding cache_path_def by (intro keeps)

lemma view_no_links [keeps]: "observes E disk \<Longrightarrow> keeps (view disk) (no_links E ps)"
  by (induction ps) (auto intro!: keeps)

lemma view_target_path [keeps]: "observes E disk \<Longrightarrow> keeps (view disk) (target_path E p)"
  unfolding target_path_def Let_def by (intro keeps)

lemma view_probe [keeps]: "observes E disk \<Longrightarrow> keeps (view disk) (probe E p)"
  unfolding probe_def by (auto intro!: keeps split: file_kind.splits)

lemma view_cached [keeps]: "observes E disk \<Longrightarrow> keeps (view disk) (cached E row)"
  unfolding cached_def by (intro keeps)

lemma view_each_row [keeps]:
  "observes E disk \<Longrightarrow> (\<And>x. keeps (view disk) (f x)) \<Longrightarrow> keeps (view disk) (each_row E f xs)"
  by (induction xs) (auto intro!: keeps)

lemma view_pairs [keeps]:
  "observes E disk \<Longrightarrow> (\<And>x. keeps (view disk) (f x)) \<Longrightarrow> keeps (view disk) (pairs_array E f m)"
  unfolding pairs_array_def by (intro keeps)

lemma view_network_failure [keeps]: "keeps (view disk) (network_failure E)"
  unfolding network_failure_def by (intro keeps)

lemma view_rpc_parts [keeps]:
  assumes looks: "observes E disk"
  shows "keeps (view disk) (rpc_header E q)" "keeps (view disk) (rpc_pack E h d)" "keeps (view disk) (rpc_send E h d)"
    "keeps (view disk) (rpc_receive E)" "keeps (view disk) (rpc_unpack E h d)" "keeps (view disk) (rpc_rejected E q h)"
  unfolding rpc_header_def rpc_pack_def rpc_send_def rpc_receive_def rpc_unpack_def rpc_rejected_def Let_def
  by (intro keeps looks)+

lemma view_rpc [keeps]: "observes E disk \<Longrightarrow> keeps (view disk) (sy_rpc E q d)"
  unfolding sy_rpc_def Let_def by (intro keeps)

lemma view_request [keeps]: "observes E disk \<Longrightarrow> keeps (view disk) (request E q d)"
  unfolding request_def by (intro keeps)

lemma view_command [keeps]: "observes E disk \<Longrightarrow> keeps (view disk) (command E a b)"
  unfolding command_def by (intro keeps)

definition files_of :: "('w \<Rightarrow> 'd) \<Rightarrow> 'w Run \<Rightarrow> 'd" where
  "files_of disk s = disk (rn_world s)"

lemma keeps_files: "keeps (view disk) c \<Longrightarrow> keeps (files_of disk) c"
  unfolding keeps_def by (auto elim!: wp_mono simp: view_def files_of_def)

lemma files_sql_steps: "observes E disk \<Longrightarrow> keeps (view disk) (sql_steps E n)"
  by (induction n) (auto intro!: keeps)

lemma files_statement [keeps]: "observes E disk \<Longrightarrow> keeps (files_of disk) (sy_statement E n f)"
  unfolding sy_statement_def or_fail_def apply_index_def
  by (intro keeps keeps_files [OF files_sql_steps] keeps_files [OF view_fail(1)] keeps_modify) (simp_all add: files_of_def)

lemma files_acknowledge [keeps]: "observes E disk \<Longrightarrow> keeps (files_of disk) (acknowledge E m h)"
  unfolding acknowledge_def
  by (intro keeps keeps_files [OF view_pairs] keeps_files [OF view_fail(1)] keeps_files [OF view_json(2)]
    keeps_files [OF view_request] keeps_files [OF view_json(3)] keeps_files [OF view_modify(2)])

subsection \<open>What is read of a file\<close>

lemma hash_reads_all:
  "yields (\<lambda>r. case r of None \<Rightarrow> True | Some b \<Rightarrow> None \<notin> set rs \<and> b = acc @ concat (map the rs)) (hash_reads E acc rs)"
proof (induction rs arbitrary: acc)
  case Nil
  show ?case by (auto intro!: yields)
next
  case (Cons r rs)
  have "yields (\<lambda>q. case q of None \<Rightarrow> True | Some b \<Rightarrow> None \<notin> set (r # rs) \<and> b = acc @ concat (map the (r # rs)))
      (hash_reads E (acc @ d) rs)" if "r = Some d" for d
    by (rule yields_mono [OF Cons.IH [of "acc @ d"]]) (auto simp: that split: option.splits)
  then show ?case by (auto intro!: yields)
qed

definition sha_text :: "'w sync_env \<Rightarrow> byte list \<Rightarrow> byte list" where
  "sha_text E c = hex_of (g_sha256 E c)"

lemma hash_opened_all:
  "yields (\<lambda>r. case r of None \<Rightarrow> True | Some (h, n, _) \<Rightarrow>
      None \<notin> set rs \<and> h = sha_text E (concat (map the rs)) \<and> n = int (length (concat (map the rs)))) (hash_opened E rs initial nanos)"
  unfolding hash_opened_def
  by (intro yields yields_then [OF hash_reads_all]) (auto simp: sha_text_def intro!: yields split: option.splits)

lemma wp_reads:
  assumes "observes E disk"
  shows "wp (call (g_reads E p)) (\<lambda>r s'. case r of None \<Rightarrow> True | Some rs \<Rightarrow>
      None \<notin> set rs \<longrightarrow> disk (rn_world s) p = Some (concat (map the rs))) s"
  using assms by (auto simp: wp_call observes_def split: prod.splits option.splits)

definition hashed :: "'w sync_env \<Rightarrow> byte list option \<Rightarrow> (byte list \<times> int \<times> int) option \<Rightarrow> bool" where
  \<comment> \<open>a hash and a size are those of the content\<close>
  "hashed E content r \<longleftrightarrow> (case r of None \<Rightarrow> True
     | Some (h, n, _) \<Rightarrow> (case content of None \<Rightarrow> False | Some c \<Rightarrow> h = sha_text E c \<and> n = int (length c)))"

lemma wp_hash_file:
  assumes looks: "observes E disk"
  shows "wp (sync_hash_file E p) (\<lambda>r _. hashed E (disk (rn_world s) p) r) s"
  unfolding sync_hash_file_def wp_bind
proof (rule wp_keeps [OF view_meta [OF looks]], rule wp_any, rule impI)
  fix meta t
  assume t: "view disk t = view disk s"
  have opened: "wp (case opn of None \<Rightarrow> ret None | Some rs \<Rightarrow> hash_opened E rs initial nanos)
      (\<lambda>r _. hashed E (disk (rn_world s) p) r) u"
    if "case opn of None \<Rightarrow> True | Some rs \<Rightarrow> None \<notin> set rs \<longrightarrow> disk (rn_world t) p = Some (concat (map the rs))"
    for opn initial nanos u
  proof (cases opn)
    case (Some rs)
    show ?thesis
      unfolding Some option.case
      by (rule wp_yields [OF hash_opened_all], rule wp_any)
        (use that t Some in \<open>auto simp: hashed_def view_def split: option.splits\<close>)
  qed (simp add: wp hashed_def)
  show "wp (case meta of None \<Rightarrow> ret None | Some (initial, nanos) \<Rightarrow> do {
       opn \<leftarrow> call (g_reads E p);
       case opn of None \<Rightarrow> ret None | Some rs \<Rightarrow> hash_opened E rs initial nanos })
      (\<lambda>r _. hashed E (disk (rn_world s) p) r) t"
  proof (cases meta)
    case (Some m)
    then show ?thesis
      by (cases m) (simp add: wp_bind, rule wp_mono [OF wp_reads [OF looks]], rule opened)
  qed (simp add: wp hashed_def)
qed

definition probed :: "'w sync_env \<Rightarrow> byte list option \<Rightarrow> Probe option \<Rightarrow> bool" where
  \<comment> \<open>a probe says what the file holds\<close>
  "probed E content r \<longleftrightarrow> (case r of None \<Rightarrow> True | Some q \<Rightarrow>
     (case content of None \<Rightarrow> \<not> pr_exists q
      | Some c \<Rightarrow> pr_exists q \<and> pr_hash q = sha_text E c \<and> pr_size q = int (length c)))"

lemma wp_attributes:
  assumes "observes E disk"
  shows "wp (call (g_attributes E p)) (\<lambda>r _. r = Absent \<longrightarrow> disk (rn_world s) p = None) s"
  using assms by (auto simp: wp_call observes_def split: prod.splits)

lemma wp_failed [wp]: "wp (failed code) Q s = wp (sy_fail code) (\<lambda>_. Q None) s"
  by (simp add: failed_def wp)

lemma wp_probe:
  assumes looks: "observes E disk"
  shows "wp (probe E p) (\<lambda>r _. probed E (disk (rn_world s) p) r) s"
  unfolding probe_def wp_bind
proof (rule wp_keeps [OF view_calls(1) [OF looks]], rule wp_mono [OF wp_attributes [OF looks]], rule impI)
  fix a t
  assume a: "a = Absent \<longrightarrow> disk (rn_world s) p = None" and t: "view disk t = view disk s"
  have file_there: "wp (do {
        v \<leftarrow> sync_hash_file E p;
        case v of
          Some (h, n, t) \<Rightarrow> ret (Some \<lparr>pr_exists = True, pr_hash = h, pr_size = n, pr_mtime = t\<rparr>)
        | None \<Rightarrow> do { cancelled \<leftarrow> sy_cancel E; failed (if cancelled then SYNC_CANCELLED else SYNC_PATH) } })
      (\<lambda>r _. probed E (disk (rn_world s) p) r) t"
    unfolding wp_bind
  proof (rule wp_mono [OF wp_hash_file [OF looks]])
    fix v u
    assume "hashed E (disk (rn_world t) p) v"
    then show "wp (case v of
          Some (h, n, t) \<Rightarrow> ret (Some \<lparr>pr_exists = True, pr_hash = h, pr_size = n, pr_mtime = t\<rparr>)
        | None \<Rightarrow> do { cancelled \<leftarrow> sy_cancel E; failed (if cancelled then SYNC_CANCELLED else SYNC_PATH) })
      (\<lambda>r _. probed E (disk (rn_world s) p) r) u"
    proof (cases v)
      case None
      then show ?thesis by (simp add: wp_bind) (rule wp_any, simp add: wp probed_def)
    next
      case (Some x)
      then show ?thesis using t \<open>hashed E (disk (rn_world t) p) v\<close>
        by (auto simp: wp probed_def hashed_def view_def split: option.splits)
    qed
  qed
  show "wp (case a of
       Absent \<Rightarrow> ret (Some absent_probe)
     | Unknown \<Rightarrow> failed SYNC_PATH
     | Kind _ _ \<Rightarrow> do {
         v \<leftarrow> sync_hash_file E p;
         case v of
           Some (h, n, t) \<Rightarrow> ret (Some \<lparr>pr_exists = True, pr_hash = h, pr_size = n, pr_mtime = t\<rparr>)
         | None \<Rightarrow> do { cancelled \<leftarrow> sy_cancel E; failed (if cancelled then SYNC_CANCELLED else SYNC_PATH) } })
      (\<lambda>r _. probed E (disk (rn_world s) p) r) t"
    using file_there a by (cases a) (auto simp: wp probed_def absent_probe_def view_def)
qed

subsection \<open>What is read of a manifest\<close>

definition json_text :: "'w sync_env \<Rightarrow> byte list \<Rightarrow> string \<Rightarrow> byte list option" where
  \<comment> \<open>the text at \<open>$.key\<close>\<close>
  "json_text E m key = json_column E (Option.bind (g_parse E m) (json_path [key]))"

lemma json_select_yields: "yields (\<lambda>v. v = None \<or> v = Option.bind (g_parse E m) (json_path path)) (json_select E m path)"
  unfolding json_select_def by (intro yields) auto

lemma json_string_yields: "yields (\<lambda>r. r = None \<or> r = json_text E m key) (sync_json_string E m [key])"
  unfolding sync_json_string_def json_text_def
  by (rule yields_then [OF json_select_yields]) (auto simp: json_column_def intro!: yields)

lemma json_strings_yields: "yields (\<lambda>vs. list_all2 (\<lambda>k r. r = None \<or> r = json_text E m k) ks vs) (json_strings E m ks)"
proof (induction ks)
  case (Cons k ks)
  show ?case
    by simp (intro yields_then [OF json_string_yields] yields_then [OF Cons.IH] yields, auto)
qed (simp add: yields)

definition version_path :: "'w sync_env \<Rightarrow> SyncRequest \<Rightarrow> byte list \<Rightarrow> wstr option" where
  \<comment> \<open>the file a relative path stands for\<close>
  "version_path E rq relative = map_option (map fold_separator) (Option.bind (sync_wide E relative SYNC_PATH_CAP)
     (\<lambda>name. if sync_relative_path (Some name) then sy_join (sp_directory (rq_pair rq)) name else None))"

lemma wp_target_path: "wp (target_path E relative) (\<lambda>r _. r = None \<or> r = version_path E (rn_request s) relative) s"
proof -
  have "wp (do { ok \<leftarrow> no_links E ps; if ok then ret (Some path) else failed SYNC_PATH }) (\<lambda>r _. r = None \<or> r = Some path) t" for ps path t
    unfolding wp_bind by (rule wp_any) (simp add: wp)
  then show ?thesis
    unfolding target_path_def wp_bind by (auto simp: wp version_path_def Let_def comp_def split: option.splits)
qed

end
