(* ===== verification/Sync_Safety.thy ===== *)
theory Sync_Safety
  imports Sync_Frames
begin

text \<open>
  What the synchronisation client and the server jobs guarantee: a failed job names a failure and every job
  clears the secrets it was given; the loops that exchange packets end; a file the user has changed is not
  replaced by a version that arrives; and what the comparison says of a path.
\<close>

subsection \<open>Failures are reported\<close>

lemma client_reports: "wp (client_steps E action) (\<lambda>ok s. ok \<or> sr_failure (rn_result s) \<noteq> SYNC_OK) s"
  unfolding client_steps_def wp_bind
  by (rule wp_any, rule wp_any, rule wp_any, rule wp_any, rule wp_any) (simp add: wp put_result_def)

lemma wp_src [wp]: "wp (src c) Q (s, other) = wp c (\<lambda>x t. Q x (t, other)) s"
  by (simp add: src_def wp_def split: prod.splits)

lemma server_reports: "wp (server_steps A B action) (\<lambda>ok s. ok \<or> sr_failure (rn_result (fst s)) \<noteq> SYNC_OK) s"
proof -
  have last: "wp (do {
       cancelled \<leftarrow> src (sy_cancel (ad_env A));
       src (put_result (\<lambda>r. r\<lparr>sr_failure := (if cancelled then SYNC_CANCELLED else SYNC_PROTOCOL)\<rparr>));
       ret False }) (\<lambda>ok s. ok \<or> sr_failure (rn_result (fst s)) \<noteq> SYNC_OK) s" for s
    unfolding wp_bind by (rule wp_any, rename_tac x t, case_tac t) (simp add: wp put_result_def)
  show ?thesis
    unfolding server_steps_def wp_bind
    by (rule wp_any, rule wp_any, rename_tac x t, case_tac t) (use last in \<open>auto simp: wp\<close>)
qed

text \<open>C21 (error): whatever the server, the files, the database and the network do, a job that fails names its failure
  in the result, and the secret of the login is cleared from the request, for a job of the server that of the
  target as well.\<close>

theorem job_reports_failure:
  "case sync_job_run A B action rq w of (ok, result, rq', _) \<Rightarrow>
     (if ok then True else sr_failure result \<noteq> SYNC_OK) \<and> lg_secret (rq_login rq') = []
     \<and> (if is_server_job action then lg_secret (rq_target_login rq') = [] else True)"
proof (cases "is_server_job action")
  case True
  then show ?thesis
    by (auto simp: sync_job_run_def sync_server_run_def clear_secrets_def Let_def dest: wpD [OF server_reports] split: prod.splits)
next
  case False
  then show ?thesis
    by (auto simp: sync_job_run_def sync_client_run_def dest: wpD [OF client_reports] split: prod.splits)
qed

subsection \<open>The upload of a chunk ends\<close>

lemma u64_nonneg: "0 \<le> u64 i" by (simp add: u64_def)

lemma wp_sy_fail [wp]: "wp (sy_fail code) Q s = Q False (s\<lparr>rn_result :=
    (if sr_failure (rn_result s) = SYNC_OK \<or> code = SYNC_CANCELLED then (rn_result s)\<lparr>sr_failure := code\<rparr> else rn_result s)\<rparr>)"
  by (simp add: sy_fail_def put_result_def wp)

lemma upload_step_bounds:
  "wp (upload_step E put path whole offset resets) (\<lambda>(ok, offset', resets') _. ok \<longrightarrow>
     0 \<le> offset' \<and> offset' \<le> whole \<and> resets \<le> resets' \<and> (resets < resets' \<longrightarrow> resets' \<le> 1)) s"
  unfolding upload_step_def wp_bind
proof (rule wp_any, rule wp_any, rule wp_any, rule wp_any)
  fix reply t
  show "wp (case reply of None \<Rightarrow> ret (False, offset, resets)
     | Some r \<Rightarrow> do {
         next_offset \<leftarrow> sync_json_int E (rp_json r) [''offset''] (-1);
         let offset = u64 next_offset;
         mismatch \<leftarrow> sync_json_int E (rp_json r) [''hash_mismatch''] 0;
         let resets = (if mismatch \<noteq> 0 then Suc resets else resets);
         ok \<leftarrow> (if mismatch \<noteq> 0 \<and> resets > 1 then sy_fail SYNC_CACHE else ret True);
         ok \<leftarrow> (if offset > whole then sy_fail SYNC_PROTOCOL else ret ok);
         ret (ok, offset, resets) }) (\<lambda>(ok, offset', resets') _. ok \<longrightarrow>
     0 \<le> offset' \<and> offset' \<le> whole \<and> resets \<le> resets' \<and> (resets < resets' \<longrightarrow> resets' \<le> 1)) t"
    by (cases reply) (simp_all add: wp Let_def wp_any wp_sy_fail u64_nonneg)
qed

definition server_advances :: "'w sync_env \<Rightarrow> byte list \<Rightarrow> wstr \<Rightarrow> int \<Rightarrow> bool" where
  \<comment> \<open>every answer that is accepted names a later offset or reports that the bytes had another hash\<close>
  "server_advances E put path whole \<longleftrightarrow> (\<forall>offset resets s offset' resets' s'.
     0 \<le> offset \<longrightarrow> offset < whole \<longrightarrow> run_state (upload_step E put path whole offset resets) s = ((True, offset', resets'), s') \<longrightarrow>
     offset < offset' \<or> resets < resets')"

lemma upload_loop_done: "\<not> ok \<or> whole \<le> offset \<Longrightarrow> upload_loop E put path whole ok offset resets s = Some (ok, s)"
  by (subst upload_loop.simps) simp

text \<open>C22 (termination): the upload of a chunk ends, from any offset and in any state, when each answer of the server that
  is accepted names a later offset or reports another hash: a second report ends it, so the number of packets is
  bounded although one report may send it back to the start.\<close>

theorem upload_ends:
  assumes adv: "server_advances E put path whole" and "0 \<le> offset"
  shows "\<exists>r. upload_loop E put path whole ok offset resets s = Some r"
  using assms(2)
proof (induction "(2 - resets, nat (whole - offset))" arbitrary: ok offset resets s
    rule: wf_induct_rule [OF wf_lex_prod [OF wf_less_than wf_less_than]])
  case 1
  show ?case
  proof (cases "\<not> ok \<or> whole \<le> offset")
    case True
    then show ?thesis by (simp add: upload_loop_done)
  next
    case False
    obtain c t where c: "run_state (sy_cancel E) s = (c, t)" by fastforce
    obtain ok' offset' resets' u where u: "run_state (upload_step E put path whole offset resets) t = ((ok', offset', resets'), u)"
      by (metis prod.exhaust)
    have "\<exists>r. upload_loop E put path whole ok' offset' resets' u = Some r"
    proof (cases ok')
      case True
      with u have b: "0 \<le> offset'" "resets \<le> resets'" "resets < resets' \<longrightarrow> resets' \<le> 1"
        using wpD [OF upload_step_bounds u] by auto
      have "offset < offset' \<or> resets < resets'"
        using adv False u True 1(2) unfolding server_advances_def by (metis not_le)
      with b False have "((2 - resets', nat (whole - offset')), (2 - resets, nat (whole - offset))) \<in> less_than <*lex*> less_than"
        by auto
      then show ?thesis using 1(1) b(1) by blast
    qed (use upload_loop_done in blast)
    with False c u show ?thesis by (subst upload_loop.simps) auto
  qed
qed

lemma demo_advances: "server_advances (demo_env []) put path 8"
proof -
  have "wp (upload_step (demo_env []) put path 8 offset resets) (\<lambda>(ok, offset', _) _. ok \<longrightarrow> offset' = 8) s" for offset resets s
    unfolding upload_step_def wp_bind
  proof (rule wp_any, rule wp_any, rule wp_any, rule wp_any)
    fix reply t
    show "wp (case reply of None \<Rightarrow> ret (False, offset, resets)
       | Some r \<Rightarrow> do {
           next_offset \<leftarrow> sync_json_int (demo_env []) (rp_json r) [''offset''] (-1);
           let offset = u64 next_offset;
           mismatch \<leftarrow> sync_json_int (demo_env []) (rp_json r) [''hash_mismatch''] 0;
           let resets = (if mismatch \<noteq> 0 then Suc resets else resets);
           ok \<leftarrow> (if mismatch \<noteq> 0 \<and> resets > 1 then sy_fail SYNC_CACHE else ret True);
           ok \<leftarrow> (if offset > 8 then sy_fail SYNC_PROTOCOL else ret ok);
           ret (ok, offset, resets) }) (\<lambda>(ok, offset', _) _. ok \<longrightarrow> offset' = 8) t"
      by (cases reply) (auto simp: wp Let_def u64_def intro!: wp_any wp_mono [OF demo_int])
  qed
  from wpD [OF this] show ?thesis by (fastforce simp: server_advances_def)
qed

theorem upload_ends_witness:
  "server_advances (demo_env []) (C ''put'') (W ''p'') 8
   \<and> (\<exists>r. upload_loop (demo_env []) (C ''put'') (W ''p'') 8 True 0 0 (start_run demo_request (\<lambda>_. None)) = Some r)"
  using upload_ends [OF demo_advances, of 0] demo_advances by blast

lemma stalled_upload_does_not_end:
  \<comment> \<open>and a server whose answers name the same offset again and again holds the client in the loop\<close>
  assumes stall: "\<And>s. run_state (sy_cancel E) s = (False, s)
      \<and> run_state (upload_step E put path whole offset resets) s = ((True, offset, resets), s)"
    and "offset < whole"
  shows "upload_loop E put path whole True offset resets s = None"
proof (rule ccontr)
  have never: "upload_loop e p q w k i j t = Some y \<Longrightarrow>
      \<not> (e = E \<and> p = put \<and> q = path \<and> w = whole \<and> k \<and> i = offset \<and> j = resets)" for e p q w k i j t y
    proof (erule upload_loop.raw_induct [rotated])
    fix loop e p q w k i j t y
    assume ih: "\<And>e p q w k i j t y. loop e p q w k i j t = Some y \<Longrightarrow>
        \<not> (e = E \<and> p = put \<and> q = path \<and> w = whole \<and> k \<and> i = offset \<and> j = resets)"
      and eq: "(if \<not> k \<or> w \<le> i then Some (k, t)
        else case run_state (sy_cancel e) t of (cancelled, s) \<Rightarrow> if cancelled then Some (k, s)
          else (case run_state (upload_step e p q w i j) s of ((ok, offset, resets), s) \<Rightarrow> loop e p q w ok offset resets s)) = Some y"
    show "\<not> (e = E \<and> p = put \<and> q = path \<and> w = whole \<and> k \<and> i = offset \<and> j = resets)"
      using eq ih [of E put path whole True offset resets t y] stall [of t] assms(2) by auto
  qed
  assume "upload_loop E put path whole True offset resets s \<noteq> None"
  then obtain y where "upload_loop E put path whole True offset resets s = Some y" by blast
  from never [OF this] show False by simp
qed

subsection \<open>An edited file is not replaced\<close>

definition edited :: "'w sync_env \<Rightarrow> ('w \<Rightarrow> wstr \<Rightarrow> byte list option) \<Rightarrow> 'w Run \<Rightarrow> byte list \<Rightarrow> bool" where
  \<comment> \<open>the file of the arriving version has content that is neither that version nor one this receiver was given\<close>
  "edited E disk s m \<longleftrightarrow> (case Option.bind (json_text E m ''path'') (version_path E (rn_request s)) of
     None \<Rightarrow> False
   | Some p \<Rightarrow> (case disk (rn_world s) p of
       None \<Rightarrow> False
     | Some c \<Rightarrow> json_text E m ''sha256'' \<noteq> Some (sha_text E c)
         \<and> list_all (\<lambda>r. json_text E (fr_manifest r) ''sha256'' \<noteq> Some (sha_text E c)) (ix_files (rn_index s))))"

lemma view_verified [keeps]: "observes E disk \<Longrightarrow> keeps (view disk) (receive_verified E m h)"
  unfolding receive_verified_def by (intro keeps)

lemma verified_yields: "yields (\<lambda>r. r = None \<or> r = Some (m, h)) (receive_verified E (Some m) (Some h))"
  unfolding receive_verified_def failed_def by (auto intro!: yields)

lemma view_known [keeps]: "observes E disk \<Longrightarrow> keeps (view disk) (receive_known E i)"
  unfolding receive_known_def by (intro keeps)

definition arrived :: "'w sync_env \<Rightarrow> SyncRequest \<Rightarrow> Index \<Rightarrow> byte list \<Rightarrow> Incoming \<Rightarrow> bool" where
  "arrived E rq d m i \<longleftrightarrow> ic_resolving i = is_resolving E rq (ic_relative i)
     \<and> ic_expected i \<in> {None, json_text E m ''sha256''}
     \<and> Some (ic_path i) = Option.bind (json_text E m ''path'') (version_path E rq)
     \<and> (case ic_phase i of None \<Rightarrow> True | Some f \<Rightarrow> list_ex (\<lambda>r. ib_phase r = f) (ix_inbox d))"

lemma view_incoming [keeps]: "observes E disk \<Longrightarrow> keeps (view disk) (receive_incoming E v ident dataset relative key kind expected parent)"
  unfolding receive_incoming_def by (intro keeps)

lemma view_fields [keeps]: "observes E disk \<Longrightarrow> keeps (view disk) (receive_fields E m h)"
  unfolding receive_fields_def by (auto intro!: keeps split: list.splits)

lemma wp_query: "wp (sy_query E f) (\<lambda>q _. q = None \<or> q = f (rn_index s)) s"
  unfolding sy_query_def by (auto simp: wp wp_call wp_any split: prod.splits)

lemma find_phase: "q = None \<or> q = inbox_phase ident d \<Longrightarrow> case q of None \<Rightarrow> True | Some f \<Rightarrow> list_ex (\<lambda>r. ib_phase r = f) (ix_inbox d)"
  by (cases "find (\<lambda>r. ib_id r = ident) (ix_inbox d)")
    (auto simp: inbox_phase_def find_Some_iff list_ex_iff intro: bexI [OF _ nth_mem])

lemma wp_incoming:
  assumes looks: "observes E disk" and "json_text E m ''path'' = Some relative" and "expected \<in> {None, json_text E m ''sha256''}"
  shows "wp (receive_incoming E v ident dataset relative key kind expected parent)
    (\<lambda>r _. case r of None \<Rightarrow> True | Some i \<Rightarrow> arrived E (rn_request s) (rn_index s) m i) s"
  unfolding receive_incoming_def wp_bind wp_gets
proof (rule wp_keeps [OF view_target_path [OF looks]], rule wp_mono [OF wp_target_path], rule impI)
  fix p t
  assume p: "p = None \<or> p = version_path E (rn_request s) relative" and t: "view disk t = view disk s"
  show "wp (case p of None \<Rightarrow> ret None | Some path \<Rightarrow> do {
       phase \<leftarrow> sy_query E (inbox_phase ident);
       ret (Some \<lparr>ic_manifest = fst v, ic_mhash = snd v, ic_id = ident, ic_dataset = dataset, ic_relative = relative, ic_key = key,
         ic_kind = kind, ic_expected = expected, ic_parent = parent, ic_path = path, ic_phase = phase,
         ic_resolving = is_resolving E (rn_request s) relative\<rparr>) })
     (\<lambda>r _. case r of None \<Rightarrow> True | Some i \<Rightarrow> arrived E (rn_request s) (rn_index s) m i) t"
  proof (cases p)
    case (Some path)
    with p assms have "arrived E (rn_request s) (rn_index s) m \<lparr>ic_manifest = fst v, ic_mhash = snd v, ic_id = ident, ic_dataset = dataset,
        ic_relative = relative, ic_key = key, ic_kind = kind, ic_expected = expected, ic_parent = parent, ic_path = path,
        ic_phase = phase, ic_resolving = is_resolving E (rn_request s) relative\<rparr>"
      if "phase = None \<or> phase = inbox_phase ident (rn_index t)" for phase
      using t find_phase [OF that] by (auto simp add: arrived_def view_def split: option.splits)
    then show ?thesis unfolding Some option.case wp_bind by - (rule wp_mono [OF wp_query], simp add: wp)
  qed (simp add: wp)
qed

lemma field_names:
  "list_all2 (\<lambda>k r. r = None \<or> r = f k) [''id'', ''dataset'', ''path'', ''path_key'', ''kind'', ''sha256'', ''parent'']
     [Some ident, Some dataset, Some relative, Some key, Some kind, expected, parent]
   \<Longrightarrow> f ''path'' = Some relative \<and> expected \<in> {None, f ''sha256''}"
  by auto

lemma wp_fields:
  assumes looks: "observes E disk"
  shows "wp (receive_fields E m h) (\<lambda>r _. case r of None \<Rightarrow> True | Some i \<Rightarrow> arrived E (rn_request s) (rn_index s) m i) s"
  unfolding receive_fields_def wp_bind
proof (rule wp_keeps [OF view_strings [OF looks]], rule wp_yields [OF json_strings_yields], rule wp_any, (rule impI)+)
  let ?Q = "\<lambda>r _. case r of None \<Rightarrow> True | Some i \<Rightarrow> arrived E (rn_request s) (rn_index s) m i"
  fix vs t
  assume vs: "list_all2 (\<lambda>k r. r = None \<or> r = json_text E m k)
      [''id'', ''dataset'', ''path'', ''path_key'', ''kind'', ''sha256'', ''parent''] vs" and t: "view disk t = view disk s"
  then have rq: "rn_request t = rn_request s" "rn_index t = rn_index s" by (simp_all add: view_def)
  have incoming: "wp (receive_incoming E (m, h) ident dataset relative key kind expected parent) ?Q t"
    if "vs = [Some ident, Some dataset, Some relative, Some key, Some kind, expected, parent]"
    for ident dataset relative key kind expected parent
    using wp_incoming [OF looks, of m relative expected "(m, h)" ident dataset key kind parent t] field_names [OF vs [unfolded that]]
    unfolding rq by simp
  show "wp (gets rn_request) (\<lambda>rq. wp (case vs of
       [Some ident, Some dataset, Some relative, Some key, Some kind, expected, parent] \<Rightarrow>
         if sync_utf8 E (sp_dataset (rq_pair rq)) \<noteq> Some dataset then ret None
         else receive_incoming E (m, h) ident dataset relative key kind expected parent
     | _ \<Rightarrow> ret None) ?Q) t"
    by (auto simp: wp intro: incoming split: list.splits option.splits)
qed

lemma wp_known:
  "wp (receive_known E i) (\<lambda>k _. case kn_hash k of None \<Rightarrow> True
     | Some h \<Rightarrow> list_ex (\<lambda>r. json_text E (fr_manifest r) ''sha256'' = Some h) (ix_files (rn_index s))) s"
  unfolding receive_known_def wp_bind
proof (rule wp_mono)
  show "wp (sy_query E (file_manifest (ic_dataset i) (ic_key i)))
     (\<lambda>q t. case q of None \<Rightarrow> True | Some m \<Rightarrow> list_ex (\<lambda>r. fr_manifest r = m) (ix_files (rn_index s))) s"
    by (rule wp_mono [OF wp_query]) (auto 4 4 simp: file_manifest_def list_ex_iff dest!: sym [of "Some _"] find_Some_iff [THEN iffD1] nth_mem split: option.splits)
  fix q t
  assume q: "case q of None \<Rightarrow> True | Some m \<Rightarrow> list_ex (\<lambda>r. fr_manifest r = m) (ix_files (rn_index s))"
  have hash: "wp (do { hash \<leftarrow> sync_json_string E m [''sha256'']; ret \<lparr>kn_manifest = Some m, kn_id = ident, kn_hash = hash\<rparr> })
     (\<lambda>k _. case kn_hash k of None \<Rightarrow> True
       | Some h \<Rightarrow> list_ex (\<lambda>r. json_text E (fr_manifest r) ''sha256'' = Some h) (ix_files (rn_index s))) u"
    if "list_ex (\<lambda>r. fr_manifest r = m) (ix_files (rn_index s))" for m ident u
    unfolding wp_bind
    by (rule wp_yields [OF json_string_yields], rule wp_any) (use that in \<open>auto simp: wp list_ex_iff split: option.splits\<close>)
  show "wp (case q of None \<Rightarrow> ret \<lparr>kn_manifest = None, kn_id = None, kn_hash = None\<rparr>
     | Some m \<Rightarrow> do {
         ident \<leftarrow> sync_json_string E m [''id''];
         hash \<leftarrow> sync_json_string E m [''sha256''];
         ret \<lparr>kn_manifest = Some m, kn_id = ident, kn_hash = hash\<rparr> }) (\<lambda>k _. case kn_hash k of None \<Rightarrow> True
     | Some h \<Rightarrow> list_ex (\<lambda>r. json_text E (fr_manifest r) ''sha256'' = Some h) (ix_files (rn_index s))) t"
  proof (cases q)
    case (Some m)
    then show ?thesis using q unfolding Some option.case
      by (subst wp_bind, intro wp_any hash) simp
  qed (simp add: wp)
qed

lemma seed_refuses:
  assumes "\<not> ic_resolving i" "pr_exists p \<and> \<not> is_adopted i whole p \<and> \<not> is_known k p"
  shows "receive_seed E i whole k p = failed SYNC_CONFLICT"
  using assms by (auto simp: receive_seed_def Let_def is_already_def)

lemma edited_refuses:
  assumes "edited E disk s m" and "arrived E (rn_request s) (rn_index s) m i"
    and k: "case kn_hash k of None \<Rightarrow> True
       | Some h \<Rightarrow> list_ex (\<lambda>r. json_text E (fr_manifest r) ''sha256'' = Some h) (ix_files (rn_index s))"
    and p: "probed E (disk (rn_world s) (ic_path i)) (Some p)"
  shows "pr_exists p \<and> \<not> is_adopted i whole p \<and> \<not> is_known k p"
proof -
  from assms(2) have path: "Option.bind (json_text E m ''path'') (version_path E (rn_request s)) = Some (ic_path i)"
    and expected: "ic_expected i \<in> {None, json_text E m ''sha256''}" by (simp_all add: arrived_def)
  from assms(1) path obtain c where c: "disk (rn_world s) (ic_path i) = Some c" "json_text E m ''sha256'' \<noteq> Some (sha_text E c)"
    "list_all (\<lambda>r. json_text E (fr_manifest r) ''sha256'' \<noteq> Some (sha_text E c)) (ix_files (rn_index s))"
    by (auto simp: edited_def split: option.splits)
  with p have "pr_exists p" "pr_hash p = sha_text E c" by (simp_all add: probed_def)
  with c expected k show ?thesis
    by (auto simp: is_adopted_def is_known_def list_all_iff list_ex_iff split: option.splits)
qed

lemma view_edited: "view disk t = view disk s \<Longrightarrow> edited E disk t m = edited E disk s m"
  by (simp add: view_def edited_def cong: option.case_cong)

lemma wp_refuse: "view disk t = v \<Longrightarrow> wp (failed code) (\<lambda>r u. r = None \<and> view disk u = v) t"
  by (auto simp: wp_failed wp_sy_fail view_def)

lemma checked_refuses:
  assumes looks: "observes E disk" and e: "edited E disk s m" and i: "arrived E (rn_request s) (rn_index s) m i"
    and free: "\<not> ic_resolving i"
  shows "wp (receive_checked E i) (\<lambda>r t. r = None \<and> view disk t = view disk s) s"
  unfolding receive_checked_def wp_bind
proof (rule wp_keeps [OF view_known [OF looks]], rule wp_mono [OF wp_known], rule impI)
  fix k :: Known and t
  assume k: "case kn_hash k of None \<Rightarrow> True
      | Some h \<Rightarrow> list_ex (\<lambda>r. json_text E (fr_manifest r) ''sha256'' = Some h) (ix_files (rn_index s))"
    and t: "view disk t = view disk s"
  let ?Q = "\<lambda>r t. r = None \<and> view disk t = view disk s"
  have checked: "wp (do {
       q \<leftarrow> probe E (ic_path i);
       accepted \<leftarrow> gets rn_accepted_local;
       case q of None \<Rightarrow> ret None | Some p \<Rightarrow>
         if ic_resolving i \<and> \<not> is_version p accepted then failed SYNC_CONFLICT
         else do {
           already \<leftarrow> receive_seed E i whole k p;
           ret (map_option (\<lambda>a. (whole, p, a)) already) } }) ?Q u" if u: "view disk u = view disk s" for whole u
    unfolding wp_bind
  proof (rule wp_keeps [OF view_probe [OF looks]], rule wp_mono [OF wp_probe [OF looks]], rule impI)
    fix q v
    assume q: "probed E (disk (rn_world u) (ic_path i)) q" and v: "view disk v = view disk u"
    have "receive_seed E i whole k p = failed SYNC_CONFLICT" if "q = Some p" for p
      by (rule seed_refuses [OF free edited_refuses [OF e i k]]) (use q u that in \<open>simp add: view_def\<close>)
    then show "wp (gets rn_accepted_local) (\<lambda>accepted. wp (case q of None \<Rightarrow> ret None | Some p \<Rightarrow>
         if ic_resolving i \<and> \<not> is_version p accepted then failed SYNC_CONFLICT
         else do {
           already \<leftarrow> receive_seed E i whole k p;
           ret (map_option (\<lambda>a. (whole, p, a)) already) }) ?Q) v"
      using u v free by (auto simp: wp wp_refuse view_def split: option.splits)
  qed
  show "wp (if \<not> (ic_resolving i \<or> ic_parent i = kn_id k) then failed SYNC_CONFLICT
     else do {
       n \<leftarrow> sync_json_int E (ic_manifest i) [''size''] (-1);
       let whole = u64 n;
       q \<leftarrow> probe E (ic_path i);
       accepted \<leftarrow> gets rn_accepted_local;
       case q of None \<Rightarrow> ret None | Some p \<Rightarrow>
         if ic_resolving i \<and> \<not> is_version p accepted then failed SYNC_CONFLICT
         else do {
           already \<leftarrow> receive_seed E i whole k p;
           ret (map_option (\<lambda>a. (whole, p, a)) already) } }) ?Q t"
  proof (cases "ic_resolving i \<or> ic_parent i = kn_id k")
    case True
    show ?thesis
      unfolding eqTrueI [OF True] simp_thms if_False
      by (subst wp_bind, rule wp_keeps [OF view_json(3) [OF looks]], rule wp_any) (use checked t in \<open>simp add: Let_def\<close>)
  qed (use t in \<open>simp add: wp_refuse\<close>)
qed

lemma resolving_free: "rq_resolution rq = 0 \<Longrightarrow> arrived E rq d m i \<Longrightarrow> \<not> ic_resolving i"
  by (simp add: arrived_def is_resolving_def)

definition was_applied :: "'w Run \<Rightarrow> bool" where
  "was_applied s \<longleftrightarrow> list_ex (\<lambda>r. ib_phase r = C ''APPLIED'') (ix_inbox (rn_index s))"

lemma version_refuses:
  assumes looks: "observes E disk" and e: "edited E disk s m" and i: "arrived E (rn_request s) (rn_index s) m i"
    and free: "\<not> ic_resolving i"
  shows "wp (receive_version E i) (\<lambda>ok t. disk (rn_world t) = disk (rn_world s) \<and> (ok \<longrightarrow> was_applied s)) s"
proof (cases "ic_phase i = Some (C ''APPLIED'')")
  case True
  then have a: "was_applied s" using i by (simp add: arrived_def was_applied_def)
  show ?thesis unfolding receive_version_def eqTrueI [OF True] if_True
    by (rule wp_keeps [OF files_acknowledge [OF looks]], rule wp_any) (simp add: files_of_def a)
next
  case False
  have "wp (do {
       c \<leftarrow> receive_checked E i;
       case c of None \<Rightarrow> ret False | Some (whole, p, already) \<Rightarrow> do {
         ok \<leftarrow> receive_download E i;
         ok \<leftarrow> (if ok then receive_apply E i whole p already else ret False);
         (if ok then receive_finish E i whole else ret False) } })
     (\<lambda>ok t. disk (rn_world t) = disk (rn_world s) \<and> (ok \<longrightarrow> was_applied s)) s"
    by (subst wp_bind, rule wp_mono [OF checked_refuses [OF looks e i free]]) (auto simp: wp view_def)
  with False show ?thesis by (simp only: receive_version_def if_False)
qed

lemma fields_refuse:
  assumes looks: "observes E disk" and none: "rq_resolution (rn_request s) = 0" and e: "edited E disk s m"
    and v: "v = None \<or> v = Some (m, h)"
  shows "wp (do {
       inc \<leftarrow> (case v of None \<Rightarrow> ret None | Some (m, h) \<Rightarrow> receive_fields E m h);
       case inc of None \<Rightarrow> ret False | Some i \<Rightarrow> receive_version E i })
     (\<lambda>ok t. disk (rn_world t) = disk (rn_world s) \<and> (ok \<longrightarrow> was_applied s)) s"
proof (cases v)
  case (Some x)
  with v have x: "x = (m, h)" by simp
  show ?thesis
    unfolding Some x option.case prod.case
  proof (subst wp_bind, rule wp_keeps [OF view_fields [OF looks]], rule wp_mono [OF wp_fields [OF looks]], rule impI)
    fix inc t
    assume inc: "case inc of None \<Rightarrow> True | Some i \<Rightarrow> arrived E (rn_request s) (rn_index s) m i"
      and t: "view disk t = view disk s"
    have e': "edited E disk t m" and r: "rn_request t = rn_request s" "rn_index t = rn_index s"
      and d: "disk (rn_world t) = disk (rn_world s)" and a: "was_applied t = was_applied s"
      using e t view_edited [OF t] by (simp_all add: view_def was_applied_def)
    show "wp (case inc of None \<Rightarrow> ret False | Some i \<Rightarrow> receive_version E i)
       (\<lambda>ok t. disk (rn_world t) = disk (rn_world s) \<and> (ok \<longrightarrow> was_applied s)) t"
    proof (cases inc)
      case (Some i)
      with inc have i: "arrived E (rn_request s) (rn_index s) m i" by simp
      from version_refuses [OF looks e' i [folded r] resolving_free [OF none i]]
      show ?thesis unfolding Some option.case d a .
    qed (simp add: wp d)
  qed
qed (simp add: wp)


definition demo_texts :: "(byte list \<times> json) list" where
  "demo_texts = [(C ''m'', JObject [(W ''path'', JText (W ''a.txt'')), (W ''sha256'', JText (W ''other''))])]"

lemma demo_observes: "observes (demo_env t) (\<lambda>d. d)"
  by (auto simp: observes_def split: option.splits)

definition demo_run :: "disk Run" where
  "demo_run = start_run demo_request (\<lambda>_. Some [1])"

lemma demo_no_choice: "rq_resolution (rn_request demo_run) = 0"
  by (simp add: demo_run_def start_run_def demo_request_def)

lemma demo_fields:
  "json_text (demo_env demo_texts) (C ''m'') ''path'' = Some (C ''a.txt'')"
  "json_text (demo_env demo_texts) (C ''m'') ''sha256'' = Some (C ''other'')"
proof -
  have parts: "0 \<notin> set (W ''a.txt'')" "0 \<notin> set (W ''other'')" "utf8 (W ''a.txt'') = C ''a.txt''" "utf8 (W ''other'') = C ''other''"
    by code_simp+
  show "json_text (demo_env demo_texts) (C ''m'') ''path'' = Some (C ''a.txt'')"
    "json_text (demo_env demo_texts) (C ''m'') ''sha256'' = Some (C ''other'')"
    using parts by (simp_all add: json_text_def demo_texts_def demo_parse_def json_path_def member_of_def json_column_def)
qed

lemma demo_path: "version_path (demo_env demo_texts) demo_request (C ''a.txt'') \<noteq> None"
proof -
  have wide: "ascii_wide (C ''a.txt'') = W ''a.txt''" by code_simp
  have ok: "sync_relative_path (Some (W ''a.txt''))" by code_simp
  have len: "length (W s) = length s" for s by (simp add: W_def)
  show ?thesis
    by (simp add: version_path_def sync_wide_def wide ok sy_join_def demo_request_def len SYNC_PATH_CAP_def)
qed

lemma hex_length: "length (hex_of bs) = 2 * length bs"
  by (induction bs) (simp_all add: hex_of_def)

lemma demo_sha: "sha_text (demo_env demo_texts) [1] \<noteq> C ''other''"
proof
  assume "sha_text (demo_env demo_texts) [1] = C ''other''"
  then have "length (sha_text (demo_env demo_texts) [1]) = length (C ''other'')" by simp
  moreover have "length (C ''other'') = 5" by code_simp
  ultimately show False by (simp add: sha_text_def hex_length)
qed

lemma demo_edited: "edited (demo_env demo_texts) (\<lambda>d. d) demo_run (C ''m'')"
proof -
  from demo_path obtain p where "version_path (demo_env demo_texts) demo_request (C ''a.txt'') = Some p" by blast
  with demo_sha show ?thesis
    by (simp add: edited_def demo_fields demo_run_def start_run_def empty_index_def not_sym [OF demo_sha])
qed


end
