(* ===== verification/App_Log.thy ===== *)
theory App_Log
  imports Sync_Json Effects
begin

text \<open>
  \<open>src/src/platform/app_log.c\<close>: the log file, its rotation and the spans of operations. The calls of Windows are
  parameters on an unknown world that holds the last error too; the text of a record, its limits and its control
  characters are modelled, the exclusive lock is not, since every function holds it from its first access of the
  paths to its last. A formatted message is a parameter: \<open>None\<close> when \<open>vswprintf\<close> does not fit.
\<close>

datatype NovaLogLevel = NOVA_LOG_INFO | NOVA_LOG_WARN | NOVA_LOG_ERROR

record NovaLogSpan =
  ls_id :: int
  ls_started :: int
  ls_component :: "byte list"
  ls_action :: "byte list"

definition LOG_PATH_CAP :: nat where "LOG_PATH_CAP = 2048"
definition LOG_LIMIT :: nat where "LOG_LIMIT = 2 * 1024 * 1024"

datatype log_file = LogAbsent | LogFailed | LogFile bool bool  \<comment> \<open>\<open>ERROR_FILE_NOT_FOUND\<close>; a directory, a reparse point\<close>

record system_time =
  st_year :: nat
  st_month :: nat
  st_day :: nat
  st_hour :: nat
  st_minute :: nat
  st_second :: nat
  st_milliseconds :: nat

record 'w log_env =
  k_last_error :: "'w \<Rightarrow> int"
  k_set_error :: "int \<Rightarrow> 'w \<Rightarrow> 'w"
  k_attributes :: "wstr \<Rightarrow> 'w \<Rightarrow> log_file \<times> 'w"
  k_create_directory :: "wstr \<Rightarrow> 'w \<Rightarrow> bool \<times> 'w"      \<comment> \<open>created, or \<open>ERROR_ALREADY_EXISTS\<close>\<close>
  k_open_always :: "wstr \<Rightarrow> 'w \<Rightarrow> bool \<times> 'w"
  k_size :: "wstr \<Rightarrow> 'w \<Rightarrow> nat option \<times> 'w"
  k_move :: "wstr \<Rightarrow> wstr \<Rightarrow> 'w \<Rightarrow> bool \<times> 'w"           \<comment> \<open>\<open>MOVEFILE_REPLACE_EXISTING\<close>\<close>
  k_create_new :: "wstr \<Rightarrow> 'w \<Rightarrow> bool \<times> 'w"
  k_seek_end :: "wstr \<Rightarrow> 'w \<Rightarrow> bool \<times> 'w"
  k_append :: "wstr \<Rightarrow> byte list \<Rightarrow> 'w \<Rightarrow> bool \<times> 'w"     \<comment> \<open>\<open>WriteFile\<close> of all the bytes\<close>
  k_flush :: "wstr \<Rightarrow> 'w \<Rightarrow> 'w"
  k_now :: "'w \<Rightarrow> system_time \<times> 'w"
  k_ticks :: "'w \<Rightarrow> int \<times> 'w"
  k_process :: nat
  k_thread :: nat
  k_narrow :: "wstr \<Rightarrow> byte list option"                \<comment> \<open>\<open>WC_ERR_INVALID_CHARS\<close>\<close>

record 'w Log =
  al_world :: 'w
  al_path :: wstr
  al_backup :: wstr
  al_sequence :: int

type_synonym ('w, 'a) log_cmd = "('w Log, 'a) state"

definition log_call :: "('w \<Rightarrow> 'a \<times> 'w) \<Rightarrow> ('w, 'a) log_cmd" where
  "log_call f = State (\<lambda>s. case f (al_world s) of (r, w) \<Rightarrow> (r, s\<lparr>al_world := w\<rparr>))"

definition last_error :: "'w log_env \<Rightarrow> ('w, int) log_cmd" where
  "last_error E = gets (k_last_error E \<circ> al_world)"

definition set_last_error :: "'w log_env \<Rightarrow> int \<Rightarrow> ('w, unit) log_cmd" where
  "set_last_error E e = modify (\<lambda>s. s\<lparr>al_world := k_set_error E e (al_world s)\<rparr>)"

definition plain_file :: "'w log_env \<Rightarrow> wstr \<Rightarrow> ('w, bool) log_cmd" where
  "plain_file E path = do {
     a \<leftarrow> log_call (k_attributes E path);
     ret (case a of LogAbsent \<Rightarrow> True | LogFailed \<Rightarrow> False | LogFile d reparse \<Rightarrow> \<not> (d \<or> reparse)) }"

definition set_log_paths :: "wstr \<Rightarrow> wstr \<Rightarrow> ('w, unit) log_cmd" where
  "set_log_paths path backup = modify (\<lambda>s. s\<lparr>al_path := path, al_backup := backup\<rparr>)"

definition log_paths :: "'w log_env \<Rightarrow> wstr \<Rightarrow> ('w, bool) log_cmd" where
  \<comment> \<open>the branch of a directory that is short enough\<close>
  "log_paths E directory = do {
     let folder = directory @ [92] @ W ''logs'';
     made \<leftarrow> log_call (k_create_directory E folder);
     if \<not> made then ret False
     else do {
       a \<leftarrow> log_call (k_attributes E folder);
       case a of
         LogFile True False \<Rightarrow> do {
           set_log_paths (folder @ [92] @ W ''nova.log'') (folder @ [92] @ W ''nova.previous.log'');
           path \<leftarrow> gets al_path;
           backup \<leftarrow> gets al_backup;
           and_then (plain_file E path) (plain_file E backup) }
       | _ \<Rightarrow> ret False } }"

definition nova_log_init :: "'w log_env \<Rightarrow> wstr option \<Rightarrow> ('w, bool) log_cmd" where
  "nova_log_init E directory = do {
     saved \<leftarrow> last_error E;
     set_log_paths [] [];
     ok \<leftarrow> (case directory of None \<Rightarrow> ret False
       | Some d \<Rightarrow> if d \<noteq> [] \<and> length d < LOG_PATH_CAP - 32 then log_paths E d else ret False);
     (if ok then ret () else set_log_paths [] []);
     set_last_error E saved;
     ret ok }"

definition nova_log_close :: "'w log_env \<Rightarrow> ('w, unit) log_cmd" where
  "nova_log_close E = do {
     saved \<leftarrow> last_error E;
     set_log_paths [] [];
     set_last_error E saved }"

definition single_line :: "byte list \<Rightarrow> byte list" where
  "single_line s = map (\<lambda>c. if c < 32 \<or> c = 127 then 32 else c) s"

definition padded :: "nat \<Rightarrow> nat \<Rightarrow> byte list" where
  \<comment> \<open>\<open>%0nu\<close>\<close>
  "padded n v = (let d = digits_of v in replicate (n - length d) 48 @ d)"

definition log_message :: "wstr option \<Rightarrow> wstr" where
  "log_message formatted = (case formatted of None \<Rightarrow> W ''record_truncated=1'' | Some m \<Rightarrow> m)"

definition log_severity :: "NovaLogLevel \<Rightarrow> byte list" where
  "log_severity level = (case level of NOVA_LOG_ERROR \<Rightarrow> C ''ERROR'' | NOVA_LOG_WARN \<Rightarrow> C ''WARN'' | NOVA_LOG_INFO \<Rightarrow> C ''INFO'')"

definition log_time :: "system_time \<Rightarrow> byte list" where
  "log_time t = padded 4 (st_year t) @ C ''-'' @ padded 2 (st_month t) @ C ''-'' @ padded 2 (st_day t) @ C ''T''
     @ padded 2 (st_hour t) @ C '':'' @ padded 2 (st_minute t) @ C '':'' @ padded 2 (st_second t) @ C ''.''
     @ padded 3 (st_milliseconds t) @ C ''Z''"

definition log_record ::
    "'w log_env \<Rightarrow> NovaLogLevel \<Rightarrow> byte list option \<Rightarrow> byte list option \<Rightarrow> byte list \<Rightarrow> system_time \<Rightarrow> byte list" where
  \<comment> \<open>component and event are cut to their buffers\<close>
  "log_record E level component event utf now =
     (let source = single_line (take 47 (case component of Some c \<Rightarrow> c | None \<Rightarrow> C ''app''));
          name = single_line (take 63 (case event of Some e \<Rightarrow> e | None \<Rightarrow> C ''event''))
      in log_time now @ C '' pid='' @ digits_of (k_process E) @ C '' tid='' @ digits_of (k_thread E)
         @ C '' level='' @ log_severity level @ C '' component='' @ source @ C '' event='' @ name @ C '' ''
         @ single_line utf @ [13, 10])"

definition log_rotate :: "'w log_env \<Rightarrow> ('w, bool) log_cmd" where
  "log_rotate E = do {
     path \<leftarrow> gets al_path;
     backup \<leftarrow> gets al_backup;
     moved \<leftarrow> log_call (k_move E path backup);
     (if moved then log_call (k_create_new E path) else ret False) }"

definition log_append :: "'w log_env \<Rightarrow> NovaLogLevel \<Rightarrow> byte list \<Rightarrow> ('w, unit) log_cmd" where
  \<comment> \<open>to the file that is open\<close>
  "log_append E level text = do {
     path \<leftarrow> gets al_path;
     size \<leftarrow> log_call (k_size E path);
     ok \<leftarrow> (case size of None \<Rightarrow> ret False
       | Some n \<Rightarrow> if n + length text > LOG_LIMIT then log_rotate E else ret True);
     sought \<leftarrow> (if ok then log_call (k_seek_end E path) else ret False);
     written \<leftarrow> (if sought then log_call (k_append E path text) else ret False);
     (if written \<and> level = NOVA_LOG_ERROR then modify (\<lambda>s. s\<lparr>al_world := k_flush E path (al_world s)\<rparr>) else ret ()) }"

definition log_put :: "'w log_env \<Rightarrow> NovaLogLevel \<Rightarrow> byte list \<Rightarrow> ('w, unit) log_cmd" where
  "log_put E level text = do {
     path \<leftarrow> gets al_path;
     backup \<leftarrow> gets al_backup;
     fit \<leftarrow> (if path \<noteq> [] \<and> length text > 0 \<and> length text < 4608
            then and_then (plain_file E path) (plain_file E backup) else ret False);
     opened \<leftarrow> (if fit then log_call (k_open_always E path) else ret False);
     (if opened then log_append E level text else ret ()) }"

definition nova_log_write ::
    "'w log_env \<Rightarrow> NovaLogLevel \<Rightarrow> byte list option \<Rightarrow> byte list option \<Rightarrow> wstr option \<Rightarrow> ('w, unit) log_cmd" where
  "nova_log_write E level component event formatted = do {
     saved \<leftarrow> last_error E;
     (case k_narrow E (log_message formatted) of None \<Rightarrow> ret ()
      | Some utf \<Rightarrow> do {
          now \<leftarrow> log_call (k_now E);
          log_put E level (log_record E level component event utf now) });
     set_last_error E saved }"

definition signed32 :: "int \<Rightarrow> int" where
  "signed32 i = (i + 2 ^ 31) mod 2 ^ 32 - 2 ^ 31"

definition nova_log_begin :: "'w log_env \<Rightarrow> byte list \<Rightarrow> byte list \<Rightarrow> int \<Rightarrow> ('w, NovaLogSpan) log_cmd" where
  \<comment> \<open>\<open>InterlockedIncrement\<close> wraps; the message is formatted here\<close>
  "nova_log_begin E component action parent = do {
     saved \<leftarrow> last_error E;
     modify (\<lambda>s. s\<lparr>al_sequence := signed32 (al_sequence s + 1)\<rparr>);
     ident \<leftarrow> gets al_sequence;
     started \<leftarrow> log_call (k_ticks E);
     nova_log_write E NOVA_LOG_INFO (Some component) (Some (C ''op_begin''))
       (let m = W ''op='' @ dec ident @ W '' parent='' @ dec parent @ W '' action='' @ map (\<lambda>b. of_nat (unat b)) action
        in if length m < 1024 then Some m else None);
     set_last_error E saved;
     ret \<lparr>ls_id = ident, ls_started = started, ls_component = component, ls_action = action\<rparr> }"

definition CODE_CANCELLED :: int where "CODE_CANCELLED = 1223"

definition nova_log_end :: "'w log_env \<Rightarrow> NovaLogSpan \<Rightarrow> bool \<Rightarrow> int \<Rightarrow> ('w, bool) log_cmd" where
  "nova_log_end E span ok code = do {
     now \<leftarrow> log_call (k_ticks E);
     nova_log_write E (if ok then NOVA_LOG_INFO else if code = CODE_CANCELLED then NOVA_LOG_WARN else NOVA_LOG_ERROR)
       (Some (ls_component span)) (Some (C ''op_end''))
       (let m = W ''op='' @ dec (ls_id span) @ W '' action='' @ map (\<lambda>b. of_nat (unat b)) (ls_action span)
              @ W '' ok='' @ dec (if ok then 1 else 0) @ W '' code='' @ dec code
              @ W '' elapsed_ms='' @ dec ((now - ls_started span) mod 2 ^ 64)
        in if length m < 1024 then Some m else None);
     ret ok }"

subsection \<open>What logging does to the files\<close>

definition log_ok :: "'w log_env \<Rightarrow> ('w \<Rightarrow> wstr \<Rightarrow> byte list option) \<Rightarrow> bool" where
  \<comment> \<open>calls that look change no file, calls that change one say how, and the last error is the one set last\<close>
  "log_ok E disk \<longleftrightarrow>
     (\<forall>e w. k_last_error E (k_set_error E e w) = e \<and> disk (k_set_error E e w) = disk w)
     \<and> (\<forall>p w r w'. k_attributes E p w = (r, w') \<longrightarrow> disk w' = disk w)
     \<and> (\<forall>p w r w'. k_create_directory E p w = (r, w') \<longrightarrow> disk w' = disk w)
     \<and> (\<forall>p w r w'. k_open_always E p w = (r, w') \<longrightarrow> disk w' = (if r \<and> disk w p = None then (disk w)(p \<mapsto> []) else disk w))
     \<and> (\<forall>p w r w'. k_size E p w = (r, w') \<longrightarrow> disk w' = disk w
          \<and> (case r of None \<Rightarrow> True | Some n \<Rightarrow> map_option length (disk w p) = Some n))
     \<and> (\<forall>a b w r w'. k_move E a b w = (r, w') \<longrightarrow> a \<noteq> b \<longrightarrow> disk w' = (if r then (disk w)(b := disk w a, a := None) else disk w))
     \<and> (\<forall>p w r w'. k_create_new E p w = (r, w') \<longrightarrow> disk w' = (if r then (disk w)(p \<mapsto> []) else disk w))
     \<and> (\<forall>p w r w'. k_seek_end E p w = (r, w') \<longrightarrow> disk w' = disk w)
     \<and> (\<forall>p b w r w'. k_append E p b w = (r, w') \<longrightarrow> (\<exists>n. disk w' = (disk w)(p := map_option (\<lambda>c. c @ take n b) (disk w p))))
     \<and> (\<forall>p w. disk (k_flush E p w) = disk w)
     \<and> (\<forall>w r w'. k_now E w = (r, w') \<longrightarrow> disk w' = disk w)"

definition log_bounded :: "('w \<Rightarrow> wstr \<Rightarrow> byte list option) \<Rightarrow> ('w Log \<Rightarrow> wstr set) \<Rightarrow> 'w Log \<Rightarrow> bool" where
  "log_bounded disk names s \<longleftrightarrow> (\<forall>p\<in>names s. case disk (al_world s) p of None \<Rightarrow> True | Some c \<Rightarrow> length c \<le> LOG_LIMIT)"

definition log_names :: "'w Log \<Rightarrow> wstr set" where
  "log_names s = {al_path s, al_backup s}"

definition log_frame :: "('w \<Rightarrow> wstr \<Rightarrow> byte list option) \<Rightarrow> 'w Log \<Rightarrow> 'w Log \<Rightarrow> bool" where
  \<comment> \<open>the paths are the same, files other than the two are, and the two stay within the limit\<close>
  "log_frame disk s t \<longleftrightarrow> al_path t = al_path s \<and> al_backup t = al_backup s
     \<and> (\<forall>p. p \<notin> log_names s \<longrightarrow> disk (al_world t) p = disk (al_world s) p)
     \<and> (log_bounded disk log_names s \<longrightarrow> log_bounded disk log_names t)"

lemma log_frame_refl: "log_frame disk s s" by (simp add: log_frame_def)

lemma log_frame_trans: "log_frame disk s t \<Longrightarrow> log_frame disk t u \<Longrightarrow> log_frame disk s u"
  by (simp add: log_frame_def log_names_def)

lemma log_frame_same: "al_path t = al_path s \<Longrightarrow> al_backup t = al_backup s \<Longrightarrow> disk (al_world t) = disk (al_world s) \<Longrightarrow> log_frame disk s t"
  by (simp add: log_frame_def log_bounded_def log_names_def)

lemma wp_log_call [wp]: "wp (log_call f) Q s = (case f (al_world s) of (r, w) \<Rightarrow> Q r (s\<lparr>al_world := w\<rparr>))"
  by (simp add: log_call_def wp_def split: prod.splits)

lemma wp_log_look:
  assumes "\<And>w r w'. f w = (r, w') \<Longrightarrow> disk w' = disk w" and "\<And>r t. log_frame disk s t \<Longrightarrow> Q r t"
  shows "wp (log_call f) Q s"
  using assms(1) by (auto simp: wp intro!: assms(2) log_frame_same split: prod.splits)

definition log_steps :: "('w \<Rightarrow> wstr \<Rightarrow> byte list option) \<Rightarrow> ('w, 'a) log_cmd \<Rightarrow> bool" where
  \<comment> \<open>a command within the frame, for paths that differ\<close>
  "log_steps disk c \<longleftrightarrow> (\<forall>s. al_path s \<noteq> al_backup s \<longrightarrow> wp c (\<lambda>_ t. log_frame disk s t) s)"

lemma steps_ret: "log_steps disk (ret x)" by (simp add: log_steps_def wp log_frame_refl)

lemma steps_bind: "log_steps disk c \<Longrightarrow> (\<And>x. log_steps disk (g x)) \<Longrightarrow> log_steps disk (c \<bind> g)"
proof (unfold log_steps_def wp_bind, intro allI impI)
  fix s :: "'a Log"
  assume c: "\<forall>s. al_path s \<noteq> al_backup s \<longrightarrow> wp c (\<lambda>_ t. log_frame disk s t) s"
    and g: "\<And>x. \<forall>s. al_path s \<noteq> al_backup s \<longrightarrow> wp (g x) (\<lambda>_ t. log_frame disk s t) s" and s: "al_path s \<noteq> al_backup s"
  have "wp (g r) (\<lambda>_ u. log_frame disk s u) t" if "log_frame disk s t" for r t
  proof -
    from that s have "al_path t \<noteq> al_backup t" by (simp add: log_frame_def)
    with g have "wp (g r) (\<lambda>_ u. log_frame disk t u) t" by blast
    then show ?thesis by (rule wp_mono) (rule log_frame_trans [OF that])
  qed
  with c s show "wp c (\<lambda>r. wp (g r) (\<lambda>_ t. log_frame disk s t)) s" by (blast intro: wp_mono)
qed

lemma steps_gets: "(\<And>x. log_steps disk (g x)) \<Longrightarrow> log_steps disk (gets f \<bind> g)"
  by (rule steps_bind) (simp_all add: log_steps_def wp log_frame_refl)

lemma steps_look: "(\<And>w r w'. f w = (r, w') \<Longrightarrow> disk w' = disk w) \<Longrightarrow> log_steps disk (log_call f)"
  unfolding log_steps_def by (auto intro: wp_log_look)

lemma looks:
  assumes "log_ok E disk"
  shows "k_attributes E p w = (f, w') \<Longrightarrow> disk w' = disk w"
    "k_seek_end E p w = (b, w') \<Longrightarrow> disk w' = disk w"
    "k_now E w = (t, w') \<Longrightarrow> disk w' = disk w"
    "disk (k_flush E p w) = disk w" "disk (k_set_error E e w) = disk w"
    "k_create_directory E p w = (b, w') \<Longrightarrow> disk w' = disk w"
    "k_last_error E (k_set_error E e w) = e"
  using assms by (auto simp: log_ok_def)

lemma changes:
  assumes "log_ok E disk"
  shows "k_move E a b w = (r, w') \<Longrightarrow> a \<noteq> b \<Longrightarrow> disk w' = (if r then (disk w)(b := disk w a, a := None) else disk w)"
    "k_create_new E p w = (r, w') \<Longrightarrow> disk w' = (if r then (disk w)(p \<mapsto> []) else disk w)"
    "k_open_always E p w = (r, w') \<Longrightarrow> disk w' = (if r \<and> disk w p = None then (disk w)(p \<mapsto> []) else disk w)"
    "k_append E p x w = (r, w') \<Longrightarrow> \<exists>n. disk w' = (disk w)(p := map_option (\<lambda>c. c @ take n x) (disk w p))"
    "k_size E p w = (q, w') \<Longrightarrow> disk w' = disk w \<and> (case q of None \<Rightarrow> True | Some n \<Rightarrow> map_option length (disk w p) = Some n)"
  using assms unfolding log_ok_def by presburger+

definition room :: "('w \<Rightarrow> wstr \<Rightarrow> byte list option) \<Rightarrow> nat \<Rightarrow> 'w Log \<Rightarrow> bool" where
  "room disk n t \<longleftrightarrow> (case disk (al_world t) (al_path t) of None \<Rightarrow> True | Some c \<Rightarrow> length c + n \<le> LOG_LIMIT)"

lemma rotate_room:
  assumes E: "log_ok E disk" and s: "al_path s \<noteq> al_backup s" and n: "n \<le> LOG_LIMIT"
  shows "wp (log_rotate E) (\<lambda>ok t. log_frame disk s t \<and> (ok \<longrightarrow> room disk n t)) s"
proof -
  obtain m w where m: "k_move E (al_path s) (al_backup s) (al_world s) = (m, w)" by fastforce
  then have w: "disk w = (if m then (disk (al_world s))(al_backup s := disk (al_world s) (al_path s), al_path s := None) else disk (al_world s))"
    using changes(1) [OF E _ s] by blast
  obtain c v where c: "k_create_new E (al_path s) w = (c, v)" by fastforce
  then have v: "disk v = (if c then (disk w)(al_path s \<mapsto> []) else disk w)" using changes(2) [OF E] by blast
  show ?thesis
    using n s by (simp add: log_rotate_def wp m c)
      (auto simp: w v log_frame_def log_names_def log_bounded_def room_def split: option.splits)
qed

lemma append_room:
  assumes E: "log_ok E disk" and r: "room disk (length text) s"
  shows "wp (log_call (k_append E (al_path s) text)) (\<lambda>_ t. log_frame disk s t) s"
proof -
  obtain b w where b: "k_append E (al_path s) text (al_world s) = (b, w)" by fastforce
  then obtain n where w: "disk w = (disk (al_world s))(al_path s := map_option (\<lambda>c. c @ take n text) (disk (al_world s) (al_path s)))"
    using changes(4) [OF E] by blast
  show ?thesis
    using r by (auto simp: wp b w log_frame_def log_names_def log_bounded_def room_def split: option.splits)
qed

lemma append_steps:
  assumes E: "log_ok E disk" and n: "length text \<le> LOG_LIMIT"
  shows "log_steps disk (log_append E level text)"
  unfolding log_steps_def
proof (intro allI impI)
  fix s :: "'a Log"
  assume s: "al_path s \<noteq> al_backup s"
  let ?done = "\<lambda>ok. do {
      sought \<leftarrow> (if ok then log_call (k_seek_end E (al_path s)) else ret False);
      written \<leftarrow> (if sought then log_call (k_append E (al_path s) text) else ret False);
      (if written \<and> level = NOVA_LOG_ERROR then modify (\<lambda>s'. s'\<lparr>al_world := k_flush E (al_path s) (al_world s')\<rparr>) else ret ()) }"
  have rest: "wp (?done ok) (\<lambda>_ u. log_frame disk s u) t" if t: "log_frame disk s t" and r: "ok \<longrightarrow> room disk (length text) t" for ok t
  proof -
    have p: "al_path t = al_path s" using t by (simp add: log_frame_def)
    have flushed: "wp (if b \<and> level = NOVA_LOG_ERROR then modify (\<lambda>s'. s'\<lparr>al_world := k_flush E (al_path s) (al_world s')\<rparr>) else ret ())
        (\<lambda>_ u. log_frame disk s u) v" if "log_frame disk s v" for b v
      by (simp add: wp that, intro impI log_frame_trans [OF that] log_frame_same) (simp_all add: looks [OF E])
    show ?thesis
    proof (cases ok)
      case True
      obtain b w where b: "k_seek_end E (al_path s) (al_world t) = (b, w)" by fastforce
      let ?v = "t\<lparr>al_world := w\<rparr>"
      have d: "disk w = disk (al_world t)" using looks(2) [OF E b] .
      have v: "log_frame disk s ?v" by (rule log_frame_trans [OF t log_frame_same]) (simp_all add: d)
      have "room disk (length text) ?v" using r True by (simp add: room_def d)
      then have a: "wp (log_call (k_append E (al_path s) text)) (\<lambda>_ u. log_frame disk ?v u) ?v"
        using append_room [OF E, of "text" ?v] p by simp
      show ?thesis
        unfolding wp_bind eqTrueI [OF True] if_True wp_log_call b prod.case
        by (cases b) (auto simp: wp_return v flushed if_False intro!: wp_mono [OF a] flushed log_frame_trans [OF v])
    qed (simp add: wp t)
  qed
  obtain q w where q: "k_size E (al_path s) (al_world s) = (q, w)" by fastforce
  let ?t = "s\<lparr>al_world := w\<rparr>"
  have d: "disk w = disk (al_world s)" and size: "case q of None \<Rightarrow> True | Some n \<Rightarrow> map_option length (disk (al_world s) (al_path s)) = Some n"
    using changes(5) [OF E q] by simp_all
  have t: "log_frame disk s ?t" by (rule log_frame_same) (simp_all add: d)
  have "wp (case q of None \<Rightarrow> ret False | Some n \<Rightarrow> if n + length text > LOG_LIMIT then log_rotate E else ret True)
      (\<lambda>ok u. log_frame disk s u \<and> (ok \<longrightarrow> room disk (length text) u)) ?t"
  proof (cases q)
    case (Some m)
    have "wp (log_rotate E) (\<lambda>ok u. log_frame disk s u \<and> (ok \<longrightarrow> room disk (length text) u)) ?t"
      by (rule wp_mono [OF rotate_room [OF E _ n]]) (use s t in \<open>auto intro: log_frame_trans\<close>)
    moreover have "room disk (length text) ?t" if "\<not> m + length text > LOG_LIMIT"
      using size that Some by (auto simp: room_def d)
    ultimately show ?thesis using t Some by (simp add: wp)
  qed (simp add: wp t)
  then show "wp (log_append E level text) (\<lambda>_ t. log_frame disk s t) s"
    unfolding log_append_def wp_bind wp_gets wp_log_call q prod.case
    by (rule wp_mono) (use rest in \<open>simp add: wp_bind\<close>)
qed

lemma open_steps:
  assumes E: "log_ok E disk"
  shows "wp (log_call (k_open_always E (al_path s))) (\<lambda>_ t. log_frame disk s t) s"
proof -
  obtain b w where b: "k_open_always E (al_path s) (al_world s) = (b, w)" by fastforce
  from changes(3) [OF E b] show ?thesis
    by (auto simp: wp b log_frame_def log_names_def log_bounded_def split: option.splits)
qed

lemma steps_after:
  assumes "log_frame disk s t" and "al_path s \<noteq> al_backup s" and "log_steps disk c"
  shows "wp c (\<lambda>_ u. log_frame disk s u) t"
proof -
  have "al_path t \<noteq> al_backup t" using assms by (simp add: log_frame_def)
  with assms(3) have "wp c (\<lambda>_ u. log_frame disk t u) t" by (simp add: log_steps_def)
  then show ?thesis by (rule wp_mono) (rule log_frame_trans [OF assms(1)])
qed

lemma plain_steps: "log_ok E disk \<Longrightarrow> log_steps disk (plain_file E p)"
  unfolding plain_file_def by (intro steps_bind steps_look steps_ret) (rule looks(1))

lemma put_steps:
  assumes E: "log_ok E disk"
  shows "log_steps disk (log_put E level text)"
  unfolding log_steps_def
proof (intro allI impI)
  fix s :: "'a Log"
  assume s: "al_path s \<noteq> al_backup s"
  let ?fit = "al_path s \<noteq> [] \<and> length text > 0 \<and> length text < 4608"
  have fit: "wp (if ?fit then and_then (plain_file E (al_path s)) (plain_file E (al_backup s)) else ret False)
      (\<lambda>r t. log_frame disk s t \<and> (r \<longrightarrow> ?fit)) s"
  proof (cases ?fit)
    case True
    have "log_steps disk (and_then (plain_file E (al_path s)) (plain_file E (al_backup s)))"
      unfolding and_then_def by (rule steps_bind) (simp_all add: plain_steps [OF E] steps_ret)
    with s True show ?thesis unfolding if_P [OF True] log_steps_def by (auto elim: wp_mono)
  next
    case False
    show ?thesis unfolding if_not_P [OF False] by (simp add: wp_return log_frame_refl)
  qed
  have rest: "wp (do { opened \<leftarrow> (if r then log_call (k_open_always E (al_path s)) else ret False);
       (if opened then log_append E level text else ret ()) }) (\<lambda>_ u. log_frame disk s u) t"
    if t: "log_frame disk s t" and r: "r \<longrightarrow> ?fit" for r t
  proof (cases r)
    case True
    with r have "length text \<le> LOG_LIMIT" by (simp add: LOG_LIMIT_def)
    then have a: "log_steps disk (if b then log_append E level text else ret ())" for b
      by (simp add: append_steps [OF E] steps_ret)
    have "wp (log_call (k_open_always E (al_path s))) (\<lambda>_ u. log_frame disk s u) t"
      using wp_mono [OF open_steps [OF E, of t] log_frame_trans [OF t]] t by (simp add: log_frame_def)
    then show ?thesis unfolding eqTrueI [OF True] if_True wp_bind
      by (rule wp_mono) (rule steps_after [OF _ s a])
  qed (simp add: wp t)
  show "wp (log_put E level text) (\<lambda>_ t. log_frame disk s t) s"
    unfolding log_put_def wp_bind [of "gets _"] wp_gets
    by (subst wp_bind, rule wp_mono [OF fit]) (use rest in blast)
qed

lemma write_steps:
  assumes E: "log_ok E disk"
  shows "log_steps disk (nova_log_write E level component event formatted)"
proof -
  have set: "log_steps disk (set_last_error E e)" for e
    by (auto simp: log_steps_def set_last_error_def wp looks(5) [OF E] intro: log_frame_same)
  show ?thesis
    unfolding nova_log_write_def last_error_def
    by (intro steps_gets steps_bind set)
      (auto split: option.splits intro!: steps_ret steps_bind steps_look looks(3) [OF E] put_steps [OF E])
qed

lemma write_error:
  assumes E: "log_ok E disk"
  shows "wp (nova_log_write E level component event formatted) (\<lambda>_ t. k_last_error E (al_world t) = k_last_error E (al_world s)) s"
  unfolding nova_log_write_def wp_bind last_error_def wp_gets
  by (rule wp_any) (simp add: set_last_error_def wp looks(7) [OF E])

subsection \<open>The log as a whole\<close>

fun log_lines :: "'w log_env \<Rightarrow> (NovaLogLevel \<times> byte list option \<times> byte list option \<times> wstr option) list \<Rightarrow> ('w, unit) log_cmd" where
  "log_lines E [] = ret ()"
| "log_lines E ((level, component, event, formatted) # ls) = do {
     nova_log_write E level component event formatted;
     log_lines E ls }"

lemma lines_steps: "log_ok E disk \<Longrightarrow> log_steps disk (log_lines E ls)"
  by (induction ls) (auto intro!: steps_ret steps_bind write_steps)

lemma lines_error:
  "log_ok E disk \<Longrightarrow> wp (log_lines E ls) (\<lambda>_ t. k_last_error E (al_world t) = k_last_error E (al_world s)) s"
proof (induction ls arbitrary: s)
  case (Cons l ls)
  show ?case
  proof (cases l)
    case (fields level component event formatted)
    show ?thesis unfolding fields log_lines.simps wp_bind
      by (rule wp_mono [OF write_error [OF Cons.prems]], rule wp_mono [OF Cons.IH [OF Cons.prems]]) simp
  qed
qed (simp add: wp)

lemma no_path_steps: "al_path s = [] \<Longrightarrow> log_ok E disk \<Longrightarrow>
    wp (log_lines E ls) (\<lambda>_ t. al_path t = [] \<and> disk (al_world t) = disk (al_world s)) s"
proof (induction ls arbitrary: s)
  case (Cons l ls)
  note E = Cons.prems(2)
  show ?case
  proof (cases l)
    case (fields level component event formatted)
    have "wp (nova_log_write E level component event formatted) (\<lambda>_ t. al_path t = [] \<and> disk (al_world t) = disk (al_world s)) s"
      using Cons.prems looks(3) [OF E]
      by (auto simp: nova_log_write_def last_error_def set_last_error_def log_put_def wp looks(5) [OF E] split: option.splits prod.splits)
    then show ?thesis unfolding fields log_lines.simps wp_bind
      by (rule wp_mono, intro wp_mono [OF Cons.IH [OF _ E]]) auto
  qed
qed (simp add: wp)

definition init_result :: "'w log_env \<Rightarrow> ('w \<Rightarrow> wstr \<Rightarrow> byte list option) \<Rightarrow> 'w Log \<Rightarrow> bool \<Rightarrow> 'w Log \<Rightarrow> bool" where
  "init_result E disk s ok t \<longleftrightarrow> disk (al_world t) = disk (al_world s) \<and> (ok \<longrightarrow> al_path t \<noteq> al_backup t)"

lemma paths_outcome:
  assumes E: "log_ok E disk" and s: "al_path s = al_backup s"
  shows "wp (log_paths E d) (init_result E disk s) s"
proof -
  have ne: "x @ [92] @ W ''nova.log'' \<noteq> x @ [92] @ W ''nova.previous.log''" for x by (simp add: W_eq_iff)
  have plain: "wp (plain_file E p) (\<lambda>_ u. disk (al_world u) = disk (al_world t) \<and> al_path u = al_path t \<and> al_backup u = al_backup t) t" for p t
    using looks(1) [OF E] by (auto simp: plain_file_def wp split: prod.splits)
  have both: "wp (and_then (plain_file E p) (plain_file E q)) (init_result E disk s) t"
    if "disk (al_world t) = disk (al_world s)" "al_path t \<noteq> al_backup t" for p q t
    unfolding and_then_def wp_bind
    by (rule wp_mono [OF plain], simp add: wp, intro conjI impI wp_mono [OF plain])
      (use that in \<open>auto simp: init_result_def\<close>)
  show ?thesis
    unfolding log_paths_def Let_def wp_bind wp_log_call
    using looks(6) [OF E] looks(1) [OF E] ne
    by (auto simp: wp set_log_paths_def init_result_def simp del: wp_and_then split: prod.splits log_file.splits bool.splits intro!: both)
qed

lemma init_outcome:
  assumes E: "log_ok E disk"
  shows "wp (nova_log_init E directory) (\<lambda>ok t. disk (al_world t) = disk (al_world s)
     \<and> k_last_error E (al_world t) = k_last_error E (al_world s) \<and> (if ok then al_path t \<noteq> al_backup t else al_path t = [])) s"
proof -
  let ?s = "s\<lparr>al_path := [], al_backup := []\<rparr>"
  have paths: "wp (case directory of None \<Rightarrow> ret False
       | Some d \<Rightarrow> if d \<noteq> [] \<and> length d < LOG_PATH_CAP - 32 then log_paths E d else ret False) (init_result E disk ?s) ?s"
  proof (cases directory)
    case (Some d)
    have "wp (log_paths E d) (init_result E disk ?s) ?s" by (rule paths_outcome [OF E]) simp
    then show ?thesis using Some by (simp add: wp init_result_def)
  qed (simp add: wp init_result_def)
  show ?thesis
    unfolding nova_log_init_def last_error_def wp_bind wp_gets set_log_paths_def wp_modify
    by (rule wp_mono [OF paths]) (simp add: init_result_def set_last_error_def wp looks [OF E])
qed

text \<open>C23 (bounds): from the start of the log on, with whatever directory, records and outcomes of the file calls, no
  file but the log and its backup changes, each of the two stays within 2 MiB when it was, nothing changes when the
  log could not be set up, and the last error of the thread is what it was before.\<close>

theorem logging_is_bounded:
  assumes "log_ok E disk"
  shows "case run_state (do { nova_log_init E directory; log_lines E ls }) s of (_, t) \<Rightarrow>
    (\<forall>p. p \<notin> log_names t \<longrightarrow> disk (al_world t) p = disk (al_world s) p)
    \<and> (log_bounded disk (\<lambda>_. log_names t) s \<longrightarrow> log_bounded disk log_names t)
    \<and> (al_path t = [] \<longrightarrow> disk (al_world t) = disk (al_world s))
    \<and> k_last_error E (al_world t) = k_last_error E (al_world s)"
proof -
  let ?Q = "\<lambda>t. (\<forall>p. p \<notin> log_names t \<longrightarrow> disk (al_world t) p = disk (al_world s) p)
    \<and> (log_bounded disk (\<lambda>_. log_names t) s \<longrightarrow> log_bounded disk log_names t)
    \<and> (al_path t = [] \<longrightarrow> disk (al_world t) = disk (al_world s))"
  have "wp (log_lines E ls) (\<lambda>_ u. ?Q u \<and> k_last_error E (al_world u) = k_last_error E (al_world s)) t"
    if d: "disk (al_world t) = disk (al_world s)" and e: "k_last_error E (al_world t) = k_last_error E (al_world s)"
      and p: "if ok then al_path t \<noteq> al_backup t else al_path t = []" for ok t
  proof (cases "al_path t = []")
    case True
    have "wp (log_lines E ls) (\<lambda>_ u. (al_path u = [] \<and> disk (al_world u) = disk (al_world t))
        \<and> k_last_error E (al_world u) = k_last_error E (al_world t)) t"
      by (rule wp_conj [OF no_path_steps [OF True assms] lines_error [OF assms]])
    then show ?thesis by (rule wp_mono) (simp add: d e log_bounded_def)
  next
    case False
    with p have "al_path t \<noteq> al_backup t" by (simp split: if_splits)
    then have "wp (log_lines E ls) (\<lambda>_ u. log_frame disk t u \<and> k_last_error E (al_world u) = k_last_error E (al_world t)) t"
      using lines_steps [OF assms] by (intro wp_conj lines_error [OF assms]) (simp add: log_steps_def)
    then show ?thesis by (rule wp_mono) (use False in \<open>auto simp: d e log_frame_def log_bounded_def log_names_def\<close>)
  qed
  then have "wp (do { nova_log_init E directory; log_lines E ls })
      (\<lambda>_ u. ?Q u \<and> k_last_error E (al_world u) = k_last_error E (al_world s)) s"
    unfolding wp_bind by (intro wp_mono [OF init_outcome [OF assms]]) blast
  then show ?thesis by (simp add: wp_def split: prod.splits)
qed

type_synonym log_disk = "(wstr \<Rightarrow> byte list option) \<times> int"

definition demo_log_env :: "log_disk log_env" where
  \<comment> \<open>files and the last error; every call succeeds when the file is there\<close>
  "demo_log_env = \<lparr>k_last_error = snd, k_set_error = (\<lambda>e w. (fst w, e)),
     k_attributes = (\<lambda>p w. (if fst w p = None then LogAbsent else LogFile False False, (fst w, 2))),
     k_create_directory = (\<lambda>p w. (True, (fst w, 183))),
     k_open_always = (\<lambda>p w. (True, (if fst w p = None then (fst w)(p \<mapsto> []) else fst w, 0))),
     k_size = (\<lambda>p w. (map_option length (fst w p), w)),
     k_move = (\<lambda>a b w. (True, ((fst w)(b := fst w a, a := None), 0))),
     k_create_new = (\<lambda>p w. (True, ((fst w)(p \<mapsto> []), 0))),
     k_seek_end = (\<lambda>p w. (True, w)),
     k_append = (\<lambda>p b w. (True, ((fst w)(p := map_option (\<lambda>c. c @ b) (fst w p)), 0))),
     k_flush = (\<lambda>p w. w), k_now = (\<lambda>w. (\<lparr>st_year = 2024, st_month = 5, st_day = 6, st_hour = 7, st_minute = 8, st_second = 9,
       st_milliseconds = 10\<rparr>, w)), k_ticks = (\<lambda>w. (0, w)), k_process = 1, k_thread = 2,
     k_narrow = (\<lambda>t. Some (map (\<lambda>c. of_nat (unat c)) t))\<rparr>"

lemma demo_log_ok: "log_ok demo_log_env fst"
proof -
  have "\<exists>n. d(p := map_option (\<lambda>c. c @ b) (d p)) = d(p := map_option (\<lambda>c. c @ take n b) (d p))"
    for d :: "wstr \<Rightarrow> byte list option" and p b by (rule exI [of _ "length b"]) simp
  then show ?thesis by (auto simp: log_ok_def demo_log_env_def split: option.splits)
qed

theorem logging_is_bounded_witness:
  "log_ok demo_log_env fst
   \<and> (case run_state (do { nova_log_init demo_log_env (Some (W ''C:'')); log_lines demo_log_env [(NOVA_LOG_INFO, None, None, None)] })
          \<lparr>al_world = (\<lambda>_. None, 5), al_path = [], al_backup = [], al_sequence = 0\<rparr> of (_, t) \<Rightarrow>
        (\<forall>p. p \<notin> log_names t \<longrightarrow> fst (al_world t) p = None) \<and> snd (al_world t) = 5)"
  using logging_is_bounded [OF demo_log_ok, where directory = "Some (W ''C:'')" and ls = "[(NOVA_LOG_INFO, None, None, None)]"
      and s = "\<lparr>al_world = (\<lambda>_. None, 5), al_path = [], al_backup = [], al_sequence = 0\<rparr>"] demo_log_ok
  by (auto simp: demo_log_env_def split: prod.splits)

end
