(* ===== verification/Ssh_Files.thy ===== *)
theory Ssh_Files
  imports Ssh_Client
begin

text \<open>
  \<open>src/src/platform/ssh_client.c\<close>, second part: directories and files over SFTP, deleting a tree, and copying files in
  both directions. A path is passed as UTF-8 bytes; a tree is at most 33 levels deep, the recursion is on what is
  left of them.
\<close>

definition file_type :: "nat \<Rightarrow> nat" where
  \<comment> \<open>\<open>permissions&0170000\<close>\<close>
  "file_type p = p div 4096 mod 16"

definition is_dir :: "SshAttributes \<Rightarrow> bool" where "is_dir a \<longleftrightarrow> file_type (at_permissions a) = 4"
definition is_symlink :: "SshAttributes \<Rightarrow> bool" where "is_symlink a \<longleftrightarrow> file_type (at_permissions a) = 10"
definition is_regular :: "SshAttributes \<Rightarrow> bool" where "is_regular a \<longleftrightarrow> file_type (at_permissions a) = 8"

definition open_remote :: "'w ssh_env \<Rightarrow> byte list \<Rightarrow> open_mode \<Rightarrow> ('w, nat option) ssh_cmd" where
  "open_remote E path mode = retry_null E (h_open E path mode)"

definition close_remote :: "'w ssh_env \<Rightarrow> nat \<Rightarrow> ('w, bool) ssh_cmd" where
  "close_remote E h = do { rc \<leftarrow> retry E (h_close E h); ret (rc = 0) }"

definition until_nul :: "byte list \<Rightarrow> byte list" where
  "until_nul b = takeWhile (\<lambda>c. c \<noteq> 0) b"

definition dot_name :: "byte list \<Rightarrow> bool" where
  "dot_name b \<longleftrightarrow> until_nul b = C ''.'' \<or> until_nul b = C ''..''"

datatype dir_item = DirEnd | DirBroken | DirSkip | DirItem "byte list" SshAttributes

definition read_item :: "'w ssh_env \<Rightarrow> nat \<Rightarrow> ('w, dir_item) ssh_cmd" where
  \<comment> \<open>the next name, shorter than the buffer\<close>
  "read_item E h = do {
     r \<leftarrow> retry_value E (h_read_dir E h);
     ret (case r of Inl rc \<Rightarrow> if rc = 0 then DirEnd else DirBroken
       | Inr (name, a) \<Rightarrow> if name = [] then DirEnd else if length name \<ge> 2047 then DirBroken
           else if dot_name name then DirSkip else DirItem name a) }"

subsection \<open>Listing\<close>

definition list_item :: "'w ssh_env \<Rightarrow> nat \<Rightarrow> ('w, unit + bool) ssh_cmd" where
  "list_item E h = do {
     x \<leftarrow> read_item E h;
     case x of
       DirEnd \<Rightarrow> ret (Inr True)
     | DirBroken \<Rightarrow> ret (Inr False)
     | DirSkip \<Rightarrow> ret (Inl ())
     | DirItem name a \<Rightarrow> do {
         n \<leftarrow> gets (length \<circ> hr_entries \<circ> hc_result);
         case if n = SSH_ENTRY_LIMIT then None else ssh_wide E name 512 of
           None \<Rightarrow> ret (Inr False)
         | Some t \<Rightarrow> do {
             report (\<lambda>r. r\<lparr>hr_entries := hr_entries r @ [\<lparr>se_name = t, se_permissions = at_permissions a, se_size = at_size a,
               se_directory = is_dir a, se_link = is_symlink a\<rparr>]\<rparr>);
             ret (Inl ()) } } }"

definition list_impl :: "'w ssh_env \<Rightarrow> wstr \<Rightarrow> ('w, bool) ssh_cmd" where
  "list_impl E path = do {
     begin_operation E;
     set_phase_to SSH_PHASE_DIRECTORY;
     p \<leftarrow> path_bytes E path;
     case p of None \<Rightarrow> ret False | Some encoded \<Rightarrow> do {
     r \<leftarrow> retry_value E (h_real_path E encoded);
     case (case r of Inl _ \<Rightarrow> None | Inr b \<Rightarrow> if b = [] \<or> length b \<ge> SSH_PATH_CAP * 4 - 1 then None
             else map_option (\<lambda>t. (b, t)) (ssh_wide E b (SSH_PATH_CAP - 40))) of
       None \<Rightarrow> ssh_failed E ''Resolve remote directory''
     | Some (b, t) \<Rightarrow> do {
         report (\<lambda>r. r\<lparr>hr_path := t\<rparr>);
         h \<leftarrow> open_remote E (until_nul b) OpenDirectory;
         case h of None \<Rightarrow> ssh_failed E ''Open remote directory''
         | Some h \<Rightarrow> do {
             report (\<lambda>r. r\<lparr>hr_entries := []\<rparr>);
             ok \<leftarrow> loop (\<lambda>_. list_item E h) False ();
             close_remote E h;
             if ok then ret True
             else do {
               report (\<lambda>r. r\<lparr>hr_entries := []\<rparr>);
               ssh_failed E ''Read directory (at most 10000 entries, UTF-8 names required)'' } } } } }"

subsection \<open>Directories and names\<close>

definition or_failed :: "'w ssh_env \<Rightarrow> string \<Rightarrow> bool \<Rightarrow> ('w, bool) ssh_cmd" where
  \<comment> \<open>\<open>ok||failed(c,r,...)\<close>\<close>
  "or_failed E operation ok = (if ok then ret True else ssh_failed E operation)"

definition mkdir_impl :: "'w ssh_env \<Rightarrow> wstr \<Rightarrow> ('w, bool) ssh_cmd" where
  "mkdir_impl E path = do {
     begin_operation E;
     p \<leftarrow> path_bytes E path;
     case p of None \<Rightarrow> ret False | Some p \<Rightarrow> do {
     rc \<leftarrow> retry E (h_mkdir E p);
     or_failed E ''Create directory'' (rc = 0) } }"

definition rename_impl :: "'w ssh_env \<Rightarrow> wstr \<Rightarrow> wstr \<Rightarrow> ('w, bool) ssh_cmd" where
  \<comment> \<open>never over something that is there\<close>
  "rename_impl E source target = do {
     begin_operation E;
     a \<leftarrow> path_bytes E source;
     case a of None \<Rightarrow> ret False | Some a \<Rightarrow> do {
     b \<leftarrow> path_bytes E target;
     case b of None \<Rightarrow> ret False | Some b \<Rightarrow> do {
     there \<leftarrow> retry_value E (h_lstat E b);
     case there of Inr _ \<Rightarrow> ssh_refused ''The destination exists; nothing was overwritten.''
     | Inl _ \<Rightarrow> do {
         rc \<leftarrow> retry E (h_rename E a b);
         or_failed E ''Rename or move'' (rc = 0) } } } }"

subsection \<open>Deleting a tree\<close>

definition delete_admitted :: "'w ssh_env \<Rightarrow> wstr \<Rightarrow> ('w, byte list option) ssh_cmd" where
  \<comment> \<open>\<open>++c->visited>SSH_ENTRY_LIMIT||...\<close>\<close>
  "delete_admitted E path = do {
     modify (\<lambda>s. s\<lparr>hc_visited := hc_visited s + 1\<rparr>);
     visited \<leftarrow> gets hc_visited;
     stop \<leftarrow> (if visited > int SSH_ENTRY_LIMIT then ret True else stopped E);
     (if stop then ret None else path_bytes E path) }"

definition delete_item :: "'w ssh_env \<Rightarrow> (wstr \<Rightarrow> ('w, bool) ssh_cmd) \<Rightarrow> wstr \<Rightarrow> nat \<Rightarrow> ('w, unit + bool) ssh_cmd" where
  \<comment> \<open>the next entry of a directory; \<open>recurse\<close> deletes it\<close>
  "delete_item E recurse path h = do {
     x \<leftarrow> read_item E h;
     case x of
       DirEnd \<Rightarrow> ret (Inr True)
     | DirBroken \<Rightarrow> ret (Inr False)
     | DirSkip \<Rightarrow> ret (Inl ())
     | DirItem name _ \<Rightarrow>
         (case Option.bind (ssh_wide E name 512) (\<lambda>t. ssh_path_join (Some SSH_PATH_CAP) (Some path) (Some t)) of
            None \<Rightarrow> ret (Inr False)
          | Some joined \<Rightarrow> do { ok \<leftarrow> recurse joined; ret (if ok then Inl () else Inr False) }) }"

definition delete_found :: "'w ssh_env \<Rightarrow> (wstr \<Rightarrow> ('w, bool) ssh_cmd) \<Rightarrow> wstr \<Rightarrow> byte list \<Rightarrow> ('w, bool) ssh_cmd" where
  "delete_found E recurse path p = do {
     a \<leftarrow> retry_value E (h_lstat E p);
     case a of Inl _ \<Rightarrow> ssh_failed E ''Read attributes''
     | Inr a \<Rightarrow>
         if is_dir a then do {
           h \<leftarrow> open_remote E p OpenDirectory;
           case h of None \<Rightarrow> ssh_failed E ''Read child directory''
           | Some h \<Rightarrow> do {
               ok \<leftarrow> loop (\<lambda>_. delete_item E recurse path h) False ();
               close_remote E h;
               if \<not> ok then do {
                 code \<leftarrow> gets (hr_code \<circ> hc_result);
                 (if code \<noteq> 0 then ret False else ssh_failed E ''Delete child directory'') }
               else do {
                 rc \<leftarrow> retry E (h_rmdir E p);
                 or_failed E ''Delete (some operations may already have completed)'' (rc = 0) } } }
         else do {
           rc \<leftarrow> retry E (h_unlink E p);
           or_failed E ''Delete (some operations may already have completed)'' (rc = 0) } }"

primrec delete_node :: "'w ssh_env \<Rightarrow> nat \<Rightarrow> wstr \<Rightarrow> ('w, bool) ssh_cmd" where
  \<comment> \<open>with \<open>33-depth\<close>\<close>
  "delete_node E 0 = (\<lambda>path. ssh_failed E ''Deletion limit exceeded or cancelled'')"
| "delete_node E (Suc left) = (\<lambda>path. do {
     p \<leftarrow> delete_admitted E path;
     case p of None \<Rightarrow> ssh_failed E ''Deletion limit exceeded or cancelled''
     | Some p \<Rightarrow> delete_found E (delete_node E left) path p })"

definition delete_impl :: "'w ssh_env \<Rightarrow> wstr \<Rightarrow> ('w, bool) ssh_cmd" where
  "delete_impl E path = do {
     begin_operation E;
     (if path = W ''/'' then ssh_failed E ''Root deletion is forbidden'' else delete_node E 33 path) }"

subsection \<open>Local names\<close>

definition reserved_names :: "wstr list" where
  "reserved_names = [W ''CON'', W ''PRN'', W ''AUX'', W ''NUL'', W ''CONIN$'', W ''CONOUT$'']"

definition local_name_valid :: "(wstr \<Rightarrow> wstr) \<Rightarrow> wstr \<Rightarrow> bool" where
  \<comment> \<open>with \<open>CharUpperBuffW\<close>; \<open>wcspbrk\<close> of the characters Windows forbids\<close>
  "local_name_valid upper name \<longleftrightarrow>
     \<not> (name = [] \<or> list_ex (\<lambda>c. c \<in> {92, 47, 58, 42, 63, 34, 60, 62, 124}) name \<or> name = W ''.'' \<or> name = W ''..''
        \<or> last name = 46 \<or> last name = 32)
     \<and> \<not> list_ex (\<lambda>c. c < 32) name
     \<and> (let stem = takeWhile (\<lambda>c. c \<noteq> 46) name in
        if length stem < 8 then (let stem' = upper stem in
          \<not> (stem' \<in> set reserved_names
             \<or> (length stem = 4 \<and> (take 3 stem' = W ''COM'' \<or> take 3 stem' = W ''LPT'') \<and> 48 \<le> stem' ! 3 \<and> stem' ! 3 \<le> 57)))
        else True)"

definition MAX_PATH :: nat where "MAX_PATH = 260"

definition local_join :: "(wstr \<Rightarrow> wstr) \<Rightarrow> wstr \<Rightarrow> wstr \<Rightarrow> wstr option" where
  "local_join upper base name =
     (if \<not> local_name_valid upper name \<or> length base + length name + 2 \<ge> MAX_PATH then None else Some (base @ [92] @ name))"

definition after_backslash :: "wstr \<Rightarrow> wstr option" where
  \<comment> \<open>after \<open>wcsrchr(local,'\')\<close>\<close>
  "after_backslash t = (if 92 \<in> set t then Some (rev (takeWhile (\<lambda>c. c \<noteq> 92) (rev t))) else None)"

subsection \<open>The bytes of a file\<close>

definition send_part :: "'w ssh_env \<Rightarrow> nat \<Rightarrow> byte list \<Rightarrow> nat \<Rightarrow> ('w, nat + bool) ssh_cmd" where
  \<comment> \<open>from \<open>offset\<close> on, as much as the server takes\<close>
  "send_part E h content offset =
     (if offset \<ge> length content then ret (Inr True)
      else do {
        n \<leftarrow> retry E (h_write E h (drop offset content));
        if n \<le> 0 then ret (Inr False)
        else do { later E 30000; ret (Inl (offset + nat n)) } })"

definition send_all :: "'w ssh_env \<Rightarrow> nat \<Rightarrow> byte list \<Rightarrow> ('w, bool) ssh_cmd" where
  "send_all E h content = loop (send_part E h content) False 0"

definition upload_part :: "'w ssh_env \<Rightarrow> wstr \<Rightarrow> nat \<Rightarrow> int \<Rightarrow> int \<Rightarrow> ('w, int + bool) ssh_cmd" where
  "upload_part E local h whole sent = do {
     cancelled \<leftarrow> is_cancelled E;
     if cancelled then ret (Inr False)
     else do {
       r \<leftarrow> ask (h_local_read E local);
       case r of None \<Rightarrow> ret (Inr False)
       | Some b \<Rightarrow> if b = [] then ret (Inr True) else do {
           ok \<leftarrow> send_all E h b;
           if \<not> ok then ret (Inr False)
           else do {
             report_progress E (sent + int (length b)) whole;
             ret (Inl (sent + int (length b))) } } } }"

definition download_bytes :: "'w ssh_env \<Rightarrow> wstr \<Rightarrow> nat \<Rightarrow> int \<Rightarrow> int \<Rightarrow> ('w, int + bool) ssh_cmd" where
  "download_bytes E local h whole got = do {
     cancelled \<leftarrow> is_cancelled E;
     if cancelled then ret (Inr False)
     else do {
       r \<leftarrow> retry_value E (h_read E h);
       case r of Inl rc \<Rightarrow> ret (Inr (rc = 0))
       | Inr b \<Rightarrow> if b = [] then ret (Inr True) else do {
           written \<leftarrow> ask (h_local_write E local b);
           if \<not> written then ret (Inr False)
           else do {
             later E 30000;
             report_progress E (got + int (length b)) whole;
             ret (Inl (got + int (length b))) } } } }"

definition transfer_bytes :: "'w ssh_env \<Rightarrow> bool \<Rightarrow> wstr \<Rightarrow> byte list \<Rightarrow> nat \<Rightarrow> nat \<Rightarrow> ('w, bool) ssh_cmd" where
  \<comment> \<open>both files are open; a file that was not copied completely is removed where it was created\<close>
  "transfer_bytes E upload local p remote_size h = do {
     size \<leftarrow> (if upload then ask (h_local_size E local) else ret None);
     let whole = (case size of Some n \<Rightarrow> int n | None \<Rightarrow> int remote_size);
     report_progress E 0 whole;
     ok \<leftarrow> loop (if upload then upload_part E local h whole else download_bytes E local h whole) False 0;
     ok \<leftarrow> (if \<not> upload \<and> ok then ask (h_local_flush E local) else ret ok);
     tell (h_local_close E local);
     closed \<leftarrow> close_remote E h;
     if ok \<and> closed then ret True
     else do {
       (if upload then do { retry E (h_unlink E p); ret () } else do { ask (h_local_delete E local); ret () });
       ssh_failed E ''File transfer (some directory files may already have completed)'' } }"

definition transfer_file :: "'w ssh_env \<Rightarrow> bool \<Rightarrow> wstr \<Rightarrow> byte list \<Rightarrow> nat \<Rightarrow> ('w, bool) ssh_cmd" where
  \<comment> \<open>neither side overwrites a file\<close>
  "transfer_file E upload local p remote_size = do {
     opened \<leftarrow> ask (if upload then h_local_open E local else h_local_create E local);
     if \<not> opened then ssh_failed E ''Open local file (downloads never overwrite existing files)''
     else do {
       h \<leftarrow> open_remote E p (if upload then CreateNew else OpenRead);
       case h of None \<Rightarrow> do {
           tell (h_local_close E local);
           (if upload then ret () else do { ask (h_local_delete E local); ret () });
           ssh_failed E ''Open remote file (uploads never overwrite existing files)'' }
       | Some h \<Rightarrow> transfer_bytes E upload local p remote_size h } }"

subsection \<open>A tree of files\<close>

fun upload_entries :: "'w ssh_env \<Rightarrow> (wstr \<Rightarrow> wstr \<Rightarrow> ('w, bool) ssh_cmd) \<Rightarrow> wstr \<Rightarrow> wstr \<Rightarrow> dir_entry list \<Rightarrow> ('w, bool) ssh_cmd" where
  "upload_entries E recurse local remote [] = ret True"
| "upload_entries E recurse local remote (e # es) =
     (if de_name e = W ''.'' \<or> de_name e = W ''..'' then upload_entries E recurse local remote es
      else (case (local_join (h_upper E) local (de_name e), ssh_path_join (Some SSH_PATH_CAP) (Some remote) (Some (de_name e))) of
          (Some a, Some b) \<Rightarrow> do {
            ok \<leftarrow> recurse a b;
            (if ok then upload_entries E recurse local remote es else ret False) }
        | _ \<Rightarrow> ret False))"

definition upload_directory ::
    "'w ssh_env \<Rightarrow> (wstr \<Rightarrow> wstr \<Rightarrow> ('w, bool) ssh_cmd) \<Rightarrow> wstr \<Rightarrow> wstr \<Rightarrow> byte list \<Rightarrow> ('w, bool) ssh_cmd" where
  "upload_directory E recurse local remote p = do {
     rc \<leftarrow> retry E (h_mkdir E p);
     if rc \<noteq> 0 then ssh_failed E ''Create upload directory (destination must not exist)''
     else if local_join (h_upper E) local (W ''placeholder'') = None then ssh_failed E ''Local path too long''
     else do {
       found \<leftarrow> ask (h_local_find E (local @ [92] @ W ''*''));
       case found of
         Found es complete \<Rightarrow> do {
           ok \<leftarrow> upload_entries E recurse local remote es;
           or_failed E ''Upload directory (may be partially complete)'' (ok \<and> complete) }
       | _ \<Rightarrow> ssh_failed E ''Enumerate local directory'' } }"

definition download_item ::
    "'w ssh_env \<Rightarrow> (wstr \<Rightarrow> wstr \<Rightarrow> ('w, bool) ssh_cmd) \<Rightarrow> wstr \<Rightarrow> wstr \<Rightarrow> nat \<Rightarrow> ('w, unit + bool) ssh_cmd" where
  "download_item E recurse local remote h = do {
     x \<leftarrow> read_item E h;
     case x of
       DirEnd \<Rightarrow> ret (Inr True)
     | DirBroken \<Rightarrow> ret (Inr False)
     | DirSkip \<Rightarrow> ret (Inl ())
     | DirItem name _ \<Rightarrow>
         (case Option.bind (ssh_wide E name 512) (\<lambda>t. case (local_join (h_upper E) local t,
               ssh_path_join (Some SSH_PATH_CAP) (Some remote) (Some t)) of (Some a, Some b) \<Rightarrow> Some (a, b) | _ \<Rightarrow> None) of
            None \<Rightarrow> ret (Inr False)
          | Some (a, b) \<Rightarrow> do { ok \<leftarrow> recurse a b; ret (if ok then Inl () else Inr False) }) }"

definition download_directory ::
    "'w ssh_env \<Rightarrow> (wstr \<Rightarrow> wstr \<Rightarrow> ('w, bool) ssh_cmd) \<Rightarrow> wstr \<Rightarrow> wstr \<Rightarrow> byte list \<Rightarrow> ('w, bool) ssh_cmd" where
  "download_directory E recurse local remote p = do {
     made \<leftarrow> ask (h_local_mkdir E local);
     if \<not> made then ssh_failed E ''Create download directory (destination must not exist)''
     else do {
       h \<leftarrow> open_remote E p OpenDirectory;
       case h of None \<Rightarrow> ssh_failed E ''Enumerate remote directory''
       | Some h \<Rightarrow> do {
           ok \<leftarrow> loop (\<lambda>_. download_item E recurse local remote h) False ();
           close_remote E h;
           or_failed E ''Download directory (may be partially complete)'' ok } } }"

definition transfer_source :: "'w ssh_env \<Rightarrow> bool \<Rightarrow> wstr \<Rightarrow> byte list \<Rightarrow> ('w, (bool \<times> nat) option) ssh_cmd" where
  \<comment> \<open>whether it is a directory, and the size of a remote file; links are not followed\<close>
  "transfer_source E upload local p =
     (if upload then do {
        a \<leftarrow> ask (h_local_attributes E local);
        case a of Some (directory, False) \<Rightarrow> ret (Some (directory, 0))
        | _ \<Rightarrow> do { ssh_failed E ''Read local file (reparse points are not followed)''; ret None } }
      else do {
        a \<leftarrow> retry_value E (h_lstat E p);
        case a of Inr a \<Rightarrow> if is_symlink a then do { ssh_failed E ''Download file (symlinks are not followed)''; ret None }
            else ret (Some (is_dir a, at_size a))
        | Inl _ \<Rightarrow> do { ssh_failed E ''Download file (symlinks are not followed)''; ret None } })"

definition safe_target :: "'w ssh_env \<Rightarrow> bool \<Rightarrow> wstr \<Rightarrow> bool" where
  \<comment> \<open>a downloaded name is one Windows can have\<close>
  "safe_target E upload local \<longleftrightarrow>
     upload \<or> (case after_backslash local of None \<Rightarrow> False | Some name \<Rightarrow> local_name_valid (h_upper E) name)"

definition transfer_admitted :: "'w ssh_env \<Rightarrow> ('w, bool) ssh_cmd" where
  "transfer_admitted E = do {
     modify (\<lambda>s. s\<lparr>hc_visited := hc_visited s + 1\<rparr>);
     visited \<leftarrow> gets hc_visited;
     (if visited > int SSH_ENTRY_LIMIT then ret False else do { cancelled \<leftarrow> is_cancelled E; ret (\<not> cancelled) }) }"

definition transfer_found ::
    "'w ssh_env \<Rightarrow> bool \<Rightarrow> (wstr \<Rightarrow> wstr \<Rightarrow> ('w, bool) ssh_cmd) \<Rightarrow> wstr \<Rightarrow> wstr \<Rightarrow> ('w, bool) ssh_cmd" where
  "transfer_found E upload recurse local remote = do {
     p \<leftarrow> path_bytes E remote;
     case p of None \<Rightarrow> ret False | Some p \<Rightarrow> do {
     a \<leftarrow> transfer_source E upload local p;
     case a of None \<Rightarrow> ret False
     | Some (directory, bytes) \<Rightarrow>
         if \<not> directory then transfer_file E upload local p bytes
         else if upload then upload_directory E recurse local remote p
         else download_directory E recurse local remote p } }"

primrec transfer_node :: "'w ssh_env \<Rightarrow> bool \<Rightarrow> nat \<Rightarrow> wstr \<Rightarrow> wstr \<Rightarrow> ('w, bool) ssh_cmd" where
  \<comment> \<open>with \<open>33-depth\<close>\<close>
  "transfer_node E upload 0 = (\<lambda>local remote.
     if \<not> safe_target E upload local then ssh_failed E ''Remote name cannot safely map to a Windows filename''
     else ssh_failed E ''Transfer limit exceeded or cancelled'')"
| "transfer_node E upload (Suc left) = (\<lambda>local remote.
     if \<not> safe_target E upload local then ssh_failed E ''Remote name cannot safely map to a Windows filename''
     else do {
       admitted \<leftarrow> transfer_admitted E;
       if \<not> admitted then ssh_failed E ''Transfer limit exceeded or cancelled''
       else transfer_found E upload (transfer_node E upload left) local remote })"

definition transfer_impl :: "'w ssh_env \<Rightarrow> bool \<Rightarrow> wstr \<Rightarrow> wstr \<Rightarrow> ('w, bool) ssh_cmd" where
  "transfer_impl E upload local remote = do { begin_operation E; transfer_node E upload 33 local remote }"

subsection \<open>Copying a remote file\<close>

definition copy_bytes :: "'w ssh_env \<Rightarrow> nat \<Rightarrow> nat \<Rightarrow> ('w, unit + bool) ssh_cmd" where
  "copy_bytes E input output = do {
     stop \<leftarrow> stopped E;
     if stop then ret (Inr False)
     else do {
       r \<leftarrow> retry_value E (h_read E input);
       case r of Inl rc \<Rightarrow> ret (Inr (rc = 0))
       | Inr b \<Rightarrow> if b = [] then ret (Inr True) else do {
           ok \<leftarrow> send_all E output b;
           ret (if ok then Inl () else Inr False) } } }"

definition copy_opened :: "'w ssh_env \<Rightarrow> byte list \<Rightarrow> byte list \<Rightarrow> ('w, bool) ssh_cmd" where
  "copy_opened E a b = do {
     input \<leftarrow> open_remote E a OpenRead;
     case input of None \<Rightarrow> ssh_failed E ''Open copy source''
     | Some input \<Rightarrow> do {
         output \<leftarrow> open_remote E b CreateNew;
         case output of None \<Rightarrow> do { close_remote E input; ssh_failed E ''Create copy destination (no overwrite)'' }
         | Some output \<Rightarrow> do {
             ok \<leftarrow> loop (\<lambda>_. copy_bytes E input output) False ();
             first \<leftarrow> close_remote E input;
             second \<leftarrow> close_remote E output;
             if ok \<and> first \<and> second then ret True
             else do { retry E (h_unlink E b); ssh_failed E ''Copy file'' } } } }"

definition copy_impl :: "'w ssh_env \<Rightarrow> wstr \<Rightarrow> wstr \<Rightarrow> ('w, bool) ssh_cmd" where
  "copy_impl E source target = do {
     begin_operation E;
     a \<leftarrow> path_bytes E source;
     case a of None \<Rightarrow> ret False | Some a \<Rightarrow> do {
     b \<leftarrow> path_bytes E target;
     case b of None \<Rightarrow> ret False | Some b \<Rightarrow> do {
     r \<leftarrow> retry_value E (h_lstat E a);
     case r of Inr at \<Rightarrow> if is_regular at then copy_opened E a b
         else ssh_failed E ''Copy (regular files only in this release; download and upload directories)''
     | Inl _ \<Rightarrow> ssh_failed E ''Copy (regular files only in this release; download and upload directories)'' } } }"

end
