(* ===== verification/Ssh_Channels.thy ===== *)
theory Ssh_Channels
  imports Ssh_Files
begin

text \<open>
  \<open>src/src/platform/ssh_client.c\<close>, third part: the channels. A command is always one of the constants below; paths
  and scripts are data on its input, a path as octal escapes on one line. The synchronisation protocol reads and
  writes exact sizes, a command gives the tail of its output, the terminal never waits for input.
\<close>

subsection \<open>The commands\<close>

definition protocol_command :: "byte list" where
  \<comment> \<open>the paths are the first two lines of the input\<close>
  "protocol_command =
  C ''sh -c '' @ [39] @
    C ''IFS= read -r nova_p || exit 125; IFS= read -r nova_r || exit 125; nova_p=$(printf \"%b_\" \"$nova_p\") || exit '' @
    C ''125; nova_r=$(printf \"%b_\" \"$nova_r\") || exit 125; nova_p=${nova_p%_}; nova_r=${nova_r%_}; exec python3 -B '' @
    C ''\"$nova_p/sync_server.py\" --root \"$nova_r\"'' @ [39]"

definition bootstrap_command :: "byte list" where
  \<comment> \<open>the first line of the input is the program\<close>
  "bootstrap_command =
  C ''python3 -B -u -c '' @ [39] @
    C ''import sys,base64; exec(compile(base64.b64decode(sys.stdin.buffer.readline()),\"<nova-bootstrap>\",\"exec\"))'' @ [39]"

definition setup_command :: "byte list" where
  \<comment> \<open>and installs what is missing\<close>
  "setup_command =
  C ''sh -c '' @ [39] @ C ''# NOVA_BOOTSTRAP_SETUP'' @ [10] @
    C ''if ! python3 -c \"import sys; assert sys.version_info >= (3,9)\" >/dev/null 2>&1; then if [ \"$(id -u)\" != 0 ]; '' @
    C ''then echo \"Install Python 3.9+ as the server administrator, then retry Configure server.\" >&2; exit 126; fi; '' @
    C ''if command -v apt-get >/dev/null 2>&1; then apt-get update >&2 && DEBIAN_FRONTEND=noninteractive apt-get '' @
    C ''install -y python3 >&2 || exit 126; elif command -v dnf >/dev/null 2>&1; then dnf install -y python3 >&2 || '' @
    C ''exit 126; elif command -v yum >/dev/null 2>&1; then yum install -y python3 >&2 || exit 126; elif command -v '' @
    C ''apk >/dev/null 2>&1; then apk add python3 >&2 || exit 126; else echo \"No supported package manager; install '' @
    C ''Python 3.9+ then retry.\" >&2; exit 126; fi; fi; python3 -c \"import sys,sqlite3,zlib; assert sys.version_info '' @
    C ''>= (3,9); sqlite3.connect('' @ [92] @ C ''\":memory:'' @ [92] @ C ''\").execute('' @ [92] @
    C ''\"SELECT json_valid(1)'' @ [92] @
    C ''\")\" >/dev/null 2>&1 || exit 126; exec python3 -B -u -c \"import sys,base64; exec(compile(base64.b64decode(sys.stdin.buffer.readline()),'' @
    [92] @ C ''\"<nova-bootstrap>'' @ [92] @ C ''\",'' @ [92] @ C ''\"exec'' @ [92] @ C ''\"))\"'' @ [39]"

definition exec_command :: "byte list" where
  \<comment> \<open>the first line of the input is the directory, the rest the script\<close>
  "exec_command =
  C ''sh -c '' @ [39] @
    C ''IFS= read -r nova_dir || exit 125; nova_dir=$(printf \"%b_\" \"$nova_dir\") || exit 125; nova_dir=${nova_dir%_}; '' @
    C ''CDPATH= cd \"$nova_dir\" || exit 125; exec sh -s'' @ [39]"

definition terminal_command :: "byte list" where
  \<comment> \<open>an interactive shell in the directory of the first line\<close>
  "terminal_command =
  C ''sh -c '' @ [39] @
    C ''IFS= read -r nova_dir || exit 125; nova_dir=$(printf \"%b_\" \"$nova_dir\") || exit 125; nova_dir=${nova_dir%_}; '' @
    C ''CDPATH= cd \"$nova_dir\" || exit 125; stty sane || exit 125; exec \"${SHELL:-/bin/sh}\" -i'' @ [39]"

subsection \<open>Writing and opening\<close>

definition channel_part :: "'w ssh_env \<Rightarrow> ('w, unit) ssh_cmd \<Rightarrow> nat \<Rightarrow> byte list \<Rightarrow> nat \<Rightarrow> ('w, nat + bool) ssh_cmd" where
  \<comment> \<open>\<open>after\<close> runs after each part that was taken\<close>
  "channel_part E after ch content offset =
     (if offset \<ge> length content then ret (Inr True)
      else do {
        n \<leftarrow> retry E (h_channel_write E ch (drop offset content));
        if n \<le> 0 then ret (Inr False) else do { after; ret (Inl (offset + nat n)) } })"

definition channel_write :: "'w ssh_env \<Rightarrow> nat \<Rightarrow> byte list \<Rightarrow> ('w, bool) ssh_cmd" where
  "channel_write E ch content = loop (channel_part E (ret ()) ch content) False 0"

definition open_channel :: "'w ssh_env \<Rightarrow> ('w, nat option) ssh_cmd" where
  "open_channel E = retry_null E (h_channel E)"

definition path_payload :: "byte list \<Rightarrow> byte list option" where
  \<comment> \<open>in a buffer of \<open>strlen*5+2\<close> bytes\<close>
  "path_payload p = ssh_directory_payload (Some p) (Some (length p * 5 + 2))"

definition write_all :: "'w ssh_env \<Rightarrow> nat \<Rightarrow> byte list list \<Rightarrow> ('w, bool) ssh_cmd" where
  \<comment> \<open>\<open>channel_write(...)&&channel_write(...)\<close>\<close>
  "write_all E ch parts = all_ok (map (channel_write E ch) parts)"

definition exec_and_write :: "'w ssh_env \<Rightarrow> nat \<Rightarrow> byte list \<Rightarrow> byte list list \<Rightarrow> ('w, bool) ssh_cmd" where
  "exec_and_write E ch command parts = do {
     rc \<leftarrow> retry E (h_exec E ch command);
     (if rc = 0 then write_all E ch parts else ret False) }"

subsection \<open>The synchronisation protocol\<close>

definition protocol_open_impl :: "'w ssh_env \<Rightarrow> wstr \<Rightarrow> wstr \<Rightarrow> ('w, bool) ssh_cmd" where
  "protocol_open_impl E project root_path = do {
     begin_operation E;
     set_phase_to SSH_PHASE_COMMAND;
     used \<leftarrow> gets hc_terminal;
     if used \<noteq> None then ssh_failed E ''Channel already in use''
     else do {
       p \<leftarrow> path_bytes E project;
       case p of None \<Rightarrow> ret False | Some p \<Rightarrow> do {
       q \<leftarrow> path_bytes E root_path;
       case q of None \<Rightarrow> ret False | Some q \<Rightarrow>
         (case (path_payload p, path_payload q) of
            (Some first, Some second) \<Rightarrow> do {
              ch \<leftarrow> open_channel E;
              ok \<leftarrow> (case ch of None \<Rightarrow> ret False | Some ch \<Rightarrow> exec_and_write E ch protocol_command [first, second]);
              modify (\<lambda>s. s\<lparr>hc_terminal := ch\<rparr>);
              or_failed E ''Open synchronization channel'' ok }
          | _ \<Rightarrow> do {
              modify (\<lambda>s. s\<lparr>hc_terminal := None\<rparr>);
              ssh_failed E ''Open synchronization channel'' }) } } }"

definition protocol_later :: "'w ssh_env \<Rightarrow> ('w, unit) ssh_cmd" where
  "protocol_later E = do { idle \<leftarrow> gets hc_protocol_idle; later E (if idle \<noteq> 0 then idle else 30000) }"

definition ssh_client_protocol_write :: "'w ssh_env \<Rightarrow> byte list \<Rightarrow> ('w, bool) ssh_cmd" where
  "ssh_client_protocol_write E content = do {
     begin_operation E;
     set_phase_to SSH_PHASE_COMMAND;
     protocol_later E;
     ch \<leftarrow> gets hc_terminal;
     case ch of None \<Rightarrow> ssh_failed E ''Invalid synchronization frame size or state''
     | Some ch \<Rightarrow>
         if length content > 16 * 1024 * 1024 + 1024 * 1024 then ssh_failed E ''Invalid synchronization frame size or state''
         else do {
           ok \<leftarrow> loop (channel_part E (protocol_later E) ch content) False 0;
           or_failed E ''Send synchronization data'' ok } }"

definition bootstrap_open_impl :: "'w ssh_env \<Rightarrow> byte list option \<Rightarrow> bool \<Rightarrow> ('w, bool) ssh_cmd" where
  "bootstrap_open_impl E source provision = do {
     modify (\<lambda>s. s\<lparr>hc_protocol_idle := (if provision then 300000 else 120000)\<rparr>);
     begin_operation E;
     set_phase_to SSH_PHASE_COMMAND;
     protocol_later E;
     used \<leftarrow> gets hc_terminal;
     case (used, source) of
       (None, Some program) \<Rightarrow>
         if length program > 1024 * 1024 then ssh_failed E ''Invalid deployment bootstrap''
         else do {
           ch \<leftarrow> open_channel E;
           case ch of None \<Rightarrow> ssh_failed E ''Open server administration channel''
           | Some ch \<Rightarrow> do {
               modify (\<lambda>s. s\<lparr>hc_terminal := Some ch\<rparr>);
               ok \<leftarrow> exec_and_write E ch (if provision then setup_command else bootstrap_command) [program, [10]];
               or_failed E ''Start server deployment (Python 3.9+ required)'' ok } }
     | _ \<Rightarrow> ssh_failed E ''Invalid deployment bootstrap'' }"

definition read_failed :: "'w ssh_env \<Rightarrow> nat \<Rightarrow> ('w, bool) ssh_cmd" where
  \<comment> \<open>126 is what the command gives for a server without the environment\<close>
  "read_failed E ch = do {
     status \<leftarrow> ask (h_exit_status E ch);
     ssh_failed E (if status = 126
       then ''Server environment unavailable: Python 3.9+, SQLite JSON and zlib are required. Automatic installation needs server administrator privileges; prepare the environment and retry.''
       else ''Synchronization interrupted; checkpoints retained'') }"

definition protocol_read_part :: "'w ssh_env \<Rightarrow> nat \<Rightarrow> nat \<Rightarrow> byte list \<Rightarrow> ('w, byte list + byte list option) ssh_cmd" where
  "protocol_read_part E ch whole got =
     (if length got \<ge> whole then ret (Inr (Some got))
      else do {
        stop \<leftarrow> stopped E;
        if stop then do { ssh_failed E ''Receive synchronization data''; ret (Inr None) }
        else do {
          r \<leftarrow> ask (h_channel_read E ch 0 (whole - length got));
          case (case r of Inr b \<Rightarrow> if b = [] then None else Some b | Inl _ \<Rightarrow> None) of
            Some b \<Rightarrow> do { protocol_later E; ret (Inl (got @ b)) }
          | None \<Rightarrow> do {
              ask (h_channel_read E ch 1 512);
              gone \<leftarrow> (if (case r of Inl e \<Rightarrow> e < 0 \<and> e \<noteq> SSH_EAGAIN | Inr _ \<Rightarrow> False) then ret True
                      else do {
                        eof \<leftarrow> ask (h_channel_eof E ch);
                        (if eof then ret True else do { on \<leftarrow> waiting E; ret (\<not> on) }) });
              if gone then do { read_failed E ch; ret (Inr None) } else ret (Inl got) } } })"

definition ssh_client_protocol_read :: "'w ssh_env \<Rightarrow> nat \<Rightarrow> ('w, byte list option) ssh_cmd" where
  "ssh_client_protocol_read E whole = do {
     begin_operation E;
     set_phase_to SSH_PHASE_COMMAND;
     protocol_later E;
     ch \<leftarrow> gets hc_terminal;
     case ch of None \<Rightarrow> do { ssh_failed E ''Invalid synchronization frame size or state''; ret None }
     | Some ch \<Rightarrow>
         if whole > 16 * 1024 * 1024 then do { ssh_failed E ''Invalid synchronization frame size or state''; ret None }
         else loop (protocol_read_part E ch whole) None [] }"

subsection \<open>A command\<close>

definition append_output :: "byte list \<Rightarrow> SshResult \<Rightarrow> SshResult" where
  \<comment> \<open>at most \<open>SSH_OUTPUT_CAP-1\<close> bytes, the latest\<close>
  "append_output content r =
     (let (content, r) = (if length content \<ge> SSH_OUTPUT_CAP
            then (drop (length content - (SSH_OUTPUT_CAP - 1)) content, r\<lparr>hr_output := [], hr_output_truncated := True\<rparr>)
            else (content, r));
          r = (if length (hr_output r) + length content \<ge> SSH_OUTPUT_CAP
            then r\<lparr>hr_output := drop (length (hr_output r) + length content - (SSH_OUTPUT_CAP - 1)) (hr_output r), hr_output_truncated := True\<rparr>
            else r)
      in r\<lparr>hr_output := hr_output r @ content\<rparr>)"

fun read_streams :: "'w ssh_env \<Rightarrow> nat \<Rightarrow> nat list \<Rightarrow> bool \<Rightarrow> ('w, bool \<times> bool) ssh_cmd" where
  \<comment> \<open>whether it goes on, and whether something was received\<close>
  "read_streams E ch [] received = ret (True, received)"
| "read_streams E ch (i # is) received = do {
     r \<leftarrow> ask (h_channel_read E ch i 4096);
     case r of
       Inr b \<Rightarrow> if b = [] then read_streams E ch is received
         else do { report (append_output b); read_streams E ch is True }
     | Inl e \<Rightarrow> if e < 0 \<and> e \<noteq> SSH_EAGAIN then ret (False, received) else read_streams E ch is received }"

definition exec_round :: "'w ssh_env \<Rightarrow> nat \<Rightarrow> ('w, unit + bool) ssh_cmd" where
  "exec_round E ch = do {
     stop \<leftarrow> stopped E;
     if stop then ret (Inr False)
     else do {
       (ok, received) \<leftarrow> read_streams E ch [0, 1] False;
       eof \<leftarrow> ask (h_channel_eof E ch);
       if eof \<and> \<not> received then ret (Inr ok)
       else do {
         on \<leftarrow> (if received then ret True else waiting E);
         ret (if \<not> on then Inr False else if ok then Inl () else Inr False) } } }"

definition exec_end :: "'w ssh_env \<Rightarrow> nat \<Rightarrow> ('w, bool) ssh_cmd" where
  "exec_end E ch = do {
     rc \<leftarrow> retry E (h_channel_close E ch);
     if rc \<noteq> 0 then ret False
     else do {
       status \<leftarrow> ask (h_exit_status E ch);
       signal \<leftarrow> ask (h_exit_signal E ch);
       report (\<lambda>r. r\<lparr>hr_exit_code := (if signal then 255 else status)\<rparr>);
       ret True } }"

definition exec_channel :: "'w ssh_env \<Rightarrow> nat \<Rightarrow> byte list \<Rightarrow> byte list \<Rightarrow> ('w, bool) ssh_cmd" where
  "exec_channel E ch payload cmd = do {
     ok \<leftarrow> exec_and_write E ch exec_command [payload, cmd, [10]];
     ok \<leftarrow> (if ok then do { rc \<leftarrow> retry E (h_send_eof E ch); ret (rc = 0) } else ret False);
     report (\<lambda>r. r\<lparr>hr_output := []\<rparr>);
     ok \<leftarrow> (if ok then loop (\<lambda>_. exec_round E ch) False () else ret False);
     ok \<leftarrow> (if ok then exec_end E ch else ret False);
     (if ok then ret () else do { ssh_failed E ''Remote command (never retried automatically)''; ret () });
     retry E (h_channel_free E ch);
     ret ok }"

definition exec_impl :: "'w ssh_env \<Rightarrow> wstr \<Rightarrow> wstr \<Rightarrow> ('w, bool) ssh_cmd" where
  "exec_impl E directory command = do {
     begin_operation E;
     set_phase_to SSH_PHASE_COMMAND;
     later E (30 * 60 * 1000);
     p \<leftarrow> path_bytes E directory;
     case (p, ssh_utf8 E command (SSH_PATH_CAP * 4)) of
       (Some p, Some cmd) \<Rightarrow> do {
         cancelled \<leftarrow> is_cancelled E;
         if cancelled then ssh_failed E ''Command cancelled''
         else (case path_payload p of None \<Rightarrow> ssh_failed E ''Prepare remote directory''
         | Some payload \<Rightarrow> do {
             ch \<leftarrow> open_channel E;
             case ch of None \<Rightarrow> ssh_failed E ''Open command channel''
             | Some ch \<Rightarrow> exec_channel E ch payload cmd }) }
     | _ \<Rightarrow> ssh_failed E ''Command too long'' }"

subsection \<open>The terminal\<close>

definition terminal_size_ok :: "int \<Rightarrow> int \<Rightarrow> bool" where
  "terminal_size_ok columns rows \<longleftrightarrow> \<not> (columns < 2 \<or> columns > 500 \<or> rows < 2 \<or> rows > 200)"

definition terminal_start :: "'w ssh_env \<Rightarrow> nat \<Rightarrow> byte list \<Rightarrow> int \<Rightarrow> int \<Rightarrow> ('w, bool) ssh_cmd" where
  \<comment> \<open>a channel that was opened is kept with the session, started or not\<close>
  "terminal_start E ch payload columns rows = do {
     rc \<leftarrow> retry E (h_pty E ch columns rows);
     ok \<leftarrow> (if rc = 0 then exec_and_write E ch terminal_command [payload] else ret False);
     if \<not> ok then do {
       ssh_failed E ''Start interactive terminal'';
       modify (\<lambda>s. s\<lparr>hc_terminal := Some ch\<rparr>);
       ret False }
     else do {
       modify (\<lambda>s. s\<lparr>hc_terminal := Some ch\<rparr>);
       e \<leftarrow> ask (h_event E);
       case e of None \<Rightarrow> do { modify (\<lambda>s. s\<lparr>hc_event := True\<rparr>); ret True }
       | Some e \<Rightarrow> do { native_error e; ssh_failed E ''Watch terminal connection'' } } }"

definition terminal_open_impl :: "'w ssh_env \<Rightarrow> wstr \<Rightarrow> int \<Rightarrow> int \<Rightarrow> ('w, bool) ssh_cmd" where
  "terminal_open_impl E directory columns rows = do {
     begin_operation E;
     set_phase_to SSH_PHASE_COMMAND;
     used \<leftarrow> gets hc_terminal;
     if used \<noteq> None \<or> \<not> terminal_size_ok columns rows then ssh_failed E ''Invalid terminal size or state''
     else do {
       p \<leftarrow> path_bytes E directory;
       case p of None \<Rightarrow> ret False | Some p \<Rightarrow>
         (case path_payload p of None \<Rightarrow> ssh_failed E ''Prepare terminal directory''
          | Some payload \<Rightarrow> do {
              ch \<leftarrow> open_channel E;
              case ch of None \<Rightarrow> ssh_failed E ''Open terminal channel''
              | Some ch \<Rightarrow> terminal_start E ch payload columns rows }) } }"

fun terminal_streams :: "'w ssh_env \<Rightarrow> nat \<Rightarrow> nat \<Rightarrow> nat list \<Rightarrow> ('w, byte list option option) ssh_cmd" where
  \<comment> \<open>\<open>None\<close>: a failure; \<open>Some None\<close>: nothing to read\<close>
  "terminal_streams E ch capacity [] = ret (Some None)"
| "terminal_streams E ch capacity (i # is) = do {
     r \<leftarrow> ask (h_channel_read E ch i capacity);
     case r of
       Inr b \<Rightarrow> if b = [] then terminal_streams E ch capacity is else ret (Some (Some b))
     | Inl e \<Rightarrow> if e < 0 \<and> e \<noteq> SSH_EAGAIN then ret None else terminal_streams E ch capacity is }"

definition terminal_ended :: "'w ssh_env \<Rightarrow> nat \<Rightarrow> ('w, bool \<times> bool) ssh_cmd" where
  \<comment> \<open>the result, and \<open>*ended\<close>\<close>
  "terminal_ended E ch = do {
     eof \<leftarrow> ask (h_channel_eof E ch);
     if \<not> eof then ret (True, False)
     else do {
       rc \<leftarrow> ask (h_wait_closed E ch);
       if rc = SSH_EAGAIN then ret (True, False)
       else if rc < 0 then do { ssh_failed E ''Wait for terminal exit''; ret (False, False) }
       else do {
         status \<leftarrow> ask (h_exit_status E ch);
         report (\<lambda>r. r\<lparr>hr_exit_code := status\<rparr>);
         ret (True, True) } } }"

definition ssh_client_terminal_read :: "'w ssh_env \<Rightarrow> nat \<Rightarrow> ('w, bool \<times> byte list \<times> bool) ssh_cmd" where
  \<comment> \<open>the result, what was read, and \<open>*ended\<close>\<close>
  "ssh_client_terminal_read E capacity = do {
     begin_operation E;
     set_phase_to SSH_PHASE_COMMAND;
     cancelled \<leftarrow> is_cancelled E;
     ch \<leftarrow> gets hc_terminal;
     if cancelled then do { ssh_failed E ''Terminal cancelled''; ret (False, [], False) }
     else (case ch of None \<Rightarrow> do { ssh_failed E ''Terminal is not running''; ret (False, [], False) }
     | Some ch \<Rightarrow> do {
         r \<leftarrow> terminal_streams E ch capacity [0, 1];
         case r of None \<Rightarrow> do { ssh_failed E ''Read terminal''; ret (False, [], False) }
         | Some (Some b) \<Rightarrow> ret (True, b, False)
         | Some None \<Rightarrow> do { e \<leftarrow> terminal_ended E ch; ret (fst e, [], snd e) } }) }"

definition ssh_client_terminal_write :: "'w ssh_env \<Rightarrow> byte list \<Rightarrow> ('w, bool \<times> int) ssh_cmd" where
  \<comment> \<open>the result, and \<open>*written\<close>\<close>
  "ssh_client_terminal_write E content = do {
     begin_operation E;
     set_phase_to SSH_PHASE_COMMAND;
     ch \<leftarrow> gets hc_terminal;
     case ch of None \<Rightarrow> do { ssh_failed E ''Terminal is not running''; ret (False, 0) }
     | Some ch \<Rightarrow> do {
         n \<leftarrow> ask (h_channel_write E ch content);
         if n = SSH_EAGAIN then ret (True, 0)
         else if n < 0 then do { ssh_failed E ''Send terminal input''; ret (False, 0) }
         else ret (True, n) } }"

definition ssh_client_terminal_resize :: "'w ssh_env \<Rightarrow> int \<Rightarrow> int \<Rightarrow> ('w, bool) ssh_cmd" where
  "ssh_client_terminal_resize E columns rows = do {
     begin_operation E;
     set_phase_to SSH_PHASE_COMMAND;
     ch \<leftarrow> gets hc_terminal;
     case ch of None \<Rightarrow> ssh_failed E ''Invalid terminal size''
     | Some ch \<Rightarrow>
         if \<not> terminal_size_ok columns rows then ssh_failed E ''Invalid terminal size''
         else do {
           rc \<leftarrow> retry E (h_pty_size E ch columns rows);
           or_failed E ''Resize terminal'' (rc = 0) } }"

subsection \<open>The operations of the interface\<close>

text \<open>Each is its implementation between two log lines.\<close>

definition ssh_client_list :: "'w ssh_env \<Rightarrow> wstr \<Rightarrow> ('w, bool) ssh_cmd" where
  "ssh_client_list E path = list_impl E path"

definition ssh_client_mkdir :: "'w ssh_env \<Rightarrow> wstr \<Rightarrow> ('w, bool) ssh_cmd" where
  "ssh_client_mkdir E path = mkdir_impl E path"

definition ssh_client_rename :: "'w ssh_env \<Rightarrow> wstr \<Rightarrow> wstr \<Rightarrow> ('w, bool) ssh_cmd" where
  "ssh_client_rename E source target = rename_impl E source target"

definition ssh_client_delete :: "'w ssh_env \<Rightarrow> wstr \<Rightarrow> ('w, bool) ssh_cmd" where
  "ssh_client_delete E path = delete_impl E path"

definition ssh_client_transfer :: "'w ssh_env \<Rightarrow> bool \<Rightarrow> wstr \<Rightarrow> wstr \<Rightarrow> ('w, bool) ssh_cmd" where
  "ssh_client_transfer E upload local remote = transfer_impl E upload local remote"

definition ssh_client_copy :: "'w ssh_env \<Rightarrow> wstr \<Rightarrow> wstr \<Rightarrow> ('w, bool) ssh_cmd" where
  "ssh_client_copy E source target = copy_impl E source target"

definition ssh_client_exec :: "'w ssh_env \<Rightarrow> wstr \<Rightarrow> wstr \<Rightarrow> ('w, bool) ssh_cmd" where
  "ssh_client_exec E directory command = exec_impl E directory command"

definition ssh_client_terminal_open :: "'w ssh_env \<Rightarrow> wstr \<Rightarrow> int \<Rightarrow> int \<Rightarrow> ('w, bool) ssh_cmd" where
  "ssh_client_terminal_open E directory columns rows = terminal_open_impl E directory columns rows"

definition ssh_client_protocol_open :: "'w ssh_env \<Rightarrow> wstr \<Rightarrow> wstr \<Rightarrow> ('w, bool) ssh_cmd" where
  "ssh_client_protocol_open E project root_path = protocol_open_impl E project root_path"

definition ssh_client_bootstrap_open :: "'w ssh_env \<Rightarrow> byte list option \<Rightarrow> bool \<Rightarrow> ('w, bool) ssh_cmd" where
  "ssh_client_bootstrap_open E source provision = bootstrap_open_impl E source provision"

end
