(* ===== verification/Ssh_Safety.thy ===== *)
theory Ssh_Safety
  imports Ssh_Channels
begin

text \<open>
  What the SSH client guarantees: nothing of a login is used before the fingerprint of the host is the saved one,
  deleting a tree stays below its path, a download only creates files below its target, and the output of a command
  is the tail of what it wrote. A command that keeps to a relation of worlds is \<open>within\<close> it; the rules for that
  hold for every preorder.
\<close>

subsection \<open>Commands within a relation\<close>

definition within :: "('w \<Rightarrow> 'w \<Rightarrow> bool) \<Rightarrow> ('w, 'a) ssh_cmd \<Rightarrow> bool" where
  "within R c \<longleftrightarrow> (\<forall>s. wp c (\<lambda>_ t. R (hc_world s) (hc_world t)) s)"

named_theorems within \<open>commands within a relation\<close>

lemma withinD: "within R c \<Longrightarrow> run_state c s = (r, t) \<Longrightarrow> R (hc_world s) (hc_world t)"
  unfolding within_def using wpD [of c] by blast

lemma wp_ask [wp]: "wp (ask f) Q s = (case f (hc_world s) of (r, w) \<Rightarrow> Q r (s\<lparr>hc_world := w\<rparr>))"
  by (simp add: ask_def wp_def split: prod.splits)

lemma wp_tell [wp]: "wp (tell f) Q s = Q () (s\<lparr>hc_world := f (hc_world s)\<rparr>)"
  by (simp add: tell_def wp)

lemma loop_from_rel:
  assumes trans: "\<And>u v w. R u v \<Longrightarrow> R v w \<Longrightarrow> R u w" and f: "\<And>x. within R (f x)"
    and returns: "loop_from f x s = Some y"
  shows "R (hc_world s) (hc_world (snd y))"
proof -
  have step: "(\<forall>x. within R (g x)) \<longrightarrow> R (hc_world s) (hc_world (snd y))"
    if ih: "\<And>g x s y. again g x s = Some y \<Longrightarrow> (\<forall>x. within R (g x)) \<longrightarrow> R (hc_world s) (hc_world (snd y))"
      and eq: "(case run_state (g x) s of (r, s) \<Rightarrow> case r of Inl y \<Rightarrow> again g y s | Inr y \<Rightarrow> Some (y, s)) = Some y" for again g x s y
  proof
    assume g: "\<forall>x. within R (g x)"
    obtain q t where q: "run_state (g x) s = (q, t)" by fastforce
    have t: "R (hc_world s) (hc_world t)" using withinD [OF g [rule_format] q] .
    show "R (hc_world s) (hc_world (snd y))"
      using eq q t trans [OF t] ih [of g _ t y] g by (auto split: sum.splits)
  qed
  have "case ((f, x), s) of (x, xa) \<Rightarrow> (case x of (x, xa) \<Rightarrow> \<lambda>s y. (\<forall>z. within R (x z)) \<longrightarrow> R (hc_world s) (hc_world (snd y))) xa y"
    using loop_from.raw_induct [of "\<lambda>g x s y. (\<forall>x. within R (g x)) \<longrightarrow> R (hc_world s) (hc_world (snd y))" "((f, x), s)" y]
      step returns by (auto split: sum.splits)
  then show ?thesis using f by simp
qed

definition keeps_to :: "('w \<Rightarrow> 'w \<Rightarrow> bool) \<Rightarrow> ('w \<Rightarrow> 'a \<times> 'w) \<Rightarrow> bool" where
  \<comment> \<open>a call within the relation\<close>
  "keeps_to R f \<longleftrightarrow> (\<forall>w. R w (snd (f w)))"

definition idle_calls :: "('w \<Rightarrow> 'w \<Rightarrow> bool) \<Rightarrow> 'w ssh_env \<Rightarrow> bool" where
  \<comment> \<open>the clock, the network, the messages and what only looks\<close>
  "idle_calls R E \<longleftrightarrow> keeps_to R (h_cancelled E) \<and> keeps_to R (h_tick E) \<and> keeps_to R (h_directions E)
     \<and> (\<forall>a b. keeps_to R (h_select E a b)) \<and> keeps_to R (h_errno E) \<and> keeps_to R (h_message E) \<and> keeps_to R (h_sftp_errno E)
     \<and> (\<forall>w p n. h_progress E = Some p \<longrightarrow> R w (p n w))
     \<and> (\<forall>p. keeps_to R (h_open E p OpenDirectory)) \<and> (\<forall>p. keeps_to R (h_open E p OpenRead)) \<and> (\<forall>h. keeps_to R (h_close E h))
     \<and> (\<forall>h. keeps_to R (h_read_dir E h)) \<and> (\<forall>p. keeps_to R (h_lstat E p)) \<and> (\<forall>h. keeps_to R (h_read E h))"

locale command_frame =
  fixes R :: "'w \<Rightarrow> 'w \<Rightarrow> bool"
  assumes stays: "R w w"
    and follows: "R u v \<Longrightarrow> R v w \<Longrightarrow> R u w"
begin

lemma within_ret [within]: "within R (ret x)"
  and within_gets [within]: "within R (gets f)"
  and within_report [within]: "within R (report g)"
  and within_native [within]: "within R (native_error e)"
  and within_phase [within]: "within R (set_phase_to p)"
  by (simp_all add: within_def wp report_def native_error_def set_phase_to_def stays)

lemma within_modify: "(\<And>s. hc_world (f s) = hc_world s) \<Longrightarrow> within R (modify f)"
  by (simp add: within_def wp stays)

lemma within_ask: "(\<And>w. R w (snd (f w))) \<Longrightarrow> within R (ask f)"
  by (auto simp: within_def wp split: prod.splits) (metis snd_conv)

lemma within_tell: "(\<And>w. R w (f w)) \<Longrightarrow> within R (tell f)"
  by (simp add: within_def wp)

lemma within_bind [within]: "within R c \<Longrightarrow> (\<And>x. within R (g x)) \<Longrightarrow> within R (c \<bind> g)"
  unfolding within_def wp_bind
proof
  fix s
  assume c: "\<forall>s. wp c (\<lambda>_ t. R (hc_world s) (hc_world t)) s"
    and g: "\<And>x. \<forall>s. wp (g x) (\<lambda>_ t. R (hc_world s) (hc_world t)) s"
  have c': "wp c (\<lambda>_ t. R (hc_world s) (hc_world t)) s" and g': "wp (g r) (\<lambda>_ u. R (hc_world t) (hc_world u)) t" for r t
    using c g by blast+
  show "wp c (\<lambda>r. wp (g r) (\<lambda>_ t. R (hc_world s) (hc_world t))) s"
    by (rule wp_mono [OF c'], rule wp_mono [OF g'], rule follows)
qed

lemma within_then:
  "yields Q c \<Longrightarrow> within R c \<Longrightarrow> (\<And>x. Q x \<Longrightarrow> within R (g x)) \<Longrightarrow> within R (c \<bind> g)"
  unfolding within_def wp_bind
proof
  fix s
  assume y: "yields Q c" and c: "\<forall>s. wp c (\<lambda>_ t. R (hc_world s) (hc_world t)) s"
    and g: "\<And>x. Q x \<Longrightarrow> \<forall>s. wp (g x) (\<lambda>_ t. R (hc_world s) (hc_world t)) s"
  have c': "wp c (\<lambda>_ t. R (hc_world s) (hc_world t)) s" using c by blast
  have g': "wp (g r) (\<lambda>_ u. R (hc_world t) (hc_world u)) t" if "Q r" for r t using g [OF that] by blast
  show "wp c (\<lambda>r. wp (g r) (\<lambda>_ t. R (hc_world s) (hc_world t))) s"
    by (rule wp_yields [OF y], rule wp_mono [OF c'], intro impI, rule wp_mono [OF g'], assumption, rule follows)
qed

lemma within_if [within]: "within R c \<Longrightarrow> within R d \<Longrightarrow> within R (if b then c else d)"
  and within_option [within]: "within R c \<Longrightarrow> (\<And>x. within R (h x)) \<Longrightarrow> within R (case q of None \<Rightarrow> c | Some x \<Rightarrow> h x)"
  and within_sum [within]: "(\<And>e. within R (k e)) \<Longrightarrow> (\<And>x. within R (l x)) \<Longrightarrow> within R (case r of Inl e \<Rightarrow> k e | Inr x \<Rightarrow> l x)"
  and within_pair [within]: "(\<And>x y. within R (m x y)) \<Longrightarrow> within R (case p of (x, y) \<Rightarrow> m x y)"
  by (simp_all split: option.splits sum.splits prod.splits)

lemma within_loop [within]: "(\<And>x. within R (f x)) \<Longrightarrow> within R (loop f stuck x)"
proof -
  assume f: "\<And>x. within R (f x)"
  have "wp (loop f stuck x) (\<lambda>_ t. R (hc_world s) (hc_world t)) s" for s
  proof (cases "loop_from f x s")
    case (Some y)
    then show ?thesis using loop_from_rel [where R = R, OF follows f Some]
      by (simp add: loop_def wp split: prod.splits) (cases y, simp)
  qed (simp add: loop_def wp stays)
  then show ?thesis by (simp add: within_def)
qed

lemma within_call: "keeps_to R f \<Longrightarrow> within R (ask f)"
  by (rule within_ask) (simp add: keeps_to_def)

lemma idle_parts:
  assumes "idle_calls R E"
  shows "keeps_to R (h_cancelled E)" "keeps_to R (h_tick E)" "keeps_to R (h_directions E)" "keeps_to R (h_select E a b)"
    "keeps_to R (h_errno E)" "keeps_to R (h_message E)" "keeps_to R (h_sftp_errno E)"
    "keeps_to R (h_open E p OpenDirectory)" "keeps_to R (h_open E p OpenRead)" "keeps_to R (h_close E h)"
    "keeps_to R (h_read_dir E h)" "keeps_to R (h_lstat E p)" "keeps_to R (h_read E h)"
    "h_progress E = Some q \<Longrightarrow> R w (q n w)"
  using assms by (simp_all add: idle_calls_def)

lemma within_waiting [within]: "idle_calls R E \<Longrightarrow> within R (waiting E)"
  unfolding waiting_def by (intro within within_call) (auto simp: idle_parts)

lemma within_retry [within]:
  assumes "idle_calls R E" and "keeps_to R f"
  shows "within R (retry E f)"
  unfolding retry_def retry_step_def by (intro within within_call assms)

lemma within_retry_value [within]:
  assumes "idle_calls R E" and "keeps_to R f"
  shows "within R (retry_value E f)"
  unfolding retry_value_def retry_step_def by (intro within within_call assms)

lemma within_retry_null [within]:
  assumes "idle_calls R E" and "keeps_to R f"
  shows "within R (retry_null E f)"
  unfolding retry_null_def retry_step_def by (intro within within_call assms idle_parts)

lemma within_clock [within]:
  assumes "idle_calls R E"
  shows "within R (begin_operation E)" "within R (later E ms)" "within R (is_cancelled E)" "within R (is_late E)" "within R (stopped E)"
  unfolding begin_operation_def later_def is_cancelled_def is_late_def stopped_def
  by (intro within within_call within_modify idle_parts assms; simp)+

lemma within_progress [within]:
  assumes E: "idle_calls R E"
  shows "within R (report_progress E n whole)"
proof (cases "h_progress E")
  case None
  show ?thesis unfolding report_progress_def None option.case by (intro within within_call idle_parts E)
next
  case (Some q)
  show ?thesis unfolding report_progress_def Some option.case
    by (intro within within_call within_modify within_tell idle_parts [OF E] Some) simp_all
qed

lemma within_failed [within]:
  assumes "idle_calls R E"
  shows "within R (ssh_failed E operation)" "within R (or_failed E operation ok)" "within R (ssh_refused message)"
  unfolding ssh_failed_def or_failed_def ssh_refused_def Let_def
  by (intro within within_call idle_parts assms)+

lemma within_path [within]: "idle_calls R E \<Longrightarrow> within R (path_bytes E p)"
  unfolding path_bytes_def by (intro within)

lemma within_remote [within]:
  assumes "idle_calls R E"
  shows "within R (open_remote E p OpenDirectory)" "within R (open_remote E p OpenRead)" "within R (close_remote E h)"
    "within R (read_item E h)"
  unfolding open_remote_def close_remote_def read_item_def
  by (intro within idle_parts assms)+

end

subsection \<open>What a command may change\<close>

definition differs :: "('w \<Rightarrow> 'k \<Rightarrow> 'v) \<Rightarrow> ('k \<Rightarrow> 'v \<Rightarrow> bool) \<Rightarrow> 'w \<Rightarrow> 'w \<Rightarrow> bool" where
  \<comment> \<open>of what is observed, only what \<open>P\<close> allows changes\<close>
  "differs obs P u w \<longleftrightarrow> (\<forall>k. obs w k \<noteq> obs u k \<longrightarrow> P k (obs u k))"

interpretation differs: command_frame "differs obs P" for obs P
  by unfold_locales (simp_all add: differs_def, metis)

subsection \<open>Deleting stays below its path\<close>

definition below_prefix :: "wstr \<Rightarrow> wstr" where
  \<comment> \<open>what \<open>ssh_path_join\<close> puts before a name\<close>
  "below_prefix p = (let q = (if length p > 1 \<and> last p = slash then butlast p else p) in if length q = 1 then q else q @ [slash])"

definition below :: "wstr \<Rightarrow> wstr \<Rightarrow> bool" where
  "below p x \<longleftrightarrow> x = p \<or> starts_with x (below_prefix p)"

lemma starts_with_iff: "starts_with s p \<longleftrightarrow> (\<exists>r. s = p @ r)"
  unfolding starts_with_def by (metis append_eq_conv_conj append_take_drop_id)

lemma below_join:
  assumes "ssh_path_join (Some cap) (Some p) (Some t) = Some j"
  shows "j = below_prefix p @ t \<and> t \<noteq> [] \<and> slash \<notin> set t"
  using assms by (auto simp: ssh_path_join_def Let_def below_prefix_def starts_slash_def last_conv_nth butlast_conv_take split: if_splits list.splits)

lemma below_inside:
  assumes j: "ssh_path_join (Some cap) (Some p) (Some t) = Some j" and x: "below j x"
  shows "below p x"
proof -
  have e: "j = below_prefix p @ t" "t \<noteq> []" "slash \<notin> set t" using below_join [OF j] by simp_all
  then have "last j \<noteq> slash" by (metis last_appendR last_in_set)
  moreover have "length j > 1"
  proof -
    have "length (below_prefix p) \<ge> 1" by (auto simp: below_prefix_def Let_def)
    then show ?thesis using e by (cases t) auto
  qed
  ultimately have "below_prefix j = j @ [slash]" by (simp add: below_prefix_def)
  with x e show ?thesis by (auto simp: below_def starts_with_iff)
qed

definition remote_ok :: "'w ssh_env \<Rightarrow> ('w \<Rightarrow> byte list \<Rightarrow> 'v) \<Rightarrow> bool" where
  \<comment> \<open>what looks changes no entry of the server, what removes one changes only that one\<close>
  "remote_ok E remote \<longleftrightarrow> idle_calls (\<lambda>u w. remote w = remote u) E
     \<and> (\<forall>p w k. k \<noteq> p \<longrightarrow> remote (snd (h_unlink E p w)) k = remote w k)
     \<and> (\<forall>p w k. k \<noteq> p \<longrightarrow> remote (snd (h_rmdir E p w)) k = remote w k)"

definition tree_of :: "'w ssh_env \<Rightarrow> wstr \<Rightarrow> byte list \<Rightarrow> 'v \<Rightarrow> bool" where
  \<comment> \<open>an entry at or below the path\<close>
  "tree_of E path k v \<longleftrightarrow> (\<exists>x. below path x \<and> h_narrow E x = Some k)"

lemma idle_mono:
  assumes "\<And>u w. R u w \<Longrightarrow> S u w"
  shows "idle_calls R E \<Longrightarrow> idle_calls S E"
  using assms unfolding idle_calls_def keeps_to_def by (elim conjE) (intro conjI, simp_all)

lemma remote_idle: "remote_ok E remote \<Longrightarrow> idle_calls (differs remote P) E"
  unfolding remote_ok_def by (rule idle_mono [of "\<lambda>u w. remote w = remote u"]) (auto simp: differs_def)

lemma removes:
  assumes "remote_ok E remote" and "P p = (\<lambda>_. True)"
  shows "keeps_to (differs remote P) (h_unlink E p)" "keeps_to (differs remote P) (h_rmdir E p)"
proof -
  have "P k v" if "remote (snd (f w)) k \<noteq> remote w k" "\<And>k. k \<noteq> p \<Longrightarrow> remote (snd (f w)) k = remote w k" for f :: "'a \<Rightarrow> int \<times> 'a" and w k v
    using that assms(2) by metis
  then show "keeps_to (differs remote P) (h_unlink E p)" "keeps_to (differs remote P) (h_rmdir E p)"
    using assms(1) by (auto simp: keeps_to_def differs_def remote_ok_def)
qed

lemma path_bytes_yields: "yields (\<lambda>r. case r of None \<Rightarrow> True | Some b \<Rightarrow> h_narrow E path = Some b) (path_bytes E path)"
  unfolding path_bytes_def by (auto intro!: yields simp: ssh_utf8_def split: if_splits option.splits)

lemma admitted_yields: "yields (\<lambda>r. case r of None \<Rightarrow> True | Some b \<Rightarrow> h_narrow E path = Some b) (delete_admitted E path)"
  unfolding delete_admitted_def by (intro yields path_bytes_yields) simp_all

lemma differs_mono: "(\<And>k v. P k v \<Longrightarrow> Q k v) \<Longrightarrow> within (differs obs P) c \<Longrightarrow> within (differs obs Q) c"
  unfolding within_def differs_def by (blast intro: wp_mono)

lemma delete_below:
  assumes E: "remote_ok E remote"
  shows "within (differs remote (tree_of E path)) (delete_node E left path)"
proof (induction left arbitrary: path)
  case 0
  then show ?case by (simp add: differs.within_failed [OF remote_idle [OF E]])
next
  case (Suc left)
  let ?R = "differs remote (tree_of E path)"
  note idle = remote_idle [OF E, of "tree_of E path"]
  have inner: "within ?R (delete_node E left j)" if "ssh_path_join (Some SSH_PATH_CAP) (Some path) (Some t) = Some j" for t j
    by (rule differs_mono [OF _ Suc.IH [of j]]) (auto simp: tree_of_def intro: below_inside [OF that])
  have item: "within ?R (delete_item E (delete_node E left) path h)" for h
    unfolding delete_item_def
    by (rule differs.within_bind [OF differs.within_remote(4) [OF idle]])
      (auto split: dir_item.splits option.splits bind_splits intro!: within inner)
  have "within ?R (delete_found E (delete_node E left) path p)" if p: "h_narrow E path = Some p" for p
  proof -
    have top: "tree_of E path p = (\<lambda>_. True)" using p by (auto simp: tree_of_def below_def fun_eq_iff)
    show ?thesis unfolding delete_found_def
      by (intro within idle removes [where P = "tree_of E path", OF E top] item differs.idle_parts)
  qed
  moreover have "within ?R (delete_admitted E path)"
    unfolding delete_admitted_def by (intro within idle differs.within_modify) simp
  ultimately show ?case
    by (auto intro!: differs.within_then [OF admitted_yields] differs.within_failed [OF idle] split: option.splits)
qed


subsection \<open>A download only creates files\<close>

definition local_ok :: "'w ssh_env \<Rightarrow> ('w \<Rightarrow> wstr \<Rightarrow> byte list option) \<Rightarrow> bool" where
  \<comment> \<open>a file is created only where there is none, and the calls change the content of the path they are given\<close>
  "local_ok E files \<longleftrightarrow> idle_calls (\<lambda>u w. files w = files u) E
     \<and> (\<forall>p w. if fst (h_local_create E p w) then files w p = None else files (snd (h_local_create E p w)) = files w)
     \<and> (\<forall>p w k. k \<noteq> p \<longrightarrow> files (snd (h_local_create E p w)) k = files w k)
     \<and> (\<forall>p b w k. k \<noteq> p \<longrightarrow> files (snd (h_local_write E p b w)) k = files w k)
     \<and> (\<forall>p w k. k \<noteq> p \<longrightarrow> files (snd (h_local_delete E p w)) k = files w k)
     \<and> (\<forall>p. keeps_to (\<lambda>u w. files w = files u) (h_local_mkdir E p)) \<and> (\<forall>p. keeps_to (\<lambda>u w. files w = files u) (h_local_flush E p))
     \<and> (\<forall>p w. files (h_local_close E p w) = files w)"

definition new_below :: "wstr \<Rightarrow> wstr \<Rightarrow> byte list option \<Rightarrow> bool" where
  \<comment> \<open>a path at or below the target that had no file\<close>
  "new_below target k v \<longleftrightarrow> v = None \<and> (k = target \<or> starts_with k (target @ [92]))"

lemma local_idle: "local_ok E files \<Longrightarrow> idle_calls (differs files P) E"
  unfolding local_ok_def by (rule idle_mono [of "\<lambda>u w. files w = files u"]) (auto simp: differs_def)

lemma local_calls:
  assumes "local_ok E files"
  shows "keeps_to (differs files P) (h_local_mkdir E p)" "keeps_to (differs files P) (h_local_flush E p)"
    "differs files P w (h_local_close E p w)"
  using assms by (auto simp: local_ok_def keeps_to_def differs_def)

lemma local_changes:
  assumes E: "local_ok E files" and P: "P p = (\<lambda>_. True)"
  shows "keeps_to (differs files P) (h_local_create E p)" "keeps_to (differs files P) (h_local_write E p b)"
    "keeps_to (differs files P) (h_local_delete E p)"
proof -
  have "P k v" if "files (snd (f w)) k \<noteq> files w k" "\<And>k. k \<noteq> p \<Longrightarrow> files (snd (f w)) k = files w k"
    for f :: "'a \<Rightarrow> bool \<times> 'a" and w k v
    using that P by metis
  then show "keeps_to (differs files P) (h_local_create E p)" "keeps_to (differs files P) (h_local_write E p b)"
    "keeps_to (differs files P) (h_local_delete E p)"
    using E by (auto simp: keeps_to_def differs_def local_ok_def)
qed

lemma file_after_create:
  assumes E: "local_ok E files" and P: "P local = (\<lambda>_. True)"
  shows "within (differs files P) (do {
       h \<leftarrow> open_remote E p OpenRead;
       case h of None \<Rightarrow> do {
           tell (h_local_close E local);
           (if False then ret () else do { ask (h_local_delete E local); ret () });
           ssh_failed E message }
       | Some h \<Rightarrow> transfer_bytes E False local p bytes h })"
proof -
  note idle = local_idle [OF E, of P]
  have bytes: "within (differs files P) (download_bytes E local h whole got)" for h whole got
    unfolding download_bytes_def
    by (intro within idle differs.within_call differs.idle_parts local_changes [where P = P, OF E P])
  show ?thesis
    unfolding transfer_bytes_def Let_def if_False
    by (intro within idle bytes differs.within_call differs.within_tell local_calls [OF E] local_changes [where P = P, OF E P])
qed

lemma file_is_new:
  assumes E: "local_ok E files"
  shows "within (differs files (new_below local)) (transfer_file E False local p bytes)"
  unfolding within_def
proof
  fix s :: "'a SshClient"
  let ?P = "\<lambda>k v. k = local"
  obtain made w where c: "h_local_create E local (hc_world s) = (made, w)" by fastforce
  let ?s = "s\<lparr>hc_world := w\<rparr>"
  have only: "\<forall>k. k \<noteq> local \<longrightarrow> files w k = files (hc_world s) k"
    and fresh: "if made then files (hc_world s) local = None else files w = files (hc_world s)"
    using E c unfolding local_ok_def by (metis fst_conv snd_conv)+
  let ?rest = "do {
       h \<leftarrow> open_remote E p OpenRead;
       case h of None \<Rightarrow> do {
           tell (h_local_close E local);
           (if False then ret () else do { ask (h_local_delete E local); ret () });
           ssh_failed E ''Open remote file (uploads never overwrite existing files)'' }
       | Some h \<Rightarrow> transfer_bytes E False local p bytes h }"
  have "within (differs files ?P) ?rest" by (rule file_after_create [OF E]) auto
  then have all: "wp ?rest (\<lambda>_ t. differs files ?P (hc_world ?s) (hc_world t)) ?s" unfolding within_def by blast
  have made: "wp ?rest (\<lambda>_ t. differs files (new_below local) (hc_world s) (hc_world t)) ?s" if "made"
  proof (rule wp_mono [OF all])
    fix r t
    assume t: "differs files ?P (hc_world ?s) (hc_world t)"
    show "differs files (new_below local) (hc_world s) (hc_world t)"
      unfolding differs_def
    proof (intro allI impI)
      fix k
      assume k: "files (hc_world t) k \<noteq> files (hc_world s) k"
      have "k = local"
      proof (rule ccontr)
        assume n: "k \<noteq> local"
        then have "files (hc_world t) k = files w k" using t by (auto simp: differs_def)
        with k n only show False by simp
      qed
      then show "new_below local k (files (hc_world s) k)" using fresh that by (simp add: new_below_def)
    qed
  qed
  have failed: "wp (ssh_failed E m) (\<lambda>_ t. differs files (new_below local) (hc_world s) (hc_world t)) ?s" if "\<not> made" for m
  proof -
    have "within (differs files (new_below local)) (ssh_failed E m)"
      by (rule differs.within_failed(1) [OF local_idle [OF E]])
    then have "wp (ssh_failed E m) (\<lambda>_ t. differs files (new_below local) (hc_world ?s) (hc_world t)) ?s" unfolding within_def by blast
    then show ?thesis by (rule wp_mono) (use fresh that in \<open>simp add: differs_def\<close>)
  qed
  show "wp (transfer_file E False local p bytes) (\<lambda>_ t. differs files (new_below local) (hc_world s) (hc_world t)) s"
  proof (cases made)
    case True
    with made show ?thesis unfolding transfer_file_def by (simp only: wp_bind wp_ask c prod.case if_False not_True_eq_False)
  next
    case False
    with failed show ?thesis unfolding transfer_file_def by (simp only: wp_bind wp_ask c prod.case if_True if_False not_False_eq_True)
  qed
qed


lemma join_inside:
  assumes "local_join upper local t = Some a" and "new_below a k v"
  shows "new_below local k v"
  using assms by (auto simp: local_join_def new_below_def starts_with_iff split: if_splits)

lemma transfer_new:
  assumes E: "local_ok E files"
  shows "within (differs files (new_below local)) (transfer_node E False left local remote)"
proof (induction left arbitrary: local remote)
  case 0
  then show ?case by (simp add: within local_idle [OF E])
next
  case (Suc left)
  let ?R = "differs files (new_below local)"
  note idle = local_idle [OF E, of "new_below local"]
  have inner: "within ?R (transfer_node E False left a b)" if "local_join upper local t = Some a" for upper t a b
    by (rule differs_mono [OF _ Suc.IH [of a]]) (rule join_inside [OF that])
  have item: "within ?R (download_item E (transfer_node E False left) local remote h)" for h
    unfolding download_item_def
    by (rule differs.within_bind [OF differs.within_remote(4) [OF idle]])
      (auto split: dir_item.splits option.splits bind_splits intro!: within inner)
  have directory: "within ?R (download_directory E (transfer_node E False left) local remote p)" for p
    unfolding download_directory_def
    by (intro within idle item differs.within_call local_calls [OF E])
  have source: "within ?R (transfer_source E False local p)" for p
    unfolding transfer_source_def if_False by (intro within idle differs.idle_parts)
  have found: "within ?R (transfer_found E False (transfer_node E False left) local remote)"
    unfolding transfer_found_def if_False by (intro within idle source directory file_is_new [OF E])
  have admitted: "within ?R (transfer_admitted E)"
    unfolding transfer_admitted_def by (intro within idle differs.within_modify) simp
  show ?case using found admitted by (auto intro!: within idle)
qed


subsection \<open>Nothing of a login before the host is verified\<close>

definition with_login :: "'w ssh_env \<Rightarrow> 'w ssh_env \<Rightarrow> 'w ssh_env" where
  \<comment> \<open>the calls that use the user, the secret or the key file are other ones\<close>
  "with_login E A = E\<lparr>h_auth_list := h_auth_list A, h_authenticated := h_authenticated A, h_key_file := h_key_file A,
     h_file_error := h_file_error A, h_public_key := h_public_key A, h_password := h_password A, h_sftp_open := h_sftp_open A\<rparr>"

definition unverified :: "'w ssh_env \<Rightarrow> SshLogin \<Rightarrow> bool" where
  \<comment> \<open>no key the host shows has the saved fingerprint\<close>
  "unverified E login \<longleftrightarrow> (\<forall>w. case fst (h_host_hash E w) of None \<Rightarrow> True
     | Some h \<Rightarrow> lg_fingerprint login = [] \<or> lg_fingerprint login \<noteq> fingerprint_of h)"

lemma other_fields:
  shows "h_cancelled (with_login E A) = h_cancelled E"
    "h_tick (with_login E A) = h_tick E"
    "h_directions (with_login E A) = h_directions E"
    "h_select (with_login E A) = h_select E"
    "h_errno (with_login E A) = h_errno E"
    "h_message (with_login E A) = h_message E"
    "h_sftp_errno (with_login E A) = h_sftp_errno E"
    "h_system_message (with_login E A) = h_system_message E"
    "h_resolve (with_login E A) = h_resolve E"
    "h_open_socket (with_login E A) = h_open_socket E"
    "h_nonblocking (with_login E A) = h_nonblocking E"
    "h_connect (with_login E A) = h_connect E"
    "h_connect_wait (with_login E A) = h_connect_wait E"
    "h_close_socket (with_login E A) = h_close_socket E"
    "h_session_open (with_login E A) = h_session_open E"
    "h_methods (with_login E A) = h_methods E"
    "h_handshake (with_login E A) = h_handshake E"
    "h_host_hash (with_login E A) = h_host_hash E"
    "h_close_all (with_login E A) = h_close_all E"
  by (simp_all add: with_login_def)

lemma other_login: "lg_server (login\<lparr>lg_secret := x, lg_key_file := k\<rparr>) = lg_server login"
    "lg_fingerprint (login\<lparr>lg_secret := x, lg_key_file := k\<rparr>) = lg_fingerprint login"
  by simp_all

lemma other_waits:
  "waiting (with_login E A) = waiting E" "is_cancelled (with_login E A) = is_cancelled E"
  "is_late (with_login E A) = is_late E"
  unfolding waiting_def is_cancelled_def is_late_def other_fields by (rule refl)+

lemma other_parts:
  "retry (with_login E A) f = retry E f" "connect_poll (with_login E A) = connect_poll E"
  "close_socket (with_login E A) = close_socket E" "connect_address (with_login E A) i = connect_address E i"
  unfolding retry_def retry_step_def connect_address_def connect_poll_def stopped_def close_socket_def other_waits other_fields
  by (rule refl)+

lemma other_addresses: "connect_addresses (with_login E A) = connect_addresses E"
proof
  fix xs
  show "connect_addresses (with_login E A) xs = connect_addresses E xs"
    by (induction xs) (simp_all only: connect_addresses.simps other_parts other_waits)
qed

lemma other_start:
  "connect_tcp (with_login E A) (login\<lparr>lg_secret := x, lg_key_file := k\<rparr>) = connect_tcp E login"
  "connect_handshake (with_login E A) = connect_handshake E"
  "connect_host (with_login E A) (login\<lparr>lg_secret := x, lg_key_file := k\<rparr>) = connect_host E login"
  "begin_operation (with_login E A) = begin_operation E"
  "ssh_failed (with_login E A) m = ssh_failed E m" "ssh_client_close (with_login E A) = ssh_client_close E"
  unfolding connect_tcp_def connect_handshake_def connect_host_def begin_operation_def ssh_failed_def ssh_client_close_def
    other_addresses other_parts other_waits other_fields other_login by (rule refl)+

lemma host_yields:
  assumes "unverified E login"
  shows "yields (\<lambda>r. r \<noteq> Proceed) (connect_host E login)"
proof -
  have "wp (connect_host E login) (\<lambda>r t. r \<noteq> Proceed) s" for s
    using assms by (auto simp: connect_host_def unverified_def ssh_refused_def set_phase_to_def report_def wp
      split: prod.splits option.splits) (metis fst_conv option.simps(5))+
  then show ?thesis by (simp add: yields_def)
qed

lemma host_stops:
  assumes "unverified E login"
  shows "then_step (connect_host E login) c = connect_host E login"
proof -
  have "run_state (then_step (connect_host E login) c) s = run_state (connect_host E login) s" for s
    unfolding then_step_def using yieldsD [OF host_yields [OF assms]]
    by (cases "run_state (connect_host E login) s") (auto split: connect_step.splits)
  then show ?thesis by (metis state.expand ext)
qed

lemma then_yields: "yields (\<lambda>r. r \<noteq> Proceed) b \<Longrightarrow> yields (\<lambda>r. r \<noteq> Proceed) (then_step a b)"
  unfolding then_step_def by (auto intro!: yields split: connect_step.splits)

lemma steps_yield:
  assumes "unverified E login"
  shows "yields (\<lambda>ok. \<not> ok) (connect_steps E login)"
proof -
  have "yields (\<lambda>ok. \<not> ok) (case r of
       Proceed \<Rightarrow> ret True
     | Fail \<Rightarrow> do { phase \<leftarrow> gets hc_phase; ssh_failed E (ssh_phase_name phase); ssh_client_close E; ret False }
     | Closed \<Rightarrow> do { ssh_client_close E; ret False })" if "r \<noteq> Proceed" for r
    using that by (cases r) (auto intro!: yields)
  then show ?thesis
    unfolding connect_steps_def host_stops [OF assms]
    by (intro yields_bind [of _ "\<lambda>_. _ \<bind> _"] yields_then [OF then_yields [OF then_yields [OF host_yields [OF assms]]]])
qed

text \<open>C24 (safety): while no key the host shows has the saved fingerprint, or none is saved, connecting fails and neither the
  secret, the path of the key file nor any call of the login has an influence on it: nothing of the login is sent.\<close>

theorem unverified_host_gets_nothing:
  assumes "unverified E login"
  shows "ssh_client_connect (with_login E A) (login\<lparr>lg_secret := x, lg_key_file := k\<rparr>) r w = ssh_client_connect E login r w
    \<and> \<not> fst (ssh_client_connect E login r w)"
proof -
  have other: "unverified (with_login E A) (login\<lparr>lg_secret := x, lg_key_file := k\<rparr>)"
    using assms unfolding unverified_def other_fields other_login .
  have "connect_steps (with_login E A) (login\<lparr>lg_secret := x, lg_key_file := k\<rparr>) = connect_steps E login"
    unfolding connect_steps_def host_stops [OF other] host_stops [OF assms] other_start ..
  moreover have "\<not> fst (run_state (connect_steps E login) t)" for t
    using yieldsD [OF steps_yield [OF assms]] by (cases "run_state (connect_steps E login) t") simp
  ultimately show ?thesis by (simp add: ssh_client_connect_def)
qed

subsection \<open>The output of a command\<close>

definition last_bytes :: "byte list \<Rightarrow> byte list" where
  "last_bytes b = drop (length b - (SSH_OUTPUT_CAP - 1)) b"

lemma append_is_tail:
  assumes "hr_output r = last_bytes b" and "hr_output_truncated r \<longleftrightarrow> length b \<ge> SSH_OUTPUT_CAP"
  shows "hr_output (append_output c r) = last_bytes (b @ c)"
    and "hr_output_truncated (append_output c r) \<longleftrightarrow> length (b @ c) \<ge> SSH_OUTPUT_CAP"
proof -
  define k where "k = SSH_OUTPUT_CAP - 1"
  have lb: "last_bytes x = drop (length x - k) x" for x by (simp add: last_bytes_def k_def)
  have cap: "SSH_OUTPUT_CAP = Suc k" by (simp add: k_def SSH_OUTPUT_CAP_def)
  have out: "hr_output r = drop (length b - k) b" "length (hr_output r) = min (length b) k"
    using assms(1) by (simp_all add: last_bytes_def k_def)
  show "hr_output (append_output c r) = last_bytes (b @ c)"
  proof (cases "length c \<ge> SSH_OUTPUT_CAP")
    case True
    then show ?thesis by (simp add: append_output_def last_bytes_def cap)
  next
    case False
    then have r: "hr_output (append_output c r) = drop (length (hr_output r) + length c - k) (hr_output r) @ c"
      by (simp add: append_output_def cap)
    have "length b + length c - k = (length (hr_output r) + length c - k) + (length b - k)" "length b + length c - k - length b = 0"
      using False cap out(2) by simp_all
    moreover have "drop m (hr_output r) = drop (m + (length b - k)) b" for m by (simp add: out(1))
    ultimately show ?thesis unfolding r lb by simp
  qed
  show "hr_output_truncated (append_output c r) \<longleftrightarrow> length (b @ c) \<ge> SSH_OUTPUT_CAP"
    using assms(2) out cap by (auto simp: append_output_def)
qed

text \<open>C28 (equivalence): what a command's result holds of its output is what cutting all of it to the last 65535 bytes gives,
  however it arrives in parts, and it is marked as cut exactly when something is missing.\<close>

theorem command_output_is_tail:
  "foldl (\<lambda>r c. append_output c r) (r\<lparr>hr_output := [], hr_output_truncated := False\<rparr>) cs =
     r\<lparr>hr_output := drop (length (concat cs) - 65535) (concat cs), hr_output_truncated := (length (concat cs) > 65535)\<rparr>"
proof -
  have frame: "append_output c r = r\<lparr>hr_output := hr_output (append_output c r), hr_output_truncated := hr_output_truncated (append_output c r)\<rparr>" for c r
    by (simp add: append_output_def)
  let ?out = "\<lambda>b. r\<lparr>hr_output := last_bytes b, hr_output_truncated := (length b \<ge> SSH_OUTPUT_CAP)\<rparr>"
  have "append_output c (?out b) = ?out (b @ c)" for b c
    using append_is_tail [of "?out b" b c] by (subst frame) simp
  then have "foldl (\<lambda>r c. append_output c r) (?out b) cs = ?out (b @ concat cs)" for b
  proof (induction cs arbitrary: b)
    case (Cons c cs)
    show ?case using Cons [of "b @ c"] \<open>\<And>c b. append_output c (?out b) = ?out (b @ c)\<close> by simp
  qed simp
  from this [of "[]"] show ?thesis
    by (simp add: last_bytes_def SSH_OUTPUT_CAP_def Suc_le_eq [symmetric] numeral_eq_Suc [of "num.One"] flip: less_eq_Suc_le)
qed

subsection \<open>Exact reads\<close>

lemma loop_from_yields:
  assumes f: "\<And>x s. I x \<Longrightarrow> wp (f x) (\<lambda>r t. case r of Inl y \<Rightarrow> I y | Inr z \<Rightarrow> P z) s"
    and returns: "loop_from f x s = Some y" and "I x"
  shows "P (fst y)"
proof -
  let ?f = "\<lambda>g. \<forall>x s. I x \<longrightarrow> wp (g x) (\<lambda>r t. case r of Inl y \<Rightarrow> I y | Inr z \<Rightarrow> P z) s"
  have step: "?f g \<longrightarrow> I x \<longrightarrow> P (fst y)"
    if ih: "\<And>g x s y. again g x s = Some y \<Longrightarrow> ?f g \<longrightarrow> I x \<longrightarrow> P (fst y)"
      and eq: "(case run_state (g x) s of (r, s) \<Rightarrow> case r of Inl y \<Rightarrow> again g y s | Inr y \<Rightarrow> Some (y, s)) = Some y" for again g x s y
  proof (intro impI)
    assume g: "?f g" and x: "I x"
    obtain q t where q: "run_state (g x) s = (q, t)" by fastforce
    have "case q of Inl y \<Rightarrow> I y | Inr z \<Rightarrow> P z" using wpD [OF g [rule_format, OF x] q] .
    then show "P (fst y)" using eq q ih [of g _ t y] g by (auto split: sum.splits)
  qed
  have "case ((f, x), s) of (x, xa) \<Rightarrow> (case x of (x, xa) \<Rightarrow> \<lambda>s y. ?f x \<longrightarrow> I xa \<longrightarrow> P (fst y)) xa y"
    using loop_from.raw_induct [of "\<lambda>g x s y. ?f g \<longrightarrow> I x \<longrightarrow> P (fst y)" "((f, x), s)" y] step returns by (auto split: sum.splits)
  then have "?f f \<longrightarrow> I x \<longrightarrow> P (fst y)" by (simp only: prod.case)
  then show ?thesis using f \<open>I x\<close> by blast
qed

lemma loop_yields:
  assumes "\<And>x s. I x \<Longrightarrow> wp (f x) (\<lambda>r t. case r of Inl y \<Rightarrow> I y | Inr z \<Rightarrow> P z) s" and "P stuck" and "I x"
  shows "yields P (loop f stuck x)"
  using assms loop_from_yields [of I f P] by (auto simp: yields_def loop_def wp split: option.splits prod.splits)

definition bounded_reads :: "'w ssh_env \<Rightarrow> bool" where
  "bounded_reads E \<longleftrightarrow> (\<forall>ch i n w. case fst (h_channel_read E ch i n w) of Inl _ \<Rightarrow> True | Inr b \<Rightarrow> length b \<le> n)"

lemma read_part_bounds:
  assumes "bounded_reads E" and "length got \<le> n"
  shows "wp (protocol_read_part E ch n got) (\<lambda>r t. case r of Inl y \<Rightarrow> length y \<le> n
    | Inr z \<Rightarrow> (case z of None \<Rightarrow> True | Some b \<Rightarrow> length b = n)) s"
proof -
  let ?Q = "\<lambda>r t. case r of Inl y \<Rightarrow> length y \<le> n | Inr z \<Rightarrow> (case z of None \<Rightarrow> True | Some b \<Rightarrow> length b = n)"
  have keep: "wp c (\<lambda>_. ?Q (Inl got)) t" "wp c (\<lambda>_. ?Q (Inr None)) t" for c :: "('a, 'b) ssh_cmd" and t
    by (rule wp_any, simp add: assms(2))+
  have some: "wp (do { protocol_later E; ret (Inl (got @ b)) }) ?Q t" if "length b \<le> n - length got" for b t
    unfolding wp_bind by (rule wp_any) (use that assms(2) in \<open>simp add: wp\<close>)
  have none: "wp (do {
       ask (h_channel_read E ch 1 512);
       gone \<leftarrow> (if b then ret True
               else do {
                 eof \<leftarrow> ask (h_channel_eof E ch);
                 (if eof then ret True else do { on \<leftarrow> waiting E; ret (\<not> on) }) });
       if gone then do { read_failed E ch; ret (Inr None) } else ret (Inl got) }) ?Q t" for b t
    unfolding wp_bind by (rule wp_any, rule wp_any) (simp add: wp keep assms(2))
  show ?thesis
  proof (cases "length got \<ge> n")
    case True
    then show ?thesis using assms(2) by (simp add: protocol_read_part_def wp)
  next
    case False
    have read: "wp (do {
         r \<leftarrow> ask (h_channel_read E ch 0 (n - length got));
         case (case r of Inr b \<Rightarrow> if b = [] then None else Some b | Inl _ \<Rightarrow> None) of
           Some b \<Rightarrow> do { protocol_later E; ret (Inl (got @ b)) }
         | None \<Rightarrow> do {
             ask (h_channel_read E ch 1 512);
             gone \<leftarrow> (if (case r of Inl e \<Rightarrow> e < 0 \<and> e \<noteq> SSH_EAGAIN | Inr _ \<Rightarrow> False) then ret True
                     else do {
                       eof \<leftarrow> ask (h_channel_eof E ch);
                       (if eof then ret True else do { on \<leftarrow> waiting E; ret (\<not> on) }) });
             if gone then do { read_failed E ch; ret (Inr None) } else ret (Inl got) } }) ?Q t" for t
    proof -
      obtain r w where r: "h_channel_read E ch 0 (n - length got) (hc_world t) = (r, w)" by fastforce
      then have "case r of Inl _ \<Rightarrow> True | Inr b \<Rightarrow> length b \<le> n - length got"
        using assms(1) unfolding bounded_reads_def by (metis fst_conv)
      then have b: "length b \<le> n - length got" if "(case r of Inr b \<Rightarrow> if b = [] then None else Some b | Inl _ \<Rightarrow> None) = Some b" for b
        using that by (auto split: sum.splits if_splits)
      show ?thesis
        unfolding wp_bind [of "ask (h_channel_read E ch 0 (n - length got))"] wp_ask r prod.case
      proof (cases "case r of Inr b \<Rightarrow> if b = [] then None else Some b | Inl _ \<Rightarrow> None", goal_cases)
        case 1
        show ?case unfolding 1 option.case by (rule none)
      next
        case (2 b)
        show ?case unfolding 2 option.case by (rule some [OF b [OF 2]])
      qed
    qed
    show ?thesis unfolding protocol_read_part_def if_not_P [OF False] wp_bind [of "stopped E"]
      by (rule wp_any) (use read keep in \<open>auto simp: wp_bind [of "ssh_failed E _"] wp_return wp_if\<close>)
  qed
qed


text \<open>C27 (bounds): a read of the synchronisation protocol gives exactly the bytes it was asked for or fails, in however many
  parts the channel delivers them.\<close>

theorem protocol_read_exact:
  assumes "bounded_reads E"
  shows "case fst (run_state (ssh_client_protocol_read E n) s) of None \<Rightarrow> True | Some b \<Rightarrow> length b = n \<and> n \<le> 16 * 1024 * 1024"
proof -
  have "yields (\<lambda>z. case z of None \<Rightarrow> True | Some b \<Rightarrow> length b = n) (loop (protocol_read_part E ch n) None [])" for ch
    by (rule loop_yields [where I = "\<lambda>got. length got \<le> n"]) (simp_all add: read_part_bounds [OF assms])
  then have "yields (\<lambda>z. case z of None \<Rightarrow> True | Some b \<Rightarrow> length b = n \<and> n \<le> 16 * 1024 * 1024) (ssh_client_protocol_read E n)"
    unfolding ssh_client_protocol_read_def
    by (intro yields_bind yields_option yields_if yields_ret) (auto intro!: yields elim: yields_mono split: option.splits)
  from yieldsD [OF this] show ?thesis by (metis prod.collapse)
qed

subsection \<open>Examples\<close>

type_synonym ssh_disks = "(wstr \<Rightarrow> byte list option) \<times> (byte list \<Rightarrow> byte list option)"

definition demo_ssh :: "ssh_disks ssh_env" where
  \<comment> \<open>the world: the local files and those of the server\<close>
  "demo_ssh = \<lparr>h_cancelled = (\<lambda>w. (False, w)), h_tick = (\<lambda>w. (0, w)), h_directions = (\<lambda>w. (3, w)),
     h_select = (\<lambda>_ _ w. (None, w)), h_errno = (\<lambda>w. (0, w)), h_message = (\<lambda>w. ([], w)),
     h_sftp_errno = (\<lambda>w. (0, w)), h_system_message = (\<lambda>_. []), h_progress = None, h_percent = (\<lambda>_ _. 0),
     h_narrow = (\<lambda>t. Some (map (\<lambda>c. of_nat (unat c)) t)),
     h_wide = (\<lambda>b. Some (map (\<lambda>c. of_nat (unat c)) b)), h_upper = id, h_resolve = (\<lambda>_ _ w. (Inr 1, w)),
     h_open_socket = (\<lambda>_ w. (None, w)), h_nonblocking = (\<lambda>w. (None, w)), h_connect = (\<lambda>_ w. (None, w)),
     h_connect_wait = (\<lambda>w. (WaitNone, w)), h_close_socket = id, h_session_open = (\<lambda>w. (True, w)),
     h_methods = (\<lambda>w. (True, w)), h_handshake = (\<lambda>w. (0, w)), h_host_hash = (\<lambda>w. (Some (replicate 32 7), w)),
     h_auth_list = (\<lambda>_ w. (Some [], w)), h_authenticated = (\<lambda>w. (False, w)),
     h_key_file = (\<lambda>_ w. (KeyMissing 2, w)), h_file_error = (\<lambda>w. (0, w)), h_public_key = (\<lambda>_ _ _ w. (0, w)),
     h_password = (\<lambda>_ _ w. (0, w)), h_sftp_open = (\<lambda>w. (True, w)), h_close_all = id,
     h_real_path = (\<lambda>p w. (Inr p, w)), h_open = (\<lambda>p _ w. (if snd w p = None then None else Some 0, w)),
     h_close = (\<lambda>_ w. (0, w)), h_read_dir = (\<lambda>_ w. (Inl 0, w)),
     h_lstat = (\<lambda>p w. (case snd w p of None \<Rightarrow> Inl (-31) | Some c \<Rightarrow> Inr \<lparr>at_permissions = 33188, at_size = length c\<rparr>, w)),
     h_mkdir = (\<lambda>_ w. (0, w)), h_rename = (\<lambda>_ _ w. (-31, w)), h_rmdir = (\<lambda>p w. (0, (fst w, (snd w)(p := None)))),
     h_unlink = (\<lambda>p w. (0, (fst w, (snd w)(p := None)))), h_read = (\<lambda>_ w. (Inr [], w)),
     h_write = (\<lambda>_ _ w. (-31, w)), h_local_attributes = (\<lambda>p w. (map_option (\<lambda>_. (False, False)) (fst w p), w)),
     h_local_mkdir = (\<lambda>_ w. (True, w)), h_local_find = (\<lambda>_ w. (FindNone, w)),
     h_local_open = (\<lambda>p w. (fst w p \<noteq> None, w)),
     h_local_create = (\<lambda>p w. if fst w p = None then (True, ((fst w)(p \<mapsto> []), snd w)) else (False, w)),
     h_local_size = (\<lambda>p w. (map_option length (fst w p), w)), h_local_read = (\<lambda>_ w. (Some [], w)),
     h_local_write = (\<lambda>p b w. (True, ((fst w)(p := map_option (\<lambda>c. c @ b) (fst w p)), snd w))),
     h_local_flush = (\<lambda>_ w. (True, w)), h_local_close = (\<lambda>_ w. w),
     h_local_delete = (\<lambda>p w. (True, ((fst w)(p := None), snd w))), h_channel = (\<lambda>w. (Some 0, w)),
     h_exec = (\<lambda>_ _ w. (0, w)), h_pty = (\<lambda>_ _ _ w. (0, w)), h_pty_size = (\<lambda>_ _ _ w. (0, w)),
     h_channel_write = (\<lambda>_ b w. (int (length b), w)), h_channel_read = (\<lambda>_ _ n w. (Inr (replicate n 65), w)),
     h_send_eof = (\<lambda>_ w. (0, w)), h_channel_eof = (\<lambda>_ w. (True, w)), h_channel_close = (\<lambda>_ w. (0, w)),
     h_wait_closed = (\<lambda>_ w. (0, w)), h_exit_status = (\<lambda>_ w. (0, w)), h_exit_signal = (\<lambda>_ w. (False, w)),
     h_channel_free = (\<lambda>_ w. (0, w)), h_event = (\<lambda>w. (None, w)), h_startup = (\<lambda>w. (True, w)),
     h_ssh_init = (\<lambda>w. (True, w)), h_ssh_exit = id, h_cleanup = id\<rparr>"

definition empty_result :: SshResult where
  "empty_result = \<lparr>hr_code = 0, hr_exit_code = 0, hr_phase = SSH_PHASE_NONE, hr_native_error = 0, hr_ssh_error = 0, hr_sftp_error = 0,
     hr_cancelled = False, hr_error = [], hr_path = [], hr_fingerprint = [], hr_auth_methods = [], hr_entries = [], hr_output = [],
     hr_output_truncated = False\<rparr>"

definition demo_client :: "ssh_disks SshClient" where
  "demo_client = (empty_client (\<lambda>_. None, \<lambda>_. Some [1]) empty_result)\<lparr>hc_terminal := Some 0\<rparr>"

definition new_login :: SshLogin where
  "new_login = \<lparr>lg_server = zero_server, lg_secret = W ''secret'', lg_key_file = [], lg_fingerprint = []\<rparr>"

lemma demo_remote_ok: "remote_ok demo_ssh snd"
  by (simp add: remote_ok_def idle_calls_def keeps_to_def demo_ssh_def)

lemma demo_local_ok: "local_ok demo_ssh fst"
  by (simp add: local_ok_def idle_calls_def keeps_to_def demo_ssh_def)



theorem unverified_host_gets_nothing_witness:
  "unverified demo_ssh new_login
   \<and> ssh_client_connect demo_ssh (new_login\<lparr>lg_secret := W ''other'', lg_key_file := []\<rparr>) empty_result (\<lambda>_. None, \<lambda>_. None)
     = ssh_client_connect demo_ssh new_login empty_result (\<lambda>_. None, \<lambda>_. None)"
proof -
  have u: "unverified demo_ssh new_login" by (simp add: unverified_def new_login_def demo_ssh_def)
  have "with_login demo_ssh demo_ssh = demo_ssh" by (simp add: with_login_def)
  then show ?thesis using unverified_host_gets_nothing [OF u, where A = demo_ssh and x = "W ''other''" and k = "[]"] u by simp
qed

theorem protocol_read_exact_witness:
  "bounded_reads demo_ssh
   \<and> (case fst (run_state (ssh_client_protocol_read demo_ssh 8) demo_client) of None \<Rightarrow> True | Some b \<Rightarrow> length b = 8)"
proof -
  have b: "bounded_reads demo_ssh" by (simp add: bounded_reads_def demo_ssh_def)
  show ?thesis using protocol_read_exact [OF b, where n = 8 and s = demo_client] b by (auto split: option.splits)
qed

end
