(* ===== verification/Batch_Manager.thy ===== *)
theory Batch_Manager
  imports Storage_Tasks Batch_Runner
begin

text \<open>
  \<open>src/src/ui/batch_tasks.c\<close>: the manager of batch tasks behind its window. It keeps the saved tasks, the row that is
  edited, the results of the rows, the worker threads that run (one for a whole task, or one for each row that was
  started alone), and the queue of tasks that wait. The store of the application is a part of the state, so saving is
  the operation of \<open>Storage_Collections\<close>. The texts of the edit fields and the selection of the list are fields, for
  the user changes them; painting, layout, colours, timers and labels are not modelled, and texts are the English ones.
  While a question to the user is open, messages still arrive: \<open>asking\<close> says which one is.
\<close>

datatype StepStatus = BATCH_WAITING | BATCH_RUNNING | BATCH_SUCCEEDED | BATCH_FAILED | BATCH_SKIPPED
  | BATCH_CANCELLED | BATCH_CANCELLING

datatype RunEventType = EVENT_STARTED | EVENT_RESULT | EVENT_SKIPPED | EVENT_CANCELLED | EVENT_FINISHED

record BatchRunContext =
  rc_snapshot :: BatchTask
  rc_slot :: int

record BatchRunEvent =
  ev_type :: RunEventType
  ev_index :: int
  ev_success :: nat
  ev_failed :: nat
  ev_skipped :: nat
  ev_cancelled :: nat
  ev_total :: int
  ev_slot :: int
  ev_exit_code :: nat
  ev_error :: nat
  ev_output :: wstr

record BatchActiveRun =
  ar_worker :: "BatchRunContext option"     \<comment> \<open>the thread with its context; \<open>None\<close>: no thread\<close>
  ar_cancel :: "bool option"                \<comment> \<open>the event and whether it is set\<close>
  ar_row :: int
  ar_cancelling :: bool

record StepResult =                         \<comment> \<open>one index of \<open>statuses\<close>, \<open>exit_codes\<close>, \<open>errors\<close> and \<open>outputs\<close>\<close>
  sr_status :: StepStatus
  sr_exit_code :: nat
  sr_error :: nat
  sr_output :: wstr

record StepDrag =
  dg_armed :: bool
  dg_dragging :: bool
  dg_source :: int
  dg_insertion :: int

datatype Asking = AskDelete | AskFolder int | AskBrowse int int   \<comment> \<open>the task's id, the row\<close>

record 'w BatchUi = "'w Store" +
  bu_window :: bool
  loaded :: bool
  collection :: BatchTaskList
  selected_task :: int
  selected_step :: int
  list_selection :: int                     \<comment> \<open>\<open>LVNI_SELECTED\<close> of the list view, -1 for none\<close>
  results :: "StepResult list"
  active_runs :: "BatchActiveRun list"
  running :: int
  cancel_requested :: bool
  run_totals :: BatchResult
  task_queue :: BatchTaskQueue
  step_drag :: StepDrag
  name_edit :: wstr
  command_edit :: wstr
  mode_combo :: int                         \<comment> \<open>\<open>CB_GETCURSEL\<close>\<close>
  directory_edit :: wstr
  step_command_edit :: wstr
  asking :: "Asking option"

record 'w batch_ui_env = "'w store_env" +
  create_event :: "'w \<Rightarrow> bool \<times> 'w"
  create_thread :: "'w \<Rightarrow> bool \<times> 'w"
  create_window :: "'w \<Rightarrow> bool \<times> 'w"

type_synonym ('w, 'a) ui_cmd = "('w BatchUi, 'a) state"

definition cleared_result :: StepResult where
  "cleared_result = \<lparr>sr_status = BATCH_WAITING, sr_exit_code = 0, sr_error = 0, sr_output = []\<rparr>"

definition idle_slot :: BatchActiveRun where
  "idle_slot = \<lparr>ar_worker = None, ar_cancel = None, ar_row = 0, ar_cancelling = False\<rparr>"

definition task_of :: "'w BatchUi \<Rightarrow> BatchTask" where
  \<comment> \<open>the macro \<open>task\<close>\<close>
  "task_of s = btl_tasks (collection s) ! nat (selected_task s)"

definition put_task :: "BatchTask \<Rightarrow> 'w BatchUi \<Rightarrow> 'w BatchUi" where
  "put_task t s = s\<lparr>collection := (collection s)\<lparr>btl_tasks := (btl_tasks (collection s))[nat (selected_task s) := t]\<rparr>\<rparr>"

definition has_tasks :: "'w BatchUi \<Rightarrow> bool" where "has_tasks s \<longleftrightarrow> btl_count (collection s) \<noteq> 0"

subsection \<open>Runs\<close>

definition whole_task_running :: "'w BatchUi \<Rightarrow> bool" where
  "whole_task_running s \<longleftrightarrow> list_ex (\<lambda>a. ar_worker a \<noteq> None \<and> ar_row a < 0) (active_runs s)"

definition active_step :: "'w BatchUi \<Rightarrow> int \<Rightarrow> nat option" where
  \<comment> \<open>the slot of the row\<close>
  "active_step s index =
     (if index < 0 then None
      else List.find (\<lambda>i. ar_worker (active_runs s ! i) \<noteq> None \<and> ar_row (active_runs s ! i) = index)
        [0..<length (active_runs s)])"

definition step_running :: "'w BatchUi \<Rightarrow> int \<Rightarrow> bool" where
  "step_running s index \<longleftrightarrow> whole_task_running s \<or> active_step s index \<noteq> None"

definition step_available :: "'w BatchUi \<Rightarrow> int \<Rightarrow> bool" where
  "step_available s index \<longleftrightarrow> has_tasks s \<and> 0 \<le> index \<and> index < directory_count (task_of s)
     \<and> \<not> cancel_requested s \<and> \<not> step_running s index"

definition stop_slot :: "BatchActiveRun \<Rightarrow> BatchActiveRun" where
  "stop_slot a = a\<lparr>ar_cancelling := True, ar_cancel := Some True\<rparr>"

definition cancel_runs :: "'w BatchUi \<Rightarrow> 'w BatchUi" where
  "cancel_runs s = s\<lparr>active_runs := map (\<lambda>a. if ar_cancel a \<noteq> None then stop_slot a else a) (active_runs s)\<rparr>"

definition set_status :: "int \<Rightarrow> StepStatus \<Rightarrow> 'w BatchUi \<Rightarrow> 'w BatchUi" where
  "set_status index st s = s\<lparr>results := (results s)[nat index := (results s ! nat index)\<lparr>sr_status := st\<rparr>]\<rparr>"

definition clear_results :: "(nat \<Rightarrow> bool) \<Rightarrow> nat \<Rightarrow> 'w BatchUi \<Rightarrow> 'w BatchUi" where
  \<comment> \<open>the rows below \<open>n\<close> that are picked go back to waiting\<close>
  "clear_results pick n s = s\<lparr>results := map (\<lambda>i. if i < n \<and> pick i then cleared_result else results s ! i) [0..<length (results s)]\<rparr>"

subsection \<open>What the rows show\<close>

definition trim_message :: "wstr \<Rightarrow> wstr" where
  "trim_message m = rev (dropWhile (\<lambda>c. c = 13 \<or> c = 10 \<or> c = 32 \<or> c = 46) (rev m))"

definition system_error_text :: "(nat \<Rightarrow> wstr) \<Rightarrow> nat \<Rightarrow> nat \<Rightarrow> wstr" where
  \<comment> \<open>\<open>format\<close> is \<open>FormatMessageW\<close>, empty when it fails or the text does not fit\<close>
  "system_error_text format error capacity =
     (if capacity = 0 \<or> error = 0 then [] else trim_message (let m = format error in if length m < capacity then m else []))"

definition result_detail :: "(nat \<Rightarrow> wstr) \<Rightarrow> 'w BatchUi \<Rightarrow> int \<Rightarrow> nat \<Rightarrow> wstr" where
  "result_detail format s index capacity =
     (if capacity = 0 \<or> index < 0 \<or> index \<ge> directory_count (task_of s) then []
      else let r = results s ! nat index in
        if sr_output r \<noteq> [] then take (capacity - 1) (sr_output r)
        else if sr_error r \<noteq> 0 \<and> sr_error r \<noteq> ERROR_CANCELLED then system_error_text format (sr_error r) capacity
        else [])"

definition status_text :: "StepStatus \<Rightarrow> wstr" where
  "status_text st = (case st of
     BATCH_RUNNING \<Rightarrow> W ''Running'' | BATCH_SUCCEEDED \<Rightarrow> W ''Succeeded'' | BATCH_FAILED \<Rightarrow> W ''Failed''
   | BATCH_SKIPPED \<Rightarrow> W ''Skipped'' | BATCH_CANCELLED \<Rightarrow> W ''Cancelled'' | BATCH_CANCELLING \<Rightarrow> W ''Cancelling'' @ [8230]
   | BATCH_WAITING \<Rightarrow> W ''Waiting'')"

definition row_text :: "(nat \<Rightarrow> wstr) \<Rightarrow> 'w BatchUi \<Rightarrow> int \<Rightarrow> wstr" where
  \<comment> \<open>the third column of \<open>refresh_row\<close>\<close>
  "row_text format s index =
     (let r = results s ! nat index; detail = result_detail format s index BATCH_OUTPUT_CAP in
      if sr_status r = BATCH_FAILED then
        (if sr_error r \<noteq> 0 \<and> detail \<noteq> [] then W ''Failed (Windows '' @ dec (int (sr_error r)) @ W ''): '' @ detail
         else if sr_error r \<noteq> 0 then W ''Failed (Windows '' @ dec (int (sr_error r)) @ W '')''
         else if detail \<noteq> [] then W ''Failed (exit '' @ dec (int (sr_exit_code r)) @ W ''): '' @ detail
         else W ''Failed (exit '' @ dec (int (sr_exit_code r)) @ W ''; no output)'')
      else if sr_status r = BATCH_SUCCEEDED \<and> sr_output r \<noteq> [] then W ''Succeeded: '' @ sr_output r
      else status_text (sr_status r))"

definition result_summary :: "(nat \<Rightarrow> wstr) \<Rightarrow> 'w BatchUi \<Rightarrow> int \<Rightarrow> wstr option" where
  \<comment> \<open>\<open>show_result_summary\<close>: the new line below the list\<close>
  "result_summary format s index =
     (if index < 0 \<or> index \<ge> directory_count (task_of s) then None
      else let r = results s ! nat index; detail = result_detail format s index BATCH_OUTPUT_CAP in
        if sr_status r = BATCH_FAILED then
          Some (if detail \<noteq> [] then W ''Failure details: '' @ take 230 detail
                else if sr_error r \<noteq> 0 then W ''Execution failed (Windows error '' @ dec (int (sr_error r)) @ W '').''
                else W ''Command failed (exit '' @ dec (int (sr_exit_code r)) @ W '') and produced no output.'')
        else if sr_status r = BATCH_CANCELLED then Some (W ''The active command was terminated.'')
        else None)"

definition result_dialog :: "(nat \<Rightarrow> wstr) \<Rightarrow> 'w BatchUi \<Rightarrow> int \<Rightarrow> wstr option" where
  \<comment> \<open>\<open>show_result_dialog\<close>: the text of the message box\<close>
  "result_dialog format s index =
     (if index < 0 \<or> index \<ge> directory_count (task_of s) then None
      else let r = results s ! nat index; detail = result_detail format s index BATCH_OUTPUT_CAP;
          detail = (if detail = [] then W ''The command produced no output.'' else detail);
          folder = W ''Folder: '' @ directories (task_of s) ! nat index in
        if sr_status r \<noteq> BATCH_FAILED \<and> sr_status r \<noteq> BATCH_CANCELLED \<and> sr_status r \<noteq> BATCH_SUCCEEDED then None
        else if sr_status r = BATCH_CANCELLED then
          Some (folder @ [10, 10] @ W ''The active command was terminated.'' @ [10, 10] @ W ''Last output:'' @ [10] @ detail)
        else if sr_error r \<noteq> 0 then
          Some (folder @ [10] @ W ''Windows error: '' @ dec (int (sr_error r)) @ [10, 10] @ detail)
        else Some (folder @ [10] @ W ''Exit code: '' @ dec (int (sr_exit_code r)) @ [10, 10] @ detail))"

subsection \<open>The list, the fields and saving\<close>

definition cancel_step_drag :: "'w BatchUi \<Rightarrow> 'w BatchUi" where
  "cancel_step_drag s = s\<lparr>step_drag := (step_drag s)\<lparr>dg_armed := False, dg_dragging := False, dg_insertion := -1\<rparr>\<rparr>"

definition show_step :: "'w BatchUi \<Rightarrow> 'w BatchUi" where
  "show_step s =
     (let step = selected_step s; available = has_tasks s \<and> 0 \<le> step \<and> step < directory_count (task_of s) in
      s\<lparr>directory_edit := (if available then directories (task_of s) ! nat step else []),
        step_command_edit := (if available then batch_task_command (Some (task_of s)) step else [])\<rparr>)"

definition refresh_list :: "'w BatchUi \<Rightarrow> 'w BatchUi" where
  "refresh_list s =
     (if \<not> bu_window s then s
      else let s = cancel_step_drag s;
        step = (if selected_step s \<ge> directory_count (task_of s) then directory_count (task_of s) - 1 else selected_step s)
      in show_step (s\<lparr>selected_step := step, list_selection := step\<rparr>))"

definition show_task :: "'w BatchUi \<Rightarrow> 'w BatchUi" where
  "show_task s = refresh_list (s\<lparr>selected_step := -1,
     name_edit := (if has_tasks s then bt_name (task_of s) else []),
     command_edit := (if has_tasks s then bt_command (task_of s) else []),
     mode_combo := bt_mode (task_of s),
     results := replicate (length (results s)) cleared_result\<rparr>)"

definition read_step :: "'w BatchUi \<Rightarrow> BatchTask \<Rightarrow> BatchTask option" where
  \<comment> \<open>\<open>None\<close>: the return value FALSE\<close>
  "read_step s t =
     (let step = selected_step s in
      if step < 0 \<or> step \<ge> directory_count t then Some t
      else if step_running s step then Some t
      else let directory = take (BATCH_DIRECTORY_CAP - 1) (directory_edit s);
          command = take (BATCH_COMMAND_CAP - 1) (step_command_edit s) in
        if directory = directories (task_of s) ! nat step \<and> command = batch_task_command (Some (task_of s)) step then Some t
        else let r = batch_task_edit_step (Some t) step (Some directory) (Some command) in
          if fst r = 0 then None else snd r)"

definition save_current :: "('w, 'y) store_env_scheme \<Rightarrow> BatchTask \<Rightarrow> ('w, bool) ui_cmd" where
  "save_current E value = do {
     previous \<leftarrow> gets task_of;
     modify (put_task value);
     l \<leftarrow> gets collection;
     r \<leftarrow> store_save_batch_tasks E l;
     modify (\<lambda>s. s\<lparr>collection := snd r\<rparr>);
     if fst r then ret True else do { modify (put_task previous); ret False } }"

definition edited_task :: "'w BatchUi \<Rightarrow> BatchTask option" where
  \<comment> \<open>\<open>next\<close>, what the fields make of the task; \<open>None\<close>: a field is refused\<close>
  "edited_task s =
     (let t = task_of s; free = (running s = 0);
          t = (if free then t\<lparr>bt_command := take (BATCH_COMMAND_CAP - 1) (command_edit s)\<rparr> else t) in
      if \<not> has_nonblank (bt_command t) then None
      else case read_step s t of None \<Rightarrow> None | Some t \<Rightarrow>
        let t = (if free then t\<lparr>bt_name := take (BATCH_NAME_CAP - 1) (name_edit s), bt_mode := mode_combo s\<rparr> else t) in
        if \<not> has_nonblank (bt_name t) then None else Some t)"

definition step_changed :: "BatchTask \<Rightarrow> BatchTask \<Rightarrow> nat \<Rightarrow> bool" where
  "step_changed t u i \<longleftrightarrow> directories u ! i \<noteq> directories t ! i
     \<or> batch_task_command (Some u) (int i) \<noteq> batch_task_command (Some t) (int i)"

definition save_command :: "('w, 'y) store_env_scheme \<Rightarrow> ('w, bool) ui_cmd" where
  \<comment> \<open>after a success a waiting queue is resumed by the message \<open>WM_BATCH_RESUME\<close>\<close>
  "save_command E = do {
     s \<leftarrow> gets (\<lambda>s. s);
     if whole_task_running s \<or> \<not> has_tasks s then ret True
     else (case edited_task s of
       None \<Rightarrow> ret False
     | Some t \<Rightarrow> do {
         saved \<leftarrow> save_current E t;
         if \<not> saved then ret False
         else do {
           modify (clear_results (step_changed (task_of s) t) (nat (directory_count t)));
           modify (put_task t);
           modify show_step;
           ret True } }) }"

definition move_cell :: "nat \<Rightarrow> nat \<Rightarrow> 'a list \<Rightarrow> 'a list" where
  \<comment> \<open>the loops of \<open>move_step\<close> over one array\<close>
  "move_cell source destination xs =
     (if source < destination then move_down source (Suc destination) xs else move_up destination source xs)
       [destination := xs ! source]"

definition move_step :: "('w, 'y) store_env_scheme \<Rightarrow> int \<Rightarrow> int \<Rightarrow> ('w, unit) ui_cmd" where
  "move_step E source destination = do {
     s \<leftarrow> gets (\<lambda>s. s);
     let n = directory_count (task_of s);
     if running s \<noteq> 0 \<or> \<not> has_tasks s \<or> source < 0 \<or> source \<ge> n \<or> destination < 0 \<or> destination \<ge> n
        \<or> source = destination then ret ()
     else do {
       saved \<leftarrow> save_command E;
       if \<not> saved then ret ()
       else do {
         t \<leftarrow> gets task_of;
         stored \<leftarrow> save_current E (t\<lparr>directories := move_cell (nat source) (nat destination) (directories t),
           commands := move_cell (nat source) (nat destination) (commands t)\<rparr>);
         if \<not> stored then ret ()
         else do {
           modify (\<lambda>s. s\<lparr>results := move_cell (nat source) (nat destination) (results s), selected_step := destination\<rparr>);
           modify refresh_list } } } }"

subsection \<open>Starting and stopping\<close>

definition free_slot :: "'w BatchUi \<Rightarrow> nat option" where
  "free_slot s = List.find (\<lambda>i. ar_worker (active_runs s ! i) = None) [0..<length (active_runs s)]"

definition run_context :: "BatchTask \<Rightarrow> int \<Rightarrow> nat \<Rightarrow> BatchRunContext" where
  \<comment> \<open>the immutable copy the worker runs: the task, or a task of the row alone\<close>
  "run_context t row slot =
     \<lparr>rc_snapshot = (if row < 0 then t else t\<lparr>directories := (directories t)[0 := directories t ! nat row],
          commands := (commands t)[0 := batch_task_command (Some t) row], directory_count := 1, bt_mode := BATCH_SEQUENTIAL\<rparr>),
      rc_slot = int slot\<rparr>"

definition select_id :: "int \<Rightarrow> 'w BatchUi \<Rightarrow> 'w BatchUi" where
  "select_id ident s =
     (case List.find (\<lambda>i. bt_id (btl_tasks (collection s) ! i) = ident) [0..<nat (btl_count (collection s))] of
        Some i \<Rightarrow> s\<lparr>selected_task := int i\<rparr> | None \<Rightarrow> s)"

definition enter_run :: "BatchTask \<Rightarrow> int \<Rightarrow> nat \<Rightarrow> 'w BatchUi \<Rightarrow> 'w BatchUi" where
  \<comment> \<open>after the thread was created\<close>
  "enter_run t row slot s =
     (let s = s\<lparr>active_runs := (active_runs s)[slot := \<lparr>ar_worker = Some (run_context t row slot), ar_cancel = Some False,
           ar_row = row, ar_cancelling = ar_cancelling (active_runs s ! slot)\<rparr>],
         run_totals := (if running s = 0 then zero_batch else run_totals s),
         running := running s + 1, cancel_requested := False\<rparr>;
       s = (if row \<ge> 0 then s\<lparr>results := (results s)[nat row := cleared_result\<lparr>sr_status := BATCH_RUNNING\<rparr>]\<rparr> else s)
      in refresh_list s)"

definition prepare_whole :: "'w BatchUi \<Rightarrow> 'w BatchUi" where
  "prepare_whole s =
     (let s = (if bu_window s then show_task s else s) in clear_results (\<lambda>_. True) (nat (directory_count (task_of s))) s)"

definition begin_task :: "('w, 'y) batch_ui_env_scheme \<Rightarrow> BatchTask \<Rightarrow> int \<Rightarrow> ('w, bool) ui_cmd" where
  \<comment> \<open>\<open>begin_task_impl\<close>; the row -1 is the whole task\<close>
  "begin_task E t row = do {
     s \<leftarrow> gets (\<lambda>s. s);
     if row < -1 \<or> row \<ge> directory_count t then ret False
     else if row < 0 \<and> running s \<noteq> 0 \<or> row \<ge> 0 \<and> \<not> step_available s row then ret False
     else (case free_slot s of
       None \<Rightarrow> ret False
     | Some slot \<Rightarrow> do {
         event \<leftarrow> lift (create_event E);
         if \<not> event then ret False
         else do {
           modify (select_id (bt_id t));
           (if row < 0 then modify prepare_whole else ret ());
           worker \<leftarrow> lift (create_thread E);
           if \<not> worker then ret False
           else do { modify (enter_run t row slot); ret True } } }) }"

fun start_queued :: "('w, 'y) batch_ui_env_scheme \<Rightarrow> nat \<Rightarrow> ('w, bool) ui_cmd" where
  \<comment> \<open>the loop over the queue, which every round makes shorter\<close>
  "start_queued E 0 = ret False"
| "start_queued E (Suc n) = do {
     q \<leftarrow> gets task_queue;
     (case batch_task_queue_take (Some q) True of
       None \<Rightarrow> ret False
     | Some (t, q) \<Rightarrow> do {
         modify (\<lambda>s. s\<lparr>task_queue := q\<rparr>);
         ok \<leftarrow> begin_task E t (-1);
         if ok then ret True
         else do { modify (\<lambda>s. s\<lparr>task_queue := (task_queue s)\<lparr>active_id := 0\<rparr>\<rparr>); start_queued E n } }) }"

definition start_next_task :: "('w, 'y) batch_ui_env_scheme \<Rightarrow> ('w, bool) ui_cmd" where
  "start_next_task E = do {
     s \<leftarrow> gets (\<lambda>s. s);
     if running s \<noteq> 0 then ret False
     else do {
       saved \<leftarrow> (if bu_window s then save_command E else ret True);
       if \<not> saved then ret False
       else do { n \<leftarrow> gets (\<lambda>s. q_count (task_queue s)); start_queued E (nat n) } } }"

definition close_window :: "'w BatchUi \<Rightarrow> 'w BatchUi" where
  \<comment> \<open>\<open>WM_DESTROY\<close>, with the drag the list cancels\<close>
  "close_window s = (cancel_step_drag s)\<lparr>bu_window := False, selected_step := -1, list_selection := -1\<rparr>"

definition batch_tasks_open :: "('w, 'y) batch_ui_env_scheme \<Rightarrow> ('w, bool) ui_cmd" where
  \<comment> \<open>\<open>WM_CREATE\<close> fills the fields from the task\<close>
  "batch_tasks_open E = do {
     s \<leftarrow> gets (\<lambda>s. s);
     if bu_window s then ret True
     else do {
       ready \<leftarrow> (if loaded s then ret True else do {
         l \<leftarrow> store_load_batch_tasks E;
         case l of None \<Rightarrow> ret False
         | Some l \<Rightarrow> do { modify (\<lambda>s. s\<lparr>collection := l, loaded := True\<rparr>); ret True } });
       if \<not> ready then ret False
       else do {
         created \<leftarrow> lift (create_window E);
         if \<not> created then ret False
         else do {
           modify (\<lambda>s. refresh_list (s\<lparr>bu_window := True, selected_step := -1, list_selection := -1,
             name_edit := bt_name (task_of s), command_edit := bt_command (task_of s), mode_combo := bt_mode (task_of s)\<rparr>));
           ret True } } } }"

definition batch_tasks_lookup :: "('w, 'y) store_env_scheme \<Rightarrow> int \<Rightarrow> ('w, BatchTask option) ui_cmd" where
  "batch_tasks_lookup E ident =
     (if ident \<le> 0 then ret None
      else do {
        s \<leftarrow> gets (\<lambda>s. s);
        ready \<leftarrow> (if loaded s then ret True else do {
          l \<leftarrow> store_load_batch_tasks E;
          case l of None \<Rightarrow> ret False
          | Some l \<Rightarrow> do { modify (\<lambda>s. s\<lparr>collection := l, loaded := True\<rparr>); ret True } });
        c \<leftarrow> gets collection;
        ret (if ready then List.find (\<lambda>t. bt_id t = ident) (take (nat (btl_count c)) (btl_tasks c)) else None) })"

definition queue_task :: "('w, 'y) batch_ui_env_scheme \<Rightarrow> BatchTask \<Rightarrow> ('w, bool) ui_cmd" where
  \<comment> \<open>the end of \<open>batch_tasks_launch\<close>\<close>
  "queue_task E t = do {
     q \<leftarrow> gets task_queue;
     let r = batch_task_queue_add (Some q) (Some t);
     (case snd r of Some q \<Rightarrow> modify (\<lambda>s. s\<lparr>task_queue := q\<rparr>) | None \<Rightarrow> ret ());
     if fst r < 0 then ret False
     else do {
       n \<leftarrow> gets running;
       (if n = 0 then start_next_task E else ret True) } }"

definition launch_found :: "('w, 'y) batch_ui_env_scheme \<Rightarrow> bool \<Rightarrow> BatchTask option \<Rightarrow> ('w, bool) ui_cmd" where
  "launch_found E shown value = (case value of
     None \<Rightarrow> ret False
   | Some t \<Rightarrow>
       if directory_count t = 0 then ret False
       else do {
         ready \<leftarrow> (if shown then ret True else batch_tasks_open E);
         if \<not> ready then ret False else queue_task E t })"

definition batch_tasks_launch :: "('w, 'y) batch_ui_env_scheme \<Rightarrow> int \<Rightarrow> ('w, bool) ui_cmd" where
  "batch_tasks_launch E ident = do {
     found \<leftarrow> batch_tasks_lookup E ident;
     if found = None then ret False
     else do {
       shown \<leftarrow> gets bu_window;
       saved \<leftarrow> (if shown then save_command E else ret True);
       if \<not> saved then ret False
       else do { value \<leftarrow> batch_tasks_lookup E ident; launch_found E shown value } } }"

definition batch_tasks_busy :: "'w BatchUi \<Rightarrow> bool" where
  "batch_tasks_busy s \<longleftrightarrow> running s \<noteq> 0 \<or> q_count (task_queue s) > 0"

definition start_or_cancel :: "('w, 'y) batch_ui_env_scheme \<Rightarrow> ('w, unit) ui_cmd" where
  "start_or_cancel E = do {
     s \<leftarrow> gets (\<lambda>s. s);
     if running s \<noteq> 0 then modify (\<lambda>s.
       let s = cancel_runs (s\<lparr>task_queue := the (batch_task_queue_cancel (Some (task_queue s))), cancel_requested := True\<rparr>) in
       fold (\<lambda>a s. if ar_worker a \<noteq> None \<and> ar_row a \<ge> 0 then set_status (ar_row a) BATCH_CANCELLING s else s) (active_runs s) s)
     else if has_tasks s \<and> directory_count (task_of s) \<noteq> 0 then do {
       saved \<leftarrow> save_command E;
       if saved then do { ident \<leftarrow> gets (\<lambda>s. bt_id (task_of s)); batch_tasks_launch E ident; ret () } else ret () }
     else ret () }"

definition run_selected_step :: "('w, 'y) batch_ui_env_scheme \<Rightarrow> ('w, unit) ui_cmd" where
  "run_selected_step E = do {
     s \<leftarrow> gets (\<lambda>s. s);
     if \<not> step_available s (selected_step s) then ret ()
     else do {
       saved \<leftarrow> save_command E;
       if \<not> saved then ret ()
       else do {
         modify (\<lambda>s. s\<lparr>task_queue := (task_queue s)\<lparr>active_id := bt_id (task_of s)\<rparr>\<rparr>);
         s \<leftarrow> gets (\<lambda>s. s);
         ok \<leftarrow> begin_task E (task_of s) (selected_step s);
         n \<leftarrow> gets running;
         if \<not> ok \<and> n = 0 then modify (\<lambda>s. s\<lparr>task_queue := (task_queue s)\<lparr>active_id := 0\<rparr>\<rparr>) else ret () } } }"

definition cancel_selected_step :: "'w BatchUi \<Rightarrow> 'w BatchUi" where
  "cancel_selected_step s =
     (case active_step s (selected_step s) of
        None \<Rightarrow> s
      | Some i \<Rightarrow>
          if ar_cancelling (active_runs s ! i) \<or> cancel_requested s then s
          else set_status (selected_step s) BATCH_CANCELLING (s\<lparr>active_runs := (active_runs s)[i := stop_slot (active_runs s ! i)]\<rparr>))"

subsection \<open>What the workers report\<close>

definition event_type :: "BatchEvent \<Rightarrow> RunEventType" where
  \<comment> \<open>the two enumerations agree on their numbers\<close>
  "event_type e = (case e of BATCH_EVENT_STARTED \<Rightarrow> EVENT_STARTED | BATCH_EVENT_RESULT \<Rightarrow> EVENT_RESULT
     | BATCH_EVENT_SKIPPED \<Rightarrow> EVENT_SKIPPED | BATCH_EVENT_CANCELLED \<Rightarrow> EVENT_CANCELLED)"

definition run_progress :: "BatchRunContext \<Rightarrow> BatchEvent \<Rightarrow> int \<Rightarrow> nat \<Rightarrow> nat \<Rightarrow> wstr \<Rightarrow> BatchRunEvent" where
  "run_progress c e index code failure out =
     \<lparr>ev_type = event_type e, ev_index = index, ev_success = 0, ev_failed = 0, ev_skipped = 0, ev_cancelled = 0,
      ev_total = directory_count (rc_snapshot c), ev_slot = rc_slot c, ev_exit_code = code, ev_error = failure,
      ev_output = take (BATCH_OUTPUT_CAP - 1) out\<rparr>"

definition run_finished :: "BatchRunContext \<Rightarrow> BatchResult \<Rightarrow> BatchRunEvent" where
  \<comment> \<open>the completion \<open>run_worker\<close> posts\<close>
  "run_finished c r =
     \<lparr>ev_type = EVENT_FINISHED, ev_index = -1, ev_success = br_success r, ev_failed = br_failed r, ev_skipped = br_skipped r,
      ev_cancelled = br_cancelled r, ev_total = directory_count (rc_snapshot c), ev_slot = rc_slot c, ev_exit_code = 0,
      ev_error = 0, ev_output = []\<rparr>"

definition event_result :: "BatchActiveRun \<Rightarrow> BatchRunEvent \<Rightarrow> StepResult \<Rightarrow> StepResult" where
  \<comment> \<open>what an event makes of the result of its row\<close>
  "event_result a e r = (case ev_type e of
     EVENT_STARTED \<Rightarrow> r\<lparr>sr_status := (if ar_cancelling a then BATCH_CANCELLING else BATCH_RUNNING)\<rparr>
   | EVENT_SKIPPED \<Rightarrow> if ar_row a \<ge> 0 \<and> ar_cancelling a then r\<lparr>sr_status := BATCH_CANCELLED, sr_error := ERROR_CANCELLED\<rparr>
       else r\<lparr>sr_status := BATCH_SKIPPED\<rparr>
   | EVENT_CANCELLED \<Rightarrow> \<lparr>sr_status = BATCH_CANCELLED, sr_exit_code = ev_exit_code e, sr_error = ev_error e,
       sr_output = take (BATCH_OUTPUT_CAP - 1) (ev_output e)\<rparr>
   | EVENT_RESULT \<Rightarrow> \<lparr>sr_status = (if ev_error e \<noteq> 0 \<or> ev_exit_code e \<noteq> 0 then BATCH_FAILED else BATCH_SUCCEEDED),
       sr_exit_code = ev_exit_code e, sr_error = ev_error e, sr_output = take (BATCH_OUTPUT_CAP - 1) (ev_output e)\<rparr>
   | EVENT_FINISHED \<Rightarrow> r)"

definition add_totals :: "BatchActiveRun \<Rightarrow> BatchRunEvent \<Rightarrow> BatchResult \<Rightarrow> BatchResult" where
  \<comment> \<open>a row that was told to stop counts as cancelled also when it was skipped\<close>
  "add_totals a e r =
     (let moved = ar_row a \<ge> 0 \<and> ar_cancelling a in
      \<lparr>br_success = br_success r + ev_success e, br_failed = br_failed r + ev_failed e,
       br_skipped = br_skipped r + (if moved then 0 else ev_skipped e),
       br_cancelled = br_cancelled r + ev_cancelled e + (if moved then ev_skipped e else 0)\<rparr>)"

definition finish_run :: "nat \<Rightarrow> BatchRunEvent \<Rightarrow> 'w BatchUi \<Rightarrow> 'w BatchUi" where
  "finish_run slot e s =
     (let s = s\<lparr>run_totals := add_totals (active_runs s ! slot) e (run_totals s),
           active_runs := (active_runs s)[slot := idle_slot], running := running s - 1\<rparr>
      in if running s = 0 then s\<lparr>task_queue := (task_queue s)\<lparr>active_id := 0\<rparr>, cancel_requested := False\<rparr> else s)"

definition take_event :: "BatchRunEvent \<Rightarrow> 'w BatchUi \<Rightarrow> 'w BatchUi" where
  \<comment> \<open>\<open>batch_tasks_handle_event\<close> up to the start of the next task, for a slot that has a worker\<close>
  "take_event e s =
     (let slot = nat (ev_slot e); a = active_runs s ! slot;
          index = (if ev_type e \<noteq> EVENT_FINISHED \<and> ar_row a \<ge> 0 then ar_row a else ev_index e);
          s = (if 0 \<le> index \<and> index < directory_count (task_of s)
               then s\<lparr>results := (results s)[nat index := event_result a e (results s ! nat index)]\<rparr> else s)
      in if ev_type e = EVENT_FINISHED then finish_run slot e s else s)"

definition batch_tasks_handle_event :: "('w, 'y) batch_ui_env_scheme \<Rightarrow> BatchRunEvent \<Rightarrow> ('w, bool) ui_cmd" where
  "batch_tasks_handle_event E e = do {
     s \<leftarrow> gets (\<lambda>s. s);
     if ev_slot e < 0 \<or> ev_slot e \<ge> int BATCH_DIRECTORY_LIMIT \<or> ar_worker (active_runs s ! nat (ev_slot e)) = None
     then ret False
     else do {
       modify (take_event e);
       s \<leftarrow> gets (\<lambda>s. s);
       (if ev_type e = EVENT_FINISHED \<and> running s = 0 \<and> q_count (task_queue s) \<noteq> 0
        then do { start_next_task E; ret () } else ret ());
       ret True } }"

definition batch_tasks_shutdown :: "'w BatchUi \<Rightarrow> 'w BatchUi" where
  \<comment> \<open>every worker is waited for before its slot is cleared\<close>
  "batch_tasks_shutdown s =
     (let s = cancel_runs (s\<lparr>task_queue := the (batch_task_queue_cancel (Some (task_queue s)))\<rparr>);
          s = (if bu_window s then close_window s else s)
      in s\<lparr>active_runs := replicate (length (active_runs s)) idle_slot, running := 0, cancel_requested := False,
           task_queue := (task_queue s)\<lparr>active_id := 0\<rparr>\<rparr>)"

subsection \<open>Editing the tasks\<close>

definition browse_ask :: "'w BatchUi \<Rightarrow> 'w BatchUi" where
  "browse_ask s = (if step_available s (selected_step s) then s\<lparr>asking := Some (AskBrowse (bt_id (task_of s)) (selected_step s))\<rparr> else s)"

definition browse_chosen :: "int \<Rightarrow> int \<Rightarrow> wstr \<Rightarrow> 'w BatchUi \<Rightarrow> 'w BatchUi" where
  \<comment> \<open>the folder is taken only when the same row is still being edited\<close>
  "browse_chosen ident row path s =
     (if bu_window s \<and> bt_id (task_of s) = ident \<and> selected_step s = row \<and> step_available s row
      then s\<lparr>directory_edit := path\<rparr> else s)"

definition add_shortcut :: "('w, 'y) store_env_scheme \<Rightarrow> ('w, BatchTask option) ui_cmd" where
  \<comment> \<open>the task sent to the owner with \<open>WM_NOVA_BATCH_SHORTCUT\<close>\<close>
  "add_shortcut E = do {
     s \<leftarrow> gets (\<lambda>s. s);
     if running s \<noteq> 0 \<or> \<not> has_tasks s then ret None
     else do {
       saved \<leftarrow> save_command E;
       t \<leftarrow> gets task_of;
       ret (if saved then Some t else None) } }"

definition add_ask :: "('w, 'y) store_env_scheme \<Rightarrow> ('w, unit) ui_cmd" where
  \<comment> \<open>\<open>add_directory\<close> up to the question\<close>
  "add_ask E = do {
     s \<leftarrow> gets (\<lambda>s. s);
     if whole_task_running s \<or> cancel_requested s \<or> \<not> has_tasks s then ret ()
     else do {
       saved \<leftarrow> save_command E;
       if saved then modify (\<lambda>s. s\<lparr>asking := Some (AskFolder (bt_id (task_of s)))\<rparr>) else ret () } }"

definition add_chosen :: "('w, 'y) store_env_scheme \<Rightarrow> int \<Rightarrow> wstr \<Rightarrow> ('w, unit) ui_cmd" where
  \<comment> \<open>\<open>add_directory\<close> after it; a row that cannot be saved is removed again\<close>
  "add_chosen E ident directory = do {
     s \<leftarrow> gets (\<lambda>s. s);
     if \<not> bu_window s \<or> bt_id (task_of s) \<noteq> ident \<or> whole_task_running s \<or> cancel_requested s then ret ()
     else (case batch_task_add_directory (Some (task_of s)) (Some directory) of
       (r, Some t) \<Rightarrow>
         if r \<noteq> 1 then ret ()
         else do {
           let last = nat (directory_count t - 1);
           let t = t\<lparr>commands := (commands t)[last := bt_command t]\<rparr>;
           modify (put_task t);
           modify (set_status (int last) BATCH_WAITING);
           saved \<leftarrow> save_current E t;
           (if \<not> saved then modify (\<lambda>s. case snd (batch_task_remove_directory (Some (task_of s)) (int last)) of
                Some t \<Rightarrow> put_task t s | None \<Rightarrow> s)
            else modify (\<lambda>s. s\<lparr>selected_step := directory_count (task_of s) - 1\<rparr>));
           modify refresh_list }
     | (_, None) \<Rightarrow> ret ()) }"

definition remove_row :: "int \<Rightarrow> 'w BatchUi \<Rightarrow> 'w BatchUi" where
  \<comment> \<open>the rows and results behind a removed row move up, with the running ones\<close>
  "remove_row row s =
     (let n = nat (directory_count (task_of s)) in
      s\<lparr>active_runs := map (\<lambda>a. if ar_worker a \<noteq> None \<and> ar_row a > row then a\<lparr>ar_row := ar_row a - 1\<rparr> else a) (active_runs s),
        results := (move_down (nat row) (Suc n) (results s))[n := cleared_result]\<rparr>)"

definition remove_directory :: "('w, 'y) store_env_scheme \<Rightarrow> ('w, unit) ui_cmd" where
  "remove_directory E = do {
     s \<leftarrow> gets (\<lambda>s. s);
     if \<not> step_available s (selected_step s) then ret ()
     else do {
       saved \<leftarrow> save_command E;
       s \<leftarrow> gets (\<lambda>s. s);
       let row = list_selection s;
       if \<not> saved \<or> row < 0 then ret ()
       else (case batch_task_remove_directory (Some (task_of s)) row of
         (r, Some t) \<Rightarrow>
           if r = 0 then ret ()
           else do {
             modify (put_task t);
             stored \<leftarrow> save_current E t;
             (if stored then modify (remove_row row) else modify (put_task (task_of s)));
             modify (\<lambda>s. refresh_list (s\<lparr>selected_step := -1\<rparr>)) }
       | (_, None) \<Rightarrow> ret ()) } }"

definition new_task :: "('w, 'y) store_env_scheme \<Rightarrow> ('w, unit) ui_cmd" where
  "new_task E = do {
     s \<leftarrow> gets (\<lambda>s. s);
     if running s \<noteq> 0 \<or> btl_count (collection s) \<ge> int BATCH_TASK_LIMIT then ret ()
     else do {
       saved \<leftarrow> save_command E;
       if \<not> saved then ret ()
       else do {
         s \<leftarrow> gets (\<lambda>s. s);
         let n = btl_count (collection s);
         modify (\<lambda>s. put_task (zero_task\<lparr>bt_name := W ''Task '' @ dec (n + 1), bt_command := W ''git pull origin main''\<rparr>)
           (s\<lparr>selected_task := n, collection := (collection s)\<lparr>btl_count := n + 1\<rparr>\<rparr>));
         l \<leftarrow> gets collection;
         r \<leftarrow> store_save_batch_tasks E l;
         modify (\<lambda>s. s\<lparr>collection := snd r\<rparr>);
         (if fst r then modify show_task
          else modify (\<lambda>u. u\<lparr>collection := (collection u)\<lparr>btl_count := n\<rparr>, selected_task := selected_task s\<rparr>)) } } }"

definition delete_ask :: "'w BatchUi \<Rightarrow> 'w BatchUi" where
  \<comment> \<open>\<open>delete_task\<close> up to the question\<close>
  "delete_ask s = (if running s \<noteq> 0 \<or> \<not> has_tasks s then s else s\<lparr>asking := Some AskDelete\<rparr>)"

definition delete_confirmed :: "('w, 'y) store_env_scheme \<Rightarrow> ('w, unit) ui_cmd" where
  \<comment> \<open>\<open>delete_task\<close> after it\<close>
  "delete_confirmed E = do {
     s \<leftarrow> gets (\<lambda>s. s);
     let previous = collection s;
     let i = nat (selected_task s); let n = nat (btl_count previous);
     r \<leftarrow> store_save_batch_tasks E
       (previous\<lparr>btl_tasks := move_down i n (btl_tasks previous), btl_count := btl_count previous - 1\<rparr>);
     modify (\<lambda>s. s\<lparr>collection := snd r\<rparr>);
     (if \<not> fst r then modify (\<lambda>s. s\<lparr>collection := previous\<rparr>)
      else modify (\<lambda>s.
        let c = btl_count (collection s);
            s = (if selected_task s \<ge> c then s\<lparr>selected_task := (if c \<noteq> 0 then c - 1 else 0)\<rparr> else s)
        in if c = 0 then put_task zero_task s else s));
     modify show_task }"

definition close_manager :: "('w, 'y) batch_ui_env_scheme \<Rightarrow> ('w, unit) ui_cmd" where
  "close_manager E = do {
     saved \<leftarrow> save_command E;
     if \<not> saved then ret ()
     else do {
       modify close_window;
       s \<leftarrow> gets (\<lambda>s. s);
       (if running s = 0 \<and> q_count (task_queue s) \<noteq> 0 then do { start_next_task E; ret () } else ret ()) } }"

definition pick_task :: "('w, 'y) store_env_scheme \<Rightarrow> int \<Rightarrow> ('w, unit) ui_cmd" where
  \<comment> \<open>\<open>ID_TASKS\<close> with \<open>LBN_SELCHANGE\<close>\<close>
  "pick_task E i = do {
     s \<leftarrow> gets (\<lambda>s. s);
     if running s = 0 \<and> 0 \<le> i \<and> i < btl_count (collection s) \<and> i \<noteq> selected_task s then do {
       saved \<leftarrow> save_command E;
       if saved then modify (\<lambda>s. show_task (s\<lparr>selected_task := i\<rparr>)) else ret () }
     else ret () }"

definition pick_row :: "('w, 'y) store_env_scheme \<Rightarrow> int \<Rightarrow> ('w, unit) ui_cmd" where
  \<comment> \<open>\<open>LVN_ITEMCHANGING\<close> refuses to leave a row whose fields cannot be saved; then \<open>LVN_ITEMCHANGED\<close>\<close>
  "pick_row E row = do {
     s \<leftarrow> gets (\<lambda>s. s);
     let leaves = list_selection s \<ge> 0 \<and> list_selection s \<noteq> row;
     saved \<leftarrow> (if leaves then save_command E else ret True);
     if \<not> saved then ret ()
     else modify (\<lambda>s. if row = selected_step s then s\<lparr>list_selection := row\<rparr>
       else show_step (s\<lparr>list_selection := row, selected_step := row\<rparr>)) }"

subsection \<open>Dragging a row\<close>

fun insertion_from :: "(int \<Rightarrow> (int \<times> int) option) \<Rightarrow> int \<Rightarrow> int list \<Rightarrow> int \<Rightarrow> int" where
  \<comment> \<open>the loop of \<open>update_step_drag\<close> over the visible rows; \<open>rect\<close> gives top and bottom of a row\<close>
  "insertion_from rect y [] found = found"
| "insertion_from rect y (i # rows) found = (case rect i of
     None \<Rightarrow> found
   | Some (upper, lower) \<Rightarrow>
       if y < (if upper + lower \<ge> 0 then (upper + lower) div 2 else - (- (upper + lower) div 2)) then i
       else insertion_from rect y rows (i + 1))"

definition drag_insertion :: "(int \<Rightarrow> (int \<times> int) option) \<Rightarrow> bool \<Rightarrow> int \<Rightarrow> int \<Rightarrow> 'w BatchUi \<Rightarrow> int" where
  \<comment> \<open>the place before which the row would go; -1: outside the rows\<close>
  "drag_insertion rect inside y top_row s =
     (if inside then insertion_from rect y [top_row..directory_count (task_of s) - 1] (-1) else -1)"

definition drag_down :: "('w, 'y) store_env_scheme \<Rightarrow> int \<Rightarrow> bool \<Rightarrow> ('w, unit) ui_cmd" where
  \<comment> \<open>\<open>WM_LBUTTONDOWN\<close> on a row (-1: none); \<open>timed\<close>: the timer of the hold could be set\<close>
  "drag_down E row timed = do {
     s \<leftarrow> gets (\<lambda>s. s);
     if running s \<noteq> 0 \<or> \<not> has_tasks s then ret ()
     else do {
       modify cancel_step_drag;
       if row < 0 then ret ()
       else do {
         saved \<leftarrow> save_command E;
         if \<not> saved then ret ()
         else do {
           modify (\<lambda>s. show_step (s\<lparr>list_selection := row, selected_step := row,
             step_drag := (step_drag s)\<lparr>dg_source := row, dg_armed := True\<rparr>\<rparr>));
           (if timed then ret () else modify cancel_step_drag) } } } }"

definition drag_hold :: "int \<Rightarrow> 'w BatchUi \<Rightarrow> 'w BatchUi" where
  \<comment> \<open>\<open>STEP_HOLD_TIMER\<close>; \<open>at\<close> is the insertion under the pointer\<close>
  "drag_hold at s =
     (if dg_armed (step_drag s) \<and> running s = 0
      then s\<lparr>step_drag := (step_drag s)\<lparr>dg_dragging := True, dg_insertion := at\<rparr>\<rparr> else cancel_step_drag s)"

definition drag_move :: "int \<Rightarrow> 'w BatchUi \<Rightarrow> 'w BatchUi" where
  \<comment> \<open>\<open>WM_MOUSEMOVE\<close> and \<open>STEP_SCROLL_TIMER\<close>\<close>
  "drag_move at s =
     (if dg_dragging (step_drag s) then s\<lparr>step_drag := (step_drag s)\<lparr>dg_insertion := at\<rparr>\<rparr> else s)"

definition drag_up :: "('w, 'y) store_env_scheme \<Rightarrow> int \<Rightarrow> ('w, unit) ui_cmd" where
  \<comment> \<open>\<open>WM_LBUTTONUP\<close>; \<open>at\<close> is the insertion under the pointer\<close>
  "drag_up E at = do {
     d \<leftarrow> gets step_drag;
     if \<not> dg_armed d then ret ()
     else do {
       let destination = (if dg_dragging d then (if at > dg_source d then at - 1 else at) else -1);
       modify cancel_step_drag;
       (if destination \<ge> 0 then move_step E (dg_source d) destination else ret ()) } }"

subsection \<open>Everything that can happen\<close>

datatype ui_call =
    Typed wstr wstr int wstr wstr          \<comment> \<open>what the fields hold now\<close>
  | SaveTask | RunTask | RunRow | CancelRow | BrowseRow | AddRow | RemoveRow | AddShortcut | NewTask | DeleteTask | CloseManager
  | PickTask int | PickRow int | DragDown int bool | DragHold int | DragMove int | DragUp int | DragCancel

definition window_call :: "('w, 'y) batch_ui_env_scheme \<Rightarrow> ui_call \<Rightarrow> ('w, unit) ui_cmd" where
  \<comment> \<open>\<open>window_proc\<close> and \<open>folder_list_proc\<close>\<close>
  "window_call E c = (case c of
     Typed name command mode directory step \<Rightarrow> modify (\<lambda>s. s\<lparr>name_edit := name, command_edit := command, mode_combo := mode,
       directory_edit := directory, step_command_edit := step\<rparr>)
   | SaveTask \<Rightarrow> do { save_command E; ret () }
   | RunTask \<Rightarrow> start_or_cancel E
   | RunRow \<Rightarrow> run_selected_step E
   | CancelRow \<Rightarrow> modify cancel_selected_step
   | BrowseRow \<Rightarrow> modify browse_ask
   | AddRow \<Rightarrow> add_ask E
   | RemoveRow \<Rightarrow> remove_directory E
   | AddShortcut \<Rightarrow> do { add_shortcut E; ret () }
   | NewTask \<Rightarrow> new_task E
   | DeleteTask \<Rightarrow> modify delete_ask
   | CloseManager \<Rightarrow> close_manager E
   | PickTask i \<Rightarrow> pick_task E i
   | PickRow row \<Rightarrow> pick_row E row
   | DragDown row timed \<Rightarrow> drag_down E row timed
   | DragHold at \<Rightarrow> modify (drag_hold at)
   | DragMove at \<Rightarrow> modify (drag_move at)
   | DragUp at \<Rightarrow> drag_up E at
   | DragCancel \<Rightarrow> modify cancel_step_drag)"

definition resume_queue :: "('w, 'y) batch_ui_env_scheme \<Rightarrow> ('w, unit) ui_cmd" where
  \<comment> \<open>\<open>WM_BATCH_RESUME\<close>\<close>
  "resume_queue E = do {
     n \<leftarrow> gets (\<lambda>s. q_count (task_queue s));
     if n \<noteq> 0 then do { start_next_task E; ret () } else ret () }"

definition answer :: "('w, 'y) store_env_scheme \<Rightarrow> Asking \<Rightarrow> wstr option \<Rightarrow> ('w, unit) ui_cmd" where
  \<comment> \<open>the user answers; \<open>None\<close>: no\<close>
  "answer E q a = do {
     modify (\<lambda>s. s\<lparr>asking := None\<rparr>);
     (case a of None \<Rightarrow> ret ()
      | Some path \<Rightarrow> (case q of
          AskDelete \<Rightarrow> delete_confirmed E
        | AskFolder ident \<Rightarrow> add_chosen E ident path
        | AskBrowse ident row \<Rightarrow> modify (browse_chosen ident row path))) }"

inductive ui_step :: "('w, 'y) batch_ui_env_scheme \<Rightarrow> 'w BatchUi \<Rightarrow> 'w BatchUi \<Rightarrow> bool" for E where
  by_window: "bu_window s \<Longrightarrow> asking s = None \<Longrightarrow> ui_step E s (snd (run_state (window_call E c) s))"
| by_resume: "bu_window s \<Longrightarrow> ui_step E s (snd (run_state (resume_queue E) s))"
| by_answer: "asking s = Some q \<Longrightarrow> ui_step E s (snd (run_state (answer E q a) s))"
| by_open: "ui_step E s (snd (run_state (batch_tasks_open E) s))"
| by_launch: "ui_step E s (snd (run_state (batch_tasks_launch E ident) s))"
| by_event: "ui_step E s (snd (run_state (batch_tasks_handle_event E e) s))"
| by_shutdown: "ui_step E s (batch_tasks_shutdown s)"

definition new_manager :: "'w Store \<Rightarrow> 'w BatchUi" where
  \<comment> \<open>the static variables before \<open>main\<close>\<close>
  "new_manager st = Store.extend st \<lparr>bu_window = False, loaded = False,
     collection = \<lparr>btl_count = 0, btl_tasks = replicate BATCH_TASK_LIMIT zero_task\<rparr>, selected_task = 0, selected_step = -1,
     list_selection = -1, results = replicate BATCH_DIRECTORY_LIMIT cleared_result,
     active_runs = replicate BATCH_DIRECTORY_LIMIT idle_slot, running = 0, cancel_requested = False, run_totals = zero_batch,
     task_queue = \<lparr>q_items = replicate BATCH_TASK_LIMIT zero_task, q_count = 0, active_id = 0\<rparr>,
     step_drag = \<lparr>dg_armed = False, dg_dragging = False, dg_source = 0, dg_insertion = 0\<rparr>, name_edit = [], command_edit = [],
     mode_combo = -1, directory_edit = [], step_command_edit = [], asking = None\<rparr>"

inductive manages :: "('w, 'y) batch_ui_env_scheme \<Rightarrow> 'w Store \<Rightarrow> 'w BatchUi \<Rightarrow> bool" for E st where
  at_start: "manages E st (new_manager st)"
| by_step: "manages E st s \<Longrightarrow> ui_step E s t \<Longrightarrow> manages E st t"

end
