(* ===== verification/Store_Frame.thy ===== *)
theory Store_Frame
  imports Storage_Laws
begin

text \<open>
  A window that uses the store keeps its variables in the fields behind those of the store: no operation of the store
  changes them.
\<close>

lemma store_more: "Session.more s = Session.more t \<Longrightarrow> Store.more s = Store.more t"
  by (cases s rule: Store.cases_scheme, cases t rule: Store.cases_scheme) (simp only: Session.simps Store.simps Store.ext_inject)

lemma keeps_more: "keeps Session.more c \<Longrightarrow> keeps Store.more c"
  unfolding keeps_def
  by (rule allI, drule spec, erule wp_mono, rule store_more)

lemma keeps_wp: "keeps f c \<Longrightarrow> wp c (\<lambda>r s'. f s' = f s) s"
  by (simp add: keeps_def)

lemmas more_session = keeps_more [OF keeps_lift] keeps_sql [THEN keeps_more] keeps_commit [THEN keeps_more]

lemma more_check: "keeps Store.more (check ok)"
  unfolding check_def by (intro keeps keeps_modify) simp_all

lemma more_call: "keeps Store.more (sql_call E)" "keeps Store.more (prepare E)" "keeps Store.more (bind_text E)"
  "keeps Store.more (finish E f)"
  unfolding sql_call_def prepare_def bind_text_def finish_def by (intro keeps more_session more_check)+

lemma more_bounds: "keeps Store.more (store_begin E)" "keeps Store.more (store_end E ok)"
  unfolding store_begin_def store_end_def
  by (intro keeps more_session more_check keeps_modify; simp)+

lemma more_transaction: "keeps Store.more c \<Longrightarrow> keeps Store.more (transaction E c)"
  "keeps Store.more c \<Longrightarrow> keeps Store.more (in_transaction E c)"
  unfolding transaction_def in_transaction_def by (intro keeps more_bounds; assumption)+

lemma more_settings: "keeps Store.more (store_set E scope section key v)" "keeps Store.more (store_set_int E scope section key n)"
  "keeps Store.more (store_clear E scope)" "keeps Store.more (store_new_id E)"
proof -
  have set: "keeps Store.more (store_set E scope section key v)" for v
    unfolding store_set_def by (intro more_transaction keeps) (simp_all add: more_call)
  then show "keeps Store.more (store_set E scope section key v)" "keeps Store.more (store_set_int E scope section key n)"
    by (simp_all add: store_set_int_def)
  show "keeps Store.more (store_clear E scope)"
    unfolding store_clear_def by (intro more_transaction keeps) (simp_all add: more_call)
  show "keeps Store.more (store_new_id E)" unfolding store_new_id_def by (rule more_session)
qed

lemma more_servers: "keeps Store.more (store_save_ssh_servers E v)"
proof -
  have one: "keeps Store.more (save_server E i x)" for i x
    unfolding save_server_def by (intro keeps; simp add: more_settings list_all_iff)
  have "keeps Store.more (write_servers E v)"
    unfolding write_servers_def by (intro keeps; simp add: more_settings list_all_iff one)
  then show ?thesis
    unfolding store_save_ssh_servers_def by (intro keeps more_transaction)
qed

lemma more_reads: "keeps Store.more (select_row E k n)" "keeps Store.more (store_get E a b c d cap)"
  "keeps Store.more (read_setting E a b c cap)" "keeps Store.more (scope_is_empty E a)"
proof -
  show row: "keeps Store.more (select_row E k n)" for k n
    unfolding select_row_def by (intro keeps more_call more_session) (simp add: list_all_iff more_call)
  show "keeps Store.more (store_get E a b c d cap)"
    unfolding store_get_def by (intro keeps row more_check)
  show "keeps Store.more (read_setting E a b c cap)"
    unfolding read_setting_def by (intro keeps row more_check)
  show "keeps Store.more (scope_is_empty E a)"
    unfolding scope_is_empty_def by (intro keeps more_call)
qed

lemma more_count_rows: "keeps Store.more (count_rows E scope)"
  unfolding count_rows_def by (intro keeps more_call more_session)

lemma more_load_servers: "keeps Store.more (store_load_ssh_servers E)"
proof -
  have one: "keeps Store.more (load_server E i)" for i
    unfolding load_server_def Let_def by (intro keeps more_reads)
  have all: "keeps Store.more (load_servers E n before)" for n before
    by (induction n arbitrary: before) (auto intro!: keeps one)
  show ?thesis
    unfolding store_load_ssh_servers_def Let_def by (intro keeps more_reads more_count_rows all)
qed

end
