(* ===== verification/Batch_Manager_Store.thy ===== *)
theory Batch_Manager_Store
  imports Batch_Manager Store_Frame
begin

text \<open>
  The manager of batch tasks and the store: loading and saving the list of tasks changes no variable of the manager,
  saving changes no task but gives an identifier to one that has none, and a list that was loaded is well formed, with
  identifiers that are different and not zero.
\<close>

subsection \<open>The store leaves the manager alone\<close>

lemma more_write_tasks: "keeps Store.more (write_tasks E ts)"
proof -
  have step: "keeps Store.more (save_task_step E i t j)" for i t j
    unfolding save_task_step_def by (intro keeps) (simp add: more_settings)
  have task: "keeps Store.more (save_task E i t)" for i t
    unfolding save_task_def by (intro keeps; simp add: more_settings list_all_iff step)
  show ?thesis
    unfolding write_tasks_def by (intro keeps; simp add: more_settings list_all_iff task)
qed

subsection \<open>What saving and loading give back\<close>

definition renamed :: "BatchTask \<Rightarrow> BatchTask \<Rightarrow> bool" where
  \<comment> \<open>the same task, perhaps with an identifier where there was none\<close>
  "renamed t u \<longleftrightarrow> (\<exists>i. u = t\<lparr>bt_id := i\<rparr>) \<and> (bt_id t \<noteq> 0 \<longrightarrow> u = t)"

lemma renamed_refl [simp]: "renamed t t"
  unfolding renamed_def by (intro conjI exI [of _ "bt_id t"]) simp_all

lemma renamed_fields:
  "renamed t u \<Longrightarrow> task_wf u = task_wf t \<and> directory_count u = directory_count t \<and> directories u = directories t
     \<and> commands u = commands t \<and> steps u = steps t"
  by (auto simp: renamed_def task_wf_def steps_def task_dirs_def task_overrides_def)

lemma renamed_wf: "renamed t u \<Longrightarrow> task_wf t \<Longrightarrow> task_wf u"
  by (simp add: renamed_fields)

lemma check_tasks_shape:
  fixes E :: "('w, 'y) store_env_scheme" and s :: "('w, 'z) Store_scheme"
  shows "wp (check_tasks E before ts) (\<lambda>r s'. Store.more s' = Store.more s
     \<and> (\<exists>us. snd r = before @ us \<and> list_all2 renamed ts us)) s"
proof (induction ts arbitrary: before s)
  case (Cons t ts)
  let ?new = "if bt_id t = 0 then store_new_id E else ret (bt_id t)"
  have more: "wp ?new (\<lambda>r s'. Store.more s' = Store.more s) s"
    by (rule keeps_wp) (intro keeps more_settings)
  have "wp ?new (\<lambda>r s'. bt_id t \<noteq> 0 \<longrightarrow> r = bt_id t) s" by (cases "bt_id t = 0") (simp_all add: wp wp_any)
  with more have new: "wp ?new (\<lambda>r s'. Store.more s' = Store.more s \<and> (bt_id t \<noteq> 0 \<longrightarrow> r = bt_id t)) s" by (rule wp_conj)
  have same: "list_all2 renamed ts ts" by (rule list.rel_refl) simp
  show ?case
    unfolding check_tasks.simps wp_bind Let_def
  proof (rule wp_mono [OF new])
    fix i and s1 :: "('w, 'z) Store_scheme"
    assume new: "Store.more s1 = Store.more s \<and> (bt_id t \<noteq> 0 \<longrightarrow> i = bt_id t)"
    let ?t = "t\<lparr>bt_id := i\<rparr>"
    have s1: "Store.more s1 = Store.more s" using new ..
    have t: "renamed t ?t" using new by (auto simp: renamed_def)
    have "wp (check_tasks E (before @ [?t]) ts) (\<lambda>r s'. Store.more s' = Store.more s
        \<and> (\<exists>us. snd r = before @ us \<and> list_all2 renamed (t # ts) us)) s1"
      by (rule wp_mono [OF Cons.IH]) (use s1 t in \<open>auto intro: exI [of _ "?t # us" for us]\<close>)
    then show "wp (if i < 0 \<or> list_ex (\<lambda>u. bt_id u = i) before \<or> \<not> batch_task_is_valid (Some ?t)
          \<or> \<not> has_nonblank (bt_name ?t) \<or> \<not> has_nonblank (bt_command ?t)
        then ret (False, before @ ?t # ts) else check_tasks E (before @ [?t]) ts)
      (\<lambda>r s'. Store.more s' = Store.more s \<and> (\<exists>us. snd r = before @ us \<and> list_all2 renamed (t # ts) us)) s1"
      using s1 t same by (simp only: wp_if wp_return) (auto intro: exI [of _ "?t # ts"])
  qed
qed (simp add: wp)

lemma save_tasks_shape:
  fixes E :: "('w, 'y) store_env_scheme" and s :: "('w, 'z) Store_scheme"
  shows "wp (store_save_batch_tasks E l) (\<lambda>r s'. Store.more s' = Store.more s \<and> btl_count (snd r) = btl_count l
     \<and> list_all2 renamed (btl_tasks l) (btl_tasks (snd r))) s"
proof -
  let ?n = "nat (btl_count l)"
  have same: "list_all2 renamed ts ts" for ts by (rule list.rel_refl) simp
  have all: "list_all2 renamed (btl_tasks l) (us @ drop ?n (btl_tasks l))" if "list_all2 renamed (take ?n (btl_tasks l)) us" for us
    using list_all2_appendI [OF that same [of "drop ?n (btl_tasks l)"]] by simp
  have "wp (check_tasks E [] (take ?n (btl_tasks l))) (\<lambda>r. wp (
        let tasks = l\<lparr>btl_tasks := snd r @ drop ?n (btl_tasks l)\<rparr> in
        if \<not> fst r then ret (False, tasks) else do { ok \<leftarrow> transaction E (write_tasks E (snd r)); ret (ok, tasks) })
      (\<lambda>r s'. Store.more s' = Store.more s \<and> btl_count (snd r) = btl_count l
         \<and> list_all2 renamed (btl_tasks l) (btl_tasks (snd r)))) s"
  proof (rule wp_mono [OF check_tasks_shape])
    fix r :: "bool \<times> BatchTask list" and s1 :: "('w, 'z) Store_scheme"
    assume r: "Store.more s1 = Store.more s \<and> (\<exists>us. snd r = [] @ us \<and> list_all2 renamed (take ?n (btl_tasks l)) us)"
    let ?Q = "\<lambda>ok s'. Store.more s' = Store.more s1"
    have "wp (transaction E (write_tasks E (snd r))) ?Q s1"
      by (rule keeps_wp [OF more_transaction(1) [OF more_write_tasks]])
    then show "wp (let tasks = l\<lparr>btl_tasks := snd r @ drop ?n (btl_tasks l)\<rparr> in
        if \<not> fst r then ret (False, tasks) else do { ok \<leftarrow> transaction E (write_tasks E (snd r)); ret (ok, tasks) })
      (\<lambda>r s'. Store.more s' = Store.more s \<and> btl_count (snd r) = btl_count l
         \<and> list_all2 renamed (btl_tasks l) (btl_tasks (snd r))) s1"
      using r all by (auto simp: Let_def wp elim!: wp_mono)
  qed
  then show ?thesis
    unfolding store_save_batch_tasks_def by (simp add: wp same Let_def)
qed

lemma more_numbers: "keeps Store.more (store_int E a b c d)" "keeps Store.more (read_number E a b c n)"
  unfolding store_int_def read_number_def Let_def by (intro keeps more_reads)+

lemma more_load_task: "keeps Store.more (load_task E version i before)"
proof -
  have steps: "keeps Store.more (load_task_steps E version sec j n t)" for sec j n t
    by (induction n arbitrary: j t) (auto simp: Let_def intro!: keeps more_reads)
  show ?thesis
    unfolding load_task_def load_task_id_def Let_def by (intro keeps more_reads more_numbers steps)
qed

lemma more_load_tasks: "keeps Store.more (load_tasks E version n before)"
  by (induction n arbitrary: before) (auto intro!: keeps more_load_task)

lemma more_save_tasks: "keeps Store.more (store_save_batch_tasks E l)"
  unfolding keeps_def by (rule allI, rule wp_mono [OF save_tasks_shape]) simp

lemma more_load_all: "keeps Store.more (store_load_batch_tasks E)"
proof -
  have steps: "keeps Store.more (load_legacy_directories E i n t)" for i n t
    by (induction n arbitrary: i t) (auto simp: Let_def intro!: keeps more_reads)
  have legacy: "keeps Store.more (fresh_tasks E)"
    unfolding fresh_tasks_def store_load_batch_task_def Let_def
    by (intro keeps more_reads more_numbers more_save_tasks steps)
  have stored: "keeps Store.more (stored_tasks E)"
    unfolding stored_tasks_def by (intro keeps more_numbers more_save_tasks more_load_tasks)
  show ?thesis
    unfolding store_load_batch_tasks_def
    by (intro keeps more_reads) (auto split: bool.splits intro: legacy stored)
qed

definition list_ok :: "BatchTaskList \<Rightarrow> bool" where
  "list_ok l \<longleftrightarrow> length (btl_tasks l) = BATCH_TASK_LIMIT \<and> 0 \<le> btl_count l \<and> btl_count l \<le> int BATCH_TASK_LIMIT
     \<and> list_all task_wf (btl_tasks l)"

lemma list_ok_renamed: "list_ok l \<Longrightarrow> btl_count m = btl_count l \<Longrightarrow> list_all2 renamed (btl_tasks l) (btl_tasks m) \<Longrightarrow> list_ok m"
  unfolding list_ok_def list_all_length
  by (auto simp: list_all2_conv_all_nth intro: renamed_wf)

lemma task_list_ok: "length ts \<le> BATCH_TASK_LIMIT \<Longrightarrow> list_all task_wf ts \<Longrightarrow> list_ok (task_list ts)"
  by (auto simp: list_ok_def task_list_def list_all_iff)

lemma load_steps_wf:
  fixes E :: "('w, 'y) store_env_scheme"
  assumes "task_wf t" and "directory_count t = int (j + n)"
  shows "yields (\<lambda>r. case r of None \<Rightarrow> True | Some t \<Rightarrow> task_wf t) (load_task_steps E version section j n t :: ('w, 'z, BatchTask option) store_cmd)"
  using assms
proof (induction n arbitrary: j t)
  case 0
  then show ?case by (simp add: yields_ret)
next
  case (Suc n)
  have a: "task_wf (t\<lparr>directories := (directories t)[j := d]\<rparr>)" for d
    using Suc.prems by (auto simp: task_wf_def nth_list_update)
  have b: "task_wf (t\<lparr>directories := (directories t)[j := d], commands := (commands t)[j := c]\<rparr>)" for d c
    using Suc.prems by (auto simp: task_wf_def nth_list_update)
  have r: "yields (\<lambda>r. case r of None \<Rightarrow> True | Some t \<Rightarrow> task_wf t) (load_task_steps E version section (Suc j) n u :: ('w, 'z, BatchTask option) store_cmd)"
    if "task_wf u" "directory_count u = directory_count t" for u
    by (rule Suc.IH) (use that Suc.prems in simp_all)
  show ?case
    unfolding load_task_steps.simps Let_def
    by (intro yields r) (use a b in \<open>simp_all add: yields_ret\<close>)
qed

lemma number_bounds:
  "yields (\<lambda>r. case r of None \<Rightarrow> True | Some n \<Rightarrow> 0 \<le> n \<and> n \<le> m) (read_number E a b c m)"
  unfolding read_number_def Let_def
  by (intro yields_bind yields_ret) (simp split: option.splits)

lemma load_task_wf:
  "yields (\<lambda>r. case r of None \<Rightarrow> True | Some t \<Rightarrow> task_wf t) (load_task E version i before :: ('w, 'z, BatchTask option) store_cmd)"
proof -
  let ?P = "\<lambda>r. case r of None \<Rightarrow> True | Some t \<Rightarrow> task_wf t"
  have none: "yields ?P (ret None)" by (simp add: yields_ret)
  have t: "yields ?P (do { t \<leftarrow> load_task_steps E version (task_section i) 0 (nat n)
       (zero_task\<lparr>bt_id := a, bt_name := b, bt_command := c, bt_mode := m, directory_count := n\<rparr>);
     ret (case t of None \<Rightarrow> None
          | Some t \<Rightarrow> if batch_task_is_valid (Some t) \<and> bt_name t \<noteq> [] \<and> bt_command t \<noteq> [] then Some t else None) }
      :: ('w, 'z, BatchTask option) store_cmd)"
    if "0 \<le> n \<and> n \<le> int BATCH_DIRECTORY_LIMIT" for n a b c m
    by (rule yields_then [OF load_steps_wf]) (use that in \<open>auto simp: task_wf_def zero_task_def intro!: yields_ret split: option.splits\<close>)
  show ?thesis
    unfolding load_task_def Let_def
    by (rule yields_bind, rule yields_option, rule none, rule yields_bind, rule yields_option, rule none,
        rule yields_bind, rule yields_option, rule none, rule yields_bind, rule yields_option, rule none,
        rule yields_then [OF number_bounds], rule yields_option, rule none, rule t, simp)
qed

lemma load_tasks_wf:
  assumes "list_all task_wf before"
  shows "yields (\<lambda>r. case r of None \<Rightarrow> True | Some ts \<Rightarrow> list_all task_wf ts \<and> length ts = length before + n)
    (load_tasks E version n before :: ('w, 'z, BatchTask list option) store_cmd)"
  using assms
proof (induction n arbitrary: before)
  case (Suc n)
  have r: "yields (\<lambda>r. case r of None \<Rightarrow> True | Some ts \<Rightarrow> list_all task_wf ts \<and> length ts = length before + Suc n)
      (load_tasks E version n (before @ [t]) :: ('w, 'z, BatchTask list option) store_cmd)" if "task_wf t" for t
    by (rule yields_mono [OF Suc.IH]) (use that Suc.prems in \<open>simp_all split: option.splits\<close>)
  show ?case
    unfolding load_tasks.simps
    by (rule yields_then [OF load_task_wf], rule yields_option, simp add: yields_ret, rule r, simp)
qed (simp add: yields_ret)

lemma save_tasks_ok: "list_ok l \<Longrightarrow> yields (\<lambda>r. list_ok (snd r)) (store_save_batch_tasks E l :: ('w, 'z, bool \<times> BatchTaskList) store_cmd)"
  unfolding yields_def by (rule allI, rule wp_mono [OF save_tasks_shape]) (auto intro: list_ok_renamed)

lemma legacy_wf:
  assumes "task_wf t"
  shows "yields (\<lambda>r. task_wf (snd r)) (load_legacy_directories E i n t :: ('w, 'z, bool \<times> BatchTask) store_cmd)"
  using assms
proof (induction n arbitrary: i t)
  case (Suc n)
  have r: "yields (\<lambda>r. task_wf (snd r)) (load_legacy_directories E (Suc i) n (the (snd (batch_task_add_directory (Some t) (Some d))))
      :: ('w, 'z, bool \<times> BatchTask) store_cmd)" if "fst (batch_task_add_directory (Some t) (Some d)) = 1" for d
  proof (rule Suc.IH)
    have "\<exists>u. batch_task_add_directory (Some t) (Some d) = (1, Some u)"
      using that unfolding add_directory_result [OF Suc.prems] by (simp split: if_splits)
    then obtain u where "batch_task_add_directory (Some t) (Some d) = (1, Some u)" ..
    then show "task_wf (the (snd (batch_task_add_directory (Some t) (Some d))))"
      using add_directory_accepted [OF Suc.prems] by simp
  qed
  show ?case
    unfolding load_legacy_directories.simps Let_def
    by (intro yields_bind yields_if) (auto intro!: yields_ret r)
qed (simp add: yields_ret)

lemma fresh_tasks_ok: "yields (\<lambda>r. case r of None \<Rightarrow> True | Some l \<Rightarrow> list_ok l) (fresh_tasks E :: ('w, 'z, BatchTaskList option) store_cmd)"
proof -
  have wf: "task_wf (t\<lparr>bt_name := a\<rparr>)" "task_wf (t\<lparr>bt_command := a\<rparr>)" if "task_wf t" for t a
    using that by (simp_all add: task_wf_def)
  have one: "list_ok (task_list [t])" if "task_wf t" for t
    using that by (intro task_list_ok) (simp_all add: BATCH_TASK_LIMIT_def)
  have load: "yields (\<lambda>r. task_wf (snd r)) (store_load_batch_task E :: ('w, 'z, bool \<times> BatchTask) store_cmd)"
    unfolding store_load_batch_task_def Let_def
    by (intro yields_bind yields_if legacy_wf) (auto intro!: yields_ret wf)
  show ?thesis
    unfolding fresh_tasks_def Let_def
    by (rule yields_then [OF load], rule yields_if, simp add: yields_ret, rule yields_then [OF save_tasks_ok])
       (auto intro!: yields_ret one wf split: if_splits)
qed

lemma load_ok: "yields (\<lambda>r. case r of None \<Rightarrow> True | Some l \<Rightarrow> list_ok l)
    (store_load_batch_tasks E :: ('w, 'z, BatchTaskList option) store_cmd)"
proof -
  let ?P = "\<lambda>r. case r of None \<Rightarrow> True | Some l \<Rightarrow> list_ok l"
  have none: "yields ?P (ret None)" by (simp add: yields_ret)
  have save: "yields ?P (do { saved \<leftarrow> store_save_batch_tasks E (task_list ts); ret (if fst saved then Some (snd saved) else None) }
      :: ('w, 'z, BatchTaskList option) store_cmd)" if "list_ok (task_list ts)" for ts
    by (rule yields_then [OF save_tasks_ok [OF that]]) (simp add: yields_ret)
  have stored: "yields ?P (stored_tasks E :: ('w, 'z, BatchTaskList option) store_cmd)"
    unfolding stored_tasks_def
    by (rule yields_bind, rule yields_option, rule none, rule yields_if, rule none,
        rule yields_then [OF number_bounds], rule yields_option, rule none,
        rule yields_then [OF load_tasks_wf], simp, rule yields_option, rule none, rule yields_if)
       (auto intro!: save yields_ret task_list_ok)
  show ?thesis
    unfolding store_load_batch_tasks_def
    by (intro yields_bind yields_option yields_bool fresh_tasks_ok stored) (simp add: yields_ret)
qed

subsection \<open>Identifiers\<close>

definition draws :: "('w, 'y) store_env_scheme \<Rightarrow> bool" where
  \<comment> \<open>drawing an identifier ends: \<open>sqlite3_randomness\<close> does not give zeros for ever\<close>
  "draws E \<longleftrightarrow> (\<forall>w. draw_id (random64 E) w \<noteq> None)"

definition ids :: "BatchTaskList \<Rightarrow> int list" where
  "ids l = map bt_id (take (nat (btl_count l)) (btl_tasks l))"

definition ids_ok :: "BatchTaskList \<Rightarrow> bool" where
  "ids_ok l \<longleftrightarrow> distinct (ids l) \<and> 0 \<notin> set (ids l)"

lemma new_id_nonzero: "draws E \<Longrightarrow> wp (store_new_id E) (\<lambda>i s'. i \<noteq> 0) s"
  using draw_id_result [of "random64 E" "world s" _ "\<lambda>_. ()"]
  by (auto simp: store_new_id_def wp_lift draws_def split: option.splits prod.splits)

lemma check_tasks_ids:
  fixes E :: "('w, 'y) store_env_scheme" and s :: "('w, 'z) Store_scheme"
  assumes "draws E" and "0 \<notin> bt_id ` set before" and "distinct (map bt_id before)"
  shows "wp (check_tasks E before ts) (\<lambda>r s'. fst r \<longrightarrow> distinct (map bt_id (snd r)) \<and> 0 \<notin> bt_id ` set (snd r)) s"
  using assms(2,3)
proof (induction ts arbitrary: before s)
  case (Cons t ts before s)
  let ?Q = "\<lambda>r s'. fst r \<longrightarrow> distinct (map bt_id (snd r)) \<and> 0 \<notin> bt_id ` set (snd r)"
  have new: "wp (if bt_id t = 0 then store_new_id E else ret (bt_id t)) (\<lambda>i s'. i \<noteq> 0) s"
    by (cases "bt_id t = 0") (simp_all add: wp new_id_nonzero [OF assms(1)])
  show ?case
    unfolding check_tasks.simps wp_bind Let_def
  proof (rule wp_mono [OF new])
    fix i :: int and s1 :: "('w, 'z) Store_scheme" assume i: "i \<noteq> 0"
    let ?t = "t\<lparr>bt_id := i\<rparr>"
    have "wp (check_tasks E (before @ [?t]) ts) ?Q s1" if "\<not> list_ex (\<lambda>u. bt_id u = i) before"
      by (rule Cons.IH) (use Cons.prems i that in \<open>auto simp: list_ex_iff\<close>)
    then show "wp (if i < 0 \<or> list_ex (\<lambda>u. bt_id u = i) before \<or> \<not> batch_task_is_valid (Some ?t)
        \<or> \<not> has_nonblank (bt_name ?t) \<or> \<not> has_nonblank (bt_command ?t)
        then ret (False, before @ ?t # ts) else check_tasks E (before @ [?t]) ts) ?Q s1"
      by (simp only: wp_if wp_return fst_conv) simp
  qed
qed (simp add: wp)

lemma save_tasks_new_ids:
  fixes s :: "('w, 'z) Store_scheme"
  assumes "draws E" and "nat (btl_count l) \<le> length (btl_tasks l)"
  shows "wp (store_save_batch_tasks E l) (\<lambda>r s'. fst r \<longrightarrow> ids_ok (snd r)) s"
proof (cases "btl_count l < 0 \<or> btl_count l > int BATCH_TASK_LIMIT")
  case False
  let ?n = "nat (btl_count l)"
  have len: "length us = ?n" if "list_all2 renamed (take ?n (btl_tasks l)) us" for us
    using list_all2_lengthD [OF that] assms(2) by simp
  have "wp (check_tasks E [] (take ?n (btl_tasks l))) (\<lambda>r s'. length (snd r) = ?n
      \<and> (fst r \<longrightarrow> distinct (map bt_id (snd r)) \<and> 0 \<notin> bt_id ` set (snd r))) s"
    by (rule wp_mono [OF wp_conj [OF check_tasks_shape check_tasks_ids [OF assms(1)]]]) (auto simp: len)
  then show ?thesis
    unfolding store_save_batch_tasks_def if_not_P [OF False] Let_def wp_bind
    by (rule wp_mono) (auto simp: wp ids_ok_def ids_def intro: wp_any)
qed (auto simp: store_save_batch_tasks_def wp)

lemma check_tasks_same:
  assumes "0 \<notin> bt_id ` set ts"
  shows "wp (check_tasks E before ts) (\<lambda>r s'. snd r = before @ ts) s"
  using assms
proof (induction ts arbitrary: before s)
  case (Cons t ts)
  have "t\<lparr>bt_id := bt_id t\<rparr> = t" by simp
  then show ?case using Cons.IH [of "before @ [t]"] Cons.prems by (auto simp: wp Let_def)
qed (simp add: wp)

lemma save_tasks_same:
  assumes "ids_ok l" and "nat (btl_count l) \<le> length (btl_tasks l)"
  shows "wp (store_save_batch_tasks E l) (\<lambda>r s'. Store.more s' = Store.more s \<and> snd r = l) s"
proof -
  let ?n = "nat (btl_count l)"
  have nonzero: "0 \<notin> bt_id ` set (take ?n (btl_tasks l))" using assms(1) by (simp add: ids_ok_def ids_def)
  have "wp (store_save_batch_tasks E l) (\<lambda>r s'. snd r = l) s"
  proof (cases "btl_count l < 0 \<or> btl_count l > int BATCH_TASK_LIMIT")
    case False
    show ?thesis
      unfolding store_save_batch_tasks_def if_not_P [OF False] Let_def wp_bind
      by (rule wp_mono [OF check_tasks_same [OF nonzero]]) (auto simp: wp intro: wp_any)
  qed (simp add: store_save_batch_tasks_def wp)
  then show ?thesis by (rule wp_mono [OF wp_conj [OF _ save_tasks_shape]]) simp
qed

lemma load_steps_id:
  fixes E :: "('w, 'y) store_env_scheme"
  shows "yields (\<lambda>r. case r of None \<Rightarrow> True | Some u \<Rightarrow> bt_id u = bt_id t)
    (load_task_steps E version section j n t :: ('w, 'z, BatchTask option) store_cmd)"
proof (induction n arbitrary: j t)
  case (Suc n)
  let ?P = "\<lambda>r. case r of None \<Rightarrow> True | Some u \<Rightarrow> bt_id u = bt_id t"
  have r: "yields ?P (load_task_steps E version section (Suc j) n u :: ('w, 'z, BatchTask option) store_cmd)"
    if "bt_id u = bt_id t" for u
    using Suc.IH [of u "Suc j"] unfolding that .
  show ?case
    unfolding load_task_steps.simps Let_def
    by (intro yields r) (simp_all add: yields_ret)
qed (simp add: yields_ret)

lemma list_ex_id: "list_ex (\<lambda>u. bt_id u = i) us \<longleftrightarrow> i \<in> bt_id ` set us"
  by (auto simp: list_ex_iff)

lemma load_task_fresh:
  assumes "2 \<le> version"
  shows "yields (\<lambda>r. case r of None \<Rightarrow> True | Some t \<Rightarrow> bt_id t \<noteq> 0 \<and> bt_id t \<notin> bt_id ` set before)
    (load_task E version i before :: ('w, 'z, BatchTask option) store_cmd)"
proof -
  let ?P = "\<lambda>r. case r of None \<Rightarrow> True | Some t \<Rightarrow> bt_id t \<noteq> 0 \<and> bt_id t \<notin> bt_id ` set before"
  have none: "yields ?P (ret None)" by (simp add: yields_ret)
  have ident: "yields (\<lambda>r. case r of None \<Rightarrow> True | Some k \<Rightarrow> k \<noteq> 0 \<and> k \<notin> bt_id ` set before)
      (load_task_id E version sec before :: ('w, 'z, int option) store_cmd)" for sec
    unfolding load_task_id_def Let_def
    by (intro yields_if yields_bind)
       (use assms in \<open>auto intro!: yields_ret simp: list_ex_id split: option.splits\<close>)
  have t: "yields ?P (do { t \<leftarrow> load_task_steps E version (task_section i) 0 (nat n)
       (zero_task\<lparr>bt_id := a, bt_name := b, bt_command := c, bt_mode := m, directory_count := n\<rparr>);
     ret (case t of None \<Rightarrow> None
          | Some t \<Rightarrow> if batch_task_is_valid (Some t) \<and> bt_name t \<noteq> [] \<and> bt_command t \<noteq> [] then Some t else None) }
      :: ('w, 'z, BatchTask option) store_cmd)"
    if "a \<noteq> 0 \<and> a \<notin> bt_id ` set before" for n a b c m
    by (rule yields_then [OF load_steps_id]) (use that in \<open>auto intro!: yields_ret split: option.splits\<close>)
  show ?thesis
    unfolding load_task_def Let_def
    by (rule yields_then [OF ident], rule yields_option, rule none, rule yields_bind, rule yields_option, rule none,
        rule yields_bind, rule yields_option, rule none, rule yields_bind, rule yields_option, rule none,
        rule yields_bind, rule yields_option, rule none, rule t, simp)
qed

lemma load_tasks_ids:
  assumes "2 \<le> version" and "distinct (map bt_id before)" and "0 \<notin> bt_id ` set before"
  shows "yields (\<lambda>r. case r of None \<Rightarrow> True | Some ts \<Rightarrow> distinct (map bt_id ts) \<and> 0 \<notin> bt_id ` set ts)
    (load_tasks E version n before :: ('w, 'z, BatchTask list option) store_cmd)"
  using assms(2,3)
proof (induction n arbitrary: before)
  case (Suc n)
  have r: "yields (\<lambda>r. case r of None \<Rightarrow> True | Some ts \<Rightarrow> distinct (map bt_id ts) \<and> 0 \<notin> bt_id ` set ts)
      (load_tasks E version n (before @ [t]) :: ('w, 'z, BatchTask list option) store_cmd)"
    if "bt_id t \<noteq> 0 \<and> bt_id t \<notin> bt_id ` set before" for t
    by (rule Suc.IH) (use that Suc.prems in auto)
  show ?case
    unfolding load_tasks.simps
    by (rule yields_then [OF load_task_fresh [OF assms(1)]], rule yields_option, simp add: yields_ret, rule r, simp)
qed (simp add: yields_ret)

lemma load_ids:
  assumes "draws E"
  shows "yields (\<lambda>r. case r of None \<Rightarrow> True | Some l \<Rightarrow> ids_ok l) (store_load_batch_tasks E :: ('w, 'z, BatchTaskList option) store_cmd)"
proof -
  let ?P = "\<lambda>r. case r of None \<Rightarrow> True | Some l \<Rightarrow> ids_ok l"
  have none: "yields ?P (ret None)" by (simp add: yields_ret)
  have save: "yields ?P (do { saved \<leftarrow> store_save_batch_tasks E (task_list ts); ret (if fst saved then Some (snd saved) else None) }
      :: ('w, 'z, BatchTaskList option) store_cmd)" for ts
  proof (rule yields_then)
    show "yields (\<lambda>r. fst r \<longrightarrow> ids_ok (snd r)) (store_save_batch_tasks E (task_list ts) :: ('w, 'z, bool \<times> BatchTaskList) store_cmd)"
      unfolding yields_def by (rule allI, rule save_tasks_new_ids [OF assms]) (simp add: task_list_def)
  qed (simp add: yields_ret)
  have stored: "yields ?P (stored_tasks E :: ('w, 'z, BatchTaskList option) store_cmd)"
  proof -
    have load: "yields ?P (do { ts \<leftarrow> load_tasks E v n [];
        case ts of None \<Rightarrow> ret None
        | Some ts \<Rightarrow> if v < 3 then do { saved \<leftarrow> store_save_batch_tasks E (task_list ts);
              ret (if fst saved then Some (snd saved) else None) } else ret (Some (task_list ts)) }
      :: ('w, 'z, BatchTaskList option) store_cmd)" for v n
    proof (cases "v < 3")
      case True
      show ?thesis unfolding if_P [OF True] by (rule yields_bind, rule yields_option, rule none, rule save)
    next
      case False
      then have v: "2 \<le> v" by simp
      show ?thesis unfolding if_not_P [OF False]
        by (rule yields_then [OF load_tasks_ids [OF v]], simp, simp, rule yields_option, rule none)
           (auto intro!: yields_ret simp: ids_ok_def ids_def task_list_def)
    qed
    show ?thesis
      unfolding stored_tasks_def
      by (rule yields_bind, rule yields_option, rule none, rule yields_if, rule none, rule yields_bind, rule yields_option,
          rule none, rule load)
  qed
  have fresh: "yields ?P (fresh_tasks E :: ('w, 'z, BatchTaskList option) store_cmd)"
    unfolding fresh_tasks_def Let_def by (rule yields_bind, rule yields_if, rule none, rule save)
  show ?thesis
    unfolding store_load_batch_tasks_def
    by (rule yields_bind, rule yields_option, rule none, rule yields_bool, rule fresh, rule stored)
qed

end
