(* ===== verification/Batch_Manager_Runs.thy ===== *)
theory Batch_Manager_Runs
  imports Batch_Manager_Store
begin

text \<open>
  The invariant of the manager of batch tasks (\<open>ui_ok\<close>) and the operations that start and end a run: saving the
  fields, filling and clearing a slot, taking a task from the queue, the messages of the workers, cancelling.
\<close>

subsection \<open>The invariant\<close>

definition live :: "'w BatchUi \<Rightarrow> BatchActiveRun list" where
  "live s = filter (\<lambda>a. ar_worker a \<noteq> None) (active_runs s)"

definition rows :: "'w BatchUi \<Rightarrow> int list" where
  \<comment> \<open>what runs: -1 the whole task, else the row\<close>
  "rows s = map ar_row (live s)"

definition slot_ok :: "BatchActiveRun \<Rightarrow> bool" where
  "slot_ok a \<longleftrightarrow> (if ar_worker a = None then a = idle_slot else ar_cancel a \<noteq> None)"

definition rows_ok :: "int list \<Rightarrow> int \<Rightarrow> bool" where
  "rows_ok rs n \<longleftrightarrow> distinct rs \<and> (\<forall>r \<in> set rs. -1 \<le> r \<and> r < n) \<and> (-1 \<in> set rs \<longrightarrow> rs = [-1])"

definition runs_ok :: "'w BatchUi \<Rightarrow> bool" where
  "runs_ok s \<longleftrightarrow> length (active_runs s) = BATCH_DIRECTORY_LIMIT \<and> list_all slot_ok (active_runs s)
     \<and> running s = int (length (rows s)) \<and> rows_ok (rows s) (directory_count (task_of s))
     \<and> (cancel_requested s \<longrightarrow> rows s \<noteq> [])"

definition tasks_ok :: "'w BatchUi \<Rightarrow> bool" where
  "tasks_ok s \<longleftrightarrow> list_ok (collection s) \<and> ids_ok (collection s) \<and> 0 \<le> selected_task s
     \<and> (selected_task s < btl_count (collection s) \<or> selected_task s = 0)"

definition window_ok :: "'w BatchUi \<Rightarrow> bool" where
  "window_ok s \<longleftrightarrow> length (results s) = BATCH_DIRECTORY_LIMIT
     \<and> length (q_items (task_queue s)) = BATCH_TASK_LIMIT \<and> 0 \<le> q_count (task_queue s)
     \<and> q_count (task_queue s) \<le> int BATCH_TASK_LIMIT
     \<and> (\<not> loaded s \<longrightarrow> selected_task s = 0 \<and> rows s = []) \<and> (bu_window s \<longrightarrow> loaded s)
     \<and> (asking s = Some AskDelete \<longrightarrow> has_tasks s \<and> loaded s \<and> set (rows s) \<subseteq> {-1})"

definition core_ok :: "'w BatchUi \<Rightarrow> bool" where
  "core_ok s \<longleftrightarrow> runs_ok s \<and> tasks_ok s \<and> window_ok s"

definition selection_ok :: "'w BatchUi \<Rightarrow> bool" where
  "selection_ok s \<longleftrightarrow> list_selection s = selected_step s \<and> (\<not> bu_window s \<longrightarrow> selected_step s = -1)"

definition ui_ok :: "'w BatchUi \<Rightarrow> bool" where
  \<comment> \<open>between taking a task from the queue and its start, the last part does not hold\<close>
  "ui_ok s \<longleftrightarrow> core_ok s \<and> selection_ok s \<and> (rows s = [] \<longrightarrow> active_id (task_queue s) = 0)"

lemmas core_ok_defs = core_ok_def runs_ok_def tasks_ok_def window_ok_def

lemma ui_core: "ui_ok s \<Longrightarrow> core_ok s" and ui_selection: "ui_ok s \<Longrightarrow> selection_ok s"
  by (simp_all add: ui_ok_def)

definition core_view :: "'w BatchUi \<Rightarrow> _" where
  "core_view s = (bu_window s, loaded s, collection s, selected_task s, length (results s), active_runs s, running s,
     cancel_requested s, length (q_items (task_queue s)), q_count (task_queue s), asking s)"

lemma core_view_fields: "core_view s = core_view t \<Longrightarrow> rows s = rows t \<and> task_of s = task_of t \<and> has_tasks s = has_tasks t
    \<and> whole_task_running s = whole_task_running t \<and> step_available s i = step_available t i"
  by (simp add: core_view_def rows_def live_def task_of_def has_tasks_def whole_task_running_def step_running_def
      active_step_def step_available_def)

lemma core_cong: "core_view s = core_view t \<Longrightarrow> core_ok s = core_ok t"
  using core_view_fields [of s t] by (simp add: core_ok_defs core_view_def)

subsection \<open>Equal variables\<close>

lemma same_fields:
  assumes "Store.more s = Store.more t"
  shows "bu_window s = bu_window t" "loaded s = loaded t" "collection s = collection t" "selected_task s = selected_task t"
    "selected_step s = selected_step t" "list_selection s = list_selection t" "results s = results t"
    "active_runs s = active_runs t" "running s = running t" "cancel_requested s = cancel_requested t"
    "run_totals s = run_totals t" "task_queue s = task_queue t" "step_drag s = step_drag t" "name_edit s = name_edit t"
    "command_edit s = command_edit t" "mode_combo s = mode_combo t" "directory_edit s = directory_edit t"
    "step_command_edit s = step_command_edit t" "asking s = asking t"
  using assms
  by (cases s rule: BatchUi.cases_scheme, cases t rule: BatchUi.cases_scheme,
      simp only: Store.simps BatchUi.simps BatchUi.ext_inject)+

lemma same_views:
  assumes "Store.more s = Store.more t"
  shows "ui_ok s = ui_ok t" "core_ok s = core_ok t" "selection_ok s = selection_ok t" "task_of s = task_of t" "rows s = rows t" "has_tasks s = has_tasks t"
    "whole_task_running s = whole_task_running t" "step_running s i = step_running t i" "step_available s i = step_available t i"
  using same_fields [OF assms]
  by (simp_all add: ui_ok_def core_ok_defs selection_ok_def task_of_def rows_def live_def has_tasks_def whole_task_running_def step_running_def
      active_step_def step_available_def)

subsection \<open>Pure steps\<close>

lemma in_range: "tasks_ok s \<Longrightarrow> nat (selected_task s) < length (btl_tasks (collection s))"
  by (auto simp: tasks_ok_def list_ok_def BATCH_TASK_LIMIT_def)

lemma task_of_wf: "tasks_ok s \<Longrightarrow> task_wf (task_of s)"
  using in_range [of s] by (simp add: task_of_def tasks_ok_def list_ok_def list_all_length)

lemma task_of_put [simp]: "tasks_ok s \<Longrightarrow> task_of (put_task t s) = t"
  using in_range [of s] by (simp add: task_of_def put_task_def)

lemma put_task_fields [simp]:
  "bu_window (put_task t s) = bu_window s" "loaded (put_task t s) = loaded s" "selected_task (put_task t s) = selected_task s"
  "selected_step (put_task t s) = selected_step s" "list_selection (put_task t s) = list_selection s"
  "results (put_task t s) = results s" "active_runs (put_task t s) = active_runs s" "running (put_task t s) = running s"
  "cancel_requested (put_task t s) = cancel_requested s" "task_queue (put_task t s) = task_queue s"
  "asking (put_task t s) = asking s" "step_drag (put_task t s) = step_drag s" "run_totals (put_task t s) = run_totals s" "rows (put_task t s) = rows s"
  "has_tasks (put_task t s) = has_tasks s" "btl_count (collection (put_task t s)) = btl_count (collection s)"
  by (simp_all add: put_task_def rows_def live_def has_tasks_def)

lemma ids_update: "bt_id t = bt_id (ts ! i) \<Longrightarrow> map bt_id (take n (ts[i := t])) = map bt_id (take n ts)"
proof -
  assume "bt_id t = bt_id (ts ! i)"
  then have "map bt_id (ts[i := t]) = map bt_id ts" by (cases "i < length ts") (simp_all add: map_update list_update_same_conv list_update_beyond)
  then show ?thesis by (metis take_map)
qed

lemma put_tasks_ok:
  assumes "tasks_ok s" and "task_wf t" and "bt_id t = bt_id (task_of s)"
  shows "tasks_ok (put_task t s)"
proof -
  have "ids (collection (put_task t s)) = ids (collection s)"
    using ids_update [of t "btl_tasks (collection s)" "nat (selected_task s)" "nat (btl_count (collection s))"] assms(3)
    by (simp add: ids_def put_task_def task_of_def)
  then show ?thesis
    using assms(1,2) by (auto simp: tasks_ok_def list_ok_def ids_ok_def list_all_iff put_task_def dest: set_update_subset_insert [THEN subsetD])
qed

lemma put_task_core:
  assumes "core_ok s" and "task_wf t" and "bt_id t = bt_id (task_of s)" and "rows_ok (rows s) (directory_count t)"
  shows "core_ok (put_task t s)"
proof -
  have s: "runs_ok s" "tasks_ok s" "window_ok s" using assms(1) by (simp_all add: core_ok_def)
  have "runs_ok (put_task t s)" using s(1,2) assms(4) by (simp add: runs_ok_def)
  moreover have "window_ok (put_task t s)" using s(3) by (simp add: window_ok_def)
  ultimately show ?thesis using put_tasks_ok [OF s(2) assms(2,3)] by (simp add: core_ok_def)
qed

lemma rows_ok_mono: "rows_ok rs n \<Longrightarrow> n \<le> m \<Longrightarrow> rows_ok rs m"
  by (auto simp: rows_ok_def)

lemma view_show_step [simp]: "core_view (show_step s) = core_view s"
  and view_drag [simp]: "core_view (cancel_step_drag s) = core_view s"
  and view_refresh [simp]: "core_view (refresh_list s) = core_view s"
  and view_show_task [simp]: "core_view (show_task s) = core_view s"
  and view_clear [simp]: "core_view (clear_results pick n s) = core_view s"
  and view_status [simp]: "core_view (set_status i st s) = core_view s"
  by (simp_all add: core_view_def show_step_def cancel_step_drag_def refresh_list_def show_task_def clear_results_def
      set_status_def Let_def)

lemma refresh_selection: "bu_window s \<or> selection_ok s \<Longrightarrow> selection_ok (refresh_list s)"
  by (auto simp: refresh_list_def selection_ok_def show_step_def cancel_step_drag_def Let_def)

lemma show_task_selection: "bu_window s \<or> selection_ok s \<Longrightarrow> selection_ok (show_task s)"
  unfolding show_task_def by (rule refresh_selection) (auto simp: selection_ok_def)

subsection \<open>Saving\<close>

lemma edit_step_result: "batch_task_edit_step (Some t) i (Some d) (Some c) = (k, r) \<Longrightarrow> k = 0 \<or> k = 1 \<and> (\<exists>u. r = Some u)"
  by (auto simp: batch_task_edit_step_def Let_def split: if_splits)

definition same_task :: "BatchTask \<Rightarrow> BatchTask \<Rightarrow> bool" where
  "same_task t u \<longleftrightarrow> task_wf u \<and> bt_id u = bt_id t \<and> directory_count u = directory_count t"

lemma read_step_same:
  assumes "task_wf t" and "read_step s t = Some u"
  shows "same_task t u"
proof -
  let ?d = "take (BATCH_DIRECTORY_CAP - 1) (directory_edit s)" and ?c = "take (BATCH_COMMAND_CAP - 1) (step_command_edit s)"
  obtain k r where e: "batch_task_edit_step (Some t) (selected_step s) (Some ?d) (Some ?c) = (k, r)"
    by (cases "batch_task_edit_step (Some t) (selected_step s) (Some ?d) (Some ?c)")
  have "u = t \<or> k \<noteq> 0 \<and> r = Some u"
    using assms(2) e by (auto simp: read_step_def Let_def split: if_splits)
  then show ?thesis
  proof
    assume "k \<noteq> 0 \<and> r = Some u"
    with edit_step_result [OF e] e have "batch_task_edit_step (Some t) (selected_step s) (Some ?d) (Some ?c) = (1, Some u)" by simp
    from edit_step_accepted [OF assms(1) this] assms(1) show ?thesis
      unfolding same_task_def task_wf_def by (metis nat_eq_iff2 nat_le_0 order_antisym)
  qed (simp add: same_task_def assms(1))
qed

lemma edited_task_same:
  assumes "tasks_ok s" and "edited_task s = Some t"
  shows "same_task (task_of s) t"
proof -
  let ?t = "if running s = 0 then (task_of s)\<lparr>bt_command := take (BATCH_COMMAND_CAP - 1) (command_edit s)\<rparr> else task_of s"
  have wf: "task_wf ?t" and same: "bt_id ?t = bt_id (task_of s)" "directory_count ?t = directory_count (task_of s)"
    using task_of_wf [OF assms(1)] by (simp_all add: task_wf_def)
  obtain u where u: "read_step s ?t = Some u"
    and t: "t = (if running s = 0 then u\<lparr>bt_name := take (BATCH_NAME_CAP - 1) (name_edit s), bt_mode := mode_combo s\<rparr> else u)"
    using assms(2) unfolding edited_task_def Let_def by (simp split: option.splits if_splits)
  from read_step_same [OF wf u] show ?thesis using same by (simp add: t same_task_def task_wf_def)
qed

lemma put_back: "tasks_ok s \<Longrightarrow> put_task (task_of s) (put_task t s) = s"
  by (simp add: put_task_def task_of_def)

lemma put_twice [simp]: "put_task u (put_task t s) = put_task u s"
  by (simp add: put_task_def)

lemma more_modify: "Store.more s = Store.more t \<Longrightarrow> Store.more (s\<lparr>collection := c\<rparr>) = Store.more (t\<lparr>collection := c\<rparr>)"
  by (cases s rule: BatchUi.cases_scheme, cases t rule: BatchUi.cases_scheme) (simp add: Store.defs BatchUi.defs)

lemma more_put: "Store.more s = Store.more t \<Longrightarrow> Store.more (put_task v s) = Store.more (put_task v t)"
proof -
  assume m: "Store.more s = Store.more t"
  show ?thesis unfolding put_task_def same_fields(3,4) [OF m] by (rule more_modify [OF m])
qed

lemma save_current_wp:
  assumes "tasks_ok s" and "task_wf v" and "bt_id v = bt_id (task_of s)"
  shows "wp (save_current E v) (\<lambda>r s'. Store.more s' = Store.more (if r then put_task v s else s)) s"
proof -
  let ?s = "put_task v s" and ?Q = "\<lambda>r s'. Store.more s' = Store.more (if r then put_task v s else s)"
  have ok: "tasks_ok ?s" by (rule put_tasks_ok [OF assms])
  then have "wp (store_save_batch_tasks E (collection ?s)) (\<lambda>r s'. Store.more s' = Store.more ?s \<and> snd r = collection ?s) ?s"
    by (intro save_tasks_same) (auto simp: tasks_ok_def list_ok_def)
  then have "wp (store_save_batch_tasks E (collection ?s)) (\<lambda>r. wp (do {
      modify (\<lambda>s. s\<lparr>collection := snd r\<rparr>);
      if fst r then ret True else do { modify (put_task (task_of s)); ret False } }) ?Q) ?s"
  proof (rule wp_mono)
    fix r :: "bool \<times> BatchTaskList" and s1 assume r: "Store.more s1 = Store.more ?s \<and> snd r = collection ?s"
    then have "s1\<lparr>collection := snd r\<rparr> = s1" using same_fields(3) [of s1 ?s] by simp
    moreover have "Store.more (put_task (task_of s) s1) = Store.more s"
      using more_put [of s1 ?s "task_of s"] r put_back [OF assms(1), of v] by simp
    ultimately show "wp (do { modify (\<lambda>s. s\<lparr>collection := snd r\<rparr>);
        if fst r then ret True else do { modify (put_task (task_of s)); ret False } }) ?Q s1"
      using r by (simp add: wp)
  qed
  then show ?thesis by (simp add: save_current_def wp)
qed

lemma same_task_core: "core_ok s \<Longrightarrow> same_task (task_of s) t \<Longrightarrow> core_ok (put_task t s)"
  by (rule put_task_core) (auto simp: same_task_def core_ok_def runs_ok_def)

definition frame :: "'w BatchUi \<Rightarrow> _" where
  \<comment> \<open>what saving the fields leaves alone\<close>
  "frame s = (bu_window s, loaded s, selected_task s, selected_step s, list_selection s, active_runs s, running s,
     cancel_requested s, run_totals s, task_queue s, step_drag s, asking s, btl_count (collection s),
     directory_count (task_of s), bt_id (task_of s))"

lemma frame_fields: "frame s = frame t \<Longrightarrow> rows s = rows t \<and> has_tasks s = has_tasks t \<and> selection_ok s = selection_ok t
    \<and> whole_task_running s = whole_task_running t \<and> step_available s i = step_available t i"
  by (simp add: frame_def rows_def live_def has_tasks_def selection_ok_def whole_task_running_def step_running_def
      active_step_def step_available_def)

lemma frame_more: "Store.more s = Store.more t \<Longrightarrow> frame s = frame t"
  using same_fields [of s t] same_views [of s t] by (simp add: frame_def)

lemma frame_steps [simp]: "frame (show_step s) = frame s" "frame (clear_results pick n s) = frame s"
  by (simp_all add: frame_def show_step_def clear_results_def task_of_def Let_def)

lemma frame_put: "tasks_ok s \<Longrightarrow> same_task (task_of s) t \<Longrightarrow> frame (put_task t s) = frame s"
  by (simp add: frame_def same_task_def)

lemma core_task: "core_ok s \<Longrightarrow> tasks_ok s"
  by (simp add: core_ok_def)

lemma save_command_wp:
  assumes "core_ok s"
  shows "wp (save_command E) (\<lambda>r s'. core_ok s' \<and> frame s' = frame s) s"
proof (cases "whole_task_running s \<or> \<not> has_tasks s")
  case True
  then show ?thesis using assms by (simp add: save_command_def wp)
next
  case False
  note s = core_task [OF assms]
  show ?thesis
  proof (cases "edited_task s")
    case None
    then show ?thesis using False assms by (simp add: save_command_def wp)
  next
    case (Some t)
    note t = edited_task_same [OF s Some]
    let ?Q = "\<lambda>r s'. core_ok s' \<and> frame s' = frame s"
    let ?rest = "\<lambda>saved. if \<not> saved then ret False else do {
        modify (clear_results (step_changed (task_of s) t) (nat (directory_count t))); modify (put_task t); modify show_step; ret True }"
    have fine: "?Q True (show_step (put_task t (clear_results p n u)))" if "core_ok u" "frame u = frame s" "task_of u = t" for p n u
    proof -
      let ?u = "clear_results p n u"
      have c: "core_ok ?u" using that(1) core_cong [of ?u u] by simp
      have k: "same_task (task_of ?u) t"
        using core_view_fields [of ?u u] that t by (simp add: same_task_def)
      from same_task_core [OF c k] frame_put [OF core_task [OF c] k] show ?thesis using that(2) core_cong [of "show_step (put_task t ?u)" "put_task t ?u"] by simp
    qed
    have "wp (save_current E t) (\<lambda>r. wp (?rest r) ?Q) s"
    proof (rule wp_mono [OF save_current_wp [OF s]])
      show "task_wf t" "bt_id t = bt_id (task_of s)" using t by (simp_all add: same_task_def)
      fix r u assume u: "Store.more u = Store.more (if r then put_task t s else s)"
      note v = same_views [OF u] frame_more [OF u]
      show "wp (?rest r) ?Q u"
        using v fine [of u] same_task_core [OF assms t] frame_put [OF s t] assms s by (cases r) (simp_all add: wp)
    qed
    then show ?thesis using False Some by (simp add: save_command_def wp)
  qed
qed

lemma ui_frame: "ui_ok s \<Longrightarrow> core_ok u \<Longrightarrow> frame u = frame s \<Longrightarrow> ui_ok u"
  using frame_fields [of u s] by (simp add: ui_ok_def frame_def)

lemma framed:
  assumes "ui_ok s" and "core_ok u \<and> frame u = frame s"
  shows "ui_ok u" "loaded u = loaded s" "rows u = rows s" "running u = running s" "asking u = asking s"
    "bu_window u = bu_window s" "selected_task u = selected_task s" "selected_step u = selected_step s"
    "list_selection u = list_selection s" "task_queue u = task_queue s" "step_drag u = step_drag s"
    "active_runs u = active_runs s" "cancel_requested u = cancel_requested s" "run_totals u = run_totals s"
    "btl_count (collection u) = btl_count (collection s)" "directory_count (task_of u) = directory_count (task_of s)"
    "has_tasks u = has_tasks s" "step_available u i = step_available s i"
proof -
  have f: "frame u = frame s" using assms(2) ..
  show "ui_ok u" using ui_frame [OF assms(1) _ f] assms(2) by blast
  show "rows u = rows s" "has_tasks u = has_tasks s" "step_available u i = step_available s i"
    using frame_fields [OF f] by simp_all
qed (use assms(2) in \<open>simp_all add: frame_def\<close>)

lemma ui_more: "Store.more u = Store.more s \<Longrightarrow> ui_ok u = ui_ok s"
  by (rule same_views(1))

subsection \<open>Slots\<close>

lemma filter_fill:
  assumes "i < length xs" and "\<not> P (xs ! i)" and "P x"
  shows "\<exists>ys zs. filter P xs = ys @ zs \<and> filter P (xs[i := x]) = ys @ x # zs"
  using assms by (intro exI [of _ "filter P (take i xs)"] exI [of _ "filter P (drop (Suc i) xs)"])
    (simp add: upd_conv_take_nth_drop, subst id_take_nth_drop [of i xs], simp_all)

lemma filter_clear:
  assumes "i < length xs" and "P (xs ! i)" and "\<not> P x"
  shows "\<exists>ys zs. filter P xs = ys @ xs ! i # zs \<and> filter P (xs[i := x]) = ys @ zs"
  using assms by (intro exI [of _ "filter P (take i xs)"] exI [of _ "filter P (drop (Suc i) xs)"])
    (simp add: upd_conv_take_nth_drop, subst id_take_nth_drop [of i xs], simp_all)

lemma free_slot_Some:
  assumes "free_slot s = Some slot"
  shows "slot < length (active_runs s)" and "ar_worker (active_runs s ! slot) = None"
  using assms by (auto simp: free_slot_def find_Some_iff)

lemma row_running: "r \<in> set (rows s) \<longleftrightarrow> (\<exists>i < length (active_runs s). ar_worker (active_runs s ! i) \<noteq> None \<and> ar_row (active_runs s ! i) = r)"
  by (auto simp: rows_def live_def in_set_conv_nth image_iff)

lemma available_free:
  assumes "step_available s r"
  shows "0 \<le> r" "r < directory_count (task_of s)" "r \<notin> set (rows s)" "-1 \<notin> set (rows s)" "has_tasks s"
proof -
  have a: "0 \<le> r" "\<not> whole_task_running s" "active_step s r = None" and b: "r < directory_count (task_of s)" "has_tasks s"
    using assms by (simp_all add: step_available_def step_running_def)
  from a b show "0 \<le> r" "r < directory_count (task_of s)" "has_tasks s" by simp_all
  have "List.find (\<lambda>i. ar_worker (active_runs s ! i) \<noteq> None \<and> ar_row (active_runs s ! i) = r) [0..<length (active_runs s)] = None"
    using a(1,3) by (simp add: active_step_def)
  then show "r \<notin> set (rows s)" by (auto simp: row_running find_None_iff)
  show "-1 \<notin> set (rows s)"
  proof
    assume "-1 \<in> set (rows s)"
    then obtain x where "x \<in> set (active_runs s)" "ar_worker x \<noteq> None" "ar_row x = -1"
      by (auto simp: rows_def live_def)
    then show False using a(2) by (auto simp: whole_task_running_def list_ex_iff)
  qed
qed

definition admits :: "'w BatchUi \<Rightarrow> int \<Rightarrow> bool" where
  "admits s r \<longleftrightarrow> r = -1 \<and> rows s = []
     \<or> 0 \<le> r \<and> r < directory_count (task_of s) \<and> r \<notin> set (rows s) \<and> -1 \<notin> set (rows s) \<and> asking s \<noteq> Some AskDelete"

lemma rows_fill:
  assumes "slot < length (active_runs s)" and "ar_worker (active_runs s ! slot) = None" and "ar_worker a \<noteq> None"
    and "active_runs t = (active_runs s)[slot := a]"
  shows "\<exists>ys zs. rows s = ys @ zs \<and> rows t = ys @ ar_row a # zs"
proof -
  obtain ys zs where "live s = ys @ zs" "live t = ys @ a # zs"
    using filter_fill [of slot "active_runs s" "\<lambda>a. ar_worker a \<noteq> None" a] assms by (auto simp: live_def)
  then show ?thesis by (intro exI [of _ "map ar_row ys"] exI [of _ "map ar_row zs"]) (simp add: rows_def)
qed

lemma enter_run_core:
  assumes "core_ok s" and "loaded s" and "free_slot s = Some slot" and "admits s r"
  shows "core_ok (enter_run t r slot s)" "rows (enter_run t r slot s) \<noteq> []"
    "selection_ok s \<Longrightarrow> selection_ok (enter_run t r slot s)"
proof -
  note slot = free_slot_Some [OF assms(3)]
  define a where "a = \<lparr>ar_worker = Some (run_context t r slot), ar_cancel = Some False, ar_row = r,
    ar_cancelling = ar_cancelling (active_runs s ! slot)\<rparr>"
  define u where "u = s\<lparr>active_runs := (active_runs s)[slot := a], run_totals := (if running s = 0 then zero_batch else run_totals s),
         running := running s + 1, cancel_requested := False\<rparr>"
  define v where "v = (if r \<ge> 0 then u\<lparr>results := (results u)[nat r := cleared_result\<lparr>sr_status := BATCH_RUNNING\<rparr>]\<rparr> else u)"
  have enter: "enter_run t r slot s = refresh_list v" by (simp add: enter_run_def Let_def a_def u_def v_def)
  obtain ys zs where rows: "rows s = ys @ zs" "rows u = ys @ r # zs"
    using rows_fill [OF slot, of a u] by (auto simp: a_def u_def)
  have task: "task_of u = task_of s" by (simp add: u_def task_of_def)
  have ok: "rows_ok (rows s) (directory_count (task_of s))" using assms(1) by (simp add: core_ok_def runs_ok_def)
  have "tasks_ok s" using assms(1) by (rule core_task)
  then have n: "0 \<le> directory_count (task_of s)" using task_of_wf [of s] by (simp add: task_wf_def)
  have rok: "rows_ok (rows u) (directory_count (task_of u))"
    using assms(4) ok n unfolding admits_def rows task rows_ok_def by auto
  have slots: "list_all slot_ok ((active_runs s)[slot := a])"
    using assms(1) by (auto simp: core_ok_def runs_ok_def list_all_iff slot_ok_def a_def dest!: set_update_subset_insert [THEN subsetD])
  have "runs_ok u"
  proof -
    have "active_runs u = (active_runs s)[slot := a]" "running u = running s + 1" "\<not> cancel_requested u"
      by (simp_all add: u_def)
    then show ?thesis using assms(1) rok slots rows by (simp add: core_ok_def runs_ok_def)
  qed
  moreover have "tasks_ok u" using \<open>tasks_ok s\<close> by (simp add: tasks_ok_def u_def)
  moreover have "window_ok u"
  proof -
    have "asking s = Some AskDelete \<longrightarrow> set (rows u) \<subseteq> {-1}" using assms(4) rows by (auto simp: admits_def)
    then show ?thesis using assms(1,2) by (simp add: core_ok_def window_ok_def u_def has_tasks_def)
  qed
  ultimately have "core_ok u" by (simp add: core_ok_def)
  moreover have view: "core_view v = core_view u" by (simp add: v_def core_view_def)
  ultimately show "core_ok (enter_run t r slot s)" using core_cong [of v u] core_cong [of "refresh_list v" v] by (simp add: enter)
  have "rows (refresh_list v) = rows u" using core_view_fields [of "refresh_list v" v] core_view_fields [OF view] by simp
  then show "rows (enter_run t r slot s) \<noteq> []" by (simp add: enter rows(2))
  assume "selection_ok s"
  then have "selection_ok v" by (simp add: v_def u_def selection_ok_def)
  then show "selection_ok (enter_run t r slot s)" unfolding enter by (intro refresh_selection disjI2)
qed

lemma more_world: "wp (lift f) (\<lambda>r s'. Store.more s' = Store.more s) s"
  by (rule keeps_wp [OF more_session(1)])

lemma find_id:
  assumes "tasks_ok s" and "List.find (\<lambda>i. bt_id (btl_tasks (collection s) ! i) = k) [0..<nat (btl_count (collection s))] = Some i"
  shows "int i < btl_count (collection s)"
  using assms(2) by (auto simp: find_Some_iff)

lemma select_same:
  assumes "tasks_ok s" and "has_tasks s"
  shows "select_id (bt_id (task_of s)) s = s"
proof -
  let ?n = "nat (btl_count (collection s))" and ?ts = "btl_tasks (collection s)" and ?i = "nat (selected_task s)"
  have n: "?i < ?n" "?n \<le> length ?ts" "0 \<le> selected_task s"
    using assms by (auto simp: tasks_ok_def list_ok_def has_tasks_def)
  have inj: "j = ?i" if "j < ?n" "bt_id (?ts ! j) = bt_id (?ts ! ?i)" for j
  proof -
    have "distinct (map bt_id (take ?n ?ts))" using assms(1) by (simp add: tasks_ok_def ids_ok_def ids_def)
    from nth_eq_iff_index_eq [OF this, of j ?i] that n show ?thesis by simp
  qed
  have less: "bt_id (?ts ! j) \<noteq> bt_id (?ts ! ?i)" if "j < ?i" for j using inj [of j] that n(1) by auto
  have "List.find (\<lambda>i. bt_id (?ts ! i) = bt_id (task_of s)) [0..<?n] = Some ?i"
    using n less by (auto simp: find_Some_iff task_of_def intro!: exI [of _ ?i])
  then show ?thesis using n(3) by (simp add: select_id_def)
qed

lemma begin_row_wp:
  fixes s :: "'w BatchUi"
  assumes "core_ok s" and "loaded s" and "0 \<le> r" and "asking s \<noteq> Some AskDelete"
  shows "wp (begin_task E (task_of s) r) (\<lambda>ok s'. if ok then core_ok s' \<and> rows s' \<noteq> [] \<and> (selection_ok s \<longrightarrow> selection_ok s')
     else Store.more s' = Store.more s) s"
proof (cases "r \<ge> directory_count (task_of s) \<or> \<not> step_available s r \<or> free_slot s = None")
  case True
  then show ?thesis using assms(3) by (auto simp: begin_task_def wp split: option.splits)
next
  case False
  then obtain slot where slot: "free_slot s = Some slot" "step_available s r" "r < directory_count (task_of s)" by auto
  let ?Q = "\<lambda>ok (s' :: 'w BatchUi). if ok then core_ok s' \<and> rows s' \<noteq> [] \<and> (selection_ok s \<longrightarrow> selection_ok s') else Store.more s' = Store.more s"
  let ?thread = "do { worker \<leftarrow> lift (create_thread E);
      if \<not> worker then ret False else do { modify (enter_run (task_of s) r slot); ret True } }"
  have fill: "?Q True (enter_run (task_of s) r slot u)" if m: "Store.more u = Store.more s" for u :: "'w BatchUi"
  proof -
    note v = same_views [OF m] same_fields [OF m]
    have "core_ok u" "loaded u" "free_slot u = Some slot" "admits u r"
      using assms slot available_free [OF slot(2)] by (simp_all add: v free_slot_def admits_def)
    from enter_run_core [OF this] show ?thesis using v(3) by simp
  qed
  have thread: "wp ?thread ?Q u" if m: "Store.more u = Store.more s" for u :: "'w BatchUi"
    unfolding wp_bind by (rule wp_mono [OF more_world]) (use fill m in \<open>auto simp: wp\<close>)
  have select: "select_id (bt_id (task_of s)) u = u" if m: "Store.more u = Store.more s" for u :: "'w BatchUi"
    using select_same [of u] core_task [of u] assms(1) available_free(5) [OF slot(2)] same_views [OF m] by simp
  define Q where "Q = ?Q"
  have event: "wp (if \<not> ev then ret False else do { modify (select_id (bt_id (task_of s)));
      (if r < 0 then modify prepare_whole else ret ()); ?thread }) Q u"
    if m: "Store.more u = Store.more s" for ev and u :: "'w BatchUi"
    using thread [OF m] m assms(3) unfolding Q_def [symmetric] by (cases ev) (simp_all add: wp select [OF m], simp add: Q_def)
  have c: "\<not> (r < -1 \<or> directory_count (task_of s) \<le> r)" "\<not> (r < 0 \<and> running s \<noteq> 0 \<or> 0 \<le> r \<and> \<not> step_available s r)"
    using slot assms(3) by simp_all
  show ?thesis
    unfolding Q_def [symmetric] begin_task_def wp_bind wp_gets if_not_P [OF c(1)] if_not_P [OF c(2)] slot(1) option.case
    by (rule wp_mono [OF more_world event [unfolded wp_bind]])
qed

lemma select_core:
  assumes "core_ok s" and "rows s = []" and "loaded s"
  shows "core_ok (select_id k s)" "rows (select_id k s) = []" "loaded (select_id k s)"
    "selection_ok (select_id k s) = selection_ok s" "task_queue (select_id k s) = task_queue s" "bu_window (select_id k s) = bu_window s"
proof -
  have one: "core_ok (s\<lparr>selected_task := int i\<rparr>)" if "int i < btl_count (collection s)" for i
  proof -
    have r: "rows (s\<lparr>selected_task := int i\<rparr>) = []" using assms(2) by (simp add: rows_def live_def)
    have "runs_ok (s\<lparr>selected_task := int i\<rparr>)"
      using assms(1,2) by (simp add: core_ok_def runs_ok_def r rows_ok_def)
    moreover have "tasks_ok (s\<lparr>selected_task := int i\<rparr>)" using assms(1) that by (simp add: core_ok_def tasks_ok_def)
    moreover have "window_ok (s\<lparr>selected_task := int i\<rparr>)"
      using assms by (simp add: core_ok_def window_ok_def r has_tasks_def)
    ultimately show ?thesis by (simp add: core_ok_def)
  qed
  show "core_ok (select_id k s)"
    using one assms(1) find_id [OF core_task [OF assms(1)]] by (auto simp: select_id_def split: option.splits)
  show "rows (select_id k s) = []" "loaded (select_id k s)" "selection_ok (select_id k s) = selection_ok s"
    "task_queue (select_id k s) = task_queue s" "bu_window (select_id k s) = bu_window s"
    using assms by (auto simp: select_id_def rows_def live_def selection_ok_def split: option.splits)
qed

lemma prepare_core:
  assumes "core_ok s" and "selection_ok s"
  shows "core_ok (prepare_whole s)" "rows (prepare_whole s) = rows s" "selection_ok (prepare_whole s)"
    "task_queue (prepare_whole s) = task_queue s" "loaded (prepare_whole s) = loaded s"
proof -
  have v: "core_view (prepare_whole s) = core_view s" by (simp add: prepare_whole_def Let_def)
  show "core_ok (prepare_whole s)" using core_cong [OF v] assms by simp
  show "rows (prepare_whole s) = rows s" using core_view_fields [OF v] by simp
  show "loaded (prepare_whole s) = loaded s" using v by (simp add: core_view_def)
  have "selection_ok (clear_results p n u) = selection_ok u" for p n and u :: "'a BatchUi" by (simp add: clear_results_def selection_ok_def)
  then show "selection_ok (prepare_whole s)"
    using show_task_selection [of s] assms(2) by (simp add: prepare_whole_def Let_def)
  show "task_queue (prepare_whole s) = task_queue s"
    by (simp add: prepare_whole_def show_task_def refresh_list_def show_step_def cancel_step_drag_def clear_results_def Let_def)
qed

lemma begin_whole_wp:
  fixes s :: "'w BatchUi"
  assumes "core_ok s" and "selection_ok s" and "loaded s" and "rows s = []"
  shows "wp (begin_task E t (-1)) (\<lambda>ok s'. core_ok s' \<and> selection_ok s' \<and> loaded s'
     \<and> (if ok then rows s' \<noteq> [] else rows s' = [] \<and> task_queue s' = task_queue s)) s"
proof -
  let ?Q = "\<lambda>ok (s' :: 'w BatchUi). core_ok s' \<and> selection_ok s' \<and> loaded s'
     \<and> (if ok then rows s' \<noteq> [] else rows s' = [] \<and> task_queue s' = task_queue s)"
  let ?P = "\<lambda>u :: 'w BatchUi. core_ok u \<and> selection_ok u \<and> loaded u \<and> rows u = [] \<and> task_queue u = task_queue s"
  have more: "?P u" if "Store.more u = Store.more v" "?P v" for u v :: "'w BatchUi"
    using same_views [OF that(1)] same_fields [OF that(1)] that(2) by simp
  have fill: "?Q True (enter_run t (-1) slot u)" if "?P u" "free_slot u = Some slot" for u slot
    using enter_run_core [of u slot "-1" t] that by (auto simp: admits_def enter_run_def Let_def refresh_list_def show_step_def cancel_step_drag_def)
  have free: "free_slot u = free_slot v" if "active_runs u = active_runs v" for u v :: "'w BatchUi"
    using that by (simp add: free_slot_def)
  have kept: "active_runs (prepare_whole u) = active_runs u" "active_runs (select_id k u) = active_runs u" for u :: "'w BatchUi" and k
    by (simp_all add: prepare_whole_def show_task_def refresh_list_def show_step_def cancel_step_drag_def clear_results_def
        select_id_def Let_def split: option.splits)
  have thread: "wp (do { worker \<leftarrow> lift (create_thread E);
      if \<not> worker then ret False else do { modify (enter_run t (-1) slot); ret True } }) ?Q u"
    if P: "?P u" and slot: "free_slot u = Some slot" for u slot
    unfolding wp_bind
  proof (rule wp_mono [OF more_world])
    fix r and v :: "'w BatchUi" assume m: "Store.more v = Store.more u"
    have "free_slot v = Some slot" using slot free [OF same_fields(8) [OF m]] by simp
    then show "wp (if \<not> r then ret False else do { modify (enter_run t (-1) slot); ret True }) ?Q v"
      using fill more [OF m P] by (auto simp: wp)
  qed
  have go: "wp (do { modify (select_id (bt_id t)); modify prepare_whole; worker \<leftarrow> lift (create_thread E);
      if \<not> worker then ret False else do { modify (enter_run t (-1) slot); ret True } }) ?Q u"
    if P: "?P u" and slot: "free_slot u = Some slot" for u slot
  proof -
    let ?u = "select_id (bt_id t) u" and ?v = "prepare_whole (select_id (bt_id t) u)"
    have "?P ?u" using P select_core [of u "bt_id t"] by simp
    then have "?P ?v" using prepare_core [of ?u] by simp
    moreover have "free_slot ?v = Some slot" using slot free [of ?v u] kept by simp
    ultimately show ?thesis using thread by (simp add: wp)
  qed
  have P: "?P s" using assms by simp
  have running: "running s = 0" using assms by (simp add: core_ok_def runs_ok_def)
  define Q where "Q = ?Q"
  have no: "Q False s" using P by (simp add: Q_def)
  have "wp (begin_task E t (-1)) Q s"
  proof (cases "free_slot s")
    case None
    then show ?thesis using no running by (simp add: begin_task_def wp)
  next
    case (Some slot)
    have event: "wp (if \<not> r then ret False else do { modify (select_id (bt_id t));
        (if (-1::int) < 0 then modify prepare_whole else ret ()); worker \<leftarrow> lift (create_thread E);
        if \<not> worker then ret False else do { modify (enter_run t (-1) slot); ret True } }) Q u"
      if m: "Store.more u = Store.more s" for r and u :: "'w BatchUi"
      using go [OF more [OF m P], folded Q_def] more [OF m P] free [OF same_fields(8) [OF m]] Some
      by (cases r) (simp_all add: wp, simp add: Q_def)
    show ?thesis
    proof (cases "directory_count t \<le> -1")
      case True
      then show ?thesis using no by (simp add: begin_task_def wp)
    next
      case False
      then have c: "\<not> (-1 < (-1::int) \<or> directory_count t \<le> -1)"
        "\<not> ((-1::int) < 0 \<and> running s \<noteq> 0 \<or> 0 \<le> (-1::int) \<and> \<not> step_available s (-1))"
        using running by simp_all
      show ?thesis
        unfolding begin_task_def wp_bind wp_gets if_not_P [OF c(1)] if_not_P [OF c(2)] Some option.case
        by (rule wp_mono [OF more_world event [unfolded wp_bind]])
    qed
  qed
  then show ?thesis by (simp only: Q_def)
qed

subsection \<open>The queue\<close>

lemma take_core:
  assumes "core_ok s" and "batch_task_queue_take (Some (task_queue s)) True = Some (t, q)"
  shows "core_ok (s\<lparr>task_queue := q\<rparr>)"
proof -
  let ?q = "task_queue s"
  have q: "q = ?q\<lparr>active_id := bt_id (q_items ?q ! 0), q_count := q_count ?q - 1, q_items := move_down 0 (nat (q_count ?q)) (q_items ?q)\<rparr>"
    and n: "1 \<le> q_count ?q" "q_count ?q \<le> int BATCH_TASK_LIMIT"
    using assms(2) by (auto simp: batch_task_queue_take_def split: if_splits)
  have w: "window_ok s" using assms(1) by (simp add: core_ok_def)
  have "length (move_down 0 (nat (q_count ?q)) (q_items ?q)) = length (q_items ?q)"
    by (rule length_move_down) (use n w in \<open>auto simp: window_ok_def\<close>)
  then have "length (q_items q) = BATCH_TASK_LIMIT" "0 \<le> q_count q" "q_count q \<le> int BATCH_TASK_LIMIT"
    using w n by (simp_all add: q window_ok_def)
  then show ?thesis
    using assms(1) by (simp add: core_ok_defs rows_def live_def task_of_def has_tasks_def)
qed

lemma queue_fields: "rows (s\<lparr>task_queue := q\<rparr>) = rows s" "selection_ok (s\<lparr>task_queue := q\<rparr>) = selection_ok s"
  by (simp_all add: rows_def live_def selection_ok_def)

lemma idle_core: "core_ok (s\<lparr>task_queue := (task_queue s)\<lparr>active_id := k\<rparr>\<rparr>) = core_ok s"
  by (rule core_cong) (simp add: core_view_def)

lemma start_queued_wp:
  assumes "ui_ok s" and "loaded s" and "rows s = []"
  shows "wp (start_queued E n) (\<lambda>r s'. ui_ok s' \<and> loaded s' \<and> (r \<longleftrightarrow> rows s' \<noteq> [])) s"
  using assms
proof (induction n arbitrary: s)
  case (Suc n)
  let ?Q = "\<lambda>r s'. ui_ok s' \<and> loaded s' \<and> (r \<longleftrightarrow> rows s' \<noteq> [])"
  show ?case
  proof (cases "batch_task_queue_take (Some (task_queue s)) True")
    case None
    then show ?thesis using Suc.prems by (simp add: wp)
  next
    case (Some p)
    obtain t q where p: "p = (t, q)" by (cases p)
    let ?s = "s\<lparr>task_queue := q\<rparr>"
    have s: "core_ok ?s" "selection_ok ?s" "loaded ?s" "rows ?s = []"
      using Suc.prems take_core [OF ui_core [OF Suc.prems(1)] Some [unfolded p]] by (simp_all add: queue_fields ui_ok_def)
    have "wp (begin_task E t (-1)) (\<lambda>ok. wp (if ok then ret True else do {
        modify (\<lambda>s. s\<lparr>task_queue := (task_queue s)\<lparr>active_id := 0\<rparr>\<rparr>); start_queued E n }) ?Q) ?s"
    proof (rule wp_mono [OF begin_whole_wp [OF s]])
      fix ok and u :: "'a BatchUi"
      assume u: "core_ok u \<and> selection_ok u \<and> loaded u \<and> (if ok then rows u \<noteq> [] else rows u = [] \<and> task_queue u = task_queue ?s)"
      show "wp (if ok then ret True else do {
          modify (\<lambda>s. s\<lparr>task_queue := (task_queue s)\<lparr>active_id := 0\<rparr>\<rparr>); start_queued E n }) ?Q u"
      proof (cases ok)
        case True
        then show ?thesis using u by (simp add: wp ui_ok_def)
      next
        case False
        let ?u = "u\<lparr>task_queue := (task_queue u)\<lparr>active_id := 0\<rparr>\<rparr>"
        have "ui_ok ?u" "loaded ?u" "rows ?u = []" using idle_core [where s = u and k = 0] u False by (simp_all add: ui_ok_def queue_fields)
        from Suc.IH [OF this] False show ?thesis by (simp add: wp)
      qed
    qed
    then show ?thesis using Some p by (simp add: wp)
  qed
qed (simp add: wp)

lemma start_next_wp:
  assumes "ui_ok s" and "loaded s"
  shows "wp (start_next_task E) (\<lambda>r s'. ui_ok s' \<and> loaded s') s"
proof (cases "running s = 0")
  case True
  let ?Q = "\<lambda>r s'. ui_ok s' \<and> loaded s'"
  have rows: "rows s = []" using assms(1) True by (simp add: ui_ok_def core_ok_def runs_ok_def)
  have start: "wp (do { n \<leftarrow> gets (\<lambda>s. q_count (task_queue s)); start_queued E (nat n) }) ?Q u"
    if "ui_ok u" "loaded u" "rows u = []" for u
    using wp_mono [OF start_queued_wp [OF that], of ?Q E "nat (q_count (task_queue u))"] by (simp add: wp)
  show ?thesis
  proof (cases "bu_window s")
    case window: True
    have "wp (save_command E) (\<lambda>r. wp (if \<not> r then ret False
        else do { n \<leftarrow> gets (\<lambda>s. q_count (task_queue s)); start_queued E (nat n) }) ?Q) s"
    proof (rule wp_mono [OF save_command_wp [OF ui_core [OF assms(1)]]])
      fix r and u :: "'a BatchUi" assume u: "core_ok u \<and> frame u = frame s"
      have "ui_ok u" "loaded u" "rows u = []" using framed [OF assms(1) u] rows assms(2) by simp_all
      with start [OF this] show "wp (if \<not> r then ret False
          else do { n \<leftarrow> gets (\<lambda>s. q_count (task_queue s)); start_queued E (nat n) }) ?Q u" by (cases r) (simp_all add: wp)
    qed
    then show ?thesis using True window by (simp add: start_next_task_def wp)
  next
    case False
    then show ?thesis using True start [OF assms rows] by (simp add: start_next_task_def wp)
  qed
qed (use assms in \<open>simp add: start_next_task_def wp\<close>)

subsection \<open>Events and cancelling\<close>

lemma rows_clear:
  assumes "slot < length (active_runs s)" and "ar_worker (active_runs s ! slot) \<noteq> None"
    and "active_runs t = (active_runs s)[slot := idle_slot]"
  shows "\<exists>ys zs. rows s = ys @ ar_row (active_runs s ! slot) # zs \<and> rows t = ys @ zs"
proof -
  obtain ys zs where "live s = ys @ active_runs s ! slot # zs" "live t = ys @ zs"
    using filter_clear [of slot "active_runs s" "\<lambda>a. ar_worker a \<noteq> None" idle_slot] assms by (auto simp: live_def idle_slot_def)
  then show ?thesis by (intro exI [of _ "map ar_row ys"] exI [of _ "map ar_row zs"]) (simp add: rows_def)
qed

lemma rows_ok_remove:
  assumes "rows_ok (ys @ x # zs) n"
  shows "rows_ok (ys @ zs) n"
proof -
  have "-1 \<notin> set (ys @ zs)"
  proof
    assume "-1 \<in> set (ys @ zs)"
    moreover from this have "ys @ x # zs = [-1]" using assms by (simp add: rows_ok_def)
    then have "ys = [] \<and> zs = []" by (cases ys) auto
    ultimately show False by simp
  qed
  then show ?thesis using assms by (simp add: rows_ok_def)
qed

lemma finish_run_ok:
  assumes "ui_ok s" and "slot < length (active_runs s)" and "ar_worker (active_runs s ! slot) \<noteq> None"
  shows "ui_ok (finish_run slot e s)" "loaded (finish_run slot e s) = loaded s"
proof -
  define u where "u = s\<lparr>run_totals := add_totals (active_runs s ! slot) e (run_totals s),
           active_runs := (active_runs s)[slot := idle_slot], running := running s - 1\<rparr>"
  have f: "active_runs u = (active_runs s)[slot := idle_slot]" "running u = running s - 1" "cancel_requested u = cancel_requested s"
    "task_of u = task_of s" "asking u = asking s" "collection u = collection s" "selected_task u = selected_task s"
    "results u = results s" "task_queue u = task_queue s" "loaded u = loaded s" "bu_window u = bu_window s" "has_tasks u = has_tasks s"
    by (simp_all add: u_def task_of_def has_tasks_def)
  obtain ys zs where rows: "rows s = ys @ ar_row (active_runs s ! slot) # zs" "rows u = ys @ zs"
    using rows_clear [OF assms(2,3) f(1)] by auto
  define v where "v = (if running u = 0 then u\<lparr>task_queue := (task_queue u)\<lparr>active_id := 0\<rparr>, cancel_requested := False\<rparr> else u)"
  have g: "rows v = rows u" "active_runs v = active_runs u" "running v = running u" "task_of v = task_of u" "collection v = collection u"
    "selected_task v = selected_task u" "results v = results u" "q_items (task_queue v) = q_items (task_queue u)"
    "q_count (task_queue v) = q_count (task_queue u)" "loaded v = loaded u" "bu_window v = bu_window u" "asking v = asking u"
    "has_tasks v = has_tasks u" "running u = 0 \<longrightarrow> active_id (task_queue v) = 0 \<and> \<not> cancel_requested v"
    "running u \<noteq> 0 \<longrightarrow> v = u"
    by (simp_all add: v_def rows_def live_def task_of_def has_tasks_def)
  have s: "runs_ok s" "tasks_ok s" "window_ok s" "selection_ok s" using assms(1) by (simp_all add: ui_ok_def core_ok_def)
  have len: "running u = int (length (rows u))" using s(1) by (simp add: runs_ok_def f(2) rows)
  have "list_all slot_ok ((active_runs s)[slot := idle_slot])"
    using s(1) by (auto simp: runs_ok_def list_all_iff slot_ok_def idle_slot_def dest!: set_update_subset_insert [THEN subsetD])
  moreover have "rows_ok (rows u) (directory_count (task_of s))"
    using s(1) by (auto simp: runs_ok_def rows intro: rows_ok_remove)
  ultimately have "runs_ok v"
    using s(1) len g(14) by (auto simp: runs_ok_def g(1-4) f(1,2,4) intro: g(15))
  moreover have "tasks_ok v" using s(2) by (simp add: tasks_ok_def g f)
  moreover have "window_ok v" using s(3) rows by (auto simp: window_ok_def g f)
  moreover have "selection_ok v" using s(4) by (simp add: selection_ok_def v_def u_def)
  moreover have "rows v = [] \<longrightarrow> active_id (task_queue v) = 0" using len g(1,14) by simp
  moreover have "finish_run slot e s = v" by (simp add: finish_run_def u_def v_def Let_def)
  ultimately show "ui_ok (finish_run slot e s)" "loaded (finish_run slot e s) = loaded s"
    by (simp_all add: ui_ok_def core_ok_def g f)
qed

lemma results_view: "length r = length (results s) \<Longrightarrow> core_view (s\<lparr>results := r\<rparr>) = core_view s"
  by (simp add: core_view_def)

lemma ui_cong: "core_view t = core_view s \<Longrightarrow> selection_ok t = selection_ok s \<Longrightarrow> task_queue t = task_queue s \<Longrightarrow> ui_ok t = ui_ok s"
  using core_cong [of t s] core_view_fields [of t s] by (simp add: ui_ok_def)

lemma ui_results: "length r = length (results s) \<Longrightarrow> ui_ok (s\<lparr>results := r\<rparr>) = ui_ok s"
  by (rule ui_cong [OF results_view]) (simp_all add: selection_ok_def)

lemma take_event_ok:
  assumes "ui_ok s" and "nat (ev_slot e) < length (active_runs s)" and "ar_worker (active_runs s ! nat (ev_slot e)) \<noteq> None"
  shows "ui_ok (take_event e s)" "loaded (take_event e s)"
proof -
  let ?a = "active_runs s ! nat (ev_slot e)"
  define u where "u = (let index = (if ev_type e \<noteq> EVENT_FINISHED \<and> ar_row ?a \<ge> 0 then ar_row ?a else ev_index e) in
      if 0 \<le> index \<and> index < directory_count (task_of s)
      then s\<lparr>results := (results s)[nat index := event_result ?a e (results s ! nat index)]\<rparr> else s)"
  have u: "ui_ok u" "active_runs u = active_runs s" "loaded u = loaded s"
    using assms(1) by (simp_all add: u_def ui_results Let_def)
  have t: "take_event e s = (if ev_type e = EVENT_FINISHED then finish_run (nat (ev_slot e)) e u else u)"
    by (simp add: take_event_def u_def Let_def)
  have "ar_row ?a \<in> set (rows s)" using assms(2,3) by (auto simp: row_running)
  then have "loaded s" using ui_core [OF assms(1)] by (auto simp: core_ok_def window_ok_def)
  then show "ui_ok (take_event e s)" "loaded (take_event e s)"
    using u assms(2,3) finish_run_ok [of u "nat (ev_slot e)" e] unfolding t by simp_all
qed

lemma handle_event_wp:
  assumes "ui_ok s"
  shows "wp (batch_tasks_handle_event E e) (\<lambda>r s'. ui_ok s') s"
proof (cases "ev_slot e < 0 \<or> ev_slot e \<ge> int BATCH_DIRECTORY_LIMIT \<or> ar_worker (active_runs s ! nat (ev_slot e)) = None")
  case True
  then show ?thesis using assms by (auto simp: batch_tasks_handle_event_def wp)
next
  case False
  have "length (active_runs s) = BATCH_DIRECTORY_LIMIT" using ui_core [OF assms] by (simp add: core_ok_def runs_ok_def)
  then have "nat (ev_slot e) < length (active_runs s)" using False by (simp add: nat_less_iff)
  note t = take_event_ok [OF assms this]
  have "wp (start_next_task E) (\<lambda>r s'. ui_ok s') (take_event e s)"
    by (rule wp_mono [OF start_next_wp]) (use t False in simp_all)
  then show ?thesis using False t(1) assms by (simp add: batch_tasks_handle_event_def wp)
qed

lemma cancel_runs_ok:
  assumes "ui_ok s"
  shows "ui_ok (cancel_runs s)" "rows (cancel_runs s) = rows s"
proof -
  let ?f = "\<lambda>a. if ar_cancel a \<noteq> None then stop_slot a else a"
  show rows: "rows (cancel_runs s) = rows s"
    by (simp add: rows_def live_def cancel_runs_def filter_map o_def stop_slot_def if_distrib [of ar_worker] if_distrib [of ar_row] cong: if_cong)
  have slots: "slot_ok (?f a)" if "slot_ok a" for a
    using that by (auto simp: slot_ok_def stop_slot_def idle_slot_def split: if_splits)
  have s: "runs_ok s" "tasks_ok s" "window_ok s" "selection_ok s" "rows s = [] \<longrightarrow> active_id (task_queue s) = 0"
    using assms by (simp_all add: ui_ok_def core_ok_def)
  have f: "task_of (cancel_runs s) = task_of s" "has_tasks (cancel_runs s) = has_tasks s"
    by (simp_all add: cancel_runs_def task_of_def has_tasks_def)
  have g: "running (cancel_runs s) = running s" "cancel_requested (cancel_runs s) = cancel_requested s"
    "active_runs (cancel_runs s) = map ?f (active_runs s)" "collection (cancel_runs s) = collection s"
    "selected_task (cancel_runs s) = selected_task s" "results (cancel_runs s) = results s" "task_queue (cancel_runs s) = task_queue s"
    "loaded (cancel_runs s) = loaded s" "bu_window (cancel_runs s) = bu_window s" "asking (cancel_runs s) = asking s"
    "selection_ok (cancel_runs s) = selection_ok s"
    by (simp_all add: cancel_runs_def selection_ok_def)
  have "list_all slot_ok (map ?f (active_runs s))" using s(1) slots unfolding runs_ok_def list_all_iff set_map by blast
  then have "runs_ok (cancel_runs s)" using s(1) by (simp add: runs_ok_def rows f g)
  moreover have "tasks_ok (cancel_runs s)" using s(2) by (simp add: tasks_ok_def g)
  moreover have "window_ok (cancel_runs s)" using s(3) by (simp add: window_ok_def rows f g)
  ultimately show "ui_ok (cancel_runs s)" using s(4,5) by (simp add: ui_ok_def core_ok_def rows g)
qed

end
