(* ===== verification/Batch_Manager_Edits.thy ===== *)
theory Batch_Manager_Edits
  imports Batch_Manager_Runs
begin

text \<open>
  The other operations of the manager keep its invariant: opening the window, looking a task up and launching it, and
  what the user changes in the list of rows. \<open>safe\<close> says that a command leads from a state to one with the invariant.
\<close>

subsection \<open>Opening and launching\<close>

lemma refresh_fields:
  "task_queue (refresh_list s) = task_queue s" "bu_window (refresh_list s) = bu_window s" "results (refresh_list s) = results s"
  "asking (refresh_list s) = asking s" "loaded (refresh_list s) = loaded s" "collection (refresh_list s) = collection s"
  "selected_task (refresh_list s) = selected_task s"
  by (simp_all add: refresh_list_def show_step_def cancel_step_drag_def Let_def)

lemma ui_refresh:
  assumes "core_ok s" and "bu_window s \<or> selection_ok s" and "rows s = [] \<longrightarrow> active_id (task_queue s) = 0"
  shows "ui_ok (refresh_list s)"
  using assms core_cong [of "refresh_list s" s] core_view_fields [of "refresh_list s" s] refresh_selection [of s]
  by (simp add: ui_ok_def refresh_fields)

lemma ui_refresh_ok: "ui_ok s \<Longrightarrow> ui_ok (refresh_list s)"
  by (rule ui_refresh) (simp_all add: ui_ok_def)

lemma load_step_wp:
  assumes "ui_ok s" and "draws E" and "\<not> loaded s"
  shows "wp (do { l \<leftarrow> store_load_batch_tasks E;
      case l of None \<Rightarrow> ret False | Some l \<Rightarrow> do { modify (\<lambda>s. s\<lparr>collection := l, loaded := True\<rparr>); ret True } })
    (\<lambda>r s'. ui_ok s' \<and> (r \<longrightarrow> loaded s') \<and> bu_window s' = bu_window s) s"
proof -
  let ?Q = "\<lambda>r s'. ui_ok s' \<and> (r \<longrightarrow> loaded s') \<and> bu_window s' = bu_window s"
  have load: "wp (store_load_batch_tasks E) (\<lambda>r s'. Store.more s' = Store.more s \<and> (\<forall>l. r = Some l \<longrightarrow> list_ok l \<and> ids_ok l)) s"
    using keeps_wp [OF more_load_all, of E s] load_ok [of E, unfolded yields_def, rule_format, of s]
      load_ids [OF assms(2), unfolded yields_def, rule_format, of s]
    by (auto simp: wp_def split: prod.splits)
  have one: "ui_ok (u\<lparr>collection := l, loaded := True\<rparr>)" if m: "Store.more u = Store.more s" and l: "list_ok l" "ids_ok l" for u l
  proof -
    let ?u = "u\<lparr>collection := l, loaded := True\<rparr>"
    have u: "ui_ok u" "loaded u = loaded s" using ui_more [OF m] same_fields(2) [OF m] assms(1) by simp_all
    have idle: "rows u = []" "selected_task u = 0" "asking u \<noteq> Some AskDelete"
      using u assms(3) by (auto simp: ui_ok_def core_ok_def window_ok_def)
    have rows: "rows ?u = []" using idle(1) by (simp add: rows_def live_def)
    have "runs_ok ?u" using u(1) idle by (simp add: ui_ok_def core_ok_def runs_ok_def rows rows_ok_def)
    moreover have "tasks_ok ?u" using l idle(2) by (simp add: tasks_ok_def)
    moreover have "window_ok ?u" using u(1) idle by (simp add: ui_ok_def core_ok_def window_ok_def rows)
    ultimately show ?thesis using u(1) idle(1) by (simp add: ui_ok_def core_ok_def rows selection_ok_def)
  qed
  show ?thesis
    unfolding wp_bind
  proof (rule wp_mono [OF load])
    fix l u assume u: "Store.more u = Store.more s \<and> (\<forall>k. l = Some k \<longrightarrow> list_ok k \<and> ids_ok k)"
    have m: "Store.more u = Store.more s" using u ..
    show "wp (case l of None \<Rightarrow> ret False | Some l \<Rightarrow> do { modify (\<lambda>s. s\<lparr>collection := l, loaded := True\<rparr>); ret True }) ?Q u"
      using u one [OF m] ui_more [OF m] same_fields(1) [OF m] assms(1) by (cases l) (simp_all add: wp)
  qed
qed

lemma open_wp:
  assumes "ui_ok s" and "draws E"
  shows "wp (batch_tasks_open E) (\<lambda>r s'. ui_ok s' \<and> (r \<longrightarrow> bu_window s')) s"
proof (cases "bu_window s")
  case False
  let ?Q = "\<lambda>r s'. ui_ok s' \<and> (r \<longrightarrow> bu_window s')"
  let ?fill = "\<lambda>s. refresh_list (s\<lparr>bu_window := True, selected_step := -1, list_selection := -1,
             name_edit := bt_name (task_of s), command_edit := bt_command (task_of s), mode_combo := bt_mode (task_of s)\<rparr>)"
  have fill: "?Q True (?fill u)" if "ui_ok u" "loaded u" for u
  proof -
    let ?u = "u\<lparr>bu_window := True, selected_step := -1, list_selection := -1,
             name_edit := bt_name (task_of u), command_edit := bt_command (task_of u), mode_combo := bt_mode (task_of u)\<rparr>"
    have "rows ?u = rows u" "task_of ?u = task_of u" "has_tasks ?u = has_tasks u"
      by (simp_all add: rows_def live_def task_of_def has_tasks_def)
    then have "core_ok ?u" using that by (simp add: ui_ok_def core_ok_defs)
    moreover have "rows ?u = [] \<longrightarrow> active_id (task_queue ?u) = 0" using that(1) \<open>rows ?u = rows u\<close> by (simp add: ui_ok_def)
    ultimately have "ui_ok ?u" by (simp add: ui_ok_def selection_ok_def)
    then have "ui_ok (refresh_list ?u)" by (rule ui_refresh_ok)
    moreover have "bu_window (refresh_list ?u)" unfolding refresh_fields by simp
    ultimately show ?thesis by simp
  qed
  have create: "wp (do { created \<leftarrow> lift (create_window E); if \<not> created then ret False else do { modify ?fill; ret True } }) ?Q u"
    if "ui_ok u" "loaded u" for u
    unfolding wp_bind
  proof (rule wp_mono [OF more_world])
    fix r v assume m: "Store.more v = Store.more u"
    show "wp (if \<not> r then ret False else do { modify ?fill; ret True }) ?Q v"
      using fill [of v] that ui_more [OF m] same_fields(2) [OF m] by (cases r) (simp_all add: wp)
  qed
  let ?rest = "\<lambda>ready. if \<not> ready then ret False
    else do { created \<leftarrow> lift (create_window E); if \<not> created then ret False else do { modify ?fill; ret True } }"
  have rest: "wp (?rest r) ?Q u" if "ui_ok u \<and> (r \<longrightarrow> loaded u)" for r u
    using create [of u] that by (cases r) (simp_all only: simp_thms if_True if_False wp_return)
  let ?load = "do { l \<leftarrow> store_load_batch_tasks E;
      case l of None \<Rightarrow> ret False | Some l \<Rightarrow> do { modify (\<lambda>s. s\<lparr>collection := l, loaded := True\<rparr>); ret True } }"
  have ready: "wp (if loaded s then ret True else ?load) (\<lambda>r s'. ui_ok s' \<and> (r \<longrightarrow> loaded s')) s"
  proof (cases "loaded s")
    case True
    then show ?thesis using assms(1) by (simp add: wp)
  next
    case False
    show ?thesis unfolding if_not_P [OF False] by (rule wp_mono [OF load_step_wp [OF assms False]]) simp
  qed
  have "wp (do { ready \<leftarrow> (if loaded s then ret True else ?load); ?rest ready }) ?Q s"
    unfolding wp_bind [of "if loaded s then ret True else ?load"] by (rule wp_mono [OF ready rest])
  then show ?thesis using False unfolding batch_tasks_open_def wp_bind [of "gets _"] wp_gets by (simp only: if_False)
qed (use assms in \<open>simp add: batch_tasks_open_def wp\<close>)

lemma lookup_wp:
  assumes "ui_ok s" and "draws E"
  shows "wp (batch_tasks_lookup E k) (\<lambda>r s'. ui_ok s' \<and> (r \<noteq> None \<longrightarrow> loaded s') \<and> bu_window s' = bu_window s) s"
proof (cases "k \<le> 0")
  case False
  let ?Q = "\<lambda>r s'. ui_ok s' \<and> (r \<noteq> None \<longrightarrow> loaded s') \<and> bu_window s' = bu_window s"
  let ?load = "do { l \<leftarrow> store_load_batch_tasks E;
      case l of None \<Rightarrow> ret False | Some l \<Rightarrow> do { modify (\<lambda>s. s\<lparr>collection := l, loaded := True\<rparr>); ret True } }"
  let ?rest = "\<lambda>ready. do { c \<leftarrow> gets collection;
      ret (if ready then List.find (\<lambda>t. bt_id t = k) (take (nat (btl_count c)) (btl_tasks c)) else None) }"
  have rest: "wp (?rest r) ?Q u" if "ui_ok u \<and> (r \<longrightarrow> loaded u) \<and> bu_window u = bu_window s" for r u
    using that by (cases r) (simp_all add: wp)
  have "wp (do { ready \<leftarrow> (if loaded s then ret True else ?load); ?rest ready }) ?Q s"
  proof (cases "loaded s")
    case True
    then show ?thesis using rest [of s True] assms(1) by (simp add: wp)
  next
    case False
    show ?thesis unfolding if_not_P [OF False] wp_bind [of ?load] by (rule wp_mono [OF load_step_wp [OF assms False] rest])
  qed
  then show ?thesis using False unfolding batch_tasks_lookup_def wp_bind [of "gets _"] wp_gets by (simp only: if_False wp_bind [of "gets _"] wp_gets)
qed (use assms in \<open>simp add: batch_tasks_lookup_def wp\<close>)

lemma queue_add_ok:
  assumes "ui_ok s" and "batch_task_queue_add (Some (task_queue s)) (Some t) = (k, Some q)"
  shows "ui_ok (s\<lparr>task_queue := q\<rparr>)"
proof -
  let ?q = "task_queue s"
  have w: "window_ok s" using assms(1) by (simp add: ui_ok_def core_ok_def)
  have "q = ?q \<or> q = ?q\<lparr>q_items := (q_items ?q)[nat (q_count ?q) := t], q_count := q_count ?q + 1\<rparr>
      \<and> q_count ?q + (if active_id ?q \<noteq> 0 then 1 else 0) < int BATCH_TASK_LIMIT"
    using assms(2) by (auto simp: batch_task_queue_add_def split: if_splits)
  then have "length (q_items q) = BATCH_TASK_LIMIT" "0 \<le> q_count q" "q_count q \<le> int BATCH_TASK_LIMIT" "active_id q = active_id ?q"
    using w by (auto simp: window_ok_def split: if_splits)
  then show ?thesis
    using assms(1) by (simp add: ui_ok_def core_ok_defs rows_def live_def task_of_def has_tasks_def selection_ok_def)
qed

definition safe :: "('w BatchUi, 'a) state \<Rightarrow> 'w BatchUi \<Rightarrow> bool" where
  \<comment> \<open>the command leads to a good state\<close>
  "safe c s \<longleftrightarrow> wp c (\<lambda>r s'. ui_ok s') s"

lemma safe_ret: "ui_ok s \<Longrightarrow> safe (ret x) s"
  and safe_modify: "ui_ok (f s) \<Longrightarrow> safe (modify f) s"
  and safe_then: "safe d (f s) \<Longrightarrow> safe (modify f \<bind> (\<lambda>_. d)) s"
  by (simp_all add: safe_def wp)

lemma safe_gets: "safe (c (f s)) s \<Longrightarrow> safe (gets f \<bind> c) s"
  by (simp add: safe_def wp)

lemma safe_bind: "wp c P s \<Longrightarrow> (\<And>r t. P r t \<Longrightarrow> safe (d r) t) \<Longrightarrow> safe (c \<bind> d) s"
  unfolding safe_def wp_bind by (rule wp_mono)

lemma safe_wp: "wp c P s \<Longrightarrow> (\<And>r t. P r t \<Longrightarrow> ui_ok t) \<Longrightarrow> safe c s"
  unfolding safe_def by (rule wp_mono)

lemma safe_if: "(b \<Longrightarrow> safe c s) \<Longrightarrow> (\<not> b \<Longrightarrow> safe d s) \<Longrightarrow> safe (if b then c else d) s"
  by simp

lemma safe_drop: "safe c s \<Longrightarrow> safe (do { c; ret () }) s"
  by (simp add: safe_def wp)

lemma save_safe: "ui_ok s \<Longrightarrow> wp (save_command E) (\<lambda>r s'. core_ok s' \<and> frame s' = frame s) s"
  by (rule save_command_wp) (rule ui_core)

lemma queue_task_safe:
  assumes "ui_ok s" and "loaded s"
  shows "safe (queue_task E t) s"
proof -
  obtain j q where r: "batch_task_queue_add (Some (task_queue s)) (Some t) = (j, Some q)"
    by (cases "batch_task_queue_add (Some (task_queue s)) (Some t)") (auto simp: batch_task_queue_add_def split: if_splits)
  have u: "ui_ok (s\<lparr>task_queue := q\<rparr>)" "loaded (s\<lparr>task_queue := q\<rparr>)" using queue_add_ok [OF assms(1) r] assms(2) by simp_all
  have start: "safe (if n = 0 then start_next_task E else ret True) (s\<lparr>task_queue := q\<rparr>)" for n :: int
    by (rule safe_if, rule safe_wp [OF start_next_wp [OF u]], simp, rule safe_ret [OF u(1)])
  show ?thesis
    unfolding queue_task_def Let_def
    by (rule safe_gets) (simp only: r snd_conv fst_conv option.case, intro safe_then safe_if safe_ret safe_gets start u)
qed

lemma launch_found_safe:
  assumes "ui_ok s" and "draws E" and "value \<noteq> None \<longrightarrow> loaded s"
  shows "safe (launch_found E shown value) s"
proof (cases "value")
  case None
  then show ?thesis using assms(1) by (simp add: launch_found_def safe_ret)
next
  case (Some t)
  have "wp (if shown then ret True else batch_tasks_open E) (\<lambda>r v. ui_ok v \<and> (r \<longrightarrow> loaded v)) s"
  proof (cases shown)
    case True
    then show ?thesis using assms Some by (simp add: wp)
  next
    case False
    then show ?thesis
      using wp_mono [OF open_wp [OF assms(1,2)], of "\<lambda>r v. ui_ok v \<and> (r \<longrightarrow> loaded v)"]
      by (simp add: ui_ok_def core_ok_def window_ok_def)
  qed
  then have "safe (do { ready \<leftarrow> (if shown then ret True else batch_tasks_open E); if \<not> ready then ret False else queue_task E t }) s"
    by (rule safe_bind) (auto intro: safe_ret queue_task_safe)
  then show ?thesis using Some assms(1) by (simp add: launch_found_def safe_ret)
qed

lemma launch_safe:
  assumes "ui_ok s" and "draws E"
  shows "safe (batch_tasks_launch E k) s"
proof -
  have twice: "safe (do { value \<leftarrow> batch_tasks_lookup E k; launch_found E shown value }) u" if "ui_ok u" for shown u
    by (rule safe_bind [OF lookup_wp [OF that assms(2)]]) (simp add: launch_found_safe assms(2))
  have save: "wp (if shown then save_command E else ret True) (\<lambda>r v. ui_ok v) u" if "ui_ok u" for shown u
    by (cases shown) (use that in \<open>auto simp: wp intro!: wp_mono [OF save_safe [OF that]] framed(1) [OF that]\<close>)
  show ?thesis
    unfolding batch_tasks_launch_def
  proof (rule safe_bind [OF lookup_wp [OF assms]])
    fix found and u :: "'a BatchUi" assume u: "ui_ok u \<and> (found \<noteq> None \<longrightarrow> loaded u) \<and> bu_window u = bu_window s"
    have "safe (do { saved \<leftarrow> (if shown then save_command E else ret True);
        if \<not> saved then ret False else do { value \<leftarrow> batch_tasks_lookup E k; launch_found E shown value } }) u" for shown
      by (rule safe_bind [OF save]) (use u twice in \<open>auto intro: safe_ret\<close>)
    then show "safe (if found = None then ret False else do { shown \<leftarrow> gets bu_window;
        saved \<leftarrow> (if shown then save_command E else ret True);
        if \<not> saved then ret False else do { value \<leftarrow> batch_tasks_lookup E k; launch_found E shown value } }) u"
      using u by (auto intro: safe_ret safe_gets)
  qed
qed

subsection \<open>The other operations\<close>

lemma stop_some_ok:
  assumes "ui_ok s" and "list_all2 (\<lambda>a b. b = a \<or> ar_cancel a \<noteq> None \<and> b = stop_slot a) (active_runs s) bs"
  shows "ui_ok (s\<lparr>active_runs := bs\<rparr>)" "rows (s\<lparr>active_runs := bs\<rparr>) = rows s"
proof -
  let ?s = "s\<lparr>active_runs := bs\<rparr>"
  have "map ar_row (filter (\<lambda>a. ar_worker a \<noteq> None) bs) = map ar_row (filter (\<lambda>a. ar_worker a \<noteq> None) (active_runs s))"
    using assms(2) by (induction rule: list_all2_induct) (auto simp: stop_slot_def)
  then show rows: "rows ?s = rows s" by (simp add: rows_def live_def)
  have slot: "slot_ok (stop_slot a)" if "slot_ok a" "ar_cancel a \<noteq> None" for a
    using that by (auto simp: slot_ok_def stop_slot_def idle_slot_def split: if_splits)
  have "list_all slot_ok xs \<longrightarrow> list_all slot_ok bs" if "list_all2 (\<lambda>a b. b = a \<or> ar_cancel a \<noteq> None \<and> b = stop_slot a) xs bs" for xs
    using that by (induction rule: list_all2_induct) (auto simp: slot)
  then have "runs_ok s \<longrightarrow> list_all slot_ok bs \<and> length bs = BATCH_DIRECTORY_LIMIT"
    using assms(2) list_all2_lengthD [OF assms(2)] by (auto simp: runs_ok_def)
  then show "ui_ok ?s"
    using assms(1) by (simp add: ui_ok_def core_ok_defs rows task_of_def has_tasks_def selection_ok_def)
qed

lemma ui_status: "ui_ok (set_status i st s) = ui_ok s"
  unfolding set_status_def by (rule ui_results) simp

lemma cancel_selected_ok: "ui_ok s \<Longrightarrow> ui_ok (cancel_selected_step s)"
proof -
  assume s: "ui_ok s"
  have "ui_ok (s\<lparr>active_runs := (active_runs s)[i := stop_slot (active_runs s ! i)]\<rparr>)" if i: "active_step s k = Some i" for i k
  proof (rule stop_some_ok [OF s])
    have a: "i < length (active_runs s)" "ar_worker (active_runs s ! i) \<noteq> None"
      using i by (auto simp: active_step_def find_Some_iff split: if_splits)
    have "slot_ok (active_runs s ! i)" using ui_core [OF s] a(1) by (simp add: core_ok_def runs_ok_def list_all_length)
    then have "ar_cancel (active_runs s ! i) \<noteq> None" using a(2) by (simp add: slot_ok_def)
    then show "list_all2 (\<lambda>a b. b = a \<or> ar_cancel a \<noteq> None \<and> b = stop_slot a) (active_runs s)
        ((active_runs s)[i := stop_slot (active_runs s ! i)])"
      using a(1) by (simp add: list_all2_conv_all_nth nth_list_update)
  qed
  then show ?thesis using s by (auto simp: cancel_selected_step_def ui_status split: option.splits)
qed

lemma cancel_all_ok: "ui_ok s \<Longrightarrow> ui_ok (cancel_runs s)"
  by (rule cancel_runs_ok)

lemma asks_ok: "ui_ok s \<Longrightarrow> ui_ok (browse_ask s)" "bu_window s \<Longrightarrow> ui_ok s \<Longrightarrow> ui_ok (delete_ask s)"
  "ui_ok s \<Longrightarrow> ui_ok (s\<lparr>asking := Some (AskFolder k)\<rparr>)" "ui_ok s \<Longrightarrow> ui_ok (s\<lparr>asking := None\<rparr>)"
  "ui_ok s \<Longrightarrow> ui_ok (browse_chosen k r p s)"
proof -
  have f: "rows (s\<lparr>asking := q\<rparr>) = rows s" "task_of (s\<lparr>asking := q\<rparr>) = task_of s" "has_tasks (s\<lparr>asking := q\<rparr>) = has_tasks s" for q
    by (simp_all add: rows_def live_def task_of_def has_tasks_def)
  have set: "ui_ok (s\<lparr>asking := q\<rparr>)" if "ui_ok s" "q = Some AskDelete \<longrightarrow> has_tasks s \<and> loaded s \<and> rows s = []" for q
    using that by (simp add: ui_ok_def core_ok_defs f selection_ok_def)
  show "ui_ok s \<Longrightarrow> ui_ok (browse_ask s)" "ui_ok s \<Longrightarrow> ui_ok (s\<lparr>asking := Some (AskFolder k)\<rparr>)" "ui_ok s \<Longrightarrow> ui_ok (s\<lparr>asking := None\<rparr>)"
    by (simp_all add: browse_ask_def set)
  show "ui_ok (delete_ask s)" if "bu_window s" "ui_ok s"
    using that by (auto simp: delete_ask_def intro!: set) (auto simp: ui_ok_def core_ok_defs)
  have "core_view (s\<lparr>directory_edit := p\<rparr>) = core_view s" "selection_ok (s\<lparr>directory_edit := p\<rparr>) = selection_ok s"
    by (simp_all add: core_view_def selection_ok_def)
  from ui_cong [OF this] show "ui_ok s \<Longrightarrow> ui_ok (browse_chosen k r p s)" by (simp add: browse_chosen_def)
qed

lemma drag_ok: "ui_ok s \<Longrightarrow> ui_ok (cancel_step_drag s)" "ui_ok s \<Longrightarrow> ui_ok (drag_hold at s)" "ui_ok s \<Longrightarrow> ui_ok (drag_move at s)"
  "ui_ok (s\<lparr>step_drag := d\<rparr>) = ui_ok s"
proof -
  have d: "ui_ok (u\<lparr>step_drag := d\<rparr>) = ui_ok u" for u :: "'a BatchUi" and d
    by (rule ui_cong) (simp_all add: core_view_def selection_ok_def)
  then show "ui_ok s \<Longrightarrow> ui_ok (cancel_step_drag s)" "ui_ok s \<Longrightarrow> ui_ok (drag_hold at s)" "ui_ok s \<Longrightarrow> ui_ok (drag_move at s)"
    "ui_ok (s\<lparr>step_drag := d\<rparr>) = ui_ok s"
    by (simp_all add: cancel_step_drag_def drag_hold_def drag_move_def)
qed

lemma show_step_ok: "ui_ok (show_step s) = ui_ok s"
  by (rule ui_cong [OF view_show_step]) (simp_all add: show_step_def selection_ok_def Let_def)

lemma show_task_ok:
  assumes "core_ok s" and "bu_window s \<or> selection_ok s" and "rows s = [] \<longrightarrow> active_id (task_queue s) = 0"
  shows "ui_ok (show_task s)"
proof -
  let ?s = "s\<lparr>selected_step := -1, name_edit := (if has_tasks s then bt_name (task_of s) else []),
     command_edit := (if has_tasks s then bt_command (task_of s) else []), mode_combo := bt_mode (task_of s),
     results := replicate (length (results s)) cleared_result\<rparr>"
  have v: "core_view ?s = core_view s" by (simp add: core_view_def)
  have "ui_ok (refresh_list ?s)"
    by (rule ui_refresh) (use assms core_cong [OF v] core_view_fields [OF v] in \<open>auto simp: selection_ok_def\<close>)
  then show ?thesis by (simp add: show_task_def)
qed

lemma close_window_ok: "ui_ok s \<Longrightarrow> ui_ok (close_window s)"
  by (simp add: close_window_def cancel_step_drag_def ui_ok_def core_ok_defs selection_ok_def rows_def live_def task_of_def has_tasks_def)

lemma run_step_safe:
  fixes s :: "'w BatchUi"
  assumes "ui_ok s" and "bu_window s" and "asking s = None"
  shows "safe (run_selected_step E) s"
proof (cases "step_available s (selected_step s)")
  case True
  have loaded: "loaded s" using assms by (simp add: ui_ok_def core_ok_def window_ok_def)
  have tail: "safe (do { ok \<leftarrow> begin_task E (task_of u) (selected_step u); n \<leftarrow> gets running;
      if \<not> ok \<and> n = 0 then modify (\<lambda>s. s\<lparr>task_queue := (task_queue s)\<lparr>active_id := 0\<rparr>\<rparr>) else ret () }) u"
    if u: "core_ok u" "selection_ok u" "loaded u" "0 \<le> selected_step u" "asking u = None" for u :: "'w BatchUi"
  proof (rule safe_bind [OF begin_row_wp [OF u(1,3,4)]], simp add: u(5), rule safe_gets)
    fix ok and v :: "'w BatchUi" assume v: "if ok then core_ok v \<and> rows v \<noteq> [] \<and> (selection_ok u \<longrightarrow> selection_ok v) else Store.more v = Store.more u"
    have c: "core_ok v" "selection_ok v" using v u(1,2) same_views [of v u] by (auto split: if_splits)
    have r: "running v = int (length (rows v))" using c(1) by (simp add: core_ok_def runs_ok_def)
    show "safe (if \<not> ok \<and> running v = 0 then modify (\<lambda>s. s\<lparr>task_queue := (task_queue s)\<lparr>active_id := 0\<rparr>\<rparr>) else ret ()) v"
    proof (rule safe_if)
      show "safe (modify (\<lambda>s. s\<lparr>task_queue := (task_queue s)\<lparr>active_id := 0\<rparr>\<rparr>)) v"
        by (rule safe_modify) (use c in \<open>simp add: ui_ok_def idle_core queue_fields\<close>)
      assume "\<not> (\<not> ok \<and> running v = 0)"
      then show "safe (ret ()) v" using c v r by (intro safe_ret) (auto simp: ui_ok_def split: if_splits)
    qed
  qed
  have "safe (do { saved \<leftarrow> save_command E;
     if \<not> saved then ret ()
     else do { modify (\<lambda>s. s\<lparr>task_queue := (task_queue s)\<lparr>active_id := bt_id (task_of s)\<rparr>\<rparr>);
       s \<leftarrow> gets (\<lambda>s. s); ok \<leftarrow> begin_task E (task_of s) (selected_step s); n \<leftarrow> gets running;
       if \<not> ok \<and> n = 0 then modify (\<lambda>s. s\<lparr>task_queue := (task_queue s)\<lparr>active_id := 0\<rparr>\<rparr>) else ret () } }) s"
  proof (rule safe_bind [OF save_safe [OF assms(1)]], rule safe_if)
    fix r and u :: "'w BatchUi" assume "core_ok u \<and> frame u = frame s"
    note u = framed [OF assms(1) this]
    show "safe (ret ()) u" using u(1) by (rule safe_ret)
    let ?u = "u\<lparr>task_queue := (task_queue u)\<lparr>active_id := bt_id (task_of u)\<rparr>\<rparr>"
    have "core_ok ?u" "selection_ok ?u" "loaded ?u" "0 \<le> selected_step ?u" "asking ?u = None"
      using u idle_core [where s = u and k = "bt_id (task_of u)"] loaded assms(3) available_free(1) [OF True]
      by (simp_all add: ui_ok_def queue_fields)
    from tail [OF this] show "safe (do { modify (\<lambda>s. s\<lparr>task_queue := (task_queue s)\<lparr>active_id := bt_id (task_of s)\<rparr>\<rparr>);
       s \<leftarrow> gets (\<lambda>s. s); ok \<leftarrow> begin_task E (task_of s) (selected_step s); n \<leftarrow> gets running;
       if \<not> ok \<and> n = 0 then modify (\<lambda>s. s\<lparr>task_queue := (task_queue s)\<lparr>active_id := 0\<rparr>\<rparr>) else ret () }) u"
      by (intro safe_then safe_gets)
  qed
  then show ?thesis using True unfolding run_selected_step_def by (intro safe_gets) simp
qed (use assms(1) in \<open>simp add: run_selected_step_def safe_gets safe_ret\<close>)

lemma add_chosen_safe:
  fixes s :: "'w BatchUi"
  assumes "ui_ok s"
  shows "safe (add_chosen E k path) s"
proof (cases "\<not> bu_window s \<or> bt_id (task_of s) \<noteq> k \<or> whole_task_running s \<or> cancel_requested s")
  case True
  then show ?thesis using assms unfolding add_chosen_def by (intro safe_gets) (simp add: safe_ret)
next
  case False
  note t = core_task [OF ui_core [OF assms]]
  have stop: "safe (ret ()) s" by (rule safe_ret [OF assms])
  show ?thesis
  proof (cases "batch_task_add_directory (Some (task_of s)) (Some path)")
    case (Pair r x)
    show ?thesis
    proof (cases "\<exists>u. r = 1 \<and> x = Some u")
      case False': False
      then show ?thesis using False Pair stop unfolding add_chosen_def by (intro safe_gets) (auto split: option.splits)
    next
      case True
      then obtain u where u: "batch_task_add_directory (Some (task_of s)) (Some path) = (1, Some u)" using Pair by auto
      note a = add_directory_accepted [OF task_of_wf [OF t] u]
      define last where "last = nat (directory_count u - 1)"
      define w where "w = u\<lparr>commands := (commands u)[last := bt_command u]\<rparr>"
      have n: "directory_count u = directory_count (task_of s) + 1"
        using u unfolding add_directory_result [OF task_of_wf [OF t]] by (auto split: if_splits)
      have d: "0 \<le> directory_count (task_of s)" using task_of_wf [OF t] by (simp add: task_wf_def)
      have w: "task_wf w" "bt_id w = bt_id (task_of s)" "directory_count w = directory_count (task_of s) + 1"
        using a n d by (auto simp: w_def last_def task_wf_def nth_list_update)
      define v where "v = set_status (int last) BATCH_WAITING (put_task w s)"
      have rows_w: "rows_ok (rows s) (directory_count w)"
        using ui_core [OF assms] w(3) by (auto simp: core_ok_def runs_ok_def intro: rows_ok_mono)
      have pw: "core_ok (put_task w s)" by (rule put_task_core [OF ui_core [OF assms] w(1,2) rows_w])
      have "ui_ok (put_task w s)" using assms pw by (simp add: ui_ok_def selection_ok_def)
      then have v: "ui_ok v" "task_of v = w" "bu_window v"
        using False t by (simp_all add: v_def ui_status) (simp_all add: set_status_def task_of_def put_task_def in_range)
      have rows_v: "rows v = rows s" by (simp add: v_def set_status_def rows_def live_def)
      have remove: "\<exists>p. batch_task_remove_directory (Some w) (int last) = (1, Some p) \<and> task_wf p \<and> bt_id p = bt_id w
          \<and> directory_count p = directory_count (task_of s)"
        using remove_directory_accepted [OF w(1), of "int last"] w(3) n task_of_wf [OF t]
        by (auto simp: last_def task_wf_def batch_task_remove_directory_def Let_def split: if_splits)
      have finish: "safe (do { (if \<not> saved then modify (\<lambda>s. case snd (batch_task_remove_directory (Some (task_of s)) (int last)) of
                Some t \<Rightarrow> put_task t s | None \<Rightarrow> s)
            else modify (\<lambda>s. s\<lparr>selected_step := directory_count (task_of s) - 1\<rparr>)); modify refresh_list }) z"
        if z: "ui_ok z" "task_of z = w" "bu_window z" "rows z = rows s" for saved and z :: "'w BatchUi"
      proof (cases saved)
        case True
        let ?z = "z\<lparr>selected_step := directory_count (task_of z) - 1\<rparr>"
        have "ui_ok (refresh_list ?z)"
        proof (rule ui_refresh)
          have "core_view ?z = core_view z" by (simp add: core_view_def)
          then show "core_ok ?z" "rows ?z = [] \<longrightarrow> active_id (task_queue ?z) = 0"
            using z(1) core_cong [of ?z z] core_view_fields [of ?z z] by (simp_all add: ui_ok_def)
        qed (simp add: z(3))
        then show ?thesis using True by (simp add: safe_then safe_modify)
      next
        case False
        obtain p where p: "batch_task_remove_directory (Some w) (int last) = (1, Some p)" "task_wf p" "bt_id p = bt_id w"
          "directory_count p = directory_count (task_of s)" using remove by blast
        have "core_ok (put_task p z)"
          by (rule put_task_core) (use p z ui_core [OF assms] ui_core [OF z(1)] in \<open>auto simp: core_ok_def runs_ok_def\<close>)
        then have "ui_ok (put_task p z)" using z(1) by (simp add: ui_ok_def selection_ok_def)
        then show ?thesis using False p(1) z(2) by (simp add: safe_then safe_modify ui_refresh_ok)
      qed
      have "safe (do { saved \<leftarrow> save_current E w;
           (if \<not> saved then modify (\<lambda>s. case snd (batch_task_remove_directory (Some (task_of s)) (int last)) of
                Some t \<Rightarrow> put_task t s | None \<Rightarrow> s)
            else modify (\<lambda>s. s\<lparr>selected_step := directory_count (task_of s) - 1\<rparr>)); modify refresh_list }) v"
      proof (rule safe_bind [OF save_current_wp])
        show "tasks_ok v" using v(1) by (simp add: ui_ok_def core_ok_def)
        show "task_wf w" "bt_id w = bt_id (task_of v)" using w v by simp_all
        have same: "put_task w v = v" using v(2) put_back [of v w] \<open>tasks_ok v\<close> by simp
        fix r and z :: "'w BatchUi" assume "Store.more z = Store.more (if r then put_task w v else v)"
        then have m: "Store.more z = Store.more v" using same by (simp split: if_splits)
        show "safe (do { (if \<not> r then modify (\<lambda>s. case snd (batch_task_remove_directory (Some (task_of s)) (int last)) of
                Some t \<Rightarrow> put_task t s | None \<Rightarrow> s)
            else modify (\<lambda>s. s\<lparr>selected_step := directory_count (task_of s) - 1\<rparr>)); modify refresh_list }) z"
          by (rule finish) (use v rows_v same_views [OF m] same_fields [OF m] in simp_all)
      qed
      then show ?thesis
        using False u unfolding add_chosen_def v_def w_def last_def Let_def
        by (intro safe_gets) (simp add: safe_then)
    qed
  qed
qed

lemma start_or_cancel_safe:
  fixes s :: "'w BatchUi"
  assumes "ui_ok s" and "draws E"
  shows "safe (start_or_cancel E) s"
proof (cases "running s = 0")
  case False
  let ?s = "s\<lparr>task_queue := the (batch_task_queue_cancel (Some (task_queue s))), cancel_requested := True\<rparr>"
  have f: "rows (s\<lparr>task_queue := q, cancel_requested := b\<rparr>) = rows s" "task_of (s\<lparr>task_queue := q, cancel_requested := b\<rparr>) = task_of s"
    "has_tasks (s\<lparr>task_queue := q, cancel_requested := b\<rparr>) = has_tasks s" for q b
    by (simp_all add: rows_def live_def task_of_def has_tasks_def)
  have "rows s \<noteq> []" using False ui_core [OF assms(1)] by (auto simp: core_ok_def runs_ok_def)
  then have "ui_ok ?s"
    using assms(1) by (simp add: ui_ok_def core_ok_defs f selection_ok_def batch_task_queue_cancel_def BATCH_TASK_LIMIT_def)
  then have c: "ui_ok (cancel_runs ?s)" by (rule cancel_all_ok)
  have paint: "ui_ok (fold (\<lambda>a s. if ar_worker a \<noteq> None \<and> ar_row a \<ge> 0 then set_status (ar_row a) BATCH_CANCELLING s else s) as u)"
    if "ui_ok u" for as and u :: "'w BatchUi"
    using that by (induction as arbitrary: u) (simp_all add: ui_status)
  show ?thesis using False unfolding start_or_cancel_def Let_def
    by (intro safe_gets) (simp only: not_False_eq_True if_True, rule safe_modify, rule paint, rule c)
next
  case True
  have "safe (do { saved \<leftarrow> save_command E;
       if saved then do { ident \<leftarrow> gets (\<lambda>s. bt_id (task_of s)); batch_tasks_launch E ident; ret () } else ret () }) s"
    by (rule safe_bind [OF save_safe [OF assms(1)]])
      (use framed(1) [OF assms(1)] assms(2) in \<open>auto intro!: safe_if safe_gets safe_drop launch_safe safe_ret\<close>)
  then show ?thesis using True assms(1) unfolding start_or_cancel_def by (intro safe_gets) (simp add: safe_ret)
qed

lemma length_move_cell [simp]: "i < length xs \<Longrightarrow> j < length xs \<Longrightarrow> length (move_cell i j xs) = length xs"
  by (auto simp: move_cell_def)

lemma wf_moved:
  assumes "task_wf t" and "i < live_count t" and "j < live_count t"
  shows "task_wf (t\<lparr>directories := move_cell i j (directories t), commands := move_cell i j (commands t)\<rparr>)"
proof -
  have same: "move_cell i j xs ! k = xs ! k" if "max i j < k" "k < length xs" for xs :: "'a list" and k
    using that by (auto simp: move_cell_def move_down_def move_up_def nth_append min_def)
  show ?thesis using assms by (auto simp: task_wf_def same)
qed

lemma move_step_safe:
  fixes s :: "'w BatchUi"
  assumes "ui_ok s" and "bu_window s"
  shows "safe (move_step E i j) s"
proof (cases "running s \<noteq> 0 \<or> \<not> has_tasks s \<or> i < 0 \<or> i \<ge> directory_count (task_of s) \<or> j < 0
    \<or> j \<ge> directory_count (task_of s) \<or> i = j")
  case False
  let ?move = "\<lambda>t. t\<lparr>directories := move_cell (nat i) (nat j) (directories t), commands := move_cell (nat i) (nat j) (commands t)\<rparr>"
  let ?show = "\<lambda>s. s\<lparr>results := move_cell (nat i) (nat j) (results s), selected_step := j\<rparr>"
  have fine: "ui_ok (refresh_list (?show v))" if "ui_ok v" "bu_window v" "directory_count (task_of v) = directory_count (task_of s)"
    for v :: "'w BatchUi"
  proof (rule ui_refresh)
    have w: "window_ok v" "tasks_ok v" using that(1) by (simp_all add: ui_ok_def core_ok_def)
    have "nat i < length (results v)" "nat j < length (results v)"
      using w task_of_wf [OF w(2)] False that(3) by (auto simp: window_ok_def task_wf_def)
    then have "core_view (?show v) = core_view v" by (simp add: core_view_def)
    then show "core_ok (?show v)" "rows (?show v) = [] \<longrightarrow> active_id (task_queue (?show v)) = 0"
      using that(1) core_cong [of "?show v" v] core_view_fields [of "?show v" v] by (simp_all add: ui_ok_def)
  qed (simp add: that(2))
  have "safe (do { saved \<leftarrow> save_command E;
       if \<not> saved then ret ()
       else do { t \<leftarrow> gets task_of; stored \<leftarrow> save_current E (?move t);
         if \<not> stored then ret () else do { modify ?show; modify refresh_list } } }) s"
  proof (rule safe_bind [OF save_safe [OF assms(1)]], rule safe_if)
    fix r and u :: "'w BatchUi" assume "core_ok u \<and> frame u = frame s"
    note u = framed [OF assms(1) this]
    show "safe (ret ()) u" by (rule safe_ret [OF u(1)])
    have t: "tasks_ok u" using u(1) by (simp add: ui_ok_def core_ok_def)
    have wf: "task_wf (?move (task_of u))"
      by (rule wf_moved [OF task_of_wf [OF t]]) (use False u(16) in auto)
    have same: "same_task (task_of u) (?move (task_of u))" using wf by (simp add: same_task_def)
    have p: "ui_ok (put_task (?move (task_of u)) u)"
      using same_task_core [OF ui_core [OF u(1)] same] u(1) by (simp add: ui_ok_def selection_ok_def)
    have "safe (do { stored \<leftarrow> save_current E (?move (task_of u)); if \<not> stored then ret () else do { modify ?show; modify refresh_list } }) u"
    proof (rule safe_bind [OF save_current_wp [OF t wf]], simp)
      fix r and v :: "'w BatchUi" assume m: "Store.more v = Store.more (if r then put_task (?move (task_of u)) u else u)"
      have "ui_ok v" "bu_window v" "directory_count (task_of v) = directory_count (task_of s)"
        using ui_more [OF m] same_views [OF m] same_fields(1) [OF m] p u assms(2) t by (auto split: if_splits)
      then show "safe (if \<not> r then ret () else do { modify ?show; modify refresh_list }) v"
        by (intro safe_if safe_ret safe_then safe_modify fine)
    qed
    then show "safe (do { t \<leftarrow> gets task_of; stored \<leftarrow> save_current E (?move t);
         if \<not> stored then ret () else do { modify ?show; modify refresh_list } }) u" by (rule safe_gets)
  qed
  then show ?thesis using False unfolding move_step_def Let_def by (intro safe_gets) simp
qed (use assms(1) in \<open>simp add: move_step_def safe_gets safe_ret Let_def\<close>)

lemma remove_row_ok:
  assumes "ui_ok s" and "0 \<le> row" and "row \<notin> set (rows s)" and "-1 \<notin> set (rows s)"
    and "task_wf t" and "bt_id t = bt_id (task_of s)" and "directory_count t = directory_count (task_of s) - 1"
    and "row < directory_count (task_of s)"
  shows "core_ok (remove_row row (put_task t s))" "rows (remove_row row (put_task t s)) = [] \<longleftrightarrow> rows s = []"
proof -
  let ?f = "\<lambda>a. if ar_worker a \<noteq> None \<and> ar_row a > row then a\<lparr>ar_row := ar_row a - 1\<rparr> else a"
  let ?g = "\<lambda>r. if r > row then r - 1 else r"
  let ?u = "remove_row row (put_task t s)"
  have s: "runs_ok s" "tasks_ok s" "window_ok s" using assms(1) by (simp_all add: ui_ok_def core_ok_def)
  have act: "active_runs ?u = map ?f (active_runs s)" by (simp add: remove_row_def Let_def)
  have "map ar_row (filter (\<lambda>a. ar_worker a \<noteq> None) (map ?f xs)) = map ?g (map ar_row (filter (\<lambda>a. ar_worker a \<noteq> None) xs))" for xs
    by (induction xs) auto
  then have rows: "rows ?u = map ?g (rows s)" by (simp add: rows_def live_def act)
  then show empty: "rows ?u = [] \<longleftrightarrow> rows s = []" by simp
  have r: "rows_ok (rows s) (directory_count (task_of s))" using s(1) by (simp add: runs_ok_def)
  have inj: "inj_on ?g (set (rows s))"
  proof (rule inj_onI)
    fix x y assume xy: "x \<in> set (rows s)" "y \<in> set (rows s)" "?g x = ?g y"
    then have "x \<noteq> row" "y \<noteq> row" using assms(3) by auto
    then show "x = y" using xy(3) by (simp split: if_splits)
  qed
  have "rows_ok (rows ?u) (directory_count t)"
  proof -
    have bound: "0 \<le> ?g r \<and> ?g r < directory_count t" if "r \<in> set (rows s)" for r
    proof -
      have "r \<noteq> row" "r \<noteq> -1" "-1 \<le> r" "r < directory_count (task_of s)"
        using that assms(3,4) r by (auto simp: rows_ok_def)
      then show ?thesis using assms(2,7,8) by simp
    qed
    have g: "\<forall>x \<in> set (map ?g (rows s)). 0 \<le> x \<and> x < directory_count t"
      by (unfold set_map, rule ballI, erule imageE, simp only:, rule bound)
    have "distinct (map ?g (rows s))" using r inj by (simp only: rows_ok_def distinct_map)
    with g show ?thesis unfolding rows rows_ok_def by fastforce
  qed
  moreover have "list_all slot_ok (map ?f (active_runs s))"
    using s(1) by (auto simp: runs_ok_def list_all_iff slot_ok_def)
  moreover have task: "task_of ?u = t" using task_of_put [OF s(2)] by (simp add: remove_row_def Let_def task_of_def)
  moreover have f: "running ?u = running s" "cancel_requested ?u = cancel_requested s" by (simp_all add: remove_row_def Let_def)
  ultimately have "runs_ok ?u" using s(1) by (simp add: runs_ok_def act rows)
  moreover have "tasks_ok ?u"
    using put_tasks_ok [OF s(2) assms(5,6)] by (simp add: tasks_ok_def remove_row_def Let_def)
  moreover have "window_ok ?u"
  proof -
    have n: "0 \<le> directory_count t" "directory_count t < int BATCH_DIRECTORY_LIMIT"
      using assms(5,7) task_of_wf [OF s(2)] by (auto simp: task_wf_def)
    have "nat row < Suc (nat (directory_count t))" "Suc (nat (directory_count t)) \<le> length (results s)"
      using assms(2,7,8) n s(3) by (auto simp: window_ok_def)
    then have "length (results ?u) = length (results s)"
      using task_of_put [OF s(2), of t] by (simp add: remove_row_def Let_def)
    moreover have "asking s = Some AskDelete \<longrightarrow> rows s = []"
      using s(3) assms(4) by (cases "rows s") (auto simp: window_ok_def)
    ultimately show ?thesis
      using s(3) by (auto simp: window_ok_def rows) (simp_all add: remove_row_def Let_def has_tasks_def)
  qed
  ultimately show "core_ok ?u" by (simp add: core_ok_def)
qed

lemma remove_directory_safe:
  fixes s :: "'w BatchUi"
  assumes "ui_ok s" and "bu_window s"
  shows "safe (remove_directory E) s"
proof (cases "step_available s (selected_step s)")
  case True
  define tail where "tail u row = (case batch_task_remove_directory (Some (task_of u)) row of
         (r, Some t) \<Rightarrow>
           if r = 0 then ret ()
           else do {
             modify (put_task t);
             stored \<leftarrow> save_current E t;
             (if stored then modify (remove_row row) else modify (put_task (task_of u)));
             modify (\<lambda>s. refresh_list (s\<lparr>selected_step := -1\<rparr>)) }
       | (_, None) \<Rightarrow> ret ())" for u :: "'w BatchUi" and row
  have show_ok: "ui_ok (refresh_list (v\<lparr>selected_step := -1\<rparr>))"
    if "core_ok v" "bu_window v" "rows v = [] \<longrightarrow> active_id (task_queue v) = 0" for v :: "'w BatchUi"
  proof (rule ui_refresh)
    have "core_view (v\<lparr>selected_step := -1\<rparr>) = core_view v" by (simp add: core_view_def)
    then show "core_ok (v\<lparr>selected_step := -1\<rparr>)"
      "rows (v\<lparr>selected_step := -1\<rparr>) = [] \<longrightarrow> active_id (task_queue (v\<lparr>selected_step := -1\<rparr>)) = 0"
      using that core_cong [of "v\<lparr>selected_step := -1\<rparr>" v] core_view_fields [of "v\<lparr>selected_step := -1\<rparr>" v] by simp_all
  qed (simp add: that(2))
  have tail: "safe (tail u (selected_step s)) u" if "ui_ok u" "bu_window u" "step_available u (selected_step s)" for u
  proof -
    let ?row = "selected_step s"
    note free = available_free [OF that(3)]
    have t: "tasks_ok u" using that(1) by (simp add: ui_ok_def core_ok_def)
    obtain p where p: "batch_task_remove_directory (Some (task_of u)) ?row = (1, Some p)" "task_wf p" "bt_id p = bt_id (task_of u)"
      using remove_directory_accepted [OF task_of_wf [OF t] free(1,2)] by blast
    have n: "directory_count p = directory_count (task_of u) - 1"
      using p(1) by (auto simp: batch_task_remove_directory_def Let_def split: if_splits)
    note moved = remove_row_ok [OF that(1) free(1,3,4) p(2,3) n free(2)]
    let ?u = "put_task p u"
    have t': "tasks_ok ?u" by (rule put_tasks_ok [OF t p(2,3)])
    have same: "put_task p ?u = ?u" by simp
    have undone: "put_task (task_of u) ?u = u" by (rule put_back [OF t])
    have "safe (do { stored \<leftarrow> save_current E p;
        (if stored then modify (remove_row ?row) else modify (put_task (task_of u)));
        modify (\<lambda>s. refresh_list (s\<lparr>selected_step := -1\<rparr>)) }) ?u"
    proof (rule safe_bind [OF save_current_wp [OF t' p(2)]], simp add: t)
      fix r and v :: "'w BatchUi" assume "Store.more v = Store.more (if r then put_task p ?u else ?u)"
      then have m: "Store.more v = Store.more ?u" by (simp split: if_splits)
      have row: "Store.more (remove_row ?row v) = Store.more (remove_row ?row ?u)"
        unfolding remove_row_def same_views(4) [OF m] same_fields(7,8) [OF m] Let_def
        using m by (cases v rule: BatchUi.cases_scheme, cases ?u rule: BatchUi.cases_scheme) (simp add: Store.defs BatchUi.defs)
      have undo: "Store.more (put_task (task_of u) v) = Store.more u" using more_put [OF m, of "task_of u"] undone by simp
      have "ui_ok (refresh_list ((remove_row ?row v)\<lparr>selected_step := -1\<rparr>))"
        by (rule show_ok) (use row moved that same_views [OF row] same_fields [OF row] in \<open>auto simp: ui_ok_def remove_row_def Let_def\<close>)
      moreover have "ui_ok (refresh_list ((put_task (task_of u) v)\<lparr>selected_step := -1\<rparr>))"
        by (rule show_ok) (use that same_views [OF undo] same_fields [OF undo] in \<open>auto simp: ui_ok_def\<close>)
      ultimately show "safe (do { (if r then modify (remove_row ?row) else modify (put_task (task_of u)));
        modify (\<lambda>s. refresh_list (s\<lparr>selected_step := -1\<rparr>)) }) v"
        by (cases r) (simp_all add: safe_then safe_modify)
    qed
    then show ?thesis by (simp add: tail_def p(1) safe_then)
  qed
  have "safe (do { saved \<leftarrow> save_command E; u \<leftarrow> gets (\<lambda>s. s); let row = list_selection u;
       if \<not> saved \<or> row < 0 then ret () else tail u row }) s"
  proof (rule safe_bind [OF save_safe [OF assms(1)]], rule safe_gets)
    fix r and u :: "'w BatchUi" assume "core_ok u \<and> frame u = frame s"
    note u = framed [OF assms(1) this]
    have "list_selection u = selected_step s" using u(9) assms(1) by (simp add: ui_ok_def selection_ok_def)
    then show "safe (let row = list_selection u in if \<not> r \<or> row < 0 then ret () else tail u row) u"
      using tail [of u] u assms(2) True unfolding Let_def by (intro safe_if safe_ret) simp_all
  qed
  then show ?thesis using True unfolding remove_directory_def tail_def by (intro safe_gets) simp
qed (use assms(1) in \<open>simp add: remove_directory_def safe_gets safe_ret\<close>)

lemma close_manager_safe:
  fixes s :: "'w BatchUi"
  assumes "ui_ok s" and "bu_window s"
  shows "safe (close_manager E) s"
proof -
  have "loaded s" using assms by (simp add: ui_ok_def core_ok_def window_ok_def)
  have close: "safe (do { modify close_window; s \<leftarrow> gets (\<lambda>s. s);
      (if running s = 0 \<and> q_count (task_queue s) \<noteq> 0 then do { start_next_task E; ret () } else ret ()) }) u"
    if u: "ui_ok u" "loaded u" for u :: "'w BatchUi"
  proof (rule safe_then, rule safe_gets)
    have c: "ui_ok (close_window u)" "loaded (close_window u)"
      using close_window_ok [OF u(1)] u(2) by (simp_all add: close_window_def cancel_step_drag_def)
    show "safe (if running (close_window u) = 0 \<and> q_count (task_queue (close_window u)) \<noteq> 0
        then do { start_next_task E; ret () } else ret ()) (close_window u)"
      by (intro safe_if safe_ret c(1) safe_drop safe_wp [OF start_next_wp [OF c]]) simp
  qed
  show ?thesis
    unfolding close_manager_def
  proof (rule safe_bind [OF save_safe [OF assms(1)]], rule safe_if)
    fix r and u :: "'w BatchUi" assume "core_ok u \<and> frame u = frame s"
    note u = framed [OF assms(1) this]
    show "safe (ret ()) u" using u(1) by (rule safe_ret)
    show "safe (do { modify close_window; s \<leftarrow> gets (\<lambda>s. s);
        (if running s = 0 \<and> q_count (task_queue s) \<noteq> 0 then do { start_next_task E; ret () } else ret ()) }) u"
      by (rule close) (use u \<open>loaded s\<close> in simp_all)
  qed
qed

lemma pick_task_safe:
  fixes s :: "'w BatchUi"
  assumes "ui_ok s" and "bu_window s"
  shows "safe (pick_task E i) s"
proof (cases "running s = 0 \<and> 0 \<le> i \<and> i < btl_count (collection s) \<and> i \<noteq> selected_task s")
  case True
  have "safe (do { saved \<leftarrow> save_command E; if saved then modify (\<lambda>s. show_task (s\<lparr>selected_task := i\<rparr>)) else ret () }) s"
  proof (rule safe_bind [OF save_safe [OF assms(1)]], rule safe_if)
    fix r and u :: "'w BatchUi" assume "core_ok u \<and> frame u = frame s"
    note u = framed [OF assms(1) this]
    show "safe (ret ()) u" using u(1) by (rule safe_ret)
    let ?u = "u\<lparr>selected_task := i\<rparr>"
    have "rows u = []" using u(1,4) True by (simp add: ui_ok_def core_ok_def runs_ok_def)
    then have r: "rows ?u = []" by (simp add: rows_def live_def)
    have "loaded u" using u(2) assms by (simp add: ui_ok_def core_ok_def window_ok_def)
    then have "core_ok ?u"
      using u(1,15) True \<open>rows u = []\<close> by (simp add: ui_ok_def core_ok_defs r rows_ok_def has_tasks_def)
    then have "ui_ok (show_task ?u)"
      by (rule show_task_ok) (use u assms(2) \<open>rows u = []\<close> in \<open>simp_all add: ui_ok_def\<close>)
    then show "safe (modify (\<lambda>s. show_task (s\<lparr>selected_task := i\<rparr>))) u" by (rule safe_modify)
  qed
  then show ?thesis using True unfolding pick_task_def by (intro safe_gets) simp
qed (use assms(1) in \<open>auto simp: pick_task_def intro!: safe_gets safe_ret\<close>)

lemma pick_row_ok:
  assumes "ui_ok s" and "bu_window s"
  shows "ui_ok (s\<lparr>list_selection := r, selected_step := r\<rparr>)"
proof -
  have "core_view (s\<lparr>list_selection := r, selected_step := r\<rparr>) = core_view s" by (simp add: core_view_def)
  then show ?thesis
    using assms core_cong [of "s\<lparr>list_selection := r, selected_step := r\<rparr>" s] core_view_fields [of "s\<lparr>list_selection := r, selected_step := r\<rparr>" s]
    by (simp add: ui_ok_def selection_ok_def)
qed

lemma pick_row_safe:
  fixes s :: "'w BatchUi"
  assumes "ui_ok s" and "bu_window s"
  shows "safe (pick_row E row) s"
proof -
  let ?pick = "\<lambda>s. if row = selected_step s then s\<lparr>list_selection := row\<rparr>
       else show_step (s\<lparr>list_selection := row, selected_step := row\<rparr>)"
  have pick: "ui_ok (?pick u)" if "ui_ok u" "bu_window u" for u :: "'w BatchUi"
  proof (cases "row = selected_step u")
    case True
    then have "u\<lparr>list_selection := row\<rparr> = u\<lparr>list_selection := row, selected_step := row\<rparr>" by simp
    with pick_row_ok [OF that, of row] True show ?thesis by simp
  qed (simp add: show_step_ok pick_row_ok [OF that])
  have "wp (if list_selection s \<ge> 0 \<and> list_selection s \<noteq> row then save_command E else ret True) (\<lambda>r u. ui_ok u \<and> bu_window u) s"
    by (rule wp_mono [of _ "\<lambda>r u. core_ok u \<and> frame u = frame s"])
      (use save_safe [OF assms(1)] framed(1,6) [OF assms(1)] assms ui_core [OF assms(1)] in \<open>auto simp: wp\<close>)
  then have "safe (do { saved \<leftarrow> (if list_selection s \<ge> 0 \<and> list_selection s \<noteq> row then save_command E else ret True);
      if \<not> saved then ret () else modify ?pick }) s"
    by (rule safe_bind) (use pick in \<open>auto intro!: safe_if safe_ret safe_modify\<close>)
  then show ?thesis unfolding pick_row_def Let_def by (rule safe_gets)
qed

end
