(* ===== verification/Batch_Manager_Safety.thy ===== *)
theory Batch_Manager_Safety
  imports Batch_Manager_Edits
begin

text \<open>
  What the manager of batch tasks guarantees, whatever the user does, whatever the workers report and whichever call
  fails: the slots, the rows and the counts agree, no row runs twice and a whole task runs alone, a cancelled run
  admits no new one, and results stay with their rows.
\<close>

subsection \<open>The remaining commands\<close>

lemma add_ask_safe:
  assumes "ui_ok s"
  shows "safe (add_ask E) s"
proof -
  have "safe (do { saved \<leftarrow> save_command E;
       if saved then modify (\<lambda>s. s\<lparr>asking := Some (AskFolder (bt_id (task_of s)))\<rparr>) else ret () }) s"
    by (rule safe_bind [OF save_safe [OF assms]]) (use framed(1) [OF assms] asks_ok(3) in \<open>auto intro!: safe_if safe_modify safe_ret\<close>)
  then show ?thesis using assms unfolding add_ask_def by (intro safe_gets) (simp add: safe_ret)
qed

lemma add_shortcut_safe:
  assumes "ui_ok s"
  shows "safe (add_shortcut E) s"
proof -
  have "safe (do { saved \<leftarrow> save_command E; t \<leftarrow> gets task_of; ret (if saved then Some t else None) }) s"
    by (rule safe_bind [OF save_safe [OF assms]], rule safe_gets, rule safe_ret) (rule framed(1) [OF assms])
  then show ?thesis using assms unfolding add_shortcut_def by (intro safe_gets) (simp add: safe_ret)
qed

lemma drag_down_safe:
  fixes s :: "'w BatchUi"
  assumes "ui_ok s" and "bu_window s"
  shows "safe (drag_down E row timed) s"
proof -
  let ?arm = "\<lambda>s. show_step (s\<lparr>list_selection := row, selected_step := row,
             step_drag := (step_drag s)\<lparr>dg_source := row, dg_armed := True\<rparr>\<rparr>)"
  have arm: "ui_ok (?arm u)" if "ui_ok u" "bu_window u" for u :: "'w BatchUi"
    using pick_row_ok [OF that, of row] drag_ok(4) [where s = "u\<lparr>list_selection := row, selected_step := row\<rparr>"]
    by (simp add: show_step_ok)
  let ?s = "cancel_step_drag s"
  have s: "ui_ok ?s" "bu_window ?s" using drag_ok(1) [OF assms(1)] assms(2) by (simp_all add: cancel_step_drag_def)
  have "safe (do { saved \<leftarrow> save_command E;
         if \<not> saved then ret () else do { modify ?arm; (if timed then ret () else modify cancel_step_drag) } }) ?s"
  proof (rule safe_bind [OF save_safe [OF s(1)]], rule safe_if)
    fix r and u :: "'w BatchUi" assume "core_ok u \<and> frame u = frame ?s"
    note u = framed [OF s(1) this]
    show "safe (ret ()) u" using u(1) by (rule safe_ret)
    have a: "ui_ok (?arm u)" by (rule arm) (use u s in simp_all)
    then show "safe (do { modify ?arm; (if timed then ret () else modify cancel_step_drag) }) u"
      by (intro safe_then safe_if safe_ret safe_modify drag_ok(1))
  qed
  then show ?thesis using assms(1) s(1) unfolding drag_down_def
    by (intro safe_gets safe_if safe_ret safe_then) simp_all
qed

lemma drag_up_safe:
  fixes s :: "'w BatchUi"
  assumes "ui_ok s" and "bu_window s"
  shows "safe (drag_up E at) s"
proof -
  have s: "ui_ok (cancel_step_drag s)" "bu_window (cancel_step_drag s)"
    using drag_ok(1) [OF assms(1)] assms(2) by (simp_all add: cancel_step_drag_def)
  show ?thesis
    unfolding drag_up_def Let_def
    by (intro safe_gets safe_if safe_ret safe_then assms(1) move_step_safe s)
qed

lemma resume_safe:
  assumes "ui_ok s" and "bu_window s"
  shows "safe (resume_queue E) s"
proof -
  have "loaded s" using assms by (simp add: ui_ok_def core_ok_def window_ok_def)
  from start_next_wp [OF assms(1) this] have "safe (start_next_task E) s" by (rule safe_wp) simp
  then show ?thesis unfolding resume_queue_def by (intro safe_gets safe_if safe_drop safe_ret assms(1))
qed

lemma typed_ok: "ui_ok (s\<lparr>name_edit := a, command_edit := b, mode_combo := m, directory_edit := c, step_command_edit := d\<rparr>) = ui_ok s"
  by (rule ui_cong) (simp_all add: core_view_def selection_ok_def)

lemma shutdown_ok:
  assumes "ui_ok s"
  shows "ui_ok (batch_tasks_shutdown s)"
proof -
  let ?q = "s\<lparr>task_queue := the (batch_task_queue_cancel (Some (task_queue s)))\<rparr>"
  have "ui_ok ?q"
    using assms by (simp add: ui_ok_def core_ok_defs rows_def live_def task_of_def has_tasks_def selection_ok_def
        batch_task_queue_cancel_def BATCH_TASK_LIMIT_def)
  then have c: "ui_ok (cancel_runs ?q)" by (rule cancel_runs_ok)
  define u where "u = (let s = cancel_runs ?q in if bu_window s then close_window s else s)"
  have u: "ui_ok u" using c close_window_ok [OF c] by (simp add: u_def Let_def)
  define t where "t = u\<lparr>active_runs := replicate (length (active_runs u)) idle_slot, running := 0, cancel_requested := False,
           task_queue := (task_queue u)\<lparr>active_id := 0\<rparr>\<rparr>"
  have f: "active_runs t = replicate (length (active_runs u)) idle_slot" "running t = 0" "\<not> cancel_requested t"
    "active_id (task_queue t) = 0" "q_items (task_queue t) = q_items (task_queue u)" "q_count (task_queue t) = q_count (task_queue u)"
    "collection t = collection u" "selected_task t = selected_task u" "results t = results u" "loaded t = loaded u"
    "bu_window t = bu_window u" "asking t = asking u" "has_tasks t = has_tasks u" "selection_ok t = selection_ok u"
    by (simp_all add: t_def has_tasks_def selection_ok_def)
  have r: "rows t = []" by (simp add: rows_def live_def f(1) idle_slot_def)
  have "list_all slot_ok (active_runs t)" by (simp add: f(1) list_all_iff slot_ok_def) (simp add: idle_slot_def)
  then have "runs_ok t" using u by (simp add: ui_ok_def core_ok_def runs_ok_def r f(1-3) rows_ok_def)
  moreover have "tasks_ok t" using u by (simp add: ui_ok_def core_ok_def tasks_ok_def f)
  moreover have "window_ok t" using u by (simp add: ui_ok_def core_ok_def window_ok_def r f)
  ultimately have "ui_ok t" using u by (simp add: ui_ok_def core_ok_def f)
  moreover have "batch_tasks_shutdown s = t" by (simp add: batch_tasks_shutdown_def u_def t_def Let_def)
  ultimately show ?thesis by simp
qed

lemma free_rows_ok:
  assumes "runs_ok s" and "set (rows s) \<subseteq> {-1}" and "active_runs u = active_runs s" and "running u = running s"
    and "cancel_requested u = cancel_requested s" and "tasks_ok u"
  shows "runs_ok u" "rows u = rows s"
proof -
  show r: "rows u = rows s" by (simp add: rows_def live_def assms(3))
  have "0 \<le> directory_count (task_of u)" using task_of_wf [OF assms(6)] by (simp add: task_wf_def)
  then have "rows_ok (rows s) (directory_count (task_of u))" using assms(1,2) by (auto simp: runs_ok_def rows_ok_def)
  then show "runs_ok u" using assms(1) by (simp add: runs_ok_def r assms(3-5))
qed

lemma wf_move_down: "list_all P xs \<Longrightarrow> list_all P (move_down i n xs)"
  by (auto simp: list_all_iff move_down_def dest: in_set_takeD in_set_dropD)

lemma delete_safe:
  fixes s :: "'w BatchUi"
  assumes "ui_ok s" and "has_tasks s" and "loaded s" and "set (rows s) \<subseteq> {-1}" and "asking s = None"
  shows "safe (delete_confirmed E) s"
proof -
  define p where "p = collection s"
  let ?i = "nat (selected_task s)" and ?n = "nat (btl_count p)"
  define d where "d = p\<lparr>btl_tasks := move_down ?i ?n (btl_tasks p), btl_count := btl_count p - 1\<rparr>"
  have s: "runs_ok s" "tasks_ok s" "window_ok s" "selection_ok s" "rows s = [] \<longrightarrow> active_id (task_queue s) = 0"
    using assms(1) by (simp_all add: ui_ok_def core_ok_def)
  have n: "0 < btl_count p" "?i < ?n" "?n \<le> length (btl_tasks p)" "0 \<le> selected_task s" "btl_count p \<le> int BATCH_TASK_LIMIT"
    using s(2) assms(2) by (auto simp: tasks_ok_def list_ok_def has_tasks_def p_def)
  have "list_ok d" using s(2) n by (simp add: tasks_ok_def list_ok_def d_def p_def wf_move_down)
  moreover have "nat (btl_count p - 1) = ?n - 1" by simp
  then have "ids d = remove_at ?i (ids p)"
    using take_move_down [OF n(2,3)] by (simp add: ids_def d_def map_remove_at)
  then have "ids_ok d"
    using s(2) set_remove_at_subset [of ?i "ids p"] by (auto simp: tasks_ok_def ids_ok_def p_def distinct_remove_at)
  ultimately have d: "list_ok d" "ids_ok d" "btl_count d = btl_count p - 1" by (simp_all add: d_def)
  let ?fix = "\<lambda>s. let c = btl_count (collection s);
            s = (if selected_task s \<ge> c then s\<lparr>selected_task := (if c \<noteq> 0 then c - 1 else 0)\<rparr> else s)
        in if c = 0 then put_task zero_task s else s"
  have good: "ui_ok (show_task u)"
    if u: "tasks_ok u" "active_runs u = active_runs s" "running u = running s" "cancel_requested u = cancel_requested s"
      "results u = results s" "task_queue u = task_queue s" "loaded u = loaded s" "bu_window u = bu_window s" "asking u = asking s"
      "selected_step u = selected_step s" "list_selection u = list_selection s" for u :: "'w BatchUi"
  proof (rule show_task_ok)
    note r = free_rows_ok [OF s(1) assms(4) u(2,3,4,1)]
    have "window_ok u" using s(3) assms(3,5) by (simp add: window_ok_def r u)
    then show "core_ok u" using r(1) u(1) by (simp add: core_ok_def)
    show "bu_window u \<or> selection_ok u" using s(4) by (simp add: selection_ok_def u)
    show "rows u = [] \<longrightarrow> active_id (task_queue u) = 0" using s(5) by (simp add: r u)
  qed
  have "safe (do { r \<leftarrow> store_save_batch_tasks E d;
     modify (\<lambda>s. s\<lparr>collection := snd r\<rparr>);
     (if \<not> fst r then modify (\<lambda>s. s\<lparr>collection := p\<rparr>) else modify ?fix);
     modify show_task }) s"
  proof (rule safe_bind [OF save_tasks_same [OF d(2)]])
    show "nat (btl_count d) \<le> length (btl_tasks d)" using d(1) by (simp add: list_ok_def nat_le_iff)
    fix r :: "bool \<times> BatchTaskList" and v :: "'w BatchUi" assume v: "Store.more v = Store.more s \<and> snd r = d"
    have m: "Store.more v = Store.more s" using v ..
    note f = same_fields [OF m]
    let ?v = "v\<lparr>collection := d\<rparr>"
    have undo: "ui_ok (show_task (v\<lparr>collection := p\<rparr>))"
    proof (rule good)
      show "tasks_ok (v\<lparr>collection := p\<rparr>)" using s(2) by (simp add: tasks_ok_def f p_def)
    qed (simp_all add: f)
    define w where "w = (if selected_task v \<ge> btl_count d then v\<lparr>collection := d, selected_task := (if btl_count d \<noteq> 0 then btl_count d - 1 else 0)\<rparr>
      else v\<lparr>collection := d\<rparr>)"
    have w: "tasks_ok w" using d n by (simp add: w_def tasks_ok_def f)
    have z: "tasks_ok (put_task zero_task w)" if "btl_count d = 0"
    proof -
      have "list_ok (collection (put_task zero_task w))"
        using w by (auto simp: tasks_ok_def list_ok_def put_task_def list_all_iff dest: set_update_subset_insert [THEN subsetD])
      moreover have "ids (collection (put_task zero_task w)) = []" using that by (simp add: ids_def w_def put_task_def)
      moreover have "selected_task w = 0" using that n(4) by (simp add: w_def f)
      ultimately show ?thesis by (simp add: tasks_ok_def ids_ok_def)
    qed
    have fixed: "?fix ?v = (if btl_count d = 0 then put_task zero_task w else w)" by (simp add: w_def Let_def)
    have w': "active_runs w = active_runs s" "running w = running s" "cancel_requested w = cancel_requested s"
      "results w = results s" "task_queue w = task_queue s" "loaded w = loaded s" "bu_window w = bu_window s" "asking w = asking s"
      "selected_step w = selected_step s" "list_selection w = list_selection s"
      by (simp_all add: w_def f)
    have redo: "ui_ok (show_task (?fix ?v))"
      unfolding fixed by (cases "btl_count d = 0") (simp_all only: if_True if_False simp_thms, (rule good; simp add: z w w')+)
    show "safe (do { modify (\<lambda>s. s\<lparr>collection := snd r\<rparr>);
     (if \<not> fst r then modify (\<lambda>s. s\<lparr>collection := p\<rparr>) else modify ?fix);
     modify show_task }) v"
    proof (rule safe_then, cases "fst r")
      case True
      then show "safe (do { (if \<not> fst r then modify (\<lambda>s. s\<lparr>collection := p\<rparr>) else modify ?fix); modify show_task }) (v\<lparr>collection := snd r\<rparr>)"
        using redo v by (simp add: safe_then safe_modify)
    next
      case False
      then show "safe (do { (if \<not> fst r then modify (\<lambda>s. s\<lparr>collection := p\<rparr>) else modify ?fix); modify show_task }) (v\<lparr>collection := snd r\<rparr>)"
        using undo v by (simp add: safe_then safe_modify)
    qed
  qed
  then show ?thesis unfolding delete_confirmed_def Let_def d_def p_def by (intro safe_gets)
qed

lemma ids_append: "0 \<le> btl_count l \<Longrightarrow> nat (btl_count l) < length (btl_tasks l) \<Longrightarrow>
    ids (l\<lparr>btl_count := btl_count l + 1\<rparr>) = ids l @ [bt_id (btl_tasks l ! nat (btl_count l))]"
  by (simp add: ids_def nat_add_distrib take_Suc_conv_app_nth)

lemma ids_renamed:
  assumes "list_all2 renamed ts us" and "\<forall>t \<in> set (take n ts). bt_id t \<noteq> 0"
  shows "take n us = take n ts"
proof (rule nth_equalityI)
  have len: "length us = length ts" using list_all2_lengthD [OF assms(1)] by simp
  then show "length (take n us) = length (take n ts)" by simp
  fix i assume "i < length (take n us)"
  then have i: "i < n" "i < length ts" using len by simp_all
  then have "take n ts ! i \<in> set (take n ts)" by (metis length_take min_less_iff_conj nth_mem)
  then have "bt_id (ts ! i) \<noteq> 0" using assms(2) i by auto
  moreover have "renamed (ts ! i) (us ! i)" using assms(1) i by (simp add: list_all2_conv_all_nth)
  ultimately show "take n us ! i = take n ts ! i" using i by (simp add: renamed_def)
qed

lemma new_task_safe:
  fixes s :: "'w BatchUi"
  assumes "ui_ok s" and "bu_window s" and "draws E" and "asking s = None"
  shows "safe (new_task E) s"
proof (cases "running s \<noteq> 0 \<or> btl_count (collection s) \<ge> int BATCH_TASK_LIMIT")
  case True
  then show ?thesis using assms(1) unfolding new_task_def by (intro safe_gets) (simp add: safe_ret)
next
  case False
  let ?t = "\<lambda>n. zero_task\<lparr>bt_name := W ''Task '' @ dec (n + 1), bt_command := W ''git pull origin main''\<rparr>"
  let ?put = "\<lambda>n s. put_task (?t n) (s\<lparr>selected_task := n, collection := (collection s)\<lparr>btl_count := n + 1\<rparr>\<rparr>)"
  let ?tail = "\<lambda>u. do {
         modify (?put (btl_count (collection u)));
         l \<leftarrow> gets collection;
         r \<leftarrow> store_save_batch_tasks E l;
         modify (\<lambda>s. s\<lparr>collection := snd r\<rparr>);
         (if fst r then modify show_task
          else modify (\<lambda>v. v\<lparr>collection := (collection v)\<lparr>btl_count := btl_count (collection u)\<rparr>, selected_task := selected_task u\<rparr>)) }"
  have tail: "safe (?tail u) u" if u: "ui_ok u" "running u = 0" "btl_count (collection u) < int BATCH_TASK_LIMIT" "bu_window u"
      "asking u = None" for u :: "'w BatchUi"
  proof -
    define n where "n = btl_count (collection u)"
    define l where "l = (collection u)\<lparr>btl_count := n + 1, btl_tasks := (btl_tasks (collection u))[nat n := ?t n]\<rparr>"
    define w where "w = u\<lparr>selected_task := n, collection := l\<rparr>"
    have s: "runs_ok u" "tasks_ok u" "window_ok u" "selection_ok u" "rows u = [] \<longrightarrow> active_id (task_queue u) = 0"
      using u(1) by (simp_all add: ui_ok_def core_ok_def)
    have idle: "rows u = []" "loaded u" using s(1,3) u(2,4) by (simp_all add: runs_ok_def window_ok_def)
    have n: "0 \<le> n" "nat n < length (btl_tasks (collection u))" "n < int BATCH_TASK_LIMIT" "n + 1 \<le> int BATCH_TASK_LIMIT"
      using s(2) u(3) by (auto simp: tasks_ok_def list_ok_def n_def)
    have put: "?put n u = w" by (simp add: put_task_def w_def l_def)
    have wf: "task_wf (?t n)" using zero_task_wf by (simp add: task_wf_def)
    have lists: "list_ok l"
      using s(2) n wf by (auto simp: tasks_ok_def list_ok_def l_def list_all_iff dest: set_update_subset_insert [THEN subsetD])
    have first: "take (nat n) (btl_tasks l) = take (nat n) (btl_tasks (collection u))" by (simp add: l_def)
    have "0 \<notin> bt_id ` set (take (nat n) (btl_tasks (collection u)))"
      using s(2) by (simp add: tasks_ok_def ids_ok_def ids_def n_def)
    then have nonzero: "\<forall>t \<in> set (take (nat n) (btl_tasks l)). bt_id t \<noteq> 0"
      unfolding first by (auto simp: image_iff)
    have good: "runs_ok v \<and> rows v = [] \<and> window_ok v \<and> selection_ok v \<and> active_id (task_queue v) = 0"
      if m: "active_runs v = active_runs u" "running v = running u" "cancel_requested v = cancel_requested u" "results v = results u"
        "task_queue v = task_queue u" "loaded v = loaded u" "bu_window v = bu_window u" "asking v = asking u"
        "selected_step v = selected_step u" "list_selection v = list_selection u" and t: "tasks_ok v" for v :: "'w BatchUi"
    proof -
      have sub: "set (rows u) \<subseteq> {-1}" using idle by simp
      note r = free_rows_ok [OF s(1) sub m(1-3) t]
      have "window_ok v" using s(3) idle u(5) by (simp add: window_ok_def r m)
      moreover have "selection_ok v" using s(4) by (simp add: selection_ok_def m)
      ultimately show ?thesis using r idle s(5) by (simp add: m)
    qed
    have save: "wp (store_save_batch_tasks E l) (\<lambda>r s'. (Store.more s' = Store.more w \<and> btl_count (snd r) = btl_count l
       \<and> list_all2 renamed (btl_tasks l) (btl_tasks (snd r))) \<and> (fst r \<longrightarrow> ids_ok (snd r))) w"
      by (rule wp_conj [OF save_tasks_shape save_tasks_new_ids [OF assms(3)]]) (use lists in \<open>simp add: list_ok_def nat_le_iff\<close>)
    have "safe (do { r \<leftarrow> store_save_batch_tasks E l; modify (\<lambda>s. s\<lparr>collection := snd r\<rparr>);
         (if fst r then modify show_task
          else modify (\<lambda>v. v\<lparr>collection := (collection v)\<lparr>btl_count := n\<rparr>, selected_task := selected_task u\<rparr>)) }) w"
    proof (rule safe_bind [OF save])
      fix r :: "bool \<times> BatchTaskList" and v :: "'w BatchUi"
      assume a: "(Store.more v = Store.more w \<and> btl_count (snd r) = btl_count l
       \<and> list_all2 renamed (btl_tasks l) (btl_tasks (snd r))) \<and> (fst r \<longrightarrow> ids_ok (snd r))"
      then have m: "Store.more v = Store.more w" and c: "btl_count (snd r) = n + 1" and len: "length (btl_tasks (snd r)) = BATCH_TASK_LIMIT"
        and ren: "list_all2 renamed (btl_tasks l) (btl_tasks (snd r))"
        using lists by (auto simp: l_def list_ok_def dest: list_all2_lengthD)
      note f = same_fields [OF m]
      have ok: "list_ok (snd r)" by (rule list_ok_renamed [OF lists _ ren]) (simp add: c l_def)
      let ?v = "v\<lparr>collection := snd r\<rparr>"
      let ?x = "?v\<lparr>collection := (snd r)\<lparr>btl_count := n\<rparr>, selected_task := selected_task u\<rparr>"
      have "ids ((snd r)\<lparr>btl_count := n\<rparr>) = ids (collection u)"
        using ids_renamed [OF ren nonzero] first by (simp add: ids_def n_def)
      then have "tasks_ok ?x" using s(2) ok n by (simp add: tasks_ok_def ids_ok_def list_ok_def n_def)
      then have x: "ui_ok ?x" using good [of ?x] by (simp add: f w_def ui_ok_def core_ok_def)
      have y: "ui_ok (show_task ?v)" if "fst r"
      proof -
        have "ids_ok (snd r)" using a that by simp
        then have t: "tasks_ok ?v" using ok n c by (simp add: tasks_ok_def f w_def)
        show ?thesis
          by (rule show_task_ok) (use good [of ?v] t in \<open>simp_all add: f w_def core_ok_def\<close>)
      qed
      show "safe (do { modify (\<lambda>s. s\<lparr>collection := snd r\<rparr>);
         (if fst r then modify show_task
          else modify (\<lambda>v. v\<lparr>collection := (collection v)\<lparr>btl_count := n\<rparr>, selected_task := selected_task u\<rparr>)) }) v"
        by (rule safe_then, rule safe_if; rule safe_modify) (use x y in simp_all)
    qed
    then show ?thesis
      unfolding n_def [symmetric] by (intro safe_then safe_gets) (simp only: put, simp add: w_def)
  qed
  have "safe (do { saved \<leftarrow> save_command E; if \<not> saved then ret () else do { u \<leftarrow> gets (\<lambda>s. s); ?tail u } }) s"
  proof (rule safe_bind [OF save_safe [OF assms(1)]], rule safe_if)
    fix r and u :: "'w BatchUi" assume "core_ok u \<and> frame u = frame s"
    note u = framed [OF assms(1) this]
    show "safe (ret ()) u" using u(1) by (rule safe_ret)
    show "safe (do { u \<leftarrow> gets (\<lambda>s. s); ?tail u }) u"
      by (rule safe_gets, rule tail) (use u False assms in simp_all)
  qed
  then show ?thesis using False unfolding new_task_def Let_def by (intro safe_gets) simp
qed

subsection \<open>Everything that can happen\<close>

lemma window_call_safe:
  fixes s :: "'w BatchUi"
  assumes "ui_ok s" and "draws E" and "bu_window s" and "asking s = None"
  shows "safe (window_call E c) s"
proof (cases c)
  case (Typed a b m d e)
  then show ?thesis using assms(1) by (simp add: window_call_def safe_modify typed_ok)
next
  case SaveTask
  have "safe (save_command E) s" by (rule safe_wp [OF save_safe [OF assms(1)]]) (rule framed(1) [OF assms(1)])
  then show ?thesis using SaveTask by (simp add: window_call_def safe_drop)
qed (simp_all add: window_call_def safe_modify start_or_cancel_safe [OF assms(1,2)] run_step_safe [OF assms(1,3,4)]
      cancel_selected_ok [OF assms(1)] asks_ok(1) [OF assms(1)] asks_ok(2) [OF assms(3,1)] add_ask_safe [OF assms(1)]
      safe_drop [OF add_shortcut_safe [OF assms(1)]]
      remove_directory_safe [OF assms(1,3)] new_task_safe [OF assms(1,3,2,4)] close_manager_safe [OF assms(1,3)]
      pick_task_safe [OF assms(1,3)] pick_row_safe [OF assms(1,3)] drag_down_safe [OF assms(1,3)]
      drag_ok(1-3) [OF assms(1)] drag_up_safe [OF assms(1,3)])

lemma answer_safe:
  fixes s :: "'w BatchUi"
  assumes "ui_ok s" and "asking s = Some q"
  shows "safe (answer E q a) s"
proof -
  let ?s = "s\<lparr>asking := None\<rparr>"
  have s: "ui_ok ?s" by (rule asks_ok(4) [OF assms(1)])
  have delete: "safe (delete_confirmed E) ?s" if "q = AskDelete"
  proof (rule delete_safe [OF s])
    have "has_tasks s \<and> loaded s \<and> set (rows s) \<subseteq> {-1}" using assms that by (simp add: ui_ok_def core_ok_def window_ok_def)
    then show "has_tasks ?s" "loaded ?s" "set (rows ?s) \<subseteq> {-1}" by (simp_all add: has_tasks_def rows_def live_def)
  qed simp
  show ?thesis
    unfolding answer_def
    by (rule safe_then, cases a; cases q) (simp_all add: safe_ret s delete add_chosen_safe safe_modify asks_ok(5))
qed

lemma safe_after: "safe c s \<Longrightarrow> ui_ok (snd (run_state c s))"
  by (simp add: safe_def wp_def split: prod.splits)

lemma ui_step_ok:
  fixes s t :: "'w BatchUi"
  assumes "ui_step E s t" and "draws E" and "ui_ok s"
  shows "ui_ok t"
proof -
  from assms(1) show ?thesis
  proof cases
    case (by_window c)
    then show ?thesis using safe_after [OF window_call_safe [OF assms(3,2) by_window(2,3)]] by simp
  next
    case by_resume
    then show ?thesis using safe_after [OF resume_safe [OF assms(3) by_resume(2)]] by simp
  next
    case (by_answer q a)
    then show ?thesis using safe_after [OF answer_safe [OF assms(3) by_answer(2)]] by simp
  next
    case by_open
    have "safe (batch_tasks_open E) s" by (rule safe_wp [OF open_wp [OF assms(3,2)]]) simp
    then show ?thesis using by_open safe_after by simp
  next
    case (by_launch k)
    then show ?thesis using safe_after [OF launch_safe [OF assms(3,2)]] by simp
  next
    case (by_event e)
    have "safe (batch_tasks_handle_event E e) s" unfolding safe_def by (rule handle_event_wp [OF assms(3)])
    then show ?thesis using by_event safe_after by simp
  next
    case by_shutdown
    then show ?thesis using shutdown_ok [OF assms(3)] by simp
  qed
qed

lemma new_manager_ok: "ui_ok (new_manager st)"
proof -
  have f: "active_runs (new_manager st) = replicate BATCH_DIRECTORY_LIMIT idle_slot" "running (new_manager st) = 0"
    "\<not> cancel_requested (new_manager st)" "selected_task (new_manager st) = 0" "selected_step (new_manager st) = -1"
    "list_selection (new_manager st) = -1" "results (new_manager st) = replicate BATCH_DIRECTORY_LIMIT cleared_result"
    "task_queue (new_manager st) = \<lparr>q_items = replicate BATCH_TASK_LIMIT zero_task, q_count = 0, active_id = 0\<rparr>"
    "\<not> bu_window (new_manager st)" "\<not> loaded (new_manager st)" "asking (new_manager st) = None"
    "collection (new_manager st) = \<lparr>btl_count = 0, btl_tasks = replicate BATCH_TASK_LIMIT zero_task\<rparr>"
    by (simp_all add: new_manager_def Store.defs)
  have r: "rows (new_manager st) = []" by (simp add: rows_def live_def f(1) idle_slot_def)
  have "slot_ok idle_slot" by (simp add: slot_ok_def) (simp add: idle_slot_def)
  then have "runs_ok (new_manager st)" by (simp add: runs_ok_def f(1-3) r rows_ok_def list_all_iff)
  moreover have "tasks_ok (new_manager st)" by (simp add: tasks_ok_def f list_ok_def ids_ok_def ids_def list_all_iff)
  moreover have "window_ok (new_manager st)" by (simp add: window_ok_def f r)
  ultimately show ?thesis by (simp add: ui_ok_def core_ok_def selection_ok_def f)
qed

lemma manages_ok: "manages E st s \<Longrightarrow> draws E \<Longrightarrow> ui_ok s"
  by (induction rule: manages.induct) (auto intro: new_manager_ok ui_step_ok)

subsection \<open>The guarantees\<close>

definition desk :: "nat batch_ui_env" where
  \<comment> \<open>a system on which every call of the window succeeds\<close>
  "desk = store_env.extend (rest_store\<lparr>random64 := \<lambda>w. (1, Suc w)\<rparr>)
     \<lparr>create_event = \<lambda>w. (True, w), create_thread = \<lambda>w. (True, w), create_window = \<lambda>w. (True, w)\<rparr>"

lemma desk_fields: "random64 desk w = (1, Suc w)" "create_event desk = Pair True" "create_thread desk = Pair True" "create_window desk = Pair True"
  by (simp_all add: desk_def store_env.defs fun_eq_iff)

lemma desk_draws: "draws desk"
proof -
  have "draw_id (random64 desk) w = Some (1, Suc w)" for w
    by (subst draw_id.simps) (simp add: desk_fields masked_id_def)
  then show ?thesis by (simp add: draws_def)
qed

lemma desk_manages: "manages desk rest_session (snd (run_state (batch_tasks_launch desk 1)
    (snd (run_state (batch_tasks_open desk) (new_manager rest_session)))))"
  by (rule by_step [OF by_step [OF at_start by_open] by_launch])

text \<open>C29 (invariant): In every state the manager of batch tasks can reach - whatever the user clicks, types or answers,
  whatever the workers report, whichever call of the system or of the store fails - \<open>running\<close> is the number of slots
  with a worker, no row of the list has two workers, every worker's row is a row of the selected task, a worker of a
  whole task is the only one, every worker can be told to stop, and with no worker there is neither an active task in
  the queue nor a pending cancellation.\<close>
theorem manager_runs_agree:
  assumes "draws E" and "manages E st s"
  shows "running s = int (length (live s)) \<and> distinct (map ar_row (live s))
    \<and> (\<forall>a \<in> set (live s). -1 \<le> ar_row a \<and> ar_row a < directory_count (task_of s) \<and> ar_cancel a \<noteq> None
          \<and> (ar_row a = -1 \<longrightarrow> live s = [a]))
    \<and> (live s = [] \<longrightarrow> active_id (task_queue s) = 0 \<and> \<not> cancel_requested s)"
proof -
  have u: "ui_ok s" by (rule manages_ok [OF assms(2,1)])
  then have c: "runs_ok s" "rows s = [] \<longrightarrow> active_id (task_queue s) = 0" by (simp_all add: ui_ok_def core_ok_def)
  have rows: "rows_ok (map ar_row (live s)) (directory_count (task_of s))" and slots: "list_all slot_ok (active_runs s)"
    using c(1) by (simp_all add: runs_ok_def rows_def)
  have one: "-1 \<le> ar_row a \<and> ar_row a < directory_count (task_of s) \<and> ar_cancel a \<noteq> None \<and> (ar_row a = -1 \<longrightarrow> live s = [a])"
    if a: "a \<in> set (live s)" for a
  proof -
    have "ar_row a \<in> set (map ar_row (live s))" using a by simp
    with rows have m: "-1 \<le> ar_row a" "ar_row a < directory_count (task_of s)" "ar_row a = -1 \<longrightarrow> map ar_row (live s) = [-1]"
      unfolding rows_ok_def by metis+
    have "slot_ok a" "ar_worker a \<noteq> None" using a slots by (auto simp: live_def list_all_iff)
    then have "ar_cancel a \<noteq> None" by (simp add: slot_ok_def)
    moreover have "live s = [a]" if "ar_row a = -1" using m(3) that a by (cases "live s") auto
    ultimately show ?thesis using m(1,2) by blast
  qed
  have "distinct (map ar_row (live s))" using rows by (simp only: rows_ok_def)
  moreover have "live s = [] \<longrightarrow> active_id (task_queue s) = 0 \<and> \<not> cancel_requested s" "running s = int (length (live s))"
    using c unfolding runs_ok_def rows_def by auto
  ultimately show ?thesis using one by blast
qed

theorem manager_runs_agree_witness:
  "let s = snd (run_state (batch_tasks_launch desk 1) (snd (run_state (batch_tasks_open desk) (new_manager rest_session)))) in
   running s = int (length (live s)) \<and> distinct (map ar_row (live s))"
  unfolding Let_def using manager_runs_agree [OF desk_draws desk_manages] by simp

text \<open>C30 (type): In every state the manager can reach its list holds at most \<open>BATCH_TASK_LIMIT\<close> well-formed tasks whose
  identifiers are different and not zero, the selected task is one of them (or the first place when there is none), and
  the results and slots have one cell for each possible row.\<close>
theorem manager_tasks_well_formed:
  assumes "draws E" and "manages E st s"
  shows "list_ok (collection s) \<and> distinct (ids (collection s)) \<and> 0 \<notin> set (ids (collection s))
    \<and> 0 \<le> selected_task s \<and> (selected_task s < btl_count (collection s) \<or> selected_task s = 0)
    \<and> length (results s) = BATCH_DIRECTORY_LIMIT \<and> length (active_runs s) = BATCH_DIRECTORY_LIMIT
    \<and> q_count (task_queue s) \<in> {0..int BATCH_TASK_LIMIT}"
  using manages_ok [OF assms(2,1)] by (simp add: ui_ok_def core_ok_defs ids_ok_def)

theorem manager_tasks_well_formed_witness:
  "let s = snd (run_state (batch_tasks_launch desk 1) (snd (run_state (batch_tasks_open desk) (new_manager rest_session)))) in
   list_ok (collection s) \<and> distinct (ids (collection s))"
  unfolding Let_def using manager_tasks_well_formed [OF desk_draws desk_manages] by simp

definition desk_busy :: "bool \<Rightarrow> nat BatchUi" where
  \<comment> \<open>the row 0 of the only task runs\<close>
  "desk_busy cancelled = (new_manager rest_session)\<lparr>loaded := True, collection := task_list [one_task\<lparr>bt_id := 1\<rparr>],
     active_runs := (replicate BATCH_DIRECTORY_LIMIT idle_slot)[0 := \<lparr>ar_worker = Some (run_context one_task 0 0), ar_cancel = Some cancelled,
       ar_row = 0, ar_cancelling = cancelled\<rparr>], running := 1, cancel_requested := cancelled\<rparr>"

lemma desk_busy_ok: "ui_ok (desk_busy b)"
proof -
  let ?s = "new_manager rest_session" and ?t = "one_task\<lparr>bt_id := 1\<rparr>"
  have s: "ui_ok ?s" by (rule new_manager_ok)
  have f: "collection (desk_busy b) = task_list [?t]" "running (desk_busy b) = 1" "cancel_requested (desk_busy b) = b"
    "loaded (desk_busy b)" "results (desk_busy b) = results ?s" "task_queue (desk_busy b) = task_queue ?s"
    "bu_window (desk_busy b) = bu_window ?s" "asking (desk_busy b) = asking ?s" "selected_task (desk_busy b) = 0"
    "selected_step (desk_busy b) = selected_step ?s" "list_selection (desk_busy b) = list_selection ?s"
    "active_runs (desk_busy b) = (replicate BATCH_DIRECTORY_LIMIT idle_slot)[0 := \<lparr>ar_worker = Some (run_context one_task 0 0), ar_cancel = Some b,
       ar_row = 0, ar_cancelling = b\<rparr>]"
    by (simp_all add: desk_busy_def) (simp_all add: new_manager_def Store.defs)
  have asks: "asking ?s = None" by (simp add: new_manager_def Store.defs)
  have limit: "replicate BATCH_DIRECTORY_LIMIT idle_slot = idle_slot # replicate (BATCH_DIRECTORY_LIMIT - 1) idle_slot"
    by (simp add: BATCH_DIRECTORY_LIMIT_def numeral_eq_Suc)
  have rows: "rows (desk_busy b) = [0]" by (simp add: rows_def live_def f limit) (simp add: idle_slot_def)
  have wf: "task_wf ?t" by code_simp
  have list: "list_ok (task_list [?t])" "ids_ok (task_list [?t])" "btl_count (task_list [?t]) = 1" "btl_tasks (task_list [?t]) ! 0 = ?t"
    using wf by (simp_all add: list_ok_def task_list_def ids_ok_def ids_def list_all_iff BATCH_TASK_LIMIT_def)
  have one: "task_of (desk_busy b) = ?t" by (simp add: task_of_def f list(4))
  have "slot_ok idle_slot" by (simp add: slot_ok_def) (simp add: idle_slot_def)
  then have "list_all slot_ok (active_runs (desk_busy b))" by (simp add: f(12) limit list_all_iff) (simp add: slot_ok_def)
  moreover have "length (active_runs (desk_busy b)) = BATCH_DIRECTORY_LIMIT" by (simp add: f(12))
  moreover have "directory_count ?t = 1" by (simp add: one_task_def)
  ultimately have "runs_ok (desk_busy b)" unfolding runs_ok_def f(2) rows one by (simp add: rows_ok_def)
  moreover have "tasks_ok (desk_busy b)" using list by (simp add: tasks_ok_def f)
  moreover have "window_ok (desk_busy b)" using s asks by (simp add: ui_ok_def core_ok_def window_ok_def f rows)
  ultimately show ?thesis using s by (simp add: ui_ok_def core_ok_def selection_ok_def f rows)
qed

lemma cancelled_slot: "slot_ok a \<Longrightarrow> (let b = (if ar_cancel a \<noteq> None then stop_slot a else a) in
    ar_worker b = ar_worker a \<and> (ar_worker b \<noteq> None \<longrightarrow> ar_cancel b = Some True \<and> ar_cancelling b))"
  by (cases "ar_worker a") (auto simp: slot_ok_def stop_slot_def idle_slot_def)

lemma paint_fields:
  "active_runs (fold (\<lambda>a s. if P a then set_status (r a) st s else s) as s) = active_runs s \<and>
   running (fold (\<lambda>a s. if P a then set_status (r a) st s else s) as s) = running s \<and>
   task_queue (fold (\<lambda>a s. if P a then set_status (r a) st s else s) as s) = task_queue s \<and>
   cancel_requested (fold (\<lambda>a s. if P a then set_status (r a) st s else s) as s) = cancel_requested s"
  by (induction as arbitrary: s) (simp_all add: set_status_def)

lemma cancelled_refuses: "cancel_requested s \<Longrightarrow> running s \<noteq> 0 \<Longrightarrow> run_state (begin_task E t r) s = (False, s)"
  by (cases "r < 0") (simp_all add: begin_task_def step_available_def)

lemma cancel_all_state:
  assumes "running s \<noteq> 0"
  shows "snd (run_state (start_or_cancel E) s) = (let u = cancel_runs (s\<lparr>task_queue := the (batch_task_queue_cancel (Some (task_queue s))), cancel_requested := True\<rparr>)
     in fold (\<lambda>a s. if ar_worker a \<noteq> None \<and> ar_row a \<ge> 0 then set_status (ar_row a) BATCH_CANCELLING s else s) (active_runs u) u)"
  using assms by (simp add: start_or_cancel_def Let_def)

text \<open>C31 (safety): In a state with the invariant (as every state that can be reached), cancelling while something runs empties the queue, sets the event of every worker and leaves all workers
  in their slots, and no task and no row can be started then.\<close>
theorem cancel_stops_all:
  fixes E :: "('w, 'y) batch_ui_env_scheme" and s :: "'w BatchUi"
  assumes "ui_ok s" and "running s \<noteq> 0"
  defines "u \<equiv> snd (run_state (start_or_cancel E) s)"
  shows "q_count (task_queue u) = 0 \<and> running u = running s \<and> map ar_worker (active_runs u) = map ar_worker (active_runs s)
    \<and> (\<forall>a \<in> set (live u). ar_cancel a = Some True \<and> ar_cancelling a)
    \<and> cancel_requested u \<and> (\<forall>t row. run_state (begin_task E t row) u = (False, u))"
proof -
  let ?f = "\<lambda>a. if ar_cancel a \<noteq> None then stop_slot a else a"
  have f: "active_runs u = map ?f (active_runs s)" "running u = running s" "q_count (task_queue u) = 0" "cancel_requested u"
    by (simp_all add: u_def cancel_all_state [OF assms(2)] Let_def paint_fields cancel_runs_def batch_task_queue_cancel_def)
  have "list_all slot_ok (active_runs s)"
    using assms(1) by (simp add: ui_ok_def core_ok_def runs_ok_def)
  then have slots: "slot_ok a" if "a \<in> set (active_runs s)" for a using that by (simp add: list_all_iff)
  have "map ar_worker (active_runs u) = map ar_worker (active_runs s)"
    by (simp add: f stop_slot_def)
  moreover have "ar_cancel b = Some True \<and> ar_cancelling b" if "b \<in> set (live u)" for b
  proof -
    have b: "b \<in> ?f ` set (active_runs s)" "ar_worker b \<noteq> None" using that by (simp_all add: live_def f(1))
    then obtain a where "a \<in> set (active_runs s)" "b = ?f a" by blast
    with b(2) show ?thesis using cancelled_slot [OF slots, of a] by (simp add: Let_def)
  qed
  moreover have "run_state (begin_task E t row) u = (False, u)" for t row
    by (rule cancelled_refuses) (use f assms(2) in simp_all)
  ultimately show ?thesis using f by blast
qed

theorem cancel_stops_all_witness:
  "let u = snd (run_state (start_or_cancel desk) (desk_busy False)) in cancel_requested u \<and> running u = 1"
proof -
  have n: "running (desk_busy False) = 1" by (simp add: desk_busy_def)
  show ?thesis unfolding Let_def using cancel_stops_all [OF desk_busy_ok, of False desk] n by simp
qed

subsection \<open>Winding down\<close>

definition holds :: "('w BatchUi, 'a) state \<Rightarrow> 'w BatchUi \<Rightarrow> bool" where
  \<comment> \<open>the command leaves the workers and the cancellation alone\<close>
  "holds c s \<longleftrightarrow> wp c (\<lambda>r t. active_runs t = active_runs s \<and> running t = running s \<and> cancel_requested t = cancel_requested s) s"

abbreviation same_runs :: "'w BatchUi \<Rightarrow> 'w BatchUi \<Rightarrow> bool" where
  "same_runs s t \<equiv> active_runs t = active_runs s \<and> running t = running s \<and> cancel_requested t = cancel_requested s"

lemma holds_ret: "holds (ret x) s"
  and holds_modify: "same_runs s (f s) \<Longrightarrow> holds (modify f) s"
  and holds_gets: "holds (c (g s)) s \<Longrightarrow> holds (gets g \<bind> c) s"
  and holds_drop: "holds d s \<Longrightarrow> holds (do { d; ret () }) s"
  by (simp_all add: holds_def wp)

lemma holds_bind: "holds c s \<Longrightarrow> (\<And>r t. same_runs s t \<Longrightarrow> holds (d r) t) \<Longrightarrow> holds (c \<bind> d) s"
  unfolding holds_def wp_bind by (erule wp_mono) simp

lemma holds_then: "same_runs s (f s) \<Longrightarrow> holds d (f s) \<Longrightarrow> holds (modify f \<bind> (\<lambda>_. d)) s"
  by (simp add: holds_def wp)

lemma holds_if: "(b \<Longrightarrow> holds c s) \<Longrightarrow> (\<not> b \<Longrightarrow> holds d s) \<Longrightarrow> holds (if b then c else d) s"
  by simp

lemma more_runs: "Store.more t = Store.more s \<Longrightarrow> same_runs s t"
  using same_fields(8-10) [of t s] by blast

lemma holds_more: "wp c (\<lambda>r t. Store.more t = Store.more s) s \<Longrightarrow> holds c s"
  unfolding holds_def by (erule wp_mono) (erule more_runs)

lemma view_runs: "core_view t = core_view s \<Longrightarrow> same_runs s t"
  by (simp add: core_view_def)

lemmas runs_shown = view_runs [OF view_refresh] view_runs [OF view_show_task] view_runs [OF view_show_step] view_runs [OF view_drag]

lemma runs_closed: "same_runs s (close_window s)"
  by (simp add: close_window_def cancel_step_drag_def)

lemma runs_put: "same_runs s (put_task t s)" "same_runs s (s\<lparr>collection := c\<rparr>)" "same_runs s (s\<lparr>selected_task := i\<rparr>)"
  "same_runs s (clear_results p n s)" "same_runs s (set_status i st s)" "same_runs s (s\<lparr>asking := q\<rparr>)" "same_runs s (s\<lparr>task_queue := w\<rparr>)"
  by (simp_all add: clear_results_def set_status_def)

lemma holds_store: "holds (store_save_batch_tasks E l) s" "holds (store_load_batch_tasks E) s" "holds (lift f) s"
  by (rule holds_more, rule keeps_wp, simp add: more_save_tasks more_load_all more_session(1))+

lemma holds_save_current: "holds (save_current E t) s"
  unfolding save_current_def
  by (rule holds_gets, rule holds_then, rule runs_put, rule holds_gets, rule holds_bind, rule holds_store, rule holds_then, rule runs_put,
      rule holds_if, rule holds_ret, rule holds_then, rule runs_put, rule holds_ret)

lemma holds_save_command: "holds (save_command E) s"
proof -
  have run: "holds (do { saved \<leftarrow> save_current E t; if \<not> saved then ret False
      else do { modify (clear_results p n); modify (put_task t); modify show_step; ret True } }) s" for t p n
    by (rule holds_bind, rule holds_save_current, rule holds_if, rule holds_ret, rule holds_then, rule runs_put, rule holds_then,
        rule runs_put, rule holds_then, rule runs_shown, rule holds_ret)
  show ?thesis
    unfolding save_command_def
    by (rule holds_gets, rule holds_if, rule holds_ret, cases "edited_task s") (simp_all add: holds_ret run)
qed

lemma holds_next: "running s \<noteq> 0 \<Longrightarrow> holds (start_next_task E) s"
  unfolding start_next_task_def by (rule holds_gets) (simp add: holds_ret)

lemma holds_load: "holds (if loaded u then ret True else do { l \<leftarrow> store_load_batch_tasks E;
      case l of None \<Rightarrow> ret False | Some l \<Rightarrow> do { modify (\<lambda>s. s\<lparr>collection := l, loaded := True\<rparr>); ret True } }) s"
proof -
  have "holds (case l of None \<Rightarrow> ret False | Some l \<Rightarrow> do { modify (\<lambda>s. s\<lparr>collection := l, loaded := True\<rparr>); ret True }) t"
    for l and t :: "'a BatchUi" by (cases l) (simp_all add: holds_ret holds_then)
  then show ?thesis by (intro holds_if holds_ret holds_bind [OF holds_store(2)])
qed

lemma holds_open: "holds (batch_tasks_open E) s"
proof -
  let ?fill = "\<lambda>s. refresh_list (s\<lparr>bu_window := True, selected_step := -1, list_selection := -1,
             name_edit := bt_name (task_of s), command_edit := bt_command (task_of s), mode_combo := bt_mode (task_of s)\<rparr>)"
  have "same_runs t (?fill t)" for t :: "'a BatchUi"
    using runs_shown(1) [of "t\<lparr>bu_window := True, selected_step := -1, list_selection := -1,
             name_edit := bt_name (task_of t), command_edit := bt_command (task_of t), mode_combo := bt_mode (task_of t)\<rparr>"] by simp
  then have "holds (modify ?fill \<bind> (\<lambda>_. ret True)) t" for t :: "'a BatchUi" by (rule holds_then) (rule holds_ret)
  then have "holds (do { created \<leftarrow> lift (create_window E); if \<not> created then ret False else do { modify ?fill; ret True } }) t" for t
    by (intro holds_bind [OF holds_store(3)] holds_if holds_ret)
  then show ?thesis
    unfolding batch_tasks_open_def by (intro holds_gets holds_if holds_ret holds_bind [OF holds_load])
qed

lemma holds_lookup: "holds (batch_tasks_lookup E k) s"
  unfolding batch_tasks_lookup_def by (intro holds_if holds_ret holds_gets holds_bind [OF holds_load])

lemma holds_queue: "running s \<noteq> 0 \<Longrightarrow> holds (queue_task E t) s"
  unfolding queue_task_def Let_def
  by (rule holds_gets, rule holds_bind [of "case q of Some q \<Rightarrow> modify (\<lambda>s. s\<lparr>task_queue := q\<rparr>) | None \<Rightarrow> ret ()" for q])
     (auto split: option.splits intro!: holds_ret holds_modify holds_if holds_gets holds_next)

lemma holds_launch: 
  assumes "running s \<noteq> 0"
  shows "holds (batch_tasks_launch E k) s"
proof -
  have found: "holds (launch_found E b v) t" if "running t \<noteq> 0" for b v and t :: "'a BatchUi"
  proof (cases v)
    case (Some x)
    have "holds (if b then ret True else batch_tasks_open E) t" by (intro holds_if holds_ret holds_open)
    then have "holds (do { ready \<leftarrow> (if b then ret True else batch_tasks_open E); if \<not> ready then ret False else queue_task E x }) t"
      by (rule holds_bind) (use that in \<open>auto intro!: holds_if holds_ret holds_queue\<close>)
    then show ?thesis using Some by (simp add: launch_found_def holds_ret)
  qed (simp add: launch_found_def holds_ret)
  have save: "holds (if b then save_command E else ret True) t" for b and t :: "'a BatchUi"
    by (intro holds_if holds_ret holds_save_command)
  show ?thesis
    unfolding batch_tasks_launch_def
    by (rule holds_bind [OF holds_lookup], rule holds_if, rule holds_ret, rule holds_gets, rule holds_bind [OF save], rule holds_if,
        rule holds_ret, rule holds_bind [OF holds_lookup], rule found) (use assms in auto)
qed

lemma holds_delete: "holds (delete_confirmed E) s"
proof -
  let ?fix = "\<lambda>s. let c = btl_count (collection s);
            s = (if selected_task s \<ge> c then s\<lparr>selected_task := (if c \<noteq> 0 then c - 1 else 0)\<rparr> else s)
        in if c = 0 then put_task zero_task s else s"
  have redo: "same_runs t (?fix t)" for t :: "'a BatchUi" by (simp add: Let_def)
  have "holds (do { (if \<not> b then modify (\<lambda>s. s\<lparr>collection := p\<rparr>) else modify ?fix); modify show_task }) t" for b p and t :: "'a BatchUi"
  proof (cases b)
    case True
    have "holds (modify ?fix \<bind> (\<lambda>_. modify show_task)) t"
      by (rule holds_then [where f = ?fix, OF redo]) (rule holds_modify, rule runs_shown)
    then show ?thesis using True by simp
  next
    case False
    have "holds (modify (\<lambda>s. s\<lparr>collection := p\<rparr>) \<bind> (\<lambda>_. modify show_task)) t"
      by (rule holds_then [where f = "\<lambda>s. s\<lparr>collection := p\<rparr>", OF runs_put(2)]) (rule holds_modify, rule runs_shown)
    then show ?thesis using False by simp
  qed
  then show ?thesis
    unfolding delete_confirmed_def Let_def by (intro holds_gets holds_bind [OF holds_store(1)] holds_then runs_put(2))
qed

lemma holds_pick: "holds (pick_row E row) s"
proof -
  have "same_runs t (if row = selected_step t then t\<lparr>list_selection := row\<rparr>
       else show_step (t\<lparr>list_selection := row, selected_step := row\<rparr>))" for t :: "'a BatchUi"
    by (simp add: show_step_def Let_def)
  then have pick: "holds (if \<not> b then ret () else modify (\<lambda>s. if row = selected_step s then s\<lparr>list_selection := row\<rparr>
       else show_step (s\<lparr>list_selection := row, selected_step := row\<rparr>))) t" for b and t :: "'a BatchUi"
    by (intro holds_if holds_ret holds_modify)
  have "holds (if list_selection s \<ge> 0 \<and> list_selection s \<noteq> row then save_command E else ret True) s"
    by (intro holds_if holds_ret holds_save_command)
  from holds_bind [OF this pick] show ?thesis unfolding pick_row_def Let_def by (rule holds_gets)
qed

lemma cancelled_row: "cancel_requested s \<Longrightarrow> \<not> step_available s r"
  by (simp add: step_available_def)

lemma holds_window:
  assumes "cancel_requested s" and "running s \<noteq> 0" and "c \<noteq> RunTask"
  shows "holds (window_call E c) s"
proof -
  have drop: "holds (save_command E) s" by (rule holds_save_command)
  have close: "holds (close_manager E) s"
    unfolding close_manager_def
    by (rule holds_bind [OF drop], rule holds_if, rule holds_ret, rule holds_then, rule runs_closed, rule holds_gets)
       (use assms(2) in \<open>auto simp: close_window_def cancel_step_drag_def intro: holds_ret\<close>)
  have up: "holds (move_step E i j) t" if "running t \<noteq> 0" for i j t
    using that unfolding move_step_def by (intro holds_gets) (simp add: holds_ret)
  have dragged: "same_runs s (drag_hold at s)" "same_runs s (drag_move at s)" for at
    by (simp_all add: drag_hold_def drag_move_def cancel_step_drag_def)
  have "running (cancel_step_drag s) \<noteq> 0" using assms(2) runs_shown(4) [of s] by simp
  from up [OF this] have drag: "holds (drag_up E at) s" for at
    unfolding drag_up_def Let_def by (intro holds_gets holds_if holds_ret holds_then runs_shown(4))
  have cell: "same_runs s (cancel_selected_step s)" using assms(1) by (simp add: cancel_selected_step_def split: option.splits)
  have refused: "holds (run_selected_step E) s" "holds (remove_directory E) s" "holds (add_ask E) s" "holds (new_task E) s"
    "holds (add_shortcut E) s" "holds (pick_task E i) s" "holds (drag_down E row b) s" for i row b
    unfolding run_selected_step_def remove_directory_def add_ask_def new_task_def add_shortcut_def
      pick_task_def drag_down_def
    by (rule holds_gets, simp add: assms cancelled_row holds_ret)+
  show ?thesis
    using assms cell close dragged drag drop refused runs_shown(4) [of s]
    by (cases c) (simp_all add: window_call_def holds_drop holds_modify holds_pick browse_ask_def cancelled_row delete_ask_def)
qed

lemma holds_answer:
  assumes "cancel_requested s"
  shows "holds (answer E q a) s"
proof -
  let ?s = "s\<lparr>asking := None\<rparr>"
  have add: "holds (add_chosen E k path) ?s" for k path
    using assms unfolding add_chosen_def by (intro holds_gets) (simp add: holds_ret)
  have browse: "same_runs ?s (browse_chosen k r path ?s)" for k r path by (simp add: browse_chosen_def)
  show ?thesis
    unfolding answer_def
    by (rule holds_then [OF runs_put(6)], cases a; cases q) (simp_all add: holds_ret holds_delete add holds_modify browse)
qed

lemma holds_after: "holds c s \<Longrightarrow> same_runs s (snd (run_state c s))"
  by (simp add: holds_def wp_def split: prod.splits)

definition winds_down :: "'w BatchUi \<Rightarrow> 'w BatchUi \<Rightarrow> bool" where
  \<comment> \<open>no slot got a worker, and the cancellation is still pending\<close>
  "winds_down s t \<longleftrightarrow> cancel_requested t \<and> running t \<le> running s
     \<and> (\<forall>i < BATCH_DIRECTORY_LIMIT. ar_worker (active_runs t ! i) \<in> {None, ar_worker (active_runs s ! i)})"

lemma same_winds: "cancel_requested s \<Longrightarrow> same_runs s t \<Longrightarrow> winds_down s t"
  by (simp add: winds_down_def)

lemma cancel_winds:
  assumes "running s \<noteq> 0" and "length (active_runs s) = BATCH_DIRECTORY_LIMIT"
  shows "winds_down s (snd (run_state (start_or_cancel E) s))"
  by (simp add: winds_down_def cancel_all_state [OF assms(1)] Let_def paint_fields cancel_runs_def assms(2) stop_slot_def)

lemma event_winds:
  assumes "cancel_requested s" and "length (active_runs s) = BATCH_DIRECTORY_LIMIT" and "ev_type e = EVENT_FINISHED \<Longrightarrow> running s \<noteq> 1"
    and "running s \<noteq> 0"
  shows "winds_down s (snd (run_state (batch_tasks_handle_event E e) s))"
proof (cases "ev_slot e < 0 \<or> ev_slot e \<ge> int BATCH_DIRECTORY_LIMIT \<or> ar_worker (active_runs s ! nat (ev_slot e)) = None")
  case True
  then show ?thesis using assms(1) by (auto simp: batch_tasks_handle_event_def winds_down_def)
next
  case False
  define slot where "slot = nat (ev_slot e)"
  define index where "index = (if ev_type e \<noteq> EVENT_FINISHED \<and> ar_row (active_runs s ! slot) \<ge> 0 then ar_row (active_runs s ! slot) else ev_index e)"
  define r where "r = (if 0 \<le> index \<and> index < directory_count (task_of s)
    then (results s)[nat index := event_result (active_runs s ! slot) e (results s ! nat index)] else results s)"
  have u: "take_event e s = (if ev_type e = EVENT_FINISHED then finish_run slot e (s\<lparr>results := r\<rparr>) else s\<lparr>results := r\<rparr>)"
    by (simp add: take_event_def r_def index_def slot_def Let_def)
  have "winds_down s (take_event e s)"
    using assms False by (auto simp: u winds_down_def finish_run_def Let_def nth_list_update idle_slot_def slot_def)
  moreover have "running (take_event e s) \<noteq> 0" if "ev_type e = EVENT_FINISHED"
    using assms(3) that by (simp add: u finish_run_def Let_def)
  then have "snd (run_state (batch_tasks_handle_event E e) s) = take_event e s"
    using False by (auto simp: batch_tasks_handle_event_def)
  ultimately show ?thesis by simp
qed

text \<open>C32 (safety): From a state with the invariant, while a cancellation is pending, every step of the manager leaves each slot as it is or clears it - no
  worker is started by any click, launch, answer or message - and keeps the cancellation pending, until the message that
  the last worker has ended, or the shutdown, which waits for all of them.\<close>
theorem cancelled_runs_only_end:
  fixes s t :: "'w BatchUi"
  assumes "ui_ok s" and "cancel_requested s" and "ui_step E s t"
  shows "winds_down s t \<or> t = batch_tasks_shutdown s
    \<or> running s = 1 \<and> (\<exists>e. ev_type e = EVENT_FINISHED \<and> t = snd (run_state (batch_tasks_handle_event E e) s))"
proof -
  have "runs_ok s" using assms(1) by (simp add: ui_ok_def core_ok_def)
  then have s: "running s \<noteq> 0" "length (active_runs s) = BATCH_DIRECTORY_LIMIT" using assms(2) by (auto simp: runs_ok_def)
  note same = same_winds [OF assms(2) holds_after]
  from assms(3) show ?thesis
  proof cases
    case (by_window c)
    have "winds_down s t" if "c = RunTask" using cancel_winds [OF s] that by_window(1) by (simp add: window_call_def)
    moreover have "winds_down s t" if "c \<noteq> RunTask"
      unfolding by_window(1) by (rule same [OF holds_window [OF assms(2) s(1) that]])
    ultimately show ?thesis by blast
  next
    case by_resume
    have "holds (resume_queue E) s"
      unfolding resume_queue_def by (intro holds_gets holds_if holds_ret holds_drop holds_next s(1))
    then show ?thesis using same by_resume(1) by blast
  next
    case (by_answer q a)
    then show ?thesis using same [OF holds_answer [OF assms(2)]] by blast
  next
    case by_open
    then show ?thesis using same [OF holds_open] by blast
  next
    case (by_launch k)
    then show ?thesis using same [OF holds_launch [OF s(1)]] by blast
  next
    case (by_event e)
    then show ?thesis using event_winds [OF assms(2) s(2) _ s(1), of e E] by blast
  next
    case by_shutdown
    then show ?thesis by blast
  qed
qed

theorem cancelled_runs_only_end_witness:
  "let s = desk_busy True; t = snd (run_state (batch_tasks_launch desk 1) s) in
   winds_down s t \<or> t = batch_tasks_shutdown s
    \<or> running s = 1 \<and> (\<exists>e. ev_type e = EVENT_FINISHED \<and> t = snd (run_state (batch_tasks_handle_event desk e) s))"
proof -
  have "cancel_requested (desk_busy True)" by (simp add: desk_busy_def)
  then show ?thesis unfolding Let_def by (intro cancelled_runs_only_end [OF desk_busy_ok] by_launch)
qed

subsection \<open>Rows and their results\<close>

lemma move_cell_reinserts:
  assumes "i < length xs" and "j < length xs"
  shows "move_cell i j xs = insert_at j (xs ! i) (remove_at i xs)"
proof (rule nth_equalityI)
  show "length (move_cell i j xs) = length (insert_at j (xs ! i) (remove_at i xs))" using assms by simp
  fix k assume "k < length (move_cell i j xs)"
  then have k: "k < length xs" using assms by simp
  have ins: "insert_at j (xs ! i) (remove_at i xs) ! k = (if k < j then remove_at i xs ! k else if k = j then xs ! i else remove_at i xs ! (k - 1))"
    by (rule nth_insert_at) (use assms k in simp_all)
  show "move_cell i j xs ! k = insert_at j (xs ! i) (remove_at i xs) ! k"
    unfolding ins using assms k by (auto simp: move_cell_def nth_remove_at nth_move_down nth_move_up nth_list_update)
qed

definition row_cells :: "'w BatchUi \<Rightarrow> wstr list \<times> wstr list \<times> StepResult list" where
  "row_cells s = (directories (task_of s), commands (task_of s), results s)"

definition reinsert :: "nat \<Rightarrow> nat \<Rightarrow> 'a list \<Rightarrow> 'a list" where
  "reinsert i j xs = insert_at j (xs ! i) (remove_at i xs)"

definition two_rows :: BatchTask where
  "two_rows = zero_task\<lparr>bt_id := 1, bt_name := W ''n'', bt_command := W ''c'', directory_count := 2,
     directories := (directories zero_task)[0 := W ''a'', 1 := W ''b'']\<rparr>"

definition desk_idle :: "nat BatchUi" where
  \<comment> \<open>a task with two rows, nothing runs\<close>
  "desk_idle = (new_manager rest_session)\<lparr>loaded := True, collection := task_list [two_rows]\<rparr>"

lemma desk_idle_ok: "ui_ok desk_idle" and desk_idle_task: "task_of desk_idle = two_rows"
proof -
  let ?s = "new_manager rest_session"
  have s: "ui_ok ?s" by (rule new_manager_ok)
  have f: "collection desk_idle = task_list [two_rows]" "active_runs desk_idle = active_runs ?s" "running desk_idle = running ?s"
    "cancel_requested desk_idle = cancel_requested ?s" "loaded desk_idle" "results desk_idle = results ?s" "task_queue desk_idle = task_queue ?s"
    "bu_window desk_idle = bu_window ?s" "asking desk_idle = None" "selected_task desk_idle = 0"
    "selected_step desk_idle = selected_step ?s" "list_selection desk_idle = list_selection ?s"
    by (simp_all add: desk_idle_def) (simp_all add: new_manager_def Store.defs)
  have wf: "task_wf two_rows" by code_simp
  have list: "list_ok (task_list [two_rows])" "ids_ok (task_list [two_rows])" "btl_count (task_list [two_rows]) = 1"
    "btl_tasks (task_list [two_rows]) ! 0 = two_rows"
    using wf by (simp_all add: list_ok_def task_list_def ids_ok_def ids_def list_all_iff BATCH_TASK_LIMIT_def) (simp add: two_rows_def)
  show one: "task_of desk_idle = two_rows" by (simp add: task_of_def f list(4))
  have tasks: "tasks_ok desk_idle" using list by (simp add: tasks_ok_def f)
  have "rows ?s = []" by (simp add: rows_def live_def new_manager_def Store.defs idle_slot_def)
  then have r: "set (rows ?s) \<subseteq> {-1}" "rows ?s = []" by simp_all
  have "runs_ok ?s" using s by (simp add: ui_ok_def core_ok_def)
  note idle = free_rows_ok [OF this r(1) f(2-4) tasks]
  have "window_ok desk_idle" using s by (simp add: ui_ok_def core_ok_def window_ok_def f idle(2) r(2))
  then show "ui_ok desk_idle" using s tasks idle r(2) by (simp add: ui_ok_def core_ok_def selection_ok_def f)
qed



subsection \<open>The next task\<close>

definition slots_free :: "('w, 'y) batch_ui_env_scheme \<Rightarrow> bool" where
  \<comment> \<open>the system gives an event and a thread whenever it is asked for one\<close>
  "slots_free E \<longleftrightarrow> (\<forall>w. fst (create_event E w) \<and> fst (create_thread E w))"

lemma lift_free: "slots_free E \<Longrightarrow> \<exists>w. run_state (lift (create_event E)) s = (True, s\<lparr>world := w\<rparr>)"
  "slots_free E \<Longrightarrow> \<exists>w. run_state (lift (create_thread E)) s = (True, s\<lparr>world := w\<rparr>)"
  by (auto simp: slots_free_def lift_def split: prod.splits) (metis fst_conv)+

lemma prepare_shut: "\<not> bu_window s \<Longrightarrow> prepare_whole s = clear_results (\<lambda>_. True) (nat (directory_count (task_of s))) s"
  by (simp add: prepare_whole_def)

lemma begin_whole_runs:
  fixes s :: "'w BatchUi"
  assumes "slots_free E" and "running s = 0" and "0 \<le> directory_count t" and "free_slot s = Some k" and "\<not> bu_window s"
  shows "\<exists>v. run_state (begin_task E t (-1)) s = (True, v) \<and> running v = 1 \<and> task_queue v = task_queue s
     \<and> active_runs v = (active_runs s)[k := \<lparr>ar_worker = Some (run_context t (-1) k), ar_cancel = Some False, ar_row = -1,
          ar_cancelling = ar_cancelling (active_runs s ! k)\<rparr>]"
proof -
  obtain w where w: "run_state (lift (create_event E)) s = (True, s\<lparr>world := w\<rparr>)" using lift_free(1) [OF assms(1)] by blast
  define u where "u = prepare_whole (select_id (bt_id t) (s\<lparr>world := w\<rparr>))"
  have shut: "\<not> bu_window (select_id i x)" if "\<not> bu_window x" for i and x :: "'w BatchUi" using that by (simp add: select_id_def split: option.splits)
  have u: "active_runs u = active_runs s" "running u = 0" "task_queue u = task_queue s" "\<not> bu_window u"
    using assms(2,5) by (simp_all add: u_def prepare_shut shut clear_results_def select_id_def split: option.splits)
  obtain w' where w': "run_state (lift (create_thread E)) u = (True, u\<lparr>world := w'\<rparr>)" using lift_free(2) [OF assms(1)] by blast
  define v where "v = enter_run t (-1) k (u\<lparr>world := w'\<rparr>)"
  have "run_state (begin_task E t (-1)) s = (True, v)"
    using assms(2-4) w w' by (simp add: begin_task_def u_def v_def)
  moreover have "running v = 1" "task_queue v = task_queue s" "active_runs v = (active_runs s)[k := \<lparr>ar_worker = Some (run_context t (-1) k),
      ar_cancel = Some False, ar_row = -1, ar_cancelling = ar_cancelling (active_runs s ! k)\<rparr>]"
    using u by (simp_all add: v_def enter_run_def Let_def refresh_list_def)
  ultimately show ?thesis by blast
qed

lemma queue_state_ok:
  assumes "ui_ok s" and "rows s \<noteq> []" and "length (q_items q) = BATCH_TASK_LIMIT" and "0 \<le> q_count q" and "q_count q \<le> int BATCH_TASK_LIMIT"
  shows "ui_ok (s\<lparr>task_queue := q\<rparr>)"
proof -
  have f: "task_of (s\<lparr>task_queue := q\<rparr>) = task_of s" "has_tasks (s\<lparr>task_queue := q\<rparr>) = has_tasks s"
    by (simp_all add: task_of_def has_tasks_def)
  have "runs_ok (s\<lparr>task_queue := q\<rparr>)" "tasks_ok (s\<lparr>task_queue := q\<rparr>)" "window_ok (s\<lparr>task_queue := q\<rparr>)"
    using assms by (simp_all add: ui_ok_def core_ok_def runs_ok_def tasks_ok_def window_ok_def queue_fields f)
  then show ?thesis using assms(1,2) by (simp add: ui_ok_def core_ok_def queue_fields)
qed



end
