(* ===== verification/Terminal_View.thy ===== *)
theory Terminal_View
  imports Effects
begin

unbundle bit_operations_syntax

text \<open>
  \<open>src/src/ui/terminal_view.c\<close>: the SSH terminal. Libvterm interprets the bytes of the server and of the keyboard; the view
  keeps the lines that left the screen in a ring of \<open>HISTORY_LINES\<close>, the place the user scrolled back to, a selection, and
  pastes a text as one message. A call of libvterm is a parameter that gives the callbacks it makes (\<open>vterm_call\<close>) in their
  order and its next state; sending to the server, the clipboard and the size reported to the server change the outer world.
  Fonts, colours, painting, the caret and the scroll bar's picture are not modelled.
\<close>

definition HISTORY_LINES :: nat where "HISTORY_LINES = 1000"
definition MAX_COLUMNS :: int where "MAX_COLUMNS = 500"
definition VTERM_MAX_CHARS_PER_CELL :: nat where "VTERM_MAX_CHARS_PER_CELL = 6"

record Cell =                                \<comment> \<open>\<open>VTermScreenCell\<close>: the code points up to the first 0, and the width\<close>
  cell_chars :: "32 word list"
  cell_width :: int

definition empty_cell :: Cell where "empty_cell = \<lparr>cell_chars = [], cell_width = 0\<rparr>"

datatype vterm_call =                        \<comment> \<open>what libvterm calls back\<close>
    Output "byte list"
  | PushLine "Cell list"
  | ClearLines
  | CursorVisible bool                       \<comment> \<open>\<open>VTERM_PROP_CURSORVISIBLE\<close> and \<open>movecursor\<close>\<close>
  | AltScreen bool                           \<comment> \<open>\<open>VTERM_PROP_ALTSCREEN\<close>\<close>
  | OtherCall                                \<comment> \<open>damage and the other properties\<close>

datatype VTermKey = KEY_ENTER | KEY_TAB | KEY_BACKSPACE | KEY_ESCAPE | KEY_UP | KEY_DOWN | KEY_LEFT | KEY_RIGHT
  | KEY_INS | KEY_DEL | KEY_HOME | KEY_END | KEY_PAGEUP | KEY_PAGEDOWN | KEY_FUNCTION int

record modifiers =                           \<comment> \<open>\<open>GetKeyState\<close>\<close>
  mod_shift :: bool
  mod_ctrl :: bool
  mod_alt :: bool
  right_alt :: bool

record ('v, 'w) terminal_env =
  input_write :: "byte list \<Rightarrow> 'v \<Rightarrow> vterm_call list \<times> 'v"
  keyboard_key :: "VTermKey \<Rightarrow> modifiers \<Rightarrow> 'v \<Rightarrow> vterm_call list \<times> 'v"
  keyboard_unichar :: "int \<Rightarrow> bool \<Rightarrow> 'v \<Rightarrow> vterm_call list \<times> 'v"      \<comment> \<open>with Alt or without\<close>
  start_paste :: "'v \<Rightarrow> vterm_call list \<times> 'v"
  end_paste :: "'v \<Rightarrow> vterm_call list \<times> 'v"
  set_size :: "int \<Rightarrow> int \<Rightarrow> 'v \<Rightarrow> vterm_call list \<times> 'v"               \<comment> \<open>with the flush behind it\<close>
  screen_reset :: "'v \<Rightarrow> vterm_call list \<times> 'v"                          \<comment> \<open>with the flush behind it\<close>
  screen_cell :: "int \<Rightarrow> int \<Rightarrow> 'v \<Rightarrow> Cell option"                       \<comment> \<open>\<open>vterm_screen_get_cell\<close>\<close>
  send :: "byte list \<Rightarrow> 'w \<Rightarrow> bool \<times> 'w"
  resized :: "int \<Rightarrow> int \<Rightarrow> 'w \<Rightarrow> 'w"
  set_clipboard :: "wstr \<Rightarrow> 'w \<Rightarrow> 'w"
  clipboard :: "'w \<Rightarrow> wstr option"                                      \<comment> \<open>\<open>CF_UNICODETEXT\<close>, with what lies behind the NUL\<close>
  narrow :: "wstr \<Rightarrow> byte list option"                                   \<comment> \<open>\<open>WideCharToMultiByte\<close> to UTF-8, invalid texts refused\<close>

record ('v, 'w) TerminalView =
  vt :: 'v
  outer :: 'w
  cell_w :: int
  cell_h :: int
  columns :: int
  tv_rows :: int
  history :: "Cell list list"                \<comment> \<open>the ring; a \<open>HistoryLine\<close> is its cells\<close>
  head :: int
  lines_kept :: int                          \<comment> \<open>\<open>count\<close>\<close>
  offset :: int
  cursor :: bool
  alternate :: bool
  selecting :: bool
  selection :: bool
  input_enabled :: bool
  selection_start :: int
  selection_end :: int
  high_surrogate :: int
  paste_buffer :: "(byte list \<times> nat) option" \<comment> \<open>the array and \<open>paste_length\<close>; its length is the capacity\<close>

type_synonym ('v, 'w, 'a) view_cmd = "(('v, 'w) TerminalView, 'a) state"

definition send_bytes :: "('v, 'w) terminal_env \<Rightarrow> byte list \<Rightarrow> ('v, 'w) TerminalView \<Rightarrow> ('v, 'w) TerminalView" where
  \<comment> \<open>\<open>t->send\<close>; a refusal only beeps\<close>
  "send_bytes E data t = t\<lparr>outer := snd (send E data (outer t))\<rparr>"

subsection \<open>What libvterm calls back\<close>

definition terminal_output :: "('v, 'w) terminal_env \<Rightarrow> byte list \<Rightarrow> ('v, 'w) TerminalView \<Rightarrow> ('v, 'w) TerminalView" where
  "terminal_output E data t =
     (case paste_buffer t of
        Some (buffer, n) \<Rightarrow>
          if length data \<le> length buffer - n
          then t\<lparr>paste_buffer := Some (take n buffer @ data @ drop (n + length data) buffer, n + length data)\<rparr> else t
      | None \<Rightarrow> if input_enabled t then send_bytes E data t else t)"

definition history_push :: "Cell list \<Rightarrow> ('v, 'w) TerminalView \<Rightarrow> ('v, 'w) TerminalView" where
  "history_push cells t =
     (let index = nat ((head t + lines_kept t) mod int HISTORY_LINES);
          t = t\<lparr>history := (history t)[index := cells]\<rparr>;
          t = (if lines_kept t = int HISTORY_LINES then t\<lparr>head := (head t + 1) mod int HISTORY_LINES\<rparr>
               else t\<lparr>lines_kept := lines_kept t + 1\<rparr>);
          t = (if offset t \<noteq> 0 then t\<lparr>offset := min (lines_kept t) (offset t + 1)\<rparr> else t)
      in t\<lparr>selection := False\<rparr>)"

definition history_clear :: "('v, 'w) TerminalView \<Rightarrow> ('v, 'w) TerminalView" where
  "history_clear t = t\<lparr>history := map (\<lambda>_. []) (history t), lines_kept := 0, head := 0, offset := 0, selection := False\<rparr>"

definition view_call :: "('v, 'w) terminal_env \<Rightarrow> vterm_call \<Rightarrow> ('v, 'w) TerminalView \<Rightarrow> ('v, 'w) TerminalView" where
  "view_call E c t = (case c of
     Output data \<Rightarrow> terminal_output E data t
   | PushLine cells \<Rightarrow> history_push cells t
   | ClearLines \<Rightarrow> history_clear t
   | CursorVisible b \<Rightarrow> t\<lparr>cursor := b\<rparr>
   | AltScreen b \<Rightarrow> t\<lparr>alternate := b, offset := 0, selection := False\<rparr>
   | OtherCall \<Rightarrow> t)"

definition vterm :: "('v, 'w) terminal_env \<Rightarrow> ('v \<Rightarrow> vterm_call list \<times> 'v) \<Rightarrow> ('v, 'w) TerminalView \<Rightarrow> ('v, 'w) TerminalView" where
  \<comment> \<open>a call of libvterm and the callbacks it makes\<close>
  "vterm E f t = (case f (vt t) of (calls, v) \<Rightarrow> fold (view_call E) calls (t\<lparr>vt := v\<rparr>))"

subsection \<open>Cells and copying\<close>

definition terminal_cell :: "('v, 'w) terminal_env \<Rightarrow> ('v, 'w) TerminalView \<Rightarrow> int \<Rightarrow> int \<Rightarrow> Cell option" where
  "terminal_cell E t row column =
     (let line = lines_kept t - offset t + row in
      if line < lines_kept t
      then (let cells = history t ! nat ((head t + line) mod int HISTORY_LINES) in
            if column < int (length cells) then Some (cells ! nat column) else None)
      else screen_cell E (line - lines_kept t) column (vt t))"

fun utf16_chars :: "32 word list \<Rightarrow> wstr" where
  "utf16_chars [] = []"
| "utf16_chars (c # cs) =
     (if c = 0 \<or> c = - 1 then []
      else let c = (if c > 0x10ffff then 0xfffd else c) in
        if c > 0xffff
        then let c = c - 0x10000 in ucast (0xd800 + drop_bit 10 c) # ucast (0xdc00 + (c AND 1023)) # utf16_chars cs
        else ucast c # utf16_chars cs)"

definition utf16_cell :: "Cell \<Rightarrow> wstr" where
  "utf16_cell c = utf16_chars (take VTERM_MAX_CHARS_PER_CELL (cell_chars c))"

definition cell_text :: "Cell option \<Rightarrow> wstr" where
  \<comment> \<open>what one cell adds to a copied line: nothing for the second half of a wide one\<close>
  "cell_text c = (case c of
     None \<Rightarrow> [32]
   | Some c \<Rightarrow> if cell_chars c = [] \<or> hd (cell_chars c) = 0 then [32]
       else if hd (cell_chars c) \<noteq> - 1 then utf16_cell c else [])"

definition copy_ends :: "('v, 'w) TerminalView \<Rightarrow> int \<times> int" where
  "copy_ends t = (if selection t then (min (selection_start t) (selection_end t), max (selection_start t) (selection_end t))
     else (0, tv_rows t * columns t - 1))"

definition copy_row :: "('v, 'w) terminal_env \<Rightarrow> ('v, 'w) TerminalView \<Rightarrow> int \<Rightarrow> wstr" where
  \<comment> \<open>the cells of one row of the selection, before the blanks at its end are taken off\<close>
  "copy_row E t row =
     (case copy_ends t of (start, stop) \<Rightarrow>
        let first = (if row = start div columns t then start mod columns t else 0);
            final = (if row = stop div columns t then stop mod columns t else columns t - 1)
        in concat (map (\<lambda>col. cell_text (terminal_cell E t row col)) [first..final]))"

definition strip_blanks :: "wstr \<Rightarrow> wstr" where
  "strip_blanks s = rev (dropWhile (\<lambda>c. c = 32) (rev s))"

definition copy_text :: "('v, 'w) terminal_env \<Rightarrow> ('v, 'w) TerminalView \<Rightarrow> wstr" where
  "copy_text E t =
     (case copy_ends t of (start, stop) \<Rightarrow>
        concat (map (\<lambda>row. strip_blanks (copy_row E t row) @ (if row < stop div columns t then [13, 10] else []))
          [start div columns t..stop div columns t]))"

definition copy_capacity :: "('v, 'w) TerminalView \<Rightarrow> int" where
  \<comment> \<open>the wide characters that are allocated\<close>
  "copy_capacity t = tv_rows t * (columns t * int VTERM_MAX_CHARS_PER_CELL * 2 + 2) + 1"

definition terminal_copy :: "('v, 'w) terminal_env \<Rightarrow> ('v, 'w) TerminalView \<Rightarrow> ('v, 'w) TerminalView" where
  "terminal_copy E t = t\<lparr>outer := set_clipboard E (copy_text E t) (outer t)\<rparr>"

subsection \<open>Pasting\<close>

fun move_lines :: "byte list \<Rightarrow> nat \<Rightarrow> nat \<Rightarrow> nat \<Rightarrow> nat \<Rightarrow> byte list \<times> nat" where
  \<comment> \<open>the loop over the source from \<open>i\<close>, which writes the same array from \<open>prefix\<close> on; \<open>k\<close> rounds are left at most\<close>
  "move_lines bytes n i prefix 0 = (bytes, prefix)"
| "move_lines bytes n i prefix (Suc k) =
     (if i \<ge> n then (bytes, prefix)
      else let c = bytes ! (6 + i);
               i = (if c = 13 \<and> i + 1 < n \<and> bytes ! (6 + i + 1) = 10 then i + 1 else i)
           in move_lines (bytes[prefix := (if c = 10 then 13 else c)]) n (i + 1) (prefix + 1) k)"

definition terminal_paste_text :: "('v, 'w) terminal_env \<Rightarrow> wstr \<Rightarrow> ('v, 'w) TerminalView \<Rightarrow> ('v, 'w) TerminalView" where
  \<comment> \<open>what the allocated array holds before it is written does not matter; here zeros\<close>
  "terminal_paste_text E text t =
     (if length text > 8192 then t
      else case narrow E text of
        None \<Rightarrow> t
      | Some source \<Rightarrow>
          if source = [] \<or> length source > length text * 4 then t
          else let capacity = length text * 4 + 16;
              bytes = replicate 6 0 @ source @ replicate (capacity - 6 - length source) 0;
              t = vterm E (start_paste E) (t\<lparr>paste_buffer := Some (bytes, 0)\<rparr>);
              (bytes, prefix) = the (paste_buffer t);
              (bytes, prefix) = move_lines bytes (length source) 0 prefix (length source);
              t = vterm E (end_paste E) (t\<lparr>paste_buffer := Some (bytes, prefix)\<rparr>);
              (bytes, total) = the (paste_buffer t)
            in send_bytes E (take total bytes) (t\<lparr>paste_buffer := None\<rparr>))"

definition terminal_paste :: "('v, 'w) terminal_env \<Rightarrow> ('v, 'w) TerminalView \<Rightarrow> ('v, 'w) TerminalView" where
  \<comment> \<open>\<open>clipboard\<close> gives the whole block; a text without a NUL in it, or one over 8192 characters, only beeps\<close>
  "terminal_paste E t =
     (if \<not> input_enabled t then t
      else case clipboard E (outer t) of
        None \<Rightarrow> t
      | Some block \<Rightarrow>
          let n = length (takeWhile (\<lambda>c. c \<noteq> 0) (take 8193 block)) in
          if n < length block \<and> n \<le> 8192 then terminal_paste_text E (take n block) t else t)"

subsection \<open>Messages\<close>

definition c_quotient :: "int \<Rightarrow> int \<Rightarrow> int" where
  \<comment> \<open>the division of C by a positive number\<close>
  "c_quotient a b = (if a \<ge> 0 then a div b else - ((- a) div b))"

definition terminal_measure :: "('v, 'w) terminal_env \<Rightarrow> int \<Rightarrow> int \<Rightarrow> ('v, 'w) TerminalView \<Rightarrow> ('v, 'w) TerminalView" where
  \<comment> \<open>\<open>right\<close> and \<open>bottom\<close> of the client area\<close>
  "terminal_measure E right bottom t =
     (let cols = max 2 (min MAX_COLUMNS (c_quotient (right - 8) (cell_w t)));
          rws = max 2 (min 200 (c_quotient (bottom - 8) (cell_h t))) in
      if columns t = cols \<and> tv_rows t = rws then t
      else let t = vterm E (set_size E rws cols) (t\<lparr>columns := cols, tv_rows := rws, selection := False, offset := 0\<rparr>)
        in t\<lparr>outer := resized E cols rws (outer t)\<rparr>)"

definition key_code :: "int \<Rightarrow> VTermKey option" where
  "key_code key =
     (if 112 \<le> key \<and> key \<le> 135 then Some (KEY_FUNCTION (key - 112 + 1))
      else map_of [(13, KEY_ENTER), (9, KEY_TAB), (8, KEY_BACKSPACE), (27, KEY_ESCAPE), (38, KEY_UP), (40, KEY_DOWN), (37, KEY_LEFT),
        (39, KEY_RIGHT), (45, KEY_INS), (46, KEY_DEL), (36, KEY_HOME), (35, KEY_END), (33, KEY_PAGEUP), (34, KEY_PAGEDOWN)] key)"

definition control_char :: "int \<Rightarrow> int option" where
  \<comment> \<open>the key whose control code is sent: a letter, space, [ \ ] ^ and _\<close>
  "control_char key =
     (if 65 \<le> key \<and> key \<le> 90 then Some (key + 32)
      else map_of [(32, 32), (219, 91), (220, 92), (221, 93), (54, 94), (189, 95)] key)"

definition terminal_key :: "('v, 'w) terminal_env \<Rightarrow> modifiers \<Rightarrow> int \<Rightarrow> ('v, 'w) TerminalView \<Rightarrow> bool \<times> ('v, 'w) TerminalView" where
  \<comment> \<open>whether the key was taken\<close>
  "terminal_key E m key t =
     (if mod_ctrl m \<and> mod_shift m \<and> key = 67 then (True, terminal_copy E t)
      else if mod_ctrl m \<and> mod_shift m \<and> key = 86 \<or> key = 45 \<and> mod_shift m \<and> \<not> mod_ctrl m \<and> \<not> mod_alt m then (True, terminal_paste E t)
      else if \<not> input_enabled t then (True, t)
      else if mod_alt m \<and> \<not> mod_ctrl m \<and> \<not> mod_shift m \<and> (key = 115 \<or> key = 32) then (False, t)
      else case key_code key of
        Some code \<Rightarrow> (True, vterm E (keyboard_key E code m) (t\<lparr>offset := 0, selection := False\<rparr>))
      | None \<Rightarrow>
          (case if mod_ctrl m \<and> \<not> right_alt m then control_char key else None of
             Some c \<Rightarrow> (True, send_bytes E ((if mod_alt m then [27] else []) @ [of_int (c mod 32)]) t)
           | None \<Rightarrow> (False, t)))"

definition terminal_char :: "('v, 'w) terminal_env \<Rightarrow> modifiers \<Rightarrow> int \<Rightarrow> ('v, 'w) TerminalView \<Rightarrow> ('v, 'w) TerminalView" where
  \<comment> \<open>\<open>WM_CHAR\<close>: a pair of surrogates arrives as two messages\<close>
  "terminal_char E m c t =
     (if \<not> input_enabled t then t
      else if 0xd800 \<le> c \<and> c \<le> 0xdbff then t\<lparr>high_surrogate := c\<rparr>
      else let c = (if 0xdc00 \<le> c \<and> c \<le> 0xdfff
                    then (if high_surrogate t \<noteq> 0 then 0x10000 + (high_surrogate t - 0xd800) * 1024 + (c - 0xdc00) else 0xfffd) else c)
        in vterm E (keyboard_unichar E c (mod_alt m \<and> \<not> right_alt m)) (t\<lparr>high_surrogate := 0, offset := 0, selection := False\<rparr>))"

definition selection_position :: "('v, 'w) TerminalView \<Rightarrow> int \<Rightarrow> int \<Rightarrow> int" where
  "selection_position t x y = max 0 (min (tv_rows t - 1) (c_quotient (y - 4) (cell_h t))) * columns t
     + max 0 (min (columns t - 1) (c_quotient (x - 4) (cell_w t)))"

datatype scroll_code = SB_LINEUP | SB_LINEDOWN | SB_PAGEUP | SB_PAGEDOWN | SB_THUMBTRACK int | SB_TOP | SB_BOTTOM | SB_OTHER

definition scroll_offset :: "scroll_code \<Rightarrow> ('v, 'w) TerminalView \<Rightarrow> int" where
  "scroll_offset code t = (case code of
     SB_LINEUP \<Rightarrow> offset t + 1 | SB_LINEDOWN \<Rightarrow> offset t - 1 | SB_PAGEUP \<Rightarrow> offset t + tv_rows t | SB_PAGEDOWN \<Rightarrow> offset t - tv_rows t
   | SB_THUMBTRACK pos \<Rightarrow> lines_kept t - pos | SB_TOP \<Rightarrow> lines_kept t | SB_BOTTOM \<Rightarrow> 0 | SB_OTHER \<Rightarrow> offset t)"

datatype view_message =
    Sized int int                            \<comment> \<open>\<open>WM_SIZE\<close> with the client area\<close>
  | KeyDown modifiers int                    \<comment> \<open>\<open>WM_KEYDOWN\<close>, \<open>WM_SYSKEYDOWN\<close>\<close>
  | Char modifiers int
  | ButtonDown int int
  | MouseMove int int
  | ButtonUp                                 \<comment> \<open>and \<open>WM_CAPTURECHANGED\<close>\<close>
  | Wheel int
  | Scroll scroll_code
  | MenuCopy
  | MenuPaste
  | Feed "byte list"
  | Reset
  | EnableInput bool

definition terminal_view_feed :: "('v, 'w) terminal_env \<Rightarrow> byte list \<Rightarrow> ('v, 'w) TerminalView \<Rightarrow> ('v, 'w) TerminalView" where
  "terminal_view_feed E data = vterm E (input_write E data)"

definition terminal_view_reset :: "('v, 'w) terminal_env \<Rightarrow> ('v, 'w) TerminalView \<Rightarrow> ('v, 'w) TerminalView" where
  "terminal_view_reset E t = vterm E (screen_reset E) ((history_clear t)\<lparr>high_surrogate := 0\<rparr>)"

definition terminal_view_enable_input :: "bool \<Rightarrow> ('v, 'w) TerminalView \<Rightarrow> ('v, 'w) TerminalView" where
  "terminal_view_enable_input enabled t = t\<lparr>input_enabled := enabled\<rparr>"

definition terminal_wheel :: "int \<Rightarrow> ('v, 'w) TerminalView \<Rightarrow> ('v, 'w) TerminalView" where
  "terminal_wheel delta t =
     (if alternate t then t
      else t\<lparr>selection := False, offset := max 0 (min (lines_kept t) (offset t + c_quotient delta 120 * 3))\<rparr>)"

definition terminal_scroll :: "scroll_code \<Rightarrow> ('v, 'w) TerminalView \<Rightarrow> ('v, 'w) TerminalView" where
  "terminal_scroll code t = t\<lparr>offset := max 0 (min (lines_kept t) (scroll_offset code t))\<rparr>"

definition terminal_mouse :: "view_message \<Rightarrow> ('v, 'w) TerminalView \<Rightarrow> ('v, 'w) TerminalView" where
  "terminal_mouse m t = (case m of
     ButtonDown x y \<Rightarrow> (let p = selection_position t x y in t\<lparr>selection_start := p, selection_end := p, selecting := True, selection := False\<rparr>)
   | MouseMove x y \<Rightarrow> if selecting t then t\<lparr>selection_end := selection_position t x y, selection := True\<rparr> else t
   | ButtonUp \<Rightarrow> t\<lparr>selecting := False\<rparr>
   | _ \<Rightarrow> t)"

definition terminal_proc :: "('v, 'w) terminal_env \<Rightarrow> view_message \<Rightarrow> ('v, 'w) TerminalView \<Rightarrow> ('v, 'w) TerminalView" where
  "terminal_proc E m t = (case m of
     Sized right bottom \<Rightarrow> terminal_measure E right bottom t
   | KeyDown mods key \<Rightarrow> snd (terminal_key E mods key t)
   | Char mods c \<Rightarrow> terminal_char E mods c t
   | Wheel delta \<Rightarrow> terminal_wheel delta t
   | Scroll code \<Rightarrow> terminal_scroll code t
   | MenuCopy \<Rightarrow> terminal_copy E t
   | MenuPaste \<Rightarrow> terminal_paste E t
   | Feed data \<Rightarrow> terminal_view_feed E data t
   | Reset \<Rightarrow> terminal_view_reset E t
   | EnableInput b \<Rightarrow> terminal_view_enable_input b t
   | _ \<Rightarrow> terminal_mouse m t)"

definition terminal_view_create :: "'v \<Rightarrow> 'w \<Rightarrow> int \<Rightarrow> int \<Rightarrow> ('v, 'w) TerminalView" where
  \<comment> \<open>\<open>width\<close> and \<open>height\<close> of a character in the font\<close>
  "terminal_view_create v w width height = \<lparr>vt = v, outer = w, cell_w = max 1 width, cell_h = max 1 height, columns = 80, tv_rows = 24,
     history = replicate HISTORY_LINES [], head = 0, lines_kept = 0, offset = 0, cursor = True, alternate = False,
     selecting = False, selection = False, input_enabled = True, selection_start = 0, selection_end = 0, high_surrogate = 0,
     paste_buffer = None\<rparr>"

definition terminal_view_size :: "('v, 'w) TerminalView \<Rightarrow> int \<times> int" where
  "terminal_view_size t = (columns t, tv_rows t)"

end
