(* ===== verification/Terminal_Safety.thy ===== *)
theory Terminal_Safety
  imports Terminal_View
begin

text \<open>
  What the SSH terminal guarantees: the ring holds the last lines that left the screen, a view that is scrolled back does
  not move while the server writes, nothing is sent while the input is disabled, a paste is one message with its line
  ends made carriage returns, and copying a selection inside the grid stays inside its buffer.
\<close>

subsection \<open>The ring\<close>

abbreviation N :: int where "N \<equiv> int HISTORY_LINES"

definition ring_ok :: "('v, 'w) TerminalView \<Rightarrow> bool" where
  "ring_ok t \<longleftrightarrow> length (history t) = HISTORY_LINES \<and> 0 \<le> head t \<and> head t < N \<and> 0 \<le> lines_kept t \<and> lines_kept t \<le> N
     \<and> 0 \<le> offset t \<and> offset t \<le> lines_kept t"

definition kept_line :: "('v, 'w) TerminalView \<Rightarrow> int \<Rightarrow> Cell list" where
  "kept_line t i = history t ! nat ((head t + i) mod N)"

definition kept :: "('v, 'w) TerminalView \<Rightarrow> Cell list list" where
  \<comment> \<open>the lines of the ring, oldest first\<close>
  "kept t = map (kept_line t) [0..lines_kept t - 1]"

lemma length_kept [simp]: "length (kept t) = nat (lines_kept t)"
  by (simp add: kept_def)

lemma nth_kept: "0 \<le> i \<Longrightarrow> i < lines_kept t \<Longrightarrow> kept t ! nat i = kept_line t i"
  by (simp add: kept_def nth_upto)

lemma N_pos [simp]: "0 < N" by (simp add: HISTORY_LINES_def)

lemma ring_index:
  assumes "0 \<le> h" "h < N" "0 \<le> i" "i < N"
  shows "(h + i) mod N = (if h + i < N then h + i else h + i - N)"
proof (cases "h + i < N")
  case False
  have "(h + i) mod N = (h + i - N) mod N" using mod_add_self2 [of "h + i - N" N] by (simp only: diff_add_cancel)
  moreover have "(h + i - N) mod N = h + i - N" by (rule mod_pos_pos_trivial) (use False assms in simp_all)
  ultimately show ?thesis using False by (simp only: if_False)
qed (use assms in simp)

lemma kept_push:
  assumes "ring_ok t"
  shows "ring_ok (history_push c t)"
    "kept (history_push c t) = (if lines_kept t = N then tl (kept t) else kept t) @ [c]"
proof -
  have t: "length (history t) = HISTORY_LINES" "0 \<le> head t" "head t < N" "0 \<le> lines_kept t" "lines_kept t \<le> N"
    "0 \<le> offset t" "offset t \<le> lines_kept t"
    using assms by (simp_all add: ring_ok_def)
  let ?u = "history_push c t" and ?i = "nat ((head t + lines_kept t) mod N)"
  have i: "?i < HISTORY_LINES" using N_pos by (simp add: nat_less_iff)
  have u: "history ?u = (history t)[?i := c]"
    "head ?u = (if lines_kept t = N then (head t + 1) mod N else head t)"
    "lines_kept ?u = (if lines_kept t = N then N else lines_kept t + 1)"
    "offset ?u = (if offset t \<noteq> 0 then min (lines_kept ?u) (offset t + 1) else 0)"
    by (simp_all add: history_push_def Let_def)
  show ring: "ring_ok ?u" using t by (auto simp: ring_ok_def u)
  have full: "(head t + N) mod N = head t" using t(2,3) by simp
  show "kept ?u = (if lines_kept t = N then tl (kept t) else kept t) @ [c]"
  proof (rule nth_equalityI)
    show len: "length (kept ?u) = length ((if lines_kept t = N then tl (kept t) else kept t) @ [c])"
      using t(4) by (auto simp: u HISTORY_LINES_def nat_add_distrib)
    fix j assume "j < length (kept ?u)"
    then have j: "int j < lines_kept ?u" by simp
    have "kept ?u ! nat (int j) = kept_line ?u (int j)" by (rule nth_kept) (use j in simp_all)
    then have l: "kept ?u ! j = (history t)[?i := c] ! nat ((head ?u + int j) mod N)" by (simp add: kept_line_def u(1))
    show "kept ?u ! j = ((if lines_kept t = N then tl (kept t) else kept t) @ [c]) ! j"
    proof (cases "lines_kept t = N")
      case True
      then have jN: "int j < N" using j by (simp add: u)
      have shift: "(head ?u + int j) mod N = (head t + (1 + int j)) mod N"
        using True by (simp add: u mod_simps add.assoc)
      show ?thesis
      proof (cases "int j = N - 1")
        case True': True
        then have "(head t + (1 + int j)) mod N = head t" using full by simp
        moreover have "?i = nat (head t)" using True full by simp
        ultimately have "kept ?u ! j = c" using i t(1) unfolding l shift by simp
        moreover have "j = length (tl (kept t))" using True True' by simp
        moreover have "(tl (kept t) @ [c]) ! length (tl (kept t)) = c" by (rule nth_append_length)
        ultimately show ?thesis using True by (simp only: if_True simp_thms)
      next
        case False
        then have k: "1 + int j < N" using jN by simp
        have "(head t + (1 + int j)) mod N \<noteq> head t"
          using ring_index [of "head t" "1 + int j"] t(2,3) k by auto
        then have "?i \<noteq> nat ((head t + (1 + int j)) mod N)"
          using True full t(2) by (metis N_pos eq_nat_nat_iff pos_mod_sign)
        then have "kept ?u ! j = kept_line t (1 + int j)" by (simp add: l shift kept_line_def)
        also have "\<dots> = kept t ! Suc j" using nth_kept [of "1 + int j" t] k True by (simp add: nat_add_distrib)
        also have "\<dots> = tl (kept t) ! j" using k True by (simp add: nth_tl)
        finally have "kept ?u ! j = tl (kept t) ! j" .
        moreover have "j < length (tl (kept t))" using k True by simp
        ultimately show ?thesis using True by (simp add: nth_append)
      qed
    next
      case False
      then have m: "lines_kept t < N" "int j \<le> lines_kept t" using j t(5) by (simp_all add: u)
      have head: "head ?u = head t" using False by (simp add: u)
      show ?thesis
      proof (cases "int j = lines_kept t")
        case True
        then have "kept ?u ! j = c" using i t(1) unfolding l head by simp
        moreover have "j = length (kept t)" using True by simp
        moreover have "(kept t @ [c]) ! length (kept t) = c" by (rule nth_append_length)
        ultimately show ?thesis using False by (simp only: if_False)
      next
        case False': False
        then have k: "int j < lines_kept t" using m by simp
        have "(head t + int j) mod N \<noteq> (head t + lines_kept t) mod N"
          using ring_index [of "head t" "int j"] ring_index [of "head t" "lines_kept t"] t(2,3) k m by auto
        then have "?i \<noteq> nat ((head t + int j) mod N)" by (metis N_pos eq_nat_nat_iff pos_mod_sign)
        then have "kept ?u ! j = kept_line t (int j)" by (simp add: l head kept_line_def)
        also have "\<dots> = kept t ! j" using nth_kept [of "int j" t] k by simp
        finally show ?thesis using False k by (simp add: nth_append zless_nat_eq_int_zless)
      qed
    qed
  qed
qed

lemma kept_clear: "ring_ok t \<Longrightarrow> ring_ok (history_clear t)" "kept (history_clear t) = []"
  by (simp_all add: ring_ok_def history_clear_def kept_def)

lemma kept_same: "history u = history t \<Longrightarrow> head u = head t \<Longrightarrow> lines_kept u = lines_kept t \<Longrightarrow> kept u = kept t"
  by (simp add: kept_def kept_line_def)

subsection \<open>The last lines\<close>

definition last_lines :: "'a list \<Rightarrow> 'a list" where
  "last_lines xs = drop (length xs - HISTORY_LINES) xs"

definition lines_after :: "vterm_call list \<Rightarrow> Cell list list \<Rightarrow> Cell list list" where
  \<comment> \<open>an unbounded history: what is pushed is appended, clearing empties it\<close>
  "lines_after calls ls = fold (\<lambda>c ls. case c of PushLine x \<Rightarrow> ls @ [x] | ClearLines \<Rightarrow> [] | _ \<Rightarrow> ls) calls ls"

lemma last_lines_append: "last_lines (last_lines xs @ [x]) = last_lines (xs @ [x])"
proof (cases "length xs < HISTORY_LINES")
  case False
  define k where "k = length xs - HISTORY_LINES"
  have "length xs = k + HISTORY_LINES" "0 < HISTORY_LINES" using False by (simp_all add: k_def HISTORY_LINES_def)
  then show ?thesis by (simp add: last_lines_def Suc_diff_le)
qed (simp add: last_lines_def)

lemma last_lines_after: "last_lines (lines_after calls (last_lines ls)) = last_lines (lines_after calls ls)"
proof (induction calls rule: rev_induct)
  case (snoc c calls)
  have step: "lines_after (calls @ [c]) l = (case c of PushLine x \<Rightarrow> lines_after calls l @ [x] | ClearLines \<Rightarrow> [] | _ \<Rightarrow> lines_after calls l)" for l
    by (cases c) (simp_all add: lines_after_def)
  have push: "last_lines (lines_after calls (last_lines ls) @ [x]) = last_lines (lines_after calls ls @ [x])" for x
    using last_lines_append snoc by metis
  show ?case unfolding step using snoc push by (cases c) simp_all
qed (simp add: lines_after_def last_lines_def)

lemma kept_call:
  assumes "ring_ok t"
  shows "ring_ok (view_call E c t)" "kept (view_call E c t) = last_lines (lines_after [c] (kept t))"
proof -
  have short: "length (kept t) \<le> HISTORY_LINES" using assms by (simp add: ring_ok_def nat_le_iff)
  then have same: "last_lines (kept t) = kept t" by (simp add: last_lines_def)
  have out: "ring_ok (terminal_output E d t)" "kept (terminal_output E d t) = kept t" for d
    using assms by (auto simp: terminal_output_def send_bytes_def ring_ok_def kept_def kept_line_def split: option.splits prod.splits)
  have push: "last_lines (kept t @ [x]) = (if lines_kept t = N then tl (kept t) else kept t) @ [x]" for x
  proof (cases "lines_kept t = N")
    case True
    then have "length (kept t) = HISTORY_LINES" "kept t \<noteq> []" using N_pos by (auto simp: HISTORY_LINES_def kept_def)
    moreover have "Suc 0 - HISTORY_LINES = 0" by (simp add: HISTORY_LINES_def)
    ultimately show ?thesis using True by (simp add: last_lines_def drop_Suc)
  next
    case False
    then have "length (kept t) < HISTORY_LINES" using assms by (simp add: ring_ok_def nat_less_iff)
    then show ?thesis using False by (simp add: last_lines_def)
  qed
  show "ring_ok (view_call E c t)"
    using assms out kept_push(1) [OF assms] kept_clear(1) [OF assms] by (cases c) (auto simp: view_call_def ring_ok_def)
  show "kept (view_call E c t) = last_lines (lines_after [c] (kept t))"
    using out kept_push(2) [OF assms] kept_clear(2) [of t] push same
    by (cases c) (auto simp: view_call_def lines_after_def last_lines_def kept_def kept_line_def)
qed

lemma kept_calls:
  assumes "ring_ok t"
  shows "ring_ok (fold (view_call E) calls t) \<and> kept (fold (view_call E) calls t) = last_lines (lines_after calls (kept t))"
  using assms
proof (induction calls arbitrary: t)
  case Nil
  then have "length (kept t) \<le> HISTORY_LINES" by (simp add: ring_ok_def nat_le_iff)
  then show ?case using Nil by (simp add: lines_after_def last_lines_def)
next
  case (Cons c calls)
  note one = kept_call [OF Cons.prems, of E c]
  have "lines_after (c # calls) l = lines_after calls (lines_after [c] l)" for l by (simp add: lines_after_def)
  then show ?case using Cons.IH [OF one(1)] one(2) last_lines_after [of calls "lines_after [c] (kept t)"] by simp
qed

lemma vterm_ring:
  assumes "ring_ok t"
  shows "ring_ok (vterm E f t)" "kept (vterm E f t) = last_lines (lines_after (fst (f (vt t))) (kept t))"
proof -
  obtain calls v where f: "f (vt t) = (calls, v)" by (cases "f (vt t)")
  have "ring_ok (t\<lparr>vt := v\<rparr>)" "kept (t\<lparr>vt := v\<rparr>) = kept t" using assms by (simp_all add: ring_ok_def kept_def kept_line_def)
  then show "ring_ok (vterm E f t)" "kept (vterm E f t) = last_lines (lines_after (fst (f (vt t))) (kept t))"
    using kept_calls [of "t\<lparr>vt := v\<rparr>" E calls] by (simp_all add: vterm_def f)
qed

subsection \<open>A view that is scrolled back\<close>

lemma cell_of_line:
  assumes "row < offset t"
  shows "terminal_cell E t row col = (let cells = kept_line t (lines_kept t - offset t + row) in
     if col < int (length cells) then Some (cells ! nat col) else None)"
  using assms by (simp add: terminal_cell_def kept_line_def Let_def)

definition pushes :: "vterm_call list \<Rightarrow> nat" where
  "pushes calls = length (filter (\<lambda>c. \<exists>x. c = PushLine x) calls)"

lemma push_stays:
  assumes "ring_ok t" and "0 < offset t" and "offset t < N" and "0 \<le> row" and "row < offset t"
  shows "offset (history_push c t) = offset t + 1" "terminal_cell E (history_push c t) row col = terminal_cell E t row col"
proof -
  let ?u = "history_push c t"
  have t: "0 \<le> lines_kept t" "lines_kept t \<le> N" "offset t \<le> lines_kept t" using assms(1) by (simp_all add: ring_ok_def)
  have u: "lines_kept ?u = (if lines_kept t = N then N else lines_kept t + 1)"
    "offset ?u = min (lines_kept ?u) (offset t + 1)"
    using assms(2) by (simp_all add: history_push_def Let_def)
  then show o: "offset ?u = offset t + 1" using t assms(3) by (simp split: if_splits)
  let ?i = "lines_kept t - offset t + row" and ?j = "lines_kept ?u - offset ?u + row"
  have i: "0 \<le> ?i" "?i < lines_kept t" using t assms(4,5) by simp_all
  have j: "0 \<le> ?j" "?j < lines_kept ?u" using t assms(3-5) by (simp_all add: u(1) o)
  have "kept ?u ! nat ?j = kept t ! nat ?i"
  proof (cases "lines_kept t = N")
    case True
    then have "nat ?j < length (tl (kept t))" using i j o u(1) by (simp add: nat_less_iff HISTORY_LINES_def)
    moreover have "Suc (nat ?j) = nat ?i" using True o u(1) j by simp
    ultimately show ?thesis using kept_push(2) [OF assms(1), of c] True by (simp add: nth_append nth_tl)
  next
    case False
    then have "?j = ?i" using o u(1) by simp
    then show ?thesis using kept_push(2) [OF assms(1), of c] False i by (simp add: nth_append)
  qed
  then have "kept_line ?u ?j = kept_line t ?i" using nth_kept [OF i] nth_kept [OF j] by simp
  moreover have "row < offset ?u" using assms(5) o by simp
  ultimately show "terminal_cell E ?u row col = terminal_cell E t row col"
    using cell_of_line [OF assms(5)] cell_of_line [of row ?u] by simp
qed

lemma output_fields: "history (terminal_output E d t) = history t" "head (terminal_output E d t) = head t"
  "lines_kept (terminal_output E d t) = lines_kept t" "offset (terminal_output E d t) = offset t" "vt (terminal_output E d t) = vt t"
  by (simp_all add: terminal_output_def send_bytes_def split: option.split prod.split)

lemma output_stays: "terminal_cell E (terminal_output E d t) row col = terminal_cell E t row col"
  by (simp only: terminal_cell_def output_fields)

lemma calls_stay:
  assumes "ring_ok t" and "0 < offset t" and "offset t + int (pushes calls) \<le> N" and "0 \<le> row" and "row < offset t"
    and "\<forall>c \<in> set calls. c \<noteq> ClearLines \<and> (\<forall>b. c \<noteq> AltScreen b)"
  shows "terminal_cell E (fold (view_call E) calls t) row col = terminal_cell E t row col
     \<and> offset (fold (view_call E) calls t) = offset t + int (pushes calls)"
  using assms
proof (induction calls arbitrary: t)
  case (Cons c calls)
  let ?u = "view_call E c t"
  have ring: "ring_ok ?u" by (rule kept_call [OF Cons.prems(1)])
  have one: "terminal_cell E ?u row col = terminal_cell E t row col \<and> offset ?u = offset t + int (pushes [c])"
  proof (cases c)
    case (PushLine x)
    then have "offset t < N" using Cons.prems(3) by (simp add: pushes_def)
    then show ?thesis using push_stays [OF Cons.prems(1,2) _ Cons.prems(4,5)] PushLine by (simp add: view_call_def pushes_def)
  next
    case (Output d)
    then show ?thesis by (simp add: view_call_def pushes_def output_stays output_fields)
  qed (use Cons.prems(6) in \<open>simp_all add: view_call_def pushes_def, simp_all add: terminal_cell_def Let_def\<close>)
  have p: "pushes (c # calls) = pushes [c] + pushes calls" by (simp add: pushes_def)
  have "terminal_cell E (fold (view_call E) calls ?u) row col = terminal_cell E ?u row col
     \<and> offset (fold (view_call E) calls ?u) = offset ?u + int (pushes calls)"
    by (rule Cons.IH [OF ring]) (use one p Cons.prems in auto)
  then show ?case using one p by simp
qed (simp add: pushes_def)

text \<open>While the view is scrolled back, what it shows of the history stays where it is as the server writes: after
  any bytes that push lines but neither clear the history nor switch the screen, as long as the ring has room behind the
  place that is shown, every cell of the rows that show history is the one it was.\<close>
theorem scrolled_view_stays:
  assumes "ring_ok t" and "0 < offset t" and "input_write E data (vt t) = (calls, v)"
    and "offset t + int (pushes calls) \<le> int HISTORY_LINES"
    and "\<forall>c \<in> set calls. c \<noteq> ClearLines \<and> (\<forall>b. c \<noteq> AltScreen b)" and "0 \<le> row" and "row < offset t"
  shows "terminal_cell E (terminal_view_feed E data t) row col = terminal_cell E t row col"
proof -
  let ?t = "t\<lparr>vt := v\<rparr>"
  have "ring_ok ?t" using assms(1) by (simp add: ring_ok_def)
  then have "terminal_cell E (fold (view_call E) calls ?t) row col = terminal_cell E ?t row col"
    using calls_stay [of ?t calls row E col] assms by simp
  moreover have "terminal_cell E ?t row col = terminal_cell E t row col"
    using cell_of_line [of row t] cell_of_line [of row ?t] assms(7) by (simp add: kept_line_def)
  ultimately show ?thesis by (simp add: terminal_view_feed_def vterm_def assms(3))
qed

theorem scrolled_view_stays_witness:
  defines "t \<equiv> (terminal_view_create () () 8 16)\<lparr>lines_kept := 2, offset := 1\<rparr>"
    and "E \<equiv> \<lparr>input_write = \<lambda>d v. ([PushLine [empty_cell]], v), keyboard_key = \<lambda>k m v. ([], v), keyboard_unichar = \<lambda>c a v. ([], v),
       start_paste = \<lambda>v. ([], v), end_paste = \<lambda>v. ([], v), set_size = \<lambda>r c v. ([], v), screen_reset = \<lambda>v. ([], v),
       screen_cell = \<lambda>r c v. None, send = \<lambda>d w. (True, w), resized = \<lambda>c r w. w, set_clipboard = \<lambda>s w. w, clipboard = \<lambda>w. None,
       narrow = \<lambda>s. None\<rparr>"
  shows "terminal_cell E (terminal_view_feed E [10] t) 0 0 = terminal_cell E t 0 0"
proof -
  have "ring_ok t" "0 < offset t" "(0 :: int) < offset t" "offset t + int (pushes [PushLine [empty_cell]]) \<le> int HISTORY_LINES"
    by (simp_all add: t_def terminal_view_create_def ring_ok_def HISTORY_LINES_def pushes_def)
  moreover have "input_write E [10] (vt t) = ([PushLine [empty_cell]], ())" by (simp add: E_def)
  ultimately show ?thesis by (intro scrolled_view_stays [where calls = "[PushLine [empty_cell]]" and v = "()"]) simp_all
qed

subsection \<open>Disabled input\<close>

lemma cell_send: "terminal_cell (E\<lparr>send := f\<rparr>) = terminal_cell E"
  by (intro ext) (simp add: terminal_cell_def Let_def)

lemma copy_send: "terminal_copy (E\<lparr>send := f\<rparr>) t = terminal_copy E t"
  by (simp add: terminal_copy_def copy_text_def copy_row_def cell_send)

lemma call_disabled:
  assumes "\<not> input_enabled t"
  shows "view_call (E\<lparr>send := f\<rparr>) c t = view_call E c t" "\<not> input_enabled (view_call E c t)"
proof -
  show "view_call (E\<lparr>send := f\<rparr>) c t = view_call E c t"
    using assms by (cases c) (simp_all add: view_call_def terminal_output_def split: option.split)
  have out: "input_enabled (terminal_output E d t) = input_enabled t" for d
    by (simp add: terminal_output_def send_bytes_def split: option.split prod.split)
  show "\<not> input_enabled (view_call E c t)"
    using assms by (cases c) (simp_all add: view_call_def out history_push_def history_clear_def Let_def)
qed

lemma vterm_disabled: "\<not> input_enabled t \<Longrightarrow> vterm (E\<lparr>send := f\<rparr>) g t = vterm E g t"
proof -
  have "fold (view_call (E\<lparr>send := f\<rparr>)) calls u = fold (view_call E) calls u" if "\<not> input_enabled u" for calls u
    using that by (induction calls arbitrary: u) (simp_all add: call_disabled)
  then show "\<not> input_enabled t \<Longrightarrow> vterm (E\<lparr>send := f\<rparr>) g t = vterm E g t" by (simp add: vterm_def split: prod.split)
qed

text \<open>C36 (safety): While its input is disabled the terminal sends nothing to the server: whatever message arrives - a key, a
  character, a paste, bytes of the server that ask for an answer, a new size - the result does not depend on the function
  that sends.\<close>
theorem disabled_input_sends_nothing:
  assumes "\<not> input_enabled t"
  shows "terminal_proc (E\<lparr>send := f\<rparr>) m t = terminal_proc E m t"
proof (cases m)
  case (Sized right bottom)
  then show ?thesis using assms by (simp add: terminal_proc_def terminal_measure_def vterm_disabled Let_def)
next
  case (Reset)
  then show ?thesis using assms by (simp add: terminal_proc_def terminal_view_reset_def vterm_disabled history_clear_def)
qed (use assms in \<open>simp_all add: terminal_proc_def terminal_key_def terminal_char_def copy_send terminal_paste_def
      terminal_view_feed_def vterm_disabled terminal_mouse_def\<close>)

theorem disabled_input_sends_nothing_witness:
  defines "t \<equiv> terminal_view_enable_input False (terminal_view_create () [] 8 16)"
    and "E \<equiv> \<lparr>input_write = \<lambda>d v. ([Output d], v), keyboard_key = \<lambda>k m v. ([Output [13]], v), keyboard_unichar = \<lambda>c a v. ([Output [65]], v),
       start_paste = \<lambda>v. ([], v), end_paste = \<lambda>v. ([], v), set_size = \<lambda>r c v. ([], v), screen_reset = \<lambda>v. ([], v),
       screen_cell = \<lambda>r c v. None, send = \<lambda>d w. (True, w), resized = \<lambda>c r w. w, set_clipboard = \<lambda>s w. w, clipboard = \<lambda>w. None,
       narrow = \<lambda>s. None\<rparr>"
  shows "terminal_proc (E\<lparr>send := \<lambda>d w. (True, w @ [d])\<rparr>) (Feed [5]) t = terminal_proc E (Feed [5]) t"
  by (rule disabled_input_sends_nothing) (simp add: t_def terminal_view_enable_input_def)

subsection \<open>Pasting\<close>

fun normalise :: "byte list \<Rightarrow> byte list" where
  \<comment> \<open>a line end of either form becomes a carriage return\<close>
  "normalise [] = []"
| "normalise (c # cs) = (if c = 13 \<and> cs \<noteq> [] \<and> hd cs = 10 then 13 # normalise (tl cs) else (if c = 10 then 13 else c) # normalise cs)"

definition unread :: "byte list \<Rightarrow> nat \<Rightarrow> nat \<Rightarrow> byte list" where
  "unread bytes n i = map (\<lambda>j. bytes ! (6 + j)) [i..<n]"

lemma unread_Cons: "i < n \<Longrightarrow> unread bytes n i = bytes ! (6 + i) # unread bytes n (Suc i)"
  by (simp add: unread_def upt_conv_Cons)

lemma unread_update: "prefix < 6 + i \<Longrightarrow> unread (bytes[prefix := c]) n i = unread bytes n i"
  by (auto simp: unread_def nth_list_update)

lemma move_lines_normalises:
  assumes "prefix \<le> 6 + i" and "n \<le> i + k" and "6 + n \<le> length bytes"
  shows "case move_lines bytes n i prefix k of (bs, p) \<Rightarrow> length bs = length bytes \<and> p = prefix + length (normalise (unread bytes n i))
     \<and> take p bs = take prefix bytes @ normalise (unread bytes n i)"
  using assms
proof (induction k arbitrary: bytes i prefix)
  case 0
  then show ?case by (simp add: unread_def)
next
  case (Suc k)
  show ?case
  proof (cases "i < n")
    case False
    then show ?thesis by (simp add: unread_def)
  next
    case True
    let ?c = "bytes ! (6 + i)"
    let ?pair = "?c = 13 \<and> i + 1 < n \<and> bytes ! (6 + i + 1) = 10"
    define i' where "i' = (if ?pair then i + 1 else i)"
    define bs where "bs = bytes[prefix := (if ?c = 10 then 13 else ?c)]"
    have i': "i \<le> i'" by (simp add: i'_def)
    have p: "prefix < length bytes" using Suc.prems(1,3) True by simp
    have step: "move_lines bytes n i prefix (Suc k) = move_lines bs n (i' + 1) (prefix + 1) k"
      using True by (simp add: i'_def bs_def Let_def)
    have rest: "unread bs n (i' + 1) = unread bytes n (i' + 1)"
      unfolding bs_def by (rule unread_update) (use Suc.prems(1) i' in simp)
    have norm: "normalise (unread bytes n i) = (if ?c = 10 then 13 else ?c) # normalise (unread bytes n (i' + 1))"
    proof (cases ?pair)
      case True': True
      then have "unread bytes n i = 13 # 10 # unread bytes n (i' + 1)"
        using unread_Cons [OF True, of bytes] unread_Cons [of "Suc i" n bytes] by (simp add: i'_def)
      then show ?thesis using True' by simp
    next
      case False
      have "unread bytes n (Suc i) = [] \<or> i + 1 < n \<and> hd (unread bytes n (Suc i)) = bytes ! (6 + i + 1)"
        using unread_Cons [of "Suc i" n bytes] by (cases "Suc i < n") (simp_all add: unread_def)
      then have no: "\<not> (?c = 13 \<and> unread bytes n (Suc i) \<noteq> [] \<and> hd (unread bytes n (Suc i)) = 10)" using False by auto
      have "i' + 1 = Suc i" using False by (simp only: i'_def if_False Suc_eq_plus1)
      then show ?thesis unfolding unread_Cons [OF True, of bytes] normalise.simps if_not_P [OF no] by (simp only:)
    qed
    have "take (Suc prefix) bs = take prefix bytes @ [if ?c = 10 then 13 else ?c]"
      using p by (simp add: bs_def take_Suc_conv_app_nth)
    moreover have "case move_lines bs n (i' + 1) (prefix + 1) k of (cs, q) \<Rightarrow> length cs = length bs
       \<and> q = prefix + 1 + length (normalise (unread bs n (i' + 1))) \<and> take q cs = take (prefix + 1) bs @ normalise (unread bs n (i' + 1))"
      by (rule Suc.IH) (use Suc.prems i' in \<open>simp_all add: bs_def\<close>)
    ultimately show ?thesis unfolding step rest norm by (auto simp: bs_def split: prod.splits)
  qed
qed

lemma output_collects:
  assumes "paste_buffer t = Some (b, n)" and "n + length (concat ds) \<le> length b"
  shows "fold (view_call E) (map Output ds) t = t\<lparr>paste_buffer := Some (take n b @ concat ds @ drop (n + length (concat ds)) b, n + length (concat ds))\<rparr>"
  using assms
proof (induction ds arbitrary: t b n)
  case Nil
  then show ?case by (cases t) simp
next
  case (Cons d ds)
  let ?b = "take n b @ d @ drop (n + length d) b" and ?u = "t\<lparr>paste_buffer := Some (take n b @ d @ drop (n + length d) b, n + length d)\<rparr>"
  have one: "view_call E (Output d) t = ?u" using Cons.prems by (simp add: view_call_def terminal_output_def)
  have "fold (view_call E) (map Output ds) ?u = ?u\<lparr>paste_buffer := Some (take (n + length d) ?b @ concat ds @ drop (n + length d + length (concat ds)) ?b,
      n + length d + length (concat ds))\<rparr>"
    by (rule Cons.IH) (use Cons.prems in auto)
  moreover have "take (n + length d) ?b = take n b @ d" using Cons.prems by simp
  moreover have "drop (n + length d + length (concat ds)) ?b = drop (n + length d + length (concat ds)) b"
    using Cons.prems by (simp add: ac_simps)
  ultimately show ?case using one by (simp add: ac_simps)
qed

text \<open>C37 (functional): Pasting a text sends exactly one message: the start marker, the text in UTF-8 with every line end made one
  carriage return, and the end marker - however the conversion in place inside the allocated array overlaps - and leaves the
  rest of the terminal as it was. The markers are what libvterm writes for a bracketed paste, at most six bytes each.\<close>
theorem paste_is_one_message:
  assumes "length text \<le> 8192" and "narrow E text = Some source" and "source \<noteq> []" and "length source \<le> 4 * length text"
    and "start_paste E (vt t) = (map Output ds, v)" and "length (concat ds) \<le> 6"
    and "end_paste E v = (map Output es, v')" and "length (concat es) \<le> 6"
  shows "terminal_paste_text E text t =
    t\<lparr>vt := v', outer := snd (send E (concat ds @ normalise source @ concat es) (outer t)), paste_buffer := None\<rparr>"
proof -
  let ?cap = "length text * 4 + 16" and ?n = "length source"
  define b where "b = replicate 6 0 @ source @ replicate (?cap - 6 - ?n) 0"
  have b: "length b = ?cap" using assms(4) by (simp add: b_def)
  let ?a = "concat ds"
  define b1 where "b1 = ?a @ drop (length ?a) b"
  have b1: "length b1 = ?cap" using assms(6) by (simp add: b1_def b)
  have t1: "vterm E (start_paste E) (t\<lparr>paste_buffer := Some (b, 0)\<rparr>) = t\<lparr>vt := v, paste_buffer := Some (b1, length ?a)\<rparr>"
    using output_collects [of "t\<lparr>paste_buffer := Some (b, 0), vt := v\<rparr>" b 0 ds E] assms(5,6) b by (simp add: vterm_def b1_def)
  have "unread b1 ?n 0 = source"
  proof (rule nth_equalityI)
    fix i assume i: "i < length (unread b1 ?n 0)"
    then have "unread b1 ?n 0 ! i = b1 ! (6 + i)" by (simp add: unread_def)
    also have "\<dots> = b ! (6 + i)" using assms(6) b by (auto simp: b1_def nth_append)
    also have "\<dots> = source ! i" using i by (simp add: b_def nth_append unread_def)
    finally show "unread b1 ?n 0 ! i = source ! i" .
  qed (simp add: unread_def)
  note un = this
  obtain b2 p where m: "move_lines b1 ?n 0 (length ?a) ?n = (b2, p)" by (cases "move_lines b1 ?n 0 (length ?a) ?n")
  have pre: "length ?a \<le> 6 + 0" "?n \<le> 0 + ?n" "6 + ?n \<le> length b1" using assms(4,6) b1 by simp_all
  have spec: "length b2 = length b1 \<and> p = length ?a + length (normalise source) \<and> take p b2 = take (length ?a) b1 @ normalise source"
    using move_lines_normalises [OF pre] unfolding m un prod.case .
  have "take (length ?a) b1 = ?a" by (simp add: b1_def)
  then have b2: "length b2 = ?cap" "p = length ?a + length (normalise source)" "take p b2 = ?a @ normalise source"
    using spec b1 by metis+
  have short: "length (normalise s) \<le> length s" for s
    by (induction s rule: normalise.induct) (auto intro: le_SucI order_trans)
  have fits: "p + length (concat es) \<le> length b2" using b2(1,2) short [of source] assms(4,6,8) by simp
  have t2: "vterm E (end_paste E) (t\<lparr>vt := v, paste_buffer := Some (b2, p)\<rparr>)
      = t\<lparr>vt := v', paste_buffer := Some (take p b2 @ concat es @ drop (p + length (concat es)) b2, p + length (concat es))\<rparr>"
    using output_collects [of "t\<lparr>paste_buffer := Some (b2, p), vt := v'\<rparr>" b2 p es E] assms(7) fits by (simp add: vterm_def)
  have total: "take (p + length (concat es)) (take p b2 @ concat es @ drop (p + length (concat es)) b2) = ?a @ normalise source @ concat es"
    using b2 fits by simp
  have guard: "\<not> length text > 8192" "\<not> (source = [] \<or> ?n > length text * 4)" using assms(1,3,4) by simp_all
  show ?thesis
    unfolding terminal_paste_text_def if_not_P [OF guard(1)] assms(2) option.case if_not_P [OF guard(2)] Let_def b_def [symmetric] t1
    using m t2 total by (simp add: send_bytes_def)
qed

definition demo_terminal :: "(unit, byte list list) terminal_env" where
  \<comment> \<open>a library that answers a paste with its markers, a screen without cells, and a server that keeps what is sent\<close>
  "demo_terminal = \<lparr>input_write = \<lambda>d v. ([Output d], v), keyboard_key = \<lambda>k m v. ([Output [13]], v), keyboard_unichar = \<lambda>c a v. ([Output [65]], v),
     start_paste = \<lambda>v. ([Output [27, 91], Output [50, 48, 48, 126]], v), end_paste = \<lambda>v. ([Output [27, 91], Output [50, 48, 49, 126]], v),
     set_size = \<lambda>r c v. ([], v), screen_reset = \<lambda>v. ([], v), screen_cell = \<lambda>r c v. None, send = \<lambda>d w. (True, w @ [d]),
     resized = \<lambda>c r w. w, set_clipboard = \<lambda>s w. w, clipboard = \<lambda>w. None, narrow = \<lambda>s. Some (map (\<lambda>c. ucast c) s)\<rparr>"

theorem paste_is_one_message_witness:
  defines "t \<equiv> terminal_view_create () [] 8 16"
  shows "outer (terminal_paste_text demo_terminal [97, 13, 10, 98, 10] t)
    = [[27, 91, 50, 48, 48, 126, 97, 13, 98, 13, 27, 91, 50, 48, 49, 126]]"
proof -
  have "terminal_paste_text demo_terminal [97, 13, 10, 98, 10] t =
    t\<lparr>vt := (), outer := snd (send demo_terminal (concat [[27, 91], [50, 48, 48, 126]] @ normalise [97, 13, 10, 98, 10]
        @ concat [[27, 91], [50, 48, 49, 126]]) (outer t)), paste_buffer := None\<rparr>"
    by (rule paste_is_one_message) (simp_all add: demo_terminal_def)
  then show ?thesis by (simp add: demo_terminal_def t_def terminal_view_create_def)
qed

subsection \<open>Copying\<close>

lemma utf16_short: "length (utf16_chars cs) \<le> 2 * length cs"
  by (induction cs) (simp_all add: Let_def)

lemma cell_text_short: "length (cell_text c) \<le> 12"
proof -
  have "length (utf16_cell d) \<le> 12" for d
    using utf16_short [of "take 6 (cell_chars d)"] by (simp add: utf16_cell_def VTERM_MAX_CHARS_PER_CELL_def)
  then show ?thesis by (auto simp: cell_text_def split: option.split)
qed

lemma concat_short: "(\<And>x. x \<in> set xs \<Longrightarrow> length (f x) \<le> k) \<Longrightarrow> length (concat (map f xs)) \<le> length xs * k"
  by (induction xs) (simp_all add: add_mono)

definition in_grid :: "('v, 'w) TerminalView \<Rightarrow> int \<Rightarrow> bool" where
  "in_grid t p \<longleftrightarrow> 0 \<le> p \<and> p < tv_rows t * columns t"

definition copy_peak :: "('v, 'w) terminal_env \<Rightarrow> ('v, 'w) TerminalView \<Rightarrow> nat" where
  \<comment> \<open>no index that \<open>terminal_copy\<close> writes is over this: every row with its blanks and its line end, and the NUL\<close>
  "copy_peak E t = (case copy_ends t of (start, stop) \<Rightarrow>
     length (concat (map (\<lambda>row. copy_row E t row @ [13, 10]) [start div columns t..stop div columns t])))"

lemma ends_in_grid:
  assumes "0 < columns t" and "0 < tv_rows t" and "selection t \<longrightarrow> in_grid t (selection_start t) \<and> in_grid t (selection_end t)"
  shows "case copy_ends t of (start, stop) \<Rightarrow> 0 \<le> start \<and> stop < tv_rows t * columns t"
  using assms mult_pos_pos [OF assms(2,1)] by (auto simp: copy_ends_def in_grid_def)

lemma strip_short: "length (strip_blanks s) \<le> length s"
  by (simp add: strip_blanks_def) (metis length_dropWhile_le length_rev)

lemma concat_shorter: "(\<And>x. length (f x) \<le> length (g x)) \<Longrightarrow> length (concat (map f xs)) \<le> length (concat (map g xs))"
  by (induction xs) (simp_all add: add_mono)

text \<open>C38 (bounds): Copying never writes behind the buffer it allocates, when the selection lies in the grid: the longest the
  text can get before the blanks at the ends of its rows are taken off fits with its terminator, and the text that is
  copied is not longer.\<close>
theorem copy_fits:
  assumes "0 < columns t" and "0 < tv_rows t" and "selection t \<longrightarrow> in_grid t (selection_start t) \<and> in_grid t (selection_end t)"
  shows "int (copy_peak E t) < copy_capacity t \<and> length (copy_text E t) \<le> copy_peak E t"
proof -
  obtain start stop where e: "copy_ends t = (start, stop)" by (cases "copy_ends t")
  have g: "0 \<le> start" "stop < tv_rows t * columns t" using ends_in_grid [OF assms] e by simp_all
  let ?rows = "[start div columns t..stop div columns t]"
  have "0 \<le> start div columns t" using g(1) assms(1) by (simp add: pos_imp_zdiv_nonneg_iff)
  moreover have "stop div columns t * columns t \<le> stop"
    using pos_mod_sign [OF assms(1), of stop] div_mult_mod_eq [of stop "columns t"] by linarith
  then have "stop div columns t * columns t < tv_rows t * columns t" using g(2) by linarith
  then have "stop div columns t \<le> tv_rows t - 1" using assms(1) by simp
  ultimately have n: "length ?rows \<le> nat (tv_rows t)" by simp
  have row: "length (copy_row E t row @ [13, 10]) \<le> nat (columns t) * 12 + 2" for row
  proof -
    let ?first = "if row = start div columns t then start mod columns t else 0"
    let ?final = "if row = stop div columns t then stop mod columns t else columns t - 1"
    have "0 \<le> start mod columns t" "stop mod columns t < columns t" using assms(1) by simp_all
    then have "0 \<le> ?first" "?final \<le> columns t - 1" by simp_all
    then have "length [?first..?final] \<le> nat (columns t)" by simp
    moreover have "length (copy_row E t row) \<le> length [?first..?final] * 12"
      unfolding copy_row_def e prod.case Let_def by (rule concat_short) (rule cell_text_short)
    ultimately have "length (copy_row E t row) \<le> nat (columns t) * 12" by linarith
    then show ?thesis by simp
  qed
  have "copy_peak E t \<le> length ?rows * (nat (columns t) * 12 + 2)"
    unfolding copy_peak_def e prod.case by (rule concat_short) (rule row)
  also have "\<dots> \<le> nat (tv_rows t) * (nat (columns t) * 12 + 2)" by (rule mult_right_mono [OF n]) simp
  finally have "int (copy_peak E t) \<le> int (nat (tv_rows t) * (nat (columns t) * 12 + 2))" by (rule of_nat_mono)
  also have "\<dots> = tv_rows t * (12 * columns t + 2)" using assms(1,2) by (simp add: algebra_simps)
  finally have "int (copy_peak E t) \<le> tv_rows t * (12 * columns t + 2)" .
  then have "int (copy_peak E t) < copy_capacity t" by (simp add: copy_capacity_def VTERM_MAX_CHARS_PER_CELL_def mult.commute)
  moreover have "length (copy_text E t) \<le> copy_peak E t"
    unfolding copy_text_def copy_peak_def e prod.case
  proof (rule concat_shorter)
    fix row show "length (strip_blanks (copy_row E t row) @ (if row < stop div columns t then [13, 10] else [])) \<le> length (copy_row E t row @ [13, 10])"
      using strip_short [of "copy_row E t row"] by simp
  qed
  ultimately show ?thesis ..
qed

theorem copy_fits_witness:
  defines "t \<equiv> (terminal_view_create () [] 8 16)\<lparr>selection := True, selection_start := 1900, selection_end := 3\<rparr>"
  shows "int (copy_peak demo_terminal t) < copy_capacity t"
proof -
  have "0 < columns t" "0 < tv_rows t" "selection t \<longrightarrow> in_grid t (selection_start t) \<and> in_grid t (selection_end t)"
    by (simp_all add: t_def terminal_view_create_def in_grid_def)
  from copy_fits [OF this] show ?thesis by simp
qed

lemma position_in_grid:
  assumes "0 < columns t" and "0 < tv_rows t"
  shows "in_grid t (selection_position t x y)"
proof -
  let ?r = "max 0 (min (tv_rows t - 1) (c_quotient (y - 4) (cell_h t)))" and ?c = "max 0 (min (columns t - 1) (c_quotient (x - 4) (cell_w t)))"
  have r: "0 \<le> ?r" "?r \<le> tv_rows t - 1" and c: "0 \<le> ?c" "?c < columns t" using assms by auto
  have "?r * columns t + ?c < (?r + 1) * columns t" using c(2) by (simp add: algebra_simps)
  also have "\<dots> \<le> tv_rows t * columns t" using r(2) assms(1) by (intro mult_right_mono; linarith)
  finally show ?thesis using r(1) c(1) assms(1) by (simp add: in_grid_def selection_position_def)
qed

subsection \<open>A selection that outlives its grid\<close>

definition stale_terminal :: "(unit, byte list list) TerminalView" where
  \<comment> \<open>the button goes down in the last cell of 30 rows of 2 columns, the window becomes small, the pointer moves to the first cell\<close>
  "stale_terminal = fold (terminal_proc demo_terminal) [Sized 24 488, ButtonDown 23 487, Sized 0 0, MouseMove 0 0]
     (terminal_view_create () [] 8 16)"

lemma stale_copy_overflows: "selection stale_terminal" "copy_capacity stale_terminal < int (length (copy_text demo_terminal stale_terminal))"
  by code_simp+

subsection \<open>Every message\<close>

definition view_ok :: "('v, 'w) TerminalView \<Rightarrow> bool" where
  "view_ok t \<longleftrightarrow> ring_ok t \<and> 2 \<le> columns t \<and> columns t \<le> MAX_COLUMNS \<and> 2 \<le> tv_rows t \<and> tv_rows t \<le> 200 \<and> 1 \<le> cell_w t \<and> 1 \<le> cell_h t
     \<and> paste_buffer t = None \<and> (high_surrogate t = 0 \<or> 0xd800 \<le> high_surrogate t \<and> high_surrogate t \<le> 0xdbff)
     \<and> (selection t \<longrightarrow> in_grid t (selection_end t))"

definition view_frame :: "('v, 'w) TerminalView \<Rightarrow> _" where
  "view_frame t = (columns t, tv_rows t, cell_w t, cell_h t, high_surrogate t, selection_end t)"

lemma push_fields: "columns (history_push c t) = columns t" "tv_rows (history_push c t) = tv_rows t" "cell_w (history_push c t) = cell_w t"
  "cell_h (history_push c t) = cell_h t" "high_surrogate (history_push c t) = high_surrogate t" "selection_end (history_push c t) = selection_end t"
  "paste_buffer (history_push c t) = paste_buffer t" "\<not> selection (history_push c t)"
  by (simp_all add: history_push_def Let_def)

lemma output_frame: "view_frame (terminal_output E d t) = view_frame t" "selection (terminal_output E d t) = selection t"
  "paste_buffer t = None \<Longrightarrow> paste_buffer (terminal_output E d t) = None"
  unfolding terminal_output_def send_bytes_def
  by (cases "paste_buffer t"; cases "the (paste_buffer t)"; simp add: view_frame_def)+

lemma call_frame: "view_frame (view_call E c t) = view_frame t" "selection (view_call E c t) \<longrightarrow> selection t"
  "paste_buffer t = None \<Longrightarrow> paste_buffer (view_call E c t) = None"
proof -
  have push: "view_frame (history_push x t) = view_frame t" "\<not> selection (history_push x t)" "paste_buffer (history_push x t) = paste_buffer t" for x
    by (simp_all only: view_frame_def push_fields not_False_eq_True)
  have clear: "view_frame (history_clear t) = view_frame t" "\<not> selection (history_clear t)" "paste_buffer (history_clear t) = paste_buffer t"
    by (simp_all add: view_frame_def history_clear_def)
  have other: "view_frame (t\<lparr>cursor := b\<rparr>) = view_frame t" "view_frame (t\<lparr>alternate := b, offset := 0, selection := False\<rparr>) = view_frame t" for b
    by (simp_all add: view_frame_def)
  show "view_frame (view_call E c t) = view_frame t" by (cases c) (simp_all add: view_call_def output_frame push clear other)
  show "selection (view_call E c t) \<longrightarrow> selection t" by (cases c) (simp_all add: view_call_def output_frame push clear)
  show "paste_buffer t = None \<Longrightarrow> paste_buffer (view_call E c t) = None"
    by (cases c) (simp_all add: view_call_def output_frame push clear)
qed

lemma vterm_frame: "view_frame (vterm E f t) = view_frame t" "selection (vterm E f t) \<longrightarrow> selection t"
  "paste_buffer t = None \<Longrightarrow> paste_buffer (vterm E f t) = None"
proof -
  have all: "view_frame (fold (view_call E) calls u) = view_frame u \<and> (selection (fold (view_call E) calls u) \<longrightarrow> selection u)
      \<and> (paste_buffer u = None \<longrightarrow> paste_buffer (fold (view_call E) calls u) = None)" for calls u
  proof (induction calls arbitrary: u)
    case (Cons c calls)
    show ?case using Cons.IH [of "view_call E c u"] call_frame [where E = E and c = c and t = u] by auto
  qed simp
  obtain calls v where f: "f (vt t) = (calls, v)" by (cases "f (vt t)")
  have "view_frame (t\<lparr>vt := v\<rparr>) = view_frame t" by (simp add: view_frame_def)
  then show "view_frame (vterm E f t) = view_frame t" "selection (vterm E f t) \<longrightarrow> selection t"
    "paste_buffer t = None \<Longrightarrow> paste_buffer (vterm E f t) = None"
    using all [of calls "t\<lparr>vt := v\<rparr>"] by (simp_all add: vterm_def f)
qed

lemma vterm_ok: "view_ok t \<Longrightarrow> view_ok (vterm E f t)"
  using vterm_ring(1) [of t E f] vterm_frame [where E = E and f = f and t = t] by (auto simp: view_ok_def view_frame_def in_grid_def)

lemma paste_ok:
  assumes "view_ok t"
  shows "view_ok (terminal_paste_text E text t)"
proof -
  define ok where "ok u \<longleftrightarrow> ring_ok u \<and> view_frame u = view_frame t \<and> (selection u \<longrightarrow> selection t)" for u :: "('a, 'b) TerminalView"
  have ok: "ok (vterm E f u)" if "ok u" for f u
    using that vterm_ring(1) [of u E f] vterm_frame [where E = E and f = f and t = u] by (auto simp: ok_def)
  have buffer: "ok (u\<lparr>paste_buffer := b\<rparr>) = ok u" "ok (u\<lparr>outer := w\<rparr>) = ok u" for u b w
    by (simp_all add: ok_def ring_ok_def view_frame_def)
  have t: "ok t" using assms by (simp add: ok_def view_ok_def)
  have "view_ok (send_bytes E d (u\<lparr>paste_buffer := None\<rparr>))" if "ok u" for d u
  proof -
    have "ok (send_bytes E d (u\<lparr>paste_buffer := None\<rparr>))" using that by (simp add: send_bytes_def buffer)
    moreover have "paste_buffer (send_bytes E d (u\<lparr>paste_buffer := None\<rparr>)) = None" by (simp add: send_bytes_def)
    ultimately show ?thesis using assms by (auto simp: ok_def view_ok_def view_frame_def in_grid_def)
  qed
  moreover have "ok (vterm E f ((vterm E g (t\<lparr>paste_buffer := b\<rparr>))\<lparr>paste_buffer := b'\<rparr>))" for f g b b'
    by (simp add: ok buffer t)
  ultimately show ?thesis using assms
    by (simp add: terminal_paste_text_def Let_def split: option.split prod.split)
qed

lemma set_ok:
  assumes "view_ok t"
  shows "view_ok (t\<lparr>outer := w\<rparr>)" "view_ok (t\<lparr>offset := 0, selection := False\<rparr>)" "view_ok (t\<lparr>input_enabled := b\<rparr>)"
    "view_ok (t\<lparr>high_surrogate := 0, offset := 0, selection := False\<rparr>)"
    "view_ok (t\<lparr>offset := max 0 (min (lines_kept t) k)\<rparr>)" "view_ok (t\<lparr>selection := False, offset := max 0 (min (lines_kept t) k)\<rparr>)"
    "0xd800 \<le> c \<Longrightarrow> c \<le> 0xdbff \<Longrightarrow> view_ok (t\<lparr>high_surrogate := c\<rparr>)"
  using assms by (auto simp: view_ok_def ring_ok_def in_grid_def)

lemma measure_ok:
  assumes "view_ok t"
  shows "view_ok (terminal_measure E right bottom t)"
proof -
  define c where "c = max 2 (min MAX_COLUMNS (c_quotient (right - 8) (cell_w t)))"
  define r where "r = max 2 (min 200 (c_quotient (bottom - 8) (cell_h t)))"
  have "2 \<le> c" "c \<le> MAX_COLUMNS" "2 \<le> r" "r \<le> 200" by (simp_all add: c_def r_def MAX_COLUMNS_def)
  then have "view_ok (t\<lparr>columns := c, tv_rows := r, selection := False, offset := 0\<rparr>)"
    using assms by (simp add: view_ok_def ring_ok_def)
  from set_ok(1) [OF vterm_ok [OF this]] show ?thesis
    using assms by (simp add: terminal_measure_def c_def [symmetric] r_def [symmetric] Let_def)
qed

lemma key_ok: "view_ok t \<Longrightarrow> view_ok (snd (terminal_key E m key t))"
  unfolding terminal_key_def
  by (simp add: terminal_copy_def terminal_paste_def send_bytes_def set_ok vterm_ok paste_ok Let_def split: option.split)

lemma proc_ok:
  assumes "view_ok t"
  shows "view_ok (terminal_proc E m t)"
proof (cases m)
  case (KeyDown mods key)
  then show ?thesis by (simp add: terminal_proc_def key_ok assms)
next
  case (Char mods c)
  then show ?thesis using assms by (simp add: terminal_proc_def terminal_char_def set_ok vterm_ok Let_def)
next
  case (ButtonDown x y)
  then show ?thesis using assms by (simp add: terminal_proc_def terminal_mouse_def view_ok_def ring_ok_def Let_def)
next
  case (MouseMove x y)
  have "in_grid t (selection_position t x y)" by (rule position_in_grid) (use assms in \<open>simp_all add: view_ok_def\<close>)
  then show ?thesis using MouseMove assms by (simp add: terminal_proc_def terminal_mouse_def view_ok_def ring_ok_def in_grid_def)
next
  case ButtonUp
  then show ?thesis using assms by (simp add: terminal_proc_def terminal_mouse_def view_ok_def ring_ok_def in_grid_def)
next
  case MenuPaste
  then show ?thesis using assms by (simp add: terminal_proc_def terminal_paste_def paste_ok Let_def split: option.split)
next
  case Reset
  have "view_ok ((history_clear t)\<lparr>high_surrogate := 0\<rparr>)" using assms by (simp add: view_ok_def ring_ok_def history_clear_def)
  then show ?thesis using Reset by (simp add: terminal_proc_def terminal_view_reset_def vterm_ok)
qed (use assms in \<open>simp_all add: terminal_proc_def measure_ok terminal_wheel_def terminal_scroll_def terminal_copy_def
      terminal_view_feed_def terminal_view_enable_input_def set_ok vterm_ok\<close>)

lemma create_ok: "view_ok (terminal_view_create v w a b)"
  by (simp add: view_ok_def ring_ok_def terminal_view_create_def MAX_COLUMNS_def HISTORY_LINES_def)

lemma session_ok: "view_ok (fold (terminal_proc E) ms (terminal_view_create v w a b))"
proof -
  have "view_ok t \<Longrightarrow> view_ok (fold (terminal_proc E) ms t)" for t by (induction ms arbitrary: t) (simp_all add: proc_ok)
  then show ?thesis by (simp add: create_ok)
qed

text \<open>C35 (refinement): At every moment of a terminal's life, after any messages, the ring of 1000 lines behaves as an unbounded
  history of which the last 1000 lines can be seen: what the server writes appends the lines that leave the screen and
  empties it on a clear, and the ring then holds the last lines of that; the place that is shown and the grid stay in
  their bounds.\<close>
theorem terminal_keeps_last_lines:
  defines "session E ms v w a b \<equiv> fold (terminal_proc E) ms (terminal_view_create v w a b)"
  shows "kept (terminal_view_feed E data (session E ms v w a b))
     = last_lines (lines_after (fst (input_write E data (vt (session E ms v w a b)))) (kept (session E ms v w a b)))
   \<and> length (kept (session E ms v w a b)) \<le> HISTORY_LINES
   \<and> 0 \<le> offset (session E ms v w a b) \<and> offset (session E ms v w a b) \<le> int (length (kept (session E ms v w a b)))
   \<and> columns (session E ms v w a b) \<in> {2..MAX_COLUMNS} \<and> tv_rows (session E ms v w a b) \<in> {2..200}"
proof -
  let ?t = "session E ms v w a b"
  have ok: "view_ok ?t" unfolding session_def by (rule session_ok)
  then have ring: "ring_ok ?t" and grid: "columns ?t \<in> {2..MAX_COLUMNS}" "tv_rows ?t \<in> {2..200}" by (simp_all add: view_ok_def)
  have bounds: "0 \<le> offset ?t" "offset ?t \<le> lines_kept ?t" "0 \<le> lines_kept ?t" "lines_kept ?t \<le> N" using ring by (simp_all add: ring_ok_def)
  have "kept (terminal_view_feed E data ?t) = last_lines (lines_after (fst (input_write E data (vt ?t))) (kept ?t))"
    unfolding terminal_view_feed_def by (rule vterm_ring(2) [OF ring])
  then show ?thesis using bounds grid by (simp add: nat_le_iff)
qed

end
