(* ===== verification/Hold_Drag.thy ===== *)
theory Hold_Drag
  imports Prelude
begin

text \<open>
  \<open>src/src/ui/hold_drag.c\<close>: pressing an entry of the application list and dragging it to a workspace or another place of the
  list. A press arms the drag; it begins when the button is held for 350 ms or the pointer leaves the system's threshold,
  and ends with a drop, or without one when it is cancelled. What lies under a point is a parameter (\<open>drag_env\<close>); cursors,
  highlights and repainting are not modelled. Releasing the capture sends a message that cancels once more; cancelling
  twice is cancelling once.
\<close>

record HoldDrag =
  source :: int                              \<comment> \<open>the application that is held, -1 for none\<close>
  source_row :: int
  hover_workspace :: int
  armed :: bool
  dragging :: bool
  enabled :: bool
  left_down :: bool
  down :: "int \<times> int"
  captured :: bool                           \<comment> \<open>\<open>GetCapture() == list\<close>\<close>
  ticking :: bool                            \<comment> \<open>the timer of the hold is set\<close>

record drag_env =
  item_under :: "int \<times> int \<Rightarrow> (int \<times> int) option"   \<comment> \<open>\<open>item_at\<close>: application and row\<close>
  space_under :: "int \<times> int \<Rightarrow> int"                  \<comment> \<open>\<open>workspace_at\<close>, -1 for none\<close>
  over_list :: "int \<times> int \<Rightarrow> bool"
  threshold :: "int \<times> int"                           \<comment> \<open>\<open>SM_CXDRAG\<close>, \<open>SM_CYDRAG\<close>\<close>
  timer_set :: bool                                  \<comment> \<open>\<open>SetTimer\<close> succeeds\<close>

definition hold_drag_init :: HoldDrag where
  "hold_drag_init = \<lparr>source = -1, source_row = -1, hover_workspace = -1, armed = False, dragging = False, enabled = True,
     left_down = False, down = (0, 0), captured = False, ticking = False\<rparr>"

definition hold_drag_cancel :: "HoldDrag \<Rightarrow> HoldDrag" where
  "hold_drag_cancel d = d\<lparr>armed := False, dragging := False, left_down := False, source := -1, source_row := -1, hover_workspace := -1,
     captured := False, ticking := False\<rparr>"

definition begin_drag :: "HoldDrag \<Rightarrow> HoldDrag" where
  "begin_drag d = (if \<not> armed d \<or> \<not> left_down d \<or> dragging d then d
     else d\<lparr>ticking := False, dragging := True, captured := True\<rparr>)"

definition past_threshold :: "drag_env \<Rightarrow> int \<times> int \<Rightarrow> int \<times> int \<Rightarrow> bool" where
  "past_threshold E a b =
     (let tx = (if fst (threshold E) < 1 then 1 else fst (threshold E)); ty = (if snd (threshold E) < 1 then 1 else snd (threshold E))
      in \<not> (\<bar>fst a - fst b\<bar> < tx \<and> \<bar>snd a - snd b\<bar> < ty))"

datatype drag_message = LButtonDown "int \<times> int" | HoldTimer | MouseMoved "int \<times> int" | LButtonUp "int \<times> int" | DoubleClick
  | CaptureChanged bool                      \<comment> \<open>whether the list has the capture\<close>
  | CancelMode                               \<comment> \<open>and \<open>WM_KILLFOCUS\<close>\<close>
  | EscapeKey | OtherMessage

type_synonym drop_call = "int \<times> int \<times> int"      \<comment> \<open>source, workspace, index\<close>

definition press :: "drag_env \<Rightarrow> int \<times> int \<Rightarrow> HoldDrag \<Rightarrow> bool \<times> HoldDrag" where
  "press E p d =
     (let d = (hold_drag_cancel d)\<lparr>down := p\<rparr> in
      case item_under E p of
        Some (item, row) \<Rightarrow>
          let d = d\<lparr>source := item, source_row := row\<rparr> in
          if item \<ge> 0
          then (True, if timer_set E then d\<lparr>armed := True, left_down := True, captured := True, ticking := True\<rparr>
             else hold_drag_cancel d)
          else (False, d)
      | None \<Rightarrow> (False, d))"

definition release :: "drag_env \<Rightarrow> int \<times> int \<Rightarrow> HoldDrag \<Rightarrow> drop_call option" where
  \<comment> \<open>where a drag that ends at \<open>p\<close> is dropped\<close>
  "release E p d =
     (let dest = space_under E p in
      if \<not> dragging d then None
      else if dest \<ge> 0 then Some (source d, dest, -1)
      else if over_list E p then Some (source d, dest, case item_under E p of Some (item, _) \<Rightarrow> item | None \<Rightarrow> -1)
      else None)"

definition hold_drag_message :: "drag_env \<Rightarrow> drag_message \<Rightarrow> HoldDrag \<Rightarrow> bool \<times> drop_call option \<times> HoldDrag" where
  \<comment> \<open>whether the message was taken, and the call of \<open>drop\<close>\<close>
  "hold_drag_message E m d = (case m of
     LButtonDown p \<Rightarrow> if enabled d then (case press E p d of (taken, d) \<Rightarrow> (taken, None, d)) else (False, None, d)
   | HoldTimer \<Rightarrow> (True, None, let d = d\<lparr>ticking := False\<rparr> in if armed d \<and> left_down d then begin_drag d else d\<lparr>armed := False\<rparr>)
   | MouseMoved p \<Rightarrow>
       if \<not> armed d then (False, None, d)
       else if \<not> dragging d \<and> \<not> past_threshold E p (down d) then (True, None, d)
       else (True, None, (if dragging d then d else begin_drag d)\<lparr>hover_workspace := space_under E p\<rparr>)
   | LButtonUp p \<Rightarrow>
       if \<not> armed d then (False, None, d)
       else (dragging d, release E p d, hold_drag_cancel d)
   | DoubleClick \<Rightarrow> (False, None, hold_drag_cancel d)
   | CaptureChanged has \<Rightarrow> (False, None, if has then d else hold_drag_cancel d)
   | CancelMode \<Rightarrow> (False, None, hold_drag_cancel d)
   | EscapeKey \<Rightarrow> if armed d \<or> dragging d then (True, None, hold_drag_cancel d) else (False, None, d)
   | OtherMessage \<Rightarrow> (False, None, d))"

definition drag_ready :: "HoldDrag \<Rightarrow> bool" where
  \<comment> \<open>what holds between messages: a drag is armed by a press on an entry, and only an armed one moves\<close>
  "drag_ready d \<longleftrightarrow> armed d = left_down d \<and> (dragging d \<longrightarrow> armed d \<and> \<not> ticking d) \<and> (armed d \<longrightarrow> 0 \<le> source d \<and> captured d)
     \<and> (hover_workspace d \<noteq> -1 \<longrightarrow> dragging d)"

inductive drags :: "drag_env \<Rightarrow> drag_message list \<Rightarrow> drop_call list \<Rightarrow> HoldDrag \<Rightarrow> bool" for E where
  no_drag: "drags E [] [] hold_drag_init"
| one_more: "drags E ms ds d \<Longrightarrow> hold_drag_message E m d = (taken, dropped, e) \<Longrightarrow>
     drags E (ms @ [m]) (ds @ (case dropped of Some x \<Rightarrow> [x] | None \<Rightarrow> [])) e"
| switched: "drags E ms ds d \<Longrightarrow> drags E ms ds (d\<lparr>enabled := b\<rparr>)"

lemma cancel_ready: "drag_ready (hold_drag_cancel d)"
  by (simp add: drag_ready_def hold_drag_cancel_def)

lemma message_ready:
  assumes "drag_ready d" and "hold_drag_message E m d = (taken, dropped, e)"
  shows "drag_ready e"
proof (cases m)
  case (LButtonDown p)
  then show ?thesis using assms
    by (auto simp: hold_drag_message_def press_def cancel_ready Let_def split: if_splits option.splits prod.splits)
       (auto simp: drag_ready_def hold_drag_cancel_def)
qed (use assms cancel_ready in \<open>auto simp: hold_drag_message_def drag_ready_def begin_drag_def Let_def split: if_splits\<close>)

lemma drags_ready: "drags E ms ds d \<Longrightarrow> drag_ready d"
proof (induction rule: drags.induct)
  case (one_more ms ds d m taken dropped e)
  then show ?case by (blast intro: message_ready)
next
  case (switched ms ds d b)
  then show ?case by (auto simp: drag_ready_def)
qed (simp_all add: drag_ready_def hold_drag_init_def)

lemma drop_released:
  assumes "hold_drag_message E m d = (taken, Some (s, w, i), e)"
  shows "\<exists>p. m = LButtonUp p \<and> dragging d \<and> s = source d \<and> (w \<ge> 0 \<or> over_list E p) \<and> w = space_under E p"
  using assms by (cases m) (auto simp: hold_drag_message_def release_def Let_def split: if_splits prod.splits)

text \<open>An entry is dropped only when the button is released while it is dragged, onto a workspace or inside the list; what is
  dropped is the entry of the last press, and nothing is armed afterwards.\<close>
theorem drop_needs_drag:
  assumes "drags E ms ds d" and "hold_drag_message E m d = (taken, Some (s, w, i), e)"
  shows "\<exists>p. m = LButtonUp p \<and> dragging d \<and> armed d \<and> s = source d \<and> 0 \<le> s \<and> (0 \<le> w \<or> over_list E p) \<and> \<not> armed e \<and> \<not> dragging e \<and> source e = -1"
proof -
  obtain p where p: "m = LButtonUp p" "dragging d" "s = source d" "0 \<le> w \<or> over_list E p" using drop_released [OF assms(2)] by blast
  have "armed d" "0 \<le> source d" using drags_ready [OF assms(1)] p(2) unfolding drag_ready_def by blast+
  moreover have "e = hold_drag_cancel d" using assms(2) p(1) \<open>armed d\<close> by (simp add: hold_drag_message_def)
  ultimately show ?thesis using p by (simp add: hold_drag_cancel_def)
qed

end
