(* ===== verification/Server_Dialog.thy ===== *)
theory Server_Dialog
  imports Store_Frame Ssh_Credentials
begin

text \<open>
  \<open>src/src/ui/ssh_view.c\<close>, the dialog of the saved SSH servers: the profiles are in the store, their logins in the
  credential store. The state of the dialog is that of the store with the variables of \<open>ServerDialog\<close>, the texts of its
  controls and the world of the credential store, which is not that of the files. Messages to the user, labels and the
  state of the buttons are not modelled; the questions of the dialog are modal, so a message is the answer as well.
\<close>

subsection \<open>State\<close>

datatype server_field = S_NAME | S_HOST | S_PORT | S_USER | S_DIR | S_KEY | S_SECRET

datatype server_save = SERVER_SAVE_OK | SERVER_SAVE_CONFIG_ERROR | SERVER_SAVE_LOGIN_ERROR | SERVER_SAVE_ROLLBACK_ERROR

record ('w, 'c) ServerDialog = "'w Store" +
  sd_vault :: 'c                             \<comment> \<open>the world of the credential store\<close>
  sd_servers :: SshServers
  sd_out :: SshLogin
  sd_selected :: int
  sd_fixed :: bool
  sd_loading :: bool                         \<comment> \<open>\<open>loading_fields\<close>\<close>
  sd_loaded :: bool                          \<comment> \<open>\<open>loaded_login\<close>\<close>
  sd_text :: "server_field \<Rightarrow> wstr"          \<comment> \<open>the texts of the edit controls\<close>
  sd_ended :: "bool option"                  \<comment> \<open>\<open>EndDialog\<close>: with \<open>IDOK\<close> or \<open>IDCANCEL\<close>\<close>

record ('w, 'c) dialog_env =
  stores :: "'w store_env"
  same :: "wstr \<Rightarrow> wstr \<Rightarrow> bool"             \<comment> \<open>\<open>!lstrcmpW\<close>\<close>
  logins :: "'c SshCredentialStore"

type_synonym ('w, 'c, 'a) dialog_cmd = "(('w, 'c) ServerDialog, 'a) state"

definition zero_login :: SshLogin where
  "zero_login = \<lparr>lg_server = zero_server, lg_secret = [], lg_key_file = [], lg_fingerprint = []\<rparr>"

definition vaulted :: "('c \<Rightarrow> 'a \<times> 'c) \<Rightarrow> ('w, 'c, 'a) dialog_cmd" where
  "vaulted f = State (\<lambda>d. case f (sd_vault d) of (r, c) \<Rightarrow> (r, d\<lparr>sd_vault := c\<rparr>))"

definition server_at :: "SshServers \<Rightarrow> int \<Rightarrow> SshServer" where
  "server_at v i = ss_items v ! nat i"

definition put_server :: "SshServers \<Rightarrow> int \<Rightarrow> SshServer \<Rightarrow> SshServers" where
  "put_server v i s = v\<lparr>ss_items := (ss_items v)[nat i := s]\<rparr>"

subsection \<open>Saving a profile with its login\<close>

definition persist_server_change ::
    "('w, 'c) dialog_env \<Rightarrow> SshServers \<Rightarrow> SshLogin option \<Rightarrow> int \<Rightarrow> ('w, 'c, server_save) dialog_cmd" where
  "persist_server_change E new login removed_id =
     (if \<not> ssh_servers_valid (Some new) then do { store_save_ssh_servers (stores E) new; ret SERVER_SAVE_CONFIG_ERROR }
      else let ident = (case login of Some l \<Rightarrow> ss_id (lg_server l) | None \<Rightarrow> removed_id) in do {
        previous \<leftarrow> vaulted (ssh_credentials_snapshot (logins E) ident);
        case previous of Inl e \<Rightarrow> ret SERVER_SAVE_LOGIN_ERROR
        | Inr previous \<Rightarrow> do {
            failure \<leftarrow> vaulted (case login of Some l \<Rightarrow> ssh_credentials_save (logins E) l
                                | None \<Rightarrow> ssh_credentials_delete (logins E) ident);
            if failure \<noteq> None then ret SERVER_SAVE_LOGIN_ERROR
            else do {
              saved \<leftarrow> store_save_ssh_servers (stores E) new;
              if saved then do { modify (\<lambda>d. d\<lparr>sd_servers := new\<rparr>); ret SERVER_SAVE_OK }
              else do {
                unrestored \<leftarrow> vaulted (ssh_credentials_restore (logins E) ident previous);
                ret (if unrestored = None then SERVER_SAVE_CONFIG_ERROR else SERVER_SAVE_ROLLBACK_ERROR) } } } })"

definition edited_server :: "('w, 'c) ServerDialog \<Rightarrow> SshServer" where
  \<comment> \<open>the selected profile with what the controls hold; a port that is not one becomes 0\<close>
  "edited_server d =
     (let port = lstrcpyn (sd_text d S_PORT) 24; p = wcstol port in
      (server_at (sd_servers d) (sd_selected d))\<lparr>ss_name := lstrcpyn (sd_text d S_NAME) SSH_NAME_CAP, ss_host := lstrcpyn (sd_text d S_HOST) 256,
        ss_user := lstrcpyn (sd_text d S_USER) 128, ss_directory := lstrcpyn (sd_text d S_DIR) SSH_PATH_CAP,
        ss_port := (if port \<noteq> [] \<and> p_rest p = [] \<and> 1 \<le> p_value p \<and> p_value p \<le> 65535 then p_value p else 0)\<rparr>)"

definition edited_login :: "('w, 'c) ServerDialog \<Rightarrow> SshLogin" where
  "edited_login d = zero_login\<lparr>lg_server := edited_server d, lg_secret := lstrcpyn (sd_text d S_SECRET) 512,
     lg_key_file := lstrcpyn (sd_text d S_KEY) 260\<rparr>"

definition dialog_save_server :: "('w, 'c) dialog_env \<Rightarrow> ('w, 'c, bool) dialog_cmd" where
  \<comment> \<open>\<open>save_server\<close>\<close>
  "dialog_save_server E = do {
     selected \<leftarrow> gets sd_selected;
     if selected < 0 then ret True
     else do {
       new \<leftarrow> gets (\<lambda>d. put_server (sd_servers d) selected (edited_server d));
       login \<leftarrow> gets edited_login;
       result \<leftarrow> persist_server_change E new (Some login) 0;
       if result = SERVER_SAVE_OK
       then do { modify (\<lambda>d. d\<lparr>sd_loaded := (lg_secret login \<noteq> [] \<or> lg_key_file login \<noteq> [])\<rparr>); ret True }
       else ret False } }"

subsection \<open>The controls\<close>

definition edit_changed :: "server_field \<Rightarrow> ('w, 'c) ServerDialog \<Rightarrow> ('w, 'c) ServerDialog" where
  \<comment> \<open>\<open>EN_CHANGE\<close>: a login that was loaded is not for another target\<close>
  "edit_changed f d =
     (if \<not> sd_loading d \<and> sd_loaded d \<and> (f = S_HOST \<or> f = S_PORT \<or> f = S_USER)
      then d\<lparr>sd_loaded := False, sd_text := (sd_text d)(S_SECRET := [], S_KEY := [])\<rparr> else d)"

definition set_text :: "server_field \<Rightarrow> wstr \<Rightarrow> ('w, 'c) ServerDialog \<Rightarrow> ('w, 'c) ServerDialog" where
  \<comment> \<open>\<open>SetDlgItemTextW\<close>, and typing, which both notify the dialog\<close>
  "set_text f text d = edit_changed f (d\<lparr>sd_text := (sd_text d)(f := text)\<rparr>)"

definition server_fields :: "('w, 'c) dialog_env \<Rightarrow> ('w, 'c, unit) dialog_cmd" where
  "server_fields E = do {
     s \<leftarrow> gets (\<lambda>d. if sd_selected d \<ge> 0 then server_at (sd_servers d) (sd_selected d) else zero_server);
     modify (\<lambda>d. d\<lparr>sd_loading := True, sd_loaded := False\<rparr>);
     modify (set_text S_NAME (ss_name s));
     modify (set_text S_HOST (ss_host s));
     modify (set_text S_PORT (dec (if ss_port s \<noteq> 0 then ss_port s else 22)));
     modify (set_text S_USER (ss_user s));
     modify (set_text S_DIR (if ss_directory s \<noteq> [] then ss_directory s else W ''/''));
     r \<leftarrow> (if ss_id s > 0 \<and> ss_host s \<noteq> [] \<and> ss_user s \<noteq> []
          then vaulted (ssh_credentials_load (ieq (stores E)) (same E) (logins E) (zero_login\<lparr>lg_server := s\<rparr>))
          else ret (Inr False, zero_login));
     modify (set_text S_SECRET (lg_secret (snd r)));
     modify (set_text S_KEY (lg_key_file (snd r)));
     modify (\<lambda>d. d\<lparr>sd_loaded := (fst r = Inr True)\<rparr>);
     modify (\<lambda>d. d\<lparr>sd_loading := False\<rparr>) }"

subsection \<open>The buttons\<close>

definition fresh_server :: "int \<Rightarrow> int \<Rightarrow> SshServer" where
  "fresh_server ident number = zero_server\<lparr>ss_id := ident, ss_port := 22, ss_name := W ''Server '' @ dec number, ss_directory := W ''/''\<rparr>"

definition new_server :: "('w, 'c) dialog_env \<Rightarrow> ('w, 'c, unit) dialog_cmd" where
  \<comment> \<open>\<open>S_NEW\<close>\<close>
  "new_server E = do {
     n \<leftarrow> gets (\<lambda>d. ss_count (sd_servers d));
     if n \<ge> int SSH_SERVER_LIMIT then ret ()
     else do {
       saved \<leftarrow> dialog_save_server E;
       if \<not> saved then ret ()
       else do {
         ident \<leftarrow> store_new_id (stores E);
         modify (\<lambda>d. let n = ss_count (sd_servers d) in
           d\<lparr>sd_selected := n, sd_servers := (put_server (sd_servers d) n (fresh_server ident (n + 1)))\<lparr>ss_count := n + 1\<rparr>\<rparr>);
         server_fields E } } }"

definition forget_login :: "('w, 'c) dialog_env \<Rightarrow> ('w, 'c, unit) dialog_cmd" where
  \<comment> \<open>\<open>S_FORGET\<close>\<close>
  "forget_login E = do {
     selected \<leftarrow> gets sd_selected;
     if selected < 0 then ret ()
     else do {
       ident \<leftarrow> gets (\<lambda>d. ss_id (server_at (sd_servers d) selected));
       failure \<leftarrow> vaulted (ssh_credentials_delete (logins E) ident);
       if failure = None
       then modify (\<lambda>d. set_text S_KEY [] (set_text S_SECRET [] (d\<lparr>sd_loaded := False\<rparr>)))
       else ret () } }"

definition without_server :: "SshServers \<Rightarrow> int \<Rightarrow> SshServers" where
  \<comment> \<open>\<open>memmove\<close> of the profiles behind; the last cell stays as it was\<close>
  "without_server v i =
     (let k = nat i; n = nat (ss_count v); xs = ss_items v in
      \<lparr>ss_items = take k xs @ take (n - k - 1) (drop (k + 1) xs) @ drop (n - 1) xs, ss_count = ss_count v - 1\<rparr>)"

definition remove_server :: "('w, 'c) dialog_env \<Rightarrow> ('w, 'c, unit) dialog_cmd" where
  \<comment> \<open>\<open>S_REMOVE\<close> with the answer yes\<close>
  "remove_server E = do {
     selected \<leftarrow> gets sd_selected;
     if selected < 0 then ret ()
     else do {
       new \<leftarrow> gets (\<lambda>d. without_server (sd_servers d) selected);
       ident \<leftarrow> gets (\<lambda>d. ss_id (server_at (sd_servers d) selected));
       result \<leftarrow> persist_server_change E new None ident;
       if result = SERVER_SAVE_OK
       then do {
         modify (\<lambda>d. d\<lparr>sd_selected := (if ss_count new \<noteq> 0 then min (sd_selected d) (ss_count new - 1) else - 1)\<rparr>);
         server_fields E }
       else ret () } }"

definition select_server :: "('w, 'c) dialog_env \<Rightarrow> int \<Rightarrow> ('w, 'c, unit) dialog_cmd" where
  \<comment> \<open>\<open>LBN_SELCHANGE\<close>; the list box has one row per profile\<close>
  "select_server E index = do {
     selected \<leftarrow> gets sd_selected;
     n \<leftarrow> gets (\<lambda>d. ss_count (sd_servers d));
     if index = selected \<or> index < 0 \<or> index \<ge> n then ret ()
     else do {
       saved \<leftarrow> dialog_save_server E;
       if saved then do { modify (\<lambda>d. d\<lparr>sd_selected := index\<rparr>); server_fields E } else ret () } }"

definition connect_clicked :: "('w, 'c) dialog_env \<Rightarrow> ('w, 'c, unit) dialog_cmd" where
  \<comment> \<open>\<open>IDOK\<close>, \<open>S_CONNECT\<close>\<close>
  "connect_clicked E = do {
     modify (\<lambda>d. d\<lparr>sd_out := (sd_out d)\<lparr>lg_secret := lstrcpyn (sd_text d S_SECRET) 512, lg_key_file := lstrcpyn (sd_text d S_KEY) 260\<rparr>\<rparr>);
     login \<leftarrow> gets sd_out;
     selected \<leftarrow> gets sd_selected;
     if lg_secret login = [] \<and> lg_key_file login = [] then ret ()
     else if selected < 0 then ret ()
     else do {
       saved \<leftarrow> dialog_save_server E;
       if saved
       then modify (\<lambda>d. d\<lparr>sd_out := (sd_out d)\<lparr>lg_server := server_at (sd_servers d) selected\<rparr>, sd_ended := Some True\<rparr>)
       else ret () } }"

datatype dialog_message =
    Typed server_field wstr
  | SelectRow int
  | NewClicked
  | SaveClicked
  | ForgetClicked
  | RemoveConfirmed
  | KeyPicked wstr
  | ConnectClicked
  | CancelClicked

definition server_proc :: "('w, 'c) dialog_env \<Rightarrow> dialog_message \<Rightarrow> ('w, 'c, unit) dialog_cmd" where
  "server_proc E m = (case m of
     Typed f text \<Rightarrow> modify (set_text f text)
   | SelectRow i \<Rightarrow> select_server E i
   | NewClicked \<Rightarrow> new_server E
   | SaveClicked \<Rightarrow> do { dialog_save_server E; ret () }
   | ForgetClicked \<Rightarrow> forget_login E
   | RemoveConfirmed \<Rightarrow> remove_server E
   | KeyPicked path \<Rightarrow> modify (set_text S_KEY path)
   | ConnectClicked \<Rightarrow> connect_clicked E
   | CancelClicked \<Rightarrow> modify (\<lambda>d. d\<lparr>sd_ended := Some False\<rparr>))"

fun dialog_loop :: "('w, 'c) dialog_env \<Rightarrow> dialog_message list \<Rightarrow> ('w, 'c, unit) dialog_cmd" where
  \<comment> \<open>the messages of the dialog until it ends\<close>
  "dialog_loop E [] = ret ()"
| "dialog_loop E (m # ms) = do {
     ended \<leftarrow> gets sd_ended;
     if ended \<noteq> None then ret () else do { server_proc E m; dialog_loop E ms } }"

definition init_dialog :: "('w, 'c) dialog_env \<Rightarrow> ('w, 'c, unit) dialog_cmd" where
  \<comment> \<open>\<open>WM_INITDIALOG\<close>\<close>
  "init_dialog E = do {
     start \<leftarrow> gets (\<lambda>d. ss_count (sd_servers d) = 0 \<and> \<not> sd_fixed d);
     (if start
      then do {
        ident \<leftarrow> store_new_id (stores E);
        modify (\<lambda>d. d\<lparr>sd_selected := 0, sd_servers := (put_server (sd_servers d) 0
          ((server_at (sd_servers d) 0)\<lparr>ss_id := ident, ss_port := 22, ss_name := W ''Server 1'', ss_directory := W ''/''\<rparr>))\<lparr>ss_count := 1\<rparr>\<rparr>) }
      else ret ());
     server_fields E }"

definition first_match :: "int \<Rightarrow> SshServers \<Rightarrow> int" where
  "first_match fixed_id v =
     (case filter (\<lambda>i. fixed_id = 0 \<or> ss_id (ss_items v ! i) = fixed_id) [0..<nat (ss_count v)] of [] \<Rightarrow> -1 | i # _ \<Rightarrow> int i)"

definition ssh_choose_server :: "('w, 'c) dialog_env \<Rightarrow> int \<Rightarrow> dialog_message list \<Rightarrow> ('w, 'c, SshLogin option) dialog_cmd" where
  \<comment> \<open>\<open>None\<close>: FALSE, with a zeroed login\<close>
  "ssh_choose_server E fixed_id ms = do {
     v \<leftarrow> store_load_ssh_servers (stores E);
     case v of None \<Rightarrow> ret None
     | Some v \<Rightarrow>
         if fixed_id \<noteq> 0 \<and> first_match fixed_id v < 0 then ret None
         else do {
           modify (\<lambda>d. d\<lparr>sd_servers := v, sd_out := zero_login, sd_selected := first_match fixed_id v, sd_fixed := (fixed_id \<noteq> 0),
             sd_loading := False, sd_loaded := False, sd_text := (\<lambda>_. []), sd_ended := None\<rparr>);
           init_dialog E;
           dialog_loop E ms;
           ended \<leftarrow> gets sd_ended;
           login \<leftarrow> gets sd_out;
           ret (if ended = Some True then Some login else None) } }"

fun menu_label :: "wstr \<Rightarrow> wstr" where
  \<comment> \<open>an ampersand is doubled\<close>
  "menu_label [] = []"
| "menu_label (c # cs) = (if c = 38 then [38, 38] else [c]) @ menu_label cs"

definition ssh_pick_server ::
    "('w, 'c) dialog_env \<Rightarrow> (wstr list \<Rightarrow> int) \<Rightarrow> dialog_message list \<Rightarrow> ('w, 'c, SshLogin option) dialog_cmd" where
  \<comment> \<open>\<open>pick\<close> is the entry of the menu the user takes, 0 for none; the last one opens the dialog for all\<close>
  "ssh_pick_server E pick ms = do {
     v \<leftarrow> store_load_ssh_servers (stores E);
     case v of None \<Rightarrow> ret None
     | Some v \<Rightarrow>
         if ss_count v = 0 then ssh_choose_server E 0 ms
         else let n = pick (map (\<lambda>s. menu_label (ss_name s)) (take (nat (ss_count v)) (ss_items v)));
             server_id = (if 1 \<le> n \<and> n \<le> ss_count v then ss_id (server_at v (n - 1)) else 0) in
           if n = 0 then ret None else ssh_choose_server E server_id ms }"

end
