(* ===== verification/Dialog_Safety.thy ===== *)
theory Dialog_Safety
  imports Server_Dialog Storage_Roundtrip
begin

text \<open>
  What the dialog of the servers promises: a change of a profile and of its login is made in both stores or in none, and a
  login that was stored is only ever used for the target it was stored for, unless the user types it again.
\<close>

subsection \<open>Frames\<close>

lemma more_dialog:
  assumes "Store.more a = Store.more b"
  shows "sd_vault a = sd_vault b" "sd_servers a = sd_servers b" "sd_out a = sd_out b" "sd_selected a = sd_selected b"
    "sd_fixed a = sd_fixed b" "sd_loading a = sd_loading b" "sd_loaded a = sd_loaded b" "sd_text a = sd_text b"
    "sd_ended a = sd_ended b"
  using assms by (cases a, cases b, simp)+

lemma wp_vaulted [wp]: "wp (vaulted f) Q d = (case f (sd_vault d) of (r, c) \<Rightarrow> Q r (d\<lparr>sd_vault := c\<rparr>))"
  by (simp add: vaulted_def wp split: prod.splits)

lemma wp_option [wp]: "wp (case x of None \<Rightarrow> c | Some y \<Rightarrow> f y) Q s = (case x of None \<Rightarrow> wp c Q s | Some y \<Rightarrow> wp (f y) Q s)"
  by (simp split: option.splits)

lemma wp_sum: "wp (case x of Inl y \<Rightarrow> g y | Inr y \<Rightarrow> f y) Q s = (case x of Inl y \<Rightarrow> wp (g y) Q s | Inr y \<Rightarrow> wp (f y) Q s)"
  by (simp split: sum.splits)

lemma save_servers_wp:
  assumes "store_ok E disk used" and "idle d"
  shows "wp (store_save_ssh_servers E v) (\<lambda>ok d'. all_or_nothing E disk d ok d' \<and> Store.more d' = Store.more d) d"
  unfolding wp_conj_iff
  using run_store_op_wp [OF assms, of "SaveServers v"] keeps_wp [OF more_servers, of E v d]
  by (simp add: run_store_op_def)

lemma wp_modify_fun: "wp (modify f) Q = (\<lambda>s. Q () (f s))"
  by (rule ext) (simp add: wp)

subsection \<open>Both stores or none\<close>

definition vault_after :: "SshLogin option \<Rightarrow> wstr \<Rightarrow> (wstr \<Rightarrow> byte list option) \<Rightarrow> wstr \<Rightarrow> byte list option" where
  \<comment> \<open>the credential of a profile that was saved, or removed\<close>
  "vault_after login t held = held(t := (case login of
       Some l \<Rightarrow> if lg_secret l = [] \<and> lg_key_file l = [] then None else Some (record_bytes (login_record l))
     | None \<Rightarrow> None))"

lemma delete_fails:
  assumes "manager_ok (C, held)" and "ssh_credentials_delete (native_store C) i c = (Some e, c')"
  shows "held c' = held c"
  using assms(2) native.remove [OF assms(1)]
  by (auto simp: ssh_credentials_delete_def split: option.splits prod.splits if_splits)

lemma change_vault:
  assumes m: "manager_ok (C, held)"
    and "(case login of Some l \<Rightarrow> ssh_credentials_save (native_store C) l | None \<Rightarrow> ssh_credentials_delete (native_store C) ident) c = (r, c')"
    and "ident = (case login of Some l \<Rightarrow> ss_id (lg_server l) | None \<Rightarrow> ident)"
  shows "r \<noteq> None \<Longrightarrow> held c' = held c"
    and "r = None \<Longrightarrow> target_name ident = Some t \<Longrightarrow> held c' = vault_after login t (held c)"
proof -
  note del = native.delete_spec [OF m] delete_fails [OF m]
  note wr = native.write_laws [OF m]
  show "held c' = held c" if "r \<noteq> None"
    using assms(2,3) that del(2) wr
    by (auto simp: ssh_credentials_save_def split: option.splits if_splits)
  show "held c' = vault_after login t (held c)" if "r = None" "target_name ident = Some t"
    using assms(2,3) that del(1) wr
    by (fastforce simp: ssh_credentials_save_def vault_after_def split: option.splits if_splits)
qed

lemma restore_fails:
  assumes "manager_ok (C, held)" and "ssh_credentials_restore (native_store C) i sn c = (Some e, c')"
  shows "held c' = held c"
  using assms(2) native.write_laws [OF assms(1)] delete_fails [OF assms(1)]
  by (auto simp: ssh_credentials_restore_def split: option.splits prod.splits if_splits)

definition change_outcome where
  \<comment> \<open>what a change from \<open>d\<close> to \<open>e\<close> did to the profiles, the documents and the credentials\<close>
  "change_outcome P held new login ident d r e \<longleftrightarrow> P (r = SERVER_SAVE_OK) e
     \<and> (r = SERVER_SAVE_OK \<longrightarrow> sd_servers e = new
          \<and> (\<exists>t. target_name ident = Some t \<and> held (sd_vault e) = vault_after login t (held (sd_vault d))))
     \<and> (r \<noteq> SERVER_SAVE_OK \<longrightarrow> sd_servers e = sd_servers d)
     \<and> (r = SERVER_SAVE_CONFIG_ERROR \<or> r = SERVER_SAVE_LOGIN_ERROR \<longrightarrow> held (sd_vault e) = held (sd_vault d))
     \<and> (r = SERVER_SAVE_ROLLBACK_ERROR \<longrightarrow> (\<exists>t. target_name ident = Some t \<and> held (sd_vault e) = vault_after login t (held (sd_vault d))))"

definition dialog_frame :: "('w, 'c) ServerDialog \<Rightarrow> ('w, 'c) ServerDialog \<Rightarrow> bool" where
  \<comment> \<open>the variables that saving leaves alone\<close>
  "dialog_frame d e \<longleftrightarrow> sd_out e = sd_out d \<and> sd_selected e = sd_selected d \<and> sd_fixed e = sd_fixed d
     \<and> sd_loading e = sd_loading d \<and> sd_loaded e = sd_loaded d \<and> sd_text e = sd_text d \<and> sd_ended e = sd_ended d"

lemma all_or_nothing_vault [simp]:
  "all_or_nothing E disk (d\<lparr>sd_vault := c\<rparr>) ok e = all_or_nothing E disk d ok e"
  "all_or_nothing E disk d ok (e\<lparr>sd_vault := c\<rparr>) = all_or_nothing E disk d ok e"
  "all_or_nothing E disk d ok (e\<lparr>sd_servers := v\<rparr>) = all_or_nothing E disk d ok e"
  "idle (d\<lparr>sd_vault := c\<rparr>) = idle d"
  by (simp_all add: all_or_nothing_def published_def idle_def)

lemma persist_outcome:
  fixes E :: "('w, 'c) dialog_env" and P :: "bool \<Rightarrow> ('w, 'c) ServerDialog \<Rightarrow> bool"
  assumes m: "manager_ok (C, held)" and l: "logins E = native_store C" and P0: "P False d"
    and P: "\<And>ok e c. P ok (e\<lparr>sd_vault := c\<rparr>) = P ok e" "\<And>ok e v. P ok (e\<lparr>sd_servers := v\<rparr>) = P ok e"
    and save: "\<And>c. wp (store_save_ssh_servers (stores E) new)
      (\<lambda>ok e. P ok e \<and> Store.more e = Store.more (d\<lparr>sd_vault := c\<rparr>)) (d\<lparr>sd_vault := c\<rparr>)"
  defines "ident login rid \<equiv> (case login of Some l \<Rightarrow> ss_id (lg_server l) | None \<Rightarrow> rid)"
  shows "wp (persist_server_change E new login rid)
    (\<lambda>r e. change_outcome P held new login (ident login rid) d r e \<and> dialog_frame d e) d"
proof (cases "ssh_servers_valid (Some new)")
  case False
  then show ?thesis using P0 P
    by (simp add: persist_server_change_def wp store_save_ssh_servers_def change_outcome_def dialog_frame_def)
next
  case True
  let ?i = "ident login rid" and ?S = "native_store C"
  obtain q c1 where q: "ssh_credentials_snapshot ?S ?i (sd_vault d) = (q, c1)" by fastforce
  note snap = native.snapshot_spec [OF m, simplified, OF q]
  show ?thesis
  proof (cases q)
    case (Inl x)
    then show ?thesis using P0 P True q [folded l] snap(1)
      by (simp add: persist_server_change_def wp Let_def ident_def [symmetric] change_outcome_def dialog_frame_def)
  next
    case (Inr sn)
    obtain t where t: "target_name ?i = Some t" using q Inr by (auto simp: ssh_credentials_snapshot_def split: option.splits)
    obtain f c2 where f: "(case login of Some l \<Rightarrow> ssh_credentials_save ?S l | None \<Rightarrow> ssh_credentials_delete ?S ?i) c1 = (f, c2)" by fastforce
    have i: "?i = (case login of Some l \<Rightarrow> ss_id (lg_server l) | None \<Rightarrow> ?i)" by (simp add: ident_def split: option.splits)
    note ch = change_vault [OF m f i]
    have restored: "held c' = held (sd_vault d)" if "ssh_credentials_restore ?S ?i sn c2 = (None, c')" "f = None" for c'
    proof -
      have "held c' = (held c2)(t := held (sd_vault d) t)"
        using native.restore_spec [OF m, simplified, OF q [unfolded Inr] that(1) t] .
      then show ?thesis using ch(2) [OF that(2) t] snap(1) by (auto simp: vault_after_def)
    qed
    show ?thesis
    proof (cases f)
      case (Some e)
      then show ?thesis using P0 P True q [folded l] Inr f [folded l] snap(1) ch(1)
        by (simp add: persist_server_change_def wp Let_def ident_def [symmetric] change_outcome_def dialog_frame_def)
    next
      case None
      let ?rest = "\<lambda>saved. if saved then do { modify (\<lambda>d. d\<lparr>sd_servers := new\<rparr>); ret SERVER_SAVE_OK }
              else do {
                unrestored \<leftarrow> vaulted (ssh_credentials_restore (logins E) ?i sn);
                ret (if unrestored = None then SERVER_SAVE_CONFIG_ERROR else SERVER_SAVE_ROLLBACK_ERROR) }"
      let ?Q = "\<lambda>r e. change_outcome P held new login ?i d r e \<and> dialog_frame d e"
      have "wp (store_save_ssh_servers (stores E) new) (\<lambda>ok. wp (?rest ok) ?Q) (d\<lparr>sd_vault := c2\<rparr>)"
      proof (rule wp_mono [OF save])
        fix ok e assume ok: "P ok e \<and> Store.more e = Store.more (d\<lparr>sd_vault := c2\<rparr>)"
        note fields = more_dialog [OF conjunct2 [OF ok], simplified]
        obtain u c' where u: "ssh_credentials_restore ?S ?i sn c2 = (u, c')" by fastforce
        have undone: "held c' = (if u = None then held (sd_vault d) else held c2)"
          using u restored [OF _ None] restore_fails [OF m] by (cases u) auto
        have now: "held c2 = vault_after login t (held (sd_vault d))" using ch(2) [OF None t] snap(1) by simp
        show "wp (?rest ok) ?Q e"
          using ok P fields u [folded l] undone now t
          by (auto simp: wp change_outcome_def dialog_frame_def)
      qed
      then show ?thesis using True q [folded l] Inr f [folded l] None
        by (simp add: persist_server_change_def wp Let_def ident_def [symmetric])
    qed
  qed
qed


subsection \<open>Where a stored login can go\<close>

definition backed ::
    "('w, 'c) dialog_env \<Rightarrow> (wstr \<Rightarrow> byte list option) \<Rightarrow> SshServer \<Rightarrow> wstr \<Rightarrow> wstr \<Rightarrow> bool" where
  \<comment> \<open>the credentials hold this secret and key file for the identifier, port, host and user of the server\<close>
  "backed E held s secret key \<longleftrightarrow> (\<exists>t b. target_name (ss_id s) = Some t \<and> held t = Some b \<and> valid_record b (ss_id s) = None
     \<and> int (cr_port (record_of_bytes b)) = ss_port s \<and> ieq (stores E) (array_text (cr_host (record_of_bytes b))) (ss_host s)
     \<and> same E (array_text (cr_user (record_of_bytes b))) (ss_user s)
     \<and> secret = array_text (cr_secret (record_of_bytes b)) \<and> key = array_text (cr_key_file (record_of_bytes b)))"

definition derived :: "('w, 'c) dialog_env \<Rightarrow> (wstr \<Rightarrow> byte list option) \<Rightarrow> (wstr \<Rightarrow> byte list option) \<Rightarrow> bool" where
  \<comment> \<open>every valid credential has the secret and the target of the one that was there at first\<close>
  "derived E held held' \<longleftrightarrow> (\<forall>i t b. target_name i = Some t \<longrightarrow> held' t = Some b \<longrightarrow> valid_record b i = None \<longrightarrow>
     (\<exists>a. held t = Some a \<and> valid_record a i = None \<and> cr_port (record_of_bytes a) = cr_port (record_of_bytes b)
       \<and> ieq (stores E) (array_text (cr_host (record_of_bytes a))) (array_text (cr_host (record_of_bytes b)))
       \<and> same E (array_text (cr_user (record_of_bytes a))) (array_text (cr_user (record_of_bytes b)))
       \<and> array_text (cr_secret (record_of_bytes a)) = array_text (cr_secret (record_of_bytes b))
       \<and> array_text (cr_key_file (record_of_bytes a)) = array_text (cr_key_file (record_of_bytes b))))"

definition compares :: "('w, 'c) dialog_env \<Rightarrow> bool" where
  \<comment> \<open>\<open>lstrcmpiW\<close> and \<open>lstrcmpW\<close> are reflexive and transitive\<close>
  "compares E \<longleftrightarrow> reflp (ieq (stores E)) \<and> transp (ieq (stores E)) \<and> reflp (same E) \<and> transp (same E)"

lemma derived_refl: "compares E \<Longrightarrow> derived E held held"
  unfolding derived_def compares_def by (metis reflpD)

lemma derived_backed:
  assumes "compares E" and "derived E held held'" and "backed E held' s secret key"
  shows "backed E held s secret key"
proof -
  obtain t b where b: "target_name (ss_id s) = Some t" "held' t = Some b" "valid_record b (ss_id s) = None"
      "int (cr_port (record_of_bytes b)) = ss_port s" "ieq (stores E) (array_text (cr_host (record_of_bytes b))) (ss_host s)"
      "same E (array_text (cr_user (record_of_bytes b))) (ss_user s)"
      "secret = array_text (cr_secret (record_of_bytes b))" "key = array_text (cr_key_file (record_of_bytes b))"
    using assms(3) unfolding backed_def by blast
  obtain a where a: "held t = Some a" "valid_record a (ss_id s) = None" "cr_port (record_of_bytes a) = cr_port (record_of_bytes b)"
      "ieq (stores E) (array_text (cr_host (record_of_bytes a))) (array_text (cr_host (record_of_bytes b)))"
      "same E (array_text (cr_user (record_of_bytes a))) (array_text (cr_user (record_of_bytes b)))"
      "array_text (cr_secret (record_of_bytes a)) = array_text (cr_secret (record_of_bytes b))"
      "array_text (cr_key_file (record_of_bytes a)) = array_text (cr_key_file (record_of_bytes b))"
    using assms(2) b(1-3) unfolding derived_def by blast
  have "ieq (stores E) (array_text (cr_host (record_of_bytes a))) (ss_host s)" "same E (array_text (cr_user (record_of_bytes a))) (ss_user s)"
    using a(4,5) b(5,6) assms(1) unfolding compares_def by (blast dest: transpD)+
  with a b show ?thesis unfolding backed_def by metis
qed

lemma backed_valid:
  assumes "backed E held s secret key"
  shows "terminated 512 secret" "terminated 260 key" "0 \<notin> set secret" "0 \<notin> set key" "ss_id s < 2 ^ 63"
proof -
  obtain t b where b: "valid_record b (ss_id s) = None" "secret = array_text (cr_secret (record_of_bytes b))"
      "key = array_text (cr_key_file (record_of_bytes b))"
    using assms unfolding backed_def by blast
  have len: "length b = RECORD_SIZE" using b(1) by (simp add: valid_record_def split: if_splits)
  have fin: "array_ended (cr_secret (record_of_bytes b))" "array_ended (cr_key_file (record_of_bytes b))"
    and id: "cr_server_id (record_of_bytes b) = ss_id s"
    using b(1) len by (auto simp: valid_record_def Let_def split: if_splits)
  have short: "length (takeWhile (\<lambda>c. c \<noteq> 0) xs) < length xs" if "array_ended xs" for xs :: "wchar list"
    using that unfolding array_ended_def by (induction xs) auto
  have "length (cr_secret (record_of_bytes b)) = 512" "length (cr_key_file (record_of_bytes b)) = 260"
    using len by (simp_all add: record_of_bytes_def bytes_at_def RECORD_SIZE_def)
  then show "terminated 512 secret" "terminated 260 key"
    using short [OF fin(1)] short [OF fin(2)] b(2,3) by (simp_all add: terminated_def array_text_def)
  show "0 \<notin> set secret" "0 \<notin> set key"
    using b(2,3) by (auto simp: array_text_def dest: set_takeWhileD)
  have "le_value (bytes_at 8 8 b) < 256 ^ 8"
    using le_value_less [of "bytes_at 8 8 b"] len by (simp add: bytes_at_def RECORD_SIZE_def)
  then show "ss_id s < 2 ^ 63" using id by (auto simp: record_of_bytes_def signed64_def split: if_splits)
qed

lemma target_inj: "target_name i = Some t \<Longrightarrow> target_name j = Some t \<Longrightarrow> i = j"
  by (auto simp: target_name_def split: if_splits)

lemma derived_removed:
  "derived E held held' \<Longrightarrow> derived E held (held'(t := None))"
  unfolding derived_def by (metis fun_upd_apply option.distinct(1))

lemma derived_saved:
  fixes E :: "('w, 'c) dialog_env"
  assumes "compares E" and d: "derived E held held'" and b: "backed E held (lg_server l) (lg_secret l) (lg_key_file l)"
    and l: "endpoint_ok (lg_server l)" "0 \<notin> set (ss_host (lg_server l))" "0 \<notin> set (ss_user (lg_server l))"
    and t: "target_name (ss_id (lg_server l)) = Some t"
  shows "derived E held (held'(t \<mapsto> record_bytes (login_record l)))"
proof -
  let ?s = "lg_server l" and ?b = "record_bytes (login_record l)"
  note v = backed_valid [OF b]
  have pos: "0 < ss_id ?s" using t by (auto simp: target_name_def split: if_splits)
  have plain: "login_plain l" using l v(3-5) by (simp add: login_plain_def)
  have r: "record_of_bytes ?b = login_record l"
    by (rule record_roundtrip(1) [OF login_record_ok(1) [OF plain l(1) pos v(1,2)]])
  have cells: "array_text (wide_array n x) = x" if "0 \<notin> set x" for n x using that by (simp)
  obtain a where a: "held t = Some a" "valid_record a (ss_id ?s) = None" "int (cr_port (record_of_bytes a)) = ss_port ?s"
      "ieq (stores E) (array_text (cr_host (record_of_bytes a))) (ss_host ?s)" "same E (array_text (cr_user (record_of_bytes a))) (ss_user ?s)"
      "lg_secret l = array_text (cr_secret (record_of_bytes a))" "lg_key_file l = array_text (cr_key_file (record_of_bytes a))"
    using b t unfolding backed_def by auto
  have rec: "cr_port (login_record l) = nat (ss_port ?s)" "array_text (cr_host (login_record l)) = ss_host ?s"
      "array_text (cr_user (login_record l)) = ss_user ?s" "array_text (cr_secret (login_record l)) = lg_secret l"
      "array_text (cr_key_file (login_record l)) = lg_key_file l"
    using l v(3,4) by (simp_all add: login_record_def cells)
  have "cr_port (record_of_bytes a) = cr_port (login_record l)" using a(3) rec(1) by linarith
  then show ?thesis
    using d a rec unfolding derived_def r
    by (auto simp: r dest: target_inj [OF t])
qed

lemma load_empty:
  assumes "ssh_credentials_load i e S login w = ((r, got), w')" and "r \<noteq> Inr True"
  shows "lg_secret got = [] \<and> lg_key_file got = []"
  using assms by (auto simp: ssh_credentials_load_def Let_def split: if_splits prod.splits sum.splits)

lemma load_keeps:
  assumes "manager_ok (C, held)" and "ssh_credentials_load i e (native_store C) login w = ((r, got), w')"
  shows "held w' = held w"
  using assms(2) native.snapshot_spec(1) [OF assms(1), simplified]
  by (auto simp: ssh_credentials_load_def Let_def split: if_splits prod.splits sum.splits)

lemma load_endpoint:
  assumes "ssh_credentials_load i e S login w = ((Inr True, got), w')"
  shows "endpoint_ok (lg_server login)"
  using assms by (auto simp: ssh_credentials_load_def Let_def split: if_splits)

subsection \<open>The invariant of the dialog\<close>

definition plain_servers :: "SshServers \<Rightarrow> bool" where
  "plain_servers v \<longleftrightarrow> servers_wf v \<and> ss_count v \<le> int SSH_SERVER_LIMIT \<and> (\<forall>s \<in> set (ss_items v). 0 \<notin> set (ss_host s) \<and> 0 \<notin> set (ss_user s))"

definition dialog_wf :: "('w, 'c) ServerDialog \<Rightarrow> bool" where
  "dialog_wf d \<longleftrightarrow> plain_servers (sd_servers d) \<and> sd_selected d < ss_count (sd_servers d)"

definition login_shown where
  \<comment> \<open>a loaded login is that of the target in the controls, and nothing else is in the secret controls\<close>
  "login_shown E held d \<longleftrightarrow> \<not> sd_loading d \<and> 0 \<notin> set (sd_text d S_HOST) \<and> 0 \<notin> set (sd_text d S_USER)
     \<and> (if sd_loaded d
        then 0 \<le> sd_selected d \<and> (let s = server_at (sd_servers d) (sd_selected d) in
          sd_text d S_HOST = ss_host s \<and> sd_text d S_USER = ss_user s \<and> sd_text d S_PORT = dec (ss_port s) \<and> endpoint_ok s
          \<and> backed E held s (sd_text d S_SECRET) (sd_text d S_KEY))
        else sd_text d S_SECRET = [] \<and> sd_text d S_KEY = [])"

definition dialog_inv where
  "dialog_inv E held first d \<longleftrightarrow> dialog_wf d \<and> derived E first (held (sd_vault d)) \<and> login_shown E first d"

lemma set_text_loading [simp]: "sd_loading d \<Longrightarrow> set_text f x d = d\<lparr>sd_text := (sd_text d)(f := x)\<rparr>"
  by (simp add: set_text_def edit_changed_def)

lemma server_at_in: "plain_servers v \<Longrightarrow> 0 \<le> i \<Longrightarrow> i < ss_count v \<Longrightarrow> server_at v i \<in> set (ss_items v)"
  unfolding server_at_def by (rule nth_mem) (simp add: plain_servers_def servers_wf_def nat_less_iff)

lemma server_fields_inv:
  fixes E :: "('w, 'c) dialog_env"
  assumes c: "compares E" and m: "manager_ok (C, held)" and l: "logins E = native_store C"
    and d: "dialog_wf d" "derived E first (held (sd_vault d))"
  shows "wp (server_fields E) (\<lambda>_ e. dialog_inv E held first e \<and> sd_servers e = sd_servers d \<and> sd_ended e = sd_ended d) d"
proof -
  define s where "s = (if sd_selected d \<ge> 0 then server_at (sd_servers d) (sd_selected d) else zero_server)"
  have s0: "0 \<notin> set (ss_host s) \<and> 0 \<notin> set (ss_user s)"
    using d(1) server_at_in [of "sd_servers d" "sd_selected d"]
    by (auto simp: s_def dialog_wf_def plain_servers_def zero_server_def)
  let ?load = "if ss_id s > 0 \<and> ss_host s \<noteq> [] \<and> ss_user s \<noteq> []
    then ssh_credentials_load (ieq (stores E)) (same E) (logins E) (zero_login\<lparr>lg_server := s\<rparr>) (sd_vault d) else ((Inr False, zero_login), sd_vault d)"
  obtain r got w' where q: "?load = ((r, got), w')" by (metis surj_pair)
  have keep: "held w' = held (sd_vault d)"
    using q load_keeps [OF m] by (auto simp: l split: if_splits)
  have none: "lg_secret got = [] \<and> lg_key_file got = []" if "r \<noteq> Inr True"
    proof (cases "ss_id s > 0 \<and> ss_host s \<noteq> [] \<and> ss_user s \<noteq> []")
      case True
      then have "ssh_credentials_load (ieq (stores E)) (same E) (logins E) (zero_login\<lparr>lg_server := s\<rparr>) (sd_vault d) = ((r, got), w')"
        using q by simp
      then show ?thesis by (rule load_empty [OF _ that])
    qed (use q in \<open>auto simp: zero_login_def\<close>)
  have found: "sd_selected d \<ge> 0 \<and> endpoint_ok s \<and> backed E first s (lg_secret got) (lg_key_file got)" if r: "r = Inr True"
  proof -
    have cond: "ss_id s > 0 \<and> ss_host s \<noteq> [] \<and> ss_user s \<noteq> []" using q r by (auto split: if_splits)
    then have ld: "ssh_credentials_load (ieq (stores E)) (same E) (native_store C) (zero_login\<lparr>lg_server := s\<rparr>) (sd_vault d) = ((Inr True, got), w')"
      using q r by (simp add: l)
    have "backed E (held (sd_vault d)) s (lg_secret got) (lg_key_file got)"
      using load_found [OF m ld] unfolding backed_def by auto
    then have "backed E first s (lg_secret got) (lg_key_file got)" by (rule derived_backed [OF c d(2)])
    moreover have "endpoint_ok s" using load_endpoint [OF ld] by simp
    moreover have "0 \<le> sd_selected d"
    proof (rule ccontr)
      assume "\<not> 0 \<le> sd_selected d"
      then have "s = zero_server" by (simp add: s_def)
      with cond show False by (simp add: zero_server_def)
    qed
    ultimately show ?thesis by simp
  qed
  let ?fill = "\<lambda>d c r. d\<lparr>sd_vault := c,
    sd_text := (sd_text d)(S_NAME := ss_name s, S_HOST := ss_host s, S_PORT := dec (if ss_port s \<noteq> 0 then ss_port s else 22),
      S_USER := ss_user s, S_DIR := (if ss_directory s \<noteq> [] then ss_directory s else W ''/''),
      S_SECRET := lg_secret (snd r), S_KEY := lg_key_file (snd r)),
    sd_loaded := (fst r = Inr True), sd_loading := False\<rparr>"
  let ?Q = "\<lambda>e. dialog_inv E held first e \<and> sd_servers e = sd_servers d \<and> sd_ended e = sd_ended d"
  have "wp (server_fields E) (\<lambda>_. ?Q) d = ?Q (?fill d w' (r, got))"
  proof (cases "ss_id s > 0 \<and> ss_host s \<noteq> [] \<and> ss_user s \<noteq> []")
    case True
    then show ?thesis unfolding server_fields_def wp_bind wp_gets s_def [symmetric] using q by (simp add: wp)
  next
    case False
    then have no: "(ss_id s > 0 \<and> ss_host s \<noteq> [] \<and> ss_user s \<noteq> []) = False" by blast
    have r: "r = Inr False" "got = zero_login" "w' = sd_vault d" using q unfolding no by simp_all
    show ?thesis unfolding server_fields_def wp_bind wp_gets s_def [symmetric] no r by (simp add: wp)
  qed
  moreover have "?Q (?fill d w' (r, got))"
  proof -
    have at: "server_at (sd_servers d) (sd_selected d) = s" if "0 \<le> sd_selected d" using that by (simp add: s_def)
    show ?thesis using d s0 none found keep at
      by (auto simp: dialog_inv_def dialog_wf_def login_shown_def endpoint_ok_def)
  qed
  ultimately show ?thesis by simp
qed

lemma plain_put:
  assumes "plain_servers v" and "0 \<notin> set (ss_host s)" and "0 \<notin> set (ss_user s)"
  shows "plain_servers (put_server v i s)"
proof -
  have "x = s \<or> x \<in> set (ss_items v)" if "x \<in> set ((ss_items v)[k := s])" for x k
    using that set_update_subset_insert [of "ss_items v" k s] by blast
  then show ?thesis using assms by (auto simp: plain_servers_def put_server_def servers_wf_def)
qed

lemma put_server_simps [simp]:
  "ss_count (put_server v i s) = ss_count v"
  by (simp add: put_server_def)

lemma server_at_put:
  "plain_servers v \<Longrightarrow> 0 \<le> i \<Longrightarrow> i < ss_count v \<Longrightarrow> server_at (put_server v i s) i = s"
  by (simp add: server_at_def put_server_def plain_servers_def servers_wf_def nat_less_iff)

lemma lstrcpyn_short: "length s < n \<Longrightarrow> lstrcpyn s n = s"
  by (simp add: lstrcpyn_def)

lemma lstrcpyn_plain: "0 \<notin> set s \<Longrightarrow> 0 \<notin> set (lstrcpyn s n)"
  unfolding lstrcpyn_def by (meson in_set_takeD)

lemma edited_plain:
  assumes "login_shown E first d"
  shows "0 \<notin> set (ss_host (edited_server d))" "0 \<notin> set (ss_user (edited_server d))"
  using assms by (simp_all add: edited_server_def Let_def login_shown_def lstrcpyn_plain)

lemma edited_loaded:
  assumes i: "login_shown E first d" and l: "sd_loaded d"
  shows "endpoint_ok (edited_server d)" "lg_secret (edited_login d) = sd_text d S_SECRET" "lg_key_file (edited_login d) = sd_text d S_KEY"
    and "sd_text d S_HOST = ss_host (edited_server d)" "sd_text d S_USER = ss_user (edited_server d)"
    and "sd_text d S_PORT = dec (ss_port (edited_server d))"
    and "backed E first (edited_server d) (sd_text d S_SECRET) (sd_text d S_KEY)"
proof -
  let ?s = "server_at (sd_servers d) (sd_selected d)"
  have f: "sd_text d S_HOST = ss_host ?s" "sd_text d S_USER = ss_user ?s" "sd_text d S_PORT = dec (ss_port ?s)" "endpoint_ok ?s"
      "backed E first ?s (sd_text d S_SECRET) (sd_text d S_KEY)"
    using i l by (simp_all add: login_shown_def Let_def)
  have p: "1 \<le> ss_port ?s" "ss_port ?s \<le> 65535" using f(4) by (simp_all add: endpoint_ok_def)
  have "lstrcpyn (dec (ss_port ?s)) 24 = dec (ss_port ?s)"
    using p dec_length_int64 [of "ss_port ?s"] by (intro lstrcpyn_short) (simp add: LLONG_MAX_def)
  then have e: "ss_host (edited_server d) = ss_host ?s" "ss_user (edited_server d) = ss_user ?s" "ss_port (edited_server d) = ss_port ?s"
      "ss_id (edited_server d) = ss_id ?s"
    using f(4) p wcstol_dec [of "ss_port ?s"]
    by (simp_all add: edited_server_def Let_def f(1-3) endpoint_ok_def terminated_def lstrcpyn_short LONG_MIN_def LONG_MAX_def)
  show "endpoint_ok (edited_server d)" using f(4) by (simp add: endpoint_ok_def e)
  show "lg_secret (edited_login d) = sd_text d S_SECRET" "lg_key_file (edited_login d) = sd_text d S_KEY"
    using backed_valid(1,2) [OF f(5)] by (simp_all add: edited_login_def terminated_def lstrcpyn_short)
  show "sd_text d S_HOST = ss_host (edited_server d)" "sd_text d S_USER = ss_user (edited_server d)"
    "sd_text d S_PORT = dec (ss_port (edited_server d))" by (simp_all add: e f)
  show "backed E first (edited_server d) (sd_text d S_SECRET) (sd_text d S_KEY)"
    using f(5) unfolding backed_def e .
qed

lemma login_vault:
  fixes E :: "('w, 'c) dialog_env"
  assumes c: "compares E" and i: "login_shown E first d" and h: "derived E first held'"
    and t: "target_name (ss_id (edited_server d)) = Some t"
  shows "derived E first (vault_after (Some (edited_login d)) t held')"
proof (cases "sd_loaded d")
  case True
  note l = edited_loaded [OF i True]
  have s: "lg_server (edited_login d) = edited_server d" by (simp add: edited_login_def)
  have "backed E first (lg_server (edited_login d)) (lg_secret (edited_login d)) (lg_key_file (edited_login d))"
    using l(2,3,7) by (simp add: s)
  then have "derived E first (held'(t \<mapsto> record_bytes (login_record (edited_login d))))"
    using derived_saved [OF c h, of "edited_login d" t] l(1) edited_plain [OF i] t by (simp add: s)
  then show ?thesis using derived_removed [OF h] by (simp add: vault_after_def)
next
  case False
  then have "lg_secret (edited_login d) = []" "lg_key_file (edited_login d) = []"
    using i by (simp_all add: login_shown_def edited_login_def lstrcpyn_def)
  then show ?thesis using derived_removed [OF h] by (simp add: vault_after_def)
qed

lemma save_inv:
  fixes E :: "('w, 'c) dialog_env"
  assumes c: "compares E" and m: "manager_ok (C, held)" and l: "logins E = native_store C" and d: "dialog_inv E held first d"
  shows "wp (dialog_save_server E) (\<lambda>ok e. dialog_inv E held first e \<and> sd_selected e = sd_selected d \<and> sd_out e = sd_out d
     \<and> sd_ended e = sd_ended d \<and> sd_text e = sd_text d \<and> ss_count (sd_servers e) = ss_count (sd_servers d)
     \<and> (ok \<longrightarrow> 0 \<le> sd_selected d \<longrightarrow> sd_loaded d \<longrightarrow> lg_secret (edited_login d) \<noteq> [] \<or> lg_key_file (edited_login d) \<noteq> [] \<longrightarrow> sd_loaded e)) d"
proof (cases "sd_selected d < 0")
  case True
  then show ?thesis using d by (simp add: dialog_save_server_def wp)
next
  case False
  let ?new = "put_server (sd_servers d) (sd_selected d) (edited_server d)" and ?l = "edited_login d"
  let ?after = "\<lambda>r. if r = SERVER_SAVE_OK
       then do { modify (\<lambda>d. d\<lparr>sd_loaded := (lg_secret ?l \<noteq> [] \<or> lg_key_file ?l \<noteq> [])\<rparr>); ret True } else ret False"
  let ?Q = "\<lambda>ok e. dialog_inv E held first e \<and> sd_selected e = sd_selected d \<and> sd_out e = sd_out d
     \<and> sd_ended e = sd_ended d \<and> sd_text e = sd_text d \<and> ss_count (sd_servers e) = ss_count (sd_servers d)
     \<and> (ok \<longrightarrow> 0 \<le> sd_selected d \<longrightarrow> sd_loaded d \<longrightarrow> lg_secret ?l \<noteq> [] \<or> lg_key_file ?l \<noteq> [] \<longrightarrow> sd_loaded e)"
  have inv: "dialog_wf d" "derived E first (held (sd_vault d))" "login_shown E first d"
    using d by (simp_all add: dialog_inv_def)
  have at: "server_at ?new (sd_selected d) = edited_server d"
    using inv(1) False by (intro server_at_put) (simp_all add: dialog_wf_def)
  have plain: "plain_servers ?new"
    using inv(1) plain_put [OF _ edited_plain [OF inv(3)]] by (simp add: dialog_wf_def)
  have id: "ss_id (lg_server ?l) = ss_id (edited_server d)" by (simp add: edited_login_def)
  have "wp (store_save_ssh_servers (stores E) ?new) (\<lambda>ok e. True \<and> Store.more e = Store.more (d\<lparr>sd_vault := x\<rparr>)) (d\<lparr>sd_vault := x\<rparr>)" for x
    using keeps_wp [OF more_servers, of "stores E" ?new "d\<lparr>sd_vault := x\<rparr>"] by simp
  note out = persist_outcome [of C held E "\<lambda>_ _. True" d ?new "Some ?l" 0, OF m l _ _ _ this, simplified]
  have "wp (persist_server_change E ?new (Some ?l) 0) (\<lambda>r. wp (?after r) ?Q) d"
  proof (rule wp_mono [OF out])
    fix r e
    assume r: "change_outcome (\<lambda>_ _. True) held ?new (Some ?l) (ss_id (lg_server ?l)) d r e \<and> dialog_frame d e"
    have der: "derived E first (held (sd_vault e))"
      using r inv(2) login_vault [OF c inv(3,2)] unfolding change_outcome_def id by (cases r) auto
    note fr = conjunct2 [OF r, unfolded dialog_frame_def]
    show "wp (?after r) ?Q e"
    proof (cases "r = SERVER_SAVE_OK")
      case True
      then have v: "sd_servers e = ?new" using r by (simp add: change_outcome_def)
      have "login_shown E first (e\<lparr>sd_loaded := (lg_secret ?l \<noteq> [] \<or> lg_key_file ?l \<noteq> [])\<rparr>)"
      proof (cases "sd_loaded d")
        case True
        then show ?thesis
          using inv(3) edited_loaded [OF inv(3) True] False at fr v by (auto simp: login_shown_def Let_def)
      next
        case False
        then show ?thesis using inv(3) fr by (auto simp: login_shown_def edited_login_def lstrcpyn_def)
      qed
      then show ?thesis using True der fr v plain inv(1) by (auto simp: wp dialog_inv_def dialog_wf_def)
    next
      case False
      then have v: "sd_servers e = sd_servers d" using r by (simp add: change_outcome_def)
      have "login_shown E first e" using inv(3) fr v by (simp add: login_shown_def)
      then show ?thesis using False der fr v inv(1) by (simp add: wp dialog_inv_def dialog_wf_def)
    qed
  qed
  then show ?thesis using False by (simp add: dialog_save_server_def wp)
qed

definition out_backed where
  "out_backed E first d \<longleftrightarrow> (sd_ended d = Some True \<longrightarrow> backed E first (lg_server (sd_out d)) (lg_secret (sd_out d)) (lg_key_file (sd_out d)))"

definition untyped :: "dialog_message \<Rightarrow> bool" where
  \<comment> \<open>the message types no secret and picks no key file\<close>
  "untyped m \<longleftrightarrow> (case m of Typed f text \<Rightarrow> f \<noteq> S_SECRET \<and> f \<noteq> S_KEY \<and> 0 \<notin> set text | KeyPicked path \<Rightarrow> False | _ \<Rightarrow> True)"

definition vault_laws :: "('w, 'c) dialog_env \<Rightarrow> 'c credential_manager \<Rightarrow> ('c \<Rightarrow> wstr \<Rightarrow> byte list option) \<Rightarrow> bool" where
  "vault_laws E C held \<longleftrightarrow> compares E \<and> manager_ok (C, held) \<and> logins E = native_store C"

definition going where
  \<comment> \<open>what holds between the messages of a dialog that has not ended\<close>
  "going E held first d \<longleftrightarrow> dialog_inv E held first d \<and> sd_ended d = None"

lemma typed_going:
  assumes "going E held first d" and "f \<noteq> S_SECRET" and "f \<noteq> S_KEY" and "0 \<notin> set x"
  shows "going E held first (set_text f x d)"
  using assms by (cases f) (auto simp: going_def dialog_inv_def dialog_wf_def login_shown_def set_text_def edit_changed_def Let_def split: if_splits)

lemma save_going:
  assumes "vault_laws E C held" and "going E held first d"
  shows "wp (dialog_save_server E) (\<lambda>ok e. going E held first e \<and> sd_selected e = sd_selected d \<and> sd_out e = sd_out d
     \<and> sd_text e = sd_text d \<and> ss_count (sd_servers e) = ss_count (sd_servers d)
     \<and> (ok \<longrightarrow> 0 \<le> sd_selected d \<longrightarrow> sd_loaded d \<longrightarrow> lg_secret (edited_login d) \<noteq> [] \<or> lg_key_file (edited_login d) \<noteq> [] \<longrightarrow> sd_loaded e)) d"
  by (rule wp_mono [OF save_inv [of E C held first d]]) (use assms in \<open>auto simp: vault_laws_def going_def\<close>)

lemma fields_going:
  assumes "vault_laws E C held" and "dialog_wf d" and "derived E first (held (sd_vault d))" and "sd_ended d = None"
  shows "wp (server_fields E) (\<lambda>_ e. going E held first e) d"
  by (rule wp_mono [OF server_fields_inv [of E C held d first]]) (use assms in \<open>auto simp: vault_laws_def going_def\<close>)

lemma forget_going:
  fixes E :: "('w, 'c) dialog_env"
  assumes v: "vault_laws E C held" and g: "going E held first d"
  shows "wp (forget_login E) (\<lambda>_ e. going E held first e) d"
proof (cases "sd_selected d < 0")
  case True
  then show ?thesis using g by (simp add: forget_login_def wp)
next
  case False
  let ?i = "ss_id (server_at (sd_servers d) (sd_selected d))"
  have m: "manager_ok (C, held)" and l: "logins E = native_store C" using v by (simp_all add: vault_laws_def)
  obtain r w where q: "ssh_credentials_delete (native_store C) ?i (sd_vault d) = (r, w)" by fastforce
  have der: "derived E first (held w)"
  proof (cases r)
    case None
    with q obtain t where t: "target_name ?i = Some t" by (auto simp: ssh_credentials_delete_def split: option.splits)
    have "derived E first (held (sd_vault d))" using g by (simp add: going_def dialog_inv_def)
    from derived_removed [OF this]
    show ?thesis unfolding native.delete_spec [OF m, simplified, OF q [unfolded None] t] .
  next
    case (Some x)
    then show ?thesis using delete_fails [OF m q [unfolded Some]] g by (simp add: going_def dialog_inv_def)
  qed
  show ?thesis
    using False q [folded l] der g
    by (auto simp: forget_login_def wp going_def dialog_inv_def dialog_wf_def login_shown_def set_text_def edit_changed_def Let_def split: if_splits)
qed

lemma plain_fresh:
  "plain_servers v \<Longrightarrow> ss_count v < int SSH_SERVER_LIMIT \<Longrightarrow> plain_servers ((put_server v i (fresh_server x n))\<lparr>ss_count := ss_count v + 1\<rparr>)"
  using plain_put [of v "fresh_server x n" i] by (simp add: plain_servers_def servers_wf_def fresh_server_def zero_server_def)

lemma new_going:
  fixes E :: "('w, 'c) dialog_env"
  assumes v: "vault_laws E C held" and g: "going E held first d"
  shows "wp (new_server E) (\<lambda>_ e. going E held first e) d"
proof (cases "ss_count (sd_servers d) \<ge> int SSH_SERVER_LIMIT")
  case True
  then show ?thesis using g by (simp add: new_server_def wp)
next
  case False
  let ?add = "\<lambda>ident d. let n = ss_count (sd_servers d) in
     d\<lparr>sd_selected := n, sd_servers := (put_server (sd_servers d) n (fresh_server ident (n + 1)))\<lparr>ss_count := n + 1\<rparr>\<rparr>"
  let ?rest = "do { ident \<leftarrow> store_new_id (stores E); modify (?add ident); server_fields E }"
  have "wp ?rest (\<lambda>_ e. going E held first e) e" if "going E held first e" "ss_count (sd_servers e) = ss_count (sd_servers d)" for e
  proof -
    have "wp (store_new_id (stores E)) (\<lambda>i e'. wp (server_fields E) (\<lambda>_ e. going E held first e) (?add i e')) e"
    proof (rule wp_mono [OF keeps_wp [OF more_settings(4)]])
      fix i and e' :: "('w, 'c) ServerDialog" assume "Store.more e' = Store.more e"
      note f = more_dialog [OF this]
      have plain: "plain_servers (sd_servers e)" using that by (simp add: going_def dialog_inv_def dialog_wf_def)
      show "wp (server_fields E) (\<lambda>_ e. going E held first e) (?add i e')"
        by (rule fields_going [OF v])
           (use that False f plain_fresh [OF plain] in \<open>simp_all add: going_def dialog_inv_def dialog_wf_def Let_def\<close>)
    qed
    then show ?thesis by (simp add: wp_bind wp_modify_fun)
  qed
  then have "wp (dialog_save_server E) (\<lambda>ok. wp (if \<not> ok then ret () else ?rest) (\<lambda>_ e. going E held first e)) d"
    by (intro wp_mono [OF save_going [OF v g]]) (auto simp: wp)
  then show ?thesis using False by (simp add: new_server_def wp)
qed

lemma select_going:
  fixes E :: "('w, 'c) dialog_env"
  assumes v: "vault_laws E C held" and g: "going E held first d"
  shows "wp (select_server E i) (\<lambda>_ e. going E held first e) d"
proof (cases "i = sd_selected d \<or> i < 0 \<or> i \<ge> ss_count (sd_servers d)")
  case True
  then show ?thesis using g by (auto simp: select_server_def wp)
next
  case False
  have "wp (server_fields E) (\<lambda>_ e. going E held first e) (e\<lparr>sd_selected := i\<rparr>)"
    if "going E held first e" "ss_count (sd_servers e) = ss_count (sd_servers d)" for e
    by (rule fields_going [OF v]) (use that False in \<open>auto simp: going_def dialog_inv_def dialog_wf_def\<close>)
  then have "wp (dialog_save_server E) (\<lambda>ok. wp (if ok then do { modify (\<lambda>d. d\<lparr>sd_selected := i\<rparr>); server_fields E } else ret ())
      (\<lambda>_ e. going E held first e)) d"
    by (intro wp_mono [OF save_going [OF v g]]) (auto simp: wp)
  then show ?thesis using False by (simp add: select_server_def wp)
qed

lemma plain_without:
  assumes "plain_servers v" and "0 \<le> i" and "i < ss_count v"
  shows "plain_servers (without_server v i)" and "ss_count (without_server v i) = ss_count v - 1"
proof -
  have n: "nat i < nat (ss_count v)" "nat (ss_count v) \<le> length (ss_items v)"
    using assms by (auto simp: plain_servers_def servers_wf_def)
  have "length (ss_items (without_server v i)) = length (ss_items v)"
  proof -
    have "length (take k xs @ take (n - k - 1) (drop (k + 1) xs) @ drop (n - 1) xs) = length xs"
      if "k < n" "n \<le> length xs" for k n and xs :: "SshServer list"
      using that by (simp add: min_absorb2)
    from this [OF n] show ?thesis by (simp add: without_server_def Let_def)
  qed
  moreover have "set (ss_items (without_server v i)) \<subseteq> set (ss_items v)"
    unfolding without_server_def Let_def by (auto dest: in_set_takeD in_set_dropD)
  ultimately show "plain_servers (without_server v i)"
    using assms by (auto simp: plain_servers_def servers_wf_def without_server_def Let_def)
  show "ss_count (without_server v i) = ss_count v - 1" by (simp add: without_server_def Let_def)
qed

lemma remove_going:
  fixes E :: "('w, 'c) dialog_env"
  assumes v: "vault_laws E C held" and g: "going E held first d"
  shows "wp (remove_server E) (\<lambda>_ e. going E held first e) d"
proof (cases "sd_selected d < 0")
  case True
  then show ?thesis using g by (simp add: remove_server_def wp)
next
  case False
  let ?i = "sd_selected d" and ?v = "sd_servers d"
  let ?new = "without_server ?v ?i" and ?id = "ss_id (server_at ?v ?i)"
  have g': "dialog_wf d" "derived E first (held (sd_vault d))" "login_shown E first d" "sd_ended d = None"
    using g by (simp_all add: going_def dialog_inv_def)
  have sel: "?i < ss_count ?v" and plain: "plain_servers ?v" using g'(1) by (simp_all add: dialog_wf_def)
  note new = plain_without [OF plain _ sel]
  have m: "manager_ok (C, held)" and l: "logins E = native_store C" using v by (simp_all add: vault_laws_def)
  have "wp (store_save_ssh_servers (stores E) ?new) (\<lambda>ok e. True \<and> Store.more e = Store.more (d\<lparr>sd_vault := x\<rparr>)) (d\<lparr>sd_vault := x\<rparr>)" for x
    using keeps_wp [OF more_servers, of "stores E" ?new "d\<lparr>sd_vault := x\<rparr>"] by simp
  note out = persist_outcome [of C held E "\<lambda>_ _. True" d ?new None ?id, OF m l _ _ _ this, simplified]
  let ?pick = "\<lambda>d. d\<lparr>sd_selected := (if ss_count ?new \<noteq> 0 then min (sd_selected d) (ss_count ?new - 1) else - 1)\<rparr>"
  let ?after = "\<lambda>r. if r = SERVER_SAVE_OK then do { modify ?pick; server_fields E } else ret ()"
  have "wp (persist_server_change E ?new None ?id) (\<lambda>r. wp (?after r) (\<lambda>_ e. going E held first e)) d"
  proof (rule wp_mono [OF out])
    fix r e
    assume r: "change_outcome (\<lambda>_ _. True) held ?new None ?id d r e \<and> dialog_frame d e"
    have der: "derived E first (held (sd_vault e))"
      using r g'(2) derived_removed [OF g'(2)] unfolding change_outcome_def vault_after_def by (cases r) auto
    note fr = conjunct2 [OF r, unfolded dialog_frame_def]
    show "wp (?after r) (\<lambda>_ e. going E held first e) e"
    proof (cases "r = SERVER_SAVE_OK")
      case True
      then have sv: "sd_servers e = ?new" using r by (simp add: change_outcome_def)
      have "wp (server_fields E) (\<lambda>_ e. going E held first e) (?pick e)"
        by (rule fields_going [OF v]) (use der fr sv new False sel g'(4) in \<open>auto simp: dialog_wf_def\<close>)
      then show ?thesis using True by (simp add: wp)
    next
      case False
      then have "sd_servers e = ?v" using r by (simp add: change_outcome_def)
      then show ?thesis using False der fr g' by (simp add: wp going_def dialog_inv_def dialog_wf_def login_shown_def)
    qed
  qed
  then show ?thesis using False by (simp add: remove_server_def wp)
qed

lemma dialog_inv_out [simp]:
  "dialog_inv E held first (e\<lparr>sd_out := x, sd_ended := y\<rparr>) = dialog_inv E held first e"
  by (simp add: dialog_inv_def dialog_wf_def login_shown_def)

lemma connect_going:
  fixes E :: "('w, 'c) dialog_env"
  assumes v: "vault_laws E C held" and g: "going E held first d"
  shows "wp (connect_clicked E) (\<lambda>_ e. dialog_inv E held first e \<and> out_backed E first e) d"
proof -
  define out where "out = (sd_out d)\<lparr>lg_secret := lstrcpyn (sd_text d S_SECRET) 512, lg_key_file := lstrcpyn (sd_text d S_KEY) 260\<rparr>"
  let ?d = "d\<lparr>sd_out := out\<rparr>"
  have gd: "going E held first ?d"
    using g by (simp add: going_def dialog_inv_def dialog_wf_def login_shown_def)
  have plain: "dialog_inv E held first e \<and> out_backed E first e" if "going E held first e" for e
    using that by (simp add: going_def out_backed_def)
  show ?thesis
  proof (cases "lg_secret out = [] \<and> lg_key_file out = [] \<or> sd_selected d < 0")
    case True
    then show ?thesis using plain [OF gd] by (auto simp: connect_clicked_def wp out_def [symmetric])
  next
    case False
    have loaded: "sd_loaded d"
    proof (rule ccontr)
      assume "\<not> sd_loaded d"
      then have "sd_text d S_SECRET = [] \<and> sd_text d S_KEY = []" using g by (simp add: going_def dialog_inv_def login_shown_def)
      then show False using False by (simp add: out_def lstrcpyn_def)
    qed
    have some: "lg_secret (edited_login ?d) \<noteq> [] \<or> lg_key_file (edited_login ?d) \<noteq> []"
      using False by (simp add: edited_login_def out_def)
    let ?after = "\<lambda>ok. if ok then modify (\<lambda>e. e\<lparr>sd_out := (sd_out e)\<lparr>lg_server := server_at (sd_servers e) (sd_selected ?d)\<rparr>, sd_ended := Some True\<rparr>) else ret ()"
    have "wp (dialog_save_server E) (\<lambda>ok. wp (?after ok) (\<lambda>_ e. dialog_inv E held first e \<and> out_backed E first e)) ?d"
    proof (rule wp_mono [OF save_going [OF v gd]])
      fix ok e
      assume e: "going E held first e \<and> sd_selected e = sd_selected ?d \<and> sd_out e = sd_out ?d
        \<and> sd_text e = sd_text ?d \<and> ss_count (sd_servers e) = ss_count (sd_servers ?d)
        \<and> (ok \<longrightarrow> 0 \<le> sd_selected ?d \<longrightarrow> sd_loaded ?d \<longrightarrow> lg_secret (edited_login ?d) \<noteq> [] \<or> lg_key_file (edited_login ?d) \<noteq> [] \<longrightarrow> sd_loaded e)"
      show "wp (?after ok) (\<lambda>_ e. dialog_inv E held first e \<and> out_backed E first e) e"
      proof (cases ok)
        case True
        then have ld: "sd_loaded e" using e False loaded some by simp
        have i: "login_shown E first e" using e by (simp add: going_def dialog_inv_def)
        then have b: "backed E first (server_at (sd_servers e) (sd_selected d)) (sd_text d S_SECRET) (sd_text d S_KEY)"
          using ld e by (simp add: login_shown_def Let_def)
        have "lg_secret out = sd_text d S_SECRET" "lg_key_file out = sd_text d S_KEY"
          using backed_valid(1,2) [OF b] by (simp_all add: out_def terminated_def lstrcpyn_short)
        then show ?thesis using True b e by (simp add: wp out_backed_def going_def)
      next
        case False
        then show ?thesis using plain [OF conjunct1 [OF e]] by (simp add: wp)
      qed
    qed
    then show ?thesis using False by (auto simp: connect_clicked_def wp out_def [symmetric])
  qed
qed

lemma message_going:
  fixes E :: "('w, 'c) dialog_env"
  assumes v: "vault_laws E C held" and g: "going E held first d" and m: "untyped m"
  shows "wp (server_proc E m) (\<lambda>_ e. dialog_inv E held first e \<and> out_backed E first e) d"
proof -
  have keep: "dialog_inv E held first e \<and> out_backed E first e" if "going E held first e" for e
    using that by (simp add: going_def out_backed_def)
  note steps = wp_mono [OF new_going [OF v g] keep] wp_mono [OF select_going [OF v g] keep]
    wp_mono [OF forget_going [OF v g] keep] wp_mono [OF remove_going [OF v g] keep] connect_going [OF v g]
  show ?thesis
  proof (cases m)
    case (Typed f x)
    then show ?thesis using keep [OF typed_going [OF g]] m by (simp add: server_proc_def wp untyped_def)
  next
    case SaveClicked
    have "wp (dialog_save_server E) (\<lambda>_ e. dialog_inv E held first e \<and> out_backed E first e) d"
      by (rule wp_mono [OF save_going [OF v g]]) (use keep in blast)
    then show ?thesis using SaveClicked by (simp add: server_proc_def wp)
  next
    case CancelClicked
    then show ?thesis using g
      by (simp add: server_proc_def wp going_def out_backed_def dialog_inv_def dialog_wf_def login_shown_def)
  qed (use steps m in \<open>simp_all add: server_proc_def untyped_def\<close>)
qed

lemma loop_backed:
  fixes E :: "('w, 'c) dialog_env"
  assumes v: "vault_laws E C held" and "dialog_inv E held first d" and "out_backed E first d" and "list_all untyped ms"
  shows "wp (dialog_loop E ms) (\<lambda>_ e. dialog_inv E held first e \<and> out_backed E first e) d"
  using assms(2-4)
proof (induction ms arbitrary: d)
  case (Cons m ms)
  show ?case
  proof (cases "sd_ended d = None")
    case True
    then have "wp (server_proc E m) (\<lambda>_ e. dialog_inv E held first e \<and> out_backed E first e) d"
      using message_going [OF v, of first d m] Cons.prems by (simp add: going_def)
    then show ?thesis using True Cons by (auto simp: wp elim!: wp_mono)
  qed (use Cons.prems in \<open>simp add: wp\<close>)
qed (simp add: wp)

subsection \<open>From the store to the login\<close>

lemma read_plain:
  fixes s :: "('w, 'z) Store_scheme"
  shows "wp (read_setting E a b c n) (\<lambda>r s'. \<forall>t. r = Some t \<longrightarrow> 0 \<notin> set t) s"
proof -
  have "0 \<notin> set (c_text v)" for v by (auto simp: c_text_def dest: set_takeWhileD)
  then show ?thesis
    unfolding read_setting_def wp_bind by (rule_tac wpI) (auto simp: wp split: option.splits)
qed

lemma read_then:
  fixes s :: "('w, 'z) Store_scheme"
  assumes "\<And>t s. 0 \<notin> set t \<Longrightarrow> wp (f t) Q s" and "\<And>s. Q None s"
  shows "wp (do { r \<leftarrow> read_setting E a b c n; case r of None \<Rightarrow> ret None | Some t \<Rightarrow> f t }) Q s"
  unfolding wp_bind
  by (rule wp_mono [OF read_plain]) (use assms in \<open>auto simp: wp split: option.splits\<close>)

lemma or_none: "(\<not> b \<Longrightarrow> wp c Q s) \<Longrightarrow> Q None s \<Longrightarrow> wp (if b then ret None else c) Q s"
  by (simp add: wp)

definition plain_server :: "SshServer option \<Rightarrow> bool" where
  "plain_server x \<longleftrightarrow> (\<forall>s. x = Some s \<longrightarrow> 0 \<notin> set (ss_host s) \<and> 0 \<notin> set (ss_user s))"

lemma load_server_plain:
  fixes s :: "('w, 'z) Store_scheme"
  shows "wp (load_server E i) (\<lambda>r s'. plain_server r) s"
proof -
  have none: "plain_server None" by (simp add: plain_server_def)
  have rest: "wp (do { directory \<leftarrow> read_setting E a b c n;
      ret (case directory of None \<Rightarrow> None
           | Some directory \<Rightarrow> Some \<lparr>ss_id = x, ss_name = name, ss_host = host, ss_user = user, ss_directory = directory, ss_port = port\<rparr>) })
      (\<lambda>r s'. plain_server r) s"
    if "0 \<notin> set host" "0 \<notin> set user" for a b c n x name host user port and s :: "('w, 'z) Store_scheme"
    using that none by (auto simp: wp_bind wp plain_server_def intro!: wpI split: option.splits)
  show ?thesis
    unfolding load_server_def Let_def
    by (intro read_then or_none rest none)
qed

lemma load_servers_plain:
  fixes s :: "('w, 'z) Store_scheme"
  assumes "\<forall>x \<in> set before. plain_server (Some x)"
  shows "wp (load_servers E n before) (\<lambda>r s'. \<forall>xs. r = Some xs \<longrightarrow> length xs = length before + n \<and> (\<forall>x \<in> set xs. plain_server (Some x))) s"
  using assms
proof (induction n arbitrary: before s)
  case (Suc n)
  show ?case
    unfolding load_servers.simps wp_bind
  proof (rule wp_mono [OF load_server_plain])
    fix r and s' :: "('w, 'z) Store_scheme" assume r: "plain_server r"
    show "wp (case r of None \<Rightarrow> ret None | Some x \<Rightarrow> load_servers E n (before @ [x]))
      (\<lambda>r s'. \<forall>xs. r = Some xs \<longrightarrow> length xs = length before + Suc n \<and> (\<forall>x \<in> set xs. plain_server (Some x))) s'"
    proof (cases r)
      case (Some x)
      have "\<forall>y \<in> set (before @ [x]). plain_server (Some y)" using r Some Suc.prems by auto
      show ?thesis unfolding Some option.case
        using Suc.IH [OF \<open>\<forall>y \<in> set (before @ [x]). plain_server (Some y)\<close>, of s'] by simp
    qed (simp add: wp)
  qed
qed (simp add: wp)

lemma array_plain:
  assumes "\<forall>x \<in> set xs. plain_server (Some x)" and "length xs \<le> SSH_SERVER_LIMIT"
  shows "plain_servers (server_array xs)"
  using assms by (auto simp: plain_servers_def servers_wf_def server_array_def plain_server_def zero_server_def)

lemma load_servers_wp:
  fixes s :: "('w, 'z) Store_scheme"
  shows "wp (store_load_ssh_servers E) (\<lambda>r s'. Store.more s' = Store.more s \<and> (\<forall>v. r = Some v \<longrightarrow> plain_servers v \<and> 0 \<le> ss_count v)) s"
proof (rule wp_conj [OF keeps_wp [OF more_load_servers]])
  let ?Q = "\<lambda>r (s' :: ('w, 'z) Store_scheme). \<forall>v. r = Some v \<longrightarrow> plain_servers v \<and> 0 \<le> ss_count v"
  have zero: "plain_servers zero_servers \<and> 0 \<le> ss_count zero_servers"
    by (simp add: plain_servers_def servers_wf_def zero_servers_def zero_server_def)
  have all: "wp (do { ss \<leftarrow> load_servers E n [];
        ret (case ss of None \<Rightarrow> None
             | Some ss \<Rightarrow> if b ss then Some (server_array ss) else None) }) ?Q s"
    if "n \<le> SSH_SERVER_LIMIT" for n b and s :: "('w, 'z) Store_scheme"
    unfolding wp_bind
    by (rule wp_mono [OF load_servers_plain]) (use that array_plain in \<open>auto simp: wp server_array_def split: option.splits if_splits\<close>)
  have stored: "wp (do {
       version \<leftarrow> read_setting E SERVERS (W ''Servers'') (W ''Version'') 64;
       if version \<noteq> Some (W ''1'') then ret None
       else do {
         text \<leftarrow> read_setting E SERVERS (W ''Servers'') (W ''Count'') 64;
         case text of None \<Rightarrow> ret None | Some text \<Rightarrow>
         if text = [] \<or> p_rest (wcstol text) \<noteq> [] \<or> p_value (wcstol text) < 0 \<or> p_value (wcstol text) > int SSH_SERVER_LIMIT then ret None
         else do {
           ss \<leftarrow> load_servers E (nat (p_value (wcstol text))) [];
           ret (case ss of None \<Rightarrow> None | Some ss \<Rightarrow> if rows = 2 + p_value (wcstol text) * 6 \<and> ssh_servers_valid (Some (server_array ss))
                             then Some (server_array ss) else None) } } }) ?Q s" for rows and s :: "('w, 'z) Store_scheme"
    by (subst wp_bind, rule wp_mono [OF read_plain]) (intro or_none read_then all; simp add: nat_le_iff)
  show "wp (store_load_ssh_servers E) ?Q s"
    unfolding store_load_ssh_servers_def Let_def
    by (subst wp_bind, rule wpI) (use stored zero in \<open>auto simp: wp_return split: option.split\<close>)
qed

lemma first_match_less:
  assumes "0 \<le> ss_count v"
  shows "first_match i v < ss_count v"
proof (cases "filter (\<lambda>k. i = 0 \<or> ss_id (ss_items v ! k) = i) [0..<nat (ss_count v)]")
  case (Cons k ks)
  then have "k \<in> set [0..<nat (ss_count v)]" by (metis filter_is_subset list.set_intros(1) subsetD)
  then show ?thesis using Cons by (simp add: first_match_def)
qed (use assms in \<open>simp add: first_match_def\<close>)

lemma init_going:
  fixes E :: "('w, 'c) dialog_env"
  assumes v: "vault_laws E C held" and p: "plain_servers (sd_servers d)" "sd_selected d < ss_count (sd_servers d)"
    and h: "held (sd_vault d) = first" and e: "sd_ended d = None"
  shows "wp (init_dialog E) (\<lambda>_ e. going E held first e) d"
proof -
  have der: "derived E first first" by (rule derived_refl) (use v in \<open>simp add: vault_laws_def\<close>)
  show ?thesis
  proof (cases "ss_count (sd_servers d) = 0 \<and> \<not> sd_fixed d")
    case False
    then show ?thesis
      using fields_going [OF v, of d first] p h e der by (auto simp: init_dialog_def wp dialog_wf_def)
  next
    case True
    let ?first = "\<lambda>ident d. d\<lparr>sd_selected := 0, sd_servers := (put_server (sd_servers d) 0
          ((server_at (sd_servers d) 0)\<lparr>ss_id := ident, ss_port := 22, ss_name := W ''Server 1'', ss_directory := W ''/''\<rparr>))\<lparr>ss_count := 1\<rparr>\<rparr>"
    have "ss_items (sd_servers d) ! 0 \<in> set (ss_items (sd_servers d))"
      using p(1) by (intro nth_mem) (simp add: plain_servers_def servers_wf_def SSH_SERVER_LIMIT_def)
    then have "0 \<notin> set (ss_host (server_at (sd_servers d) 0))" "0 \<notin> set (ss_user (server_at (sd_servers d) 0))"
      using p(1) by (simp_all add: plain_servers_def server_at_def)
    then have "plain_servers (put_server (sd_servers d) 0
          ((server_at (sd_servers d) 0)\<lparr>ss_id := i, ss_port := 22, ss_name := W ''Server 1'', ss_directory := W ''/''\<rparr>))" for i
      using p(1) by (intro plain_put) simp_all
    then have plain: "plain_servers ((put_server (sd_servers d) 0
          ((server_at (sd_servers d) 0)\<lparr>ss_id := i, ss_port := 22, ss_name := W ''Server 1'', ss_directory := W ''/''\<rparr>))\<lparr>ss_count := 1\<rparr>)" for i
      by (simp add: plain_servers_def servers_wf_def SSH_SERVER_LIMIT_def)
    have "wp (store_new_id (stores E)) (\<lambda>i d'. wp (server_fields E) (\<lambda>_ e. going E held first e) (?first i d')) d"
    proof (rule wp_mono [OF keeps_wp [OF more_settings(4)]])
      fix i and d' :: "('w, 'c) ServerDialog" assume "Store.more d' = Store.more d"
      note f = more_dialog [OF this]
      show "wp (server_fields E) (\<lambda>_ e. going E held first e) (?first i d')"
        by (rule fields_going [OF v]) (use f plain h e der in \<open>simp_all add: dialog_wf_def\<close>)
    qed
    then show ?thesis using True by (simp add: init_dialog_def wp_bind wp_gets wp_modify_fun wp_if)
  qed
qed

text \<open>C39 (safety): A login that was stored goes only to the target it was stored for. Whatever the user does in the dialog -
  edits, adds, removes, saves, selects, forgets profiles, in any order and with any call failing - as long as no secret is
  typed and no key file picked: the login that the dialog gives to the connection is one that the credential store held
  when the dialog was opened, for the same server identifier, the same port, host and user.\<close>
theorem stored_login_keeps_target:
  fixes E :: "('w, 'c) dialog_env"
  assumes "reflp (ieq (stores E)) \<and> transp (ieq (stores E)) \<and> reflp (same E) \<and> transp (same E)"
    and "manager_ok (C, held)" and "logins E = native_store C" and "list_all untyped ms"
    and "run_state (ssh_choose_server E fixed_id ms) d = (Some login, e)"
  shows "\<exists>t b. target_name (ss_id (lg_server login)) = Some t \<and> held (sd_vault d) t = Some b
     \<and> valid_record b (ss_id (lg_server login)) = None
     \<and> int (cr_port (record_of_bytes b)) = ss_port (lg_server login)
     \<and> ieq (stores E) (array_text (cr_host (record_of_bytes b))) (ss_host (lg_server login))
     \<and> same E (array_text (cr_user (record_of_bytes b))) (ss_user (lg_server login))
     \<and> lg_secret login = array_text (cr_secret (record_of_bytes b)) \<and> lg_key_file login = array_text (cr_key_file (record_of_bytes b))"
proof -
  have v: "vault_laws E C held" using assms(1-3) by (simp add: vault_laws_def compares_def)
  let ?first = "held (sd_vault d)"
  let ?run = "do { init_dialog E; dialog_loop E ms; ended \<leftarrow> gets sd_ended; login \<leftarrow> gets sd_out;
      ret (if ended = Some True then Some login else None) }"
  have run: "wp ?run (\<lambda>r _. \<forall>x. r = Some x \<longrightarrow> backed E ?first (lg_server x) (lg_secret x) (lg_key_file x)) u"
    if u: "plain_servers (sd_servers u)" "sd_selected u < ss_count (sd_servers u)" "held (sd_vault u) = ?first" "sd_ended u = None" for u
    unfolding wp_bind
  proof (rule wp_mono [OF init_going [OF v u]])
    fix x1 and u1 :: "('w, 'c) ServerDialog" assume "going E held ?first u1"
    then have "wp (dialog_loop E ms) (\<lambda>_ e. dialog_inv E held ?first e \<and> out_backed E ?first e) u1"
      by (intro loop_backed [OF v _ _ assms(4)]) (simp_all add: going_def out_backed_def)
    then show "wp (dialog_loop E ms) (\<lambda>_. wp (gets sd_ended) (\<lambda>ended. wp (gets sd_out) (\<lambda>login.
        wp (ret (if ended = Some True then Some login else None))
          (\<lambda>r _. \<forall>x. r = Some x \<longrightarrow> backed E ?first (lg_server x) (lg_secret x) (lg_key_file x))))) u1"
      by (rule wp_mono) (auto simp: wp_gets wp_return out_backed_def)
  qed
  have "wp (ssh_choose_server E fixed_id ms) (\<lambda>r _. \<forall>x. r = Some x \<longrightarrow> backed E ?first (lg_server x) (lg_secret x) (lg_key_file x)) d"
    unfolding ssh_choose_server_def wp_bind [of "store_load_ssh_servers (stores E)"]
  proof (rule wp_mono [OF load_servers_wp])
    fix r and u :: "('w, 'c) ServerDialog"
    assume r: "Store.more u = Store.more d \<and> (\<forall>v. r = Some v \<longrightarrow> plain_servers v \<and> 0 \<le> ss_count v)"
    note f = more_dialog [OF conjunct1 [OF r]]
    show "wp (case r of None \<Rightarrow> ret None
     | Some v \<Rightarrow>
         if fixed_id \<noteq> 0 \<and> first_match fixed_id v < 0 then ret None
         else do {
           modify (\<lambda>d. d\<lparr>sd_servers := v, sd_out := zero_login, sd_selected := first_match fixed_id v, sd_fixed := (fixed_id \<noteq> 0),
             sd_loading := False, sd_loaded := False, sd_text := (\<lambda>_. []), sd_ended := None\<rparr>);
           ?run }) (\<lambda>r _. \<forall>x. r = Some x \<longrightarrow> backed E ?first (lg_server x) (lg_secret x) (lg_key_file x)) u"
    proof (cases r)
      case (Some x)
      then have x: "plain_servers x" "first_match fixed_id x < ss_count x" using r first_match_less by simp_all
      show ?thesis
        unfolding Some option.case
        by (intro or_none) (subst wp_bind, unfold wp_modify_fun, rule run, use x f(1) in simp_all)
    qed (simp add: wp)
  qed
  from wpD [OF this assms(5)] show ?thesis by (auto simp: backed_def)
qed

subsection \<open>An instance\<close>

definition desk_dialog :: "(nat, wstr \<Rightarrow> byte list option) dialog_env" where
  "desk_dialog = \<lparr>stores = rest_store, same = (=), logins = native_store vault_manager\<rparr>"

definition desk_empty :: "(nat, wstr \<Rightarrow> byte list option) ServerDialog" where
  \<comment> \<open>a store without profiles, and the credential of one server\<close>
  "desk_empty = \<lparr>db = empty_db, begun = None, world = 0, restore_errors = 0, is_open = True, transaction_failed = False,
     is_opening = False, open_changed = False, root = W ''d'', legacy_root = W ''d'', sd_vault = sample_vault,
     sd_servers = zero_servers, sd_out = zero_login, sd_selected = -1, sd_fixed = False, sd_loading = False, sd_loaded = False,
     sd_text = (\<lambda>_. []), sd_ended = None\<rparr>"

definition desk_saved :: "(nat, wstr \<Rightarrow> byte list option) ServerDialog" where
  "desk_saved = snd (run_state (store_save_ssh_servers rest_store one_saved_server) desk_empty)"

lemma one_valid: "ssh_servers_valid (Some one_saved_server)" by code_simp

lemma rest_saves_one:
  "idle s \<Longrightarrow> fst (run_state (store_save_ssh_servers rest_store one_saved_server) s)"
  using one_valid by (simp add: store_save_ssh_servers_def transaction_def write_servers_def save_server_def and_then_def
      one_saved_server_def server_array_def idle_def)

lemma desk_run: "run_state (store_save_ssh_servers rest_store one_saved_server) desk_empty = (True, desk_saved)"
  using rest_saves_one [of desk_empty] by (simp add: desk_saved_def idle_def desk_empty_def prod_eq_iff)

lemma desk_facts: "idle desk_saved" "Store.more desk_saved = Store.more desk_empty"
proof -
  have i: "idle desk_empty" by (simp add: idle_def desk_empty_def)
  from wpD [OF save_servers_wp [OF rest_store_ok i] desk_run]
  show "idle desk_saved" "Store.more desk_saved = Store.more desk_empty" by (simp_all add: idle_def all_or_nothing_def)
qed

lemmas desk_more = more_dialog [OF desk_facts(2)]

lemma rest_loads_one:
  fixes r :: "SshServers option"
  assumes "run_state (store_load_ssh_servers rest_store) desk_saved = (r, u)"
  shows "r = Some one_saved_server"
proof -
  have plain: "\<forall>x \<in> set (ss_items one_saved_server). server_plain x"
    by (auto simp: one_saved_server_def server_array_def server_plain_def W_Cons LLONG_MAX_def zero_server_def SSH_SERVER_LIMIT_def)
  have "r = Some (server_array (take (nat (ss_count one_saved_server)) (ss_items one_saved_server))) \<and> db u = db desk_saved"
    by (rule ssh_servers_roundtrip [OF rest_store_ok _ _ _ plain desk_run rest_answers assms])
      (simp_all add: empty_db_def one_saved_server_def server_array_def SSH_SERVER_LIMIT_def desk_empty_def idle_def)
  moreover have "server_array (take (nat (ss_count one_saved_server)) (ss_items one_saved_server)) = one_saved_server"
    by (simp add: one_saved_server_def server_array_def)
  ultimately show ?thesis by simp
qed

lemma rest_reads: "keeps (\<lambda>s. s) (store_load_ssh_servers rest_store)"
proof -
  have sql: "keeps (\<lambda>s. s) (lift (sql_ok rest_store))" by (simp add: keeps_def wp_def run_sql)
  have call: "keeps (\<lambda>s. s) (prepare rest_store)" "keeps (\<lambda>s. s) (bind_text rest_store)"
    by (simp_all add: keeps_def wp_def prepare_def bind_text_def)
  have read: "keeps (\<lambda>s. s) (read_setting rest_store SERVERS b c n)" for b c n
    unfolding read_setting_def select_row_def SERVERS_def if_P [OF refl] by (intro keeps call sql) (simp add: list_all_iff call)
  have one: "keeps (\<lambda>s. s) (load_server rest_store i)" for i
    unfolding load_server_def Let_def by (intro keeps read)
  have all: "keeps (\<lambda>s. s) (load_servers rest_store n before)" for n before
    by (induction n arbitrary: before) (auto intro!: keeps one)
  show ?thesis
    unfolding store_load_ssh_servers_def count_rows_def Let_def by (intro keeps read call sql all)
qed

lemma desk_load: "run_state (store_load_ssh_servers rest_store) desk_saved = (Some one_saved_server, desk_saved)"
proof -
  obtain r u where r: "run_state (store_load_ssh_servers rest_store) desk_saved = (r, u)" by (cases "run_state (store_load_ssh_servers rest_store) desk_saved")
  then show ?thesis using rest_loads_one [OF r] keepsD [OF rest_reads r] by simp
qed

definition desk_shown :: "(nat, wstr \<Rightarrow> byte list option) ServerDialog" where
  \<comment> \<open>the dialog with the profile and its login in the controls\<close>
  "desk_shown = desk_saved\<lparr>sd_servers := one_saved_server, sd_out := zero_login, sd_selected := 0, sd_fixed := True, sd_loaded := True,
     sd_text := (\<lambda>_. [])(S_NAME := W ''n'', S_HOST := W ''h'', S_PORT := dec 22, S_USER := W ''u'', S_DIR := W ''/'', S_SECRET := W ''pw'', S_KEY := []),
     sd_loading := False, sd_ended := None\<rparr>"

lemma one_server: "server_at one_saved_server 0 = lg_server sample_login" "ss_count one_saved_server = 1" "first_match 7 one_saved_server = 0"
  by (simp_all add: one_saved_server_def server_array_def server_at_def sample_login_def first_match_def)

lemma zero_is_sample: "zero_login\<lparr>lg_server := lg_server sample_login\<rparr> = sample_login\<lparr>lg_secret := []\<rparr>"
  by (simp add: zero_login_def sample_login_def)

lemma desk_shows:
  assumes "sd_servers d = one_saved_server" "sd_selected d = 0" "sd_vault d = sample_vault"
  shows "run_state (server_fields desk_dialog) d = ((), d\<lparr>sd_text := (sd_text d)(S_NAME := W ''n'', S_HOST := W ''h'', S_PORT := dec 22,
     S_USER := W ''u'', S_DIR := W ''/'', S_SECRET := W ''pw'', S_KEY := []), sd_loaded := True, sd_loading := False\<rparr>)"
proof -
  let ?s = "lg_server sample_login"
  have ld: "ssh_credentials_load (=) (=) (native_store vault_manager) (zero_login\<lparr>lg_server := ?s\<rparr>) sample_vault = ((Inr True, sample_login), sample_vault)"
    unfolding zero_is_sample by (rule sample_load)
  have s: "ss_id ?s = 7" "ss_name ?s = W ''n''" "ss_host ?s = W ''h''" "ss_user ?s = W ''u''" "ss_directory ?s = W ''/''" "ss_port ?s = 22"
    "lg_secret sample_login = W ''pw''" "lg_key_file sample_login = []"
    by (simp_all add: sample_login_def)
  have eq: "ieq rest_store = (=)" by (simp add: rest_store_def)
  have v: "d\<lparr>sd_vault := sample_vault\<rparr> = d" using assms(3) by (cases d) simp
  show ?thesis
    unfolding server_fields_def
    using assms by (simp add: one_server desk_dialog_def vaulted_def ld s eq W_Cons)
qed

lemma sample_saved_again: "ssh_credentials_save (native_store vault_manager) sample_login sample_vault = (None, sample_vault)"
  using sample_facts
  by (simp add: ssh_credentials_save_def sample_login_def native_store_def native_write_def vault_manager_def sample_vault_def)

lemma desk_store:
  fixes d :: "(nat, wstr \<Rightarrow> byte list option) ServerDialog"
  assumes "idle d"
  shows "wp (store_save_ssh_servers rest_store one_saved_server) (\<lambda>ok e. ok \<and> idle e \<and> Store.more e = Store.more d) d"
proof (rule wpI)
  fix ok and e :: "(nat, wstr \<Rightarrow> byte list option) ServerDialog" assume r: "run_state (store_save_ssh_servers rest_store one_saved_server) d = (ok, e)"
  from wpD [OF save_servers_wp [OF rest_store_ok assms] r] rest_saves_one [OF assms] r
  show "ok \<and> idle e \<and> Store.more e = Store.more d" by (simp add: idle_def all_or_nothing_def)
qed

lemma desk_sel: "stores desk_dialog = rest_store" "logins desk_dialog = native_store vault_manager"
  by (simp_all add: desk_dialog_def)

lemma desk_persist:
  assumes d: "idle d" and v: "sd_vault d = sample_vault"
  shows "wp (persist_server_change desk_dialog one_saved_server (Some sample_login) rid)
    (\<lambda>r e. r = SERVER_SAVE_OK \<and> idle e \<and> sd_servers e = one_saved_server \<and> dialog_frame d e) d"
proof -
  have id: "ss_id (lg_server sample_login) = 7" by (simp add: sample_login_def)
  have same: "d\<lparr>sd_vault := sample_vault\<rparr> = d" using v by (cases d) simp
  have "wp (store_save_ssh_servers rest_store one_saved_server)
      (\<lambda>ok. wp (if ok then do { modify (\<lambda>d. d\<lparr>sd_servers := one_saved_server\<rparr>); ret SERVER_SAVE_OK }
          else do { u \<leftarrow> vaulted (ssh_credentials_restore (logins desk_dialog) 7 \<lparr>sn_bytes = record_bytes (login_record sample_login), sn_exists = True\<rparr>);
                    ret (if u = None then SERVER_SAVE_CONFIG_ERROR else SERVER_SAVE_ROLLBACK_ERROR) })
        (\<lambda>r e. r = SERVER_SAVE_OK \<and> idle e \<and> sd_servers e = one_saved_server \<and> dialog_frame d e)) d"
    by (rule wp_mono [OF desk_store [OF d]]) (auto simp: wp dialog_frame_def idle_def dest: more_dialog)
  then show ?thesis
    using one_valid sample_snapshot [folded desk_sel(2)] sample_saved_again [folded desk_sel(2)]
    by (simp add: persist_server_change_def wp id desk_sel(1) v same)
qed

lemma desk_edited:
  assumes "sd_servers d = one_saved_server" "sd_selected d = 0" "sd_text d = sd_text desk_shown"
  shows "edited_login d = sample_login" "put_server one_saved_server 0 (edited_server d) = one_saved_server"
proof -
  have p: "wcstol (dec 22) = \<lparr>p_value = 22, p_rest = [], p_range = False\<rparr>" by (rule wcstol_dec) (simp_all add: LONG_MIN_def LONG_MAX_def)
  have n: "lstrcpyn (dec 22) 24 = dec 22" by code_simp
  have e: "edited_server d = lg_server sample_login"
    using assms p n by (simp add: edited_server_def one_server desk_shown_def sample_login_def lstrcpyn_def W_Cons SSH_NAME_CAP_def SSH_PATH_CAP_def)
  show "edited_login d = sample_login"
    using assms by (simp add: edited_login_def e zero_login_def desk_shown_def sample_login_def lstrcpyn_def W_Cons)
  show "put_server one_saved_server 0 (edited_server d) = one_saved_server"
    unfolding e by (simp add: put_server_def one_saved_server_def server_array_def sample_login_def)
qed

lemma desk_connect: "wp (connect_clicked desk_dialog) (\<lambda>_ e. sd_ended e = Some True \<and> sd_out e = sample_login) desk_shown"
proof -
  let ?d = "desk_shown\<lparr>sd_out := zero_login\<lparr>lg_secret := W ''pw'', lg_key_file := []\<rparr>\<rparr>"
  have d: "idle ?d" "sd_vault ?d = sample_vault" "sd_servers ?d = one_saved_server" "sd_selected ?d = 0" "sd_text ?d = sd_text desk_shown"
    using desk_facts(1) desk_more(1) by (simp_all add: desk_shown_def idle_def desk_empty_def)
  note ed = desk_edited [OF d(3-5)]
  have "wp (dialog_save_server desk_dialog) (\<lambda>ok e. ok \<and> sd_servers e = one_saved_server \<and> sd_out e = sd_out ?d) ?d"
  proof -
    have "wp (persist_server_change desk_dialog one_saved_server (Some sample_login) 0)
      (\<lambda>r. wp (if r = SERVER_SAVE_OK
       then do { modify (\<lambda>d. d\<lparr>sd_loaded := (lg_secret sample_login \<noteq> [] \<or> lg_key_file sample_login \<noteq> [])\<rparr>); ret True }
       else ret False) (\<lambda>ok e. ok \<and> sd_servers e = one_saved_server \<and> sd_out e = sd_out ?d)) ?d"
      by (rule wp_mono [OF desk_persist [OF d(1,2)]]) (auto simp: wp dialog_frame_def)
    then show ?thesis using ed by (simp add: dialog_save_server_def wp d(3,4) cong: if_cong)
  qed
  then have "wp (dialog_save_server desk_dialog) (\<lambda>ok. wp (if ok
       then modify (\<lambda>d. d\<lparr>sd_out := (sd_out d)\<lparr>lg_server := server_at (sd_servers d) 0\<rparr>, sd_ended := Some True\<rparr>)
       else ret ()) (\<lambda>_ e. sd_ended e = Some True \<and> sd_out e = sample_login)) ?d"
    by (rule wp_mono) (auto simp: wp one_server zero_login_def sample_login_def)
  moreover have "(sd_out desk_shown)\<lparr>lg_secret := lstrcpyn (sd_text desk_shown S_SECRET) 512, lg_key_file := lstrcpyn (sd_text desk_shown S_KEY) 260\<rparr>
      = zero_login\<lparr>lg_secret := W ''pw'', lg_key_file := []\<rparr>" "sd_selected desk_shown = 0"
    by (simp_all add: desk_shown_def lstrcpyn_def W_Cons)
  ultimately show ?thesis
    by (simp add: connect_clicked_def wp W_Cons cong: if_cong)
qed

lemma desk_choice: "\<exists>e. run_state (ssh_choose_server desk_dialog 7 [ConnectClicked]) desk_saved = (Some sample_login, e)"
proof -
  let ?d = "desk_saved\<lparr>sd_servers := one_saved_server, sd_out := zero_login, sd_selected := 0, sd_fixed := True,
     sd_loading := False, sd_loaded := False, sd_text := (\<lambda>_. []), sd_ended := None\<rparr>"
  have init: "run_state (init_dialog desk_dialog) ?d = ((), desk_shown)"
    using desk_shows [of ?d] desk_more(1) by (simp add: init_dialog_def one_server desk_shown_def desk_empty_def)
  obtain e where e: "run_state (connect_clicked desk_dialog) desk_shown = ((), e)" by (cases "run_state (connect_clicked desk_dialog) desk_shown") auto
  have "sd_ended e = Some True" "sd_out e = sample_login" using wpD [OF desk_connect e] by simp_all
  moreover have "sd_ended desk_shown = None" by (simp add: desk_shown_def)
  ultimately show ?thesis
    using desk_load init e by (simp add: ssh_choose_server_def desk_sel(1) one_server server_proc_def)
qed

theorem stored_login_keeps_target_witness:
  "\<exists>login e t b. run_state (ssh_choose_server desk_dialog 7 [ConnectClicked]) desk_saved = (Some login, e) \<and> lg_secret login = W ''pw''
     \<and> target_name 7 = Some t \<and> sd_vault desk_saved t = Some b \<and> lg_secret login = array_text (cr_secret (record_of_bytes b))"
proof -
  obtain e where e: "run_state (ssh_choose_server desk_dialog 7 [ConnectClicked]) desk_saved = (Some sample_login, e)"
    using desk_choice by blast
  have cmp: "reflp (ieq (stores desk_dialog)) \<and> transp (ieq (stores desk_dialog)) \<and> reflp (same desk_dialog) \<and> transp (same desk_dialog)"
    by (simp add: desk_dialog_def rest_store_def reflp_def transp_def)
  have l: "logins desk_dialog = native_store vault_manager" by (simp add: desk_dialog_def)
  have "list_all untyped [ConnectClicked]" by (simp add: untyped_def)
  from stored_login_keeps_target [OF cmp vault_manager_ok l this e]
  show ?thesis using e by (auto simp: sample_login_def)
qed


end
